(* ===== verification/Prelude.thy ===== *)
theory Prelude
  imports Complex_Main "HOL-Library.Word"
begin

text \<open>
  Shared vocabulary of the development: the Go base types the program uses (\<open>uuid.UUID\<close>,
  \<open>time.Time\<close>, \<open>[]byte\<close>, \<open>float64\<close>), slice expressions, the big- and little-endian
  readers of \<open>encoding/binary\<close>, the parts of the standard library's \<open>strings\<close> package the
  sources call, and the generic list, option and word lemmas the components share.

  A \<open>uuid\<close> is its 128-bit value with the zero value as \<open>uuid.Nil\<close>; its text form is produced by a
  package outside the repository, so it is an argument of the definitions that print one,
  and the locale \<open>uuid_text\<close> states what they rely on. A \<open>time\<close> is a count of nanoseconds since the
  Unix epoch (UTC). A \<open>float64\<close> is an exact rational: rounding is not modelled.
\<close>

named_theorems view_simps \<open>unfoldings of the record builders that make wire views\<close>
named_theorems chain_simps \<open>unfoldings of the visibility resolution chain\<close>
named_theorems store_simps \<open>unfoldings of repository operations\<close>

type_synonym uuid = "128 word"
type_synonym time = int
type_synonym byte = "8 word"
type_synonym bytes = "8 word list"
type_synonym float64 = rat

abbreviation uuid_Nil :: uuid where
  "uuid_Nil \<equiv> 0"

subsection \<open>Slices\<close>

text \<open>The slice expression \<open>data[i:j]\<close> for bounds that the code has checked.\<close>

definition go_slice :: "'a list \<Rightarrow> nat \<Rightarrow> nat \<Rightarrow> 'a list" where
  "go_slice xs i j = take (j - i) (drop i xs)"

lemma length_go_slice [simp]: "length (go_slice xs i j) = min (j - i) (length xs - i)"
  by (simp add: go_slice_def min.commute)

lemma go_slice_drop: "go_slice (drop k xs) i j = go_slice xs (k + i) (k + j)"
  by (simp add: go_slice_def add.commute)

lemma go_slice_append_left [simp]: "go_slice (xs @ ys) 0 (length xs) = xs"
  by (simp add: go_slice_def)

lemma go_slice_0 [simp]: "go_slice xs 0 j = take j xs"
  by (simp add: go_slice_def)

subsection \<open>Fixed-width integers on the wire\<close>

definition be16 :: "bytes \<Rightarrow> nat" where
  "be16 bs = unat (bs ! 0) * 256 + unat (bs ! 1)"

definition put_be16 :: "nat \<Rightarrow> bytes" where
  "put_be16 n = [word_of_nat (n div 256), word_of_nat (n mod 256)]"

definition be32 :: "bytes \<Rightarrow> nat" where
  "be32 bs = ((unat (bs ! 0) * 256 + unat (bs ! 1)) * 256 + unat (bs ! 2)) * 256 + unat (bs ! 3)"

definition put_be32 :: "nat \<Rightarrow> bytes" where
  "put_be32 n = [word_of_nat (n div 16777216), word_of_nat (n div 65536 mod 256),
                 word_of_nat (n div 256 mod 256), word_of_nat (n mod 256)]"

definition le32 :: "bytes \<Rightarrow> nat" where
  "le32 bs = unat (bs ! 0) + 256 * (unat (bs ! 1) + 256 * (unat (bs ! 2) + 256 * unat (bs ! 3)))"

definition put_le32 :: "nat \<Rightarrow> bytes" where
  "put_le32 n = [word_of_nat (n mod 256), word_of_nat (n div 256 mod 256),
                 word_of_nat (n div 65536 mod 256), word_of_nat (n div 16777216)]"

lemma unat_byte_of_nat: "unat (word_of_nat n :: byte) = n mod 256"
  by (simp add: unat_of_nat)

lemma unat_byte_less: "unat (b :: byte) < 256"
  using unsigned_less [where 'a = nat, of b] by simp

lemma length_put_be16 [simp]: "length (put_be16 n) = 2"
  by (simp add: put_be16_def)

lemma length_put_le32 [simp]: "length (put_le32 n) = 4"
  by (simp add: put_le32_def)

lemma be16_put_be16: "n < 65536 \<Longrightarrow> be16 (put_be16 n) = n"
  by (simp add: be16_def put_be16_def unat_byte_of_nat)

lemma be16_bound: "be16 bs < 65536"
  using unat_byte_less [of "bs ! 0"] unat_byte_less [of "bs ! 1"] by (simp add: be16_def)

lemma le32_put_le32:
  assumes "n < 4294967296"
  shows "le32 (put_le32 n) = n"
proof -
  define a where "a = n div 256"
  define b where "b = a div 256"
  define c where "c = b div 256"
  have eqs: "n div 65536 = b" "n div 16777216 = c" "n div 256 = a"
    by (simp_all add: a_def b_def c_def div_mult2_eq [symmetric])
  have "c < 256" using assms by (simp add: eqs(2) [symmetric])
  then have "le32 (put_le32 n) = n mod 256 + 256 * (a mod 256 + 256 * (b mod 256 + 256 * c))"
    by (simp add: le32_def put_le32_def unat_byte_of_nat eqs)
  also have "\<dots> = n"
    using mod_mult_div_eq [of n 256] mod_mult_div_eq [of a 256] mod_mult_div_eq [of b 256]
    by (simp add: a_def b_def c_def)
  finally show ?thesis .
qed

subsection \<open>The standard library's string functions\<close>

definition hasPrefix :: "'a list \<Rightarrow> 'a list \<Rightarrow> bool" where
  "hasPrefix s p \<longleftrightarrow> take (length p) s = p"

lemma hasPrefix_append [simp]: "hasPrefix (p @ s) p"
  by (simp add: hasPrefix_def)

lemma hasPrefix_iff: "hasPrefix s p \<longleftrightarrow> (\<exists>t. s = p @ t)"
  by (metis append_eq_conv_conj append_take_drop_id hasPrefix_def)

text \<open>ASCII white space, as \<open>strings.TrimSpace\<close> removes it from both ends.\<close>

definition is_space :: "char \<Rightarrow> bool" where
  "is_space c \<longleftrightarrow> c \<in> {CHR '' '', CHR 0x09, CHR 0x0A, CHR 0x0B, CHR 0x0C, CHR 0x0D}"

definition trimSpace :: "string \<Rightarrow> string" where
  "trimSpace s = rev (dropWhile is_space (rev (dropWhile is_space s)))"

text \<open>\<open>strings.Split\<close> on a one-character separator: the pieces between the separators.\<close>

fun split_on :: "char \<Rightarrow> string \<Rightarrow> string list" where
  "split_on c [] = [[]]"
| "split_on c (x # xs) =
     (if x = c then [] # split_on c xs
      else (case split_on c xs of [] \<Rightarrow> [[x]] | p # ps \<Rightarrow> (x # p) # ps))"

lemma split_on_not_Nil [simp]: "split_on c s \<noteq> []"
  by (induction s) (auto split: list.splits)

subsection \<open>Lists\<close>

lemma filter_idem [simp]: "filter P (filter P xs) = filter P xs"
  by simp

fun first_some :: "'a option list \<Rightarrow> 'a option" where
  "first_some [] = None"
| "first_some (x # xs) = (case x of Some a \<Rightarrow> Some a | None \<Rightarrow> first_some xs)"

lemma first_some_None: "first_some xs = None \<longleftrightarrow> set xs \<subseteq> {None}"
  by (induction xs) (auto split: option.splits)

lemma first_some_in: "first_some xs = Some a \<Longrightarrow> Some a \<in> set xs"
  by (induction xs) (auto split: option.splits)

lemma ex_Inr_iff: "(\<exists>b. x = Inr b) \<longleftrightarrow> \<not> isl x"
  by (cases x) auto

subsection \<open>Steps that can fail\<close>

definition sum_bind :: "'e + 'a \<Rightarrow> ('a \<Rightarrow> 'e + 'b) \<Rightarrow> 'e + 'b" where
  "sum_bind m k = (case m of Inl e \<Rightarrow> Inl e | Inr a \<Rightarrow> k a)"

lemma sum_bind_simps [simp]: "sum_bind (Inl e) k = Inl e" "sum_bind (Inr a) k = k a"
  by (simp_all add: sum_bind_def)

lemma sum_bind_Inr: "sum_bind m k = Inr z \<longleftrightarrow> (\<exists>a. m = Inr a \<and> k a = Inr z)"
  by (cases m) simp_all

definition ensure :: "bool \<Rightarrow> 'e \<Rightarrow> 'e + unit" where
  "ensure ok e = (if ok then Inr () else Inl e)"

lemma ensure_Inr [simp]: "ensure ok e = Inr x \<longleftrightarrow> ok"
  by (simp add: ensure_def)

subsection \<open>Identifiers as text\<close>

text \<open>
  What the authorization layer relies on of \<open>uuid.UUID.String\<close>: distinct identifiers have distinct
  text, and the text is never empty.
\<close>

locale uuid_text =
  fixes str :: "uuid \<Rightarrow> string"
  assumes str_inj: "str a = str b \<Longrightarrow> a = b"
    and str_nonempty: "str a \<noteq> []"
begin

lemma str_eq_iff [simp]: "str a = str b \<longleftrightarrow> a = b"
  using str_inj by blast

end

text \<open>
  A concrete rendering that satisfies the contract: the 32 hexadecimal digits of the value, most
  significant first. The properties' witnesses instantiate the parameter with it.
\<close>

definition hex_digit :: "nat \<Rightarrow> char" where
  "hex_digit n = ''0123456789abcdef'' ! n"

fun hex_digits :: "nat \<Rightarrow> nat \<Rightarrow> string" where
  "hex_digits 0 n = []"
| "hex_digits (Suc k) n = hex_digits k (n div 16) @ [hex_digit (n mod 16)]"

definition uuid_hex :: "uuid \<Rightarrow> string" where
  "uuid_hex u = hex_digits 32 (unat u)"

lemma hex_digit_inj:
  assumes "m < 16" "n < 16" "hex_digit m = hex_digit n"
  shows "m = n"
proof -
  have "distinct ''0123456789abcdef''" by simp
  moreover have "length ''0123456789abcdef'' = 16" by simp
  ultimately show ?thesis
    using assms nth_eq_iff_index_eq [of "''0123456789abcdef''" m n] by (simp add: hex_digit_def)
qed

lemma length_hex_digits [simp]: "length (hex_digits k n) = k"
  by (induction k arbitrary: n) auto

lemma hex_digits_inj:
  "m < 16 ^ k \<Longrightarrow> n < 16 ^ k \<Longrightarrow> hex_digits k m = hex_digits k n \<Longrightarrow> m = n"
proof (induction k arbitrary: m n)
  case 0
  then show ?case by simp
next
  case (Suc k)
  have "m div 16 < 16 ^ k" "n div 16 < 16 ^ k"
    using Suc.prems(1,2) by (simp_all add: less_mult_imp_div_less mult.commute)
  moreover have "hex_digits k (m div 16) = hex_digits k (n div 16)"
    and "hex_digit (m mod 16) = hex_digit (n mod 16)"
    using Suc.prems(3) by simp_all
  ultimately have "m div 16 = n div 16" and "m mod 16 = n mod 16"
    using Suc.IH hex_digit_inj [of "m mod 16" "n mod 16"] by auto
  then show ?case by (metis div_mult_mod_eq)
qed

interpretation hex: uuid_text uuid_hex
proof
  fix a b :: uuid
  assume "uuid_hex a = uuid_hex b"
  moreover have "unat a < 16 ^ 32" "unat b < 16 ^ 32"
    using unsigned_less [where 'a = nat, of a] unsigned_less [where 'a = nat, of b] by simp_all
  ultimately have "unat a = unat b"
    using hex_digits_inj [of "unat a" 32 "unat b"] by (simp add: uuid_hex_def)
  then show "a = b" by (rule unsigned_word_eqI)
next
  fix a :: uuid
  show "uuid_hex a \<noteq> []"
    by (metis length_hex_digits list.size(3) uuid_hex_def zero_neq_numeral)
qed

end
