(* ===== verification/Minerals_Domain.thy ===== *)
theory Minerals_Domain
  imports Prelude
begin

text \<open>
  The core types of \<open>src/internal/domain\<close>: the string-typed enumerations with their allowed
  values, the rows of each table as records (a Go pointer field is an option), the type-specific
  payloads with their validation, and the label-template capacities. JSON columns are kept as text; the
  one time that keeps its zone is a pair of an instant and an offset. Field names carry a
  prefix per record because Isabelle's record fields share one name space.
\<close>

section \<open>Enumerations\<close>

text \<open>A Go string type is a string: values outside the constants exist and the code handles them.\<close>

type_synonym SpecimenType = string
type_synonym Visibility = string
type_synonym PhotoKind = string
type_synonym UserStatus = string
type_synonym QRSheetTemplate = string
type_synonym MineralSpeciesSource = string
type_synonym AdminContentKind = string

definition specimenTypes :: "SpecimenType list" where
  "specimenTypes = [''mineral'', ''rock'', ''meteorite'', ''fossil'']"

abbreviation VisibilityPrivate :: Visibility where "VisibilityPrivate \<equiv> ''private''"
abbreviation VisibilityUnlisted :: Visibility where "VisibilityUnlisted \<equiv> ''unlisted''"
abbreviation VisibilityPublic :: Visibility where "VisibilityPublic \<equiv> ''public''"

definition visibilities :: "Visibility list" where
  "visibilities = [VisibilityPrivate, VisibilityUnlisted, VisibilityPublic]"

definition photoKinds :: "PhotoKind list" where
  "photoKinds = [''visible'', ''uv_sw'', ''uv_mw'', ''uv_lw'', ''other'']"

definition PhotoKind_IsValid :: "PhotoKind \<Rightarrow> bool" where
  "PhotoKind_IsValid k \<longleftrightarrow>
     k = ''visible'' \<or> k = ''uv_sw'' \<or> k = ''uv_mw'' \<or> k = ''uv_lw'' \<or> k = ''other''"

abbreviation UserStatusPending :: UserStatus where "UserStatusPending \<equiv> ''pending''"
abbreviation UserStatusActive :: UserStatus where "UserStatusActive \<equiv> ''active''"
abbreviation UserStatusSuspended :: UserStatus where "UserStatusSuspended \<equiv> ''suspended''"
abbreviation UserStatusDeleted :: UserStatus where "UserStatusDeleted \<equiv> ''deleted''"

definition userStatuses :: "UserStatus list" where
  "userStatuses = [UserStatusPending, UserStatusActive, UserStatusSuspended, UserStatusDeleted]"

section \<open>Sentinel errors of the repository boundary\<close>

datatype domain_error =
    ErrSpecimenNotFound | ErrSpecimenConflict | ErrSpecimenReferenced
  | ErrSpecimenTypeImmutable | ErrSpecimenTypeDataInvalid
  | ErrPhotoNotFound | ErrPhotoConflict
  | ErrJournalEntryNotFound | ErrJournalEntryConflict | ErrJournalAttachmentNotFound
  | ErrFileNotFound | ErrFileConflict
  | ErrCollectorNotFound | ErrCollectorConflict | ErrCollectorReferenced
  | ErrMineralSpeciesNotFound | ErrMineralSpeciesConflict
  | ErrQRSheetNotFound | ErrQRSheetConflict | ErrQRSheetSpecimenNotFound | ErrQRSheetTemplateInvalid
  | ErrUserNotFound | ErrUserConflict

section \<open>Rows\<close>

record Locality =
  loc_Country :: string
  loc_Region :: string
  loc_Site :: string
  loc_Lat :: float64
  loc_Lon :: float64
  loc_MindatID :: string

record Dimensions =
  dim_LengthMM :: float64
  dim_WidthMM :: float64
  dim_HeightMM :: float64

record Specimen =
  sp_ID :: uuid
  sp_Type :: SpecimenType
  sp_CatalogNumber :: "string option"
  sp_Name :: string
  sp_Description :: string
  sp_Visibility :: Visibility
  sp_AuthorID :: uuid
  sp_AcquiredAt :: "time option"
  sp_AcquiredFrom :: "string option"
  sp_PriceCents :: "64 word option"
  sp_SourceNotes :: "string option"
  sp_LocalityText :: "string option"
  sp_Locality :: "Locality option"
  sp_MassG :: "float64 option"
  sp_Dimensions :: "Dimensions option"
  sp_TypeData :: string
  sp_MainImageID :: "uuid option"
  sp_VisibilityPrice :: "Visibility option"
  sp_VisibilityAcquiredFrom :: "Visibility option"
  sp_VisibilityImages :: "Visibility option"
  sp_Tagged :: bool
  sp_CreatedAt :: time
  sp_UpdatedAt :: time

record Photo =
  ph_ID :: uuid
  ph_SpecimenID :: uuid
  ph_FileID :: uuid
  ph_Kind :: PhotoKind
  ph_TakenAt :: "time option"
  ph_Position :: int
  ph_Visibility :: "Visibility option"
  ph_CreatedAt :: time

record JournalEntry =
  je_ID :: uuid
  je_SpecimenID :: uuid
  je_AuthorID :: uuid
  je_BodyMD :: string
  je_CreatedAt :: time
  je_UpdatedAt :: time

record JournalEntryFile =
  jf_EntryID :: uuid
  jf_FileID :: uuid
  jf_Position :: int
  jf_CreatedAt :: time

record Collector =
  co_ID :: uuid
  co_Name :: string
  co_Notes :: "string option"
  co_AuthorID :: uuid
  co_CreatedAt :: time
  co_UpdatedAt :: time

record File =
  fi_ID :: uuid
  fi_S3Key :: string
  fi_ContentType :: string
  fi_ByteSize :: int
  fi_SHA256 :: string
  fi_UploadedAt :: time
  fi_UploadedBy :: uuid

record SpecimenCollectorLink =
  scl_Collector :: Collector
  scl_Position :: int

record MineralSpecies =
  ms_ID :: uuid
  ms_Name :: string
  ms_Source :: MineralSpeciesSource
  ms_MindatID :: "string option"
  ms_Data :: string
  ms_Attribution :: "string option"
  ms_AuthorID :: uuid
  ms_CreatedAt :: time
  ms_UpdatedAt :: time

record QRSheet =
  qs_ID :: uuid
  qs_UserID :: uuid
  qs_Template :: QRSheetTemplate
  qs_CreatedAt :: time
  qs_UpdatedAt :: time

record QRSheetEntry =
  qe_SpecimenID :: uuid
  qe_SpecimenName :: string
  qe_Position :: int
  qe_AddedAt :: time
  qe_FirstPhotoID :: "uuid option"

record FieldDefaults =
  fd_Price :: "Visibility option"
  fd_AcquiredFrom :: "Visibility option"
  fd_AcquiredAt :: "Visibility option"
  fd_CatalogNumber :: "Visibility option"
  fd_Images :: "Visibility option"

record User =
  us_ID :: uuid
  us_KeycloakSub :: string
  us_Email :: string
  us_DisplayName :: "string option"
  us_Status :: UserStatus
  us_FieldDefaults :: "FieldDefaults option"
  us_DefaultSpecimenVisibility :: "Visibility option"
  us_CreatedAt :: time
  us_UpdatedAt :: time

record AccountErasure =
  ae_FreedObjectKeys :: "string list"
  ae_Specimens :: nat
  ae_Photos :: nat
  ae_JournalEntries :: nat
  ae_Collectors :: nat
  ae_Files :: nat
  ae_QRSheets :: nat
  ae_ReassignedSpecies :: nat

text \<open>The zero values \<open>domain.User{}\<close>, \<open>domain.Specimen{}\<close> and \<open>domain.Photo{}\<close>.\<close>

definition User_zero :: User where
  "User_zero = \<lparr>us_ID = uuid_Nil, us_KeycloakSub = [], us_Email = [], us_DisplayName = None,
     us_Status = [], us_FieldDefaults = None, us_DefaultSpecimenVisibility = None,
     us_CreatedAt = 0, us_UpdatedAt = 0\<rparr>"

definition Specimen_zero :: Specimen where
  "Specimen_zero = \<lparr>sp_ID = uuid_Nil, sp_Type = [], sp_CatalogNumber = None, sp_Name = [],
     sp_Description = [], sp_Visibility = [], sp_AuthorID = uuid_Nil, sp_AcquiredAt = None,
     sp_AcquiredFrom = None, sp_PriceCents = None, sp_SourceNotes = None, sp_LocalityText = None,
     sp_Locality = None, sp_MassG = None, sp_Dimensions = None, sp_TypeData = [],
     sp_MainImageID = None, sp_VisibilityPrice = None, sp_VisibilityAcquiredFrom = None,
     sp_VisibilityImages = None, sp_Tagged = False, sp_CreatedAt = 0, sp_UpdatedAt = 0\<rparr>"

definition Photo_zero :: Photo where
  "Photo_zero = \<lparr>ph_ID = uuid_Nil, ph_SpecimenID = uuid_Nil, ph_FileID = uuid_Nil, ph_Kind = [],
     ph_TakenAt = None, ph_Position = 0, ph_Visibility = None, ph_CreatedAt = 0\<rparr>"

section \<open>Type-specific payloads\<close>

record MineralData =
  md_ChemicalFormula :: "string option"
  md_MineralSpecies :: "string list"
  md_CrystalSystem :: "string option"
  md_MohsHardness :: "float64 option"
  md_Color :: "string option"
  md_Luster :: "string option"
  md_FluorescenceSW :: "string list"
  md_FluorescenceMW :: "string list"
  md_FluorescenceLW :: "string list"
  md_Radioactive :: "bool option"
  md_Magnetic :: "bool option"
  md_ReactsToAcid :: "bool option"
  md_MindatID :: "string option"

record RockData =
  rd_RockType :: "string option"
  rd_Composition :: "string option"
  rd_FormationContext :: "string option"

record MeteoriteData =
  mt_Classification :: "string option"
  mt_FallOrFind :: "string option"
  mt_FallOrFindDate :: "(time \<times> int) option"
  mt_OfficialName :: "string option"
  mt_TotalKnownWeightG :: "float64 option"
  mt_MetbullRef :: "string option"

record FossilData =
  fo_Taxon :: "string option"
  fo_TaxonomicGroup :: "string option"
  fo_GeologicPeriod :: "string option"
  fo_Formation :: "string option"
  fo_Locality :: "string option"
  fo_PreservationType :: "string option"
  fo_Completeness :: "string option"
  fo_Prepared :: "bool option"
  fo_PrepNotes :: "string option"

definition validRockTypes :: "string list" where
  "validRockTypes = [''igneous'', ''sedimentary'', ''metamorphic'']"

definition validFallOrFind :: "string list" where
  "validFallOrFind = [''fall'', ''find'']"

definition ValidFluorescenceColors :: "string list" where
  "ValidFluorescenceColors =
     [''Red'', ''Orange'', ''Yellow'', ''Green'', ''Blue'', ''Violet'', ''Pink'', ''White'', ''Cream'',
      ''Blue-green'', ''Blue-violet'', ''Red-orange'', ''Orange-yellow'', ''Greenish-yellow'',
      ''Cherry red'']"

text \<open>
  Every validation error wraps \<open>ErrSpecimenTypeDataInvalid\<close>; the constructors keep which check
  failed and, for a colour, the field and the value the message quotes.
\<close>

datatype type_data_error =
    MohsHardnessOutOfRange
  | ColorNotRecognized string string
  | RockTypeNotRecognized
  | FallOrFindNotRecognized
  | NegativeTotalKnownWeight

fun check_colors :: "string \<Rightarrow> string list \<Rightarrow> type_data_error option" where
  "check_colors fld [] = None"
| "check_colors fld (c # cs) =
     (if c \<in> set ValidFluorescenceColors then check_colors fld cs
      else Some (ColorNotRecognized fld c))"

fun check_color_groups :: "(string \<times> string list) list \<Rightarrow> type_data_error option" where
  "check_color_groups [] = None"
| "check_color_groups ((fld, cs) # gs) =
     (case check_colors fld cs of Some e \<Rightarrow> Some e | None \<Rightarrow> check_color_groups gs)"

definition MineralData_Validate :: "MineralData \<Rightarrow> type_data_error option" where
  "MineralData_Validate m =
     (if (case md_MohsHardness m of Some h \<Rightarrow> h < 0 \<or> h > 10 | None \<Rightarrow> False)
      then Some MohsHardnessOutOfRange
      else check_color_groups
        [(''fluorescence_sw'', md_FluorescenceSW m),
         (''fluorescence_mw'', md_FluorescenceMW m),
         (''fluorescence_lw'', md_FluorescenceLW m)])"

definition RockData_Validate :: "RockData \<Rightarrow> type_data_error option" where
  "RockData_Validate r =
     (case rd_RockType r of
        Some t \<Rightarrow> (if t \<in> set validRockTypes then None else Some RockTypeNotRecognized)
      | None \<Rightarrow> None)"

definition MeteoriteData_Validate :: "MeteoriteData \<Rightarrow> type_data_error option" where
  "MeteoriteData_Validate m =
     (if (case mt_FallOrFind m of Some t \<Rightarrow> t \<notin> set validFallOrFind | None \<Rightarrow> False)
      then Some FallOrFindNotRecognized
      else if (case mt_TotalKnownWeightG m of Some w \<Rightarrow> w < 0 | None \<Rightarrow> False)
      then Some NegativeTotalKnownWeight
      else None)"

definition FossilData_Validate :: "FossilData \<Rightarrow> type_data_error option" where
  "FossilData_Validate f = None"

section \<open>Label templates\<close>

text \<open>\<open>(0, false)\<close> of the source is \<open>None\<close>.\<close>

definition QRSheetTemplateCapacity :: "QRSheetTemplate \<Rightarrow> nat option" where
  "QRSheetTemplateCapacity t =
     (if t = ''avery-5160'' then Some 30
      else if t = ''avery-5163'' then Some 10
      else if t = ''avery-5164'' then Some 6
      else if t = ''avery-22806'' then Some 12
      else if t = ''avery-l7160'' then Some 21
      else None)"

section \<open>Lemmas\<close>

lemma PhotoKind_IsValid_iff: "PhotoKind_IsValid k \<longleftrightarrow> k \<in> set photoKinds"
  by (simp add: PhotoKind_IsValid_def photoKinds_def)

lemma QRSheetTemplateCapacity_pos: "QRSheetTemplateCapacity t = Some n \<Longrightarrow> 0 < n"
  by (auto simp: QRSheetTemplateCapacity_def split: if_splits)

lemma check_colors_None: "check_colors fld cs = None \<longleftrightarrow> set cs \<subseteq> set ValidFluorescenceColors"
  by (induction cs) auto

lemma check_color_groups_None:
  "check_color_groups gs = None \<longleftrightarrow> (\<forall>(fld, cs) \<in> set gs. set cs \<subseteq> set ValidFluorescenceColors)"
proof (induction gs rule: check_color_groups.induct)
  case (2 fld cs gs)
  then show ?case
    using check_colors_None [of fld cs] by (cases "check_colors fld cs") auto
qed simp

lemma check_colors_Some:
  "check_colors fld cs = Some e \<Longrightarrow>
   \<exists>c pre post. e = ColorNotRecognized fld c \<and> cs = pre @ c # post
     \<and> set pre \<subseteq> set ValidFluorescenceColors \<and> c \<notin> set ValidFluorescenceColors"
proof (induction cs)
  case Nil
  then show ?case by simp
next
  case (Cons c cs)
  show ?case
  proof (cases "c \<in> set ValidFluorescenceColors")
    case True
    with Cons obtain d pre post where "e = ColorNotRecognized fld d" "cs = pre @ d # post"
      "set pre \<subseteq> set ValidFluorescenceColors" "d \<notin> set ValidFluorescenceColors" by auto
    with True show ?thesis by (intro exI [of _ d] exI [of _ "c # pre"] exI [of _ post]) auto
  next
    case False
    with Cons.prems show ?thesis by (intro exI [of _ c] exI [of _ "[]"] exI [of _ cs]) auto
  qed
qed

text \<open>The vocabulary leaves "not fluorescent" to an empty list: Black and Brown are not colours.\<close>

lemma no_black_no_brown:
  "''Black'' \<notin> set ValidFluorescenceColors" "''Brown'' \<notin> set ValidFluorescenceColors"
  by (simp_all add: ValidFluorescenceColors_def)

end
