(* ===== verification/FieldVisibility.thy ===== *)
theory FieldVisibility
  imports Minerals_Domain
begin

text \<open>
  \<open>src/internal/visibility\<close>: the resolution chain that decides which visibility applies to a
  redactable field of a specimen, and which layer of the chain it came from. The lemmas relate the
  two resolvers to one abstract chain, a list of labelled layers of which the first that is set
  wins.
\<close>

datatype Field = FieldPrice | FieldAcquiredFrom | FieldAcquiredAt | FieldCatalogNumber | FieldImages

definition Field_String :: "Field \<Rightarrow> string" where
  "Field_String f = (case f of
       FieldPrice \<Rightarrow> ''price''
     | FieldAcquiredFrom \<Rightarrow> ''acquired_from''
     | FieldAcquiredAt \<Rightarrow> ''acquired_at''
     | FieldCatalogNumber \<Rightarrow> ''catalog_number''
     | FieldImages \<Rightarrow> ''images'')"

datatype Source =
    SourceImage | SourceSpecimenField | SourceSpecimenOverall | SourceUserDefault | SourceSystemDefault

definition SystemDefault :: Visibility where
  "SystemDefault = VisibilityPrivate"

record Resolution =
  res_Visibility :: Visibility
  res_Source :: Source

definition specimenScalarOverride :: "Field \<Rightarrow> Specimen \<Rightarrow> Visibility option" where
  "specimenScalarOverride field spec = (case field of
       FieldPrice \<Rightarrow> sp_VisibilityPrice spec
     | FieldAcquiredFrom \<Rightarrow> sp_VisibilityAcquiredFrom spec
     | _ \<Rightarrow> None)"

definition ownerDefault :: "Field \<Rightarrow> User \<Rightarrow> Visibility option" where
  "ownerDefault field owner = (case us_FieldDefaults owner of
       None \<Rightarrow> None
     | Some fd \<Rightarrow> (case field of
           FieldPrice \<Rightarrow> fd_Price fd
         | FieldAcquiredFrom \<Rightarrow> fd_AcquiredFrom fd
         | FieldAcquiredAt \<Rightarrow> fd_AcquiredAt fd
         | FieldCatalogNumber \<Rightarrow> fd_CatalogNumber fd
         | FieldImages \<Rightarrow> fd_Images fd))"

definition ResolveScalar :: "Field \<Rightarrow> Specimen \<Rightarrow> User \<Rightarrow> Resolution" where
  "ResolveScalar field spec owner =
     (case specimenScalarOverride field spec of
        Some v \<Rightarrow> \<lparr>res_Visibility = v, res_Source = SourceSpecimenField\<rparr>
      | None \<Rightarrow>
     (case ownerDefault field owner of
        Some v \<Rightarrow> \<lparr>res_Visibility = v, res_Source = SourceUserDefault\<rparr>
      | None \<Rightarrow> \<lparr>res_Visibility = SystemDefault, res_Source = SourceSystemDefault\<rparr>))"

definition ResolveImage :: "Specimen \<Rightarrow> User \<Rightarrow> Photo \<Rightarrow> Resolution" where
  "ResolveImage spec owner img =
     (case ph_Visibility img of
        Some v \<Rightarrow> \<lparr>res_Visibility = v, res_Source = SourceImage\<rparr>
      | None \<Rightarrow>
     (case sp_VisibilityImages spec of
        Some v \<Rightarrow> \<lparr>res_Visibility = v, res_Source = SourceSpecimenField\<rparr>
      | None \<Rightarrow>
     (if sp_Visibility spec \<noteq> []
      then \<lparr>res_Visibility = sp_Visibility spec, res_Source = SourceSpecimenOverall\<rparr>
      else
     (case ownerDefault FieldImages owner of
        Some v \<Rightarrow> \<lparr>res_Visibility = v, res_Source = SourceUserDefault\<rparr>
      | None \<Rightarrow> \<lparr>res_Visibility = SystemDefault, res_Source = SourceSystemDefault\<rparr>))))"

section \<open>The abstract chain\<close>

text \<open>
  A chain is a list of layers, each a source and an optional value. It resolves to the first layer
  that is set, and to the system default when none is: no merging and no most-restrictive-of.
\<close>

fun resolve_chain :: "(Source \<times> Visibility option) list \<Rightarrow> Resolution" where
  "resolve_chain [] = \<lparr>res_Visibility = SystemDefault, res_Source = SourceSystemDefault\<rparr>"
| "resolve_chain ((s, Some v) # ls) = \<lparr>res_Visibility = v, res_Source = s\<rparr>"
| "resolve_chain ((s, None) # ls) = resolve_chain ls"

definition scalar_chain :: "Field \<Rightarrow> Specimen \<Rightarrow> User \<Rightarrow> (Source \<times> Visibility option) list" where
  "scalar_chain field spec owner =
     [(SourceSpecimenField, specimenScalarOverride field spec),
      (SourceUserDefault, ownerDefault field owner)]"

definition image_chain :: "Specimen \<Rightarrow> User \<Rightarrow> Photo \<Rightarrow> (Source \<times> Visibility option) list" where
  "image_chain spec owner img =
     [(SourceImage, ph_Visibility img),
      (SourceSpecimenField, sp_VisibilityImages spec),
      (SourceSpecimenOverall, if sp_Visibility spec = [] then None else Some (sp_Visibility spec)),
      (SourceUserDefault, ownerDefault FieldImages owner)]"

text \<open>A layer of the chain wins exactly when it is set and every layer before it is not.\<close>

definition chain_winner :: "(Source \<times> Visibility option) list \<Rightarrow> Source \<Rightarrow> Visibility \<Rightarrow> bool" where
  "chain_winner ls s v \<longleftrightarrow>
     (\<exists>pre post. ls = pre @ (s, Some v) # post \<and> map snd pre = replicate (length pre) None)"

lemma chain_winner_Cons_None [simp]: "chain_winner ((t, None) # ls) s v \<longleftrightarrow> chain_winner ls s v"
proof
  assume "chain_winner ((t, None) # ls) s v"
  then obtain pre post where h: "(t, None) # ls = pre @ (s, Some v) # post"
    "map snd pre = replicate (length pre) None" by (auto simp: chain_winner_def)
  then show "chain_winner ls s v"
    by (cases pre) (auto simp: chain_winner_def)
next
  assume "chain_winner ls s v"
  then obtain pre post where "ls = pre @ (s, Some v) # post"
    "map snd pre = replicate (length pre) None" by (auto simp: chain_winner_def)
  then show "chain_winner ((t, None) # ls) s v"
    unfolding chain_winner_def by (intro exI [of _ "(t, None) # pre"] exI [of _ post]) simp
qed

lemma chain_winner_Cons_Some [simp]:
  "chain_winner ((t, Some w) # ls) s v \<longleftrightarrow> s = t \<and> v = w"
proof
  assume "chain_winner ((t, Some w) # ls) s v"
  then show "s = t \<and> v = w" by (auto simp: chain_winner_def Cons_eq_append_conv)
next
  assume "s = t \<and> v = w"
  then show "chain_winner ((t, Some w) # ls) s v"
    unfolding chain_winner_def by (intro exI [of _ "[]"] exI [of _ ls]) simp
qed

lemma chain_winner_Nil [simp]: "\<not> chain_winner [] s v"
  by (simp add: chain_winner_def)

lemma resolve_chain_iff:
  "s \<noteq> SourceSystemDefault \<Longrightarrow>
   resolve_chain ls = \<lparr>res_Visibility = v, res_Source = s\<rparr> \<longleftrightarrow> chain_winner ls s v"
  by (induction ls rule: resolve_chain.induct) auto

lemma resolve_chain_default:
  "SourceSystemDefault \<notin> fst ` set ls \<Longrightarrow>
   res_Source (resolve_chain ls) = SourceSystemDefault \<longleftrightarrow> (\<forall>l \<in> set ls. snd l = None)"
  by (induction ls rule: resolve_chain.induct) auto

lemma ResolveScalar_chain [chain_simps]:
  "ResolveScalar field spec owner = resolve_chain (scalar_chain field spec owner)"
  by (auto simp: ResolveScalar_def scalar_chain_def split: option.splits)

lemma ResolveImage_chain [chain_simps]:
  "ResolveImage spec owner img = resolve_chain (image_chain spec owner img)"
  by (auto simp: ResolveImage_def image_chain_def split: option.splits)

lemma image_default:
  "res_Source (resolve_chain (image_chain spec owner img)) = SourceSystemDefault \<longrightarrow>
   res_Visibility (resolve_chain (image_chain spec owner img)) = VisibilityPrivate"
  by (simp add: ResolveImage_chain [symmetric] ResolveImage_def SystemDefault_def split: option.split)

text \<open>The scalar chain does not look at the specimen's overall visibility.\<close>

lemma ResolveScalar_overall_irrelevant:
  "ResolveScalar field (spec\<lparr>sp_Visibility := v\<rparr>) owner = ResolveScalar field spec owner"
  by (cases field) (simp_all add: ResolveScalar_def specimenScalarOverride_def)

lemma ResolveScalar_zero_owner:
  "specimenScalarOverride field spec = None \<Longrightarrow>
   res_Visibility (ResolveScalar field spec User_zero) = VisibilityPrivate"
  by (simp add: ResolveScalar_def ownerDefault_def User_zero_def SystemDefault_def)

lemma Field_String_inj: "Field_String f = Field_String g \<Longrightarrow> f = g"
  by (cases f; cases g) (simp_all add: Field_String_def)

section \<open>Properties\<close>

text \<open>
  The image resolver implements the documented chain. It reports the value \<open>v\<close> with a source
  \<open>s\<close> other than the system default exactly when \<open>s\<close> is set to \<open>v\<close> and every earlier layer (in
  the order photo, specimen images field, specimen overall, owner default) is unset; when it
  reports the system default, the value is \<open>private\<close>. The scalar resolver does the same for the
  layers specimen field and owner default.
\<close>

lemma resolvers_first_set_layer_wins:
  assumes "s \<noteq> SourceSystemDefault"
  shows "(ResolveImage spec owner img = \<lparr>res_Visibility = v, res_Source = s\<rparr>
           \<longleftrightarrow> chain_winner (image_chain spec owner img) s v)
    \<and> (ResolveScalar field spec owner = \<lparr>res_Visibility = v, res_Source = s\<rparr>
           \<longleftrightarrow> chain_winner (scalar_chain field spec owner) s v)
    \<and> (res_Source (ResolveImage spec owner img) = SourceSystemDefault
           \<longrightarrow> res_Visibility (ResolveImage spec owner img) = VisibilityPrivate)"
  using resolve_chain_iff [OF assms]
  by (simp add: ResolveScalar_chain ResolveImage_chain image_default)

lemma resolvers_first_set_layer_wins_example:
  "ResolveImage (Specimen_zero\<lparr>sp_Visibility := VisibilityPrivate\<rparr>) User_zero
     (Photo_zero\<lparr>ph_Visibility := Some VisibilityPublic\<rparr>)
   = \<lparr>res_Visibility = VisibilityPublic, res_Source = SourceImage\<rparr>"
  using resolvers_first_set_layer_wins [of SourceImage
      "Specimen_zero\<lparr>sp_Visibility := VisibilityPrivate\<rparr>" User_zero
      "Photo_zero\<lparr>ph_Visibility := Some VisibilityPublic\<rparr>" VisibilityPublic FieldPrice]
  by (simp add: image_chain_def)

end
