(* ===== verification/Authz.thy ===== *)
theory Authz
  imports Minerals_Domain
begin

text \<open>
  \<open>src/internal/authz\<close>: the role and instance permission model. The policy evaluator itself is the
  Casbin library, which is not part of the repository: \<open>Enforce\<close> takes it as an argument, and the
  locale \<open>casbin_enforcer\<close> states what the code relies on (the documented meaning of the model text:
  some policy whose matcher is true allows, none denies). The matcher, the two custom matcher
  functions, the default policies and the role inheritance are the repository's own.
\<close>

record Resource =
  r_Type :: string
  r_ID :: string
  r_Visibility :: string
  r_AuthorID :: string

record authz_User =
  au_ID :: string
  au_Roles :: "string list"

text \<open>A lookup in the shares table may fail (\<open>Inl\<close> the driver's error).\<close>

type_synonym SharesLookup = "string \<Rightarrow> string \<Rightarrow> string \<Rightarrow> string + bool"

text \<open>A policy row is role, resource type, instance qualifier, action set.\<close>

type_synonym policy = "string \<times> string \<times> string \<times> string"

type_synonym enforcer = "string \<Rightarrow> string \<Rightarrow> Resource \<Rightarrow> string \<Rightarrow> string + bool"

datatype authz_error = ErrUnknownAction | ErrNoResource | EnforceRole string string

definition DefaultPolicies :: "policy list" where
  "DefaultPolicies =
    [(''anonymous'', ''specimens'', ''public'', ''view''),
     (''anonymous'', ''specimens'', ''unlisted'', ''view''),
     (''anonymous'', ''photos'', ''public'', ''view''),
     (''anonymous'', ''photos'', ''unlisted'', ''view''),
     (''user'', ''specimens'', ''own'', ''*''),
     (''user'', ''photos'', ''own'', ''*''),
     (''user'', ''journal'', ''own'', ''*''),
     (''user'', ''collectors'', ''own'', ''*''),
     (''user'', ''qr-sheets'', ''own'', ''*''),
     (''user'', ''specimens'', ''shared'', ''view''),
     (''user'', ''photos'', ''shared'', ''view''),
     (''devops-viewer'', ''devops'', ''*'', ''view''),
     (''devops-admin'', ''devops'', ''*'', ''view,edit''),
     (''admin'', ''*'', ''*'', ''*''),
     (''admin'', ''users'', ''*'', ''*'')]"

definition DefaultGroupings :: "(string \<times> string) list" where
  "DefaultGroupings = [(''devops-admin'', ''devops-viewer'')]"

definition actionMatchFn :: "string \<Rightarrow> string \<Rightarrow> bool" where
  "actionMatchFn reqAct polAct \<longleftrightarrow>
     polAct = ''*'' \<or> reqAct \<in> set (map trimSpace (split_on (CHR '','') polAct))"

text \<open>The instance qualifiers; a nil lookup makes every \<open>shared\<close> check false.\<close>

definition instanceMatchFn ::
  "SharesLookup option \<Rightarrow> string \<Rightarrow> string \<Rightarrow> Resource \<Rightarrow> string + bool" where
  "instanceMatchFn shares polInst subID obj =
     (if polInst = ''*'' then Inr True
      else if polInst = ''public'' then Inr (r_Visibility obj = ''public'')
      else if polInst = ''unlisted'' then Inr (r_Visibility obj = ''unlisted'')
      else if polInst = ''own'' then Inr (subID \<noteq> [] \<and> r_AuthorID obj = subID)
      else if polInst = ''shared'' then
        (case shares of
           None \<Rightarrow> Inr False
         | Some look \<Rightarrow>
             if subID = [] \<or> r_ID obj = [] then Inr False
             else look (r_Type obj) (r_ID obj) subID)
      else Inr (r_ID obj = polInst))"

text \<open>
  The role definition \<open>g = _, _\<close>: a role is linked to itself and to every role reachable through
  the groupings, followed to the library's default depth of ten.
\<close>

fun role_link :: "nat \<Rightarrow> (string \<times> string) list \<Rightarrow> string \<Rightarrow> string \<Rightarrow> bool" where
  "role_link 0 gs a b \<longleftrightarrow> a = b"
| "role_link (Suc n) gs a b \<longleftrightarrow> a = b \<or> (\<exists>(x, y) \<in> set gs. x = a \<and> role_link n gs y b)"

text \<open>The matcher line of the model text, with the conjunction's short circuit.\<close>

definition matcher ::
  "(string \<times> string) list \<Rightarrow> SharesLookup option \<Rightarrow> policy \<Rightarrow> string \<Rightarrow> string \<Rightarrow> Resource \<Rightarrow> string
   \<Rightarrow> string + bool" where
  "matcher gs shares p role subID obj act =
     (case p of (psub, ptype, pinst, pact) \<Rightarrow>
        if role_link 10 gs role psub \<and> (ptype = ''*'' \<or> r_Type obj = ptype)
           \<and> actionMatchFn act pact
        then instanceMatchFn shares pinst subID obj
        else Inr False)"

fun enforce_roles ::
  "enforcer \<Rightarrow> string \<Rightarrow> Resource \<Rightarrow> string \<Rightarrow> string list \<Rightarrow> authz_error + bool" where
  "enforce_roles enf uid obj act [] = Inr False"
| "enforce_roles enf uid obj act (role # roles) =
     (case enf role uid obj act of
        Inl e \<Rightarrow> Inl (EnforceRole role e)
      | Inr ok \<Rightarrow> if ok then Inr True else enforce_roles enf uid obj act roles)"

definition Enforce ::
  "enforcer \<Rightarrow> authz_User \<Rightarrow> Resource option \<Rightarrow> string \<Rightarrow> authz_error + bool" where
  "Enforce enf u obj act =
     (if act = [] then Inl ErrUnknownAction
      else case obj of
        None \<Rightarrow> Inl ErrNoResource
      | Some res \<Rightarrow> enforce_roles enf (au_ID u) res act (au_Roles u))"

section \<open>The contract of the policy evaluator\<close>

text \<open>
  The policy effect \<open>some(where (p.eft == allow))\<close> as its documentation gives it: an allow
  decision rests on a policy whose matcher is true; where no matcher fails with an error, the
  decision is exactly whether there is one.
\<close>

locale casbin_enforcer =
  fixes enf :: enforcer
    and pols :: "policy list"
    and gs :: "(string \<times> string) list"
    and shares :: "SharesLookup option"
  assumes enf_sound: "enf role uid obj act = Inr True \<Longrightarrow>
      \<exists>p \<in> set pols. matcher gs shares p role uid obj act = Inr True"
    and enf_complete: "\<forall>p \<in> set pols. \<exists>b. matcher gs shares p role uid obj act = Inr b \<Longrightarrow>
      enf role uid obj act = Inr (\<exists>p \<in> set pols. matcher gs shares p role uid obj act = Inr True)"
begin

text \<open>An allow decision of the whole call rests on one role and one policy.\<close>

lemma Enforce_sound:
  assumes "Enforce enf u (Some obj) act = Inr True"
  shows "\<exists>role \<in> set (au_Roles u). \<exists>p \<in> set pols. matcher gs shares p role (au_ID u) obj act = Inr True"
proof -
  have "enforce_roles enf (au_ID u) obj act roles = Inr True \<Longrightarrow>
      \<exists>role \<in> set roles. enf role (au_ID u) obj act = Inr True" for roles
    by (induction roles) (auto split: sum.splits if_splits)
  with assms enf_sound show ?thesis
    by (fastforce simp: Enforce_def split: if_splits)
qed

lemma Enforce_decides:
  assumes "act \<noteq> []"
    and "\<And>role p. role \<in> set (au_Roles u) \<Longrightarrow> p \<in> set pols \<Longrightarrow>
           \<exists>b. matcher gs shares p role (au_ID u) obj act = Inr b"
  shows "Enforce enf u (Some obj) act = Inr (\<exists>role \<in> set (au_Roles u). \<exists>p \<in> set pols.
           matcher gs shares p role (au_ID u) obj act = Inr True)"
proof -
  have "set roles \<subseteq> set (au_Roles u) \<Longrightarrow>
      enforce_roles enf (au_ID u) obj act roles = Inr (\<exists>role \<in> set roles. \<exists>p \<in> set pols.
        matcher gs shares p role (au_ID u) obj act = Inr True)" for roles
  proof (induction roles)
    case (Cons role roles)
    then have "\<forall>p \<in> set pols. \<exists>b. matcher gs shares p role (au_ID u) obj act = Inr b"
      using assms(2) by simp
    from enf_complete [OF this] Cons show ?case by simp
  qed simp
  with assms(1) show ?thesis by (simp add: Enforce_def)
qed

end

text \<open>
  A concrete evaluator of the model text: the policies in order, stopping at the first that
  matches and at the first matcher error.
\<close>

fun model_eval ::
  "(string \<times> string) list \<Rightarrow> SharesLookup option \<Rightarrow> policy list \<Rightarrow> enforcer" where
  "model_eval gs shares [] role uid obj act = Inr False"
| "model_eval gs shares (p # ps) role uid obj act =
     (case matcher gs shares p role uid obj act of
        Inl e \<Rightarrow> Inl e
      | Inr b \<Rightarrow> if b then Inr True else model_eval gs shares ps role uid obj act)"

interpretation model: casbin_enforcer "model_eval gs shares pols" pols gs shares
  for gs shares pols
proof
  fix role uid obj act
  show "model_eval gs shares pols role uid obj act = Inr True \<Longrightarrow>
      \<exists>p \<in> set pols. matcher gs shares p role uid obj act = Inr True"
    by (induction pols) (auto split: sum.splits if_splits)
next
  fix role uid obj act
  show "\<forall>p \<in> set pols. \<exists>b. matcher gs shares p role uid obj act = Inr b \<Longrightarrow>
      model_eval gs shares pols role uid obj act
        = Inr (\<exists>p \<in> set pols. matcher gs shares p role uid obj act = Inr True)"
    by (induction pols) fastforce+
qed

section \<open>What the default policies grant\<close>

text \<open>
  The permission table of the default policies written out role by role; \<open>shared\<close> is the answer of
  the shares table for this resource and this caller.
\<close>

definition granted :: "SharesLookup option \<Rightarrow> string \<Rightarrow> string \<Rightarrow> Resource \<Rightarrow> string \<Rightarrow> bool" where
  "granted shares role uid obj act \<longleftrightarrow>
     role = ''admin''
   \<or> role = ''anonymous'' \<and> r_Type obj \<in> {''specimens'', ''photos''}
       \<and> r_Visibility obj \<in> {''public'', ''unlisted''} \<and> act = ''view''
   \<or> role = ''user'' \<and> uid \<noteq> [] \<and>
       (r_Type obj \<in> {''specimens'', ''photos'', ''journal'', ''collectors'', ''qr-sheets''}
          \<and> r_AuthorID obj = uid
        \<or> r_Type obj \<in> {''specimens'', ''photos''} \<and> act = ''view'' \<and> r_ID obj \<noteq> []
          \<and> (\<exists>look. shares = Some look \<and> look (r_Type obj) (r_ID obj) uid = Inr True))
   \<or> role \<in> {''devops-viewer'', ''devops-admin''} \<and> r_Type obj = ''devops'' \<and> act = ''view''
   \<or> role = ''devops-admin'' \<and> r_Type obj = ''devops'' \<and> act = ''edit''"

lemma granted_write:
  assumes "act \<noteq> ''view''" and "r_Type obj \<noteq> ''devops''"
  shows "granted shares role uid obj act \<longleftrightarrow>
     role = ''admin'' \<or> role = ''user'' \<and> uid \<noteq> []
       \<and> r_Type obj \<in> {''specimens'', ''photos'', ''journal'', ''collectors'', ''qr-sheets''}
       \<and> r_AuthorID obj = uid"
  using assms by (simp add: granted_def)

lemma role_link_default:
  "role_link 10 DefaultGroupings a b \<longleftrightarrow> a = b \<or> a = ''devops-admin'' \<and> b = ''devops-viewer''"
proof -
  have "role_link (Suc (Suc n)) DefaultGroupings a b
      \<longleftrightarrow> a = b \<or> a = ''devops-admin'' \<and> b = ''devops-viewer''" for n
    by (auto simp: DefaultGroupings_def)
  from this [of 8] show ?thesis by (simp add: numeral_eq_Suc)
qed

lemma actionMatch_star [simp]: "actionMatchFn act ''*''"
  by (simp add: actionMatchFn_def)

lemma actionMatch_view [simp]: "actionMatchFn act ''view'' \<longleftrightarrow> act = ''view''"
  by (simp add: actionMatchFn_def trimSpace_def is_space_def)

lemma actionMatch_view_edit [simp]:
  "actionMatchFn act ''view,edit'' \<longleftrightarrow> act = ''view'' \<or> act = ''edit''"
  by (simp add: actionMatchFn_def trimSpace_def is_space_def)

lemma matcher_True:
  "matcher gs shares (psub, ptype, pinst, pact) role uid obj act = Inr True \<longleftrightarrow>
     role_link 10 gs role psub \<and> (ptype = ''*'' \<or> r_Type obj = ptype) \<and> actionMatchFn act pact
     \<and> instanceMatchFn shares pinst uid obj = Inr True"
  by (auto simp: matcher_def)

lemma instanceMatch_simps:
  "instanceMatchFn shares ''*'' uid obj = Inr True"
  "instanceMatchFn shares ''public'' uid obj = Inr True \<longleftrightarrow> r_Visibility obj = ''public''"
  "instanceMatchFn shares ''unlisted'' uid obj = Inr True \<longleftrightarrow> r_Visibility obj = ''unlisted''"
  "instanceMatchFn shares ''own'' uid obj = Inr True \<longleftrightarrow> uid \<noteq> [] \<and> r_AuthorID obj = uid"
  "instanceMatchFn shares ''shared'' uid obj = Inr True \<longleftrightarrow>
     uid \<noteq> [] \<and> r_ID obj \<noteq> [] \<and> (\<exists>look. shares = Some look \<and> look (r_Type obj) (r_ID obj) uid = Inr True)"
  by (auto simp: instanceMatchFn_def split: option.splits)

lemma star_neq:
  "''*'' \<noteq> ''specimens''" "''*'' \<noteq> ''photos''" "''*'' \<noteq> ''journal''" "''*'' \<noteq> ''collectors''"
  "''*'' \<noteq> ''qr-sheets''" "''*'' \<noteq> ''devops''" "''*'' \<noteq> ''users''"
  by simp_all

text \<open>The roles of the policy rows that match, one disjunct per row.\<close>

lemma default_matcher_rows:
  "(\<exists>p \<in> set DefaultPolicies. matcher DefaultGroupings shares p role uid obj act = Inr True)
   \<longleftrightarrow> (\<exists>(psub, ptype, pinst, pact) \<in> set DefaultPolicies.
        (role = psub \<or> role = ''devops-admin'' \<and> psub = ''devops-viewer'')
        \<and> (ptype = ''*'' \<or> r_Type obj = ptype) \<and> actionMatchFn act pact
        \<and> instanceMatchFn shares pinst uid obj = Inr True)"
proof (rule bex_cong [OF refl])
  fix p
  show "matcher DefaultGroupings shares p role uid obj act = Inr True \<longleftrightarrow>
      (case p of (psub, ptype, pinst, pact) \<Rightarrow>
        (role = psub \<or> role = ''devops-admin'' \<and> psub = ''devops-viewer'')
        \<and> (ptype = ''*'' \<or> r_Type obj = ptype) \<and> actionMatchFn act pact
        \<and> instanceMatchFn shares pinst uid obj = Inr True)"
    by (cases p) (simp add: matcher_True role_link_default)
qed

lemma default_matcher_True:
  "(\<exists>p \<in> set DefaultPolicies. matcher DefaultGroupings shares p role uid obj act = Inr True)
   \<longleftrightarrow> granted shares role uid obj act"
proof -
  consider "role = ''admin''" | "role = ''anonymous''" | "role = ''user''" | "role = ''devops-viewer''"
    | "role = ''devops-admin''"
    | "role \<notin> {''admin'', ''anonymous'', ''user'', ''devops-viewer'', ''devops-admin''}" by blast
  then show ?thesis
    unfolding default_matcher_rows
    unfolding DefaultPolicies_def granted_def
    by cases (simp_all add: instanceMatch_simps, blast+)
qed

text \<open>A shares lookup that answers makes every matcher answer.\<close>

definition lookup_total :: "SharesLookup option \<Rightarrow> bool" where
  "lookup_total shares \<longleftrightarrow> (\<forall>look t i u. shares = Some look \<longrightarrow> (\<exists>b. look t i u = Inr b))"

lemma instanceMatch_total:
  assumes "lookup_total shares"
  shows "\<not> isl (instanceMatchFn shares inst uid obj)"
proof (cases shares)
  case (Some look)
  with assms have "\<not> isl (look (r_Type obj) (r_ID obj) uid)"
    unfolding lookup_total_def by (metis isl_def old.sum.distinct(1))
  with Some show ?thesis by (simp add: instanceMatchFn_def)
qed (simp add: instanceMatchFn_def)

lemma matcher_total:
  assumes "lookup_total shares"
  shows "\<exists>b. matcher gs shares p role uid obj act = Inr b"
  using instanceMatch_total [OF assms] by (cases p) (simp add: ex_Inr_iff matcher_def)

lemma Enforce_default:
  assumes "casbin_enforcer enf DefaultPolicies DefaultGroupings shares"
    and "lookup_total shares" and "act \<noteq> []"
  shows "Enforce enf u (Some obj) act
           = Inr (\<exists>role \<in> set (au_Roles u). granted shares role (au_ID u) obj act)"
  using casbin_enforcer.Enforce_decides [OF assms(1) assms(3)] matcher_total [OF assms(2)]
  by (simp add: default_matcher_True)

section \<open>Properties\<close>

text \<open>
  C2: under the default policies, with a shares lookup that answers, the authorization decision is
  exactly the permission table: the call is allowed if and only if one of the caller's roles is
  granted the action on the resource. This holds for every policy evaluator that meets the
  contract of the model text.
\<close>

theorem Enforce_default_policies:
  assumes "casbin_enforcer enf DefaultPolicies DefaultGroupings shares"
    and "lookup_total shares" and "act \<noteq> []"
  shows "Enforce enf u (Some obj) act
           = Inr (\<exists>role \<in> set (au_Roles u). granted shares role (au_ID u) obj act)"
  using assms by (rule Enforce_default)

theorem Enforce_default_policies_witness:
  "Enforce (model_eval DefaultGroupings None DefaultPolicies) \<lparr>au_ID = ''u2'', au_Roles = [''user'']\<rparr>
     (Some \<lparr>r_Type = ''specimens'', r_ID = ''s1'', r_Visibility = ''private'', r_AuthorID = ''u1''\<rparr>)
     ''edit'' = Inr False"
  using Enforce_default_policies [OF model.casbin_enforcer_axioms, of None "''edit''"
      "\<lparr>au_ID = ''u2'', au_Roles = [''user'']\<rparr>"
      "\<lparr>r_Type = ''specimens'', r_ID = ''s1'', r_Visibility = ''private'', r_AuthorID = ''u1''\<rparr>"]
  by (simp add: lookup_total_def granted_def)

text \<open>
  A caller without the admin role can change nothing that is not its own. For every evaluator
  that meets the contract, even with a shares lookup that fails, an allowed action other than
  \<open>view\<close> on anything but the operations console was requested by an admin or by the resource's
  author.
\<close>

lemma Enforce_write_needs_owner:
  assumes "casbin_enforcer enf DefaultPolicies DefaultGroupings shares"
    and "Enforce enf u (Some obj) act = Inr True"
    and "act \<noteq> ''view''" and "r_Type obj \<noteq> ''devops''"
  shows "''admin'' \<in> set (au_Roles u)
         \<or> ''user'' \<in> set (au_Roles u) \<and> au_ID u \<noteq> [] \<and> r_AuthorID obj = au_ID u"
  using casbin_enforcer.Enforce_sound [OF assms(1,2)] assms(3,4)
  by (auto simp: default_matcher_True granted_def)

lemma Enforce_write_example:
  "''admin'' \<in> set [''user''] \<or> ''user'' \<in> set [''user''] \<and> ''u1'' \<noteq> [] \<and> ''u1'' = ''u1''"
  using Enforce_write_needs_owner [OF model.casbin_enforcer_axioms, of None
      "\<lparr>au_ID = ''u1'', au_Roles = [''user'']\<rparr>"
      "\<lparr>r_Type = ''journal'', r_ID = ''j1'', r_Visibility = [], r_AuthorID = ''u1''\<rparr>" "''delete''"]
    Enforce_default [OF model.casbin_enforcer_axioms, of None "''delete''"
      "\<lparr>au_ID = ''u1'', au_Roles = [''user'']\<rparr>"
      "\<lparr>r_Type = ''journal'', r_ID = ''j1'', r_Visibility = [], r_AuthorID = ''u1''\<rparr>"]
  by (simp add: lookup_total_def granted_def)

end
