(* ===== verification/ApiGuard.thy ===== *)
theory ApiGuard
  imports Authz
begin

text \<open>
  The enforcement seam of \<open>src/internal/api/authz.go\<close> and the error envelope of
  \<open>src/internal/api/errors.go\<close> and \<open>huma_errors.go\<close>, with the request's identity from
  \<open>src/internal/auth/auth.go\<close>. The request context is modelled by the \<open>auth_User\<close> it carries, and an
  \<open>error\<close> result by an optional envelope (\<open>None\<close> for nil).
\<close>

section \<open>The error envelope\<close>

record apiError =
  err_Status :: nat
  err_Code :: string
  err_Message :: string
  err_Details :: "(string \<times> string) list"

definition newAPIError :: "nat \<Rightarrow> string \<Rightarrow> string \<Rightarrow> (string \<times> string) list \<Rightarrow> apiError" where
  "newAPIError status code msg details =
     \<lparr>err_Status = status, err_Code = code, err_Message = msg, err_Details = details\<rparr>"

text \<open>\<open>statusText\<close> is \<open>http.StatusText\<close>, lower-cased and with underscores for blanks.\<close>

definition codeForStatus :: "(nat \<Rightarrow> string) \<Rightarrow> nat \<Rightarrow> string" where
  "codeForStatus statusText status =
     (if status = 400 then ''bad_request''
      else if status = 401 then ''unauthorized''
      else if status = 403 then ''forbidden''
      else if status = 404 then ''not_found''
      else if status = 409 then ''conflict''
      else if status = 422 then ''unprocessable''
      else if status = 415 then ''unsupported_media_type''
      else if status = 413 then ''payload_too_large''
      else if status = 500 then ''internal_error''
      else if status \<ge> 500 then ''internal_error''
      else statusText status)"

section \<open>The request's identity\<close>

record auth_User =
  u_ID :: uuid
  u_Sub :: string
  u_Email :: string
  u_DisplayName :: "string option"
  u_Pending :: bool
  u_Roles :: "string list"

definition auth_User_zero :: auth_User where
  "auth_User_zero = \<lparr>u_ID = uuid_Nil, u_Sub = [], u_Email = [], u_DisplayName = None,
     u_Pending = False, u_Roles = []\<rparr>"

definition StubUserSub :: string where
  "StubUserSub = ''stub-overseer''"

definition StubUser :: auth_User where
  "StubUser = \<lparr>u_ID = 1, u_Sub = StubUserSub, u_Email = ''overseer@minerals.local'',
     u_DisplayName = None, u_Pending = False, u_Roles = []\<rparr>"

text \<open>
  \<open>authzUser\<close>: every caller with an application identity has the base role \<open>user\<close>; a caller with
  no identity and no roles is \<open>anonymous\<close>.
\<close>

definition authzUser :: "(uuid \<Rightarrow> string) \<Rightarrow> auth_User \<Rightarrow> authz_User" where
  "authzUser str u =
     \<lparr>au_ID = (if u_ID u \<noteq> uuid_Nil then str (u_ID u) else []),
      au_Roles =
        (if u_ID u \<noteq> uuid_Nil
         then (if ''user'' \<in> set (u_Roles u) then u_Roles u else u_Roles u @ [''user''])
         else if u_Roles u = [] then [''anonymous''] else u_Roles u)\<rparr>"

section \<open>Resources\<close>

definition specimenResource :: "(uuid \<Rightarrow> string) \<Rightarrow> Specimen \<Rightarrow> Resource" where
  "specimenResource str s =
     \<lparr>r_Type = ''specimens'', r_ID = str (sp_ID s), r_Visibility = sp_Visibility s,
      r_AuthorID = str (sp_AuthorID s)\<rparr>"

definition newSpecimenResource :: "(uuid \<Rightarrow> string) \<Rightarrow> uuid \<Rightarrow> Visibility \<Rightarrow> Resource" where
  "newSpecimenResource str authorID vis =
     \<lparr>r_Type = ''specimens'', r_ID = [], r_Visibility = vis, r_AuthorID = str authorID\<rparr>"

definition collectorResource :: "(uuid \<Rightarrow> string) \<Rightarrow> Collector \<Rightarrow> Resource" where
  "collectorResource str c =
     \<lparr>r_Type = ''collectors'', r_ID = str (co_ID c), r_Visibility = [], r_AuthorID = str (co_AuthorID c)\<rparr>"

definition ownedResource :: "(uuid \<Rightarrow> string) \<Rightarrow> string \<Rightarrow> uuid \<Rightarrow> Resource" where
  "ownedResource str resourceType authorID =
     \<lparr>r_Type = resourceType, r_ID = [], r_Visibility = [], r_AuthorID = str authorID\<rparr>"

definition journalResource :: "(uuid \<Rightarrow> string) \<Rightarrow> JournalEntry \<Rightarrow> Resource" where
  "journalResource str e =
     \<lparr>r_Type = ''journal'', r_ID = str (je_ID e), r_Visibility = [], r_AuthorID = str (je_AuthorID e)\<rparr>"

definition photoResource :: "(uuid \<Rightarrow> string) \<Rightarrow> uuid \<Rightarrow> Specimen \<Rightarrow> Resource" where
  "photoResource str photoID parent =
     \<lparr>r_Type = ''photos'', r_ID = str photoID, r_Visibility = sp_Visibility parent,
      r_AuthorID = str (sp_AuthorID parent)\<rparr>"

section \<open>The guard\<close>

text \<open>The guard's optional enforcer, and the text form of identifiers it prints into resources.\<close>

record authzGuard =
  ag_enforcer :: "enforcer option"
  ag_str :: "uuid \<Rightarrow> string"

definition guard_active :: "authzGuard \<Rightarrow> bool" where
  "guard_active g \<longleftrightarrow> ag_enforcer g \<noteq> None"

definition guard_check :: "authzGuard \<Rightarrow> auth_User \<Rightarrow> Resource \<Rightarrow> string \<Rightarrow> apiError option" where
  "guard_check g caller res act =
     (case ag_enforcer g of
        None \<Rightarrow> None
      | Some enf \<Rightarrow>
          if act = ''view'' \<and> (r_Visibility res = ''public'' \<or> r_Visibility res = ''unlisted'') then None
          else case Enforce enf (authzUser (ag_str g) caller) (Some res) act of
            Inl _ \<Rightarrow> Some (newAPIError 500 ''internal_error'' ''authorization check failed'' [])
          | Inr allowed \<Rightarrow>
              if \<not> allowed
              then Some (newAPIError 403 ''forbidden''
                           ''you do not have permission to perform this action'' [])
              else None)"

definition checkView ::
  "authzGuard \<Rightarrow> auth_User \<Rightarrow> Resource \<Rightarrow> string \<Rightarrow> string \<Rightarrow> apiError option" where
  "checkView g caller res notFoundCode notFoundMsg =
     (case guard_check g caller res ''view'' of
        None \<Rightarrow> None
      | Some ae \<Rightarrow>
          if err_Status ae = 403 then Some (newAPIError 404 notFoundCode notFoundMsg [])
          else Some ae)"

text \<open>
  The net/http variants write the same envelope to the response and report whether the request may
  go on: \<open>(true, no response)\<close> or \<open>(false, the envelope written)\<close>.
\<close>

definition checkViewHTTP ::
  "authzGuard \<Rightarrow> auth_User \<Rightarrow> Resource \<Rightarrow> string \<Rightarrow> string \<Rightarrow> bool \<times> apiError option" where
  "checkViewHTTP g caller res notFoundCode notFoundMsg =
     (case checkView g caller res notFoundCode notFoundMsg of
        None \<Rightarrow> (True, None)
      | Some ae \<Rightarrow> (False, Some ae))"

definition checkHTTP ::
  "authzGuard \<Rightarrow> auth_User \<Rightarrow> Resource \<Rightarrow> string \<Rightarrow> bool \<times> apiError option" where
  "checkHTTP g caller res act =
     (case guard_check g caller res act of
        None \<Rightarrow> (True, None)
      | Some ae \<Rightarrow> (False, Some ae))"

section \<open>Lemmas\<close>

lemma authzUser_identity:
  "u_ID u \<noteq> uuid_Nil \<Longrightarrow> au_ID (authzUser str u) = str (u_ID u) \<and> ''user'' \<in> set (au_Roles (authzUser str u))"
  by (simp add: authzUser_def)

lemma authzUser_roles:
  "set (au_Roles (authzUser str u)) \<subseteq> set (u_Roles u) \<union> {''user'', ''anonymous''}"
  by (auto simp: authzUser_def)

lemma authzUser_keeps_roles: "set (u_Roles u) \<subseteq> set (au_Roles (authzUser str u))"
  by (auto simp: authzUser_def)

lemma authzUser_admin [simp]:
  "''admin'' \<in> set (au_Roles (authzUser str u)) \<longleftrightarrow> ''admin'' \<in> set (u_Roles u)"
  by (auto simp: authzUser_def)

text \<open>
  A live guard: an enforcer that meets the contract over the default policies, with a shares
  lookup that answers and a text form of identifiers that is injective.
\<close>

definition guard_ok :: "authzGuard \<Rightarrow> enforcer \<Rightarrow> SharesLookup option \<Rightarrow> bool" where
  "guard_ok g enf shares \<longleftrightarrow>
     ag_enforcer g = Some enf \<and> casbin_enforcer enf DefaultPolicies DefaultGroupings shares
     \<and> lookup_total shares \<and> uuid_text (ag_str g)"

text \<open>A concrete live guard: the evaluator of the model text over the default policies, no shares.\<close>

definition live_guard :: authzGuard where
  "live_guard = \<lparr>ag_enforcer = Some (model_eval DefaultGroupings None DefaultPolicies), ag_str = uuid_hex\<rparr>"

lemma live_guard_ok: "guard_ok live_guard (model_eval DefaultGroupings None DefaultPolicies) None"
  using model.casbin_enforcer_axioms hex.uuid_text_axioms
  by (simp add: guard_ok_def lookup_total_def live_guard_def)

lemma guard_ok_Enforce:
  assumes "guard_ok g enf shares" and "act \<noteq> []"
  shows "Enforce enf u (Some res) act
           = Inr (\<exists>role \<in> set (au_Roles u). granted shares role (au_ID u) res act)"
  using Enforce_default assms unfolding guard_ok_def by blast

lemma guard_ok_check:
  assumes "guard_ok g enf shares" and "act \<noteq> []"
  shows "guard_check g caller res act = None \<longleftrightarrow>
           act = ''view'' \<and> r_Visibility res \<in> {''public'', ''unlisted''}
           \<or> (\<exists>role \<in> set (au_Roles (authzUser (ag_str g) caller)).
                granted shares role (au_ID (authzUser (ag_str g) caller)) res act)"
  using guard_ok_Enforce [OF assms, of "authzUser (ag_str g) caller" res] assms(1)
  by (simp add: guard_check_def guard_ok_def)

text \<open>The resources of a given owner are the owner's, and only theirs.\<close>

lemma authzUser_owns:
  assumes "uuid_text str"
  shows "au_ID (authzUser str u) \<noteq> [] \<and> str a = au_ID (authzUser str u)
    \<longleftrightarrow> u_ID u \<noteq> uuid_Nil \<and> a = u_ID u"
proof (cases "u_ID u = uuid_Nil")
  case True
  then show ?thesis by (simp add: authzUser_def)
next
  case False
  then show ?thesis
    using uuid_text.str_eq_iff [OF assms, of a "u_ID u"] uuid_text.str_nonempty [OF assms, of "u_ID u"]
    by (simp add: authzUser_def)
qed

definition owned_types :: "string set" where
  "owned_types = {''specimens'', ''photos'', ''journal'', ''collectors'', ''qr-sheets''}"

lemma owned_access_guard:
  assumes "guard_ok g enf shares" and "act \<noteq> []" and "r_Type res \<in> owned_types" and "r_AuthorID res = ag_str g a"
    and "''admin'' \<in> set (u_Roles caller) \<or> (u_ID caller \<noteq> uuid_Nil \<and> a = u_ID caller)"
  shows "guard_check g caller res act = None"
proof -
  have ut: "uuid_text (ag_str g)" using assms(1) by (simp add: guard_ok_def)
  let ?a = "authzUser (ag_str g) caller"
  have "\<exists>role\<in>set (au_Roles ?a). granted shares role (au_ID ?a) res act"
  proof (cases "''admin'' \<in> set (u_Roles caller)")
    case True
    then show ?thesis by (intro bexI [of _ "''admin''"]) (simp_all add: granted_def)
  next
    case False
    then have own: "u_ID caller \<noteq> uuid_Nil" "a = u_ID caller" using assms(5) by simp_all
    have "au_ID ?a \<noteq> []" "r_AuthorID res = au_ID ?a"
      using authzUser_owns [OF ut, of caller a] own assms(4) by simp_all
    then have "granted shares ''user'' (au_ID ?a) res act"
      using assms(3) by (simp add: granted_def owned_types_def)
    moreover have "''user'' \<in> set (au_Roles ?a)" using own(1) authzUser_identity by blast
    ultimately show ?thesis by blast
  qed
  then show ?thesis using guard_ok_check [OF assms(1,2)] by blast
qed

lemma owned_write_guard:
  assumes "guard_ok g enf shares" and "act \<in> {''edit'', ''delete'', ''create''}"
    and "r_Type res \<in> owned_types" and "r_AuthorID res = ag_str g a"
  shows "guard_check g caller res act = None \<longleftrightarrow>
           ''admin'' \<in> set (u_Roles caller) \<or> (u_ID caller \<noteq> uuid_Nil \<and> a = u_ID caller)"
proof
  have ut: "uuid_text (ag_str g)" using assms(1) by (simp add: guard_ok_def)
  have ne: "act \<noteq> []" "act \<noteq> ''view''" using assms(2) by auto
  have type: "r_Type res \<noteq> ''devops''" using assms(3) by (auto simp: owned_types_def)
  assume "guard_check g caller res act = None"
  then obtain role where role: "role \<in> set (au_Roles (authzUser (ag_str g) caller))"
    and grant: "granted shares role (au_ID (authzUser (ag_str g) caller)) res act"
    using guard_ok_check [OF assms(1) ne(1)] ne(2) by blast
  then have "role = ''admin'' \<or> au_ID (authzUser (ag_str g) caller) \<noteq> [] \<and> r_AuthorID res = au_ID (authzUser (ag_str g) caller)"
    using granted_write [OF ne(2) type] by blast
  then show "''admin'' \<in> set (u_Roles caller) \<or> (u_ID caller \<noteq> uuid_Nil \<and> a = u_ID caller)"
    using role authzUser_owns [OF ut, of caller a] unfolding assms(4) by (metis authzUser_admin)
next
  assume "''admin'' \<in> set (u_Roles caller) \<or> (u_ID caller \<noteq> uuid_Nil \<and> a = u_ID caller)"
  moreover have "act \<noteq> []" using assms(2) by auto
  ultimately show "guard_check g caller res act = None" using owned_access_guard [OF assms(1) _ assms(3,4)] by blast
qed

lemma specimen_write_guard:
  assumes "guard_ok g enf shares" and "act \<in> {''edit'', ''delete'', ''create''}"
  shows "guard_check g caller (specimenResource (ag_str g) sp) act = None \<longleftrightarrow>
           ''admin'' \<in> set (u_Roles caller)
           \<or> (u_ID caller \<noteq> uuid_Nil \<and> sp_AuthorID sp = u_ID caller)"
  by (rule owned_write_guard [OF assms]) (simp_all add: specimenResource_def owned_types_def)

lemma guard_ok_denies:
  assumes "guard_ok g enf shares" and "act \<noteq> []" and "guard_check g caller res act = Some ae"
  shows "ae = newAPIError 403 ''forbidden'' ''you do not have permission to perform this action'' []"
  using assms(3) guard_ok_Enforce [OF assms(1,2), of "authzUser (ag_str g) caller" res] assms(1)
  by (auto simp: guard_check_def guard_ok_def split: if_splits)

section \<open>Properties\<close>

text \<open>
  The detail endpoints do not reveal whether a resource exists. When the caller may not view
  the resource, \<open>checkView\<close> answers with exactly the 404 envelope the handler gives for a missing
  row; it never answers 403.
\<close>

lemma checkView_hides_existence:
  "(\<forall>ae. checkView g caller res code msg = Some ae \<longrightarrow> err_Status ae \<noteq> 403)
   \<and> (guard_check g caller res ''view'' =
        Some (newAPIError 403 ''forbidden'' ''you do not have permission to perform this action'' [])
      \<longrightarrow> checkView g caller res code msg = Some (newAPIError 404 code msg []))"
  by (auto simp: checkView_def newAPIError_def split: option.splits if_splits)

lemma checkView_hides_example:
  "checkView \<lparr>ag_enforcer = Some (model_eval DefaultGroupings None DefaultPolicies), ag_str = uuid_hex\<rparr>
     auth_User_zero
     \<lparr>r_Type = ''specimens'', r_ID = ''7'', r_Visibility = ''private'', r_AuthorID = ''5''\<rparr>
     ''specimen_not_found'' ''no such specimen''
   = Some (newAPIError 404 ''specimen_not_found'' ''no such specimen'' [])"
proof -
  let ?g = "\<lparr>ag_enforcer = Some (model_eval DefaultGroupings None DefaultPolicies), ag_str = uuid_hex\<rparr>"
  let ?r = "\<lparr>r_Type = ''specimens'', r_ID = ''7'', r_Visibility = ''private'', r_AuthorID = ''5''\<rparr>"
  have "guard_check ?g auth_User_zero ?r ''view'' = Some (newAPIError 403 ''forbidden''
      ''you do not have permission to perform this action'' [])"
    using Enforce_default [OF model.casbin_enforcer_axioms, of None "''view''"
        "authzUser uuid_hex auth_User_zero" ?r]
    by (simp add: guard_check_def lookup_total_def granted_def authzUser_def auth_User_zero_def)
  with checkView_hides_existence [of ?g auth_User_zero ?r "''specimen_not_found''"
      "''no such specimen''"]
  show ?thesis by blast
qed

text \<open>
  Who may change a specimen. With a live guard, an edit or a delete passes the check exactly
  when the caller is an admin or has an application identity that is the specimen's author; no
  visibility and no share opens a write.
\<close>

lemma specimen_write_check:
  assumes "guard_ok g enf shares" and "act \<in> {''edit'', ''delete'', ''create''}"
  shows "guard_check g caller (specimenResource (ag_str g) sp) act = None \<longleftrightarrow>
           ''admin'' \<in> set (u_Roles caller)
           \<or> (u_ID caller \<noteq> uuid_Nil \<and> sp_AuthorID sp = u_ID caller)"
  by (rule specimen_write_guard [OF assms])

lemma specimen_write_check_example:
  "guard_check live_guard (auth_User_zero\<lparr>u_ID := 7\<rparr>)
     (specimenResource uuid_hex (Specimen_zero\<lparr>sp_AuthorID := 7\<rparr>)) ''edit'' = None"
  using specimen_write_check [OF live_guard_ok, of "''edit''" "auth_User_zero\<lparr>u_ID := 7\<rparr>"
      "Specimen_zero\<lparr>sp_AuthorID := 7\<rparr>"]
  by (simp add: live_guard_def)

end
