(* ===== verification/Redact.thy ===== *)
theory Redact
  imports ApiGuard FieldVisibility
begin

text \<open>
  Per-field redaction (\<open>src/internal/api/redact.go\<close>) of the wire view of a specimen
  (\<open>SpecimenView\<close> and \<open>toSpecimenView\<close> in \<open>src/internal/api/specimens.go\<close>): the four redactable
  scalars, the owner-only tagged flag and the photo collection. The redactor's owner cache is a
  field of its state and every operation returns the updated redactor.
\<close>

section \<open>The wire view\<close>

record SpecimenView =
  sv_ID :: uuid
  sv_Type :: SpecimenType
  sv_CatalogNumber :: "string option"
  sv_Name :: string
  sv_Description :: string
  sv_Visibility :: Visibility
  sv_AuthorID :: uuid
  sv_AcquiredAt :: "time option"
  sv_AcquiredFrom :: "string option"
  sv_PriceCents :: "64 word option"
  sv_SourceNotes :: "string option"
  sv_LocalityText :: "string option"
  sv_Locality :: "Locality option"
  sv_MassG :: "float64 option"
  sv_Dimensions :: "Dimensions option"
  sv_TypeData :: string
  sv_MainImageID :: "uuid option"
  sv_VisibilityPrice :: "Visibility option"
  sv_VisibilityAcquiredFrom :: "Visibility option"
  sv_VisibilityImages :: "Visibility option"
  sv_Tagged :: "bool option"
  sv_CreatedAt :: time
  sv_UpdatedAt :: time

definition toSpecimenView :: "Specimen \<Rightarrow> SpecimenView" where
  "toSpecimenView s =
     \<lparr>sv_ID = sp_ID s, sv_Type = sp_Type s, sv_CatalogNumber = sp_CatalogNumber s,
      sv_Name = sp_Name s, sv_Description = sp_Description s, sv_Visibility = sp_Visibility s,
      sv_AuthorID = sp_AuthorID s, sv_AcquiredAt = sp_AcquiredAt s,
      sv_AcquiredFrom = sp_AcquiredFrom s, sv_PriceCents = sp_PriceCents s,
      sv_SourceNotes = sp_SourceNotes s, sv_LocalityText = sp_LocalityText s,
      sv_Locality = sp_Locality s, sv_MassG = sp_MassG s, sv_Dimensions = sp_Dimensions s,
      sv_TypeData = sp_TypeData s, sv_MainImageID = sp_MainImageID s,
      sv_VisibilityPrice = sp_VisibilityPrice s,
      sv_VisibilityAcquiredFrom = sp_VisibilityAcquiredFrom s,
      sv_VisibilityImages = sp_VisibilityImages s, sv_Tagged = Some (sp_Tagged s),
      sv_CreatedAt = sp_CreatedAt s, sv_UpdatedAt = sp_UpdatedAt s\<rparr>"

section \<open>The redactor\<close>

text \<open>The user repository's lookup by id; \<open>None\<close> for a nil repository.\<close>

type_synonym UserLookup = "(uuid \<Rightarrow> domain_error + User) option"

record redactor =
  rx_users :: UserLookup
  rx_guard :: authzGuard
  rx_owners :: "uuid \<rightharpoonup> User"

definition newRedactor :: "UserLookup \<Rightarrow> authzGuard \<Rightarrow> redactor" where
  "newRedactor users guard = \<lparr>rx_users = users, rx_guard = guard, rx_owners = Map.empty\<rparr>"

text \<open>A missing owner, for whatever reason, is the zero user: its fields take the system default.\<close>

definition loadOwner :: "redactor \<Rightarrow> uuid \<Rightarrow> User \<times> redactor" where
  "loadOwner r authorID =
     (case rx_users r of
        None \<Rightarrow> (User_zero, r)
      | Some getByID \<Rightarrow>
          if authorID = uuid_Nil then (User_zero, r)
          else case rx_owners r authorID of
            Some cached \<Rightarrow> (cached, r)
          | None \<Rightarrow>
              (case getByID authorID of
                 Inl _ \<Rightarrow> (User_zero, r)
               | Inr u \<Rightarrow> (u, r\<lparr>rx_owners := (rx_owners r)(authorID \<mapsto> u)\<rparr>)))"

definition canSeeField :: "authzGuard \<Rightarrow> auth_User \<Rightarrow> Specimen \<Rightarrow> Visibility \<Rightarrow> bool" where
  "canSeeField g caller sp vis =
     (case ag_enforcer g of
        None \<Rightarrow> True
      | Some enf \<Rightarrow>
          if vis = VisibilityPublic \<or> vis = VisibilityUnlisted then True
          else case Enforce enf (authzUser (ag_str g) caller)
                 (Some \<lparr>r_Type = ''specimens'', r_ID = ag_str g (sp_ID sp), r_Visibility = vis,
                        r_AuthorID = ag_str g (sp_AuthorID sp)\<rparr>) ''view'' of
            Inl _ \<Rightarrow> False
          | Inr allowed \<Rightarrow> allowed)"

definition canSeePhoto :: "authzGuard \<Rightarrow> auth_User \<Rightarrow> Specimen \<Rightarrow> User \<Rightarrow> Photo \<Rightarrow> bool" where
  "canSeePhoto g caller sp owner img =
     (if \<not> guard_active g then True
      else canSeeField g caller sp (res_Visibility (ResolveImage sp owner img)))"

definition seesScalar :: "authzGuard \<Rightarrow> auth_User \<Rightarrow> User \<Rightarrow> Specimen \<Rightarrow> Field \<Rightarrow> bool" where
  "seesScalar g caller owner sp f = canSeeField g caller sp (res_Visibility (ResolveScalar f sp owner))"

definition redactSpecimen :: "redactor \<Rightarrow> auth_User \<Rightarrow> Specimen \<Rightarrow> SpecimenView \<times> redactor" where
  "redactSpecimen r caller sp =
     (let view = toSpecimenView sp; g = rx_guard r in
      if \<not> guard_active g then (view, r)
      else
        let (owner, r') = loadOwner r (sp_AuthorID sp);
            view = (if seesScalar g caller owner sp FieldPrice then view else view\<lparr>sv_PriceCents := None\<rparr>);
            view = (if seesScalar g caller owner sp FieldAcquiredFrom then view else view\<lparr>sv_AcquiredFrom := None\<rparr>);
            view = (if seesScalar g caller owner sp FieldAcquiredAt then view else view\<lparr>sv_AcquiredAt := None\<rparr>);
            view = (if seesScalar g caller owner sp FieldCatalogNumber then view else view\<lparr>sv_CatalogNumber := None\<rparr>);
            view = (if canSeeField g caller sp VisibilityPrivate then view else view\<lparr>sv_Tagged := None\<rparr>)
        in (view, r'))"

definition filterPhotos ::
  "redactor \<Rightarrow> auth_User \<Rightarrow> Specimen \<Rightarrow> Photo list \<Rightarrow> Photo list \<times> redactor" where
  "filterPhotos r caller sp photos =
     (if \<not> guard_active (rx_guard r) then (photos, r)
      else let (owner, r') = loadOwner r (sp_AuthorID sp)
           in (filter (canSeePhoto (rx_guard r) caller sp owner) photos, r'))"

text \<open>The loop of the list handler: one redactor for the whole page.\<close>

fun redactPage :: "redactor \<Rightarrow> auth_User \<Rightarrow> Specimen list \<Rightarrow> SpecimenView list \<times> redactor" where
  "redactPage r caller [] = ([], r)"
| "redactPage r caller (sp # sps) =
     (let (v, r') = redactSpecimen r caller sp; (vs, r'') = redactPage r' caller sps in (v # vs, r''))"

section \<open>The owner cache\<close>

text \<open>The owner of an author id, read from the repository with no cache.\<close>

definition ownerOf :: "UserLookup \<Rightarrow> uuid \<Rightarrow> User" where
  "ownerOf users a =
     (case users of
        None \<Rightarrow> User_zero
      | Some getByID \<Rightarrow>
          if a = uuid_Nil then User_zero
          else (case getByID a of Inl _ \<Rightarrow> User_zero | Inr u \<Rightarrow> u))"

text \<open>The cache invariant: a cached owner is what the repository answers.\<close>

definition cache_ok :: "redactor \<Rightarrow> bool" where
  "cache_ok r \<longleftrightarrow>
     (\<forall>a u. rx_owners r a = Some u \<longrightarrow> (\<exists>getByID. rx_users r = Some getByID \<and> getByID a = Inr u))"

lemma cache_ok_new [simp]: "cache_ok (newRedactor users g)"
  by (simp add: cache_ok_def newRedactor_def)

lemma loadOwner_ok:
  assumes "cache_ok r"
  shows "fst (loadOwner r a) = ownerOf (rx_users r) a"
    and "cache_ok (snd (loadOwner r a))"
    and "rx_users (snd (loadOwner r a)) = rx_users r"
    and "rx_guard (snd (loadOwner r a)) = rx_guard r"
  using assms
  by (auto simp: loadOwner_def ownerOf_def cache_ok_def split: option.splits sum.splits)

text \<open>The redaction of one specimen as a function of the owner that the chain consults.\<close>

definition redactView :: "authzGuard \<Rightarrow> auth_User \<Rightarrow> User \<Rightarrow> Specimen \<Rightarrow> SpecimenView" where
  "redactView g caller owner sp =
     (toSpecimenView sp)
       \<lparr>sv_PriceCents := (if seesScalar g caller owner sp FieldPrice then sp_PriceCents sp else None),
        sv_AcquiredFrom := (if seesScalar g caller owner sp FieldAcquiredFrom then sp_AcquiredFrom sp else None),
        sv_AcquiredAt := (if seesScalar g caller owner sp FieldAcquiredAt then sp_AcquiredAt sp else None),
        sv_CatalogNumber := (if seesScalar g caller owner sp FieldCatalogNumber then sp_CatalogNumber sp else None),
        sv_Tagged := (if canSeeField g caller sp VisibilityPrivate then Some (sp_Tagged sp) else None)\<rparr>"

lemma redactSpecimen_view:
  assumes "cache_ok r" and "guard_active (rx_guard r)"
  shows "fst (redactSpecimen r caller sp)
           = redactView (rx_guard r) caller (ownerOf (rx_users r) (sp_AuthorID sp)) sp"
  using loadOwner_ok(1) [OF assms(1), of "sp_AuthorID sp", symmetric] assms(2)
  by (simp add: redactSpecimen_def redactView_def toSpecimenView_def Let_def case_prod_beta)

lemma redactSpecimen_state:
  assumes "cache_ok r"
  shows "cache_ok (snd (redactSpecimen r caller sp))"
    and "rx_users (snd (redactSpecimen r caller sp)) = rx_users r"
    and "rx_guard (snd (redactSpecimen r caller sp)) = rx_guard r"
  using assms loadOwner_ok [OF assms]
  by (simp_all add: redactSpecimen_def Let_def case_prod_beta)

lemma redactSpecimen_fresh:
  assumes "cache_ok r"
  shows "fst (redactSpecimen r caller sp)
           = fst (redactSpecimen (newRedactor (rx_users r) (rx_guard r)) caller sp)"
proof (cases "guard_active (rx_guard r)")
  case True
  then have "guard_active (rx_guard (newRedactor (rx_users r) (rx_guard r)))"
    by (simp add: newRedactor_def)
  with True show ?thesis
    using redactSpecimen_view [OF assms, of caller sp]
      redactSpecimen_view [OF cache_ok_new, of "rx_users r" "rx_guard r" caller sp]
    by (simp add: newRedactor_def)
next
  case False
  then show ?thesis by (simp add: redactSpecimen_def newRedactor_def)
qed

section \<open>What a viewer can see\<close>

lemma guard_active_iff: "guard_active g \<longleftrightarrow> (\<exists>enf. ag_enforcer g = Some enf)"
  by (auto simp: guard_active_def)

lemma canSeeField_open [simp]:
  "canSeeField g caller sp VisibilityPublic" "canSeeField g caller sp VisibilityUnlisted"
  by (simp_all add: canSeeField_def split: option.split)

text \<open>The fields the resolution looks at do not include the redactable ones.\<close>

lemma canSeeField_cong:
  "sp_ID sp = sp_ID sp' \<Longrightarrow> sp_AuthorID sp = sp_AuthorID sp' \<Longrightarrow>
   canSeeField g caller sp vis = canSeeField g caller sp' vis"
  unfolding canSeeField_def by (cases "ag_enforcer g") simp_all

lemma ResolveScalar_cong:
  "sp_VisibilityPrice sp = sp_VisibilityPrice sp' \<Longrightarrow>
   sp_VisibilityAcquiredFrom sp = sp_VisibilityAcquiredFrom sp' \<Longrightarrow>
   ResolveScalar f sp owner = ResolveScalar f sp' owner"
  by (cases f) (simp_all add: ResolveScalar_def specimenScalarOverride_def)

lemma canSeeField_frame [simp]:
  "canSeeField g caller (sp\<lparr>sp_PriceCents := p\<rparr>) v = canSeeField g caller sp v"
  "canSeeField g caller (sp\<lparr>sp_AcquiredFrom := q\<rparr>) v = canSeeField g caller sp v"
  "canSeeField g caller (sp\<lparr>sp_AcquiredAt := t\<rparr>) v = canSeeField g caller sp v"
  "canSeeField g caller (sp\<lparr>sp_CatalogNumber := c\<rparr>) v = canSeeField g caller sp v"
  "canSeeField g caller (sp\<lparr>sp_Tagged := b\<rparr>) v = canSeeField g caller sp v"
  by (rule canSeeField_cong; simp)+

lemma ResolveScalar_frame [simp]:
  "ResolveScalar f (sp\<lparr>sp_PriceCents := p\<rparr>) owner = ResolveScalar f sp owner"
  "ResolveScalar f (sp\<lparr>sp_AcquiredFrom := q\<rparr>) owner = ResolveScalar f sp owner"
  "ResolveScalar f (sp\<lparr>sp_AcquiredAt := t\<rparr>) owner = ResolveScalar f sp owner"
  "ResolveScalar f (sp\<lparr>sp_CatalogNumber := c\<rparr>) owner = ResolveScalar f sp owner"
  "ResolveScalar f (sp\<lparr>sp_Tagged := b\<rparr>) owner = ResolveScalar f sp owner"
  by (rule ResolveScalar_cong; simp)+

lemma seesScalar_frame [simp]:
  "seesScalar g caller owner (sp\<lparr>sp_PriceCents := p\<rparr>) f = seesScalar g caller owner sp f"
  "seesScalar g caller owner (sp\<lparr>sp_AcquiredFrom := q\<rparr>) f = seesScalar g caller owner sp f"
  "seesScalar g caller owner (sp\<lparr>sp_AcquiredAt := t\<rparr>) f = seesScalar g caller owner sp f"
  "seesScalar g caller owner (sp\<lparr>sp_CatalogNumber := c\<rparr>) f = seesScalar g caller owner sp f"
  "seesScalar g caller owner (sp\<lparr>sp_Tagged := b\<rparr>) f = seesScalar g caller owner sp f"
  by (simp_all add: seesScalar_def)

text \<open>With a live guard the decision is the permission table's.\<close>

lemma canSeeField_granted:
  assumes "guard_ok g enf shares"
  shows "canSeeField g caller sp vis \<longleftrightarrow>
     vis = VisibilityPublic \<or> vis = VisibilityUnlisted
     \<or> (\<exists>role \<in> set (au_Roles (authzUser (ag_str g) caller)).
          granted shares role (au_ID (authzUser (ag_str g) caller))
            \<lparr>r_Type = ''specimens'', r_ID = ag_str g (sp_ID sp), r_Visibility = vis,
             r_AuthorID = ag_str g (sp_AuthorID sp)\<rparr> ''view'')"
  using guard_ok_Enforce [OF assms, of "''view''"] assms
  by (simp add: canSeeField_def guard_ok_def)

lemma owner_sees:
  assumes "guard_ok g enf shares" and "u_ID caller \<noteq> uuid_Nil" and "sp_AuthorID sp = u_ID caller"
  shows "canSeeField g caller sp vis"
proof -
  have ut: "uuid_text (ag_str g)" using assms(1) by (simp add: guard_ok_def)
  have "granted shares ''user'' (au_ID (authzUser (ag_str g) caller))
      \<lparr>r_Type = ''specimens'', r_ID = ag_str g (sp_ID sp), r_Visibility = vis,
       r_AuthorID = ag_str g (sp_AuthorID sp)\<rparr> ''view''"
    using assms(2,3) uuid_text.str_nonempty [OF ut] by (simp add: granted_def authzUser_def)
  moreover have "''user'' \<in> set (au_Roles (authzUser (ag_str g) caller))"
    using assms(2) by (simp add: authzUser_def)
  ultimately show ?thesis using canSeeField_granted [OF assms(1)] by blast
qed

text \<open>A caller with no identity and no roles sees what is public or unlisted, and nothing else.\<close>

lemma anonymous_sees:
  assumes "guard_ok g enf shares" and "u_ID caller = uuid_Nil" and "u_Roles caller = []"
  shows "canSeeField g caller sp vis \<longleftrightarrow> vis = VisibilityPublic \<or> vis = VisibilityUnlisted"
proof -
  have "au_Roles (authzUser (ag_str g) caller) = [''anonymous'']"
    using assms(2,3) by (simp add: authzUser_def)
  then show ?thesis
    using canSeeField_granted [OF assms(1), of caller sp vis] by (simp add: granted_def) metis
qed

section \<open>Properties\<close>

text \<open>
  Who may see a value of a given visibility: everybody when it is public or unlisted, otherwise the callers to whom the
  permission table grants a view of the specimen at that visibility.
\<close>

definition value_open :: "authzGuard \<Rightarrow> SharesLookup option \<Rightarrow> auth_User \<Rightarrow> Specimen \<Rightarrow> Visibility \<Rightarrow> bool" where
  "value_open g shares caller sp vis \<longleftrightarrow> vis \<in> {VisibilityPublic, VisibilityUnlisted} \<or>
     (\<exists>role\<in>set (au_Roles (authzUser (ag_str g) caller)). granted shares role (au_ID (authzUser (ag_str g) caller))
        \<lparr>r_Type = ''specimens'', r_ID = ag_str g (sp_ID sp), r_Visibility = vis, r_AuthorID = ag_str g (sp_AuthorID sp)\<rparr> ''view'')"

lemma canSeeField_value_open: "guard_ok g enf shares \<Longrightarrow> canSeeField g caller sp vis \<longleftrightarrow> value_open g shares caller sp vis"
  by (simp add: canSeeField_granted value_open_def)

text \<open>
  C6: a view shows each redactable value to those who may see it and to nobody else. With a live guard, for each of the
  four redactable scalars and for the tagged flag: when the permission table lets the caller see the visibility the field
  resolves to (for the flag: a private value), the view carries the row's value; otherwise the field is absent, and the
  whole view is the same for every value the row could hold. Every other field is that of the unredacted view.
\<close>

theorem redaction_hides_values:
  assumes "guard_ok (rx_guard r) enf shares" and "cache_ok r"
    and "owner = ownerOf (rx_users r) (sp_AuthorID sp)" and "view = fst (redactSpecimen r caller sp)"
    and "may = (\<lambda>f. value_open (rx_guard r) shares caller sp (res_Visibility (ResolveScalar f sp owner)))"
    and "own = value_open (rx_guard r) shares caller sp VisibilityPrivate"
  shows "sv_PriceCents view = (if may FieldPrice then sp_PriceCents sp else None)
    \<and> sv_AcquiredFrom view = (if may FieldAcquiredFrom then sp_AcquiredFrom sp else None)
    \<and> sv_AcquiredAt view = (if may FieldAcquiredAt then sp_AcquiredAt sp else None)
    \<and> sv_CatalogNumber view = (if may FieldCatalogNumber then sp_CatalogNumber sp else None)
    \<and> sv_Tagged view = (if own then Some (sp_Tagged sp) else None)
    \<and> view\<lparr>sv_PriceCents := sp_PriceCents sp, sv_AcquiredFrom := sp_AcquiredFrom sp, sv_AcquiredAt := sp_AcquiredAt sp,
        sv_CatalogNumber := sp_CatalogNumber sp, sv_Tagged := Some (sp_Tagged sp)\<rparr> = toSpecimenView sp
    \<and> (\<not> may FieldPrice \<longrightarrow> fst (redactSpecimen r caller (sp\<lparr>sp_PriceCents := p\<rparr>)) = view)
    \<and> (\<not> may FieldAcquiredFrom \<longrightarrow> fst (redactSpecimen r caller (sp\<lparr>sp_AcquiredFrom := q\<rparr>)) = view)
    \<and> (\<not> may FieldAcquiredAt \<longrightarrow> fst (redactSpecimen r caller (sp\<lparr>sp_AcquiredAt := t\<rparr>)) = view)
    \<and> (\<not> may FieldCatalogNumber \<longrightarrow> fst (redactSpecimen r caller (sp\<lparr>sp_CatalogNumber := c\<rparr>)) = view)
    \<and> (\<not> own \<longrightarrow> fst (redactSpecimen r caller (sp\<lparr>sp_Tagged := b\<rparr>)) = view)"
proof -
  have act: "guard_active (rx_guard r)" using assms(1) by (simp add: guard_ok_def guard_active_def)
  have may: "may f \<longleftrightarrow> seesScalar (rx_guard r) caller owner sp f" for f
    by (simp add: assms(5) seesScalar_def canSeeField_value_open [OF assms(1)])
  have own: "own \<longleftrightarrow> canSeeField (rx_guard r) caller sp VisibilityPrivate"
    by (simp add: assms(6) canSeeField_value_open [OF assms(1)])
  show ?thesis
    unfolding may own assms(4) redactSpecimen_view [OF assms(2) act] unfolding assms(3)
    by (simp add: redactView_def toSpecimenView_def)
qed

theorem redaction_hides_values_witness:
  "sv_PriceCents (fst (redactSpecimen (newRedactor None live_guard) auth_User_zero (Specimen_zero\<lparr>sp_PriceCents := Some 900\<rparr>))) = None
   \<and> sv_PriceCents (fst (redactSpecimen (newRedactor None live_guard) auth_User_zero
        (Specimen_zero\<lparr>sp_PriceCents := Some 900, sp_VisibilityPrice := Some VisibilityPublic\<rparr>))) = Some 900"
proof -
  let ?r = "newRedactor None live_guard"
  have g: "guard_ok (rx_guard ?r) (model_eval DefaultGroupings None DefaultPolicies) None" using live_guard_ok by (simp add: newRedactor_def)
  have anon: "value_open (rx_guard ?r) None auth_User_zero sp vis \<longleftrightarrow> vis = VisibilityPublic \<or> vis = VisibilityUnlisted" for sp vis
    using anonymous_sees [OF g, of auth_User_zero sp vis] canSeeField_value_open [OF g] by (simp add: auth_User_zero_def)
  have price: "sv_PriceCents (fst (redactSpecimen ?r auth_User_zero sp)) =
      (if res_Visibility (ResolveScalar FieldPrice sp (ownerOf (rx_users ?r) (sp_AuthorID sp))) \<in> {VisibilityPublic, VisibilityUnlisted}
       then sp_PriceCents sp else None)" for sp
    using redaction_hides_values [OF g cache_ok_new refl refl refl refl, of auth_User_zero sp] unfolding anon by simp
  have vis: "res_Visibility (ResolveScalar FieldPrice (Specimen_zero\<lparr>sp_PriceCents := Some 900\<rparr>) User_zero) = VisibilityPrivate"
    "res_Visibility (ResolveScalar FieldPrice (Specimen_zero\<lparr>sp_PriceCents := Some 900, sp_VisibilityPrice := Some VisibilityPublic\<rparr>) User_zero)
       = VisibilityPublic"
    by (simp_all add: ResolveScalar_def specimenScalarOverride_def Specimen_zero_def ownerDefault_def User_zero_def SystemDefault_def)
  have owner: "ownerOf (rx_users ?r) i = User_zero" for i by (simp add: ownerOf_def newRedactor_def)
  show ?thesis unfolding price owner vis by simp
qed

text \<open>
  The owner loses nothing. With a live guard, the author of a specimen receives the unredacted
  view, and every photo of it.
\<close>

lemma owner_view_unredacted:
  assumes "guard_ok (rx_guard r) enf shares" and "cache_ok r"
    and "u_ID caller \<noteq> uuid_Nil" and "sp_AuthorID sp = u_ID caller"
  shows "fst (redactSpecimen r caller sp) = toSpecimenView sp
         \<and> fst (filterPhotos r caller sp photos) = photos"
proof -
  have sees: "canSeeField (rx_guard r) caller sp vis" for vis
    by (rule owner_sees [OF assms(1,3,4)])
  then have "fst (redactSpecimen r caller sp) = toSpecimenView sp"
    by (simp add: redactSpecimen_def Let_def case_prod_beta seesScalar_def)
  moreover have "fst (filterPhotos r caller sp photos) = photos"
    using sees by (simp add: filterPhotos_def canSeePhoto_def case_prod_beta)
  ultimately show ?thesis ..
qed

lemma owner_view_example:
  "fst (redactSpecimen (newRedactor None live_guard) (auth_User_zero\<lparr>u_ID := 7\<rparr>)
      (Specimen_zero\<lparr>sp_AuthorID := 7, sp_PriceCents := Some 900\<rparr>))
   = toSpecimenView (Specimen_zero\<lparr>sp_AuthorID := 7, sp_PriceCents := Some 900\<rparr>)"
  using owner_view_unredacted [of "newRedactor None live_guard"
      "model_eval DefaultGroupings None DefaultPolicies" None "auth_User_zero\<lparr>u_ID := 7\<rparr>"
      "Specimen_zero\<lparr>sp_AuthorID := 7, sp_PriceCents := Some 900\<rparr>" "[]"] live_guard_ok
  by (simp add: newRedactor_def cache_ok_def)

text \<open>
  What an anonymous viewer receives. With a live guard, a caller with no identity and no roles
  gets a photo exactly when the image chain resolves it to public or unlisted, in the order the
  repository listed them; and it gets the price exactly when the scalar chain resolves it to
  public or unlisted.
\<close>

lemma anonymous_view:
  assumes "guard_ok (rx_guard r) enf shares" and "cache_ok r"
    and "u_ID caller = uuid_Nil" and "u_Roles caller = []"
    and "owner = ownerOf (rx_users r) (sp_AuthorID sp)"
  shows "fst (filterPhotos r caller sp photos)
           = filter (\<lambda>p. res_Visibility (ResolveImage sp owner p) \<in> {VisibilityPublic, VisibilityUnlisted}) photos
    \<and> sv_PriceCents (fst (redactSpecimen r caller sp))
           = (if res_Visibility (ResolveScalar FieldPrice sp owner) \<in> {VisibilityPublic, VisibilityUnlisted}
              then sp_PriceCents sp else None)"
proof -
  note sees = anonymous_sees [OF assms(1,3,4), of sp]
  have act: "guard_active (rx_guard r)" using assms(1) by (simp add: guard_ok_def guard_active_def)
  have "fst (filterPhotos r caller sp photos) = filter (canSeePhoto (rx_guard r) caller sp owner) photos"
    using loadOwner_ok(1) [OF assms(2), of "sp_AuthorID sp"] act assms(5)
    by (simp add: filterPhotos_def case_prod_beta)
  also have "\<dots> = filter (\<lambda>p. res_Visibility (ResolveImage sp owner p)
      \<in> {VisibilityPublic, VisibilityUnlisted}) photos"
    by (rule filter_cong [OF refl]) (simp add: canSeePhoto_def act sees)
  finally show ?thesis
    unfolding redactSpecimen_view [OF assms(2) act]
    by (simp add: redactView_def seesScalar_def sees assms(5) toSpecimenView_def)
qed

lemma anonymous_view_example:
  "fst (filterPhotos (newRedactor None live_guard) auth_User_zero Specimen_zero
     [Photo_zero\<lparr>ph_Visibility := Some VisibilityPublic\<rparr>, Photo_zero])
   = [Photo_zero\<lparr>ph_Visibility := Some VisibilityPublic\<rparr>]"
  using anonymous_view [of "newRedactor None live_guard"
      "model_eval DefaultGroupings None DefaultPolicies" None auth_User_zero "ownerOf None 0"
      Specimen_zero "[Photo_zero\<lparr>ph_Visibility := Some VisibilityPublic\<rparr>, Photo_zero]"] live_guard_ok
  by (simp add: newRedactor_def cache_ok_def auth_User_zero_def Specimen_zero_def Photo_zero_def
      ResolveImage_def ownerDefault_def ownerOf_def User_zero_def SystemDefault_def)

text \<open>
  The owner cache changes nothing. Redacting a whole page with one redactor, whose cache is
  filled as the page goes, gives for each row the view that a redactor of its own would give.
\<close>

lemma page_redaction_cache_transparent:
  assumes "cache_ok r"
  shows "fst (redactPage r caller sps)
           = map (\<lambda>sp. fst (redactSpecimen (newRedactor (rx_users r) (rx_guard r)) caller sp)) sps
         \<and> cache_ok (snd (redactPage r caller sps))"
  using assms
proof (induction sps arbitrary: r)
  case Nil
  then show ?case by simp
next
  case (Cons sp sps)
  let ?r' = "snd (redactSpecimen r caller sp)"
  note st = redactSpecimen_state [OF Cons.prems, of caller sp]
  have "fst (redactSpecimen r caller sp)
      = fst (redactSpecimen (newRedactor (rx_users r) (rx_guard r)) caller sp)"
    by (rule redactSpecimen_fresh [OF Cons.prems])
  with Cons.IH [OF st(1)] st show ?case
    by (simp add: Let_def case_prod_beta)
qed

lemma page_redaction_cache_transparent_example:
  "fst (redactPage (newRedactor None live_guard) auth_User_zero [Specimen_zero, Specimen_zero])
   = map (\<lambda>sp. fst (redactSpecimen (newRedactor None live_guard) auth_User_zero sp))
       [Specimen_zero, Specimen_zero]"
  using page_redaction_cache_transparent [OF cache_ok_new, of None live_guard auth_User_zero
      "[Specimen_zero, Specimen_zero]"]
  by (simp add: newRedactor_def)

end
