(* ===== verification/ExifChunks.thy ===== *)
theory ExifChunks
  imports Prelude
begin

text \<open>
  Metadata stripping for the two chunk-structured formats of \<open>src/internal/storage/exif/exif.go\<close>: PNG
  (\<open>stripPNGMetadata\<close>) and WebP (\<open>stripWebPMetadata\<close>). The loops keep the source's position, output
  buffer and checks; offsets are unbounded naturals (\<open>int\<close> is 64 bits wide and a chunk length 32). Each
  loop is shown to refine a reference that parses the container into chunks, drops the metadata
  chunks and concatenates the rest.
\<close>

datatype exif_error =
    NotAJPEG | InvalidJPEGSegment nat | NoMarkerAfterFF | TruncatedSOS | InvalidSOSLength
  | TruncatedSegmentHeader | InvalidSegmentLength | FilteredAPP1TooLarge nat
  | TruncatedPNGHeader | TruncatedPNGChunk
  | TruncatedWebPChunk | WebPSizeOutOfRange

definition ascii :: "string \<Rightarrow> bytes" where
  "ascii s = map (\<lambda>c. word_of_nat (of_char c)) s"

lemma length_ascii [simp]: "length (ascii s) = length s"
  by (simp add: ascii_def)

section \<open>PNG\<close>

definition pngSig :: bytes where
  "pngSig = [0x89, 0x50, 0x4E, 0x47, 0x0D, 0x0A, 0x1A, 0x0A]"

definition pngIEND :: bytes where
  "pngIEND = ascii ''IEND''"

definition pngMetadata :: "bytes list" where
  "pngMetadata = [ascii ''eXIf'', ascii ''iTXt'', ascii ''tEXt'', ascii ''zTXt'']"

function png_loop :: "bytes \<Rightarrow> nat \<Rightarrow> bytes \<Rightarrow> exif_error + bytes" where
  "png_loop data pos buf =
     (if pos < length data then
        if pos + 8 > length data then Inl TruncatedPNGHeader
        else
          let chunkLen = be32 (go_slice data pos (pos + 4));
              chunkType = go_slice data (pos + 4) (pos + 8);
              fin = pos + 8 + chunkLen + 4
          in if fin > length data then Inl TruncatedPNGChunk
             else
               let buf' = (if chunkType \<in> set pngMetadata then buf else buf @ go_slice data pos fin)
               in if chunkType = pngIEND then Inr buf' else png_loop data fin buf'
      else Inr buf)"
  by pat_completeness auto
termination
  by (relation "measure (\<lambda>(data, pos, buf). length data - pos)") auto

definition stripPNGMetadata :: "bytes \<Rightarrow> exif_error + bytes" where
  "stripPNGMetadata data =
     (if length data < 8 \<or> take 8 data \<noteq> pngSig then Inr data
      else png_loop data 8 (take 8 data))"

text \<open>The reference: a chunk is its type and its raw bytes (length, type, payload, CRC).\<close>

type_synonym chunk = "bytes \<times> bytes"

function png_parse :: "bytes \<Rightarrow> exif_error + chunk list" where
  "png_parse rest =
     (if rest = [] then Inr []
      else if length rest < 8 then Inl TruncatedPNGHeader
      else
        let n = 12 + be32 (take 4 rest); t = go_slice rest 4 8
        in if n > length rest then Inl TruncatedPNGChunk
           else if t = pngIEND then Inr [(t, take n rest)]
           else map_sum id (\<lambda>cs. (t, take n rest) # cs) (png_parse (drop n rest)))"
  by pat_completeness auto
termination
  by (relation "measure length") auto

declare png_loop.simps [simp del] png_parse.simps [simp del]

definition png_keep :: "chunk list \<Rightarrow> chunk list" where
  "png_keep cs = filter (\<lambda>c. fst c \<notin> set pngMetadata) cs"

definition raw_bytes :: "chunk list \<Rightarrow> bytes" where
  "raw_bytes cs = concat (map snd cs)"

lemma raw_bytes_simps [simp]: "raw_bytes [] = []" "raw_bytes (c # cs) = snd c @ raw_bytes cs"
  by (simp_all add: raw_bytes_def)

lemma png_keep_simps [simp]:
  "png_keep [] = []"
  "png_keep (c # cs) = (if fst c \<in> set pngMetadata then png_keep cs else c # png_keep cs)"
  by (simp_all add: png_keep_def)

lemma IEND_kept [simp]: "pngIEND \<notin> set pngMetadata"
  by (simp add: pngMetadata_def pngIEND_def ascii_def)

text \<open>The loop at a position is the reference on the rest of the input.\<close>

lemma png_parse_chunk:
  assumes "8 \<le> length rest" and "n = 12 + be32 (take 4 rest)" and "n \<le> length rest"
    and "t = go_slice rest 4 8"
  shows "png_parse rest = (if t = pngIEND then Inr [(t, take n rest)]
           else map_sum id (\<lambda>cs. (t, take n rest) # cs) (png_parse (drop n rest)))"
proof -
  have "rest \<noteq> []" "\<not> length rest < 8" "\<not> n > length rest" using assms by auto
  then show ?thesis using assms(2,4) by (simp add: png_parse.simps [of rest] Let_def)
qed

lemma png_parse_short:
  assumes "length rest < 12 + be32 (take 4 rest)"
  shows "png_parse rest = (if rest = [] then Inr []
           else if length rest < 8 then Inl TruncatedPNGHeader else Inl TruncatedPNGChunk)"
  using assms by (simp add: png_parse.simps [of rest])

lemma png_loop_chunk:
  assumes "pos + 8 \<le> length data" and "n = 12 + be32 (go_slice data pos (pos + 4))"
    and "pos + n \<le> length data" and "t = go_slice data (pos + 4) (pos + 8)"
    and "buf' = (if t \<in> set pngMetadata then buf else buf @ go_slice data pos (pos + n))"
  shows "png_loop data pos buf = (if t = pngIEND then Inr buf' else png_loop data (pos + n) buf')"
proof -
  have "pos < length data" "\<not> pos + 8 > length data" "\<not> pos + n > length data"
    and "pos + 8 + be32 (go_slice data pos (pos + 4)) + 4 = pos + n" using assms by auto
  then show ?thesis
    using assms(4,5) by (simp only: png_loop.simps [of data pos buf] Let_def if_True if_False simp_thms)
qed

lemma png_loop_short:
  assumes "pos \<le> length data" and "length data < pos + (12 + be32 (go_slice data pos (pos + 4)))"
  shows "png_loop data pos buf = (if pos = length data then Inr buf
           else if length data < pos + 8 then Inl TruncatedPNGHeader else Inl TruncatedPNGChunk)"
  using assms by (simp add: png_loop.simps [of data pos buf] Let_def)

lemma png_loop_refines:
  "pos \<le> length data \<Longrightarrow>
   png_loop data pos buf = map_sum id (\<lambda>cs. buf @ raw_bytes (png_keep cs)) (png_parse (drop pos data))"
proof (induction "length data - pos" arbitrary: pos buf rule: less_induct)
  case less
  define n where "n = 12 + be32 (go_slice data pos (pos + 4))"
  define t where "t = go_slice data (pos + 4) (pos + 8)"
  have sl: "take 4 (drop pos data) = go_slice data pos (pos + 4)"
    "go_slice (drop pos data) 4 8 = t" "take n (drop pos data) = go_slice data pos (pos + n)"
    by (simp_all add: go_slice_def t_def add.commute)
  show ?case
  proof (cases "pos + n \<le> length data")
    case False
    then show ?thesis
      using less.prems png_loop_short [OF less.prems, of buf] png_parse_short [of "drop pos data"]
      by (auto simp: sl n_def)
  next
    case True
    define buf' where "buf' = (if t \<in> set pngMetadata then buf else buf @ go_slice data pos (pos + n))"
    have pos8: "pos + 8 \<le> length data" using True by (simp add: n_def)
    have loop: "png_loop data pos buf = (if t = pngIEND then Inr buf' else png_loop data (pos + n) buf')"
      by (rule png_loop_chunk [OF pos8 n_def True t_def buf'_def])
    have parse: "png_parse (drop pos data) = (if t = pngIEND then Inr [(t, go_slice data pos (pos + n))]
        else map_sum id (\<lambda>cs. (t, go_slice data pos (pos + n)) # cs) (png_parse (drop (pos + n) data)))"
      unfolding sl(3) [symmetric] drop_drop [of n pos, symmetric, unfolded add.commute [of n pos]]
      by (rule png_parse_chunk) (use pos8 True in \<open>simp_all add: sl n_def\<close>)
    have "png_loop data (pos + n) buf'
        = map_sum id (\<lambda>cs. buf' @ raw_bytes (png_keep cs)) (png_parse (drop (pos + n) data))"
      by (rule less.hyps) (use True in \<open>simp_all add: n_def\<close>)
    then show ?thesis
      unfolding loop parse by (simp add: buf'_def sum.map_comp comp_def id_def)
  qed
qed

text \<open>
  Well-formed chunk sequences: each chunk has the length its header declares and carries the type
  it is labelled with, and nothing follows an \<open>IEND\<close>.
\<close>

definition png_chunk_ok :: "chunk \<Rightarrow> bool" where
  "png_chunk_ok c \<longleftrightarrow>
     length (snd c) = 12 + be32 (take 4 (snd c)) \<and> fst c = go_slice (snd c) 4 8"

fun png_wf :: "chunk list \<Rightarrow> bool" where
  "png_wf [] \<longleftrightarrow> True"
| "png_wf (c # cs) \<longleftrightarrow> png_chunk_ok c \<and> (if fst c = pngIEND then cs = [] else png_wf cs)"

lemma go_slice_take: "j \<le> n \<Longrightarrow> go_slice (take n xs) i j = go_slice xs i j"
  by (simp add: go_slice_def drop_take min.absorb1 diff_le_mono)

lemma take_take_4: "4 \<le> n \<Longrightarrow> take 4 (take n xs) = take 4 xs"
  by (simp add: min.absorb1)

lemma png_parse_wf: "png_parse rest = Inr cs \<Longrightarrow> png_wf cs"
proof (induction "length rest" arbitrary: rest cs rule: less_induct)
  case less
  define n where "n = 12 + be32 (take 4 rest)"
  show ?case
  proof (cases "n \<le> length rest")
    case False
    with less.prems png_parse_short [of rest] show ?thesis
      by (cases "rest = []") (auto simp: n_def split: if_splits)
  next
    case True
    then have eq: "png_parse rest = (if go_slice rest 4 8 = pngIEND then Inr [(go_slice rest 4 8, take n rest)]
        else map_sum id (\<lambda>cs. (go_slice rest 4 8, take n rest) # cs) (png_parse (drop n rest)))"
      by (intro png_parse_chunk) (simp_all add: n_def)
    have ok: "png_chunk_ok (go_slice rest 4 8, take n rest)"
      using True by (simp add: png_chunk_ok_def take_take_4 go_slice_take n_def)
    show ?thesis
    proof (cases "png_parse (drop n rest)")
      case (Inl e)
      with less.prems eq ok show ?thesis by (auto split: if_splits)
    next
      case (Inr cs')
      have "png_wf cs'" by (rule less.hyps [OF _ Inr]) (use True in \<open>simp add: n_def\<close>)
      with less.prems eq ok Inr show ?thesis by (auto split: if_splits)
    qed
  qed
qed

text \<open>A well-formed sequence parses back to itself.\<close>

lemma png_parse_append:
  assumes "length raw = n" and "n = 12 + be32 (take 4 raw)" and "t = go_slice raw 4 8"
  shows "png_parse (raw @ more) = (if t = pngIEND then Inr [(t, raw)]
           else map_sum id (\<lambda>cs. (t, raw) # cs) (png_parse more))"
proof -
  have n: "12 \<le> n" using assms(2) by linarith
  have hd4: "take 4 (raw @ more) = take 4 raw" using n assms(1) by simp
  have hd8: "go_slice (raw @ more) 4 8 = go_slice raw 4 8" using n assms(1) by (simp add: go_slice_def)
  have "png_parse (raw @ more) = (if t = pngIEND then Inr [(t, take n (raw @ more))]
      else map_sum id (\<lambda>cs. (t, take n (raw @ more)) # cs) (png_parse (drop n (raw @ more))))"
  proof (rule png_parse_chunk)
    show "n = 12 + be32 (take 4 (raw @ more))" unfolding hd4 by (rule assms(2))
    show "t = go_slice (raw @ more) 4 8" unfolding hd8 by (rule assms(3))
    show "8 \<le> length (raw @ more)" "n \<le> length (raw @ more)" using n assms(1) by simp_all
  qed
  moreover have "take n (raw @ more) = raw" "drop n (raw @ more) = more" using assms(1) by simp_all
  ultimately show ?thesis by simp
qed

lemma png_parse_raw: "png_wf cs \<Longrightarrow> png_parse (raw_bytes cs) = Inr cs"
proof (induction cs)
  case Nil
  then show ?case by (simp add: png_parse.simps)
next
  case (Cons c cs)
  then have "png_chunk_ok c" by simp
  then have "png_parse (snd c @ raw_bytes cs) = (if fst c = pngIEND then Inr [(fst c, snd c)]
      else map_sum id (\<lambda>cs'. (fst c, snd c) # cs') (png_parse (raw_bytes cs)))"
    unfolding png_chunk_ok_def using png_parse_append [OF refl] by blast
  then show ?case using Cons by (cases c) (simp split: if_splits)
qed

lemma png_wf_keep: "png_wf cs \<Longrightarrow> png_wf (png_keep cs)"
  by (induction cs) (auto split: if_splits)

lemma png_keep_idem [simp]: "png_keep (png_keep cs) = png_keep cs"
  by (simp add: png_keep_def)

section \<open>WebP\<close>

definition webpMetadata :: "bytes list" where
  "webpMetadata = [ascii ''EXIF'', ascii ''XMP '', ascii ''ICCP'']"

function webp_loop :: "bytes \<Rightarrow> nat \<Rightarrow> bytes \<Rightarrow> exif_error + bytes" where
  "webp_loop data pos buf =
     (if pos + 8 \<le> length data then
        let chunkType = go_slice data pos (pos + 4);
            chunkLen = le32 (go_slice data (pos + 4) (pos + 8));
            fin = pos + 8 + chunkLen
        in if fin > length data then Inl TruncatedWebPChunk
           else
             let padded = (if chunkLen mod 2 = 1 \<and> fin < length data then fin + 1 else fin);
                 buf' = (if chunkType \<in> set webpMetadata then buf else buf @ go_slice data pos padded)
             in webp_loop data padded buf'
      else Inr buf)"
  by pat_completeness auto
termination
  by (relation "measure (\<lambda>(data, pos, buf). length data - pos)") (auto simp: Let_def)

definition is_webp :: "bytes \<Rightarrow> bool" where
  "is_webp data \<longleftrightarrow>
     length data \<ge> 12 \<and> take 4 data = ascii ''RIFF'' \<and> go_slice data 8 12 = ascii ''WEBP''"

definition patch_riff :: "bytes \<Rightarrow> exif_error + bytes" where
  "patch_riff out =
     (if length out < 8 \<or> length out - 8 > 4294967295 then Inl WebPSizeOutOfRange
      else Inr (take 4 out @ put_le32 (length out - 8) @ drop 8 out))"

definition stripWebPMetadata :: "bytes \<Rightarrow> exif_error + bytes" where
  "stripWebPMetadata data =
     (if \<not> is_webp data then Inr data
      else case webp_loop data 12 (take 12 data) of
        Inl e \<Rightarrow> Inl e
      | Inr out \<Rightarrow> patch_riff out)"

text \<open>
  The reference: a chunk is its FourCC and its raw bytes with the pad byte where there is one; fewer
  than eight bytes after the last chunk are not a chunk.
\<close>

definition webp_size :: "bytes \<Rightarrow> nat" where
  "webp_size rest = (let n = le32 (go_slice rest 4 8)
     in if n mod 2 = 1 \<and> 8 + n < length rest then 9 + n else 8 + n)"

function webp_parse :: "bytes \<Rightarrow> exif_error + chunk list" where
  "webp_parse rest =
     (if length rest < 8 then Inr []
      else if length rest < 8 + le32 (go_slice rest 4 8) then Inl TruncatedWebPChunk
      else map_sum id (\<lambda>cs. (take 4 rest, take (webp_size rest) rest) # cs)
             (webp_parse (drop (webp_size rest) rest)))"
  by pat_completeness auto
termination
  by (relation "measure length") (auto simp: webp_size_def Let_def)

declare webp_loop.simps [simp del] webp_parse.simps [simp del]

definition webp_keep :: "chunk list \<Rightarrow> chunk list" where
  "webp_keep cs = filter (\<lambda>c. fst c \<notin> set webpMetadata) cs"

lemma webp_keep_simps [simp]:
  "webp_keep [] = []"
  "webp_keep (c # cs) = (if fst c \<in> set webpMetadata then webp_keep cs else c # webp_keep cs)"
  "webp_keep (webp_keep cs) = webp_keep cs"
  by (simp_all add: webp_keep_def)

lemma webp_size_bounds:
  "8 + le32 (go_slice rest 4 8) \<le> length rest \<Longrightarrow> 8 \<le> webp_size rest \<and> webp_size rest \<le> length rest"
  by (simp add: webp_size_def Let_def)

lemma webp_loop_refines:
  "pos \<le> length data \<Longrightarrow>
   webp_loop data pos buf = map_sum id (\<lambda>cs. buf @ raw_bytes (webp_keep cs)) (webp_parse (drop pos data))"
proof (induction "length data - pos" arbitrary: pos buf rule: less_induct)
  case less
  let ?rest = "drop pos data"
  define n where "n = webp_size ?rest"
  define L where "L = le32 (go_slice data (pos + 4) (pos + 8))"
  define t where "t = go_slice data pos (pos + 4)"
  have sl: "take 4 ?rest = t" "go_slice ?rest 4 8 = go_slice data (pos + 4) (pos + 8)"
    "take n ?rest = go_slice data pos (pos + n)"
    by (simp_all add: go_slice_def t_def add.commute)
  consider "length data < pos + 8" | "pos + 8 \<le> length data" "length data < pos + 8 + L"
    | "pos + 8 + L \<le> length data" by linarith
  then show ?case
  proof cases
    case 1
    then show ?thesis
      by (simp add: webp_loop.simps [of data pos buf] webp_parse.simps [of ?rest])
  next
    case 2
    then have "\<not> length ?rest < 8" "length ?rest < 8 + L" by auto
    with 2 show ?thesis
      by (simp add: webp_loop.simps [of data pos buf] webp_parse.simps [of ?rest] sl L_def Let_def)
  next
    case 3
    define buf' where "buf' = (if t \<in> set webpMetadata then buf else buf @ go_slice data pos (pos + n))"
    have n: "pos + n = (if L mod 2 = 1 \<and> pos + 8 + L < length data then pos + 8 + L + 1 else pos + 8 + L)"
      using 3 by (auto simp: n_def webp_size_def sl L_def Let_def)
    have "8 + le32 (go_slice ?rest 4 8) \<le> length ?rest" using 3 by (simp add: sl L_def [symmetric])
    from webp_size_bounds [OF this] have "8 \<le> n" "n \<le> length data - pos" by (simp_all add: n_def)
    then have nb: "0 < n" "pos + n \<le> length data" using 3 by linarith+
    have loop: "webp_loop data pos buf = webp_loop data (pos + n) buf'"
      unfolding buf'_def n using 3
      by (simp add: webp_loop.simps [of data pos buf] Let_def L_def t_def)
    have parse: "webp_parse ?rest = map_sum id (\<lambda>cs. (t, go_slice data pos (pos + n)) # cs)
        (webp_parse (drop (pos + n) data))"
    proof -
      have "\<not> length ?rest < 8" "\<not> length ?rest < 8 + le32 (go_slice ?rest 4 8)"
        using 3 by (simp_all add: sl L_def [symmetric])
      then show ?thesis
        by (simp add: webp_parse.simps [of ?rest] sl n_def [symmetric] add.commute)
    qed
    have "webp_loop data (pos + n) buf'
        = map_sum id (\<lambda>cs. buf' @ raw_bytes (webp_keep cs)) (webp_parse (drop (pos + n) data))"
      by (rule less.hyps) (use nb in auto)
    then show ?thesis
      unfolding loop parse by (simp add: buf'_def sum.map_comp comp_def id_def)
  qed
qed

text \<open>Well-formed chunk sequences: only the last chunk may lack its pad byte.\<close>

definition webp_len :: "chunk \<Rightarrow> nat" where
  "webp_len c = le32 (go_slice (snd c) 4 8)"

definition webp_chunk_ok :: "chunk \<Rightarrow> bool \<Rightarrow> bool" where
  "webp_chunk_ok c final \<longleftrightarrow> fst c = take 4 (snd c)
     \<and> (length (snd c) = 8 + webp_len c + webp_len c mod 2 \<or> final \<and> length (snd c) = 8 + webp_len c)"

fun webp_wf :: "chunk list \<Rightarrow> bool" where
  "webp_wf [] \<longleftrightarrow> True"
| "webp_wf (c # cs) \<longleftrightarrow> webp_chunk_ok c (cs = []) \<and> webp_wf cs"

lemma webp_chunk_ok_mono: "webp_chunk_ok c b \<Longrightarrow> (b \<Longrightarrow> b') \<Longrightarrow> webp_chunk_ok c b'"
  by (auto simp: webp_chunk_ok_def)

lemma webp_wf_keep: "webp_wf cs \<Longrightarrow> webp_wf (webp_keep cs)"
  by (induction cs) (auto elim: webp_chunk_ok_mono)

lemma webp_parse_wf: "webp_parse rest = Inr cs \<Longrightarrow> webp_wf cs \<and> length (raw_bytes cs) \<le> length rest"
proof (induction "length rest" arbitrary: rest cs rule: less_induct)
  case less
  show ?case
  proof (cases "8 + le32 (go_slice rest 4 8) \<le> length rest")
    case False
    with less.prems show ?thesis by (auto simp: webp_parse.simps [of rest] split: if_splits)
  next
    case True
    define n where "n = webp_size rest"
    have nb: "8 \<le> n" "n \<le> length rest" using webp_size_bounds [OF True] by (simp_all add: n_def)
    obtain cs' where cs': "webp_parse (drop n rest) = Inr cs'" and cs: "cs = (take 4 rest, take n rest) # cs'"
      using less.prems True
      by (cases "webp_parse (drop n rest)") (auto simp: webp_parse.simps [of rest] n_def [symmetric])
    have IH: "webp_wf cs'" "length (raw_bytes cs') \<le> length rest - n"
      using less.hyps [OF _ cs'] nb by auto
    have len: "webp_len (take 4 rest, take n rest) = le32 (go_slice rest 4 8)"
      using nb by (simp add: webp_len_def go_slice_take)
    have "cs' = []" if "n = length rest" using cs' that by (simp add: webp_parse.simps)
    moreover have "n = 8 + le32 (go_slice rest 4 8) + le32 (go_slice rest 4 8) mod 2
        \<or> n = length rest \<and> n = 8 + le32 (go_slice rest 4 8)"
      using True by (auto simp: n_def webp_size_def Let_def mod2_eq_if)
    ultimately show ?thesis
      using IH nb unfolding cs by (auto simp: webp_chunk_ok_def len take_take_4)
  qed
qed

lemma webp_parse_append:
  assumes "length raw = 8 + L + L mod 2 \<or> more = [] \<and> length raw = 8 + L"
    and "L = le32 (go_slice raw 4 8)"
  shows "webp_parse (raw @ more) = map_sum id (\<lambda>cs. (take 4 raw, raw) # cs) (webp_parse more)"
proof -
  have r8: "8 + L \<le> length raw" using assms(1) by auto
  have hd: "take 4 (raw @ more) = take 4 raw" "go_slice (raw @ more) 4 8 = go_slice raw 4 8"
    using r8 by (simp_all add: go_slice_def)
  have size: "webp_size (raw @ more) = length raw"
    using assms(1) by (auto simp: webp_size_def hd assms(2) [symmetric] Let_def mod2_eq_if)
  have "\<not> length (raw @ more) < 8" "\<not> length (raw @ more) < 8 + le32 (go_slice (raw @ more) 4 8)"
    using r8 by (simp_all add: hd assms(2) [symmetric])
  then have "webp_parse (raw @ more) = map_sum id (\<lambda>cs. (take 4 (raw @ more), take (length raw) (raw @ more)) # cs)
      (webp_parse (drop (length raw) (raw @ more)))"
    by (simp only: webp_parse.simps [of "raw @ more"] if_False size)
  then show ?thesis unfolding hd by simp
qed

lemma webp_parse_raw: "webp_wf cs \<Longrightarrow> webp_parse (raw_bytes cs) = Inr cs"
proof (induction cs)
  case Nil
  then show ?case by (simp add: webp_parse.simps)
next
  case (Cons c cs)
  then have ok: "webp_chunk_ok c (cs = [])" and IH: "webp_parse (raw_bytes cs) = Inr cs" by simp_all
  from ok have "length (snd c) = 8 + webp_len c + webp_len c mod 2
      \<or> raw_bytes cs = [] \<and> length (snd c) = 8 + webp_len c" by (auto simp: webp_chunk_ok_def)
  from webp_parse_append [OF this webp_len_def] IH
  have "webp_parse (snd c @ raw_bytes cs) = Inr ((take 4 (snd c), snd c) # cs)" by simp
  moreover have "take 4 (snd c) = fst c" using ok by (simp add: webp_chunk_ok_def)
  ultimately show ?case by simp
qed

lemma webp_header_out:
  assumes "is_webp data"
  shows "take 4 (take 12 data @ more) = ascii ''RIFF''" and "go_slice (take 12 data @ more) 8 12 = ascii ''WEBP''"
  using assms by (simp_all add: is_webp_def go_slice_def drop_take)

text \<open>The patched output: same header, same chunks, and the size field counts what follows it.\<close>

lemma patch_riff_webp:
  assumes "is_webp data" and "patch_riff (take 12 data @ more) = Inr out"
  shows "is_webp out" and "drop 12 out = more" and "le32 (go_slice out 4 8) = length out - 8"
    and "length out = 12 + length more" and "length out - 8 < 4294967296"
    and "take 12 out = ascii ''RIFF'' @ put_le32 (4 + length more) @ ascii ''WEBP''"
proof -
  have len: "length (take 12 data) = 12" using assms(1) by (simp add: is_webp_def)
  have out: "out = ascii ''RIFF'' @ put_le32 (4 + length more) @ ascii ''WEBP'' @ more"
    and small: "4 + length more < 4294967296"
    using assms(2) len webp_header_out [OF assms(1), of more]
    by (auto simp: patch_riff_def go_slice_def split: if_splits)
  show "is_webp out" "drop 12 out = more" "length out = 12 + length more"
    "length out - 8 < 4294967296" "take 12 out = ascii ''RIFF'' @ put_le32 (4 + length more) @ ascii ''WEBP''"
    using small by (simp_all add: out is_webp_def go_slice_def)
  have "go_slice out 4 8 = put_le32 (4 + length more)" by (simp add: out go_slice_def)
  then show "le32 (go_slice out 4 8) = length out - 8"
    using le32_put_le32 [OF small] by (simp add: out)
qed

lemma length_4E:
  assumes "length xs = 4"
  obtains a b c d where "xs = [a, b, c, d]"
proof -
  have "xs = [xs ! 0, xs ! 1, xs ! 2, xs ! 3]"
    using assms by (intro nth_equalityI) (auto simp: less_Suc_eq numeral_eq_Suc)
  then show ?thesis using that by blast
qed

lemma le32_inj:
  assumes "length a = 4" and "length b = 4" and "le32 a = le32 b"
  shows "a = b"
proof -
  obtain a0 a1 a2 a3 where a: "a = [a0, a1, a2, a3]"
    using assms(1) by (metis length_4E)
  obtain b0 b1 b2 b3 where b: "b = [b0, b1, b2, b3]"
    using assms(2) by (metis length_4E)
  have digit: "unat x = unat y \<and> p = q"
    if eq: "unat x + 256 * p = unat y + 256 * q" for x y :: byte and p q :: nat
  proof -
    have "(unat x + 256 * p) mod 256 = unat x" "(unat y + 256 * q) mod 256 = unat y"
      using unat_byte_less by simp_all
    with eq have "unat x = unat y" by simp
    with eq show ?thesis by simp
  qed
  have e: "unat a0 + 256 * (unat a1 + 256 * (unat a2 + 256 * unat a3))
      = unat b0 + 256 * (unat b1 + 256 * (unat b2 + 256 * unat b3))"
    using assms(3) unfolding a b le32_def by simp
  note d0 = digit [OF e]
  note d1 = digit [OF d0 [THEN conjunct2]]
  note d2 = digit [OF d1 [THEN conjunct2]]
  have "a0 = b0" "a1 = b1" "a2 = b2" "a3 = b3"
    using d0 d1 d2 by (blast intro: unsigned_word_eqI)+
  then show ?thesis unfolding a b by simp
qed

lemma patch_fixed:
  assumes "is_webp out" and "le32 (go_slice out 4 8) = length out - 8" and "length out - 8 < 4294967296"
  shows "take 4 out @ put_le32 (length out - 8) @ drop 8 out = out"
proof -
  have len: "12 \<le> length out" using assms(1) by (simp add: is_webp_def)
  have "go_slice out 4 8 = put_le32 (length out - 8)"
    by (rule le32_inj) (use len assms(2) le32_put_le32 [OF assms(3)] in auto)
  moreover have "out = take 4 out @ go_slice out 4 8 @ drop 8 out"
    using append_take_drop_id [of 4 out] append_take_drop_id [of 4 "drop 4 out"]
    by (simp add: go_slice_def)
  ultimately show ?thesis by simp
qed

section \<open>Properties\<close>

text \<open>
  C10: stripping a PNG removes exactly the metadata chunks. For a file with the PNG signature, the
  loop fails exactly when the chunk sequence is truncated, with the same error as the reference parser;
  otherwise the output is the signature followed by the raw bytes of the chunks that are not
  \<open>eXIf\<close>, \<open>iTXt\<close>, \<open>tEXt\<close> or \<open>zTXt\<close>, in their order, and nothing after \<open>IEND\<close>.
\<close>

theorem stripPNG_refines_chunk_filter:
  "stripPNGMetadata (pngSig @ rest)
   = map_sum id (\<lambda>cs. pngSig @ concat (map snd (filter (\<lambda>c. fst c \<notin> set pngMetadata) cs))) (png_parse rest)"
proof -
  have sig: "length pngSig = 8" by (simp add: pngSig_def)
  then show ?thesis
    using png_loop_refines [of 8 "pngSig @ rest" pngSig]
    by (simp add: stripPNGMetadata_def raw_bytes_def png_keep_def)
qed

text \<open>
  A stripped PNG is clean and stays as it is. When stripping succeeds on a file with the PNG
  signature, the output parses as a chunk sequence with no metadata chunk in it, and stripping it
  again returns it unchanged.
\<close>

lemma stripPNG_clean_and_idempotent:
  assumes "stripPNGMetadata (pngSig @ rest) = Inr out"
  shows "(\<exists>cs. out = pngSig @ raw_bytes cs \<and> png_parse (raw_bytes cs) = Inr cs
            \<and> (\<forall>c \<in> set cs. fst c \<notin> set pngMetadata))
         \<and> stripPNGMetadata out = Inr out"
proof -
  have sig: "length pngSig = 8" by (simp add: pngSig_def)
  have strip: "stripPNGMetadata (pngSig @ r) = map_sum id (\<lambda>cs. pngSig @ raw_bytes (png_keep cs)) (png_parse r)" for r
    using png_loop_refines [of 8 "pngSig @ r" pngSig] sig by (simp add: stripPNGMetadata_def)
  from assms strip obtain cs where cs: "png_parse rest = Inr cs" and out: "out = pngSig @ raw_bytes (png_keep cs)"
    by (cases "png_parse rest") auto
  have parse: "png_parse (raw_bytes (png_keep cs)) = Inr (png_keep cs)"
    by (rule png_parse_raw [OF png_wf_keep [OF png_parse_wf [OF cs]]])
  moreover have "\<forall>c \<in> set (png_keep cs). fst c \<notin> set pngMetadata" by (simp add: png_keep_def)
  ultimately show ?thesis using out strip by auto
qed

text \<open>A file with one \<open>tEXt\<close> chunk of one byte, followed by \<open>IEND\<close>.\<close>

lemma sample_png_stripped:
  "stripPNGMetadata (pngSig @ [0, 0, 0, 1, 0x74, 0x45, 0x58, 0x74, 65, 0, 0, 0, 0,
                               0, 0, 0, 0, 0x49, 0x45, 0x4E, 0x44, 1, 2, 3, 4])
   = Inr (pngSig @ [0, 0, 0, 0, 0x49, 0x45, 0x4E, 0x44, 1, 2, 3, 4])"
  by (simp add: stripPNGMetadata_def pngSig_def png_loop.simps go_slice_def be32_def pngMetadata_def
      pngIEND_def ascii_def)

lemma stripPNG_clean_and_idempotent_example:
  "stripPNGMetadata (pngSig @ [0, 0, 0, 0, 0x49, 0x45, 0x4E, 0x44, 1, 2, 3, 4])
   = Inr (pngSig @ [0, 0, 0, 0, 0x49, 0x45, 0x4E, 0x44, 1, 2, 3, 4])"
  using stripPNG_clean_and_idempotent [OF sample_png_stripped] by blast

text \<open>
  C12: stripping a WebP. For a file with a RIFF/WEBP header, success gives a RIFF/WEBP file whose
  size field is the number of bytes that follow it, whose chunks are exactly the input's chunks
  that are not \<open>EXIF\<close>, \<open>XMP\<close> or \<open>ICCP\<close>, in their order, and which a second pass returns unchanged.
\<close>

theorem stripWebP_correct:
  assumes "is_webp data" and "stripWebPMetadata data = Inr out"
  shows "is_webp out \<and> le32 (go_slice out 4 8) = length out - 8
         \<and> webp_parse (drop 12 out) = map_sum id (filter (\<lambda>c. fst c \<notin> set webpMetadata)) (webp_parse (drop 12 data))
         \<and> stripWebPMetadata out = Inr out"
proof -
  have len: "12 \<le> length data" using assms(1) by (simp add: is_webp_def)
  have loop: "webp_loop d 12 (take 12 d) = map_sum id (\<lambda>cs. take 12 d @ raw_bytes (webp_keep cs)) (webp_parse (drop 12 d))"
    if "12 \<le> length d" for d using webp_loop_refines [OF that] .
  obtain cs where cs: "webp_parse (drop 12 data) = Inr cs"
    and patch: "patch_riff (take 12 data @ raw_bytes (webp_keep cs)) = Inr out"
    using assms loop [OF len] by (cases "webp_parse (drop 12 data)") (auto simp: stripWebPMetadata_def)
  note out = patch_riff_webp [OF assms(1) patch]
  have "webp_wf cs" using webp_parse_wf [OF cs] by simp
  then have keep: "webp_parse (drop 12 out) = Inr (webp_keep cs)"
    unfolding out(2) by (intro webp_parse_raw webp_wf_keep)
  have whole: "take 12 out @ raw_bytes (webp_keep cs) = out"
    using append_take_drop_id [of 12 out] out(2) by simp
  have "webp_loop out 12 (take 12 out) = Inr out"
    using loop [of out] out(4) keep whole by simp
  moreover have "patch_riff out = Inr out"
    using patch_fixed [OF out(1,3,5)] out(4,5) by (simp add: patch_riff_def)
  ultimately have "stripWebPMetadata out = Inr out" using out(1) by (simp add: stripWebPMetadata_def)
  then show ?thesis using out(1,3) keep cs by (simp add: webp_keep_def)
qed

text \<open>A file with a padded \<open>EXIF\<close> chunk of one byte and a \<open>VP8\<close> chunk of two.\<close>

definition sample_webp :: bytes where
  "sample_webp = [0x52, 0x49, 0x46, 0x46, 24, 0, 0, 0, 0x57, 0x45, 0x42, 0x50,
     0x45, 0x58, 0x49, 0x46, 1, 0, 0, 0, 9, 0, 0x56, 0x50, 0x38, 0x20, 2, 0, 0, 0, 1, 2]"

definition sample_webp_out :: bytes where
  "sample_webp_out = [0x52, 0x49, 0x46, 0x46, 14, 0, 0, 0, 0x57, 0x45, 0x42, 0x50,
     0x56, 0x50, 0x38, 0x20, 2, 0, 0, 0, 1, 2]"

lemma sample_webp_ok:
  "is_webp sample_webp" "stripWebPMetadata sample_webp = Inr sample_webp_out"
  by (simp_all add: stripWebPMetadata_def is_webp_def sample_webp_def sample_webp_out_def ascii_def
      webp_loop.simps go_slice_def le32_def webpMetadata_def patch_riff_def put_le32_def)

theorem stripWebP_correct_witness:
  "is_webp sample_webp_out \<and> stripWebPMetadata sample_webp_out = Inr sample_webp_out"
  using stripWebP_correct [OF sample_webp_ok] by blast

end
