(* ===== verification/ExifJpeg.thy ===== *)
theory ExifJpeg
  imports ExifChunks
begin

text \<open>
  The JPEG side of \<open>src/internal/storage/exif/exif.go\<close>: the marker walk \<open>walkJPEGSegments\<close> in both of
  its modes, \<open>filterJPEG\<close>, \<open>extractRawExif\<close> and the dispatcher \<open>Filter\<close>. Rebuilding an EXIF blob from
  its allowed tags goes through the go-exif library, so \<open>filterEXIFBlob\<close> is the argument \<open>blob\<close> of the
  definitions that call it, as is the date reader. The walk is related to a parse of the file into
  segments and to a per-segment emission rule.
\<close>

abbreviation jpegSOI :: byte where "jpegSOI \<equiv> 0xD8"
abbreviation jpegEOI :: byte where "jpegEOI \<equiv> 0xD9"
abbreviation jpegSOS :: byte where "jpegSOS \<equiv> 0xDA"
abbreviation jpegAPP1 :: byte where "jpegAPP1 \<equiv> 0xE1"
abbreviation jpegCOM :: byte where "jpegCOM \<equiv> 0xFE"

definition is_RST :: "byte \<Rightarrow> bool" where
  "is_RST m \<longleftrightarrow> 0xD0 \<le> m \<and> m \<le> 0xD7"

definition exifHeader :: bytes where
  "exifHeader = ascii ''Exif'' @ [0, 0]"

definition xmpHeader :: bytes where
  "xmpHeader = ascii ''http://ns.adobe.com/xap/1.0/''"

section \<open>The walk\<close>

text \<open>The run of fill bytes before a marker.\<close>

function skip_ff :: "bytes \<Rightarrow> nat \<Rightarrow> nat" where
  "skip_ff data pos = (if pos < length data \<and> data ! pos = 0xFF then skip_ff data (Suc pos) else pos)"
  by pat_completeness auto
termination
  by (relation "measure (\<lambda>(data, pos). length data - pos)") auto

text \<open>Entropy-coded data runs to the next marker that is not a restart or an escaped FF.\<close>

function scan_entropy :: "bytes \<Rightarrow> nat \<Rightarrow> nat" where
  "scan_entropy data pos =
     (if pos < length data then
        if data ! pos \<noteq> 0xFF then scan_entropy data (pos + 1)
        else if pos + 1 \<ge> length data then scan_entropy data (pos + 1)
        else if data ! (pos + 1) = 0 \<or> is_RST (data ! (pos + 1)) then scan_entropy data (pos + 2)
        else pos
      else pos)"
  by pat_completeness auto
termination
  by (relation "measure (\<lambda>(data, pos). length data - pos)") auto

declare skip_ff.simps [simp del] scan_entropy.simps [simp del]

lemma skip_ff_ge: "pos \<le> skip_ff data pos"
proof (induction data pos rule: skip_ff.induct)
  case (1 data pos)
  then show ?case using skip_ff.simps [of data pos] by (auto split: if_splits)
qed

lemma scan_entropy_ge: "pos \<le> scan_entropy data pos"
proof (induction data pos rule: scan_entropy.induct)
  case (1 data pos)
  then show ?case using scan_entropy.simps [of data pos] by (auto split: if_splits)
qed

lemma scan_entropy_le: "pos \<le> length data \<Longrightarrow> scan_entropy data pos \<le> length data"
proof (induction data pos rule: scan_entropy.induct)
  case (1 data pos)
  show ?case
  proof (cases "pos < length data \<and> \<not> (data ! pos = 0xFF \<and> pos + 1 < length data)")
    case True
    then have "scan_entropy data pos = scan_entropy data (pos + 1)"
      by (simp add: scan_entropy.simps [of data pos] not_less)
    then show ?thesis using True 1(1,2) by (cases "data ! pos = 0xFF") simp_all
  next
    case False
    then show ?thesis using 1(3,4) scan_entropy.simps [of data pos] by (simp split: if_splits)
  qed
qed

text \<open>
  What happens to a length-prefixed segment: dropped, replaced, or copied; and the EXIF bytes
  collected so far (collected in extraction mode only).
\<close>

definition segment_action ::
  "(bytes \<Rightarrow> 'e + bytes) \<Rightarrow> bool \<Rightarrow> byte \<Rightarrow> bytes \<Rightarrow> bytes \<Rightarrow> bool \<times> bytes option \<times> bytes" where
  "segment_action blob filt marker payload ex =
     (if marker = jpegAPP1 then
        if hasPrefix payload exifHeader then
          if \<not> filt then (False, None, ex @ drop 6 payload)
          else (case blob (drop 6 payload) of
                  Inl _ \<Rightarrow> (True, None, ex)
                | Inr filtered \<Rightarrow>
                    if filtered = [] then (True, None, ex)
                    else (False, Some (exifHeader @ filtered), ex))
        else if hasPrefix payload xmpHeader then (True, None, ex)
        else (False, None, ex)
      else if marker = jpegCOM then (True, None, ex)
      else (False, None, ex))"

definition put :: "bool \<Rightarrow> bytes \<Rightarrow> bytes \<Rightarrow> bytes" where
  "put filt buf xs = (if filt then buf @ xs else buf)"

text \<open>One turn of the marker loop either returns or continues at a later position.\<close>

datatype walk_step = Return bytes bytes | Continue nat bytes bytes

definition jpeg_step ::
  "(bytes \<Rightarrow> 'e + bytes) \<Rightarrow> bool \<Rightarrow> bytes \<Rightarrow> nat \<Rightarrow> bytes \<Rightarrow> bytes \<Rightarrow> exif_error + walk_step" where
  "jpeg_step blob filt data pos buf ex =
     (if data ! pos \<noteq> 0xFF then Inl (InvalidJPEGSegment pos)
      else
        let pos1 = skip_ff data pos;
            buf1 = put filt buf (replicate (pos1 - pos) 0xFF)
        in if pos1 \<ge> length data then Inl NoMarkerAfterFF
           else
             let marker = data ! pos1;
                 buf2 = put filt buf1 [marker];
                 pos2 = pos1 + 1
             in if marker = jpegSOI then Inr (Continue pos2 buf2 ex)
                else if marker = jpegEOI then Inr (Return buf2 ex)
                else if is_RST marker then Inr (Continue pos2 buf2 ex)
                else if marker = jpegSOS then
                  if pos2 + 2 > length data then Inl TruncatedSOS
                  else
                    let segLen = be16 (go_slice data pos2 (pos2 + 2))
                    in if pos2 + segLen > length data \<or> segLen < 2 then Inl InvalidSOSLength
                       else
                         let buf3 = put filt buf2 (go_slice data pos2 (pos2 + segLen));
                             pos3 = pos2 + segLen;
                             pos4 = scan_entropy data pos3
                         in Inr (Continue pos4 (put filt buf3 (go_slice data pos3 pos4)) ex)
                else
                  if pos2 + 2 > length data then Inl TruncatedSegmentHeader
                  else
                    let segLen = be16 (go_slice data pos2 (pos2 + 2))
                    in if segLen < 2 \<or> pos2 + segLen > length data then Inl InvalidSegmentLength
                       else
                         (case segment_action blob filt marker (go_slice data (pos2 + 2) (pos2 + segLen)) ex of
                            (dropped, replacement, ex') \<Rightarrow>
                              if \<not> filt then Inr (Continue (pos2 + segLen) buf2 ex')
                              else if dropped then
                                Inr (Continue (pos2 + segLen) (take (length buf2 - 2) buf2) ex')
                              else (case replacement of
                                Some rep \<Rightarrow>
                                  if length rep + 2 > 0xFFFF then Inl (FilteredAPP1TooLarge (length rep + 2))
                                  else Inr (Continue (pos2 + segLen) (buf2 @ put_be16 (length rep + 2) @ rep) ex')
                              | None \<Rightarrow>
                                  Inr (Continue (pos2 + segLen) (buf2 @ go_slice data pos2 (pos2 + segLen)) ex'))))"

lemma jpeg_step_progress:
  assumes "jpeg_step blob filt data pos buf ex = Inr (Continue p b x)"
  shows "pos < p"
  using assms skip_ff_ge [of pos data]
    scan_entropy_ge [of "skip_ff data pos + 1 + be16 (go_slice data (skip_ff data pos + 1) (skip_ff data pos + 1 + 2))" data]
  by (simp add: jpeg_step_def Let_def split: if_splits prod.splits option.splits)

function jpeg_loop ::
  "(bytes \<Rightarrow> 'e + bytes) \<Rightarrow> bool \<Rightarrow> bytes \<Rightarrow> nat \<Rightarrow> bytes \<Rightarrow> bytes \<Rightarrow> exif_error + bytes \<times> bytes" where
  "jpeg_loop blob filt data pos buf ex =
     (if pos < length data then
        (case jpeg_step blob filt data pos buf ex of
           Inl e \<Rightarrow> Inl e
         | Inr (Return buf' ex') \<Rightarrow> Inr (buf', ex')
         | Inr (Continue pos' buf' ex') \<Rightarrow> jpeg_loop blob filt data pos' buf' ex')
      else Inr (buf, ex))"
  by pat_completeness auto
termination
  by (relation "measure (\<lambda>(blob, filt, data, pos, buf, ex). length data - pos)")
    (auto dest: jpeg_step_progress intro: diff_less_mono2)

declare jpeg_loop.simps [simp del]

text \<open>The results are the new bytes (written in filter mode only) and the collected EXIF bytes.\<close>

definition walkJPEGSegments ::
  "(bytes \<Rightarrow> 'e + bytes) \<Rightarrow> bytes \<Rightarrow> bool \<Rightarrow> exif_error + bytes \<times> bytes" where
  "walkJPEGSegments blob data filt =
     (if length data < 2 \<or> data ! 0 \<noteq> 0xFF \<or> data ! 1 \<noteq> jpegSOI then Inl NotAJPEG
      else jpeg_loop blob filt data 2 (put filt [] (take 2 data)) [])"

definition filterJPEG :: "(bytes \<Rightarrow> 'e + bytes) \<Rightarrow> bytes \<Rightarrow> exif_error + bytes" where
  "filterJPEG blob data = map_sum id fst (walkJPEGSegments blob data True)"

definition extractRawExif :: "(bytes \<Rightarrow> 'e + bytes) \<Rightarrow> bytes \<Rightarrow> string \<Rightarrow> exif_error + bytes" where
  "extractRawExif blob data contentType =
     (if contentType = ''image/jpeg'' then map_sum id snd (walkJPEGSegments blob data False) else Inr [])"

definition ExtractDateTimeOriginal ::
  "(bytes \<Rightarrow> time option) \<Rightarrow> (bytes \<Rightarrow> 'e + bytes) \<Rightarrow> bytes \<Rightarrow> string \<Rightarrow> time option" where
  "ExtractDateTimeOriginal readDateTimeOriginal blob data contentType =
     (case extractRawExif blob data contentType of
        Inl _ \<Rightarrow> None
      | Inr rawExif \<Rightarrow> if rawExif = [] then None else readDateTimeOriginal rawExif)"

definition Filter :: "(bytes \<Rightarrow> 'e + bytes) \<Rightarrow> bytes \<Rightarrow> string \<Rightarrow> exif_error + bytes" where
  "Filter blob data contentType =
     (if contentType = ''image/jpeg'' then filterJPEG blob data
      else if contentType = ''image/png'' then stripPNGMetadata data
      else if contentType = ''image/webp'' then stripWebPMetadata data
      else Inr data)"

section \<open>The reference: the file as a list of segments\<close>

text \<open>
  A segment is preceded by \<open>n\<close> bytes \<open>FF\<close>. A marker without length, a scan (its header with the length
  bytes, then the entropy-coded data), or a length-prefixed segment with its payload.
\<close>

datatype jseg = JMarker nat byte | JScan nat bytes bytes | JSegment nat byte bytes

definition jpeg_seg :: "bytes \<Rightarrow> nat \<Rightarrow> exif_error + jseg \<times> nat" where
  "jpeg_seg data pos =
     (if data ! pos \<noteq> 0xFF then Inl (InvalidJPEGSegment pos)
      else
        let p = skip_ff data pos; m = data ! p; q = p + 1;
            len = be16 (go_slice data q (q + 2)); r = scan_entropy data (q + len)
        in if p \<ge> length data then Inl NoMarkerAfterFF
           else if m = jpegSOI \<or> m = jpegEOI \<or> is_RST m then Inr (JMarker (p - pos) m, q)
           else if q + 2 > length data then Inl (if m = jpegSOS then TruncatedSOS else TruncatedSegmentHeader)
           else if q + len > length data \<or> len < 2
             then Inl (if m = jpegSOS then InvalidSOSLength else InvalidSegmentLength)
           else if m = jpegSOS
             then Inr (JScan (p - pos) (go_slice data q (q + len)) (go_slice data (q + len) r), r)
           else Inr (JSegment (p - pos) m (go_slice data (q + 2) (q + len)), q + len))"

lemma jpeg_seg_progress:
  assumes "jpeg_seg data pos = Inr (s, pos')"
  shows "pos < pos'"
  using assms skip_ff_ge [of pos data]
    scan_entropy_ge [of "skip_ff data pos + 1 + be16 (go_slice data (skip_ff data pos + 1) (skip_ff data pos + 1 + 2))" data]
  by (simp add: jpeg_seg_def Let_def split: if_splits)

definition is_EOI :: "jseg \<Rightarrow> bool" where
  "is_EOI s = (case s of JMarker n m \<Rightarrow> m = jpegEOI | _ \<Rightarrow> False)"

text \<open>The bytes a segment occupies, and the bytes the filter emits for it.\<close>

fun seg_raw :: "jseg \<Rightarrow> bytes" where
  "seg_raw (JMarker n m) = replicate n 0xFF @ [m]"
| "seg_raw (JScan n hdr ent) = replicate n 0xFF @ [jpegSOS] @ hdr @ ent"
| "seg_raw (JSegment n m p) = replicate n 0xFF @ [m] @ put_be16 (length p + 2) @ p"

text \<open>
  Comments and XMP packets go, Exif segments are rebuilt by \<open>blob\<close> or go; of a dropped segment only
  its extra fill bytes stay.
\<close>

definition seg_fate :: "(bytes \<Rightarrow> 'e + bytes) \<Rightarrow> byte \<Rightarrow> bytes \<Rightarrow> bytes option" where
  "seg_fate blob m p =
     (if m = jpegCOM then None
      else if m = jpegAPP1 \<and> hasPrefix p exifHeader then
        (case blob (drop 6 p) of Inl _ \<Rightarrow> None | Inr f \<Rightarrow> if f = [] then None else Some (exifHeader @ f))
      else if m = jpegAPP1 \<and> hasPrefix p xmpHeader then None
      else Some p)"

fun seg_emit :: "(bytes \<Rightarrow> 'e + bytes) \<Rightarrow> jseg \<Rightarrow> exif_error + bytes" where
  "seg_emit blob (JSegment n m p) =
     (case seg_fate blob m p of
        None \<Rightarrow> Inr (replicate (n - 1) 0xFF)
      | Some q \<Rightarrow> if length q + 2 > 0xFFFF then Inl (FilteredAPP1TooLarge (length q + 2))
                  else Inr (seg_raw (JSegment n m q)))"
| "seg_emit blob s = Inr (seg_raw s)"

fun seg_exif :: "jseg \<Rightarrow> bytes" where
  "seg_exif (JSegment n m p) = (if m = jpegAPP1 \<and> hasPrefix p exifHeader then drop 6 p else [])"
| "seg_exif s = []"

section \<open>The walk implements the reference\<close>

lemma skip_ff_gt:
  assumes "pos < length data" and "data ! pos = 0xFF"
  shows "pos < skip_ff data pos"
  using skip_ff.simps [of data pos] skip_ff_ge [of "Suc pos" data] assms by simp

lemma put_be16_be16:
  assumes "length bs = 2"
  shows "put_be16 (be16 bs) = bs"
proof -
  from assms obtain a b where bs: "bs = [a, b]"
    by (metis (no_types) One_nat_def Suc_1 length_0_conv length_Suc_conv)
  have "(unat a * 256 + unat b) div 256 = unat a" "(unat a * 256 + unat b) mod 256 = unat b"
    using unat_byte_less [of b] by simp_all
  then show ?thesis by (simp add: bs put_be16_def be16_def)
qed

lemma segment_bytes:
  assumes "be16 (go_slice data q (q + 2)) = len" and "2 \<le> len" and "q + len \<le> length data"
  shows "go_slice data q (q + len) = put_be16 len @ go_slice data (q + 2) (q + len)"
    and "length (go_slice data (q + 2) (q + len)) = len - 2" and "len \<le> 0xFFFF"
proof -
  have "go_slice data q (q + 2) = put_be16 len"
    using put_be16_be16 [of "go_slice data q (q + 2)"] assms by (simp add: assms(1))
  moreover have "go_slice data q (q + len) = go_slice data q (q + 2) @ go_slice data (q + 2) (q + len)"
    using take_add [of 2 "len - 2" "drop q data"] le_add_diff_inverse [OF assms(2)]
    by (simp add: go_slice_def add.commute del: le_add_diff_inverse)
  ultimately show "go_slice data q (q + len) = put_be16 len @ go_slice data (q + 2) (q + len)"
    by simp
  show "length (go_slice data (q + 2) (q + len)) = len - 2" using assms(2,3) by simp
  show "len \<le> 0xFFFF" using be16_bound [of "go_slice data q (q + 2)"] assms(1) by simp
qed

lemma segment_action_filter:
  "segment_action blob True m p ex =
     (case seg_fate blob m p of
        None \<Rightarrow> (True, None, ex)
      | Some q \<Rightarrow> (False, if m = jpegAPP1 \<and> hasPrefix p exifHeader then Some q else None, ex))"
  by (simp add: segment_action_def seg_fate_def split: sum.splits)

lemma seg_fate_kept:
  "seg_fate blob m p = Some q \<Longrightarrow> \<not> (m = jpegAPP1 \<and> hasPrefix p exifHeader) \<Longrightarrow> q = p"
  by (simp add: seg_fate_def split: if_splits)

lemma segment_action_extract:
  "snd (snd (segment_action blob False m p ex)) = ex @ seg_exif (JSegment n m p)"
  by (simp add: segment_action_def)

text \<open>One turn in filter mode appends what the segment at the position emits.\<close>

lemma jpeg_step_filter:
  assumes "pos < length data"
  shows "jpeg_step blob True data pos buf ex =
    (case jpeg_seg data pos of
       Inl e \<Rightarrow> Inl e
     | Inr (s, pos') \<Rightarrow>
         map_sum id (\<lambda>out. if is_EOI s then Return (buf @ out) ex else Continue pos' (buf @ out) ex)
           (seg_emit blob s))"
proof (cases "data ! pos = 0xFF \<and> skip_ff data pos < length data")
  case False
  then show ?thesis
    by (cases "data ! pos = 0xFF") (simp_all add: jpeg_step_def [of blob True data pos] jpeg_seg_def [of data pos])
next
  case True
  define p where "p = skip_ff data pos"
  define q where "q = p + 1"
  define len where "len = be16 (go_slice data q (q + 2))"
  have gt: "pos < p" and p: "p < length data" "data ! pos = 0xFF"
    using True assms skip_ff_gt by (simp_all add: p_def)
  have norm: "p + 1 = q" "Suc p = q" "be16 (go_slice data q (Suc (Suc q))) = len"
    by (simp_all add: q_def len_def)
  note unf = jpeg_step_def [of blob True data pos] jpeg_seg_def [of data pos] Let_def
    p_def [symmetric] norm put_def is_EOI_def
  consider (marker) "data ! p = jpegSOI \<or> data ! p = jpegEOI \<or> is_RST (data ! p)"
    | (scan) "data ! p = jpegSOS"
    | (bad) "data ! p \<noteq> jpegSOI" "data ! p \<noteq> jpegEOI" "\<not> is_RST (data ! p)" "data ! p \<noteq> jpegSOS"
        "q + 2 > length data \<or> len < 2 \<or> q + len > length data"
    | (seg) "data ! p \<noteq> jpegSOI" "data ! p \<noteq> jpegEOI" "\<not> is_RST (data ! p)" "data ! p \<noteq> jpegSOS"
        "q + 2 \<le> length data" "2 \<le> len" "q + len \<le> length data"
    unfolding not_less [symmetric] by blast
  then show ?thesis
  proof cases
    case marker
    then show ?thesis using p by (auto simp: unf)
  next
    case scan
    then have "\<not> is_RST (data ! p)" by (simp add: is_RST_def)
    with scan show ?thesis using p by (simp add: unf)
  next
    case bad
    then show ?thesis using p by (auto simp: unf)
  next
    case seg
    define pl where "pl = go_slice data (q + 2) (q + len)"
    note rest = segment_bytes [OF len_def [symmetric] seg(6,7), folded pl_def]
    have pl2: "go_slice data (Suc (Suc q)) (q + len) = pl" by (simp add: pl_def)
    have parse: "jpeg_seg data pos = Inr (JSegment (p - pos) (data ! p) pl, q + len)"
      using p seg by (simp add: unf pl2)
    define buf2 where "buf2 = buf @ replicate (p - pos) 0xFF @ [data ! p]"
    have step: "jpeg_step blob True data pos buf ex =
       (case segment_action blob True (data ! p) pl ex of
          (dropped, replacement, ex') \<Rightarrow>
            if dropped then Inr (Continue (q + len) (take (length buf2 - 2) buf2) ex')
            else (case replacement of
              Some rep \<Rightarrow>
                if length rep + 2 > 0xFFFF then Inl (FilteredAPP1TooLarge (length rep + 2))
                else Inr (Continue (q + len) (buf2 @ put_be16 (length rep + 2) @ rep) ex')
            | None \<Rightarrow> Inr (Continue (q + len) (buf2 @ put_be16 len @ pl) ex')))"
      using p seg rest(1)
      by (cases "segment_action blob True (data ! p) pl ex"; cases "fst (snd (segment_action blob True (data ! p) pl ex))")
        (simp_all add: unf pl2 buf2_def)
    have len: "len = Suc (Suc (length pl))" "length pl \<le> 65533" using rest(2,3) seg(6) by simp_all
    obtain k where k: "p - pos = Suc k" using gt by (metis Suc_diff_Suc)
    have rolled: "take (length buf2 - 2) buf2 = buf @ replicate (p - pos - 1) 0xFF"
      by (simp add: buf2_def k flip: replicate_append_same)
    show ?thesis
    proof (cases "seg_fate blob (data ! p) pl")
      case None
      then show ?thesis by (simp add: step parse segment_action_filter rolled is_EOI_def)
    next
      case (Some r)
      then show ?thesis
        using seg_fate_kept [OF Some] len
        by (simp add: step parse segment_action_filter is_EOI_def buf2_def)
    qed
  qed
qed

text \<open>One turn in extraction mode collects the EXIF bytes of the segment at the position.\<close>

lemma jpeg_step_extract:
  assumes "pos < length data"
  shows "jpeg_step blob False data pos buf ex =
    (case jpeg_seg data pos of
       Inl e \<Rightarrow> Inl e
     | Inr (s, pos') \<Rightarrow> Inr (if is_EOI s then Return buf (ex @ seg_exif s)
                                else Continue pos' buf (ex @ seg_exif s)))"
proof (cases "data ! pos = 0xFF \<and> skip_ff data pos < length data")
  case False
  then show ?thesis
    by (cases "data ! pos = 0xFF") (simp_all add: jpeg_step_def [of blob False data pos] jpeg_seg_def [of data pos])
next
  case True
  define p where "p = skip_ff data pos"
  define q where "q = p + 1"
  define len where "len = be16 (go_slice data q (q + 2))"
  define pl where "pl = go_slice data (q + 2) (q + len)"
  have p: "p < length data" "data ! pos = 0xFF" using True by (simp_all add: p_def)
  have norm: "p + 1 = q" "Suc p = q" "be16 (go_slice data q (Suc (Suc q))) = len"
    "go_slice data (Suc (Suc q)) (q + len) = pl"
    by (simp_all add: q_def len_def pl_def)
  note unf = jpeg_step_def [of blob False data pos] jpeg_seg_def [of data pos] Let_def
    p_def [symmetric] norm put_def is_EOI_def
  obtain d r x where sa: "segment_action blob False (data ! p) pl ex = (d, r, x)" by (metis prod_cases3)
  then have x: "x = ex @ seg_exif (JSegment (p - pos) (data ! p) pl)"
    using segment_action_extract [of blob "data ! p" pl ex] by simp
  show ?thesis
  proof (cases "data ! p = jpegSOS")
    case True
    then have "\<not> is_RST (data ! p)" by (simp add: is_RST_def)
    with True show ?thesis using p by (simp add: unf)
  next
    case False
    then show ?thesis using p by (simp add: unf sa x)
  qed
qed

section \<open>Parsing the whole file\<close>

function jpeg_segs :: "bytes \<Rightarrow> nat \<Rightarrow> exif_error + jseg list" where
  "jpeg_segs data pos =
     (if pos < length data then
        (case jpeg_seg data pos of
           Inl e \<Rightarrow> Inl e
         | Inr (s, pos') \<Rightarrow> if is_EOI s then Inr [s] else map_sum id (Cons s) (jpeg_segs data pos'))
      else Inr [])"
  by pat_completeness auto
termination
  by (relation "measure (\<lambda>(data, pos). length data - pos)")
    (auto dest: jpeg_seg_progress intro: diff_less_mono2)

declare jpeg_segs.simps [simp del]

definition jpeg_parse :: "bytes \<Rightarrow> exif_error + jseg list" where
  "jpeg_parse data =
     (if length data < 2 \<or> data ! 0 \<noteq> 0xFF \<or> data ! 1 \<noteq> jpegSOI then Inl NotAJPEG else jpeg_segs data 2)"

text \<open>The emissions of a list of segments, if none fails.\<close>

fun emit_all :: "(bytes \<Rightarrow> 'e + bytes) \<Rightarrow> jseg list \<Rightarrow> exif_error + bytes" where
  "emit_all blob [] = Inr []"
| "emit_all blob (s # ss) =
     (case seg_emit blob s of Inl e \<Rightarrow> Inl e | Inr out \<Rightarrow> map_sum id (append out) (emit_all blob ss))"

lemma jpeg_loop_filter:
  "jpeg_loop blob True data pos buf ex = Inr (out, x) \<longleftrightarrow>
     x = ex \<and> (\<exists>ss body. jpeg_segs data pos = Inr ss \<and> emit_all blob ss = Inr body \<and> out = buf @ body)"
proof (induction "length data - pos" arbitrary: pos buf rule: less_induct)
  case less
  show ?case
  proof (cases "pos < length data \<and> \<not> isl (jpeg_seg data pos)")
    case False
    then show ?thesis
      by (cases "jpeg_seg data pos")
        (auto simp: jpeg_loop.simps [of blob True data pos] jpeg_segs.simps [of data pos] jpeg_step_filter)
  next
    case True
    then obtain s pos' where s: "jpeg_seg data pos = Inr (s, pos')" by (cases "jpeg_seg data pos") auto
    note unf = jpeg_loop.simps [of blob True data pos] jpeg_segs.simps [of data pos] jpeg_step_filter s
    show ?thesis
    proof (cases "seg_emit blob s")
      case (Inl e)
      then show ?thesis using True
        by (cases "jpeg_segs data pos'") (auto simp: unf)
    next
      case (Inr o1)
      have "length data - pos' < length data - pos"
        using True jpeg_seg_progress [OF s] by (simp add: diff_less_mono2)
      note IH = less [OF this, of "buf @ o1"]
      show ?thesis
      proof (cases "is_EOI s")
        case True
        then show ?thesis using \<open>pos < length data \<and> _\<close> Inr by (auto simp: unf)
      next
        case False
        then have "jpeg_loop blob True data pos buf ex = jpeg_loop blob True data pos' (buf @ o1) ex"
          using True Inr by (simp add: unf)
        then have "jpeg_loop blob True data pos buf ex = Inr (out, x) \<longleftrightarrow>
            jpeg_loop blob True data pos' (buf @ o1) ex = Inr (out, x)" by simp
        moreover have "jpeg_segs data pos = map_sum id (Cons s) (jpeg_segs data pos')"
          using True False by (simp add: unf)
        ultimately show ?thesis unfolding IH
          by (cases "jpeg_segs data pos'"; cases "emit_all blob (projr (jpeg_segs data pos'))")
            (auto simp: Inr)
      qed
    qed
  qed
qed

lemma jpeg_loop_extract:
  "jpeg_loop blob False data pos buf ex =
     map_sum id (\<lambda>ss. (buf, ex @ concat (map seg_exif ss))) (jpeg_segs data pos)"
proof (induction "length data - pos" arbitrary: pos ex rule: less_induct)
  case less
  note unf = jpeg_loop.simps [of blob False data pos] jpeg_segs.simps [of data pos] jpeg_step_extract
  show ?case
  proof (cases "pos < length data \<and> \<not> isl (jpeg_seg data pos)")
    case False
    then show ?thesis by (cases "jpeg_seg data pos") (auto simp: unf)
  next
    case True
    then obtain s pos' where s: "jpeg_seg data pos = Inr (s, pos')" by (cases "jpeg_seg data pos") auto
    have "length data - pos' < length data - pos"
      using True jpeg_seg_progress [OF s] by (simp add: diff_less_mono2)
    note IH = less [OF this, of "ex @ seg_exif s"]
    show ?thesis using True IH by (cases "jpeg_segs data pos'") (simp_all add: unf s)
  qed
qed

section \<open>What the parse keeps of the file\<close>

lemma skip_ff_slice: "go_slice data pos (skip_ff data pos) = replicate (skip_ff data pos - pos) 0xFF"
proof (induction data pos rule: skip_ff.induct)
  case (1 data pos)
  show ?case
  proof (cases "pos < length data \<and> data ! pos = 0xFF")
    case True
    then have eq: "skip_ff data pos = skip_ff data (Suc pos)" using skip_ff.simps [of data pos] by simp
    then have "skip_ff data pos - pos = Suc (skip_ff data (Suc pos) - Suc pos)"
      using skip_ff_ge [of "Suc pos" data] by simp
    moreover have "drop pos data = 0xFF # drop (Suc pos) data"
      using True by (metis Cons_nth_drop_Suc)
    ultimately show ?thesis using 1 [OF True] by (simp add: go_slice_def eq)
  next
    case False
    then have "skip_ff data pos = pos" by (metis skip_ff.simps)
    then show ?thesis by (simp add: go_slice_def)
  qed
qed

lemma drop_split: "i \<le> j \<Longrightarrow> drop i xs = go_slice xs i j @ drop j xs"
  by (metis append_take_drop_id drop_drop go_slice_def le_add_diff_inverse2)

lemma jpeg_seg_cases:
  assumes "jpeg_seg data pos = Inr (s, pos')"
    and "p = skip_ff data pos" and "q = p + 1" and "len = be16 (go_slice data q (q + 2))"
    and "r = scan_entropy data (q + len)"
  shows "p < length data"
    and "(s, pos') = (JMarker (p - pos) (data ! p), q) \<or>
         (s, pos') = (JScan (p - pos) (go_slice data q (q + len)) (go_slice data (q + len) r), r) \<and>
           data ! p = jpegSOS \<and> q + len \<le> length data \<or>
         (s, pos') = (JSegment (p - pos) (data ! p) (go_slice data (q + 2) (q + len)), q + len) \<and>
           q + len \<le> length data \<and> 2 \<le> len"
  using assms(1)
  unfolding jpeg_seg_def Let_def assms(2-5) [symmetric]
  by (auto simp: not_less split: if_splits)

lemma jpeg_seg_raw:
  assumes "jpeg_seg data pos = Inr (s, pos')"
  shows "drop pos data = seg_raw s @ drop pos' data"
proof -
  define p where "p = skip_ff data pos"
  define q where "q = p + 1"
  define len where "len = be16 (go_slice data q (q + 2))"
  define r where "r = scan_entropy data (q + len)"
  note cs = jpeg_seg_cases [OF assms p_def q_def len_def r_def]
  have "pos \<le> p" by (simp add: p_def skip_ff_ge)
  have start: "drop pos data = replicate (p - pos) 0xFF @ [data ! p] @ drop q data"
    using drop_split [OF \<open>pos \<le> p\<close>, of data] Cons_nth_drop_Suc [OF cs(1)] skip_ff_slice [of data pos]
    by (simp add: p_def [symmetric] q_def)
  have "q + len \<le> r" by (simp add: r_def scan_entropy_ge)
  then have scan: "drop q data = go_slice data q (q + len) @ go_slice data (q + len) r @ drop r data"
    using drop_split [of q "q + len" data] drop_split [of "q + len" r data] by simp
  have seg: "drop q data = put_be16 (length pl + 2) @ pl @ drop (q + len) data"
    if "pl = go_slice data (q + 2) (q + len)" "q + len \<le> length data" "2 \<le> len" for pl
    using segment_bytes [OF len_def [symmetric] that(3,2)] drop_split [of q "q + len" data] that
    by (metis (no_types, lifting) append_assoc le_add1 le_add_diff_inverse2)
  from cs(2) show ?thesis
    by (elim disjE conjE) (simp_all only: prod.inject start seg_raw.simps append_assoc scan [symmetric] seg [OF refl, symmetric])
qed

lemma jpeg_segs_raw:
  "jpeg_segs data pos = Inr ss \<Longrightarrow>
     \<exists>t. drop pos data = concat (map seg_raw ss) @ t \<and> (t = [] \<or> (ss \<noteq> [] \<and> is_EOI (last ss)))"
proof (induction data pos arbitrary: ss rule: jpeg_segs.induct)
  case (1 data pos)
  show ?case
  proof (cases "pos < length data")
    case False
    then show ?thesis using 1(2) by (simp add: jpeg_segs.simps [of data pos])
  next
    case True
    from 1(2) True obtain s pos' where s: "jpeg_seg data pos = Inr (s, pos')"
      by (cases "jpeg_seg data pos") (auto simp: jpeg_segs.simps [of data pos])
    note raw = jpeg_seg_raw [OF s]
    show ?thesis
    proof (cases "is_EOI s")
      case True
      then have "ss = [s]" using 1(2) \<open>pos < length data\<close> by (simp add: jpeg_segs.simps [of data pos] s)
      then show ?thesis using raw True by auto
    next
      case False
      then obtain ss' where ss: "jpeg_segs data pos' = Inr ss'" "ss = s # ss'"
        using 1(2) True by (cases "jpeg_segs data pos'") (auto simp: jpeg_segs.simps [of data pos] s)
      from 1(1) [OF True s refl False ss(1)] show ?thesis using raw ss(2) by auto
    qed
  qed
qed

text \<open>The segments the filter rewrites or drops.\<close>

fun seg_metadata :: "jseg \<Rightarrow> bool" where
  "seg_metadata (JSegment n m p) =
     (m = jpegCOM \<or> m = jpegAPP1 \<and> (hasPrefix p exifHeader \<or> hasPrefix p xmpHeader))"
| "seg_metadata s = False"

fun seg_fits :: "jseg \<Rightarrow> bool" where
  "seg_fits (JSegment n m p) = (length p + 2 \<le> 0xFFFF)"
| "seg_fits s = True"

lemma seg_emit_plain: "\<not> seg_metadata s \<Longrightarrow> seg_fits s \<Longrightarrow> seg_emit blob s = Inr (seg_raw s)"
  by (cases s) (auto simp: seg_fate_def)

lemma jpeg_seg_fits:
  assumes "jpeg_seg data pos = Inr (s, pos')"
  shows "seg_fits s"
proof -
  let ?len = "be16 (go_slice data (skip_ff data pos + 1) (skip_ff data pos + 1 + 2))"
  have "length (go_slice data (a + 2) (a + ?len)) + 2 \<le> 0xFFFF" if "2 \<le> ?len" for a
    using be16_bound [of "go_slice data (skip_ff data pos + 1) (skip_ff data pos + 1 + 2)"] that by simp
  then show ?thesis
    using jpeg_seg_cases(2) [OF assms refl refl refl refl]
    by (elim disjE conjE) (simp_all only: prod.inject seg_fits.simps)
qed

lemma jpeg_segs_fits: "jpeg_segs data pos = Inr ss \<Longrightarrow> \<forall>s\<in>set ss. seg_fits s"
proof (induction data pos arbitrary: ss rule: jpeg_segs.induct)
  case (1 data pos)
  show ?case
  proof (cases "pos < length data \<and> \<not> isl (jpeg_seg data pos)")
    case False
    then show ?thesis using 1(2)
      by (cases "jpeg_seg data pos") (auto simp: jpeg_segs.simps [of data pos] split: if_splits)
  next
    case True
    then obtain s pos' where s: "jpeg_seg data pos = Inr (s, pos')" by (cases "jpeg_seg data pos") auto
    show ?thesis
      using 1(1) [of "(s, pos')" s pos'] 1(2) True jpeg_seg_fits [OF s]
      by (cases "jpeg_segs data pos'") (auto simp: jpeg_segs.simps [of data pos] s split: if_splits)
  qed
qed

lemma emit_all_plain:
  "\<forall>s\<in>set ss. \<not> seg_metadata s \<Longrightarrow> \<forall>s\<in>set ss. seg_fits s \<Longrightarrow>
     emit_all blob ss = Inr (concat (map seg_raw ss))"
  by (induction ss) (simp_all add: seg_emit_plain)

lemma filterJPEG_iff:
  "filterJPEG blob data = Inr out \<longleftrightarrow>
     (\<exists>ss body. jpeg_parse data = Inr ss \<and> emit_all blob ss = Inr body \<and> out = [0xFF, jpegSOI] @ body)"
proof (cases "length data < 2 \<or> data ! 0 \<noteq> 0xFF \<or> data ! 1 \<noteq> jpegSOI")
  case True
  then show ?thesis by (auto simp: filterJPEG_def walkJPEGSegments_def jpeg_parse_def)
next
  case False
  then obtain rest where data: "data = 0xFF # jpegSOI # rest"
    by (cases data; cases "tl data") auto
  have "filterJPEG blob data = Inr out \<longleftrightarrow> (\<exists>x. jpeg_loop blob True data 2 [0xFF, jpegSOI] [] = Inr (out, x))"
    by (cases "jpeg_loop blob True data 2 [0xFF, jpegSOI] []")
      (auto simp: filterJPEG_def walkJPEGSegments_def data put_def)
  then show ?thesis by (simp add: jpeg_loop_filter jpeg_parse_def data)
qed

section \<open>Properties\<close>

text \<open>
  C13. The JPEG filter is the segment-wise filter: it succeeds exactly when the file parses into
  segments and every rebuilt Exif segment fits its 16-bit length, and then its output is the SOI
  marker followed by what each segment emits, in order: comments and XMP packets (and Exif segments
  that cannot be rebuilt, or that keep nothing) leave only their extra fill bytes, an Exif segment is
  re-emitted with the rebuilt blob, everything else is copied.
\<close>

theorem filterJPEG_refines_segments:
  "filterJPEG blob data = Inr out \<longleftrightarrow>
     (\<exists>ss body. jpeg_parse data = Inr ss \<and> emit_all blob ss = Inr body \<and> out = [0xFF, jpegSOI] @ body)"
  by (rule filterJPEG_iff)

text \<open>
  A JPEG without comments, XMP packets and Exif segments passes the filter byte for byte, up to
  the bytes that trail its end-of-image marker, whatever other application segments it carries.
\<close>

lemma filterJPEG_identity_without_metadata:
  assumes "jpeg_parse data = Inr ss" and "\<forall>s\<in>set ss. \<not> seg_metadata s"
  shows "\<exists>out t. filterJPEG blob data = Inr out \<and> data = out @ t \<and>
                 (t = [] \<or> (ss \<noteq> [] \<and> is_EOI (last ss)))"
proof -
  from assms(1) have segs: "jpeg_segs data 2 = Inr ss" and hd2: "take 2 data = [0xFF, jpegSOI]"
    by (cases data; cases "tl data"; simp add: jpeg_parse_def split: if_splits)+
  obtain t where t: "drop 2 data = concat (map seg_raw ss) @ t" "t = [] \<or> (ss \<noteq> [] \<and> is_EOI (last ss))"
    using jpeg_segs_raw [OF segs] by blast
  have "filterJPEG blob data = Inr ([0xFF, jpegSOI] @ concat (map seg_raw ss))"
    unfolding filterJPEG_iff
    using assms(1) emit_all_plain [OF assms(2) jpeg_segs_fits [OF segs]] by blast
  moreover have "data = ([0xFF, jpegSOI] @ concat (map seg_raw ss)) @ t"
    using append_take_drop_id [of 2 data] t(1) hd2 by simp
  ultimately show ?thesis using t(2) by blast
qed

text \<open>
  Extraction returns the concatenated payloads of all the Exif segments of a file that parses,
  and the parse error otherwise: the EXIF rebuilding plays no part in it.
\<close>

lemma extractRawExif_concat:
  "extractRawExif blob data ''image/jpeg'' = map_sum id (\<lambda>ss. concat (map seg_exif ss)) (jpeg_parse data)"
  by (simp add: extractRawExif_def walkJPEGSegments_def jpeg_parse_def jpeg_loop_extract put_def
      sum.map_comp comp_def id_def)

section \<open>Witness\<close>

text \<open>A file with an APP13 (Photoshop/IPTC) segment and two trailing bytes.\<close>

definition sample_jpeg :: bytes where
  "sample_jpeg = [0xFF, 0xD8, 0xFF, 0xED, 0, 4, 0x41, 0x42, 0xFF, 0xD9, 7, 7]"

lemma sample_jpeg_parse:
  "jpeg_parse sample_jpeg = Inr [JSegment 1 0xED [0x41, 0x42], JMarker 1 jpegEOI]"
proof -
  have len: "length sample_jpeg = 12" by (simp add: sample_jpeg_def)
  have nth: "sample_jpeg ! 0 = 0xFF" "sample_jpeg ! Suc 0 = 0xD8" "sample_jpeg ! 2 = 0xFF" "sample_jpeg ! 3 = 0xED"
    "sample_jpeg ! 8 = 0xFF" "sample_jpeg ! 9 = 0xD9" by (simp_all add: sample_jpeg_def)
  have skip: "skip_ff sample_jpeg 2 = 3" "skip_ff sample_jpeg 8 = 9"
    using skip_ff.simps [of sample_jpeg 2] skip_ff.simps [of sample_jpeg 3]
      skip_ff.simps [of sample_jpeg 8] skip_ff.simps [of sample_jpeg 9] by (simp_all add: len nth)
  have sl: "go_slice sample_jpeg 4 6 = [0, 4]" "go_slice sample_jpeg 6 8 = [0x41, 0x42]"
    by (simp_all add: go_slice_def sample_jpeg_def)
  have "jpeg_seg sample_jpeg 2 = Inr (JSegment 1 0xED [0x41, 0x42], 8)"
    by (simp add: jpeg_seg_def Let_def nth skip len sl be16_def is_RST_def)
  moreover have "jpeg_seg sample_jpeg 8 = Inr (JMarker 1 jpegEOI, 10)"
    by (simp add: jpeg_seg_def Let_def nth skip len)
  ultimately show ?thesis
    using jpeg_segs.simps [of sample_jpeg 2] jpeg_segs.simps [of sample_jpeg 8]
    by (simp add: jpeg_parse_def nth len is_EOI_def)
qed

lemma sample_jpeg_unchanged:
  "jpeg_parse sample_jpeg = Inr [JSegment 1 0xED [0x41, 0x42], JMarker 1 jpegEOI] \<and>
   (\<exists>out t. filterJPEG Inr sample_jpeg = Inr out \<and> sample_jpeg = out @ t)"
  using filterJPEG_identity_without_metadata [OF sample_jpeg_parse, of Inr] sample_jpeg_parse
  by (auto simp: is_EOI_def)

end
