(* ===== verification/ExifBlob.thy ===== *)
theory ExifBlob
  imports ExifJpeg
begin

text \<open>
  The EXIF allowlist of \<open>src/internal/storage/exif/exif.go\<close>: \<open>AllowedRootTagIDs\<close>,
  \<open>AllowedExifTagIDs\<close>, \<open>buildFilteredIfd\<close> and \<open>filterEXIFBlob\<close>. Parsing and encoding of EXIF and the
  directory builder belong to the go-exif library: they are the fields of the record \<open>goexif\<close>, and the
  locale \<open>goexif_builder\<close> says what the code relies on of the builder. The parsed directory is the data
  the code reads through the library's accessors.
\<close>

type_synonym uint16 = "16 word"

definition AllowedRootTagIDs :: "uint16 list" where
  "AllowedRootTagIDs =
     [0x0100, 0x0101, 0x0102, 0x0103, 0x0106, 0x0115, 0x011C, 0x0112, 0x011A, 0x011B, 0x0128,
      0x010F, 0x0110, 0x0132]"

definition AllowedExifTagIDs :: "uint16 list" where
  "AllowedExifTagIDs =
     [0x9003, 0x9004, 0x9290, 0x9291, 0x9292, 0x829A, 0x829D, 0x8827, 0x8822, 0x9204, 0x9201,
      0x9202, 0x9203, 0x9207, 0x9208, 0x9209, 0x920A, 0xA405, 0xA433, 0xA434, 0xA435, 0xA432,
      0xA403, 0xA402, 0xA406, 0xA301, 0xA001, 0xA302, 0xA401, 0xA404, 0xA408, 0xA409, 0xA40A]"

abbreviation tagExifSubIfd :: uint16 where "tagExifSubIfd \<equiv> 0x8769"
abbreviation tagGPSInfo :: uint16 where "tagGPSInfo \<equiv> 0x8825"
abbreviation tagInterop :: uint16 where "tagInterop \<equiv> 0xA005"

section \<open>What the library hands over\<close>

text \<open>A directory entry: \<open>ite_GetRawBytes\<close> is \<open>None\<close> when the value cannot be read.\<close>

record IfdTagEntry =
  ite_TagId :: uint16
  ite_TagType :: nat
  ite_IsThumbnailOffset :: bool
  ite_IsThumbnailSize :: bool
  ite_ChildIfdPath :: string
  ite_GetRawBytes :: "bytes option"

text \<open>A parsed directory; a child carries the index of the entry that points to it.\<close>

datatype Ifd = Ifd (ifd_Identity: string) (ifd_ByteOrder: bool) (ifd_Entries: "IfdTagEntry list")
  (ifd_Children: "(nat \<times> Ifd) list")

record BuilderTag =
  bt_path :: string
  bt_id :: uint16
  bt_type :: nat
  bt_value :: bytes
  bt_order :: bool

text \<open>The errors the code wraps around the library's, and the operations it calls.\<close>

datatype blob_error = IfdMappingError string | CollectError string | AddChildError string
  | AddTagError uint16 string | EncodeError string

record 'b goexif =
  gx_NewIfdMapping :: "string option"
  gx_Collect :: "bytes \<Rightarrow> string + Ifd"
  gx_NewIfdBuilder :: "string \<Rightarrow> bool \<Rightarrow> 'b"
  gx_Add :: "'b \<Rightarrow> BuilderTag \<Rightarrow> string + 'b"
  gx_AddChildIb :: "'b \<Rightarrow> 'b \<Rightarrow> string + 'b"
  gx_EncodeToExif :: "'b \<Rightarrow> string + bytes"

section \<open>The filter\<close>

definition child_at :: "Ifd \<Rightarrow> nat \<Rightarrow> Ifd option" where
  "child_at ifd i = map_option snd (find (\<lambda>c. fst c = i) (ifd_Children ifd))"

lemma child_at_size [termination_simp]:
  assumes "child_at ifd i = Some c"
  shows "size c < size ifd"
proof -
  from assms obtain j where j: "(j, c) \<in> set (ifd_Children ifd)"
    by (auto simp: child_at_def find_Some_iff in_set_conv_nth) (metis prod.collapse)
  then have "size c < size_list (size_prod (\<lambda>_. 0) size) (ifd_Children ifd)"
    by (induction "ifd_Children ifd") (auto simp: size_list_estimation)
  then show ?thesis by (cases ifd) simp
qed

definition mkBuilderTag :: "Ifd \<Rightarrow> IfdTagEntry \<Rightarrow> bytes \<Rightarrow> BuilderTag" where
  "mkBuilderTag ifd ite rawBytes =
     \<lparr>bt_path = ifd_Identity ifd, bt_id = ite_TagId ite, bt_type = ite_TagType ite,
      bt_value = rawBytes, bt_order = ifd_ByteOrder ifd\<rparr>"

function buildFilteredIfd_loop ::
  "'b goexif \<Rightarrow> Ifd \<Rightarrow> uint16 list \<Rightarrow> nat \<Rightarrow> 'b \<Rightarrow> bool \<Rightarrow> blob_error + bool \<times> 'b" where
  "buildFilteredIfd_loop gx sourceIfd allowed i ib added =
     (if i < length (ifd_Entries sourceIfd) then
        let ite = ifd_Entries sourceIfd ! i in
        if ite_IsThumbnailOffset ite \<or> ite_IsThumbnailSize ite then
          buildFilteredIfd_loop gx sourceIfd allowed (Suc i) ib added
        else if ite_ChildIfdPath ite \<noteq> [] then
          if ite_TagId ite \<noteq> tagExifSubIfd then buildFilteredIfd_loop gx sourceIfd allowed (Suc i) ib added
          else (case child_at sourceIfd i of
              None \<Rightarrow> buildFilteredIfd_loop gx sourceIfd allowed (Suc i) ib added
            | Some childIfd \<Rightarrow>
                (case buildFilteredIfd_loop gx childIfd AllowedExifTagIDs 0
                        (gx_NewIfdBuilder gx (ifd_Identity childIfd) (ifd_ByteOrder childIfd)) False of
                   Inl err \<Rightarrow> Inl err
                 | Inr (childAdded, childIb) \<Rightarrow>
                     if \<not> childAdded then buildFilteredIfd_loop gx sourceIfd allowed (Suc i) ib added
                     else (case gx_AddChildIb gx ib childIb of
                         Inl err \<Rightarrow> Inl (AddChildError err)
                       | Inr ib' \<Rightarrow> buildFilteredIfd_loop gx sourceIfd allowed (Suc i) ib' True)))
        else if ite_TagId ite \<notin> set allowed then buildFilteredIfd_loop gx sourceIfd allowed (Suc i) ib added
        else (case ite_GetRawBytes ite of
            None \<Rightarrow> buildFilteredIfd_loop gx sourceIfd allowed (Suc i) ib added
          | Some rawBytes \<Rightarrow>
              (case gx_Add gx ib (mkBuilderTag sourceIfd ite rawBytes) of
                 Inl err \<Rightarrow> Inl (AddTagError (ite_TagId ite) err)
               | Inr ib' \<Rightarrow> buildFilteredIfd_loop gx sourceIfd allowed (Suc i) ib' True))
      else Inr (added, ib))"
  by pat_completeness auto
termination
  by (relation "measures [\<lambda>(gx, s, a, i, ib, d). size s, \<lambda>(gx, s, a, i, ib, d). length (ifd_Entries s) - i]")
    (auto dest: child_at_size)

declare buildFilteredIfd_loop.simps [simp del]

definition buildFilteredIfd :: "'b goexif \<Rightarrow> 'b \<Rightarrow> Ifd \<Rightarrow> uint16 list \<Rightarrow> blob_error + bool \<times> 'b" where
  "buildFilteredIfd gx targetIb sourceIfd allowed = buildFilteredIfd_loop gx sourceIfd allowed 0 targetIb False"

text \<open>The empty result stands for the code's \<open>(nil, nil)\<close>.\<close>

definition filterEXIFBlob :: "'b goexif \<Rightarrow> bytes \<Rightarrow> blob_error + bytes" where
  "filterEXIFBlob gx rawExif =
     (case gx_NewIfdMapping gx of
        Some err \<Rightarrow> Inl (IfdMappingError err)
      | None \<Rightarrow>
          (case gx_Collect gx rawExif of
             Inl err \<Rightarrow> Inl (CollectError err)
           | Inr rootIfd \<Rightarrow>
               (case buildFilteredIfd gx (gx_NewIfdBuilder gx (ifd_Identity rootIfd) (ifd_ByteOrder rootIfd))
                       rootIfd AllowedRootTagIDs of
                  Inl err \<Rightarrow> Inl err
                | Inr (addedAny, rootIb) \<Rightarrow>
                    if \<not> addedAny then Inr []
                    else (case gx_EncodeToExif gx rootIb of
                        Inl err \<Rightarrow> Inl (EncodeError err)
                      | Inr out \<Rightarrow> Inr out))))"

section \<open>What the builder promises\<close>

text \<open>
  The tags and child directories a builder holds, in order. A new builder is empty; a successful
  \<open>Add\<close> or \<open>AddChildIb\<close> appends one item.
\<close>

datatype ifd_item = ITag BuilderTag | IChild "ifd_item list"

locale goexif_builder =
  fixes gx :: "'b goexif" and content :: "'b \<Rightarrow> ifd_item list"
  assumes content_new: "content (gx_NewIfdBuilder gx path order) = []"
    and content_Add: "gx_Add gx ib bt = Inr ib' \<Longrightarrow> content ib' = content ib @ [ITag bt]"
    and content_AddChildIb: "gx_AddChildIb gx ib cb = Inr ib' \<Longrightarrow> content ib' = content ib @ [IChild (content cb)]"

text \<open>
  An item is allowed when its tag is on the list of its directory, with the Exif list for every
  directory below the root.
\<close>

fun item_allowed :: "uint16 list \<Rightarrow> ifd_item \<Rightarrow> bool" where
  "item_allowed allowed (ITag bt) = (bt_id bt \<in> set allowed)"
| "item_allowed allowed (IChild items) = (\<forall>x\<in>set items. item_allowed AllowedExifTagIDs x)"

text \<open>The entries that have to survive: readable plain values on the list, thumbnails apart.\<close>

definition entry_kept :: "uint16 list \<Rightarrow> IfdTagEntry \<Rightarrow> bool" where
  "entry_kept allowed ite \<longleftrightarrow>
     \<not> ite_IsThumbnailOffset ite \<and> \<not> ite_IsThumbnailSize ite \<and> ite_ChildIfdPath ite = [] \<and>
     ite_TagId ite \<in> set allowed \<and> ite_GetRawBytes ite \<noteq> None"

text \<open>A turn of the loop skips its entry, adds a filtered child directory, or adds the entry's tag.\<close>

lemma buildFilteredIfd_loop_cases:
  assumes "buildFilteredIfd_loop gx ifd allowed i ib added = Inr r"
    and "i < length (ifd_Entries ifd)"
  obtains (skip) "buildFilteredIfd_loop gx ifd allowed (Suc i) ib added = Inr r"
      "\<not> entry_kept allowed (ifd_Entries ifd ! i)"
    | (child) c cb ib' where "child_at ifd i = Some c"
      "buildFilteredIfd_loop gx c AllowedExifTagIDs 0
         (gx_NewIfdBuilder gx (ifd_Identity c) (ifd_ByteOrder c)) False = Inr (True, cb)"
      "gx_AddChildIb gx ib cb = Inr ib'" "buildFilteredIfd_loop gx ifd allowed (Suc i) ib' True = Inr r"
      "\<not> entry_kept allowed (ifd_Entries ifd ! i)"
    | (tag) raw ib' where "entry_kept allowed (ifd_Entries ifd ! i)"
      "ite_GetRawBytes (ifd_Entries ifd ! i) = Some raw"
      "gx_Add gx ib (mkBuilderTag ifd (ifd_Entries ifd ! i) raw) = Inr ib'"
      "buildFilteredIfd_loop gx ifd allowed (Suc i) ib' True = Inr r"
  using assms(1)
  unfolding buildFilteredIfd_loop.simps [of gx ifd allowed i ib added] Let_def entry_kept_def
  using assms(2)
  by (auto split: if_splits option.splits sum.splits prod.splits)

context goexif_builder
begin

text \<open>
  The loop only appends; what it appends is allowed, and it reports an addition exactly when there is
  one.
\<close>

lemma loop_allowed:
  "buildFilteredIfd_loop gx ifd allowed i ib added = Inr (added', ib') \<Longrightarrow>
     \<exists>items. content ib' = content ib @ items \<and> (\<forall>x\<in>set items. item_allowed allowed x) \<and>
             (added' \<longleftrightarrow> added \<or> items \<noteq> [])"
proof (induction "size ifd" arbitrary: ifd allowed i ib added added' ib' rule: less_induct)
  case outer: less
  from outer.prems show ?case
  proof (induction "length (ifd_Entries ifd) - i" arbitrary: i ib added rule: less_induct)
    case less
    show ?case
    proof (cases "i < length (ifd_Entries ifd)")
      case False
      then show ?thesis using less.prems by (simp add: buildFilteredIfd_loop.simps [of gx ifd allowed i])
    next
      case True
      then have dec: "length (ifd_Entries ifd) - Suc i < length (ifd_Entries ifd) - i" by simp
      from less.prems True show ?thesis
      proof (cases rule: buildFilteredIfd_loop_cases)
        case skip
        then show ?thesis using less.hyps [OF dec] by blast
      next
        case (child c cb ib2)
        from outer.hyps [OF child_at_size [OF child(1)] child(2)] content_new
        have "\<forall>x\<in>set (content cb). item_allowed AllowedExifTagIDs x" by auto
        moreover have "content ib2 = content ib @ [IChild (content cb)]" by (rule content_AddChildIb [OF child(3)])
        ultimately show ?thesis using less.hyps [OF dec child(4)] by force
      next
        case (tag raw ib2)
        have "content ib2 = content ib @ [ITag (mkBuilderTag ifd (ifd_Entries ifd ! i) raw)]"
          by (rule content_Add [OF tag(3)])
        then show ?thesis
          using less.hyps [OF dec tag(4)] tag(1) by (force simp: mkBuilderTag_def entry_kept_def)
      qed
    qed
  qed
qed

text \<open>Every entry from the current index on that has to survive is in the result.\<close>

lemma loop_complete:
  assumes "buildFilteredIfd_loop gx ifd allowed i ib added = Inr (added', ib')"
    and "i \<le> k" and "k < length (ifd_Entries ifd)" and "entry_kept allowed (ifd_Entries ifd ! k)"
    and "ite_GetRawBytes (ifd_Entries ifd ! k) = Some raw"
  shows "ITag (mkBuilderTag ifd (ifd_Entries ifd ! k) raw) \<in> set (content ib')"
  using assms(1,2)
proof (induction "k - i" arbitrary: i ib added rule: less_induct)
  case less
  from less.prems(2) assms(3) have "i < length (ifd_Entries ifd)" by simp
  with less.prems(1) show ?case
  proof (cases rule: buildFilteredIfd_loop_cases)
    case skip
    then have "i \<noteq> k" using assms(4) by blast
    then show ?thesis using less.hyps [OF _ skip(1)] less.prems(2) by simp
  next
    case (child c cb ib2)
    then have "i \<noteq> k" using assms(4) by blast
    then show ?thesis using less.hyps [OF _ child(4)] less.prems(2) by simp
  next
    case (tag raw' ib2)
    show ?thesis
    proof (cases "i = k")
      case True
      then have "raw' = raw" using tag(2) assms(5) by simp
      then show ?thesis
        using True content_Add [OF tag(3)] loop_allowed [OF tag(4)] by auto
    next
      case False
      then show ?thesis using less.hyps [OF _ tag(4)] less.prems(2) by simp
    qed
  qed
qed

lemma filterEXIFBlob_builder:
  assumes "filterEXIFBlob gx raw = Inr out" and "out \<noteq> []"
  obtains ifd ib where "gx_Collect gx raw = Inr ifd" "gx_EncodeToExif gx ib = Inr out"
    "buildFilteredIfd_loop gx ifd AllowedRootTagIDs 0
       (gx_NewIfdBuilder gx (ifd_Identity ifd) (ifd_ByteOrder ifd)) False = Inr (True, ib)"
  using assms by (auto simp: filterEXIFBlob_def buildFilteredIfd_def
      split: option.splits sum.splits prod.splits if_splits)

end

section \<open>A builder that keeps its items in a list\<close>

text \<open>
  A concrete library: the builder is its item list, a blob is read as the given directory, and the
  encoding is the list of tag identifiers, split into bytes.
\<close>

fun item_ids :: "ifd_item \<Rightarrow> uint16 list" where
  "item_ids (ITag bt) = [bt_id bt]"
| "item_ids (IChild items) = concat (map item_ids items)"

definition list_gx :: "Ifd \<Rightarrow> ifd_item list goexif" where
  "list_gx ifd =
     \<lparr>gx_NewIfdMapping = None, gx_Collect = (\<lambda>_. Inr ifd), gx_NewIfdBuilder = (\<lambda>_ _. []),
      gx_Add = (\<lambda>ib bt. Inr (ib @ [ITag bt])), gx_AddChildIb = (\<lambda>ib cb. Inr (ib @ [IChild cb])),
      gx_EncodeToExif = (\<lambda>ib. Inr (concat (map (\<lambda>n. put_be16 (unat n)) (concat (map item_ids ib)))))\<rparr>"

interpretation list_gx: goexif_builder "list_gx ifd" id
  by unfold_locales (auto simp: list_gx_def)

section \<open>Property\<close>

lemma item_allowed_ids:
  "item_allowed allowed x \<Longrightarrow> set (item_ids x) \<subseteq> set allowed \<union> set AllowedExifTagIDs"
proof (induction allowed x rule: item_allowed.induct)
  case (2 allowed items)
  then show ?case by fastforce
qed simp

lemma tag_not_allowed:
  "tagGPSInfo \<notin> set AllowedRootTagIDs \<union> set AllowedExifTagIDs"
  "tagInterop \<notin> set AllowedRootTagIDs \<union> set AllowedExifTagIDs"
  "0x927C \<notin> set AllowedRootTagIDs \<union> set AllowedExifTagIDs"
  by (simp_all add: AllowedRootTagIDs_def AllowedExifTagIDs_def)

text \<open>
  C16. What \<open>filterEXIFBlob\<close> encodes is exactly reduced to the allowlist: every tag of the rebuilt
  root directory is on the root list and every tag below it on the Exif list, no GPS or interoperability
  pointer and no maker note is left at any depth, and every readable allowed value of the root directory
  is still there. The library's builder is only assumed to hold what was added to it.
\<close>

theorem filterEXIFBlob_allowlist:
  assumes "goexif_builder gx content" and "filterEXIFBlob gx raw = Inr out" and "out \<noteq> []"
  shows "\<exists>ifd ib. gx_Collect gx raw = Inr ifd \<and> gx_EncodeToExif gx ib = Inr out \<and> content ib \<noteq> [] \<and>
     (\<forall>x\<in>set (content ib). item_allowed AllowedRootTagIDs x \<and>
        set (item_ids x) \<inter> {tagGPSInfo, tagInterop, 0x927C} = {}) \<and>
     (\<forall>ite\<in>set (ifd_Entries ifd). \<forall>v. entry_kept AllowedRootTagIDs ite \<and> ite_GetRawBytes ite = Some v
        \<longrightarrow> ITag (mkBuilderTag ifd ite v) \<in> set (content ib))"
proof -
  obtain ifd ib where b: "gx_Collect gx raw = Inr ifd" "gx_EncodeToExif gx ib = Inr out"
    "buildFilteredIfd_loop gx ifd AllowedRootTagIDs 0
       (gx_NewIfdBuilder gx (ifd_Identity ifd) (ifd_ByteOrder ifd)) False = Inr (True, ib)"
    by (rule goexif_builder.filterEXIFBlob_builder [OF assms])
  have allowed: "\<forall>x\<in>set (content ib). item_allowed AllowedRootTagIDs x" and ne: "content ib \<noteq> []"
    using goexif_builder.loop_allowed [OF assms(1) b(3)] by (simp_all add: goexif_builder.content_new [OF assms(1)])
  have clean: "set (item_ids x) \<inter> {tagGPSInfo, tagInterop, 0x927C} = {}" if "x \<in> set (content ib)" for x
  proof -
    have "set (item_ids x) \<subseteq> set AllowedRootTagIDs \<union> set AllowedExifTagIDs"
      using item_allowed_ids allowed that by simp
    then show ?thesis using tag_not_allowed by (simp add: disjoint_insert subset_iff) metis
  qed
  have kept: "ITag (mkBuilderTag ifd ite v) \<in> set (content ib)"
    if "ite \<in> set (ifd_Entries ifd)" "entry_kept AllowedRootTagIDs ite" "ite_GetRawBytes ite = Some v" for ite v
    using goexif_builder.loop_complete [OF assms(1) b(3)] that by (metis in_set_conv_nth le0)
  show ?thesis
    by (rule exI [of _ ifd], rule exI [of _ ib]) (use b(1,2) allowed ne clean kept in simp)
qed

text \<open>A directory with a camera make, a GPS pointer, a software tag and an Exif directory with a maker note.\<close>

definition plain_entry :: "uint16 \<Rightarrow> IfdTagEntry" where
  "plain_entry n = \<lparr>ite_TagId = n, ite_TagType = 2, ite_IsThumbnailOffset = False, ite_IsThumbnailSize = False,
     ite_ChildIfdPath = [], ite_GetRawBytes = Some [0x41]\<rparr>"

definition sample_ifd :: Ifd where
  "sample_ifd = Ifd ''IFD'' True
     [plain_entry 0x010F, plain_entry tagGPSInfo \<lparr>ite_ChildIfdPath := ''IFD/GPSInfo''\<rparr>, plain_entry 0x0131,
      plain_entry tagExifSubIfd \<lparr>ite_ChildIfdPath := ''IFD/Exif''\<rparr>]
     [(1, Ifd ''IFD/GPSInfo'' True [plain_entry 2] []),
      (3, Ifd ''IFD/Exif'' True [plain_entry 0x9003, plain_entry 0x927C] [])]"

lemma plain_entry_simps:
  "ite_TagId (plain_entry n) = n" "ite_IsThumbnailOffset (plain_entry n) = False"
  "ite_IsThumbnailSize (plain_entry n) = False" "ite_ChildIfdPath (plain_entry n) = []"
  "ite_GetRawBytes (plain_entry n) = Some [0x41]"
  by (simp_all add: plain_entry_def)

lemma list_gx_simps:
  "gx_NewIfdMapping (list_gx d) = None" "gx_Collect (list_gx d) x = Inr d"
  "gx_NewIfdBuilder (list_gx d) path order = []" "gx_Add (list_gx d) ib bt = Inr (ib @ [ITag bt])"
  "gx_AddChildIb (list_gx d) ib cb = Inr (ib @ [IChild cb])"
  "gx_EncodeToExif (list_gx d) ib = Inr (concat (map (\<lambda>n. put_be16 (unat n)) (concat (map item_ids ib))))"
  by (simp_all add: list_gx_def)

lemma allowed_samples:
  "0x9003 \<in> set AllowedExifTagIDs" "0x927C \<notin> set AllowedExifTagIDs"
  "0x010F \<in> set AllowedRootTagIDs" "0x0131 \<notin> set AllowedRootTagIDs"
  by (simp_all add: AllowedRootTagIDs_def AllowedExifTagIDs_def)

lemmas sample_evals = plain_entry_simps list_gx_simps allowed_samples Let_def

lemma sample_child_loop:
  "buildFilteredIfd_loop (list_gx d) (Ifd p True [plain_entry 0x9003, plain_entry 0x927C] []) AllowedExifTagIDs 0 [] False =
     Inr (True, [ITag (mkBuilderTag (Ifd p True [plain_entry 0x9003, plain_entry 0x927C] []) (plain_entry 0x9003) [0x41])])"
  (is "buildFilteredIfd_loop ?g ?c ?a 0 [] False = Inr (True, ?r)")
proof -
  have "buildFilteredIfd_loop ?g ?c ?a (Suc (Suc 0)) ?r True = Inr (True, ?r)"
    by (simp add: buildFilteredIfd_loop.simps [of ?g ?c ?a "Suc (Suc 0)"])
  then have "buildFilteredIfd_loop ?g ?c ?a (Suc 0) ?r True = Inr (True, ?r)"
    by (simp add: buildFilteredIfd_loop.simps [of ?g ?c ?a "Suc 0"] sample_evals)
  then show ?thesis
    by (simp add: buildFilteredIfd_loop.simps [of ?g ?c ?a 0] sample_evals)
qed

lemma sample_ifd_filtered: "filterEXIFBlob (list_gx sample_ifd) [] = Inr [0x01, 0x0F, 0x90, 0x03]"
proof -
  let ?g = "list_gx sample_ifd"
  let ?loop = "buildFilteredIfd_loop ?g sample_ifd AllowedRootTagIDs"
  let ?c = "Ifd ''IFD/Exif'' True [plain_entry 0x9003, plain_entry 0x927C] []"
  let ?m = "ITag (mkBuilderTag sample_ifd (plain_entry 0x010F) [0x41])"
  let ?d = "ITag (mkBuilderTag ?c (plain_entry 0x9003) [0x41])"
  note unf = buildFilteredIfd_loop.simps [of ?g sample_ifd AllowedRootTagIDs]
  have entries: "ifd_Entries sample_ifd = [plain_entry 0x010F,
      plain_entry tagGPSInfo \<lparr>ite_ChildIfdPath := ''IFD/GPSInfo''\<rparr>, plain_entry 0x0131,
      plain_entry tagExifSubIfd \<lparr>ite_ChildIfdPath := ''IFD/Exif''\<rparr>]" by (simp add: sample_ifd_def)
  have child: "child_at sample_ifd (Suc (Suc (Suc 0))) = Some ?c"
    by (simp add: child_at_def sample_ifd_def)
  have "?loop (Suc (Suc (Suc (Suc 0)))) [?m, IChild [?d]] True = Inr (True, [?m, IChild [?d]])"
    by (simp add: unf [of "Suc (Suc (Suc (Suc 0)))"] entries)
  then have "?loop (Suc (Suc (Suc 0))) [?m] True = Inr (True, [?m, IChild [?d]])"
    using sample_child_loop [of sample_ifd "''IFD/Exif''"]
    by (simp add: unf [of "Suc (Suc (Suc 0))"] entries child sample_evals)
  then have "?loop (Suc (Suc 0)) [?m] True = Inr (True, [?m, IChild [?d]])"
    by (simp add: unf [of "Suc (Suc 0)"] entries child sample_evals)
  then have "?loop (Suc 0) [?m] True = Inr (True, [?m, IChild [?d]])"
    by (simp add: unf [of "Suc 0"] entries child sample_evals)
  then have "?loop 0 [] False = Inr (True, [?m, IChild [?d]])"
    by (simp add: unf [of 0] entries child sample_evals)
  then show ?thesis
    by (simp add: filterEXIFBlob_def buildFilteredIfd_def list_gx_simps mkBuilderTag_def plain_entry_simps put_be16_def)
qed

theorem filterEXIFBlob_allowlist_witness:
  "\<exists>ifd ib. filterEXIFBlob (list_gx sample_ifd) [] = Inr [0x01, 0x0F, 0x90, 0x03] \<and>
     gx_Collect (list_gx sample_ifd) [] = Inr ifd \<and> ib \<noteq> [] \<and>
     (\<forall>x\<in>set ib. item_allowed AllowedRootTagIDs x)"
  using filterEXIFBlob_allowlist [OF list_gx.goexif_builder_axioms sample_ifd_filtered] sample_ifd_filtered
  by auto

end
