(* ===== verification/RateLimit.thy ===== *)
theory RateLimit
  imports Prelude
begin

text \<open>
  The keyed token-bucket limiter of \<open>src/internal/ratelimit/limiter.go\<close>. The clock the code injects is
  the argument \<open>now\<close> (nanoseconds) of each call; balances are exact rationals, where the code has
  \<open>float64\<close>. The mutex makes each \<open>Allow\<close> atomic, so a run is a sequence of calls. The central
  notion is the balance a key would have at a given time; \<open>Allow\<close> refines a limiter that keeps only
  that balance, and sweeping idle buckets is invisible when the idle time covers a window.
\<close>

definition nanos_per_second :: rat where
  "nanos_per_second = 1000000000"

text \<open>\<open>time.Duration.Seconds\<close>, and the conversion of a non-negative float to a duration.\<close>

definition seconds :: "int \<Rightarrow> rat" where
  "seconds d = of_int d / nanos_per_second"

definition toDuration :: "rat \<Rightarrow> int" where
  "toDuration x = (if 0 \<le> x then \<lfloor>x\<rfloor> else \<lceil>x\<rceil>)"

record bucket =
  bk_tokens :: float64
  bk_last :: time

record Limiter =
  lm_rate :: float64
  lm_burst :: float64
  lm_idleTTL :: int
  lm_buckets :: "string \<rightharpoonup> bucket"
  lm_lastSweep :: time

definition NewLimiter :: "int \<Rightarrow> int \<Rightarrow> int \<Rightarrow> time \<Rightarrow> Limiter" where
  "NewLimiter requests window idleTTL now =
     \<lparr>lm_rate = (if requests > 0 \<and> window > 0 then of_int requests / seconds window else 0),
      lm_burst = (if requests > 0 \<and> window > 0 then of_int requests else 0),
      lm_idleTTL = idleTTL, lm_buckets = Map.empty, lm_lastSweep = now\<rparr>"

definition refillLocked :: "Limiter \<Rightarrow> bucket \<Rightarrow> time \<Rightarrow> bucket" where
  "refillLocked l b now =
     (let elapsed = seconds (now - bk_last b) in
      if elapsed > 0
      then b\<lparr>bk_tokens := min (lm_burst l) (bk_tokens b + elapsed * lm_rate l), bk_last := now\<rparr>
      else b)"

definition fullWindow :: "Limiter \<Rightarrow> int" where
  "fullWindow l = (if lm_rate l \<le> 0 then 1000000000 else toDuration (lm_burst l / lm_rate l * nanos_per_second))"

definition sweepLocked :: "Limiter \<Rightarrow> time \<Rightarrow> Limiter" where
  "sweepLocked l now =
     (if lm_idleTTL l \<le> 0 then l
      else if now - lm_lastSweep l < lm_idleTTL l then l
      else l\<lparr>lm_lastSweep := now,
             lm_buckets := (\<lambda>k. case lm_buckets l k of
                None \<Rightarrow> None
              | Some b \<Rightarrow> if now - bk_last b \<ge> lm_idleTTL l then None else Some b)\<rparr>)"

text \<open>The result is the verdict with the wait, and the limiter afterwards.\<close>

definition Allow :: "Limiter \<Rightarrow> string \<Rightarrow> time \<Rightarrow> (bool \<times> int) \<times> Limiter" where
  "Allow l0 key now =
     (let l = sweepLocked l0 now in
      if lm_rate l \<le> 0 then ((False, fullWindow l), l)
      else
        let b = (case lm_buckets l key of
                   None \<Rightarrow> \<lparr>bk_tokens = lm_burst l, bk_last = now\<rparr>
                 | Some b \<Rightarrow> refillLocked l b now)
        in if bk_tokens b \<ge> 1
           then ((True, 0), l\<lparr>lm_buckets := (lm_buckets l)(key \<mapsto> b\<lparr>bk_tokens := bk_tokens b - 1\<rparr>)\<rparr>)
           else
             let wait = toDuration ((1 - bk_tokens b) / lm_rate l * nanos_per_second)
             in ((False, if wait \<le> 0 then 1 else wait), l\<lparr>lm_buckets := (lm_buckets l)(key \<mapsto> b)\<rparr>))"

definition Limiter_len :: "Limiter \<Rightarrow> nat" where
  "Limiter_len l = card (dom (lm_buckets l))"

section \<open>The balance of a key\<close>

text \<open>The tokens a key has at a time: a full bucket before its first call, else its bucket refilled.\<close>

definition balance :: "Limiter \<Rightarrow> string \<Rightarrow> time \<Rightarrow> rat" where
  "balance l k now =
     (case lm_buckets l k of None \<Rightarrow> lm_burst l | Some b \<Rightarrow> bk_tokens (refillLocked l b now))"

text \<open>
  The limiter is well formed at a time: rate and burst are not negative, every bucket holds between 0
  and \<open>burst\<close> tokens and was last touched in the past.
\<close>

definition limiter_ok :: "Limiter \<Rightarrow> time \<Rightarrow> bool" where
  "limiter_ok l now \<longleftrightarrow> 0 \<le> lm_rate l \<and> 0 \<le> lm_burst l \<and>
     (\<forall>k b. lm_buckets l k = Some b \<longrightarrow> 0 \<le> bk_tokens b \<and> bk_tokens b \<le> lm_burst l \<and> bk_last b \<le> now)"

text \<open>The idle time covers a full refill, or sweeping is off.\<close>

definition ttl_covers :: "Limiter \<Rightarrow> bool" where
  "ttl_covers l \<longleftrightarrow> lm_idleTTL l \<le> 0 \<or> lm_burst l \<le> seconds (lm_idleTTL l) * lm_rate l"

lemma seconds_simps [simp]:
  "seconds 0 = 0" "0 < seconds d \<longleftrightarrow> 0 < d" "0 \<le> seconds d \<longleftrightarrow> 0 \<le> d" "seconds d \<le> seconds e \<longleftrightarrow> d \<le> e"
  by (simp_all add: seconds_def nanos_per_second_def divide_le_cancel)

lemma seconds_eq_0 [simp]: "seconds d = 0 \<longleftrightarrow> d = 0"
  by (simp add: seconds_def nanos_per_second_def)

lemma seconds_add:"seconds (d + e) = seconds d + seconds e"
  by (simp add: seconds_def add_divide_distrib)

lemma refillLocked_tokens:
  assumes "bk_tokens b \<le> lm_burst l" and "0 \<le> lm_rate l" and "bk_last b \<le> now"
  shows "bk_tokens (refillLocked l b now) = min (lm_burst l) (bk_tokens b + seconds (now - bk_last b) * lm_rate l)"
  using assms by (cases "bk_last b = now") (simp_all add: refillLocked_def Let_def)

lemma balance_Some:
  assumes "limiter_ok l now" and "lm_buckets l k = Some b"
  shows "balance l k now = min (lm_burst l) (bk_tokens b + seconds (now - bk_last b) * lm_rate l)"
  using assms refillLocked_tokens [of b l now] by (simp add: balance_def limiter_ok_def)

lemma limiter_ok_mono: "limiter_ok l now \<Longrightarrow> now \<le> now' \<Longrightarrow> limiter_ok l now'"
  by (fastforce simp: limiter_ok_def)

lemma balance_bounds:
  assumes "limiter_ok l now"
  shows "0 \<le> balance l k now" and "balance l k now \<le> lm_burst l"
proof -
  show "balance l k now \<le> lm_burst l"
    using assms balance_Some [OF assms] by (cases "lm_buckets l k") (simp_all add: balance_def)
  show "0 \<le> balance l k now"
  proof (cases "lm_buckets l k")
    case (Some b)
    then have "0 \<le> bk_tokens b" "0 \<le> seconds (now - bk_last b) * lm_rate l" "0 \<le> lm_burst l"
      using assms by (simp_all add: limiter_ok_def)
    then show ?thesis using balance_Some [OF assms Some] by simp
  qed (use assms in \<open>simp add: balance_def limiter_ok_def\<close>)
qed

text \<open>Time adds at most \<open>rate\<close> tokens per second, and never takes any away.\<close>

lemma balance_later:
  assumes "limiter_ok l now" and "now \<le> now'"
  shows "balance l k now' \<le> balance l k now + seconds (now' - now) * lm_rate l"
    and "balance l k now \<le> balance l k now'"
proof -
  have r: "0 \<le> lm_rate l" "0 \<le> seconds (now' - now) * lm_rate l" using assms by (simp_all add: limiter_ok_def)
  have *: "balance l k now' = min (lm_burst l) (balance l k now + seconds (now' - now) * lm_rate l)"
  proof (cases "lm_buckets l k")
    case None
    then show ?thesis using r by (simp add: balance_def min_def)
  next
    case (Some b)
    have "seconds (now' - bk_last b) = seconds (now - bk_last b) + seconds (now' - now)"
      using seconds_add [of "now - bk_last b" "now' - now"] by simp
    then show ?thesis
      using balance_Some [OF assms(1) Some] balance_Some [OF limiter_ok_mono [OF assms] Some] r
      by (simp add: min_def distrib_right)
  qed
  show "balance l k now' \<le> balance l k now + seconds (now' - now) * lm_rate l" by (simp add: *)
  show "balance l k now \<le> balance l k now'" using balance_bounds(2) [OF assms(1)] r by (simp add: *)
qed

section \<open>Sweeping\<close>

lemma sweepLocked_params [simp]:
  "lm_rate (sweepLocked l now) = lm_rate l" "lm_burst (sweepLocked l now) = lm_burst l"
  "lm_idleTTL (sweepLocked l now) = lm_idleTTL l"
  by (simp_all add: sweepLocked_def)

lemma sweepLocked_bucket:
  "lm_buckets (sweepLocked l now) k = lm_buckets l k \<or>
     lm_buckets (sweepLocked l now) k = None \<and> 0 < lm_idleTTL l \<and>
       (\<exists>b. lm_buckets l k = Some b \<and> lm_idleTTL l \<le> now - bk_last b)"
  by (simp add: sweepLocked_def split: option.splits)

lemma sweepLocked_ok: "limiter_ok l now \<Longrightarrow> limiter_ok (sweepLocked l now) now"
  unfolding limiter_ok_def sweepLocked_params by (metis option.distinct(1) sweepLocked_bucket)

lemma refillLocked_cong:
  "lm_rate l = lm_rate l' \<Longrightarrow> lm_burst l = lm_burst l' \<Longrightarrow> refillLocked l b now = refillLocked l' b now"
  by (simp add: refillLocked_def)


section \<open>One call\<close>

lemma Allow_params [simp]:
  "lm_rate (snd (Allow l k now)) = lm_rate l" "lm_burst (snd (Allow l k now)) = lm_burst l"
  "lm_idleTTL (snd (Allow l k now)) = lm_idleTTL l"
  by (simp_all add: Allow_def Let_def)

lemma Allow_ttl_covers [simp]: "ttl_covers (snd (Allow l k now)) = ttl_covers l"
  by (simp add: ttl_covers_def)

definition current :: "Limiter \<Rightarrow> string \<Rightarrow> time \<Rightarrow> bucket" where
  "current l key now =
     (case lm_buckets l key of None \<Rightarrow> \<lparr>bk_tokens = lm_burst l, bk_last = now\<rparr> | Some b \<Rightarrow> refillLocked l b now)"

lemma current_facts:
  assumes "limiter_ok l now"
  shows "bk_tokens (current l k now) = balance l k now" and "bk_last (current l k now) = now"
proof -
  show "bk_tokens (current l k now) = balance l k now"
    by (simp add: current_def balance_def split: option.splits)
  show "bk_last (current l k now) = now"
  proof (cases "lm_buckets l k")
    case (Some b)
    then have "bk_last b \<le> now" using assms by (simp add: limiter_ok_def)
    then show ?thesis using Some by (cases "bk_last b = now") (simp_all add: current_def refillLocked_def Let_def)
  qed (simp add: current_def)
qed

lemma Allow_alt:
  assumes "0 < lm_rate l" and "s = sweepLocked l now" and "b = current s k now"
  shows "Allow l k now =
    (if bk_tokens b \<ge> 1
     then ((True, 0), s\<lparr>lm_buckets := (lm_buckets s)(k \<mapsto> b\<lparr>bk_tokens := bk_tokens b - 1\<rparr>)\<rparr>)
     else ((False, max 1 (toDuration ((1 - bk_tokens b) / lm_rate l * nanos_per_second))),
           s\<lparr>lm_buckets := (lm_buckets s)(k \<mapsto> b)\<rparr>))"
  using assms by (auto simp: Allow_def Let_def current_def max_def)



section \<open>Runs\<close>

text \<open>A run of calls, each with its key and the clock at the call.\<close>

fun run_limiter :: "Limiter \<Rightarrow> (string \<times> time) list \<Rightarrow> bool list \<times> Limiter" where
  "run_limiter l [] = ([], l)"
| "run_limiter l ((k, now) # cs) =
     (let ((ok, _), l') = Allow l k now; (oks, l'') = run_limiter l' cs in (ok # oks, l''))"

definition admitted :: "string \<Rightarrow> (string \<times> time) list \<Rightarrow> bool list \<Rightarrow> nat" where
  "admitted k cs oks = length (filter (\<lambda>((k', _), ok). k' = k \<and> ok) (zip cs oks))"

lemma run_limiter_Cons:
  "run_limiter l ((k, now) # cs) =
     (fst (fst (Allow l k now)) # fst (run_limiter (snd (Allow l k now)) cs),
      snd (run_limiter (snd (Allow l k now)) cs))"
  by (simp add: split_beta)

lemma admitted_Cons:
  "admitted k ((k', t) # cs) (ok # oks) = (if k' = k \<and> ok then 1 else 0) + admitted k cs oks"
  by (simp add: admitted_def)

lemma admitted_Nil [simp]: "admitted k [] oks = 0"
  by (simp add: admitted_def)

lemma length_run_limiter: "length (fst (run_limiter l cs)) = length cs"
proof (induction cs arbitrary: l)
  case (Cons c cs)
  then show ?case by (cases c) (simp add: split_beta)
qed simp

lemma NewLimiter_ok: "limiter_ok (NewLimiter requests window idleTTL now) now"
  by (simp add: limiter_ok_def NewLimiter_def)

lemma NewLimiter_params:
  assumes "0 < requests" and "0 < window"
  shows "0 < lm_rate (NewLimiter requests window idleTTL now)"
    and "lm_burst (NewLimiter requests window idleTTL now) = of_int requests"
    and "lm_rate (NewLimiter requests window idleTTL now) = of_int requests / seconds window"
  using assms by (simp_all add: NewLimiter_def)


lemma run_limiter_append:
  "run_limiter l (cs @ ds) =
     (fst (run_limiter l cs) @ fst (run_limiter (snd (run_limiter l cs)) ds),
      snd (run_limiter (snd (run_limiter l cs)) ds))"
proof (induction cs arbitrary: l)
  case (Cons c cs)
  then show ?case by (cases c) (simp add: split_beta)
qed simp

section \<open>Runs whose clock readings are out of order\<close>

text \<open>
  A call reads the clock before it takes the lock, so the readings of a run need not ascend. Each is late by at most
  \<open>skew\<close> behind the readings before it.
\<close>

fun skewed :: "int \<Rightarrow> time \<Rightarrow> (string \<times> time) list \<Rightarrow> bool" where
  "skewed skew m [] = True"
| "skewed skew m ((k, now) # cs) = (m - skew \<le> now \<and> skewed skew (max m now) cs)"

text \<open>The latest reading of a run.\<close>

definition latest :: "time \<Rightarrow> (string \<times> time) list \<Rightarrow> time" where
  "latest m cs = fold (\<lambda>c. max (snd c)) cs m"

lemma latest_simps [simp]: "latest m [] = m" "latest m ((k, now) # cs) = latest (max m now) cs"
  by (simp_all add: latest_def max.commute)

lemma latest_append: "latest m (cs @ ds) = latest (latest m cs) ds"
  by (simp add: latest_def)

lemma latest_ge: "m \<le> latest m cs"
proof (induction cs arbitrary: m)
  case (Cons c cs)
  obtain k now where "c = (k, now)" by (cases c)
  then show ?case using Cons [of "max m now"] by simp
qed simp

lemma skewed_append: "skewed skew m (cs @ ds) \<longleftrightarrow> skewed skew m cs \<and> skewed skew (latest m cs) ds"
  by (induction skew m cs rule: skewed.induct) auto

text \<open>
  What a key can still spend at the latest reading \<open>m\<close>, at the pace \<open>r\<close>: a key without a bucket has \<open>cap\<close>, and so has one
  that has not been used for long enough.
\<close>

definition credit :: "rat \<Rightarrow> rat \<Rightarrow> Limiter \<Rightarrow> string \<Rightarrow> time \<Rightarrow> rat" where
  "credit cap r l k m =
     (case lm_buckets l k of None \<Rightarrow> cap | Some b \<Rightarrow> min cap (bk_tokens b + seconds (m - bk_last b) * r))"

text \<open>The pace covers the limiter's rate, and what a sweep gives back: a bucket idle for \<open>idleTTL\<close> has its whole credit.\<close>

definition pace_ok :: "rat \<Rightarrow> int \<Rightarrow> Limiter \<Rightarrow> bool" where
  "pace_ok r skew l \<longleftrightarrow> 0 < lm_rate l \<and> lm_rate l \<le> r \<and> 0 \<le> skew \<and>
     (0 < lm_idleTTL l \<longrightarrow> lm_burst l + seconds skew * r \<le> seconds (lm_idleTTL l) * r)"

lemma pace_ok_Allow [simp]: "pace_ok r skew (snd (Allow l k now)) = pace_ok r skew l"
  by (simp add: pace_ok_def)

lemma credit_bounds:
  assumes "limiter_ok l m" and "pace_ok r skew l"
  shows "0 \<le> credit (lm_burst l + seconds skew * r) r l k m" and "credit (lm_burst l + seconds skew * r) r l k m \<le> lm_burst l + seconds skew * r"
proof -
  have r: "0 \<le> r" "0 \<le> seconds skew * r" using assms(2) by (simp_all add: pace_ok_def)
  show "credit (lm_burst l + seconds skew * r) r l k m \<le> lm_burst l + seconds skew * r"
    by (simp add: credit_def split: option.split)
  show "0 \<le> credit (lm_burst l + seconds skew * r) r l k m"
    using assms(1) r by (auto simp: credit_def limiter_ok_def split: option.split)
qed

lemma credit_later:
  assumes "m \<le> m'" and "0 \<le> r"
  shows "credit cap r l k m' \<le> credit cap r l k m + seconds (m' - m) * r"
proof (cases "lm_buckets l k")
  case None
  then show ?thesis using assms by (simp add: credit_def)
next
  case (Some b)
  have "seconds (m' - bk_last b) = seconds (m - bk_last b) + seconds (m' - m)" using seconds_add [of "m - bk_last b" "m' - m"] by simp
  moreover have "0 \<le> seconds (m' - m) * r" using assms by simp
  ultimately show ?thesis using Some by (simp add: credit_def min_def distrib_right)
qed

text \<open>Sweeping changes no credit.\<close>

lemma sweepLocked_credit:
  assumes "limiter_ok l m" and "pace_ok r skew l" and "now \<le> m"
  shows "credit (lm_burst l + seconds skew * r) r (sweepLocked l now) k m = credit (lm_burst l + seconds skew * r) r l k m"
proof (cases "lm_buckets (sweepLocked l now) k = lm_buckets l k")
  case True
  then show ?thesis by (simp add: credit_def)
next
  case False
  then obtain b where b: "lm_buckets (sweepLocked l now) k = None" "lm_buckets l k = Some b" "0 < lm_idleTTL l" "lm_idleTTL l \<le> now - bk_last b"
    using sweepLocked_bucket [of l now k] by auto
  have "lm_burst l + seconds skew * r \<le> seconds (lm_idleTTL l) * r" using assms(2) b(3) by (simp add: pace_ok_def)
  also have "\<dots> \<le> seconds (m - bk_last b) * r"
    using assms(2,3) b(4) by (intro mult_right_mono) (simp_all add: pace_ok_def)
  finally have "lm_burst l + seconds skew * r \<le> bk_tokens b + seconds (m - bk_last b) * r"
    using assms(1) b(2) by (simp add: limiter_ok_def add_increasing)
  then show ?thesis using b(1,2) by (simp add: credit_def)
qed

text \<open>The bucket a call works on has no more than the key's credit.\<close>

lemma current_credit:
  assumes "limiter_ok l m" and "pace_ok r skew l" and "now \<le> m" and "m - skew \<le> now" and "b = current l k now"
  shows "0 \<le> bk_tokens b" "bk_tokens b \<le> lm_burst l" "bk_last b \<le> m"
    "bk_tokens b + seconds (m - bk_last b) * r \<le> lm_burst l + seconds skew * r"
    "lm_buckets l k \<noteq> None \<Longrightarrow> bk_tokens b + seconds (m - bk_last b) * r \<le> bk_tokens (the (lm_buckets l k)) + seconds (m - bk_last (the (lm_buckets l k))) * r"
proof -
  have r: "0 \<le> r" "lm_rate l \<le> r" "0 \<le> lm_rate l" "0 \<le> lm_burst l" using assms(1,2) by (simp_all add: pace_ok_def limiter_ok_def)
  have late: "seconds (m - now) * r \<le> seconds skew * r" using assms(4) r(1) by (intro mult_right_mono) simp_all
  have all: "0 \<le> bk_tokens b \<and> bk_tokens b \<le> lm_burst l \<and> bk_last b \<le> m \<and>
    bk_tokens b + seconds (m - bk_last b) * r \<le> lm_burst l + seconds skew * r \<and>
    (lm_buckets l k \<noteq> None \<longrightarrow> bk_tokens b + seconds (m - bk_last b) * r \<le> bk_tokens (the (lm_buckets l k)) + seconds (m - bk_last (the (lm_buckets l k))) * r)"
  proof (cases "lm_buckets l k")
    case None
    then have "b = \<lparr>bk_tokens = lm_burst l, bk_last = now\<rparr>" using assms(5) by (simp add: current_def)
    then show ?thesis using r(4) assms(3) late None by simp
  next
    case (Some a)
    then have a: "0 \<le> bk_tokens a" "bk_tokens a \<le> lm_burst l" "bk_last a \<le> m" using assms(1) by (simp_all add: limiter_ok_def)
    show ?thesis
    proof (cases "bk_last a < now")
      case True
      define g where "g = seconds (now - bk_last a) * lm_rate l"
      have b: "b = a\<lparr>bk_tokens := min (lm_burst l) (bk_tokens a + g), bk_last := now\<rparr>"
        using Some True assms(5) by (simp add: current_def refillLocked_def Let_def g_def)
      have "0 \<le> g" using True r(3) by (simp add: g_def)
      moreover have "g \<le> seconds (now - bk_last a) * r" unfolding g_def using True r(2) by (intro mult_left_mono) simp_all
      moreover have "seconds (m - bk_last a) * r = seconds (now - bk_last a) * r + seconds (m - now) * r"
        using seconds_add [of "now - bk_last a" "m - now"] by (simp add: distrib_right)
      ultimately show ?thesis using a r(4) assms(3) late Some unfolding b by (auto simp: min_def)
    next
      case False
      then have "b = a" using Some assms(5) by (simp add: current_def refillLocked_def Let_def)
      moreover have "seconds (m - bk_last a) * r \<le> seconds skew * r" using assms(4) False r(1) by (intro mult_right_mono) simp_all
      ultimately show ?thesis using a Some by simp
    qed
  qed
  show "0 \<le> bk_tokens b" "bk_tokens b \<le> lm_burst l" "bk_last b \<le> m"
    "bk_tokens b + seconds (m - bk_last b) * r \<le> lm_burst l + seconds skew * r"
    "lm_buckets l k \<noteq> None \<Longrightarrow> bk_tokens b + seconds (m - bk_last b) * r \<le> bk_tokens (the (lm_buckets l k)) + seconds (m - bk_last (the (lm_buckets l k))) * r"
    using all by blast+
qed

lemma Allow_credit:
  assumes "limiter_ok l m" and "pace_ok r skew l" and "m - skew \<le> now" and "m' = max m now"
    and "cap = lm_burst l + seconds skew * r"
  shows "limiter_ok (snd (Allow l k1 now)) m'"
    and "credit cap r (snd (Allow l k1 now)) k m' + (if k1 = k \<and> fst (fst (Allow l k1 now)) then 1 else 0)
      \<le> credit cap r l k m + seconds (m' - m) * r"
proof -
  define s where "s = sweepLocked l now"
  define b where "b = current s k1 now"
  have m': "m \<le> m'" "now \<le> m'" "m' - skew \<le> now" using assms(2,3,4) by (auto simp: pace_ok_def)
  have rate: "0 < lm_rate l" "0 \<le> r" using assms(2) by (simp_all add: pace_ok_def)
  note alt = Allow_alt [OF rate(1) s_def b_def]
  have ok: "limiter_ok l m'" using assms(1) m'(1) by (rule limiter_ok_mono)
  have ok_s: "limiter_ok s m'"
    using ok sweepLocked_bucket [of l now] unfolding s_def limiter_ok_def sweepLocked_params by (metis option.distinct(1))
  have pace: "pace_ok r skew s" "lm_burst s = lm_burst l" using assms(2) by (simp_all add: pace_ok_def s_def)
  note b = current_credit [OF ok_s pace(1) m'(2,3) b_def]
  define admit where "admit = (1 \<le> bk_tokens b)"
  define c where "c = (if admit then b\<lparr>bk_tokens := bk_tokens b - 1\<rparr> else b)"
  have l': "snd (Allow l k1 now) = s\<lparr>lm_buckets := (lm_buckets s)(k1 \<mapsto> c)\<rparr>" by (simp add: alt c_def admit_def)
  have verdict: "fst (fst (Allow l k1 now)) = admit" by (simp add: alt admit_def)
  have c: "0 \<le> bk_tokens c" "bk_tokens c \<le> lm_burst l" "bk_last c = bk_last b" "bk_tokens c = bk_tokens b - (if admit then 1 else 0)"
    using b(1,2) pace(2) by (simp_all add: c_def admit_def)
  show "limiter_ok (snd (Allow l k1 now)) m'"
    using ok_s c(1-3) b(3) pace(2) unfolding l' by (auto simp: limiter_ok_def)
  have swept: "credit cap r s k m' = credit cap r l k m'"
    using sweepLocked_credit [OF ok assms(2) m'(2)] by (simp add: s_def assms(5))
  have later: "credit cap r l k m' \<le> credit cap r l k m + seconds (m' - m) * r" by (rule credit_later [OF m'(1) rate(2)])
  have "credit cap r (snd (Allow l k1 now)) k m' + (if k1 = k \<and> admit then 1 else 0) \<le> credit cap r s k m'"
  proof (cases "k1 = k")
    case False
    then show ?thesis by (simp add: l' credit_def)
  next
    case True
    have "credit cap r (snd (Allow l k1 now)) k m' + (if admit then 1 else 0) \<le> bk_tokens b + seconds (m' - bk_last b) * r"
      unfolding l' credit_def using True c(3,4) by (simp add: min_def)
    moreover have "bk_tokens b + seconds (m' - bk_last b) * r \<le> credit cap r s k m'"
      using b(4,5) True pace(2) assms(5) by (auto simp: credit_def split: option.split)
    ultimately show ?thesis using True by simp
  qed
  then show "credit cap r (snd (Allow l k1 now)) k m' + (if k1 = k \<and> fst (fst (Allow l k1 now)) then 1 else 0)
      \<le> credit cap r l k m + seconds (m' - m) * r"
    using swept later unfolding verdict by linarith
qed

lemma run_limiter_credit:
  assumes "limiter_ok l m" and "pace_ok r skew l" and "skewed skew m cs" and "cap = lm_burst l + seconds skew * r"
  shows "limiter_ok (snd (run_limiter l cs)) (latest m cs) \<and> pace_ok r skew (snd (run_limiter l cs)) \<and>
    lm_burst (snd (run_limiter l cs)) = lm_burst l \<and>
    credit cap r (snd (run_limiter l cs)) k (latest m cs) + of_nat (admitted k cs (fst (run_limiter l cs)))
      \<le> credit cap r l k m + seconds (latest m cs - m) * r"
  using assms
proof (induction cs arbitrary: l m)
  case (Cons c cs)
  obtain k1 now where c: "c = (k1, now)" by (cases c)
  define l' m' where "l' = snd (Allow l k1 now)" and "m' = max m now"
  have sk: "m - skew \<le> now" "skewed skew m' cs" using Cons.prems(3) by (simp_all add: c m'_def)
  note A = Allow_credit [OF Cons.prems(1,2) sk(1) m'_def Cons.prems(4), of k1, folded l'_def]
  have IH: "limiter_ok (snd (run_limiter l' cs)) (latest m' cs) \<and> pace_ok r skew (snd (run_limiter l' cs)) \<and>
    lm_burst (snd (run_limiter l' cs)) = lm_burst l' \<and>
    credit cap r (snd (run_limiter l' cs)) k (latest m' cs) + of_nat (admitted k cs (fst (run_limiter l' cs)))
      \<le> credit cap r l' k m' + seconds (latest m' cs - m') * r"
    by (rule Cons.IH [OF A(1) _ sk(2)]) (use Cons.prems(2,4) in \<open>simp_all add: l'_def\<close>)
  have split: "seconds (latest m' cs - m) * r = seconds (m' - m) * r + seconds (latest m' cs - m') * r"
    using seconds_add [of "m' - m" "latest m' cs - m'"] by (simp add: distrib_right)
  have "credit cap r (snd (run_limiter l' cs)) k (latest m' cs) +
      (of_nat (admitted k cs (fst (run_limiter l' cs))) + (if k1 = k \<and> fst (fst (Allow l k1 now)) then 1 else 0))
    \<le> credit cap r l k m + seconds (latest m' cs - m) * r"
    using IH A(2) [of k] split by linarith
  moreover have "of_nat ((if k1 = k \<and> fst (fst (Allow l k1 now)) then 1 else 0) + admitted k cs (fst (run_limiter l' cs))) =
      of_nat (admitted k cs (fst (run_limiter l' cs))) + (if k1 = k \<and> fst (fst (Allow l k1 now)) then 1 else (0 :: rat))"
    by auto
  ultimately show ?case
    using IH unfolding c run_limiter_Cons fst_conv snd_conv l'_def [symmetric] admitted_Cons latest_simps m'_def [symmetric]
    by (simp add: l'_def)
qed simp

text \<open>The pace of a new limiter: its window, or the idle time less the skew when that is shorter.\<close>

definition effective_window :: "int \<Rightarrow> int \<Rightarrow> int \<Rightarrow> int" where
  "effective_window window idleTTL skew = (if idleTTL \<le> 0 then window else min window (idleTTL - skew))"

lemma NewLimiter_pace:
  assumes "0 < requests" and "0 < window" and "0 \<le> skew" and "0 < idleTTL \<Longrightarrow> skew < idleTTL"
    and "w = effective_window window idleTTL skew"
  shows "0 < w" and "pace_ok (of_int requests / seconds w) skew (NewLimiter requests window idleTTL t0)"
proof -
  let ?l = "NewLimiter requests window idleTTL t0" and ?r = "of_int requests / seconds w :: rat"
  show w: "0 < w" using assms by (auto simp: effective_window_def)
  then have sw: "0 < seconds w" "0 < seconds window" using assms(2) by simp_all
  have le: "seconds w \<le> seconds window" using assms(3,5) by (auto simp: effective_window_def)
  then have "lm_rate ?l \<le> ?r" using assms(1) sw NewLimiter_params(3) [OF assms(1,2)] by (simp add: frac_le)
  moreover have "lm_burst ?l + seconds skew * ?r \<le> seconds idleTTL * ?r" if "0 < idleTTL"
  proof -
    have "w + skew \<le> idleTTL" using that assms(5) by (simp add: effective_window_def)
    then have "seconds w + seconds skew \<le> seconds idleTTL" by (simp flip: seconds_add)
    then have le: "(seconds w + seconds skew) * ?r \<le> seconds idleTTL * ?r" using assms(1) sw by (intro mult_right_mono) simp_all
    have burst: "seconds w * ?r = lm_burst ?l" using sw NewLimiter_params(2) [OF assms(1,2)] by simp
    show ?thesis using le unfolding distrib_right burst .
  qed
  ultimately show "pace_ok ?r skew ?l"
    using assms(3) NewLimiter_params(1) [OF assms(1,2)] by (simp add: pace_ok_def NewLimiter_def)
qed

section \<open>Properties\<close>

text \<open>
  C17. The budget of a key, in every run from a new limiter of \<open>requests\<close> per \<open>window\<close> (both positive): readings of the
  clock may be out of order by up to \<open>skew\<close>, which is less than the idle time when buckets are swept. Let the effective window
  be \<open>window\<close>, or \<open>idleTTL - skew\<close> when buckets are swept and that is shorter. In any stretch of calls, whatever calls came
  before and whatever other keys do, at most \<open>requests + requests * (elapsed + skew) / effective window\<close> calls of one key are admitted,
  where \<open>elapsed\<close> is how far the stretch advances the latest reading. With readings in order and an idle time of at least a
  window this is \<open>requests + requests * elapsed / window\<close>; with an idle time shorter than the window, the shorter time
  is what counts. Balances are exact rationals here; the code keeps them in \<open>float64\<close>, whose rounding is not modelled.
\<close>

theorem Allow_budget:
  assumes "0 < requests" and "0 < window" and "0 \<le> skew" and "0 < idleTTL \<Longrightarrow> skew < idleTTL"
    and "skewed skew t0 (before @ calls)" and "elapsed = latest t0 (before @ calls) - latest t0 before"
  shows "of_nat (admitted k calls (drop (length before) (fst (run_limiter (NewLimiter requests window idleTTL t0) (before @ calls)))))
           \<le> (of_int requests + of_int requests * of_int (elapsed + skew) / of_int (effective_window window idleTTL skew) :: rat)"
proof -
  let ?l = "NewLimiter requests window idleTTL t0" and ?w = "effective_window window idleTTL skew"
  define r where "r = (of_int requests / seconds ?w :: rat)"
  define cap where "cap = lm_burst ?l + seconds skew * r"
  define m where "m = latest t0 before"
  define n where "n = latest t0 (before @ calls)"
  let ?b = "snd (run_limiter ?l before)"
  have pace: "pace_ok r skew ?l" unfolding r_def by (rule NewLimiter_pace(2) [OF assms(1-4) refl])
  have sk: "skewed skew t0 before" "skewed skew m calls" using assms(5) by (simp_all add: skewed_append m_def)
  note B = run_limiter_credit [OF NewLimiter_ok pace sk(1) cap_def, of k, folded m_def]
  have cap: "cap = lm_burst ?b + seconds skew * r" using B by (simp add: cap_def)
  have n: "n = latest m calls" by (simp add: n_def m_def latest_append)
  have "limiter_ok ?b m" "pace_ok r skew ?b" using B by blast+
  note C = run_limiter_credit [OF this sk(2) cap, of k, folded n]
  let ?e = "snd (run_limiter ?b calls)"
  have "lm_burst ?e = lm_burst ?l" "limiter_ok ?e n" "pace_ok r skew ?e" using B C by simp_all
  then have "0 \<le> credit cap r ?e k n" using credit_bounds(1) [of ?e n r skew k] by (simp add: cap_def)
  moreover have "credit cap r ?b k m \<le> cap" by (simp add: credit_def split: option.split)
  ultimately have "of_nat (admitted k calls (fst (run_limiter ?b calls))) \<le> cap + seconds (n - m) * r"
    using C by linarith
  also have "\<dots> = of_int requests + (seconds skew + seconds (n - m)) * r"
    using NewLimiter_params(2) [OF assms(1,2)] by (simp add: cap_def distrib_right)
  also have "seconds skew + seconds (n - m) = seconds (elapsed + skew)"
    by (simp add: assms(6) m_def n_def add.commute flip: seconds_add)
  also have "of_int requests + seconds (elapsed + skew) * r = of_int requests + of_int requests * of_int (elapsed + skew) / of_int ?w"
    by (simp add: r_def seconds_def nanos_per_second_def)
  finally show ?thesis by (simp add: run_limiter_append length_run_limiter)
qed

theorem Allow_budget_witness:
  "of_nat (admitted ''a'' [(''a'', 5), (''a'', 2), (''b'', 9)]
      (drop (length [(''a'', 1)]) (fst (run_limiter (NewLimiter 2 1000 500 0) ([(''a'', 1)] @ [(''a'', 5), (''a'', 2), (''b'', 9)])))))
     \<le> (of_int 2 + of_int 2 * of_int (8 + 3) / of_int 497 :: rat)"
proof -
  have "effective_window 1000 500 3 = 497" by (simp add: effective_window_def)
  then show ?thesis
    using Allow_budget [of 2 1000 3 500 0 "[(''a'', 1)]" "[(''a'', 5), (''a'', 2), (''b'', 9)]" 8 "''a''"] by simp
qed



text \<open>
  The wait is honest: a rejected call of a working limiter reports a positive wait, and the same
  key is admitted on its next call once the clock has passed that wait.
\<close>

lemma Allow_retry_after:
  assumes "limiter_ok l now" and "0 < lm_rate l" and "1 \<le> lm_burst l"
    and "Allow l k now = ((False, w), l')" and "now + w < now'"
  shows "0 < w \<and> fst (fst (Allow l' k now'))"
proof -
  define s where "s = sweepLocked l now"
  define b where "b = current s k now"
  define x where "x = (1 - bk_tokens b) / lm_rate l * nanos_per_second"
  note alt = Allow_alt [OF assms(2) s_def b_def]
  have rej: "bk_tokens b < 1" "w = max 1 (toDuration x)" "l' = s\<lparr>lm_buckets := (lm_buckets s)(k \<mapsto> b)\<rparr>"
    using assms(4) unfolding alt x_def by (simp_all split: if_splits)
  have last: "bk_last b = now" using current_facts(2) [OF sweepLocked_ok [OF assms(1)]] by (simp add: b_def s_def)
  have "0 \<le> x" using rej(1) assms(2) by (simp add: x_def nanos_per_second_def)
  then have "x < of_int w + 1"
    using floor_correct [of x] unfolding rej(2) toDuration_def by (simp add: max_def)
  also have "\<dots> \<le> of_int (now' - now)"
  proof -
    have "w + 1 \<le> now' - now" using assms(5) by simp
    then have "of_int (w + 1) \<le> (of_int (now' - now) :: rat)" by (rule of_int_le_iff [THEN iffD2])
    then show ?thesis by simp
  qed
  finally have "x < of_int (now' - now)" .
  then have "1 - bk_tokens b < seconds (now' - now) * lm_rate l"
    using assms(2) by (simp add: x_def seconds_def nanos_per_second_def field_simps)
  then have full: "1 \<le> bk_tokens (refillLocked l b now')"
    using assms(2,3,5) rej(1,2) last by (simp add: refillLocked_def Let_def)
  define s' where "s' = sweepLocked l' now'"
  have params: "lm_rate s' = lm_rate l" "lm_burst s' = lm_burst l" "0 < lm_rate l'"
    using assms(2) by (simp_all add: s'_def rej(3) s_def)
  have "1 \<le> bk_tokens (current s' k now')"
    using sweepLocked_bucket [of l' now' k, folded s'_def] full assms(3) params refillLocked_cong [OF params(1,2)]
    by (auto simp: current_def rej(3))
  then show ?thesis using Allow_alt [OF params(3) s'_def refl, of k] rej(2) by simp
qed

lemma exhausted_limiter:
  "Allow (snd (Allow (NewLimiter 1 5 5 0) ''a'' 0)) ''a'' 0 =
     ((False, 5), snd (Allow (NewLimiter 1 5 5 0) ''a'' 0))"
  "limiter_ok (snd (Allow (NewLimiter 1 5 5 0) ''a'' 0)) 0"
  by (simp_all add: Allow_def NewLimiter_def sweepLocked_def refillLocked_def seconds_def nanos_per_second_def
      toDuration_def limiter_ok_def)

lemma Allow_retry_after_example:
  "fst (fst (Allow (snd (Allow (NewLimiter 1 5 5 0) ''a'' 0)) ''a'' 6))"
  using Allow_retry_after [OF exhausted_limiter(2) _ _ exhausted_limiter(1), of 6] NewLimiter_params [of 1 5 5 0]
  by simp

text \<open>
  A limiter configured with no requests or no window fails closed: every call of every run is
  rejected.
\<close>

lemma NewLimiter_fails_closed:
  assumes "requests \<le> 0 \<or> window \<le> 0"
  shows "fst (run_limiter (NewLimiter requests window idleTTL t0) calls) = replicate (length calls) False"
proof -
  have "fst (run_limiter l calls) = replicate (length calls) False" if "lm_rate l = 0" for l
    using that
  proof (induction calls arbitrary: l)
    case (Cons c cs)
    obtain k now where "c = (k, now)" by (cases c)
    moreover have "\<not> fst (fst (Allow l k now))" using Cons.prems by (simp add: Allow_def Let_def)
    ultimately show ?case using Cons by (simp add: split_beta)
  qed simp
  moreover have "lm_rate (NewLimiter requests window idleTTL t0) = 0" using assms by (auto simp: NewLimiter_def)
  ultimately show ?thesis by blast
qed

lemma NewLimiter_fails_closed_example:
  "fst (run_limiter (NewLimiter 0 5 5 0) [(''a'', 1), (''b'', 2)]) = [False, False]"
  using NewLimiter_fails_closed [of 0 5 5 0 "[(''a'', 1), (''b'', 2)]"] by simp

text \<open>
  The idle time matters, and the bound is met: two requests per ten seconds with an idle time of one second admit four
  calls within one second, since a swept bucket comes back full before it has refilled.
\<close>

lemma short_idle_ttl_overspends:
  "fst (run_limiter (NewLimiter 2 10000000000 1000000000 0)
     [(''a'', 0), (''a'', 0), (''a'', 1000000000), (''a'', 1000000000)]) = [True, True, True, True]"
  by (simp add: Allow_def NewLimiter_def sweepLocked_def refillLocked_def seconds_def nanos_per_second_def)

end
