(* ===== verification/RateLimitTiers.thy ===== *)
theory RateLimitTiers
  imports RateLimit ApiGuard
begin

text \<open>
  The rate-limiting middleware of \<open>src/internal/api/ratelimit.go\<close>: the tiers, the classification of a
  request, the bucket key and the 429 answer. The middleware's state is its four limiters; the clock is
  an argument of each request.
\<close>

record RateLimitTier =
  rt_Requests :: int
  rt_Window :: int

record RateLimitOptions =
  ro_Auth :: RateLimitTier
  ro_Read :: RateLimitTier
  ro_Write :: RateLimitTier
  ro_File :: RateLimitTier
  ro_IdleTTL :: int

definition defaultRateLimitIdleTTL :: int where
  "defaultRateLimitIdleTTL = 600000000000"

text \<open>What the middleware reads of a request: method, path, identity, header and socket address.\<close>

record request =
  rq_Method :: string
  rq_Path :: string
  rq_User :: auth_User
  rq_CFConnectingIP :: string
  rq_RemoteAddr :: string

datatype rlTier = AuthTier | ReadTier | WriteTier | FileTier

definition ipOnly :: "rlTier \<Rightarrow> bool" where
  "ipOnly t \<longleftrightarrow> t = AuthTier"

definition isReadMethod :: "string \<Rightarrow> bool" where
  "isReadMethod m \<longleftrightarrow> m = ''GET'' \<or> m = ''HEAD''"

definition isAuthPath :: "string \<Rightarrow> bool" where
  "isAuthPath p \<longleftrightarrow> p \<in> {''/auth/login'', ''/auth/callback'', ''/auth/logout'', ''/api/v1/csrf''}"

definition isFilePath :: "string \<Rightarrow> bool" where
  "isFilePath p \<longleftrightarrow> hasPrefix p ''/api/v1/photos/'' \<or> hasPrefix p ''/api/v1/files/'' \<or>
     hasPrefix p ''/api/v1/journal-files/''"

definition classify :: "request \<Rightarrow> rlTier option" where
  "classify r =
     (if isAuthPath (rq_Path r) then Some AuthTier
      else if hasPrefix (rq_Path r) ''/api/v1/'' then
        if isReadMethod (rq_Method r) then
          if isFilePath (rq_Path r) then Some FileTier else Some ReadTier
        else Some WriteTier
      else None)"

section \<open>The key\<close>

text \<open>\<open>net.SplitHostPort\<close>: \<open>None\<close> stands for its error.\<close>

fun last_colon :: "string \<Rightarrow> nat option" where
  "last_colon [] = None"
| "last_colon (c # cs) =
     (case last_colon cs of Some i \<Rightarrow> Some (Suc i) | None \<Rightarrow> if c = CHR '':'' then Some 0 else None)"

fun index_byte :: "char \<Rightarrow> string \<Rightarrow> nat option" where
  "index_byte x [] = None"
| "index_byte x (c # cs) = (if c = x then Some 0 else map_option Suc (index_byte x cs))"

definition splitHostPort :: "string \<Rightarrow> (string \<times> string) option" where
  "splitHostPort hp =
     (case last_colon hp of
        None \<Rightarrow> None
      | Some i \<Rightarrow>
          if hp ! 0 = CHR ''['' then
            (case index_byte (CHR '']'') hp of
               None \<Rightarrow> None
             | Some e \<Rightarrow>
                 if e + 1 \<noteq> i then None
                 else if index_byte (CHR ''['') (drop 1 hp) \<noteq> None \<or> index_byte (CHR '']'') (drop (e + 1) hp) \<noteq> None
                 then None
                 else Some (go_slice hp 1 e, drop (i + 1) hp))
          else if index_byte (CHR '':'') (take i hp) \<noteq> None then None
          else if index_byte (CHR ''['') hp \<noteq> None \<or> index_byte (CHR '']'') hp \<noteq> None then None
          else Some (take i hp, drop (i + 1) hp))"

definition clientIP :: "request \<Rightarrow> string" where
  "clientIP r =
     (let cf = trimSpace (rq_CFConnectingIP r) in
      if cf \<noteq> [] then cf
      else case splitHostPort (rq_RemoteAddr r) of None \<Rightarrow> rq_RemoteAddr r | Some (host, _) \<Rightarrow> host)"

definition rateLimitKey :: "(uuid \<Rightarrow> string) \<Rightarrow> request \<Rightarrow> bool \<Rightarrow> string" where
  "rateLimitKey str r ip_only =
     (if \<not> ip_only \<and> u_ID (rq_User r) \<noteq> uuid_Nil then ''user:'' @ str (u_ID (rq_User r))
      else ''ip:'' @ clientIP r)"

section \<open>The middleware\<close>

record limiters =
  ls_auth :: Limiter
  ls_read :: Limiter
  ls_write :: Limiter
  ls_file :: Limiter

definition NewRateLimitMiddleware :: "RateLimitOptions \<Rightarrow> time \<Rightarrow> limiters" where
  "NewRateLimitMiddleware opts now =
     (let idle = (if ro_IdleTTL opts \<le> 0 then defaultRateLimitIdleTTL else ro_IdleTTL opts);
          mk = (\<lambda>t. NewLimiter (rt_Requests t) (rt_Window t) idle now)
      in \<lparr>ls_auth = mk (ro_Auth opts), ls_read = mk (ro_Read opts), ls_write = mk (ro_Write opts),
          ls_file = mk (ro_File opts)\<rparr>)"

fun tier_limiter :: "rlTier \<Rightarrow> limiters \<Rightarrow> Limiter" where
  "tier_limiter AuthTier s = ls_auth s"
| "tier_limiter ReadTier s = ls_read s"
| "tier_limiter WriteTier s = ls_write s"
| "tier_limiter FileTier s = ls_file s"

fun set_tier_limiter :: "rlTier \<Rightarrow> Limiter \<Rightarrow> limiters \<Rightarrow> limiters" where
  "set_tier_limiter AuthTier l s = s\<lparr>ls_auth := l\<rparr>"
| "set_tier_limiter ReadTier l s = s\<lparr>ls_read := l\<rparr>"
| "set_tier_limiter WriteTier l s = s\<lparr>ls_write := l\<rparr>"
| "set_tier_limiter FileTier l s = s\<lparr>ls_file := l\<rparr>"

text \<open>The request goes on to the next handler, or is answered with \<open>Retry-After\<close> and the envelope.\<close>

datatype rl_answer = Passed | Limited int apiError

definition ceil_seconds :: "int \<Rightarrow> int" where
  "ceil_seconds d = \<lceil>seconds d\<rceil>"

definition rateLimitHandler ::
  "(uuid \<Rightarrow> string) \<Rightarrow> limiters \<Rightarrow> request \<Rightarrow> time \<Rightarrow> rl_answer \<times> limiters" where
  "rateLimitHandler str s r now =
     (case classify r of
        None \<Rightarrow> (Passed, s)
      | Some t \<Rightarrow>
          (let ((allowed, retryAfter), l) = Allow (tier_limiter t s) (rateLimitKey str r (ipOnly t)) now;
               s' = set_tier_limiter t l s
           in if \<not> allowed then
                let secs = ceil_seconds retryAfter
                in (Limited (if secs < 1 then 1 else secs)
                      (newAPIError 429 ''rate_limited'' ''rate limit exceeded'' []), s')
              else (Passed, s')))"

section \<open>Properties\<close>

text \<open>
  Bucket keys separate callers exactly as intended: two requests share a key of a tier if and only
  if both are keyed by the same account, or both by the same client address; in particular all
  sessions of an account share one bucket outside the auth tier, account and address keys never
  collide, and the auth tier always keys by address.
\<close>

lemma rateLimitKey_eq_iff:
  assumes "uuid_text str"
  shows "rateLimitKey str r (ipOnly t) = rateLimitKey str r' (ipOnly t) \<longleftrightarrow>
    (let byUser = (\<lambda>q. t \<noteq> AuthTier \<and> u_ID (rq_User q) \<noteq> uuid_Nil)
     in if byUser r then byUser r' \<and> u_ID (rq_User r) = u_ID (rq_User r')
        else \<not> byUser r' \<and> clientIP r = clientIP r')"
  using uuid_text.str_eq_iff [OF assms] by (simp add: rateLimitKey_def ipOnly_def Let_def)

lemma rateLimitKey_example:
  "rateLimitKey uuid_hex \<lparr>rq_Method = ''GET'', rq_Path = ''/api/v1/specimens'', rq_User = StubUser,
       rq_CFConnectingIP = [], rq_RemoteAddr = ''10.0.0.1:80''\<rparr> (ipOnly ReadTier) =
   rateLimitKey uuid_hex \<lparr>rq_Method = ''GET'', rq_Path = ''/api/v1/specimens'', rq_User = StubUser,
       rq_CFConnectingIP = [], rq_RemoteAddr = ''10.0.0.2:80''\<rparr> (ipOnly ReadTier)"
  using rateLimitKey_eq_iff [OF hex.uuid_text_axioms] by (simp add: StubUser_def)

lemma tier_limiter_set [simp]:
  "tier_limiter t' (set_tier_limiter t l s) = (if t' = t then l else tier_limiter t' s)"
  by (cases t; cases t') simp_all

lemma limiters_eqI:
  assumes "\<And>t. tier_limiter t (s :: limiters) = tier_limiter t s'"
  shows "s = s'"
  using assms [of AuthTier] assms [of ReadTier] assms [of WriteTier] assms [of FileTier]
  by (cases s; cases s') simp

lemma rateLimitHandler_tier:
  assumes "classify r = Some t"
  shows "rateLimitHandler str s r now =
    (let a = Allow (tier_limiter t s) (rateLimitKey str r (ipOnly t)) now
     in (if fst (fst a) then Passed
         else Limited (max 1 (ceil_seconds (snd (fst a)))) (newAPIError 429 ''rate_limited'' ''rate limit exceeded'' []),
         set_tier_limiter t (snd a) s))"
  using assms by (simp add: rateLimitHandler_def Let_def max_def split_beta)

text \<open>
  A request is charged to its own tier and nowhere else: a request outside the tiers passes and
  changes nothing; any other passes exactly when its tier's limiter admits its key, the other three
  limiters are untouched, and a refusal is a 429 whose \<open>Retry-After\<close> is at least one second and
  not shorter than the wait.
\<close>

lemma rateLimitHandler_charges_one_tier:
  "rateLimitHandler str s r now = (ans, s') \<longleftrightarrow>
     (case classify r of
        None \<Rightarrow> ans = Passed \<and> s' = s
      | Some t \<Rightarrow>
          let a = Allow (tier_limiter t s) (rateLimitKey str r (ipOnly t)) now
          in tier_limiter t s' = snd a \<and> (\<forall>t'. t' = t \<or> tier_limiter t' s' = tier_limiter t' s) \<and>
             (if fst (fst a) then ans = Passed
              else \<exists>secs e. ans = Limited secs e \<and> 1 \<le> secs \<and> snd (fst a) \<le> secs * 1000000000 \<and>
                     secs = max 1 (ceil_seconds (snd (fst a))) \<and> err_Status e = 429 \<and>
                     e = newAPIError 429 ''rate_limited'' ''rate limit exceeded'' []))"
proof (cases "classify r")
  case None
  then show ?thesis by (auto simp: rateLimitHandler_def)
next
  case (Some t)
  have ceil: "d \<le> max 1 (ceil_seconds d) * 1000000000" for d
  proof -
    have "seconds d \<le> of_int (ceil_seconds d)" by (simp add: ceil_seconds_def)
    then have "of_int d \<le> (of_int (ceil_seconds d * 1000000000) :: rat)"
      by (simp add: seconds_def nanos_per_second_def divide_le_eq)
    then have "d \<le> ceil_seconds d * 1000000000" by (simp only: of_int_le_iff)
    then show ?thesis by (simp add: max_def)
  qed
  have ext: "set_tier_limiter t l s = s' \<longleftrightarrow>
      tier_limiter t s' = l \<and> (\<forall>t'. t' = t \<or> tier_limiter t' s' = tier_limiter t' s)" for l
  proof
    assume "tier_limiter t s' = l \<and> (\<forall>t'. t' = t \<or> tier_limiter t' s' = tier_limiter t' s)"
    then show "set_tier_limiter t l s = s'" by (intro limiters_eqI) auto
  qed (auto split: if_splits)
  define e where "e = newAPIError 429 ''rate_limited'' ''rate limit exceeded'' []"
  have e: "err_Status e = 429" by (simp add: e_def newAPIError_def)
  define a where "a = Allow (tier_limiter t s) (rateLimitKey str r (ipOnly t)) now"
  show ?thesis
    unfolding rateLimitHandler_tier [OF Some] Some option.case Let_def prod.inject a_def [symmetric]
      e_def [symmetric] ext
    using ceil [of "snd (fst a)"] e by (cases "fst (fst a)") auto
qed

end
