(* ===== verification/UserRepo.thy ===== *)
theory UserRepo
  imports Minerals_Domain
begin

text \<open>
  The user repository: the interface \<open>UserRepo\<close> of \<open>src/internal/domain/domain.go\<close> as a record of
  operations on a store, what its clients rely on as the locale \<open>user_repo\<close>, and the implementation
  of \<open>src/internal/db/user_postgres.go\<close> on a table of rows with the primary key \<open>id\<close> and the unique
  column \<open>keycloak_sub\<close> of migration 0008. A statement can fail in the driver, which is a value of the
  error type.
\<close>

datatype repo_error = Domain domain_error | Driver string

record 's UserRepo =
  ur_GetBySub :: "'s \<Rightarrow> string \<Rightarrow> repo_error + User"
  ur_GetByID :: "'s \<Rightarrow> uuid \<Rightarrow> repo_error + User"
  ur_Create :: "'s \<Rightarrow> User \<Rightarrow> repo_error + 's"
  ur_MarkActive :: "'s \<Rightarrow> uuid \<Rightarrow> string \<Rightarrow> time \<Rightarrow> repo_error + 's"
  ur_UpdateDisplayName :: "'s \<Rightarrow> uuid \<Rightarrow> string \<Rightarrow> time \<Rightarrow> repo_error + 's"
  ur_UpdateFieldDefaults :: "'s \<Rightarrow> uuid \<Rightarrow> FieldDefaults option \<Rightarrow> time \<Rightarrow> repo_error + 's"
  ur_UpdateDefaultSpecimenVisibility :: "'s \<Rightarrow> uuid \<Rightarrow> Visibility option \<Rightarrow> time \<Rightarrow> repo_error + 's"
  ur_SetStatus :: "'s \<Rightarrow> uuid \<Rightarrow> UserStatus \<Rightarrow> time \<Rightarrow> repo_error + 's"

section \<open>The table\<close>

type_synonym users = "User list"

text \<open>The constraints of the table: ids and subjects are unique.\<close>

definition users_ok :: "users \<Rightarrow> bool" where
  "users_ok t \<longleftrightarrow> distinct (map us_ID t) \<and> distinct (map us_KeycloakSub t)"

text \<open>\<open>UPDATE users SET ... WHERE id = $1\<close>, with no rows affected reported as not found.\<close>

definition update_user :: "users \<Rightarrow> uuid \<Rightarrow> (User \<Rightarrow> User) \<Rightarrow> repo_error + users" where
  "update_user t i f =
     (if i \<in> set (map us_ID t) then Inr (map (\<lambda>r. if us_ID r = i then f r else r) t)
      else Inl (Domain ErrUserNotFound))"

definition GetBySub :: "users \<Rightarrow> string \<Rightarrow> repo_error + User" where
  "GetBySub t sub =
     (case find (\<lambda>r. us_KeycloakSub r = sub) t of
        None \<Rightarrow> Inl (Domain ErrUserNotFound) | Some r \<Rightarrow> Inr r)"

definition GetByID :: "users \<Rightarrow> uuid \<Rightarrow> repo_error + User" where
  "GetByID t i =
     (case find (\<lambda>r. us_ID r = i) t of None \<Rightarrow> Inl (Domain ErrUserNotFound) | Some r \<Rightarrow> Inr r)"

text \<open>Both unique constraints surface as \<open>ErrUserConflict\<close>.\<close>

definition Create :: "users \<Rightarrow> User \<Rightarrow> repo_error + users" where
  "Create t u =
     (if us_ID u \<in> set (map us_ID t) \<or> us_KeycloakSub u \<in> set (map us_KeycloakSub t)
      then Inl (Domain ErrUserConflict) else Inr (t @ [u]))"

definition MarkActive :: "users \<Rightarrow> uuid \<Rightarrow> string \<Rightarrow> time \<Rightarrow> repo_error + users" where
  "MarkActive t i displayName updatedAt =
     update_user t i (\<lambda>r. r\<lparr>us_DisplayName := Some displayName, us_Status := UserStatusActive,
       us_UpdatedAt := updatedAt\<rparr>)"

definition UpdateDisplayName :: "users \<Rightarrow> uuid \<Rightarrow> string \<Rightarrow> time \<Rightarrow> repo_error + users" where
  "UpdateDisplayName t i displayName updatedAt =
     update_user t i (\<lambda>r. r\<lparr>us_DisplayName := Some displayName, us_UpdatedAt := updatedAt\<rparr>)"

definition UpdateDefaultSpecimenVisibility ::
  "users \<Rightarrow> uuid \<Rightarrow> Visibility option \<Rightarrow> time \<Rightarrow> repo_error + users" where
  "UpdateDefaultSpecimenVisibility t i visibility updatedAt =
     update_user t i (\<lambda>r. r\<lparr>us_DefaultSpecimenVisibility := visibility, us_UpdatedAt := updatedAt\<rparr>)"

definition UpdateFieldDefaults :: "users \<Rightarrow> uuid \<Rightarrow> FieldDefaults option \<Rightarrow> time \<Rightarrow> repo_error + users" where
  "UpdateFieldDefaults t i defaults updatedAt =
     update_user t i (\<lambda>r. r\<lparr>us_FieldDefaults := defaults, us_UpdatedAt := updatedAt\<rparr>)"

definition SetStatus :: "users \<Rightarrow> uuid \<Rightarrow> UserStatus \<Rightarrow> time \<Rightarrow> repo_error + users" where
  "SetStatus t i status updatedAt = update_user t i (\<lambda>r. r\<lparr>us_Status := status, us_UpdatedAt := updatedAt\<rparr>)"

text \<open>The repository on a reachable database, and on one whose every statement fails.\<close>

definition UserPostgres :: "users UserRepo" where
  "UserPostgres =
     \<lparr>ur_GetBySub = GetBySub, ur_GetByID = GetByID, ur_Create = Create, ur_MarkActive = MarkActive,
      ur_UpdateDisplayName = UpdateDisplayName, ur_UpdateFieldDefaults = UpdateFieldDefaults,
      ur_UpdateDefaultSpecimenVisibility = UpdateDefaultSpecimenVisibility, ur_SetStatus = SetStatus\<rparr>"

definition UserPostgres_down :: "string \<Rightarrow> users UserRepo" where
  "UserPostgres_down e =
     \<lparr>ur_GetBySub = (\<lambda>_ _. Inl (Driver e)), ur_GetByID = (\<lambda>_ _. Inl (Driver e)), ur_Create = (\<lambda>_ _. Inl (Driver e)),
      ur_MarkActive = (\<lambda>_ _ _ _. Inl (Driver e)), ur_UpdateDisplayName = (\<lambda>_ _ _ _. Inl (Driver e)),
      ur_UpdateFieldDefaults = (\<lambda>_ _ _ _. Inl (Driver e)),
      ur_UpdateDefaultSpecimenVisibility = (\<lambda>_ _ _ _. Inl (Driver e)), ur_SetStatus = (\<lambda>_ _ _ _. Inl (Driver e))\<rparr>"

section \<open>What clients rely on\<close>

text \<open>
  A store with an invariant and the rows it holds. Lookups return a row that is there, or say
  truthfully that there is none; an insert appends the row, and a conflict means that the id or the
  subject is taken; an update changes exactly the row with the id.
\<close>

locale user_repo =
  fixes R :: "'s UserRepo" and rows :: "'s \<Rightarrow> User list" and inv :: "'s \<Rightarrow> bool"
  assumes unique: "inv s \<Longrightarrow> users_ok (rows s)"
    and GetBySub_Inr: "ur_GetBySub R s sub = Inr u \<Longrightarrow> u \<in> set (rows s) \<and> us_KeycloakSub u = sub"
    and GetBySub_NotFound: "ur_GetBySub R s sub = Inl (Domain ErrUserNotFound) \<Longrightarrow>
      sub \<notin> us_KeycloakSub ` set (rows s)"
    and GetByID_Inr: "ur_GetByID R s i = Inr u \<Longrightarrow> u \<in> set (rows s) \<and> us_ID u = i"
    and Create_Inr: "ur_Create R s u = Inr s' \<Longrightarrow> inv s \<Longrightarrow> inv s' \<and> rows s' = rows s @ [u]"
    and Create_Conflict: "ur_Create R s u = Inl (Domain ErrUserConflict) \<Longrightarrow>
      us_ID u \<in> us_ID ` set (rows s) \<or> us_KeycloakSub u \<in> us_KeycloakSub ` set (rows s)"
    and SetStatus_Inr: "ur_SetStatus R s i st now = Inr s' \<Longrightarrow> inv s \<Longrightarrow>
      inv s' \<and> rows s' = map (\<lambda>r. if us_ID r = i then r\<lparr>us_Status := st, us_UpdatedAt := now\<rparr> else r) (rows s)"
    and MarkActive_Inr: "ur_MarkActive R s i nm now = Inr s' \<Longrightarrow> inv s \<Longrightarrow>
      inv s' \<and> rows s' = map (\<lambda>r. if us_ID r = i
        then r\<lparr>us_DisplayName := Some nm, us_Status := UserStatusActive, us_UpdatedAt := now\<rparr> else r) (rows s)"
begin

text \<open>A subject determines its row.\<close>

lemma row_unique:
  assumes "inv s" "u \<in> set (rows s)" "v \<in> set (rows s)" "us_KeycloakSub u = us_KeycloakSub v"
  shows "u = v"
  using unique [OF assms(1)] assms(2-) by (metis distinct_map inj_onD users_ok_def)

lemma row_unique_ID:
  assumes "inv s" "u \<in> set (rows s)" "v \<in> set (rows s)" "us_ID u = us_ID v"
  shows "u = v"
  using unique [OF assms(1)] assms(2-) by (metis distinct_map inj_onD users_ok_def)

end

lemma find_SomeD: "find P xs = Some x \<Longrightarrow> x \<in> set xs \<and> P x"
  by (induction xs) (auto split: if_splits)

lemma update_user_Inr:
  assumes "update_user t i f = Inr t'" and "\<And>r. us_ID (f r) = us_ID r" and "\<And>r. us_KeycloakSub (f r) = us_KeycloakSub r"
  shows "t' = map (\<lambda>r. if us_ID r = i then f r else r) t" and "users_ok t \<Longrightarrow> users_ok t'"
proof -
  show t': "t' = map (\<lambda>r. if us_ID r = i then f r else r) t"
    using assms(1) by (simp add: update_user_def split: if_splits)
  have "map us_ID t' = map us_ID t" "map us_KeycloakSub t' = map us_KeycloakSub t"
    using assms(2,3) by (simp_all add: t')
  then show "users_ok t \<Longrightarrow> users_ok t'" by (simp add: users_ok_def)
qed

interpretation user_postgres: user_repo UserPostgres id users_ok
proof
  fix s sub u
  assume "ur_GetBySub UserPostgres s sub = Inr u"
  then show "u \<in> set (id s) \<and> us_KeycloakSub u = sub"
    by (auto simp: UserPostgres_def GetBySub_def split: option.splits dest: find_SomeD)
next
  fix s sub
  assume "ur_GetBySub UserPostgres s sub = Inl (Domain ErrUserNotFound)"
  then show "sub \<notin> us_KeycloakSub ` set (id s)"
    by (auto simp: UserPostgres_def GetBySub_def find_None_iff split: option.splits)
next
  fix s i u
  assume "ur_GetByID UserPostgres s i = Inr u"
  then show "u \<in> set (id s) \<and> us_ID u = i"
    by (auto simp: UserPostgres_def GetByID_def split: option.splits dest: find_SomeD)
next
  fix s u s'
  assume "ur_Create UserPostgres s u = Inr s'" "users_ok s"
  then show "users_ok s' \<and> id s' = id s @ [u]"
    by (auto simp: UserPostgres_def Create_def users_ok_def split: if_splits)
next
  fix s u
  assume "ur_Create UserPostgres s u = Inl (Domain ErrUserConflict)"
  then show "us_ID u \<in> us_ID ` set (id s) \<or> us_KeycloakSub u \<in> us_KeycloakSub ` set (id s)"
    by (simp add: UserPostgres_def Create_def split: if_splits)
next
  fix s i st now s'
  assume "ur_SetStatus UserPostgres s i st now = Inr s'" "users_ok s"
  then show "users_ok s' \<and> id s' = map (\<lambda>r. if us_ID r = i then r\<lparr>us_Status := st, us_UpdatedAt := now\<rparr> else r) (id s)"
    using update_user_Inr by (simp add: UserPostgres_def SetStatus_def)
next
  fix s i nm now s'
  assume "ur_MarkActive UserPostgres s i nm now = Inr s'" "users_ok s"
  then show "users_ok s' \<and> id s' = map (\<lambda>r. if us_ID r = i
      then r\<lparr>us_DisplayName := Some nm, us_Status := UserStatusActive, us_UpdatedAt := now\<rparr> else r) (id s)"
    using update_user_Inr by (simp add: UserPostgres_def MarkActive_def)
qed simp

interpretation user_postgres_down: user_repo "UserPostgres_down e" id users_ok
  by unfold_locales (simp_all add: UserPostgres_down_def)

end
