(* ===== verification/AuthFlow.thy ===== *)
theory AuthFlow
  imports ApiGuard UserRepo
begin

text \<open>
  Authentication and identity resolution: bearer tokens and the net/http middlewares of
  \<open>src/internal/auth/auth.go\<close>, the huma-side chain of \<open>src/internal/api/huma_auth.go\<close> with its resolver
  and gates. The token verifier (the \<open>oidc\<close> package's contract), \<open>uuid.Parse\<close> and the user repository are
  arguments; a request context is the \<open>auth_User\<close> it carries, the zero user when none is attached.
  Concurrent requests appear as the functions \<open>env1\<close> and \<open>env2\<close> that change the store between
  two statements of the resolver.
\<close>

section \<open>Bearer tokens\<close>

record Claims =
  cl_Subject :: string
  cl_Email :: string
  cl_Roles :: "string list"

type_synonym TokenVerifier = "string \<Rightarrow> string + Claims"

definition UserFromClaims :: "(string \<Rightarrow> uuid option) \<Rightarrow> Claims \<Rightarrow> auth_User" where
  "UserFromClaims parse c =
     \<lparr>u_ID = (case parse (cl_Subject c) of Some i \<Rightarrow> i | None \<Rightarrow> uuid_Nil), u_Sub = cl_Subject c,
      u_Email = cl_Email c, u_DisplayName = None, u_Pending = False, u_Roles = cl_Roles c\<rparr>"

definition ascii_lower :: "char \<Rightarrow> char" where
  "ascii_lower c = (let n = of_char c :: nat in if 65 \<le> n \<and> n \<le> 90 then char_of (n + 32) else c)"

definition BearerToken :: "string \<Rightarrow> string option" where
  "BearerToken header =
     (if length header \<le> 7 \<or> map ascii_lower (take 7 header) \<noteq> ''bearer '' then None
      else let tok = trimSpace (drop 7 header) in if tok = [] then None else Some tok)"

section \<open>Middlewares\<close>

text \<open>A middleware calls the next handler with a context, or writes an envelope.\<close>

datatype mw_result = Next auth_User | Reply apiError

definition unauthorized :: apiError where
  "unauthorized = newAPIError 401 ''unauthorized'' ''authentication required'' []"

definition Auth :: "(string \<Rightarrow> uuid option) \<Rightarrow> TokenVerifier option \<Rightarrow> string \<Rightarrow> auth_User \<Rightarrow> mw_result" where
  "Auth parse v header u =
     (case v of
        None \<Rightarrow> Next StubUser
      | Some verify \<Rightarrow>
          (case BearerToken header of
             None \<Rightarrow> Reply unauthorized
           | Some tok \<Rightarrow>
               (case verify tok of Inl _ \<Rightarrow> Reply unauthorized | Inr claims \<Rightarrow> Next (UserFromClaims parse claims))))"

definition OptionalAuth :: "(string \<Rightarrow> uuid option) \<Rightarrow> TokenVerifier option \<Rightarrow> string \<Rightarrow> auth_User \<Rightarrow> mw_result" where
  "OptionalAuth parse v header u =
     (case v of
        None \<Rightarrow> Next StubUser
      | Some verify \<Rightarrow>
          (case BearerToken header of
             None \<Rightarrow> Next u
           | Some tok \<Rightarrow>
               (case verify tok of Inl _ \<Rightarrow> Reply unauthorized | Inr claims \<Rightarrow> Next (UserFromClaims parse claims))))"

definition RequireUser :: "auth_User \<Rightarrow> mw_result" where
  "RequireUser u = (if u_ID u = uuid_Nil \<and> u_Sub u = [] then Reply unauthorized else Next u)"

definition invalid_token :: apiError where
  "invalid_token = newAPIError 401 ''unauthorized'' ''invalid or expired token'' []"

text \<open>The huma-side variants honour a user that the session middleware has attached.\<close>

definition makeHumaAuth ::
  "(string \<Rightarrow> uuid option) \<Rightarrow> TokenVerifier option \<Rightarrow> string \<Rightarrow> auth_User \<Rightarrow> mw_result" where
  "makeHumaAuth parse v header u =
     (if u_Sub u \<noteq> [] then Next u
      else case v of
        None \<Rightarrow> Next StubUser
      | Some verify \<Rightarrow>
          (case BearerToken header of
             None \<Rightarrow> Reply unauthorized
           | Some tok \<Rightarrow>
               (case verify tok of Inl _ \<Rightarrow> Reply invalid_token | Inr claims \<Rightarrow> Next (UserFromClaims parse claims))))"

definition makeHumaOptionalAuth ::
  "(string \<Rightarrow> uuid option) \<Rightarrow> TokenVerifier option \<Rightarrow> string \<Rightarrow> auth_User \<Rightarrow> mw_result" where
  "makeHumaOptionalAuth parse v header u =
     (if u_Sub u \<noteq> [] then Next u
      else case v of
        None \<Rightarrow> Next StubUser
      | Some verify \<Rightarrow>
          (case BearerToken header of
             None \<Rightarrow> Next u
           | Some tok \<Rightarrow>
               (case verify tok of Inl _ \<Rightarrow> Reply invalid_token | Inr claims \<Rightarrow> Next (UserFromClaims parse claims))))"

section \<open>The resolver\<close>

definition freshUser :: "auth_User \<Rightarrow> uuid \<Rightarrow> time \<Rightarrow> User" where
  "freshUser u newID now =
     User_zero\<lparr>us_ID := newID, us_KeycloakSub := u_Sub u, us_Email := u_Email u, us_Status := UserStatusPending,
       us_CreatedAt := now, us_UpdatedAt := now\<rparr>"

text \<open>What the surroundings contribute to one run of the resolver.\<close>

record 's surroundings =
  sr_env1 :: "'s \<Rightarrow> 's"
  sr_env2 :: "'s \<Rightarrow> 's"
  sr_NewID :: uuid
  sr_Now :: time

definition resolveOrCreateUser ::
  "'s UserRepo \<Rightarrow> 's surroundings \<Rightarrow> 's \<Rightarrow> auth_User \<Rightarrow> (repo_error + User) \<times> 's" where
  "resolveOrCreateUser R w s u =
     (case ur_GetBySub R s (u_Sub u) of
        Inr row \<Rightarrow> (Inr row, s)
      | Inl err \<Rightarrow>
          if err \<noteq> Domain ErrUserNotFound then (Inl err, s)
          else
            let s1 = sr_env1 w s; fresh = freshUser u (sr_NewID w) (sr_Now w)
            in (case ur_Create R s1 fresh of
                  Inr s2 \<Rightarrow> (Inr fresh, s2)
                | Inl err2 \<Rightarrow>
                    if err2 = Domain ErrUserConflict
                    then let s2 = sr_env2 w s1 in (ur_GetBySub R s2 (u_Sub u), s2)
                    else (Inl err2, s1)))"

definition makeResolveUserMiddleware ::
  "'s UserRepo \<Rightarrow> 's surroundings \<Rightarrow> 's \<Rightarrow> auth_User \<Rightarrow> mw_result \<times> 's" where
  "makeResolveUserMiddleware R w s u =
     (if u_Sub u = [] then (Reply unauthorized, s)
      else case resolveOrCreateUser R w s u of
        (Inl _, s') \<Rightarrow> (Reply (newAPIError 500 ''internal_error'' ''failed to resolve user'' []), s')
      | (Inr resolved, s') \<Rightarrow>
          if us_Status resolved = UserStatusSuspended
          then (Reply (newAPIError 403 ''account_suspended'' ''this account has been suspended'' []), s')
          else (Next (u\<lparr>u_ID := us_ID resolved, u_Email := us_Email resolved,
                        u_DisplayName := us_DisplayName resolved,
                        u_Pending := (us_Status resolved = UserStatusPending)\<rparr>), s'))"

definition makeOptionalResolveUserMiddleware ::
  "'s UserRepo \<Rightarrow> 's surroundings \<Rightarrow> 's \<Rightarrow> auth_User \<Rightarrow> mw_result \<times> 's" where
  "makeOptionalResolveUserMiddleware R w s u =
     (if u_Sub u = [] then (Next u, s) else makeResolveUserMiddleware R w s u)"

definition ProfileSetupPath :: string where
  "ProfileSetupPath = ''/profile/setup''"

definition requireCompleteProfile :: "auth_User \<Rightarrow> mw_result" where
  "requireCompleteProfile u =
     (if u_Pending u
      then Reply (newAPIError 403 ''profile_setup_required'' ''profile setup required'' [(''redirect'', ProfileSetupPath)])
      else Next u)"

definition optionalRequireCompleteProfile :: "auth_User \<Rightarrow> mw_result" where
  "optionalRequireCompleteProfile u = (if u_Sub u = [] then Next u else requireCompleteProfile u)"

section \<open>Chains\<close>

text \<open>A step of a chain reads and changes the store; a chain runs its steps until one replies.\<close>

type_synonym 's mw = "'s \<Rightarrow> auth_User \<Rightarrow> mw_result \<times> 's"

fun run_chain :: "'s mw list \<Rightarrow> 's mw" where
  "run_chain [] s u = (Next u, s)"
| "run_chain (m # ms) s u =
     (case m s u of (Reply e, s') \<Rightarrow> (Reply e, s') | (Next u', s') \<Rightarrow> run_chain ms s' u')"

definition pure_mw :: "(auth_User \<Rightarrow> mw_result) \<Rightarrow> 's mw" where
  "pure_mw f s u = (f u, s)"

lemma run_chain_pure:
  "run_chain (pure_mw f # ms) s u = (case f u of Reply e \<Rightarrow> (Reply e, s) | Next v \<Rightarrow> run_chain ms s v)"
  by (simp add: pure_mw_def split: mw_result.splits)

text \<open>The collaborators of \<open>newAuthMiddlewares\<close>; a nil repository is \<open>None\<close>.\<close>

record 's authMiddlewares =
  am_repo :: "'s UserRepo option"
  am_verifier :: "TokenVerifier option"
  am_parse :: "string \<Rightarrow> uuid option"

definition Protected :: "'s authMiddlewares \<Rightarrow> 's surroundings \<Rightarrow> string \<Rightarrow> 's mw list" where
  "Protected m w header =
     (case am_repo m of
        None \<Rightarrow> [pure_mw (makeHumaAuth (am_parse m) (am_verifier m) header)]
      | Some R \<Rightarrow> [pure_mw (makeHumaAuth (am_parse m) (am_verifier m) header),
                   makeResolveUserMiddleware R w, pure_mw requireCompleteProfile])"

definition Optional :: "'s authMiddlewares \<Rightarrow> 's surroundings \<Rightarrow> string \<Rightarrow> 's mw list" where
  "Optional m w header =
     (case am_repo m of
        None \<Rightarrow> [pure_mw (makeHumaOptionalAuth (am_parse m) (am_verifier m) header)]
      | Some R \<Rightarrow> [pure_mw (makeHumaOptionalAuth (am_parse m) (am_verifier m) header),
                   makeOptionalResolveUserMiddleware R w, pure_mw optionalRequireCompleteProfile])"

definition SetupAllowed :: "'s authMiddlewares \<Rightarrow> 's surroundings \<Rightarrow> string \<Rightarrow> 's mw list" where
  "SetupAllowed m w header =
     (case am_repo m of
        None \<Rightarrow> [pure_mw (makeHumaAuth (am_parse m) (am_verifier m) header)]
      | Some R \<Rightarrow> [pure_mw (makeHumaAuth (am_parse m) (am_verifier m) header), makeResolveUserMiddleware R w])"

section \<open>The resolver against the repository's contract\<close>

text \<open>Other requests may add rows between the statements, and keep the table's constraints.\<close>

definition growing :: "('s \<Rightarrow> bool) \<Rightarrow> ('s \<Rightarrow> User list) \<Rightarrow> ('s \<Rightarrow> 's) \<Rightarrow> bool" where
  "growing good rows env \<longleftrightarrow> (\<forall>s. good s \<longrightarrow> good (env s) \<and> set (rows s) \<subseteq> set (rows (env s)))"

text \<open>A reachable repository: lookups find what is there, and an insert that is not in conflict succeeds.\<close>

locale user_repo_up = user_repo R rows inv
  for R :: "'s UserRepo" and rows :: "'s \<Rightarrow> User list" and inv :: "'s \<Rightarrow> bool" +
  assumes GetBySub_total: "ur_GetBySub R s sub = Inl e \<Longrightarrow> e = Domain ErrUserNotFound"
    and Create_total: "ur_Create R s u = Inl e \<Longrightarrow> e = Domain ErrUserConflict"
begin

lemma GetBySub_row:
  assumes "inv s" and "r \<in> set (rows s)"
  shows "ur_GetBySub R s (us_KeycloakSub r) = Inr r"
proof (cases "ur_GetBySub R s (us_KeycloakSub r)")
  case (Inl e)
  then show ?thesis using GetBySub_total GetBySub_NotFound assms(2) by blast
next
  case (Inr u)
  then show ?thesis using GetBySub_Inr row_unique [OF assms(1) _ assms(2)] by fastforce
qed

lemma resolve_existing:
  assumes "inv s" and "r \<in> set (rows s)" and "us_KeycloakSub r = u_Sub u"
  shows "resolveOrCreateUser R w s u = (Inr r, s)"
  using GetBySub_row [OF assms(1,2)] assms(3) by (simp add: resolveOrCreateUser_def)

lemma resolve_creates:
  assumes "inv s" and "growing inv rows (sr_env1 w)" and "growing inv rows (sr_env2 w)"
    and "sr_NewID w \<notin> us_ID ` set (rows (sr_env1 w s))"
  shows "\<exists>row s'. resolveOrCreateUser R w s u = (Inr row, s') \<and> inv s' \<and> set (rows s) \<subseteq> set (rows s') \<and>
    row \<in> set (rows s') \<and> us_KeycloakSub row = u_Sub u"
proof (cases "ur_GetBySub R s (u_Sub u)")
  case (Inr row)
  then show ?thesis using GetBySub_Inr [OF Inr] assms(1) by (auto simp: resolveOrCreateUser_def)
next
  case (Inl e)
  define s1 where "s1 = sr_env1 w s"
  define fresh where "fresh = freshUser u (sr_NewID w) (sr_Now w)"
  have e: "e = Domain ErrUserNotFound" using Inl by (rule GetBySub_total)
  have s1: "inv s1" "set (rows s) \<subseteq> set (rows s1)" using assms(1,2) by (simp_all add: growing_def s1_def)
  have f: "us_KeycloakSub fresh = u_Sub u" "us_ID fresh = sr_NewID w"
    by (simp_all add: fresh_def freshUser_def User_zero_def)
  show ?thesis
  proof (cases "ur_Create R s1 fresh")
    case (Inr s2)
    then show ?thesis using Create_Inr [OF Inr s1(1)] s1 f(1) Inl e
      by (auto simp: resolveOrCreateUser_def Let_def s1_def fresh_def)
  next
    case Conflict: (Inl e2)
    have e2: "e2 = Domain ErrUserConflict" using Conflict by (rule Create_total)
    from Create_Conflict [OF Conflict [unfolded e2]] obtain r where
      r: "r \<in> set (rows s1)" "us_KeycloakSub r = u_Sub u" using assms(4) f by (auto simp: s1_def)
    have s2: "inv (sr_env2 w s1)" "set (rows s1) \<subseteq> set (rows (sr_env2 w s1))"
      using assms(3) s1(1) by (simp_all add: growing_def)
    then have "ur_GetBySub R (sr_env2 w s1) (u_Sub u) = Inr r"
      using GetBySub_row [OF s2(1), of r] r by auto
    then have "resolveOrCreateUser R w s u = (Inr r, sr_env2 w s1)"
      using Inl e Conflict e2 by (simp add: resolveOrCreateUser_def Let_def s1_def fresh_def)
    then show ?thesis using s2 s1(2) r by blast
  qed
qed

end

interpretation user_postgres_up: user_repo_up UserPostgres id users_ok
  by unfold_locales (simp_all add: UserPostgres_def GetBySub_def Create_def split: option.splits if_splits)

section \<open>Properties\<close>

text \<open>
  C23. First login is linearizable: whatever rows other requests add between the resolver's statements,
  the resolver returns a row for the caller's subject that is in the table afterwards and is the only
  one for that subject, no row is lost, and every later resolution of that subject, by any request,
  returns that same row and changes nothing.
\<close>

theorem resolveOrCreateUser_linearizable:
  assumes "users_ok s" and "growing users_ok id (sr_env1 w)" and "growing users_ok id (sr_env2 w)"
    and "sr_NewID w \<notin> us_ID ` set (sr_env1 w s)"
  shows "\<exists>row s'. resolveOrCreateUser UserPostgres w s u = (Inr row, s') \<and> users_ok s' \<and> set s \<subseteq> set s' \<and>
    row \<in> set s' \<and> us_KeycloakSub row = u_Sub u \<and>
    (\<forall>r\<in>set s'. us_KeycloakSub r = u_Sub u \<longrightarrow> r = row) \<and>
    (\<forall>v w'. u_Sub v = u_Sub u \<longrightarrow> resolveOrCreateUser UserPostgres w' s' v = (Inr row, s'))"
proof -
  from user_postgres_up.resolve_creates [OF assms(1-3), of u] assms(4) obtain row s' where
    r: "resolveOrCreateUser UserPostgres w s u = (Inr row, s')" "users_ok s'" "set s \<subseteq> set s'"
      "row \<in> set s'" "us_KeycloakSub row = u_Sub u" by auto
  moreover have "\<forall>r\<in>set s'. us_KeycloakSub r = u_Sub u \<longrightarrow> r = row"
    using user_postgres.row_unique [OF r(2)] r(4,5) by auto
  moreover have "\<forall>v w'. u_Sub v = u_Sub u \<longrightarrow> resolveOrCreateUser UserPostgres w' s' v = (Inr row, s')"
    using user_postgres_up.resolve_existing [OF r(2)] r(4,5) by simp
  ultimately show ?thesis by blast
qed

text \<open>A race: the other request inserts its own pending row for the same subject first.\<close>

definition race_row :: User where
  "race_row = User_zero\<lparr>us_ID := 7, us_KeycloakSub := ''sub-1'', us_Status := UserStatusPending\<rparr>"

definition race :: "users surroundings" where
  "race = \<lparr>sr_env1 = (\<lambda>t. case Create t race_row of Inr t' \<Rightarrow> t' | Inl _ \<Rightarrow> t), sr_env2 = id, sr_NewID = 9, sr_Now = 5\<rparr>"

lemma race_growing: "growing users_ok id (sr_env1 race)" "growing users_ok id (sr_env2 race)"
  by (auto simp: growing_def race_def Create_def users_ok_def split: sum.splits if_splits)

theorem resolveOrCreateUser_linearizable_witness:
  "\<exists>row s'. resolveOrCreateUser UserPostgres race [] (auth_User_zero\<lparr>u_Sub := ''sub-1''\<rparr>) = (Inr row, s') \<and>
     row \<in> set s' \<and> us_KeycloakSub row = ''sub-1''"
proof -
  have "users_ok []" "sr_NewID race \<notin> us_ID ` set (sr_env1 race [])"
    by (simp_all add: users_ok_def race_def Create_def race_row_def)
  from resolveOrCreateUser_linearizable [OF this(1) race_growing this(2), of "auth_User_zero\<lparr>u_Sub := ''sub-1''\<rparr>"]
  show ?thesis by (auto simp: auth_User_zero_def)
qed

text \<open>How a caller has proved who they are: by a session, by a verified token, or by the stub fallback.\<close>

definition authenticated_as ::
  "'s authMiddlewares \<Rightarrow> string \<Rightarrow> auth_User \<Rightarrow> string \<Rightarrow> string list \<Rightarrow> bool" where
  "authenticated_as m header u sub roles \<longleftrightarrow>
     (if u_Sub u \<noteq> [] then sub = u_Sub u \<and> roles = u_Roles u
      else case am_verifier m of
        None \<Rightarrow> sub = StubUserSub \<and> roles = []
      | Some verify \<Rightarrow>
          (case BearerToken header of
             None \<Rightarrow> False
           | Some tok \<Rightarrow> (case verify tok of
                 Inl _ \<Rightarrow> False | Inr c \<Rightarrow> sub = cl_Subject c \<and> roles = cl_Roles c)))"

lemma makeHumaAuth_Next:
  "makeHumaAuth (am_parse m) (am_verifier m) header u = Next v \<Longrightarrow> authenticated_as m header u (u_Sub v) (u_Roles v)"
  by (auto simp: makeHumaAuth_def authenticated_as_def UserFromClaims_def StubUser_def
      split: if_splits option.splits sum.splits)

lemma authenticated_Next:
  assumes "authenticated_as m header u sub roles"
  obtains v where "makeHumaAuth (am_parse m) (am_verifier m) header u = Next v"
    "makeHumaOptionalAuth (am_parse m) (am_verifier m) header u = Next v" "u_Sub v = sub"
proof (cases "u_Sub u = []")
  case False
  then have "sub = u_Sub u" using assms by (simp add: authenticated_as_def)
  then show thesis
    using False by (intro that [of u]) (simp_all add: makeHumaAuth_def makeHumaOptionalAuth_def)
next
  case True
  show thesis
  proof (cases "am_verifier m")
    case None
    then have "sub = StubUserSub" using assms by (simp add: authenticated_as_def True)
    then show thesis
      by (intro that [of StubUser]) (simp_all add: makeHumaAuth_def makeHumaOptionalAuth_def True None StubUser_def)
  next
    case (Some verify)
    with assms have a: "case BearerToken header of None \<Rightarrow> False
        | Some tok \<Rightarrow> (case verify tok of Inl _ \<Rightarrow> False | Inr c \<Rightarrow> sub = cl_Subject c \<and> roles = cl_Roles c)"
      by (simp add: authenticated_as_def True)
    then obtain tok where tok: "BearerToken header = Some tok" by (cases "BearerToken header") simp_all
    with a obtain c where c: "verify tok = Inr c" "sub = cl_Subject c" by (cases "verify tok") simp_all
    show thesis
      by (rule that [of "UserFromClaims (am_parse m) c"])
        (simp_all add: makeHumaAuth_def makeHumaOptionalAuth_def True Some tok c UserFromClaims_def)
  qed
qed

lemma resolve_Next:
  assumes "makeResolveUserMiddleware R w s u = (Next v, s')"
  obtains row where "resolveOrCreateUser R w s u = (Inr row, s')" "us_Status row \<noteq> UserStatusSuspended"
    "u_Sub v = u_Sub u" "u_Roles v = u_Roles u" "u_ID v = us_ID row" "u_Sub u \<noteq> []"
    "u_Pending v \<longleftrightarrow> us_Status row = UserStatusPending"
  using assms by (auto simp: makeResolveUserMiddleware_def split: if_splits prod.splits sum.splits)

lemma Protected_Next:
  assumes "run_chain (Protected m w header) s u = (Next v, s')" and "am_repo m = Some R"
  obtains u1 row where "makeHumaAuth (am_parse m) (am_verifier m) header u = Next u1"
    "resolveOrCreateUser R w s u1 = (Inr row, s')" "us_Status row \<noteq> UserStatusSuspended"
    "us_Status row \<noteq> UserStatusPending" "u_Sub v = u_Sub u1" "u_Roles v = u_Roles u1" "u_ID v = us_ID row"
proof -
  from assms obtain u1 u2 where u1: "makeHumaAuth (am_parse m) (am_verifier m) header u = Next u1"
    and u2: "makeResolveUserMiddleware R w s u1 = (Next u2, s')" and u3: "requireCompleteProfile u2 = Next v"
    by (auto simp: Protected_def pure_mw_def split: mw_result.splits prod.splits)
  from u3 have v: "v = u2" "\<not> u_Pending u2" by (auto simp: requireCompleteProfile_def split: if_splits)
  show ?thesis using u1 v by (rule_tac resolve_Next [OF u2]) (auto intro: that)
qed

text \<open>
  C24. What a handler behind the protected chain may rely on: if the chain passes a user on, then the
  caller has proved the subject and the roles that user carries (by a session, a verified bearer token,
  or, with no verifier configured, as the stub), and its id is that of the one row of the
  subject in the table, whose account is neither suspended nor pending.
\<close>

theorem Protected_sound:
  assumes "run_chain (Protected m w header) s u = (Next v, s')" and "am_repo m = Some UserPostgres"
    and "users_ok s" and "growing users_ok id (sr_env1 w)" and "growing users_ok id (sr_env2 w)"
    and "sr_NewID w \<notin> us_ID ` set (sr_env1 w s)"
  shows "authenticated_as m header u (u_Sub v) (u_Roles v) \<and>
    (\<exists>row\<in>set s'. us_KeycloakSub row = u_Sub v \<and> us_ID row = u_ID v \<and>
       us_Status row \<noteq> UserStatusSuspended \<and> us_Status row \<noteq> UserStatusPending) \<and> users_ok s'"
proof -
  obtain u1 row where c: "makeHumaAuth (am_parse m) (am_verifier m) header u = Next u1"
    "resolveOrCreateUser UserPostgres w s u1 = (Inr row, s')" "us_Status row \<noteq> UserStatusSuspended"
    "us_Status row \<noteq> UserStatusPending" "u_Sub v = u_Sub u1" "u_Roles v = u_Roles u1" "u_ID v = us_ID row"
    by (rule Protected_Next [OF assms(1,2)])
  have "authenticated_as m header u (u_Sub v) (u_Roles v)" using makeHumaAuth_Next [OF c(1)] c(5,6) by simp
  moreover have "users_ok s' \<and> row \<in> set s' \<and> us_KeycloakSub row = u_Sub u1"
    using user_postgres_up.resolve_creates [OF assms(3-5), of u1] assms(6) c(2) by auto
  ultimately show ?thesis using c(3,4,5,7) by (metis (no_types))
qed

definition active_row :: User where
  "active_row = User_zero\<lparr>us_ID := 7, us_KeycloakSub := ''sub-1'', us_Status := UserStatusActive\<rparr>"

definition sample_mws :: "users authMiddlewares" where
  "sample_mws = \<lparr>am_repo = Some UserPostgres,
     am_verifier = Some (\<lambda>tok. if tok = ''t'' then Inr \<lparr>cl_Subject = ''sub-1'', cl_Email = [], cl_Roles = [''admin'']\<rparr> else Inl ''bad''),
     am_parse = (\<lambda>_. None)\<rparr>"

lemma sample_protected:
  "run_chain (Protected sample_mws race ''Bearer t'') [active_row] auth_User_zero =
     (Next (auth_User_zero\<lparr>u_ID := 7, u_Sub := ''sub-1'', u_Roles := [''admin'']\<rparr>), [active_row])"
  by (simp add: Protected_def sample_mws_def pure_mw_def makeHumaAuth_def BearerToken_def ascii_lower_def trimSpace_def
      is_space_def auth_User_zero_def UserFromClaims_def makeResolveUserMiddleware_def resolveOrCreateUser_def
      UserPostgres_def GetBySub_def active_row_def User_zero_def requireCompleteProfile_def char_of_def bit_0)

theorem Protected_sound_witness:
  "run_chain (Protected sample_mws race ''Bearer t'') [active_row] auth_User_zero =
     (Next (auth_User_zero\<lparr>u_ID := 7, u_Sub := ''sub-1'', u_Roles := [''admin'']\<rparr>), [active_row]) \<and>
   authenticated_as sample_mws ''Bearer t'' auth_User_zero ''sub-1'' [''admin'']"
proof -
  have "users_ok [active_row]" "sr_NewID race \<notin> us_ID ` set (sr_env1 race [active_row])" "am_repo sample_mws = Some UserPostgres"
    by (simp_all add: users_ok_def race_def Create_def race_row_def active_row_def User_zero_def sample_mws_def)
  from Protected_sound [OF sample_protected this(3) this(1) race_growing this(2)] sample_protected
  show ?thesis by simp
qed

text \<open>
  The optional chain adds exactly the anonymous case: with a verifier and a repository wired, a
  request with no session and no bearer token reaches the handler with its context unchanged and the
  store untouched; a token that does not verify is refused; every other request is treated as by the
  protected chain, except that a verified token without a subject is passed on unresolved.
\<close>

lemma Optional_is_Protected_or_anonymous:
  "run_chain (Optional \<lparr>am_repo = Some R, am_verifier = Some verify, am_parse = parse\<rparr> w header) s u =
     (if u_Sub u \<noteq> []
      then run_chain (Protected \<lparr>am_repo = Some R, am_verifier = Some verify, am_parse = parse\<rparr> w header) s u
      else case BearerToken header of
        None \<Rightarrow> (Next u, s)
      | Some tok \<Rightarrow> (case verify tok of
            Inl _ \<Rightarrow> (Reply invalid_token, s)
          | Inr c \<Rightarrow>
              if cl_Subject c = [] then (Next (UserFromClaims parse c), s)
              else run_chain (Protected \<lparr>am_repo = Some R, am_verifier = Some verify, am_parse = parse\<rparr> w header) s u))"
proof -
  have tail: "run_chain [makeOptionalResolveUserMiddleware R w, pure_mw optionalRequireCompleteProfile] s v =
      (if u_Sub v = [] then (Next v, s)
       else run_chain [makeResolveUserMiddleware R w, pure_mw requireCompleteProfile] s v)" for v
  proof (cases "makeResolveUserMiddleware R w s v")
    case (Pair r s')
    show ?thesis
    proof (cases r)
      case (Next v')
      have "u_Sub v' = u_Sub v" by (rule resolve_Next [OF Pair [unfolded Next]]) simp
      then show ?thesis using Pair Next
        by (simp add: makeOptionalResolveUserMiddleware_def pure_mw_def optionalRequireCompleteProfile_def)
    next
      case (Reply e)
      then show ?thesis using Pair
        by (simp add: makeOptionalResolveUserMiddleware_def pure_mw_def optionalRequireCompleteProfile_def)
    qed
  qed
  have sub: "u_Sub (UserFromClaims parse c) = cl_Subject c" for c by (simp add: UserFromClaims_def)
  show ?thesis
  proof (cases "u_Sub u = []")
    case False
    then show ?thesis
      by (simp add: Optional_def Protected_def run_chain_pure makeHumaAuth_def makeHumaOptionalAuth_def tail
          del: run_chain.simps(2))
  next
    case True
    then show ?thesis
      by (simp add: Optional_def Protected_def run_chain_pure makeHumaAuth_def makeHumaOptionalAuth_def tail sub
          del: run_chain.simps(2) split: option.splits sum.splits)
  qed
qed

end
