(* ===== verification/AdminSuspend.thy ===== *)
theory AdminSuspend
  imports AuthFlow
begin

text \<open>
  The operator's account suspension of \<open>src/internal/api/admin.go\<close>: \<open>suspendUser\<close>, \<open>unsuspendUser\<close>,
  the identity-provider sync and the audit trail. The identity provider and the session store are
  services outside the program: their calls are arguments that report an error or none and may change
  their own state either way. The world of an action is the users table, those two states and the
  audit log.
\<close>

record audit_event =
  ev_event :: string
  ev_target :: uuid
  ev_actor :: string
  ev_roles :: "string list"
  ev_identity_synced :: bool
  ev_sessions_revoked :: bool
  ev_reason :: string

record ('i, 'x) world =
  wd_users :: users
  wd_idp :: 'i
  wd_sessions :: 'x
  wd_audit :: "audit_event list"

record ('i, 'x) AdminSuspendDeps =
  sd_Users :: "users UserRepo"
  sd_Identity :: "('i \<Rightarrow> string \<Rightarrow> bool \<Rightarrow> string option \<times> 'i) option"
  sd_Sessions :: "('x \<Rightarrow> uuid \<Rightarrow> string option \<times> 'x) option"

record accountStatusResult =
  ar_ID :: uuid
  ar_Status :: UserStatus
  ar_IdentitySynced :: bool

definition parseUUID :: "(string \<Rightarrow> uuid option) \<Rightarrow> string \<Rightarrow> string \<Rightarrow> apiError + uuid" where
  "parseUUID parse raw field =
     (case parse raw of
        None \<Rightarrow> Inl (newAPIError 400 ''invalid_id'' ''id must be a UUID'' [(''field'', field)])
      | Some i \<Rightarrow> Inr i)"

definition adminConsoleResource :: Resource where
  "adminConsoleResource = \<lparr>r_Type = ''devops'', r_ID = [], r_Visibility = [], r_AuthorID = []\<rparr>"

definition mapUserLookupError :: "repo_error \<Rightarrow> apiError" where
  "mapUserLookupError err =
     (if err = Domain ErrUserNotFound then newAPIError 404 ''user_not_found'' ''no such user'' []
      else newAPIError 500 ''internal_error'' ''failed to load user'' [])"

definition syncIdentityEnabled ::
  "('i, 'x) AdminSuspendDeps \<Rightarrow> 'i \<Rightarrow> string \<Rightarrow> bool \<Rightarrow> (apiError + bool) \<times> 'i" where
  "syncIdentityEnabled deps idp sub enabled =
     (case sd_Identity deps of
        None \<Rightarrow> (Inr False, idp)
      | Some setEnabled \<Rightarrow>
          (case setEnabled idp sub enabled of
             (Some _, idp') \<Rightarrow>
               (Inl (newAPIError 502 ''identity_sync_failed''
                       ''failed to update the account at the identity provider; no change was made'' []), idp')
           | (None, idp') \<Rightarrow> (Inr True, idp')))"

definition auditAccountAction ::
  "(uuid \<Rightarrow> string) \<Rightarrow> auth_User \<Rightarrow> string \<Rightarrow> uuid \<Rightarrow> bool \<Rightarrow> bool \<Rightarrow> string \<Rightarrow> audit_event" where
  "auditAccountAction str u event target identitySynced sessionsRevoked reason =
     \<lparr>ev_event = event, ev_target = target, ev_actor = (if u_ID u \<noteq> uuid_Nil then str (u_ID u) else ''unknown''),
      ev_roles = u_Roles u, ev_identity_synced = identitySynced, ev_sessions_revoked = sessionsRevoked,
      ev_reason = reason\<rparr>"

text \<open>Best-effort logout: the reported flag is true when there is nothing to revoke.\<close>

definition revokeSessions :: "('i, 'x) AdminSuspendDeps \<Rightarrow> 'x \<Rightarrow> uuid \<Rightarrow> bool \<times> 'x" where
  "revokeSessions deps x i =
     (case sd_Sessions deps of
        None \<Rightarrow> (True, x)
      | Some revoke \<Rightarrow> (case revoke x i of (Some _, x') \<Rightarrow> (False, x') | (None, x') \<Rightarrow> (True, x')))"

definition suspendUser ::
  "authzGuard \<Rightarrow> ('i, 'x) AdminSuspendDeps \<Rightarrow> (string \<Rightarrow> uuid option) \<Rightarrow> auth_User \<Rightarrow> string \<Rightarrow> string \<Rightarrow> time \<Rightarrow>
   ('i, 'x) world \<Rightarrow> (apiError + accountStatusResult) \<times> ('i, 'x) world" where
  "suspendUser g deps parse caller rawID reason now wd =
     (case guard_check g caller adminConsoleResource ''edit'' of
        Some e \<Rightarrow> (Inl e, wd)
      | None \<Rightarrow>
          (case parseUUID parse rawID ''id'' of
             Inl e \<Rightarrow> (Inl e, wd)
           | Inr i \<Rightarrow>
               if u_ID caller = i then
                 (Inl (newAPIError 400 ''cannot_suspend_self'' ''you cannot suspend your own account'' []), wd)
               else if i = u_ID StubUser then
                 (Inl (newAPIError 403 ''cannot_suspend_system'' ''the system account cannot be suspended'' []), wd)
               else (case ur_GetByID (sd_Users deps) (wd_users wd) i of
                   Inl err \<Rightarrow> (Inl (mapUserLookupError err), wd)
                 | Inr u \<Rightarrow>
                     if us_Status u = UserStatusSuspended then
                       (Inr \<lparr>ar_ID = i, ar_Status = us_Status u, ar_IdentitySynced = (sd_Identity deps \<noteq> None)\<rparr>, wd)
                     else if us_Status u = UserStatusDeleted then
                       (Inl (newAPIError 409 ''account_deleted'' ''cannot suspend a deleted account'' []), wd)
                     else if us_Status u \<noteq> UserStatusActive then
                       (Inl (newAPIError 409 ''account_not_active'' ''only an active account can be suspended'' []), wd)
                     else (case syncIdentityEnabled deps (wd_idp wd) (us_KeycloakSub u) False of
                         (Inl e, idp) \<Rightarrow> (Inl e, wd\<lparr>wd_idp := idp\<rparr>)
                       | (Inr synced, idp) \<Rightarrow>
                           (case ur_SetStatus (sd_Users deps) (wd_users wd) i UserStatusSuspended now of
                              Inl _ \<Rightarrow> (Inl (newAPIError 500 ''internal_error'' ''failed to persist the suspension'' []),
                                        wd\<lparr>wd_idp := idp\<rparr>)
                            | Inr t \<Rightarrow>
                                (case revokeSessions deps (wd_sessions wd) i of
                                   (revoked, x) \<Rightarrow>
                                     (Inr \<lparr>ar_ID = i, ar_Status = UserStatusSuspended, ar_IdentitySynced = synced\<rparr>,
                                      wd\<lparr>wd_users := t, wd_idp := idp, wd_sessions := x,
                                         wd_audit := wd_audit wd @ [auditAccountAction (ag_str g) caller
                                           ''admin.account.suspended'' i synced revoked reason]\<rparr>)))))))"

definition unsuspendUser ::
  "authzGuard \<Rightarrow> ('i, 'x) AdminSuspendDeps \<Rightarrow> (string \<Rightarrow> uuid option) \<Rightarrow> auth_User \<Rightarrow> string \<Rightarrow> time \<Rightarrow>
   ('i, 'x) world \<Rightarrow> (apiError + accountStatusResult) \<times> ('i, 'x) world" where
  "unsuspendUser g deps parse caller rawID now wd =
     (case guard_check g caller adminConsoleResource ''edit'' of
        Some e \<Rightarrow> (Inl e, wd)
      | None \<Rightarrow>
          (case parseUUID parse rawID ''id'' of
             Inl e \<Rightarrow> (Inl e, wd)
           | Inr i \<Rightarrow>
               (case ur_GetByID (sd_Users deps) (wd_users wd) i of
                  Inl err \<Rightarrow> (Inl (mapUserLookupError err), wd)
                | Inr u \<Rightarrow>
                    if us_Status u \<noteq> UserStatusSuspended then
                      (Inr \<lparr>ar_ID = i, ar_Status = us_Status u, ar_IdentitySynced = (sd_Identity deps \<noteq> None)\<rparr>, wd)
                    else (case syncIdentityEnabled deps (wd_idp wd) (us_KeycloakSub u) True of
                        (Inl e, idp) \<Rightarrow> (Inl e, wd\<lparr>wd_idp := idp\<rparr>)
                      | (Inr synced, idp) \<Rightarrow>
                          (case ur_SetStatus (sd_Users deps) (wd_users wd) i UserStatusActive now of
                             Inl _ \<Rightarrow> (Inl (newAPIError 500 ''internal_error'' ''failed to persist the unsuspension'' []),
                                       wd\<lparr>wd_idp := idp\<rparr>)
                           | Inr t \<Rightarrow>
                               (Inr \<lparr>ar_ID = i, ar_Status = UserStatusActive, ar_IdentitySynced = synced\<rparr>,
                                wd\<lparr>wd_users := t, wd_idp := idp,
                                   wd_audit := wd_audit wd @ [auditAccountAction (ag_str g) caller
                                     ''admin.account.unsuspended'' i synced False []]\<rparr>))))))"

section \<open>The actions on the table\<close>

lemma GetByID_Inr_iff:
  assumes "users_ok t"
  shows "GetByID t i = Inr u \<longleftrightarrow> u \<in> set t \<and> us_ID u = i"
proof
  assume "GetByID t i = Inr u"
  then show "u \<in> set t \<and> us_ID u = i" using user_postgres.GetByID_Inr [of t i u] by (simp add: UserPostgres_def)
next
  assume u: "u \<in> set t \<and> us_ID u = i"
  then obtain v where v: "GetByID t i = Inr v"
    by (cases "find (\<lambda>r. us_ID r = i) t") (auto simp: GetByID_def find_None_iff)
  then have "v \<in> set t \<and> us_ID v = i" using user_postgres.GetByID_Inr [of t i v] by (simp add: UserPostgres_def)
  then show "GetByID t i = Inr u" using v u user_postgres.row_unique_ID [OF assms, of u v] by simp
qed

lemma SetStatus_present:
  assumes "u \<in> set t" and "us_ID u = i"
  shows "SetStatus t i st now = Inr (map (\<lambda>r. if us_ID r = i then r\<lparr>us_Status := st, us_UpdatedAt := now\<rparr> else r) t)"
  using assms by (auto simp: SetStatus_def update_user_def)

definition with_status :: "users \<Rightarrow> uuid \<Rightarrow> UserStatus \<Rightarrow> time \<Rightarrow> users" where
  "with_status t i st now = map (\<lambda>r. if us_ID r = i then r\<lparr>us_Status := st, us_UpdatedAt := now\<rparr> else r) t"

text \<open>The three ways a suspension on the database can end.\<close>

lemma suspendUser_cases:
  assumes "suspendUser g deps parse caller rawID reason now wd = (res, wd')"
    and "sd_Users deps = UserPostgres" and "users_ok (wd_users wd)"
  obtains (refused) e where "res = Inl e" "wd' = wd"
    | (sync_failed) e idp where "res = Inl e" "err_Status e = 502" "wd' = wd\<lparr>wd_idp := idp\<rparr>"
    | (already) i u where "parse rawID = Some i" "u_ID caller \<noteq> i" "i \<noteq> u_ID StubUser"
        "u \<in> set (wd_users wd)" "us_ID u = i" "us_Status u = UserStatusSuspended"
        "res = Inr \<lparr>ar_ID = i, ar_Status = UserStatusSuspended, ar_IdentitySynced = (sd_Identity deps \<noteq> None)\<rparr>" "wd' = wd"
    | (suspended) i u synced idp x ev where "parse rawID = Some i" "u_ID caller \<noteq> i" "i \<noteq> u_ID StubUser"
        "u \<in> set (wd_users wd)" "us_ID u = i" "us_Status u = UserStatusActive"
        "syncIdentityEnabled deps (wd_idp wd) (us_KeycloakSub u) False = (Inr synced, idp)"
        "res = Inr \<lparr>ar_ID = i, ar_Status = UserStatusSuspended, ar_IdentitySynced = synced\<rparr>"
        "wd' = wd\<lparr>wd_users := with_status (wd_users wd) i UserStatusSuspended now, wd_idp := idp, wd_sessions := x,
           wd_audit := wd_audit wd @ [ev]\<rparr>"
proof (cases "guard_check g caller adminConsoleResource ''edit''")
  case (Some e)
  then show thesis using assms(1) by (auto simp: suspendUser_def intro: refused)
next
  case guard: None
  show thesis
  proof (cases "parse rawID")
    case None
    then show thesis using assms(1) guard by (auto simp: suspendUser_def parseUUID_def intro: refused)
  next
    case (Some i)
    note head = suspendUser_def guard parseUUID_def Some
    show thesis
    proof (cases "u_ID caller = i \<or> i = u_ID StubUser")
      case True
      then show thesis using assms(1) by (cases "u_ID caller = i") (auto simp: head intro: refused)
    next
      case False
      then have neq: "u_ID caller \<noteq> i" "i \<noteq> u_ID StubUser" by simp_all
      show thesis
      proof (cases "GetByID (wd_users wd) i")
        case (Inl err)
        then show thesis using assms(1,2) by (auto simp: head neq UserPostgres_def intro: refused)
      next
        case (Inr u)
        then have u: "u \<in> set (wd_users wd)" "us_ID u = i" using GetByID_Inr_iff [OF assms(3)] by simp_all
        note body = head Inr assms(2) UserPostgres_def neq
        consider "us_Status u = UserStatusSuspended" | "us_Status u \<noteq> UserStatusSuspended" "us_Status u \<noteq> UserStatusActive"
          | "us_Status u = UserStatusActive" by blast
        then show thesis
        proof cases
          case 1
          then show thesis using assms(1) by (auto simp: body intro: already [OF Some neq u])
        next
          case 2
          then show thesis using assms(1) by (cases "us_Status u = UserStatusDeleted") (auto simp: body intro: refused)
        next
          case 3
          obtain r idp where sync: "syncIdentityEnabled deps (wd_idp wd) (us_KeycloakSub u) False = (r, idp)" by force
          obtain rv x where rev: "revokeSessions deps (wd_sessions wd) i = (rv, x)" by force
          show thesis
          proof (cases r)
            case (Inl e)
            then have "err_Status e = 502" using sync
              by (auto simp: syncIdentityEnabled_def newAPIError_def split: option.splits prod.splits)
            then show thesis using assms(1) 3 sync Inl by (auto simp: body intro: sync_failed)
          next
            case synced: (Inr s)
            then show thesis
              using assms(1) 3 sync rev SetStatus_present [OF u]
              by (auto simp: body with_status_def intro: suspended [OF Some neq u 3, of s idp])
          qed
        qed
      qed
    qed
  qed
qed

section \<open>Properties\<close>

text \<open>
  A suspension succeeds only on an account that exists, is active or already suspended, and is
  neither the caller's own nor the system account; afterwards that account is suspended and no other
  row has changed. Every refusal leaves the whole world as it was, except that a failed call to the
  identity provider may have changed the provider's own state; then the answer is a 502, and users,
  sessions and audit log are untouched.
\<close>

lemma suspendUser_outcome:
  assumes "suspendUser g deps parse caller rawID reason now wd = (res, wd')"
    and "sd_Users deps = UserPostgres" and "users_ok (wd_users wd)"
  shows "case res of
      Inr r \<Rightarrow> parse rawID = Some (ar_ID r) \<and> ar_ID r \<noteq> u_ID caller \<and> ar_ID r \<noteq> u_ID StubUser \<and>
        ar_Status r = UserStatusSuspended \<and>
        (\<exists>u\<in>set (wd_users wd). us_ID u = ar_ID r \<and>
           (us_Status u = UserStatusActive \<and> wd_users wd' = with_status (wd_users wd) (ar_ID r) UserStatusSuspended now
            \<or> us_Status u = UserStatusSuspended \<and> wd' = wd))
    | Inl e \<Rightarrow> wd' = wd \<or> err_Status e = 502 \<and> (\<exists>idp. wd' = wd\<lparr>wd_idp := idp\<rparr>)"
  using assms
proof (cases rule: suspendUser_cases)
  case (already i u)
  have "\<exists>u\<in>set (wd_users wd). us_ID u = i \<and> (us_Status u = UserStatusActive \<and>
      wd_users wd' = with_status (wd_users wd) i UserStatusSuspended now \<or> us_Status u = UserStatusSuspended \<and> wd' = wd)"
    using already(4,5,6,8) by blast
  then show ?thesis using already(1-3,7) by simp
next
  case (suspended i u synced idp x ev)
  have "\<exists>u\<in>set (wd_users wd). us_ID u = i \<and> (us_Status u = UserStatusActive \<and>
      wd_users wd' = with_status (wd_users wd) i UserStatusSuspended now \<or> us_Status u = UserStatusSuspended \<and> wd' = wd)"
    by (rule bexI [OF _ suspended(4)]) (use suspended(5,6,9) in simp)
  then show ?thesis using suspended(1-3,8) by simp
next
  case (sync_failed e idp)
  then show ?thesis by simp blast
qed simp

text \<open>A world with one active account, an operator with the admin role, and no collaborators.\<close>

definition sample_world :: "(unit, unit) world" where
  "sample_world = \<lparr>wd_users = [active_row], wd_idp = (), wd_sessions = (), wd_audit = []\<rparr>"

definition sample_deps :: "(unit, unit) AdminSuspendDeps" where
  "sample_deps = \<lparr>sd_Users = UserPostgres, sd_Identity = None, sd_Sessions = None\<rparr>"

definition no_enforcer :: authzGuard where
  "no_enforcer = \<lparr>ag_enforcer = None, ag_str = uuid_hex\<rparr>"

definition operator :: auth_User where
  "operator = auth_User_zero\<lparr>u_ID := 3, u_Sub := ''op'', u_Roles := [''admin'']\<rparr>"

lemma sample_suspension:
  "suspendUser no_enforcer sample_deps (\<lambda>_. Some 7) operator ''7'' [] 9 sample_world =
     (Inr \<lparr>ar_ID = 7, ar_Status = UserStatusSuspended, ar_IdentitySynced = False\<rparr>,
      sample_world\<lparr>wd_users := [active_row\<lparr>us_Status := UserStatusSuspended, us_UpdatedAt := 9\<rparr>],
        wd_audit := [auditAccountAction uuid_hex operator ''admin.account.suspended'' 7 False True []]\<rparr>)"
  by (simp add: suspendUser_def guard_check_def no_enforcer_def parseUUID_def operator_def auth_User_zero_def
      StubUser_def sample_deps_def sample_world_def UserPostgres_def GetByID_def active_row_def User_zero_def
      syncIdentityEnabled_def SetStatus_def update_user_def revokeSessions_def)

lemma suspendUser_outcome_example:
  "\<exists>u\<in>set (wd_users sample_world). us_ID u = 7 \<and> us_Status u = UserStatusActive"
proof -
  have "sd_Users sample_deps = UserPostgres" "users_ok (wd_users sample_world)"
    by (simp_all add: sample_deps_def sample_world_def users_ok_def)
  from suspendUser_outcome [OF sample_suspension this] show ?thesis
    by (auto simp: sample_world_def active_row_def)
qed

lemma with_status_ok: "users_ok t \<Longrightarrow> users_ok (with_status t i st now)"
proof -
  have "map us_ID (with_status t i st now) = map us_ID t"
    "map us_KeycloakSub (with_status t i st now) = map us_KeycloakSub t"
    by (simp_all add: with_status_def)
  then show "users_ok t \<Longrightarrow> users_ok (with_status t i st now)" by (simp add: users_ok_def)
qed

lemma in_with_status:
  assumes "u \<in> set t" and "us_ID u = i"
  shows "u\<lparr>us_Status := st, us_UpdatedAt := now\<rparr> \<in> set (with_status t i st now)"
  using assms by (force simp: with_status_def)

text \<open>Lifting a suspension on the database.\<close>

lemma unsuspendUser_suspended:
  assumes "unsuspendUser g deps parse caller rawID now wd = (Inr r, wd')"
    and "sd_Users deps = UserPostgres" and "users_ok (wd_users wd)" and "parse rawID = Some i"
    and "u \<in> set (wd_users wd)" and "us_ID u = i" and "us_Status u = UserStatusSuspended"
  shows "ar_Status r = UserStatusActive \<and> wd_users wd' = with_status (wd_users wd) i UserStatusActive now"
proof -
  have "GetByID (wd_users wd) i = Inr u" using GetByID_Inr_iff [OF assms(3)] assms(5,6) by simp
  moreover obtain s idp where "syncIdentityEnabled deps (wd_idp wd) (us_KeycloakSub u) True = (s, idp)" by force
  moreover have "guard_check g caller adminConsoleResource ''edit'' = None"
    using assms(1) by (cases "guard_check g caller adminConsoleResource ''edit''") (simp_all add: unsuspendUser_def)
  ultimately show ?thesis
    using assms(1,2,4,7) SetStatus_present [OF assms(5,6)]
    by (cases s) (auto simp: unsuspendUser_def parseUUID_def UserPostgres_def with_status_def)
qed

text \<open>
  Suspension is reversible and preserves the account: suspending an active account and lifting
  the suspension again gives back the users table, with only the account's update time changed.
\<close>

lemma suspend_unsuspend_roundtrip:
  assumes "suspendUser g deps parse caller rawID reason now wd = (Inr r, wd1)"
    and "unsuspendUser g' deps parse caller' rawID now' wd1 = (Inr r', wd2)"
    and "sd_Users deps = UserPostgres" and "users_ok (wd_users wd)"
    and "u \<in> set (wd_users wd)" and "us_ID u = ar_ID r" and "us_Status u = UserStatusActive"
  shows "ar_Status r' = UserStatusActive \<and>
    wd_users wd2 = map (\<lambda>v. if us_ID v = ar_ID r then v\<lparr>us_UpdatedAt := now'\<rparr> else v) (wd_users wd)"
  using assms(1,3,4)
proof (cases rule: suspendUser_cases)
  case (already i v)
  then have "u = v" using user_postgres.row_unique_ID [OF assms(4), of u v] assms(5,6) by simp
  then show ?thesis using already(6) assms(7) by simp
next
  case (suspended i v synced idp x ev)
  then have i: "i = ar_ID r" and t: "wd_users wd1 = with_status (wd_users wd) i UserStatusSuspended now" by simp_all
  let ?u = "u\<lparr>us_Status := UserStatusSuspended, us_UpdatedAt := now\<rparr>"
  have "?u \<in> set (wd_users wd1)" unfolding t by (rule in_with_status) (use assms(5,6) i in simp_all)
  then have un: "ar_Status r' = UserStatusActive \<and> wd_users wd2 = with_status (wd_users wd1) i UserStatusActive now'"
    using unsuspendUser_suspended [OF assms(2,3) _ suspended(1), of ?u] assms(6) i t with_status_ok [OF assms(4)] by simp
  have "with_status (wd_users wd1) i UserStatusActive now' =
      map (\<lambda>v. if us_ID v = i then v\<lparr>us_Status := UserStatusActive, us_UpdatedAt := now'\<rparr> else v) (wd_users wd)"
    by (simp add: t with_status_def)
  also have "\<dots> = map (\<lambda>v. if us_ID v = i then v\<lparr>us_UpdatedAt := now'\<rparr> else v) (wd_users wd)"
  proof (rule map_cong [OF refl])
    fix v
    assume v: "v \<in> set (wd_users wd)"
    show "(if us_ID v = i then v\<lparr>us_Status := UserStatusActive, us_UpdatedAt := now'\<rparr> else v) =
        (if us_ID v = i then v\<lparr>us_UpdatedAt := now'\<rparr> else v)"
    proof (cases "us_ID v = i")
      case True
      then have "us_Status v = UserStatusActive"
        using user_postgres.row_unique_ID [OF assms(4), of u v] assms(5,6,7) v i by simp
      then show ?thesis by (cases v) simp
    qed simp
  qed
  finally show ?thesis using un i by simp
qed simp_all

lemma sample_unsuspension:
  "\<exists>wd2. unsuspendUser no_enforcer sample_deps (\<lambda>_. Some 7) operator ''7'' 11
     (sample_world\<lparr>wd_users := [active_row\<lparr>us_Status := UserStatusSuspended, us_UpdatedAt := 9\<rparr>],
        wd_audit := [auditAccountAction uuid_hex operator ''admin.account.suspended'' 7 False True []]\<rparr>) =
     (Inr \<lparr>ar_ID = 7, ar_Status = UserStatusActive, ar_IdentitySynced = False\<rparr>, wd2)"
  by (simp add: unsuspendUser_def guard_check_def no_enforcer_def parseUUID_def
      sample_deps_def sample_world_def UserPostgres_def GetByID_def active_row_def User_zero_def
      syncIdentityEnabled_def SetStatus_def update_user_def)

lemma suspend_unsuspend_example:
  "\<exists>wd1 r' wd2. unsuspendUser no_enforcer sample_deps (\<lambda>_. Some 7) operator ''7'' 11 wd1 = (Inr r', wd2) \<and>
     wd_users wd2 = [active_row\<lparr>us_UpdatedAt := 11\<rparr>]"
proof -
  obtain wd2 where un: "unsuspendUser no_enforcer sample_deps (\<lambda>_. Some 7) operator ''7'' 11
     (sample_world\<lparr>wd_users := [active_row\<lparr>us_Status := UserStatusSuspended, us_UpdatedAt := 9\<rparr>],
        wd_audit := [auditAccountAction uuid_hex operator ''admin.account.suspended'' 7 False True []]\<rparr>) =
     (Inr \<lparr>ar_ID = 7, ar_Status = UserStatusActive, ar_IdentitySynced = False\<rparr>, wd2)"
    using sample_unsuspension by blast
  have "sd_Users sample_deps = UserPostgres" "users_ok (wd_users sample_world)"
    "active_row \<in> set (wd_users sample_world)" "us_ID active_row = 7" "us_Status active_row = UserStatusActive"
    by (simp_all add: sample_deps_def sample_world_def users_ok_def active_row_def)
  from suspend_unsuspend_roundtrip [OF sample_suspension un this(1-3)] this(4,5)
  have "wd_users wd2 = [active_row\<lparr>us_UpdatedAt := 11\<rparr>]" by (simp add: sample_world_def)
  then show ?thesis using un by blast
qed

text \<open>
  A suspended account is locked out of every authenticated surface: after a successful suspension
  of an active account, whoever is authenticated as its subject, by a session or by a token that still
  verifies, is answered 403 \<open>account_suspended\<close> by the protected, the optional and the profile-setup
  chain alike, and the store stays as it is.
\<close>

lemma suspended_account_locked_out:
  assumes "suspendUser g deps parse caller rawID reason now wd = (Inr r, wd')"
    and "sd_Users deps = UserPostgres" and "users_ok (wd_users wd)"
    and "u \<in> set (wd_users wd)" and "us_ID u = ar_ID r" and "us_KeycloakSub u \<noteq> []"
    and "am_repo m = Some UserPostgres" and "authenticated_as m header c (us_KeycloakSub u) roles"
    and "chain \<in> {Protected m w header, Optional m w header, SetupAllowed m w header}"
  shows "run_chain chain (wd_users wd') c =
    (Reply (newAPIError 403 ''account_suspended'' ''this account has been suspended'' []), wd_users wd')"
proof -
  obtain v where v: "v \<in> set (wd_users wd')" "us_KeycloakSub v = us_KeycloakSub u" "us_Status v = UserStatusSuspended"
    "users_ok (wd_users wd')"
    using assms(1-3)
  proof (cases rule: suspendUser_cases)
    case (already i x)
    then have "u = x" using user_postgres.row_unique_ID [OF assms(3), of u x] assms(4,5) by simp
    then show thesis using already(6,8) that [of u] assms(3,4) by simp
  next
    case (suspended i x synced idp xs ev)
    then have "wd_users wd' = with_status (wd_users wd) i UserStatusSuspended now" "i = us_ID u" using assms(5) by simp_all
    then show thesis
      using that [of "u\<lparr>us_Status := UserStatusSuspended, us_UpdatedAt := now\<rparr>"] in_with_status [OF assms(4)]
        with_status_ok [OF assms(3)] by simp
  qed simp_all
  obtain c1 where c1: "makeHumaAuth (am_parse m) (am_verifier m) header c = Next c1"
    "makeHumaOptionalAuth (am_parse m) (am_verifier m) header c = Next c1" "u_Sub c1 = us_KeycloakSub u"
    by (rule authenticated_Next [OF assms(8)])
  have "resolveOrCreateUser UserPostgres w (wd_users wd') c1 = (Inr v, wd_users wd')"
    using user_postgres_up.resolve_existing [OF v(4), of v c1 w] v(1,2) c1(3) by simp
  then have "makeResolveUserMiddleware UserPostgres w (wd_users wd') c1 =
      (Reply (newAPIError 403 ''account_suspended'' ''this account has been suspended'' []), wd_users wd')"
    using assms(6) c1(3) v(3) by (simp add: makeResolveUserMiddleware_def)
  then have res: "makeResolveUserMiddleware UserPostgres w (wd_users wd') c1 =
      (Reply (newAPIError 403 ''account_suspended'' ''this account has been suspended'' []), wd_users wd')"
    "makeOptionalResolveUserMiddleware UserPostgres w (wd_users wd') c1 =
      (Reply (newAPIError 403 ''account_suspended'' ''this account has been suspended'' []), wd_users wd')"
    using assms(6) c1(3) by (simp_all add: makeOptionalResolveUserMiddleware_def)
  from assms(9) show ?thesis
    by (elim insertE emptyE)
      (simp_all add: Protected_def Optional_def SetupAllowed_def assms(7) pure_mw_def c1(1,2) res)
qed

lemma sample_authenticated: "authenticated_as sample_mws ''Bearer t'' auth_User_zero ''sub-1'' [''admin'']"
  by (simp add: authenticated_as_def sample_mws_def BearerToken_def ascii_lower_def trimSpace_def is_space_def
      auth_User_zero_def char_of_def bit_0)

lemma suspended_account_locked_out_example:
  "run_chain (Protected sample_mws race ''Bearer t'') [active_row\<lparr>us_Status := UserStatusSuspended, us_UpdatedAt := 9\<rparr>]
     auth_User_zero =
   (Reply (newAPIError 403 ''account_suspended'' ''this account has been suspended'' []),
    [active_row\<lparr>us_Status := UserStatusSuspended, us_UpdatedAt := 9\<rparr>])"
proof -
  have "sd_Users sample_deps = UserPostgres" "users_ok (wd_users sample_world)"
    "active_row \<in> set (wd_users sample_world)" "us_ID active_row = 7" "us_KeycloakSub active_row = ''sub-1''"
    "am_repo sample_mws = Some UserPostgres"
    by (simp_all add: sample_deps_def sample_world_def users_ok_def active_row_def sample_mws_def)
  from suspended_account_locked_out [OF sample_suspension this(1-3) _ _ this(6), where w = race and
      chain = "Protected sample_mws race ''Bearer t''" and c = auth_User_zero and header = "''Bearer t''" and roles = "[''admin'']"]
    this(4,5) sample_authenticated
  show ?thesis by simp
qed

end
