(* ===== verification/Database.thy ===== *)
theory Database
  imports UserRepo
begin

text \<open>
  The relational store shared by the repositories: one list of rows per table of the migrations, the
  foreign keys as an invariant, transactions (\<open>RunInTx\<close> of \<open>src/internal/db/pool.go\<close>), and the delete
  statements with the referential actions the migrations declare: \<open>CASCADE\<close> removes the referencing rows,
  \<open>SET NULL\<close> clears the reference, and without an action a referenced row cannot be deleted.
\<close>

record SpecimenCollectorRow =
  sc_SpecimenID :: uuid
  sc_CollectorID :: uuid
  sc_Position :: int

record QRSheetSpecimenRow =
  qr_ID :: uuid
  qr_SheetID :: uuid
  qr_SpecimenID :: uuid
  qr_Position :: int
  qr_AddedAt :: time

record Share =
  sh_ID :: uuid
  sh_ResourceType :: string
  sh_ResourceID :: uuid
  sh_SharedBy :: uuid
  sh_SharedWith :: uuid

record database =
  db_users :: users
  db_specimens :: "Specimen list"
  db_collectors :: "Collector list"
  db_files :: "File list"
  db_specimen_collectors :: "SpecimenCollectorRow list"
  db_photos :: "Photo list"
  db_journal :: "JournalEntry list"
  db_journal_files :: "JournalEntryFile list"
  db_species :: "MineralSpecies list"
  db_qr_sheets :: "QRSheet list"
  db_qr_specimens :: "QRSheetSpecimenRow list"
  db_shares :: "Share list"

definition empty_database :: database where
  "empty_database = \<lparr>db_users = [], db_specimens = [], db_collectors = [], db_files = [],
     db_specimen_collectors = [], db_photos = [], db_journal = [], db_journal_files = [], db_species = [],
     db_qr_sheets = [], db_qr_specimens = [], db_shares = []\<rparr>"

section \<open>Foreign keys\<close>

text \<open>\<open>refs f xs g ys\<close>: every reference \<open>f x\<close> of a row of \<open>xs\<close> is the key of a row of \<open>ys\<close>.\<close>

definition refs :: "('a \<Rightarrow> uuid) \<Rightarrow> 'a list \<Rightarrow> ('b \<Rightarrow> uuid) \<Rightarrow> 'b list \<Rightarrow> bool" where
  "refs f xs g ys \<longleftrightarrow> (\<forall>x\<in>set xs. f x \<in> g ` set ys)"

definition main_image_refs :: "Specimen list \<Rightarrow> File list \<Rightarrow> bool" where
  "main_image_refs xs ys \<longleftrightarrow> (\<forall>x\<in>set xs. case sp_MainImageID x of None \<Rightarrow> True | Some i \<Rightarrow> i \<in> fi_ID ` set ys)"

definition fk_ok :: "database \<Rightarrow> bool" where
  "fk_ok d \<longleftrightarrow>
     refs sp_AuthorID (db_specimens d) us_ID (db_users d) \<and>
     refs co_AuthorID (db_collectors d) us_ID (db_users d) \<and>
     refs je_AuthorID (db_journal d) us_ID (db_users d) \<and>
     refs fi_UploadedBy (db_files d) us_ID (db_users d) \<and>
     refs ms_AuthorID (db_species d) us_ID (db_users d) \<and>
     refs qs_UserID (db_qr_sheets d) us_ID (db_users d) \<and>
     refs sh_SharedBy (db_shares d) us_ID (db_users d) \<and>
     refs sh_SharedWith (db_shares d) us_ID (db_users d) \<and>
     refs sc_SpecimenID (db_specimen_collectors d) sp_ID (db_specimens d) \<and>
     refs sc_CollectorID (db_specimen_collectors d) co_ID (db_collectors d) \<and>
     refs ph_SpecimenID (db_photos d) sp_ID (db_specimens d) \<and>
     refs ph_FileID (db_photos d) fi_ID (db_files d) \<and>
     refs je_SpecimenID (db_journal d) sp_ID (db_specimens d) \<and>
     refs jf_EntryID (db_journal_files d) je_ID (db_journal d) \<and>
     refs jf_FileID (db_journal_files d) fi_ID (db_files d) \<and>
     refs qr_SheetID (db_qr_specimens d) qs_ID (db_qr_sheets d) \<and>
     refs qr_SpecimenID (db_qr_specimens d) sp_ID (db_specimens d) \<and>
     main_image_refs (db_specimens d) (db_files d)"

text \<open>Primary keys.\<close>

definition keys_ok :: "database \<Rightarrow> bool" where
  "keys_ok d \<longleftrightarrow> users_ok (db_users d) \<and> distinct (map sp_ID (db_specimens d)) \<and>
     distinct (map co_ID (db_collectors d)) \<and> distinct (map fi_ID (db_files d)) \<and>
     distinct (map ph_ID (db_photos d)) \<and> distinct (map je_ID (db_journal d)) \<and>
     distinct (map ms_ID (db_species d)) \<and> distinct (map qs_ID (db_qr_sheets d)) \<and>
     distinct (map sh_ID (db_shares d))"

section \<open>Transactions\<close>

text \<open>
  A transaction commits the whole effect of its body or, on an error of its own, of begin or of commit,
  nothing. Whether begin and commit succeed is the connection's.
\<close>

record tx_env =
  tx_begin :: "string option"
  tx_commit :: "string option"

definition tx_up :: tx_env where
  "tx_up = \<lparr>tx_begin = None, tx_commit = None\<rparr>"

definition RunInTx ::
  "tx_env \<Rightarrow> (repo_error \<Rightarrow> 'e) \<Rightarrow> (database \<Rightarrow> 'e + 'a \<times> database) \<Rightarrow> database \<Rightarrow> ('e + 'a) \<times> database" where
  "RunInTx env wrap fn d =
     (case tx_begin env of
        Some e \<Rightarrow> (Inl (wrap (Driver e)), d)
      | None \<Rightarrow>
          (case fn d of
             Inl e \<Rightarrow> (Inl e, d)
           | Inr (x, d') \<Rightarrow>
               (case tx_commit env of Some e \<Rightarrow> (Inl (wrap (Driver e)), d) | None \<Rightarrow> (Inr x, d'))))"

lemma RunInTx_error: "RunInTx env wrap fn d = (Inl e, d') \<Longrightarrow> d' = d"
  by (auto simp: RunInTx_def split: option.splits sum.splits prod.splits)

lemma RunInTx_ok: "RunInTx env wrap fn d = (Inr x, d') \<longleftrightarrow> env = tx_up \<and> fn d = Inr (x, d')"
  by (cases env) (auto simp: RunInTx_def tx_up_def split: option.splits sum.splits prod.splits)

section \<open>Deletes\<close>

text \<open>Each returns the number of rows deleted, or an error when a reference without an action remains.\<close>

definition delete_qr_sheets :: "(QRSheet \<Rightarrow> bool) \<Rightarrow> database \<Rightarrow> repo_error + nat \<times> database" where
  "delete_qr_sheets P d =
     (let gone = qs_ID ` set (filter P (db_qr_sheets d)) in
      Inr (length (filter P (db_qr_sheets d)),
           d\<lparr>db_qr_sheets := filter (\<lambda>q. \<not> P q) (db_qr_sheets d),
             db_qr_specimens := filter (\<lambda>r. qr_SheetID r \<notin> gone) (db_qr_specimens d)\<rparr>))"

definition delete_specimens :: "(Specimen \<Rightarrow> bool) \<Rightarrow> database \<Rightarrow> repo_error + nat \<times> database" where
  "delete_specimens P d =
     (let gone = sp_ID ` set (filter P (db_specimens d));
          journal = filter (\<lambda>e. je_SpecimenID e \<in> gone) (db_journal d) in
      Inr (length (filter P (db_specimens d)),
           d\<lparr>db_specimens := filter (\<lambda>s. \<not> P s) (db_specimens d),
             db_photos := filter (\<lambda>p. ph_SpecimenID p \<notin> gone) (db_photos d),
             db_journal := filter (\<lambda>e. je_SpecimenID e \<notin> gone) (db_journal d),
             db_journal_files := filter (\<lambda>f. jf_EntryID f \<notin> je_ID ` set journal) (db_journal_files d),
             db_specimen_collectors := filter (\<lambda>r. sc_SpecimenID r \<notin> gone) (db_specimen_collectors d),
             db_qr_specimens := filter (\<lambda>r. qr_SpecimenID r \<notin> gone) (db_qr_specimens d)\<rparr>))"

definition clear_main_image :: "uuid set \<Rightarrow> Specimen \<Rightarrow> Specimen" where
  "clear_main_image gone s =
     (case sp_MainImageID s of None \<Rightarrow> s | Some i \<Rightarrow> if i \<in> gone then s\<lparr>sp_MainImageID := None\<rparr> else s)"

definition fk_violation :: repo_error where
  "fk_violation = Driver ''foreign_key_violation''"

definition delete_files :: "(File \<Rightarrow> bool) \<Rightarrow> database \<Rightarrow> repo_error + nat \<times> database" where
  "delete_files P d =
     (let gone = fi_ID ` set (filter P (db_files d)) in
      if (\<exists>p\<in>set (db_photos d). ph_FileID p \<in> gone) \<or> (\<exists>f\<in>set (db_journal_files d). jf_FileID f \<in> gone)
      then Inl fk_violation
      else Inr (length (filter P (db_files d)),
                d\<lparr>db_files := filter (\<lambda>f. \<not> P f) (db_files d),
                  db_specimens := map (clear_main_image gone) (db_specimens d)\<rparr>))"

definition delete_collectors :: "(Collector \<Rightarrow> bool) \<Rightarrow> database \<Rightarrow> repo_error + nat \<times> database" where
  "delete_collectors P d =
     (let gone = co_ID ` set (filter P (db_collectors d)) in
      if \<exists>r\<in>set (db_specimen_collectors d). sc_CollectorID r \<in> gone then Inl fk_violation
      else Inr (length (filter P (db_collectors d)),
                d\<lparr>db_collectors := filter (\<lambda>c. \<not> P c) (db_collectors d)\<rparr>))"

definition user_referenced :: "database \<Rightarrow> uuid \<Rightarrow> bool" where
  "user_referenced d i \<longleftrightarrow>
     i \<in> set (map sp_AuthorID (db_specimens d)) \<or> i \<in> set (map co_AuthorID (db_collectors d)) \<or>
     i \<in> set (map je_AuthorID (db_journal d)) \<or> i \<in> set (map fi_UploadedBy (db_files d)) \<or>
     i \<in> set (map ms_AuthorID (db_species d)) \<or> i \<in> set (map qs_UserID (db_qr_sheets d))"

definition delete_user :: "uuid \<Rightarrow> database \<Rightarrow> repo_error + nat \<times> database" where
  "delete_user i d =
     (if i \<notin> set (map us_ID (db_users d)) then Inr (0, d)
      else if user_referenced d i then Inl fk_violation
      else Inr (length (filter (\<lambda>u. us_ID u = i) (db_users d)),
                d\<lparr>db_users := filter (\<lambda>u. us_ID u \<noteq> i) (db_users d),
                  db_shares := filter (\<lambda>s. sh_SharedBy s \<noteq> i \<and> sh_SharedWith s \<noteq> i) (db_shares d)\<rparr>))"

section \<open>Deletes keep the foreign keys\<close>

lemma refs_keep: "refs f xs g ys \<Longrightarrow> refs f (filter Q xs) g ys"
  by (simp add: refs_def)

lemma refs_cascade:
  "refs f xs g ys \<Longrightarrow> refs f (filter (\<lambda>x. f x \<notin> g ` set (filter P ys)) xs) g (filter (\<lambda>y. \<not> P y) ys)"
  by (fastforce simp: refs_def)

lemma refs_restrict:
  "refs f xs g ys \<Longrightarrow> \<forall>x\<in>set xs. f x \<notin> g ` set (filter P ys) \<Longrightarrow> refs f xs g (filter (\<lambda>y. \<not> P y) ys)"
  by (fastforce simp: refs_def)

lemma refs_map: "refs f xs g ys \<Longrightarrow> (\<And>x. f (h x) = f x) \<Longrightarrow> refs f (map h xs) g ys"
  by (simp add: refs_def)

lemma refs_map_right: "refs f xs g ys \<Longrightarrow> (\<And>y. g (h y) = g y) \<Longrightarrow> refs f xs g (map h ys)"
  by (simp add: refs_def image_image)

lemma main_image_keep: "main_image_refs xs ys \<Longrightarrow> main_image_refs (filter Q xs) ys"
  by (simp add: main_image_refs_def)

lemma clear_main_image_simps [simp]:
  "sp_ID (clear_main_image gone s) = sp_ID s" "sp_AuthorID (clear_main_image gone s) = sp_AuthorID s"
  by (simp_all add: clear_main_image_def split: option.splits)

lemma main_image_clear:
  "main_image_refs xs ys \<Longrightarrow>
     main_image_refs (map (clear_main_image (fi_ID ` set (filter P ys))) xs) (filter (\<lambda>y. \<not> P y) ys)"
  by (fastforce simp: main_image_refs_def clear_main_image_def split: option.splits)

lemmas refs_intros = refs_cascade refs_keep main_image_keep

lemma delete_qr_sheets_fk:
  assumes "delete_qr_sheets P d = Inr (n, d')" and "fk_ok d"
  shows "fk_ok d'"
proof -
  have d': "d' = d\<lparr>db_qr_sheets := filter (\<lambda>q. \<not> P q) (db_qr_sheets d),
      db_qr_specimens := filter (\<lambda>r. qr_SheetID r \<notin> qs_ID ` set (filter P (db_qr_sheets d))) (db_qr_specimens d)\<rparr>"
    using assms(1) by (simp add: delete_qr_sheets_def Let_def)
  show ?thesis
    using assms(2) unfolding d' fk_ok_def by (simp add: refs_intros del: set_filter)
qed

lemma delete_specimens_fk:
  assumes "delete_specimens P d = Inr (n, d')" and "fk_ok d"
  shows "fk_ok d'"
proof -
  define gone where "gone = sp_ID ` set (filter P (db_specimens d))"
  have d': "d' = d\<lparr>db_specimens := filter (\<lambda>s. \<not> P s) (db_specimens d),
      db_photos := filter (\<lambda>p. ph_SpecimenID p \<notin> sp_ID ` set (filter P (db_specimens d))) (db_photos d),
      db_journal := filter (\<lambda>e. \<not> je_SpecimenID e \<in> gone) (db_journal d),
      db_journal_files := filter (\<lambda>f. jf_EntryID f \<notin> je_ID ` set (filter (\<lambda>e. je_SpecimenID e \<in> gone) (db_journal d)))
        (db_journal_files d),
      db_specimen_collectors := filter (\<lambda>r. sc_SpecimenID r \<notin> sp_ID ` set (filter P (db_specimens d))) (db_specimen_collectors d),
      db_qr_specimens := filter (\<lambda>r. qr_SpecimenID r \<notin> sp_ID ` set (filter P (db_specimens d))) (db_qr_specimens d)\<rparr>"
    using assms(1) by (simp add: delete_specimens_def Let_def gone_def)
  have je: "refs je_SpecimenID (db_journal d) sp_ID (db_specimens d) \<Longrightarrow>
      refs je_SpecimenID (filter (\<lambda>e. \<not> je_SpecimenID e \<in> gone) (db_journal d)) sp_ID (filter (\<lambda>s. \<not> P s) (db_specimens d))"
    unfolding gone_def by (rule refs_cascade)
  show ?thesis
    using assms(2) unfolding d' fk_ok_def by (simp add: je refs_intros del: set_filter)
qed

lemma delete_files_fk:
  assumes "delete_files P d = Inr (n, d')" and "fk_ok d"
  shows "fk_ok d'"
proof -
  have d': "d' = d\<lparr>db_files := filter (\<lambda>f. \<not> P f) (db_files d),
      db_specimens := map (clear_main_image (fi_ID ` set (filter P (db_files d)))) (db_specimens d)\<rparr>"
    and restrict: "\<forall>p\<in>set (db_photos d). ph_FileID p \<notin> fi_ID ` set (filter P (db_files d))"
      "\<forall>f\<in>set (db_journal_files d). jf_FileID f \<notin> fi_ID ` set (filter P (db_files d))"
    using assms(1) by (auto simp: delete_files_def Let_def split: if_splits)
  show ?thesis
    using assms(2) unfolding d' fk_ok_def
    by (simp add: main_image_clear refs_restrict [OF _ restrict(1)] refs_restrict [OF _ restrict(2)] refs_keep
        refs_map refs_map_right del: set_filter)
qed

lemma delete_collectors_fk:
  assumes "delete_collectors P d = Inr (n, d')" and "fk_ok d"
  shows "fk_ok d'"
proof -
  have d': "d' = d\<lparr>db_collectors := filter (\<lambda>c. \<not> P c) (db_collectors d)\<rparr>"
    and restrict: "\<forall>r\<in>set (db_specimen_collectors d). sc_CollectorID r \<notin> co_ID ` set (filter P (db_collectors d))"
    using assms(1) by (auto simp: delete_collectors_def Let_def split: if_splits)
  show ?thesis
    using assms(2) unfolding d' fk_ok_def
    by (simp add: refs_restrict [OF _ restrict] refs_keep del: set_filter)
qed

lemma refs_drop_user:
  "refs f xs us_ID us \<Longrightarrow> i \<notin> set (map f xs) \<Longrightarrow> refs f xs us_ID (filter (\<lambda>u. us_ID u \<noteq> i) us)"
proof -
  assume r: "refs f xs us_ID us" and i: "i \<notin> set (map f xs)"
  show ?thesis
    unfolding refs_def
  proof
    fix x
    assume x: "x \<in> set xs"
    then obtain u where "u \<in> set us" "f x = us_ID u" using r by (auto simp: refs_def)
    moreover have "f x \<noteq> i" using i x by auto
    ultimately show "f x \<in> us_ID ` set (filter (\<lambda>u. us_ID u \<noteq> i) us)" by simp
  qed
qed

lemma delete_user_fk:
  assumes "delete_user i d = Inr (n, d')" and "fk_ok d"
  shows "fk_ok d'"
proof (cases "i \<in> set (map us_ID (db_users d))")
  case False
  then show ?thesis using assms by (simp add: delete_user_def)
next
  case True
  then have d': "d' = d\<lparr>db_users := filter (\<lambda>u. us_ID u \<noteq> i) (db_users d),
      db_shares := filter (\<lambda>s. sh_SharedBy s \<noteq> i \<and> sh_SharedWith s \<noteq> i) (db_shares d)\<rparr>"
    and free: "\<not> user_referenced d i"
    using assms(1) by (auto simp: delete_user_def split: if_splits)
  have sh: "refs sh_SharedBy (filter (\<lambda>s. sh_SharedBy s \<noteq> i \<and> sh_SharedWith s \<noteq> i) (db_shares d)) us_ID
        (filter (\<lambda>u. us_ID u \<noteq> i) (db_users d))"
      "refs sh_SharedWith (filter (\<lambda>s. sh_SharedBy s \<noteq> i \<and> sh_SharedWith s \<noteq> i) (db_shares d)) us_ID
        (filter (\<lambda>u. us_ID u \<noteq> i) (db_users d))"
    using assms(2) by (fastforce simp: fk_ok_def refs_def)+
  show ?thesis
    using assms(2) free sh unfolding d' fk_ok_def user_referenced_def
    by (simp add: refs_drop_user del: set_filter)
qed

end
