(* ===== verification/AccountErase.thy ===== *)
theory AccountErase
  imports Database AdminSuspend
begin

text \<open>
  Account erasure: the transactional cascade of \<open>src/internal/db/account_erase_postgres.go\<close> on the
  relational store, and the handler of \<open>src/internal/api/account.go\<close> that runs it and then cleans up
  outside the database. Object store, sessions and identity provider are services whose calls may fail
  and change their own state either way.
\<close>

datatype erase_error = ErrStubUserUndeletable | EraseRepo repo_error

section \<open>The cascade\<close>

definition collectFileKeys :: "database \<Rightarrow> uuid \<Rightarrow> string list" where
  "collectFileKeys d userID = map fi_S3Key (filter (\<lambda>f. fi_UploadedBy f = userID) (db_files d))"

text \<open>The join of photos and specimens, counted.\<close>

definition count_photos :: "database \<Rightarrow> uuid \<Rightarrow> nat" where
  "count_photos d i =
     sum_list (map (\<lambda>p. length (filter (\<lambda>s. sp_ID s = ph_SpecimenID p \<and> sp_AuthorID s = i) (db_specimens d))) (db_photos d))"

definition reassign_species :: "uuid \<Rightarrow> uuid \<Rightarrow> database \<Rightarrow> repo_error + nat \<times> database" where
  "reassign_species target i d =
     (let mine = filter (\<lambda>m. ms_AuthorID m = i) (db_species d) in
      if mine \<noteq> [] \<and> target \<notin> set (map us_ID (db_users d)) then Inl fk_violation
      else Inr (length mine,
                d\<lparr>db_species := map (\<lambda>m. if ms_AuthorID m = i then m\<lparr>ms_AuthorID := target\<rparr> else m) (db_species d)\<rparr>))"

definition erase_cascade :: "uuid \<Rightarrow> database \<Rightarrow> repo_error + AccountErasure \<times> database" where
  "erase_cascade i d =
     (if i \<notin> set (map us_ID (db_users d)) then Inl (Domain ErrUserNotFound)
      else
        let keys = collectFileKeys d i;
            photos = count_photos d i;
            journal = length (filter (\<lambda>e. je_AuthorID e = i) (db_journal d))
        in sum_bind (delete_qr_sheets (\<lambda>q. qs_UserID q = i) d) (\<lambda>(sheets, d1).
           sum_bind (delete_specimens (\<lambda>s. sp_AuthorID s = i) d1) (\<lambda>(specimens, d2).
           sum_bind (delete_files (\<lambda>f. fi_UploadedBy f = i) d2) (\<lambda>(files, d3).
           sum_bind (delete_collectors (\<lambda>c. co_AuthorID c = i) d3) (\<lambda>(collectors, d4).
           sum_bind (reassign_species (u_ID StubUser) i d4) (\<lambda>(species, d5).
           sum_bind (delete_user i d5) (\<lambda>(n, d6).
             if n = 0 then Inl (Domain ErrUserNotFound)
             else Inr (\<lparr>ae_FreedObjectKeys = keys, ae_Specimens = specimens, ae_Photos = photos,
                        ae_JournalEntries = journal, ae_Collectors = collectors, ae_Files = files,
                        ae_QRSheets = sheets, ae_ReassignedSpecies = species\<rparr>, d6))))))))"

definition Erase :: "tx_env \<Rightarrow> uuid \<Rightarrow> database \<Rightarrow> (erase_error + AccountErasure) \<times> database" where
  "Erase env i d =
     (if i = u_ID StubUser then (Inl ErrStubUserUndeletable, d)
      else RunInTx env EraseRepo (\<lambda>d. map_sum EraseRepo id (erase_cascade i d)) d)"

section \<open>What the cascade leaves\<close>

definition own_specimens :: "database \<Rightarrow> uuid \<Rightarrow> uuid set" where
  "own_specimens d i = sp_ID ` set (filter (\<lambda>s. sp_AuthorID s = i) (db_specimens d))"

definition own_files :: "database \<Rightarrow> uuid \<Rightarrow> uuid set" where
  "own_files d i = fi_ID ` set (filter (\<lambda>f. fi_UploadedBy f = i) (db_files d))"

text \<open>The tables after a completed erasure, table by table.\<close>

definition erased :: "uuid \<Rightarrow> database \<Rightarrow> database" where
  "erased i d =
     \<lparr>db_users = filter (\<lambda>u. us_ID u \<noteq> i) (db_users d),
      db_specimens = map (clear_main_image (own_files d i)) (filter (\<lambda>s. sp_AuthorID s \<noteq> i) (db_specimens d)),
      db_collectors = filter (\<lambda>c. co_AuthorID c \<noteq> i) (db_collectors d),
      db_files = filter (\<lambda>f. fi_UploadedBy f \<noteq> i) (db_files d),
      db_specimen_collectors = filter (\<lambda>r. sc_SpecimenID r \<notin> own_specimens d i) (db_specimen_collectors d),
      db_photos = filter (\<lambda>p. ph_SpecimenID p \<notin> own_specimens d i) (db_photos d),
      db_journal = filter (\<lambda>e. je_SpecimenID e \<notin> own_specimens d i) (db_journal d),
      db_journal_files = filter (\<lambda>f. jf_EntryID f \<notin>
          je_ID ` set (filter (\<lambda>e. je_SpecimenID e \<in> own_specimens d i) (db_journal d))) (db_journal_files d),
      db_species = map (\<lambda>m. if ms_AuthorID m = i then m\<lparr>ms_AuthorID := u_ID StubUser\<rparr> else m) (db_species d),
      db_qr_sheets = filter (\<lambda>q. qs_UserID q \<noteq> i) (db_qr_sheets d),
      db_qr_specimens = filter (\<lambda>r. qr_SpecimenID r \<notin> own_specimens d i)
        (filter (\<lambda>r. qr_SheetID r \<notin> qs_ID ` set (filter (\<lambda>q. qs_UserID q = i) (db_qr_sheets d))) (db_qr_specimens d)),
      db_shares = filter (\<lambda>s. sh_SharedBy s \<noteq> i \<and> sh_SharedWith s \<noteq> i) (db_shares d)\<rparr>"

text \<open>
  What blocks an erasure: the user's files or collectors in use on another user's specimen, the user's
  journal entries there, or species to reassign without the system account.
\<close>

definition erasable :: "database \<Rightarrow> uuid \<Rightarrow> bool" where
  "erasable d i \<longleftrightarrow>
     (\<forall>p\<in>set (db_photos (erased i d)). ph_FileID p \<notin> own_files d i) \<and>
     (\<forall>f\<in>set (db_journal_files (erased i d)). jf_FileID f \<notin> own_files d i) \<and>
     (\<forall>r\<in>set (db_specimen_collectors (erased i d)).
        sc_CollectorID r \<notin> co_ID ` set (filter (\<lambda>c. co_AuthorID c = i) (db_collectors d))) \<and>
     (\<forall>e\<in>set (db_journal (erased i d)). je_AuthorID e \<noteq> i) \<and>
     ((\<forall>m\<in>set (db_species d). ms_AuthorID m \<noteq> i) \<or> u_ID StubUser \<in> us_ID ` set (db_users d))"

lemma erase_cascade_iff:
  assumes "i \<noteq> u_ID StubUser"
  shows "erase_cascade i d =
    (if i \<notin> us_ID ` set (db_users d) then Inl (Domain ErrUserNotFound)
     else if \<not> erasable d i then Inl fk_violation
     else Inr (\<lparr>ae_FreedObjectKeys = collectFileKeys d i,
                ae_Specimens = length (filter (\<lambda>s. sp_AuthorID s = i) (db_specimens d)),
                ae_Photos = count_photos d i,
                ae_JournalEntries = length (filter (\<lambda>e. je_AuthorID e = i) (db_journal d)),
                ae_Collectors = length (filter (\<lambda>c. co_AuthorID c = i) (db_collectors d)),
                ae_Files = length (filter (\<lambda>f. fi_UploadedBy f = i) (db_files d)),
                ae_QRSheets = length (filter (\<lambda>q. qs_UserID q = i) (db_qr_sheets d)),
                ae_ReassignedSpecies = length (filter (\<lambda>m. ms_AuthorID m = i) (db_species d))\<rparr>, erased i d))"
proof (cases "i \<in> us_ID ` set (db_users d)")
  case False
  then show ?thesis by (simp add: erase_cascade_def)
next
  case True
  define d1 where "d1 = d\<lparr>db_qr_sheets := db_qr_sheets (erased i d),
    db_qr_specimens := filter (\<lambda>r. qr_SheetID r \<notin> qs_ID ` set (filter (\<lambda>q. qs_UserID q = i) (db_qr_sheets d))) (db_qr_specimens d)\<rparr>"
  define d2 where "d2 = d1\<lparr>db_specimens := filter (\<lambda>s. sp_AuthorID s \<noteq> i) (db_specimens d),
    db_photos := db_photos (erased i d), db_journal := db_journal (erased i d),
    db_journal_files := db_journal_files (erased i d),
    db_specimen_collectors := db_specimen_collectors (erased i d), db_qr_specimens := db_qr_specimens (erased i d)\<rparr>"
  define d3 where "d3 = d2\<lparr>db_files := db_files (erased i d), db_specimens := db_specimens (erased i d)\<rparr>"
  define d4 where "d4 = d3\<lparr>db_collectors := db_collectors (erased i d)\<rparr>"
  define d5 where "d5 = d4\<lparr>db_species := db_species (erased i d)\<rparr>"
  have s1: "delete_qr_sheets (\<lambda>q. qs_UserID q = i) d = Inr (length (filter (\<lambda>q. qs_UserID q = i) (db_qr_sheets d)), d1)"
    by (simp add: delete_qr_sheets_def Let_def d1_def erased_def)
  have s2: "delete_specimens (\<lambda>s. sp_AuthorID s = i) d1 =
      Inr (length (filter (\<lambda>s. sp_AuthorID s = i) (db_specimens d)), d2)"
    by (simp add: delete_specimens_def Let_def d1_def d2_def erased_def own_specimens_def)
  have s3: "delete_files (\<lambda>f. fi_UploadedBy f = i) d2 =
      (if (\<forall>p\<in>set (db_photos (erased i d)). ph_FileID p \<notin> own_files d i) \<and>
          (\<forall>f\<in>set (db_journal_files (erased i d)). jf_FileID f \<notin> own_files d i)
       then Inr (length (filter (\<lambda>f. fi_UploadedBy f = i) (db_files d)), d3) else Inl fk_violation)"
    unfolding delete_files_def Let_def d3_def
    by (simp add: d2_def d1_def own_files_def [symmetric] del: set_filter) (auto simp: erased_def own_files_def)
  have s4: "delete_collectors (\<lambda>c. co_AuthorID c = i) d3 =
      (if \<forall>r\<in>set (db_specimen_collectors (erased i d)).
          sc_CollectorID r \<notin> co_ID ` set (filter (\<lambda>c. co_AuthorID c = i) (db_collectors d))
       then Inr (length (filter (\<lambda>c. co_AuthorID c = i) (db_collectors d)), d4) else Inl fk_violation)"
    by (simp add: delete_collectors_def Let_def d4_def) (simp add: d3_def d2_def d1_def erased_def)
  have s5: "reassign_species (u_ID StubUser) i d4 =
      (if (\<forall>m\<in>set (db_species d). ms_AuthorID m \<noteq> i) \<or> u_ID StubUser \<in> us_ID ` set (db_users d)
       then Inr (length (filter (\<lambda>m. ms_AuthorID m = i) (db_species d)), d5) else Inl fk_violation)"
    by (simp add: reassign_species_def Let_def d5_def filter_empty_conv) (simp add: d4_def d3_def d2_def d1_def erased_def)
  have free: "user_referenced d5 i \<longleftrightarrow> (\<exists>e\<in>set (db_journal (erased i d)). je_AuthorID e = i)"
    using assms by (auto simp: user_referenced_def d5_def d4_def d3_def d2_def d1_def erased_def split: if_splits)
  have here: "i \<in> set (map us_ID (db_users d5))" "db_users d5 = db_users d"
    using True by (auto simp: d5_def d4_def d3_def d2_def d1_def)
  have s6: "delete_user i d5 =
      (if \<exists>e\<in>set (db_journal (erased i d)). je_AuthorID e = i then Inl fk_violation
       else Inr (length (filter (\<lambda>u. us_ID u = i) (db_users d)), erased i d))"
    using here free by (simp add: delete_user_def) (simp add: d5_def d4_def d3_def d2_def d1_def erased_def)
  note s = s1 s2 s3 s4 s5 s6
  have ne: "filter (\<lambda>u. us_ID u = i) (db_users d) \<noteq> []" using True by (auto simp: filter_empty_conv)
  show ?thesis
  proof (cases "erasable d i")
    case e: True
    then show ?thesis
      using True ne unfolding erasable_def by (simp add: erase_cascade_def Let_def s)
  next
    case False
    then show ?thesis
      using True unfolding erasable_def by (auto simp: erase_cascade_def Let_def s)
  qed
qed

lemma reassign_species_fk:
  assumes "reassign_species target i d = Inr (n, d')" and "fk_ok d"
  shows "fk_ok d'"
proof -
  have d': "d' = d\<lparr>db_species := map (\<lambda>m. if ms_AuthorID m = i then m\<lparr>ms_AuthorID := target\<rparr> else m) (db_species d)\<rparr>"
    and "(\<forall>m\<in>set (db_species d). ms_AuthorID m \<noteq> i) \<or> target \<in> us_ID ` set (db_users d)"
    using assms(1) by (auto simp: reassign_species_def Let_def filter_empty_conv split: if_splits)
  moreover from assms(2) have "refs ms_AuthorID (db_species d) us_ID (db_users d)" by (simp add: fk_ok_def)
  ultimately have "refs ms_AuthorID (db_species d') us_ID (db_users d)" by (auto simp: refs_def)
  then show ?thesis using assms(2) d' by (simp add: fk_ok_def)
qed

lemma erase_cascade_fk:
  assumes "erase_cascade i d = Inr (out, d')" and "fk_ok d"
  shows "fk_ok d'"
proof -
  obtain n1 d1 n2 d2 n3 d3 n4 d4 n5 d5 n6 where s:
    "delete_qr_sheets (\<lambda>q. qs_UserID q = i) d = Inr (n1, d1)" "delete_specimens (\<lambda>s. sp_AuthorID s = i) d1 = Inr (n2, d2)"
    "delete_files (\<lambda>f. fi_UploadedBy f = i) d2 = Inr (n3, d3)" "delete_collectors (\<lambda>c. co_AuthorID c = i) d3 = Inr (n4, d4)"
    "reassign_species (u_ID StubUser) i d4 = Inr (n5, d5)" "delete_user i d5 = Inr (n6, d')"
    using assms(1) unfolding erase_cascade_def Let_def
    by (clarsimp simp: sum_bind_Inr simp del: Inl_Inr_False split: if_splits)
  have "fk_ok d1" by (rule delete_qr_sheets_fk [OF s(1) assms(2)])
  then have "fk_ok d2" by (rule delete_specimens_fk [OF s(2)])
  then have "fk_ok d3" by (rule delete_files_fk [OF s(3)])
  then have "fk_ok d4" by (rule delete_collectors_fk [OF s(4)])
  then have "fk_ok d5" by (rule reassign_species_fk [OF s(5)])
  then show ?thesis by (rule delete_user_fk [OF s(6)])
qed

lemma erased_simps:
  "db_users (erased i d) = filter (\<lambda>u. us_ID u \<noteq> i) (db_users d)"
  "db_files (erased i d) = filter (\<lambda>f. fi_UploadedBy f \<noteq> i) (db_files d)"
  "db_collectors (erased i d) = filter (\<lambda>c. co_AuthorID c \<noteq> i) (db_collectors d)"
  "db_photos (erased i d) = filter (\<lambda>p. ph_SpecimenID p \<notin> own_specimens d i) (db_photos d)"
  "db_journal (erased i d) = filter (\<lambda>e. je_SpecimenID e \<notin> own_specimens d i) (db_journal d)"
  "db_shares (erased i d) = filter (\<lambda>s. sh_SharedBy s \<noteq> i \<and> sh_SharedWith s \<noteq> i) (db_shares d)"
  by (simp_all add: erased_def)

lemma erasable_journal: "erasable d i \<Longrightarrow> \<forall>e\<in>set (db_journal (erased i d)). je_AuthorID e \<noteq> i"
  unfolding erasable_def by (elim conjE)

lemma erased_unreferenced:
  assumes "i \<noteq> u_ID StubUser" and "\<forall>e\<in>set (db_journal (erased i d)). je_AuthorID e \<noteq> i"
  shows "\<not> user_referenced (erased i d) i"
proof -
  have "i \<notin> set (map sp_AuthorID (db_specimens (erased i d)))" by (auto simp: erased_def)
  moreover have "i \<notin> set (map ms_AuthorID (db_species (erased i d)))"
    using assms(1) by (auto simp: erased_def split: if_splits)
  moreover have "i \<notin> set (map je_AuthorID (db_journal (erased i d)))" using assms(2) by auto
  moreover have "i \<notin> set (map qs_UserID (db_qr_sheets (erased i d)))" by (auto simp: erased_def)
  moreover have "i \<notin> set (map co_AuthorID (db_collectors (erased i d)))"
    "i \<notin> set (map fi_UploadedBy (db_files (erased i d)))" by (auto simp: erased_simps)
  ultimately show ?thesis by (simp add: user_referenced_def)
qed

section \<open>The handler\<close>

text \<open>What an erasure touches: the database, the object store, the sessions and the identity provider.\<close>

record ('o, 'x, 'i) account_world =
  aw_db :: database
  aw_objects :: 'o
  aw_sessions :: 'x
  aw_idp :: 'i
  aw_log :: "(uuid \<times> AccountErasure \<times> nat) list"

record ('o, 'x, 'i) AccountServiceDeps =
  ad_Storage :: "('o \<Rightarrow> string \<Rightarrow> string option \<times> 'o) option"
  ad_Sessions :: "('x \<Rightarrow> uuid \<Rightarrow> string option \<times> 'x) option"
  ad_Identity :: "('i \<Rightarrow> string \<Rightarrow> string option \<times> 'i) option"

definition accountDeleteConfirmation :: string where
  "accountDeleteConfirmation = ''DELETE''"

text \<open>The purge goes on after a failure and counts it.\<close>

fun purge :: "('o \<Rightarrow> string \<Rightarrow> string option \<times> 'o) \<Rightarrow> string list \<Rightarrow> 'o \<Rightarrow> nat \<times> 'o" where
  "purge del [] ob = (0, ob)"
| "purge del (k # ks) ob =
     (let (err, ob1) = del ob k; (n, ob2) = purge del ks ob1
      in (if err = None then n else Suc n, ob2))"

lemma purge_bound: "fst (purge del ks ob) \<le> length ks"
proof (induction ks arbitrary: ob)
  case (Cons k ks)
  have "fst (purge del ks (snd (del ob k))) \<le> length ks" by (rule Cons.IH)
  then show ?case by (simp add: split_beta Let_def)
qed simp

definition erase_error_reply :: "erase_error \<Rightarrow> apiError" where
  "erase_error_reply e =
     (if e = EraseRepo (Domain ErrUserNotFound) then newAPIError 404 ''user_not_found'' ''user record disappeared'' []
      else if e = ErrStubUserUndeletable then newAPIError 403 ''account_undeletable'' ''this account cannot be deleted'' []
      else newAPIError 500 ''internal_error'' ''account deletion failed'' [])"

definition account_delete ::
  "tx_env \<Rightarrow> ('o, 'x, 'i) AccountServiceDeps \<Rightarrow> auth_User \<Rightarrow> string \<Rightarrow> ('o, 'x, 'i) account_world \<Rightarrow>
   apiError option \<times> ('o, 'x, 'i) account_world" where
  "account_delete env deps u confirm wd =
     (if u_Sub u = [] \<or> u_ID u = uuid_Nil then (Some unauthorized, wd)
      else if confirm \<noteq> accountDeleteConfirmation then
        (Some (newAPIError 400 ''invalid_confirmation'' ''account deletion requires {\"confirm\":\"DELETE\"}''
                 [(''field'', ''confirm'')]), wd)
      else case Erase env (u_ID u) (aw_db wd) of
        (Inl e, d) \<Rightarrow> (Some (erase_error_reply e), wd\<lparr>aw_db := d\<rparr>)
      | (Inr res, d) \<Rightarrow>
          let (failures, objects) =
                (case ad_Storage deps of None \<Rightarrow> (0, aw_objects wd) | Some del \<Rightarrow> purge del (ae_FreedObjectKeys res) (aw_objects wd));
              sessions = (case ad_Sessions deps of None \<Rightarrow> aw_sessions wd | Some revoke \<Rightarrow> snd (revoke (aw_sessions wd) (u_ID u)));
              idp = (case ad_Identity deps of None \<Rightarrow> aw_idp wd | Some del \<Rightarrow> snd (del (aw_idp wd) (u_Sub u)))
          in (None, \<lparr>aw_db = d, aw_objects = objects, aw_sessions = sessions, aw_idp = idp,
                     aw_log = aw_log wd @ [(u_ID u, res, failures)]\<rparr>))"

section \<open>Properties\<close>

text \<open>
  C29. Erasure is decided up front and all or nothing: it refuses the system account, a missing user,
  and a user whose files, collectors or journal entries another user's specimen still holds, it fails
  when the transaction cannot begin or commit, and then the database is unchanged; in every other case it succeeds, and the tables are exactly the old ones
  less the user's rows and what hangs from the user's specimens, with the user's species reassigned
  to the system account and the audit summary counting the rows.
\<close>

theorem Erase_all_or_nothing:
  "Erase env i d =
    (if i = u_ID StubUser then (Inl ErrStubUserUndeletable, d)
     else if tx_begin env \<noteq> None then (Inl (EraseRepo (Driver (the (tx_begin env)))), d)
     else if i \<notin> us_ID ` set (db_users d) then (Inl (EraseRepo (Domain ErrUserNotFound)), d)
     else if \<not> erasable d i then (Inl (EraseRepo fk_violation), d)
     else if tx_commit env \<noteq> None then (Inl (EraseRepo (Driver (the (tx_commit env)))), d)
     else (Inr \<lparr>ae_FreedObjectKeys = collectFileKeys d i,
                ae_Specimens = length (filter (\<lambda>s. sp_AuthorID s = i) (db_specimens d)),
                ae_Photos = count_photos d i,
                ae_JournalEntries = length (filter (\<lambda>e. je_AuthorID e = i) (db_journal d)),
                ae_Collectors = length (filter (\<lambda>c. co_AuthorID c = i) (db_collectors d)),
                ae_Files = length (filter (\<lambda>f. fi_UploadedBy f = i) (db_files d)),
                ae_QRSheets = length (filter (\<lambda>q. qs_UserID q = i) (db_qr_sheets d)),
                ae_ReassignedSpecies = length (filter (\<lambda>m. ms_AuthorID m = i) (db_species d))\<rparr>, erased i d))"
  by (auto simp: Erase_def RunInTx_def erase_cascade_iff)

lemma Erase_success:
  assumes "Erase env i d = (Inr out, d')"
  shows "erase_cascade i d = Inr (out, d')" and "d' = erased i d" and "erasable d i" and "i \<noteq> u_ID StubUser"
proof -
  show ns: "i \<noteq> u_ID StubUser" using assms by (auto simp: Erase_def)
  show c: "erase_cascade i d = Inr (out, d')"
    using assms ns by (cases "erase_cascade i d") (auto simp: Erase_def RunInTx_ok)
  show "d' = erased i d" "erasable d i" using c erase_cascade_iff [OF ns, of d] by (auto split: if_splits)
qed

text \<open>
  C30. A completed erasure leaves no trace of the user and a consistent database: no table mentions
  the user's id any more, every foreign key still holds, every object key of the user's files is
  reported for purging, and another user's account, specimens (up to a cleared main image), files,
  collectors, photos and journal entries on specimens that are not the erased user's are all still there.
\<close>

theorem Erase_clean_and_consistent:
  assumes "Erase env i d = (Inr out, d')" and "fk_ok d"
  shows "fk_ok d' \<and> \<not> user_referenced d' i \<and> i \<notin> us_ID ` set (db_users d') \<and>
    (\<forall>s\<in>set (db_shares d'). sh_SharedBy s \<noteq> i \<and> sh_SharedWith s \<noteq> i) \<and>
    set (ae_FreedObjectKeys out) = fi_S3Key ` {f \<in> set (db_files d). fi_UploadedBy f = i} \<and>
    {u \<in> set (db_users d). us_ID u \<noteq> i} \<subseteq> set (db_users d') \<and>
    map sp_ID (db_specimens d') = map sp_ID (filter (\<lambda>s. sp_AuthorID s \<noteq> i) (db_specimens d)) \<and>
    {f \<in> set (db_files d). fi_UploadedBy f \<noteq> i} \<subseteq> set (db_files d') \<and>
    {c \<in> set (db_collectors d). co_AuthorID c \<noteq> i} \<subseteq> set (db_collectors d') \<and>
    {p \<in> set (db_photos d). ph_SpecimenID p \<notin> own_specimens d i} \<subseteq> set (db_photos d') \<and>
    {e \<in> set (db_journal d). je_SpecimenID e \<notin> own_specimens d i} \<subseteq> set (db_journal d')"
proof -
  note e = Erase_success [OF assms(1)]
  have fk: "fk_ok d'" by (rule erase_cascade_fk [OF e(1) assms(2)])
  have keys: "ae_FreedObjectKeys out = collectFileKeys d i"
    using e(1) by (auto simp: erase_cascade_iff [OF e(4)] split: if_splits)
  have free: "\<not> user_referenced d' i"
    using e(4) erasable_journal [OF e(3)] unfolding e(2) by (rule erased_unreferenced)
  have "set (ae_FreedObjectKeys out) = fi_S3Key ` {f \<in> set (db_files d). fi_UploadedBy f = i}"
    by (simp add: keys collectFileKeys_def)
  moreover have "map sp_ID (db_specimens d') = map sp_ID (filter (\<lambda>s. sp_AuthorID s \<noteq> i) (db_specimens d))"
    by (simp add: e(2) erased_def o_def)
  moreover have "i \<notin> us_ID ` {x \<in> set (db_users d). us_ID x \<noteq> i}" by blast
  ultimately show ?thesis using fk free by (simp add: e(2) erased_simps)
qed

text \<open>A user with one specimen, its photo and the photo's file; another user owns nothing.\<close>

definition sample_db :: database where
  "sample_db = empty_database\<lparr>
     db_users := [User_zero\<lparr>us_ID := 1, us_KeycloakSub := StubUserSub\<rparr>, User_zero\<lparr>us_ID := 7, us_KeycloakSub := ''sub-1''\<rparr>],
     db_specimens := [Specimen_zero\<lparr>sp_ID := 20, sp_AuthorID := 7\<rparr>],
     db_files := [\<lparr>fi_ID = 30, fi_S3Key = ''k'', fi_ContentType = [], fi_ByteSize = 1, fi_SHA256 = [], fi_UploadedAt = 0, fi_UploadedBy = 7\<rparr>],
     db_photos := [Photo_zero\<lparr>ph_ID := 40, ph_SpecimenID := 20, ph_FileID := 30\<rparr>]\<rparr>"

lemma sample_db_ok: "fk_ok sample_db" "7 \<in> us_ID ` set (db_users sample_db)" "erasable sample_db 7"
  by (simp_all add: fk_ok_def refs_def main_image_refs_def sample_db_def empty_database_def User_zero_def Specimen_zero_def
      Photo_zero_def erasable_def erased_def own_specimens_def own_files_def)

lemma sample_erase: "\<exists>out. Erase tx_up 7 sample_db = (Inr out, erased 7 sample_db)"
  using sample_db_ok(2,3) by (simp add: Erase_def RunInTx_ok erase_cascade_iff StubUser_def)

theorem Erase_clean_and_consistent_witness:
  "fk_ok (erased 7 sample_db) \<and> \<not> user_referenced (erased 7 sample_db) 7"
proof -
  obtain out where "Erase tx_up 7 sample_db = (Inr out, erased 7 sample_db)" using sample_erase by blast
  from Erase_clean_and_consistent [OF this sample_db_ok(1)] show ?thesis by simp
qed

text \<open>
  The handler erases exactly on a confirmed request of an authenticated caller and reports
  success exactly when the database cascade committed; failures of the object store, of the session store
  and of the identity provider never turn a committed erasure into an error, and every refused request
  leaves all of the world as it was.
\<close>

lemma account_delete_outcome:
  "account_delete env deps u confirm wd = (reply, wd') \<Longrightarrow>
   (case reply of
      None \<Rightarrow> u_Sub u \<noteq> [] \<and> u_ID u \<noteq> uuid_Nil \<and> confirm = ''DELETE'' \<and>
        (\<exists>res. Erase env (u_ID u) (aw_db wd) = (Inr res, aw_db wd') \<and>
           (\<exists>failures \<le> length (ae_FreedObjectKeys res). aw_log wd' = aw_log wd @ [(u_ID u, res, failures)]))
    | Some e \<Rightarrow> wd' = wd \<and> err_Status e \<in> {400, 401, 403, 404, 500})"
proof -
  assume run: "account_delete env deps u confirm wd = (reply, wd')"
  have same: "d = aw_db wd" if "Erase env (u_ID u) (aw_db wd) = (Inl e, d)" for e d
    using that by (auto simp: Erase_def dest: RunInTx_error split: if_splits)
  show ?thesis
  proof (cases "u_Sub u = [] \<or> u_ID u = uuid_Nil \<or> confirm \<noteq> accountDeleteConfirmation")
    case True
    then show ?thesis using run
      by (cases "u_Sub u = [] \<or> u_ID u = uuid_Nil")
        (auto simp: account_delete_def unauthorized_def newAPIError_def)
  next
    case ok: False
    show ?thesis
    proof (cases "Erase env (u_ID u) (aw_db wd)")
      case (Pair r d)
      show ?thesis
      proof (cases r)
        case (Inl e)
        then have "wd' = wd" "reply = Some (erase_error_reply e)"
          using run ok Pair same [of e d] by (auto simp: account_delete_def)
        then show ?thesis by (simp add: erase_error_reply_def newAPIError_def)
      next
        case (Inr res)
        define po where "po = (case ad_Storage deps of None \<Rightarrow> (0, aw_objects wd)
            | Some del \<Rightarrow> purge del (ae_FreedObjectKeys res) (aw_objects wd))"
        have "fst po \<le> length (ae_FreedObjectKeys res)" by (simp add: po_def purge_bound split: option.splits)
        moreover have "reply = None" "aw_db wd' = d" "aw_log wd' = aw_log wd @ [(u_ID u, res, fst po)]"
          using run ok Pair Inr by (auto simp: account_delete_def Let_def po_def [symmetric] split: prod.splits)
        ultimately show ?thesis using ok Pair Inr by (auto simp: accountDeleteConfirmation_def)
      qed
    qed
  qed
qed

lemma account_delete_outcome_example:
  "\<exists>res failures. aw_log (snd (account_delete tx_up \<lparr>ad_Storage = None, ad_Sessions = None, ad_Identity = None\<rparr>
      (auth_User_zero\<lparr>u_ID := 7, u_Sub := ''sub-1''\<rparr>) ''DELETE''
      \<lparr>aw_db = sample_db, aw_objects = (), aw_sessions = (), aw_idp = (), aw_log = []\<rparr>)) = [(7, res, failures)]"
proof -
  obtain out where e: "Erase tx_up 7 sample_db = (Inr out, erased 7 sample_db)" using sample_erase by blast
  let ?run = "account_delete tx_up \<lparr>ad_Storage = None, ad_Sessions = None, ad_Identity = None\<rparr>
      (auth_User_zero\<lparr>u_ID := 7, u_Sub := ''sub-1''\<rparr>) ''DELETE''
      \<lparr>aw_db = sample_db, aw_objects = (), aw_sessions = (), aw_idp = (), aw_log = []\<rparr>"
  have run: "fst ?run = None" by (simp add: account_delete_def accountDeleteConfirmation_def e auth_User_zero_def)
  from account_delete_outcome [OF prod.collapse [symmetric, of ?run]]
  show ?thesis unfolding run option.case by (auto simp: auth_User_zero_def)
qed

end
