(* ===== verification/Json.thy ===== *)
theory Json
  imports Prelude
begin

text \<open>
  JSON text as \<open>encoding/json\<close> reads and writes it: a value is a tree, an object keeps its members in
  order with duplicates, a number keeps its literal. The parser takes fuel, one unit per nesting or
  list step; twice the length of the text is enough (\<open>parse_val_fuel\<close>). Strings are Go strings, byte
  sequences; the replacement of ill-formed UTF-8 by U+FFFD and the nesting limit of 10000 are not
  modelled.
\<close>

datatype json = JNull | JBool bool | JNum string | JStr string | JArr "json list" | JObj "(string \<times> json) list"

section \<open>Characters\<close>

abbreviation quote_char :: char where "quote_char \<equiv> CHR 0x22"
abbreviation backslash :: char where "backslash \<equiv> CHR 0x5C"

definition is_ws :: "char \<Rightarrow> bool" where
  "is_ws c \<longleftrightarrow> c = CHR '' '' \<or> c = CHR 0x09 \<or> c = CHR 0x0A \<or> c = CHR 0x0D"

definition skip_ws :: "string \<Rightarrow> string" where
  "skip_ws s = dropWhile is_ws s"

definition is_digit :: "char \<Rightarrow> bool" where
  "is_digit c \<longleftrightarrow> c \<in> set ''0123456789''"

definition num_char :: "char \<Rightarrow> bool" where
  "num_char c \<longleftrightarrow> is_digit c \<or> c \<in> set ''+-.eE''"

definition hex_val :: "char \<Rightarrow> nat option" where
  "hex_val c =
     (let n = of_char c :: nat in
      if 48 \<le> n \<and> n \<le> 57 then Some (n - 48)
      else if 97 \<le> n \<and> n \<le> 102 then Some (n - 87)
      else if 65 \<le> n \<and> n \<le> 70 then Some (n - 55)
      else None)"

definition hex4 :: "string \<Rightarrow> nat option" where
  "hex4 s = (case s of
      a # b # c # d # r \<Rightarrow>
        (case (hex_val a, hex_val b, hex_val c, hex_val d) of
           (Some w, Some x, Some y, Some z) \<Rightarrow> Some (((w * 16 + x) * 16 + y) * 16 + z)
         | _ \<Rightarrow> None)
    | _ \<Rightarrow> None)"

definition utf8 :: "nat \<Rightarrow> string" where
  "utf8 n =
     (if n < 128 then [char_of n]
      else if n < 2048 then [char_of (192 + n div 64), char_of (128 + n mod 64)]
      else if n < 65536 then [char_of (224 + n div 4096), char_of (128 + n div 64 mod 64), char_of (128 + n mod 64)]
      else [char_of (240 + n div 262144), char_of (128 + n div 4096 mod 64),
            char_of (128 + n div 64 mod 64), char_of (128 + n mod 64)])"

section \<open>Strings\<close>

text \<open>
  A \<open>\u\<close> escape after its letter: the encoded character and the rest. A high surrogate takes the
  following escape when that is a low one; any other surrogate becomes U+FFFD.
\<close>

definition unescape_u :: "string \<Rightarrow> (string \<times> string) option" where
  "unescape_u r =
     (case hex4 r of
        None \<Rightarrow> None
      | Some n \<Rightarrow>
          let r' = drop 4 r in
          if 55296 \<le> n \<and> n < 57344 then
            (case (if take 2 r' = [backslash, CHR ''u''] then hex4 (drop 2 r') else None) of
               Some m \<Rightarrow> (if n < 56320 \<and> 56320 \<le> m \<and> m < 57344
                 then Some (utf8 (65536 + (n - 55296) * 1024 + (m - 56320)), drop 6 r') else Some (utf8 65533, r'))
             | None \<Rightarrow> Some (utf8 65533, r'))
          else Some (utf8 n, r'))"

definition unescape :: "char \<Rightarrow> char option" where
  "unescape c =
     (if c = quote_char \<or> c = backslash \<or> c = CHR ''/'' then Some c
      else if c = CHR ''b'' then Some (CHR 0x08)
      else if c = CHR ''f'' then Some (CHR 0x0C)
      else if c = CHR ''n'' then Some (CHR 0x0A)
      else if c = CHR ''r'' then Some (CHR 0x0D)
      else if c = CHR ''t'' then Some (CHR 0x09)
      else None)"

text \<open>The body of a string literal up to its closing quote, and what follows.\<close>

lemma unescape_u_length: "unescape_u r = Some (t, r') \<Longrightarrow> length r' \<le> length r"
  by (auto simp: unescape_u_def Let_def split: option.splits if_splits)

function parse_str :: "string \<Rightarrow> (string \<times> string) option" where
  "parse_str [] = None"
| "parse_str (c # cs) =
     (if c = quote_char then Some ([], cs)
      else if c = backslash then
        (case cs of
           [] \<Rightarrow> None
         | e # r \<Rightarrow>
             if e = CHR ''u'' then
               (case unescape_u r of
                  None \<Rightarrow> None
                | Some (t, r') \<Rightarrow> map_option (\<lambda>(u, r''). (t @ u, r'')) (parse_str r'))
             else
               (case unescape e of
                  None \<Rightarrow> None
                | Some d \<Rightarrow> map_option (\<lambda>(u, r''). (d # u, r'')) (parse_str r)))
      else if (of_char c :: nat) < 32 then None
      else map_option (\<lambda>(u, r). (c # u, r)) (parse_str cs))"
  by pat_completeness auto
termination
  by (relation "measure length") (auto dest!: unescape_u_length)

text \<open>The escapes of \<open>json.Marshal\<close>, HTML-sensitive characters and the line separators included.\<close>

definition esc_char :: "char \<Rightarrow> string" where
  "esc_char c =
     (if c = quote_char then [backslash, quote_char]
      else if c = backslash then [backslash, backslash]
      else if c = CHR 0x08 then [backslash, CHR ''b'']
      else if c = CHR 0x0C then [backslash, CHR ''f'']
      else if c = CHR 0x0A then [backslash, CHR ''n'']
      else if c = CHR 0x0D then [backslash, CHR ''r'']
      else if c = CHR 0x09 then [backslash, CHR ''t'']
      else if (of_char c :: nat) < 32 \<or> c \<in> set ''<>&'' then backslash # ''u00'' @ hex_digits 2 (of_char c)
      else [c])"

fun esc :: "string \<Rightarrow> string" where
  "esc [] = []"
| "esc (c # cs) =
     (if take 3 (c # cs) = [CHR 0xE2, CHR 0x80, CHR 0xA8] then backslash # ''u2028'' @ esc (drop 2 cs)
      else if take 3 (c # cs) = [CHR 0xE2, CHR 0x80, CHR 0xA9] then backslash # ''u2029'' @ esc (drop 2 cs)
      else esc_char c @ esc cs)"

definition print_str :: "string \<Rightarrow> string" where
  "print_str s = quote_char # esc s @ [quote_char]"

section \<open>Numbers\<close>

definition exp_ok :: "string \<Rightarrow> bool" where
  "exp_ok s = (case s of
      [] \<Rightarrow> True
    | c # r \<Rightarrow> c \<in> set ''eE'' \<and>
        (let r' = (case r of d # t \<Rightarrow> if d \<in> set ''+-'' then t else r | [] \<Rightarrow> r) in r' \<noteq> [] \<and> list_all is_digit r'))"

definition frac_ok :: "string \<Rightarrow> bool" where
  "frac_ok s = (case s of
      c # r \<Rightarrow> if c = CHR ''.'' then r \<noteq> [] \<and> is_digit (hd r) \<and> exp_ok (dropWhile is_digit r) else exp_ok s
    | [] \<Rightarrow> exp_ok s)"

definition num_ok :: "string \<Rightarrow> bool" where
  "num_ok s =
     (let s1 = (case s of c # r \<Rightarrow> if c = CHR ''-'' then r else s | [] \<Rightarrow> s) in
      case s1 of
        [] \<Rightarrow> False
      | c # r \<Rightarrow> if c = CHR ''0'' then frac_ok r else is_digit c \<and> frac_ok (dropWhile is_digit r))"

section \<open>Values\<close>

fun parse_val :: "nat \<Rightarrow> string \<Rightarrow> (json \<times> string) option"
  and parse_elems :: "nat \<Rightarrow> string \<Rightarrow> (json list \<times> string) option"
  and parse_members :: "nat \<Rightarrow> string \<Rightarrow> ((string \<times> json) list \<times> string) option" where
  "parse_val 0 s = None"
| "parse_val (Suc n) s =
     (case skip_ws s of
        [] \<Rightarrow> None
      | c # r \<Rightarrow>
          if c = CHR ''{'' then
            (if take 1 (skip_ws r) = ''}'' then Some (JObj [], drop 1 (skip_ws r))
             else map_option (\<lambda>(kvs, t). (JObj kvs, t)) (parse_members n r))
          else if c = CHR ''['' then
            (if take 1 (skip_ws r) = '']'' then Some (JArr [], drop 1 (skip_ws r))
             else map_option (\<lambda>(vs, t). (JArr vs, t)) (parse_elems n r))
          else if c = quote_char then map_option (\<lambda>(u, t). (JStr u, t)) (parse_str r)
          else if c = CHR ''-'' \<or> is_digit c then
            (if num_ok (takeWhile num_char (c # r))
             then Some (JNum (takeWhile num_char (c # r)), dropWhile num_char (c # r)) else None)
          else if take 4 (c # r) = ''null'' then Some (JNull, drop 3 r)
          else if take 4 (c # r) = ''true'' then Some (JBool True, drop 3 r)
          else if take 5 (c # r) = ''false'' then Some (JBool False, drop 4 r)
          else None)"
| "parse_elems 0 s = None"
| "parse_elems (Suc n) s =
     (case parse_val n s of
        None \<Rightarrow> None
      | Some (v, r) \<Rightarrow>
          (case skip_ws r of
             [] \<Rightarrow> None
           | d # r' \<Rightarrow>
               if d = CHR '']'' then Some ([v], r')
               else if d = CHR '','' then map_option (\<lambda>(vs, t). (v # vs, t)) (parse_elems n r')
               else None))"
| "parse_members 0 s = None"
| "parse_members (Suc n) s =
     (case skip_ws s of
        [] \<Rightarrow> None
      | q # r \<Rightarrow>
          if q \<noteq> quote_char then None
          else (case parse_str r of
              None \<Rightarrow> None
            | Some (k, r1) \<Rightarrow>
                (case skip_ws r1 of
                   [] \<Rightarrow> None
                 | c # r2 \<Rightarrow>
                     if c \<noteq> CHR '':'' then None
                     else (case parse_val n r2 of
                         None \<Rightarrow> None
                       | Some (v, r3) \<Rightarrow>
                           (case skip_ws r3 of
                              [] \<Rightarrow> None
                            | d # r4 \<Rightarrow>
                                if d = CHR ''}'' then Some ([(k, v)], r4)
                                else if d = CHR '','' then map_option (\<lambda>(kvs, t). ((k, v) # kvs, t)) (parse_members n r4)
                                else None)))))"

definition json_parse :: "string \<Rightarrow> json option" where
  "json_parse s =
     (case parse_val (Suc (2 * length s)) s of
        Some (v, r) \<Rightarrow> if skip_ws r = [] then Some v else None
      | None \<Rightarrow> None)"

fun commas :: "string list \<Rightarrow> string" where
  "commas [] = []"
| "commas [x] = x"
| "commas (x # y # xs) = x @ '','' @ commas (y # xs)"

fun json_print :: "json \<Rightarrow> string" where
  "json_print JNull = ''null''"
| "json_print (JBool b) = (if b then ''true'' else ''false'')"
| "json_print (JNum l) = l"
| "json_print (JStr s) = print_str s"
| "json_print (JArr vs) = ''['' @ commas (map json_print vs) @ '']''"
| "json_print (JObj kvs) = ''{'' @ commas (map (\<lambda>(k, v). print_str k @ '':'' @ json_print v) kvs) @ ''}''"

section \<open>Fuel\<close>

lemma skip_ws_length: "length (skip_ws s) \<le> length s"
  by (simp add: skip_ws_def length_dropWhile_le)

lemma skip_ws_Cons: "skip_ws s = c # r \<Longrightarrow> length r < length s"
  using skip_ws_length [of s] by simp

lemma parse_str_length: "parse_str s = Some (t, r) \<Longrightarrow> length r < length s"
proof (induction s arbitrary: t r rule: parse_str.induct)
  case (2 c cs)
  then show ?case
    by (fastforce dest: unescape_u_length split: if_splits option.splits list.splits)
qed simp

lemma parse_lengths_all:
  "(\<forall>s v r. parse_val n s = Some (v, r) \<longrightarrow> length r < length s) \<and>
   (\<forall>s vs r. parse_elems n s = Some (vs, r) \<longrightarrow> length r < length s) \<and>
   (\<forall>s kvs r. parse_members n s = Some (kvs, r) \<longrightarrow> length r < length s)"
proof (induction n)
  case (Suc n)
  then have ih: "\<And>s v r. parse_val n s = Some (v, r) \<Longrightarrow> length r < length s"
    "\<And>s vs r. parse_elems n s = Some (vs, r) \<Longrightarrow> length r < length s"
    "\<And>s kvs r. parse_members n s = Some (kvs, r) \<Longrightarrow> length r < length s" by blast+
  have "length r < length s" if run: "parse_val (Suc n) s = Some (v, r)" for s v r
  proof (cases "skip_ws s")
    case Nil
    then show ?thesis using run by simp
  next
    case (Cons c cs)
    note len = skip_ws_Cons [OF Cons] skip_ws_length [of cs] length_dropWhile_le [of num_char cs]
    show ?thesis
      using run Cons len
      by (force dest: ih parse_str_length split: if_splits simp: num_char_def)
  qed
  moreover have "length r < length s" if "parse_elems (Suc n) s = Some (vs, r)" for s vs r
    using that by (fastforce dest: ih skip_ws_Cons split: option.splits list.splits if_splits)
  moreover have "length r < length s" if "parse_members (Suc n) s = Some (kvs, r)" for s kvs r
    using that by (fastforce dest: ih skip_ws_Cons parse_str_length split: option.splits list.splits if_splits)
  ultimately show ?case by blast
qed simp

lemmas parse_val_length = parse_lengths_all [THEN conjunct1, rule_format]
lemmas parse_elems_length = parse_lengths_all [THEN conjunct2, THEN conjunct1, rule_format]
lemmas parse_members_length = parse_lengths_all [THEN conjunct2, THEN conjunct2, rule_format]

text \<open>Fuel beyond the length of the text changes nothing.\<close>

lemma parse_fuel_all:
  "(\<forall>s m. 2 * length s < n \<longrightarrow> 2 * length s < m \<longrightarrow> parse_val n s = parse_val m s) \<and>
   (\<forall>s m. Suc (2 * length s) < n \<longrightarrow> Suc (2 * length s) < m \<longrightarrow> parse_elems n s = parse_elems m s) \<and>
   (\<forall>s m. 2 * length s < n \<longrightarrow> 2 * length s < m \<longrightarrow> parse_members n s = parse_members m s)"
proof (induction n)
  case (Suc n)
  then have ih: "\<And>s m. 2 * length s < n \<Longrightarrow> 2 * length s < m \<Longrightarrow> parse_val n s = parse_val m s"
    "\<And>s m. Suc (2 * length s) < n \<Longrightarrow> Suc (2 * length s) < m \<Longrightarrow> parse_elems n s = parse_elems m s"
    "\<And>s m. 2 * length s < n \<Longrightarrow> 2 * length s < m \<Longrightarrow> parse_members n s = parse_members m s" by blast+
  have "parse_val (Suc n) s = parse_val m s" if fuel: "2 * length s < Suc n" "2 * length s < m" for s m
  proof -
    obtain m' where m: "m = Suc m'" using fuel by (cases m) auto
    show ?thesis
    proof (cases "skip_ws s")
      case (Cons c r)
      then have "length r < length s" by (rule skip_ws_Cons)
      then have "parse_members n r = parse_members m' r" "parse_elems n r = parse_elems m' r"
        using fuel m by (intro ih; simp)+
      then show ?thesis by (simp add: m Cons)
    qed (simp add: m)
  qed
  moreover have "parse_elems (Suc n) s = parse_elems m s" if fuel: "Suc (2 * length s) < Suc n" "Suc (2 * length s) < m" for s m
  proof -
    obtain m' where m: "m = Suc m'" using fuel by (cases m) auto
    have v: "parse_val n s = parse_val m' s" using fuel m by (intro ih) simp_all
    have e: "parse_elems n r' = parse_elems m' r'" if "parse_val m' s = Some (v, r)" "skip_ws r = d # r'" for v r d r'
      using parse_val_length [OF that(1)] skip_ws_Cons [OF that(2)] fuel m by (intro ih) simp_all
    show ?thesis by (simp add: m v split: option.split list.split) (simp add: e)
  qed
  moreover have "parse_members (Suc n) s = parse_members m s" if fuel: "2 * length s < Suc n" "2 * length s < m" for s m
  proof -
    obtain m' where m: "m = Suc m'" using fuel by (cases m) auto
    have v: "parse_val n r2 = parse_val m' r2" if "skip_ws s = q # r" "parse_str r = Some (k, r1)" "skip_ws r1 = c # r2" for q r k r1 c r2
      using skip_ws_Cons [OF that(1)] parse_str_length [OF that(2)] skip_ws_Cons [OF that(3)] fuel m by (intro ih) simp_all
    have e: "parse_members n r4 = parse_members m' r4"
      if "skip_ws s = q # r" "parse_str r = Some (k, r1)" "skip_ws r1 = c # r2" "parse_val m' r2 = Some (w, r3)" "skip_ws r3 = d # r4"
      for q r k r1 c r2 w r3 d r4
      using skip_ws_Cons [OF that(1)] parse_str_length [OF that(2)] skip_ws_Cons [OF that(3)]
        parse_val_length [OF that(4)] skip_ws_Cons [OF that(5)] fuel m by (intro ih) simp_all
    show ?thesis by (simp add: m v split: option.split list.split) (simp add: e)
  qed
  ultimately show ?case by blast
qed simp

lemmas parse_val_fuel = parse_fuel_all [THEN conjunct1, rule_format]

section \<open>Printing and parsing back\<close>

lemma hex_val_hex_digit: "k < 16 \<Longrightarrow> hex_val (hex_digit k) = Some k"
proof -
  assume "k < 16"
  then have "k = 0 \<or> k = 1 \<or> k = 2 \<or> k = 3 \<or> k = 4 \<or> k = 5 \<or> k = 6 \<or> k = 7 \<or> k = 8 \<or> k = 9 \<or>
    k = 10 \<or> k = 11 \<or> k = 12 \<or> k = 13 \<or> k = 14 \<or> k = 15" by arith
  then show ?thesis by (elim disjE) (simp_all add: hex_digit_def hex_val_def)
qed

lemma hex_digits_2: "hex_digits 2 n = [hex_digit (n div 16 mod 16), hex_digit (n mod 16)]"
  by (simp add: numeral_2_eq_2)

lemma hex4_Cons:
  assumes "hex_val a = Some w" "hex_val b = Some x" "hex_val c = Some y" "hex_val d = Some z"
  shows "hex4 (a # b # c # d # r) = Some (((w * 16 + x) * 16 + y) * 16 + z)"
  using assms by (simp add: hex4_def)

lemma unescape_u_plain:
  assumes "hex4 (a # b # c # d # r) = Some n" and "n < 55296"
  shows "unescape_u (a # b # c # d # r) = Some (utf8 n, r)"
  using assms by (simp add: unescape_u_def)

lemma hex_vals: "hex_val (CHR ''0'') = Some 0" "hex_val (CHR ''2'') = Some 2" "hex_val (CHR ''8'') = Some 8" "hex_val (CHR ''9'') = Some 9"
  by (simp_all add: hex_val_def)

lemma unescape_u_hex2:
  assumes "n < 128"
  shows "unescape_u (''00'' @ hex_digits 2 n @ r) = Some ([char_of n], r)"
proof -
  have "n div 16 < 16" using assms by simp
  then have "n div 16 mod 16 * 16 + n mod 16 = n" by simp
  moreover have "n div 16 mod 16 < 16" "n mod 16 < 16" by simp_all
  then have "hex4 (CHR ''0'' # CHR ''0'' # hex_digit (n div 16 mod 16) # hex_digit (n mod 16) # r)
      = Some (((0 * 16 + 0) * 16 + n div 16 mod 16) * 16 + n mod 16)"
    by (intro hex4_Cons hex_vals hex_val_hex_digit)
  ultimately have "hex4 (CHR ''0'' # CHR ''0'' # hex_digit (n div 16 mod 16) # hex_digit (n mod 16) # r) = Some n" by simp
  from unescape_u_plain [OF this] assms show ?thesis by (simp add: hex_digits_2 utf8_def)
qed

lemma utf8_separators:
  "utf8 8232 = [CHR 0xE2, CHR 0x80, CHR 0xA8]" "utf8 8233 = [CHR 0xE2, CHR 0x80, CHR 0xA9]"
  by (simp_all add: utf8_def char_of_def bit_0)

lemma unescape_u_2028:
  "unescape_u (CHR ''2'' # CHR ''0'' # CHR ''2'' # CHR ''8'' # r) = Some ([CHR 0xE2, CHR 0x80, CHR 0xA8], r)"
  "unescape_u (CHR ''2'' # CHR ''0'' # CHR ''2'' # CHR ''9'' # r) = Some ([CHR 0xE2, CHR 0x80, CHR 0xA9], r)"
  using unescape_u_plain [OF hex4_Cons [OF hex_vals(2) hex_vals(1) hex_vals(2) hex_vals(3)], of r]
    unescape_u_plain [OF hex4_Cons [OF hex_vals(2) hex_vals(1) hex_vals(2) hex_vals(4)], of r]
  by (simp_all add: utf8_separators)

lemma parse_esc_char: "parse_str (esc_char c @ r) = map_option (\<lambda>(u, r'). (c # u, r')) (parse_str r)"
proof (cases "(of_char c :: nat) < 32 \<or> c \<in> set ''<>&''")
  case True
  have low: "(of_char c :: nat) < 128" using True by auto
  note u = unescape_u_hex2 [OF low, of r]
  show ?thesis using True u by (simp add: esc_char_def unescape_def del: hex_digits.simps)
next
  case False
  then show ?thesis by (simp add: esc_char_def unescape_def)
qed

lemma parse_esc: "parse_str (esc s @ quote_char # r) = Some (s, r)"
proof (induction s rule: esc.induct)
  case (2 c cs)
  consider (ls) "take 3 (c # cs) = [CHR 0xE2, CHR 0x80, CHR 0xA8]" | (ps) "take 3 (c # cs) = [CHR 0xE2, CHR 0x80, CHR 0xA9]"
    | (plain) "take 3 (c # cs) \<noteq> [CHR 0xE2, CHR 0x80, CHR 0xA8]" "take 3 (c # cs) \<noteq> [CHR 0xE2, CHR 0x80, CHR 0xA9]" by blast
  then show ?case
  proof cases
    case ls
    then have s: "c # cs = [CHR 0xE2, CHR 0x80, CHR 0xA8] @ drop 2 cs"
      using append_take_drop_id [of 3 "c # cs"] by simp
    have "parse_str (esc (c # cs) @ quote_char # r) = parse_str (backslash # CHR ''u'' # CHR ''2'' # CHR ''0'' # CHR ''2'' # CHR ''8'' # esc (drop 2 cs) @ quote_char # r)"
      using ls by simp
    also have "\<dots> = Some ([CHR 0xE2, CHR 0x80, CHR 0xA8] @ drop 2 cs, r)"
      using 2(1) [OF ls] by (simp add: unescape_u_2028)
    finally show ?thesis by (simp only: s [symmetric])
  next
    case ps
    then have s: "c # cs = [CHR 0xE2, CHR 0x80, CHR 0xA9] @ drop 2 cs"
      using append_take_drop_id [of 3 "c # cs"] by simp
    have "parse_str (esc (c # cs) @ quote_char # r) = parse_str (backslash # CHR ''u'' # CHR ''2'' # CHR ''0'' # CHR ''2'' # CHR ''9'' # esc (drop 2 cs) @ quote_char # r)"
      using ps by simp
    also have "\<dots> = Some ([CHR 0xE2, CHR 0x80, CHR 0xA9] @ drop 2 cs, r)"
      using 2(2) ps by (simp add: unescape_u_2028)
    finally show ?thesis by (simp only: s [symmetric])
  next
    case plain
    then have e: "esc (c # cs) = esc_char c @ esc cs" by (simp only: esc.simps plain if_False)
    show ?thesis unfolding e append_assoc parse_esc_char 2(3) [OF plain] by simp
  qed
qed simp

text \<open>
  What \<open>json.Marshal\<close> can produce: number literals are well formed. Then every value is read back,
  whatever follows it, as long as a number is not continued.
\<close>

fun json_ok :: "json \<Rightarrow> bool" where
  "json_ok (JNum l) = (num_ok l \<and> list_all num_char l)"
| "json_ok (JArr vs) = list_all json_ok vs"
| "json_ok (JObj kvs) = list_all (\<lambda>(k, v). json_ok v) kvs"
| "json_ok _ = True"

definition num_end :: "string \<Rightarrow> bool" where
  "num_end r \<longleftrightarrow> (case r of [] \<Rightarrow> True | c # _ \<Rightarrow> \<not> num_char c)"

lemma num_ok_start: "num_ok l \<Longrightarrow> l \<noteq> [] \<and> (hd l = CHR ''-'' \<or> is_digit (hd l))"
  by (auto simp: num_ok_def is_digit_def split: list.splits if_splits)

lemma takeWhile_num: "list_all num_char l \<Longrightarrow> num_end r \<Longrightarrow> takeWhile num_char (l @ r) = l \<and> dropWhile num_char (l @ r) = r"
  by (induction l) (auto simp: num_end_def split: list.splits)

lemma json_print_start:
  assumes "json_ok v"
  obtains c t where "json_print v = c # t" and "\<not> is_ws c" and "c \<notin> set '']}''"
proof (cases v)
  case (JNum l)
  then show ?thesis using that assms num_ok_start [of l] by (cases l) (auto simp: is_ws_def is_digit_def)
next
  case (JBool b)
  then show ?thesis using that by (cases b) (auto simp: is_ws_def)
qed (use that in \<open>auto simp: is_ws_def print_str_def\<close>)

lemma skip_ws_stop: "\<not> is_ws c \<Longrightarrow> skip_ws (c # r) = c # r"
  by (simp add: skip_ws_def)

lemma parse_num:
  assumes "num_ok l" "list_all num_char l" "num_end r" "0 < n"
  shows "parse_val n (l @ r) = Some (JNum l, r)"
proof -
  obtain m where n: "n = Suc m" using assms(4) by (cases n) auto
  obtain c t where l: "l = c # t" and c: "c = CHR ''-'' \<or> is_digit c" using num_ok_start [OF assms(1)] by (cases l) auto
  then have "\<not> is_ws c" "c \<noteq> CHR ''{''" "c \<noteq> CHR ''[''" "c \<noteq> quote_char" by (auto simp: is_ws_def is_digit_def)
  then show ?thesis
    using takeWhile_num [OF assms(2,3)] assms(1) c by (simp add: n l skip_ws_stop)
qed

lemma num_end_sep: "num_end (CHR '','' # r)" "num_end (CHR '']'' # r)" "num_end (CHR ''}'' # r)" "num_end []"
  by (simp_all add: num_end_def num_char_def is_digit_def)

lemma parse_elems_print:
  assumes "vs \<noteq> []" and "2 * length (commas (map json_print vs)) + 1 < n"
    and "\<And>v m r. v \<in> set vs \<Longrightarrow> 2 * length (json_print v) < m \<Longrightarrow> num_end r \<Longrightarrow> parse_val m (json_print v @ r) = Some (v, r)"
  shows "parse_elems n (commas (map json_print vs) @ CHR '']'' # r) = Some (vs, r)"
  using assms
proof (induction vs arbitrary: n)
  case (Cons v vs)
  obtain m where n: "n = Suc m" using Cons.prems(2) by (cases n) auto
  show ?case
  proof (cases vs)
    case Nil
    have "parse_val m (json_print v @ CHR '']'' # r) = Some (v, CHR '']'' # r)"
      using Cons.prems(2) Nil n by (intro Cons.prems(3)) (simp_all add: num_end_sep)
    then show ?thesis by (simp add: n Nil skip_ws_stop is_ws_def)
  next
    case (Cons w ws)
    let ?rest = "commas (map json_print vs) @ CHR '']'' # r"
    have fuel: "2 * length (json_print v) < m" "2 * length (commas (map json_print vs)) + 1 < m"
      using Cons.prems(2) n Cons by simp_all
    have "parse_val m (json_print v @ CHR '','' # ?rest) = Some (v, CHR '','' # ?rest)"
      using fuel(1) by (intro Cons.prems(3)) (simp_all add: num_end_sep)
    moreover have "parse_elems m ?rest = Some (vs, r)"
      using fuel(2) Cons.prems(3) Cons by (intro Cons.IH) auto
    ultimately show ?thesis by (simp add: n Cons skip_ws_stop is_ws_def)
  qed
qed simp

definition print_member :: "string \<times> json \<Rightarrow> string" where
  "print_member kv = print_str (fst kv) @ '':'' @ json_print (snd kv)"

lemma json_print_JObj: "json_print (JObj kvs) = ''{'' @ commas (map print_member kvs) @ ''}''"
proof -
  have "(\<lambda>(k, v). print_str k @ '':'' @ json_print v) = print_member" by (auto simp: print_member_def)
  then show ?thesis by simp
qed

lemma parse_member:
  assumes "2 * length (print_member (k, v)) < n"
    and "\<And>m r. 2 * length (json_print v) < m \<Longrightarrow> num_end r \<Longrightarrow> parse_val m (json_print v @ r) = Some (v, r)"
    and "d = CHR ''}'' \<or> d = CHR '',''"
  shows "parse_members n (print_member (k, v) @ d # r) =
    (if d = CHR ''}'' then Some ([(k, v)], r)
     else map_option (\<lambda>(kvs, t). ((k, v) # kvs, t)) (parse_members (n - 1) r))"
proof -
  obtain m where n: "n = Suc m" using assms(1) by (cases n) auto
  have "num_end (d # r)" using assms(3) num_end_sep by auto
  then have v: "parse_val m (json_print v @ d # r) = Some (v, d # r)"
    using assms(1) n by (intro assms(2)) (simp_all add: print_member_def)
  have d: "skip_ws (d # r) = d # r" using assms(3) by (intro skip_ws_stop) (auto simp: is_ws_def)
  have c: "skip_ws (CHR '':'' # x) = CHR '':'' # x" "skip_ws (quote_char # x) = quote_char # x" for x
    by (simp_all add: skip_ws_def is_ws_def)
  show ?thesis using assms(3) by (auto simp: n print_member_def print_str_def c d v parse_esc)
qed

lemma parse_members_print:
  assumes "kvs \<noteq> []" and "2 * length (commas (map print_member kvs)) < n"
    and "\<And>k v m r. (k, v) \<in> set kvs \<Longrightarrow> 2 * length (json_print v) < m \<Longrightarrow> num_end r \<Longrightarrow> parse_val m (json_print v @ r) = Some (v, r)"
  shows "parse_members n (commas (map print_member kvs) @ CHR ''}'' # r) = Some (kvs, r)"
  using assms
proof (induction kvs arbitrary: n)
  case (Cons kv kvs)
  obtain k v where kv: "kv = (k, v)" by (cases kv)
  show ?case
  proof (cases kvs)
    case Nil
    then show ?thesis using Cons.prems kv parse_member [of k v n "CHR ''}''" r] by simp
  next
    case more: (Cons w ws)
    let ?rest = "commas (map print_member kvs) @ CHR ''}'' # r"
    have "2 * length (print_member (k, v)) < n" "2 * length (commas (map print_member kvs)) < n - 1"
      using Cons.prems(2) kv more by simp_all
    moreover have "parse_members (n - 1) ?rest = Some (kvs, r)"
      using Cons.prems(3) more calculation(2) by (intro Cons.IH) auto
    ultimately show ?thesis using Cons.prems(3) [of k v] more kv parse_member [of k v n "CHR '',''" ?rest] by simp
  qed
qed simp

lemma commas_start:
  assumes "xs \<noteq> []" and "\<exists>c t. hd xs = c # t \<and> P c"
  shows "\<exists>c t. commas xs = c # t \<and> P c"
  using assms by (cases xs rule: commas.cases) auto

theorem parse_val_print:
  "json_ok v \<Longrightarrow> 2 * length (json_print v) < n \<Longrightarrow> num_end r \<Longrightarrow> parse_val n (json_print v @ r) = Some (v, r)"
proof (induction v arbitrary: n r)
  case (JNum l)
  then show ?case by (simp add: parse_num)
next
  case (JStr s)
  then show ?case by (cases n) (simp_all add: print_str_def skip_ws_stop is_ws_def parse_esc)
next
  case (JArr vs)
  show ?case
  proof (cases "vs = []")
    case True
    then show ?thesis using JArr.prems by (cases n) (simp_all add: skip_ws_def is_ws_def)
  next
    case ne: False
    obtain m where n: "n = Suc m" using JArr.prems(2) by (cases n) auto
    have "json_ok (hd vs)" using ne JArr.prems(1) by (cases vs) simp_all
    then obtain c t where "json_print (hd vs) = c # t" "\<not> is_ws c" "c \<notin> set '']}''" by (rule json_print_start)
    then have "\<exists>c t. hd (map json_print vs) = c # t \<and> (\<not> is_ws c \<and> c \<notin> set '']}'')"
      using ne by (simp add: hd_map)
    from commas_start [OF _ this] ne obtain c t where c: "commas (map json_print vs) = c # t" "\<not> is_ws c" "c \<noteq> CHR '']''" by auto
    have "parse_elems m (commas (map json_print vs) @ CHR '']'' # r) = Some (vs, r)"
      using JArr n ne by (intro parse_elems_print) (auto simp: list_all_iff)
    then show ?thesis using c by (simp add: n skip_ws_stop is_ws_def [of "CHR ''[''"])
  qed
next
  case (JObj kvs)
  show ?case
  proof (cases "kvs = []")
    case True
    then show ?thesis using JObj.prems by (cases n) (simp_all add: skip_ws_def is_ws_def)
  next
    case ne: False
    obtain m where n: "n = Suc m" using JObj.prems(2) by (cases n) auto
    have "\<exists>c t. hd (map print_member kvs) = c # t \<and> c = quote_char"
      using ne by (cases kvs) (auto simp: print_member_def print_str_def)
    from commas_start [OF _ this] ne obtain t where c: "commas (map print_member kvs) = quote_char # t" by auto
    have "parse_members m (commas (map print_member kvs) @ CHR ''}'' # r) = Some (kvs, r)"
      using JObj.prems n ne JObj.IH unfolding json_print_JObj by (intro parse_members_print) (fastforce simp: list_all_iff)+
    then show ?thesis unfolding json_print_JObj using c by (simp add: n skip_ws_stop is_ws_def)
  qed
next
  case JNull
  then show ?case by (cases n) (simp_all add: skip_ws_def is_ws_def is_digit_def)
next
  case (JBool b)
  then show ?case by (cases n; cases b) (simp_all add: skip_ws_def is_ws_def is_digit_def)
qed

lemma json_parse_print:
  assumes "json_ok v"
  shows "json_parse (json_print v) = Some v"
proof -
  have "parse_val (Suc (2 * length (json_print v))) (json_print v @ []) = Some (v, [])"
    using assms by (intro parse_val_print) (simp_all add: num_end_sep)
  then show ?thesis by (simp add: json_parse_def skip_ws_def del: parse_val.simps)
qed

text \<open>What the parser returns is well formed.\<close>

lemma parse_ok_all:
  "(\<forall>s v r. parse_val n s = Some (v, r) \<longrightarrow> json_ok v) \<and>
   (\<forall>s vs r. parse_elems n s = Some (vs, r) \<longrightarrow> list_all json_ok vs) \<and>
   (\<forall>s kvs r. parse_members n s = Some (kvs, r) \<longrightarrow> list_all (\<lambda>kv. json_ok (snd kv)) kvs)"
proof (induction n)
  case (Suc n)
  then have ih: "\<And>s v r. parse_val n s = Some (v, r) \<Longrightarrow> json_ok v"
    "\<And>s vs r. parse_elems n s = Some (vs, r) \<Longrightarrow> list_all json_ok vs"
    "\<And>s kvs r. parse_members n s = Some (kvs, r) \<Longrightarrow> list_all (\<lambda>kv. json_ok (snd kv)) kvs" by blast+
  have num: "list_all num_char (takeWhile num_char l)" for l by (auto simp: list_all_iff dest: set_takeWhileD)
  have "json_ok v" if "parse_val (Suc n) s = Some (v, r)" for s v r
    using that num ih(2,3) by (cases "skip_ws s") (auto simp: case_prod_unfold simp del: takeWhile.simps split: if_splits)
  moreover have "list_all json_ok vs" if "parse_elems (Suc n) s = Some (vs, r)" for s vs r
    using that ih(2) ih(1) [of s] by (auto split: option.splits list.splits if_splits)
  moreover have "list_all (\<lambda>kv. json_ok (snd kv)) kvs" if "parse_members (Suc n) s = Some (kvs, r)" for s kvs r
    using that ih(1,3) by (auto split: option.splits list.splits if_splits)
  ultimately show ?case by blast
qed simp

lemma json_parse_ok: "json_parse s = Some v \<Longrightarrow> json_ok v"
  using parse_ok_all [THEN conjunct1, rule_format, of "Suc (2 * length s)" s]
  by (auto simp: json_parse_def simp del: parse_val.simps split: option.splits if_splits)

section \<open>Decoding into structs\<close>

text \<open>
  \<open>json.Unmarshal\<close> stores each member of an object in the field its name matches, case-insensitively
  (ASCII folding), in the order of the text; a later member overwrites an earlier one, \<open>null\<close> leaves a
  field that is no pointer or slice as it is, and a value of the wrong kind is an error.
\<close>

definition lower_ascii :: "char \<Rightarrow> char" where
  "lower_ascii c = (let n = of_char c :: nat in if 65 \<le> n \<and> n \<le> 90 then char_of (n + 32) else c)"

definition name_matches :: "string \<Rightarrow> string \<Rightarrow> bool" where
  "name_matches name k \<longleftrightarrow> map lower_ascii k = map lower_ascii name"

definition members_of :: "string \<Rightarrow> (string \<times> json) list \<Rightarrow> json list" where
  "members_of name kvs = map snd (filter (\<lambda>kv. name_matches name (fst kv)) kvs)"

fun decode_into :: "('a \<Rightarrow> json \<Rightarrow> 'a option) \<Rightarrow> 'a \<Rightarrow> json list \<Rightarrow> 'a option" where
  "decode_into dec x [] = Some x"
| "decode_into dec x (v # vs) = (case dec x v of None \<Rightarrow> None | Some y \<Rightarrow> decode_into dec y vs)"

definition decode_field :: "('a \<Rightarrow> json \<Rightarrow> 'a option) \<Rightarrow> 'a \<Rightarrow> string \<Rightarrow> (string \<times> json) list \<Rightarrow> 'a option" where
  "decode_field dec x name kvs = decode_into dec x (members_of name kvs)"

text \<open>Values: a string, a text form inside a string (times, identifiers), a number.\<close>

definition dec_string :: "string \<Rightarrow> json \<Rightarrow> string option" where
  "dec_string x v = (case v of JNull \<Rightarrow> Some x | JStr s \<Rightarrow> Some s | _ \<Rightarrow> None)"

definition dec_text :: "(string \<Rightarrow> 'a option) \<Rightarrow> 'a \<Rightarrow> json \<Rightarrow> 'a option" where
  "dec_text parse x v = (case v of JNull \<Rightarrow> Some x | JStr s \<Rightarrow> parse s | _ \<Rightarrow> None)"

definition dec_number :: "(string \<Rightarrow> 'a option) \<Rightarrow> 'a \<Rightarrow> json \<Rightarrow> 'a option" where
  "dec_number parse x v = (case v of JNull \<Rightarrow> Some x | JNum l \<Rightarrow> parse l | _ \<Rightarrow> None)"

definition dec_bool :: "bool \<Rightarrow> json \<Rightarrow> bool option" where
  "dec_bool x v = (case v of JNull \<Rightarrow> Some x | JBool b \<Rightarrow> Some b | _ \<Rightarrow> None)"

text \<open>Pointers: \<open>null\<close> is nil, any other value is decoded into what the pointer holds or a fresh zero value.\<close>

definition dec_pointer :: "'a \<Rightarrow> ('a \<Rightarrow> json \<Rightarrow> 'a option) \<Rightarrow> 'a option \<Rightarrow> json \<Rightarrow> 'a option option" where
  "dec_pointer zero dec x v =
     (if v = JNull then Some None
      else map_option Some (dec (case x of None \<Rightarrow> zero | Some a \<Rightarrow> a) v))"

text \<open>Slices: \<open>null\<close> is nil; elements are decoded into the slots that are there.\<close>

fun dec_elems :: "'a \<Rightarrow> ('a \<Rightarrow> json \<Rightarrow> 'a option) \<Rightarrow> 'a list \<Rightarrow> json list \<Rightarrow> 'a list option" where
  "dec_elems zero dec xs [] = Some []"
| "dec_elems zero dec xs (v # vs) =
     (case dec (case xs of [] \<Rightarrow> zero | x # _ \<Rightarrow> x) v of
        None \<Rightarrow> None
      | Some y \<Rightarrow> map_option ((#) y) (dec_elems zero dec (tl xs) vs))"

definition dec_slice :: "'a \<Rightarrow> ('a \<Rightarrow> json \<Rightarrow> 'a option) \<Rightarrow> 'a list \<Rightarrow> json \<Rightarrow> 'a list option" where
  "dec_slice zero dec xs v =
     (case v of JNull \<Rightarrow> Some [] | JArr vs \<Rightarrow> dec_elems zero dec xs vs | _ \<Rightarrow> None)"

lemma decode_field_simps:
  "decode_field dec x name [] = Some x"
  "decode_field dec x name ((k, v) # kvs) =
     (if name_matches name k then (case dec x v of None \<Rightarrow> None | Some y \<Rightarrow> decode_field dec y name kvs)
      else decode_field dec x name kvs)"
  by (simp_all add: decode_field_def members_of_def split: option.split)

definition unmarshal_struct :: "((string \<times> json) list \<Rightarrow> 'a option) \<Rightarrow> string \<Rightarrow> 'a option" where
  "unmarshal_struct dec raw =
     (case json_parse raw of
        Some (JObj kvs) \<Rightarrow> dec kvs
      | Some JNull \<Rightarrow> dec []
      | _ \<Rightarrow> None)"

text \<open>
  A struct whose fields all carry \<open>omitempty\<close> is written as the members that are there; read back, each
  name finds its own value. Field names are lower case, so case folding confuses no two of them.
\<close>

definition present_fields :: "(string \<times> json option) list \<Rightarrow> (string \<times> json) list" where
  "present_fields fs = List.map_filter (\<lambda>(n, v). map_option (Pair n) v) fs"

definition lower_name :: "string \<Rightarrow> bool" where
  "lower_name n \<longleftrightarrow> map lower_ascii n = n"

lemma fields_simps [simp]:
  "present_fields [] = []" "present_fields ((n, None) # fs) = present_fields fs" "present_fields ((n, Some v) # fs) = (n, v) # present_fields fs"
  by (simp_all add: present_fields_def List.map_filter_def)

lemma name_matches_lower: "lower_name n \<Longrightarrow> lower_name k \<Longrightarrow> name_matches n k \<longleftrightarrow> n = k"
  by (auto simp: name_matches_def lower_name_def)

lemma members_of_fields_absent:
  "list_all lower_name (map fst fs) \<Longrightarrow> lower_name n \<Longrightarrow> n \<notin> set (map fst fs) \<Longrightarrow> members_of n (present_fields fs) = []"
proof (induction fs)
  case (Cons f fs)
  then show ?case by (cases f; cases "snd f") (auto simp: members_of_def name_matches_lower)
qed (simp add: members_of_def)

lemma decode_field_fields:
  assumes "list_all lower_name (map fst fs)" and "distinct (map fst fs)" and "lower_name n"
  shows "decode_field dec x n (present_fields fs) = (case map_of fs n of Some (Some j) \<Rightarrow> dec x j | _ \<Rightarrow> Some x)"
  using assms
proof (induction fs)
  case (Cons f fs)
  obtain k v where f: "f = (k, v)" by (cases f)
  show ?case
  proof (cases "k = n")
    case True
    then have "members_of n (present_fields fs) = []" using Cons.prems f by (intro members_of_fields_absent) auto
    then show ?thesis using True Cons.prems
      by (cases v) (auto simp: f decode_field_def members_of_def name_matches_lower split: option.split)
  next
    case False
    then have "decode_field dec x n (present_fields (f # fs)) = decode_field dec x n (present_fields fs)"
      using Cons.prems by (cases v) (auto simp: f decode_field_def members_of_def name_matches_lower)
    then show ?thesis using Cons False f by simp
  qed
qed (simp add: decode_field_def members_of_def)

lemma json_ok_fields: "(\<forall>(n, v)\<in>set fs. \<forall>j\<in>set_option v. json_ok j) \<Longrightarrow> json_ok (JObj (present_fields fs))"
  by (induction fs) (auto simp: present_fields_def List.map_filter_def split: option.splits)

end
