(* ===== verification/Cursor.thy ===== *)
theory Cursor
  imports Json
begin

text \<open>
  The opaque list cursors of \<open>src/internal/db/cursor.go\<close>: unpadded URL-safe base64 of a JSON object.
  The text forms of a time, of an identifier and of a search rank belong to \<open>time\<close>, to the uuid
  package and to \<open>strconv\<close>; they are arguments, and the locale \<open>text_forms\<close> states what the
  cursors rely on. Marshalling fails for years outside 0 to 9999, where the code panics.
\<close>

section \<open>Unpadded URL-safe base64\<close>

definition b64_alphabet :: string where
  "b64_alphabet = ''ABCDEFGHIJKLMNOPQRSTUVWXYZabcdefghijklmnopqrstuvwxyz0123456789-_''"

definition b64_index :: "char \<Rightarrow> nat option" where
  "b64_index c = (let i = length (takeWhile (\<lambda>d. d \<noteq> c) b64_alphabet) in if i < 64 then Some i else None)"

fun sextets :: "nat list \<Rightarrow> nat list" where
  "sextets [] = []"
| "sextets [a] = [a div 4, a mod 4 * 16]"
| "sextets [a, b] = [a div 4, a mod 4 * 16 + b div 16, b mod 16 * 4]"
| "sextets (a # b # c # r) = a div 4 # (a mod 4 * 16 + b div 16) # (b mod 16 * 4 + c div 64) # c mod 64 # sextets r"

text \<open>The decoder is not strict: left-over bits of the last group are ignored.\<close>

fun octets :: "nat list \<Rightarrow> nat list option" where
  "octets [] = Some []"
| "octets [x] = None"
| "octets [x, y] = Some [x * 4 + y div 16]"
| "octets [x, y, z] = Some [x * 4 + y div 16, y mod 16 * 16 + z div 4]"
| "octets (x # y # z # w # r) =
     map_option (\<lambda>bs. (x * 4 + y div 16) # (y mod 16 * 16 + z div 4) # (z mod 4 * 64 + w) # bs) (octets r)"

definition RawURLEncoding_Encode :: "string \<Rightarrow> string" where
  "RawURLEncoding_Encode s = map (\<lambda>i. b64_alphabet ! i) (sextets (map of_char s))"

definition RawURLEncoding_Decode :: "string \<Rightarrow> string option" where
  "RawURLEncoding_Decode s =
     (case those (map b64_index (filter (\<lambda>c. c \<noteq> CHR 0x0A \<and> c \<noteq> CHR 0x0D) s)) of
        None \<Rightarrow> None
      | Some xs \<Rightarrow> map_option (map char_of) (octets xs))"

lemma sextets_bound: "\<forall>b\<in>set bs. b < 256 \<Longrightarrow> \<forall>i\<in>set (sextets bs). i < 64"
proof (induction bs rule: sextets.induct)
  case (4 a b c r)
  have "c div 64 < 4" "b div 16 < 16" using 4 by auto
  then show ?case using 4 by (auto simp: less_mult_imp_div_less)
qed (auto simp: less_mult_imp_div_less)

lemma octets_sextets: "\<forall>b\<in>set bs. b < 256 \<Longrightarrow> octets (sextets bs) = Some bs"
proof (induction bs rule: sextets.induct)
  case (4 a b c r)
  have "c div 64 < 4" "b div 16 < 16" using 4 by auto
  then show ?case using 4 by (simp add: div_mult_mod_eq)
next
  case (3 a b)
  have "b div 16 < 16" using 3 by auto
  then show ?case by (simp add: div_mult_mod_eq)
qed (simp_all add: div_mult_mod_eq)

lemma b64_alphabet_length [simp]: "length b64_alphabet = 64" and b64_alphabet_distinct: "distinct b64_alphabet"
  by (simp_all add: b64_alphabet_def)

lemma b64_alphabet_plain: "i < 64 \<Longrightarrow> b64_alphabet ! i \<noteq> CHR 0x0A \<and> b64_alphabet ! i \<noteq> CHR 0x0D"
proof -
  assume "i < 64"
  then have "b64_alphabet ! i \<in> set b64_alphabet" by simp
  moreover have "CHR 0x0A \<notin> set b64_alphabet" "CHR 0x0D \<notin> set b64_alphabet" by (simp_all add: b64_alphabet_def)
  ultimately show ?thesis by metis
qed

lemma takeWhile_index: "distinct xs \<Longrightarrow> i < length xs \<Longrightarrow> length (takeWhile (\<lambda>d. d \<noteq> xs ! i) xs) = i"
proof (induction xs arbitrary: i)
  case (Cons x xs)
  then show ?case by (cases i) auto
qed simp

lemma b64_index_nth: "i < 64 \<Longrightarrow> b64_index (b64_alphabet ! i) = Some i"
  using takeWhile_index [OF b64_alphabet_distinct, of i] by (simp add: b64_index_def)

lemma those_Some: "\<forall>x\<in>set xs. f x = Some x \<Longrightarrow> those (map f xs) = Some xs"
  by (induction xs) auto

lemma b64_roundtrip: "RawURLEncoding_Decode (RawURLEncoding_Encode s) = Some s"
proof -
  let ?is = "sextets (map of_char s)"
  have bytes: "\<forall>b\<in>set (map of_char s). b < (256 :: nat)" by simp
  have i: "\<forall>i\<in>set ?is. i < 64" by (rule sextets_bound [OF bytes])
  have "filter (\<lambda>c. c \<noteq> CHR 0x0A \<and> c \<noteq> CHR 0x0D) (map (\<lambda>i. b64_alphabet ! i) ?is) = map (\<lambda>i. b64_alphabet ! i) ?is"
    using i b64_alphabet_plain by (intro filter_True) auto
  moreover have "those (map (\<lambda>i. b64_index (b64_alphabet ! i)) ?is) = Some ?is"
    using i b64_index_nth by (intro those_Some) auto
  ultimately show ?thesis
    by (simp add: RawURLEncoding_Decode_def RawURLEncoding_Encode_def octets_sextets [OF bytes] o_def)
qed

lemma b64_nonempty: "s \<noteq> [] \<Longrightarrow> RawURLEncoding_Encode s \<noteq> []"
  by (cases s rule: list.exhaust; cases "tl s" rule: list.exhaust; cases "tl (tl s)")
    (auto simp: RawURLEncoding_Encode_def)

section \<open>Text forms\<close>

definition time_marshals :: "time \<Rightarrow> bool" where
  "time_marshals t \<longleftrightarrow> -62167219200 * 1000000000 \<le> t \<and> t < 253402300800 * 1000000000"

record 'r text_codec =
  time_Format :: "time \<Rightarrow> string"
  time_Parse :: "string \<Rightarrow> time option"
  uuid_String :: "uuid \<Rightarrow> string"
  uuid_Parse :: "string \<Rightarrow> uuid option"
  rank_Format :: "'r \<Rightarrow> string"
  rank_Parse :: "string \<Rightarrow> 'r option"

text \<open>
  What the formats promise: each value is read back from its text, at full precision for times in
  the range that marshals, and a rank is a JSON number literal.
\<close>

locale text_forms =
  fixes tc :: "'r::zero text_codec"
  assumes time_back: "time_marshals t \<Longrightarrow> time_Parse tc (time_Format tc t) = Some t"
    and uuid_back: "uuid_Parse tc (uuid_String tc i) = Some i"
    and rank_back: "rank_Parse tc (rank_Format tc r) = Some r"
    and rank_number: "num_ok (rank_Format tc r) \<and> list_all num_char (rank_Format tc r)"

section \<open>Cursors\<close>

record listCursor =
  lc_CreatedAt :: time
  lc_ID :: uuid

record 'r rankCursor =
  rc_Rank :: 'r
  rc_CreatedAt :: time
  rc_ID :: uuid
  rc_Mode :: string

definition cursorModeRank :: string where
  "cursorModeRank = ''rank''"

datatype cursor_error =
    CursorInvalidBase64 | CursorInvalidPayload | CursorMissingID | CursorRankUnderDefault | CursorDefaultUnderRank

text \<open>\<open>None\<close> is the panic.\<close>

definition EncodeCursor :: "'r text_codec \<Rightarrow> time \<Rightarrow> uuid \<Rightarrow> string option" where
  "EncodeCursor tc createdAt i =
     (if time_marshals createdAt then
        Some (RawURLEncoding_Encode (json_print (JObj
          [(''created_at'', JStr (time_Format tc createdAt)), (''id'', JStr (uuid_String tc i))])))
      else None)"

definition EncodeRankCursor :: "'r text_codec \<Rightarrow> 'r \<Rightarrow> time \<Rightarrow> uuid \<Rightarrow> string option" where
  "EncodeRankCursor tc rank createdAt i =
     (if time_marshals createdAt then
        Some (RawURLEncoding_Encode (json_print (JObj
          [(''rank'', JNum (rank_Format tc rank)), (''created_at'', JStr (time_Format tc createdAt)),
           (''id'', JStr (uuid_String tc i)), (''mode'', JStr cursorModeRank)])))
      else None)"

text \<open>\<open>json.Unmarshal\<close> into the three structs of the source; \<open>time.Time{}\<close> is year 1.\<close>

definition time_zero :: time where
  "time_zero = -62135596800 * 1000000000"

definition unmarshal_mode :: "string \<Rightarrow> string option" where
  "unmarshal_mode raw = unmarshal_struct (\<lambda>kvs. decode_field dec_string [] ''mode'' kvs) raw"

definition unmarshal_listCursor :: "'r text_codec \<Rightarrow> string \<Rightarrow> listCursor option" where
  "unmarshal_listCursor tc raw = unmarshal_struct (\<lambda>kvs.
     (case (decode_field (dec_text (time_Parse tc)) time_zero ''created_at'' kvs,
            decode_field (dec_text (uuid_Parse tc)) uuid_Nil ''id'' kvs) of
        (Some t, Some i) \<Rightarrow> Some \<lparr>lc_CreatedAt = t, lc_ID = i\<rparr>
      | _ \<Rightarrow> None)) raw"

definition unmarshal_rankCursor :: "'r::zero text_codec \<Rightarrow> string \<Rightarrow> 'r rankCursor option" where
  "unmarshal_rankCursor tc raw = unmarshal_struct (\<lambda>kvs.
     (case (decode_field (dec_number (rank_Parse tc)) 0 ''rank'' kvs,
            decode_field (dec_text (time_Parse tc)) time_zero ''created_at'' kvs,
            decode_field (dec_text (uuid_Parse tc)) uuid_Nil ''id'' kvs,
            decode_field dec_string [] ''mode'' kvs) of
        (Some r, Some t, Some i, Some m) \<Rightarrow> Some \<lparr>rc_Rank = r, rc_CreatedAt = t, rc_ID = i, rc_Mode = m\<rparr>
      | _ \<Rightarrow> None)) raw"

definition DecodeCursor :: "'r text_codec \<Rightarrow> string \<Rightarrow> cursor_error + time \<times> uuid" where
  "DecodeCursor tc s =
     (if s = [] then Inr (time_zero, uuid_Nil)
      else case RawURLEncoding_Decode s of
        None \<Rightarrow> Inl CursorInvalidBase64
      | Some raw \<Rightarrow>
          if unmarshal_mode raw = Some cursorModeRank then Inl CursorRankUnderDefault
          else (case unmarshal_listCursor tc raw of
              None \<Rightarrow> Inl CursorInvalidPayload
            | Some c \<Rightarrow> if lc_ID c = uuid_Nil then Inl CursorMissingID else Inr (lc_CreatedAt c, lc_ID c)))"

definition DecodeRankCursor :: "'r::zero text_codec \<Rightarrow> string \<Rightarrow> cursor_error + 'r \<times> time \<times> uuid" where
  "DecodeRankCursor tc s =
     (if s = [] then Inr (0, time_zero, uuid_Nil)
      else case RawURLEncoding_Decode s of
        None \<Rightarrow> Inl CursorInvalidBase64
      | Some raw \<Rightarrow>
          (case unmarshal_rankCursor tc raw of
             None \<Rightarrow> Inl CursorInvalidPayload
           | Some c \<Rightarrow>
               if rc_Mode c \<noteq> cursorModeRank then Inl CursorDefaultUnderRank
               else if rc_ID c = uuid_Nil then Inl CursorMissingID
               else Inr (rc_Rank c, rc_CreatedAt c, rc_ID c)))"

section \<open>Cursors are read back, and only under their own ordering\<close>

lemma name_matches_simps [simp]:
  "name_matches ''created_at'' ''created_at''" "name_matches ''id'' ''id''" "name_matches ''mode'' ''mode''"
  "name_matches ''rank'' ''rank''"
  "\<not> name_matches ''created_at'' ''id''" "\<not> name_matches ''created_at'' ''rank''" "\<not> name_matches ''created_at'' ''mode''"
  "\<not> name_matches ''id'' ''created_at''" "\<not> name_matches ''id'' ''rank''" "\<not> name_matches ''id'' ''mode''"
  "\<not> name_matches ''mode'' ''created_at''" "\<not> name_matches ''mode'' ''rank''" "\<not> name_matches ''mode'' ''id''"
  "\<not> name_matches ''rank'' ''created_at''" "\<not> name_matches ''rank'' ''mode''" "\<not> name_matches ''rank'' ''id''"
  by (simp_all add: name_matches_def lower_ascii_def Let_def)

context text_forms
begin

lemma EncodeCursor_raw:
  assumes "EncodeCursor tc t i = Some s"
  obtains raw where "s = RawURLEncoding_Encode raw" "s \<noteq> []" "time_marshals t"
    "json_parse raw = Some (JObj [(''created_at'', JStr (time_Format tc t)), (''id'', JStr (uuid_String tc i))])"
proof -
  let ?v = "JObj [(''created_at'', JStr (time_Format tc t)), (''id'', JStr (uuid_String tc i))]"
  have s: "s = RawURLEncoding_Encode (json_print ?v)" and "time_marshals t"
    using assms by (auto simp: EncodeCursor_def split: if_splits)
  moreover have "json_parse (json_print ?v) = Some ?v" by (rule json_parse_print) simp
  moreover have "s \<noteq> []" unfolding s by (rule b64_nonempty) simp
  ultimately show thesis using that by blast
qed

lemma EncodeRankCursor_raw:
  assumes "EncodeRankCursor tc r t i = Some s"
  obtains raw where "s = RawURLEncoding_Encode raw" "s \<noteq> []" "time_marshals t"
    "json_parse raw = Some (JObj [(''rank'', JNum (rank_Format tc r)), (''created_at'', JStr (time_Format tc t)),
       (''id'', JStr (uuid_String tc i)), (''mode'', JStr cursorModeRank)])"
proof -
  let ?v = "JObj [(''rank'', JNum (rank_Format tc r)), (''created_at'', JStr (time_Format tc t)),
       (''id'', JStr (uuid_String tc i)), (''mode'', JStr cursorModeRank)]"
  have s: "s = RawURLEncoding_Encode (json_print ?v)" and "time_marshals t"
    using assms by (auto simp: EncodeRankCursor_def split: if_splits)
  moreover have "json_parse (json_print ?v) = Some ?v" by (rule json_parse_print) (simp add: rank_number)
  moreover have "s \<noteq> []" unfolding s by (rule b64_nonempty) simp
  ultimately show thesis using that by blast
qed

lemma Decode_Encode:
  assumes "EncodeCursor tc t i = Some s" and "i \<noteq> uuid_Nil"
  shows "DecodeCursor tc s = Inr (t, i)" and "s \<noteq> []"
proof -
  obtain raw where raw: "s = RawURLEncoding_Encode raw" "s \<noteq> []" "time_marshals t"
    "json_parse raw = Some (JObj [(''created_at'', JStr (time_Format tc t)), (''id'', JStr (uuid_String tc i))])"
    by (rule EncodeCursor_raw [OF assms(1)])
  have "unmarshal_mode raw = Some []" "unmarshal_listCursor tc raw = Some \<lparr>lc_CreatedAt = t, lc_ID = i\<rparr>"
    by (simp_all add: unmarshal_mode_def unmarshal_listCursor_def unmarshal_struct_def raw decode_field_simps
        dec_text_def time_back uuid_back)
  then show "DecodeCursor tc s = Inr (t, i)"
    using assms(2) raw(2) by (simp add: DecodeCursor_def raw(1) b64_roundtrip cursorModeRank_def)
  show "s \<noteq> []" by (rule raw(2))
qed

lemma DecodeRank_EncodeRank:
  assumes "EncodeRankCursor tc r t i = Some s" and "i \<noteq> uuid_Nil"
  shows "DecodeRankCursor tc s = Inr (r, t, i)" and "DecodeCursor tc s = Inl CursorRankUnderDefault" and "s \<noteq> []"
proof -
  obtain raw where raw: "s = RawURLEncoding_Encode raw" "s \<noteq> []" "time_marshals t"
    "json_parse raw = Some (JObj [(''rank'', JNum (rank_Format tc r)), (''created_at'', JStr (time_Format tc t)),
       (''id'', JStr (uuid_String tc i)), (''mode'', JStr cursorModeRank)])"
    by (rule EncodeRankCursor_raw [OF assms(1)])
  have m: "unmarshal_mode raw = Some cursorModeRank"
    "unmarshal_rankCursor tc raw = Some \<lparr>rc_Rank = r, rc_CreatedAt = t, rc_ID = i, rc_Mode = cursorModeRank\<rparr>"
    by (simp_all add: unmarshal_mode_def unmarshal_rankCursor_def unmarshal_struct_def raw decode_field_simps
        dec_text_def dec_string_def dec_number_def time_back uuid_back rank_back)
  then show "DecodeRankCursor tc s = Inr (r, t, i)"
    using assms(2) raw(2) by (simp add: DecodeRankCursor_def raw(1) b64_roundtrip)
  show "DecodeCursor tc s = Inl CursorRankUnderDefault"
    using m raw(2) by (simp add: DecodeCursor_def raw(1) b64_roundtrip)
  show "s \<noteq> []" by (rule raw(2))
qed

lemma DecodeRank_Encode:
  assumes "EncodeCursor tc t i = Some s"
  shows "DecodeRankCursor tc s = Inl CursorDefaultUnderRank"
proof -
  obtain raw where raw: "s = RawURLEncoding_Encode raw" "s \<noteq> []" "time_marshals t"
    "json_parse raw = Some (JObj [(''created_at'', JStr (time_Format tc t)), (''id'', JStr (uuid_String tc i))])"
    by (rule EncodeCursor_raw [OF assms])
  have "unmarshal_rankCursor tc raw = Some \<lparr>rc_Rank = 0, rc_CreatedAt = t, rc_ID = i, rc_Mode = []\<rparr>"
    by (simp add: unmarshal_rankCursor_def unmarshal_struct_def raw decode_field_simps dec_text_def time_back uuid_back)
  then show ?thesis using raw(2) by (simp add: DecodeRankCursor_def raw(1) b64_roundtrip cursorModeRank_def)
qed

end

section \<open>A text form\<close>

text \<open>Decimal times and ranks and hexadecimal identifiers satisfy the contract.\<close>

function decimal :: "nat \<Rightarrow> string" where
  "decimal n = (if n < 10 then [hex_digit n] else decimal (n div 10) @ [hex_digit (n mod 10)])"
  by pat_completeness auto
termination by (relation "measure id") auto

declare decimal.simps [simp del]

fun number :: "nat \<Rightarrow> nat \<Rightarrow> string \<Rightarrow> nat option" where
  "number b acc [] = Some acc"
| "number b acc (c # cs) = (case hex_val c of None \<Rightarrow> None | Some d \<Rightarrow> number b (acc * b + d) cs)"

lemma number_append: "number b acc (xs @ ys) = (case number b acc xs of None \<Rightarrow> None | Some k \<Rightarrow> number b k ys)"
  by (induction xs arbitrary: acc) (auto split: option.splits)

lemma number_decimal: "number 10 0 (decimal n) = Some n"
proof (induction n rule: decimal.induct)
  case (1 n)
  have v: "hex_val (hex_digit n) = Some n" if "n < 10" using that by (intro hex_val_hex_digit) simp
  have w: "hex_val (hex_digit (n mod 10)) = Some (n mod 10)" by (intro hex_val_hex_digit) (simp add: order_less_trans [of _ 10])
  show ?case
  proof (cases "n < 10")
    case True
    then show ?thesis by (simp add: decimal.simps [of n] v)
  next
    case False
    then show ?thesis using 1 w by (simp add: decimal.simps [of n] number_append)
  qed
qed

lemma number_hex_digits: "n < 16 ^ k \<Longrightarrow> number 16 0 (hex_digits k n) = Some n"
proof (induction k arbitrary: n)
  case (Suc k)
  then have "n div 16 < 16 ^ k" by (simp add: less_mult_imp_div_less mult.commute)
  then show ?case using Suc.IH by (simp add: number_append hex_val_hex_digit)
qed simp

lemma is_digit_hex_digit: "k < 10 \<Longrightarrow> is_digit (hex_digit k)" and hex_digit_nonzero: "0 < k \<Longrightarrow> k < 10 \<Longrightarrow> hex_digit k \<noteq> CHR ''0''"
proof -
  have ten: "k = 0 \<or> k = 1 \<or> k = 2 \<or> k = 3 \<or> k = 4 \<or> k = 5 \<or> k = 6 \<or> k = 7 \<or> k = 8 \<or> k = 9" if "k < 10"
    using that by arith
  show "is_digit (hex_digit k)" if "k < 10"
    using ten [OF that] by (elim disjE) (simp_all add: hex_digit_def is_digit_def)
  show "0 < k \<Longrightarrow> k < 10 \<Longrightarrow> hex_digit k \<noteq> CHR ''0''" using ten by (auto simp: hex_digit_def)
qed

lemma decimal_digits: "list_all is_digit (decimal n)"
proof (induction n rule: decimal.induct)
  case (1 n)
  then show ?case by (simp add: decimal.simps [of n] is_digit_hex_digit)
qed

lemma decimal_start: "0 < n \<Longrightarrow> \<exists>c r. decimal n = c # r \<and> c \<noteq> CHR ''0''"
proof (induction n rule: decimal.induct)
  case (1 n)
  show ?case
  proof (cases "n < 10")
    case True
    then show ?thesis using 1 by (simp add: decimal.simps [of n] hex_digit_nonzero)
  next
    case False
    then have "0 < n div 10" by arith
    then obtain c r where "decimal (n div 10) = c # r" "c \<noteq> CHR ''0''" using 1 False by blast
    then show ?thesis using False by (simp add: decimal.simps [of n])
  qed
qed

lemma decimal_num_ok: "num_ok (decimal n)"
proof (cases "n = 0")
  case True
  then show ?thesis by (simp add: decimal.simps [of 0] hex_digit_def num_ok_def frac_ok_def exp_ok_def)
next
  case False
  then obtain c r where d: "decimal n = c # r" and c: "c \<noteq> CHR ''0''" using decimal_start by blast
  have digits: "is_digit c" "list_all is_digit r" using decimal_digits [of n] by (simp_all add: d)
  have dw: "dropWhile is_digit r = []" using digits(2) by (simp add: list_all_iff)
  have "frac_ok (dropWhile is_digit r)" unfolding dw by (simp add: frac_ok_def exp_ok_def)
  moreover have "c \<noteq> CHR ''-''" using digits(1) by (auto simp: is_digit_def)
  ultimately show ?thesis using c digits(1) by (simp add: d num_ok_def)
qed

definition plain_codec :: "nat text_codec" where
  "plain_codec =
     \<lparr>time_Format = (\<lambda>t. if t < 0 then CHR ''-'' # decimal (nat (- t)) else decimal (nat t)),
      time_Parse = (\<lambda>s. if take 1 s = ''-'' then map_option (\<lambda>n. - int n) (number 10 0 (drop 1 s)) else map_option int (number 10 0 s)),
      uuid_String = uuid_hex, uuid_Parse = (\<lambda>s. map_option word_of_nat (number 16 0 s)),
      rank_Format = decimal, rank_Parse = number 10 0\<rparr>"

interpretation plain: text_forms plain_codec
proof
  fix t
  show "time_Parse plain_codec (time_Format plain_codec t) = Some t"
  proof (cases "t < 0")
    case False
    have "take 1 (decimal (nat t)) \<noteq> ''-''"
      using decimal_digits [of "nat t"] by (cases "decimal (nat t)") (auto simp: is_digit_def)
    then show ?thesis using False by (simp add: plain_codec_def number_decimal)
  qed (simp add: plain_codec_def number_decimal)
next
  fix i :: uuid
  have "unat i < 16 ^ 32" using unsigned_less [where 'a = nat, of i] by simp
  then show "uuid_Parse plain_codec (uuid_String plain_codec i) = Some i"
    by (simp add: plain_codec_def uuid_hex_def number_hex_digits)
next
  fix r
  show "rank_Parse plain_codec (rank_Format plain_codec r) = Some r" by (simp add: plain_codec_def number_decimal)
  show "num_ok (rank_Format plain_codec r) \<and> list_all num_char (rank_Format plain_codec r)"
    using decimal_digits [of r] decimal_num_ok [of r]
    by (auto simp: plain_codec_def num_char_def list_all_iff)
qed

section \<open>Properties\<close>

text \<open>
  C32. Cursors round-trip and cannot be confused: the cursor of a row decodes to exactly that row's
  position under the ordering that issued it, and the other ordering refuses it with an error of
  its own rather than resuming at a wrong place.
\<close>

theorem cursor_roundtrip:
  assumes "text_forms tc" and "time_marshals t" and "i \<noteq> uuid_Nil"
  shows "\<exists>c rc. EncodeCursor tc t i = Some c \<and> EncodeRankCursor tc r t i = Some rc \<and> c \<noteq> [] \<and> rc \<noteq> [] \<and>
    DecodeCursor tc c = Inr (t, i) \<and> DecodeRankCursor tc rc = Inr (r, t, i) \<and>
    DecodeCursor tc rc = Inl CursorRankUnderDefault \<and> DecodeRankCursor tc c = Inl CursorDefaultUnderRank"
proof -
  obtain c rc where "EncodeCursor tc t i = Some c" "EncodeRankCursor tc r t i = Some rc"
    using assms(2) by (simp add: EncodeCursor_def EncodeRankCursor_def)
  then show ?thesis
    using text_forms.Decode_Encode [OF assms(1) _ assms(3)] text_forms.DecodeRank_EncodeRank [OF assms(1) _ assms(3)]
      text_forms.DecodeRank_Encode [OF assms(1)] by blast
qed

theorem cursor_roundtrip_witness:
  "\<exists>c. EncodeCursor plain_codec 5 7 = Some c \<and> DecodeCursor plain_codec c = Inr (5, 7) \<and>
     DecodeRankCursor plain_codec c = Inl CursorDefaultUnderRank"
proof -
  have "time_marshals 5" "(7 :: uuid) \<noteq> uuid_Nil" by (simp_all add: time_marshals_def)
  from cursor_roundtrip [OF plain.text_forms_axioms this] show ?thesis by blast
qed

end
