(* ===== verification/Paging.thy ===== *)
theory Paging
  imports Cursor "HOL-Library.Product_Lexorder"
begin

text \<open>
  Keyset pagination as every list query of \<open>src/internal/db\<close> does it: rows in descending order of a
  key, one row more than the page to see whether another follows, a cursor that encodes the key of
  the page's last row, and a next page that starts strictly below that key. The locale \<open>keyset\<close>
  proves once that following the cursors yields every row exactly once, in order, and ends.
\<close>

definition MaxListLimit :: int where "MaxListLimit = 200"
definition defaultListLimit :: int where "defaultListLimit = 50"

definition clampLimit :: "int \<Rightarrow> nat" where
  "clampLimit n = (if n \<le> 0 then nat defaultListLimit else if n > MaxListLimit then nat MaxListLimit else nat n)"

lemma clampLimit_range: "0 < clampLimit n \<and> clampLimit n \<le> 200"
  by (auto simp: clampLimit_def defaultListLimit_def MaxListLimit_def)

record Page =
  pg_Limit :: int
  pg_Cursor :: string

text \<open>A list query fails on its cursor, in the driver, or by the panic of the encoder.\<close>

datatype list_error = ListCursor cursor_error | ListDriver string | ListPanic

definition order_desc :: "('a \<Rightarrow> 'k::linorder) \<Rightarrow> 'a list \<Rightarrow> 'a list" where
  "order_desc key rows = rev (sort_key key rows)"

text \<open>The page and its cursor, cut from the rows fetched.\<close>

definition page_cut :: "('a \<Rightarrow> string option) \<Rightarrow> nat \<Rightarrow> 'a list \<Rightarrow> list_error + 'a list \<times> string" where
  "page_cut enc limit out =
     (if length out > limit then
        (case enc (out ! (limit - 1)) of None \<Rightarrow> Inl ListPanic | Some c \<Rightarrow> Inr (take limit out, c))
      else Inr (out, []))"

text \<open>The query over the rows that pass its other conditions.\<close>

definition keyset_list ::
  "('a \<Rightarrow> 'k::linorder) \<Rightarrow> ('a \<Rightarrow> string option) \<Rightarrow> (string \<Rightarrow> cursor_error + 'k) \<Rightarrow> 'a list \<Rightarrow> nat \<Rightarrow> string \<Rightarrow>
   list_error + 'a list \<times> string" where
  "keyset_list key enc dec rows limit cursor =
     (case dec cursor of
        Inl e \<Rightarrow> Inl (ListCursor e)
      | Inr k \<Rightarrow>
          page_cut enc limit
            (take (limit + 1) (order_desc key (filter (\<lambda>r. cursor \<noteq> [] \<longrightarrow> key r < k) rows))))"

text \<open>A client that follows the cursors, with fuel for the number of pages.\<close>

fun walk :: "nat \<Rightarrow> (string \<Rightarrow> 'e + 'a list \<times> string) \<Rightarrow> string \<Rightarrow> 'a list list option" where
  "walk 0 f c = None"
| "walk (Suc n) f c =
     (case f c of
        Inl e \<Rightarrow> None
      | Inr (xs, c') \<Rightarrow> if c' = [] then Some [xs] else map_option ((#) xs) (walk n f c'))"

section \<open>Descending order\<close>

lemma order_desc_filter: "order_desc key (filter P rows) = filter P (order_desc key rows)"
  by (simp add: order_desc_def filter_sort [symmetric] rev_filter)

lemma set_order_desc [simp]: "set (order_desc key rows) = set rows"
  and length_order_desc [simp]: "length (order_desc key rows) = length rows"
  by (simp_all add: order_desc_def)

lemma order_desc_strict:
  assumes "distinct (map key rows)"
  shows "sorted_wrt (\<lambda>a b. key b < key a) (order_desc key rows)"
proof -
  have "sorted (map key (sort_key key rows))" by simp
  moreover have "distinct (map key (sort_key key rows))"
    using assms by (metis distinct_map distinct_sort set_sort)
  ultimately have "sorted_wrt (<) (map key (sort_key key rows))"
    using strict_sorted_iff by blast
  then show ?thesis by (simp add: order_desc_def sorted_wrt_rev sorted_wrt_map)
qed

lemma strict_desc_filter:
  assumes "sorted_wrt (\<lambda>a b. key b < (key a :: 'k::linorder)) xs" and "i < length xs"
  shows "filter (\<lambda>r. key r < key (xs ! i)) xs = drop (Suc i) xs"
proof -
  have "xs = take (Suc i) xs @ drop (Suc i) xs" by simp
  moreover have "filter (\<lambda>r. key r < key (xs ! i)) (take (Suc i) xs) = []"
  proof -
    have "\<not> key (xs ! j) < key (xs ! i)" if "j \<le> i" for j
      using assms that by (cases "j = i") (auto dest: sorted_wrt_nth_less [of _ xs j i])
    then show ?thesis using assms(2) by (auto simp: filter_empty_conv in_set_conv_nth less_Suc_eq_le)
  qed
  moreover have "filter (\<lambda>r. key r < key (xs ! i)) (drop (Suc i) xs) = drop (Suc i) xs"
  proof -
    have "key (xs ! j) < key (xs ! i)" if "i < j" "j < length xs" for j
      using sorted_wrt_nth_less [OF assms(1) that] .
    then show ?thesis by (intro filter_True) (auto simp: in_set_conv_nth)
  qed
  ultimately show ?thesis by (metis append_Nil filter_append)
qed

section \<open>Following the cursors\<close>

locale keyset =
  fixes key :: "'a \<Rightarrow> 'k::linorder"
    and enc :: "'a \<Rightarrow> string option"
    and dec :: "string \<Rightarrow> cursor_error + 'k"
    and good :: "'a \<Rightarrow> bool"
  assumes enc_back: "good r \<Longrightarrow> \<exists>c. enc r = Some c \<and> c \<noteq> [] \<and> dec c = Inr (key r)"
    and dec_first: "\<exists>k. dec [] = Inr k"
begin

text \<open>The cursor that stands for position \<open>i\<close> of the ordered rows.\<close>

definition stands_for :: "'a list \<Rightarrow> nat \<Rightarrow> string \<Rightarrow> bool" where
  "stands_for xs i c \<longleftrightarrow> (if i = 0 then c = [] else i \<le> length xs \<and> c \<noteq> [] \<and> dec c = Inr (key (xs ! (i - 1))))"

lemma page_at:
  assumes rows: "\<forall>r\<in>set rows. good r" "distinct (map key rows)" and "0 < limit" and c: "stands_for (order_desc key rows) i c"
  shows "\<exists>c'. keyset_list key enc dec rows limit c = Inr (take limit (drop i (order_desc key rows)), c') \<and>
    (if length rows - i > limit then stands_for (order_desc key rows) (i + limit) c' \<and> c' \<noteq> [] else c' = [])"
proof -
  define xs where "xs = order_desc key rows"
  have strict: "sorted_wrt (\<lambda>a b. key b < key a) xs" unfolding xs_def by (rule order_desc_strict [OF rows(2)])
  obtain k where k: "dec c = Inr k" and rest: "filter (\<lambda>r. c \<noteq> [] \<longrightarrow> key r < k) xs = drop i xs"
  proof (cases "i = 0")
    case True
    then have "c = []" using c by (simp add: stands_for_def)
    then show thesis using that dec_first True by auto
  next
    case False
    then have "c \<noteq> []" "dec c = Inr (key (xs ! (i - 1)))" "i \<le> length xs" using c by (simp_all add: stands_for_def xs_def)
    moreover from this False have "filter (\<lambda>r. key r < key (xs ! (i - 1))) xs = drop i xs"
      using strict_desc_filter [OF strict, of "i - 1"] by simp
    ultimately show thesis using that by simp
  qed
  have page: "keyset_list key enc dec rows limit c = page_cut enc limit (take (limit + 1) (drop i xs))"
    by (simp add: keyset_list_def k order_desc_filter xs_def [symmetric] rest)
  have len: "length xs = length rows" by (simp add: xs_def)
  show ?thesis
  proof (cases "length rows - i > limit")
    case True
    let ?last = "xs ! (i + limit - 1)"
    have in_xs: "i + limit - 1 < length xs" using True len by simp
    then have "good ?last" using rows(1) nth_mem [OF in_xs] by (simp add: xs_def)
    then obtain c' where c': "enc ?last = Some c'" "c' \<noteq> []" "dec c' = Inr (key ?last)" using enc_back by blast
    have "take (limit + 1) (drop i xs) ! (limit - 1) = ?last"
      using \<open>0 < limit\<close> in_xs by (simp add: add.commute)
    then have "keyset_list key enc dec rows limit c = Inr (take limit (drop i xs), c')"
      unfolding page page_cut_def using True len c'(1) by (simp add: min_def)
    moreover have "stands_for xs (i + limit) c'" using c' True \<open>0 < limit\<close> len by (simp add: stands_for_def)
    ultimately show ?thesis using True c'(2) by (auto simp: xs_def)
  next
    case False
    then show ?thesis unfolding page page_cut_def by (auto simp: len xs_def [symmetric])
  qed
qed

lemma walk_from:
  assumes "\<forall>r\<in>set rows. good r" "distinct (map key rows)" "0 < limit" "stands_for (order_desc key rows) i c" "length rows - i < n"
  shows "\<exists>ps. walk n (keyset_list key enc dec rows limit) c = Some ps \<and>
    concat ps = drop i (order_desc key rows) \<and> (\<forall>p\<in>set ps. length p \<le> limit)"
  using assms(4,5)
proof (induction n arbitrary: i c)
  case (Suc n)
  obtain c' where page: "keyset_list key enc dec rows limit c = Inr (take limit (drop i (order_desc key rows)), c')"
    and c': "if length rows - i > limit then stands_for (order_desc key rows) (i + limit) c' \<and> c' \<noteq> [] else c' = []"
    using page_at [OF assms(1-3) Suc.prems(1)] by blast
  show ?case
  proof (cases "length rows - i > limit")
    case True
    have "length rows - (i + limit) < n" using True Suc.prems(2) \<open>0 < limit\<close> by simp
    then obtain ps where "walk n (keyset_list key enc dec rows limit) c' = Some ps"
      "concat ps = drop (i + limit) (order_desc key rows)" "\<forall>p\<in>set ps. length p \<le> limit"
      using Suc.IH [of "i + limit" c'] c' True by auto
    then show ?thesis
      using True c' by (simp add: page) (metis append_take_drop_id drop_drop add.commute)
  next
    case False
    then show ?thesis using c' by (simp add: page)
  qed
qed simp

text \<open>From the start: every row once, in order, in pages of at most the limit, and then the end.\<close>

lemma walk_all:
  assumes "\<forall>r\<in>set rows. good r" "distinct (map key rows)" "0 < limit" "length rows < n"
  shows "\<exists>ps. walk n (keyset_list key enc dec rows limit) [] = Some ps \<and>
    concat ps = order_desc key rows \<and> (\<forall>p\<in>set ps. length p \<le> limit)"
  using walk_from [OF assms(1-3), of 0 "[]" n] assms(4) by (simp add: stands_for_def)

end

text \<open>Rows under creation time and identifier, as collectors and journal entries are listed.\<close>

lemma created_keyset:
  assumes "text_forms tc"
  shows "keyset (\<lambda>r. (created r, i r)) (\<lambda>r. EncodeCursor tc (created r) (i r)) (DecodeCursor tc) (\<lambda>r. time_marshals (created r) \<and> i r \<noteq> uuid_Nil)"
proof
  fix r
  assume "time_marshals (created r) \<and> i r \<noteq> uuid_Nil"
  then obtain c where "EncodeCursor tc (created r) (i r) = Some c" "i r \<noteq> uuid_Nil" by (auto simp: EncodeCursor_def)
  with text_forms.Decode_Encode [OF assms this]
  show "\<exists>c. EncodeCursor tc (created r) (i r) = Some c \<and> c \<noteq> [] \<and> DecodeCursor tc c = Inr (created r, i r)" by auto
qed (simp add: DecodeCursor_def)

lemma created_walk:
  assumes "text_forms tc" and "distinct (map i all)" and "\<forall>r\<in>set all. time_marshals (created r) \<and> i r \<noteq> uuid_Nil"
  shows "\<exists>ps. walk (Suc (length all)) (keyset_list (\<lambda>r. (created r, i r)) (\<lambda>r. EncodeCursor tc (created r) (i r)) (DecodeCursor tc)
      (filter P all) (clampLimit l)) [] = Some ps \<and> concat ps = order_desc (\<lambda>r. (created r, i r)) (filter P all)"
proof -
  have "distinct (map i (filter P all))" using assms(2) distinct_map_filter by blast
  then have "distinct (map (\<lambda>r. (created r, i r)) (filter P all))" by (auto simp: distinct_map inj_on_def)
  moreover have "length (filter P all) < Suc (length all)" by (simp add: less_Suc_eq_le)
  ultimately show ?thesis
    using keyset.walk_all [OF created_keyset [OF assms(1), of created i], of "filter P all" "clampLimit l" "Suc (length all)"] assms(3) clampLimit_range
    by auto
qed

end
