(* ===== verification/SpecimenRepo.thy ===== *)
theory SpecimenRepo
  imports Paging Database ApiGuard
begin

text \<open>
  The specimen repository of \<open>src/internal/db/specimen_postgres.go\<close> on the relational store, and the
  caller scopes of \<open>src/internal/db/shares.go\<close> that every list query adds. The full-text search of
  Postgres (\<open>search_tsv @@ query\<close> and \<open>ts_rank\<close>) is an argument. The re-rendering of a jsonb column and
  the microsecond precision of a timestamp column are not modelled: a row is read as it was written.
\<close>

section \<open>Caller scopes\<close>

definition isAdmin :: "auth_User \<Rightarrow> bool" where
  "isAdmin u \<longleftrightarrow> ''admin'' \<in> set (u_Roles u)"

definition isAnonymous :: "auth_User \<Rightarrow> bool" where
  "isAnonymous u \<longleftrightarrow> u_ID u = uuid_Nil"

text \<open>The answer of the shares table; identifiers that do not parse are shared with nobody.\<close>

definition NewSharesLookup :: "(string \<Rightarrow> uuid option) \<Rightarrow> database \<Rightarrow> SharesLookup" where
  "NewSharesLookup parse d resourceType resourceID userID =
     (case parse resourceID of
        None \<Rightarrow> Inr False
      | Some rid \<Rightarrow>
          (case parse userID of
             None \<Rightarrow> Inr False
           | Some uid \<Rightarrow> Inr (\<exists>s\<in>set (db_shares d).
               sh_ResourceType s = resourceType \<and> sh_ResourceID s = rid \<and> sh_SharedWith s = uid)))"

text \<open>The WHERE fragments, as predicates on a row.\<close>

definition ownerScope :: "auth_User \<Rightarrow> uuid \<Rightarrow> bool" where
  "ownerScope u author \<longleftrightarrow> isAdmin u \<or> (\<not> isAnonymous u \<and> author = u_ID u)"

definition shared_with :: "database \<Rightarrow> uuid \<Rightarrow> uuid \<Rightarrow> bool" where
  "shared_with d uid i \<longleftrightarrow> i \<in> set (map sh_ResourceID
     (filter (\<lambda>s. sh_ResourceType s = ''specimens'' \<and> sh_SharedWith s = uid) (db_shares d)))"

definition specimenListScope :: "database \<Rightarrow> auth_User \<Rightarrow> Specimen \<Rightarrow> bool" where
  "specimenListScope d u s \<longleftrightarrow>
     (if isAdmin u then True
      else if isAnonymous u then sp_Visibility s = VisibilityPublic
      else sp_AuthorID s = u_ID u \<or> sp_Visibility s = VisibilityPublic \<or> shared_with d (u_ID u) (sp_ID s))"

definition specimenAccessScope :: "database \<Rightarrow> auth_User \<Rightarrow> Specimen \<Rightarrow> bool" where
  "specimenAccessScope d u s \<longleftrightarrow>
     (if isAdmin u then True
      else if isAnonymous u then sp_Visibility s \<in> {VisibilityPublic, VisibilityUnlisted}
      else sp_Visibility s \<in> {VisibilityPublic, VisibilityUnlisted} \<or> sp_AuthorID s = u_ID u
        \<or> shared_with d (u_ID u) (sp_ID s))"

section \<open>Writes\<close>

definition enums_ok :: "Specimen \<Rightarrow> bool" where
  "enums_ok s \<longleftrightarrow> sp_Type s \<in> set specimenTypes \<and> sp_Visibility s \<in> set visibilities \<and>
     set_option (sp_VisibilityPrice s) \<subseteq> set visibilities \<and>
     set_option (sp_VisibilityAcquiredFrom s) \<subseteq> set visibilities \<and>
     set_option (sp_VisibilityImages s) \<subseteq> set visibilities"

definition invalid_enum :: repo_error where
  "invalid_enum = Driver ''invalid_text_representation''"

definition empty_object :: string where
  "empty_object = ''{}''"

definition stored_type_data :: "string \<Rightarrow> string" where
  "stored_type_data td = (if td = [] then empty_object else td)"

definition catalog_clash :: "Specimen \<Rightarrow> Specimen list \<Rightarrow> bool" where
  "catalog_clash s rows \<longleftrightarrow> (\<exists>r\<in>set rows. sp_CatalogNumber s \<noteq> None \<and> sp_CatalogNumber r = sp_CatalogNumber s)"

definition main_image_ok :: "database \<Rightarrow> Specimen \<Rightarrow> bool" where
  "main_image_ok d s \<longleftrightarrow> set_option (sp_MainImageID s) \<subseteq> fi_ID ` set (db_files d)"

text \<open>The author is the caller, whatever the row says.\<close>

definition SpecimenPostgres_Create :: "auth_User \<Rightarrow> Specimen \<Rightarrow> database \<Rightarrow> repo_error + database" where
  "SpecimenPostgres_Create u s d =
     (if \<not> enums_ok s then Inl invalid_enum
      else if sp_ID s \<in> sp_ID ` set (db_specimens d) \<or> catalog_clash s (db_specimens d)
      then Inl (Domain ErrSpecimenConflict)
      else if u_ID u \<notin> us_ID ` set (db_users d) \<or> \<not> main_image_ok d s then Inl fk_violation
      else Inr (d\<lparr>db_specimens := db_specimens d @
             [s\<lparr>sp_AuthorID := u_ID u, sp_TypeData := stored_type_data (sp_TypeData s)\<rparr>]\<rparr>))"

definition CatalogNumbersByAuthor :: "database \<Rightarrow> uuid \<Rightarrow> string set" where
  "CatalogNumbersByAuthor d author =
     set (List.map_filter sp_CatalogNumber (filter (\<lambda>s. sp_AuthorID s = author) (db_specimens d)))"

definition SpecimenPostgres_GetByID :: "database \<Rightarrow> uuid \<Rightarrow> repo_error + Specimen" where
  "SpecimenPostgres_GetByID d i =
     (case find (\<lambda>s. sp_ID s = i) (db_specimens d) of
        None \<Rightarrow> Inl (Domain ErrSpecimenNotFound)
      | Some s \<Rightarrow> Inr s)"

text \<open>An update writes neither the author nor the creation time, and matches on the type as well.\<close>

definition updated_row :: "Specimen \<Rightarrow> Specimen \<Rightarrow> Specimen" where
  "updated_row s r = s\<lparr>sp_AuthorID := sp_AuthorID r, sp_CreatedAt := sp_CreatedAt r,
     sp_TypeData := stored_type_data (sp_TypeData s)\<rparr>"

definition SpecimenPostgres_Update :: "Specimen \<Rightarrow> database \<Rightarrow> repo_error + database" where
  "SpecimenPostgres_Update s d =
     (if \<not> enums_ok s then Inl invalid_enum
      else if \<not> (\<exists>r\<in>set (db_specimens d). sp_ID r = sp_ID s \<and> sp_Type r = sp_Type s) then
        (if sp_ID s \<in> sp_ID ` set (db_specimens d) then Inl (Domain ErrSpecimenTypeImmutable)
         else Inl (Domain ErrSpecimenNotFound))
      else if catalog_clash s (filter (\<lambda>r. sp_ID r \<noteq> sp_ID s) (db_specimens d)) then Inl (Domain ErrSpecimenConflict)
      else if \<not> main_image_ok d s then Inl fk_violation
      else Inr (d\<lparr>db_specimens := map (\<lambda>r. if sp_ID r = sp_ID s \<and> sp_Type r = sp_Type s then updated_row s r else r)
                    (db_specimens d)\<rparr>))"

definition SpecimenPostgres_Delete :: "uuid \<Rightarrow> database \<Rightarrow> repo_error + database" where
  "SpecimenPostgres_Delete i d =
     (if (\<exists>p\<in>set (db_photos d). ph_SpecimenID p = i) \<or> (\<exists>e\<in>set (db_journal d). je_SpecimenID e = i)
      then Inl (Domain ErrSpecimenReferenced)
      else (case delete_specimens (\<lambda>s. sp_ID s = i) d of
          Inl e \<Rightarrow> Inl e
        | Inr (n, d') \<Rightarrow> if n = 0 then Inl (Domain ErrSpecimenNotFound) else Inr d'))"

definition HasPhotoWithFile :: "database \<Rightarrow> uuid \<Rightarrow> uuid \<Rightarrow> bool" where
  "HasPhotoWithFile d specimenID fileID \<longleftrightarrow>
     (\<exists>p\<in>set (db_photos d). ph_SpecimenID p = specimenID \<and> ph_FileID p = fileID)"

section \<open>Lists\<close>

record SpecimenFilter =
  sf_Type :: "SpecimenType option"
  sf_Visibility :: "Visibility option"
  sf_CollectorID :: "uuid option"
  sf_Query :: string
  sf_HasCatalogNumber :: "bool option"
  sf_AcquiredAfter :: "time option"
  sf_AcquiredBefore :: "time option"
  sf_OwnerID :: "uuid option"
  sf_Tagged :: "bool option"

definition cond :: "('a \<Rightarrow> bool) \<Rightarrow> 'a option \<Rightarrow> bool" where
  "cond P x = (case x of None \<Rightarrow> True | Some a \<Rightarrow> P a)"

definition applySharedFilters :: "database \<Rightarrow> SpecimenFilter \<Rightarrow> Specimen \<Rightarrow> bool" where
  "applySharedFilters d f s \<longleftrightarrow>
     cond (\<lambda>t. sp_Type s = t) (sf_Type f) \<and>
     cond (\<lambda>v. sp_Visibility s = v) (sf_Visibility f) \<and>
     cond (\<lambda>b. (sp_CatalogNumber s \<noteq> None) = b) (sf_HasCatalogNumber f) \<and>
     cond (\<lambda>t. case sp_AcquiredAt s of None \<Rightarrow> False | Some a \<Rightarrow> a \<ge> t) (sf_AcquiredAfter f) \<and>
     cond (\<lambda>t. case sp_AcquiredAt s of None \<Rightarrow> False | Some a \<Rightarrow> a \<le> t) (sf_AcquiredBefore f) \<and>
     cond (\<lambda>c. \<exists>r\<in>set (db_specimen_collectors d). sc_SpecimenID r = sp_ID s \<and> sc_CollectorID r = c) (sf_CollectorID f) \<and>
     cond (\<lambda>i. sp_AuthorID s = i) (sf_OwnerID f) \<and>
     cond (\<lambda>b. sp_Tagged s = b) (sf_Tagged f)"

definition filter_enums_ok :: "SpecimenFilter \<Rightarrow> bool" where
  "filter_enums_ok f \<longleftrightarrow> cond (\<lambda>t. t \<in> set specimenTypes) (sf_Type f) \<and> cond (\<lambda>v. v \<in> set visibilities) (sf_Visibility f)"

definition specimen_key :: "Specimen \<Rightarrow> time \<times> uuid" where
  "specimen_key s = (sp_CreatedAt s, sp_ID s)"

definition listDefault ::
  "'r text_codec \<Rightarrow> auth_User \<Rightarrow> SpecimenFilter \<Rightarrow> string \<Rightarrow> nat \<Rightarrow> database \<Rightarrow> list_error + Specimen list \<times> string" where
  "listDefault tc u f cursor limit d =
     (case DecodeCursor tc cursor of
        Inl e \<Rightarrow> Inl (ListCursor e)
      | Inr cur \<Rightarrow>
          if \<not> filter_enums_ok f then Inl (ListDriver ''invalid_text_representation'')
          else page_cut (\<lambda>s. EncodeCursor tc (sp_CreatedAt s) (sp_ID s)) limit
            (take (limit + 1) (order_desc specimen_key
              (filter (\<lambda>s. (cursor \<noteq> [] \<longrightarrow> specimen_key s < cur) \<and> applySharedFilters d f s \<and> specimenListScope d u s)
                (db_specimens d)))))"

text \<open>The full-text search: whether a row matches, and its rank.\<close>

record 'r text_search =
  ts_match :: "string \<Rightarrow> Specimen \<Rightarrow> bool"
  ts_rank :: "string \<Rightarrow> Specimen \<Rightarrow> 'r"

definition rank_key :: "'r text_search \<Rightarrow> string \<Rightarrow> Specimen \<Rightarrow> 'r \<times> time \<times> uuid" where
  "rank_key ts q s = (ts_rank ts q s, sp_CreatedAt s, sp_ID s)"

definition listRanked ::
  "'r::{linorder,zero} text_codec \<Rightarrow> 'r text_search \<Rightarrow> auth_User \<Rightarrow> SpecimenFilter \<Rightarrow> string \<Rightarrow> nat \<Rightarrow> database \<Rightarrow>
   list_error + Specimen list \<times> string" where
  "listRanked tc ts u f cursor limit d =
     (case DecodeRankCursor tc cursor of
        Inl e \<Rightarrow> Inl (ListCursor e)
      | Inr cur \<Rightarrow>
          let q = trimSpace (sf_Query f) in
          if \<not> filter_enums_ok f then Inl (ListDriver ''invalid_text_representation'')
          else page_cut (\<lambda>s. EncodeRankCursor tc (ts_rank ts q s) (sp_CreatedAt s) (sp_ID s)) limit
            (take (limit + 1) (order_desc (rank_key ts q)
              (filter (\<lambda>s. ts_match ts q s \<and> (cursor \<noteq> [] \<longrightarrow> rank_key ts q s < cur) \<and> applySharedFilters d f s
                  \<and> specimenListScope d u s)
                (db_specimens d)))))"

definition SpecimenPostgres_List ::
  "'r::{linorder,zero} text_codec \<Rightarrow> 'r text_search \<Rightarrow> auth_User \<Rightarrow> SpecimenFilter \<Rightarrow> Page \<Rightarrow> database \<Rightarrow>
   list_error + Specimen list \<times> string" where
  "SpecimenPostgres_List tc ts u f page d =
     (let limit = clampLimit (pg_Limit page) in
      if trimSpace (sf_Query f) \<noteq> [] then listRanked tc ts u f (pg_Cursor page) limit d
      else listDefault tc u f (pg_Cursor page) limit d)"

section \<open>Pages of specimens\<close>

definition row_marshals :: "Specimen \<Rightarrow> bool" where
  "row_marshals s \<longleftrightarrow> time_marshals (sp_CreatedAt s) \<and> sp_ID s \<noteq> uuid_Nil"

text \<open>The cursors of both orderings meet the contract of keyset pagination.\<close>

sublocale text_forms \<subseteq> by_time: keyset specimen_key "\<lambda>s. EncodeCursor tc (sp_CreatedAt s) (sp_ID s)" "DecodeCursor tc" row_marshals
proof
  fix s
  assume "row_marshals s"
  then obtain c where "EncodeCursor tc (sp_CreatedAt s) (sp_ID s) = Some c" and "sp_ID s \<noteq> uuid_Nil"
    by (auto simp: row_marshals_def EncodeCursor_def)
  with Decode_Encode [OF this] show "\<exists>c. EncodeCursor tc (sp_CreatedAt s) (sp_ID s) = Some c \<and> c \<noteq> [] \<and> DecodeCursor tc c = Inr (specimen_key s)"
    by (auto simp: specimen_key_def)
qed (simp add: DecodeCursor_def)

context text_forms
begin

lemmas specimens_by_time = by_time.walk_all

end

lemma rank_keyset:
  assumes "text_forms (tc :: 'r::{linorder,zero} text_codec)"
  shows "keyset (rank_key ts q) (\<lambda>s. EncodeRankCursor tc (ts_rank ts q s) (sp_CreatedAt s) (sp_ID s)) (DecodeRankCursor tc) row_marshals"
proof
  fix s
  assume "row_marshals s"
  then obtain c where "EncodeRankCursor tc (ts_rank ts q s) (sp_CreatedAt s) (sp_ID s) = Some c" and "sp_ID s \<noteq> uuid_Nil"
    by (auto simp: row_marshals_def EncodeRankCursor_def)
  with text_forms.DecodeRank_EncodeRank [OF assms this]
  show "\<exists>c. EncodeRankCursor tc (ts_rank ts q s) (sp_CreatedAt s) (sp_ID s) = Some c \<and> c \<noteq> [] \<and> DecodeRankCursor tc c = Inr (rank_key ts q s)"
    by (auto simp: rank_key_def)
qed (simp add: DecodeRankCursor_def)

interpretation ranked: keyset "rank_key ts q" "\<lambda>s. EncodeRankCursor plain_codec (ts_rank ts q s) (sp_CreatedAt s) (sp_ID s)"
    "DecodeRankCursor plain_codec" row_marshals for ts q
  by (rule rank_keyset [OF plain.text_forms_axioms])

text \<open>The rows a list query is about, and its order.\<close>

definition listed :: "'r text_search \<Rightarrow> auth_User \<Rightarrow> SpecimenFilter \<Rightarrow> database \<Rightarrow> Specimen \<Rightarrow> bool" where
  "listed ts u f d s \<longleftrightarrow> applySharedFilters d f s \<and> specimenListScope d u s \<and>
     (trimSpace (sf_Query f) \<noteq> [] \<longrightarrow> ts_match ts (trimSpace (sf_Query f)) s)"

definition list_order :: "'r::linorder text_search \<Rightarrow> SpecimenFilter \<Rightarrow> Specimen list \<Rightarrow> Specimen list" where
  "list_order ts f rows =
     (if trimSpace (sf_Query f) = [] then order_desc specimen_key rows
      else order_desc (rank_key ts (trimSpace (sf_Query f))) rows)"

lemma List_keyset:
  assumes "filter_enums_ok f"
  shows "SpecimenPostgres_List tc ts u f \<lparr>pg_Limit = l, pg_Cursor = c\<rparr> d =
    (if trimSpace (sf_Query f) = []
     then keyset_list specimen_key (\<lambda>s. EncodeCursor tc (sp_CreatedAt s) (sp_ID s)) (DecodeCursor tc)
       (filter (listed ts u f d) (db_specimens d)) (clampLimit l) c
     else keyset_list (rank_key ts (trimSpace (sf_Query f)))
       (\<lambda>s. EncodeRankCursor tc (ts_rank ts (trimSpace (sf_Query f)) s) (sp_CreatedAt s) (sp_ID s)) (DecodeRankCursor tc)
       (filter (listed ts u f d) (db_specimens d)) (clampLimit l) c)"
proof -
  have "filter (\<lambda>s. (c \<noteq> [] \<longrightarrow> specimen_key s < k) \<and> applySharedFilters d f s \<and> specimenListScope d u s) xs =
      filter (\<lambda>s. c \<noteq> [] \<longrightarrow> specimen_key s < k) (filter (listed ts u f d) xs)"
    if "trimSpace (sf_Query f) = []" for k xs
    using that by (auto simp: listed_def intro: filter_cong)
  moreover have "filter (\<lambda>s. ts_match ts (trimSpace (sf_Query f)) s \<and> (c \<noteq> [] \<longrightarrow> rank_key ts (trimSpace (sf_Query f)) s < k) \<and>
        applySharedFilters d f s \<and> specimenListScope d u s) xs =
      filter (\<lambda>s. c \<noteq> [] \<longrightarrow> rank_key ts (trimSpace (sf_Query f)) s < k) (filter (listed ts u f d) xs)"
    if "trimSpace (sf_Query f) \<noteq> []" for k xs
    using that by (auto simp: listed_def intro: filter_cong)
  ultimately show ?thesis
    using assms by (simp add: SpecimenPostgres_List_def listDefault_def listRanked_def keyset_list_def Let_def split: sum.split)
qed

lemma listed_rows:
  assumes "distinct (map sp_ID rows)"
  shows "distinct (map specimen_key (filter P rows))" "distinct (map (rank_key ts q) (filter P rows))"
proof -
  have "inj_on sp_ID (set rows)" and rows: "distinct rows" using assms by (auto simp: distinct_map)
  then have "inj_on specimen_key (set (filter P rows))" "inj_on (rank_key ts q) (set (filter P rows))"
    by (auto simp: inj_on_def specimen_key_def rank_key_def)
  then show "distinct (map specimen_key (filter P rows))" "distinct (map (rank_key ts q) (filter P rows))"
    using rows by (auto simp: distinct_map)
qed

text \<open>
  Following the cursors of a specimen list ends after at most as many pages as there are rows plus one,
  and the pages joined are exactly the rows the caller may list under the filter, each once, newest
  first or, for a search, best match first; no page exceeds 200 rows.
\<close>

lemma specimen_list_walk:
  fixes tc :: "'r::{linorder,zero} text_codec"
  assumes "text_forms tc" and "filter_enums_ok f"
    and "distinct (map sp_ID (db_specimens d))" and "\<forall>s\<in>set (db_specimens d). row_marshals s"
  shows "\<exists>ps. walk (Suc (length (db_specimens d))) (\<lambda>c. SpecimenPostgres_List tc ts u f \<lparr>pg_Limit = l, pg_Cursor = c\<rparr> d) [] = Some ps \<and>
    concat ps = list_order ts f (filter (listed ts u f d) (db_specimens d)) \<and> (\<forall>p\<in>set ps. length p \<le> 200)"
proof -
  define rows where "rows = filter (listed ts u f d) (db_specimens d)"
  have good: "\<forall>s\<in>set rows. row_marshals s" using assms(4) by (simp add: rows_def)
  have fuel: "length rows < Suc (length (db_specimens d))" by (simp add: rows_def less_Suc_eq_le)
  note keys = listed_rows [OF assms(3), where P = "listed ts u f d", folded rows_def]
  have lim: "0 < clampLimit l" "clampLimit l \<le> 200" using clampLimit_range by simp_all
  show ?thesis
  proof (cases "trimSpace (sf_Query f) = []")
    case True
    then have "(\<lambda>c. SpecimenPostgres_List tc ts u f \<lparr>pg_Limit = l, pg_Cursor = c\<rparr> d) =
        keyset_list specimen_key (\<lambda>s. EncodeCursor tc (sp_CreatedAt s) (sp_ID s)) (DecodeCursor tc) rows (clampLimit l)"
      by (simp add: fun_eq_iff List_keyset [OF assms(2)] rows_def)
    with text_forms.specimens_by_time [OF assms(1) good keys(1) lim(1) fuel] lim(2) True show ?thesis
      by (auto simp: list_order_def rows_def [symmetric] simp del: walk.simps intro: order_trans)
  next
    case False
    let ?q = "trimSpace (sf_Query f)"
    have "(\<lambda>c. SpecimenPostgres_List tc ts u f \<lparr>pg_Limit = l, pg_Cursor = c\<rparr> d) =
        keyset_list (rank_key ts ?q) (\<lambda>s. EncodeRankCursor tc (ts_rank ts ?q s) (sp_CreatedAt s) (sp_ID s)) (DecodeRankCursor tc)
          rows (clampLimit l)"
      using False by (simp add: fun_eq_iff List_keyset [OF assms(2)] rows_def)
    with keyset.walk_all [OF rank_keyset [OF assms(1), of ts ?q] good keys(2) lim(1) fuel] lim(2) False show ?thesis
      by (auto simp: list_order_def rows_def [symmetric] simp del: walk.simps intro: order_trans)
  qed
qed

definition two_specimens :: database where
  "two_specimens = empty_database\<lparr>db_specimens :=
     [Specimen_zero\<lparr>sp_ID := 1, sp_Visibility := VisibilityPublic, sp_CreatedAt := 5\<rparr>,
      Specimen_zero\<lparr>sp_ID := 2, sp_Visibility := VisibilityPublic, sp_CreatedAt := 9\<rparr>]\<rparr>"

definition no_filter :: SpecimenFilter where
  "no_filter = \<lparr>sf_Type = None, sf_Visibility = None, sf_CollectorID = None, sf_Query = [], sf_HasCatalogNumber = None,
     sf_AcquiredAfter = None, sf_AcquiredBefore = None, sf_OwnerID = None, sf_Tagged = None\<rparr>"

lemma specimen_list_walk_example:
  "\<exists>ps. walk 3 (\<lambda>c. SpecimenPostgres_List plain_codec \<lparr>ts_match = (\<lambda>_ _. False), ts_rank = (\<lambda>_ _. 0)\<rparr> auth_User_zero no_filter
      \<lparr>pg_Limit = 1, pg_Cursor = c\<rparr> two_specimens) [] = Some ps \<and> map sp_ID (concat ps) = [2, 1]"
proof -
  let ?ts = "\<lparr>ts_match = (\<lambda>_ _. False), ts_rank = (\<lambda>_ _. 0)\<rparr> :: nat text_search"
  have rows: "distinct (map sp_ID (db_specimens two_specimens))" "\<forall>s\<in>set (db_specimens two_specimens). row_marshals s"
    "length (db_specimens two_specimens) = 2" "filter_enums_ok no_filter"
    by (simp_all add: two_specimens_def Specimen_zero_def row_marshals_def time_marshals_def no_filter_def filter_enums_ok_def cond_def)
  have all: "filter (listed ?ts auth_User_zero no_filter two_specimens) (db_specimens two_specimens) = db_specimens two_specimens"
    by (simp add: two_specimens_def listed_def no_filter_def applySharedFilters_def cond_def specimenListScope_def
        isAdmin_def isAnonymous_def auth_User_zero_def Specimen_zero_def trimSpace_def)
  have "map sp_ID (list_order ?ts no_filter (db_specimens two_specimens)) = [2, 1]"
    by (simp add: list_order_def no_filter_def trimSpace_def order_desc_def two_specimens_def specimen_key_def Specimen_zero_def)
  then show ?thesis
    using specimen_list_walk [OF plain.text_forms_axioms rows(4,1,2), of ?ts auth_User_zero 1] rows(3) all
    by (auto simp: numeral_3_eq_3)
qed

section \<open>The scopes and the guard agree\<close>

lemma NewSharesLookup_total: "lookup_total (Some (NewSharesLookup parse d))"
  by (auto simp: lookup_total_def NewSharesLookup_def split: option.splits)

lemma NewSharesLookup_True:
  assumes "\<And>i. parse (str i) = Some i"
  shows "NewSharesLookup parse d ''specimens'' (str i) (str u) = Inr True \<longleftrightarrow> shared_with d u i"
  using assms by (auto simp: NewSharesLookup_def shared_with_def)

lemma access_scope_checkView:
  assumes "guard_ok g enf (Some (NewSharesLookup parse d))" and "\<forall>i. parse (ag_str g i) = Some i"
  shows "(checkView g u (specimenResource (ag_str g) s) code msg = None \<longleftrightarrow> specimenAccessScope d u s) \<and>
    (specimenListScope d u s \<longrightarrow> checkView g u (specimenResource (ag_str g) s) code msg = None)"
proof -
  let ?str = "ag_str g" let ?shares = "Some (NewSharesLookup parse d)"
  let ?a = "authzUser ?str u" let ?res = "specimenResource ?str s"
  have ut: "uuid_text ?str" using assms(1) by (simp add: guard_ok_def)
  have own: "au_ID ?a \<noteq> [] \<and> ?str (sp_AuthorID s) = au_ID ?a \<longleftrightarrow> \<not> isAnonymous u \<and> sp_AuthorID s = u_ID u"
    using authzUser_owns [OF ut, of u "sp_AuthorID s"] by (simp add: isAnonymous_def)
  have ident: "au_ID ?a \<noteq> [] \<longleftrightarrow> \<not> isAnonymous u"
    using uuid_text.str_nonempty [OF ut, of "u_ID u"] by (simp add: authzUser_def isAnonymous_def)
  have shared: "NewSharesLookup parse d ''specimens'' (?str (sp_ID s)) (au_ID ?a) = Inr True \<longleftrightarrow> shared_with d (u_ID u) (sp_ID s)"
    if "\<not> isAnonymous u"
    using that NewSharesLookup_True [of parse ?str d "sp_ID s" "u_ID u"] assms(2) by (simp add: authzUser_def isAnonymous_def)
  have user: "''user'' \<in> set (au_Roles ?a)" if "\<not> isAnonymous u" using that authzUser_identity [of u ?str] by (simp add: isAnonymous_def)
  have grant: "granted ?shares role (au_ID ?a) ?res ''view'' \<longleftrightarrow> role = ''admin''
      \<or> role = ''anonymous'' \<and> sp_Visibility s \<in> {''public'', ''unlisted''}
      \<or> role = ''user'' \<and> \<not> isAnonymous u \<and> (sp_AuthorID s = u_ID u \<or> shared_with d (u_ID u) (sp_ID s))" for role
    using own ident shared uuid_text.str_nonempty [OF ut, of "sp_ID s"]
    by (cases "isAnonymous u") (simp_all add: granted_def specimenResource_def)
  define open_row where "open_row \<longleftrightarrow> sp_Visibility s \<in> {''public'', ''unlisted''}"
  define mine where "mine \<longleftrightarrow> sp_AuthorID s = u_ID u \<or> shared_with d (u_ID u) (sp_ID s)"
  have "guard_check g u ?res ''view'' = None \<longleftrightarrow> open_row \<or> (\<exists>role\<in>set (au_Roles ?a). role = ''admin''
      \<or> role = ''anonymous'' \<and> open_row \<or> role = ''user'' \<and> \<not> isAnonymous u \<and> mine)"
    using guard_ok_check [OF assms(1), of "''view''" u ?res] unfolding grant open_row_def mine_def
    by (simp add: specimenResource_def)
  also have "\<dots> \<longleftrightarrow> open_row \<or> isAdmin u \<or> \<not> isAnonymous u \<and> mine"
    using user authzUser_admin [of ?str u] unfolding isAdmin_def by metis
  finally have check: "guard_check g u ?res ''view'' = None \<longleftrightarrow> open_row \<or> isAdmin u \<or> \<not> isAnonymous u \<and> mine" .
  have "checkView g u ?res code msg = None \<longleftrightarrow> guard_check g u ?res ''view'' = None"
    by (simp add: checkView_def split: option.split)
  moreover have "specimenAccessScope d u s \<longleftrightarrow> open_row \<or> isAdmin u \<or> \<not> isAnonymous u \<and> mine"
    unfolding specimenAccessScope_def open_row_def mine_def by simp
  moreover have "specimenListScope d u s \<Longrightarrow> specimenAccessScope d u s"
    by (simp add: specimenAccessScope_def specimenListScope_def split: if_splits) blast
  ultimately show ?thesis using check by simp
qed

text \<open>
  C34. The two layers of access control agree: with the default policies and the shares table behind
  the guard, a caller may view a specimen exactly when the row passes the point-access scope of the
  queries, and every row the list scope admits is one the guard lets the caller view.
\<close>

theorem access_scope_is_guard:
  assumes "guard_ok g enf (Some (NewSharesLookup parse d))" and "\<forall>i. parse (ag_str g i) = Some i"
  shows "(checkView g u (specimenResource (ag_str g) s) code msg = None \<longleftrightarrow> specimenAccessScope d u s) \<and>
    (specimenListScope d u s \<longrightarrow> checkView g u (specimenResource (ag_str g) s) code msg = None)"
  by (rule access_scope_checkView [OF assms])

theorem access_scope_is_guard_witness:
  "checkView \<lparr>ag_enforcer = Some (model_eval DefaultGroupings (Some (NewSharesLookup (uuid_Parse plain_codec) empty_database)) DefaultPolicies),
      ag_str = uuid_hex\<rparr> auth_User_zero
      (specimenResource uuid_hex (Specimen_zero\<lparr>sp_Visibility := VisibilityUnlisted\<rparr>)) ''specimen_not_found'' [] = None"
proof -
  let ?shares = "Some (NewSharesLookup (uuid_Parse plain_codec) empty_database)"
  let ?g = "\<lparr>ag_enforcer = Some (model_eval DefaultGroupings ?shares DefaultPolicies), ag_str = uuid_hex\<rparr>"
  have "casbin_enforcer (model_eval DefaultGroupings ?shares DefaultPolicies) DefaultPolicies DefaultGroupings ?shares"
    by (rule model.casbin_enforcer_axioms)
  then have g: "guard_ok ?g (model_eval DefaultGroupings ?shares DefaultPolicies) ?shares"
    using hex.uuid_text_axioms NewSharesLookup_total by (simp add: guard_ok_def)
  have parse: "\<forall>i. uuid_Parse plain_codec (ag_str ?g i) = Some i"
    using plain.uuid_back by (simp add: plain_codec_def)
  show ?thesis
    using access_scope_is_guard [OF g parse, of auth_User_zero "Specimen_zero\<lparr>sp_Visibility := VisibilityUnlisted\<rparr>"]
    by (simp add: specimenAccessScope_def isAdmin_def isAnonymous_def auth_User_zero_def)
qed

section \<open>The contract of the repository\<close>

text \<open>
  What a service relies on: the invariant is kept, a created row is read back under the caller as
  author, an update touches one row of the same type and keeps its author and creation time, a
  deletion removes one row, and nothing else changes.
\<close>

locale specimen_repo =
  fixes inv_ok :: "'s \<Rightarrow> bool"
    and create :: "auth_User \<Rightarrow> Specimen \<Rightarrow> 's \<Rightarrow> repo_error + 's"
    and get :: "'s \<Rightarrow> uuid \<Rightarrow> repo_error + Specimen"
    and update :: "Specimen \<Rightarrow> 's \<Rightarrow> repo_error + 's"
    and remove :: "uuid \<Rightarrow> 's \<Rightarrow> repo_error + 's"
  assumes create_ok: "inv_ok d \<Longrightarrow> create u s d = Inr d' \<Longrightarrow> inv_ok d'"
    and update_ok: "inv_ok d \<Longrightarrow> update s d = Inr d' \<Longrightarrow> inv_ok d'"
    and remove_ok: "inv_ok d \<Longrightarrow> remove i d = Inr d' \<Longrightarrow> inv_ok d'"
    and get_create: "inv_ok d \<Longrightarrow> create u s d = Inr d' \<Longrightarrow>
      get d (sp_ID s) = Inl (Domain ErrSpecimenNotFound) \<and>
      get d' i = (if i = sp_ID s then Inr (s\<lparr>sp_AuthorID := u_ID u, sp_TypeData := stored_type_data (sp_TypeData s)\<rparr>) else get d i)"
    and get_update: "inv_ok d \<Longrightarrow> update s d = Inr d' \<Longrightarrow>
      \<exists>r. get d (sp_ID s) = Inr r \<and> sp_Type r = sp_Type s \<and> (\<forall>i. get d' i = (if i = sp_ID s then Inr (updated_row s r) else get d i))"
    and get_remove: "inv_ok d \<Longrightarrow> remove j d = Inr d' \<Longrightarrow>
      (\<exists>r. get d j = Inr r) \<and> get d' i = (if i = j then Inl (Domain ErrSpecimenNotFound) else get d i)"

text \<open>A history of writes; one that fails changes nothing.\<close>

datatype specimen_write = WCreate auth_User Specimen | WUpdate Specimen | WDelete uuid

definition run_write ::
  "(auth_User \<Rightarrow> Specimen \<Rightarrow> 's \<Rightarrow> 'e + 's) \<Rightarrow> (Specimen \<Rightarrow> 's \<Rightarrow> 'e + 's) \<Rightarrow> (uuid \<Rightarrow> 's \<Rightarrow> 'e + 's) \<Rightarrow> specimen_write \<Rightarrow> 's \<Rightarrow> 's" where
  "run_write create update remove w d =
     (case (case w of WCreate u s \<Rightarrow> create u s d | WUpdate s \<Rightarrow> update s d | WDelete i \<Rightarrow> remove i d) of
        Inl e \<Rightarrow> d | Inr d' \<Rightarrow> d')"

definition same_identity :: "Specimen \<Rightarrow> Specimen \<Rightarrow> bool" where
  "same_identity r r' \<longleftrightarrow> sp_ID r' = sp_ID r \<and> sp_Type r' = sp_Type r \<and> sp_AuthorID r' = sp_AuthorID r \<and> sp_CreatedAt r' = sp_CreatedAt r"

context specimen_repo
begin

lemma run_write_ok: "inv_ok d \<Longrightarrow> inv_ok (run_write create update remove w d)"
  by (cases w) (auto simp: run_write_def dest: create_ok update_ok remove_ok split: sum.splits)

lemma run_write_keeps:
  assumes "inv_ok d" and "get d i = Inr r" and "w \<noteq> WDelete i"
  shows "\<exists>r'. get (run_write create update remove w d) i = Inr r' \<and> (sp_ID r = i \<longrightarrow> same_identity r r')"
proof (cases w)
  case (WCreate u s)
  show ?thesis
  proof (cases "create u s d")
    case (Inr d')
    have "i \<noteq> sp_ID s" using get_create [OF assms(1) Inr] assms(2) by auto
    then show ?thesis using get_create [OF assms(1) Inr, of i] assms(2) by (simp add: run_write_def WCreate Inr same_identity_def)
  qed (use assms(2) in \<open>simp add: run_write_def WCreate same_identity_def\<close>)
next
  case (WUpdate s)
  show ?thesis
  proof (cases "update s d")
    case (Inr d')
    obtain q where q: "get d (sp_ID s) = Inr q" "sp_Type q = sp_Type s"
      and g: "\<And>i. get d' i = (if i = sp_ID s then Inr (updated_row s q) else get d i)"
      using get_update [OF assms(1) Inr] by blast
    show ?thesis
    proof (cases "i = sp_ID s")
      case True
      then have "r = q" using assms(2) q by simp
      then show ?thesis using g True q by (simp add: run_write_def WUpdate Inr same_identity_def updated_row_def)
    qed (use assms(2) g in \<open>simp add: run_write_def WUpdate Inr same_identity_def\<close>)
  qed (use assms(2) in \<open>simp add: run_write_def WUpdate same_identity_def\<close>)
next
  case (WDelete j)
  show ?thesis
  proof (cases "remove j d")
    case (Inr d')
    then show ?thesis using get_remove [OF assms(1) Inr, of i] assms(2,3) by (simp add: run_write_def WDelete same_identity_def)
  qed (use assms(2) in \<open>simp add: run_write_def WDelete same_identity_def\<close>)
qed

lemma history_keeps:
  assumes "inv_ok d" and "get d i = Inr r" and "sp_ID r = i" and "WDelete i \<notin> set ws"
  shows "inv_ok (fold (run_write create update remove) ws d) \<and>
    (\<exists>r'. get (fold (run_write create update remove) ws d) i = Inr r' \<and> same_identity r r')"
  using assms
proof (induction ws arbitrary: d r)
  case Nil
  then show ?case by (simp add: same_identity_def)
next
  case (Cons w ws)
  obtain r1 where r1: "get (run_write create update remove w d) i = Inr r1" "same_identity r r1"
    using run_write_keeps [OF Cons.prems(1,2), of w] Cons.prems(3,4) by auto
  have "inv_ok (run_write create update remove w d)" using Cons.prems(1) by (rule run_write_ok)
  from Cons.IH [OF this r1(1)] r1(2) Cons.prems(3,4) show ?case by (auto simp: same_identity_def)
qed

end

definition specimens_ok :: "database \<Rightarrow> bool" where
  "specimens_ok d \<longleftrightarrow> distinct (map sp_ID (db_specimens d)) \<and>
     (\<forall>s\<in>set (db_specimens d). \<forall>r\<in>set (db_specimens d). sp_ID s \<noteq> sp_ID r \<and> sp_CatalogNumber s \<noteq> None \<longrightarrow> sp_CatalogNumber s \<noteq> sp_CatalogNumber r) \<and>
     list_all enums_ok (db_specimens d) \<and> fk_ok d"

lemma refs_append: "refs f (xs @ [x]) g ys \<longleftrightarrow> refs f xs g ys \<and> f x \<in> g ` set ys"
  by (auto simp: refs_def)

lemma refs_append_right: "refs f xs g ys \<Longrightarrow> refs f xs g (ys @ [y])"
  by (auto simp: refs_def)

lemma main_image_append: "main_image_refs (xs @ [x]) ys \<longleftrightarrow> main_image_refs xs ys \<and> set_option (sp_MainImageID x) \<subseteq> fi_ID ` set ys"
  by (auto simp: main_image_refs_def split: option.splits)

text \<open>Each statement alone keeps the references and the primary keys.\<close>

lemma Create_keeps:
  assumes "SpecimenPostgres_Create u s d = Inr d'"
  shows "fk_ok d \<Longrightarrow> fk_ok d'" and "keys_ok d \<Longrightarrow> keys_ok d'"
  using assms by (auto simp: SpecimenPostgres_Create_def fk_ok_def keys_ok_def refs_append refs_append_right main_image_append
      main_image_ok_def split: if_splits)

lemma Update_keeps:
  assumes "SpecimenPostgres_Update s d = Inr d'"
  shows "fk_ok d \<Longrightarrow> fk_ok d'" and "keys_ok d \<Longrightarrow> keys_ok d'"
proof -
  define h where "h r = (if sp_ID r = sp_ID s \<and> sp_Type r = sp_Type s then updated_row s r else r)" for r
  have h: "sp_ID (h r) = sp_ID r" "sp_AuthorID (h r) = sp_AuthorID r" for r by (simp_all add: h_def updated_row_def)
  have row: "main_image_ok d s" and d': "d' = d\<lparr>db_specimens := map h (db_specimens d)\<rparr>"
    using assms by (simp_all add: SpecimenPostgres_Update_def h_def [abs_def] split: if_splits)
  have "main_image_refs (db_specimens d) (db_files d) \<Longrightarrow> main_image_refs (map h (db_specimens d)) (db_files d)"
    using row by (auto simp: main_image_refs_def h_def updated_row_def main_image_ok_def split: option.splits)
  then show "fk_ok d \<Longrightarrow> fk_ok d'" unfolding d' fk_ok_def by (simp add: refs_map refs_map_right h)
  show "keys_ok d \<Longrightarrow> keys_ok d'" by (simp add: d' keys_ok_def h o_def)
qed

lemma Delete_keeps:
  assumes "SpecimenPostgres_Delete i d = Inr d'"
  shows "fk_ok d \<Longrightarrow> fk_ok d'" and "keys_ok d \<Longrightarrow> keys_ok d'"
    and "db_files d' = db_files d" and "set (db_photos d') \<subseteq> set (db_photos d)"
proof -
  obtain n where n: "delete_specimens (\<lambda>s. sp_ID s = i) d = Inr (n, d')"
    using assms by (auto simp: SpecimenPostgres_Delete_def split: if_splits sum.splits)
  show "fk_ok d \<Longrightarrow> fk_ok d'" by (rule delete_specimens_fk [OF n])
  show "keys_ok d \<Longrightarrow> keys_ok d'" "db_files d' = db_files d" "set (db_photos d') \<subseteq> set (db_photos d)"
    using n by (auto simp: delete_specimens_def Let_def keys_ok_def distinct_map_filter)
qed

lemma Create_ok:
  assumes "specimens_ok d" and "SpecimenPostgres_Create u s d = Inr d'"
  shows "specimens_ok d'"
proof -
  let ?row = "s\<lparr>sp_AuthorID := u_ID u, sp_TypeData := stored_type_data (sp_TypeData s)\<rparr>"
  have new: "enums_ok s" "sp_ID s \<notin> sp_ID ` set (db_specimens d)" "\<not> catalog_clash s (db_specimens d)"
    "u_ID u \<in> us_ID ` set (db_users d)" "main_image_ok d s" and d': "d' = d\<lparr>db_specimens := db_specimens d @ [?row]\<rparr>"
    using assms(2) by (simp_all add: SpecimenPostgres_Create_def split: if_splits)
  have "fk_ok d'" using Create_keeps(1) [OF assms(2)] assms(1) by (simp add: specimens_ok_def)
  moreover have "list_all enums_ok (db_specimens d')"
    using assms(1) new(1) by (simp add: d' specimens_ok_def enums_ok_def)
  moreover have "\<forall>s\<in>set (db_specimens d'). \<forall>r\<in>set (db_specimens d'). sp_ID s \<noteq> sp_ID r \<and> sp_CatalogNumber s \<noteq> None \<longrightarrow> sp_CatalogNumber s \<noteq> sp_CatalogNumber r"
    using assms(1) new(3) unfolding d' specimens_ok_def catalog_clash_def by fastforce
  moreover have "distinct (map sp_ID (db_specimens d'))"
    using assms(1) new(2) by (simp add: d' specimens_ok_def)
  ultimately show ?thesis by (simp add: specimens_ok_def)
qed

lemma Update_ok:
  assumes "specimens_ok d" and "SpecimenPostgres_Update s d = Inr d'"
  shows "specimens_ok d'"
proof -
  define h where "h r = (if sp_ID r = sp_ID s \<and> sp_Type r = sp_Type s then updated_row s r else r)" for r
  have h: "sp_ID (h r) = sp_ID r" "sp_AuthorID (h r) = sp_AuthorID r" for r by (simp_all add: h_def updated_row_def)
  have row: "enums_ok s" "\<not> catalog_clash s (filter (\<lambda>r. sp_ID r \<noteq> sp_ID s) (db_specimens d))" "main_image_ok d s"
    and d': "d' = d\<lparr>db_specimens := map h (db_specimens d)\<rparr>"
    using assms(2) by (simp_all add: SpecimenPostgres_Update_def h_def [abs_def] split: if_splits)
  have "fk_ok d'" using Update_keeps(1) [OF assms(2)] assms(1) by (simp add: specimens_ok_def)
  moreover have "list_all enums_ok (db_specimens d')"
    using assms(1) row(1) by (auto simp: d' specimens_ok_def list_all_iff h_def updated_row_def enums_ok_def)
  moreover have "\<forall>s\<in>set (db_specimens d'). \<forall>r\<in>set (db_specimens d'). sp_ID s \<noteq> sp_ID r \<and> sp_CatalogNumber s \<noteq> None \<longrightarrow> sp_CatalogNumber s \<noteq> sp_CatalogNumber r"
  proof (intro ballI impI)
    fix a b
    assume a: "a \<in> set (db_specimens d')" and b: "b \<in> set (db_specimens d')" and ne: "sp_ID a \<noteq> sp_ID b \<and> sp_CatalogNumber a \<noteq> None"
    obtain x y where xy: "x \<in> set (db_specimens d)" "a = h x" "y \<in> set (db_specimens d)" "b = h y" using a b by (auto simp: d')
    have old: "sp_CatalogNumber x \<noteq> None \<longrightarrow> sp_CatalogNumber x \<noteq> sp_CatalogNumber y" using assms(1) xy ne h by (auto simp: specimens_ok_def)
    have clash: "sp_CatalogNumber s \<noteq> None \<longrightarrow> sp_CatalogNumber r \<noteq> sp_CatalogNumber s" if "r \<in> set (db_specimens d)" "sp_ID r \<noteq> sp_ID s" for r
      using row(2) that by (auto simp: catalog_clash_def)
    show "sp_CatalogNumber a \<noteq> sp_CatalogNumber b"
      using old clash [OF xy(1)] clash [OF xy(3)] ne xy(2,4) by (auto simp: h_def updated_row_def split: if_splits)
  qed
  moreover have "distinct (map sp_ID (db_specimens d'))"
    using assms(1) by (simp add: d' specimens_ok_def h o_def)
  ultimately show ?thesis by (simp add: specimens_ok_def)
qed

lemma Delete_ok:
  assumes "specimens_ok d" and "SpecimenPostgres_Delete i d = Inr d'"
  shows "specimens_ok d'"
proof -
  obtain n where n: "delete_specimens (\<lambda>s. sp_ID s = i) d = Inr (n, d')"
    using assms(2) by (auto simp: SpecimenPostgres_Delete_def split: if_splits sum.splits)
  then have d': "db_specimens d' = filter (\<lambda>s. sp_ID s \<noteq> i) (db_specimens d)" by (auto simp: delete_specimens_def Let_def)
  have "fk_ok d'" using Delete_keeps(1) [OF assms(2)] assms(1) by (simp add: specimens_ok_def)
  then show ?thesis using assms(1) by (auto simp: specimens_ok_def d' list_all_iff distinct_map_filter)
qed

lemma GetByID_iff:
  assumes "distinct (map sp_ID (db_specimens d))"
  shows "SpecimenPostgres_GetByID d i = Inr s \<longleftrightarrow> s \<in> set (db_specimens d) \<and> sp_ID s = i"
proof -
  have "find (\<lambda>s. sp_ID s = i) xs = Some s \<longleftrightarrow> s \<in> set xs \<and> sp_ID s = i" if "distinct (map sp_ID xs)" for xs
    using that by (induction xs) (auto simp: rev_image_eqI)
  from this [OF assms] show ?thesis by (auto simp: SpecimenPostgres_GetByID_def split: option.splits)
qed

lemma GetByID_cases:
  "SpecimenPostgres_GetByID d i = (if \<exists>s. SpecimenPostgres_GetByID d i = Inr s then SpecimenPostgres_GetByID d i else Inl (Domain ErrSpecimenNotFound))"
  by (auto simp: SpecimenPostgres_GetByID_def split: option.splits)

lemma GetByID_eqI:
  assumes "\<And>s. SpecimenPostgres_GetByID d i = Inr s \<longleftrightarrow> SpecimenPostgres_GetByID e i = Inr s"
  shows "SpecimenPostgres_GetByID d i = SpecimenPostgres_GetByID e i"
  using GetByID_cases [of d i] GetByID_cases [of e i] assms by metis

lemma GetByID_none:
  assumes "\<And>s. SpecimenPostgres_GetByID d i \<noteq> Inr s"
  shows "SpecimenPostgres_GetByID d i = Inl (Domain ErrSpecimenNotFound)"
  using GetByID_cases [of d i] assms by metis

interpretation specimen_postgres:
  specimen_repo specimens_ok SpecimenPostgres_Create SpecimenPostgres_GetByID SpecimenPostgres_Update SpecimenPostgres_Delete
proof
  fix d d' :: database and u s i
  assume ok: "specimens_ok d" and run: "SpecimenPostgres_Create u s d = Inr d'"
  show ok': "specimens_ok d'" by (rule Create_ok [OF ok run])
  let ?row = "s\<lparr>sp_AuthorID := u_ID u, sp_TypeData := stored_type_data (sp_TypeData s)\<rparr>"
  have new: "sp_ID s \<notin> sp_ID ` set (db_specimens d)" and d': "db_specimens d' = db_specimens d @ [?row]"
    using run by (auto simp: SpecimenPostgres_Create_def split: if_splits)
  have iff: "SpecimenPostgres_GetByID d j = Inr r \<longleftrightarrow> r \<in> set (db_specimens d) \<and> sp_ID r = j"
    "SpecimenPostgres_GetByID d' j = Inr r \<longleftrightarrow> r \<in> set (db_specimens d') \<and> sp_ID r = j" for j r
    using ok ok' by (auto simp: specimens_ok_def GetByID_iff)
  have fresh: "sp_ID r \<noteq> sp_ID s" if "r \<in> set (db_specimens d)" for r using new that by (metis imageI)
  have "SpecimenPostgres_GetByID d (sp_ID s) = Inl (Domain ErrSpecimenNotFound)"
    by (rule GetByID_none) (use iff(1) fresh in auto)
  moreover have "SpecimenPostgres_GetByID d' i = SpecimenPostgres_GetByID d i" if "i \<noteq> sp_ID s"
    by (rule GetByID_eqI) (use iff that d' in auto)
  moreover have "SpecimenPostgres_GetByID d' (sp_ID s) = Inr ?row" using iff(2) d' by simp
  ultimately show "SpecimenPostgres_GetByID d (sp_ID s) = Inl (Domain ErrSpecimenNotFound) \<and>
      SpecimenPostgres_GetByID d' i = (if i = sp_ID s then Inr ?row else SpecimenPostgres_GetByID d i)" by simp
next
  fix d d' :: database and s
  assume ok: "specimens_ok d" and run: "SpecimenPostgres_Update s d = Inr d'"
  show ok': "specimens_ok d'" by (rule Update_ok [OF ok run])
  define h where "h r = (if sp_ID r = sp_ID s \<and> sp_Type r = sp_Type s then updated_row s r else r)" for r
  obtain r where r: "r \<in> set (db_specimens d)" "sp_ID r = sp_ID s" "sp_Type r = sp_Type s" and d': "db_specimens d' = map h (db_specimens d)"
    using run by (auto simp: SpecimenPostgres_Update_def h_def [abs_def] split: if_splits)
  have h: "sp_ID (h x) = sp_ID x" for x by (simp add: h_def updated_row_def)
  have iff: "SpecimenPostgres_GetByID d j = Inr x \<longleftrightarrow> x \<in> set (db_specimens d) \<and> sp_ID x = j"
    "SpecimenPostgres_GetByID d' j = Inr x \<longleftrightarrow> x \<in> h ` set (db_specimens d) \<and> sp_ID x = j" for j x
    using ok ok' d' by (auto simp: specimens_ok_def GetByID_iff)
  have "SpecimenPostgres_GetByID d (sp_ID s) = Inr r" using iff(1) r by simp
  moreover have "SpecimenPostgres_GetByID d' (sp_ID s) = Inr (updated_row s r)"
    using iff(2) r by (auto simp: h_def [of r] updated_row_def intro!: image_eqI [of _ h r])
  moreover have "SpecimenPostgres_GetByID d' i = SpecimenPostgres_GetByID d i" if "i \<noteq> sp_ID s" for i
  proof (rule GetByID_eqI)
    fix x
    have "x \<in> h ` set (db_specimens d) \<and> sp_ID x = i \<longleftrightarrow> x \<in> set (db_specimens d) \<and> sp_ID x = i"
      using that h by (auto simp: h_def updated_row_def split: if_splits)
    then show "SpecimenPostgres_GetByID d' i = Inr x \<longleftrightarrow> SpecimenPostgres_GetByID d i = Inr x" using iff by simp
  qed
  ultimately show "\<exists>r. SpecimenPostgres_GetByID d (sp_ID s) = Inr r \<and> sp_Type r = sp_Type s \<and>
      (\<forall>i. SpecimenPostgres_GetByID d' i = (if i = sp_ID s then Inr (updated_row s r) else SpecimenPostgres_GetByID d i))"
    using r(3) by auto
next
  fix d d' :: database and i j
  assume ok: "specimens_ok d" and run: "SpecimenPostgres_Delete j d = Inr d'"
  show ok': "specimens_ok d'" by (rule Delete_ok [OF ok run])
  have d': "db_specimens d' = filter (\<lambda>s. sp_ID s \<noteq> j) (db_specimens d)" and ex: "\<exists>r\<in>set (db_specimens d). sp_ID r = j"
    using run by (auto simp: SpecimenPostgres_Delete_def delete_specimens_def Let_def filter_empty_conv split: if_splits)
  have iff: "SpecimenPostgres_GetByID d k = Inr r \<longleftrightarrow> r \<in> set (db_specimens d) \<and> sp_ID r = k"
    "SpecimenPostgres_GetByID d' k = Inr r \<longleftrightarrow> r \<in> set (db_specimens d') \<and> sp_ID r = k" for k r
    using ok ok' by (auto simp: specimens_ok_def GetByID_iff)
  have "SpecimenPostgres_GetByID d' j = Inl (Domain ErrSpecimenNotFound)"
    by (rule GetByID_none) (use iff(2) d' in auto)
  moreover have "SpecimenPostgres_GetByID d' i = SpecimenPostgres_GetByID d i" if "i \<noteq> j"
    by (rule GetByID_eqI) (use iff that d' in auto)
  moreover have "\<exists>r. SpecimenPostgres_GetByID d j = Inr r" using ex iff(1) by auto
  ultimately show "(\<exists>r. SpecimenPostgres_GetByID d j = Inr r) \<and>
      SpecimenPostgres_GetByID d' i = (if i = j then Inl (Domain ErrSpecimenNotFound) else SpecimenPostgres_GetByID d i)" by simp
qed

text \<open>
  C35. Whatever creates, updates and deletes run, in any order and with any rows, the table keeps its
  constraints (identifiers and catalog numbers unique, enumerations valid, foreign keys intact), and a
  specimen that is not deleted keeps its type, author and creation time for ever.
\<close>

theorem specimen_history_invariant:
  assumes "specimens_ok d" and "r \<in> set (db_specimens d)" and "WDelete (sp_ID r) \<notin> set ws"
  shows "let d' = fold (run_write SpecimenPostgres_Create SpecimenPostgres_Update SpecimenPostgres_Delete) ws d in
    specimens_ok d' \<and> (\<exists>r'\<in>set (db_specimens d'). same_identity r r')"
proof -
  have "distinct (map sp_ID (db_specimens d))" using assms(1) by (simp add: specimens_ok_def)
  then have get: "SpecimenPostgres_GetByID d (sp_ID r) = Inr r" using assms(2) by (simp add: GetByID_iff)
  let ?d' = "fold (run_write SpecimenPostgres_Create SpecimenPostgres_Update SpecimenPostgres_Delete) ws d"
  obtain r' where "specimens_ok ?d'" "SpecimenPostgres_GetByID ?d' (sp_ID r) = Inr r'" "same_identity r r'"
    using specimen_postgres.history_keeps [OF assms(1) get refl assms(3)] by blast
  moreover from this have "r' \<in> set (db_specimens ?d')" by (auto simp: specimens_ok_def GetByID_iff)
  ultimately show ?thesis by (auto simp: Let_def)
qed

theorem specimen_history_invariant_witness:
  "let r = Specimen_zero\<lparr>sp_ID := 20, sp_Type := ''rock'', sp_Visibility := VisibilityPublic, sp_AuthorID := 7\<rparr>;
       d = empty_database\<lparr>db_users := [User_zero\<lparr>us_ID := 7\<rparr>], db_specimens := [r]\<rparr>;
       d' = fold (run_write SpecimenPostgres_Create SpecimenPostgres_Update SpecimenPostgres_Delete)
         [WUpdate (r\<lparr>sp_Name := ''granite'', sp_AuthorID := 8\<rparr>), WDelete 9] d in
   \<exists>r'\<in>set (db_specimens d'). sp_AuthorID r' = 7 \<and> sp_Type r' = ''rock''"
proof -
  let ?r = "Specimen_zero\<lparr>sp_ID := 20, sp_Type := ''rock'', sp_Visibility := VisibilityPublic, sp_AuthorID := 7\<rparr>"
  let ?d = "empty_database\<lparr>db_users := [User_zero\<lparr>us_ID := 7\<rparr>], db_specimens := [?r]\<rparr>"
  have ok: "specimens_ok ?d"
    by (simp add: specimens_ok_def empty_database_def fk_ok_def refs_def main_image_refs_def Specimen_zero_def enums_ok_def
        specimenTypes_def visibilities_def)
  have "?r \<in> set (db_specimens ?d)" "WDelete (sp_ID ?r) \<notin> set [WUpdate (?r\<lparr>sp_Name := ''granite'', sp_AuthorID := 8\<rparr>), WDelete 9]"
    by (simp_all add: Specimen_zero_def)
  from specimen_history_invariant [OF ok this] show ?thesis
    unfolding Let_def same_identity_def by (elim conjE bexE) (rule bexI, simp_all)
qed

end
