(* ===== verification/Formula.thy ===== *)
theory Formula
  imports Json
begin

text \<open>
  The normalisation of chemical formulas in \<open>src/internal/mindat/format.go\<close>: HTML sub- and superscripts
  and a few entities become Unicode text, and every other tag is stripped. Strings are UTF-8 bytes;
  letter case is folded in ASCII. The entities are replaced in the iteration order of a Go map, which
  the language leaves open, so the order is an argument.
\<close>

definition subscriptRune :: "char \<Rightarrow> nat option" where
  "subscriptRune r = (if is_digit r then Some (8320 + (of_char r - 48)) else None)"

definition superscriptRune :: "char \<Rightarrow> nat option" where
  "superscriptRune r =
     (if r = CHR ''0'' then Some 8304
      else if r = CHR ''1'' then Some 185
      else if r = CHR ''2'' then Some 178
      else if r = CHR ''3'' then Some 179
      else if is_digit r then Some (8308 + (of_char r - 52))
      else if r = CHR ''+'' then Some 8314
      else if r = CHR ''-'' then Some 8315
      else if r = CHR ''n'' then Some 8319
      else None)"

text \<open>All of the text maps, or none of it does; a byte of a longer rune maps to nothing.\<close>

definition mapRunes :: "(char \<Rightarrow> nat option) \<Rightarrow> string \<Rightarrow> string option" where
  "mapRunes mapper s = (if s = [] then None else map_option (\<lambda>ns. concat (map utf8 ns)) (those (map mapper s)))"

definition has_prefix_fold :: "string \<Rightarrow> string \<Rightarrow> bool" where
  "has_prefix_fold p s \<longleftrightarrow> map lower_ascii (take (length p) s) = p"

text \<open>
  \<open>(?i)<tag>([^<]*)</tag>\<close> replaced from left to right: the text between the tags runs to the next \<open><\<close>.
  A match that does not map is kept.
\<close>

definition tag_match :: "string \<Rightarrow> string \<Rightarrow> (string \<times> string) option" where
  "tag_match tag s =
     (let open_tag = ''<'' @ tag @ ''>''; close_tag = ''</'' @ tag @ ''>'' in
      if has_prefix_fold open_tag s then
        (let r = drop (length open_tag) s;
             inner = takeWhile (\<lambda>c. c \<noteq> CHR ''<'') r;
             r' = dropWhile (\<lambda>c. c \<noteq> CHR ''<'') r
         in if has_prefix_fold close_tag r' then Some (inner, drop (length close_tag) r') else None)
      else None)"

lemma tag_match_length: "tag_match tag (c # cs) = Some (inner, r) \<Longrightarrow> length r \<le> length cs"
proof -
  assume m: "tag_match tag (c # cs) = Some (inner, r)"
  have "length (dropWhile (\<lambda>c. c \<noteq> CHR ''<'') (drop (length tag + 2) (c # cs))) \<le> length cs"
    by (rule order_trans [OF length_dropWhile_le]) simp
  then show ?thesis using m by (auto simp: tag_match_def Let_def split: if_splits)
qed

function replace_tag :: "string \<Rightarrow> (char \<Rightarrow> nat option) \<Rightarrow> string \<Rightarrow> string" where
  "replace_tag tag mapper [] = []"
| "replace_tag tag mapper (c # cs) =
     (case tag_match tag (c # cs) of
        None \<Rightarrow> c # replace_tag tag mapper cs
      | Some (inner, r) \<Rightarrow>
          (case mapRunes mapper inner of
             Some m \<Rightarrow> m @ replace_tag tag mapper r
           | None \<Rightarrow> take (Suc (length cs) - length r) (c # cs) @ replace_tag tag mapper r))"
  by pat_completeness auto
termination
  by (relation "measure (\<lambda>(_, _, s). length s)") (auto dest: tag_match_length)

function replaceAll :: "string \<Rightarrow> string \<Rightarrow> string \<Rightarrow> string" where
  "replaceAll old new [] = []"
| "replaceAll old new (c # cs) =
     (if old \<noteq> [] \<and> hasPrefix (c # cs) old then new @ replaceAll old new (drop (length old - 1) cs)
      else c # replaceAll old new cs)"
  by pat_completeness auto
termination
  by (relation "measure (\<lambda>(_, _, s). length s)") auto

definition knownEntities :: "(string \<times> string) list" where
  "knownEntities = [(''&middot;'', utf8 183), (''&amp;'', ''&''), (''&nbsp;'', '' ''), (''&minus;'', utf8 8722)]"

text \<open>\<open><[^>]*>\<close> removed from left to right.\<close>

function strip_tags :: "string \<Rightarrow> string" where
  "strip_tags [] = []"
| "strip_tags (c # cs) =
     (if c = CHR ''<'' \<and> CHR ''>'' \<in> set cs then strip_tags (tl (dropWhile (\<lambda>c. c \<noteq> CHR ''>'') cs))
      else c # strip_tags cs)"
  by pat_completeness auto
termination
proof (relation "measure length")
  fix c cs
  assume "c = CHR ''<'' \<and> CHR ''>'' \<in> set cs"
  show "(tl (dropWhile (\<lambda>c. c \<noteq> CHR ''>'') cs), c # cs) \<in> measure length"
    using length_dropWhile_le [of "\<lambda>c. c \<noteq> CHR ''>''" cs] by (simp add: less_Suc_eq_le)
qed auto

definition NormalizeChemicalFormula :: "(string \<times> string) list \<Rightarrow> string \<Rightarrow> string" where
  "NormalizeChemicalFormula entities s =
     (if s = [] then s
      else if CHR ''<'' \<notin> set s \<and> CHR ''&'' \<notin> set s then s
      else strip_tags
        (fold (\<lambda>(raw, repl) out. replaceAll raw repl out) entities
          (replace_tag ''sup'' superscriptRune (replace_tag ''sub'' subscriptRune s))))"

section \<open>What normalisation leaves\<close>

text \<open>No tag is left: after a \<open><\<close> there is no \<open>>\<close>.\<close>

fun tag_free :: "string \<Rightarrow> bool" where
  "tag_free [] = True"
| "tag_free (c # cs) = ((c = CHR ''<'' \<longrightarrow> CHR ''>'' \<notin> set cs) \<and> tag_free cs)"

lemma set_strip_tags: "set (strip_tags s) \<subseteq> set s"
proof (induction s rule: strip_tags.induct)
  case (2 c cs)
  have "set (tl (dropWhile (\<lambda>c. c \<noteq> CHR ''>'') cs)) \<subseteq> set cs"
    using set_dropWhileD [of _ "\<lambda>c. c \<noteq> CHR ''>''" cs] by (metis list.sel(2) list.set_sel(2) subsetI)
  then show ?case using 2 by (auto split: if_splits)
qed simp

lemma strip_tags_free: "tag_free (strip_tags s)"
proof (induction s rule: strip_tags.induct)
  case (2 c cs)
  then show ?case using set_strip_tags [of cs] by auto
qed simp

lemma no_tag_free: "CHR ''<'' \<notin> set s \<Longrightarrow> tag_free s"
  by (induction s) auto

lemma strip_tags_id: "tag_free s \<Longrightarrow> strip_tags s = s"
  by (induction s) auto

lemma lower_ascii_code: "of_char (lower_ascii c) = (if 65 \<le> (of_char c :: nat) \<and> (of_char c :: nat) \<le> 90 then of_char c + 32 else (of_char c :: nat))"
  by (simp add: lower_ascii_def Let_def)

lemma lower_ascii_sign: "(of_char d :: nat) < 65 \<Longrightarrow> lower_ascii c = d \<Longrightarrow> c = d"
  using lower_ascii_code [of c] by (auto simp: lower_ascii_def Let_def split: if_splits)

lemmas lower_ascii_lt = lower_ascii_sign [of "CHR ''<''", simplified]
  and lower_ascii_gt = lower_ascii_sign [of "CHR ''>''", simplified]

lemma tag_match_not_free:
  assumes "tag_match tag s = Some x"
  shows "\<not> tag_free s"
proof -
  have p: "has_prefix_fold (''<'' @ tag @ ''>'') s" using assms by (auto simp: tag_match_def Let_def split: if_splits)
  obtain c cs where s: "s = c # cs" using p by (cases s) (auto simp: has_prefix_fold_def)
  then have c: "c = CHR ''<''" using p lower_ascii_lt by (simp add: has_prefix_fold_def)
  have "CHR ''>'' \<in> lower_ascii ` set cs"
  proof -
    have "map lower_ascii (take (Suc (length tag)) cs) = tag @ ''>''" using p s by (simp add: has_prefix_fold_def)
    then have "CHR ''>'' \<in> set (map lower_ascii (take (Suc (length tag)) cs))" by simp
    then show ?thesis by (auto dest: in_set_takeD)
  qed
  then have "CHR ''>'' \<in> set cs" using lower_ascii_gt by force
  then show ?thesis using c s by simp
qed

lemma replace_tag_id: "tag_free s \<Longrightarrow> replace_tag tag mapper s = s"
proof (induction s)
  case (Cons c cs)
  then have "tag_match tag (c # cs) = None" using tag_match_not_free by (cases "tag_match tag (c # cs)") blast+
  then show ?case using Cons by simp
qed simp

lemma replaceAll_id: "set old \<inter> {CHR ''&''} \<noteq> {} \<Longrightarrow> CHR ''&'' \<notin> set s \<Longrightarrow> replaceAll old new s = s"
proof (induction s)
  case (Cons c cs)
  have "\<not> hasPrefix (c # cs) old"
  proof
    assume "hasPrefix (c # cs) old"
    then have "set old \<subseteq> set (c # cs)" unfolding hasPrefix_iff by (metis set_append Un_upper1)
    then show False using Cons.prems by auto
  qed
  then show ?case using Cons by simp
qed simp

lemma known_entity: "set entities \<subseteq> set knownEntities \<Longrightarrow> (raw, repl) \<in> set entities \<Longrightarrow> CHR ''&'' \<in> set raw"
  by (auto simp: knownEntities_def)

lemma replace_entities_id:
  "set entities \<subseteq> set knownEntities \<Longrightarrow> CHR ''&'' \<notin> set s \<Longrightarrow> fold (\<lambda>(raw, repl) out. replaceAll raw repl out) entities s = s"
proof (induction entities)
  case (Cons e es)
  obtain raw repl where e: "e = (raw, repl)" by (cases e)
  have "CHR ''&'' \<in> set raw" using Cons.prems(1) known_entity [of "e # es" raw repl] e by simp
  then have "replaceAll raw repl s = s" using Cons.prems(2) by (intro replaceAll_id) auto
  then show ?case using Cons e by simp
qed simp

lemma NormalizeChemicalFormula_free: "tag_free (NormalizeChemicalFormula entities s)"
  using strip_tags_free no_tag_free [of s] by (auto simp: NormalizeChemicalFormula_def)

lemma NormalizeChemicalFormula_fixed:
  assumes "set entities \<subseteq> set knownEntities" and "tag_free s" and "CHR ''&'' \<notin> set s"
  shows "NormalizeChemicalFormula entities s = s"
  using assms by (simp add: NormalizeChemicalFormula_def replace_tag_id replace_entities_id strip_tags_id)

text \<open>
  The documented idempotence fails on entities: a replaced \<open>&amp;\<close> can complete another entity. And the
  result depends on the order in which the map is visited.
\<close>

lemma tag_match_other: "c \<noteq> CHR ''<'' \<Longrightarrow> tag_match tag (c # cs) = None"
  using lower_ascii_lt [of c] by (auto simp: tag_match_def has_prefix_fold_def Let_def)

lemma amp_amp_not_idempotent:
  "NormalizeChemicalFormula knownEntities ''&amp;amp;'' = ''&amp;''"
  "NormalizeChemicalFormula knownEntities ''&amp;'' = ''&''"
  by (simp_all add: NormalizeChemicalFormula_def knownEntities_def tag_match_other hasPrefix_def)

lemma entity_order_matters:
  "NormalizeChemicalFormula knownEntities ''&amp;nbsp;'' = '' ''"
  "NormalizeChemicalFormula (rev knownEntities) ''&amp;nbsp;'' = ''&nbsp;''"
  by (simp_all add: NormalizeChemicalFormula_def knownEntities_def tag_match_other hasPrefix_def)

end
