(* ===== verification/TypeData.thy ===== *)
theory TypeData
  imports Formula Cursor ApiGuard Minerals_Domain "HOL-Library.Monad_Syntax" "HOL-Library.List_Lexorder" "HOL-Library.Char_ord"
    "HOL-Library.AList"
begin

text \<open>
  The type-specific payload of a specimen in \<open>src/internal/api/specimens.go\<close>: decoding the JSON of
  \<open>type_data\<close> into the struct its type selects, normalising and validating it, writing the canonical
  JSON back, and the merge of a patch. The text of floats and of zoned times belongs to \<open>strconv\<close> and
  \<open>time\<close>, quoting to \<open>fmt\<close>; the locale \<open>value_forms\<close> states what canonical text relies on.
\<close>

section \<open>Values\<close>

record value_codec =
  vf_Parse :: "string \<Rightarrow> float64 option"
  vf_Format :: "float64 \<Rightarrow> string"
  vt_Parse :: "string \<Rightarrow> (time \<times> int) option"
  vt_Format :: "time \<times> int \<Rightarrow> string"
  vq_Quote :: "string \<Rightarrow> string"

locale value_forms =
  fixes vc :: value_codec
  assumes float_back: "vf_Parse vc l = Some x \<Longrightarrow> vf_Parse vc (vf_Format vc x) = Some x"
    and float_number: "vf_Parse vc l = Some x \<Longrightarrow> num_ok (vf_Format vc x) \<and> list_all num_char (vf_Format vc x)"
    and time_back: "vt_Parse vc s = Some z \<Longrightarrow> vt_Parse vc (vt_Format vc z) = Some z"

abbreviation ptr_string :: "string option \<Rightarrow> json \<Rightarrow> string option option" where
  "ptr_string \<equiv> dec_pointer [] dec_string"

abbreviation ptr_bool :: "bool option \<Rightarrow> json \<Rightarrow> bool option option" where
  "ptr_bool \<equiv> dec_pointer False dec_bool"

abbreviation ptr_float :: "value_codec \<Rightarrow> float64 option \<Rightarrow> json \<Rightarrow> float64 option option" where
  "ptr_float vc \<equiv> dec_pointer 0 (dec_number (vf_Parse vc))"

abbreviation ptr_time :: "value_codec \<Rightarrow> (time \<times> int) option \<Rightarrow> json \<Rightarrow> (time \<times> int) option option" where
  "ptr_time vc \<equiv> dec_pointer (0, 0) (dec_text (vt_Parse vc))"

abbreviation strings :: "string list \<Rightarrow> json \<Rightarrow> string list option" where
  "strings \<equiv> dec_slice [] dec_string"

section \<open>The four structs\<close>

definition decode_MineralData :: "value_codec \<Rightarrow> (string \<times> json) list \<Rightarrow> MineralData option" where
  "decode_MineralData vc kvs = do {
     formula \<leftarrow> decode_field ptr_string None ''chemical_formula'' kvs;
     species \<leftarrow> decode_field strings [] ''mineral_species'' kvs;
     crystal \<leftarrow> decode_field ptr_string None ''crystal_system'' kvs;
     mohs \<leftarrow> decode_field (ptr_float vc) None ''mohs_hardness'' kvs;
     color \<leftarrow> decode_field ptr_string None ''color'' kvs;
     luster \<leftarrow> decode_field ptr_string None ''luster'' kvs;
     sw \<leftarrow> decode_field strings [] ''fluorescence_sw'' kvs;
     mw \<leftarrow> decode_field strings [] ''fluorescence_mw'' kvs;
     lw \<leftarrow> decode_field strings [] ''fluorescence_lw'' kvs;
     radioactive \<leftarrow> decode_field ptr_bool None ''radioactive'' kvs;
     magnetic \<leftarrow> decode_field ptr_bool None ''magnetic'' kvs;
     acid \<leftarrow> decode_field ptr_bool None ''reacts_to_acid'' kvs;
     mindat \<leftarrow> decode_field ptr_string None ''mindat_id'' kvs;
     Some \<lparr>md_ChemicalFormula = formula, md_MineralSpecies = species, md_CrystalSystem = crystal,
       md_MohsHardness = mohs, md_Color = color, md_Luster = luster, md_FluorescenceSW = sw,
       md_FluorescenceMW = mw, md_FluorescenceLW = lw, md_Radioactive = radioactive, md_Magnetic = magnetic,
       md_ReactsToAcid = acid, md_MindatID = mindat\<rparr>
   }"

definition decode_RockData :: "(string \<times> json) list \<Rightarrow> RockData option" where
  "decode_RockData kvs = do {
     rock \<leftarrow> decode_field ptr_string None ''rock_type'' kvs;
     composition \<leftarrow> decode_field ptr_string None ''composition'' kvs;
     formation \<leftarrow> decode_field ptr_string None ''formation_context'' kvs;
     Some \<lparr>rd_RockType = rock, rd_Composition = composition, rd_FormationContext = formation\<rparr>
   }"

definition decode_MeteoriteData :: "value_codec \<Rightarrow> (string \<times> json) list \<Rightarrow> MeteoriteData option" where
  "decode_MeteoriteData vc kvs = do {
     classification \<leftarrow> decode_field ptr_string None ''classification'' kvs;
     fall \<leftarrow> decode_field ptr_string None ''fall_or_find'' kvs;
     date \<leftarrow> decode_field (ptr_time vc) None ''fall_or_find_date'' kvs;
     name \<leftarrow> decode_field ptr_string None ''official_name'' kvs;
     weight \<leftarrow> decode_field (ptr_float vc) None ''total_known_weight_g'' kvs;
     metbull \<leftarrow> decode_field ptr_string None ''metbull_ref'' kvs;
     Some \<lparr>mt_Classification = classification, mt_FallOrFind = fall, mt_FallOrFindDate = date,
       mt_OfficialName = name, mt_TotalKnownWeightG = weight, mt_MetbullRef = metbull\<rparr>
   }"

definition decode_FossilData :: "(string \<times> json) list \<Rightarrow> FossilData option" where
  "decode_FossilData kvs = do {
     taxon \<leftarrow> decode_field ptr_string None ''taxon'' kvs;
     grp \<leftarrow> decode_field ptr_string None ''taxonomic_group'' kvs;
     period \<leftarrow> decode_field ptr_string None ''geologic_period'' kvs;
     formation \<leftarrow> decode_field ptr_string None ''formation'' kvs;
     locality \<leftarrow> decode_field ptr_string None ''locality'' kvs;
     preservation \<leftarrow> decode_field ptr_string None ''preservation_type'' kvs;
     completeness \<leftarrow> decode_field ptr_string None ''completeness'' kvs;
     prepared \<leftarrow> decode_field ptr_bool None ''prepared'' kvs;
     prep \<leftarrow> decode_field ptr_string None ''prep_notes'' kvs;
     Some \<lparr>fo_Taxon = taxon, fo_TaxonomicGroup = grp, fo_GeologicPeriod = period, fo_Formation = formation,
       fo_Locality = locality, fo_PreservationType = preservation, fo_Completeness = completeness,
       fo_Prepared = prepared, fo_PrepNotes = prep\<rparr>
   }"

definition some_strings :: "string list \<Rightarrow> json option" where
  "some_strings xs = (if xs = [] then None else Some (JArr (map JStr xs)))"

definition MineralData_fields :: "value_codec \<Rightarrow> MineralData \<Rightarrow> (string \<times> json option) list" where
  "MineralData_fields vc m =
     [(''chemical_formula'', map_option JStr (md_ChemicalFormula m)), (''mineral_species'', some_strings (md_MineralSpecies m)),
      (''crystal_system'', map_option JStr (md_CrystalSystem m)),
      (''mohs_hardness'', map_option (\<lambda>x. JNum (vf_Format vc x)) (md_MohsHardness m)),
      (''color'', map_option JStr (md_Color m)), (''luster'', map_option JStr (md_Luster m)),
      (''fluorescence_sw'', some_strings (md_FluorescenceSW m)), (''fluorescence_mw'', some_strings (md_FluorescenceMW m)),
      (''fluorescence_lw'', some_strings (md_FluorescenceLW m)), (''radioactive'', map_option JBool (md_Radioactive m)),
      (''magnetic'', map_option JBool (md_Magnetic m)), (''reacts_to_acid'', map_option JBool (md_ReactsToAcid m)),
      (''mindat_id'', map_option JStr (md_MindatID m))]"

definition RockData_fields :: "RockData \<Rightarrow> (string \<times> json option) list" where
  "RockData_fields r =
     [(''rock_type'', map_option JStr (rd_RockType r)), (''composition'', map_option JStr (rd_Composition r)),
      (''formation_context'', map_option JStr (rd_FormationContext r))]"

definition MeteoriteData_fields :: "value_codec \<Rightarrow> MeteoriteData \<Rightarrow> (string \<times> json option) list" where
  "MeteoriteData_fields vc m =
     [(''classification'', map_option JStr (mt_Classification m)), (''fall_or_find'', map_option JStr (mt_FallOrFind m)),
      (''fall_or_find_date'', map_option (\<lambda>z. JStr (vt_Format vc z)) (mt_FallOrFindDate m)),
      (''official_name'', map_option JStr (mt_OfficialName m)),
      (''total_known_weight_g'', map_option (\<lambda>x. JNum (vf_Format vc x)) (mt_TotalKnownWeightG m)),
      (''metbull_ref'', map_option JStr (mt_MetbullRef m))]"

definition FossilData_fields :: "FossilData \<Rightarrow> (string \<times> json option) list" where
  "FossilData_fields f =
     [(''taxon'', map_option JStr (fo_Taxon f)), (''taxonomic_group'', map_option JStr (fo_TaxonomicGroup f)),
      (''geologic_period'', map_option JStr (fo_GeologicPeriod f)), (''formation'', map_option JStr (fo_Formation f)),
      (''locality'', map_option JStr (fo_Locality f)), (''preservation_type'', map_option JStr (fo_PreservationType f)),
      (''completeness'', map_option JStr (fo_Completeness f)), (''prepared'', map_option JBool (fo_Prepared f)),
      (''prep_notes'', map_option JStr (fo_PrepNotes f))]"

datatype type_data = TDMineral MineralData | TDRock RockData | TDMeteorite MeteoriteData | TDFossil FossilData

definition decode_type_data :: "value_codec \<Rightarrow> SpecimenType \<Rightarrow> (string \<times> json) list \<Rightarrow> type_data option" where
  "decode_type_data vc t kvs =
     (if t = ''mineral'' then map_option TDMineral (decode_MineralData vc kvs)
      else if t = ''rock'' then map_option TDRock (decode_RockData kvs)
      else if t = ''meteorite'' then map_option TDMeteorite (decode_MeteoriteData vc kvs)
      else map_option TDFossil (decode_FossilData kvs))"

fun type_data_fields :: "value_codec \<Rightarrow> type_data \<Rightarrow> (string \<times> json option) list" where
  "type_data_fields vc (TDMineral m) = MineralData_fields vc m"
| "type_data_fields vc (TDRock r) = RockData_fields r"
| "type_data_fields vc (TDMeteorite m) = MeteoriteData_fields vc m"
| "type_data_fields vc (TDFossil f) = FossilData_fields f"

fun validate_type_data :: "type_data \<Rightarrow> type_data_error option" where
  "validate_type_data (TDMineral m) = MineralData_Validate m"
| "validate_type_data (TDRock r) = RockData_Validate r"
| "validate_type_data (TDMeteorite m) = MeteoriteData_Validate m"
| "validate_type_data (TDFossil f) = FossilData_Validate f"

fun normalize_type_data :: "(string \<times> string) list \<Rightarrow> type_data \<Rightarrow> type_data" where
  "normalize_type_data entities (TDMineral m) =
     TDMineral (m\<lparr>md_ChemicalFormula := map_option (NormalizeChemicalFormula entities) (md_ChemicalFormula m)\<rparr>)"
| "normalize_type_data entities d = d"

section \<open>Error texts\<close>

definition fluorescenceColorList :: string where
  "fluorescenceColorList = concat (case sort ValidFluorescenceColors of [] \<Rightarrow> [] | c # cs \<Rightarrow> c # map (\<lambda>d. '', '' @ d) cs)"

fun type_data_error_text :: "value_codec \<Rightarrow> type_data_error \<Rightarrow> string" where
  "type_data_error_text vc MohsHardnessOutOfRange = ''specimen type_data invalid: mohs_hardness must be in [0,10]''"
| "type_data_error_text vc (ColorNotRecognized fld c) =
     ''specimen type_data invalid: '' @ fld @ '' color '' @ vq_Quote vc c @
     '' is not a recognized UV fluorescence color; valid: '' @ fluorescenceColorList"
| "type_data_error_text vc RockTypeNotRecognized =
     ''specimen type_data invalid: rock_type must be one of igneous|sedimentary|metamorphic''"
| "type_data_error_text vc FallOrFindNotRecognized = ''specimen type_data invalid: fall_or_find must be one of fall|find''"
| "type_data_error_text vc NegativeTotalKnownWeight = ''specimen type_data invalid: total_known_weight_g must be >= 0''"

definition shape_message :: "SpecimenType \<Rightarrow> string" where
  "shape_message t = ''type_data does not match '' @
     (if t = ''mineral'' then ''MineralData'' else if t = ''rock'' then ''RockData''
      else if t = ''meteorite'' then ''MeteoriteData'' else ''FossilData'') @ '' shape''"

section \<open>Validation and merge\<close>

definition bytesTrimSpace :: "string \<Rightarrow> string" where
  "bytesTrimSpace b = rev (dropWhile is_ws (rev (dropWhile is_ws b)))"

definition validateAndCanonicalizeTypeData ::
  "value_codec \<Rightarrow> (string \<times> string) list \<Rightarrow> SpecimenType \<Rightarrow> string \<Rightarrow> apiError + string" where
  "validateAndCanonicalizeTypeData vc entities t raw =
     (let rawTrimmed = bytesTrimSpace raw in
      if rawTrimmed = [] \<or> rawTrimmed = ''null'' then Inr ''{}''
      else if t \<notin> set specimenTypes then
        Inl (newAPIError 400 ''invalid_type'' ''type must be one of mineral|rock|meteorite|fossil'' [(''field'', ''type'')])
      else (case unmarshal_struct (decode_type_data vc t) rawTrimmed of
          None \<Rightarrow> Inl (newAPIError 400 ''invalid_type_data'' (shape_message t) [(''field'', ''type_data''), (''type'', t)])
        | Some d \<Rightarrow>
            let d' = normalize_type_data entities d in
            (case validate_type_data d' of
               Some e \<Rightarrow> Inl (newAPIError 422 ''invalid_type_data'' (type_data_error_text vc e) [(''field'', ''type_data''), (''type'', t)])
             | None \<Rightarrow> Inr (json_print (JObj (present_fields (type_data_fields vc d')))))))"

text \<open>
  A Go map of raw members: the last member of a name wins, and the names are sorted when it is written.
  A member is carried as the value it denotes; the spelling of escapes inside it is not kept.
\<close>

definition object_map :: "(string \<times> json) list \<Rightarrow> (string \<times> json) list" where
  "object_map kvs = fold (\<lambda>(k, v) m. AList.update k v m) kvs []"

definition unmarshal_map :: "string \<Rightarrow> (string \<times> json) list option" where
  "unmarshal_map raw =
     (let s = bytesTrimSpace raw in
      if s = [] \<or> s = ''null'' then Some []
      else case json_parse s of Some (JObj kvs) \<Rightarrow> Some (object_map kvs) | _ \<Rightarrow> None)"

definition marshal_map :: "(string \<times> json) list \<Rightarrow> string" where
  "marshal_map m = json_print (JObj (sort_key fst m))"

definition merge_member :: "string \<times> json \<Rightarrow> (string \<times> json) list \<Rightarrow> (string \<times> json) list" where
  "merge_member kv m = (if snd kv = JNull then AList.delete (fst kv) m else AList.update (fst kv) (snd kv) m)"

definition mergeTypeData :: "string \<Rightarrow> string \<Rightarrow> string option" where
  "mergeTypeData currentBytes patchBytes =
     (case unmarshal_map currentBytes of
        None \<Rightarrow> None
      | Some current \<Rightarrow>
          (case unmarshal_map patchBytes of
             None \<Rightarrow> None
           | Some patch \<Rightarrow> Some (marshal_map (fold merge_member patch current))))"

section \<open>Canonical text is read back\<close>

text \<open>The floats and times that decoding can produce; canonical text restores exactly these.\<close>

fun representable :: "value_codec \<Rightarrow> type_data \<Rightarrow> bool" where
  "representable vc (TDMineral m) \<longleftrightarrow> set_option (md_MohsHardness m) \<subseteq> {x. \<exists>l. vf_Parse vc l = Some x}"
| "representable vc (TDMeteorite m) \<longleftrightarrow> set_option (mt_TotalKnownWeightG m) \<subseteq> {x. \<exists>l. vf_Parse vc l = Some x} \<and>
     set_option (mt_FallOrFindDate m) \<subseteq> {z. \<exists>s. vt_Parse vc s = Some z}"
| "representable vc _ \<longleftrightarrow> True"

lemma decode_into_range:
  assumes "\<And>x v y. dec x v = Some y \<Longrightarrow> set_option y \<subseteq> R" and "set_option x \<subseteq> R" and "decode_into dec x vs = Some y"
  shows "set_option y \<subseteq> R"
  using assms(2,3)
proof (induction vs arbitrary: x)
  case (Cons v vs)
  obtain x' where "dec x v = Some x'" "decode_into dec x' vs = Some y" using Cons.prems(2) by (auto split: option.splits)
  then show ?case using assms(1) Cons.IH by blast
qed simp

lemma ptr_float_range: "decode_field (ptr_float vc) None n kvs = Some y \<Longrightarrow> set_option y \<subseteq> {x. \<exists>l. vf_Parse vc l = Some x}"
  unfolding decode_field_def
  by (erule decode_into_range [rotated -1]) (auto simp: dec_pointer_def dec_number_def split: if_splits json.splits)

lemma ptr_time_range: "decode_field (ptr_time vc) None n kvs = Some y \<Longrightarrow> set_option y \<subseteq> {z. \<exists>s. vt_Parse vc s = Some z}"
  unfolding decode_field_def
  by (erule decode_into_range [rotated -1]) (auto simp: dec_pointer_def dec_text_def split: if_splits json.splits)

lemma decode_representable:
  assumes "decode_type_data vc t kvs = Some d"
  shows "representable vc d"
proof -
  consider m where "d = TDMineral m" "decode_MineralData vc kvs = Some m" | m where "d = TDMeteorite m" "decode_MeteoriteData vc kvs = Some m"
    | r where "d = TDRock r" | f where "d = TDFossil f"
    using assms by (auto simp: decode_type_data_def split: if_splits)
  then show ?thesis
  proof cases
    case (1 m)
    then have "decode_field (ptr_float vc) None ''mohs_hardness'' kvs = Some (md_MohsHardness m)"
      by (auto simp: decode_MineralData_def split: bind_splits)
    then show ?thesis using 1 ptr_float_range by simp
  next
    case (2 m)
    then have "decode_field (ptr_float vc) None ''total_known_weight_g'' kvs = Some (mt_TotalKnownWeightG m)"
      "decode_field (ptr_time vc) None ''fall_or_find_date'' kvs = Some (mt_FallOrFindDate m)"
      by (auto simp: decode_MeteoriteData_def split: bind_splits)
    then show ?thesis using 2 ptr_float_range ptr_time_range by simp
  qed simp_all
qed

lemma normalize_representable: "representable vc d \<Longrightarrow> representable vc (normalize_type_data entities d)"
  by (cases d) auto

lemma lower_names:
  "lower_name ''chemical_formula''" "lower_name ''mineral_species''" "lower_name ''crystal_system''" "lower_name ''mohs_hardness''"
  "lower_name ''color''" "lower_name ''luster''" "lower_name ''fluorescence_sw''" "lower_name ''fluorescence_mw''"
  "lower_name ''fluorescence_lw''" "lower_name ''radioactive''" "lower_name ''magnetic''" "lower_name ''reacts_to_acid''"
  "lower_name ''mindat_id''" "lower_name ''rock_type''" "lower_name ''composition''" "lower_name ''formation_context''"
  "lower_name ''classification''" "lower_name ''fall_or_find''" "lower_name ''fall_or_find_date''" "lower_name ''official_name''"
  "lower_name ''total_known_weight_g''" "lower_name ''metbull_ref''" "lower_name ''taxon''" "lower_name ''taxonomic_group''"
  "lower_name ''geologic_period''" "lower_name ''formation''" "lower_name ''locality''" "lower_name ''preservation_type''"
  "lower_name ''completeness''" "lower_name ''prepared''" "lower_name ''prep_notes''"
  by (simp_all add: lower_name_def lower_ascii_def Let_def)

lemma field_names:
  "list_all lower_name (map fst (MineralData_fields vc m))" "distinct (map fst (MineralData_fields vc m))"
  "list_all lower_name (map fst (RockData_fields r))" "distinct (map fst (RockData_fields r))"
  "list_all lower_name (map fst (MeteoriteData_fields vc mt))" "distinct (map fst (MeteoriteData_fields vc mt))"
  "list_all lower_name (map fst (FossilData_fields f))" "distinct (map fst (FossilData_fields f))"
  by (simp_all add: MineralData_fields_def RockData_fields_def MeteoriteData_fields_def FossilData_fields_def lower_names)

text \<open>What each kind of field gives back, absent or present.\<close>

lemma present_string: "(case map_option JStr x of None \<Rightarrow> Some None | Some j \<Rightarrow> ptr_string None j) = Some x"
  and present_bool: "(case map_option JBool b of None \<Rightarrow> Some None | Some j \<Rightarrow> ptr_bool None j) = Some b"
  by (cases x; simp add: dec_pointer_def dec_string_def) (cases b; simp add: dec_pointer_def dec_bool_def)

lemma present_strings: "(case some_strings xs of None \<Rightarrow> Some [] | Some j \<Rightarrow> strings [] j) = Some xs"
proof -
  have "dec_elems [] dec_string [] (map JStr ys) = Some ys" for ys
    by (induction ys) (simp_all add: dec_string_def)
  then show ?thesis by (simp add: some_strings_def dec_slice_def)
qed

context value_forms
begin

lemma present_float:
  "set_option x \<subseteq> {x. \<exists>l. vf_Parse vc l = Some x} \<Longrightarrow>
   (case map_option (\<lambda>x. JNum (vf_Format vc x)) x of None \<Rightarrow> Some None | Some j \<Rightarrow> ptr_float vc None j) = Some x"
  by (cases x) (auto simp: dec_pointer_def dec_number_def float_back)

lemma present_time:
  "set_option z \<subseteq> {z. \<exists>s. vt_Parse vc s = Some z} \<Longrightarrow>
   (case map_option (\<lambda>z. JStr (vt_Format vc z)) z of None \<Rightarrow> Some None | Some j \<Rightarrow> ptr_time vc None j) = Some z"
  by (cases z) (auto simp: dec_pointer_def dec_text_def time_back)

lemmas present = present_string present_bool present_strings

lemma mineral_back:
  "representable vc (TDMineral m) \<Longrightarrow> decode_MineralData vc (present_fields (MineralData_fields vc m)) = Some m"
  unfolding decode_MineralData_def
  by (simp add: decode_field_fields [OF field_names(1,2)] lower_names)
    (simp add: MineralData_fields_def present present_float del: case_map_option)

lemma rock_back: "decode_RockData (present_fields (RockData_fields r)) = Some r"
  unfolding decode_RockData_def
  by (simp add: decode_field_fields [OF field_names(3,4)] lower_names) (simp add: RockData_fields_def present del: case_map_option)

lemma meteorite_back:
  "representable vc (TDMeteorite m) \<Longrightarrow> decode_MeteoriteData vc (present_fields (MeteoriteData_fields vc m)) = Some m"
  unfolding decode_MeteoriteData_def
  by (simp add: decode_field_fields [OF field_names(5,6)] lower_names)
    (simp add: MeteoriteData_fields_def present present_float present_time del: case_map_option)

lemma fossil_back: "decode_FossilData (present_fields (FossilData_fields f)) = Some f"
  unfolding decode_FossilData_def
  by (simp add: decode_field_fields [OF field_names(7,8)] lower_names) (simp add: FossilData_fields_def present del: case_map_option)

end

fun of_type :: "SpecimenType \<Rightarrow> type_data \<Rightarrow> bool" where
  "of_type t (TDMineral m) \<longleftrightarrow> t = ''mineral''"
| "of_type t (TDRock r) \<longleftrightarrow> t = ''rock''"
| "of_type t (TDMeteorite m) \<longleftrightarrow> t = ''meteorite''"
| "of_type t (TDFossil f) \<longleftrightarrow> t = ''fossil''"

definition canonical :: "value_codec \<Rightarrow> type_data \<Rightarrow> string" where
  "canonical vc d = json_print (JObj (present_fields (type_data_fields vc d)))"

definition formula_of :: "type_data \<Rightarrow> string" where
  "formula_of d = (case d of TDMineral m \<Rightarrow> (case md_ChemicalFormula m of None \<Rightarrow> [] | Some f \<Rightarrow> f) | _ \<Rightarrow> [])"

lemma of_type_normalize [simp]: "of_type t (normalize_type_data e d) = of_type t d"
  by (cases d) simp_all

lemma validate_normalize [simp]: "validate_type_data (normalize_type_data e d) = validate_type_data d"
  by (cases d) (simp_all add: MineralData_Validate_def)

lemma decode_of_type: "decode_type_data vc t kvs = Some d \<Longrightarrow> t \<in> set specimenTypes \<Longrightarrow> of_type t d"
  by (auto simp: decode_type_data_def specimenTypes_def split: if_splits)

lemma decode_empty:
  "\<exists>d. decode_type_data vc t [] = Some d \<and> canonical vc d = ''{}'' \<and> validate_type_data d = None \<and> formula_of d = []"
proof -
  have "\<exists>m. decode_MineralData vc [] = Some m \<and> canonical vc (TDMineral m) = ''{}'' \<and> MineralData_Validate m = None \<and> md_ChemicalFormula m = None"
    by (simp add: decode_MineralData_def decode_field_simps canonical_def MineralData_fields_def some_strings_def MineralData_Validate_def)
  moreover have "\<exists>r. decode_RockData [] = Some r \<and> canonical vc (TDRock r) = ''{}'' \<and> RockData_Validate r = None"
    by (simp add: decode_RockData_def decode_field_simps canonical_def RockData_fields_def RockData_Validate_def)
  moreover have "\<exists>m. decode_MeteoriteData vc [] = Some m \<and> canonical vc (TDMeteorite m) = ''{}'' \<and> MeteoriteData_Validate m = None"
    by (simp add: decode_MeteoriteData_def decode_field_simps canonical_def MeteoriteData_fields_def MeteoriteData_Validate_def)
  moreover have "\<exists>f. decode_FossilData [] = Some f \<and> canonical vc (TDFossil f) = ''{}''"
    by (simp add: decode_FossilData_def decode_field_simps canonical_def FossilData_fields_def)
  ultimately show ?thesis
    by (elim exE conjE) (simp add: decode_type_data_def formula_of_def FossilData_Validate_def)
qed

lemma trim_canonical: "bytesTrimSpace (canonical vc d) = canonical vc d" "canonical vc d \<noteq> []" "canonical vc d \<noteq> ''null''"
  by (simp_all add: canonical_def bytesTrimSpace_def is_ws_def del: json_print.simps) (simp_all add: is_ws_def)

lemma formula_normalized: "tag_free (formula_of (normalize_type_data e d))"
  by (cases d) (simp_all add: formula_of_def NormalizeChemicalFormula_free split: option.split)

lemma normalize_fixed:
  assumes "set e \<subseteq> set knownEntities" and "tag_free (formula_of d)" and "CHR ''&'' \<notin> set (formula_of d)"
  shows "normalize_type_data e d = d"
proof (cases d)
  case (TDMineral m)
  have "map_option (NormalizeChemicalFormula e) (md_ChemicalFormula m) = md_ChemicalFormula m"
    using assms NormalizeChemicalFormula_fixed [OF assms(1)] by (cases "md_ChemicalFormula m") (auto simp: formula_of_def TDMineral)
  then show ?thesis by (simp add: TDMineral)
qed simp_all

context value_forms
begin

lemma canonical_back:
  assumes "representable vc d" and "of_type t d"
  shows "unmarshal_struct (decode_type_data vc t) (canonical vc d) = Some d"
proof -
  have lit: "json_ok (JNum (vf_Format vc x))" if "vf_Parse vc l = Some x" for x l using that float_number by simp
  have "json_ok (JObj (present_fields (type_data_fields vc d)))"
    using assms(1) by (intro json_ok_fields)
      (cases d; auto simp: MineralData_fields_def RockData_fields_def MeteoriteData_fields_def FossilData_fields_def
        some_strings_def list_all_iff dest!: float_number split: if_splits)
  then have parse: "json_parse (canonical vc d) = Some (JObj (present_fields (type_data_fields vc d)))"
    unfolding canonical_def by (rule json_parse_print)
  have "decode_type_data vc t (present_fields (type_data_fields vc d)) = Some d"
    using assms by (cases d) (simp_all add: decode_type_data_def mineral_back rock_back meteorite_back fossil_back)
  then show ?thesis by (simp add: unmarshal_struct_def parse)
qed

lemma validate_canonical:
  assumes "representable vc d" and "of_type t d" and "t \<in> set specimenTypes" and "validate_type_data d = None"
  shows "validateAndCanonicalizeTypeData vc e t (canonical vc d) = Inr (canonical vc (normalize_type_data e d))"
  using assms trim_canonical [of vc d] canonical_back [OF assms(1,2)]
  by (simp add: validateAndCanonicalizeTypeData_def Let_def) (simp add: canonical_def)

lemma validate_result:
  assumes "t \<in> set specimenTypes" and "validateAndCanonicalizeTypeData vc e t raw = Inr b"
  obtains d where "b = canonical vc d" "representable vc d" "of_type t d" "validate_type_data d = None" "tag_free (formula_of d)"
proof (cases "bytesTrimSpace raw = [] \<or> bytesTrimSpace raw = ''null''")
  case True
  then have b: "b = ''{}''" using assms(2) by (simp add: validateAndCanonicalizeTypeData_def)
  obtain d where d: "decode_type_data vc t [] = Some d" "canonical vc d = ''{}''" "validate_type_data d = None" "formula_of d = []"
    using decode_empty by blast
  then show thesis using that [of d] b decode_representable [OF d(1)] decode_of_type [OF d(1) assms(1)] by simp
next
  case False
  then obtain d where d: "unmarshal_struct (decode_type_data vc t) (bytesTrimSpace raw) = Some d"
    and v: "validate_type_data d = None" and b: "b = canonical vc (normalize_type_data e d)"
    using assms by (auto simp: validateAndCanonicalizeTypeData_def Let_def canonical_def split: option.splits if_splits)
  from d obtain kvs where kvs: "decode_type_data vc t kvs = Some d"
    by (auto simp: unmarshal_struct_def split: option.splits json.splits)
  show thesis
    using that [OF b] normalize_representable [OF decode_representable [OF kvs]] decode_of_type [OF kvs assms(1)] v
      formula_normalized by simp
qed

end

section \<open>Properties\<close>

text \<open>
  C36. What the service stores as \<open>type_data\<close> is always canonical for the specimen's type: it is the JSON of
  a struct of that type that passes validation and whose formula holds no tag, reading it gives exactly
  that struct, and submitting it again is accepted; it is stored unchanged unless the formula holds an \<open>&\<close>.
\<close>

theorem type_data_canonical:
  assumes "value_forms vc" and "set entities \<subseteq> set knownEntities" and "t \<in> set specimenTypes"
    and "validateAndCanonicalizeTypeData vc entities t raw = Inr b"
  shows "\<exists>d. of_type t d \<and> validate_type_data d = None \<and> tag_free (formula_of d) \<and>
    unmarshal_struct (decode_type_data vc t) b = Some d \<and>
    validateAndCanonicalizeTypeData vc entities t b = Inr (canonical vc (normalize_type_data entities d)) \<and>
    (CHR ''&'' \<notin> set (formula_of d) \<longrightarrow> validateAndCanonicalizeTypeData vc entities t b = Inr b)"
proof -
  obtain d where d: "b = canonical vc d" "representable vc d" "of_type t d" "validate_type_data d = None" "tag_free (formula_of d)"
    by (rule value_forms.validate_result [OF assms(1,3,4)])
  then show ?thesis
    using value_forms.canonical_back [OF assms(1) d(2,3)] value_forms.validate_canonical [OF assms(1) d(2,3) assms(3) d(4)]
      normalize_fixed [OF assms(2) d(5)] by auto
qed

text \<open>Whole numbers as floats and as times satisfy the contract.\<close>

definition whole_codec :: value_codec where
  "whole_codec =
     \<lparr>vf_Parse = (\<lambda>l. map_option of_nat (number 10 0 l)), vf_Format = (\<lambda>x. decimal (nat \<lfloor>x\<rfloor>)),
      vt_Parse = (\<lambda>s. map_option (\<lambda>n. (int n, 0)) (number 10 0 s)), vt_Format = (\<lambda>z. decimal (nat (fst z))),
      vq_Quote = (\<lambda>s. [quote_char] @ s @ [quote_char])\<rparr>"

interpretation whole: value_forms whole_codec
  by unfold_locales
    (auto simp: whole_codec_def number_decimal decimal_num_ok num_char_def list_all_iff
      dest: decimal_digits [unfolded list_all_iff, rule_format])

definition granite :: type_data where
  "granite = TDRock \<lparr>rd_RockType = Some ''igneous'', rd_Composition = Some ''quartz & feldspar'', rd_FormationContext = None\<rparr>"

theorem type_data_canonical_witness:
  "validateAndCanonicalizeTypeData whole_codec knownEntities ''rock'' (canonical whole_codec granite) = Inr (canonical whole_codec granite) \<and>
   (\<exists>d. of_type ''rock'' d \<and> unmarshal_struct (decode_type_data whole_codec ''rock'') (canonical whole_codec granite) = Some d)"
proof -
  have "representable whole_codec granite" "of_type ''rock'' granite" "''rock'' \<in> set specimenTypes"
    "validate_type_data granite = None" "normalize_type_data knownEntities granite = granite"
    by (simp_all add: granite_def specimenTypes_def RockData_Validate_def validRockTypes_def)
  then have v: "validateAndCanonicalizeTypeData whole_codec knownEntities ''rock'' (canonical whole_codec granite) = Inr (canonical whole_codec granite)"
    using whole.validate_canonical [of granite "''rock''" knownEntities] by simp
  from type_data_canonical [OF whole.value_forms_axioms order_refl \<open>''rock'' \<in> set specimenTypes\<close> v] v show ?thesis by blast
qed

section \<open>Merging a patch\<close>

lemma object_map_fold: "map_of (fold (\<lambda>(k, v) m. AList.update k v m) kvs m) = map_of m ++ map_of (rev kvs)"
  by (induction kvs arbitrary: m) (auto simp: update_conv' map_add_def fun_eq_iff split: option.splits)

lemma object_map_distinct: "distinct (map fst (object_map kvs))"
proof -
  have "distinct (map fst m) \<Longrightarrow> distinct (map fst (fold (\<lambda>(k, v) m. AList.update k v m) kvs m))" for m
    by (induction kvs arbitrary: m) (auto simp: distinct_update)
  then show ?thesis by (simp add: object_map_def)
qed

lemma merge_members:
  "distinct (map fst p) \<Longrightarrow> map_of (fold merge_member p c) k =
     (case map_of p k of None \<Rightarrow> map_of c k | Some v \<Rightarrow> if v = JNull then None else Some v)"
proof (induction p arbitrary: c)
  case (Cons kv p)
  have "map_of p (fst kv) = None" using Cons.prems by (auto simp: map_of_eq_None_iff)
  then show ?case using Cons by (cases kv) (auto simp: merge_member_def update_conv' delete_conv' split: option.splits)
qed simp

lemma merge_members_keep:
  assumes "distinct (map fst c)" "list_all (\<lambda>(k, v). json_ok v) c" "list_all (\<lambda>(k, v). json_ok v) p"
  shows "distinct (map fst (fold merge_member p c))" "list_all (\<lambda>(k, v). json_ok v) (fold merge_member p c)"
proof -
  have del: "set (AList.delete k m) \<subseteq> set m" for k and m :: "(string \<times> json) list" by (auto simp: AList.delete_eq)
  have upd: "set (AList.update k v m) \<subseteq> insert (k, v) (set m)" for k v and m :: "(string \<times> json) list"
    by (induction m) auto
  have "distinct (map fst (fold merge_member p c)) \<and> list_all (\<lambda>(k, v). json_ok v) (fold merge_member p c)"
    using assms
  proof (induction p arbitrary: c)
    case (Cons kv p)
    have "distinct (map fst (merge_member kv c))" using Cons.prems(1) by (simp add: merge_member_def distinct_update distinct_delete)
    moreover have "list_all (\<lambda>(k, v). json_ok v) (merge_member kv c)"
      using Cons.prems(2,3) del [of "fst kv" c] upd [of "fst kv" "snd kv" c] by (auto simp: merge_member_def list_all_iff)
    ultimately show ?case using Cons by simp
  qed simp
  then show "distinct (map fst (fold merge_member p c))" "list_all (\<lambda>(k, v). json_ok v) (fold merge_member p c)" by simp_all
qed

lemma unmarshal_map_ok:
  assumes "unmarshal_map s = Some m"
  shows "distinct (map fst m)" "list_all (\<lambda>(k, v). json_ok v) m"
proof -
  have ok: "list_all (\<lambda>(k, v). json_ok v) kvs \<Longrightarrow> list_all (\<lambda>(k, v). json_ok v) (object_map kvs)" for kvs
  proof -
    have upd: "set (AList.update k v m) \<subseteq> insert (k, v) (set m)" for k v and m :: "(string \<times> json) list"
      by (induction m) auto
    have "set (fold (\<lambda>(k, v) m. AList.update k v m) kvs m) \<subseteq> set kvs \<union> set m" for m
    proof (induction kvs arbitrary: m)
      case (Cons kv kvs)
      show ?case using Cons.IH [of "AList.update (fst kv) (snd kv) m"] upd [of "fst kv" "snd kv" m] by (auto simp: split_beta)
    qed simp
    from this [of "[]"] show "list_all (\<lambda>(k, v). json_ok v) kvs \<Longrightarrow> list_all (\<lambda>(k, v). json_ok v) (object_map kvs)"
      by (auto simp: object_map_def list_all_iff)
  qed
  show "distinct (map fst m)" "list_all (\<lambda>(k, v). json_ok v) m"
    using assms object_map_distinct ok
    by (auto simp: unmarshal_map_def Let_def dest!: json_parse_ok split: if_splits option.splits json.splits)
qed

lemma marshal_map_back:
  assumes "distinct (map fst m)" and "list_all (\<lambda>(k, v). json_ok v) m"
  obtains m' where "unmarshal_map (marshal_map m) = Some m'" and "map_of m' = map_of m"
proof -
  let ?s = "sort_key fst m"
  have distinct: "distinct (map fst ?s)" using assms(1) by (metis distinct_map distinct_sort set_sort)
  have "json_ok (JObj ?s)" using assms(2) by (simp add: list_all_iff)
  then have parse: "json_parse (marshal_map m) = Some (JObj ?s)" unfolding marshal_map_def by (rule json_parse_print)
  have "bytesTrimSpace (marshal_map m) = marshal_map m" "marshal_map m \<noteq> []" "marshal_map m \<noteq> ''null''"
    by (simp_all add: marshal_map_def bytesTrimSpace_def is_ws_def)
  then have "unmarshal_map (marshal_map m) = Some (object_map ?s)" by (simp add: unmarshal_map_def parse)
  moreover have "map_of (object_map ?s) = map_of m"
  proof -
    have "distinct (map fst (rev ?s))" using distinct by (simp add: rev_map [symmetric])
    then have "map_of (rev ?s) = map_of m" using map_of_inject_set [of "rev ?s" m] assms(1) by simp
    then show ?thesis by (simp add: object_map_def object_map_fold)
  qed
  ultimately show thesis by (rule that)
qed

text \<open>
  A patch of \<open>type_data\<close> merges at the top level: it fails exactly when one side is not a JSON object;
  otherwise the merged text is an object in which a name has the patch's value where the patch gives one,
  is gone where the patch gives \<open>null\<close>, and has its current value everywhere else.
\<close>

lemma mergeTypeData_lookup:
  "case mergeTypeData cur patch of
     None \<Rightarrow> unmarshal_map cur = None \<or> unmarshal_map patch = None
   | Some out \<Rightarrow> \<exists>c p m. unmarshal_map cur = Some c \<and> unmarshal_map patch = Some p \<and> unmarshal_map out = Some m \<and>
       (\<forall>k. map_of m k = (case map_of p k of None \<Rightarrow> map_of c k | Some v \<Rightarrow> if v = JNull then None else Some v))"
proof (cases "unmarshal_map cur"; cases "unmarshal_map patch")
  fix c p
  assume c: "unmarshal_map cur = Some c" and p: "unmarshal_map patch = Some p"
  note ok = unmarshal_map_ok [OF c] unmarshal_map_ok [OF p]
  obtain m where m: "unmarshal_map (marshal_map (fold merge_member p c)) = Some m" "map_of m = map_of (fold merge_member p c)"
    by (rule marshal_map_back [OF merge_members_keep [OF ok(1,2,4)]])
  have "mergeTypeData cur patch = Some (marshal_map (fold merge_member p c))" by (simp add: mergeTypeData_def c p)
  then show ?thesis using c p m merge_members [OF ok(3), of c] by simp
qed (simp_all add: mergeTypeData_def)

end
