(* ===== verification/SpecimenService.thy ===== *)
theory SpecimenService
  imports SpecimenRepo TypeData Redact AdminSuspend
begin

text \<open>
  The specimen endpoints of \<open>src/internal/api/specimens.go\<close>: list, get, create, patch and delete over
  the repository, the guard, the validation of the payload and the redaction of what is shown. A
  request body arrives decoded; an empty visibility patch is an absent one. Time, new identifiers and
  the parsers of identifiers and dates come with the environment.
\<close>

record 'r specimen_env =
  se_guard :: authzGuard
  se_vc :: value_codec
  se_entities :: "(string \<times> string) list"
  se_tc :: "'r text_codec"
  se_ts :: "'r text_search"
  se_date :: "string \<Rightarrow> time option"
  se_now :: time
  se_newID :: uuid

definition env_redactor :: "'r specimen_env \<Rightarrow> database \<Rightarrow> redactor" where
  "env_redactor env d = newRedactor (Some (\<lambda>i. map_sum (\<lambda>_. ErrUserNotFound) id (GetByID (db_users d) i))) (se_guard env)"

section \<open>Requests\<close>

record listSpecimensInput =
  li_Limit :: int
  li_Cursor :: string
  li_Type :: string
  li_Visibility :: string
  li_HasCatalogNumber :: string
  li_AcquiredAfter :: string
  li_AcquiredBefore :: string
  li_CollectorID :: string
  li_Q :: string
  li_Scope :: string
  li_Tagged :: string

record specimenListBody =
  lb_Items :: "SpecimenView list"
  lb_NextCursor :: "string option"

record createSpecimenBody =
  cb_Type :: SpecimenType
  cb_CatalogNumber :: "string option"
  cb_Name :: string
  cb_Description :: string
  cb_Visibility :: Visibility
  cb_AcquiredAt :: "time option"
  cb_AcquiredFrom :: "string option"
  cb_PriceCents :: "64 word option"
  cb_SourceNotes :: "string option"
  cb_LocalityText :: "string option"
  cb_Locality :: "Locality option"
  cb_MassG :: "float64 option"
  cb_Dimensions :: "Dimensions option"
  cb_TypeData :: string
  cb_Tagged :: "bool option"

record patchSpecimenBody =
  pb_Type :: "SpecimenType option"
  pb_CatalogNumber :: "string option"
  pb_Name :: "string option"
  pb_Description :: "string option"
  pb_Visibility :: "Visibility option"
  pb_AcquiredAt :: "time option"
  pb_AcquiredFrom :: "string option"
  pb_PriceCents :: "64 word option"
  pb_SourceNotes :: "string option"
  pb_LocalityText :: "string option"
  pb_Locality :: "Locality option"
  pb_MassG :: "float64 option"
  pb_Dimensions :: "Dimensions option"
  pb_TypeData :: "string option"
  pb_MainImageID :: "uuid option"
  pb_VisibilityPrice :: string
  pb_VisibilityAcquiredFrom :: string
  pb_VisibilityImages :: string
  pb_Tagged :: "bool option"

section \<open>Checks and errors\<close>

definition validSpecimenType :: "SpecimenType \<Rightarrow> bool" where
  "validSpecimenType t \<longleftrightarrow> t = ''mineral'' \<or> t = ''rock'' \<or> t = ''meteorite'' \<or> t = ''fossil''"

definition validVisibility :: "Visibility \<Rightarrow> bool" where
  "validVisibility v \<longleftrightarrow> v = VisibilityPrivate \<or> v = VisibilityUnlisted \<or> v = VisibilityPublic"

definition mapSpecimenError :: "repo_error \<Rightarrow> apiError" where
  "mapSpecimenError err =
     (case err of
        Domain ErrSpecimenNotFound \<Rightarrow> newAPIError 404 ''specimen_not_found'' ''no such specimen'' []
      | Domain ErrSpecimenConflict \<Rightarrow> newAPIError 409 ''specimen_conflict''
          ''a specimen with that catalog_number already exists'' [(''field'', ''catalog_number''), (''constraint'', ''unique'')]
      | Domain ErrSpecimenReferenced \<Rightarrow> newAPIError 409 ''specimen_referenced''
          ''specimen still has photos or journal entries; delete those first'' [(''constraint'', ''child_rows'')]
      | Domain ErrSpecimenTypeImmutable \<Rightarrow> newAPIError 409 ''specimen_type_immutable''
          ''specimen type cannot be changed; reclassification means delete + recreate'' [(''field'', ''type'')]
      | _ \<Rightarrow> newAPIError 500 ''internal_error'' ''internal server error'' [])"

text \<open>The panic of the encoder becomes a 500 in the recovery middleware.\<close>

definition mapListError :: "list_error \<Rightarrow> apiError" where
  "mapListError err =
     (case err of
        ListCursor _ \<Rightarrow> newAPIError 400 ''invalid_cursor'' ''cursor is malformed'' []
      | _ \<Rightarrow> newAPIError 500 ''internal_error'' ''internal server error'' [])"

definition applyVisibilityPatch :: "value_codec \<Rightarrow> string \<Rightarrow> string \<Rightarrow> Visibility option \<Rightarrow> apiError + Visibility option" where
  "applyVisibilityPatch vc p field cur =
     (if p = [] then Inr cur
      else if trimSpace p = ''null'' then Inr None
      else case json_parse (trimSpace p) of
        Some (JStr v) \<Rightarrow>
          if validVisibility v then Inr (Some v)
          else Inl (newAPIError 400 ''invalid_visibility''
                 (field @ '': '' @ vq_Quote vc v @ '' is not a valid Visibility; allowed values are private, unlisted, public'')
                 [(''field'', field)])
      | _ \<Rightarrow> Inl (newAPIError 400 ''invalid_visibility'' (field @ '': value must be a Visibility string or null'') [(''field'', field)]))"

definition as_error :: "apiError option \<Rightarrow> apiError + unit" where
  "as_error e = (case e of None \<Rightarrow> Inr () | Some ae \<Rightarrow> Inl ae)"

lemma as_error_Inr [simp]: "as_error e = Inr x \<longleftrightarrow> e = None"
  by (auto simp: as_error_def split: option.splits)

section \<open>Handlers\<close>

definition bool_param :: "string \<Rightarrow> string \<Rightarrow> apiError + bool option" where
  "bool_param name v =
     (if v = ''true'' then Inr (Some True)
      else if v = ''false'' then Inr (Some False)
      else if v = [] then Inr None
      else Inl (newAPIError 400 (''invalid_'' @ name) (name @ '' must be true or false'') [(''field'', name)]))"

definition date_param :: "(string \<Rightarrow> time option) \<Rightarrow> string \<Rightarrow> string \<Rightarrow> apiError + time option" where
  "date_param parse name v =
     (if v = [] then Inr None
      else case parse v of
        None \<Rightarrow> Inl (newAPIError 400 ''invalid_date'' (name @ '' must be YYYY-MM-DD'') [(''field'', name)])
      | Some t \<Rightarrow> Inr (Some t))"

text \<open>The filter of the query; \<open>None\<close> is the empty page of an anonymous \<open>scope=mine\<close>.\<close>

definition list_filter :: "'r specimen_env \<Rightarrow> auth_User \<Rightarrow> listSpecimensInput \<Rightarrow> apiError + SpecimenFilter option" where
  "list_filter env u inp =
     sum_bind (bool_param ''has_catalog_number'' (li_HasCatalogNumber inp)) (\<lambda>hasCat.
     sum_bind (if li_CollectorID inp = [] then Inr None
       else case uuid_Parse (se_tc env) (li_CollectorID inp) of
         None \<Rightarrow> Inl (newAPIError 400 ''invalid_collector_id'' ''collector_id must be a UUID'' [(''field'', ''collector_id'')])
       | Some c \<Rightarrow> Inr (Some c)) (\<lambda>collector.
     sum_bind (date_param (se_date env) ''acquired_after'' (li_AcquiredAfter inp)) (\<lambda>after.
     sum_bind (date_param (se_date env) ''acquired_before'' (li_AcquiredBefore inp)) (\<lambda>before.
     sum_bind (ensure (\<not> (case (after, before) of (Some a, Some b) \<Rightarrow> a > b | _ \<Rightarrow> False))
       (newAPIError 422 ''invalid_date_range'' ''acquired_after must be on or before acquired_before'' [])) (\<lambda>_.
     let f = \<lparr>sf_Type = (if li_Type inp = [] then None else Some (li_Type inp)),
              sf_Visibility = (if li_Visibility inp = [] then None else Some (li_Visibility inp)),
              sf_CollectorID = collector, sf_Query = trimSpace (li_Q inp), sf_HasCatalogNumber = hasCat,
              sf_AcquiredAfter = after, sf_AcquiredBefore = before, sf_OwnerID = None, sf_Tagged = None\<rparr> in
     if li_Scope inp = ''mine'' then
       (if u_ID u = uuid_Nil then Inr None
        else sum_bind (bool_param ''tagged'' (li_Tagged inp)) (\<lambda>tagged.
          Inr (Some (f\<lparr>sf_OwnerID := Some (u_ID u), sf_Tagged := tagged\<rparr>))))
     else Inr (Some f))))))"

definition specimen_list ::
  "'r::{linorder,zero} specimen_env \<Rightarrow> auth_User \<Rightarrow> listSpecimensInput \<Rightarrow> database \<Rightarrow> apiError + specimenListBody" where
  "specimen_list env u inp d =
     sum_bind (list_filter env u inp) (\<lambda>f.
       case f of
         None \<Rightarrow> Inr \<lparr>lb_Items = [], lb_NextCursor = None\<rparr>
       | Some f \<Rightarrow>
           (case SpecimenPostgres_List (se_tc env) (se_ts env) u f \<lparr>pg_Limit = li_Limit inp, pg_Cursor = li_Cursor inp\<rparr> d of
              Inl e \<Rightarrow> Inl (mapListError e)
            | Inr (rows, cursor) \<Rightarrow>
                Inr \<lparr>lb_Items = fst (redactPage (env_redactor env d) u rows),
                     lb_NextCursor = (if cursor = [] then None else Some cursor)\<rparr>))"

definition specimen_get :: "'r specimen_env \<Rightarrow> auth_User \<Rightarrow> string \<Rightarrow> database \<Rightarrow> apiError + SpecimenView" where
  "specimen_get env u rawID d =
     sum_bind (parseUUID (uuid_Parse (se_tc env)) rawID ''id'') (\<lambda>i.
     sum_bind (map_sum mapSpecimenError id (SpecimenPostgres_GetByID d i)) (\<lambda>sp.
     sum_bind (as_error (checkView (se_guard env) u (specimenResource (ag_str (se_guard env)) sp)
       ''specimen_not_found'' ''no such specimen'')) (\<lambda>_.
     Inr (fst (redactSpecimen (env_redactor env d) u sp)))))"

definition new_specimen :: "'r specimen_env \<Rightarrow> auth_User \<Rightarrow> createSpecimenBody \<Rightarrow> string \<Rightarrow> Visibility \<Rightarrow> string \<Rightarrow> Specimen" where
  "new_specimen env u b name visibility typeData =
     \<lparr>sp_ID = se_newID env, sp_Type = cb_Type b, sp_CatalogNumber = cb_CatalogNumber b, sp_Name = name,
      sp_Description = cb_Description b, sp_Visibility = visibility, sp_AuthorID = u_ID u,
      sp_AcquiredAt = cb_AcquiredAt b, sp_AcquiredFrom = cb_AcquiredFrom b, sp_PriceCents = cb_PriceCents b,
      sp_SourceNotes = cb_SourceNotes b, sp_LocalityText = cb_LocalityText b, sp_Locality = cb_Locality b,
      sp_MassG = cb_MassG b, sp_Dimensions = cb_Dimensions b, sp_TypeData = typeData, sp_MainImageID = None,
      sp_VisibilityPrice = None, sp_VisibilityAcquiredFrom = None, sp_VisibilityImages = None,
      sp_Tagged = (case cb_Tagged b of None \<Rightarrow> False | Some t \<Rightarrow> t),
      sp_CreatedAt = se_now env, sp_UpdatedAt = se_now env\<rparr>"

definition specimen_create ::
  "'r specimen_env \<Rightarrow> auth_User \<Rightarrow> createSpecimenBody \<Rightarrow> database \<Rightarrow> apiError + (string \<times> SpecimenView) \<times> database" where
  "specimen_create env u b d =
     (let name = trimSpace (cb_Name b);
          visibility = (if cb_Visibility b = [] then VisibilityPrivate else cb_Visibility b) in
      sum_bind (ensure (name \<noteq> []) (newAPIError 400 ''invalid_name'' ''name is required'' [])) (\<lambda>_.
      sum_bind (ensure (validSpecimenType (cb_Type b))
        (newAPIError 400 ''invalid_type'' ''type must be one of mineral|rock|meteorite|fossil'' [(''field'', ''type'')])) (\<lambda>_.
      sum_bind (ensure (validVisibility visibility)
        (newAPIError 400 ''invalid_visibility'' ''visibility must be one of private|unlisted|public'' [(''field'', ''visibility'')])) (\<lambda>_.
      sum_bind (validateAndCanonicalizeTypeData (se_vc env) (se_entities env) (cb_Type b) (cb_TypeData b)) (\<lambda>typeData.
      sum_bind (as_error (guard_check (se_guard env) u (newSpecimenResource (ag_str (se_guard env)) (u_ID u) visibility) ''create'')) (\<lambda>_.
      let sp = new_specimen env u b name visibility typeData in
      sum_bind (map_sum mapSpecimenError id (SpecimenPostgres_Create u sp d)) (\<lambda>d'.
      Inr ((''/api/v1/specimens/'' @ ag_str (se_guard env) (sp_ID sp), toSpecimenView sp), d'))))))))"

definition keep :: "'a \<Rightarrow> 'a option \<Rightarrow> 'a" where
  "keep x y = (case y of None \<Rightarrow> x | Some z \<Rightarrow> z)"

definition keep_opt :: "'a option \<Rightarrow> 'a option \<Rightarrow> 'a option" where
  "keep_opt x y = (case y of None \<Rightarrow> x | Some z \<Rightarrow> Some z)"

text \<open>The fields a patch writes, in the order of the code.\<close>

definition apply_patch ::
  "'r specimen_env \<Rightarrow> patchSpecimenBody \<Rightarrow> database \<Rightarrow> Specimen \<Rightarrow> apiError + Specimen" where
  "apply_patch env b d cur =
     sum_bind (ensure (case pb_Type b of None \<Rightarrow> True | Some t \<Rightarrow> t = sp_Type cur)
       (newAPIError 409 ''specimen_type_immutable'' ''specimen type cannot be changed; reclassification means delete + recreate''
          [(''field'', ''type''), (''stored'', sp_Type cur)])) (\<lambda>_.
     sum_bind (ensure (case pb_Name b of None \<Rightarrow> True | Some n \<Rightarrow> trimSpace n \<noteq> [])
       (newAPIError 400 ''invalid_name'' ''name must be non-empty when provided'' [])) (\<lambda>_.
     sum_bind (ensure (case pb_Visibility b of None \<Rightarrow> True | Some v \<Rightarrow> validVisibility v)
       (newAPIError 400 ''invalid_visibility'' ''visibility must be one of private|unlisted|public'' [(''field'', ''visibility'')])) (\<lambda>_.
     sum_bind (ensure (case pb_MainImageID b of None \<Rightarrow> True | Some f \<Rightarrow> HasPhotoWithFile d (sp_ID cur) f)
       (newAPIError 422 ''invalid_main_image_id'' ''main_image_id must reference a photo on this specimen''
          [(''field'', ''main_image_id'')])) (\<lambda>_.
     sum_bind (case pb_TypeData b of
         None \<Rightarrow> Inr (sp_TypeData cur)
       | Some td \<Rightarrow>
           (case mergeTypeData (sp_TypeData cur) td of
              None \<Rightarrow> Inl (newAPIError 400 ''invalid_type_data'' ''type_data is not a JSON object'' [(''field'', ''type_data'')])
            | Some merged \<Rightarrow> validateAndCanonicalizeTypeData (se_vc env) (se_entities env) (sp_Type cur) merged)) (\<lambda>typeData.
     sum_bind (applyVisibilityPatch (se_vc env) (pb_VisibilityPrice b) ''visibility_price'' (sp_VisibilityPrice cur)) (\<lambda>vp.
     sum_bind (applyVisibilityPatch (se_vc env) (pb_VisibilityAcquiredFrom b) ''visibility_acquired_from'' (sp_VisibilityAcquiredFrom cur)) (\<lambda>va.
     sum_bind (applyVisibilityPatch (se_vc env) (pb_VisibilityImages b) ''visibility_images'' (sp_VisibilityImages cur)) (\<lambda>vi.
     Inr (cur\<lparr>sp_Name := keep (sp_Name cur) (map_option trimSpace (pb_Name b)),
              sp_Description := keep (sp_Description cur) (pb_Description b),
              sp_Visibility := keep (sp_Visibility cur) (pb_Visibility b),
              sp_CatalogNumber := keep_opt (sp_CatalogNumber cur) (pb_CatalogNumber b),
              sp_AcquiredAt := keep_opt (sp_AcquiredAt cur) (pb_AcquiredAt b),
              sp_AcquiredFrom := keep_opt (sp_AcquiredFrom cur) (pb_AcquiredFrom b),
              sp_PriceCents := keep_opt (sp_PriceCents cur) (pb_PriceCents b),
              sp_SourceNotes := keep_opt (sp_SourceNotes cur) (pb_SourceNotes b),
              sp_LocalityText := keep_opt (sp_LocalityText cur) (pb_LocalityText b),
              sp_Locality := keep_opt (sp_Locality cur) (pb_Locality b),
              sp_MassG := keep_opt (sp_MassG cur) (pb_MassG b),
              sp_Dimensions := keep_opt (sp_Dimensions cur) (pb_Dimensions b),
              sp_MainImageID := keep_opt (sp_MainImageID cur) (pb_MainImageID b),
              sp_TypeData := typeData, sp_VisibilityPrice := vp, sp_VisibilityAcquiredFrom := va,
              sp_VisibilityImages := vi, sp_Tagged := keep (sp_Tagged cur) (pb_Tagged b),
              sp_UpdatedAt := se_now env\<rparr>)))))))))"

definition specimen_patch ::
  "'r specimen_env \<Rightarrow> auth_User \<Rightarrow> string \<Rightarrow> patchSpecimenBody \<Rightarrow> database \<Rightarrow> apiError + SpecimenView \<times> database" where
  "specimen_patch env u rawID b d =
     sum_bind (parseUUID (uuid_Parse (se_tc env)) rawID ''id'') (\<lambda>i.
     sum_bind (map_sum mapSpecimenError id (SpecimenPostgres_GetByID d i)) (\<lambda>cur.
     sum_bind (as_error (guard_check (se_guard env) u (specimenResource (ag_str (se_guard env)) cur) ''edit'')) (\<lambda>_.
     sum_bind (apply_patch env b d cur) (\<lambda>cur'.
     sum_bind (map_sum mapSpecimenError id (SpecimenPostgres_Update cur' d)) (\<lambda>d'.
     Inr (fst (redactSpecimen (env_redactor env d') u cur'), d'))))))"

definition specimen_delete :: "'r specimen_env \<Rightarrow> auth_User \<Rightarrow> string \<Rightarrow> database \<Rightarrow> apiError + database" where
  "specimen_delete env u rawID d =
     sum_bind (parseUUID (uuid_Parse (se_tc env)) rawID ''id'') (\<lambda>i.
     sum_bind (map_sum mapSpecimenError id (SpecimenPostgres_GetByID d i)) (\<lambda>cur.
     sum_bind (as_error (guard_check (se_guard env) u (specimenResource (ag_str (se_guard env)) cur) ''delete'')) (\<lambda>_.
     map_sum mapSpecimenError id (SpecimenPostgres_Delete i d))))"

section \<open>Writes\<close>

datatype specimen_request = RCreate createSpecimenBody | RPatch string patchSpecimenBody | RDelete string

definition serve :: "'r specimen_env \<Rightarrow> auth_User \<Rightarrow> specimen_request \<Rightarrow> database \<Rightarrow> apiError + database" where
  "serve env u req d =
     (case req of
        RCreate b \<Rightarrow> map_sum id snd (specimen_create env u b d)
      | RPatch rawID b \<Rightarrow> map_sum id snd (specimen_patch env u rawID b d)
      | RDelete rawID \<Rightarrow> specimen_delete env u rawID d)"

text \<open>The payload of every row is canonical for the row's type.\<close>

definition typed_row :: "value_codec \<Rightarrow> Specimen \<Rightarrow> bool" where
  "typed_row vc s \<longleftrightarrow> (\<exists>td. sp_TypeData s = canonical vc td \<and> representable vc td \<and> of_type (sp_Type s) td \<and> validate_type_data td = None)"

definition service_ok :: "'r specimen_env \<Rightarrow> database \<Rightarrow> bool" where
  "service_ok env d \<longleftrightarrow> specimens_ok d \<and> (\<forall>s\<in>set (db_specimens d). typed_row (se_vc env) s)"

lemma stored_canonical [simp]: "stored_type_data (canonical vc td) = canonical vc td"
  using trim_canonical(2) [of vc td] by (simp add: stored_type_data_def)

lemma valid_sets: "validSpecimenType t \<longleftrightarrow> t \<in> set specimenTypes" "validVisibility v \<longleftrightarrow> v \<in> set visibilities"
  by (auto simp: validSpecimenType_def specimenTypes_def validVisibility_def visibilities_def)

lemma validate_typed:
  assumes "value_forms vc" and "t \<in> set specimenTypes" and "validateAndCanonicalizeTypeData vc e t raw = Inr b"
  shows "\<exists>td. b = canonical vc td \<and> representable vc td \<and> of_type t td \<and> validate_type_data td = None"
  using value_forms.validate_result [OF assms] by metis

lemma map_sum_Inr: "map_sum f id x = Inr y \<longleftrightarrow> x = Inr y"
  by (cases x) simp_all

text \<open>The row after a patch: only what may change has changed.\<close>

lemma apply_patch_row:
  assumes "apply_patch env b d cur = Inr cur'" and "value_forms (se_vc env)" and "typed_row (se_vc env) cur" and "sp_Type cur \<in> set specimenTypes"
  shows "same_identity cur cur' \<and> typed_row (se_vc env) cur'"
proof -
  obtain td where td: "(case pb_TypeData b of None \<Rightarrow> Inr (sp_TypeData cur)
       | Some td \<Rightarrow> (case mergeTypeData (sp_TypeData cur) td of
              None \<Rightarrow> Inl (newAPIError 400 ''invalid_type_data'' ''type_data is not a JSON object'' [(''field'', ''type_data'')])
            | Some merged \<Rightarrow> validateAndCanonicalizeTypeData (se_vc env) (se_entities env) (sp_Type cur) merged)) = Inr td"
    and row: "sp_TypeData cur' = td" "same_identity cur cur'"
    using assms(1) unfolding apply_patch_def sum_bind_Inr by (auto simp: same_identity_def)
  have "typed_row (se_vc env) (cur\<lparr>sp_TypeData := td\<rparr>)"
  proof (cases "pb_TypeData b")
    case None
    then show ?thesis using td assms(3) by (auto simp: typed_row_def)
  next
    case (Some x)
    then obtain merged where "validateAndCanonicalizeTypeData (se_vc env) (se_entities env) (sp_Type cur) merged = Inr td"
      using td by (auto split: option.splits)
    from validate_typed [OF assms(2,4) this] show ?thesis by (auto simp: typed_row_def)
  qed
  then show ?thesis using row by (auto simp: typed_row_def same_identity_def)
qed

text \<open>What a successful request does to the table: one row, of which the caller may dispose.\<close>

definition one_row :: "auth_User \<Rightarrow> database \<Rightarrow> database \<Rightarrow> bool" where
  "one_row u d d' \<longleftrightarrow> (\<exists>i. (\<forall>j. j \<noteq> i \<longrightarrow> SpecimenPostgres_GetByID d' j = SpecimenPostgres_GetByID d j) \<and>
     (case SpecimenPostgres_GetByID d i of
        Inl _ \<Rightarrow> (\<exists>s. SpecimenPostgres_GetByID d' i = Inr s \<and> sp_AuthorID s = u_ID u)
      | Inr cur \<Rightarrow> (isAdmin u \<or> u_ID u \<noteq> uuid_Nil \<and> sp_AuthorID cur = u_ID u) \<and>
          (case SpecimenPostgres_GetByID d' i of Inl _ \<Rightarrow> True | Inr s \<Rightarrow> same_identity cur s)))"

lemma typed_rows_get: "service_ok env d \<Longrightarrow> SpecimenPostgres_GetByID d i = Inr s \<Longrightarrow> typed_row (se_vc env) s \<and> sp_Type s \<in> set specimenTypes \<and> sp_ID s = i"
  by (auto simp: service_ok_def specimens_ok_def GetByID_iff list_all_iff enums_ok_def)

lemma service_okI:
  assumes "specimens_ok d'" and "\<And>i s. SpecimenPostgres_GetByID d' i = Inr s \<Longrightarrow> typed_row (se_vc env) s"
  shows "service_ok env d'"
  using assms by (auto simp: service_ok_def specimens_ok_def GetByID_iff)

lemma create_sound:
  assumes "value_forms (se_vc env)" and "service_ok env d" and "specimen_create env u b d = Inr (r, d')"
  shows "service_ok env d' \<and> one_row u d d'"
proof -
  obtain td n v where td: "validateAndCanonicalizeTypeData (se_vc env) (se_entities env) (cb_Type b) (cb_TypeData b) = Inr td"
    and t: "cb_Type b \<in> set specimenTypes" and run: "SpecimenPostgres_Create u (new_specimen env u b n v td) d = Inr d'"
    using assms(3) unfolding specimen_create_def Let_def sum_bind_Inr map_sum_Inr by (auto simp: valid_sets)
  let ?sp = "new_specimen env u b n v td"
  have row: "sp_Type ?sp = cb_Type b" "sp_TypeData ?sp = td" by (simp_all add: new_specimen_def)
  have ok: "specimens_ok d" using assms(2) by (simp add: service_ok_def)
  have typed: "typed_row (se_vc env) (?sp\<lparr>sp_AuthorID := a, sp_TypeData := stored_type_data (sp_TypeData ?sp)\<rparr>)" for a
    using validate_typed [OF assms(1) t td] row by (auto simp: typed_row_def)
  note get = specimen_postgres.get_create [OF ok run]
  have "service_ok env d'"
  proof (rule service_okI [OF specimen_postgres.create_ok [OF ok run]])
    fix i s
    assume "SpecimenPostgres_GetByID d' i = Inr s"
    then show "typed_row (se_vc env) s"
      using get [of i] typed typed_rows_get [OF assms(2), of i s] by (auto split: if_splits)
  qed
  moreover have "one_row u d d'"
    unfolding one_row_def using get by (intro exI [of _ "sp_ID ?sp"]) simp
  ultimately show ?thesis by blast
qed

lemma patch_sound:
  assumes "value_forms (se_vc env)" and "guard_ok (se_guard env) enf shares" and "service_ok env d" and "specimen_patch env u rawID b d = Inr (v, d')"
  shows "service_ok env d' \<and> one_row u d d'"
proof -
  obtain i cur cur' where cur: "SpecimenPostgres_GetByID d i = Inr cur"
    and guard: "guard_check (se_guard env) u (specimenResource (ag_str (se_guard env)) cur) ''edit'' = None"
    and patch: "apply_patch env b d cur = Inr cur'" and run: "SpecimenPostgres_Update cur' d = Inr d'"
    using assms(4) unfolding specimen_patch_def sum_bind_Inr map_sum_Inr by auto
  have ok: "specimens_ok d" using assms(3) by (simp add: service_ok_def)
  note t = typed_rows_get [OF assms(3) cur]
  have new: "same_identity cur cur'" "typed_row (se_vc env) cur'" using apply_patch_row [OF patch assms(1)] t by auto
  then have i: "sp_ID cur' = i" using t by (simp add: same_identity_def)
  obtain get: "\<forall>j. SpecimenPostgres_GetByID d' j = (if j = i then Inr (updated_row cur' cur) else SpecimenPostgres_GetByID d j)"
    using specimen_postgres.get_update [OF ok run] cur i by auto
  have typed: "typed_row (se_vc env) (updated_row cur' cur)" using new(2) by (auto simp: typed_row_def updated_row_def)
  have mine: "isAdmin u \<or> u_ID u \<noteq> uuid_Nil \<and> sp_AuthorID cur = u_ID u"
    using guard specimen_write_guard [OF assms(2), of "''edit''" u cur] by (simp add: isAdmin_def)
  have "service_ok env d'"
  proof (rule service_okI [OF specimen_postgres.update_ok [OF ok run]])
    fix j s
    assume "SpecimenPostgres_GetByID d' j = Inr s"
    then show "typed_row (se_vc env) s"
      using get typed typed_rows_get [OF assms(3), of j s] by (auto split: if_splits)
  qed
  moreover have "one_row u d d'"
    unfolding one_row_def using get cur mine new(1)
    by (intro exI [of _ i]) (simp add: same_identity_def updated_row_def)
  ultimately show ?thesis by blast
qed

lemma delete_sound:
  assumes "guard_ok (se_guard env) enf shares" and "service_ok env d" and "specimen_delete env u rawID d = Inr d'"
  shows "service_ok env d' \<and> one_row u d d'"
proof -
  obtain i cur where cur: "SpecimenPostgres_GetByID d i = Inr cur"
    and guard: "guard_check (se_guard env) u (specimenResource (ag_str (se_guard env)) cur) ''delete'' = None"
    and run: "SpecimenPostgres_Delete i d = Inr d'"
    using assms(3) unfolding specimen_delete_def sum_bind_Inr map_sum_Inr by auto
  have ok: "specimens_ok d" using assms(2) by (simp add: service_ok_def)
  have get: "SpecimenPostgres_GetByID d' j = (if j = i then Inl (Domain ErrSpecimenNotFound) else SpecimenPostgres_GetByID d j)" for j
    using specimen_postgres.get_remove [OF ok run] by blast
  have mine: "isAdmin u \<or> u_ID u \<noteq> uuid_Nil \<and> sp_AuthorID cur = u_ID u"
    using guard specimen_write_guard [OF assms(1), of "''delete''" u cur] by (simp add: isAdmin_def)
  have "service_ok env d'"
  proof (rule service_okI [OF specimen_postgres.remove_ok [OF ok run]])
    fix j s
    assume "SpecimenPostgres_GetByID d' j = Inr s"
    then show "typed_row (se_vc env) s"
      using get [of j] typed_rows_get [OF assms(2), of j s] by (auto split: if_splits)
  qed
  moreover have "one_row u d d'"
    unfolding one_row_def using get cur mine by (intro exI [of _ i]) simp
  ultimately show ?thesis by blast
qed

text \<open>
  C38. Every write the specimen endpoints accept is sound: the table keeps its constraints and every
  row's payload stays canonical and valid for its type; exactly one row is touched, a new one under the
  caller's name or an old one that the caller owns or, as an admin, may edit, and an edited row keeps
  its type, author and creation time. A request that is refused returns no new state.
\<close>

theorem specimen_writes_sound:
  assumes "value_forms (se_vc env)" and "guard_ok (se_guard env) enf shares" and "service_ok env d" and "serve env u req d = Inr d'"
  shows "service_ok env d' \<and> one_row u d d'"
proof -
  have strip: "\<exists>v. x = Inr (v, d')" if "map_sum id snd x = Inr d'" for x :: "apiError + 'v \<times> database"
    using that by (cases x) auto
  show ?thesis
    using assms(4) create_sound [OF assms(1,3)] patch_sound [OF assms(1-3)] delete_sound [OF assms(2,3)]
    by (cases req) (auto simp: serve_def dest!: strip)
qed

text \<open>One user, an environment with a live guard, and a request to create a rock.\<close>

definition sample_env :: "nat specimen_env" where
  "sample_env = \<lparr>se_guard = live_guard, se_vc = whole_codec, se_entities = knownEntities, se_tc = plain_codec,
     se_ts = \<lparr>ts_match = (\<lambda>_ _. False), ts_rank = (\<lambda>_ _. 0)\<rparr>, se_date = (\<lambda>_. None), se_now = 5, se_newID = 20\<rparr>"

definition sample_body :: createSpecimenBody where
  "sample_body = \<lparr>cb_Type = ''rock'', cb_CatalogNumber = None, cb_Name = '' granite'', cb_Description = [], cb_Visibility = [],
     cb_AcquiredAt = None, cb_AcquiredFrom = None, cb_PriceCents = None, cb_SourceNotes = None, cb_LocalityText = None,
     cb_Locality = None, cb_MassG = None, cb_Dimensions = None, cb_TypeData = [], cb_Tagged = None\<rparr>"

definition one_user :: database where
  "one_user = empty_database\<lparr>db_users := [User_zero\<lparr>us_ID := 7\<rparr>]\<rparr>"

lemma sample_create_guard:
  "guard_check live_guard (auth_User_zero\<lparr>u_ID := 7\<rparr>) (newSpecimenResource uuid_hex 7 VisibilityPrivate) ''create'' = None"
proof -
  let ?u = "auth_User_zero\<lparr>u_ID := 7\<rparr>"
  have "''user'' \<in> set (au_Roles (authzUser uuid_hex ?u))" "au_ID (authzUser uuid_hex ?u) = uuid_hex 7"
    by (simp_all add: authzUser_def)
  then have "granted None ''user'' (au_ID (authzUser uuid_hex ?u)) (newSpecimenResource uuid_hex 7 VisibilityPrivate) ''create''"
    using hex.str_nonempty [of 7] by (simp add: granted_def newSpecimenResource_def)
  then show ?thesis
    using guard_ok_check [OF live_guard_ok, of "''create''" ?u "newSpecimenResource uuid_hex 7 VisibilityPrivate"]
      \<open>''user'' \<in> set (au_Roles (authzUser uuid_hex ?u))\<close> by (auto simp: live_guard_def)
qed

lemma sample_create: "\<exists>d'. serve sample_env (auth_User_zero\<lparr>u_ID := 7\<rparr>) (RCreate sample_body) one_user = Inr d'"
proof -
  have valid: "trimSpace '' granite'' = ''granite''" "validateAndCanonicalizeTypeData whole_codec knownEntities ''rock'' [] = Inr ''{}''"
    by (simp_all add: trimSpace_def is_space_def validateAndCanonicalizeTypeData_def bytesTrimSpace_def)
  have "\<exists>d'. SpecimenPostgres_Create (auth_User_zero\<lparr>u_ID := 7\<rparr>)
      (new_specimen sample_env (auth_User_zero\<lparr>u_ID := 7\<rparr>) sample_body ''granite'' VisibilityPrivate ''{}'') one_user = Inr d'"
    by (simp add: SpecimenPostgres_Create_def new_specimen_def sample_body_def one_user_def empty_database_def enums_ok_def
        specimenTypes_def visibilities_def catalog_clash_def main_image_ok_def)
  then show ?thesis
    using sample_create_guard valid
    by (auto simp: serve_def specimen_create_def Let_def ensure_def sample_body_def sample_env_def as_error_def
        validSpecimenType_def validVisibility_def live_guard_def)
qed

theorem specimen_writes_sound_witness:
  "\<exists>d'. serve sample_env (auth_User_zero\<lparr>u_ID := 7\<rparr>) (RCreate sample_body) one_user = Inr d' \<and> service_ok sample_env d'"
proof -
  obtain d' where run: "serve sample_env (auth_User_zero\<lparr>u_ID := 7\<rparr>) (RCreate sample_body) one_user = Inr d'"
    using sample_create by blast
  have "value_forms (se_vc sample_env)" "guard_ok (se_guard sample_env) (model_eval DefaultGroupings None DefaultPolicies) None"
    using whole.value_forms_axioms live_guard_ok by (simp_all add: sample_env_def)
  moreover have "service_ok sample_env one_user"
    by (simp add: service_ok_def specimens_ok_def one_user_def empty_database_def fk_ok_def refs_def main_image_refs_def)
  ultimately show ?thesis using specimen_writes_sound run by blast
qed

section \<open>Reads\<close>

text \<open>Resources that nobody but their owner (and the admins) may see, and that for others do not exist.\<close>

lemma owned_view_guard:
  assumes "guard_ok g enf shares" and "r_Type res \<in> {''journal'', ''collectors''}" and "r_Visibility res = []" and "r_AuthorID res = ag_str g a"
  shows "guard_check g u res ''view'' = None \<longleftrightarrow> ownerScope u a"
proof
  have ut: "uuid_text (ag_str g)" using assms(1) by (simp add: guard_ok_def)
  let ?a = "authzUser (ag_str g) u"
  assume "guard_check g u res ''view'' = None"
  then obtain role where role: "role \<in> set (au_Roles ?a)" "granted shares role (au_ID ?a) res ''view''"
    using guard_ok_check [OF assms(1), of "''view''" u res] assms(3) by auto
  then have "role = ''admin'' \<or> au_ID ?a \<noteq> [] \<and> ag_str g a = au_ID ?a"
    unfolding granted_def using assms(2-4) by auto
  then show "ownerScope u a"
    using role(1) authzUser_owns [OF ut, of u a] authzUser_admin [of "ag_str g" u]
    unfolding ownerScope_def isAdmin_def isAnonymous_def by metis
next
  assume "ownerScope u a"
  then have who: "''admin'' \<in> set (u_Roles u) \<or> (u_ID u \<noteq> uuid_Nil \<and> a = u_ID u)"
    by (auto simp: ownerScope_def isAdmin_def isAnonymous_def)
  show "guard_check g u res ''view'' = None"
    by (rule owned_access_guard [OF assms(1) _ _ assms(4) who]) (use assms(2) in \<open>auto simp: owned_types_def\<close>)
qed

lemma owned_checkView:
  assumes "guard_ok g enf shares" and "r_Type res \<in> {''journal'', ''collectors''}" and "r_Visibility res = []" and "r_AuthorID res = ag_str g a"
  shows "checkView g u res code msg = (if ownerScope u a then None else Some (newAPIError 404 code msg []))"
proof (cases "ownerScope u a")
  case True
  then have "guard_check g u res ''view'' = None" using owned_view_guard [OF assms] by simp
  then show ?thesis using True by (simp add: checkView_def)
next
  case False
  then obtain ae where ae: "guard_check g u res ''view'' = Some ae" using owned_view_guard [OF assms] by auto
  have "err_Status ae = 403" using guard_ok_denies [OF assms(1) _ ae] by (simp add: newAPIError_def)
  then show ?thesis using ae False by (simp add: checkView_def)
qed

lemma owned_write_scope:
  assumes "guard_ok g enf shares" and "act \<in> {''edit'', ''delete'', ''create''}" and "r_Type res \<in> owned_types" and "r_AuthorID res = ag_str g a"
  shows "guard_check g u res act = None \<longleftrightarrow> ownerScope u a"
  using owned_write_guard [OF assms] by (auto simp: ownerScope_def isAdmin_def isAnonymous_def)

lemma guard_ok_checkView:
  assumes "guard_ok g enf shares"
  shows "checkView g u res code msg = None \<or> checkView g u res code msg = Some (newAPIError 404 code msg [])"
  using guard_ok_Enforce [OF assms, of "''view''" "authzUser (ag_str g) u" res] assms
  by (auto simp: checkView_def guard_check_def guard_ok_def newAPIError_def split: if_splits)

lemma env_redactor_view:
  assumes "guard_ok (se_guard env) enf shares"
  shows "fst (redactSpecimen (env_redactor env d) u s) =
    redactView (se_guard env) u (ownerOf (rx_users (env_redactor env d)) (sp_AuthorID s)) s"
  using assms redactSpecimen_view [of "env_redactor env d"]
  by (simp add: env_redactor_def newRedactor_def guard_ok_def guard_active_def cache_ok_def)

text \<open>
  C39. Reading a specimen: a malformed identifier is a 400; otherwise the caller gets the redacted view of
  the row when its visibility, its ownership or a share admits the caller, and in every other case one and
  the same 404, whether the row is missing or hidden.
\<close>

theorem specimen_get_spec:
  assumes "guard_ok (se_guard env) enf (Some (NewSharesLookup parse d))" and "\<forall>i. parse (ag_str (se_guard env) i) = Some i"
    and "distinct (map sp_ID (db_specimens d))"
  shows "specimen_get env u rawID d =
    (case uuid_Parse (se_tc env) rawID of
       None \<Rightarrow> Inl (newAPIError 400 ''invalid_id'' ''id must be a UUID'' [(''field'', ''id'')])
     | Some i \<Rightarrow>
         (case filter (\<lambda>s. sp_ID s = i \<and> specimenAccessScope d u s) (db_specimens d) of
            s # _ \<Rightarrow> Inr (redactView (se_guard env) u (ownerOf (rx_users (env_redactor env d)) (sp_AuthorID s)) s)
          | [] \<Rightarrow> Inl (newAPIError 404 ''specimen_not_found'' ''no such specimen'' [])))"
proof (cases "uuid_Parse (se_tc env) rawID")
  case None
  then show ?thesis by (simp add: specimen_get_def parseUUID_def)
next
  case (Some i)
  let ?hits = "filter (\<lambda>s. sp_ID s = i \<and> specimenAccessScope d u s) (db_specimens d)"
  note view = access_scope_checkView [OF assms(1,2), THEN conjunct1]
  show ?thesis
  proof (cases "SpecimenPostgres_GetByID d i")
    case (Inl e)
    then have "e = Domain ErrSpecimenNotFound" "?hits = []"
      by (auto simp: SpecimenPostgres_GetByID_def find_None_iff filter_empty_conv split: option.splits)
    then show ?thesis using Some Inl by (simp add: specimen_get_def parseUUID_def mapSpecimenError_def)
  next
    case (Inr s)
    then have s: "s \<in> set (db_specimens d)" "sp_ID s = i" using GetByID_iff [OF assms(3)] by auto
    have uniq: "x = s" if "x \<in> set (db_specimens d)" "sp_ID x = i" for x
      using that s assms(3) by (auto simp: distinct_map inj_on_def)
    have hits: "?hits = [] \<longleftrightarrow> \<not> specimenAccessScope d u s" unfolding filter_empty_conv using s uniq by blast
    have hd: "x = s" if "?hits = x # xs" for x xs
    proof -
      have "x \<in> set ?hits" unfolding that by simp
      then show ?thesis by (intro uniq) simp_all
    qed
    show ?thesis
    proof (cases "specimenAccessScope d u s")
      case True
      then have "?hits \<noteq> []" using hits by simp
      then obtain x xs where "?hits = x # xs" by (meson neq_Nil_conv)
      then have "?hits = s # xs" using hd by simp
      moreover have "checkView (se_guard env) u (specimenResource (ag_str (se_guard env)) s) ''specimen_not_found'' ''no such specimen'' = None"
        using view [of u s] True by simp
      ultimately show ?thesis using Some Inr env_redactor_view [OF assms(1)] by (simp add: specimen_get_def parseUUID_def as_error_def)
    next
      case False
      then have "checkView (se_guard env) u (specimenResource (ag_str (se_guard env)) s) ''specimen_not_found'' ''no such specimen'' =
          Some (newAPIError 404 ''specimen_not_found'' ''no such specimen'' [])"
        using view [of u s "''specimen_not_found''" "''no such specimen''"]
          guard_ok_checkView [OF assms(1), of u "specimenResource (ag_str (se_guard env)) s" "''specimen_not_found''" "''no such specimen''"]
        by (elim disjE) simp_all
      then show ?thesis using Some Inr hits False by (simp add: specimen_get_def parseUUID_def as_error_def)
    qed
  qed
qed

theorem specimen_get_spec_witness:
  "specimen_get (sample_env\<lparr>se_guard := \<lparr>ag_enforcer =
       Some (model_eval DefaultGroupings (Some (NewSharesLookup (uuid_Parse plain_codec) two_specimens)) DefaultPolicies),
       ag_str = uuid_hex\<rparr>\<rparr>) auth_User_zero (uuid_hex 9) two_specimens =
   Inl (newAPIError 404 ''specimen_not_found'' ''no such specimen'' [])"
proof -
  let ?shares = "Some (NewSharesLookup (uuid_Parse plain_codec) two_specimens)"
  let ?g = "\<lparr>ag_enforcer = Some (model_eval DefaultGroupings ?shares DefaultPolicies), ag_str = uuid_hex\<rparr>"
  let ?env = "sample_env\<lparr>se_guard := ?g\<rparr>"
  have "casbin_enforcer (model_eval DefaultGroupings ?shares DefaultPolicies) DefaultPolicies DefaultGroupings ?shares"
    by (rule model.casbin_enforcer_axioms)
  then have g: "guard_ok (se_guard ?env) (model_eval DefaultGroupings ?shares DefaultPolicies) ?shares"
    using hex.uuid_text_axioms NewSharesLookup_total by (simp add: guard_ok_def)
  have parse: "uuid_Parse plain_codec (uuid_hex i) = Some i" for i
    using plain.uuid_back [of i] by (simp add: plain_codec_def)
  have "\<forall>i. uuid_Parse plain_codec (ag_str (se_guard ?env) i) = Some i" "distinct (map sp_ID (db_specimens two_specimens))"
    by (simp_all add: parse two_specimens_def)
  from specimen_get_spec [OF g this, of auth_User_zero "uuid_hex 9"] show ?thesis
    by (simp add: sample_env_def parse two_specimens_def)
qed

end
