(* ===== verification/LabelPDF.thy ===== *)
theory LabelPDF
  imports Minerals_Domain
begin

text \<open>
  The label sheets of \<open>src/internal/pdf/qr_sheet.go\<close>: the geometry of the templates and the drawing
  loop of \<open>Generate\<close>. The PDF writer and the QR encoder are packages outside the repository. The writer
  is driven by the list of calls it receives; the record \<open>pdf_env\<close> says what it answers to them.
  Lengths are millimetres.
\<close>

definition inToMM :: "float64 \<Rightarrow> float64" where
  "inToMM x = x * (254 / 10)"

definition labelInsetFraction :: float64 where
  "labelInsetFraction = 5 / 100"

definition qrPNGSize :: nat where
  "qrPNGSize = 512"

record Template =
  tm_Name :: string
  tm_PageSize :: string
  tm_Cols :: nat
  tm_Rows :: nat
  tm_LabelW :: float64
  tm_LabelH :: float64
  tm_MarginTop :: float64
  tm_MarginLeft :: float64
  tm_GapH :: float64
  tm_GapV :: float64

definition Capacity :: "Template \<Rightarrow> nat" where
  "Capacity t = tm_Cols t * tm_Rows t"

definition templates :: "Template list" where
  "templates =
     [\<lparr>tm_Name = ''avery-5160'', tm_PageSize = ''Letter'', tm_Cols = 3, tm_Rows = 10,
       tm_LabelW = inToMM (2625 / 1000), tm_LabelH = inToMM 1, tm_MarginTop = inToMM (5 / 10),
       tm_MarginLeft = inToMM (19 / 100), tm_GapH = inToMM (125 / 1000), tm_GapV = 0\<rparr>,
      \<lparr>tm_Name = ''avery-5163'', tm_PageSize = ''Letter'', tm_Cols = 2, tm_Rows = 5,
       tm_LabelW = inToMM 4, tm_LabelH = inToMM 2, tm_MarginTop = inToMM (5 / 10),
       tm_MarginLeft = inToMM (15 / 100), tm_GapH = inToMM (19 / 100), tm_GapV = 0\<rparr>,
      \<lparr>tm_Name = ''avery-5164'', tm_PageSize = ''Letter'', tm_Cols = 2, tm_Rows = 3,
       tm_LabelW = inToMM 4, tm_LabelH = inToMM (333 / 100), tm_MarginTop = inToMM (5 / 10),
       tm_MarginLeft = inToMM (15 / 100), tm_GapH = inToMM (19 / 100), tm_GapV = 0\<rparr>,
      \<lparr>tm_Name = ''avery-22806'', tm_PageSize = ''Letter'', tm_Cols = 3, tm_Rows = 4,
       tm_LabelW = inToMM 2, tm_LabelH = inToMM 2, tm_MarginTop = inToMM (5 / 10),
       tm_MarginLeft = inToMM (75 / 100), tm_GapH = inToMM (31 / 100), tm_GapV = inToMM (25 / 100)\<rparr>,
      \<lparr>tm_Name = ''avery-l7160'', tm_PageSize = ''A4'', tm_Cols = 3, tm_Rows = 7,
       tm_LabelW = 635 / 10, tm_LabelH = 381 / 10, tm_MarginTop = 1515 / 100,
       tm_MarginLeft = 465 / 100, tm_GapH = 254 / 100, tm_GapV = 0\<rparr>]"

definition TemplateByName :: "string \<Rightarrow> Template option" where
  "TemplateByName name = find (\<lambda>t. tm_Name t = name) templates"

section \<open>Drawing\<close>

text \<open>The calls on the document: a new page, and a registered image placed at \<open>x\<close>, \<open>y\<close> with a side length.\<close>

datatype doc_op =
    AddPage
  | RegisterImage nat bytes
  | PlaceImage nat float64 float64 float64

record pdf_env =
  qrcode_Encode :: "string \<Rightarrow> nat \<Rightarrow> string + bytes"
  doc_Error :: "string \<Rightarrow> doc_op list \<Rightarrow> string option"
  doc_Output :: "string \<Rightarrow> doc_op list \<Rightarrow> string + bytes"

datatype pdf_error = ErrNoLabels | EncodeFailed string | RegisterFailed nat string | WriteFailed string

definition cell_pos :: "Template \<Rightarrow> nat \<Rightarrow> float64 \<times> float64" where
  "cell_pos t i =
     (let slot = i mod Capacity t; row = slot div tm_Cols t; col = slot mod tm_Cols t in
      (tm_MarginLeft t + of_nat col * (tm_LabelW t + tm_GapH t),
       tm_MarginTop t + of_nat row * (tm_LabelH t + tm_GapV t)))"

definition qr_size :: "Template \<Rightarrow> float64" where
  "qr_size t =
     (let boxW = tm_LabelW t * (1 - 2 * labelInsetFraction); boxH = tm_LabelH t * (1 - 2 * labelInsetFraction)
      in if boxH < boxW then boxH else boxW)"

definition qr_pos :: "Template \<Rightarrow> nat \<Rightarrow> float64 \<times> float64" where
  "qr_pos t i =
     (case cell_pos t i of (cellX, cellY) \<Rightarrow>
        (cellX + (tm_LabelW t - qr_size t) / 2, cellY + (tm_LabelH t - qr_size t) / 2))"

text \<open>The loop over the addresses; \<open>ops\<close> are the calls made so far.\<close>

fun draw_labels :: "pdf_env \<Rightarrow> Template \<Rightarrow> nat \<Rightarrow> string list \<Rightarrow> doc_op list \<Rightarrow> pdf_error + doc_op list" where
  "draw_labels env t i [] ops = Inr ops"
| "draw_labels env t i (url # urls) ops =
     (let ops1 = (if i mod Capacity t = 0 then ops @ [AddPage] else ops) in
      case qrcode_Encode env url qrPNGSize of
        Inl _ \<Rightarrow> Inl (EncodeFailed url)
      | Inr png \<Rightarrow>
          (let ops2 = ops1 @ [RegisterImage i png] in
           case doc_Error env (tm_PageSize t) ops2 of
             Some e \<Rightarrow> Inl (RegisterFailed i e)
           | None \<Rightarrow>
               (case qr_pos t i of (x, y) \<Rightarrow>
                  draw_labels env t (Suc i) urls (ops2 @ [PlaceImage i x y (qr_size t)]))))"

definition Generate :: "pdf_env \<Rightarrow> Template \<Rightarrow> string list \<Rightarrow> pdf_error + bytes" where
  "Generate env t urls =
     (if urls = [] then Inl ErrNoLabels
      else sum_bind (draw_labels env t 0 urls []) (\<lambda>ops.
        case doc_Output env (tm_PageSize t) ops of Inl e \<Rightarrow> Inl (WriteFailed e) | Inr b \<Rightarrow> Inr b))"

section \<open>What is drawn\<close>

text \<open>The calls of one label.\<close>

definition label_ops :: "pdf_env \<Rightarrow> Template \<Rightarrow> nat \<Rightarrow> string \<Rightarrow> doc_op list" where
  "label_ops env t i url =
     (if i mod Capacity t = 0 then [AddPage] else []) @
     (case qrcode_Encode env url qrPNGSize of Inl _ \<Rightarrow> [] | Inr png \<Rightarrow> [RegisterImage i png]) @
     [PlaceImage i (fst (qr_pos t i)) (snd (qr_pos t i)) (qr_size t)]"

definition sheet_ops :: "pdf_env \<Rightarrow> Template \<Rightarrow> string list \<Rightarrow> doc_op list" where
  "sheet_ops env t urls = concat (map (\<lambda>(i, url). label_ops env t i url) (enumerate 0 urls))"

definition page_count :: "doc_op list \<Rightarrow> nat" where
  "page_count ops = length (filter (\<lambda>op. op = AddPage) ops)"

lemma draw_labels_ops:
  "draw_labels env t i urls ops = Inr ops' \<Longrightarrow>
     ops' = ops @ concat (map (\<lambda>(i, url). label_ops env t i url) (enumerate i urls)) \<and>
     (\<forall>url\<in>set urls. \<not> isl (qrcode_Encode env url qrPNGSize))"
proof (induction urls arbitrary: i ops)
  case Nil
  then show ?case by simp
next
  case (Cons url urls)
  then obtain png where png: "qrcode_Encode env url qrPNGSize = Inr png"
    by (auto simp: Let_def split: sum.splits)
  then have "draw_labels env t (Suc i) urls (ops @ label_ops env t i url) = Inr ops'"
    using Cons.prems by (auto simp: Let_def label_ops_def split: option.splits prod.splits if_splits)
  from Cons.IH [OF this] show ?case using png by simp
qed

lemma Generate_ops:
  "Generate env t urls = Inr b \<Longrightarrow> urls \<noteq> [] \<and> doc_Output env (tm_PageSize t) (sheet_ops env t urls) = Inr b"
proof -
  assume "Generate env t urls = Inr b"
  then obtain ops where "urls \<noteq> []" "draw_labels env t 0 urls [] = Inr ops" "doc_Output env (tm_PageSize t) ops = Inr b"
    by (cases "urls = []"; cases "draw_labels env t 0 urls []") (auto simp: Generate_def split: sum.splits)
  then show ?thesis using draw_labels_ops [of env t 0 urls "[]" ops] by (simp add: sheet_ops_def)
qed

lemma page_count_append [simp]: "page_count (xs @ ys) = page_count xs + page_count ys"
  by (simp add: page_count_def)

lemma page_count_label: "page_count (label_ops env t i url) = (if i mod Capacity t = 0 then 1 else 0)"
  by (simp add: label_ops_def page_count_def split: sum.splits)

text \<open>One page is opened per started block of labels.\<close>

lemma block_div: "r < (c::nat) \<Longrightarrow> (c * q + r) div c = q"
  by simp

lemma Suc_div_block:
  assumes "0 < (c::nat)"
  shows "(Suc i + c - 1) div c = (i + c - 1) div c + (if i mod c = 0 then 1 else 0)"
proof (cases "i mod c = 0")
  case True
  then obtain q where i: "i = c * q" by auto
  have "Suc i + c - 1 = c * Suc q + 0" "i + c - 1 = c * q + (c - 1)" using assms i by simp_all
  then have "(Suc i + c - 1) div c = Suc q" "(i + c - 1) div c = q"
    using block_div [of 0 c "Suc q"] block_div [of "c - 1" c q] assms by (simp_all only: diff_less zero_less_one)
  then show ?thesis using True by (simp only: simp_thms if_True)
next
  case False
  define q r where "q = i div c" and "r = i mod c"
  have i: "i = c * q + r" and r: "0 < r" "r < c" using False assms by (simp_all add: q_def r_def)
  have "Suc i + c - 1 = c * Suc q + r" "i + c - 1 = c * Suc q + (r - 1)" using i r by simp_all
  moreover have "r - 1 < c" using r by simp
  ultimately have "(Suc i + c - 1) div c = Suc q" "(i + c - 1) div c = Suc q"
    using block_div [of r c "Suc q"] block_div [of "r - 1" c "Suc q"] r by (simp_all only:)
  then show ?thesis using False by (simp only: simp_thms if_False)
qed

lemma page_count_sheet:
  assumes "0 < Capacity t"
  shows "page_count (sheet_ops env t urls) = (length urls + Capacity t - 1) div Capacity t"
proof -
  have "page_count (concat (map (\<lambda>(i, url). label_ops env t i url) (enumerate k urls))) + (k + Capacity t - 1) div Capacity t =
      (k + length urls + Capacity t - 1) div Capacity t" for k
  proof (induction urls arbitrary: k)
    case Nil
    then show ?case by (simp add: page_count_def)
  next
    case (Cons u us)
    then show ?case using Cons [of "Suc k"] Suc_div_block [OF assms, of k] by (simp add: page_count_label)
  qed
  from this [of 0] show ?thesis using assms by (simp add: sheet_ops_def)
qed

section \<open>Geometry\<close>

text \<open>The paper, in the sizes the page names stand for.\<close>

definition paper :: "string \<Rightarrow> float64 \<times> float64" where
  "paper name = (if name = ''A4'' then (210, 297) else (2159 / 10, 2794 / 10))"

text \<open>What makes a template printable: positive labels, and columns and rows that fit the paper.\<close>

definition printable :: "Template \<Rightarrow> bool" where
  "printable t \<longleftrightarrow> 0 < tm_Cols t \<and> 0 < tm_Rows t \<and> 0 < tm_LabelW t \<and> 0 < tm_LabelH t \<and>
     0 \<le> tm_MarginLeft t \<and> 0 \<le> tm_MarginTop t \<and> 0 \<le> tm_GapH t \<and> 0 \<le> tm_GapV t \<and>
     tm_MarginLeft t + of_nat (tm_Cols t) * (tm_LabelW t + tm_GapH t) \<le> fst (paper (tm_PageSize t)) + tm_GapH t \<and>
     tm_MarginTop t + of_nat (tm_Rows t) * (tm_LabelH t + tm_GapV t) \<le> snd (paper (tm_PageSize t)) + tm_GapV t"

lemma TemplateByName_cases:
  assumes "TemplateByName name = Some t"
  shows "printable t" "QRSheetTemplateCapacity name = Some (Capacity t)"
proof -
  have t: "t \<in> set templates" "tm_Name t = name"
    using assms by (auto simp: TemplateByName_def find_Some_iff)
  have "\<forall>t\<in>set templates. printable t \<and> QRSheetTemplateCapacity (tm_Name t) = Some (Capacity t)"
    by (simp add: templates_def printable_def Capacity_def paper_def inToMM_def QRSheetTemplateCapacity_def)
  with t show "printable t" "QRSheetTemplateCapacity name = Some (Capacity t)" by blast+
qed

lemma TemplateByName_total: "TemplateByName name = None \<longleftrightarrow> QRSheetTemplateCapacity name = None"
  by (auto simp: TemplateByName_def templates_def QRSheetTemplateCapacity_def)

text \<open>A span \<open>k * (w + g)\<close> to \<open>k * (w + g) + w\<close> of one row lies before the next and inside the row.\<close>

lemma span_order: "(0::float64) \<le> w + g \<Longrightarrow> j < k \<Longrightarrow> m + of_nat j * (w + g) + (w + g) \<le> m + of_nat k * (w + g)"
proof -
  assume w: "0 \<le> w + g" and "j < k"
  then have "of_nat (Suc j) \<le> (of_nat k :: float64)" by (metis Suc_leI of_nat_le_iff)
  from mult_right_mono [OF this w] show ?thesis by (simp add: algebra_simps)
qed

lemma span_inside:
  assumes "(0::float64) \<le> w + g" and "j < k" and "m + of_nat k * (w + g) \<le> p + g"
  shows "m + of_nat j * (w + g) + w \<le> p"
  using span_order [OF assms(1,2), of m] assms(3) by simp

lemma qr_size_bounds: "printable t \<Longrightarrow> 0 < qr_size t \<and> qr_size t \<le> tm_LabelW t \<and> qr_size t \<le> tm_LabelH t"
  by (auto simp: printable_def qr_size_def labelInsetFraction_def)

lemma slot_coords:
  assumes "printable t"
  shows "(i mod Capacity t) mod tm_Cols t < tm_Cols t" "(i mod Capacity t) div tm_Cols t < tm_Rows t"
  using assms by (simp_all add: printable_def Capacity_def less_mult_imp_div_less mult.commute)

text \<open>The square of a label lies on the paper.\<close>

lemma qr_on_paper:
  assumes "printable t"
  shows "case qr_pos t i of (x, y) \<Rightarrow> 0 \<le> x \<and> 0 \<le> y \<and> x + qr_size t \<le> fst (paper (tm_PageSize t)) \<and> y + qr_size t \<le> snd (paper (tm_PageSize t))"
proof -
  define col row where "col = (i mod Capacity t) mod tm_Cols t" and "row = (i mod Capacity t) div tm_Cols t"
  have cr: "col < tm_Cols t" "row < tm_Rows t" unfolding col_def row_def by (rule slot_coords [OF assms])+
  have pos: "0 \<le> tm_LabelW t + tm_GapH t" "0 \<le> tm_LabelH t + tm_GapV t" using assms by (auto simp: printable_def)
  have "tm_MarginLeft t + of_nat col * (tm_LabelW t + tm_GapH t) + tm_LabelW t \<le> fst (paper (tm_PageSize t))"
    using assms by (intro span_inside [OF pos(1) cr(1)]) (simp add: printable_def)
  moreover have "tm_MarginTop t + of_nat row * (tm_LabelH t + tm_GapV t) + tm_LabelH t \<le> snd (paper (tm_PageSize t))"
    using assms by (intro span_inside [OF pos(2) cr(2)]) (simp add: printable_def)
  moreover have "0 \<le> tm_MarginLeft t" "0 \<le> tm_MarginTop t" using assms by (auto simp: printable_def)
  moreover have "0 \<le> of_nat col * (tm_LabelW t + tm_GapH t)" "0 \<le> of_nat row * (tm_LabelH t + tm_GapV t)"
    by (intro mult_nonneg_nonneg pos of_nat_0_le_iff)+
  ultimately show ?thesis
    using qr_size_bounds [OF assms] unfolding qr_pos_def cell_pos_def Let_def split_def fst_conv snd_conv
    by (fold col_def row_def) (simp add: field_simps)
qed

text \<open>Two labels of one page do not overlap.\<close>

definition disjoint_squares :: "float64 \<times> float64 \<Rightarrow> float64 \<times> float64 \<Rightarrow> float64 \<Rightarrow> bool" where
  "disjoint_squares p q s \<longleftrightarrow> fst p + s \<le> fst q \<or> fst q + s \<le> fst p \<or> snd p + s \<le> snd q \<or> snd q + s \<le> snd p"

lemma qr_disjoint:
  assumes "printable t" and "i div Capacity t = j div Capacity t" and "i < j"
  shows "disjoint_squares (qr_pos t i) (qr_pos t j) (qr_size t)"
proof -
  let ?c = "\<lambda>i. (i mod Capacity t) mod tm_Cols t" and ?r = "\<lambda>i. (i mod Capacity t) div tm_Cols t"
  have pos: "0 \<le> tm_LabelW t + tm_GapH t" "0 \<le> tm_LabelH t + tm_GapV t" "0 \<le> tm_GapH t" "0 \<le> tm_GapV t"
    using assms(1) by (auto simp: printable_def)
  note size = qr_size_bounds [OF assms(1)]
  have less: "i mod Capacity t < j mod Capacity t"
    using assms(2,3) by (metis add_less_cancel_left mult_div_mod_eq)
  then have "?r i < ?r j \<or> ?r i = ?r j \<and> ?c i < ?c j"
    by (metis add_less_cancel_left div_le_mono le_neq_implies_less mult_div_mod_eq order_less_imp_le)
  then show ?thesis
  proof (elim disjE conjE)
    assume "?r i < ?r j"
    from span_order [OF pos(2) this, of "tm_MarginTop t"] show ?thesis
      using size pos by (simp add: disjoint_squares_def qr_pos_def cell_pos_def Let_def)
  next
    assume "?c i < ?c j"
    from span_order [OF pos(1) this, of "tm_MarginLeft t"] show ?thesis
      using size pos by (simp add: disjoint_squares_def qr_pos_def cell_pos_def Let_def)
  qed
qed

text \<open>The calls up to and including label \<open>i\<close> end with its placement, on page \<open>i div Capacity\<close> from 0.\<close>

lemma enumerate_take: "i < length xs \<Longrightarrow> enumerate k xs = enumerate k (take i xs) @ (k + i, xs ! i) # enumerate (k + Suc i) (drop (Suc i) xs)"
proof (induction xs arbitrary: k i)
  case Nil
  then show ?case by simp
next
  case (Cons x xs)
  then show ?case by (cases i) simp_all
qed

lemma sheet_ops_split:
  assumes "i < length urls"
  shows "\<exists>rest. sheet_ops env t urls = sheet_ops env t (take i urls) @ label_ops env t i (urls ! i) @ rest"
  unfolding sheet_ops_def enumerate_take [OF assms, of 0] by simp

lemma sheet_ops_place:
  assumes "0 < Capacity t" and "i < length urls"
  shows "\<exists>before after. sheet_ops env t urls = before @ PlaceImage i (fst (qr_pos t i)) (snd (qr_pos t i)) (qr_size t) # after \<and>
    page_count before = Suc (i div Capacity t)"
proof -
  obtain rest where ops: "sheet_ops env t urls = sheet_ops env t (take i urls) @ label_ops env t i (urls ! i) @ rest"
    using sheet_ops_split [OF assms(2)] by blast
  obtain b where b: "label_ops env t i (urls ! i) = b @ [PlaceImage i (fst (qr_pos t i)) (snd (qr_pos t i)) (qr_size t)]"
    by (simp add: label_ops_def)
  have "page_count b = page_count (label_ops env t i (urls ! i))" by (simp add: b page_count_def)
  then have "page_count (sheet_ops env t (take i urls) @ b) = (Suc i + Capacity t - 1) div Capacity t"
    using Suc_div_block [OF assms(1), of i] assms(2) by (simp add: page_count_sheet [OF assms(1)] page_count_label)
  also have "\<dots> = Suc (i div Capacity t)" using assms(1) by simp
  finally show ?thesis
    unfolding ops b by (intro exI [of _ "sheet_ops env t (take i urls) @ b"] exI [of _ rest]) simp
qed

lemma sheet_ops_register:
  assumes "i < length urls" and "qrcode_Encode env (urls ! i) qrPNGSize = Inr png"
  shows "RegisterImage i png \<in> set (sheet_ops env t urls)"
proof -
  obtain rest where ops: "sheet_ops env t urls = sheet_ops env t (take i urls) @ label_ops env t i (urls ! i) @ rest"
    using sheet_ops_split [OF assms(1)] by blast
  show ?thesis unfolding ops by (simp add: label_ops_def assms(2))
qed

lemma Generate_encodes:
  assumes "Generate env t urls = Inr b" and "i < length urls"
  shows "\<exists>png. qrcode_Encode env (urls ! i) qrPNGSize = Inr png"
proof -
  obtain ops where "draw_labels env t 0 urls [] = Inr ops"
    using assms(1) by (cases "urls = []"; cases "draw_labels env t 0 urls []") (auto simp: Generate_def)
  then have "\<not> isl (qrcode_Encode env (urls ! i) qrPNGSize)" using draw_labels_ops assms(2) by (metis nth_mem)
  then show ?thesis by (cases "qrcode_Encode env (urls ! i) qrPNGSize") simp_all
qed

end
