(* ===== verification/QRSheets.thy ===== *)
theory QRSheets
  imports SpecimenService LabelPDF
begin

text \<open>
  The label sheets: the repository \<open>src/internal/db/qr_sheet_postgres.go\<close> on the tables of migration
  0003 and the endpoints of \<open>src/internal/api/qr_sheets.go\<close>. A user has at most one sheet, an ordered
  list of specimens whose labels are printed together. The rows of a sheet carry positions; the
  refinement at the end shows that the positions implement the list. Position arithmetic is unbounded.
\<close>

section \<open>The repository\<close>

definition QRSheet_GetByUser :: "database \<Rightarrow> uuid \<Rightarrow> repo_error + QRSheet" where
  "QRSheet_GetByUser d uid =
     (case find (\<lambda>s. qs_UserID s = uid) (db_qr_sheets d) of
        None \<Rightarrow> Inl (Domain ErrQRSheetNotFound) | Some s \<Rightarrow> Inr s)"

text \<open>The primary key and the unique \<open>user_id\<close> both surface as a conflict; migration 0011 adds the foreign key.\<close>

definition QRSheet_Create :: "QRSheet \<Rightarrow> database \<Rightarrow> repo_error + database" where
  "QRSheet_Create s d =
     (if qs_ID s \<in> set (map qs_ID (db_qr_sheets d)) \<or> qs_UserID s \<in> set (map qs_UserID (db_qr_sheets d))
      then Inl (Domain ErrQRSheetConflict)
      else if qs_UserID s \<notin> set (map us_ID (db_users d)) then Inl fk_violation
      else Inr (d\<lparr>db_qr_sheets := db_qr_sheets d @ [s]\<rparr>))"

definition UpdateTemplate :: "uuid \<Rightarrow> QRSheetTemplate \<Rightarrow> time \<Rightarrow> database \<Rightarrow> repo_error + database" where
  "UpdateTemplate uid template updatedAt d =
     (if uid \<in> set (map qs_UserID (db_qr_sheets d))
      then Inr (d\<lparr>db_qr_sheets := map (\<lambda>s. if qs_UserID s = uid
             then s\<lparr>qs_Template := template, qs_UpdatedAt := updatedAt\<rparr> else s) (db_qr_sheets d)\<rparr>)
      else Inl (Domain ErrQRSheetNotFound))"

definition QRSheet_Delete :: "uuid \<Rightarrow> database \<Rightarrow> repo_error + database" where
  "QRSheet_Delete uid d =
     sum_bind (delete_qr_sheets (\<lambda>s. qs_UserID s = uid) d) (\<lambda>(n, d').
       if n = 0 then Inl (Domain ErrQRSheetNotFound) else Inr d')"

definition next_position :: "database \<Rightarrow> uuid \<Rightarrow> int" where
  "next_position d sid =
     (case map qr_Position (filter (\<lambda>r. qr_SheetID r = sid) (db_qr_specimens d)) of
        [] \<Rightarrow> 1 | p # ps \<Rightarrow> Max (set (p # ps)) + 1)"

text \<open>
  The statements of an append. The flag of the result says that the transaction was aborted by a failed
  statement although the function returns nil: after a unique violation.
\<close>

definition addSpecimenTx :: "uuid \<Rightarrow> uuid \<Rightarrow> uuid \<Rightarrow> time \<Rightarrow> database \<Rightarrow> repo_error + bool \<times> database" where
  "addSpecimenTx rowID uid specimenID addedAt d =
     (case find (\<lambda>s. qs_UserID s = uid) (db_qr_sheets d) of
        None \<Rightarrow> Inl (Domain ErrQRSheetNotFound)
      | Some s \<Rightarrow>
          (if \<exists>r\<in>set (db_qr_specimens d). qr_SheetID r = qs_ID s \<and> qr_SpecimenID r = specimenID then Inr (False, d)
           else if rowID \<in> set (map qr_ID (db_qr_specimens d)) then Inr (True, d)
           else if specimenID \<notin> set (map sp_ID (db_specimens d)) then Inl (Domain ErrSpecimenNotFound)
           else Inr (False, d\<lparr>db_qr_specimens := db_qr_specimens d @
                  [\<lparr>qr_ID = rowID, qr_SheetID = qs_ID s, qr_SpecimenID = specimenID,
                    qr_Position = next_position d (qs_ID s), qr_AddedAt = addedAt\<rparr>]\<rparr>)))"

text \<open>Committing an aborted transaction rolls back and is an error of the driver.\<close>

definition AddSpecimen :: "tx_env \<Rightarrow> uuid \<Rightarrow> uuid \<Rightarrow> uuid \<Rightarrow> time \<Rightarrow> database \<Rightarrow> (repo_error + unit) \<times> database" where
  "AddSpecimen tx rowID uid specimenID addedAt =
     RunInTx tx id (\<lambda>d. sum_bind (addSpecimenTx rowID uid specimenID addedAt d) (\<lambda>(aborted, d').
       if aborted then Inl (Driver ''commit unexpectedly resulted in rollback'') else Inr ((), d')))"

definition repack :: "uuid \<Rightarrow> int \<Rightarrow> QRSheetSpecimenRow \<Rightarrow> QRSheetSpecimenRow" where
  "repack sid removedPos r =
     (if qr_SheetID r = sid \<and> qr_Position r > removedPos then r\<lparr>qr_Position := qr_Position r - 1\<rparr> else r)"

definition removeSpecimenTx :: "uuid \<Rightarrow> uuid \<Rightarrow> database \<Rightarrow> repo_error + unit \<times> database" where
  "removeSpecimenTx uid specimenID d =
     (case find (\<lambda>s. qs_UserID s = uid) (db_qr_sheets d) of
        None \<Rightarrow> Inl (Domain ErrQRSheetNotFound)
      | Some s \<Rightarrow>
          (case find (\<lambda>r. qr_SheetID r = qs_ID s \<and> qr_SpecimenID r = specimenID) (db_qr_specimens d) of
             None \<Rightarrow> Inl (Domain ErrQRSheetSpecimenNotFound)
           | Some gone \<Rightarrow>
               Inr ((), d\<lparr>db_qr_specimens := map (repack (qs_ID s) (qr_Position gone))
                 (filter (\<lambda>r. \<not> (qr_SheetID r = qs_ID s \<and> qr_SpecimenID r = specimenID)) (db_qr_specimens d))\<rparr>)))"

definition RemoveSpecimen :: "tx_env \<Rightarrow> uuid \<Rightarrow> uuid \<Rightarrow> database \<Rightarrow> (repo_error + unit) \<times> database" where
  "RemoveSpecimen tx uid specimenID = RunInTx tx id (removeSpecimenTx uid specimenID)"

definition first_photo :: "database \<Rightarrow> uuid \<Rightarrow> uuid option" where
  "first_photo d specimenID =
     (case sort_key ph_Position (sort_key ph_CreatedAt (sort_key ph_ID
          (filter (\<lambda>p. ph_SpecimenID p = specimenID) (db_photos d)))) of
        [] \<Rightarrow> None | p # _ \<Rightarrow> Some (ph_ID p))"

definition sheet_rows :: "database \<Rightarrow> uuid \<Rightarrow> QRSheetSpecimenRow list" where
  "sheet_rows d sid = sort_key qr_Position (filter (\<lambda>r. qr_SheetID r = sid) (db_qr_specimens d))"

definition ListSpecimens :: "database \<Rightarrow> uuid \<Rightarrow> QRSheetEntry list" where
  "ListSpecimens d sid =
     concat (map (\<lambda>r.
       case find (\<lambda>s. sp_ID s = qr_SpecimenID r) (db_specimens d) of
         None \<Rightarrow> []
       | Some s \<Rightarrow> [\<lparr>qe_SpecimenID = qr_SpecimenID r, qe_SpecimenName = sp_Name s, qe_Position = qr_Position r,
                     qe_AddedAt = qr_AddedAt r, qe_FirstPhotoID = first_photo d (qr_SpecimenID r)\<rparr>])
       (sheet_rows d sid))"

section \<open>The endpoints\<close>

record QRSheetSpecimenView =
  qp_SpecimenID :: uuid
  qp_Name :: string
  qp_Position :: int
  qp_ThumbnailURL :: "string option"
  qp_AddedAt :: time

record QRSheetView =
  qw_ID :: uuid
  qw_Template :: string
  qw_PageCount :: nat
  qw_Specimens :: "QRSheetSpecimenView list"
  qw_CreatedAt :: time
  qw_UpdatedAt :: time

record qr_env =
  qv_guard :: authzGuard
  qv_parse :: "string \<Rightarrow> uuid option"
  qv_specimens :: bool
  qv_tx :: tx_env
  qv_pdf :: pdf_env
  qv_now :: time
  qv_newID :: uuid
  qv_rowID :: uuid

definition mapQRSheetError :: "repo_error \<Rightarrow> apiError" where
  "mapQRSheetError err =
     (case err of
        Domain ErrQRSheetNotFound \<Rightarrow> newAPIError 404 ''qr_sheet_not_found'' ''no active qr sheet for the current user'' []
      | Domain ErrQRSheetConflict \<Rightarrow> newAPIError 409 ''qr_sheet_conflict''
          ''an active qr sheet already exists for the current user; PATCH to switch template or DELETE first to reset''
          [(''constraint'', ''one_sheet_per_user'')]
      | Domain ErrQRSheetSpecimenNotFound \<Rightarrow> newAPIError 404 ''qr_sheet_specimen_not_found''
          ''specimen is not on the current user's qr sheet'' []
      | Domain ErrSpecimenNotFound \<Rightarrow> newAPIError 404 ''specimen_not_found'' ''no such specimen'' []
      | _ \<Rightarrow> newAPIError 500 ''internal_error'' ''internal server error'' [])"

definition parseQRTemplate :: "string \<Rightarrow> apiError + QRSheetTemplate" where
  "parseQRTemplate raw =
     (case QRSheetTemplateCapacity raw of
        None \<Rightarrow> Inl (newAPIError 400 ''invalid_template'' ''template is not a supported avery template''
                  [(''field'', ''template''), (''value'', raw)])
      | Some _ \<Rightarrow> Inr raw)"

definition qrSheetPageCount :: "QRSheetTemplate \<Rightarrow> nat \<Rightarrow> nat" where
  "qrSheetPageCount t count =
     (if count = 0 then 0
      else case QRSheetTemplateCapacity t of
        None \<Rightarrow> count
      | Some capacity \<Rightarrow> if capacity \<le> 0 then count else (count + capacity - 1) div capacity)"

definition qr_specimen_view :: "(uuid \<Rightarrow> string) \<Rightarrow> QRSheetEntry \<Rightarrow> QRSheetSpecimenView" where
  "qr_specimen_view str e =
     \<lparr>qp_SpecimenID = qe_SpecimenID e, qp_Name = qe_SpecimenName e, qp_Position = qe_Position e,
      qp_ThumbnailURL = map_option (\<lambda>p. ''/api/v1/photos/'' @ str p @ ''/thumb'') (qe_FirstPhotoID e),
      qp_AddedAt = qe_AddedAt e\<rparr>"

definition toQRSheetView :: "(uuid \<Rightarrow> string) \<Rightarrow> QRSheet \<Rightarrow> QRSheetEntry list \<Rightarrow> QRSheetView" where
  "toQRSheetView str s entries =
     \<lparr>qw_ID = qs_ID s, qw_Template = qs_Template s, qw_PageCount = qrSheetPageCount (qs_Template s) (length entries),
      qw_Specimens = map (qr_specimen_view str) entries, qw_CreatedAt = qs_CreatedAt s, qw_UpdatedAt = qs_UpdatedAt s\<rparr>"

definition loadView :: "(uuid \<Rightarrow> string) \<Rightarrow> database \<Rightarrow> uuid \<Rightarrow> apiError + QRSheetView" where
  "loadView str d uid =
     sum_bind (map_sum mapQRSheetError id (QRSheet_GetByUser d uid)) (\<lambda>s.
     Inr (toQRSheetView str s (ListSpecimens d (qs_ID s))))"

definition own_sheet_check :: "qr_env \<Rightarrow> auth_User \<Rightarrow> string \<Rightarrow> apiError + unit" where
  "own_sheet_check env u act =
     as_error (guard_check (qv_guard env) u (ownedResource (ag_str (qv_guard env)) ''qr-sheets'' (u_ID u)) act)"

text \<open>A handler that fails before its write leaves the database alone; \<open>then_reply\<close> answers from the written one.\<close>

definition then_reply :: "database \<Rightarrow> apiError + database \<Rightarrow> (database \<Rightarrow> apiError + 'a) \<Rightarrow> (apiError + 'a) \<times> database" where
  "then_reply d res reply = (case res of Inl e \<Rightarrow> (Inl e, d) | Inr d' \<Rightarrow> (reply d', d'))"

definition tx_result :: "(repo_error + unit) \<times> database \<Rightarrow> apiError + database" where
  "tx_result r = (case fst r of Inl e \<Rightarrow> Inl (mapQRSheetError e) | Inr _ \<Rightarrow> Inr (snd r))"

definition qr_get :: "qr_env \<Rightarrow> auth_User \<Rightarrow> database \<Rightarrow> apiError + QRSheetView" where
  "qr_get env u d =
     sum_bind (own_sheet_check env u ''view'') (\<lambda>_. loadView (ag_str (qv_guard env)) d (u_ID u))"

definition qr_create :: "qr_env \<Rightarrow> auth_User \<Rightarrow> string \<Rightarrow> database \<Rightarrow> (apiError + string \<times> QRSheetView) \<times> database" where
  "qr_create env u raw d =
     (let sheet = \<lambda>t. \<lparr>qs_ID = qv_newID env, qs_UserID = u_ID u, qs_Template = t,
          qs_CreatedAt = qv_now env, qs_UpdatedAt = qv_now env\<rparr> in
      then_reply d
        (sum_bind (parseQRTemplate raw) (\<lambda>t.
         sum_bind (own_sheet_check env u ''create'') (\<lambda>_.
         map_sum mapQRSheetError id (QRSheet_Create (sheet t) d))))
        (\<lambda>_. Inr (''/api/v1/qr-sheet'', toQRSheetView (ag_str (qv_guard env)) (sheet raw) [])))"

definition qr_patch :: "qr_env \<Rightarrow> auth_User \<Rightarrow> string \<Rightarrow> database \<Rightarrow> (apiError + QRSheetView) \<times> database" where
  "qr_patch env u raw d =
     then_reply d
       (sum_bind (parseQRTemplate raw) (\<lambda>t.
        sum_bind (own_sheet_check env u ''edit'') (\<lambda>_.
        map_sum mapQRSheetError id (UpdateTemplate (u_ID u) t (qv_now env) d))))
       (\<lambda>d'. loadView (ag_str (qv_guard env)) d' (u_ID u))"

definition qr_delete :: "qr_env \<Rightarrow> auth_User \<Rightarrow> database \<Rightarrow> (apiError + unit) \<times> database" where
  "qr_delete env u d =
     then_reply d
       (sum_bind (own_sheet_check env u ''delete'') (\<lambda>_. map_sum mapQRSheetError id (QRSheet_Delete (u_ID u) d)))
       (\<lambda>_. Inr ())"

definition enforceSpecimen :: "qr_env \<Rightarrow> auth_User \<Rightarrow> database \<Rightarrow> uuid \<Rightarrow> apiError + unit" where
  "enforceSpecimen env u d specimenID =
     (if \<not> qv_specimens env then Inr ()
      else sum_bind (map_sum mapSpecimenError id (SpecimenPostgres_GetByID d specimenID)) (\<lambda>sp.
        as_error (checkView (qv_guard env) u (specimenResource (ag_str (qv_guard env)) sp)
          ''specimen_not_found'' ''no such specimen'')))"

definition qr_addSpecimen :: "qr_env \<Rightarrow> auth_User \<Rightarrow> string \<Rightarrow> database \<Rightarrow> (apiError + QRSheetView) \<times> database" where
  "qr_addSpecimen env u raw d =
     then_reply d
       (sum_bind (parseUUID (qv_parse env) raw ''specimen_id'') (\<lambda>i.
        sum_bind (own_sheet_check env u ''edit'') (\<lambda>_.
        sum_bind (enforceSpecimen env u d i) (\<lambda>_.
        tx_result (AddSpecimen (qv_tx env) (qv_rowID env) (u_ID u) i (qv_now env) d)))))
       (\<lambda>d'. loadView (ag_str (qv_guard env)) d' (u_ID u))"

definition qr_removeSpecimen :: "qr_env \<Rightarrow> auth_User \<Rightarrow> string \<Rightarrow> database \<Rightarrow> (apiError + unit) \<times> database" where
  "qr_removeSpecimen env u raw d =
     then_reply d
       (sum_bind (parseUUID (qv_parse env) raw ''specimen_id'') (\<lambda>i.
        sum_bind (own_sheet_check env u ''edit'') (\<lambda>_.
        tx_result (RemoveSpecimen (qv_tx env) (u_ID u) i d))))
       (\<lambda>_. Inr ())"

section \<open>Printing\<close>

text \<open>The parts of a request the base address is built from.\<close>

record http_request =
  hr_TLS :: bool
  hr_Host :: string
  hr_ForwardedProto :: string
  hr_ForwardedHost :: string

definition requestBaseURL :: "http_request \<Rightarrow> string" where
  "requestBaseURL r =
     (let scheme = (if hr_ForwardedProto r \<noteq> [] then hr_ForwardedProto r else if hr_TLS r then ''https'' else ''http'');
          host = (if hr_ForwardedHost r \<noteq> [] then hr_ForwardedHost r else hr_Host r)
      in scheme @ ''://'' @ host)"

definition label_url :: "(uuid \<Rightarrow> string) \<Rightarrow> string \<Rightarrow> QRSheetEntry \<Rightarrow> string" where
  "label_url str base e = base @ ''/specimens/'' @ str (qe_SpecimenID e)"

definition generatePDF :: "qr_env \<Rightarrow> auth_User \<Rightarrow> http_request \<Rightarrow> database \<Rightarrow> apiError + bytes" where
  "generatePDF env u req d =
     sum_bind (own_sheet_check env u ''view'') (\<lambda>_.
     sum_bind (map_sum mapQRSheetError id (QRSheet_GetByUser d (u_ID u))) (\<lambda>sheet.
     let entries = ListSpecimens d (qs_ID sheet) in
     sum_bind (ensure (entries \<noteq> []) (newAPIError 400 ''qr_sheet_empty''
       ''qr sheet has no specimens; add specimens before generating a pdf'' [(''constraint'', ''non_empty_sheet'')])) (\<lambda>_.
     case TemplateByName (qs_Template sheet) of
       None \<Rightarrow> Inl (newAPIError 500 ''qr_template_unknown'' ''qr sheet template is not renderable'' [])
     | Some template \<Rightarrow>
         (case Generate (qv_pdf env) template (map (label_url (ag_str (qv_guard env)) (requestBaseURL req)) entries) of
            Inl _ \<Rightarrow> Inl (newAPIError 500 ''pdf_render_failed'' ''failed to render qr sheet pdf'' [])
          | Inr body \<Rightarrow> Inr body))))"

section \<open>Sorting\<close>

lemma insort_key_snoc: "f y \<le> f x \<Longrightarrow> insort_key f y (zs @ [x]) = insort_key f y zs @ [x]"
  by (induction zs) auto

lemma sort_key_snoc: "(\<And>y. y \<in> set xs \<Longrightarrow> f y \<le> f x) \<Longrightarrow> sort_key f (xs @ [x]) = sort_key f xs @ [x]"
  by (induction xs) (auto simp: insort_key_snoc)

lemma insort_key_map: "insort_key f (g y) (map g zs) = map g (insort_key (\<lambda>x. f (g x)) y zs)"
  by (induction zs) auto

lemma sort_key_map: "sort_key f (map g xs) = map g (sort_key (\<lambda>x. f (g x)) xs)"
  by (induction xs) (auto simp: insort_key_map)

lemma insort_key_order:
  "(\<And>z. z \<in> set zs \<Longrightarrow> f y \<le> f z \<longleftrightarrow> h y \<le> h z) \<Longrightarrow> insort_key f y zs = insort_key h y zs"
  by (induction zs) auto

lemma sort_key_order:
  "(\<And>x y. x \<in> set xs \<Longrightarrow> y \<in> set xs \<Longrightarrow> f x \<le> f y \<longleftrightarrow> h x \<le> h y) \<Longrightarrow> sort_key f xs = sort_key h xs"
  by (induction xs) (auto intro: insort_key_order)

section \<open>The sheet as a list\<close>

text \<open>
  What a user sees of the tables: a template and the specimens in order. The invariant: keys and
  foreign keys, no specimen twice on a sheet, and the positions of a sheet are 1, 2, ... without holes.
\<close>

type_synonym sheets = "uuid \<Rightarrow> (QRSheetTemplate \<times> uuid list) option"

definition sheets_of :: "database \<Rightarrow> sheets" where
  "sheets_of d v = map_option (\<lambda>s. (qs_Template s, map qr_SpecimenID (sheet_rows d (qs_ID s))))
     (find (\<lambda>s. qs_UserID s = v) (db_qr_sheets d))"

definition positions :: "nat \<Rightarrow> int list" where
  "positions n = map int [1..<Suc n]"

definition sheets_ok :: "database \<Rightarrow> bool" where
  "sheets_ok d \<longleftrightarrow>
     distinct (map qs_ID (db_qr_sheets d)) \<and> distinct (map qs_UserID (db_qr_sheets d)) \<and>
     distinct (map qr_ID (db_qr_specimens d)) \<and>
     refs qs_UserID (db_qr_sheets d) us_ID (db_users d) \<and>
     refs qr_SheetID (db_qr_specimens d) qs_ID (db_qr_sheets d) \<and>
     refs qr_SpecimenID (db_qr_specimens d) sp_ID (db_specimens d) \<and>
     (\<forall>sid. map qr_Position (sheet_rows d sid) = positions (length (sheet_rows d sid)) \<and>
        distinct (map qr_SpecimenID (sheet_rows d sid)))"

text \<open>A view shows a sheet.\<close>

definition view_shows :: "QRSheetView \<Rightarrow> QRSheetTemplate \<times> uuid list \<Rightarrow> bool" where
  "view_shows v s \<longleftrightarrow> qw_Template v = fst s \<and> map qp_SpecimenID (qw_Specimens v) = snd s \<and>
     map qp_Position (qw_Specimens v) = positions (length (snd s)) \<and>
     qw_PageCount v = qrSheetPageCount (fst s) (length (snd s))"

datatype qr_request = QGet | QCreate string | QPatch string | QDelete | QAdd string | QRemove string

definition qr_serve :: "qr_env \<Rightarrow> auth_User \<Rightarrow> qr_request \<Rightarrow> database \<Rightarrow> (apiError + QRSheetView option) \<times> database" where
  "qr_serve env u req d =
     (case req of
        QGet \<Rightarrow> (map_sum id Some (qr_get env u d), d)
      | QCreate raw \<Rightarrow> map_prod (map_sum id (Some \<circ> snd)) id (qr_create env u raw d)
      | QPatch raw \<Rightarrow> map_prod (map_sum id Some) id (qr_patch env u raw d)
      | QDelete \<Rightarrow> map_prod (map_sum id (\<lambda>_. None)) id (qr_delete env u d)
      | QAdd raw \<Rightarrow> map_prod (map_sum id Some) id (qr_addSpecimen env u raw d)
      | QRemove raw \<Rightarrow> map_prod (map_sum id (\<lambda>_. None)) id (qr_removeSpecimen env u raw d))"

text \<open>
  The promise, on lists. \<open>has_account\<close> says that the caller's row exists and \<open>visible\<close> which specimens
  the caller may see.
\<close>

definition on_sheet :: "uuid \<Rightarrow> sheets \<Rightarrow> (QRSheetTemplate \<times> uuid list \<Rightarrow> apiError + (QRSheetTemplate \<times> uuid list) option) \<Rightarrow> apiError + sheets" where
  "on_sheet u f k =
     (case f u of None \<Rightarrow> Inl (mapQRSheetError (Domain ErrQRSheetNotFound)) | Some s \<Rightarrow> map_sum id (\<lambda>s'. f(u := s')) (k s))"

definition sheet_spec :: "(string \<Rightarrow> uuid option) \<Rightarrow> bool \<Rightarrow> (uuid \<Rightarrow> bool) \<Rightarrow> uuid \<Rightarrow> qr_request \<Rightarrow> sheets \<Rightarrow> apiError + sheets" where
  "sheet_spec parse has_account visible u req f =
     (case req of
        QGet \<Rightarrow> on_sheet u f (\<lambda>s. Inr (Some s))
      | QCreate raw \<Rightarrow>
          sum_bind (parseQRTemplate raw) (\<lambda>t.
            if f u \<noteq> None then Inl (mapQRSheetError (Domain ErrQRSheetConflict))
            else if \<not> has_account then Inl (mapQRSheetError fk_violation)
            else Inr (f(u \<mapsto> (t, []))))
      | QPatch raw \<Rightarrow> sum_bind (parseQRTemplate raw) (\<lambda>t. on_sheet u f (\<lambda>(_, ids). Inr (Some (t, ids))))
      | QDelete \<Rightarrow> on_sheet u f (\<lambda>_. Inr None)
      | QAdd raw \<Rightarrow>
          sum_bind (parseUUID parse raw ''specimen_id'') (\<lambda>i.
            if \<not> visible i then Inl (mapQRSheetError (Domain ErrSpecimenNotFound))
            else on_sheet u f (\<lambda>(t, ids). Inr (Some (t, if i \<in> set ids then ids else ids @ [i]))))
      | QRemove raw \<Rightarrow>
          sum_bind (parseUUID parse raw ''specimen_id'') (\<lambda>i.
            on_sheet u f (\<lambda>(t, ids).
              if i \<in> set ids then Inr (Some (t, remove1 i ids))
              else Inl (mapQRSheetError (Domain ErrQRSheetSpecimenNotFound)))))"

section \<open>Rows and positions\<close>

lemma length_positions [simp]: "length (positions n) = n"
  by (simp add: positions_def)

lemma nth_positions [simp]: "k < n \<Longrightarrow> positions n ! k = int k + 1"
  by (simp add: positions_def del: upt_Suc)

lemma positions_Suc: "positions (Suc n) = positions n @ [int (Suc n)]"
  by (simp add: positions_def)

lemma set_positions: "set (positions n) = {1..int n}"
  unfolding positions_def set_map set_upt image_int_atLeastLessThan by auto

lemma set_sheet_rows [simp]: "set (sheet_rows d sid) = {r \<in> set (db_qr_specimens d). qr_SheetID r = sid}"
  by (auto simp: sheet_rows_def)

lemma sheets_okD:
  assumes "sheets_ok d"
  shows "map qr_Position (sheet_rows d sid) = positions (length (sheet_rows d sid))"
    "distinct (map qr_SpecimenID (sheet_rows d sid))"
  using assms by (simp_all add: sheets_ok_def)

lemma next_position_Suc:
  assumes "sheets_ok d"
  shows "next_position d sid = int (length (sheet_rows d sid)) + 1"
proof -
  let ?ps = "map qr_Position (filter (\<lambda>r. qr_SheetID r = sid) (db_qr_specimens d))"
  have len: "length ?ps = length (sheet_rows d sid)" by (simp add: sheet_rows_def)
  have "set ?ps = set (map qr_Position (sheet_rows d sid))" by (simp add: sheet_rows_def)
  then have set: "set ?ps = {1..int (length ?ps)}"
    using sheets_okD(1) [OF assms, of sid] set_positions len by metis
  show ?thesis
  proof (cases ?ps)
    case Nil
    then show ?thesis using len by (simp add: next_position_def)
  next
    case (Cons p ps)
    have "Max {1..int (length ?ps)} = int (length ?ps)" using Cons by (intro Max_eqI) simp_all
    then have "next_position d sid = int (length ?ps) + 1"
      using set unfolding next_position_def Cons by simp
    then show ?thesis using len by simp
  qed
qed

lemma sheet_rows_cong: "db_qr_specimens d' = db_qr_specimens d \<Longrightarrow> sheet_rows d' sid = sheet_rows d sid"
  by (simp add: sheet_rows_def)

text \<open>Appending a row after the last position appends it to the list of its sheet.\<close>

lemma sheet_rows_append:
  assumes "sheets_ok d" and "qr_Position r = next_position d (qr_SheetID r)"
    and "d' = d\<lparr>db_qr_specimens := db_qr_specimens d @ [r]\<rparr>"
  shows "sheet_rows d' sid = (if sid = qr_SheetID r then sheet_rows d sid @ [r] else sheet_rows d sid)"
proof (cases "sid = qr_SheetID r")
  case True
  have "qr_Position y \<le> qr_Position r" if "y \<in> set (sheet_rows d sid)" for y
  proof -
    have "qr_Position y \<in> set (positions (length (sheet_rows d sid)))"
      using that sheets_okD(1) [OF assms(1), of sid] by (metis image_eqI set_map)
    then show ?thesis using assms(2) next_position_Suc [OF assms(1), of sid] True by (simp add: set_positions)
  qed
  then have "sort_key qr_Position (filter (\<lambda>x. qr_SheetID x = sid) (db_qr_specimens d) @ [r]) = sheet_rows d sid @ [r]"
    unfolding sheet_rows_def by (intro sort_key_snoc) simp
  then show ?thesis using True assms(3) by (simp add: sheet_rows_def)
next
  case False
  then show ?thesis using assms(3) by (auto simp: sheet_rows_def)
qed

text \<open>Removing a specimen and closing the gap removes it from the list of its sheet.\<close>

lemma repack_simps [simp]:
  "qr_ID (repack sid p r) = qr_ID r" "qr_SheetID (repack sid p r) = qr_SheetID r" "qr_SpecimenID (repack sid p r) = qr_SpecimenID r"
  by (simp_all add: repack_def)

lemma repack_other: "qr_SheetID r \<noteq> sid \<Longrightarrow> repack sid p r = r"
  by (simp add: repack_def)

lemma filter_untouched:
  "(\<And>x. Q (f x) \<longleftrightarrow> Q x) \<Longrightarrow> (\<And>x. Q x \<Longrightarrow> P x \<and> f x = x) \<Longrightarrow> filter Q (map f (filter P xs)) = filter Q xs"
  by (induction xs) auto

lemma sheet_rows_remove:
  assumes ok: "sheets_ok d" and gone: "gone \<in> set (db_qr_specimens d)" "qr_SheetID gone = sid" "qr_SpecimenID gone = i"
    and d': "d' = d\<lparr>db_qr_specimens := map (repack sid (qr_Position gone))
      (filter (\<lambda>r. \<not> (qr_SheetID r = sid \<and> qr_SpecimenID r = i)) (db_qr_specimens d))\<rparr>"
  shows "sheet_rows d' k = (if k = sid then map (repack sid (qr_Position gone)) (filter (\<lambda>r. qr_SpecimenID r \<noteq> i) (sheet_rows d sid))
    else sheet_rows d k)"
proof (cases "k = sid")
  case False
  then have "filter (\<lambda>r. qr_SheetID r = k) (db_qr_specimens d') = filter (\<lambda>r. qr_SheetID r = k) (db_qr_specimens d)"
    unfolding d' by (simp, intro filter_untouched) (auto simp: repack_other)
  then show ?thesis using False by (simp add: sheet_rows_def)
next
  case True
  let ?p = "qr_Position gone" and ?kept = "filter (\<lambda>r. qr_SpecimenID r \<noteq> i) (filter (\<lambda>r. qr_SheetID r = sid) (db_qr_specimens d))"
  have rows: "filter (\<lambda>r. qr_SheetID r = sid) (db_qr_specimens d') = map (repack sid ?p) ?kept"
    unfolding d' by (simp add: filter_map comp_def) (auto intro!: arg_cong [of _ _ "map _"] filter_cong)
  have "qr_Position r \<noteq> ?p" if "r \<in> set ?kept" for r
  proof
    assume "qr_Position r = ?p"
    with that have r: "r \<in> set (sheet_rows d sid)" "qr_Position r = ?p" "qr_SpecimenID r \<noteq> i" by auto
    have "distinct (map qr_Position (sheet_rows d sid))"
      using sheets_okD(1) [OF ok, of sid] by (simp add: positions_def distinct_map)
    then show False using r gone by (auto simp: distinct_map inj_on_def)
  qed
  then have "sort_key (\<lambda>r. qr_Position (repack sid ?p r)) ?kept = sort_key qr_Position ?kept"
    by (intro sort_key_order) (force simp: repack_def)
  then show ?thesis using True by (simp add: sheet_rows_def rows sort_key_map filter_sort)
qed

lemma repack_positions:
  assumes "map qr_Position L = positions (length L)" and "distinct (map qr_SpecimenID L)" and "gone \<in> set L"
    and "\<forall>r\<in>set L. qr_SheetID r = sid"
  shows "map qr_Position (map (repack sid (qr_Position gone)) (filter (\<lambda>r. qr_SpecimenID r \<noteq> qr_SpecimenID gone) L)) =
    positions (length L - 1)"
proof -
  obtain A B where L: "L = A @ gone # B" using assms(3) by (meson split_list)
  have "qr_SpecimenID gone \<notin> qr_SpecimenID ` (set A \<union> set B)" using assms(2) by (simp add: L image_Un)
  then have ids: "\<forall>r\<in>set A \<union> set B. qr_SpecimenID r \<noteq> qr_SpecimenID gone" by (metis image_eqI)
  have kept: "filter (\<lambda>r. qr_SpecimenID r \<noteq> qr_SpecimenID gone) L = A @ B"
    unfolding L filter_append using ids by (auto intro!: arg_cong2 [of _ _ _ _ append] filter_True)
  have at: "qr_Position (L ! k) = int k + 1" if "k < length L" for k
  proof -
    have "map qr_Position L ! k = positions (length L) ! k" using assms(1) by simp
    then show ?thesis using that by simp
  qed
  have gone: "qr_Position gone = int (length A) + 1" using at [of "length A"] by (simp add: L)
  show ?thesis
  proof (rule nth_equalityI)
    show "length (map qr_Position (map (repack sid (qr_Position gone)) (filter (\<lambda>r. qr_SpecimenID r \<noteq> qr_SpecimenID gone) L))) =
        length (positions (length L - 1))"
      unfolding kept by (simp add: L)
  next
    fix k
    assume "k < length (map qr_Position (map (repack sid (qr_Position gone)) (filter (\<lambda>r. qr_SpecimenID r \<noteq> qr_SpecimenID gone) L)))"
    then have k: "k < length A + length B" unfolding kept by simp
    then have mem: "(A @ B) ! k \<in> set L" using nth_mem [of k "A @ B"] by (auto simp: L)
    have pos: "positions (length L - 1) ! k = int k + 1" using k by (simp add: L)
    have "qr_Position (repack sid (qr_Position gone) ((A @ B) ! k)) = int k + 1"
    proof (cases "k < length A")
      case True
      then have "qr_Position ((A @ B) ! k) = int k + 1" using at [of k] by (simp add: L nth_append)
      then show ?thesis using True gone by (simp add: repack_def)
    next
      case False
      then have "L ! Suc k = (A @ B) ! k" by (simp add: L nth_append Suc_diff_le)
      then have "qr_Position ((A @ B) ! k) = int (Suc k) + 1" using at [of "Suc k"] k by (simp add: L)
      then show ?thesis using False gone mem assms(4) by (simp add: repack_def)
    qed
    then show "map qr_Position (map (repack sid (qr_Position gone)) (filter (\<lambda>r. qr_SpecimenID r \<noteq> qr_SpecimenID gone) L)) ! k =
        positions (length L - 1) ! k"
      using k pos unfolding kept by (simp del: map_append)
  qed
qed

section \<open>Every request refines the list\<close>

definition sheet_outcome ::
  "database \<Rightarrow> uuid \<Rightarrow> apiError + sheets \<Rightarrow> (apiError + QRSheetView option) \<times> database \<Rightarrow> bool" where
  "sheet_outcome d uid promised res \<longleftrightarrow>
     sheets_ok (snd res) \<and> map_sum id (\<lambda>_. sheets_of (snd res)) (fst res) = promised \<and>
     (isl (fst res) \<longrightarrow> snd res = d) \<and>
     (\<forall>v. fst res = Inr (Some v) \<longrightarrow> (\<exists>s. sheets_of (snd res) uid = Some s \<and> view_shows v s))"

lemma sheet_outcome_error: "sheets_ok d \<Longrightarrow> sheet_outcome d uid (Inl e) (Inl e, d)"
  by (simp add: sheet_outcome_def)

lemma sheet_outcome_done: "sheets_ok d' \<Longrightarrow> sheet_outcome d uid (Inr (sheets_of d')) (Inr None, d')"
  by (simp add: sheet_outcome_def)

lemma sheet_outcome_view:
  "sheets_ok d' \<Longrightarrow> sheets_of d' uid = Some s \<Longrightarrow> view_shows v s \<Longrightarrow> sheet_outcome d uid (Inr (sheets_of d')) (Inr (Some v), d')"
  by (auto simp: sheet_outcome_def)

lemma own_sheet_check_ok:
  assumes "guard_ok (qv_guard env) enf shares" and "u_ID u \<noteq> uuid_Nil" and "act \<noteq> []"
  shows "own_sheet_check env u act = Inr ()"
proof -
  let ?str = "ag_str (qv_guard env)"
  have "''user'' \<in> set (au_Roles (authzUser ?str u))" "au_ID (authzUser ?str u) = ?str (u_ID u)"
    using authzUser_identity [OF assms(2), of ?str] by simp_all
  moreover have "?str (u_ID u) \<noteq> []" using assms(1) uuid_text.str_nonempty by (auto simp: guard_ok_def)
  ultimately have "guard_check (qv_guard env) u (ownedResource ?str ''qr-sheets'' (u_ID u)) act = None"
    unfolding guard_ok_check [OF assms(1,3)] by (intro disjI2 bexI [of _ "''user''"]) (simp_all add: granted_def ownedResource_def)
  then show ?thesis by (simp add: own_sheet_check_def as_error_def)
qed

lemma find_user_None: "find (\<lambda>s. qs_UserID s = v) xs = None \<longleftrightarrow> v \<notin> qs_UserID ` set xs"
  by (auto simp: find_None_iff)

lemma sheets_of_None: "sheets_of d v = None \<longleftrightarrow> v \<notin> qs_UserID ` set (db_qr_sheets d)"
  by (simp add: sheets_of_def find_user_None)

lemma find_user_Some: "find (\<lambda>s. qs_UserID s = v) xs = Some s \<Longrightarrow> s \<in> set xs \<and> qs_UserID s = v"
  by (auto simp: find_Some_iff)

lemma find_append: "find P (xs @ ys) = (case find P xs of None \<Rightarrow> find P ys | Some x \<Rightarrow> Some x)"
  by (induction xs) auto

lemma entry_row:
  assumes "qr_SpecimenID r \<in> sp_ID ` set (db_specimens d)"
  shows "\<exists>s. find (\<lambda>s. sp_ID s = qr_SpecimenID r) (db_specimens d) = Some s"
proof (cases "find (\<lambda>s. sp_ID s = qr_SpecimenID r) (db_specimens d)")
  case None
  then show ?thesis using assms by (auto simp: find_None_iff)
qed simp

lemma map_concat_one: "(\<And>x. x \<in> set xs \<Longrightarrow> map h (f x) = [k x]) \<Longrightarrow> map h (concat (map f xs)) = map k xs"
  by (induction xs) auto

lemma ListSpecimens_rows:
  assumes "sheets_ok d"
  shows "map qe_SpecimenID (ListSpecimens d sid) = map qr_SpecimenID (sheet_rows d sid)"
    "map qe_Position (ListSpecimens d sid) = map qr_Position (sheet_rows d sid)"
proof -
  have "\<forall>r\<in>set (sheet_rows d sid). qr_SpecimenID r \<in> sp_ID ` set (db_specimens d)"
    using assms by (simp add: sheets_ok_def refs_def)
  then have one: "\<exists>s. find (\<lambda>s. sp_ID s = qr_SpecimenID r) (db_specimens d) = Some s" if "r \<in> set (sheet_rows d sid)" for r
    using that entry_row by blast
  show "map qe_SpecimenID (ListSpecimens d sid) = map qr_SpecimenID (sheet_rows d sid)"
    unfolding ListSpecimens_def using one by (intro map_concat_one) fastforce
  show "map qe_Position (ListSpecimens d sid) = map qr_Position (sheet_rows d sid)"
    unfolding ListSpecimens_def using one by (intro map_concat_one) fastforce
qed

lemma qr_specimen_view_simps [simp]:
  "qp_SpecimenID (qr_specimen_view str e) = qe_SpecimenID e" "qp_Position (qr_specimen_view str e) = qe_Position e"
  by (simp_all add: qr_specimen_view_def)

lemma loadView_shows:
  assumes "sheets_ok d"
  shows "case sheets_of d uid of
      None \<Rightarrow> loadView str d uid = Inl (mapQRSheetError (Domain ErrQRSheetNotFound))
    | Some s \<Rightarrow> \<exists>v. loadView str d uid = Inr v \<and> view_shows v s"
proof (cases "find (\<lambda>s. qs_UserID s = uid) (db_qr_sheets d)")
  case None
  then show ?thesis by (simp add: sheets_of_def loadView_def QRSheet_GetByUser_def)
next
  case (Some s)
  note rows = ListSpecimens_rows [OF assms, of "qs_ID s"]
  have "length (ListSpecimens d (qs_ID s)) = length (sheet_rows d (qs_ID s))"
    using arg_cong [OF rows(1), of length] by simp
  then have "view_shows (toQRSheetView str s (ListSpecimens d (qs_ID s)))
      (qs_Template s, map qr_SpecimenID (sheet_rows d (qs_ID s)))"
    using rows sheets_okD(1) [OF assms] by (simp add: view_shows_def toQRSheetView_def comp_def)
  then show ?thesis using Some by (simp add: sheets_of_def loadView_def QRSheet_GetByUser_def)
qed

lemma view_outcome:
  assumes "sheets_ok d'" and "sheets_of d' uid \<noteq> None"
  shows "sheet_outcome d uid (Inr (sheets_of d')) (map_sum id Some (loadView str d' uid), d')"
proof -
  obtain s where s: "sheets_of d' uid = Some s" using assms(2) by auto
  then obtain v where "loadView str d' uid = Inr v" "view_shows v s"
    using loadView_shows [OF assms(1), where uid = uid and str = str] by auto
  then show ?thesis using sheet_outcome_view [OF assms(1) s] by simp
qed

lemma get_refines:
  assumes "sheets_ok d" and "own_sheet_check env u ''view'' = Inr ()"
  shows "sheet_outcome d (u_ID u) (sheet_spec parse acc vis (u_ID u) QGet (sheets_of d)) (qr_serve env u QGet d)"
proof (cases "sheets_of d (u_ID u)")
  case None
  then show ?thesis
    using loadView_shows [OF assms(1), where uid = "u_ID u" and str = "ag_str (qv_guard env)"] sheet_outcome_error [OF assms(1)]
    by (simp add: qr_serve_def qr_get_def assms(2) sheet_spec_def on_sheet_def)
next
  case (Some s)
  then have "(sheets_of d)(u_ID u \<mapsto> s) = sheets_of d" by auto
  then show ?thesis
    using Some view_outcome [OF assms(1), of "u_ID u" d "ag_str (qv_guard env)"]
    by (simp add: qr_serve_def qr_get_def assms(2) sheet_spec_def on_sheet_def)
qed

text \<open>Writes to the table of sheets.\<close>

lemma create_sheet_ok:
  assumes ok: "sheets_ok d" and run: "QRSheet_Create s d = Inr d'" 
  shows "sheets_ok d' \<and> sheets_of d' = (sheets_of d)(qs_UserID s \<mapsto> (qs_Template s, []))"
proof -
  have d': "d' = d\<lparr>db_qr_sheets := db_qr_sheets d @ [s]\<rparr>" and new: "qs_ID s \<notin> qs_ID ` set (db_qr_sheets d)"
    "qs_UserID s \<notin> qs_UserID ` set (db_qr_sheets d)" "qs_UserID s \<in> us_ID ` set (db_users d)"
    using run by (auto simp: QRSheet_Create_def split: if_splits)
  have rows: "sheet_rows d' sid = sheet_rows d sid" for sid by (rule sheet_rows_cong) (simp add: d')
  have "qr_SheetID r \<noteq> qs_ID s" if "r \<in> set (db_qr_specimens d)" for r
    using that ok new(1) by (metis refs_def sheets_ok_def)
  then have "set (sheet_rows d (qs_ID s)) = {}" by simp
  then have none: "sheet_rows d (qs_ID s) = []" by (simp only: set_empty)
  have sheets: "db_qr_sheets d' = db_qr_sheets d @ [s]" by (simp add: d')
  have absent: "find (\<lambda>x. qs_UserID x = qs_UserID s) (db_qr_sheets d) = None" using new(2) by (simp add: find_user_None)
  have "sheets_of d' v = ((sheets_of d)(qs_UserID s \<mapsto> (qs_Template s, []))) v" for v
    using absent none by (cases "v = qs_UserID s") (auto simp: sheets_of_def rows sheets find_append split: option.splits)
  moreover have "sheets_ok d'"
    using ok new rows by (auto simp: sheets_ok_def d' refs_def)
  ultimately show ?thesis by blast
qed

lemma sheet_user_find: "distinct (map qs_UserID xs) \<Longrightarrow> s \<in> set xs \<Longrightarrow> find (\<lambda>x. qs_UserID x = qs_UserID s) xs = Some s"
  by (induction xs) auto

lemma find_filter_other: "(\<And>x. Q x \<Longrightarrow> P x) \<Longrightarrow> find Q (filter P xs) = find Q xs"
  by (induction xs) auto

lemma find_map_same: "(\<And>x. P (f x) \<longleftrightarrow> P x) \<Longrightarrow> find P (map f xs) = map_option f (find P xs)"
  by (induction xs) auto

lemma update_template_ok:
  assumes ok: "sheets_ok d" and run: "UpdateTemplate uid t now d = Inr d'"
  shows "sheets_ok d' \<and> (\<exists>t0 ids. sheets_of d uid = Some (t0, ids) \<and> sheets_of d' = (sheets_of d)(uid \<mapsto> (t, ids)))"
proof -
  let ?f = "\<lambda>s. if qs_UserID s = uid then s\<lparr>qs_Template := t, qs_UpdatedAt := now\<rparr> else s"
  have d': "d' = d\<lparr>db_qr_sheets := map ?f (db_qr_sheets d)\<rparr>" and has: "uid \<in> qs_UserID ` set (db_qr_sheets d)"
    using run by (auto simp: UpdateTemplate_def split: if_splits)
  have rows: "sheet_rows d' sid = sheet_rows d sid" for sid by (rule sheet_rows_cong) (simp add: d')
  have keys: "map qs_ID (db_qr_sheets d') = map qs_ID (db_qr_sheets d)" "map qs_UserID (db_qr_sheets d') = map qs_UserID (db_qr_sheets d)"
    by (simp_all add: d')
  have find: "find (\<lambda>s. qs_UserID s = v) (db_qr_sheets d') = map_option ?f (find (\<lambda>s. qs_UserID s = v) (db_qr_sheets d))" for v
    unfolding d' by (simp add: find_map_same)
  obtain s where s: "find (\<lambda>s. qs_UserID s = uid) (db_qr_sheets d) = Some s" "qs_UserID s = uid"
    using has find_user_None find_user_Some by (metis not_Some_eq)
  have "sheets_of d' v = ((sheets_of d)(uid \<mapsto> (t, map qr_SpecimenID (sheet_rows d (qs_ID s))))) v" for v
  proof (cases "v = uid")
    case True
    then show ?thesis using s by (simp add: sheets_of_def find rows)
  next
    case False
    then show ?thesis
      by (cases "find (\<lambda>s. qs_UserID s = v) (db_qr_sheets d)") (auto simp: sheets_of_def find rows dest: find_user_Some)
  qed
  moreover have "sheets_ok d'"
  proof -
    have "refs qs_UserID (db_qr_sheets d') us_ID (db_users d')" "refs qr_SheetID (db_qr_specimens d') qs_ID (db_qr_sheets d')"
      "refs qr_SpecimenID (db_qr_specimens d') sp_ID (db_specimens d')"
      using ok unfolding d' sheets_ok_def by (simp_all add: refs_map refs_map_right)
    moreover have "distinct (map qr_ID (db_qr_specimens d'))" using ok by (simp add: d' sheets_ok_def)
    ultimately show ?thesis using ok unfolding sheets_ok_def keys rows by blast
  qed
  ultimately show ?thesis using s by (auto simp: sheets_of_def)
qed

lemma delete_sheet_ok:
  assumes ok: "sheets_ok d" and run: "QRSheet_Delete uid d = Inr d'"
  shows "sheets_ok d' \<and> sheets_of d uid \<noteq> None \<and> sheets_of d' = (sheets_of d)(uid := None)"
proof -
  let ?P = "\<lambda>s. qs_UserID s = uid"
  let ?gone = "qs_ID ` set (filter ?P (db_qr_sheets d))"
  have d': "d' = d\<lparr>db_qr_sheets := filter (\<lambda>s. \<not> ?P s) (db_qr_sheets d),
      db_qr_specimens := filter (\<lambda>r. qr_SheetID r \<notin> ?gone) (db_qr_specimens d)\<rparr>" and has: "filter ?P (db_qr_sheets d) \<noteq> []"
    using run by (auto simp: QRSheet_Delete_def delete_qr_sheets_def Let_def split: if_splits)
  have rows: "sheet_rows d' sid = (if sid \<in> ?gone then [] else sheet_rows d sid)" for sid
  proof (cases "sid \<in> ?gone")
    case True
    have "db_qr_specimens d' = filter (\<lambda>r. qr_SheetID r \<notin> ?gone) (db_qr_specimens d)" by (simp add: d')
    then have "qr_SheetID r \<noteq> sid" if "r \<in> set (db_qr_specimens d')" for r using that True by (metis (mono_tags, lifting) mem_Collect_eq set_filter)
    then have "set (sheet_rows d' sid) = {}" by simp
    then show ?thesis using True by (simp only: set_empty if_True)
  next
    case False
    then have "filter (\<lambda>r. qr_SheetID r = sid) (db_qr_specimens d') = filter (\<lambda>r. qr_SheetID r = sid) (db_qr_specimens d)"
      unfolding d' by (auto intro!: filter_cong simp del: set_filter)
    then show ?thesis using False by (simp only: sheet_rows_def if_False)
  qed
  have ids: "qs_ID s \<notin> ?gone" if "s \<in> set (db_qr_sheets d)" "qs_UserID s \<noteq> uid" for s
    using that ok by (auto simp: sheets_ok_def distinct_map inj_on_def)
  have "sheets_of d' v = ((sheets_of d)(uid := None)) v" for v
  proof (cases "v = uid")
    case True
    then show ?thesis by (auto simp: sheets_of_None d')
  next
    case False
    then have "find (\<lambda>s. qs_UserID s = v) (db_qr_sheets d') = find (\<lambda>s. qs_UserID s = v) (db_qr_sheets d)"
      unfolding d' by (simp, intro find_filter_other) simp
    then show ?thesis using False ids
      by (cases "find (\<lambda>s. qs_UserID s = v) (db_qr_sheets d)") (auto simp: sheets_of_def rows simp del: set_filter dest: find_user_Some)
  qed
  moreover have "sheets_ok d'"
    using ok rows unfolding sheets_ok_def d' by (simp add: refs_cascade refs_keep distinct_map_filter positions_def del: set_filter)
  moreover have "sheets_of d uid \<noteq> None" using has by (auto simp: sheets_of_None filter_empty_conv)
  ultimately show ?thesis by blast
qed

text \<open>Writes to the rows of a sheet.\<close>

lemma sheets_ok_rows:
  assumes "sheets_ok d" and "d' = d\<lparr>db_qr_specimens := rows\<rparr>" and "distinct (map qr_ID rows)"
    and "refs qr_SheetID rows qs_ID (db_qr_sheets d)" and "refs qr_SpecimenID rows sp_ID (db_specimens d)"
    and "\<And>sid. map qr_Position (sheet_rows d' sid) = positions (length (sheet_rows d' sid)) \<and> distinct (map qr_SpecimenID (sheet_rows d' sid))"
  shows "sheets_ok d'"
  using assms by (simp add: sheets_ok_def)

text \<open>Changing the rows of one sheet changes what its owner sees and nothing else.\<close>

lemma sheets_of_rows:
  assumes ok: "sheets_ok d" and sheets: "db_qr_sheets d' = db_qr_sheets d" and s: "find (\<lambda>s. qs_UserID s = uid) (db_qr_sheets d) = Some s"
    and rows: "\<And>sid. sid \<noteq> qs_ID s \<Longrightarrow> sheet_rows d' sid = sheet_rows d sid"
  shows "sheets_of d' = (sheets_of d)(uid \<mapsto> (qs_Template s, map qr_SpecimenID (sheet_rows d' (qs_ID s))))"
proof
  fix v
  show "sheets_of d' v = ((sheets_of d)(uid \<mapsto> (qs_Template s, map qr_SpecimenID (sheet_rows d' (qs_ID s))))) v"
  proof (cases "v = uid")
    case True
    then show ?thesis using s by (simp add: sheets_of_def sheets)
  next
    case False
    show ?thesis
    proof (cases "find (\<lambda>s. qs_UserID s = v) (db_qr_sheets d)")
      case None
      then show ?thesis using False by (simp add: sheets_of_def sheets)
    next
      case (Some x)
      then have "x \<in> set (db_qr_sheets d)" "qs_UserID x = v" by (auto dest: find_user_Some)
      moreover have "s \<in> set (db_qr_sheets d)" "qs_UserID s = uid" using s by (auto dest: find_user_Some)
      moreover have "inj_on qs_ID (set (db_qr_sheets d))" using ok by (simp add: sheets_ok_def distinct_map)
      ultimately have "qs_ID x \<noteq> qs_ID s" using False by (metis inj_onD)
      then show ?thesis using False Some rows by (simp add: sheets_of_def sheets)
    qed
  qed
qed

lemma add_specimen_ok:
  assumes ok: "sheets_ok d" and s: "find (\<lambda>s. qs_UserID s = uid) (db_qr_sheets d) = Some s"
    and new: "rowID \<notin> qr_ID ` set (db_qr_specimens d)" and i: "i \<in> sp_ID ` set (db_specimens d)"
  shows "\<exists>d'. addSpecimenTx rowID uid i now d = Inr (False, d') \<and> sheets_ok d' \<and>
    sheets_of d' = (sheets_of d)(uid \<mapsto> (qs_Template s,
      let ids = map qr_SpecimenID (sheet_rows d (qs_ID s)) in if i \<in> set ids then ids else ids @ [i]))"
proof (cases "\<exists>r\<in>set (db_qr_specimens d). qr_SheetID r = qs_ID s \<and> qr_SpecimenID r = i")
  case True
  moreover have "i \<in> set (map qr_SpecimenID (sheet_rows d (qs_ID s)))" using True by auto
  moreover have "sheets_of d = (sheets_of d)(uid \<mapsto> (qs_Template s, map qr_SpecimenID (sheet_rows d (qs_ID s))))"
    using s by (auto simp: sheets_of_def)
  ultimately show ?thesis using ok s by (simp add: addSpecimenTx_def Let_def)
next
  case False
  let ?r = "\<lparr>qr_ID = rowID, qr_SheetID = qs_ID s, qr_SpecimenID = i, qr_Position = next_position d (qs_ID s), qr_AddedAt = now\<rparr>"
  define d' where "d' = d\<lparr>db_qr_specimens := db_qr_specimens d @ [?r]\<rparr>"
  have run: "addSpecimenTx rowID uid i now d = Inr (False, d')"
    using s new i unfolding addSpecimenTx_def d'_def by (simp add: if_not_P [OF False])
  have rows: "sheet_rows d' sid = (if sid = qs_ID s then sheet_rows d sid @ [?r] else sheet_rows d sid)" for sid
    using sheet_rows_append [OF ok, of ?r d' sid] by (simp add: d'_def)
  have fresh: "i \<notin> set (map qr_SpecimenID (sheet_rows d (qs_ID s)))" using False by auto
  have "s \<in> set (db_qr_sheets d)" using find_user_Some [OF s] by blast
  then have "sheets_ok d'"
    using ok new i fresh sheets_okD [OF ok] next_position_Suc [OF ok, of "qs_ID s"] rows
    by (intro sheets_ok_rows [OF ok d'_def]) (simp_all add: sheets_ok_def refs_def positions_Suc)
  moreover have "sheets_of d' = (sheets_of d)(uid \<mapsto> (qs_Template s, map qr_SpecimenID (sheet_rows d' (qs_ID s))))"
    by (rule sheets_of_rows [OF ok _ s]) (simp_all add: d'_def rows [unfolded d'_def])
  ultimately show ?thesis using run rows fresh by (simp add: Let_def)
qed

lemma distinct_filter_remove1:
  "distinct (map f xs) \<Longrightarrow> map f (filter (\<lambda>x. f x \<noteq> i) xs) = remove1 i (map f xs)"
  by (induction xs) (auto simp: remove1_idem)

lemma remove_specimen_ok:
  assumes ok: "sheets_ok d" and s: "find (\<lambda>s. qs_UserID s = uid) (db_qr_sheets d) = Some s"
    and i: "i \<in> set (map qr_SpecimenID (sheet_rows d (qs_ID s)))"
  shows "\<exists>d'. removeSpecimenTx uid i d = Inr ((), d') \<and> sheets_ok d' \<and>
    sheets_of d' = (sheets_of d)(uid \<mapsto> (qs_Template s, remove1 i (map qr_SpecimenID (sheet_rows d (qs_ID s)))))"
proof -
  let ?P = "\<lambda>r. qr_SheetID r = qs_ID s \<and> qr_SpecimenID r = i"
  obtain gone where find: "find ?P (db_qr_specimens d) = Some gone"
    using i by (cases "find ?P (db_qr_specimens d)") (auto simp: find_None_iff)
  then have gone: "gone \<in> set (db_qr_specimens d)" "qr_SheetID gone = qs_ID s" "qr_SpecimenID gone = i" by (auto simp: find_Some_iff)
  define d' where "d' = d\<lparr>db_qr_specimens := map (repack (qs_ID s) (qr_Position gone)) (filter (\<lambda>r. \<not> ?P r) (db_qr_specimens d))\<rparr>"
  have run: "removeSpecimenTx uid i d = Inr ((), d')" using s find unfolding removeSpecimenTx_def d'_def by simp
  note rows = sheet_rows_remove [OF ok gone d'_def]
  note L = sheets_okD [OF ok, of "qs_ID s"]
  let ?L = "sheet_rows d (qs_ID s)"
  have pos: "map qr_Position (map (repack (qs_ID s) (qr_Position gone)) (filter (\<lambda>r. qr_SpecimenID r \<noteq> i) ?L)) = positions (length ?L - 1)"
    unfolding gone(3) [symmetric] by (rule repack_positions [OF L]) (simp_all add: gone)
  have ids: "map qr_SpecimenID (map (repack (qs_ID s) (qr_Position gone)) (filter (\<lambda>r. qr_SpecimenID r \<noteq> i) ?L)) =
      remove1 i (map qr_SpecimenID ?L)"
    unfolding map_map comp_def repack_simps by (rule distinct_filter_remove1 [OF L(2)])
  have len: "length (filter (\<lambda>r. qr_SpecimenID r \<noteq> i) ?L) = length ?L - 1"
    using arg_cong [OF pos, of length] by simp
  have row: "map qr_Position (sheet_rows d' sid) = positions (length (sheet_rows d' sid)) \<and> distinct (map qr_SpecimenID (sheet_rows d' sid))" for sid
  proof (cases "sid = qs_ID s")
    case True
    have "distinct (remove1 i (map qr_SpecimenID ?L))" using L(2) by (rule distinct_remove1)
    then show ?thesis unfolding rows using True pos ids len by (simp only: if_True length_map simp_thms)
  next
    case False
    then show ?thesis unfolding rows using sheets_okD [OF ok] by simp
  qed
  have "sheets_ok d'"
    using ok by (intro sheets_ok_rows [OF ok d'_def _ _ _ row]) (auto simp: sheets_ok_def refs_def comp_def distinct_map_filter)
  moreover have "sheets_of d' = (sheets_of d)(uid \<mapsto> (qs_Template s, map qr_SpecimenID (sheet_rows d' (qs_ID s))))"
    by (rule sheets_of_rows [OF ok _ s]) (simp_all add: rows, simp add: d'_def)
  then have "sheets_of d' = (sheets_of d)(uid \<mapsto> (qs_Template s, remove1 i (map qr_SpecimenID ?L)))"
    by (simp only: rows ids simp_thms if_True)
  ultimately show ?thesis using run by blast
qed

section \<open>The requests\<close>

lemma parseQRTemplate_Inr: "parseQRTemplate raw = Inr t \<Longrightarrow> t = raw"
  by (auto simp: parseQRTemplate_def split: option.splits)

lemma sheets_of_Some:
  "find (\<lambda>s. qs_UserID s = uid) (db_qr_sheets d) = Some s \<Longrightarrow>
     sheets_of d uid = Some (qs_Template s, map qr_SpecimenID (sheet_rows d (qs_ID s)))"
  by (simp add: sheets_of_def)

lemma create_refines:
  assumes ok: "sheets_ok d" and own: "own_sheet_check env u ''create'' = Inr ()" and fresh: "qv_newID env \<notin> qs_ID ` set (db_qr_sheets d)"
  shows "sheet_outcome d (u_ID u) (sheet_spec parse (u_ID u \<in> us_ID ` set (db_users d)) vis (u_ID u) (QCreate raw) (sheets_of d))
    (qr_serve env u (QCreate raw) d)"
proof (cases "parseQRTemplate raw")
  case (Inl e)
  then show ?thesis using sheet_outcome_error [OF ok]
    by (simp add: sheet_spec_def qr_serve_def qr_create_def then_reply_def Let_def)
next
  case (Inr t)
  let ?s = "\<lparr>qs_ID = qv_newID env, qs_UserID = u_ID u, qs_Template = t, qs_CreatedAt = qv_now env, qs_UpdatedAt = qv_now env\<rparr>"
  have t: "raw = t" using parseQRTemplate_Inr [OF Inr] by simp
  have serve: "qr_serve env u (QCreate raw) d = (case QRSheet_Create ?s d of
      Inl e \<Rightarrow> (Inl (mapQRSheetError e), d) | Inr d' \<Rightarrow> (Inr (Some (toQRSheetView (ag_str (qv_guard env)) ?s [])), d'))"
    using Inr own t by (cases "QRSheet_Create ?s d") (simp_all add: qr_serve_def qr_create_def then_reply_def Let_def)
  have spec: "sheet_spec parse (u_ID u \<in> us_ID ` set (db_users d)) vis (u_ID u) (QCreate raw) (sheets_of d) =
      (case QRSheet_Create ?s d of Inl e \<Rightarrow> Inl (mapQRSheetError e) | Inr _ \<Rightarrow> Inr ((sheets_of d)(u_ID u \<mapsto> (t, []))))"
    using Inr fresh by (auto simp: sheet_spec_def QRSheet_Create_def sheets_of_None)
  show ?thesis
  proof (cases "QRSheet_Create ?s d")
    case (Inl e)
    then show ?thesis unfolding serve spec using sheet_outcome_error [OF ok] by simp
  next
    case (Inr d')
    note made = create_sheet_ok [OF ok Inr]
    have "view_shows (toQRSheetView (ag_str (qv_guard env)) ?s []) (t, [])"
      by (simp add: view_shows_def toQRSheetView_def positions_def)
    then show ?thesis unfolding serve spec
      using Inr made sheet_outcome_view [of d' "u_ID u" "(t, [])" _ d] by auto
  qed
qed

lemma patch_refines:
  assumes ok: "sheets_ok d" and own: "own_sheet_check env u ''edit'' = Inr ()"
  shows "sheet_outcome d (u_ID u) (sheet_spec parse acc vis (u_ID u) (QPatch raw) (sheets_of d)) (qr_serve env u (QPatch raw) d)"
proof (cases "parseQRTemplate raw")
  case (Inl e)
  then show ?thesis using sheet_outcome_error [OF ok]
    by (simp add: sheet_spec_def qr_serve_def qr_patch_def then_reply_def)
next
  case (Inr t)
  show ?thesis
  proof (cases "UpdateTemplate (u_ID u) t (qv_now env) d")
    case (Inl e)
    then have "e = Domain ErrQRSheetNotFound" "sheets_of d (u_ID u) = None"
      by (auto simp: UpdateTemplate_def sheets_of_None split: if_splits)
    then show ?thesis using sheet_outcome_error [OF ok] Inl Inr own
      by (simp add: sheet_spec_def on_sheet_def qr_serve_def qr_patch_def then_reply_def)
  next
    case (Inr d')
    obtain t0 ids where made: "sheets_ok d'" "sheets_of d (u_ID u) = Some (t0, ids)" "sheets_of d' = (sheets_of d)(u_ID u \<mapsto> (t, ids))"
      using update_template_ok [OF ok Inr] by blast
    then show ?thesis using view_outcome [OF made(1), of "u_ID u" d "ag_str (qv_guard env)"] Inr own \<open>parseQRTemplate raw = Inr t\<close>
      by (simp add: sheet_spec_def on_sheet_def qr_serve_def qr_patch_def then_reply_def)
  qed
qed

lemma delete_refines:
  assumes ok: "sheets_ok d" and own: "own_sheet_check env u ''delete'' = Inr ()"
  shows "sheet_outcome d (u_ID u) (sheet_spec parse acc vis (u_ID u) QDelete (sheets_of d)) (qr_serve env u QDelete d)"
proof (cases "QRSheet_Delete (u_ID u) d")
  case (Inl e)
  then have "e = Domain ErrQRSheetNotFound" "sheets_of d (u_ID u) = None"
    by (auto simp: QRSheet_Delete_def delete_qr_sheets_def Let_def sheets_of_None filter_empty_conv split: if_splits)
  then show ?thesis using sheet_outcome_error [OF ok] Inl own
    by (simp add: sheet_spec_def on_sheet_def qr_serve_def qr_delete_def then_reply_def)
next
  case (Inr d')
  note made = delete_sheet_ok [OF ok Inr]
  then show ?thesis using sheet_outcome_done [of d' d "u_ID u"] Inr own
    by (auto simp: sheet_spec_def on_sheet_def qr_serve_def qr_delete_def then_reply_def)
qed

lemma add_refines:
  assumes ok: "sheets_ok d" and own: "own_sheet_check env u ''edit'' = Inr ()" and tx: "qv_tx env = tx_up"
    and fresh: "qv_rowID env \<notin> qr_ID ` set (db_qr_specimens d)"
    and see: "\<And>i. enforceSpecimen env u d i = (if vis i then Inr () else Inl (mapQRSheetError (Domain ErrSpecimenNotFound)))"
    and exist: "\<And>i. vis i \<Longrightarrow> i \<in> sp_ID ` set (db_specimens d)"
  shows "sheet_outcome d (u_ID u) (sheet_spec (qv_parse env) acc vis (u_ID u) (QAdd raw) (sheets_of d)) (qr_serve env u (QAdd raw) d)"
proof (cases "parseUUID (qv_parse env) raw ''specimen_id''")
  case (Inl e)
  then show ?thesis using sheet_outcome_error [OF ok]
    by (simp add: sheet_spec_def qr_serve_def qr_addSpecimen_def then_reply_def)
next
  case (Inr i)
  note defs = sheet_spec_def on_sheet_def qr_serve_def qr_addSpecimen_def then_reply_def AddSpecimen_def RunInTx_def tx_up_def tx_result_def
  show ?thesis
  proof (cases "vis i")
    case False
    then show ?thesis using sheet_outcome_error [OF ok] Inr own by (simp add: defs see)
  next
    case True
    note i = exist [OF True]
    show ?thesis
    proof (cases "find (\<lambda>s. qs_UserID s = u_ID u) (db_qr_sheets d)")
      case None
      then have "addSpecimenTx (qv_rowID env) (u_ID u) i (qv_now env) d = Inl (Domain ErrQRSheetNotFound)" "sheets_of d (u_ID u) = None"
        by (simp_all add: addSpecimenTx_def sheets_of_def)
      then show ?thesis using sheet_outcome_error [OF ok] Inr own True by (simp add: defs see tx)
    next
      case (Some s)
      obtain d' where d': "addSpecimenTx (qv_rowID env) (u_ID u) i (qv_now env) d = Inr (False, d')" "sheets_ok d'"
        "sheets_of d' = (sheets_of d)(u_ID u \<mapsto> (qs_Template s,
           let ids = map qr_SpecimenID (sheet_rows d (qs_ID s)) in if i \<in> set ids then ids else ids @ [i]))"
        using add_specimen_ok [OF ok Some fresh i] by blast
      have "sheets_of d' (u_ID u) \<noteq> None" using d'(3) by simp
      from view_outcome [OF d'(2) this, of d "ag_str (qv_guard env)"] show ?thesis
        using d'(1,3) sheets_of_Some [OF Some] Inr own True by (simp add: defs see tx Let_def)
    qed
  qed
qed

lemma remove_refines:
  assumes ok: "sheets_ok d" and own: "own_sheet_check env u ''edit'' = Inr ()" and tx: "qv_tx env = tx_up"
  shows "sheet_outcome d (u_ID u) (sheet_spec (qv_parse env) acc vis (u_ID u) (QRemove raw) (sheets_of d)) (qr_serve env u (QRemove raw) d)"
proof (cases "parseUUID (qv_parse env) raw ''specimen_id''")
  case (Inl e)
  then show ?thesis using sheet_outcome_error [OF ok]
    by (simp add: sheet_spec_def qr_serve_def qr_removeSpecimen_def then_reply_def)
next
  case (Inr i)
  note defs = sheet_spec_def on_sheet_def qr_serve_def qr_removeSpecimen_def then_reply_def RemoveSpecimen_def RunInTx_def tx_up_def tx_result_def
  show ?thesis
  proof (cases "find (\<lambda>s. qs_UserID s = u_ID u) (db_qr_sheets d)")
    case None
    then have "removeSpecimenTx (u_ID u) i d = Inl (Domain ErrQRSheetNotFound)" "sheets_of d (u_ID u) = None"
      by (simp_all add: removeSpecimenTx_def sheets_of_def)
    then show ?thesis using sheet_outcome_error [OF ok] Inr own by (simp add: defs tx)
  next
    case (Some s)
    note view = sheets_of_Some [OF Some]
    show ?thesis
    proof (cases "i \<in> set (map qr_SpecimenID (sheet_rows d (qs_ID s)))")
      case False
      then have "removeSpecimenTx (u_ID u) i d = Inl (Domain ErrQRSheetSpecimenNotFound)"
        using Some by (auto simp: removeSpecimenTx_def find_None_iff split: option.splits dest!: find_Some_iff [THEN iffD1])
      then show ?thesis using sheet_outcome_error [OF ok] Inr own view False by (simp add: defs tx)
    next
      case True
      obtain d' where d': "removeSpecimenTx (u_ID u) i d = Inr ((), d')" "sheets_ok d'"
        "sheets_of d' = (sheets_of d)(u_ID u \<mapsto> (qs_Template s, remove1 i (map qr_SpecimenID (sheet_rows d (qs_ID s)))))"
        using remove_specimen_ok [OF ok Some True] by blast
      from sheet_outcome_done [OF d'(2), of d "u_ID u"] show ?thesis
        using d'(1,3) view Inr own True by (simp add: defs tx)
    qed
  qed
qed

text \<open>The view check on the add path, as a condition on the row.\<close>

definition may_see :: "database \<Rightarrow> auth_User \<Rightarrow> uuid \<Rightarrow> bool" where
  "may_see d u i \<longleftrightarrow> (\<exists>s\<in>set (db_specimens d). sp_ID s = i \<and> specimenAccessScope d u s)"

lemma enforceSpecimen_may_see:
  assumes "guard_ok (qv_guard env) enf (Some (NewSharesLookup (qv_parse env) d))"
    and "\<forall>i. qv_parse env (ag_str (qv_guard env) i) = Some i" and "distinct (map sp_ID (db_specimens d))" and "qv_specimens env"
  shows "enforceSpecimen env u d i = (if may_see d u i then Inr () else Inl (mapQRSheetError (Domain ErrSpecimenNotFound)))"
proof (cases "SpecimenPostgres_GetByID d i")
  case (Inl e)
  then have "e = Domain ErrSpecimenNotFound" "\<not> may_see d u i"
    by (auto simp: SpecimenPostgres_GetByID_def find_None_iff may_see_def split: option.splits)
  then show ?thesis using Inl assms(4) by (simp add: enforceSpecimen_def mapSpecimenError_def mapQRSheetError_def)
next
  case (Inr s)
  let ?g = "qv_guard env"
  let ?check = "checkView ?g u (specimenResource (ag_str ?g) s) ''specimen_not_found'' ''no such specimen''"
  have s: "s \<in> set (db_specimens d)" "sp_ID s = i" using Inr GetByID_iff [OF assms(3)] by auto
  have "x = s" if "x \<in> set (db_specimens d)" "sp_ID x = i" for x
    using that s assms(3) by (auto simp: distinct_map inj_on_def)
  then have see: "may_see d u i \<longleftrightarrow> specimenAccessScope d u s" unfolding may_see_def using s by blast
  have "?check = None \<longleftrightarrow> specimenAccessScope d u s"
    using access_scope_checkView [OF assms(1,2)] by blast
  moreover have "?check = None \<or> ?check = Some (newAPIError 404 ''specimen_not_found'' ''no such specimen'' [])"
    using guard_ok_checkView [OF assms(1), of u "specimenResource (ag_str ?g) s" "''specimen_not_found''" "''no such specimen''"] by (elim disjE) simp_all
  ultimately show ?thesis
    using Inr assms(4) see by (elim disjE) (simp_all add: enforceSpecimen_def as_error_def mapQRSheetError_def)
qed

section \<open>The promise of the endpoints\<close>

lemma qr_serve_refines:
  assumes "guard_ok (qv_guard env) enf (Some (NewSharesLookup (qv_parse env) d))"
    and "\<forall>i. qv_parse env (ag_str (qv_guard env) i) = Some i" and "distinct (map sp_ID (db_specimens d))"
    and "qv_specimens env" and "qv_tx env = tx_up" and "u_ID u \<noteq> uuid_Nil" and ok: "sheets_ok d"
    and fresh: "qv_newID env \<notin> qs_ID ` set (db_qr_sheets d)" "qv_rowID env \<notin> qr_ID ` set (db_qr_specimens d)"
  shows "sheet_outcome d (u_ID u)
    (sheet_spec (qv_parse env) (u_ID u \<in> us_ID ` set (db_users d)) (may_see d u) (u_ID u) req (sheets_of d)) (qr_serve env u req d)"
proof -
  have own: "own_sheet_check env u ''view'' = Inr ()" "own_sheet_check env u ''create'' = Inr ()"
    "own_sheet_check env u ''edit'' = Inr ()" "own_sheet_check env u ''delete'' = Inr ()"
    by (rule own_sheet_check_ok [OF assms(1,6)]; simp)+
  have exist: "may_see d u i \<Longrightarrow> i \<in> sp_ID ` set (db_specimens d)" for i by (auto simp: may_see_def)
  show ?thesis
  proof (cases req)
    case QGet
    show ?thesis unfolding QGet by (rule get_refines [OF ok own(1)])
  next
    case (QCreate raw)
    show ?thesis unfolding QCreate by (rule create_refines [OF ok own(2) fresh(1)])
  next
    case (QPatch raw)
    show ?thesis unfolding QPatch by (rule patch_refines [OF ok own(3)])
  next
    case QDelete
    show ?thesis unfolding QDelete by (rule delete_refines [OF ok own(4)])
  next
    case (QAdd raw)
    show ?thesis unfolding QAdd
      by (rule add_refines [OF ok own(3) assms(5) fresh(2) enforceSpecimen_may_see [OF assms(1-4)] exist])
  next
    case (QRemove raw)
    show ?thesis unfolding QRemove by (rule remove_refines [OF ok own(3) assms(5)])
  qed
qed

text \<open>
  C40. The sheet endpoints implement, for every account, an ordered list of distinct specimens with a
  template. With a live guard and a working connection each request answers with exactly the error or
  the new list of the promise \<open>sheet_spec\<close> (only the caller's list changes, an append needs a specimen
  the caller may see and is idempotent, a removal closes the gap), keeps the invariant of keys,
  references and gap-free positions, leaves the database alone when it answers with an error, and shows
  in its reply the list it leaves behind, numbered from 1 and with the page count of its template.
\<close>

theorem qr_sheet_refines_list:
  assumes "guard_ok (qv_guard env) enf (Some (NewSharesLookup (qv_parse env) d))"
    and "\<forall>i. qv_parse env (ag_str (qv_guard env) i) = Some i" and "distinct (map sp_ID (db_specimens d))"
    and "qv_specimens env" and "qv_tx env = tx_up" and "u_ID u \<noteq> uuid_Nil" and "sheets_ok d"
    and "qv_newID env \<notin> qs_ID ` set (db_qr_sheets d)" "qv_rowID env \<notin> qr_ID ` set (db_qr_specimens d)"
    and "qr_serve env u req d = (r, d')"
  shows "map_sum id (\<lambda>_. sheets_of d') r =
      sheet_spec (qv_parse env) (u_ID u \<in> us_ID ` set (db_users d)) (may_see d u) (u_ID u) req (sheets_of d) \<and>
    sheets_ok d' \<and> (isl r \<longrightarrow> d' = d) \<and>
    (\<forall>v. r = Inr (Some v) \<longrightarrow> (\<exists>s. sheets_of d' (u_ID u) = Some s \<and> view_shows v s))"
  using qr_serve_refines [OF assms(1-9), of req] assms(10) by (auto simp: sheet_outcome_def)

text \<open>Two public specimens, an account, and its sheet with the first of them.\<close>

definition labelled :: database where
  "labelled = two_specimens\<lparr>db_users := [User_zero\<lparr>us_ID := 7\<rparr>],
     db_qr_sheets := [\<lparr>qs_ID = 3, qs_UserID = 7, qs_Template = ''avery-5160'', qs_CreatedAt = 0, qs_UpdatedAt = 0\<rparr>],
     db_qr_specimens := [\<lparr>qr_ID = 4, qr_SheetID = 3, qr_SpecimenID = 1, qr_Position = 1, qr_AddedAt = 0\<rparr>]\<rparr>"

definition label_env :: qr_env where
  "label_env = \<lparr>qv_guard = \<lparr>ag_enforcer = Some (model_eval DefaultGroupings
       (Some (NewSharesLookup (uuid_Parse plain_codec) labelled)) DefaultPolicies), ag_str = uuid_hex\<rparr>,
     qv_parse = uuid_Parse plain_codec, qv_specimens = True, qv_tx = tx_up,
     qv_pdf = \<lparr>qrcode_Encode = (\<lambda>_ _. Inr []), doc_Error = (\<lambda>_ _. None), doc_Output = (\<lambda>_ _. Inr [])\<rparr>,
     qv_now = 9, qv_newID = 5, qv_rowID = 6\<rparr>"

lemma sheet_rows_labelled: "sheet_rows labelled sid =
    (if sid = 3 then [\<lparr>qr_ID = 4, qr_SheetID = 3, qr_SpecimenID = 1, qr_Position = 1, qr_AddedAt = 0\<rparr>] else [])"
  by (simp add: sheet_rows_def labelled_def)

lemma label_env_ok:
  "guard_ok (qv_guard label_env) (model_eval DefaultGroupings (Some (NewSharesLookup (uuid_Parse plain_codec) labelled)) DefaultPolicies)
     (Some (NewSharesLookup (qv_parse label_env) labelled))"
  "\<forall>i. qv_parse label_env (ag_str (qv_guard label_env) i) = Some i" "distinct (map sp_ID (db_specimens labelled))"
  "qv_specimens label_env" "qv_tx label_env = tx_up" "sheets_ok labelled"
  "qv_newID label_env \<notin> qs_ID ` set (db_qr_sheets labelled)" "qv_rowID label_env \<notin> qr_ID ` set (db_qr_specimens labelled)"
proof -
  show "guard_ok (qv_guard label_env) (model_eval DefaultGroupings (Some (NewSharesLookup (uuid_Parse plain_codec) labelled)) DefaultPolicies)
     (Some (NewSharesLookup (qv_parse label_env) labelled))"
    using model.casbin_enforcer_axioms hex.uuid_text_axioms NewSharesLookup_total by (simp add: guard_ok_def label_env_def)
  show "\<forall>i. qv_parse label_env (ag_str (qv_guard label_env) i) = Some i"
    using plain.uuid_back by (simp add: label_env_def plain_codec_def)
  show "sheets_ok labelled"
    by (simp add: sheets_ok_def sheet_rows_labelled positions_def) (simp add: labelled_def refs_def two_specimens_def User_zero_def)
qed (simp_all add: labelled_def two_specimens_def label_env_def)

theorem qr_sheet_refines_list_witness:
  "sheets_of (snd (qr_serve label_env (auth_User_zero\<lparr>u_ID := 7\<rparr>) (QAdd (uuid_hex 2)) labelled)) 7 = Some (''avery-5160'', [1, 2])"
proof -
  let ?u = "auth_User_zero\<lparr>u_ID := 7\<rparr>" let ?req = "QAdd (uuid_hex 2)"
  have u: "u_ID ?u \<noteq> uuid_Nil" "u_ID ?u = 7" by simp_all
  note promise = qr_sheet_refines_list [THEN conjunct1, OF label_env_ok(1-5) u(1) label_env_ok(6-8) surjective_pairing, of ?req]
  have parse: "qv_parse label_env (uuid_hex 2) = Some 2" using label_env_ok(2) by (simp add: label_env_def)
  have see: "may_see labelled ?u 2"
    by (simp add: may_see_def labelled_def two_specimens_def specimenAccessScope_def isAdmin_def isAnonymous_def auth_User_zero_def)
  have "sheets_of labelled 7 = Some (''avery-5160'', [1])"
    by (rule trans [OF sheets_of_Some]) (simp add: labelled_def, simp add: sheet_rows_labelled)
  then have "sheet_spec (qv_parse label_env) (u_ID ?u \<in> us_ID ` set (db_users labelled)) (may_see labelled ?u) (u_ID ?u) ?req (sheets_of labelled) =
      Inr ((sheets_of labelled)(7 \<mapsto> (''avery-5160'', [1, 2])))"
    using parse see by (simp add: sheet_spec_def parseUUID_def on_sheet_def)
  with promise show ?thesis
    by (cases "fst (qr_serve label_env ?u ?req labelled)") (simp_all add: fun_eq_iff)
qed

section \<open>The printed sheet\<close>

lemma generatePDF_Inr:
  assumes "generatePDF env u req d = Inr body"
  obtains sheet t where "QRSheet_GetByUser d (u_ID u) = Inr sheet" and "TemplateByName (qs_Template sheet) = Some t"
    and "Generate (qv_pdf env) t (map (label_url (ag_str (qv_guard env)) (requestBaseURL req)) (ListSpecimens d (qs_ID sheet))) = Inr body"
proof (cases "QRSheet_GetByUser d (u_ID u)")
  case (Inl e)
  then show ?thesis using assms by (auto simp: generatePDF_def sum_bind_def split: sum.splits)
next
  case (Inr sheet)
  let ?urls = "map (label_url (ag_str (qv_guard env)) (requestBaseURL req)) (ListSpecimens d (qs_ID sheet))"
  have body: "(case TemplateByName (qs_Template sheet) of
      None \<Rightarrow> Inl (newAPIError 500 ''qr_template_unknown'' ''qr sheet template is not renderable'' [])
    | Some t \<Rightarrow> (case Generate (qv_pdf env) t ?urls of
          Inl _ \<Rightarrow> Inl (newAPIError 500 ''pdf_render_failed'' ''failed to render qr sheet pdf'' [])
        | Inr b \<Rightarrow> Inr b)) = Inr body"
    using assms Inr unfolding generatePDF_def Let_def sum_bind_Inr map_sum_Inr by auto
  show ?thesis
  proof (cases "TemplateByName (qs_Template sheet)")
    case None
    then show ?thesis using body by simp
  next
    case (Some t)
    then show ?thesis using body that [OF Inr Some] by (cases "Generate (qv_pdf env) t ?urls") simp_all
  qed
qed

lemma page_count_agrees:
  assumes "TemplateByName name = Some t" and "urls \<noteq> []"
  shows "page_count (sheet_ops env t urls) = qrSheetPageCount name (length urls)"
proof -
  have cap: "QRSheetTemplateCapacity name = Some (Capacity t)" "0 < Capacity t"
    using TemplateByName_cases [OF assms(1)] QRSheetTemplateCapacity_pos by auto
  show ?thesis using assms(2) cap by (simp add: page_count_sheet qrSheetPageCount_def)
qed

text \<open>
  C20. A printed sheet: the document of a successful request is the one drawn for the caller's own sheet
  in its template, it has the number of pages the sheet endpoints report, the label of position \<open>i\<close> is the
  QR code of the address of the specimen listed there and stands on its page, every code lies on the
  paper, and no two codes of a page overlap.
\<close>

theorem sheet_pdf_layout:
  assumes "generatePDF env u req d = Inr body"
  shows "\<exists>sheet t urls ops. QRSheet_GetByUser d (u_ID u) = Inr sheet \<and> TemplateByName (qs_Template sheet) = Some t \<and>
    urls = map (label_url (ag_str (qv_guard env)) (requestBaseURL req)) (ListSpecimens d (qs_ID sheet)) \<and>
    doc_Output (qv_pdf env) (tm_PageSize t) ops = Inr body \<and>
    page_count ops = qrSheetPageCount (qs_Template sheet) (length urls) \<and>
    (\<forall>i < length urls. (\<exists>png. qrcode_Encode (qv_pdf env) (urls ! i) qrPNGSize = Inr png \<and> RegisterImage i png \<in> set ops) \<and>
       (\<exists>before after. ops = before @ PlaceImage i (fst (qr_pos t i)) (snd (qr_pos t i)) (qr_size t) # after \<and>
          page_count before = Suc (i div Capacity t)) \<and>
       0 \<le> fst (qr_pos t i) \<and> fst (qr_pos t i) + qr_size t \<le> fst (paper (tm_PageSize t)) \<and>
       0 \<le> snd (qr_pos t i) \<and> snd (qr_pos t i) + qr_size t \<le> snd (paper (tm_PageSize t)) \<and>
       (\<forall>j < length urls. i < j \<and> i div Capacity t = j div Capacity t \<longrightarrow> disjoint_squares (qr_pos t i) (qr_pos t j) (qr_size t)))"
proof -
  obtain sheet t where sheet: "QRSheet_GetByUser d (u_ID u) = Inr sheet" and t: "TemplateByName (qs_Template sheet) = Some t"
    and gen: "Generate (qv_pdf env) t (map (label_url (ag_str (qv_guard env)) (requestBaseURL req)) (ListSpecimens d (qs_ID sheet))) = Inr body"
    by (rule generatePDF_Inr [OF assms])
  define urls where "urls = map (label_url (ag_str (qv_guard env)) (requestBaseURL req)) (ListSpecimens d (qs_ID sheet))"
  note gen = gen [folded urls_def]
  have drawn: "urls \<noteq> []" "doc_Output (qv_pdf env) (tm_PageSize t) (sheet_ops (qv_pdf env) t urls) = Inr body"
    using Generate_ops [OF gen] by simp_all
  have print: "printable t" "0 < Capacity t"
    using TemplateByName_cases [OF t] QRSheetTemplateCapacity_pos by auto
  note pages = page_count_agrees [OF t drawn(1), of "qv_pdf env"]
  have label: "\<exists>png. qrcode_Encode (qv_pdf env) (urls ! i) qrPNGSize = Inr png \<and> RegisterImage i png \<in> set (sheet_ops (qv_pdf env) t urls)"
    if "i < length urls" for i
    using Generate_encodes [OF gen that] sheet_ops_register [OF that] by blast
  have paper: "0 \<le> fst (qr_pos t i) \<and> fst (qr_pos t i) + qr_size t \<le> fst (paper (tm_PageSize t)) \<and>
      0 \<le> snd (qr_pos t i) \<and> snd (qr_pos t i) + qr_size t \<le> snd (paper (tm_PageSize t))" for i
    using qr_on_paper [OF print(1), of i] by (simp add: split_def)
  show ?thesis
    by (rule exI [of _ sheet], rule exI [of _ t], rule exI [of _ urls], rule exI [of _ "sheet_ops (qv_pdf env) t urls"])
      (use sheet t drawn(2) pages label paper sheet_ops_place [OF print(2)] qr_disjoint [OF print(1)] in \<open>simp add: urls_def [symmetric]\<close>)
qed

lemma label_env_prints: "generatePDF label_env (auth_User_zero\<lparr>u_ID := 7\<rparr>) \<lparr>hr_TLS = True, hr_Host = ''h'', hr_ForwardedProto = [], hr_ForwardedHost = []\<rparr> labelled = Inr []"
proof -
  have own: "own_sheet_check label_env (auth_User_zero\<lparr>u_ID := 7\<rparr>) ''view'' = Inr ()"
    by (rule own_sheet_check_ok [OF label_env_ok(1)]) simp_all
  have sheet: "QRSheet_GetByUser labelled 7 = Inr \<lparr>qs_ID = 3, qs_UserID = 7, qs_Template = ''avery-5160'', qs_CreatedAt = 0, qs_UpdatedAt = 0\<rparr>"
    by (simp add: QRSheet_GetByUser_def labelled_def)
  obtain e where e: "ListSpecimens labelled 3 = [e]"
    unfolding ListSpecimens_def sheet_rows_labelled by (simp add: labelled_def two_specimens_def)
  obtain t where t: "TemplateByName ''avery-5160'' = Some t" using TemplateByName_total [of "''avery-5160''"]
    by (auto simp: QRSheetTemplateCapacity_def)
  show ?thesis
    unfolding generatePDF_def using own sheet e t by (simp add: Let_def ensure_def Generate_def label_env_def split_def)
qed

theorem sheet_pdf_layout_witness:
  "\<exists>sheet t. QRSheet_GetByUser labelled 7 = Inr sheet \<and> TemplateByName (qs_Template sheet) = Some t \<and>
     fst (qr_pos t 0) + qr_size t \<le> fst (paper (tm_PageSize t))"
proof -
  have "length (ListSpecimens labelled 3) = length (sheet_rows labelled 3)"
    using arg_cong [OF ListSpecimens_rows(1) [OF label_env_ok(6)], of length] by simp
  then have one: "length (ListSpecimens labelled 3) = 1" by (simp add: sheet_rows_labelled)
  have "QRSheet_GetByUser labelled 7 = Inr sheet \<Longrightarrow> qs_ID sheet = 3" for sheet
    by (auto simp: QRSheet_GetByUser_def labelled_def)
  then show ?thesis using sheet_pdf_layout [OF label_env_prints] one by fastforce
qed

section \<open>What the sheet does not promise\<close>

text \<open>
  The view check is made when a specimen is added. When its owner makes it private later, the sheet
  still shows its name, although the caller may no longer see it.
\<close>

definition hidden_later :: database where
  "hidden_later = labelled\<lparr>db_specimens := [Specimen_zero\<lparr>sp_ID := 1, sp_Name := ''secret'', sp_AuthorID := 8, sp_Visibility := VisibilityPrivate\<rparr>]\<rparr>"

lemma stale_label_shown:
  "\<not> may_see hidden_later (auth_User_zero\<lparr>u_ID := 7\<rparr>) 1 \<and>
   (\<exists>v. qr_get label_env (auth_User_zero\<lparr>u_ID := 7\<rparr>) hidden_later = Inr v \<and> map qp_Name (qw_Specimens v) = [''secret''])"
proof
  show "\<not> may_see hidden_later (auth_User_zero\<lparr>u_ID := 7\<rparr>) 1"
    by (simp add: may_see_def hidden_later_def specimenAccessScope_def isAdmin_def isAnonymous_def auth_User_zero_def shared_with_def
        labelled_def two_specimens_def empty_database_def)
  have own: "own_sheet_check label_env (auth_User_zero\<lparr>u_ID := 7\<rparr>) ''view'' = Inr ()"
    by (rule own_sheet_check_ok [OF label_env_ok(1)]) simp_all
  have "sheet_rows hidden_later 3 = sheet_rows labelled 3" by (rule sheet_rows_cong) (simp add: hidden_later_def)
  then have "map qe_SpecimenName (ListSpecimens hidden_later 3) = [''secret'']"
    by (simp add: ListSpecimens_def sheet_rows_labelled) (simp add: hidden_later_def)
  then show "\<exists>v. qr_get label_env (auth_User_zero\<lparr>u_ID := 7\<rparr>) hidden_later = Inr v \<and> map qp_Name (qw_Specimens v) = [''secret'']"
    by (simp add: qr_get_def own loadView_def QRSheet_GetByUser_def)
      (simp add: hidden_later_def labelled_def toQRSheetView_def comp_def qr_specimen_view_def)
qed

text \<open>Deleting a specimen removes its rows without closing the gaps.\<close>

lemma delete_leaves_gap:
  assumes "sheets_ok d" and "sheet_rows d sid = [a, b]" and "delete_specimens (\<lambda>s. sp_ID s = qr_SpecimenID a) d = Inr (n, d')"
    and "qr_SpecimenID a \<in> sp_ID ` set (db_specimens d)"
  shows "\<not> sheets_ok d'"
proof
  assume ok: "sheets_ok d'"
  have rows: "db_qr_specimens d' = filter (\<lambda>r. qr_SpecimenID r \<noteq> qr_SpecimenID a) (db_qr_specimens d)"
    using assms(3,4) by (auto simp: delete_specimens_def Let_def intro!: filter_cong)
  have "sheet_rows d' sid = filter (\<lambda>r. qr_SpecimenID r \<noteq> qr_SpecimenID a) (sheet_rows d sid)"
    by (simp add: sheet_rows_def rows filter_sort conj_commute)
  moreover have "qr_SpecimenID a \<noteq> qr_SpecimenID b" "qr_Position b = 2"
    using sheets_okD [OF assms(1), of sid] assms(2) by (auto simp: positions_def upt_rec)
  ultimately show False using sheets_okD(1) [OF ok, of sid] assms(2) by (simp add: positions_def)
qed

end
