(* ===== verification/StateCookie.thy ===== *)
theory StateCookie
  imports Cursor
begin

text \<open>
  The signed cookie that carries a login across the identity provider
  (\<open>src/internal/auth/bff/state.go\<close>): a length-prefixed binary payload and its MAC, both in unpadded
  URL-safe base64, joined by a dot. Byte strings are character lists. The MAC is an argument: what is
  shown here holds for every keyed function.
\<close>

section \<open>Big-endian integers\<close>

fun be_put :: "nat \<Rightarrow> nat \<Rightarrow> string" where
  "be_put 0 n = []"
| "be_put (Suc k) n = be_put k (n div 256) @ [char_of (n mod 256)]"

definition be_get :: "string \<Rightarrow> nat" where
  "be_get s = foldl (\<lambda>a c. a * 256 + of_char c) 0 s"

lemma length_be_put [simp]: "length (be_put k n) = k"
  by (induction k arbitrary: n) auto

lemma be_get_put: "be_get (be_put k n) = n mod 256 ^ k"
proof (induction k arbitrary: n)
  case 0
  then show ?case by (simp add: be_get_def)
next
  case (Suc k)
  have "be_get (be_put (Suc k) n) = be_get (be_put k (n div 256)) * 256 + n mod 256" by (simp add: be_get_def)
  also have "\<dots> = (n div 256) mod 256 ^ k * 256 + n mod 256" by (simp only: Suc)
  also have "\<dots> = n mod 256 ^ Suc k" by (simp add: mod_mult2_eq mult.commute)
  finally show ?case .
qed

text \<open>\<open>int64(uint64)\<close>.\<close>

definition signed64 :: "nat \<Rightarrow> int" where
  "signed64 n = (if n < 2 ^ 63 then int n else int n - 2 ^ 64)"

definition unsigned64 :: "int \<Rightarrow> nat" where
  "unsigned64 i = nat (i mod 2 ^ 64)"

lemma signed64_unsigned64: "- (2 ^ 63) \<le> i \<Longrightarrow> i < 2 ^ 63 \<Longrightarrow> signed64 (unsigned64 i) = i"
proof (cases "0 \<le> i")
  case True
  moreover assume "i < 2 ^ 63"
  ultimately show ?thesis by (simp add: signed64_def unsigned64_def)
next
  case False
  moreover assume "- (2 ^ 63) \<le> i"
  ultimately have "i mod 2 ^ 64 = i + 2 ^ 64" by (intro int_mod_pos_eq [of _ _ "-1"]) simp_all
  then show ?thesis using False \<open>- (2 ^ 63) \<le> i\<close> by (simp add: signed64_def unsigned64_def)
qed

lemma unsigned64_bound: "unsigned64 i < 256 ^ 8"
  by (simp add: unsigned64_def nat_less_iff)

section \<open>The payload\<close>

record StateData =
  sd_State :: string
  sd_ReturnTo :: string
  sd_Expires :: time

datatype state_error = StateKeyTooShort | StateFieldTooLong | ErrStateInvalid

definition StateTTL :: time where
  "StateTTL = 5 * 60 * 1000000000"

definition minStateHMACKeyLen :: nat where
  "minStateHMACKeyLen = 32"

definition packState :: "StateData \<Rightarrow> state_error + string" where
  "packState d =
     (if length (sd_State d) > 0xFFFF \<or> length (sd_ReturnTo d) > 0xFFFF then Inl StateFieldTooLong
      else Inr (be_put 2 (length (sd_State d)) @ sd_State d @ be_put 2 (length (sd_ReturnTo d)) @ sd_ReturnTo d @
                be_put 8 (unsigned64 (sd_Expires d))))"

definition unpackState :: "string \<Rightarrow> state_error + StateData" where
  "unpackState b =
     (if length b < 2 then Inl ErrStateInvalid
      else let sl = be_get (take 2 b) in
      if length b < 2 + sl + 2 then Inl ErrStateInvalid
      else let state = go_slice b 2 (2 + sl); rest = drop (2 + sl) b; rl = be_get (take 2 rest) in
      if length rest < 2 + rl + 8 then Inl ErrStateInvalid
      else Inr \<lparr>sd_State = state, sd_ReturnTo = go_slice rest 2 (2 + rl),
                sd_Expires = signed64 (be_get (go_slice rest (2 + rl) (2 + rl + 8)))\<rparr>)"

section \<open>Signing\<close>

type_synonym mac = "string \<Rightarrow> string \<Rightarrow> string"

definition SignState :: "mac \<Rightarrow> string \<Rightarrow> StateData \<Rightarrow> state_error + string" where
  "SignState mac key d =
     (if length key < minStateHMACKeyLen then Inl StateKeyTooShort
      else sum_bind (packState d) (\<lambda>payload.
        Inr (RawURLEncoding_Encode payload @ ''.'' @ RawURLEncoding_Encode (mac key payload))))"

text \<open>\<open>strings.Cut\<close> at the first dot.\<close>

definition cut_dot :: "string \<Rightarrow> (string \<times> string) option" where
  "cut_dot s = (case dropWhile (\<lambda>c. c \<noteq> CHR ''.'') s of [] \<Rightarrow> None | _ # r \<Rightarrow> Some (takeWhile (\<lambda>c. c \<noteq> CHR ''.'') s, r))"

definition VerifyState :: "mac \<Rightarrow> string \<Rightarrow> string \<Rightarrow> time \<Rightarrow> state_error + StateData" where
  "VerifyState mac key v now =
     (if length key < minStateHMACKeyLen then Inl StateKeyTooShort
      else case cut_dot v of
        None \<Rightarrow> Inl ErrStateInvalid
      | Some (pb64, mb64) \<Rightarrow>
          (case RawURLEncoding_Decode pb64 of
             None \<Rightarrow> Inl ErrStateInvalid
           | Some payload \<Rightarrow>
               (case RawURLEncoding_Decode mb64 of
                  None \<Rightarrow> Inl ErrStateInvalid
                | Some gotMAC \<Rightarrow>
                    if gotMAC \<noteq> mac key payload then Inl ErrStateInvalid
                    else (case unpackState payload of
                       Inl _ \<Rightarrow> Inl ErrStateInvalid
                     | Inr d \<Rightarrow> if now > sd_Expires d then Inl ErrStateInvalid else Inr d))))"

section \<open>Lemmas\<close>

lemma be_get_put2: "n \<le> 0xFFFF \<Longrightarrow> be_get (be_put 2 n) = n"
  by (simp add: be_get_put del: be_put.simps)

lemma unpack_pack:
  assumes "packState d = Inr p" and "- (2 ^ 63) \<le> sd_Expires d" and "sd_Expires d < 2 ^ 63"
  shows "unpackState p = Inr d"
proof -
  let ?s = "sd_State d" and ?r = "sd_ReturnTo d" and ?e = "be_put 8 (unsigned64 (sd_Expires d))"
  have len: "length ?s \<le> 0xFFFF" "length ?r \<le> 0xFFFF"
    and p: "p = be_put 2 (length ?s) @ ?s @ be_put 2 (length ?r) @ ?r @ ?e"
    using assms(1) by (auto simp: packState_def split: if_splits)
  have sl: "be_get (take 2 p) = length ?s" unfolding p using be_get_put2 [OF len(1)] by simp
  have rest: "drop (2 + length ?s) p = be_put 2 (length ?r) @ ?r @ ?e" unfolding p by simp
  have rl: "be_get (take 2 (drop (2 + length ?s) p)) = length ?r" unfolding rest using be_get_put2 [OF len(2)] by simp
  have "signed64 (be_get ?e) = sd_Expires d"
    using signed64_unsigned64 [OF assms(2,3)] unsigned64_bound by (simp add: be_get_put del: be_put.simps)
  moreover have "length p = 2 + length ?s + 2 + length ?r + 8" by (simp add: p)
  ultimately show ?thesis
    unfolding unpackState_def Let_def sl rl rest unfolding p by (simp add: go_slice_def be_get_put2 [OF len(2)])
qed

lemma b64_no_dot: "CHR ''.'' \<notin> set (RawURLEncoding_Encode s)"
proof -
  have bytes: "\<forall>b\<in>set (map of_char s). b < (256 :: nat)" by simp
  have "set (RawURLEncoding_Encode s) \<subseteq> set b64_alphabet"
    using sextets_bound [OF bytes] by (auto simp: RawURLEncoding_Encode_def)
  moreover have "CHR ''.'' \<notin> set b64_alphabet" by (simp add: b64_alphabet_def)
  ultimately show ?thesis by blast
qed

lemma cut_dot_append: "CHR ''.'' \<notin> set a \<Longrightarrow> cut_dot (a @ ''.'' @ b) = Some (a, b)"
proof -
  assume "CHR ''.'' \<notin> set a"
  then have "\<forall>c\<in>set a. c \<noteq> CHR ''.''" by metis
  then show ?thesis by (simp add: cut_dot_def dropWhile_append2 takeWhile_append2)
qed

lemma sign_verify:
  assumes "SignState mac key d = Inr v" and "- (2 ^ 63) \<le> sd_Expires d" and "sd_Expires d < 2 ^ 63"
  shows "VerifyState mac key v now = (if now > sd_Expires d then Inl ErrStateInvalid else Inr d)"
proof -
  obtain p where key: "\<not> length key < minStateHMACKeyLen" and p: "packState d = Inr p"
    and v: "v = RawURLEncoding_Encode p @ ''.'' @ RawURLEncoding_Encode (mac key p)"
    using assms(1) unfolding SignState_def by (auto simp: sum_bind_Inr split: if_splits)
  show ?thesis
    unfolding v VerifyState_def cut_dot_append [OF b64_no_dot]
    using key unpack_pack [OF p assms(2,3)] by (simp add: b64_roundtrip)
qed

lemma verify_accepts:
  assumes "VerifyState mac key v now = Inr d"
  shows "minStateHMACKeyLen \<le> length key \<and> now \<le> sd_Expires d \<and>
    (\<exists>pb64 mb64 payload. cut_dot v = Some (pb64, mb64) \<and> RawURLEncoding_Decode pb64 = Some payload \<and>
       RawURLEncoding_Decode mb64 = Some (mac key payload) \<and> unpackState payload = Inr d)"
  using assms unfolding VerifyState_def by (auto split: if_splits option.splits sum.splits prod.splits)

text \<open>Every character a cookie may carry: the value is made of base64 digits and one dot.\<close>

lemma SignState_error:
  "isl (SignState mac key d) \<longleftrightarrow> length key < 32 \<or> length (sd_State d) > 0xFFFF \<or> length (sd_ReturnTo d) > 0xFFFF"
  by (auto simp: SignState_def packState_def minStateHMACKeyLen_def sum_bind_def)

section \<open>The promise\<close>

text \<open>
  C7. The state cookie round-trips and cannot be altered: for every MAC, what \<open>SignState\<close> signs with a key
  \<open>VerifyState\<close> returns unchanged up to its expiry and refuses afterwards; signing fails exactly for a key
  under 32 bytes or a field over 65535; and whatever value \<open>VerifyState\<close> accepts carries the MAC, under the
  key, of the payload its data comes from, and has not expired.
\<close>

theorem state_cookie_roundtrip:
  assumes "- (2 ^ 63) \<le> sd_Expires d" and "sd_Expires d < 2 ^ 63"
  shows "(isl (SignState mac key d) \<longleftrightarrow> length key < 32 \<or> length (sd_State d) > 0xFFFF \<or> length (sd_ReturnTo d) > 0xFFFF) \<and>
    (\<forall>v now. SignState mac key d = Inr v \<longrightarrow>
       VerifyState mac key v now = (if now > sd_Expires d then Inl ErrStateInvalid else Inr d)) \<and>
    (\<forall>v now d'. VerifyState mac key v now = Inr d' \<longrightarrow> 32 \<le> length key \<and> now \<le> sd_Expires d' \<and>
       (\<exists>pb64 mb64 payload. cut_dot v = Some (pb64, mb64) \<and> RawURLEncoding_Decode pb64 = Some payload \<and>
          RawURLEncoding_Decode mb64 = Some (mac key payload) \<and> unpackState payload = Inr d'))"
proof (intro conjI allI impI)
  fix v now d'
  assume "VerifyState mac key v now = Inr d'"
  from verify_accepts [OF this] show "32 \<le> length key" "now \<le> sd_Expires d'"
    "\<exists>pb64 mb64 payload. cut_dot v = Some (pb64, mb64) \<and> RawURLEncoding_Decode pb64 = Some payload \<and>
       RawURLEncoding_Decode mb64 = Some (mac key payload) \<and> unpackState payload = Inr d'"
    by (simp_all add: minStateHMACKeyLen_def)
qed (simp_all add: SignState_error sign_verify [OF _ assms])

theorem state_cookie_roundtrip_witness:
  "\<exists>v. SignState (\<lambda>k p. k @ p) (replicate 32 (CHR ''k'')) \<lparr>sd_State = ''s'', sd_ReturnTo = ''/a'', sd_Expires = 5\<rparr> = Inr v \<and>
     VerifyState (\<lambda>k p. k @ p) (replicate 32 (CHR ''k'')) v 5 = Inr \<lparr>sd_State = ''s'', sd_ReturnTo = ''/a'', sd_Expires = 5\<rparr>"
proof -
  let ?d = "\<lparr>sd_State = ''s'', sd_ReturnTo = ''/a'', sd_Expires = 5\<rparr>" let ?key = "replicate 32 (CHR ''k'')"
  have t: "- (2 ^ 63) \<le> sd_Expires ?d" "sd_Expires ?d < 2 ^ 63" by simp_all
  obtain v where "SignState (\<lambda>k p. k @ p) ?key ?d = Inr v"
    using state_cookie_roundtrip [OF t, THEN conjunct1, of "\<lambda>k p. k @ p" ?key]
    by (cases "SignState (\<lambda>k p. k @ p) ?key ?d") simp_all
  then show ?thesis using state_cookie_roundtrip [OF t, of "\<lambda>k p. k @ p" ?key] by simp
qed

end
