(* ===== verification/Sessions.thy ===== *)
theory Sessions
  imports StateCookie AuthFlow
begin

text \<open>
  Browser sessions: the table \<open>auth.sessions\<close> with the operations of
  \<open>src/internal/auth/bff/postgres.go\<close> and \<open>cleanup.go\<close>, the cookie of \<open>cookie.go\<close>, the session middleware
  with its token refresh (\<open>middleware.go\<close>) and the CSRF check (\<open>csrf.go\<close>). The OAuth client and the
  clock come with the environment, and so does which statements fail in the driver. Other requests
  can change the table between the lookup of a session and its refresh.
\<close>

section \<open>The table\<close>

record Session =
  ss_ID :: string
  ss_UserSub :: string
  ss_UserID :: uuid
  ss_AccessToken :: string
  ss_RefreshToken :: string
  ss_IDToken :: string
  ss_AccessTokenExpiresAt :: time
  ss_RefreshTokenExpiresAt :: time
  ss_CreatedAt :: time
  ss_LastUsedAt :: time
  ss_AbsoluteExpiresAt :: time
  ss_CSRFToken :: string
  ss_IP :: "string option"
  ss_UserAgent :: string
  ss_RevokedAt :: "time option"

record CreateParams =
  cp_UserSub :: string
  cp_UserID :: uuid
  cp_AccessToken :: string
  cp_RefreshToken :: string
  cp_IDToken :: string
  cp_AccessTokenExpiresAt :: time
  cp_RefreshTokenExpiresAt :: time
  cp_AbsoluteExpiresAt :: time
  cp_IP :: "string option"
  cp_UserAgent :: string

record TokenSet =
  tk_AccessToken :: string
  tk_RefreshToken :: string
  tk_IDToken :: string
  tk_AccessTokenExpiresAt :: time
  tk_RefreshTokenExpiresAt :: time

datatype session_error = ErrSessionNotFound | SessionDriver string

type_synonym sessions = "Session list"

definition Session_GetByID :: "sessions \<Rightarrow> string \<Rightarrow> session_error + Session" where
  "Session_GetByID t i = (case find (\<lambda>s. ss_ID s = i) t of None \<Rightarrow> Inl ErrSessionNotFound | Some s \<Rightarrow> Inr s)"

text \<open>The random identifier and token are \<open>None\<close> when the system's source of randomness fails.\<close>

definition Session_Create ::
  "string option \<Rightarrow> string option \<Rightarrow> time \<Rightarrow> CreateParams \<Rightarrow> sessions \<Rightarrow> session_error + Session \<times> sessions" where
  "Session_Create randID randCSRF dbnow p t =
     (case randID of
        None \<Rightarrow> Inl (SessionDriver ''rand session id'')
      | Some i \<Rightarrow>
          (case randCSRF of
             None \<Rightarrow> Inl (SessionDriver ''rand csrf token'')
           | Some csrf \<Rightarrow>
               if i \<in> set (map ss_ID t) then Inl (SessionDriver ''unique_violation'')
               else let s = \<lparr>ss_ID = i, ss_UserSub = cp_UserSub p, ss_UserID = cp_UserID p,
                      ss_AccessToken = cp_AccessToken p, ss_RefreshToken = cp_RefreshToken p, ss_IDToken = cp_IDToken p,
                      ss_AccessTokenExpiresAt = cp_AccessTokenExpiresAt p, ss_RefreshTokenExpiresAt = cp_RefreshTokenExpiresAt p,
                      ss_CreatedAt = dbnow, ss_LastUsedAt = dbnow, ss_AbsoluteExpiresAt = cp_AbsoluteExpiresAt p,
                      ss_CSRFToken = csrf, ss_IP = cp_IP p, ss_UserAgent = cp_UserAgent p, ss_RevokedAt = None\<rparr>
                    in Inr (s, t @ [s])))"

definition update_session :: "string \<Rightarrow> (Session \<Rightarrow> Session) \<Rightarrow> sessions \<Rightarrow> sessions" where
  "update_session i f t = map (\<lambda>s. if ss_ID s = i then f s else s) t"

definition set_tokens :: "TokenSet \<Rightarrow> Session \<Rightarrow> Session" where
  "set_tokens k s = s\<lparr>ss_AccessToken := tk_AccessToken k, ss_RefreshToken := tk_RefreshToken k, ss_IDToken := tk_IDToken k,
     ss_AccessTokenExpiresAt := tk_AccessTokenExpiresAt k, ss_RefreshTokenExpiresAt := tk_RefreshTokenExpiresAt k\<rparr>"

definition UpdateTokens :: "string \<Rightarrow> TokenSet \<Rightarrow> sessions \<Rightarrow> session_error + Session \<times> sessions" where
  "UpdateTokens i k t =
     (let t' = update_session i (set_tokens k) t in
      case Session_GetByID t' i of Inl e \<Rightarrow> Inl e | Inr s \<Rightarrow> Inr (s, t'))"

definition Touch :: "string \<Rightarrow> time \<Rightarrow> sessions \<Rightarrow> sessions" where
  "Touch i now t = update_session i (\<lambda>s. s\<lparr>ss_LastUsedAt := now\<rparr>) t"

definition revoke_row :: "time \<Rightarrow> Session \<Rightarrow> Session" where
  "revoke_row dbnow s = (if ss_RevokedAt s = None then s\<lparr>ss_RevokedAt := Some dbnow\<rparr> else s)"

definition Revoke :: "time \<Rightarrow> string \<Rightarrow> sessions \<Rightarrow> sessions" where
  "Revoke dbnow i t = update_session i (revoke_row dbnow) t"

definition RevokeAllForUser :: "time \<Rightarrow> uuid \<Rightarrow> sessions \<Rightarrow> sessions" where
  "RevokeAllForUser dbnow uid t = map (\<lambda>s. if ss_UserID s = uid then revoke_row dbnow s else s) t"

definition days :: "int \<Rightarrow> time" where
  "days n = n * 24 * 3600 * 1000000000"

definition stale :: "time \<Rightarrow> Session \<Rightarrow> bool" where
  "stale now s \<longleftrightarrow> (case ss_RevokedAt s of None \<Rightarrow> False | Some r \<Rightarrow> r < now - days 30) \<or> ss_AbsoluteExpiresAt s < now - days 7"

definition Cleanup :: "time \<Rightarrow> sessions \<Rightarrow> nat \<times> sessions" where
  "Cleanup now t = (length (filter (stale now) t), filter (\<lambda>s. \<not> stale now s) t)"

section \<open>Cookies\<close>

record CookieConfig =
  cc_Path :: string
  cc_Secure :: bool
  cc_SameSite :: string
  cc_MaxAge :: time

text \<open>\<open>int(d.Seconds())\<close>, towards zero.\<close>

definition whole_seconds :: "time \<Rightarrow> int" where
  "whole_seconds d = (if 0 \<le> d then d div 1000000000 else - (- d div 1000000000))"

text \<open>A \<open>Set-Cookie\<close> header of the response.\<close>

record Cookie =
  ck_Name :: string
  ck_Value :: string
  ck_Path :: string
  ck_HttpOnly :: bool
  ck_Secure :: bool
  ck_SameSite :: string
  ck_MaxAge :: int

definition SessionCookieName :: string where
  "SessionCookieName = ''minerals_session''"

definition SetSessionCookie :: "string \<Rightarrow> CookieConfig \<Rightarrow> Cookie" where
  "SetSessionCookie sessionID cfg =
     \<lparr>ck_Name = SessionCookieName, ck_Value = RawURLEncoding_Encode sessionID, ck_Path = cc_Path cfg, ck_HttpOnly = True,
      ck_Secure = cc_Secure cfg, ck_SameSite = cc_SameSite cfg, ck_MaxAge = whole_seconds (cc_MaxAge cfg)\<rparr>"

definition ClearSessionCookie :: "CookieConfig \<Rightarrow> Cookie" where
  "ClearSessionCookie cfg =
     \<lparr>ck_Name = SessionCookieName, ck_Value = [], ck_Path = cc_Path cfg, ck_HttpOnly = True,
      ck_Secure = cc_Secure cfg, ck_SameSite = cc_SameSite cfg, ck_MaxAge = - 1\<rparr>"

text \<open>The cookie header to the 32-byte identifier; \<open>None\<close> for a malformed value.\<close>

definition cookie_session_id :: "string \<Rightarrow> string option" where
  "cookie_session_id v =
     (case RawURLEncoding_Decode v of None \<Rightarrow> None | Some raw \<Rightarrow> if length raw \<noteq> 32 then None else Some raw)"

section \<open>The middleware\<close>

datatype session_op = OpLookup | OpReread | OpRevoke | OpUpdateTokens | OpTouch | OpUser

record session_env =
  sv_Refresh :: "string \<Rightarrow> string + TokenSet"
  sv_IdleTimeout :: time
  sv_RefreshLeeway :: time
  sv_TouchInterval :: time
  sv_now :: time
  sv_now2 :: time
  sv_dbnow :: time
  sv_fails :: "session_op \<Rightarrow> bool"
  sv_between :: "sessions \<Rightarrow> sessions"

definition DefaultRefreshLeeway :: time where
  "DefaultRefreshLeeway = 30 * 1000000000"

definition DefaultTouchInterval :: time where
  "DefaultTouchInterval = 30 * 1000000000"

text \<open>The construction: \<open>None\<close> is the panic on a missing path or idle timeout; unset intervals get their defaults.\<close>

definition configure :: "CookieConfig \<Rightarrow> session_env \<Rightarrow> session_env option" where
  "configure cookie env =
     (if sv_IdleTimeout env \<le> 0 \<or> cc_Path cookie = [] then None
      else Some (env\<lparr>sv_RefreshLeeway := (if sv_RefreshLeeway env \<le> 0 then DefaultRefreshLeeway else sv_RefreshLeeway env),
             sv_TouchInterval := (if sv_TouchInterval env \<le> 0 then DefaultTouchInterval else sv_TouchInterval env)\<rparr>))"

text \<open>
  What happens to a request: the next handler runs with an identity and its session, or without one; a
  500 envelope is written; or the middleware returns without calling the next handler. The flag says
  whether the response clears the cookie.
\<close>

datatype session_outcome =
    Authenticated auth_User Session
  | Anonymous bool
  | Failed string
  | Stopped bool

definition sessionLive :: "Session \<Rightarrow> time \<Rightarrow> time \<Rightarrow> bool" where
  "sessionLive s now idle \<longleftrightarrow> ss_RevokedAt s = None \<and> \<not> now > ss_AbsoluteExpiresAt s \<and> \<not> now - ss_LastUsedAt s > idle"

definition refresh_due :: "session_env \<Rightarrow> time \<Rightarrow> Session \<Rightarrow> bool" where
  "refresh_due env now s \<longleftrightarrow> now > ss_AccessTokenExpiresAt s - sv_RefreshLeeway env"

definition try_Revoke :: "session_env \<Rightarrow> string \<Rightarrow> sessions \<Rightarrow> sessions" where
  "try_Revoke env i t = (if sv_fails env OpRevoke then t else Revoke (sv_dbnow env) i t)"

text \<open>After the lock: the row read again, and what to do with it.\<close>

definition reread :: "session_env \<Rightarrow> string \<Rightarrow> sessions \<Rightarrow> session_outcome + Session" where
  "reread env i t =
     (if sv_fails env OpReread then Inl (Failed ''session lookup failed'')
      else case Session_GetByID t i of
        Inl _ \<Rightarrow> Inl (Stopped True)
      | Inr fresh \<Rightarrow> Inr fresh)"

text \<open>After the answer of the identity provider: the rotated tokens persisted, or the session revoked.\<close>

definition persist :: "session_env \<Rightarrow> string \<Rightarrow> string + TokenSet \<Rightarrow> sessions \<Rightarrow> (session_outcome + Session) \<times> sessions" where
  "persist env i answer t =
     (case answer of
        Inl _ \<Rightarrow> (Inl (Stopped True), try_Revoke env i t)
      | Inr tokens \<Rightarrow>
          (case if sv_fails env OpUpdateTokens then Inl (SessionDriver ''update'') else UpdateTokens i tokens t of
             Inl _ \<Rightarrow> (Inl (Failed ''session refresh failed''), try_Revoke env i t)
           | Inr (updated, t') \<Rightarrow> (Inr updated, t')))"

definition refreshSession :: "session_env \<Rightarrow> Session \<Rightarrow> sessions \<Rightarrow> (session_outcome + Session) \<times> sessions" where
  "refreshSession env sess t =
     (case reread env (ss_ID sess) t of
        Inl out \<Rightarrow> (Inl out, t)
      | Inr fresh \<Rightarrow>
          if \<not> refresh_due env (sv_now2 env) fresh then (Inr fresh, t)
          else persist env (ss_ID fresh) (sv_Refresh env (ss_RefreshToken fresh)) t)"

definition session_user :: "Session \<Rightarrow> User \<Rightarrow> auth_User" where
  "session_user s u = \<lparr>u_ID = us_ID u, u_Sub = ss_UserSub s, u_Email = us_Email u, u_DisplayName = us_DisplayName u,
     u_Pending = (us_Status u = UserStatusPending), u_Roles = []\<rparr>"

text \<open>The last steps: the debounced touch and the user's row.\<close>

definition attach_user :: "session_env \<Rightarrow> users \<Rightarrow> Session \<Rightarrow> sessions \<Rightarrow> session_outcome \<times> sessions" where
  "attach_user env users sess t =
     (let t' = (if sv_now env - ss_LastUsedAt sess > sv_TouchInterval env \<and> \<not> sv_fails env OpTouch
                then Touch (ss_ID sess) (sv_now env) t else t) in
      case if sv_fails env OpUser then Inl (Driver ''user'') else GetByID users (ss_UserID sess) of
        Inl _ \<Rightarrow> (Failed ''user lookup failed'', t')
      | Inr u \<Rightarrow> (Authenticated (session_user sess u) sess, t'))"

definition SessionMiddleware :: "session_env \<Rightarrow> users \<Rightarrow> string option \<Rightarrow> sessions \<Rightarrow> session_outcome \<times> sessions" where
  "SessionMiddleware env users cookie t =
     (case cookie of
        None \<Rightarrow> (Anonymous False, t)
      | Some v \<Rightarrow>
          (case cookie_session_id v of
             None \<Rightarrow> (Anonymous True, t)
           | Some i \<Rightarrow>
               (case if sv_fails env OpLookup then Inl (SessionDriver ''lookup'') else Session_GetByID t i of
                  Inl ErrSessionNotFound \<Rightarrow> (Anonymous True, t)
                | Inl (SessionDriver _) \<Rightarrow> (Failed ''session lookup failed'', t)
                | Inr sess \<Rightarrow>
                    if \<not> sessionLive sess (sv_now env) (sv_IdleTimeout env) then (Anonymous True, try_Revoke env (ss_ID sess) t)
                    else if refresh_due env (sv_now env) sess then
                      (case refreshSession env sess (sv_between env t) of
                         (Inl out, t') \<Rightarrow> (out, t')
                       | (Inr updated, t') \<Rightarrow> attach_user env users updated t')
                    else attach_user env users sess t)))"

section \<open>CSRF\<close>

definition CSRFHeaderName :: string where
  "CSRFHeaderName = ''X-CSRF-Token''"

definition safe_method :: "string \<Rightarrow> bool" where
  "safe_method m \<longleftrightarrow> m = ''GET'' \<or> m = ''HEAD'' \<or> m = ''OPTIONS''"

text \<open>\<open>None\<close> runs the next handler; an empty header is an absent one.\<close>

definition CSRFMiddleware :: "string \<Rightarrow> string \<Rightarrow> Session option \<Rightarrow> apiError option" where
  "CSRFMiddleware meth header sess =
     (if safe_method meth then None
      else case sess of
        None \<Rightarrow> None
      | Some s \<Rightarrow>
          if header = [] then Some (newAPIError 403 ''csrf_missing'' ''CSRF token required'' [])
          else if header \<noteq> RawURLEncoding_Encode (ss_CSRFToken s)
          then Some (newAPIError 403 ''csrf_mismatch'' ''CSRF token does not match'' [])
          else None)"

definition CSRFHandler :: "Session option \<Rightarrow> apiError + string" where
  "CSRFHandler sess =
     (case sess of
        None \<Rightarrow> Inl (newAPIError 401 ''unauthorized'' ''authentication required'' [])
      | Some s \<Rightarrow> Inr (RawURLEncoding_Encode (ss_CSRFToken s)))"

section \<open>Rows\<close>

definition sessions_ok :: "sessions \<Rightarrow> bool" where
  "sessions_ok t \<longleftrightarrow> distinct (map ss_ID t)"

text \<open>What no statement changes of a row, and that a revocation is never taken back.\<close>

definition same_session :: "Session \<Rightarrow> Session \<Rightarrow> bool" where
  "same_session s s' \<longleftrightarrow> ss_ID s' = ss_ID s \<and> ss_UserSub s' = ss_UserSub s \<and> ss_UserID s' = ss_UserID s \<and>
     ss_CSRFToken s' = ss_CSRFToken s \<and> ss_CreatedAt s' = ss_CreatedAt s \<and> ss_AbsoluteExpiresAt s' = ss_AbsoluteExpiresAt s \<and>
     (ss_RevokedAt s \<noteq> None \<longrightarrow> ss_RevokedAt s' = ss_RevokedAt s)"

lemma same_session_refl [simp]: "same_session s s"
  by (simp add: same_session_def)

lemma same_session_trans: "same_session a b \<Longrightarrow> same_session b c \<Longrightarrow> same_session a c"
  by (auto simp: same_session_def)

lemma same_session_updates [simp]:
  "same_session s (set_tokens k s)" "same_session s (s\<lparr>ss_LastUsedAt := now\<rparr>)" "same_session s (revoke_row now s)"
  by (simp_all add: same_session_def set_tokens_def revoke_row_def)

text \<open>Every row of the later table comes from a row of the earlier one, or was created under a new identifier.\<close>

definition keeps :: "string set \<Rightarrow> sessions \<Rightarrow> sessions \<Rightarrow> bool" where
  "keeps new t t' \<longleftrightarrow> (\<forall>s'\<in>set t'. (\<exists>s\<in>set t. same_session s s') \<or> ss_ID s' \<in> new)"

lemma keeps_refl [simp]: "keeps new t t"
  unfolding keeps_def using same_session_refl by blast

lemma keeps_trans: "keeps new t t1 \<Longrightarrow> keeps new t1 t2 \<Longrightarrow> keeps new t t2"
  unfolding keeps_def by (metis same_session_def same_session_trans)

lemma keeps_update: "(\<And>s. same_session s (f s)) \<Longrightarrow> keeps new t (update_session i f t)"
  unfolding keeps_def update_session_def using same_session_refl by force

lemma get_session:
  "Session_GetByID t i = Inr s \<Longrightarrow> s \<in> set t \<and> ss_ID s = i"
  by (auto simp: Session_GetByID_def find_Some_iff split: option.splits)

lemma get_session_iff: "sessions_ok t \<Longrightarrow> Session_GetByID t i = Inr s \<longleftrightarrow> s \<in> set t \<and> ss_ID s = i"
proof -
  assume "sessions_ok t"
  then have "find (\<lambda>s. ss_ID s = i) t = Some s \<longleftrightarrow> s \<in> set t \<and> ss_ID s = i"
    unfolding sessions_ok_def by (induction t) (auto simp: rev_image_eqI)
  then show ?thesis by (auto simp: Session_GetByID_def split: option.splits)
qed

lemma UpdateTokens_Inr:
  "UpdateTokens i k t = Inr (s, t') \<Longrightarrow> t' = update_session i (set_tokens k) t \<and> s \<in> set t' \<and> ss_ID s = i"
  by (auto simp: UpdateTokens_def Let_def dest: get_session split: sum.splits)

lemma set_tokens_simps [simp]:
  "ss_ID (set_tokens k s) = ss_ID s" "ss_RefreshToken (set_tokens k s) = tk_RefreshToken k"
  "ss_AccessTokenExpiresAt (set_tokens k s) = tk_AccessTokenExpiresAt k"
  by (simp_all add: set_tokens_def)

section \<open>Statements\<close>

text \<open>
  One statement on the table. The set collects the identifiers under which rows are created: an
  identifier is 32 random bytes.
\<close>

inductive stmt :: "string set \<Rightarrow> sessions \<Rightarrow> sessions \<Rightarrow> bool" for new where
  create: "Session_Create (Some i) csrf now p t = Inr (s, t') \<Longrightarrow> i \<in> new \<Longrightarrow> stmt new t t'"
| tokens: "UpdateTokens i k t = Inr (s, t') \<Longrightarrow> stmt new t t'"
| touch: "stmt new t (Touch i now t)"
| revoke: "stmt new t (Revoke now i t)"
| revoke_all: "stmt new t (RevokeAllForUser now uid t)"
| cleanup: "stmt new t (snd (Cleanup now t))"

lemma create_keeps:
  "Session_Create randID csrf now p t = Inr (s, t') \<Longrightarrow> t' = t @ [s] \<and> randID = Some (ss_ID s) \<and> ss_ID s \<notin> ss_ID ` set t"
  by (auto simp: Session_Create_def Let_def split: option.splits if_splits)

lemma stmt_keeps: "stmt new t t' \<Longrightarrow> keeps new t t'"
proof (induction rule: stmt.induct)
  case (create i csrf now p t s t')
  then have "t' = t @ [s]" "ss_ID s = i" using create_keeps [OF create(1)] by auto
  then show ?case using create(2) same_session_refl unfolding keeps_def by (metis in_set_conv_decomp append_Nil2 Un_iff set_append set_ConsD)
next
  case (tokens i k t s t')
  then show ?case using UpdateTokens_Inr keeps_update by (metis same_session_updates(1))
next
  case (revoke_all t now uid)
  then show ?case by (force simp: keeps_def RevokeAllForUser_def)
next
  case (cleanup t now)
  have "set (snd (Cleanup now t)) \<subseteq> set t" by (auto simp: Cleanup_def)
  then show ?case unfolding keeps_def using same_session_refl by blast
qed (auto simp: Touch_def Revoke_def intro!: keeps_update)

lemma stmts_keeps: "(stmt new)\<^sup>*\<^sup>* t t' \<Longrightarrow> keeps new t t'"
  by (induction rule: rtranclp_induct) (auto intro: keeps_trans stmt_keeps)

lemma update_session_ids: "(\<And>s. ss_ID (f s) = ss_ID s) \<Longrightarrow> map ss_ID (update_session i f t) = map ss_ID t"
  by (simp add: update_session_def)

lemma revoke_row_ID [simp]: "ss_ID (revoke_row now s) = ss_ID s"
  by (simp add: revoke_row_def)

lemma stmt_ok: "stmt new t t' \<Longrightarrow> sessions_ok t \<Longrightarrow> sessions_ok t'"
proof (induction rule: stmt.induct)
  case (create i csrf now p t s t')
  then show ?case using create_keeps [OF create(1)] by (auto simp: sessions_ok_def)
next
  case (tokens i k t s t')
  then show ?case using UpdateTokens_Inr [OF tokens(1)] by (simp add: sessions_ok_def update_session_ids)
next
  case (revoke_all t now uid)
  then show ?case by (simp add: sessions_ok_def RevokeAllForUser_def comp_def if_distrib [of ss_ID] cong: if_cong)
next
  case (cleanup t now)
  then show ?case by (simp add: sessions_ok_def Cleanup_def distinct_map_filter)
qed (simp_all add: sessions_ok_def Touch_def Revoke_def update_session_ids)

lemma stmts_ok: "(stmt new)\<^sup>*\<^sup>* t t' \<Longrightarrow> sessions_ok t \<Longrightarrow> sessions_ok t'"
  by (induction rule: rtranclp_induct) (auto intro: stmt_ok)

text \<open>The middleware is a sequence of statements, when what happens in between is.\<close>

lemma try_Revoke_stmts: "(stmt new)\<^sup>*\<^sup>* t (try_Revoke env i t)"
  by (simp add: try_Revoke_def stmt.revoke r_into_rtranclp)

lemma persist_stmts: "persist env i answer t = (r, t') \<Longrightarrow> (stmt new)\<^sup>*\<^sup>* t t'"
  by (auto simp: persist_def try_Revoke_stmts intro: stmt.tokens split: sum.splits if_splits)

lemma refreshSession_stmts: "refreshSession env sess t = (r, t') \<Longrightarrow> (stmt new)\<^sup>*\<^sup>* t t'"
  by (auto simp: refreshSession_def persist_stmts split: sum.splits if_splits)

lemma attach_user_stmts: "attach_user env users sess t = (r, t') \<Longrightarrow> (stmt new)\<^sup>*\<^sup>* t t'"
  by (auto simp: attach_user_def Let_def intro: stmt.touch split: sum.splits if_splits)

lemma SessionMiddleware_stmts:
  assumes "SessionMiddleware env users cookie t = (out, t')" and "(stmt new)\<^sup>*\<^sup>* t (sv_between env t)"
  shows "(stmt new)\<^sup>*\<^sup>* t t'"
proof -
  have refresh: "(stmt new)\<^sup>*\<^sup>* t t'"
    if "(case refreshSession env sess (sv_between env t) of (Inl out, t') \<Rightarrow> (out, t')
        | (Inr updated, t') \<Rightarrow> attach_user env users updated t') = (out, t')" for sess
  proof -
    obtain r t1 where r: "refreshSession env sess (sv_between env t) = (r, t1)" by (cases "refreshSession env sess (sv_between env t)")
    have "(stmt new)\<^sup>*\<^sup>* t t1" using refreshSession_stmts [OF r] assms(2) by (meson rtranclp_trans)
    then show ?thesis using that r attach_user_stmts [of env users _ t1 out t' new]
      by (cases r) (auto intro: rtranclp_trans)
  qed
  show ?thesis
  proof (cases cookie)
    case None
    then show ?thesis using assms(1) by (simp add: SessionMiddleware_def)
  next
    case (Some v)
    then show ?thesis using assms(1) refresh attach_user_stmts [of env users _ t out t' new]
      by (auto simp: SessionMiddleware_def try_Revoke_stmts split: option.splits sum.splits session_error.splits if_splits)
  qed
qed

section \<open>What an identity rests on\<close>

text \<open>The row an identity comes from.\<close>

lemma refreshSession_row:
  assumes "refreshSession env sess t = (Inr s, t')"
  shows "s \<in> set t' \<and> ss_ID s = ss_ID sess \<and> (\<exists>s0\<in>set t. ss_ID s0 = ss_ID sess \<and> same_session s0 s)"
proof -
  obtain fresh where fresh: "Session_GetByID t (ss_ID sess) = Inr fresh"
    using assms by (auto simp: refreshSession_def reread_def split: if_splits sum.splits)
  note row = get_session [OF fresh]
  show ?thesis
  proof (cases "refresh_due env (sv_now2 env) fresh")
    case False
    then have "s = fresh" "t' = t" using assms fresh by (auto simp: refreshSession_def reread_def split: if_splits)
    then show ?thesis using row same_session_refl by metis
  next
    case True
    then have "persist env (ss_ID fresh) (sv_Refresh env (ss_RefreshToken fresh)) t = (Inr s, t')"
      using assms fresh by (auto simp: refreshSession_def reread_def split: if_splits)
    then obtain k where "UpdateTokens (ss_ID fresh) k t = Inr (s, t')"
      by (auto simp: persist_def split: sum.splits if_splits)
    from UpdateTokens_Inr [OF this] have u: "t' = update_session (ss_ID fresh) (set_tokens k) t" "s \<in> set t'" "ss_ID s = ss_ID fresh"
      by auto
    then obtain s0 where "s0 \<in> set t" "s = set_tokens k s0" "ss_ID s0 = ss_ID fresh"
      by (auto simp: update_session_def split: if_splits)
    then show ?thesis using u row by (metis same_session_updates(1))
  qed
qed

lemma attach_user_row:
  assumes "attach_user env users sess t = (Authenticated u s, t')"
  shows "s = sess \<and> (\<exists>row. GetByID users (ss_UserID sess) = Inr row \<and> u = session_user sess row)"
  using assms by (auto simp: attach_user_def Let_def split: sum.splits if_splits)

lemma SessionMiddleware_identity:
  assumes "SessionMiddleware env users cookie t = (Authenticated u s, t')" and "sessions_ok t"
    and "(stmt new)\<^sup>*\<^sup>* t (sv_between env t)" and "ss_ID ` set t \<inter> new = {}"
  shows "\<exists>v s0 row. cookie = Some v \<and> cookie_session_id v = Some (ss_ID s0) \<and> s0 \<in> set t \<and>
    sessionLive s0 (sv_now env) (sv_IdleTimeout env) \<and> same_session s0 s \<and>
    GetByID users (ss_UserID s0) = Inr row \<and> u = session_user s0 row"
proof -
  obtain v i s0 where v: "cookie = Some v" "cookie_session_id v = Some i" and look: "Session_GetByID t i = Inr s0"
    and live: "sessionLive s0 (sv_now env) (sv_IdleTimeout env)"
    using assms(1) by (auto simp: SessionMiddleware_def split: option.splits sum.splits session_error.splits if_splits)
  have s0: "s0 \<in> set t" "ss_ID s0 = i" using get_session [OF look] by auto
  have run: "SessionMiddleware env users cookie t = (if refresh_due env (sv_now env) s0 then
       (case refreshSession env s0 (sv_between env t) of (Inl out, t') \<Rightarrow> (out, t') | (Inr updated, t') \<Rightarrow> attach_user env users updated t')
     else attach_user env users s0 t)" if "\<not> sv_fails env OpLookup"
    using that v look live by (simp add: SessionMiddleware_def)
  have up: "\<not> sv_fails env OpLookup" using assms(1) v by (auto simp: SessionMiddleware_def split: if_splits)
  have "same_session s0 s \<and> (\<exists>row. GetByID users (ss_UserID s) = Inr row \<and> u = session_user s row)"
  proof (cases "refresh_due env (sv_now env) s0")
    case False
    then show ?thesis using run [OF up] assms(1) attach_user_row by (metis same_session_refl)
  next
    case True
    then have res: "(case refreshSession env s0 (sv_between env t) of (Inl out, t') \<Rightarrow> (out, t')
        | (Inr updated, t') \<Rightarrow> attach_user env users updated t') = (Authenticated u s, t')" using run [OF up] assms(1) by simp
    obtain r t1 where r: "refreshSession env s0 (sv_between env t) = (r, t1)" by fastforce
    have not_auth: "x \<noteq> Authenticated a b" if "refreshSession env s0 t2 = (Inl x, t3)" for x a b t2 t3
      using that by (auto simp: refreshSession_def reread_def persist_def split: if_splits sum.splits)
    obtain updated where upd: "r = Inr updated" using r res not_auth by (cases r) auto
    then have att: "attach_user env users updated t1 = (Authenticated u s, t')" using res r by simp
    have "s = updated" using attach_user_row [OF att] by blast
    moreover obtain s1 where s1: "s1 \<in> set (sv_between env t)" "ss_ID s1 = ss_ID s0" "same_session s1 updated"
      using refreshSession_row r upd by blast
    moreover obtain s2 where "s2 \<in> set t" "same_session s2 s1"
      using stmts_keeps [OF assms(3)] s1 s0 assms(4) unfolding keeps_def by (metis IntI empty_iff image_eqI)
    moreover have "s2 = s0" if "s2 \<in> set t" "same_session s2 s1" for s2
      using that s1(2) s0 assms(2) by (auto simp: sessions_ok_def distinct_map inj_on_def same_session_def)
    ultimately show ?thesis using attach_user_row [OF att] same_session_trans by metis
  qed
  moreover have "session_user s row = session_user s0 row" if "same_session s0 s" for row
    using that by (simp add: session_user_def same_session_def)
  moreover have "ss_UserID s = ss_UserID s0" if "same_session s0 s" using that by (simp add: same_session_def)
  ultimately show ?thesis using v s0 live by metis
qed

text \<open>A cookie whose session is revoked or gone authenticates nobody.\<close>

definition dead :: "string \<Rightarrow> sessions \<Rightarrow> bool" where
  "dead i t \<longleftrightarrow> (\<forall>s\<in>set t. ss_ID s = i \<longrightarrow> ss_RevokedAt s \<noteq> None)"

lemma dead_stays: "keeps new t t' \<Longrightarrow> i \<notin> new \<Longrightarrow> dead i t \<Longrightarrow> dead i t'"
  unfolding dead_def keeps_def same_session_def by metis

lemma dead_anonymous:
  assumes "dead i t" and "cookie_session_id v = Some i"
  shows "\<nexists>u s. fst (SessionMiddleware env users (Some v) t) = Authenticated u s"
proof (cases "sv_fails env OpLookup")
  case True
  then show ?thesis using assms(2) by (simp add: SessionMiddleware_def)
next
  case up: False
  show ?thesis
  proof (cases "Session_GetByID t i")
    case (Inl e)
    then show ?thesis using up assms(2) by (cases e) (simp_all add: SessionMiddleware_def)
  next
    case (Inr s0)
    then have "ss_RevokedAt s0 \<noteq> None" using get_session [OF Inr] assms(1) by (simp add: dead_def)
    then have "\<not> sessionLive s0 (sv_now env) (sv_IdleTimeout env)" by (simp add: sessionLive_def)
    then show ?thesis using up assms(2) Inr by (simp add: SessionMiddleware_def)
  qed
qed

lemma revoke_row_revoked: "ss_RevokedAt (revoke_row now s) \<noteq> None"
  by (simp add: revoke_row_def)

lemma Revoke_dead: "dead i (Revoke now i t)"
  unfolding dead_def
proof (intro ballI impI)
  fix s
  assume s: "s \<in> set (Revoke now i t)" and i: "ss_ID s = i"
  obtain x where x: "s = (if ss_ID x = i then revoke_row now x else x)"
    using s unfolding Revoke_def update_session_def set_map by blast
  then have "s = revoke_row now x" using i by (cases "ss_ID x = i") simp_all
  then show "ss_RevokedAt s \<noteq> None" using revoke_row_revoked by simp
qed

section \<open>Soundness of the middlewares\<close>

lemma CSRFMiddleware_None:
  "CSRFMiddleware meth header (Some s) = None \<longleftrightarrow>
     safe_method meth \<or> header \<noteq> [] \<and> header = RawURLEncoding_Encode (ss_CSRFToken s)"
  by (simp add: CSRFMiddleware_def)

lemma session_identity_and_csrf:
  assumes "SessionMiddleware env users cookie t = (Authenticated u s, t')" and "sessions_ok t"
    and "(stmt new)\<^sup>*\<^sup>* t (sv_between env t)" and "ss_ID ` set t \<inter> new = {}"
  shows "\<exists>v s0 row. cookie = Some v \<and> cookie_session_id v = Some (ss_ID s0) \<and> s0 \<in> set t \<and>
    ss_RevokedAt s0 = None \<and> sv_now env \<le> ss_AbsoluteExpiresAt s0 \<and> sv_now env \<le> ss_LastUsedAt s0 + sv_IdleTimeout env \<and>
    same_session s0 s \<and> GetByID users (ss_UserID s0) = Inr row \<and> u = session_user s0 row \<and>
    (\<forall>meth header. CSRFMiddleware meth header (Some s) = None \<longleftrightarrow>
       safe_method meth \<or> header \<noteq> [] \<and> header = RawURLEncoding_Encode (ss_CSRFToken s0))"
proof -
  obtain v s0 row where *: "cookie = Some v" "cookie_session_id v = Some (ss_ID s0)" "s0 \<in> set t"
    "sessionLive s0 (sv_now env) (sv_IdleTimeout env)" "same_session s0 s" "GetByID users (ss_UserID s0) = Inr row"
    "u = session_user s0 row"
    using SessionMiddleware_identity [OF assms] by blast
  have "ss_CSRFToken s = ss_CSRFToken s0" using *(5) by (simp add: same_session_def)
  then have csrf: "\<forall>meth header. CSRFMiddleware meth header (Some s) = None \<longleftrightarrow>
      safe_method meth \<or> header \<noteq> [] \<and> header = RawURLEncoding_Encode (ss_CSRFToken s0)"
    using CSRFMiddleware_None by simp
  have "ss_RevokedAt s0 = None" "sv_now env \<le> ss_AbsoluteExpiresAt s0" "sv_now env \<le> ss_LastUsedAt s0 + sv_IdleTimeout env"
    using *(4) by (simp_all add: sessionLive_def)
  with * csrf show ?thesis by metis
qed

text \<open>
  C8. Where an identity comes from: the middleware attaches a user only to a request whose cookie names a
  row of the session table that is not revoked, not past its absolute expiry and not idle, as the account
  stored in that row, with no roles, whatever statements other requests run before the refresh; and an
  unsafe method then reaches its handler exactly with the CSRF token of that row in its header.
\<close>

theorem session_identity_sound:
  assumes "SessionMiddleware env users cookie t = (Authenticated u s, t')" and "sessions_ok t"
    and "(stmt new)\<^sup>*\<^sup>* t (sv_between env t)" and "ss_ID ` set t \<inter> new = {}"
  shows "\<exists>v s0 row. cookie = Some v \<and> cookie_session_id v = Some (ss_ID s0) \<and> s0 \<in> set t \<and>
    ss_RevokedAt s0 = None \<and> sv_now env \<le> ss_AbsoluteExpiresAt s0 \<and> sv_now env \<le> ss_LastUsedAt s0 + sv_IdleTimeout env \<and>
    same_session s0 s \<and> GetByID users (ss_UserID s0) = Inr row \<and> u = session_user s0 row \<and>
    (\<forall>meth header. CSRFMiddleware meth header (Some s) = None \<longleftrightarrow>
       safe_method meth \<or> header \<noteq> [] \<and> header = RawURLEncoding_Encode (ss_CSRFToken s0))"
  by (rule session_identity_and_csrf [OF assms])

text \<open>A session, its cookie, and an environment in which it is due for a refresh.\<close>

definition sample_id :: string where
  "sample_id = replicate 32 (CHR ''a'')"

definition sample_session :: Session where
  "sample_session = \<lparr>ss_ID = sample_id, ss_UserSub = ''sub-1'', ss_UserID = 7, ss_AccessToken = ''a0'', ss_RefreshToken = ''r0'',
     ss_IDToken = ''i0'', ss_AccessTokenExpiresAt = 10, ss_RefreshTokenExpiresAt = 1000, ss_CreatedAt = 0, ss_LastUsedAt = 0,
     ss_AbsoluteExpiresAt = 1000, ss_CSRFToken = replicate 32 (CHR ''c''), ss_IP = None, ss_UserAgent = [], ss_RevokedAt = None\<rparr>"

definition sample_session_env :: session_env where
  "sample_session_env = \<lparr>sv_Refresh = (\<lambda>_. Inr \<lparr>tk_AccessToken = ''a1'', tk_RefreshToken = ''r1'', tk_IDToken = ''i1'',
       tk_AccessTokenExpiresAt = 100, tk_RefreshTokenExpiresAt = 1000\<rparr>),
     sv_IdleTimeout = 50, sv_RefreshLeeway = 2, sv_TouchInterval = 5, sv_now = 20, sv_now2 = 20, sv_dbnow = 20,
     sv_fails = (\<lambda>_. False), sv_between = id\<rparr>"

lemma sample_cookie: "cookie_session_id (RawURLEncoding_Encode sample_id) = Some sample_id"
  by (simp add: cookie_session_id_def b64_roundtrip sample_id_def)

lemma sample_runs:
  "\<exists>u s t'. SessionMiddleware sample_session_env [User_zero\<lparr>us_ID := 7\<rparr>] (Some (RawURLEncoding_Encode sample_id)) [sample_session] =
     (Authenticated u s, t')"
  unfolding SessionMiddleware_def option.case sample_cookie
  by (simp add: sample_session_env_def Session_GetByID_def sample_session_def sessionLive_def refresh_due_def
      refreshSession_def reread_def persist_def UpdateTokens_def update_session_def set_tokens_def attach_user_def Let_def GetByID_def)

theorem session_identity_sound_witness:
  "\<exists>u s t'. SessionMiddleware sample_session_env [User_zero\<lparr>us_ID := 7\<rparr>] (Some (RawURLEncoding_Encode sample_id)) [sample_session] =
       (Authenticated u s, t') \<and> same_session sample_session s \<and>
     CSRFMiddleware ''POST'' (RawURLEncoding_Encode (replicate 32 (CHR ''c''))) (Some s) = None"
proof -
  obtain u s t' where run: "SessionMiddleware sample_session_env [User_zero\<lparr>us_ID := 7\<rparr>] (Some (RawURLEncoding_Encode sample_id)) [sample_session] =
     (Authenticated u s, t')" using sample_runs by blast
  have "sessions_ok [sample_session]" "(stmt {})\<^sup>*\<^sup>* [sample_session] (sv_between sample_session_env [sample_session])"
    "ss_ID ` set [sample_session] \<inter> {} = {}" by (simp_all add: sessions_ok_def sample_session_env_def)
  from session_identity_sound [OF run this] obtain s0 where "s0 \<in> set [sample_session]" "same_session s0 s"
    and csrf: "\<forall>meth header. CSRFMiddleware meth header (Some s) = None \<longleftrightarrow>
       safe_method meth \<or> header \<noteq> [] \<and> header = RawURLEncoding_Encode (ss_CSRFToken s0)" by blast
  moreover have "RawURLEncoding_Encode (replicate 32 (CHR ''c'')) \<noteq> []" by (intro b64_nonempty) simp
  ultimately show ?thesis using run by (auto simp: sample_session_def)
qed

section \<open>What the middleware does not promise\<close>

text \<open>
  When the identity provider refuses the refresh, the request does not go on anonymously: the next
  handler is not called and the response is empty.
\<close>

lemma refresh_refused_stops:
  "fst (SessionMiddleware (sample_session_env\<lparr>sv_Refresh := (\<lambda>_. Inl ''invalid_grant'')\<rparr>) users
     (Some (RawURLEncoding_Encode sample_id)) [sample_session]) = Stopped True"
  unfolding SessionMiddleware_def option.case sample_cookie
  by (simp add: sample_session_env_def Session_GetByID_def sample_session_def sessionLive_def refresh_due_def
      refreshSession_def reread_def persist_def)

text \<open>
  The row read again under the lock is not checked for a revocation: a session that is revoked while the
  request waits is still refreshed, and the request is authenticated.
\<close>

lemma revoked_while_waiting:
  "\<exists>u s t'. SessionMiddleware (sample_session_env\<lparr>sv_between := Revoke 20 sample_id\<rparr>) [User_zero\<lparr>us_ID := 7\<rparr>]
     (Some (RawURLEncoding_Encode sample_id)) [sample_session] = (Authenticated u s, t') \<and> ss_RevokedAt s \<noteq> None"
  unfolding SessionMiddleware_def option.case sample_cookie
  by (simp add: sample_session_env_def Session_GetByID_def sample_session_def sessionLive_def refresh_due_def Revoke_def revoke_row_def
      refreshSession_def reread_def persist_def UpdateTokens_def update_session_def set_tokens_def attach_user_def Let_def GetByID_def)

end
