(* ===== verification/BFFHandlers.thy ===== *)
theory BFFHandlers
  imports Sessions RateLimitTiers
begin

text \<open>
  The login, registration, callback and logout handlers of \<open>src/internal/auth/bff/handlers.go\<close>, the
  state cookie they pass to each other, and the bridge to the user table in \<open>src/cmd/minerals/serve.go\<close>.
  The OAuth client is an argument, as are the parsers of network addresses.
\<close>

section \<open>The return path\<close>

text \<open>
  \<open>url.Parse\<close> on a text that starts with a single slash: no scheme and no host; it fails on control
  characters before the fragment and on broken percent escapes in the path or the fragment.
\<close>

fun pct_ok :: "string \<Rightarrow> bool" where
  "pct_ok [] = True"
| "pct_ok (c # cs) =
     (if c = CHR ''%'' then (case cs of a # b # _ \<Rightarrow> hex_val a \<noteq> None \<and> hex_val b \<noteq> None | _ \<Rightarrow> False) \<and> pct_ok cs else pct_ok cs)"

definition is_ctl :: "char \<Rightarrow> bool" where
  "is_ctl c \<longleftrightarrow> (of_char c :: nat) < 32 \<or> (of_char c :: nat) = 127"

definition url_path_ok :: "string \<Rightarrow> bool" where
  "url_path_ok raw \<longleftrightarrow>
     (let u = takeWhile (\<lambda>c. c \<noteq> CHR ''#'') raw; frag = drop 1 (dropWhile (\<lambda>c. c \<noteq> CHR ''#'') raw);
          path = takeWhile (\<lambda>c. c \<noteq> CHR ''?'') u
      in \<not> (\<exists>c\<in>set u. is_ctl c) \<and> pct_ok path \<and> pct_ok frag)"

definition validateReturnTo :: "string \<Rightarrow> string" where
  "validateReturnTo raw =
     (if raw = [] then []
      else if \<not> hasPrefix raw ''/'' \<or> hasPrefix raw ''//'' then []
      else if CHR 0x0D \<in> set raw \<or> CHR 0x0A \<in> set raw then []
      else if \<not> url_path_ok raw then []
      else raw)"

section \<open>The ID token\<close>

text \<open>\<open>base64.URLEncoding\<close>: the padded form.\<close>

definition URLEncoding_Decode :: "string \<Rightarrow> string option" where
  "URLEncoding_Decode s =
     (let t = filter (\<lambda>c. c \<noteq> CHR 0x0A \<and> c \<noteq> CHR 0x0D) s;
          body = takeWhile (\<lambda>c. c \<noteq> CHR ''='') t; pad = dropWhile (\<lambda>c. c \<noteq> CHR ''='') t
      in if length t mod 4 = 0 \<and> (pad = [] \<or> pad = ''='' \<or> pad = ''=='') then RawURLEncoding_Decode body else None)"

definition claimsFromIDToken :: "string \<Rightarrow> (string \<times> string) option" where
  "claimsFromIDToken idToken =
     (case split_on (CHR ''.'') idToken of
        [_, p, _] \<Rightarrow>
          (case (case RawURLEncoding_Decode p of Some raw \<Rightarrow> Some raw | None \<Rightarrow> URLEncoding_Decode p) of
             None \<Rightarrow> None
           | Some payload \<Rightarrow>
               (case unmarshal_struct (\<lambda>kvs. case (decode_field dec_string [] ''sub'' kvs, decode_field dec_string [] ''email'' kvs) of
                       (Some sub, Some email) \<Rightarrow> Some (sub, email) | _ \<Rightarrow> None) payload of
                  None \<Rightarrow> None
                | Some (sub, email) \<Rightarrow> if sub = [] then None else Some (sub, email)))
      | _ \<Rightarrow> None)"

section \<open>Configuration\<close>

record HandlerConfig =
  hc_RedirectURI :: string
  hc_PostLogoutRedirectURI :: string
  hc_StateHMACKey :: string
  hc_SessionAbsoluteMax :: time
  hc_Cookie :: CookieConfig
  hc_StateCookieSecure :: bool
  hc_RegistrationEnabled :: bool
  hc_EnforceCSRFOnLogout :: bool
  hc_TrustForwardedFor :: bool

text \<open>The OAuth client, the resolver of users, and what one request meets: clock, randomness, driver failures.\<close>

record OAuthClient =
  oc_AuthCodeURL :: "string \<Rightarrow> string \<Rightarrow> string"
  oc_RegisterURL :: "string \<Rightarrow> string \<Rightarrow> string"
  oc_Exchange :: "string \<Rightarrow> string \<Rightarrow> string + TokenSet"
  oc_EndSessionURL :: "string \<Rightarrow> string \<Rightarrow> string"

record handler_env =
  he_mac :: mac
  he_OAuth :: OAuthClient
  he_Users :: "string \<Rightarrow> string \<Rightarrow> users \<Rightarrow> (repo_error + uuid) \<times> users"
  he_now :: time
  he_dbnow :: time
  he_randState :: "string option"
  he_randID :: "string option"
  he_randCSRF :: "string option"
  he_fails :: "session_op \<Rightarrow> bool"
  he_ParseAddr :: "string \<Rightarrow> string option"

datatype config_error = RedirectURIRequired | StateHMACKeyTooShort | SessionAbsoluteMaxNotPositive | CookiePathRequired

text \<open>The checks of the constructor; the collaborators are there by type.\<close>

definition NewHandlers :: "HandlerConfig \<Rightarrow> config_error + HandlerConfig" where
  "NewHandlers cfg =
     (if hc_RedirectURI cfg = [] then Inl RedirectURIRequired
      else if length (hc_StateHMACKey cfg) < minStateHMACKeyLen then Inl StateHMACKeyTooShort
      else if hc_SessionAbsoluteMax cfg \<le> 0 then Inl SessionAbsoluteMaxNotPositive
      else if cc_Path (hc_Cookie cfg) = [] then Inl CookiePathRequired
      else Inr cfg)"

definition registrationGate :: "repo_error + (bool \<times> bool) \<Rightarrow> bool \<Rightarrow> bool" where
  "registrationGate setting def = (case setting of Inl _ \<Rightarrow> def | Inr (enabled, found) \<Rightarrow> if found then enabled else def)"

definition bffUserResolver ::
  "'s UserRepo \<Rightarrow> 's surroundings \<Rightarrow> string \<Rightarrow> string \<Rightarrow> 's \<Rightarrow> (repo_error + uuid) \<times> 's" where
  "bffUserResolver R w sub email s =
     (case resolveOrCreateUser R w s (auth_User_zero\<lparr>u_Sub := sub, u_Email := email\<rparr>) of
        (Inl e, s') \<Rightarrow> (Inl e, s') | (Inr row, s') \<Rightarrow> (Inr (us_ID row), s'))"

section \<open>Responses\<close>

datatype auth_body = Redirect302 string | AuthError apiError | NotFound404 | LogoutOK | NoContent204

record auth_reply =
  ar_Body :: auth_body
  ar_Cookies :: "Cookie list"

definition StateCookieName :: string where
  "StateCookieName = ''minerals_oauth_state''"

definition SetStateCookie :: "string \<Rightarrow> bool \<Rightarrow> Cookie" where
  "SetStateCookie v secure =
     \<lparr>ck_Name = StateCookieName, ck_Value = v, ck_Path = ''/auth'', ck_HttpOnly = True, ck_Secure = secure,
      ck_SameSite = ''Lax'', ck_MaxAge = whole_seconds StateTTL\<rparr>"

definition ClearStateCookie :: "bool \<Rightarrow> Cookie" where
  "ClearStateCookie secure =
     \<lparr>ck_Name = StateCookieName, ck_Value = [], ck_Path = ''/auth'', ck_HttpOnly = True, ck_Secure = secure,
      ck_SameSite = ''Lax'', ck_MaxAge = - 1\<rparr>"

definition writeAuthError :: "nat \<Rightarrow> string \<Rightarrow> string \<Rightarrow> Cookie list \<Rightarrow> auth_reply" where
  "writeAuthError status code msg cookies = \<lparr>ar_Body = AuthError (newAPIError status code msg []), ar_Cookies = cookies\<rparr>"

section \<open>Login\<close>

text \<open>\<open>NewStateToken\<close>: base64 of 32 random bytes.\<close>

definition NewStateToken :: "string option \<Rightarrow> string option" where
  "NewStateToken rand = map_option RawURLEncoding_Encode rand"

definition start_flow :: "HandlerConfig \<Rightarrow> handler_env \<Rightarrow> (string \<Rightarrow> string \<Rightarrow> string) \<Rightarrow> string \<Rightarrow> string \<Rightarrow> auth_reply" where
  "start_flow cfg env url failed rawReturnTo =
     (let returnTo = validateReturnTo rawReturnTo in
      case NewStateToken (he_randState env) of
        None \<Rightarrow> writeAuthError 500 ''internal_error'' failed []
      | Some state \<Rightarrow>
          (case SignState (he_mac env) (hc_StateHMACKey cfg)
                  \<lparr>sd_State = state, sd_ReturnTo = returnTo, sd_Expires = he_now env + StateTTL\<rparr> of
             Inl _ \<Rightarrow> writeAuthError 500 ''internal_error'' failed []
           | Inr cookie \<Rightarrow> \<lparr>ar_Body = Redirect302 (url state (hc_RedirectURI cfg)),
                            ar_Cookies = [SetStateCookie cookie (hc_StateCookieSecure cfg)]\<rparr>))"

definition Login :: "HandlerConfig \<Rightarrow> handler_env \<Rightarrow> string \<Rightarrow> auth_reply" where
  "Login cfg env rawReturnTo = start_flow cfg env (oc_AuthCodeURL (he_OAuth env)) ''login init failed'' rawReturnTo"

definition registrationEnabled :: "HandlerConfig \<Rightarrow> bool option \<Rightarrow> bool" where
  "registrationEnabled cfg gate = (case gate of Some b \<Rightarrow> b | None \<Rightarrow> hc_RegistrationEnabled cfg)"

definition Register :: "HandlerConfig \<Rightarrow> handler_env \<Rightarrow> bool option \<Rightarrow> string \<Rightarrow> auth_reply" where
  "Register cfg env gate rawReturnTo =
     (if \<not> registrationEnabled cfg gate then \<lparr>ar_Body = NotFound404, ar_Cookies = []\<rparr>
      else start_flow cfg env (oc_RegisterURL (he_OAuth env)) ''register init failed'' rawReturnTo)"

section \<open>Callback\<close>

record callback_request =
  cr_Error :: string
  cr_State :: string
  cr_Code :: string
  cr_StateCookie :: "string option"
  cr_ForwardedFor :: string
  cr_RemoteAddr :: string
  cr_UserAgent :: string

definition bff_clientIP :: "(string \<Rightarrow> string option) \<Rightarrow> callback_request \<Rightarrow> bool \<Rightarrow> string option" where
  "bff_clientIP parse r trustForwarded =
     (let h = cr_ForwardedFor r;
          first = (if CHR '','' \<in> set h then trimSpace (takeWhile (\<lambda>c. c \<noteq> CHR '','') h) else h);
          remote = parse (case splitHostPort (cr_RemoteAddr r) of None \<Rightarrow> cr_RemoteAddr r | Some (host, _) \<Rightarrow> host)
      in if trustForwarded \<and> h \<noteq> [] then (case parse first of Some a \<Rightarrow> Some a | None \<Rightarrow> remote) else remote)"

definition session_params :: "HandlerConfig \<Rightarrow> handler_env \<Rightarrow> callback_request \<Rightarrow> TokenSet \<Rightarrow> string \<Rightarrow> uuid \<Rightarrow> CreateParams" where
  "session_params cfg env r k sub uid =
     \<lparr>cp_UserSub = sub, cp_UserID = uid, cp_AccessToken = tk_AccessToken k, cp_RefreshToken = tk_RefreshToken k,
      cp_IDToken = tk_IDToken k, cp_AccessTokenExpiresAt = tk_AccessTokenExpiresAt k,
      cp_RefreshTokenExpiresAt = tk_RefreshTokenExpiresAt k, cp_AbsoluteExpiresAt = he_now env + hc_SessionAbsoluteMax cfg,
      cp_IP = bff_clientIP (he_ParseAddr env) r (hc_TrustForwardedFor cfg), cp_UserAgent = cr_UserAgent r\<rparr>"

definition Callback :: "HandlerConfig \<Rightarrow> handler_env \<Rightarrow> callback_request \<Rightarrow> users \<Rightarrow> sessions \<Rightarrow> auth_reply \<times> users \<times> sessions" where
  "Callback cfg env r users t =
     (let clear = ClearStateCookie (hc_StateCookieSecure cfg);
          fail = (\<lambda>status code msg. (writeAuthError status code msg [clear], users, t)) in
      if cr_Error r \<noteq> [] then fail 400 ''oauth_error'' ''Authentication failed at the identity provider. Please try again.''
      else case cr_StateCookie r of
        None \<Rightarrow> (writeAuthError 400 ''invalid_state'' ''missing state cookie'' [], users, t)
      | Some v \<Rightarrow>
          (case VerifyState (he_mac env) (hc_StateHMACKey cfg) v (he_now env) of
             Inl _ \<Rightarrow> fail 400 ''invalid_state'' ''invalid state cookie''
           | Inr sd \<Rightarrow>
               if cr_State r \<noteq> sd_State sd then fail 400 ''invalid_state'' ''state mismatch''
               else if cr_Code r = [] then fail 400 ''invalid_request'' ''missing code''
               else (case oc_Exchange (he_OAuth env) (cr_Code r) (hc_RedirectURI cfg) of
                  Inl _ \<Rightarrow> fail 502 ''exchange_failed'' ''Authentication failed. Please try again.''
                | Inr tokens \<Rightarrow>
                    (case claimsFromIDToken (tk_IDToken tokens) of
                       None \<Rightarrow> fail 502 ''invalid_id_token'' ''Authentication failed. Please try again.''
                     | Some (sub, email) \<Rightarrow>
                         (case he_Users env sub email users of
                            (Inl _, users') \<Rightarrow>
                              (writeAuthError 500 ''internal_error'' ''user resolve failed'' [clear], users', t)
                          | (Inr uid, users') \<Rightarrow>
                              (case Session_Create (he_randID env) (he_randCSRF env) (he_dbnow env)
                                      (session_params cfg env r tokens sub uid) t of
                                 Inl _ \<Rightarrow>
                                   (writeAuthError 500 ''internal_error'' ''session create failed'' [clear], users', t)
                               | Inr (sess, t') \<Rightarrow>
                                   (\<lparr>ar_Body = Redirect302 (if sd_ReturnTo sd = [] then ''/'' else sd_ReturnTo sd),
                                     ar_Cookies = [SetSessionCookie (ss_ID sess) (hc_Cookie cfg), clear]\<rparr>, users', t')))))))"

section \<open>Logout\<close>

definition Logout :: "HandlerConfig \<Rightarrow> handler_env \<Rightarrow> string option \<Rightarrow> string \<Rightarrow> sessions \<Rightarrow> auth_reply \<times> sessions" where
  "Logout cfg env cookie header t =
     (let clear = ClearSessionCookie (hc_Cookie cfg); ok = (\<lambda>cookies. (\<lparr>ar_Body = LogoutOK, ar_Cookies = cookies\<rparr>, t)) in
      case cookie of
        None \<Rightarrow> ok []
      | Some v \<Rightarrow>
          (case cookie_session_id v of
             None \<Rightarrow> ok [clear]
           | Some i \<Rightarrow>
               (case if he_fails env OpLookup then Inl (SessionDriver ''lookup'') else Session_GetByID t i of
                  Inl ErrSessionNotFound \<Rightarrow> ok [clear]
                | Inl (SessionDriver _) \<Rightarrow> (writeAuthError 500 ''internal_error'' ''logout failed'' [], t)
                | Inr sess \<Rightarrow>
                    if hc_EnforceCSRFOnLogout cfg \<and> header = []
                    then (writeAuthError 403 ''csrf_missing'' ''CSRF token required'' [], t)
                    else if hc_EnforceCSRFOnLogout cfg \<and> header \<noteq> RawURLEncoding_Encode (ss_CSRFToken sess)
                    then (writeAuthError 403 ''csrf_mismatch'' ''CSRF token does not match'' [], t)
                    else if he_fails env OpRevoke then (writeAuthError 500 ''internal_error'' ''logout failed'' [], t)
                    else (\<lparr>ar_Body =
                             (if hc_PostLogoutRedirectURI cfg = [] then NoContent204
                              else let endURL = oc_EndSessionURL (he_OAuth env) (ss_IDToken sess) (hc_PostLogoutRedirectURI cfg)
                                   in Redirect302 (if endURL \<noteq> [] then endURL else hc_PostLogoutRedirectURI cfg)),
                           ar_Cookies = [clear]\<rparr>, Revoke (he_dbnow env) i t))))"

section \<open>Logout\<close>

lemma Logout_done:
  assumes "Logout cfg env (Some v) header t = (r, t1)" and "\<nexists>e. ar_Body r = AuthError e"
  shows "ar_Cookies r = [ClearSessionCookie (hc_Cookie cfg)] \<and>
    (case cookie_session_id v of None \<Rightarrow> t1 = t
     | Some i \<Rightarrow> dead i t1 \<and> (t1 = t \<or> t1 = Revoke (he_dbnow env) i t))"
proof (cases "cookie_session_id v")
  case None
  then show ?thesis using assms(1) by (auto simp: Logout_def Let_def)
next
  case (Some i)
  show ?thesis
  proof (cases "if he_fails env OpLookup then Inl (SessionDriver ''lookup'') else Session_GetByID t i")
    case (Inl e)
    show ?thesis
    proof (cases e)
      case ErrSessionNotFound
      then have "dead i t" using Inl by (auto simp: dead_def Session_GetByID_def find_None_iff split: if_splits option.splits)
      then show ?thesis using assms(1) Some Inl ErrSessionNotFound by (auto simp: Logout_def Let_def)
    next
      case (SessionDriver m)
      then show ?thesis using assms Some Inl by (auto simp: Logout_def Let_def writeAuthError_def)
    qed
  next
    case (Inr sess)
    then show ?thesis using assms Some Revoke_dead
      by (auto simp: Logout_def Let_def writeAuthError_def split: if_splits)
  qed
qed

lemma Revoke_others: "s \<in> set t \<Longrightarrow> ss_ID s \<noteq> i \<Longrightarrow> s \<in> set (Revoke now i t)"
  unfolding Revoke_def update_session_def by force

text \<open>
  C14. Logging out is final: after an answer other than an error the browser is told to drop the cookie,
  every other session is as before, and no later request with that cookie is authenticated, whatever the
  server does to the table in the meantime and under every clock and configuration, as long as no new
  session draws the same 32 random bytes.
\<close>

theorem logout_is_final:
  assumes "Logout cfg env (Some v) header t = (r, t1)" and "\<nexists>e. ar_Body r = AuthError e"
    and "(stmt new)\<^sup>*\<^sup>* t1 t2" and "cookie_session_id v \<notin> Some ` new"
  shows "ar_Cookies r = [ClearSessionCookie (hc_Cookie cfg)] \<and>
    (\<forall>s\<in>set t. cookie_session_id v \<noteq> Some (ss_ID s) \<longrightarrow> s \<in> set t1) \<and>
    (\<forall>env' users. \<nexists>u s. fst (SessionMiddleware env' users (Some v) t2) = Authenticated u s)"
proof (cases "cookie_session_id v")
  case None
  then show ?thesis using Logout_done [OF assms(1,2)] by (simp add: SessionMiddleware_def)
next
  case (Some i)
  have i: "i \<notin> new" using Some assms(4) by auto
  note out = Logout_done [OF assms(1,2), unfolded Some option.case]
  have "dead i t2" using dead_stays [OF stmts_keeps [OF assms(3)] i] out by blast
  moreover have "\<forall>s\<in>set t. cookie_session_id v \<noteq> Some (ss_ID s) \<longrightarrow> s \<in> set t1"
    using out Revoke_others Some by fastforce
  ultimately show ?thesis using out dead_anonymous [OF _ Some] by blast
qed

definition sample_config :: HandlerConfig where
  "sample_config = \<lparr>hc_RedirectURI = ''https://h/auth/callback'', hc_PostLogoutRedirectURI = [], hc_StateHMACKey = replicate 32 (CHR ''k''),
     hc_SessionAbsoluteMax = 1000, hc_Cookie = \<lparr>cc_Path = ''/'', cc_Secure = True, cc_SameSite = ''Lax'', cc_MaxAge = 5000000000\<rparr>,
     hc_StateCookieSecure = True, hc_RegistrationEnabled = True, hc_EnforceCSRFOnLogout = False, hc_TrustForwardedFor = False\<rparr>"

definition sample_tokens :: TokenSet where
  "sample_tokens = \<lparr>tk_AccessToken = ''a'', tk_RefreshToken = ''r'',
     tk_IDToken = ''h.'' @ RawURLEncoding_Encode (json_print (JObj [(''sub'', JStr ''sub-1'')])) @ ''.s'',
     tk_AccessTokenExpiresAt = 500, tk_RefreshTokenExpiresAt = 900\<rparr>"

definition sample_handler_env :: handler_env where
  "sample_handler_env = \<lparr>he_mac = (\<lambda>k p. k @ p), he_OAuth = \<lparr>oc_AuthCodeURL = (\<lambda>s u. u @ s), oc_RegisterURL = (\<lambda>s u. u @ s),
       oc_Exchange = (\<lambda>_ _. Inr sample_tokens), oc_EndSessionURL = (\<lambda>_ _. [])\<rparr>,
     he_Users = bffUserResolver UserPostgres \<lparr>sr_env1 = id, sr_env2 = id, sr_NewID = 7, sr_Now = 0\<rparr>,
     he_now = 0, he_dbnow = 0, he_randState = Some ''rnd'', he_randID = Some sample_id, he_randCSRF = Some (replicate 32 (CHR ''c'')),
     he_fails = (\<lambda>_. False), he_ParseAddr = (\<lambda>_. None)\<rparr>"

theorem logout_is_final_witness:
  "\<nexists>u s. fst (SessionMiddleware sample_session_env [] (Some (RawURLEncoding_Encode sample_id))
     (snd (Logout sample_config sample_handler_env (Some (RawURLEncoding_Encode sample_id)) [] [sample_session]))) = Authenticated u s"
proof -
  let ?out = "Logout sample_config sample_handler_env (Some (RawURLEncoding_Encode sample_id)) [] [sample_session]"
  have "Session_GetByID [sample_session] sample_id = Inr sample_session" by (simp add: Session_GetByID_def sample_session_def)
  then have "ar_Body (fst ?out) = NoContent204"
    unfolding Logout_def Let_def option.case sample_cookie by (simp add: sample_handler_env_def sample_config_def)
  then have "\<nexists>e. ar_Body (fst ?out) = AuthError e" by simp
  from logout_is_final [OF surjective_pairing this rtranclp.rtrancl_refl, of "{}"] show ?thesis by simp
qed

section \<open>Login\<close>

lemma Callback_logs_in:
  assumes "cr_Error r = []" and "cr_StateCookie r = Some v"
    and "VerifyState (he_mac env) (hc_StateHMACKey cfg) v (he_now env) = Inr sd" and "cr_State r = sd_State sd" and "cr_Code r \<noteq> []"
    and "oc_Exchange (he_OAuth env) (cr_Code r) (hc_RedirectURI cfg) = Inr tokens" and "claimsFromIDToken (tk_IDToken tokens) = Some (sub, email)"
    and "he_Users env sub email users = (Inr uid, users')"
    and "Session_Create (he_randID env) (he_randCSRF env) (he_dbnow env) (session_params cfg env r tokens sub uid) t = Inr (sess, t')"
  shows "Callback cfg env r users t =
    (\<lparr>ar_Body = Redirect302 (if sd_ReturnTo sd = [] then ''/'' else sd_ReturnTo sd),
      ar_Cookies = [SetSessionCookie (ss_ID sess) (hc_Cookie cfg), ClearStateCookie (hc_StateCookieSecure cfg)]\<rparr>, users', t')"
  using assms by (simp add: Callback_def Let_def)

lemma Callback_stale:
  assumes "cr_Error r = []" and "cr_StateCookie r = Some v"
    and "VerifyState (he_mac env) (hc_StateHMACKey cfg) v (he_now env) = Inl e"
  shows "Callback cfg env r users t =
    (writeAuthError 400 ''invalid_state'' ''invalid state cookie'' [ClearStateCookie (hc_StateCookieSecure cfg)], users, t)"
  using assms by (simp add: Callback_def Let_def)

lemma Login_cookie:
  assumes "Login cfg env raw = reply" and "he_randState env = Some rnd" and "32 \<le> length (hc_StateHMACKey cfg)"
    and "length (RawURLEncoding_Encode rnd) \<le> 0xFFFF" and "length raw \<le> 0xFFFF"
  shows "\<exists>v. SignState (he_mac env) (hc_StateHMACKey cfg)
      \<lparr>sd_State = RawURLEncoding_Encode rnd, sd_ReturnTo = validateReturnTo raw, sd_Expires = he_now env + StateTTL\<rparr> = Inr v \<and>
    reply = \<lparr>ar_Body = Redirect302 (oc_AuthCodeURL (he_OAuth env) (RawURLEncoding_Encode rnd) (hc_RedirectURI cfg)),
             ar_Cookies = [SetStateCookie v (hc_StateCookieSecure cfg)]\<rparr>"
proof -
  let ?d = "\<lparr>sd_State = RawURLEncoding_Encode rnd, sd_ReturnTo = validateReturnTo raw, sd_Expires = he_now env + StateTTL\<rparr>"
  have "length (validateReturnTo raw) \<le> 0xFFFF" using assms(5) by (simp add: validateReturnTo_def)
  then have "\<not> isl (SignState (he_mac env) (hc_StateHMACKey cfg) ?d)" using assms(3,4) by (simp add: SignState_error)
  then obtain v where v: "SignState (he_mac env) (hc_StateHMACKey cfg) ?d = Inr v"
    by (cases "SignState (he_mac env) (hc_StateHMACKey cfg) ?d") simp_all
  then show ?thesis using assms(1,2) by (auto simp: Login_def start_flow_def NewStateToken_def Let_def)
qed

text \<open>What a fresh session gives.\<close>

lemma fresh_session_live:
  assumes "SessionMiddleware sv users cookie t = res" and "cookie = Some (RawURLEncoding_Encode (ss_ID s))" and "length (ss_ID s) = 32"
    and "sessions_ok t" and "s \<in> set t" and "sessionLive s (sv_now sv) (sv_IdleTimeout sv)" and "\<not> refresh_due sv (sv_now sv) s"
    and "sv_fails sv = (\<lambda>_. False)" and "GetByID users (ss_UserID s) = Inr row"
  shows "\<exists>t'. res = (Authenticated (session_user s row) s, t')"
proof -
  have "cookie_session_id (RawURLEncoding_Encode (ss_ID s)) = Some (ss_ID s)"
    using assms(3) by (simp add: cookie_session_id_def b64_roundtrip)
  moreover have "Session_GetByID t (ss_ID s) = Inr s" using get_session_iff [OF assms(4)] assms(5) by simp
  ultimately show ?thesis using assms by (auto simp: SessionMiddleware_def attach_user_def Let_def)
qed

text \<open>
  C15. Logging in works: the state cookie that \<open>Login\<close> sets, brought back with its state and a code
  within five minutes, makes \<open>Callback\<close> create one session for the account of the token's subject and
  redirect to the checked return path with the session cookie; with that cookie the middleware then
  authenticates the account for as long as the session lives. After the five minutes the same request
  is refused and changes nothing.
\<close>

theorem login_flow:
  assumes config: "NewHandlers cfg = Inr cfg" and rnd: "he_randState env1 = Some rnd" "length (RawURLEncoding_Encode rnd) \<le> 0xFFFF"
    and raw: "length raw \<le> 0xFFFF" and range: "- (2 ^ 63) \<le> he_now env1 + StateTTL" "he_now env1 + StateTTL < 2 ^ 63"
    and mac: "he_mac env2 = he_mac env1"
    and req: "cr_Error r = []" "cr_State r = RawURLEncoding_Encode rnd" "cr_Code r \<noteq> []"
      "map Some (map ck_Value (ar_Cookies (Login cfg env1 raw))) = [cr_StateCookie r]"
    and idp: "oc_Exchange (he_OAuth env2) (cr_Code r) (hc_RedirectURI cfg) = Inr tokens"
      "claimsFromIDToken (tk_IDToken tokens) = Some (sub, email)"
    and user: "he_Users env2 sub email users = (Inr uid, users')" "GetByID users' uid = Inr row"
    and store: "he_randID env2 = Some i" "length i = 32" "i \<notin> ss_ID ` set t" "he_randCSRF env2 = Some csrf" "sessions_ok t"
  shows "if he_now env2 \<le> he_now env1 + StateTTL
    then \<exists>sess. Callback cfg env2 r users t =
        (\<lparr>ar_Body = Redirect302 (if validateReturnTo raw = [] then ''/'' else validateReturnTo raw),
          ar_Cookies = [SetSessionCookie i (hc_Cookie cfg), ClearStateCookie (hc_StateCookieSecure cfg)]\<rparr>, users', t @ [sess]) \<and>
      ss_ID sess = i \<and> ss_UserID sess = uid \<and> ss_UserSub sess = sub \<and>
      ss_AbsoluteExpiresAt sess = he_now env2 + hc_SessionAbsoluteMax cfg \<and>
      (\<forall>sv. sv_fails sv = (\<lambda>_. False) \<and> sessionLive sess (sv_now sv) (sv_IdleTimeout sv) \<and> \<not> refresh_due sv (sv_now sv) sess \<longrightarrow>
         fst (SessionMiddleware sv users' (Some (ck_Value (SetSessionCookie i (hc_Cookie cfg)))) (t @ [sess])) =
           Authenticated (session_user sess row) sess)
    else fst (Callback cfg env2 r users t) =
        writeAuthError 400 ''invalid_state'' ''invalid state cookie'' [ClearStateCookie (hc_StateCookieSecure cfg)] \<and>
      snd (Callback cfg env2 r users t) = (users, t)"
proof -
  let ?d = "\<lparr>sd_State = RawURLEncoding_Encode rnd, sd_ReturnTo = validateReturnTo raw, sd_Expires = he_now env1 + StateTTL\<rparr>"
  have key: "32 \<le> length (hc_StateHMACKey cfg)"
    using config by (auto simp: NewHandlers_def minStateHMACKeyLen_def split: if_splits)
  obtain v where v: "SignState (he_mac env1) (hc_StateHMACKey cfg) ?d = Inr v" "cr_StateCookie r = Some v"
    using Login_cookie [OF refl rnd(1) key rnd(2) raw] req(4) by (auto simp: SetStateCookie_def)
  have verify: "VerifyState (he_mac env2) (hc_StateHMACKey cfg) v (he_now env2) =
      (if he_now env2 > he_now env1 + StateTTL then Inl ErrStateInvalid else Inr ?d)"
    using sign_verify [OF v(1)] range by (simp add: mac)
  obtain sess where create: "Session_Create (he_randID env2) (he_randCSRF env2) (he_dbnow env2) (session_params cfg env2 r tokens sub uid) t =
      Inr (sess, t @ [sess])"
    and sess: "ss_ID sess = i" "ss_UserID sess = uid" "ss_UserSub sess = sub" "ss_AbsoluteExpiresAt sess = he_now env2 + hc_SessionAbsoluteMax cfg"
    using store by (auto simp: Session_Create_def Let_def session_params_def)
  show ?thesis
  proof (cases "he_now env2 \<le> he_now env1 + StateTTL")
    case False
    then show ?thesis using Callback_stale [OF req(1) v(2)] verify by simp
  next
    case True
    then have "VerifyState (he_mac env2) (hc_StateHMACKey cfg) v (he_now env2) = Inr ?d" using verify by simp
    note run = Callback_logs_in [OF req(1) v(2) this _ req(3) idp user(1) create]
    have ok: "sessions_ok (t @ [sess])" using store(3,5) sess(1) by (simp add: sessions_ok_def)
    have live: "fst (SessionMiddleware sv users' (Some (ck_Value (SetSessionCookie i (hc_Cookie cfg)))) (t @ [sess])) =
        Authenticated (session_user sess row) sess"
      if "sv_fails sv = (\<lambda>_. False)" "sessionLive sess (sv_now sv) (sv_IdleTimeout sv)" "\<not> refresh_due sv (sv_now sv) sess" for sv
      using fresh_session_live [OF refl _ _ ok _ that(2,3,1), of "Some (ck_Value (SetSessionCookie i (hc_Cookie cfg)))" users' row] sess store(2) user(2)
      by (auto simp: SetSessionCookie_def)
    show ?thesis
      unfolding if_P [OF True] using run sess live req(2) by (intro exI [of _ sess]) simp
  qed
qed

lemma split_on_piece: "c \<notin> set a \<Longrightarrow> split_on c (a @ c # b) = a # split_on c b"
  by (induction a) auto

lemma split_on_last: "c \<notin> set a \<Longrightarrow> split_on c a = [a]"
  by (induction a) auto

lemma sample_claims: "claimsFromIDToken (tk_IDToken sample_tokens) = Some (''sub-1'', [])"
proof -
  let ?j = "JObj [(''sub'', JStr ''sub-1'')]"
  let ?p = "RawURLEncoding_Encode (json_print ?j)"
  have "split_on (CHR ''.'') (''h'' @ CHR ''.'' # ?p @ CHR ''.'' # ''s'') = [''h'', ?p, ''s'']"
    using split_on_piece [of "CHR ''.''" "''h''" "?p @ CHR ''.'' # ''s''"] split_on_piece [OF b64_no_dot, of "json_print ?j" "''s''"] by simp
  then have split: "split_on (CHR ''.'') (tk_IDToken sample_tokens) = [''h'', ?p, ''s'']" by (simp add: sample_tokens_def)
  have "json_parse (json_print ?j) = Some ?j" by (rule json_parse_print) simp
  then show ?thesis
    unfolding claimsFromIDToken_def split
    by (simp add: b64_roundtrip unmarshal_struct_def decode_field_simps name_matches_def dec_string_def lower_ascii_def Let_def)
qed

definition sample_callback :: callback_request where
  "sample_callback = \<lparr>cr_Error = [], cr_State = RawURLEncoding_Encode ''rnd'', cr_Code = ''c'',
     cr_StateCookie = Some (ck_Value (hd (ar_Cookies (Login sample_config sample_handler_env ''/a'')))),
     cr_ForwardedFor = [], cr_RemoteAddr = [], cr_UserAgent = []\<rparr>"

theorem login_flow_witness:
  "\<exists>sess. snd (snd (Callback sample_config sample_handler_env sample_callback [] [])) = [sess] \<and> ss_UserSub sess = ''sub-1'' \<and>
     ar_Body (fst (Callback sample_config sample_handler_env sample_callback [] [])) = Redirect302 ''/a''"
proof -
  have config: "NewHandlers sample_config = Inr sample_config"
    by (simp add: NewHandlers_def sample_config_def minStateHMACKeyLen_def)
  have rnd: "he_randState sample_handler_env = Some ''rnd''" "length (RawURLEncoding_Encode ''rnd'') \<le> 0xFFFF"
    "length ''/a'' \<le> 0xFFFF" "- (2 ^ 63) \<le> he_now sample_handler_env + StateTTL" "he_now sample_handler_env + StateTTL < 2 ^ 63"
    by (simp_all add: sample_handler_env_def StateTTL_def RawURLEncoding_Encode_def)
  have key: "32 \<le> length (hc_StateHMACKey sample_config)" by (simp add: sample_config_def)
  have req: "cr_Error sample_callback = []" "cr_State sample_callback = RawURLEncoding_Encode ''rnd''" "cr_Code sample_callback \<noteq> []"
    "map Some (map ck_Value (ar_Cookies (Login sample_config sample_handler_env ''/a''))) = [cr_StateCookie sample_callback]"
    using Login_cookie [OF refl rnd(1) key rnd(2,3)] by (auto simp: sample_callback_def)
  have idp: "oc_Exchange (he_OAuth sample_handler_env) (cr_Code sample_callback) (hc_RedirectURI sample_config) = Inr sample_tokens"
    by (simp add: sample_handler_env_def)
  have "\<exists>row users'. he_Users sample_handler_env ''sub-1'' [] [] = (Inr 7, users') \<and> GetByID users' 7 = Inr row"
    by (simp add: sample_handler_env_def bffUserResolver_def resolveOrCreateUser_def UserPostgres_def GetBySub_def Create_def freshUser_def GetByID_def Let_def)
  then obtain row users' where user: "he_Users sample_handler_env ''sub-1'' [] [] = (Inr 7, users')" "GetByID users' 7 = Inr row" by blast
  have store: "he_randID sample_handler_env = Some sample_id" "length sample_id = 32" "sample_id \<notin> ss_ID ` set []"
    "he_randCSRF sample_handler_env = Some (replicate 32 (CHR ''c''))" "sessions_ok []"
    by (simp_all add: sample_handler_env_def sample_id_def sessions_ok_def)
  have path: "validateReturnTo ''/a'' = ''/a''" by (simp add: validateReturnTo_def hasPrefix_def url_path_ok_def is_ctl_def Let_def)
  show ?thesis
    using login_flow [OF config rnd refl req idp sample_claims user store] by (auto simp: StateTTL_def path)
qed

section \<open>What the return path does not exclude\<close>

text \<open>A path that starts with a slash and a backslash is accepted; browsers read it like two slashes, as another host.\<close>

lemma backslash_return_path:
  "validateReturnTo (CHR ''/'' # CHR 0x5C # ''evil.example'') = CHR ''/'' # CHR 0x5C # ''evil.example''"
  by (simp add: validateReturnTo_def hasPrefix_def url_path_ok_def is_ctl_def Let_def)

end
