(* ===== verification/SessionRefresh.thy ===== *)
theory SessionRefresh
  imports Sessions
begin

text \<open>
  The refresh of one session under concurrent requests (\<open>refreshSession\<close> of
  \<open>src/internal/auth/bff/middleware.go\<close>): every request takes the session's mutex, reads the row again,
  calls the identity provider when the token is still about to expire, and persists the rotated tokens.
  The steps of the requests interleave freely, with their own clocks, driver failures and statements of
  other requests in between. The provider rotates: it answers with a refresh token it has never been sent.
\<close>

section \<open>Steps\<close>

datatype refresh_pc =
    Waiting
  | Locked
  | Calling Session
  | Persisting "string + TokenSet"
  | Finished "session_outcome + Session"

record refresh_state =
  rs_table :: sessions
  rs_lock :: "nat option"
  rs_pc :: "nat \<Rightarrow> refresh_pc"
  rs_sent :: "string list"

definition start :: "sessions \<Rightarrow> refresh_state" where
  "start t = \<lparr>rs_table = t, rs_lock = None, rs_pc = (\<lambda>_. Waiting), rs_sent = []\<rparr>"

text \<open>
  The parameters of a run: whether the provider and the token update succeed, the leeway, a time up to
  which it lasts (if any) and that the new access tokens outlive by the leeway, and the session.
\<close>

record refresh_run =
  rr_healthy :: bool
  rr_leeway :: time
  rr_until :: "time option"
  rr_id :: string

definition env_fits :: "refresh_run \<Rightarrow> session_env \<Rightarrow> bool" where
  "env_fits R env \<longleftrightarrow> sv_RefreshLeeway env = rr_leeway R \<and> (\<forall>h. rr_until R = Some h \<longrightarrow> sv_now2 env \<le> h) \<and>
     (rr_healthy R \<longrightarrow> \<not> sv_fails env OpUpdateTokens)"

definition answer_fits :: "refresh_run \<Rightarrow> string list \<Rightarrow> string + TokenSet \<Rightarrow> bool" where
  "answer_fits R sent answer \<longleftrightarrow>
     (case answer of
        Inl _ \<Rightarrow> \<not> rr_healthy R
      | Inr k \<Rightarrow> tk_RefreshToken k \<notin> set sent \<and> (\<forall>h. rr_until R = Some h \<longrightarrow> h \<le> tk_AccessTokenExpiresAt k - rr_leeway R))"

definition token_rows :: "string \<Rightarrow> sessions \<Rightarrow> (string \<times> time) set" where
  "token_rows i t = (\<lambda>s. (ss_RefreshToken s, ss_AccessTokenExpiresAt s)) ` {s \<in> set t. ss_ID s = i}"

inductive rstep :: "refresh_run \<Rightarrow> refresh_state \<Rightarrow> refresh_state \<Rightarrow> bool" for R where
  lock: "rs_pc st p = Waiting \<Longrightarrow> rs_lock st = None \<Longrightarrow>
    rstep R st (st\<lparr>rs_lock := Some p, rs_pc := (rs_pc st)(p := Locked)\<rparr>)"
| gone: "rs_pc st p = Locked \<Longrightarrow> env_fits R env \<Longrightarrow> reread env (rr_id R) (rs_table st) = Inl out \<Longrightarrow>
    rstep R st (st\<lparr>rs_lock := None, rs_pc := (rs_pc st)(p := Finished (Inl out))\<rparr>)"
| skip: "rs_pc st p = Locked \<Longrightarrow> env_fits R env \<Longrightarrow> reread env (rr_id R) (rs_table st) = Inr fresh \<Longrightarrow>
    \<not> refresh_due env (sv_now2 env) fresh \<Longrightarrow>
    rstep R st (st\<lparr>rs_lock := None, rs_pc := (rs_pc st)(p := Finished (Inr fresh))\<rparr>)"
| due: "rs_pc st p = Locked \<Longrightarrow> env_fits R env \<Longrightarrow> reread env (rr_id R) (rs_table st) = Inr fresh \<Longrightarrow>
    refresh_due env (sv_now2 env) fresh \<Longrightarrow>
    rstep R st (st\<lparr>rs_pc := (rs_pc st)(p := Calling fresh)\<rparr>)"
| call: "rs_pc st p = Calling fresh \<Longrightarrow> answer_fits R (rs_sent st @ [ss_RefreshToken fresh]) answer \<Longrightarrow>
    rstep R st (st\<lparr>rs_pc := (rs_pc st)(p := Persisting answer), rs_sent := rs_sent st @ [ss_RefreshToken fresh]\<rparr>)"
| finish: "rs_pc st p = Persisting answer \<Longrightarrow> env_fits R env \<Longrightarrow> persist env (rr_id R) answer (rs_table st) = (r, t') \<Longrightarrow>
    rstep R st (st\<lparr>rs_table := t', rs_lock := None, rs_pc := (rs_pc st)(p := Finished r)\<rparr>)"
| other: "token_rows (rr_id R) t' \<subseteq> token_rows (rr_id R) (rs_table st) \<Longrightarrow> rstep R st (st\<lparr>rs_table := t'\<rparr>)"

text \<open>One request alone takes the steps of the sequential function.\<close>

lemma alone_runs:
  assumes "refreshSession env sess t = (r, t')" and "ss_ID sess = rr_id R" and "env_fits R env" and "rs_table st = t"
    and "rs_pc st p = Waiting" and "rs_lock st = None"
    and "\<And>fresh. reread env (rr_id R) t = Inr fresh \<Longrightarrow>
      answer_fits R (rs_sent st @ [ss_RefreshToken fresh]) (sv_Refresh env (ss_RefreshToken fresh))"
  shows "\<exists>st'. (rstep R)\<^sup>*\<^sup>* st st' \<and> rs_table st' = t' \<and> rs_lock st' = None \<and> rs_pc st' = (rs_pc st)(p := Finished r) \<and>
    rs_sent st' = rs_sent st @ (case reread env (rr_id R) t of
      Inl _ \<Rightarrow> [] | Inr fresh \<Rightarrow> if refresh_due env (sv_now2 env) fresh then [ss_RefreshToken fresh] else [])"
proof -
  define s1 where "s1 = st\<lparr>rs_lock := Some p, rs_pc := (rs_pc st)(p := Locked)\<rparr>"
  have l: "rstep R st s1" unfolding s1_def by (rule rstep.lock [OF assms(5,6)])
  have s1: "rs_pc s1 p = Locked" "rs_table s1 = t" "rs_sent s1 = rs_sent st" using assms(4) by (simp_all add: s1_def)
  show ?thesis
  proof (cases "reread env (rr_id R) t")
    case (Inl out)
    then have "r = Inl out" "t' = t" using assms(1,2) by (simp_all add: refreshSession_def)
    then show ?thesis using l rstep.gone [OF s1(1) assms(3)] Inl s1(2,3)
      by (intro exI [of _ "s1\<lparr>rs_lock := None, rs_pc := (rs_pc s1)(p := Finished (Inl out))\<rparr>"])
        (auto simp: s1_def intro: rtranclp.rtrancl_into_rtrancl)
  next
    case (Inr fresh)
    have ID: "ss_ID fresh = rr_id R" using Inr get_session by (auto simp: reread_def split: if_splits sum.splits)
    show ?thesis
    proof (cases "refresh_due env (sv_now2 env) fresh")
      case False
      then have "r = Inr fresh" "t' = t" using assms(1,2) Inr by (simp_all add: refreshSession_def)
      then show ?thesis using l rstep.skip [OF s1(1) assms(3) _ False] Inr s1(2,3) False
        by (intro exI [of _ "s1\<lparr>rs_lock := None, rs_pc := (rs_pc s1)(p := Finished (Inr fresh))\<rparr>"])
          (auto simp: s1_def intro: rtranclp.rtrancl_into_rtrancl)
    next
      case True
      let ?a = "sv_Refresh env (ss_RefreshToken fresh)"
      define s2 where "s2 = s1\<lparr>rs_pc := (rs_pc s1)(p := Calling fresh)\<rparr>"
      define s3 where "s3 = s2\<lparr>rs_pc := (rs_pc s2)(p := Persisting ?a), rs_sent := rs_sent s2 @ [ss_RefreshToken fresh]\<rparr>"
      define s4 where "s4 = s3\<lparr>rs_table := t', rs_lock := None, rs_pc := (rs_pc s3)(p := Finished r)\<rparr>"
      have step2: "rstep R s1 s2" unfolding s2_def by (rule rstep.due [OF s1(1) assms(3) _ True]) (simp add: s1(2) Inr)
      have step3: "rstep R s2 s3" unfolding s3_def
        by (rule rstep.call) (simp_all add: s2_def s1(3) assms(7) [OF Inr])
      have "persist env (rr_id R) ?a (rs_table s3) = (r, t')"
        using assms(1,2) Inr True ID s1(2) by (simp add: refreshSession_def s3_def s2_def)
      then have step4: "rstep R s3 s4" unfolding s4_def by (intro rstep.finish [OF _ assms(3)]) (simp_all add: s3_def)
      have "(rstep R)\<^sup>*\<^sup>* st s2" using l step2 by (simp add: rtranclp.rtrancl_into_rtrancl r_into_rtranclp)
      then have "(rstep R)\<^sup>*\<^sup>* st s4" using step3 step4 by (simp add: rtranclp.rtrancl_into_rtrancl)
      then show ?thesis using Inr True by (intro exI [of _ s4]) (simp add: s4_def s3_def s2_def s1_def)
    qed
  qed
qed

section \<open>Invariants\<close>

fun critical :: "refresh_pc \<Rightarrow> bool" where
  "critical Locked = True"
| "critical (Calling _) = True"
| "critical (Persisting _) = True"
| "critical _ = False"

definition mutex :: "refresh_state \<Rightarrow> bool" where
  "mutex st \<longleftrightarrow> (\<forall>p. critical (rs_pc st p) \<longleftrightarrow> rs_lock st = Some p)"

text \<open>
  The tokens of the row have not been sent yet, except between the call and the update, when the answer's
  has not; under a time limit, a sent token means that the row, or the answer, outlives it.
\<close>

definition outlives :: "refresh_run \<Rightarrow> time \<Rightarrow> bool" where
  "outlives R e \<longleftrightarrow> (\<forall>h. rr_until R = Some h \<longrightarrow> h \<le> e - rr_leeway R)"

definition row_unsent :: "refresh_run \<Rightarrow> refresh_state \<Rightarrow> bool" where
  "row_unsent R st \<longleftrightarrow> (\<forall>(tok, e)\<in>token_rows (rr_id R) (rs_table st). tok \<notin> set (rs_sent st) \<and> (rs_sent st \<noteq> [] \<longrightarrow> outlives R e))"

definition flight :: "refresh_run \<Rightarrow> refresh_state \<Rightarrow> bool" where
  "flight R st \<longleftrightarrow> mutex st \<and> distinct (rs_sent st) \<and> (rr_until R \<noteq> None \<longrightarrow> length (rs_sent st) \<le> 1) \<and>
     (\<forall>p. case rs_pc st p of
        Calling fresh \<Rightarrow> ss_RefreshToken fresh \<notin> set (rs_sent st) \<and> (rr_until R \<noteq> None \<longrightarrow> rs_sent st = [])
      | Persisting answer \<Rightarrow> answer_fits R (rs_sent st) answer
      | _ \<Rightarrow> True) \<and>
     ((\<nexists>p a. rs_pc st p = Persisting a) \<longrightarrow> row_unsent R st)"

lemma flightD:
  assumes "flight R st"
  shows "mutex st" "distinct (rs_sent st)" "rr_until R \<noteq> None \<Longrightarrow> length (rs_sent st) \<le> 1"
    "rs_pc st p = Calling fresh \<Longrightarrow> ss_RefreshToken fresh \<notin> set (rs_sent st) \<and> (rr_until R \<noteq> None \<longrightarrow> rs_sent st = [])"
    "rs_pc st p = Persisting answer \<Longrightarrow> answer_fits R (rs_sent st) answer"
    "\<nexists>p a. rs_pc st p = Persisting a \<Longrightarrow> row_unsent R st"
  using assms unfolding flight_def by (auto split: refresh_pc.splits)

text \<open>The process that holds the lock is the only critical one.\<close>

lemma mutex_holder: "mutex st \<Longrightarrow> critical (rs_pc st p) \<Longrightarrow> q \<noteq> p \<Longrightarrow> \<not> critical (rs_pc st q)"
  by (simp add: mutex_def)

lemma mutex_move:
  assumes "mutex st" and "critical (rs_pc st p)"
  shows "critical c \<Longrightarrow> mutex (st\<lparr>rs_pc := (rs_pc st)(p := c)\<rparr>)"
    "\<not> critical c \<Longrightarrow> mutex (st\<lparr>rs_lock := None, rs_pc := (rs_pc st)(p := c)\<rparr>)"
  using assms by (auto simp: mutex_def)

lemma mutex_cong: "rs_pc st' = rs_pc st \<Longrightarrow> rs_lock st' = rs_lock st \<Longrightarrow> mutex st \<Longrightarrow> mutex st'"
  by (simp add: mutex_def)

lemma flightI:
  assumes "mutex st" and "distinct (rs_sent st)" and "rr_until R \<noteq> None \<Longrightarrow> length (rs_sent st) \<le> 1"
    and "\<And>p fresh. rs_pc st p = Calling fresh \<Longrightarrow> ss_RefreshToken fresh \<notin> set (rs_sent st) \<and> (rr_until R \<noteq> None \<longrightarrow> rs_sent st = [])"
    and "\<And>p answer. rs_pc st p = Persisting answer \<Longrightarrow> answer_fits R (rs_sent st) answer"
    and "\<nexists>p a. rs_pc st p = Persisting a \<Longrightarrow> row_unsent R st"
  shows "flight R st"
  using assms unfolding flight_def by (auto split: refresh_pc.splits)

lemma row_unsent_cong: "rs_table st' = rs_table st \<Longrightarrow> rs_sent st' = rs_sent st \<Longrightarrow> row_unsent R st' = row_unsent R st"
  by (simp add: row_unsent_def)

text \<open>Leaving the critical section without a call.\<close>

lemma flight_leave:
  assumes "flight R st" and "rs_pc st p = Locked"
  shows "flight R (st\<lparr>rs_lock := None, rs_pc := (rs_pc st)(p := Finished r)\<rparr>)"
proof -
  have crit: "critical (rs_pc st p)" using assms(2) by simp
  have alone: "rs_pc st q \<noteq> Persisting a" for q a
  proof
    assume "rs_pc st q = Persisting a"
    then show False using mutex_holder [OF flightD(1) [OF assms(1)] crit, of q] assms(2) by (cases "q = p") simp_all
  qed
  show ?thesis
    using flightD(2,3,4) [OF assms(1)] mutex_move(2) [OF flightD(1) [OF assms(1)] crit] alone flightD(6) [OF assms(1)]
    by (intro flightI) (auto simp: row_unsent_def split: if_splits)
qed

lemma reread_row: "reread env i t = Inr fresh \<Longrightarrow> (ss_RefreshToken fresh, ss_AccessTokenExpiresAt fresh) \<in> token_rows i t"
  using get_session by (fastforce simp: reread_def token_rows_def split: if_splits sum.splits)

lemma due_not_outlives:
  "env_fits R env \<Longrightarrow> refresh_due env (sv_now2 env) s \<Longrightarrow> rr_until R \<noteq> None \<Longrightarrow> \<not> outlives R (ss_AccessTokenExpiresAt s)"
  by (fastforce simp: env_fits_def refresh_due_def outlives_def)

text \<open>After the update every row of the session carries the answer's token.\<close>

lemma update_rows: "token_rows i (update_session i (set_tokens k) t) \<subseteq> {(tk_RefreshToken k, tk_AccessTokenExpiresAt k)}"
proof
  fix x
  assume "x \<in> token_rows i (update_session i (set_tokens k) t)"
  then obtain s where x: "x = (ss_RefreshToken s, ss_AccessTokenExpiresAt s)" and s: "s \<in> set (update_session i (set_tokens k) t)" "ss_ID s = i"
    unfolding token_rows_def by blast
  obtain s0 where "s = (if ss_ID s0 = i then set_tokens k s0 else s0)" using s(1) unfolding update_session_def set_map by blast
  then have "s = set_tokens k s0" using s(2) by (cases "ss_ID s0 = i") simp_all
  then show "x \<in> {(tk_RefreshToken k, tk_AccessTokenExpiresAt k)}" by (simp add: x)
qed

lemma healthy_persist:
  assumes "persist env i answer t = (r, t')" and "rr_healthy R" and "env_fits R env" and "answer_fits R sent answer"
  shows "\<forall>(tok, e)\<in>token_rows i t'. tok \<notin> set sent \<and> outlives R e"
proof -
  obtain k where k: "answer = Inr k" "tk_RefreshToken k \<notin> set sent" "outlives R (tk_AccessTokenExpiresAt k)"
    using assms(2,4) by (auto simp: answer_fits_def outlives_def split: sum.splits)
  have up: "\<not> sv_fails env OpUpdateTokens" using assms(2,3) by (simp add: env_fits_def)
  show ?thesis
  proof (cases "UpdateTokens i k t")
    case (Inl e)
    then have none: "Session_GetByID (update_session i (set_tokens k) t) i = Inl e"
      by (auto simp: UpdateTokens_def Let_def split: sum.splits)
    have "s \<notin> set t" if "ss_ID s = i" for s
    proof
      assume "s \<in> set t"
      then have "set_tokens k s \<in> set (update_session i (set_tokens k) t)" using that by (force simp: update_session_def)
      then show False using none that by (fastforce simp: Session_GetByID_def find_None_iff split: option.splits)
    qed
    moreover have "t' = try_Revoke env i t" using assms(1) k(1) up Inl by (simp add: persist_def)
    ultimately have "token_rows i t' = {}"
      by (auto simp: token_rows_def try_Revoke_def Revoke_def update_session_def split: if_splits)
    then show ?thesis by simp
  next
    case (Inr x)
    obtain s t1 where x: "x = (s, t1)" by (cases x)
    have "t' = t1" "t1 = update_session i (set_tokens k) t"
      using assms(1) k(1) up Inr UpdateTokens_Inr [OF Inr [unfolded x]] by (simp_all add: persist_def x)
    then show ?thesis using update_rows [of i k t] k(2,3) by auto
  qed
qed

lemma rstep_flight:
  assumes "rstep R st st'" and "flight R st" and "rr_healthy R"
  shows "flight R st'"
  using assms(1)
proof cases
  case (lock p)
  have "mutex st'" using flightD(1) [OF assms(2)] lock by (auto simp: mutex_def)
  moreover have "row_unsent R st'" if none: "\<nexists>q a. rs_pc st' q = Persisting a"
  proof -
    have "rs_pc st q \<noteq> Persisting a" for q a
    proof (cases "q = p")
      case False
      then have "rs_pc st' q = rs_pc st q" by (simp add: lock(1))
      then show ?thesis using none by metis
    qed (simp add: lock(2))
    then have "row_unsent R st" using flightD(6) [OF assms(2)] by blast
    then show ?thesis by (simp add: lock(1) row_unsent_def)
  qed
  ultimately show ?thesis using flightD(2-5) [OF assms(2)] lock(1)
    by (intro flightI) (auto split: if_splits)
next
  case (gone p env out)
  then show ?thesis using flight_leave [OF assms(2)] by simp
next
  case (skip p env fresh)
  then show ?thesis using flight_leave [OF assms(2)] by simp
next
  case (due p env fresh)
  have crit: "critical (rs_pc st p)" using due by simp
  note m = flightD(1) [OF assms(2)]
  have alone: "\<not> critical (rs_pc st q)" if "q \<noteq> p" for q using mutex_holder [OF m crit that] .
  then have "\<nexists>q a. rs_pc st q = Persisting a" using due(2) by (metis critical.simps(3) refresh_pc.distinct(11))
  then have unsent: "row_unsent R st" by (rule flightD(6) [OF assms(2)])
  then have row: "ss_RefreshToken fresh \<notin> set (rs_sent st)" "rs_sent st \<noteq> [] \<longrightarrow> outlives R (ss_AccessTokenExpiresAt fresh)"
    using reread_row [OF due(4)] by (auto simp: row_unsent_def)
  then have first: "rr_until R \<noteq> None \<longrightarrow> rs_sent st = []" using due_not_outlives [OF due(3,5)] by blast
  show ?thesis
    using due(1) mutex_move(1) [OF m crit] row first flightD(2-5) [OF assms(2)] unsent
    by (intro flightI) (auto simp: row_unsent_def split: if_splits)
next
  case (call p fresh answer)
  have crit: "critical (rs_pc st p)" using call by simp
  note m = flightD(1) [OF assms(2)]
  have alone: "\<not> critical (rs_pc st q)" if "q \<noteq> p" for q using mutex_holder [OF m crit that] .
  have tok: "ss_RefreshToken fresh \<notin> set (rs_sent st)" "rr_until R \<noteq> None \<longrightarrow> rs_sent st = []"
    using flightD(4) [OF assms(2) call(2)] by auto
  have "mutex st'" by (rule mutex_cong [OF _ _ mutex_move(1) [OF m crit, of "Persisting answer"]]) (simp_all add: call(1))
  moreover have pc: "rs_pc st' q = (if q = p then Persisting answer else rs_pc st q)" for q by (simp add: call(1))
  have "rs_pc st' q \<noteq> Calling f" for q f using alone [of q] by (cases "q = p") (auto simp: pc)
  moreover have "a = answer" if "rs_pc st' q = Persisting a" for q a using that alone [of q] by (cases "q = p") (auto simp: pc)
  moreover have "\<exists>q a. rs_pc st' q = Persisting a" using pc [of p] by auto
  moreover have "rs_sent st' = rs_sent st @ [ss_RefreshToken fresh]" by (simp add: call(1))
  ultimately show ?thesis
    using call(3) tok flightD(2) [OF assms(2)] by (intro flightI) auto
next
  case (finish p answer env r t')
  have crit: "critical (rs_pc st p)" using finish by simp
  note m = flightD(1) [OF assms(2)]
  have alone: "\<not> critical (rs_pc st q)" if "q \<noteq> p" for q using mutex_holder [OF m crit that] .
  have "mutex st'" by (rule mutex_cong [OF _ _ mutex_move(2) [OF m crit, of "Finished r"]]) (simp_all add: finish(1))
  moreover have "\<not> critical (rs_pc st' q)" for q using alone finish(1) by simp
  then have "\<And>q f. rs_pc st' q \<noteq> Calling f" "\<And>q a. rs_pc st' q \<noteq> Persisting a" by (metis critical.simps(2,3))+
  moreover have "row_unsent R st'"
    using healthy_persist [OF finish(4) assms(3) finish(3) flightD(5) [OF assms(2) finish(2)]] finish(1) by (auto simp: row_unsent_def)
  ultimately show ?thesis using flightD(2,3) [OF assms(2)] finish(1) by (intro flightI) auto
next
  case (other t')
  have "mutex st'" by (rule mutex_cong [OF _ _ flightD(1) [OF assms(2)]]) (simp_all add: other(1))
  moreover have "row_unsent R st \<Longrightarrow> row_unsent R st'" using other by (auto simp: row_unsent_def)
  ultimately show ?thesis using flightD(2-6) [OF assms(2)] other(1) by (intro flightI) auto
qed

lemma start_flight: "flight R (start t)"
  by (intro flightI) (simp_all add: start_def mutex_def row_unsent_def split_def)

lemma runs_flight:
  assumes "(rstep R)\<^sup>*\<^sup>* (start t) st" and "rr_healthy R"
  shows "flight R st"
  using assms(1) by (induction rule: rtranclp_induct) (auto intro: start_flight rstep_flight assms(2))

section \<open>Single flight\<close>

text \<open>
  C21. No refresh token is replayed: in every interleaving of any number of requests on one session, with
  statements of others in between, as long as the provider answers with rotated tokens and these are
  persisted, at most one request is inside the critical section, no refresh token is sent to the
  provider twice, and while the new access token is not about to expire again, at most one call is made.
\<close>

theorem refresh_single_flight:
  assumes "(rstep R)\<^sup>*\<^sup>* (start t) st" and "rr_healthy R"
  shows "distinct (rs_sent st) \<and> (rr_until R \<noteq> None \<longrightarrow> length (rs_sent st) \<le> 1) \<and>
    (\<forall>p q. critical (rs_pc st p) \<and> critical (rs_pc st q) \<longrightarrow> p = q)"
proof -
  note f = runs_flight [OF assms]
  have "p = q" if "critical (rs_pc st p)" "critical (rs_pc st q)" for p q
    using mutex_holder [OF flightD(1) [OF f] that(1), of q] that(2) by (cases "q = p") simp_all
  then show ?thesis using flightD(2,3) [OF f] by blast
qed

definition sample_run :: refresh_run where
  "sample_run = \<lparr>rr_healthy = True, rr_leeway = 2, rr_until = Some 30, rr_id = sample_id\<rparr>"

lemma sample_reread [simp]:
  "reread (sample_session_env\<lparr>sv_Refresh := f\<rparr>) sample_id [sample_session] = Inr sample_session"
  "reread sample_session_env sample_id [sample_session] = Inr sample_session"
  "refresh_due sample_session_env 20 sample_session" "refresh_due (sample_session_env\<lparr>sv_Refresh := f\<rparr>) 20 sample_session"
  "sv_now2 sample_session_env = 20" "ss_RefreshToken sample_session = ''r0''"
  by (simp_all add: reread_def sample_session_env_def Session_GetByID_def sample_session_def refresh_due_def)

lemma sample_flight: "\<exists>st. (rstep sample_run)\<^sup>*\<^sup>* (start [sample_session]) st \<and> rs_sent st = [''r0'']"
proof -
  obtain r t' where run: "refreshSession sample_session_env sample_session [sample_session] = (r, t')" by fastforce
  have "ss_ID sample_session = rr_id sample_run" "env_fits sample_run sample_session_env"
    by (simp_all add: sample_session_def sample_run_def env_fits_def sample_session_env_def)
  from alone_runs [OF run this, of "start [sample_session]" 0] show ?thesis
    by (auto simp: start_def sample_run_def answer_fits_def sample_session_env_def sample_reread [unfolded sample_session_env_def])
qed

theorem refresh_single_flight_witness:
  "\<exists>st. (rstep sample_run)\<^sup>*\<^sup>* (start [sample_session]) st \<and> length (rs_sent st) = 1 \<and> distinct (rs_sent st)"
proof -
  obtain st where st: "(rstep sample_run)\<^sup>*\<^sup>* (start [sample_session]) st" "rs_sent st = [''r0'']" using sample_flight by blast
  have "rr_healthy sample_run" by (simp add: sample_run_def)
  from refresh_single_flight [OF st(1) this] show ?thesis using st by auto
qed

text \<open>
  Without these successes a token is replayed: when the provider refuses, the session is revoked, but the
  next request in line does not look at the revocation and sends the same token again.
\<close>

lemma refused_token_replayed:
  "\<exists>st. (rstep (sample_run\<lparr>rr_healthy := False\<rparr>))\<^sup>*\<^sup>* (start [sample_session]) st \<and> rs_sent st = [''r0'', ''r0'']"
proof -
  let ?R = "sample_run\<lparr>rr_healthy := False\<rparr>" let ?env = "sample_session_env\<lparr>sv_Refresh := (\<lambda>_. Inl ''invalid_grant'')\<rparr>"
  let ?t1 = "Revoke 20 sample_id [sample_session]"
  have id: "ss_ID sample_session = rr_id ?R" "env_fits ?R ?env"
    by (simp_all add: sample_session_def sample_run_def env_fits_def sample_session_env_def)
  have fits: "answer_fits ?R sent (sv_Refresh ?env tok)" for sent tok by (simp add: answer_fits_def sample_run_def)
  have one: "refreshSession ?env sample_session [sample_session] = (Inl (Stopped True), ?t1)"
    by (simp add: refreshSession_def persist_def try_Revoke_def sample_session_env_def sample_reread [unfolded sample_session_env_def]
        sample_session_def reread_def Session_GetByID_def refresh_due_def)
  have second: "reread ?env sample_id ?t1 = Inr (revoke_row 20 sample_session)" "refresh_due ?env 20 (revoke_row 20 sample_session)"
    "ss_RefreshToken (revoke_row 20 sample_session) = ''r0''" "sv_now2 ?env = 20"
    by (simp_all add: reread_def sample_session_env_def Session_GetByID_def sample_session_def refresh_due_def Revoke_def update_session_def revoke_row_def)
  obtain r2 t2 where two: "refreshSession ?env sample_session ?t1 = (r2, t2)" by fastforce
  obtain st1 where st1: "(rstep ?R)\<^sup>*\<^sup>* (start [sample_session]) st1" "rs_table st1 = ?t1" "rs_lock st1 = None"
    "rs_pc st1 = (rs_pc (start [sample_session]))(0 := Finished (Inl (Stopped True)))" "rs_sent st1 = [''r0'']"
    using alone_runs [OF one id, of "start [sample_session]" 0] fits by (auto simp: start_def sample_run_def)
  have "rs_pc st1 1 = Waiting" using st1(4) by (simp add: start_def)
  from alone_runs [OF two id st1(2) this st1(3)] fits obtain st2 where "(rstep ?R)\<^sup>*\<^sup>* st1 st2"
    "rs_sent st2 = rs_sent st1 @ (case reread ?env (rr_id ?R) ?t1 of Inl _ \<Rightarrow> []
       | Inr fresh \<Rightarrow> if refresh_due ?env (sv_now2 ?env) fresh then [ss_RefreshToken fresh] else [])" by auto
  then show ?thesis using st1(1,5) second by (intro exI [of _ st2]) (auto simp: sample_run_def)
qed

end
