(* ===== verification/ObjectStore.thy ===== *)
theory ObjectStore
  imports Prelude
begin

text \<open>
  The object store client (\<open>src/internal/storage/storage.go\<close>) and the image variants
  (\<open>src/internal/storage/imageproc/imageproc.go\<close>). The bucket is a map from keys to bytes with a content
  type. A call may fail before or after its effect: a lost reply is an error to the caller although the
  object was written. Image decoding, scaling and encoding are library functions and stay arguments.
\<close>

section \<open>The bucket\<close>

type_synonym objects = "string \<rightharpoonup> bytes \<times> string"

datatype storage_error = ErrAlreadyExists | ErrNotFound | StorageFailure

datatype storage_call = PutObject string | GetObject string | DeleteObject string

datatype fault = Works | Refuses | LosesReply

type_synonym faults = "storage_call \<Rightarrow> fault"

definition Upload :: "faults \<Rightarrow> string \<Rightarrow> bytes \<Rightarrow> string \<Rightarrow> objects \<Rightarrow> (storage_error + unit) \<times> objects" where
  "Upload fl key body contentType st =
     (case fl (PutObject key) of
        Works \<Rightarrow> (Inr (), st(key \<mapsto> (body, contentType)))
      | Refuses \<Rightarrow> (Inl StorageFailure, st)
      | LosesReply \<Rightarrow> (Inl StorageFailure, st(key \<mapsto> (body, contentType))))"

text \<open>The conditional put: \<open>If-None-Match: *\<close> never overwrites.\<close>

definition UploadIfNotExists :: "faults \<Rightarrow> string \<Rightarrow> bytes \<Rightarrow> string \<Rightarrow> objects \<Rightarrow> (storage_error + unit) \<times> objects" where
  "UploadIfNotExists fl key body contentType st =
     (if fl (PutObject key) \<noteq> Refuses \<and> key \<in> dom st
      then (Inl (if fl (PutObject key) = Works then ErrAlreadyExists else StorageFailure), st)
      else Upload fl key body contentType st)"

definition Download :: "faults \<Rightarrow> string \<Rightarrow> objects \<Rightarrow> storage_error + bytes \<times> string" where
  "Download fl key st =
     (if fl (GetObject key) \<noteq> Works then Inl StorageFailure
      else case st key of None \<Rightarrow> Inl ErrNotFound | Some object \<Rightarrow> Inr object)"

definition Delete_object :: "faults \<Rightarrow> string \<Rightarrow> objects \<Rightarrow> (storage_error + unit) \<times> objects" where
  "Delete_object fl key st =
     (case fl (DeleteObject key) of
        Works \<Rightarrow> (Inr (), st(key := None))
      | Refuses \<Rightarrow> (Inl StorageFailure, st)
      | LosesReply \<Rightarrow> (Inl StorageFailure, st(key := None)))"

text \<open>Best effort: every key is tried, failures are only logged.\<close>

definition delete_all :: "faults \<Rightarrow> string list \<Rightarrow> objects \<Rightarrow> objects" where
  "delete_all fl keys st = fold (\<lambda>k s. snd (Delete_object fl k s)) keys st"

lemma Upload_elsewhere: "k \<noteq> key \<Longrightarrow> snd (Upload fl key body ct st) k = st k"
  by (simp add: Upload_def split: fault.split)

lemma UploadIfNotExists_elsewhere: "k \<noteq> key \<Longrightarrow> snd (UploadIfNotExists fl key body ct st) k = st k"
  by (simp add: UploadIfNotExists_def Upload_elsewhere)

lemma Upload_ok: "Upload fl key body ct st = (Inr x, st') \<longleftrightarrow> fl (PutObject key) = Works \<and> st' = st(key \<mapsto> (body, ct))"
  by (auto simp: Upload_def split: fault.split)

lemma UploadIfNotExists_ok:
  "UploadIfNotExists fl key body ct st = (Inr x, st') \<longleftrightarrow>
     fl (PutObject key) = Works \<and> key \<notin> dom st \<and> st' = st(key \<mapsto> (body, ct))"
  by (auto simp: UploadIfNotExists_def Upload_ok)

lemma UploadIfNotExists_exists:
  "UploadIfNotExists fl key body ct st = (Inl ErrAlreadyExists, st') \<Longrightarrow> key \<in> dom st \<and> st' = st"
  by (auto simp: UploadIfNotExists_def Upload_def split: if_splits fault.splits)

lemma delete_all_elsewhere: "k \<notin> set keys \<Longrightarrow> delete_all fl keys st k = st k"
  unfolding delete_all_def
  by (induction keys arbitrary: st) (auto simp: Delete_object_def split: fault.split)

lemma delete_all_works:
  "(\<And>k. k \<in> set keys \<Longrightarrow> fl (DeleteObject k) = Works) \<Longrightarrow> delete_all fl keys st = (\<lambda>k. if k \<in> set keys then None else st k)"
  unfolding delete_all_def
  by (induction keys arbitrary: st) (auto simp: Delete_object_def fun_eq_iff)

lemma delete_all_subset: "delete_all fl keys st \<subseteq>\<^sub>m st"
  unfolding delete_all_def
proof (induction keys arbitrary: st)
  case (Cons k keys)
  have "snd (Delete_object fl k st) \<subseteq>\<^sub>m st"
    by (auto simp: Delete_object_def map_le_def split: fault.split if_splits)
  then show ?case using Cons map_le_trans by fastforce
qed simp

section \<open>Image variants\<close>

definition DisplayLongEdge :: int where "DisplayLongEdge = 1600"
definition ThumbnailLongEdge :: int where "ThumbnailLongEdge = 400"
definition DisplayJPEGQ :: int where "DisplayJPEGQ = 85"
definition ThumbnailJPEGQ :: int where "ThumbnailJPEGQ = 80"
definition MaxPixels :: int where "MaxPixels = 100 * 1000 * 1000"

text \<open>
  The library: the dimensions an image header declares, the two decoders by declared type and the one that
  goes by the bytes, the kernel, and the JPEG encoder. Bounds are width and height.
\<close>

record 'img image_lib =
  il_DecodeConfig :: "bytes \<Rightarrow> (int \<times> int) option"
  il_jpeg_Decode :: "bytes \<Rightarrow> 'img option"
  il_png_Decode :: "bytes \<Rightarrow> 'img option"
  il_Decode :: "bytes \<Rightarrow> 'img option"
  il_Bounds :: "'img \<Rightarrow> int \<times> int"
  il_CatmullRom :: "int \<Rightarrow> int \<Rightarrow> 'img \<Rightarrow> 'img"
  il_jpeg_Encode :: "int \<Rightarrow> 'img \<Rightarrow> bytes option"

datatype image_error = ErrUnsupportedContentType | ErrImageTooLarge | ImageDecodeError | ImageEncodeError

record Variants =
  va_Display :: bytes
  va_Thumbnail :: bytes

text \<open>The product is taken in 64 bits.\<close>

definition pixel_count :: "int \<Rightarrow> int \<Rightarrow> int" where
  "pixel_count w h = sint (word_of_int w * word_of_int h :: 64 word)"

definition decode_image :: "'img image_lib \<Rightarrow> bytes \<Rightarrow> string \<Rightarrow> image_error + 'img" where
  "decode_image il data contentType =
     (if contentType \<noteq> ''image/jpeg'' \<and> contentType \<noteq> ''image/png'' \<and> contentType \<noteq> ''image/webp''
      then Inl ErrUnsupportedContentType
      else case il_DecodeConfig il data of
        None \<Rightarrow> Inl ImageDecodeError
      | Some (w, h) \<Rightarrow>
          if pixel_count w h > MaxPixels then Inl ErrImageTooLarge
          else (case (if contentType = ''image/jpeg'' then il_jpeg_Decode il data
                      else if contentType = ''image/png'' then il_png_Decode il data
                      else il_Decode il data) of
              None \<Rightarrow> Inl ImageDecodeError
            | Some img \<Rightarrow> Inr img))"

text \<open>
  \<open>int(float64(h) * float64(e) / float64(w))\<close>: the quotient of numbers below \<open>2 ^ 53\<close>, truncated. Below the
  pixel limit its rounding error is far smaller than the distance of the quotient from the next integer, so
  the result is the integer quotient.
\<close>

definition scaleToLongEdge :: "int \<Rightarrow> int \<Rightarrow> int \<Rightarrow> int \<times> int" where
  "scaleToLongEdge srcW srcH longEdge =
     (if srcW \<ge> srcH then (longEdge, max 1 (srcH * longEdge div srcW))
      else (max 1 (srcW * longEdge div srcH), longEdge))"

definition resize :: "'img image_lib \<Rightarrow> 'img \<Rightarrow> int \<Rightarrow> 'img" where
  "resize il src longEdge =
     (let (srcW, srcH) = il_Bounds il src in
      if srcW \<le> longEdge \<and> srcH \<le> longEdge then src
      else let (dstW, dstH) = scaleToLongEdge srcW srcH longEdge in il_CatmullRom il dstW dstH src)"

definition encodeJPEG :: "'img image_lib \<Rightarrow> 'img \<Rightarrow> int \<Rightarrow> image_error + bytes" where
  "encodeJPEG il img quality = (case il_jpeg_Encode il quality img of None \<Rightarrow> Inl ImageEncodeError | Some b \<Rightarrow> Inr b)"

definition imageproc_Generate :: "'img image_lib \<Rightarrow> bytes \<Rightarrow> string \<Rightarrow> image_error + Variants" where
  "imageproc_Generate il data contentType =
     sum_bind (decode_image il data contentType) (\<lambda>src.
     sum_bind (encodeJPEG il (resize il src DisplayLongEdge) DisplayJPEGQ) (\<lambda>display.
     sum_bind (encodeJPEG il (resize il src ThumbnailLongEdge) ThumbnailJPEGQ) (\<lambda>thumb.
     Inr \<lparr>va_Display = display, va_Thumbnail = thumb\<rparr>)))"

text \<open>Dimensions below \<open>2 ^ 31\<close>, which the formats allow at most, cannot wrap the product past the limit.\<close>

lemma pixel_count_exact:
  assumes "0 \<le> w" "w < 2 ^ 31" "0 \<le> h" "h < 2 ^ 31"
  shows "pixel_count w h = w * h"
proof -
  have "w * h \<le> (2 ^ 31 - 1) * (2 ^ 31 - 1)" using assms by (intro mult_mono) auto
  then have bound: "w * h < 2 ^ 63" "0 \<le> w * h" using assms by auto
  have "(word_of_int w * word_of_int h :: 64 word) = word_of_int (w * h)" by simp
  then have "pixel_count w h = signed_take_bit 63 (w * h)" unfolding pixel_count_def by (simp only: sint_sbintrunc') simp
  then show ?thesis using bound by (simp add: signed_take_bit_int_eq_self)
qed

text \<open>A scaled image fits its frame exactly on the longer edge, is never empty, and keeps its aspect up to a pixel.\<close>

lemma short_edge:
  assumes "0 < b" "0 < a" "a \<le> b" "0 < (e::int)"
  shows "1 \<le> max 1 (a * e div b)" "max 1 (a * e div b) \<le> e" "\<bar>e * a - max 1 (a * e div b) * b\<bar> < b"
proof -
  define q where "q = a * e div b"
  have eq: "a * e = b * q + a * e mod b" by (simp add: q_def)
  have r: "0 \<le> a * e mod b" "a * e mod b < b" using assms(1) by simp_all
  have "q \<le> e * b div b" unfolding q_def using assms by (intro zdiv_mono1) (auto simp: mult.commute mult_left_mono)
  then have le: "q \<le> e" using assms(1) by simp
  have nn: "0 \<le> q" using assms by (simp add: q_def div_int_pos_iff)
  have pos: "0 < a * e" using assms by simp
  show "1 \<le> max 1 (a * e div b)" by simp
  show "max 1 (a * e div b) \<le> e" using le assms(4) by (simp add: q_def)
  show "\<bar>e * a - max 1 (a * e div b) * b\<bar> < b"
  proof (cases "q = 0")
    case True
    then show ?thesis using eq r pos by (simp add: q_def [symmetric] mult.commute)
  next
    case False
    then have "max 1 q = q" using nn by simp
    then show ?thesis using eq r by (simp add: q_def [symmetric] mult.commute)
  qed
qed

lemma scaleToLongEdge_fits:
  assumes "0 < w" "0 < h" "0 < e" "scaleToLongEdge w h e = (w', h')"
  shows "max w' h' = e \<and> 1 \<le> min w' h' \<and> \<bar>w' * h - h' * w\<bar> < max w h"
proof (cases "w \<ge> h")
  case True
  then show ?thesis using assms short_edge [of w h e] by (auto simp: scaleToLongEdge_def)
next
  case False
  then show ?thesis using assms short_edge [of h w e] by (auto simp: scaleToLongEdge_def abs_minus_commute mult.commute)
qed

end
