(* ===== verification/Photos.thy ===== *)
theory Photos
  imports SpecimenService ObjectStore
begin

text \<open>
  The photo and file repositories (\<open>src/internal/db/photo_postgres.go\<close>, \<open>src/internal/db/file_postgres.go\<close>) on
  the relational store: rows, the enum, range and key errors of their columns, the maximal position, and
  the list in ascending order of position, creation time and identifier with its own cursor.
\<close>

section \<open>Files\<close>

definition unique_violation :: repo_error where
  "unique_violation = Driver ''unique_violation''"

text \<open>The uploader is the caller, whatever the row says.\<close>

definition FilePostgres_Create :: "auth_User \<Rightarrow> File \<Rightarrow> database \<Rightarrow> repo_error + database" where
  "FilePostgres_Create u f d =
     (if fi_ID f \<in> set (map fi_ID (db_files d)) \<or> fi_S3Key f \<in> set (map fi_S3Key (db_files d)) then Inl (Domain ErrFileConflict)
      else if u_ID u \<notin> set (map us_ID (db_users d)) then Inl fk_violation
      else Inr (d\<lparr>db_files := db_files d @ [f\<lparr>fi_UploadedBy := u_ID u\<rparr>]\<rparr>))"

definition FilePostgres_GetByID :: "database \<Rightarrow> uuid \<Rightarrow> repo_error + File" where
  "FilePostgres_GetByID d i =
     (case find (\<lambda>f. fi_ID f = i) (db_files d) of None \<Rightarrow> Inl (Domain ErrFileNotFound) | Some f \<Rightarrow> Inr f)"

definition FilePostgres_Delete :: "uuid \<Rightarrow> database \<Rightarrow> repo_error + database" where
  "FilePostgres_Delete i d =
     sum_bind (delete_files (\<lambda>f. fi_ID f = i) d) (\<lambda>(n, d'). if n = 0 then Inl (Domain ErrFileNotFound) else Inr d')"

section \<open>Photos\<close>

text \<open>The column types: the enums of migrations 0007 and 0013 and a 32-bit position.\<close>

definition photo_columns :: "Photo \<Rightarrow> repo_error option" where
  "photo_columns p =
     (if ph_Kind p \<notin> set photoKinds \<or> \<not> set_option (ph_Visibility p) \<subseteq> set visibilities then Some invalid_enum
      else if ph_Position p < - (2 ^ 31) \<or> 2 ^ 31 \<le> ph_Position p then Some (Driver ''numeric_value_out_of_range'')
      else None)"

definition default_kind :: "Photo \<Rightarrow> Photo" where
  "default_kind p = (if ph_Kind p = [] then p\<lparr>ph_Kind := ''visible''\<rparr> else p)"

definition PhotoPostgres_Create :: "Photo \<Rightarrow> database \<Rightarrow> repo_error + database" where
  "PhotoPostgres_Create p0 d =
     (let p = default_kind p0 in
      case photo_columns p of
        Some e \<Rightarrow> Inl e
      | None \<Rightarrow>
          if ph_ID p \<in> set (map ph_ID (db_photos d)) then Inl unique_violation
          else if ph_SpecimenID p \<notin> set (map sp_ID (db_specimens d)) \<or> ph_FileID p \<notin> set (map fi_ID (db_files d))
          then Inl (Domain ErrPhotoNotFound)
          else Inr (d\<lparr>db_photos := db_photos d @ [p]\<rparr>))"

definition PhotoPostgres_GetByID :: "database \<Rightarrow> uuid \<Rightarrow> repo_error + Photo" where
  "PhotoPostgres_GetByID d i =
     (case find (\<lambda>p. ph_ID p = i) (db_photos d) of None \<Rightarrow> Inl (Domain ErrPhotoNotFound) | Some p \<Rightarrow> Inr p)"

text \<open>An update writes four columns and leaves the references and the creation time.\<close>

definition written_columns :: "Photo \<Rightarrow> Photo \<Rightarrow> Photo" where
  "written_columns p row = row\<lparr>ph_TakenAt := ph_TakenAt p, ph_Position := ph_Position p, ph_Kind := ph_Kind p,
     ph_Visibility := ph_Visibility p\<rparr>"

definition PhotoPostgres_Update :: "Photo \<Rightarrow> database \<Rightarrow> repo_error + database" where
  "PhotoPostgres_Update p0 d =
     (let p = default_kind p0 in
      case photo_columns p of
        Some e \<Rightarrow> Inl e
      | None \<Rightarrow>
          if ph_ID p \<notin> set (map ph_ID (db_photos d)) then Inl (Domain ErrPhotoNotFound)
          else Inr (d\<lparr>db_photos := map (\<lambda>row. if ph_ID row = ph_ID p then written_columns p row else row) (db_photos d)\<rparr>))"

definition PhotoPostgres_Delete :: "uuid \<Rightarrow> database \<Rightarrow> repo_error + database" where
  "PhotoPostgres_Delete i d =
     (if i \<notin> set (map ph_ID (db_photos d)) then Inl (Domain ErrPhotoNotFound)
      else Inr (d\<lparr>db_photos := filter (\<lambda>p. ph_ID p \<noteq> i) (db_photos d)\<rparr>))"

definition MaxPosition :: "database \<Rightarrow> uuid \<Rightarrow> int" where
  "MaxPosition d sid =
     (case map ph_Position (filter (\<lambda>p. ph_SpecimenID p = sid) (db_photos d)) of [] \<Rightarrow> 0 | x # xs \<Rightarrow> Max (set (x # xs)))"

section \<open>The cursor\<close>

text \<open>An \<open>int\<close> as a JSON number: decimal, and read back only from a literal without fraction and exponent that fits 64 bits.\<close>

definition FormatInt :: "int \<Rightarrow> string" where
  "FormatInt i = (if i < 0 then CHR ''-'' # decimal (nat (- i)) else decimal (nat i))"

definition ParseInt :: "string \<Rightarrow> int option" where
  "ParseInt s =
     (let neg = (take 1 s = ''-''); ds = (if neg then drop 1 s else s) in
      if ds = [] \<or> \<not> list_all is_digit ds then None
      else case number 10 0 ds of
        None \<Rightarrow> None
      | Some n \<Rightarrow> let i = (if neg then - int n else int n) in if - (2 ^ 63) \<le> i \<and> i < 2 ^ 63 then Some i else None)"

record photoCursor =
  pc_Position :: int
  pc_CreatedAt :: time
  pc_ID :: uuid

definition encodePhotoCursor :: "'r text_codec \<Rightarrow> int \<Rightarrow> time \<Rightarrow> uuid \<Rightarrow> string option" where
  "encodePhotoCursor tc pos createdAt i =
     (if time_marshals createdAt then
        Some (RawURLEncoding_Encode (json_print (JObj
          [(''p'', JNum (FormatInt pos)), (''t'', JStr (time_Format tc createdAt)), (''i'', JStr (uuid_String tc i))])))
      else None)"

definition unmarshal_photoCursor :: "'r text_codec \<Rightarrow> string \<Rightarrow> photoCursor option" where
  "unmarshal_photoCursor tc raw = unmarshal_struct (\<lambda>kvs.
     (case (decode_field (dec_number ParseInt) 0 ''p'' kvs,
            decode_field (dec_text (time_Parse tc)) time_zero ''t'' kvs,
            decode_field (dec_text (uuid_Parse tc)) uuid_Nil ''i'' kvs) of
        (Some p, Some t, Some i) \<Rightarrow> Some \<lparr>pc_Position = p, pc_CreatedAt = t, pc_ID = i\<rparr>
      | _ \<Rightarrow> None)) raw"

definition decodePhotoCursor :: "'r text_codec \<Rightarrow> string \<Rightarrow> cursor_error + int \<times> time \<times> uuid" where
  "decodePhotoCursor tc s =
     (if s = [] then Inr (0, time_zero, uuid_Nil)
      else case RawURLEncoding_Decode s of
        None \<Rightarrow> Inl CursorInvalidBase64
      | Some raw \<Rightarrow>
          (case unmarshal_photoCursor tc raw of
             None \<Rightarrow> Inl CursorInvalidPayload
           | Some c \<Rightarrow> if pc_ID c = uuid_Nil then Inl CursorMissingID else Inr (pc_Position c, pc_CreatedAt c, pc_ID c)))"

definition photo_key :: "Photo \<Rightarrow> int \<times> time \<times> uuid" where
  "photo_key p = (ph_Position p, ph_CreatedAt p, ph_ID p)"

text \<open>The condition that hides the photos of specimens the caller cannot access.\<close>

definition photo_scope :: "database \<Rightarrow> auth_User \<Rightarrow> Photo \<Rightarrow> bool" where
  "photo_scope d u p \<longleftrightarrow> (\<exists>s\<in>set (db_specimens d). sp_ID s = ph_SpecimenID p \<and> specimenAccessScope d u s) \<or> isAdmin u"

definition ListBySpecimen :: "'r text_codec \<Rightarrow> auth_User \<Rightarrow> uuid \<Rightarrow> Page \<Rightarrow> database \<Rightarrow> list_error + Photo list \<times> string" where
  "ListBySpecimen tc u sid page d =
     (let limit = clampLimit (pg_Limit page) in
      case decodePhotoCursor tc (pg_Cursor page) of
        Inl e \<Rightarrow> Inl (ListCursor e)
      | Inr k \<Rightarrow>
          page_cut (\<lambda>p. encodePhotoCursor tc (ph_Position p) (ph_CreatedAt p) (ph_ID p)) limit
            (take (limit + 1) (sort_key photo_key (filter (\<lambda>p. ph_SpecimenID p = sid \<and>
              (pg_Cursor page \<noteq> [] \<longrightarrow> k < photo_key p) \<and> photo_scope d u p) (db_photos d)))))"

section \<open>The cursor is read back\<close>

lemma decimal_nonempty [simp]: "decimal n \<noteq> []"
  by (simp add: decimal.simps [of n])

lemma ParseInt_FormatInt: "- (2 ^ 63) \<le> i \<Longrightarrow> i < 2 ^ 63 \<Longrightarrow> ParseInt (FormatInt i) = Some i"
proof -
  assume range: "- (2 ^ 63) \<le> i" "i < 2 ^ 63"
  have digits: "list_all is_digit (decimal n)" for n by (rule decimal_digits)
  have start: "take 1 (decimal n) \<noteq> ''-''" for n
    using digits [of n] by (cases "decimal n") (auto simp: is_digit_def)
  show ?thesis using range digits start number_decimal by (simp add: ParseInt_def FormatInt_def Let_def)
qed

lemma FormatInt_number: "num_ok (FormatInt i) \<and> list_all num_char (FormatInt i)"
proof -
  have all: "list_all num_char (decimal n)" for n
    using decimal_digits [of n] by (auto simp: num_char_def list_all_iff)
  have "num_ok (CHR ''-'' # decimal n)" for n
  proof -
    have "num_ok (decimal n)" by (rule decimal_num_ok)
    moreover obtain c r where "decimal n = c # r" "c \<noteq> CHR ''-''"
      using decimal_digits [of n] decimal_nonempty [of n] by (cases "decimal n") (auto simp: is_digit_def)
    ultimately show ?thesis by (simp add: num_ok_def Let_def)
  qed
  then show ?thesis using all decimal_num_ok by (simp add: FormatInt_def num_char_def)
qed

lemma photo_names [simp]:
  "name_matches ''p'' ''p''" "name_matches ''t'' ''t''" "name_matches ''i'' ''i''"
  "\<not> name_matches ''p'' ''t''" "\<not> name_matches ''p'' ''i''" "\<not> name_matches ''t'' ''p''"
  "\<not> name_matches ''t'' ''i''" "\<not> name_matches ''i'' ''p''" "\<not> name_matches ''i'' ''t''"
  by (simp_all add: name_matches_def lower_ascii_def Let_def)

context text_forms
begin

lemma photo_cursor_back:
  assumes "time_marshals t" and "i \<noteq> uuid_Nil" and "- (2 ^ 63) \<le> p" "p < 2 ^ 63"
  shows "\<exists>c. encodePhotoCursor tc p t i = Some c \<and> c \<noteq> [] \<and> decodePhotoCursor tc c = Inr (p, t, i)"
proof -
  let ?v = "JObj [(''p'', JNum (FormatInt p)), (''t'', JStr (time_Format tc t)), (''i'', JStr (uuid_String tc i))]"
  have raw: "json_parse (json_print ?v) = Some ?v" by (rule json_parse_print) (simp add: FormatInt_number)
  have enc: "encodePhotoCursor tc p t i = Some (RawURLEncoding_Encode (json_print ?v))"
    using assms(1) by (simp add: encodePhotoCursor_def)
  have ne: "RawURLEncoding_Encode (json_print ?v) \<noteq> []" by (rule b64_nonempty) simp
  have "unmarshal_photoCursor tc (json_print ?v) = Some \<lparr>pc_Position = p, pc_CreatedAt = t, pc_ID = i\<rparr>"
    unfolding unmarshal_photoCursor_def unmarshal_struct_def raw
    by (simp add: decode_field_simps dec_text_def dec_number_def time_back [OF assms(1)] uuid_back
        ParseInt_FormatInt [OF assms(3,4)])
  then have "decodePhotoCursor tc (RawURLEncoding_Encode (json_print ?v)) = Inr (p, t, i)"
    using ne assms(2) by (simp add: decodePhotoCursor_def b64_roundtrip del: json_print.simps)
  with enc ne show ?thesis by blast
qed

end

section \<open>Pages of photos\<close>

text \<open>
  The keyset contract is stated for descending keys, so the ascending list uses the negated key.
\<close>

definition desc_key :: "int \<times> time \<times> uuid \<Rightarrow> int \<times> int \<times> int" where
  "desc_key k = (case k of (p, t, i) \<Rightarrow> (- p, - t, - uint i))"

lemma desc_key_less: "desc_key a < desc_key b \<longleftrightarrow> b < a"
  by (cases a; cases b) (auto simp: desc_key_def less_prod_def' word_less_def)

lemma desc_key_inject: "desc_key a = desc_key b \<longleftrightarrow> a = b"
  by (cases a; cases b) (auto simp: desc_key_def word_uint_eq_iff)

lemma sort_key_desc:
  assumes "distinct (map photo_key ps)"
  shows "order_desc (\<lambda>p. desc_key (photo_key p)) ps = sort_key photo_key ps"
proof -
  let ?xs = "order_desc (\<lambda>p. desc_key (photo_key p)) ps" and ?ys = "sort_key photo_key ps"
  have inj: "inj_on photo_key (set ps)" using assms by (simp add: distinct_map)
  have dist: "distinct (map (\<lambda>p. desc_key (photo_key p)) ps)"
    using assms by (simp add: distinct_map inj_on_def desc_key_inject)
  have "sorted_wrt (\<lambda>a b. photo_key a < photo_key b) ?xs"
    using order_desc_strict [OF dist] by (simp add: desc_key_less)
  then have xs: "sorted (map photo_key ?xs)" "distinct (map photo_key ?xs)"
    using strict_sorted_iff [of "map photo_key ?xs"] by (simp_all add: sorted_wrt_map)
  have ys: "sorted (map photo_key ?ys)" "distinct (map photo_key ?ys)"
    using assms by (simp_all add: distinct_map)
  have "map photo_key ?xs = map photo_key ?ys"
    by (rule sorted_distinct_set_unique) (use xs ys in \<open>simp_all add: set_map [symmetric] del: set_map\<close>, simp)
  then show ?thesis using inj by (simp add: inj_on_map_eq_map)
qed

definition photo_marshals :: "Photo \<Rightarrow> bool" where
  "photo_marshals p \<longleftrightarrow> time_marshals (ph_CreatedAt p) \<and> ph_ID p \<noteq> uuid_Nil \<and> - (2 ^ 31) \<le> ph_Position p \<and> ph_Position p < 2 ^ 31"

sublocale text_forms \<subseteq> photos_by_position: keyset "\<lambda>p. desc_key (photo_key p)"
    "\<lambda>p. encodePhotoCursor tc (ph_Position p) (ph_CreatedAt p) (ph_ID p)" "\<lambda>c. map_sum id desc_key (decodePhotoCursor tc c)" photo_marshals
proof
  fix p
  assume "photo_marshals p"
  then have "time_marshals (ph_CreatedAt p)" "ph_ID p \<noteq> uuid_Nil" "- (2 ^ 63) \<le> ph_Position p" "ph_Position p < 2 ^ 63"
    by (simp_all add: photo_marshals_def)
  from photo_cursor_back [OF this] show "\<exists>c. encodePhotoCursor tc (ph_Position p) (ph_CreatedAt p) (ph_ID p) = Some c \<and> c \<noteq> [] \<and>
      map_sum id desc_key (decodePhotoCursor tc c) = Inr (desc_key (photo_key p))"
    by (auto simp: photo_key_def)
qed (simp add: decodePhotoCursor_def desc_key_def)

context text_forms
begin

lemmas photo_walk = photos_by_position.walk_all

end

definition specimen_photos :: "auth_User \<Rightarrow> uuid \<Rightarrow> database \<Rightarrow> Photo list" where
  "specimen_photos u sid d = filter (\<lambda>p. ph_SpecimenID p = sid \<and> photo_scope d u p) (db_photos d)"

lemma photo_keys_distinct:
  assumes "distinct (map ph_ID ps)"
  shows "distinct (map photo_key (filter P ps))"
proof -
  have "distinct (map ph_ID (filter P ps))" using assms by (rule distinct_map_filter)
  then show ?thesis by (auto simp: distinct_map inj_on_def photo_key_def)
qed

lemma ListBySpecimen_keyset:
  assumes "distinct (map ph_ID (db_photos d))"
  shows "ListBySpecimen tc u sid \<lparr>pg_Limit = l, pg_Cursor = c\<rparr> d =
    keyset_list (\<lambda>p. desc_key (photo_key p)) (\<lambda>p. encodePhotoCursor tc (ph_Position p) (ph_CreatedAt p) (ph_ID p))
      (\<lambda>c. map_sum id desc_key (decodePhotoCursor tc c)) (specimen_photos u sid d) (clampLimit l) c"
proof (cases "decodePhotoCursor tc c")
  case (Inr k)
  let ?P = "\<lambda>p. c \<noteq> [] \<longrightarrow> k < photo_key p"
  have "filter ?P (specimen_photos u sid d) =
      filter (\<lambda>p. ph_SpecimenID p = sid \<and> (c \<noteq> [] \<longrightarrow> k < photo_key p) \<and> photo_scope d u p) (db_photos d)"
    by (auto simp: specimen_photos_def intro: filter_cong)
  moreover have "distinct (map photo_key (filter ?P (specimen_photos u sid d)))"
    unfolding specimen_photos_def filter_filter by (rule photo_keys_distinct [OF assms])
  ultimately show ?thesis
    using Inr by (simp add: ListBySpecimen_def keyset_list_def desc_key_less sort_key_desc Let_def)
qed (simp add: ListBySpecimen_def keyset_list_def Let_def)

lemma photo_pages:
  fixes tc :: "'r::zero text_codec"
  assumes "text_forms tc" and "distinct (map ph_ID (db_photos d))" and "\<forall>p\<in>set (db_photos d). photo_marshals p"
  shows "\<exists>ps. walk (Suc (length (db_photos d))) (\<lambda>c. ListBySpecimen tc u sid \<lparr>pg_Limit = l, pg_Cursor = c\<rparr> d) [] = Some ps \<and>
    concat ps = sort_key photo_key (specimen_photos u sid d) \<and> (\<forall>p\<in>set ps. length p \<le> 200)"
proof -
  let ?rows = "specimen_photos u sid d"
  have good: "\<forall>p\<in>set ?rows. photo_marshals p" using assms(3) by (simp add: specimen_photos_def)
  have keys: "distinct (map photo_key ?rows)" unfolding specimen_photos_def by (rule photo_keys_distinct [OF assms(2)])
  then have desc: "distinct (map (\<lambda>p. desc_key (photo_key p)) ?rows)"
    by (simp add: distinct_map inj_on_def desc_key_inject)
  have fuel: "length ?rows < Suc (length (db_photos d))" by (simp add: specimen_photos_def less_Suc_eq_le)
  have lim: "0 < clampLimit l" "clampLimit l \<le> 200" using clampLimit_range by simp_all
  show ?thesis
    using text_forms.photo_walk [OF assms(1) good desc lim(1) fuel] lim(2)
    by (auto simp: ListBySpecimen_keyset [OF assms(2)] sort_key_desc [OF keys] simp del: walk.simps intro: order_trans)
qed

section \<open>Lookups and constraints\<close>

lemma photo_get: "PhotoPostgres_GetByID d i = Inr p \<Longrightarrow> p \<in> set (db_photos d) \<and> ph_ID p = i"
  by (auto simp: PhotoPostgres_GetByID_def find_Some_iff split: option.splits)

lemma file_get: "FilePostgres_GetByID d i = Inr f \<Longrightarrow> f \<in> set (db_files d) \<and> fi_ID f = i"
  by (auto simp: FilePostgres_GetByID_def find_Some_iff split: option.splits)

lemma find_unique: "distinct (map g xs) \<Longrightarrow> x \<in> set xs \<Longrightarrow> find (\<lambda>y. g y = g x) xs = Some x"
  by (induction xs) auto

lemma photo_get_iff: "distinct (map ph_ID (db_photos d)) \<Longrightarrow> PhotoPostgres_GetByID d i = Inr p \<longleftrightarrow> p \<in> set (db_photos d) \<and> ph_ID p = i"
  using find_unique [of ph_ID "db_photos d" p] photo_get [of d i p] by (auto simp: PhotoPostgres_GetByID_def)

lemma file_get_iff: "distinct (map fi_ID (db_files d)) \<Longrightarrow> FilePostgres_GetByID d i = Inr f \<longleftrightarrow> f \<in> set (db_files d) \<and> fi_ID f = i"
  using find_unique [of fi_ID "db_files d" f] file_get [of d i f] by (auto simp: FilePostgres_GetByID_def)

lemma default_kind_simps [simp]:
  "ph_ID (default_kind p) = ph_ID p" "ph_SpecimenID (default_kind p) = ph_SpecimenID p" "ph_FileID (default_kind p) = ph_FileID p"
  "ph_Position (default_kind p) = ph_Position p"
  by (simp_all add: default_kind_def)

lemma written_columns_simps [simp]:
  "ph_ID (written_columns p r) = ph_ID r" "ph_SpecimenID (written_columns p r) = ph_SpecimenID r" "ph_FileID (written_columns p r) = ph_FileID r"
  by (simp_all add: written_columns_def)

lemma MaxPosition_bound: "p \<in> set (db_photos d) \<Longrightarrow> ph_Position p \<le> MaxPosition d (ph_SpecimenID p)"
proof -
  assume "p \<in> set (db_photos d)"
  then have "ph_Position p \<in> set (map ph_Position (filter (\<lambda>q. ph_SpecimenID q = ph_SpecimenID p) (db_photos d)))" by simp
  then obtain x xs where eq: "map ph_Position (filter (\<lambda>q. ph_SpecimenID q = ph_SpecimenID p) (db_photos d)) = x # xs"
    and elem: "ph_Position p \<in> set (x # xs)"
    by (cases "map ph_Position (filter (\<lambda>q. ph_SpecimenID q = ph_SpecimenID p) (db_photos d))") simp_all
  show ?thesis unfolding MaxPosition_def eq list.case by (rule Max_ge [OF _ elem]) simp
qed

end
