(* ===== verification/StoredFiles.thy ===== *)
theory StoredFiles
  imports Photos
begin

text \<open>
  What ties the files table to the object store. Every upload writes its objects first and its rows in a
  transaction afterwards; every removal commits the rows first and deletes the objects afterwards. The
  invariant of this order, whatever fails in between, is that no row lacks its object: each files row has
  its original under its own key with the recorded hash, size and type, and each photo has both variants.
  The lemmas here are what the upload and removal handlers of photos and attachments share.
\<close>

section \<open>Keys\<close>

definition variantDisplaySuffix :: string where "variantDisplaySuffix = ''.display.jpg''"
definition variantThumbSuffix :: string where "variantThumbSuffix = ''.thumb.jpg''"

definition original_key :: "(uuid \<Rightarrow> string) \<Rightarrow> uuid \<Rightarrow> string" where
  "original_key str i = ''files/'' @ str i"

definition photo_keys :: "(uuid \<Rightarrow> string) \<Rightarrow> uuid \<Rightarrow> string list" where
  "photo_keys str i = [original_key str i, original_key str i @ variantDisplaySuffix, original_key str i @ variantThumbSuffix]"

text \<open>Identifiers are texts of one length, so the keys of different files never meet.\<close>

locale uniform_text = uuid_text +
  assumes same_length: "length (str a) = length (str b)"
begin

lemma keys_disjoint:
  assumes "k \<in> set (photo_keys str i)" and "k \<in> set (photo_keys str j)"
  shows "i = j"
proof -
  have form: "\<exists>x. k = ''files/'' @ str i @ x" if "k \<in> set (photo_keys str i)" for i
    using that unfolding photo_keys_def original_key_def by auto
  obtain x y where "k = ''files/'' @ str i @ x" "k = ''files/'' @ str j @ y"
    using form [OF assms(1)] form [OF assms(2)] by blast
  then have "str i = str j" using same_length [of i j] by simp
  then show ?thesis by simp
qed

end

interpretation hexu: uniform_text uuid_hex
  by unfold_locales (simp add: uuid_hex_def length_hex_digits)

lemma original_in_keys [simp]: "original_key str i \<in> set (photo_keys str i)"
  and display_in_keys [simp]: "original_key str i @ variantDisplaySuffix \<in> set (photo_keys str i)"
  and thumb_in_keys [simp]: "original_key str i @ variantThumbSuffix \<in> set (photo_keys str i)"
  by (simp_all add: photo_keys_def)

lemma suffixes [simp]:
  "variantDisplaySuffix \<noteq> []" "variantThumbSuffix \<noteq> []" "variantDisplaySuffix \<noteq> variantThumbSuffix" "variantThumbSuffix \<noteq> variantDisplaySuffix"
  by (simp_all add: variantDisplaySuffix_def variantThumbSuffix_def)

lemma photo_keys_distinct_suffix [simp]:
  "original_key str i @ variantDisplaySuffix \<noteq> original_key str i @ variantThumbSuffix"
  "original_key str i \<noteq> original_key str i @ variantDisplaySuffix"
  "original_key str i \<noteq> original_key str i @ variantThumbSuffix"
  by (simp_all add: variantDisplaySuffix_def variantThumbSuffix_def)

section \<open>The invariant\<close>

definition file_stored :: "(uuid \<Rightarrow> string) \<Rightarrow> (bytes \<Rightarrow> string) \<Rightarrow> objects \<Rightarrow> File \<Rightarrow> bool" where
  "file_stored str sha st f \<longleftrightarrow> fi_S3Key f = original_key str (fi_ID f) \<and>
     (\<exists>body. st (fi_S3Key f) = Some (body, fi_ContentType f) \<and> fi_SHA256 f = sha body \<and> fi_ByteSize f = int (length body))"

definition variants_stored :: "(uuid \<Rightarrow> string) \<Rightarrow> objects \<Rightarrow> uuid \<Rightarrow> bool" where
  "variants_stored str st i \<longleftrightarrow>
     (\<forall>sfx\<in>{variantDisplaySuffix, variantThumbSuffix}. \<exists>body. st (original_key str i @ sfx) = Some (body, ''image/jpeg''))"

definition stored_ok :: "(uuid \<Rightarrow> string) \<Rightarrow> (bytes \<Rightarrow> string) \<Rightarrow> database \<Rightarrow> objects \<Rightarrow> bool" where
  "stored_ok str sha d st \<longleftrightarrow> keys_ok d \<and> fk_ok d \<and>
     (\<forall>f\<in>set (db_files d). file_stored str sha st f) \<and> (\<forall>p\<in>set (db_photos d). variants_stored str st (ph_FileID p))"

text \<open>The store outside the keys of one file.\<close>

definition same_elsewhere :: "(uuid \<Rightarrow> string) \<Rightarrow> uuid \<Rightarrow> objects \<Rightarrow> objects \<Rightarrow> bool" where
  "same_elsewhere str i st st' \<longleftrightarrow> (\<forall>k. k \<notin> set (photo_keys str i) \<longrightarrow> st' k = st k)"

lemma same_elsewhere_trans: "same_elsewhere str i a b \<Longrightarrow> same_elsewhere str i b c \<Longrightarrow> same_elsewhere str i a c"
  by (simp add: same_elsewhere_def)

lemma same_elsewhere_refl [simp]: "same_elsewhere str i st st"
  by (simp add: same_elsewhere_def)

lemma same_elsewhere_calls:
  "key \<in> set (photo_keys str i) \<Longrightarrow> same_elsewhere str i st (snd (Upload fl key body ct st))"
  "key \<in> set (photo_keys str i) \<Longrightarrow> same_elsewhere str i st (snd (UploadIfNotExists fl key body ct st))"
  "set keys \<subseteq> set (photo_keys str i) \<Longrightarrow> same_elsewhere str i st (delete_all fl keys st)"
  unfolding same_elsewhere_def
  by (metis Upload_elsewhere, metis UploadIfNotExists_elsewhere, metis delete_all_elsewhere subsetD)

context uniform_text
begin

lemma stored_elsewhere:
  assumes "same_elsewhere str i st st'" and "j \<noteq> i"
  shows "fi_ID f = j \<Longrightarrow> file_stored str sha st f \<Longrightarrow> file_stored str sha st' f"
    and "variants_stored str st j \<Longrightarrow> variants_stored str st' j"
proof -
  have same: "k \<in> set (photo_keys str j) \<Longrightarrow> st' k = st k" for k
    using assms keys_disjoint by (metis same_elsewhere_def)
  show "fi_ID f = j \<Longrightarrow> file_stored str sha st f \<Longrightarrow> file_stored str sha st' f"
    using same [OF original_in_keys] by (auto simp: file_stored_def)
  show "variants_stored str st j \<Longrightarrow> variants_stored str st' j"
    using same [OF display_in_keys] same [OF thumb_in_keys] by (simp add: variants_stored_def)
qed

text \<open>Objects of a file that has no row may come and go.\<close>

lemma stored_ok_elsewhere:
  assumes "stored_ok str sha d st" and "same_elsewhere str i st st'" and "i \<notin> fi_ID ` set (db_files d)"
  shows "stored_ok str sha d st'"
proof -
  have "fi_ID f \<noteq> i" if "f \<in> set (db_files d)" for f using that assms(3) by blast
  moreover have "ph_FileID p \<noteq> i" if "p \<in> set (db_photos d)" for p
    using that assms(1,3) by (auto simp: stored_ok_def fk_ok_def refs_def)
  ultimately show ?thesis
    using assms(1) stored_elsewhere [OF assms(2)] unfolding stored_ok_def by blast
qed

text \<open>A database whose files and photos all come from another, less those of a file whose objects may be gone.\<close>

lemma stored_ok_removed:
  assumes "stored_ok str sha d st" and "same_elsewhere str i st st'" and "keys_ok d'" "fk_ok d'"
    and "set (db_files d') \<subseteq> {f \<in> set (db_files d). fi_ID f \<noteq> i}"
    and "ph_FileID ` set (db_photos d') \<subseteq> ph_FileID ` set (db_photos d)"
  shows "stored_ok str sha d' st'"
proof -
  have "file_stored str sha st' f" if "f \<in> set (db_files d')" for f
    using that assms(1,5) stored_elsewhere(1) [OF assms(2)] by (auto simp: stored_ok_def)
  moreover have "variants_stored str st' (ph_FileID p)" if p: "p \<in> set (db_photos d')" for p
  proof -
    have "ph_FileID p \<in> fi_ID ` set (db_files d')" using p assms(4) by (auto simp: fk_ok_def refs_def)
    then have "ph_FileID p \<noteq> i" using assms(5) by auto
    moreover obtain q where "q \<in> set (db_photos d)" "ph_FileID p = ph_FileID q" using p assms(6) by blast
    ultimately show ?thesis using assms(1) stored_elsewhere(2) [OF assms(2)] by (auto simp: stored_ok_def)
  qed
  ultimately show ?thesis using assms(3,4) by (simp add: stored_ok_def)
qed

lemma stored_ok_same_objects:
  assumes "stored_ok str sha d st" and "keys_ok d'" "fk_ok d'"
    and "set (db_files d') \<subseteq> set (db_files d)" and "ph_FileID ` set (db_photos d') \<subseteq> ph_FileID ` set (db_photos d)"
  shows "stored_ok str sha d' st"
  unfolding stored_ok_def
proof (intro conjI ballI)
  show "keys_ok d'" "fk_ok d'" by (rule assms(2,3))+
  show "file_stored str sha st f" if "f \<in> set (db_files d')" for f
    using subsetD [OF assms(4) that] assms(1) by (simp add: stored_ok_def)
  show "variants_stored str st (ph_FileID p)" if "p \<in> set (db_photos d')" for p
  proof -
    have "ph_FileID p \<in> ph_FileID ` set (db_photos d)" using that assms(5) by (simp add: image_subset_iff)
    then show ?thesis using assms(1) by (auto simp: stored_ok_def)
  qed
qed

text \<open>A key that is free has no row.\<close>

lemma free_key_no_row:
  assumes "stored_ok str sha d st" and "original_key str i \<notin> dom st"
  shows "i \<notin> fi_ID ` set (db_files d)"
  using assms by (auto simp: stored_ok_def file_stored_def domIff)

end

section \<open>The rows\<close>

lemma File_Create_ok:
  assumes "FilePostgres_Create u f d = Inr d'"
  shows "d' = d\<lparr>db_files := db_files d @ [f\<lparr>fi_UploadedBy := u_ID u\<rparr>]\<rparr>" "fi_ID f \<notin> fi_ID ` set (db_files d)"
    "u_ID u \<in> us_ID ` set (db_users d)"
  using assms by (auto simp: FilePostgres_Create_def split: if_splits)

lemma refs_more: "refs f xs g ys \<Longrightarrow> refs f xs g (ys @ zs)" "refs f xs g ys \<Longrightarrow> f x \<in> g ` set ys \<Longrightarrow> refs f (xs @ [x]) g ys"
  by (auto simp: refs_def)

lemma main_image_more: "main_image_refs xs ys \<Longrightarrow> main_image_refs xs (ys @ zs)"
  by (auto simp: main_image_refs_def split: option.splits)

lemma File_Create_keeps:
  assumes "FilePostgres_Create u f d = Inr d'"
  shows "fk_ok d \<Longrightarrow> fk_ok d'" and "keys_ok d \<Longrightarrow> keys_ok d'"
  using File_Create_ok [OF assms] by (auto simp: fk_ok_def keys_ok_def intro: refs_more main_image_more)

lemma File_Delete_ok:
  assumes "FilePostgres_Delete i d = Inr d'"
  shows "db_files d' = filter (\<lambda>f. fi_ID f \<noteq> i) (db_files d)" "db_photos d' = db_photos d" "db_journal_files d' = db_journal_files d"
    "fk_ok d \<Longrightarrow> fk_ok d'" "keys_ok d \<Longrightarrow> keys_ok d'"
proof -
  obtain n where n: "delete_files (\<lambda>f. fi_ID f = i) d = Inr (n, d')"
    using assms by (auto simp: FilePostgres_Delete_def sum_bind_Inr split: if_splits)
  then have d': "d' = d\<lparr>db_files := filter (\<lambda>f. fi_ID f \<noteq> i) (db_files d),
      db_specimens := map (clear_main_image (fi_ID ` set (filter (\<lambda>f. fi_ID f = i) (db_files d)))) (db_specimens d)\<rparr>"
    by (auto simp: delete_files_def Let_def split: if_splits)
  show "db_files d' = filter (\<lambda>f. fi_ID f \<noteq> i) (db_files d)" "db_photos d' = db_photos d" "db_journal_files d' = db_journal_files d"
    by (simp_all add: d')
  show "fk_ok d \<Longrightarrow> fk_ok d'" using delete_files_fk [OF n] .
  show "keys_ok d \<Longrightarrow> keys_ok d'" by (simp add: d' keys_ok_def distinct_map_filter comp_def)
qed

lemma Photo_Create_ok:
  assumes "PhotoPostgres_Create p d = Inr d'"
  shows "d' = d\<lparr>db_photos := db_photos d @ [default_kind p]\<rparr>" "ph_ID p \<notin> ph_ID ` set (db_photos d)"
    "ph_SpecimenID p \<in> sp_ID ` set (db_specimens d)" "ph_FileID p \<in> fi_ID ` set (db_files d)" "photo_columns (default_kind p) = None"
  using assms by (auto simp: PhotoPostgres_Create_def Let_def split: if_splits option.splits)

lemma Photo_Create_keeps:
  assumes "PhotoPostgres_Create p d = Inr d'"
  shows "fk_ok d \<Longrightarrow> fk_ok d'" and "keys_ok d \<Longrightarrow> keys_ok d'"
  using Photo_Create_ok [OF assms] by (auto simp: fk_ok_def keys_ok_def intro: refs_more)

lemma Photo_Update_ok:
  assumes "PhotoPostgres_Update p d = Inr d'"
  shows "d' = d\<lparr>db_photos := map (\<lambda>row. if ph_ID row = ph_ID p then written_columns (default_kind p) row else row) (db_photos d)\<rparr>"
    "ph_ID p \<in> ph_ID ` set (db_photos d)" "photo_columns (default_kind p) = None"
  using assms by (auto simp: PhotoPostgres_Update_def Let_def split: if_splits option.splits)

lemma Photo_Update_keeps:
  assumes "PhotoPostgres_Update p d = Inr d'"
  shows "fk_ok d \<Longrightarrow> fk_ok d'" and "keys_ok d \<Longrightarrow> keys_ok d'" "map ph_FileID (db_photos d') = map ph_FileID (db_photos d)"
proof -
  let ?h = "\<lambda>row. if ph_ID row = ph_ID p then written_columns (default_kind p) row else row"
  have d': "d' = d\<lparr>db_photos := map ?h (db_photos d)\<rparr>" by (rule Photo_Update_ok(1) [OF assms])
  have same: "ph_ID (?h row) = ph_ID row" "ph_SpecimenID (?h row) = ph_SpecimenID row" "ph_FileID (?h row) = ph_FileID row" for row by simp_all
  show "fk_ok d \<Longrightarrow> fk_ok d'" by (simp add: d' fk_ok_def refs_map same)
  show "keys_ok d \<Longrightarrow> keys_ok d'" by (simp add: d' keys_ok_def comp_def same)
  show "map ph_FileID (db_photos d') = map ph_FileID (db_photos d)" by (simp add: d' comp_def same)
qed

lemma Photo_Delete_ok:
  assumes "PhotoPostgres_Delete i d = Inr d'"
  shows "d' = d\<lparr>db_photos := filter (\<lambda>p. ph_ID p \<noteq> i) (db_photos d)\<rparr>" "fk_ok d \<Longrightarrow> fk_ok d'" "keys_ok d \<Longrightarrow> keys_ok d'"
proof -
  show d': "d' = d\<lparr>db_photos := filter (\<lambda>p. ph_ID p \<noteq> i) (db_photos d)\<rparr>"
    using assms by (auto simp: PhotoPostgres_Delete_def split: if_splits)
  show "fk_ok d \<Longrightarrow> fk_ok d'" by (simp add: d' fk_ok_def refs_keep)
  show "keys_ok d \<Longrightarrow> keys_ok d'" by (simp add: d' keys_ok_def distinct_map_filter)
qed

end
