(* ===== verification/PhotoService.thy ===== *)
theory PhotoService
  imports StoredFiles ExifBlob ExifChunks ExifJpeg
begin

text \<open>
  The photo endpoints (\<open>src/internal/api/photos.go\<close>): the upload pipeline (checks, metadata filter, variants,
  objects, then rows), the list with its per-photo redaction, the patch, the removal, and the downloads of
  the original and the two variants. Requests are decoded by the huma package; the identity of the caller,
  the fresh identifiers, the clock, SHA-256, the EXIF library and the image library are arguments. Of the
  response headers the constant cache control, and the length that repeats the recorded size, are left out.
\<close>

section \<open>The service\<close>

record ('r, 'img) photo_env =
  pe_guard :: authzGuard
  pe_tc :: "'r text_codec"
  pe_vc :: value_codec
  pe_faults :: faults
  pe_tx :: tx_env
  pe_blob :: "bytes \<Rightarrow> blob_error + bytes"
  pe_readDateTimeOriginal :: "bytes \<Rightarrow> time option"
  pe_images :: "'img image_lib"
  pe_sha256 :: "bytes \<Rightarrow> string"
  pe_rfc3339 :: "string \<Rightarrow> time option"
  pe_fileID :: uuid
  pe_photoID :: uuid
  pe_now :: time

record photo_world =
  pw_db :: database
  pw_objects :: objects

abbreviation pe_str :: "('r, 'img) photo_env \<Rightarrow> uuid \<Rightarrow> string" where
  "pe_str env \<equiv> uuid_String (pe_tc env)"

definition allowedPhotoContentTypes :: "string list" where
  "allowedPhotoContentTypes = [''image/jpeg'', ''image/png'', ''image/webp'']"

definition isAllowedPhotoContentType :: "string \<Rightarrow> bool" where
  "isAllowedPhotoContentType ct \<longleftrightarrow> ct \<in> set allowedPhotoContentTypes"

record PhotoView =
  pv_ID :: uuid
  pv_SpecimenID :: uuid
  pv_FileID :: uuid
  pv_ContentType :: string
  pv_ByteSize :: int
  pv_SHA256 :: string
  pv_Kind :: string
  pv_TakenAt :: "time option"
  pv_Position :: int
  pv_Visibility :: "Visibility option"
  pv_CreatedAt :: time

definition toPhotoView :: "Photo \<Rightarrow> File \<Rightarrow> PhotoView" where
  "toPhotoView p f =
     \<lparr>pv_ID = ph_ID p, pv_SpecimenID = ph_SpecimenID p, pv_FileID = ph_FileID p, pv_ContentType = fi_ContentType f,
      pv_ByteSize = fi_ByteSize f, pv_SHA256 = fi_SHA256 f, pv_Kind = (if ph_Kind p = [] then ''visible'' else ph_Kind p),
      pv_TakenAt = ph_TakenAt p, pv_Position = ph_Position p, pv_Visibility = ph_Visibility p, pv_CreatedAt = ph_CreatedAt p\<rparr>"

definition internal_error :: apiError where
  "internal_error = newAPIError 500 ''internal_error'' ''internal server error'' []"

definition mapPhotoError :: "repo_error \<Rightarrow> apiError" where
  "mapPhotoError err = (if err = Domain ErrPhotoNotFound then newAPIError 404 ''photo_not_found'' ''no such photo'' [] else internal_error)"

definition mapFileError :: "repo_error \<Rightarrow> apiError" where
  "mapFileError err = (if err = Domain ErrFileNotFound then newAPIError 404 ''file_not_found'' ''no such file'' [] else internal_error)"

definition mapPhotoListError :: "list_error \<Rightarrow> apiError" where
  "mapPhotoListError err =
     (case err of ListCursor _ \<Rightarrow> newAPIError 400 ''invalid_cursor'' ''cursor is malformed'' [] | _ \<Rightarrow> internal_error)"

text \<open>Photos carry neither owner nor visibility of their own: the check is on the parent specimen.\<close>

definition enforcePhoto :: "('r, 'img) photo_env \<Rightarrow> auth_User \<Rightarrow> uuid \<Rightarrow> uuid \<Rightarrow> string \<Rightarrow> database \<Rightarrow> apiError option" where
  "enforcePhoto env u specimenID photoID act d =
     (if \<not> guard_active (pe_guard env) then None
      else case SpecimenPostgres_GetByID d specimenID of
        Inl err \<Rightarrow> Some (if err = Domain ErrSpecimenNotFound
            then newAPIError 404 ''specimen_not_found'' ''no such specimen'' [(''field'', ''id'')] else internal_error)
      | Inr sp \<Rightarrow> guard_check (pe_guard env) u (photoResource (ag_str (pe_guard env)) photoID sp) act)"

section \<open>Upload\<close>

text \<open>The uploaded part, as far as it could be read.\<close>

datatype body_read = BodyRead bytes | BodyTooLarge int | BodyFailed

record uploadPhotoInput =
  up_SpecimenID :: string
  up_ContentType :: string
  up_Body :: body_read
  up_TakenAt :: string
  up_Kind :: string

definition to_lower :: "string \<Rightarrow> string" where
  "to_lower s = map ascii_lower s"

definition read_body :: "body_read \<Rightarrow> apiError + bytes" where
  "read_body b =
     (case b of
        BodyRead data \<Rightarrow> Inr data
      | BodyTooLarge limit \<Rightarrow> Inl (newAPIError 413 ''payload_too_large'' ''upload exceeds the configured size limit''
            [(''max_bytes'', FormatInt limit)])
      | BodyFailed \<Rightarrow> Inl (newAPIError 400 ''bad_request'' ''failed to read upload body'' []))"

definition invalid_kind :: apiError where
  "invalid_kind = newAPIError 400 ''invalid_kind'' ''kind must be one of visible, uv_sw, uv_mw, uv_lw, other'' [(''field'', ''kind'')]"

definition kind_param :: "string \<Rightarrow> apiError + PhotoKind" where
  "kind_param s =
     (let raw = to_lower (trimSpace s) in
      if raw = [] then Inr ''visible'' else if PhotoKind_IsValid raw then Inr raw else Inl invalid_kind)"

definition taken_at_param :: "(string \<Rightarrow> time option) \<Rightarrow> string \<Rightarrow> apiError + time option" where
  "taken_at_param parse s =
     (let raw = trimSpace s in
      if raw = [] then Inr None
      else case parse raw of
        None \<Rightarrow> Inl (newAPIError 400 ''invalid_taken_at'' ''taken_at must be RFC 3339'' [(''field'', ''taken_at'')])
      | Some t \<Rightarrow> Inr (Some t))"

record prepared_upload =
  pu_SpecimenID :: uuid
  pu_ContentType :: string
  pu_Kind :: PhotoKind
  pu_TakenAt :: "time option"
  pu_Filtered :: bytes
  pu_Variants :: Variants

text \<open>A file the metadata filter cannot read is kept as it came.\<close>

definition filtered_bytes :: "('r, 'img) photo_env \<Rightarrow> bytes \<Rightarrow> string \<Rightarrow> bytes" where
  "filtered_bytes env data ct = (case Filter (pe_blob env) data ct of Inl _ \<Rightarrow> data | Inr f \<Rightarrow> f)"

text \<open>Everything before the first write.\<close>

definition prepare_upload ::
  "('r, 'img) photo_env \<Rightarrow> auth_User \<Rightarrow> uploadPhotoInput \<Rightarrow> database \<Rightarrow> apiError + prepared_upload" where
  "prepare_upload env u inp d =
     sum_bind (parseUUID (uuid_Parse (pe_tc env)) (up_SpecimenID inp) ''id'') (\<lambda>sid.
     sum_bind (as_error (enforcePhoto env u sid uuid_Nil ''create'' d)) (\<lambda>_.
     let ct = to_lower (trimSpace (up_ContentType inp)) in
     sum_bind (ensure (isAllowedPhotoContentType ct)
       (newAPIError 415 ''unsupported_media_type'' ''file content-type is not allowed''
         [(''allowed'', json_print (JArr (map JStr allowedPhotoContentTypes))), (''got'', ct)])) (\<lambda>_.
     sum_bind (read_body (up_Body inp)) (\<lambda>data.
     sum_bind (kind_param (up_Kind inp)) (\<lambda>kind.
     sum_bind (taken_at_param (pe_rfc3339 env) (up_TakenAt inp)) (\<lambda>given.
     sum_bind (map_sum (\<lambda>_. newAPIError 400 ''image_decode_failed''
         ''the uploaded file could not be decoded as the declared content type'' [(''content_type'', ct)]) id
       (imageproc_Generate (pe_images env) (filtered_bytes env data ct) ct)) (\<lambda>variants.
     Inr \<lparr>pu_SpecimenID = sid, pu_ContentType = ct, pu_Kind = kind,
       pu_TakenAt = (if given = None then ExtractDateTimeOriginal (pe_readDateTimeOriginal env) (pe_blob env) data ct else given),
       pu_Filtered = filtered_bytes env data ct, pu_Variants = variants\<rparr>)))))))"

definition storage_write_failed :: "string \<Rightarrow> apiError" where
  "storage_write_failed msg = newAPIError 500 ''storage_write_failed'' msg []"

text \<open>The three objects; a failure undoes the writes that went through.\<close>

definition write_objects :: "('r, 'img) photo_env \<Rightarrow> prepared_upload \<Rightarrow> objects \<Rightarrow> apiError option \<times> objects" where
  "write_objects env pu st =
     (let fl = pe_faults env; key = original_key (pe_str env) (pe_fileID env);
          displayKey = key @ variantDisplaySuffix; thumbKey = key @ variantThumbSuffix in
      case UploadIfNotExists fl key (pu_Filtered pu) (pu_ContentType pu) st of
        (Inl e, st1) \<Rightarrow>
          (Some (if e = ErrAlreadyExists then newAPIError 409 ''file_id_collision'' ''object key collision; retry the upload'' []
                 else storage_write_failed ''failed to write original to object storage''), st1)
      | (Inr _, st1) \<Rightarrow>
          (case Upload fl displayKey (va_Display (pu_Variants pu)) ''image/jpeg'' st1 of
             (Inl _, st2) \<Rightarrow> (Some (storage_write_failed ''failed to write display variant''), delete_all fl [key] st2)
           | (Inr _, st2) \<Rightarrow>
               (case Upload fl thumbKey (va_Thumbnail (pu_Variants pu)) ''image/jpeg'' st2 of
                  (Inl _, st3) \<Rightarrow> (Some (storage_write_failed ''failed to write thumbnail variant''), delete_all fl [key, displayKey] st3)
                | (Inr _, st3) \<Rightarrow> (None, st3))))"

definition new_file :: "('r, 'img) photo_env \<Rightarrow> auth_User \<Rightarrow> prepared_upload \<Rightarrow> File" where
  "new_file env u pu =
     \<lparr>fi_ID = pe_fileID env, fi_S3Key = original_key (pe_str env) (pe_fileID env), fi_ContentType = pu_ContentType pu,
      fi_ByteSize = int (length (pu_Filtered pu)), fi_SHA256 = pe_sha256 env (pu_Filtered pu), fi_UploadedAt = pe_now env,
      fi_UploadedBy = u_ID u\<rparr>"

definition new_photo :: "('r, 'img) photo_env \<Rightarrow> prepared_upload \<Rightarrow> int \<Rightarrow> Photo" where
  "new_photo env pu position =
     \<lparr>ph_ID = pe_photoID env, ph_SpecimenID = pu_SpecimenID pu, ph_FileID = pe_fileID env, ph_Kind = pu_Kind pu,
      ph_TakenAt = pu_TakenAt pu, ph_Position = position, ph_Visibility = None, ph_CreatedAt = pe_now env\<rparr>"

definition upload_tx :: "('r, 'img) photo_env \<Rightarrow> auth_User \<Rightarrow> prepared_upload \<Rightarrow> database \<Rightarrow> repo_error + Photo \<times> database" where
  "upload_tx env u pu d =
     sum_bind (FilePostgres_Create u (new_file env u pu) d) (\<lambda>d1.
     let photo = new_photo env pu (MaxPosition d1 (pu_SpecimenID pu) + 1) in
     sum_bind (PhotoPostgres_Create photo d1) (\<lambda>d2. Inr (photo, d2)))"

definition upload_error :: "repo_error \<Rightarrow> apiError" where
  "upload_error err =
     (if err = Domain ErrPhotoNotFound then newAPIError 404 ''specimen_not_found'' ''no such specimen'' [(''field'', ''id'')]
      else if err = Domain ErrFileConflict then newAPIError 409 ''file_conflict'' ''file with that key already exists'' []
      else newAPIError 500 ''internal_error'' ''failed to commit upload'' [])"

definition photo_upload ::
  "('r, 'img) photo_env \<Rightarrow> auth_User \<Rightarrow> uploadPhotoInput \<Rightarrow> photo_world \<Rightarrow> (apiError + string \<times> PhotoView) \<times> photo_world" where
  "photo_upload env u inp w =
     (case prepare_upload env u inp (pw_db w) of
        Inl e \<Rightarrow> (Inl e, w)
      | Inr pu \<Rightarrow>
          (case write_objects env pu (pw_objects w) of
             (Some e, st) \<Rightarrow> (Inl e, w\<lparr>pw_objects := st\<rparr>)
           | (None, st) \<Rightarrow>
               (case RunInTx (pe_tx env) id (upload_tx env u pu) (pw_db w) of
                  (Inl err, d) \<Rightarrow>
                    (Inl (upload_error err),
                     \<lparr>pw_db = d, pw_objects = delete_all (pe_faults env) (photo_keys (pe_str env) (pe_fileID env)) st\<rparr>)
                | (Inr photo, d) \<Rightarrow>
                    (Inr (''/api/v1/photos/'' @ pe_str env (ph_ID photo), toPhotoView photo (new_file env u pu)),
                     \<lparr>pw_db = d, pw_objects = st\<rparr>))))"

section \<open>List\<close>

record photoListBody =
  pl_Items :: "PhotoView list"
  pl_NextCursor :: "string option"

fun photo_views :: "database \<Rightarrow> Photo list \<Rightarrow> apiError + PhotoView list" where
  "photo_views d [] = Inr []"
| "photo_views d (p # ps) =
     (case FilePostgres_GetByID d (ph_FileID p) of
        Inl _ \<Rightarrow> Inl (newAPIError 500 ''internal_error'' ''failed to load photo file'' [])
      | Inr f \<Rightarrow> sum_bind (photo_views d ps) (\<lambda>vs. Inr (toPhotoView p f # vs)))"

definition photo_redactor :: "('r, 'img) photo_env \<Rightarrow> database \<Rightarrow> redactor" where
  "photo_redactor env d = newRedactor (Some (\<lambda>i. map_sum (\<lambda>_. ErrUserNotFound) id (GetByID (db_users d) i))) (pe_guard env)"

definition photo_list ::
  "('r, 'img) photo_env \<Rightarrow> auth_User \<Rightarrow> string \<Rightarrow> int \<Rightarrow> string \<Rightarrow> database \<Rightarrow> apiError + photoListBody" where
  "photo_list env u rawID limit cursor d =
     sum_bind (parseUUID (uuid_Parse (pe_tc env)) rawID ''id'') (\<lambda>sid.
     sum_bind (map_sum mapSpecimenError id (SpecimenPostgres_GetByID d sid)) (\<lambda>sp.
     sum_bind (as_error (checkView (pe_guard env) u (specimenResource (ag_str (pe_guard env)) sp)
       ''specimen_not_found'' ''no such specimen'')) (\<lambda>_.
     sum_bind (map_sum mapPhotoListError id (ListBySpecimen (pe_tc env) u sid \<lparr>pg_Limit = limit, pg_Cursor = cursor\<rparr> d)) (\<lambda>(rows, next).
     sum_bind (photo_views d (fst (filterPhotos (photo_redactor env d) u sp rows))) (\<lambda>items.
     Inr \<lparr>pl_Items = items, pl_NextCursor = (if next = [] then None else Some next)\<rparr>)))))"

section \<open>Patch and removal\<close>

record patchPhotoBody =
  pp_TakenAt :: "time option"
  pp_Position :: "int option"
  pp_Kind :: "string option"
  pp_Visibility :: string

definition patch_photo :: "('r, 'img) photo_env \<Rightarrow> patchPhotoBody \<Rightarrow> Photo \<Rightarrow> apiError + Photo" where
  "patch_photo env b cur =
     (let cur1 = (case pp_TakenAt b of None \<Rightarrow> cur | Some t \<Rightarrow> cur\<lparr>ph_TakenAt := Some t\<rparr>) in
      sum_bind (case pp_Position b of
          None \<Rightarrow> Inr cur1
        | Some n \<Rightarrow> if n < 1 then Inl (newAPIError 400 ''invalid_position'' ''position must be >= 1'' [(''field'', ''position'')])
            else Inr (cur1\<lparr>ph_Position := n\<rparr>)) (\<lambda>cur2.
      sum_bind (case pp_Kind b of
          None \<Rightarrow> Inr cur2
        | Some s \<Rightarrow> let k = to_lower (trimSpace s) in
            if PhotoKind_IsValid k then Inr (cur2\<lparr>ph_Kind := k\<rparr>) else Inl invalid_kind) (\<lambda>cur3.
      sum_bind (applyVisibilityPatch (pe_vc env) (pp_Visibility b) ''visibility'' (ph_Visibility cur3)) (\<lambda>vis.
      Inr (cur3\<lparr>ph_Visibility := vis\<rparr>)))))"

definition photo_patch ::
  "('r, 'img) photo_env \<Rightarrow> auth_User \<Rightarrow> string \<Rightarrow> patchPhotoBody \<Rightarrow> photo_world \<Rightarrow> (apiError + PhotoView) \<times> photo_world" where
  "photo_patch env u rawID b w =
     (let d = pw_db w in
      case sum_bind (parseUUID (uuid_Parse (pe_tc env)) rawID ''id'') (\<lambda>i.
           sum_bind (map_sum mapPhotoError id (PhotoPostgres_GetByID d i)) (\<lambda>cur.
           sum_bind (as_error (enforcePhoto env u (ph_SpecimenID cur) (ph_ID cur) ''edit'' d)) (\<lambda>_.
           sum_bind (patch_photo env b cur) (\<lambda>cur'.
           sum_bind (map_sum mapPhotoError id (PhotoPostgres_Update cur' d)) (\<lambda>d'. Inr (cur', d')))))) of
        Inl e \<Rightarrow> (Inl e, w)
      | Inr (cur', d') \<Rightarrow>
          (case FilePostgres_GetByID d' (ph_FileID cur') of
             Inl e \<Rightarrow> (Inl (mapFileError e), w\<lparr>pw_db := d'\<rparr>)
           | Inr f \<Rightarrow> (Inr (toPhotoView cur' f), w\<lparr>pw_db := d'\<rparr>)))"

definition remove_tx :: "Photo \<Rightarrow> database \<Rightarrow> repo_error + unit \<times> database" where
  "remove_tx p d =
     sum_bind (PhotoPostgres_Delete (ph_ID p) d) (\<lambda>d1. sum_bind (FilePostgres_Delete (ph_FileID p) d1) (\<lambda>d2. Inr ((), d2)))"

definition removePhotoBytes :: "('r, 'img) photo_env \<Rightarrow> Photo \<Rightarrow> photo_world \<Rightarrow> (repo_error + unit) \<times> photo_world" where
  "removePhotoBytes env p w =
     (case RunInTx (pe_tx env) id (remove_tx p) (pw_db w) of
        (Inl e, d) \<Rightarrow> (Inl e, w\<lparr>pw_db := d\<rparr>)
      | (Inr _, d) \<Rightarrow>
          (Inr (), \<lparr>pw_db = d, pw_objects = delete_all (pe_faults env) (photo_keys (pe_str env) (ph_FileID p)) (pw_objects w)\<rparr>))"

definition photo_delete :: "('r, 'img) photo_env \<Rightarrow> auth_User \<Rightarrow> string \<Rightarrow> photo_world \<Rightarrow> (apiError + unit) \<times> photo_world" where
  "photo_delete env u rawID w =
     (case sum_bind (parseUUID (uuid_Parse (pe_tc env)) rawID ''id'') (\<lambda>i.
           sum_bind (map_sum mapPhotoError id (PhotoPostgres_GetByID (pw_db w) i)) (\<lambda>cur.
           sum_bind (as_error (enforcePhoto env u (ph_SpecimenID cur) (ph_ID cur) ''delete'' (pw_db w))) (\<lambda>_. Inr cur))) of
        Inl e \<Rightarrow> (Inl e, w)
      | Inr cur \<Rightarrow>
          (case removePhotoBytes env cur w of
             (Inl e, w') \<Rightarrow> (Inl (mapPhotoError e), w')
           | (Inr _, w') \<Rightarrow> (Inr (), w')))"

section \<open>Downloads\<close>

definition trimSuffix :: "string \<Rightarrow> string \<Rightarrow> string" where
  "trimSuffix s sfx = (if hasPrefix (rev s) (rev sfx) then take (length s - length sfx) s else s)"

definition trimPrefix :: "string \<Rightarrow> string \<Rightarrow> string" where
  "trimPrefix s p = (if hasPrefix s p then drop (length p) s else s)"

text \<open>\<open>url.PathEscape\<close>: a byte that a path segment may carry stands for itself, any other is percent-encoded.\<close>

definition segment_char :: "char \<Rightarrow> bool" where
  "segment_char c \<longleftrightarrow> (let n = of_char c :: nat in 48 \<le> n \<and> n \<le> 57 \<or> 65 \<le> n \<and> n \<le> 90 \<or> 97 \<le> n \<and> n \<le> 122) \<or> c \<in> set ''-_.~$&+=:@''"

definition upper_hex :: "nat \<Rightarrow> char" where
  "upper_hex n = ''0123456789ABCDEF'' ! n"

definition PathEscape :: "string \<Rightarrow> string" where
  "PathEscape s = concat (map (\<lambda>c. if segment_char c then [c]
     else let n = of_char c :: nat in [CHR ''%'', upper_hex (n div 16), upper_hex (n mod 16)]) s)"

definition extensionForContentType :: "string \<Rightarrow> string" where
  "extensionForContentType ct =
     (if ct = ''image/jpeg'' then ''.jpg'' else if ct = ''image/png'' then ''.png'' else if ct = ''image/webp'' then ''.webp'' else [])"

definition disposition_header :: "string \<Rightarrow> string \<Rightarrow> string" where
  "disposition_header disposition filename =
     disposition @ ''; filename='' @ [quote_char] @ filename @ [quote_char] @ ''; filename*=UTF-8'' @ [CHR 0x27, CHR 0x27] @ PathEscape filename"

definition buildContentDisposition :: "(uuid \<Rightarrow> string) \<Rightarrow> uuid \<Rightarrow> string \<Rightarrow> string \<Rightarrow> string" where
  "buildContentDisposition str photoID contentType variantSuffix =
     (let name = str photoID @ (if variantSuffix \<noteq> [] then trimSuffix variantSuffix ''.jpg'' else []) in
      disposition_header (if hasPrefix contentType ''image/'' then ''inline'' else ''attachment'') (name @ extensionForContentType contentType))"

record file_response =
  fr_ContentType :: string
  fr_ETag :: string
  fr_Disposition :: string
  fr_Body :: bytes

datatype download_reply = DownloadError apiError | NotModified string | Served file_response

text \<open>The checks of the raw routes answer a viewer without access like a missing photo.\<close>

definition no_such_photo :: apiError where
  "no_such_photo = newAPIError 404 ''photo_not_found'' ''no such photo'' []"

definition enforcePhotoHTTP ::
  "('r, 'img) photo_env \<Rightarrow> auth_User \<Rightarrow> uuid \<Rightarrow> uuid \<Rightarrow> string \<Rightarrow> database \<Rightarrow> bool \<times> apiError option" where
  "enforcePhotoHTTP env u specimenID photoID act d =
     (if \<not> guard_active (pe_guard env) then (True, None)
      else case SpecimenPostgres_GetByID d specimenID of
        Inl err \<Rightarrow> (False, Some (if err = Domain ErrSpecimenNotFound then no_such_photo else internal_error))
      | Inr sp \<Rightarrow>
          let res = photoResource (ag_str (pe_guard env)) photoID sp in
          if act = ''view'' then checkViewHTTP (pe_guard env) u res ''photo_not_found'' ''no such photo''
          else checkHTTP (pe_guard env) u res act)"

definition canSeePhotoHTTP :: "('r, 'img) photo_env \<Rightarrow> auth_User \<Rightarrow> Photo \<Rightarrow> database \<Rightarrow> bool \<times> apiError option" where
  "canSeePhotoHTTP env u p d =
     (if \<not> guard_active (pe_guard env) then (True, None)
      else case SpecimenPostgres_GetByID d (ph_SpecimenID p) of
        Inl err \<Rightarrow> (False, Some (if err = Domain ErrSpecimenNotFound then no_such_photo else internal_error))
      | Inr sp \<Rightarrow>
          let owner = fst (loadOwner (photo_redactor env d) (sp_AuthorID sp)) in
          if canSeePhoto (pe_guard env) u sp owner p then (True, None) else (False, Some no_such_photo))"

definition photo_etag :: "string \<Rightarrow> string \<Rightarrow> string" where
  "photo_etag sha variantSuffix =
     [quote_char] @ sha @ (if variantSuffix \<noteq> [] then ''-'' @ trimPrefix (trimSuffix variantSuffix ''.jpg'') ''.'' else []) @ [quote_char]"

definition serveDownload ::
  "('r, 'img) photo_env \<Rightarrow> auth_User \<Rightarrow> string \<Rightarrow> string \<Rightarrow> string \<Rightarrow> photo_world \<Rightarrow> download_reply" where
  "serveDownload env u rawID ifNoneMatch variantSuffix w =
     (let d = pw_db w in
      case uuid_Parse (pe_tc env) rawID of
        None \<Rightarrow> DownloadError (newAPIError 400 ''invalid_id'' ''id must be a UUID'' [(''field'', ''id'')])
      | Some i \<Rightarrow>
      (case PhotoPostgres_GetByID d i of
        Inl err \<Rightarrow> DownloadError (mapPhotoError err)
      | Inr p \<Rightarrow>
      (case enforcePhotoHTTP env u (ph_SpecimenID p) (ph_ID p) ''view'' d of
        (False, e) \<Rightarrow> DownloadError (the e)
      | (True, _) \<Rightarrow>
      (case canSeePhotoHTTP env u p d of
        (False, e) \<Rightarrow> DownloadError (the e)
      | (True, _) \<Rightarrow>
      (case FilePostgres_GetByID d (ph_FileID p) of
        Inl err \<Rightarrow> DownloadError (mapFileError err)
      | Inr f \<Rightarrow>
          let contentType = (if variantSuffix \<noteq> [] then ''image/jpeg'' else fi_ContentType f);
              etag = photo_etag (fi_SHA256 f) variantSuffix in
          if ifNoneMatch \<noteq> [] \<and> ifNoneMatch = etag then NotModified etag
          else (case Download (pe_faults env) (fi_S3Key f @ variantSuffix) (pw_objects w) of
              Inl err \<Rightarrow> DownloadError (if err = ErrNotFound then newAPIError 404 ''object_not_found'' ''object missing from storage'' []
                    else newAPIError 500 ''storage_read_failed'' ''failed to read object from storage'' [])
            | Inr (body, _) \<Rightarrow>
                Served \<lparr>fr_ContentType = contentType, fr_ETag = etag,
                  fr_Disposition = buildContentDisposition (pe_str env) (ph_ID p) contentType variantSuffix, fr_Body = body\<rparr>))))))"

definition downloadOriginal :: "('r, 'img) photo_env \<Rightarrow> auth_User \<Rightarrow> string \<Rightarrow> string \<Rightarrow> photo_world \<Rightarrow> download_reply" where
  "downloadOriginal env u rawID ifNoneMatch w = serveDownload env u rawID ifNoneMatch [] w"

definition downloadDisplay :: "('r, 'img) photo_env \<Rightarrow> auth_User \<Rightarrow> string \<Rightarrow> string \<Rightarrow> photo_world \<Rightarrow> download_reply" where
  "downloadDisplay env u rawID ifNoneMatch w = serveDownload env u rawID ifNoneMatch variantDisplaySuffix w"

definition downloadThumb :: "('r, 'img) photo_env \<Rightarrow> auth_User \<Rightarrow> string \<Rightarrow> string \<Rightarrow> photo_world \<Rightarrow> download_reply" where
  "downloadThumb env u rawID ifNoneMatch w = serveDownload env u rawID ifNoneMatch variantThumbSuffix w"

section \<open>Requests keep rows and objects together\<close>

lemma write_objects_elsewhere:
  "same_elsewhere (pe_str env) (pe_fileID env) st (snd (write_objects env pu st))"
proof -
  let ?s = "pe_str env" and ?i = "pe_fileID env" and ?fl = "pe_faults env"
  let ?key = "original_key ?s ?i"
  obtain r1 st1 where c1: "UploadIfNotExists ?fl ?key (pu_Filtered pu) (pu_ContentType pu) st = (r1, st1)" by fastforce
  obtain r2 st2 where c2: "Upload ?fl (?key @ variantDisplaySuffix) (va_Display (pu_Variants pu)) ''image/jpeg'' st1 = (r2, st2)" by fastforce
  obtain r3 st3 where c3: "Upload ?fl (?key @ variantThumbSuffix) (va_Thumbnail (pu_Variants pu)) ''image/jpeg'' st2 = (r3, st3)" by fastforce
  have e1: "same_elsewhere ?s ?i st st1" by (metis same_elsewhere_calls(2) [OF original_in_keys] c1 snd_conv)
  have "same_elsewhere ?s ?i st1 st2" by (metis same_elsewhere_calls(1) [OF display_in_keys] c2 snd_conv)
  then have e2: "same_elsewhere ?s ?i st st2" using e1 same_elsewhere_trans by blast
  have "same_elsewhere ?s ?i st2 st3" by (metis same_elsewhere_calls(1) [OF thumb_in_keys] c3 snd_conv)
  then have e3: "same_elsewhere ?s ?i st st3" using e2 same_elsewhere_trans by blast
  have "same_elsewhere ?s ?i st (delete_all ?fl [?key] st2)" "same_elsewhere ?s ?i st (delete_all ?fl [?key, ?key @ variantDisplaySuffix] st3)"
    by (rule same_elsewhere_trans [OF e2 same_elsewhere_calls(3)] same_elsewhere_trans [OF e3 same_elsewhere_calls(3)], simp)+
  then show ?thesis using e1 e3 by (cases r1; cases r2; cases r3) (simp_all add: write_objects_def Let_def c1 c2 c3)
qed

lemma write_objects_ok:
  assumes "write_objects env pu st = (None, st')"
  defines "key \<equiv> original_key (pe_str env) (pe_fileID env)"
  shows "key \<notin> dom st \<and> st' = st(key \<mapsto> (pu_Filtered pu, pu_ContentType pu),
    key @ variantDisplaySuffix \<mapsto> (va_Display (pu_Variants pu), ''image/jpeg''),
    key @ variantThumbSuffix \<mapsto> (va_Thumbnail (pu_Variants pu), ''image/jpeg''))"
  using assms(1) unfolding write_objects_def key_def Let_def
  by (auto simp: UploadIfNotExists_ok Upload_ok split: prod.splits sum.splits)

lemma upload_tx_ok:
  assumes "upload_tx env u pu d = Inr (photo, d')"
  shows "photo = new_photo env pu (MaxPosition d (pu_SpecimenID pu) + 1)"
    "db_files d' = db_files d @ [new_file env u pu]" "db_photos d' = db_photos d @ [default_kind photo]"
    "d' = d\<lparr>db_files := db_files d', db_photos := db_photos d'\<rparr>"
    "pe_fileID env \<notin> fi_ID ` set (db_files d)" "fk_ok d \<Longrightarrow> fk_ok d'" "keys_ok d \<Longrightarrow> keys_ok d'"
proof -
  let ?f = "new_file env u pu"
  obtain d1 where d1: "FilePostgres_Create u ?f d = Inr d1" and p: "PhotoPostgres_Create photo d1 = Inr d'"
    and photo: "photo = new_photo env pu (MaxPosition d1 (pu_SpecimenID pu) + 1)"
    using assms by (auto simp: upload_tx_def sum_bind_Inr Let_def)
  note f = File_Create_ok [OF d1] and q = Photo_Create_ok [OF p]
  have self: "?f\<lparr>fi_UploadedBy := u_ID u\<rparr> = ?f" by (simp add: new_file_def)
  have "MaxPosition d1 (pu_SpecimenID pu) = MaxPosition d (pu_SpecimenID pu)" by (simp add: f(1) MaxPosition_def)
  then show "photo = new_photo env pu (MaxPosition d (pu_SpecimenID pu) + 1)" using photo by simp
  show "db_files d' = db_files d @ [?f]" "db_photos d' = db_photos d @ [default_kind photo]"
    "d' = d\<lparr>db_files := db_files d', db_photos := db_photos d'\<rparr>"
    by (simp_all add: f(1) q(1) self)
  show "pe_fileID env \<notin> fi_ID ` set (db_files d)" using f(2) by (simp add: new_file_def)
  show "fk_ok d \<Longrightarrow> fk_ok d'" "keys_ok d \<Longrightarrow> keys_ok d'"
    using File_Create_keeps [OF d1] Photo_Create_keeps [OF p] by blast+
qed

text \<open>The four shapes of an upload's end.\<close>

lemma photo_upload_cases:
  obtains (refused) e where "photo_upload env u inp w = (Inl e, w)"
  | (not_written) pu e st where "prepare_upload env u inp (pw_db w) = Inr pu" "write_objects env pu (pw_objects w) = (Some e, st)"
      "photo_upload env u inp w = (Inl e, w\<lparr>pw_objects := st\<rparr>)"
  | (rolled_back) pu st err where "prepare_upload env u inp (pw_db w) = Inr pu" "write_objects env pu (pw_objects w) = (None, st)"
      "photo_upload env u inp w = (Inl (upload_error err),
        w\<lparr>pw_objects := delete_all (pe_faults env) (photo_keys (pe_str env) (pe_fileID env)) st\<rparr>)"
  | (committed) pu st photo d where "prepare_upload env u inp (pw_db w) = Inr pu" "write_objects env pu (pw_objects w) = (None, st)"
      "upload_tx env u pu (pw_db w) = Inr (photo, d)"
      "photo_upload env u inp w = (Inr (''/api/v1/photos/'' @ pe_str env (ph_ID photo), toPhotoView photo (new_file env u pu)),
        \<lparr>pw_db = d, pw_objects = st\<rparr>)"
proof (cases "prepare_upload env u inp (pw_db w)")
  case (Inl e)
  then show ?thesis using refused by (simp add: photo_upload_def)
next
  case (Inr pu)
  obtain r st where wr: "write_objects env pu (pw_objects w) = (r, st)" by fastforce
  show ?thesis
  proof (cases r)
    case (Some e)
    then show ?thesis using not_written [OF Inr] wr by (simp add: photo_upload_def Inr)
  next
    case None
    obtain q d where tx: "RunInTx (pe_tx env) id (upload_tx env u pu) (pw_db w) = (q, d)" by fastforce
    show ?thesis
    proof (cases q)
      case (Inl err)
      have "d = pw_db w" by (rule RunInTx_error [OF tx [unfolded Inl]])
      then show ?thesis using rolled_back [OF Inr, of st err] wr None tx Inl by (simp add: photo_upload_def Inr)
    next
      case (Inr photo)
      then have "upload_tx env u pu (pw_db w) = Inr (photo, d)" using tx RunInTx_ok by metis
      with Inr show ?thesis
        using committed [OF \<open>prepare_upload env u inp (pw_db w) = Inr pu\<close>, of st photo d] wr None tx
        by (simp add: photo_upload_def \<open>prepare_upload env u inp (pw_db w) = Inr pu\<close>)
    qed
  qed
qed

lemma write_objects_taken:
  "original_key (pe_str env) (pe_fileID env) \<in> dom st \<Longrightarrow> snd (write_objects env pu st) = st"
  by (auto simp: write_objects_def UploadIfNotExists_def Upload_def Let_def split: fault.split)

definition photo_world_ok :: "('r, 'img) photo_env \<Rightarrow> photo_world \<Rightarrow> bool" where
  "photo_world_ok env w \<longleftrightarrow> stored_ok (pe_str env) (pe_sha256 env) (pw_db w) (pw_objects w)"

lemma photo_upload_keeps:
  assumes "uniform_text (pe_str env)" and "photo_world_ok env w" and "photo_upload env u inp w = (r, w')"
  shows "photo_world_ok env w'"
proof -
  let ?s = "pe_str env" and ?i = "pe_fileID env" and ?st = "pw_objects w"
  note ok = assms(2) [unfolded photo_world_ok_def]
  note else_ok = uniform_text.stored_ok_elsewhere [OF assms(1) ok, of ?i]
  have free: "?i \<notin> fi_ID ` set (db_files (pw_db w))" if "write_objects env pu ?st = (None, st)" for pu st
    using uniform_text.free_key_no_row [OF assms(1) ok] write_objects_ok [OF that] by blast
  have same: "same_elsewhere ?s ?i ?st st" if "write_objects env pu ?st = (x, st)" for pu x st
    using write_objects_elsewhere [of env ?st pu] that by simp
  show ?thesis
  proof (cases env u inp w rule: photo_upload_cases)
    case (refused e)
    then show ?thesis using assms(2,3) by simp
  next
    case (not_written pu e st)
    have "stored_ok ?s (pe_sha256 env) (pw_db w) st"
    proof (cases "original_key ?s ?i \<in> dom ?st")
      case True
      then show ?thesis using write_objects_taken [OF True, of pu] not_written(2) ok by simp
    next
      case False
      then show ?thesis using else_ok [OF same [OF not_written(2)]] uniform_text.free_key_no_row [OF assms(1) ok] by blast
    qed
    then show ?thesis using assms(3) not_written(3) by (auto simp: photo_world_ok_def)
  next
    case (rolled_back pu st err)
    have "same_elsewhere ?s ?i ?st (delete_all (pe_faults env) (photo_keys ?s ?i) st)"
      by (rule same_elsewhere_trans [OF same [OF rolled_back(2)] same_elsewhere_calls(3)]) simp
    then show ?thesis using else_ok free [OF rolled_back(2)] assms(3) rolled_back(3) by (auto simp: photo_world_ok_def)
  next
    case (committed pu st photo d)
    note t = upload_tx_ok [OF committed(3)] and wr = write_objects_ok [OF committed(2), THEN conjunct2]
    have old: "stored_ok ?s (pe_sha256 env) (pw_db w) st" by (rule else_ok [OF same [OF committed(2)] free [OF committed(2)]])
    have "file_stored ?s (pe_sha256 env) st (new_file env u pu)"
      by (simp add: file_stored_def new_file_def wr)
    moreover have "variants_stored ?s st ?i" by (simp add: variants_stored_def wr)
    moreover have "ph_FileID photo = ?i" by (simp add: t(1) new_photo_def)
    ultimately have "stored_ok ?s (pe_sha256 env) d st"
      using old t(6,7) by (auto simp: stored_ok_def t(2,3))
    then show ?thesis using assms(3) committed(4) by (auto simp: photo_world_ok_def)
  qed
qed

lemma photo_patch_cases:
  assumes "photo_patch env u rawID b w = (r, w')"
  obtains (refused) e where "r = Inl e" "w' = w"
  | (updated) cur cur' d' where "cur \<in> set (db_photos (pw_db w))"
      "enforcePhoto env u (ph_SpecimenID cur) (ph_ID cur) ''edit'' (pw_db w) = None" "patch_photo env b cur = Inr cur'"
      "PhotoPostgres_Update cur' (pw_db w) = Inr d'" "w' = w\<lparr>pw_db := d'\<rparr>"
      "r = map_sum mapFileError (toPhotoView cur') (FilePostgres_GetByID d' (ph_FileID cur'))"
proof -
  let ?X = "sum_bind (parseUUID (uuid_Parse (pe_tc env)) rawID ''id'') (\<lambda>i.
     sum_bind (map_sum mapPhotoError id (PhotoPostgres_GetByID (pw_db w) i)) (\<lambda>cur.
     sum_bind (as_error (enforcePhoto env u (ph_SpecimenID cur) (ph_ID cur) ''edit'' (pw_db w))) (\<lambda>_.
     sum_bind (patch_photo env b cur) (\<lambda>cur'.
     sum_bind (map_sum mapPhotoError id (PhotoPostgres_Update cur' (pw_db w))) (\<lambda>d'. Inr (cur', d'))))))"
  show thesis
  proof (cases ?X)
    case (Inl e)
    then show thesis using assms refused [of e] by (simp add: photo_patch_def)
  next
    case (Inr y)
    obtain cur' d' where y: "y = (cur', d')" by fastforce
    with Inr obtain i cur where "PhotoPostgres_GetByID (pw_db w) i = Inr cur"
      "enforcePhoto env u (ph_SpecimenID cur) (ph_ID cur) ''edit'' (pw_db w) = None" "patch_photo env b cur = Inr cur'"
      "PhotoPostgres_Update cur' (pw_db w) = Inr d'"
      unfolding sum_bind_Inr map_sum_Inr as_error_Inr by auto
    moreover have "w' = w\<lparr>pw_db := d'\<rparr>" "r = map_sum mapFileError (toPhotoView cur') (FilePostgres_GetByID d' (ph_FileID cur'))"
      using assms Inr unfolding photo_patch_def Let_def y by (simp_all split: sum.splits)
    ultimately show thesis using updated photo_get by blast
  qed
qed

lemma photo_patch_keeps:
  assumes "uniform_text (pe_str env)" and "photo_world_ok env w" and "photo_patch env u rawID b w = (r, w')"
  shows "photo_world_ok env w'"
  using assms(3)
proof (cases rule: photo_patch_cases)
  case (updated cur cur' d')
  have "set (db_files d') \<subseteq> set (db_files (pw_db w))" using Photo_Update_ok(1) [OF updated(4)] by simp
  moreover have "ph_FileID ` set (db_photos d') \<subseteq> ph_FileID ` set (db_photos (pw_db w))"
    using Photo_Update_keeps(3) [OF updated(4)] by (metis order_refl set_map)
  moreover have "keys_ok d'" "fk_ok d'"
    using Photo_Update_keeps(1,2) [OF updated(4)] assms(2) by (simp_all add: photo_world_ok_def stored_ok_def)
  ultimately show ?thesis
    using uniform_text.stored_ok_same_objects [OF assms(1)] assms(2) by (simp add: photo_world_ok_def updated(5))
qed (use assms in simp)

lemma removePhotoBytes_keeps:
  assumes "uniform_text (pe_str env)" and "photo_world_ok env w" and "removePhotoBytes env p w = (r, w')"
  shows "photo_world_ok env w'"
proof (cases "fst (RunInTx (pe_tx env) id (remove_tx p) (pw_db w))")
  case (Inl e)
  then have "w' = w" using assms(3) RunInTx_error [of "pe_tx env" id "remove_tx p" "pw_db w" e]
    by (auto simp: removePhotoBytes_def split: prod.splits)
  then show ?thesis using assms(2) by simp
next
  case (Inr x)
  let ?s = "pe_str env" and ?i = "ph_FileID p"
  obtain d where run: "RunInTx (pe_tx env) id (remove_tx p) (pw_db w) = (Inr x, d)" using Inr by (metis prod.collapse)
  then have tx: "remove_tx p (pw_db w) = Inr (x, d)" using RunInTx_ok by metis
  then obtain d1 where d1: "PhotoPostgres_Delete (ph_ID p) (pw_db w) = Inr d1" and d: "FilePostgres_Delete ?i d1 = Inr d"
    by (auto simp: remove_tx_def sum_bind_Inr)
  note a = Photo_Delete_ok [OF d1] and b = File_Delete_ok [OF d]
  have ok: "keys_ok (pw_db w)" "fk_ok (pw_db w)" using assms(2) by (simp_all add: photo_world_ok_def stored_ok_def)
  have "stored_ok ?s (pe_sha256 env) d (delete_all (pe_faults env) (photo_keys ?s ?i) (pw_objects w))"
  proof (rule uniform_text.stored_ok_removed [OF assms(1) assms(2) [unfolded photo_world_ok_def]])
    show "same_elsewhere ?s ?i (pw_objects w) (delete_all (pe_faults env) (photo_keys ?s ?i) (pw_objects w))"
      by (rule same_elsewhere_calls(3)) simp
    show "keys_ok d" "fk_ok d" using a(2,3) b(4,5) ok by blast+
    show "set (db_files d) \<subseteq> {f \<in> set (db_files (pw_db w)). fi_ID f \<noteq> ?i}" by (auto simp: b(1) a(1))
    show "ph_FileID ` set (db_photos d) \<subseteq> ph_FileID ` set (db_photos (pw_db w))" by (auto simp: b(2) a(1))
  qed
  then show ?thesis using assms(3) run by (auto simp: removePhotoBytes_def photo_world_ok_def)
qed

lemma photo_delete_keeps:
  assumes "uniform_text (pe_str env)" and "photo_world_ok env w" and "photo_delete env u rawID w = (r, w')"
  shows "photo_world_ok env w'"
proof (cases "w' = w")
  case False
  then obtain p r' where "removePhotoBytes env p w = (r', w')"
    using assms(3) by (auto simp: photo_delete_def split: sum.splits prod.splits)
  then show ?thesis by (rule removePhotoBytes_keeps [OF assms(1,2)])
qed (use assms in simp)

section \<open>What an upload does\<close>

definition no_faults :: faults where
  "no_faults = (\<lambda>_. Works)"

lemma upload_position:
  assumes "upload_tx env u pu d = Inr (photo, d')" and "p \<in> set (db_photos d)" and "ph_SpecimenID p = pu_SpecimenID pu"
  shows "ph_Position p < ph_Position photo"
  using MaxPosition_bound [OF assms(2)] by (simp add: upload_tx_ok(1) [OF assms(1)] new_photo_def assms(3))

lemma rollback_complete:
  assumes "write_objects env pu st = (None, st')" and "pe_faults env = no_faults"
    and "set (photo_keys (pe_str env) (pe_fileID env)) \<inter> dom st = {}"
  shows "delete_all (pe_faults env) (photo_keys (pe_str env) (pe_fileID env)) st' = st"
proof
  let ?keys = "photo_keys (pe_str env) (pe_fileID env)"
  have del: "delete_all (pe_faults env) ?keys st' = (\<lambda>k. if k \<in> set ?keys then None else st' k)"
    by (rule delete_all_works) (simp add: assms(2) no_faults_def)
  fix k
  show "delete_all (pe_faults env) ?keys st' k = st k"
  proof (cases "k \<in> set ?keys")
    case True
    then have "st k = None" using assms(3) by (metis disjoint_iff domIff)
    then show ?thesis using True by (simp only: del if_True)
  next
    case False
    then have "st' k = st k" using write_objects_elsewhere [of env st pu] assms(1) by (simp add: same_elsewhere_def)
    then show ?thesis using False by (simp only: del if_False)
  qed
qed

lemma write_objects_faultless:
  assumes "pe_faults env = no_faults" and "original_key (pe_str env) (pe_fileID env) \<notin> dom st"
  shows "fst (write_objects env pu st) = None"
  using assms by (simp add: write_objects_def UploadIfNotExists_def Upload_def no_faults_def Let_def)

text \<open>
  C3. An upload is all or nothing. A refused upload leaves every table as it was and touches no object but
  the three of its fresh file identifier, and none at all when the store works and these keys were free.
  An accepted upload stores the filtered bytes and the two variants under the file's keys, adds one files
  row that records their size and hash, and one photo row at the end of the specimen's order, and answers
  with exactly what it stored.
\<close>

theorem photo_upload_outcome:
  assumes "photo_upload env u inp w = (r, w')"
  defines "key \<equiv> original_key (pe_str env) (pe_fileID env)"
  shows "case r of
      Inl _ \<Rightarrow> pw_db w' = pw_db w \<and> same_elsewhere (pe_str env) (pe_fileID env) (pw_objects w) (pw_objects w') \<and>
        (pe_faults env = no_faults \<and> set (photo_keys (pe_str env) (pe_fileID env)) \<inter> dom (pw_objects w) = {} \<longrightarrow>
           pw_objects w' = pw_objects w)
    | Inr (loc, view) \<Rightarrow> (\<exists>pu photo. prepare_upload env u inp (pw_db w) = Inr pu \<and> key \<notin> dom (pw_objects w) \<and>
        pw_objects w' = (pw_objects w)(key \<mapsto> (pu_Filtered pu, pu_ContentType pu),
          key @ variantDisplaySuffix \<mapsto> (va_Display (pu_Variants pu), ''image/jpeg''),
          key @ variantThumbSuffix \<mapsto> (va_Thumbnail (pu_Variants pu), ''image/jpeg'')) \<and>
        photo = new_photo env pu (MaxPosition (pw_db w) (pu_SpecimenID pu) + 1) \<and>
        pw_db w' = (pw_db w)\<lparr>db_files := db_files (pw_db w) @ [new_file env u pu],
          db_photos := db_photos (pw_db w) @ [default_kind photo]\<rparr> \<and>
        (\<forall>p\<in>set (db_photos (pw_db w)). ph_SpecimenID p = pu_SpecimenID pu \<longrightarrow> ph_Position p < ph_Position photo) \<and>
        view = toPhotoView photo (new_file env u pu))"
proof (cases env u inp w rule: photo_upload_cases)
  case (refused e)
  then show ?thesis using assms(1) by auto
next
  case (not_written pu e st)
  have r: "r = Inl e" "w' = w\<lparr>pw_objects := st\<rparr>" using assms(1) not_written(3) by simp_all
  have "pe_faults env \<noteq> no_faults \<or> original_key (pe_str env) (pe_fileID env) \<in> dom (pw_objects w)"
    using write_objects_faultless [of env "pw_objects w" pu] not_written(2) by auto
  moreover have "original_key (pe_str env) (pe_fileID env) \<in> dom (pw_objects w) \<Longrightarrow>
      \<not> set (photo_keys (pe_str env) (pe_fileID env)) \<inter> dom (pw_objects w) = {}" by (metis disjoint_iff original_in_keys)
  ultimately show ?thesis
    using write_objects_elsewhere [of env "pw_objects w" pu] not_written(2) by (auto simp: r)
next
  case (rolled_back pu st err)
  let ?st = "delete_all (pe_faults env) (photo_keys (pe_str env) (pe_fileID env)) st"
  have r: "r = Inl (upload_error err)" "w' = w\<lparr>pw_objects := ?st\<rparr>" using assms(1) rolled_back(3) by simp_all
  have "same_elsewhere (pe_str env) (pe_fileID env) (pw_objects w) st"
    using write_objects_elsewhere [of env "pw_objects w" pu] rolled_back(2) by simp
  then have "same_elsewhere (pe_str env) (pe_fileID env) (pw_objects w) ?st"
    by (rule same_elsewhere_trans) (rule same_elsewhere_calls(3), simp)
  then show ?thesis using rollback_complete [OF rolled_back(2)] by (simp add: r)
next
  case (committed pu st photo d)
  note t = upload_tx_ok [OF committed(3)]
  have "d = (pw_db w)\<lparr>db_files := db_files (pw_db w) @ [new_file env u pu], db_photos := db_photos (pw_db w) @ [default_kind photo]\<rparr>"
    using t(4) by (simp add: t(2,3))
  then show ?thesis
    using assms(1) committed write_objects_ok [OF committed(2)] t(1) upload_position [OF committed(3)] by (auto simp: key_def)
qed

section \<open>What a download serves\<close>

definition variant :: "string \<Rightarrow> bool" where
  "variant sfx \<longleftrightarrow> sfx = [] \<or> sfx = variantDisplaySuffix \<or> sfx = variantThumbSuffix"

text \<open>Whether a caller may see a photo of a specimen: the specimen itself, and the photo by its own visibility chain.\<close>

definition may_see_photo :: "('r, 'img) photo_env \<Rightarrow> auth_User \<Rightarrow> database \<Rightarrow> Photo \<Rightarrow> bool" where
  "may_see_photo env u d p \<longleftrightarrow>
     (case SpecimenPostgres_GetByID d (ph_SpecimenID p) of
        Inl _ \<Rightarrow> False
      | Inr sp \<Rightarrow>
          guard_check (pe_guard env) u (photoResource (ag_str (pe_guard env)) (ph_ID p) sp) ''view'' = None \<and>
          canSeePhoto (pe_guard env) u sp (fst (loadOwner (photo_redactor env d) (sp_AuthorID sp))) p)"

lemma checkViewHTTP_allows: "fst (checkViewHTTP g u res code msg) \<longleftrightarrow> guard_check g u res ''view'' = None"
  by (simp add: checkViewHTTP_def checkView_def split: option.split)

lemma checkViewHTTP_denies:
  "guard_check g u res ''view'' = Some ae \<Longrightarrow> err_Status ae = 403 \<Longrightarrow> checkViewHTTP g u res code msg = (False, Some (newAPIError 404 code msg []))"
  by (simp add: checkViewHTTP_def checkView_def)

lemma serveDownload_hidden:
  assumes "guard_active (pe_guard env)" and "uuid_Parse (pe_tc env) rawID = Some i"
    and "\<forall>res ae. guard_check (pe_guard env) u res ''view'' = Some ae \<longrightarrow> err_Status ae = 403"
    and "\<nexists>p. PhotoPostgres_GetByID (pw_db w) i = Inr p \<and> may_see_photo env u (pw_db w) p"
  shows "serveDownload env u rawID inm sfx w = DownloadError no_such_photo"
proof (cases "PhotoPostgres_GetByID (pw_db w) i")
  case (Inl e)
  then have "e = Domain ErrPhotoNotFound" by (auto simp: PhotoPostgres_GetByID_def split: option.splits)
  then show ?thesis using assms(2) Inl by (simp add: serveDownload_def mapPhotoError_def no_such_photo_def)
next
  case (Inr p)
  let ?g = "pe_guard env" and ?d = "pw_db w"
  have hidden: "\<not> may_see_photo env u ?d p" using assms(4) Inr by blast
  show ?thesis
  proof (cases "SpecimenPostgres_GetByID ?d (ph_SpecimenID p)")
    case (Inl e)
    then have "e = Domain ErrSpecimenNotFound" by (auto simp: SpecimenPostgres_GetByID_def split: option.splits)
    then show ?thesis using assms(1,2) Inr Inl by (simp add: serveDownload_def enforcePhotoHTTP_def Let_def)
  next
    case (Inr sp)
    let ?res = "photoResource (ag_str ?g) (ph_ID p) sp"
    show ?thesis
    proof (cases "guard_check ?g u ?res ''view''")
      case None
      then have "checkViewHTTP ?g u ?res ''photo_not_found'' ''no such photo'' = (True, None)"
        by (simp add: checkViewHTTP_def checkView_def)
      then show ?thesis using hidden None assms(1,2) Inr \<open>PhotoPostgres_GetByID ?d i = Inr p\<close>
        by (simp add: serveDownload_def enforcePhotoHTTP_def canSeePhotoHTTP_def may_see_photo_def Let_def)
    next
      case (Some ae)
      then show ?thesis
        using checkViewHTTP_denies [OF Some] assms(1,2,3) Inr \<open>PhotoPostgres_GetByID ?d i = Inr p\<close>
        by (simp add: serveDownload_def enforcePhotoHTTP_def Let_def no_such_photo_def)
    qed
  qed
qed

lemma stored_variant:
  assumes "stored_ok str sha d st" and "p \<in> set (db_photos d)" and "FilePostgres_GetByID d (ph_FileID p) = Inr f" and "variant sfx"
  shows "\<exists>body ct. st (fi_S3Key f @ sfx) = Some (body, ct) \<and> (sfx = [] \<longrightarrow> ct = fi_ContentType f \<and> sha body = fi_SHA256 f)"
proof -
  have f: "f \<in> set (db_files d)" "fi_ID f = ph_FileID p" using file_get [OF assms(3)] by simp_all
  have stored: "file_stored str sha st f" and vars: "variants_stored str st (ph_FileID p)"
    using assms(1,2) f(1) by (simp_all add: stored_ok_def)
  then have key: "fi_S3Key f = original_key str (ph_FileID p)" using f(2) by (simp add: file_stored_def)
  show ?thesis using assms(4) stored vars by (auto simp: variant_def file_stored_def variants_stored_def key)
qed

lemma stored_file_row:
  assumes "stored_ok str sha d st" and "p \<in> set (db_photos d)"
  shows "\<exists>f. FilePostgres_GetByID d (ph_FileID p) = Inr f"
proof -
  have "refs ph_FileID (db_photos d) fi_ID (db_files d)" "distinct (map fi_ID (db_files d))"
    using assms(1) by (simp_all add: stored_ok_def fk_ok_def keys_ok_def)
  then obtain f where "f \<in> set (db_files d)" "fi_ID f = ph_FileID p" "distinct (map fi_ID (db_files d))"
    using assms(2) unfolding refs_def by force
  then show ?thesis using file_get_iff [of d "ph_FileID p" f] by simp
qed

text \<open>The answer for a file row and the bytes stored for it.\<close>

definition stored_reply :: "('r, 'img) photo_env \<Rightarrow> uuid \<Rightarrow> File \<Rightarrow> string \<Rightarrow> string \<Rightarrow> bytes \<Rightarrow> download_reply" where
  "stored_reply env i f inm sfx body =
     (let contentType = (if sfx = [] then fi_ContentType f else ''image/jpeg''); etag = photo_etag (fi_SHA256 f) sfx in
      if inm \<noteq> [] \<and> inm = etag then NotModified etag
      else Served \<lparr>fr_ContentType = contentType, fr_ETag = etag,
        fr_Disposition = buildContentDisposition (pe_str env) i contentType sfx, fr_Body = body\<rparr>)"

lemma serveDownload_visible:
  assumes "guard_active (pe_guard env)" and "uuid_Parse (pe_tc env) rawID = Some i"
    and "PhotoPostgres_GetByID (pw_db w) i = Inr p" and "may_see_photo env u (pw_db w) p"
    and "FilePostgres_GetByID (pw_db w) (ph_FileID p) = Inr f" and "pe_faults env (GetObject (fi_S3Key f @ sfx)) = Works"
    and "pw_objects w (fi_S3Key f @ sfx) = Some (body, ct)"
  shows "serveDownload env u rawID inm sfx w = stored_reply env i f inm sfx body"
proof -
  have i: "ph_ID p = i" using photo_get [OF assms(3)] by simp
  obtain sp where sp: "SpecimenPostgres_GetByID (pw_db w) (ph_SpecimenID p) = Inr sp"
    "guard_check (pe_guard env) u (photoResource (ag_str (pe_guard env)) i sp) ''view'' = None"
    "canSeePhoto (pe_guard env) u sp (fst (loadOwner (photo_redactor env (pw_db w)) (sp_AuthorID sp))) p"
    using assms(4) by (auto simp: may_see_photo_def i split: sum.splits)
  have "checkViewHTTP (pe_guard env) u (photoResource (ag_str (pe_guard env)) i sp) ''photo_not_found'' ''no such photo'' = (True, None)"
    using sp(2) by (simp add: checkViewHTTP_def checkView_def)
  then show ?thesis
    using assms sp i
    by (simp add: serveDownload_def enforcePhotoHTTP_def canSeePhotoHTTP_def Download_def stored_reply_def Let_def)
qed

lemma photo_download:
  assumes guard: "guard_ok (pe_guard env) enf shares" and ok: "photo_world_ok env w" and "pe_faults env = no_faults"
    and id: "uuid_Parse (pe_tc env) rawID = Some i" and "variant sfx"
  shows "if \<exists>p. PhotoPostgres_GetByID (pw_db w) i = Inr p \<and> may_see_photo env u (pw_db w) p
    then \<exists>p f body ct. PhotoPostgres_GetByID (pw_db w) i = Inr p \<and> FilePostgres_GetByID (pw_db w) (ph_FileID p) = Inr f \<and>
      pw_objects w (original_key (pe_str env) (ph_FileID p) @ sfx) = Some (body, ct) \<and> (sfx = [] \<longrightarrow> pe_sha256 env body = fi_SHA256 f) \<and>
      serveDownload env u rawID inm sfx w = stored_reply env i f inm sfx body
    else serveDownload env u rawID inm sfx w = DownloadError no_such_photo"
proof -
  have act: "guard_active (pe_guard env)" using guard by (simp add: guard_ok_def guard_active_def)
  note st = ok [unfolded photo_world_ok_def]
  show ?thesis
  proof (cases "\<exists>p. PhotoPostgres_GetByID (pw_db w) i = Inr p \<and> may_see_photo env u (pw_db w) p")
    case True
    then obtain p where p: "PhotoPostgres_GetByID (pw_db w) i = Inr p" "may_see_photo env u (pw_db w) p" by blast
    have row: "p \<in> set (db_photos (pw_db w))" using photo_get [OF p(1)] by simp
    obtain f where f: "FilePostgres_GetByID (pw_db w) (ph_FileID p) = Inr f" using stored_file_row [OF st row] by blast
    obtain body ct where body: "pw_objects w (fi_S3Key f @ sfx) = Some (body, ct)" "sfx = [] \<longrightarrow> ct = fi_ContentType f \<and> pe_sha256 env body = fi_SHA256 f"
      using stored_variant [OF st row f assms(5)] by blast
    have key: "fi_S3Key f = original_key (pe_str env) (ph_FileID p)"
      using st file_get [OF f] unfolding stored_ok_def file_stored_def by metis
    have "pe_faults env (GetObject (fi_S3Key f @ sfx)) = Works" by (simp add: assms(3) no_faults_def)
    note served = serveDownload_visible [OF act id p f this body(1), of inm]
    have "\<exists>body ct. pw_objects w (original_key (pe_str env) (ph_FileID p) @ sfx) = Some (body, ct) \<and>
        (sfx = [] \<longrightarrow> pe_sha256 env body = fi_SHA256 f) \<and> serveDownload env u rawID inm sfx w = stored_reply env i f inm sfx body"
      using body served unfolding key by blast
    then show ?thesis using True p(1) f by (simp only: if_True) blast
  next
    case False
    have "\<forall>res ae. guard_check (pe_guard env) u res ''view'' = Some ae \<longrightarrow> err_Status ae = 403"
    proof (intro allI impI)
      fix res ae
      assume "guard_check (pe_guard env) u res ''view'' = Some ae"
      then have "ae = newAPIError 403 ''forbidden'' ''you do not have permission to perform this action'' []"
        by (intro guard_ok_denies [OF guard]) simp_all
      then show "err_Status ae = 403" by (simp add: newAPIError_def)
    qed
    then have "serveDownload env u rawID inm sfx w = DownloadError no_such_photo"
      by (rule serveDownload_hidden [OF act id _ False])
    then show ?thesis using False by (simp only: if_False)
  qed
qed

text \<open>
  C4. A download serves exactly what it should, to exactly those who may see it. With a live guard and rows
  and objects in step, a photo the caller may see, by its specimen and by its own visibility chain, is
  answered with the stored bytes, whose hash for the original is the recorded one, or with 304 for their
  tag; everything else, the hidden and the missing photo alike, is answered with one and the same 404.
\<close>

theorem photo_download_spec:
  assumes guard: "guard_ok (pe_guard env) enf shares" and ok: "photo_world_ok env w" and "pe_faults env = no_faults"
    and id: "uuid_Parse (pe_tc env) rawID = Some i" and "variant sfx"
  shows "if \<exists>p. PhotoPostgres_GetByID (pw_db w) i = Inr p \<and> may_see_photo env u (pw_db w) p
    then \<exists>p f body ct. PhotoPostgres_GetByID (pw_db w) i = Inr p \<and> FilePostgres_GetByID (pw_db w) (ph_FileID p) = Inr f \<and>
      pw_objects w (original_key (pe_str env) (ph_FileID p) @ sfx) = Some (body, ct) \<and> (sfx = [] \<longrightarrow> pe_sha256 env body = fi_SHA256 f) \<and>
      serveDownload env u rawID inm sfx w = stored_reply env i f inm sfx body
    else serveDownload env u rawID inm sfx w = DownloadError no_such_photo"
  by (rule photo_download [OF assms])

section \<open>From upload to download\<close>

lemma photo_owner_access:
  assumes "guard_ok (pe_guard env) enf shares" and "SpecimenPostgres_GetByID d (ph_SpecimenID p) = Inr sp"
    and "''admin'' \<in> set (u_Roles u) \<or> (u_ID u \<noteq> uuid_Nil \<and> sp_AuthorID sp = u_ID u)"
  shows "may_see_photo env u d p"
proof -
  let ?g = "pe_guard env"
  have act: "guard_active ?g" using assms(1) by (simp add: guard_ok_def guard_active_def)
  have view: "guard_check ?g u (photoResource (ag_str ?g) (ph_ID p) sp) ''view'' = None"
    by (rule owned_access_guard [OF assms(1) _ _ _ assms(3)]) (simp_all add: photoResource_def owned_types_def)
  have "canSeeField ?g u sp vis" for vis
  proof (cases "''admin'' \<in> set (u_Roles u)")
    case True
    then have "''admin'' \<in> set (au_Roles (authzUser (ag_str ?g) u))" by simp
    then show ?thesis unfolding canSeeField_granted [OF assms(1)] by (auto simp: granted_def)
  next
    case False
    then show ?thesis using owner_sees [OF assms(1)] assms(3) by blast
  qed
  then show ?thesis using view act assms(2) by (simp add: may_see_photo_def canSeePhoto_def)
qed

lemma prepared:
  assumes "prepare_upload env u inp d = Inr pu"
  obtains data where "enforcePhoto env u (pu_SpecimenID pu) uuid_Nil ''create'' d = None" "up_Body inp = BodyRead data"
    "isAllowedPhotoContentType (pu_ContentType pu)" "pu_Filtered pu = filtered_bytes env data (pu_ContentType pu)"
    "imageproc_Generate (pe_images env) (pu_Filtered pu) (pu_ContentType pu) = Inr (pu_Variants pu)"
proof -
  obtain data where "read_body (up_Body inp) = Inr data" "enforcePhoto env u (pu_SpecimenID pu) uuid_Nil ''create'' d = None"
    "isAllowedPhotoContentType (pu_ContentType pu)" "pu_Filtered pu = filtered_bytes env data (pu_ContentType pu)"
    "imageproc_Generate (pe_images env) (pu_Filtered pu) (pu_ContentType pu) = Inr (pu_Variants pu)"
    using assms unfolding prepare_upload_def Let_def sum_bind_Inr as_error_Inr ensure_Inr map_sum_Inr by auto
  moreover have "up_Body inp = BodyRead data" using calculation(1) by (simp add: read_body_def split: body_read.splits)
  ultimately show thesis using that by blast
qed

lemma prepared_owner:
  assumes "guard_ok (pe_guard env) enf shares" and "prepare_upload env u inp d = Inr pu"
  shows "\<exists>sp. SpecimenPostgres_GetByID d (pu_SpecimenID pu) = Inr sp \<and>
    (''admin'' \<in> set (u_Roles u) \<or> (u_ID u \<noteq> uuid_Nil \<and> sp_AuthorID sp = u_ID u))"
proof -
  let ?g = "pe_guard env"
  have act: "guard_active ?g" using assms(1) by (simp add: guard_ok_def guard_active_def)
  have "enforcePhoto env u (pu_SpecimenID pu) uuid_Nil ''create'' d = None" by (rule prepared [OF assms(2)])
  then obtain sp where sp: "SpecimenPostgres_GetByID d (pu_SpecimenID pu) = Inr sp"
    and check: "guard_check ?g u (photoResource (ag_str ?g) uuid_Nil sp) ''create'' = None"
    using act by (auto simp: enforcePhoto_def split: sum.splits)
  have "guard_check ?g u (photoResource (ag_str ?g) uuid_Nil sp) ''create'' = None \<longleftrightarrow>
      ''admin'' \<in> set (u_Roles u) \<or> (u_ID u \<noteq> uuid_Nil \<and> sp_AuthorID sp = u_ID u)"
    by (rule owned_write_guard [OF assms(1)]) (simp_all add: photoResource_def owned_types_def)
  then show ?thesis using sp check by blast
qed

text \<open>The bytes behind a variant of an upload.\<close>

definition variant_bytes :: "prepared_upload \<Rightarrow> string \<Rightarrow> bytes" where
  "variant_bytes pu sfx = (if sfx = [] then pu_Filtered pu else if sfx = variantDisplaySuffix then va_Display (pu_Variants pu)
     else va_Thumbnail (pu_Variants pu))"

lemma committed_download:
  assumes guard: "guard_ok (pe_guard env) enf shares" and ok: "photo_world_ok env \<lparr>pw_db = d', pw_objects = st\<rparr>"
    and "pe_faults env = no_faults" and id: "uuid_Parse (pe_tc env) rawID = Some (pe_photoID env)" and sfx: "variant sfx"
    and prep: "prepare_upload env u inp d = Inr pu" and wr: "write_objects env pu st0 = (None, st)" and tx: "upload_tx env u pu d = Inr (photo, d')"
  shows "serveDownload env u rawID inm sfx \<lparr>pw_db = d', pw_objects = st\<rparr> =
    stored_reply env (pe_photoID env) (new_file env u pu) inm sfx (variant_bytes pu sfx)"
proof -
  let ?w = "\<lparr>pw_db = d', pw_objects = st\<rparr>" and ?p = "default_kind photo" and ?f = "new_file env u pu"
  note t = upload_tx_ok [OF tx] and keys = ok [unfolded photo_world_ok_def stored_ok_def keys_ok_def]
  have act: "guard_active (pe_guard env)" using guard by (simp add: guard_ok_def guard_active_def)
  have ids: "ph_ID ?p = pe_photoID env" "ph_FileID ?p = pe_fileID env" "ph_SpecimenID ?p = pu_SpecimenID pu" "fi_ID ?f = pe_fileID env"
    by (simp_all add: t(1) new_photo_def new_file_def)
  have p: "PhotoPostgres_GetByID (pw_db ?w) (pe_photoID env) = Inr ?p" using photo_get_iff [of d' "pe_photoID env" ?p] keys ids by (simp add: t(3))
  have f: "FilePostgres_GetByID (pw_db ?w) (ph_FileID ?p) = Inr ?f" using file_get_iff [of d' "pe_fileID env" ?f] keys ids by (simp add: t(2))
  obtain sp where sp: "SpecimenPostgres_GetByID d (pu_SpecimenID pu) = Inr sp"
    "''admin'' \<in> set (u_Roles u) \<or> (u_ID u \<noteq> uuid_Nil \<and> sp_AuthorID sp = u_ID u)" using prepared_owner [OF guard prep] by blast
  have "SpecimenPostgres_GetByID d' (ph_SpecimenID ?p) = Inr sp"
    using sp(1) ids(3) by (subst t(4)) (simp add: SpecimenPostgres_GetByID_def)
  then have see: "may_see_photo env u (pw_db ?w) ?p" using photo_owner_access [OF guard _ sp(2)] by simp
  have get: "pe_faults env (GetObject (fi_S3Key ?f @ sfx)) = Works" by (simp add: assms(3) no_faults_def)
  have "\<exists>ct. pw_objects ?w (fi_S3Key ?f @ sfx) = Some (variant_bytes pu sfx, ct)"
    using sfx write_objects_ok [OF wr] by (auto simp: variant_def variant_bytes_def new_file_def)
  then show ?thesis using serveDownload_visible [OF act id p see f get] by blast
qed

text \<open>
  C11. What was uploaded is what is served: after an accepted upload the uploader downloads, under the
  identifier of the answer, the filtered bytes of the upload with the declared type, and both JPEG
  variants generated from those same bytes, each with the tag of the recorded hash.
\<close>

theorem photo_upload_download:
  assumes "guard_ok (pe_guard env) enf shares" and "uniform_text (pe_str env)" and "text_forms (pe_tc env)"
    and "photo_world_ok env w" and "pe_faults env = no_faults" and "photo_upload env u inp w = (Inr (loc, view), w')"
  shows "\<exists>data pu. up_Body inp = BodyRead data \<and> pu_ContentType pu \<in> set allowedPhotoContentTypes \<and>
    pu_Filtered pu = filtered_bytes env data (pu_ContentType pu) \<and>
    imageproc_Generate (pe_images env) (pu_Filtered pu) (pu_ContentType pu) = Inr (pu_Variants pu) \<and>
    pv_SHA256 view = pe_sha256 env (pu_Filtered pu) \<and>
    (\<forall>sfx. variant sfx \<longrightarrow> (\<exists>disposition. serveDownload env u (pe_str env (pv_ID view)) [] sfx w' =
       Served \<lparr>fr_ContentType = (if sfx = [] then pu_ContentType pu else ''image/jpeg''),
         fr_ETag = photo_etag (pv_SHA256 view) sfx, fr_Disposition = disposition, fr_Body = variant_bytes pu sfx\<rparr>))"
proof (cases env u inp w rule: photo_upload_cases)
  case (committed pu st photo d)
  have w': "w' = \<lparr>pw_db = d, pw_objects = st\<rparr>" and view: "view = toPhotoView photo (new_file env u pu)"
    using committed(4) assms(6) by simp_all
  have ok: "photo_world_ok env w'" by (rule photo_upload_keeps [OF assms(2,4,6)])
  have pid: "pv_ID view = pe_photoID env" "pv_SHA256 view = pe_sha256 env (pu_Filtered pu)"
    by (simp_all add: view toPhotoView_def upload_tx_ok(1) [OF committed(3)] new_photo_def new_file_def)
  have id: "uuid_Parse (pe_tc env) (pe_str env (pv_ID view)) = Some (pe_photoID env)"
    using text_forms.uuid_back [OF assms(3)] by (simp add: pid)
  have served: "serveDownload env u (pe_str env (pv_ID view)) [] sfx w' =
      stored_reply env (pe_photoID env) (new_file env u pu) [] sfx (variant_bytes pu sfx)" if "variant sfx" for sfx
    unfolding w' by (rule committed_download [OF assms(1) ok [unfolded w'] assms(5) id that committed(1,2,3)])
  have "\<exists>disposition. serveDownload env u (pe_str env (pv_ID view)) [] sfx w' =
       Served \<lparr>fr_ContentType = (if sfx = [] then pu_ContentType pu else ''image/jpeg''),
         fr_ETag = photo_etag (pv_SHA256 view) sfx, fr_Disposition = disposition, fr_Body = variant_bytes pu sfx\<rparr>" if "variant sfx" for sfx
    unfolding served [OF that] by (simp add: stored_reply_def Let_def pid(2) new_file_def)
  then show ?thesis using prepared [OF committed(1)] pid(2) by (metis isAllowedPhotoContentType_def)
qed (use assms(6) in simp_all)

section \<open>A sample upload\<close>

definition unit_lib :: "unit image_lib" where
  "unit_lib = \<lparr>il_DecodeConfig = (\<lambda>_. Some (1, 1)), il_jpeg_Decode = (\<lambda>_. Some ()), il_png_Decode = (\<lambda>_. Some ()), il_Decode = (\<lambda>_. Some ()),
     il_Bounds = (\<lambda>_. (1, 1)), il_CatmullRom = (\<lambda>_ _ i. i), il_jpeg_Encode = (\<lambda>q _. Some [word_of_int q])\<rparr>"

definition sample_photo_env :: "(nat, unit) photo_env" where
  "sample_photo_env = \<lparr>pe_guard = live_guard, pe_tc = plain_codec, pe_vc = whole_codec, pe_faults = no_faults, pe_tx = tx_up,
     pe_blob = Inr, pe_readDateTimeOriginal = (\<lambda>_. None), pe_images = unit_lib, pe_sha256 = (\<lambda>_. ''hash''), pe_rfc3339 = (\<lambda>_. None),
     pe_fileID = 30, pe_photoID = 31, pe_now = 5\<rparr>"

definition sample_photo_world :: photo_world where
  "sample_photo_world = \<lparr>pw_db = empty_database\<lparr>db_users := [User_zero\<lparr>us_ID := 7\<rparr>],
     db_specimens := [Specimen_zero\<lparr>sp_ID := 20, sp_AuthorID := 7\<rparr>]\<rparr>, pw_objects = Map.empty\<rparr>"

definition sample_upload :: uploadPhotoInput where
  "sample_upload = \<lparr>up_SpecimenID = uuid_hex 20, up_ContentType = ''Image/WebP'', up_Body = BodyRead [0xFF, 0xD8, 1], up_TakenAt = [], up_Kind = []\<rparr>"

abbreviation sample_owner :: auth_User where
  "sample_owner \<equiv> auth_User_zero\<lparr>u_ID := 7\<rparr>"

text \<open>
  A JPEG that is declared as WebP passes: the filter of the declared type does not recognise it and returns
  the bytes with whatever metadata they carry, and the decoder of that branch goes by the bytes.
\<close>

lemma jpeg_as_webp_unfiltered: "hasPrefix data [0xFF, 0xD8] \<Longrightarrow> filtered_bytes env data ''image/webp'' = data"
  by (auto simp: hasPrefix_iff filtered_bytes_def Filter_def stripWebPMetadata_def is_webp_def ascii_def)

lemma sample_accepted:
  "\<exists>view w'. photo_upload sample_photo_env sample_owner sample_upload sample_photo_world = (Inr (''/api/v1/photos/'' @ uuid_hex 31, view), w')"
proof -
  have id: "uuid_Parse plain_codec (uuid_hex 20) = Some 20" using plain.uuid_back [of 20] by (simp add: plain_codec_def)
  have "guard_check live_guard sample_owner (photoResource (ag_str live_guard) uuid_Nil (Specimen_zero\<lparr>sp_ID := 20, sp_AuthorID := 7\<rparr>)) ''create'' = None"
    by (rule owned_access_guard [OF live_guard_ok, where a = 7]) (simp_all add: photoResource_def owned_types_def)
  then have enf: "enforcePhoto sample_photo_env sample_owner 20 uuid_Nil ''create'' (pw_db sample_photo_world) = None"
    by (simp add: enforcePhoto_def sample_photo_env_def sample_photo_world_def SpecimenPostgres_GetByID_def Specimen_zero_def)
  have webp: "filtered_bytes sample_photo_env [0xFF, 0xD8, 1] ''image/webp'' = [0xFF, 0xD8, 1]"
    by (rule jpeg_as_webp_unfiltered) (simp add: hasPrefix_def)
  have low: "to_lower (trimSpace ''Image/WebP'') = ''image/webp''" by code_simp
  have gen: "imageproc_Generate unit_lib [0xFF, 0xD8, 1] ''image/webp'' = Inr \<lparr>va_Display = [85], va_Thumbnail = [80]\<rparr>"
    by (simp add: imageproc_Generate_def decode_image_def unit_lib_def pixel_count_def MaxPixels_def encodeJPEG_def resize_def
        DisplayLongEdge_def ThumbnailLongEdge_def DisplayJPEGQ_def ThumbnailJPEGQ_def)
  have "\<exists>pu. prepare_upload sample_photo_env sample_owner sample_upload (pw_db sample_photo_world) = Inr pu \<and> pu_SpecimenID pu = 20 \<and> pu_Kind pu = ''visible''"
    unfolding prepare_upload_def sample_upload_def
    using id enf webp low gen
    by (simp add: parseUUID_def sample_photo_env_def as_error_def isAllowedPhotoContentType_def allowedPhotoContentTypes_def ensure_def
        read_body_def kind_param_def taken_at_param_def to_lower_def trimSpace_def Let_def)
  then obtain pu where pu: "prepare_upload sample_photo_env sample_owner sample_upload (pw_db sample_photo_world) = Inr pu"
    "pu_SpecimenID pu = 20" "pu_Kind pu = ''visible''" by blast
  have wr: "fst (write_objects sample_photo_env pu (pw_objects sample_photo_world)) = None"
    by (rule write_objects_faultless) (simp_all add: sample_photo_env_def sample_photo_world_def)
  have "\<exists>p d. upload_tx sample_photo_env sample_owner pu (pw_db sample_photo_world) = Inr (p, d) \<and> ph_ID p = 31"
    by (simp add: upload_tx_def FilePostgres_Create_def PhotoPostgres_Create_def photo_columns_def default_kind_def new_photo_def new_file_def
        sample_photo_world_def empty_database_def sample_photo_env_def User_zero_def Specimen_zero_def MaxPosition_def photoKinds_def Let_def pu)
  then show ?thesis using pu(1) wr
    by (cases "write_objects sample_photo_env pu (pw_objects sample_photo_world)")
      (auto simp: photo_upload_def RunInTx_def tx_up_def sample_photo_env_def plain_codec_def)
qed

lemma sample_world_ok: "photo_world_ok sample_photo_env sample_photo_world"
  by (simp add: photo_world_ok_def stored_ok_def sample_photo_world_def sample_photo_env_def keys_ok_def fk_ok_def refs_def
      main_image_refs_def empty_database_def users_ok_def User_zero_def Specimen_zero_def)

lemma sample_env_simps [simp]:
  "pe_guard sample_photo_env = live_guard" "pe_tc sample_photo_env = plain_codec" "pe_faults sample_photo_env = no_faults"
  "pe_fileID sample_photo_env = 30"
  by (simp_all add: sample_photo_env_def)

theorem photo_upload_outcome_witness:
  "\<exists>view w'. photo_upload sample_photo_env sample_owner sample_upload sample_photo_world = (Inr (''/api/v1/photos/'' @ uuid_hex 31, view), w') \<and>
    (\<exists>body. pw_objects w' (original_key uuid_hex 30) = Some body)"
proof -
  obtain view w' where up: "photo_upload sample_photo_env sample_owner sample_upload sample_photo_world = (Inr (''/api/v1/photos/'' @ uuid_hex 31, view), w')"
    using sample_accepted by blast
  have str: "pe_str sample_photo_env = uuid_hex" by (simp add: plain_codec_def)
  have "\<exists>body. pw_objects w' (original_key uuid_hex 30) = Some body"
    using photo_upload_outcome [OF up] by (auto simp: plain_codec_def)
  with up show ?thesis by blast
qed

theorem photo_download_spec_witness:
  "serveDownload sample_photo_env auth_User_zero (uuid_hex 99) [] variantThumbSuffix sample_photo_world = DownloadError no_such_photo"
proof -
  have id: "uuid_Parse (pe_tc sample_photo_env) (uuid_hex 99) = Some 99" using plain.uuid_back [of 99] by (simp add: plain_codec_def)
  have "\<nexists>p. PhotoPostgres_GetByID (pw_db sample_photo_world) 99 = Inr p"
    by (simp add: PhotoPostgres_GetByID_def sample_photo_world_def empty_database_def)
  then show ?thesis
    using photo_download_spec [of sample_photo_env, OF _ sample_world_ok _ id, of _ None variantThumbSuffix auth_User_zero "[]"] live_guard_ok
    by (simp add: variant_def)
qed

theorem photo_upload_download_witness:
  "\<exists>view w'. photo_upload sample_photo_env sample_owner sample_upload sample_photo_world = (Inr (''/api/v1/photos/'' @ uuid_hex 31, view), w') \<and>
    (\<exists>reply. serveDownload sample_photo_env sample_owner (uuid_hex (pv_ID view)) [] [] w' = Served reply)"
proof -
  obtain view w' where up: "photo_upload sample_photo_env sample_owner sample_upload sample_photo_world = (Inr (''/api/v1/photos/'' @ uuid_hex 31, view), w')"
    using sample_accepted by blast
  have str: "uuid_String plain_codec = uuid_hex" by (simp add: plain_codec_def)
  have "variant []" by (simp add: variant_def)
  then have "\<exists>reply. serveDownload sample_photo_env sample_owner (uuid_hex (pv_ID view)) [] [] w' = Served reply"
    using photo_upload_download [of sample_photo_env, OF _ _ _ sample_world_ok _ up] live_guard_ok hexu.uniform_text_axioms plain.text_forms_axioms
    by (simp add: str) metis
  with up show ?thesis by blast
qed

text \<open>
  Positions are 32 bits wide and grow from the maximum: once a photo has been moved to the last position,
  no further upload to that specimen commits.
\<close>

lemma last_position_blocks_uploads:
  assumes "p \<in> set (db_photos d)" and "ph_SpecimenID p = pu_SpecimenID pu" and "ph_Position p = 2 ^ 31 - 1"
  shows "isl (upload_tx env u pu d)"
proof (rule ccontr)
  assume "\<not> isl (upload_tx env u pu d)"
  then obtain photo d' where tx: "upload_tx env u pu d = Inr (photo, d')" by (metis isl_def obj_sumE surj_pair)
  then obtain d1 where "PhotoPostgres_Create photo d1 = Inr d'" by (auto simp: upload_tx_def sum_bind_Inr Let_def)
  then have "photo_columns (default_kind photo) = None" by (rule Photo_Create_ok(5))
  then have "ph_Position photo < 2 ^ 31" by (simp add: photo_columns_def split: if_splits)
  moreover have "ph_Position p < ph_Position photo" by (rule upload_position [OF tx assms(1,2)])
  ultimately show False using assms(3) by simp
qed

section \<open>The list, page by page\<close>

definition photo_view :: "database \<Rightarrow> Photo \<Rightarrow> PhotoView" where
  "photo_view d p = toPhotoView p (the (find (\<lambda>f. fi_ID f = ph_FileID p) (db_files d)))"

lemma photo_views_total:
  assumes "stored_ok str sha d st" and "set ps \<subseteq> set (db_photos d)"
  shows "photo_views d ps = Inr (map (photo_view d) ps)"
  using assms(2)
proof (induction ps)
  case (Cons p ps)
  obtain f where "FilePostgres_GetByID d (ph_FileID p) = Inr f" using stored_file_row [OF assms(1)] Cons.prems by auto
  moreover have "find (\<lambda>f. fi_ID f = ph_FileID p) (db_files d) = Some f"
    using calculation by (simp add: FilePostgres_GetByID_def split: option.splits)
  ultimately show ?case using Cons by (simp add: photo_view_def)
qed simp

text \<open>A page as a client sees it: its items and the cursor of the next one, empty after the last.\<close>

definition photo_list_page ::
  "('r, 'img) photo_env \<Rightarrow> auth_User \<Rightarrow> string \<Rightarrow> int \<Rightarrow> database \<Rightarrow> string \<Rightarrow> apiError + PhotoView list \<times> string" where
  "photo_list_page env u rawID limit d cursor =
     map_sum id (\<lambda>b. (pl_Items b, case pl_NextCursor b of None \<Rightarrow> [] | Some c \<Rightarrow> c)) (photo_list env u rawID limit cursor d)"

lemma walk_map:
  assumes "\<And>c e. f c = Inl e \<Longrightarrow> \<exists>e'. g c = Inl e'" and "\<And>c xs c'. f c = Inr (xs, c') \<Longrightarrow> g c = Inr (h xs, c')"
  shows "walk n g c = map_option (map h) (walk n f c)"
proof (induction n arbitrary: c)
  case (Suc n)
  show ?case
  proof (cases "f c")
    case (Inl e)
    then obtain e' where "g c = Inl e'" using assms(1) by blast
    then show ?thesis using Inl by simp
  next
    case (Inr y)
    then obtain xs c' where "f c = Inr (xs, c')" by (cases y) simp
    then show ?thesis using assms(2) Suc by (simp add: option.map_comp comp_def)
  qed
qed simp

definition visible_photos :: "('r, 'img) photo_env \<Rightarrow> auth_User \<Rightarrow> Specimen \<Rightarrow> database \<Rightarrow> Photo list \<Rightarrow> Photo list" where
  "visible_photos env u sp d ps = filter (canSeePhoto (pe_guard env) u sp (fst (loadOwner (photo_redactor env d) (sp_AuthorID sp)))) ps"

lemma filterPhotos_visible:
  "guard_active (pe_guard env) \<Longrightarrow> fst (filterPhotos (photo_redactor env d) u sp ps) = visible_photos env u sp d ps"
  by (simp add: filterPhotos_def visible_photos_def case_prod_beta photo_redactor_def newRedactor_def)

lemma photo_list_page_of:
  assumes "guard_active (pe_guard env)" and "stored_ok str sha d st" and "uuid_Parse (pe_tc env) rawID = Some sid"
    and "SpecimenPostgres_GetByID d sid = Inr sp"
    and "checkView (pe_guard env) u (specimenResource (ag_str (pe_guard env)) sp) ''specimen_not_found'' ''no such specimen'' = None"
  shows "photo_list_page env u rawID l d c =
    map_sum mapPhotoListError (\<lambda>(ps, c'). (map (photo_view d) (visible_photos env u sp d ps), c')) (ListBySpecimen (pe_tc env) u sid \<lparr>pg_Limit = l, pg_Cursor = c\<rparr> d)"
proof (cases "ListBySpecimen (pe_tc env) u sid \<lparr>pg_Limit = l, pg_Cursor = c\<rparr> d")
  case (Inl e)
  then show ?thesis using assms(3,4,5) by (simp add: photo_list_page_def photo_list_def parseUUID_def as_error_def)
next
  case (Inr y)
  obtain ps c' where y: "y = (ps, c')" by fastforce
  have "distinct (map ph_ID (db_photos d))" using assms(2) by (simp add: stored_ok_def keys_ok_def)
  then have "set ps \<subseteq> set (db_photos d)"
    using Inr unfolding y by (auto simp: ListBySpecimen_def Let_def page_cut_def split: sum.splits if_splits option.splits dest!: in_set_takeD)
  then have "photo_views d (visible_photos env u sp d ps) = Inr (map (photo_view d) (visible_photos env u sp d ps))"
    by (intro photo_views_total [OF assms(2)]) (auto simp: visible_photos_def)
  then show ?thesis using Inr assms(3,4,5) y
    by (simp add: photo_list_page_def photo_list_def parseUUID_def as_error_def filterPhotos_visible [OF assms(1)])
qed

text \<open>
  C22. Following the cursors of a specimen's photo list ends and shows, in pages, exactly the photos of
  the specimen that the caller may see, each once and in the order of their positions; a caller without
  access to the specimen gets the 404 of a missing one, and no page.
\<close>

theorem photo_list_walk:
  fixes env :: "('r::zero, 'img) photo_env"
  assumes guard: "guard_ok (pe_guard env) enf (Some (NewSharesLookup parse d))" and parse: "\<forall>i. parse (ag_str (pe_guard env) i) = Some i"
    and tc: "text_forms (pe_tc env)" and ok: "stored_ok str sha d st" and marshal: "\<forall>p\<in>set (db_photos d). photo_marshals p"
    and id: "uuid_Parse (pe_tc env) rawID = Some sid" and sp: "SpecimenPostgres_GetByID d sid = Inr sp"
  shows "if specimenAccessScope d u sp
    then \<exists>pages. walk (Suc (length (db_photos d))) (photo_list_page env u rawID l d) [] = Some pages \<and>
      concat pages = map (photo_view d) (visible_photos env u sp d (sort_key photo_key (filter (\<lambda>p. ph_SpecimenID p = sid) (db_photos d))))
    else photo_list env u rawID l c d = Inl (newAPIError 404 ''specimen_not_found'' ''no such specimen'' [])"
proof -
  let ?check = "checkView (pe_guard env) u (specimenResource (ag_str (pe_guard env)) sp) ''specimen_not_found'' ''no such specimen''"
  have act: "guard_active (pe_guard env)" using guard by (simp add: guard_ok_def guard_active_def)
  have scope: "?check = None \<longleftrightarrow> specimenAccessScope d u sp" using access_scope_checkView [OF guard parse] by blast
  have row: "sp \<in> set (db_specimens d)" "sp_ID sp = sid"
    using sp by (auto simp: SpecimenPostgres_GetByID_def find_Some_iff split: option.splits)
  show ?thesis
  proof (cases "specimenAccessScope d u sp")
    case True
    have all: "specimen_photos u sid d = filter (\<lambda>p. ph_SpecimenID p = sid) (db_photos d)"
      unfolding specimen_photos_def photo_scope_def using row True by (intro filter_cong) auto
    obtain ps where ps: "walk (Suc (length (db_photos d))) (\<lambda>c. ListBySpecimen (pe_tc env) u sid \<lparr>pg_Limit = l, pg_Cursor = c\<rparr> d) [] = Some ps"
      "concat ps = sort_key photo_key (specimen_photos u sid d)"
      using photo_pages [OF tc _ marshal, of u sid l] ok by (auto simp: stored_ok_def keys_ok_def)
    have page: "photo_list_page env u rawID l d c = map_sum mapPhotoListError
        (\<lambda>(ps, c'). (map (photo_view d) (visible_photos env u sp d ps), c')) (ListBySpecimen (pe_tc env) u sid \<lparr>pg_Limit = l, pg_Cursor = c\<rparr> d)" for c
      using scope True by (intro photo_list_page_of [OF act ok id sp]) simp
    have "walk (Suc (length (db_photos d))) (photo_list_page env u rawID l d) [] =
        map_option (map (\<lambda>ps. map (photo_view d) (visible_photos env u sp d ps)))
          (walk (Suc (length (db_photos d))) (\<lambda>c. ListBySpecimen (pe_tc env) u sid \<lparr>pg_Limit = l, pg_Cursor = c\<rparr> d) [])"
      by (rule walk_map) (auto simp: page)
    moreover have "concat (map (\<lambda>ps. map (photo_view d) (visible_photos env u sp d ps)) ps) = map (photo_view d) (visible_photos env u sp d (concat ps))"
      by (simp add: visible_photos_def filter_concat map_concat comp_def)
    ultimately show ?thesis using ps all True by simp
  next
    case False
    then obtain ae where ae: "?check = Some ae" using scope by (cases ?check) auto
    then obtain ae' where denied: "guard_check (pe_guard env) u (specimenResource (ag_str (pe_guard env)) sp) ''view'' = Some ae'"
      by (auto simp: checkView_def split: option.splits)
    have "ae' = newAPIError 403 ''forbidden'' ''you do not have permission to perform this action'' []"
      by (rule guard_ok_denies [OF guard _ denied]) simp
    then have "?check = Some (newAPIError 404 ''specimen_not_found'' ''no such specimen'' [])"
      using denied by (simp add: checkView_def newAPIError_def)
    then show ?thesis using False id sp by (simp add: photo_list_def parseUUID_def as_error_def)
  qed
qed

definition sample_gallery :: database where
  "sample_gallery = empty_database\<lparr>db_users := [User_zero\<lparr>us_ID := 7\<rparr>],
     db_specimens := [Specimen_zero\<lparr>sp_ID := 20, sp_AuthorID := 7, sp_Visibility := VisibilityPublic\<rparr>],
     db_files := [\<lparr>fi_ID = 3, fi_S3Key = original_key uuid_hex 3, fi_ContentType = ''image/png'', fi_ByteSize = 0, fi_SHA256 = ''hash'',
       fi_UploadedAt = 0, fi_UploadedBy = 7\<rparr>],
     db_photos := [Photo_zero\<lparr>ph_ID := 1, ph_SpecimenID := 20, ph_FileID := 3, ph_Position := 2\<rparr>,
       Photo_zero\<lparr>ph_ID := 2, ph_SpecimenID := 20, ph_FileID := 3, ph_Position := 1\<rparr>]\<rparr>"

lemma sample_gallery_stored:
  "stored_ok uuid_hex (\<lambda>_. ''hash'') sample_gallery
     (\<lambda>k. if k = original_key uuid_hex 3 then Some ([], ''image/png'') else Some ([], ''image/jpeg''))"
  by (simp add: stored_ok_def sample_gallery_def keys_ok_def fk_ok_def refs_def main_image_refs_def empty_database_def users_ok_def
      User_zero_def Specimen_zero_def Photo_zero_def file_stored_def variants_stored_def)

theorem photo_list_walk_witness:
  "\<exists>pages. walk 3 (photo_list_page (sample_photo_env\<lparr>pe_guard := \<lparr>ag_enforcer = Some (model_eval DefaultGroupings
      (Some (NewSharesLookup (uuid_Parse plain_codec) sample_gallery)) DefaultPolicies), ag_str = uuid_hex\<rparr>\<rparr>)
      auth_User_zero (uuid_hex 20) 1 sample_gallery) [] = Some pages \<and> map pv_ID (concat pages) = [2, 1]"
proof -
  let ?shares = "Some (NewSharesLookup (uuid_Parse plain_codec) sample_gallery)"
  let ?g = "\<lparr>ag_enforcer = Some (model_eval DefaultGroupings ?shares DefaultPolicies), ag_str = uuid_hex\<rparr>"
  let ?env = "sample_photo_env\<lparr>pe_guard := ?g\<rparr>" and ?sp = "Specimen_zero\<lparr>sp_ID := 20, sp_AuthorID := 7, sp_Visibility := VisibilityPublic\<rparr>"
  have "casbin_enforcer (model_eval DefaultGroupings ?shares DefaultPolicies) DefaultPolicies DefaultGroupings ?shares"
    by (rule model.casbin_enforcer_axioms)
  then have g: "guard_ok (pe_guard ?env) (model_eval DefaultGroupings ?shares DefaultPolicies) ?shares"
    using hex.uuid_text_axioms NewSharesLookup_total by (simp add: guard_ok_def)
  have readback: "uuid_Parse plain_codec (uuid_hex i) = Some i" for i using plain.uuid_back [of i] by (simp add: plain_codec_def)
  have sp: "SpecimenPostgres_GetByID sample_gallery 20 = Inr ?sp"
    by (simp add: SpecimenPostgres_GetByID_def sample_gallery_def Specimen_zero_def)
  have marshal: "\<forall>p\<in>set (db_photos sample_gallery). photo_marshals p"
    by (simp add: sample_gallery_def photo_marshals_def time_marshals_def Photo_zero_def)
  have tc: "text_forms (pe_tc ?env)" using plain.text_forms_axioms by simp
  have scope: "specimenAccessScope sample_gallery auth_User_zero ?sp"
    by (simp add: specimenAccessScope_def isAdmin_def isAnonymous_def auth_User_zero_def)
  have vis: "visible_photos ?env auth_User_zero ?sp sample_gallery ps = ps" if "\<forall>p\<in>set ps. ph_Visibility p = None" for ps
    using that by (simp add: visible_photos_def canSeePhoto_def ResolveImage_def Specimen_zero_def filter_id_conv)
  have rows: "sort_key photo_key (filter (\<lambda>p. ph_SpecimenID p = 20) (db_photos sample_gallery)) =
      [Photo_zero\<lparr>ph_ID := 2, ph_SpecimenID := 20, ph_FileID := 3, ph_Position := 1\<rparr>,
       Photo_zero\<lparr>ph_ID := 1, ph_SpecimenID := 20, ph_FileID := 3, ph_Position := 2\<rparr>]"
    by (simp add: sample_gallery_def photo_key_def Photo_zero_def)
  have shown: "map pv_ID (map (photo_view sample_gallery) (visible_photos ?env auth_User_zero ?sp sample_gallery
      (sort_key photo_key (filter (\<lambda>p. ph_SpecimenID p = 20) (db_photos sample_gallery))))) = [2, 1]"
    unfolding rows by (subst vis) (simp_all add: Photo_zero_def photo_view_def toPhotoView_def)
  have "Suc (length (db_photos sample_gallery)) = 3" by (simp add: sample_gallery_def)
  moreover obtain pages where "walk (Suc (length (db_photos sample_gallery))) (photo_list_page ?env auth_User_zero (uuid_hex 20) 1 sample_gallery) [] = Some pages"
    "concat pages = map (photo_view sample_gallery) (visible_photos ?env auth_User_zero ?sp sample_gallery
      (sort_key photo_key (filter (\<lambda>p. ph_SpecimenID p = 20) (db_photos sample_gallery))))"
    using photo_list_walk [of ?env, OF g _ tc sample_gallery_stored marshal _ sp, of "uuid_hex 20" auth_User_zero 1] readback scope by auto
  ultimately show ?thesis using shown by metis
qed

end
