(* ===== verification/Journal.thy ===== *)
theory Journal
  imports StoredFiles
begin

text \<open>
  The observation journal of a specimen: the entry and attachment repositories
  (\<open>src/internal/db/journal_entry_postgres.go\<close>, \<open>src/internal/db/journal_entry_file_postgres.go\<close>) and the entry
  endpoints (\<open>src/internal/api/journal.go\<close>). Entries belong to their author alone. The Markdown renderer is an
  argument that may fail.
\<close>

section \<open>Entries\<close>

definition JournalEntry_Create :: "auth_User \<Rightarrow> JournalEntry \<Rightarrow> database \<Rightarrow> repo_error + database" where
  "JournalEntry_Create u e d =
     (if je_ID e \<in> set (map je_ID (db_journal d)) then Inl unique_violation
      else if je_SpecimenID e \<notin> set (map sp_ID (db_specimens d)) \<or> u_ID u \<notin> set (map us_ID (db_users d))
      then Inl (Domain ErrJournalEntryNotFound)
      else Inr (d\<lparr>db_journal := db_journal d @ [e\<lparr>je_AuthorID := u_ID u\<rparr>]\<rparr>))"

definition JournalEntry_GetByID :: "database \<Rightarrow> uuid \<Rightarrow> repo_error + JournalEntry" where
  "JournalEntry_GetByID d i =
     (case find (\<lambda>e. je_ID e = i) (db_journal d) of None \<Rightarrow> Inl (Domain ErrJournalEntryNotFound) | Some e \<Rightarrow> Inr e)"

definition JournalEntry_Update :: "JournalEntry \<Rightarrow> database \<Rightarrow> repo_error + database" where
  "JournalEntry_Update e d =
     (if je_ID e \<notin> set (map je_ID (db_journal d)) then Inl (Domain ErrJournalEntryNotFound)
      else Inr (d\<lparr>db_journal := map (\<lambda>r. if je_ID r = je_ID e
             then r\<lparr>je_BodyMD := je_BodyMD e, je_UpdatedAt := je_UpdatedAt e\<rparr> else r) (db_journal d)\<rparr>))"

text \<open>An entry with attachments is kept; without them the cascade of the foreign key removes nothing.\<close>

definition JournalEntry_Delete :: "uuid \<Rightarrow> database \<Rightarrow> repo_error + database" where
  "JournalEntry_Delete i d =
     (if i \<in> set (map jf_EntryID (db_journal_files d)) then Inl (Domain ErrJournalEntryConflict)
      else if i \<notin> set (map je_ID (db_journal d)) then Inl (Domain ErrJournalEntryNotFound)
      else Inr (d\<lparr>db_journal := filter (\<lambda>e. je_ID e \<noteq> i) (db_journal d)\<rparr>))"

definition journal_key :: "JournalEntry \<Rightarrow> time \<times> uuid" where
  "journal_key e = (je_CreatedAt e, je_ID e)"

definition JournalEntry_ListBySpecimen ::
  "'r text_codec \<Rightarrow> auth_User \<Rightarrow> uuid \<Rightarrow> Page \<Rightarrow> database \<Rightarrow> list_error + JournalEntry list \<times> string" where
  "JournalEntry_ListBySpecimen tc u sid page d =
     keyset_list journal_key (\<lambda>e. EncodeCursor tc (je_CreatedAt e) (je_ID e)) (DecodeCursor tc)
       (filter (\<lambda>e. je_SpecimenID e = sid \<and> ownerScope u (je_AuthorID e)) (db_journal d))
       (clampLimit (pg_Limit page)) (pg_Cursor page)"

section \<open>Attachments\<close>

definition Attachment_Create :: "JournalEntryFile \<Rightarrow> database \<Rightarrow> repo_error + database" where
  "Attachment_Create j d =
     (if jf_Position j < - (2 ^ 31) \<or> 2 ^ 31 \<le> jf_Position j then Inl (Driver ''numeric_value_out_of_range'')
      else if \<exists>r\<in>set (db_journal_files d). jf_EntryID r = jf_EntryID j \<and> jf_FileID r = jf_FileID j then Inl unique_violation
      else if jf_EntryID j \<notin> set (map je_ID (db_journal d)) \<or> jf_FileID j \<notin> set (map fi_ID (db_files d))
      then Inl (Domain ErrJournalEntryNotFound)
      else Inr (d\<lparr>db_journal_files := db_journal_files d @ [j]\<rparr>))"

definition Attachment_GetByFileID :: "database \<Rightarrow> uuid \<Rightarrow> repo_error + JournalEntryFile" where
  "Attachment_GetByFileID d i =
     (case find (\<lambda>j. jf_FileID j = i) (db_journal_files d) of None \<Rightarrow> Inl (Domain ErrJournalAttachmentNotFound) | Some j \<Rightarrow> Inr j)"

definition ListByEntry :: "database \<Rightarrow> uuid \<Rightarrow> JournalEntryFile list" where
  "ListByEntry d i = sort_key (\<lambda>j. (jf_Position j, jf_CreatedAt j, jf_FileID j)) (filter (\<lambda>j. jf_EntryID j = i) (db_journal_files d))"

definition Attachment_Delete :: "uuid \<Rightarrow> database \<Rightarrow> repo_error + database" where
  "Attachment_Delete i d =
     (if i \<notin> set (map jf_FileID (db_journal_files d)) then Inl (Domain ErrJournalAttachmentNotFound)
      else Inr (d\<lparr>db_journal_files := filter (\<lambda>j. jf_FileID j \<noteq> i) (db_journal_files d)\<rparr>))"

definition Attachment_MaxPosition :: "database \<Rightarrow> uuid \<Rightarrow> int" where
  "Attachment_MaxPosition d i =
     (case map jf_Position (filter (\<lambda>j. jf_EntryID j = i) (db_journal_files d)) of [] \<Rightarrow> 0 | x # xs \<Rightarrow> Max (set (x # xs)))"

section \<open>Endpoints\<close>

record 'r journal_env =
  jn_guard :: authzGuard
  jn_tc :: "'r text_codec"
  jn_RenderString :: "string \<Rightarrow> string option"
  jn_newID :: uuid
  jn_now :: time

record JournalView =
  jv_ID :: uuid
  jv_SpecimenID :: uuid
  jv_AuthorID :: uuid
  jv_BodyMD :: string
  jv_BodyHTML :: string
  jv_CreatedAt :: time
  jv_UpdatedAt :: time

definition toJournalView :: "JournalEntry \<Rightarrow> string \<Rightarrow> JournalView" where
  "toJournalView e html =
     \<lparr>jv_ID = je_ID e, jv_SpecimenID = je_SpecimenID e, jv_AuthorID = je_AuthorID e, jv_BodyMD = je_BodyMD e, jv_BodyHTML = html,
      jv_CreatedAt = je_CreatedAt e, jv_UpdatedAt = je_UpdatedAt e\<rparr>"

definition mapJournalError :: "repo_error \<Rightarrow> apiError" where
  "mapJournalError err =
     (if err = Domain ErrJournalEntryNotFound then newAPIError 404 ''journal_entry_not_found'' ''no such journal entry'' []
      else if err = Domain ErrJournalEntryConflict then newAPIError 409 ''journal_entry_referenced''
        ''journal entry still has attachments; delete those first'' [(''constraint'', ''journal_entry_files'')]
      else newAPIError 500 ''internal_error'' ''internal server error'' [])"

definition gateParentSpecimen :: "'r journal_env \<Rightarrow> auth_User \<Rightarrow> uuid \<Rightarrow> database \<Rightarrow> apiError + unit" where
  "gateParentSpecimen env u specimenID d =
     sum_bind (map_sum mapSpecimenError id (SpecimenPostgres_GetByID d specimenID)) (\<lambda>sp.
     as_error (checkView (jn_guard env) u (specimenResource (ag_str (jn_guard env)) sp) ''specimen_not_found'' ''no such specimen''))"

definition enforceParentSpecimen :: "'r journal_env \<Rightarrow> auth_User \<Rightarrow> uuid \<Rightarrow> string \<Rightarrow> database \<Rightarrow> apiError + unit" where
  "enforceParentSpecimen env u specimenID act d =
     sum_bind (map_sum mapSpecimenError id (SpecimenPostgres_GetByID d specimenID)) (\<lambda>sp.
     as_error (guard_check (jn_guard env) u (specimenResource (ag_str (jn_guard env)) sp) act))"

definition render_or :: "'r journal_env \<Rightarrow> apiError \<Rightarrow> string \<Rightarrow> apiError + string" where
  "render_or env e md = (case jn_RenderString env md of None \<Rightarrow> Inl e | Some html \<Rightarrow> Inr html)"

definition markdown_render_failed :: apiError where
  "markdown_render_failed = newAPIError 422 ''markdown_render_failed'' ''failed to render markdown'' [(''field'', ''body_md'')]"

definition stored_render_failed :: apiError where
  "stored_render_failed = newAPIError 500 ''internal_error'' ''failed to render stored markdown'' []"

definition new_entry :: "'r journal_env \<Rightarrow> auth_User \<Rightarrow> uuid \<Rightarrow> string \<Rightarrow> JournalEntry" where
  "new_entry env u sid md =
     \<lparr>je_ID = jn_newID env, je_SpecimenID = sid, je_AuthorID = u_ID u, je_BodyMD = md, je_CreatedAt = jn_now env, je_UpdatedAt = jn_now env\<rparr>"

definition journal_create ::
  "'r journal_env \<Rightarrow> auth_User \<Rightarrow> string \<Rightarrow> string \<Rightarrow> database \<Rightarrow> apiError + (string \<times> JournalView) \<times> database" where
  "journal_create env u rawID md d =
     sum_bind (parseUUID (uuid_Parse (jn_tc env)) rawID ''id'') (\<lambda>sid.
     sum_bind (ensure (md \<noteq> []) (newAPIError 400 ''invalid_body_md'' ''body_md is required'' [(''field'', ''body_md'')])) (\<lambda>_.
     sum_bind (render_or env markdown_render_failed md) (\<lambda>html.
     sum_bind (as_error (guard_check (jn_guard env) u (ownedResource (ag_str (jn_guard env)) ''journal'' (u_ID u)) ''create'')) (\<lambda>_.
     sum_bind (enforceParentSpecimen env u sid ''edit'' d) (\<lambda>_.
     let e = new_entry env u sid md in
     sum_bind (map_sum mapJournalError id (JournalEntry_Create u e d)) (\<lambda>d'.
     Inr ((''/api/v1/journal/'' @ uuid_String (jn_tc env) (je_ID e), toJournalView e html), d')))))))"

record journalListBody =
  jl_Items :: "JournalView list"
  jl_NextCursor :: "string option"

fun journal_views :: "'r journal_env \<Rightarrow> JournalEntry list \<Rightarrow> apiError + JournalView list" where
  "journal_views env [] = Inr []"
| "journal_views env (e # es) =
     sum_bind (render_or env stored_render_failed (je_BodyMD e)) (\<lambda>html.
     sum_bind (journal_views env es) (\<lambda>vs. Inr (toJournalView e html # vs)))"

definition journal_list ::
  "'r journal_env \<Rightarrow> auth_User \<Rightarrow> string \<Rightarrow> int \<Rightarrow> string \<Rightarrow> database \<Rightarrow> apiError + journalListBody" where
  "journal_list env u rawID limit cursor d =
     sum_bind (parseUUID (uuid_Parse (jn_tc env)) rawID ''id'') (\<lambda>sid.
     sum_bind (gateParentSpecimen env u sid d) (\<lambda>_.
     sum_bind (map_sum mapListError id (JournalEntry_ListBySpecimen (jn_tc env) u sid \<lparr>pg_Limit = limit, pg_Cursor = cursor\<rparr> d)) (\<lambda>(rows, next).
     sum_bind (journal_views env rows) (\<lambda>items.
     Inr \<lparr>jl_Items = items, jl_NextCursor = (if next = [] then None else Some next)\<rparr>))))"

definition journal_get :: "'r journal_env \<Rightarrow> auth_User \<Rightarrow> string \<Rightarrow> database \<Rightarrow> apiError + JournalView" where
  "journal_get env u rawID d =
     sum_bind (parseUUID (uuid_Parse (jn_tc env)) rawID ''id'') (\<lambda>i.
     sum_bind (map_sum mapJournalError id (JournalEntry_GetByID d i)) (\<lambda>e.
     sum_bind (as_error (checkView (jn_guard env) u (journalResource (ag_str (jn_guard env)) e)
       ''journal_entry_not_found'' ''no such journal entry'')) (\<lambda>_.
     sum_bind (render_or env stored_render_failed (je_BodyMD e)) (\<lambda>html. Inr (toJournalView e html)))))"

record patchJournalBody =
  pj_BodyMD :: "string option"
  pj_CreatedAt :: "time option"

definition patch_entry :: "'r journal_env \<Rightarrow> patchJournalBody \<Rightarrow> JournalEntry \<Rightarrow> apiError + JournalEntry" where
  "patch_entry env b cur =
     (case pj_BodyMD b of
        None \<Rightarrow> Inr (cur\<lparr>je_UpdatedAt := jn_now env\<rparr>)
      | Some md \<Rightarrow>
          if md = [] then Inl (newAPIError 400 ''invalid_body_md'' ''body_md must be non-empty when provided'' [(''field'', ''body_md'')])
          else Inr (cur\<lparr>je_BodyMD := md, je_UpdatedAt := jn_now env\<rparr>))"

text \<open>The answer and the database: the entry is written before its text is rendered.\<close>

definition journal_patch ::
  "'r journal_env \<Rightarrow> auth_User \<Rightarrow> string \<Rightarrow> patchJournalBody \<Rightarrow> database \<Rightarrow> (apiError + JournalView) \<times> database" where
  "journal_patch env u rawID b d =
     (case sum_bind (parseUUID (uuid_Parse (jn_tc env)) rawID ''id'') (\<lambda>i.
           sum_bind (ensure (pj_CreatedAt b = None)
             (newAPIError 400 ''created_at_immutable'' ''created_at cannot be modified'' [(''field'', ''created_at'')])) (\<lambda>_.
           sum_bind (map_sum mapJournalError id (JournalEntry_GetByID d i)) (\<lambda>cur.
           sum_bind (as_error (guard_check (jn_guard env) u (journalResource (ag_str (jn_guard env)) cur) ''edit'')) (\<lambda>_.
           sum_bind (patch_entry env b cur) (\<lambda>cur'.
           sum_bind (map_sum mapJournalError id (JournalEntry_Update cur' d)) (\<lambda>d'. Inr (cur', d'))))))) of
        Inl e \<Rightarrow> (Inl e, d)
      | Inr (cur', d') \<Rightarrow> (map_sum id (toJournalView cur') (render_or env markdown_render_failed (je_BodyMD cur')), d'))"

definition journal_delete :: "'r journal_env \<Rightarrow> auth_User \<Rightarrow> string \<Rightarrow> database \<Rightarrow> apiError + database" where
  "journal_delete env u rawID d =
     sum_bind (parseUUID (uuid_Parse (jn_tc env)) rawID ''id'') (\<lambda>i.
     sum_bind (map_sum mapJournalError id (JournalEntry_GetByID d i)) (\<lambda>cur.
     sum_bind (as_error (guard_check (jn_guard env) u (journalResource (ag_str (jn_guard env)) cur) ''delete'')) (\<lambda>_.
     map_sum mapJournalError id (JournalEntry_Delete i d))))"

datatype journal_request = JCreate string string | JPatch string patchJournalBody | JDelete string

definition serve_journal :: "'r journal_env \<Rightarrow> auth_User \<Rightarrow> journal_request \<Rightarrow> database \<Rightarrow> apiError option \<times> database" where
  "serve_journal env u req d =
     (case req of
        JCreate rawID md \<Rightarrow> (case journal_create env u rawID md d of Inl e \<Rightarrow> (Some e, d) | Inr (_, d') \<Rightarrow> (None, d'))
      | JPatch rawID b \<Rightarrow> (case journal_patch env u rawID b d of (Inl e, d') \<Rightarrow> (Some e, d') | (Inr _, d') \<Rightarrow> (None, d'))
      | JDelete rawID \<Rightarrow> (case journal_delete env u rawID d of Inl e \<Rightarrow> (Some e, d) | Inr d' \<Rightarrow> (None, d')))"

section \<open>Statements\<close>

lemma journal_get_row: "JournalEntry_GetByID d i = Inr e \<Longrightarrow> e \<in> set (db_journal d) \<and> je_ID e = i"
  by (auto simp: JournalEntry_GetByID_def find_Some_iff split: option.splits)

lemma find_map_keep:
  assumes "\<And>x. P (h x) = P x"
  shows "find P (map h xs) = map_option h (find P xs)"
  using assms by (induction xs) auto

text \<open>How a statement changes the entries: one of them, and no other table.\<close>

datatype entry_change = Added JournalEntry | Edited JournalEntry JournalEntry | Removed JournalEntry

fun changes_entry :: "entry_change \<Rightarrow> database \<Rightarrow> database \<Rightarrow> bool" where
  "changes_entry (Added e) d d' = (d' = d\<lparr>db_journal := db_journal d @ [e]\<rparr> \<and> je_ID e \<notin> je_ID ` set (db_journal d))"
| "changes_entry (Edited e e') d d' =
     (d' = d\<lparr>db_journal := map (\<lambda>r. if je_ID r = je_ID e then e' else r) (db_journal d)\<rparr> \<and> e \<in> set (db_journal d) \<and>
      e' = e\<lparr>je_BodyMD := je_BodyMD e', je_UpdatedAt := je_UpdatedAt e'\<rparr>)"
| "changes_entry (Removed e) d d' =
     (d' = d\<lparr>db_journal := filter (\<lambda>r. je_ID r \<noteq> je_ID e) (db_journal d)\<rparr> \<and> e \<in> set (db_journal d) \<and>
      je_ID e \<notin> jf_EntryID ` set (db_journal_files d))"

lemma Create_change: "JournalEntry_Create u e d = Inr d' \<Longrightarrow> je_AuthorID e = u_ID u \<Longrightarrow> changes_entry (Added e) d d'"
  by (auto simp: JournalEntry_Create_def split: if_splits)

lemma Create_refs:
  "JournalEntry_Create u e d = Inr d' \<Longrightarrow> je_SpecimenID e \<in> sp_ID ` set (db_specimens d) \<and> u_ID u \<in> us_ID ` set (db_users d)"
  by (auto simp: JournalEntry_Create_def split: if_splits)

lemma Update_change:
  assumes "JournalEntry_Update e' d = Inr d'" and "distinct (map je_ID (db_journal d))" and "e \<in> set (db_journal d)"
    and "e' = e\<lparr>je_BodyMD := je_BodyMD e', je_UpdatedAt := je_UpdatedAt e'\<rparr>"
  shows "changes_entry (Edited e e') d d'"
proof -
  have id: "je_ID e' = je_ID e" by (subst assms(4)) simp
  have row: "r\<lparr>je_BodyMD := je_BodyMD e', je_UpdatedAt := je_UpdatedAt e'\<rparr> = e'" if "r \<in> set (db_journal d)" "je_ID r = je_ID e" for r
  proof -
    have "inj_on je_ID (set (db_journal d))" using assms(2) by (simp add: distinct_map)
    then have "r = e" using assms(3) that by (simp add: inj_onD)
    then show ?thesis using assms(4) by simp
  qed
  have "d' = d\<lparr>db_journal := map (\<lambda>r. if je_ID r = je_ID e then r\<lparr>je_BodyMD := je_BodyMD e', je_UpdatedAt := je_UpdatedAt e'\<rparr> else r) (db_journal d)\<rparr>"
    using assms(1) by (simp add: JournalEntry_Update_def id split: if_splits)
  also have "\<dots> = d\<lparr>db_journal := map (\<lambda>r. if je_ID r = je_ID e then e' else r) (db_journal d)\<rparr>"
    by (rule arg_cong [where f = "\<lambda>js. d\<lparr>db_journal := js\<rparr>"]) (rule map_cong, simp_all add: row)
  finally show ?thesis using assms(3,4) by simp
qed

lemma Delete_change:
  "JournalEntry_Delete i d = Inr d' \<Longrightarrow> e \<in> set (db_journal d) \<Longrightarrow> je_ID e = i \<Longrightarrow> changes_entry (Removed e) d d'"
  by (auto simp: JournalEntry_Delete_def split: if_splits)

section \<open>Who may read and write\<close>

lemma journalResource_simps [simp]:
  "r_Type (journalResource str e) = ''journal''" "r_Visibility (journalResource str e) = []" "r_AuthorID (journalResource str e) = str (je_AuthorID e)"
  by (simp_all add: journalResource_def)

lemma journal_write:
  assumes "guard_ok g enf shares" and "act \<in> {''edit'', ''delete'', ''create''}"
  shows "guard_check g u (journalResource (ag_str g) e) act = None \<longleftrightarrow> ownerScope u (je_AuthorID e)"
  by (rule owned_write_scope [OF assms]) (simp_all add: owned_types_def)

lemma parent_write:
  assumes "guard_ok (jn_guard env) enf shares" and "enforceParentSpecimen env u sid ''edit'' d = Inr x"
  shows "\<exists>sp. SpecimenPostgres_GetByID d sid = Inr sp \<and> ownerScope u (sp_AuthorID sp)"
proof -
  obtain sp where sp: "SpecimenPostgres_GetByID d sid = Inr sp"
    and check: "guard_check (jn_guard env) u (specimenResource (ag_str (jn_guard env)) sp) ''edit'' = None"
    using assms(2) unfolding enforceParentSpecimen_def sum_bind_Inr map_sum_Inr as_error_Inr by blast
  have "guard_check (jn_guard env) u (specimenResource (ag_str (jn_guard env)) sp) ''edit'' = None \<longleftrightarrow> ownerScope u (sp_AuthorID sp)"
    by (rule owned_write_scope [OF assms(1)]) (simp_all add: specimenResource_def owned_types_def)
  then show ?thesis using check sp by simp
qed

definition change_allowed :: "auth_User \<Rightarrow> database \<Rightarrow> entry_change \<Rightarrow> bool" where
  "change_allowed u d ch =
     (case ch of
        Added e \<Rightarrow> je_AuthorID e = u_ID u \<and> (\<exists>sp. SpecimenPostgres_GetByID d (je_SpecimenID e) = Inr sp \<and> ownerScope u (sp_AuthorID sp))
      | Edited e _ \<Rightarrow> ownerScope u (je_AuthorID e)
      | Removed e \<Rightarrow> ownerScope u (je_AuthorID e))"

lemma journal_create_sound:
  assumes "guard_ok (jn_guard env) enf shares" and "journal_create env u rawID md d = Inr (out, d')"
  shows "\<exists>ch. changes_entry ch d d' \<and> change_allowed u d ch \<and> (fk_ok d \<longrightarrow> fk_ok d') \<and> (keys_ok d \<longrightarrow> keys_ok d')"
proof -
  obtain sid x where parent: "enforceParentSpecimen env u sid ''edit'' d = Inr x"
    and ins: "JournalEntry_Create u (new_entry env u sid md) d = Inr d'"
    using assms(2) unfolding journal_create_def Let_def sum_bind_Inr map_sum_Inr by auto
  let ?e = "new_entry env u sid md"
  have ch: "changes_entry (Added ?e) d d'" by (rule Create_change [OF ins]) (simp add: new_entry_def)
  moreover have "change_allowed u d (Added ?e)"
    using parent_write [OF assms(1) parent] by (simp add: change_allowed_def new_entry_def)
  moreover have "fk_ok d \<longrightarrow> fk_ok d'"
    using Create_refs [OF ins] ch by (auto simp: fk_ok_def new_entry_def intro: refs_more)
  moreover have "keys_ok d \<longrightarrow> keys_ok d'" using ch by (auto simp: keys_ok_def)
  ultimately show ?thesis by blast
qed


text \<open>What every write comes to: nothing, or one allowed change that keeps the tables consistent.\<close>

definition sound_step :: "auth_User \<Rightarrow> database \<Rightarrow> database \<Rightarrow> bool" where
  "sound_step u d d' \<longleftrightarrow> d' = d \<or>
     (\<exists>ch. changes_entry ch d d' \<and> change_allowed u d ch \<and> (fk_ok d \<longrightarrow> fk_ok d') \<and> (keys_ok d \<longrightarrow> keys_ok d'))"

lemma refs_from_edited: "refs f xs g ys \<Longrightarrow> e \<in> set xs \<Longrightarrow> f e' = f e \<Longrightarrow> refs f (map (\<lambda>r. if c r then e' else r) xs) g ys"
  by (auto simp: refs_def)

lemma edited_keeps:
  assumes "changes_entry (Edited e e') d d'"
  shows "fk_ok d \<Longrightarrow> fk_ok d'" and "keys_ok d \<Longrightarrow> keys_ok d'"
proof -
  let ?h = "\<lambda>r. if je_ID r = je_ID e then e' else r"
  have d': "d' = d\<lparr>db_journal := map ?h (db_journal d)\<rparr>" and e: "e \<in> set (db_journal d)"
    and e': "e' = e\<lparr>je_BodyMD := je_BodyMD e', je_UpdatedAt := je_UpdatedAt e'\<rparr>"
    using assms by simp_all
  have same: "je_ID e' = je_ID e" "je_AuthorID e' = je_AuthorID e" "je_SpecimenID e' = je_SpecimenID e"
    by (subst e', simp)+
  have id: "je_ID (?h r) = je_ID r" for r by (cases "je_ID r = je_ID e") (simp_all add: same)
  show "fk_ok d \<Longrightarrow> fk_ok d'"
    unfolding d' fk_ok_def using refs_map_right [of jf_EntryID "db_journal_files d" je_ID "db_journal d" ?h] id
    by (simp add: refs_from_edited [OF _ e] same cong: if_cong)
  have "map je_ID (map ?h (db_journal d)) = map je_ID (db_journal d)" by (simp add: id)
  from this [symmetric] show "keys_ok d \<Longrightarrow> keys_ok d'" unfolding keys_ok_def d' by (simp del: map_map map_eq_conv)
qed

lemma removed_keeps:
  assumes "changes_entry (Removed e) d d'"
  shows "fk_ok d \<Longrightarrow> fk_ok d'" and "keys_ok d \<Longrightarrow> keys_ok d'"
proof -
  have d': "d' = d\<lparr>db_journal := filter (\<lambda>r. \<not> je_ID r = je_ID e) (db_journal d)\<rparr>"
    and free: "je_ID e \<notin> jf_EntryID ` set (db_journal_files d)"
    using assms by simp_all
  have "\<forall>x\<in>set (db_journal_files d). jf_EntryID x \<notin> je_ID ` set (filter (\<lambda>r. je_ID r = je_ID e) (db_journal d))"
    using free by (metis (mono_tags, lifting) imageE image_eqI mem_Collect_eq set_filter)
  then show "fk_ok d \<Longrightarrow> fk_ok d'"
    unfolding d' fk_ok_def using refs_restrict [of jf_EntryID "db_journal_files d" je_ID "db_journal d" "\<lambda>r. je_ID r = je_ID e"]
    by (simp add: refs_keep del: set_filter)
  show "keys_ok d \<Longrightarrow> keys_ok d'" unfolding d' keys_ok_def by (simp add: distinct_map_filter)
qed

lemma patch_entry_same:
  "patch_entry env b cur = Inr cur' \<Longrightarrow> cur' = cur\<lparr>je_BodyMD := je_BodyMD cur', je_UpdatedAt := je_UpdatedAt cur'\<rparr>"
  by (auto simp: patch_entry_def split: option.splits if_splits)

lemma journal_patch_sound:
  assumes "guard_ok (jn_guard env) enf shares" and "keys_ok d" and "journal_patch env u rawID b d = (r, d')"
  shows "sound_step u d d'"
proof (cases "d' = d")
  case False
  obtain i cur cur' where row: "JournalEntry_GetByID d i = Inr cur"
    and check: "guard_check (jn_guard env) u (journalResource (ag_str (jn_guard env)) cur) ''edit'' = None"
    and cur': "patch_entry env b cur = Inr cur'" and upd: "JournalEntry_Update cur' d = Inr d'"
    using assms(3) False unfolding journal_patch_def
    by (auto simp: sum_bind_Inr map_sum_Inr as_error_Inr ensure_Inr split: sum.splits)
  have e: "cur \<in> set (db_journal d)" using journal_get_row [OF row] by simp
  have "distinct (map je_ID (db_journal d))" using assms(2) by (simp add: keys_ok_def)
  then have ch: "changes_entry (Edited cur cur') d d'" by (rule Update_change [OF upd _ e patch_entry_same [OF cur']])
  have "''edit'' \<in> {''edit'', ''delete'', ''create''}" by simp
  then have "change_allowed u d (Edited cur cur')"
    using journal_write [OF assms(1)] check by (simp add: change_allowed_def)
  then show ?thesis using ch edited_keeps [OF ch] unfolding sound_step_def by blast
qed (simp add: sound_step_def)

lemma journal_delete_sound:
  assumes "guard_ok (jn_guard env) enf shares" and "journal_delete env u rawID d = Inr d'"
  shows "sound_step u d d'"
proof -
  obtain i cur where row: "JournalEntry_GetByID d i = Inr cur"
    and check: "guard_check (jn_guard env) u (journalResource (ag_str (jn_guard env)) cur) ''delete'' = None"
    and del: "JournalEntry_Delete i d = Inr d'"
    using assms(2) unfolding journal_delete_def by (auto simp: sum_bind_Inr map_sum_Inr as_error_Inr)
  have ch: "changes_entry (Removed cur) d d'" using Delete_change [OF del] journal_get_row [OF row] by blast
  have "''delete'' \<in> {''edit'', ''delete'', ''create''}" by simp
  then have "change_allowed u d (Removed cur)"
    using journal_write [OF assms(1)] check by (simp add: change_allowed_def)
  then show ?thesis using ch removed_keeps [OF ch] unfolding sound_step_def by blast
qed

lemma serve_journal_sound:
  assumes "guard_ok (jn_guard env) enf shares" and "keys_ok d" and "serve_journal env u req d = (r, d')"
  shows "sound_step u d d'"
proof (cases req)
  case (JCreate rawID md)
  show ?thesis
  proof (cases "journal_create env u rawID md d")
    case (Inl e)
    then show ?thesis using assms(3) JCreate by (simp add: serve_journal_def sound_step_def)
  next
    case (Inr x)
    then have "journal_create env u rawID md d = Inr (fst x, d')"
      using assms(3) JCreate by (auto simp: serve_journal_def split: prod.splits)
    then show ?thesis using journal_create_sound [OF assms(1)] unfolding sound_step_def by blast
  qed
next
  case (JPatch rawID b)
  obtain a d1 where p: "journal_patch env u rawID b d = (a, d1)" by fastforce
  have "d1 = d'" using assms(3) JPatch p by (simp add: serve_journal_def split: sum.splits)
  then show ?thesis using journal_patch_sound [OF assms(1,2)] p by blast
next
  case (JDelete rawID)
  then show ?thesis
    using assms(3) journal_delete_sound [OF assms(1), of u rawID d]
    by (cases "journal_delete env u rawID d") (simp_all add: serve_journal_def sound_step_def)
qed

lemma journal_views_rows:
  "journal_views env es = Inr vs \<Longrightarrow> list_all2 (\<lambda>e v. \<exists>html. jn_RenderString env (je_BodyMD e) = Some html \<and> v = toJournalView e html) es vs"
  by (induction es arbitrary: vs) (auto simp: sum_bind_Inr render_or_def split: option.splits)

lemma keyset_list_rows: "keyset_list key enc dec rows n c = Inr (xs, c') \<Longrightarrow> set xs \<subseteq> set rows"
  unfolding keyset_list_def page_cut_def
  by (auto split: sum.splits option.splits if_splits dest!: in_set_takeD)

definition not_found_entry :: apiError where
  "not_found_entry = newAPIError 404 ''journal_entry_not_found'' ''no such journal entry'' []"

text \<open>An entry is seen by its author and the admins, and for anybody else it does not exist.\<close>

lemma journal_checkView:
  assumes "guard_ok g enf shares"
  shows "checkView g u (journalResource (ag_str g) e) code msg = (if ownerScope u (je_AuthorID e) then None else Some (newAPIError 404 code msg []))"
  by (rule owned_checkView [OF assms]) simp_all

definition entry_for :: "auth_User \<Rightarrow> uuid \<Rightarrow> database \<Rightarrow> JournalEntry option" where
  "entry_for u i d = find (\<lambda>e. je_ID e = i \<and> ownerScope u (je_AuthorID e)) (db_journal d)"

lemma find_unique_and:
  assumes "distinct (map f xs)"
  shows "find (\<lambda>x. f x = i \<and> P x) xs = (case find (\<lambda>x. f x = i) xs of None \<Rightarrow> None | Some x \<Rightarrow> if P x then Some x else None)"
  using assms
proof (induction xs)
  case (Cons x xs)
  show ?case
  proof (cases "f x = i")
    case True
    then have "find (\<lambda>y. f y = i) xs = None" using Cons.prems by (simp add: find_None_iff) (metis image_eqI)
    then show ?thesis using Cons True by simp
  next
    case False
    then show ?thesis using Cons by simp
  qed
qed simp

lemma journal_get_spec:
  assumes "guard_ok (jn_guard env) enf shares" and "keys_ok d" and "uuid_Parse (jn_tc env) rawID = Some i"
  shows "journal_get env u rawID d =
    (case entry_for u i d of None \<Rightarrow> Inl not_found_entry
     | Some e \<Rightarrow> map_sum id (toJournalView e) (render_or env stored_render_failed (je_BodyMD e)))"
proof -
  have "distinct (map je_ID (db_journal d))" using assms(2) by (simp add: keys_ok_def)
  note find = find_unique_and [OF this, of i "\<lambda>e. ownerScope u (je_AuthorID e)"]
  show ?thesis
  proof (cases "find (\<lambda>e. je_ID e = i) (db_journal d)")
    case None
    then show ?thesis
      by (simp add: journal_get_def parseUUID_def assms(3) entry_for_def find JournalEntry_GetByID_def mapJournalError_def not_found_entry_def)
  next
    case (Some e)
    then show ?thesis
      by (simp add: journal_get_def parseUUID_def assms(3) entry_for_def find JournalEntry_GetByID_def journal_checkView [OF assms(1)]
          not_found_entry_def render_or_def as_error_def split: option.split)
  qed
qed

definition shown_entry :: "'r journal_env \<Rightarrow> auth_User \<Rightarrow> database \<Rightarrow> JournalView \<Rightarrow> bool" where
  "shown_entry env u d v \<longleftrightarrow>
     (\<exists>e\<in>set (db_journal d). ownerScope u (je_AuthorID e) \<and> (\<exists>html. jn_RenderString env (je_BodyMD e) = Some html \<and> v = toJournalView e html))"

lemma journal_list_shown:
  assumes "journal_list env u rawID limit cursor d = Inr b" and "v \<in> set (jl_Items b)"
  shows "shown_entry env u d v"
proof -
  obtain sid rows next' where rows: "JournalEntry_ListBySpecimen (jn_tc env) u sid \<lparr>pg_Limit = limit, pg_Cursor = cursor\<rparr> d = Inr (rows, next')"
    and items: "journal_views env rows = Inr (jl_Items b)"
    using assms(1) unfolding journal_list_def by (auto simp: sum_bind_Inr map_sum_Inr)
  have mine: "set rows \<subseteq> {e \<in> set (db_journal d). ownerScope u (je_AuthorID e)}"
    using keyset_list_rows [OF rows [unfolded JournalEntry_ListBySpecimen_def]] by auto
  obtain k where k: "k < length (jl_Items b)" "v = jl_Items b ! k" using assms(2) by (metis in_set_conv_nth)
  note views = journal_views_rows [OF items]
  then have "k < length rows" using k(1) by (simp add: list_all2_lengthD)
  then show ?thesis
    using list_all2_nthD2 [OF views k(1)] k(2) mine nth_mem unfolding shown_entry_def by blast
qed

section \<open>Properties\<close>

text \<open>
  C9: a journal entry belongs to its author. Fetching an entry gives its stored text and rendering to the author
  and to admins, and to everybody else, whatever the specimen's visibility or shares, exactly the answer for an
  entry that does not exist; a list shows the caller's own entries (for an admin, all), as stored. A request that
  writes leaves the database alone or adds, edits or removes exactly one entry and touches no other table: a new
  entry carries the caller as author and hangs on a specimen the caller owns, an edit or a removal is of an entry of
  the caller (or by an admin), an edit keeps author, specimen and creation time, an entry with attachments is never
  removed, and keys and references stay consistent.
\<close>

theorem journal_access:
  assumes "guard_ok (jn_guard env) enf shares" and "keys_ok d" and "uuid_Parse (jn_tc env) rawID = Some i"
  shows "journal_get env u rawID d =
      (case entry_for u i d of None \<Rightarrow> Inl not_found_entry
       | Some e \<Rightarrow> map_sum id (toJournalView e) (render_or env stored_render_failed (je_BodyMD e))) \<and>
    (\<forall>limit cursor b. journal_list env u rawID limit cursor d = Inr b \<longrightarrow> list_all (shown_entry env u d) (jl_Items b)) \<and>
    sound_step u d (snd (serve_journal env u req d))"
  using journal_get_spec [OF assms] journal_list_shown serve_journal_sound [OF assms(1,2) prod.collapse [symmetric]]
  unfolding list_all_iff by blast

definition sample_journal_env :: "nat journal_env" where
  "sample_journal_env = \<lparr>jn_guard = live_guard, jn_tc = plain_codec,
     jn_RenderString = (\<lambda>md. if md = ''bad'' then None else Some (''<p>'' @ md @ ''</p>'')), jn_newID = 51, jn_now = 9\<rparr>"

definition sample_entry :: JournalEntry where
  "sample_entry = \<lparr>je_ID = 50, je_SpecimenID = 20, je_AuthorID = 7, je_BodyMD = ''note'', je_CreatedAt = 1, je_UpdatedAt = 1\<rparr>"

definition sample_journal :: database where
  "sample_journal = empty_database\<lparr>db_users := [User_zero\<lparr>us_ID := 7\<rparr>],
     db_specimens := [Specimen_zero\<lparr>sp_ID := 20, sp_AuthorID := 7, sp_Visibility := VisibilityPublic\<rparr>], db_journal := [sample_entry]\<rparr>"

lemma sample_parse: "uuid_Parse plain_codec (uuid_hex i) = Some i"
  using plain.uuid_back [of i] by (simp add: plain_codec_def)

lemma sample_keys: "keys_ok sample_journal"
  by (simp add: sample_journal_def keys_ok_def empty_database_def users_ok_def)

theorem journal_access_witness:
  "journal_get sample_journal_env (auth_User_zero\<lparr>u_ID := 8\<rparr>) (uuid_hex 50) sample_journal = Inl not_found_entry"
proof -
  have "guard_ok (jn_guard sample_journal_env) (model_eval DefaultGroupings None DefaultPolicies) None"
    using live_guard_ok by (simp add: sample_journal_env_def)
  moreover have "uuid_Parse (jn_tc sample_journal_env) (uuid_hex 50) = Some 50"
    using sample_parse by (simp add: sample_journal_env_def)
  moreover have "entry_for (auth_User_zero\<lparr>u_ID := 8\<rparr>) 50 sample_journal = None"
    by (simp add: entry_for_def sample_journal_def sample_entry_def ownerScope_def isAdmin_def auth_User_zero_def)
  ultimately show ?thesis using journal_access [OF _ sample_keys] by fastforce
qed

text \<open>
  The patch handler writes before it renders: an edit that is answered with 422 is stored, and from then on the
  entry cannot be fetched.
\<close>

lemma refused_patch_is_stored:
  assumes "guard_ok (jn_guard env) enf shares" and "keys_ok d" and "uuid_Parse (jn_tc env) rawID = Some i"
    and "entry_for u i d = Some e" and "pj_CreatedAt b = None" "pj_BodyMD b = Some md" "md \<noteq> []" "jn_RenderString env md = None"
  shows "fst (journal_patch env u rawID b d) = Inl markdown_render_failed \<and>
    journal_get env u rawID (snd (journal_patch env u rawID b d)) = Inl stored_render_failed"
proof -
  have dist: "distinct (map je_ID (db_journal d))" using assms(2) by (simp add: keys_ok_def)
  note fu = find_unique_and [OF dist, of i "\<lambda>e. ownerScope u (je_AuthorID e)"]
  have row: "find (\<lambda>e. je_ID e = i) (db_journal d) = Some e" and own: "ownerScope u (je_AuthorID e)"
    using assms(4) fu by (auto simp: entry_for_def split: option.splits if_splits)
  have e: "e \<in> set (db_journal d)" "je_ID e = i" using row by (auto simp: find_Some_iff)
  let ?e = "e\<lparr>je_BodyMD := md, je_UpdatedAt := jn_now env\<rparr>"
  have check: "guard_check (jn_guard env) u (journalResource (ag_str (jn_guard env)) e) ''edit'' = None"
    using journal_write [OF assms(1)] own by simp
  obtain d' where upd: "JournalEntry_Update ?e d = Inr d'" using e by (auto simp: JournalEntry_Update_def)
  have p: "journal_patch env u rawID b d = (Inl markdown_render_failed, d')"
    using assms(3,5-8) row check upd
    by (simp add: journal_patch_def parseUUID_def JournalEntry_GetByID_def as_error_def ensure_def patch_entry_def render_or_def)
  have ch: "changes_entry (Edited e ?e) d d'" by (rule Update_change [OF upd dist e(1)]) simp
  then have d': "db_journal d' = map (\<lambda>r. if je_ID r = i then ?e else r) (db_journal d)" by (simp add: e(2))
  have "find (\<lambda>r. je_ID r = i) (db_journal d') = Some ?e"
    using row e(2) unfolding d' by (subst find_map_keep) simp_all
  moreover have keys: "keys_ok d'" by (rule edited_keeps(2) [OF ch assms(2)])
  ultimately have "entry_for u i d' = Some ?e"
    using find_unique_and [of je_ID "db_journal d'" i "\<lambda>e. ownerScope u (je_AuthorID e)"] own
    by (simp add: entry_for_def keys_ok_def)
  then show ?thesis using journal_get_spec [OF assms(1) keys assms(3), of u] p assms(8) by (simp add: render_or_def)
qed

end
