(* ===== verification/JournalFiles.thy ===== *)
theory JournalFiles
  imports Journal PhotoService
begin

text \<open>
  Attachments of journal entries (\<open>src/internal/api/journal_files.go\<close>): upload, list, removal and download. The
  service runs on the guard, the object store, the transaction runner and the clock of the photo service, so its
  operations take the same environment; what differs is the allowlist, that no variants are made, and that access
  goes through the journal entry.
\<close>

section \<open>Upload\<close>

definition allowedJournalContentTypes :: "string list" where
  "allowedJournalContentTypes =
     [''application/pdf'', ''image/jpeg'', ''image/png'', ''image/webp'', ''text/plain'', ''text/csv'', ''text/markdown'',
      ''application/json'', ''application/xml'']"

definition isAllowedJournalContentType :: "string \<Rightarrow> bool" where
  "isAllowedJournalContentType ct \<longleftrightarrow> ct \<in> set allowedJournalContentTypes"

record JournalFileView =
  jfv_EntryID :: uuid
  jfv_FileID :: uuid
  jfv_ContentType :: string
  jfv_ByteSize :: int
  jfv_SHA256 :: string
  jfv_Position :: int
  jfv_CreatedAt :: time

definition toJournalFileView :: "JournalEntryFile \<Rightarrow> File \<Rightarrow> JournalFileView" where
  "toJournalFileView j f =
     \<lparr>jfv_EntryID = jf_EntryID j, jfv_FileID = jf_FileID j, jfv_ContentType = fi_ContentType f, jfv_ByteSize = fi_ByteSize f,
      jfv_SHA256 = fi_SHA256 f, jfv_Position = jf_Position j, jfv_CreatedAt = jf_CreatedAt j\<rparr>"

definition no_such_entry :: apiError where
  "no_such_entry = newAPIError 404 ''journal_entry_not_found'' ''no such journal entry'' [(''field'', ''id'')]"

definition lookup_failed :: "string \<Rightarrow> apiError" where
  "lookup_failed msg = newAPIError 500 ''internal_error'' msg []"

definition entry_lookup_error :: "repo_error \<Rightarrow> apiError" where
  "entry_lookup_error err =
     (if err = Domain ErrJournalEntryNotFound then no_such_entry else lookup_failed ''failed to look up journal entry'')"

record prepared_attachment =
  pa_EntryID :: uuid
  pa_ContentType :: string
  pa_Data :: bytes

record uploadJournalFileInput =
  uj_EntryID :: string
  uj_ContentType :: string
  uj_Body :: body_read

definition prepare_attachment ::
  "('r, 'img) photo_env \<Rightarrow> auth_User \<Rightarrow> uploadJournalFileInput \<Rightarrow> database \<Rightarrow> apiError + prepared_attachment" where
  "prepare_attachment env u inp d =
     sum_bind (parseUUID (uuid_Parse (pe_tc env)) (uj_EntryID inp) ''id'') (\<lambda>i.
     sum_bind (map_sum entry_lookup_error id (JournalEntry_GetByID d i)) (\<lambda>entry.
     sum_bind (as_error (guard_check (pe_guard env) u (journalResource (ag_str (pe_guard env)) entry) ''edit'')) (\<lambda>_.
     let ct = to_lower (trimSpace (uj_ContentType inp)) in
     sum_bind (ensure (isAllowedJournalContentType ct)
       (newAPIError 415 ''unsupported_media_type'' ''file content-type is not allowed''
         [(''allowed'', json_print (JArr (map JStr allowedJournalContentTypes))), (''got'', ct)])) (\<lambda>_.
     sum_bind (read_body (uj_Body inp)) (\<lambda>data.
     Inr \<lparr>pa_EntryID = i, pa_ContentType = ct, pa_Data = data\<rparr>)))))"

definition attachment_file :: "('r, 'img) photo_env \<Rightarrow> auth_User \<Rightarrow> prepared_attachment \<Rightarrow> File" where
  "attachment_file env u pa =
     \<lparr>fi_ID = pe_fileID env, fi_S3Key = original_key (pe_str env) (pe_fileID env), fi_ContentType = pa_ContentType pa,
      fi_ByteSize = int (length (pa_Data pa)), fi_SHA256 = pe_sha256 env (pa_Data pa), fi_UploadedAt = pe_now env,
      fi_UploadedBy = u_ID u\<rparr>"

definition new_attachment :: "('r, 'img) photo_env \<Rightarrow> prepared_attachment \<Rightarrow> int \<Rightarrow> JournalEntryFile" where
  "new_attachment env pa position =
     \<lparr>jf_EntryID = pa_EntryID pa, jf_FileID = pe_fileID env, jf_Position = position, jf_CreatedAt = pe_now env\<rparr>"

definition attach_tx ::
  "('r, 'img) photo_env \<Rightarrow> auth_User \<Rightarrow> prepared_attachment \<Rightarrow> database \<Rightarrow> repo_error + JournalEntryFile \<times> database" where
  "attach_tx env u pa d =
     sum_bind (FilePostgres_Create u (attachment_file env u pa) d) (\<lambda>d1.
     let j = new_attachment env pa (Attachment_MaxPosition d1 (pa_EntryID pa) + 1) in
     sum_bind (Attachment_Create j d1) (\<lambda>d2. Inr (j, d2)))"

definition attach_error :: "repo_error \<Rightarrow> apiError" where
  "attach_error err =
     (if err = Domain ErrJournalEntryNotFound then no_such_entry
      else if err = Domain ErrFileConflict then newAPIError 409 ''file_conflict'' ''file with that key already exists'' []
      else newAPIError 500 ''internal_error'' ''failed to commit upload'' [])"

definition attach_write_error :: "storage_error \<Rightarrow> apiError" where
  "attach_write_error e =
     (if e = ErrAlreadyExists then newAPIError 409 ''file_id_collision'' ''object key collision; retry the upload'' []
      else storage_write_failed ''failed to write file to object storage'')"

definition journal_file_upload ::
  "('r, 'img) photo_env \<Rightarrow> auth_User \<Rightarrow> uploadJournalFileInput \<Rightarrow> photo_world \<Rightarrow> (apiError + string \<times> JournalFileView) \<times> photo_world" where
  "journal_file_upload env u inp w =
     (case prepare_attachment env u inp (pw_db w) of
        Inl e \<Rightarrow> (Inl e, w)
      | Inr pa \<Rightarrow>
          (case UploadIfNotExists (pe_faults env) (original_key (pe_str env) (pe_fileID env)) (pa_Data pa) (pa_ContentType pa) (pw_objects w) of
             (Inl e, st) \<Rightarrow> (Inl (attach_write_error e), w\<lparr>pw_objects := st\<rparr>)
           | (Inr _, st) \<Rightarrow>
               (case RunInTx (pe_tx env) id (attach_tx env u pa) (pw_db w) of
                  (Inl err, d) \<Rightarrow>
                    (Inl (attach_error err),
                     \<lparr>pw_db = d, pw_objects = delete_all (pe_faults env) [original_key (pe_str env) (pe_fileID env)] st\<rparr>)
                | (Inr j, d) \<Rightarrow>
                    (Inr (''/api/v1/files/'' @ pe_str env (pe_fileID env), toJournalFileView j (attachment_file env u pa)),
                     \<lparr>pw_db = d, pw_objects = st\<rparr>))))"

section \<open>List and removal\<close>

fun attachment_views :: "database \<Rightarrow> JournalEntryFile list \<Rightarrow> apiError + JournalFileView list" where
  "attachment_views d [] = Inr []"
| "attachment_views d (j # js) =
     sum_bind (map_sum (\<lambda>_. lookup_failed ''failed to load attachment file'') id (FilePostgres_GetByID d (jf_FileID j))) (\<lambda>f.
     sum_bind (attachment_views d js) (\<lambda>vs. Inr (toJournalFileView j f # vs)))"

definition journal_file_list :: "('r, 'img) photo_env \<Rightarrow> auth_User \<Rightarrow> string \<Rightarrow> database \<Rightarrow> apiError + JournalFileView list" where
  "journal_file_list env u rawID d =
     sum_bind (parseUUID (uuid_Parse (pe_tc env)) rawID ''id'') (\<lambda>i.
     sum_bind (map_sum entry_lookup_error id (JournalEntry_GetByID d i)) (\<lambda>entry.
     sum_bind (as_error (checkView (pe_guard env) u (journalResource (ag_str (pe_guard env)) entry)
       ''journal_entry_not_found'' ''no such journal entry'')) (\<lambda>_.
     attachment_views d (ListByEntry d i))))"

definition no_such_attachment :: apiError where
  "no_such_attachment = newAPIError 404 ''journal_attachment_not_found'' ''no such journal attachment'' [(''field'', ''file_id'')]"

definition detach_tx :: "uuid \<Rightarrow> database \<Rightarrow> repo_error + unit \<times> database" where
  "detach_tx i d = sum_bind (Attachment_Delete i d) (\<lambda>d1. sum_bind (FilePostgres_Delete i d1) (\<lambda>d2. Inr ((), d2)))"

definition detach_error :: "repo_error \<Rightarrow> apiError" where
  "detach_error err =
     (if err = Domain ErrJournalAttachmentNotFound then no_such_attachment
      else if err = Domain ErrFileNotFound then newAPIError 404 ''file_not_found'' ''no such file'' [(''field'', ''file_id'')]
      else lookup_failed ''failed to delete attachment'')"

definition attachment_lookup_error :: "repo_error \<Rightarrow> apiError" where
  "attachment_lookup_error err =
     (if err = Domain ErrJournalAttachmentNotFound then no_such_attachment else lookup_failed ''failed to look up attachment'')"

text \<open>The entry is looked up only when there is a policy to ask.\<close>

definition check_attached_entry :: "('r, 'img) photo_env \<Rightarrow> auth_User \<Rightarrow> JournalEntryFile \<Rightarrow> database \<Rightarrow> apiError + unit" where
  "check_attached_entry env u j d =
     (if \<not> guard_active (pe_guard env) then Inr ()
      else sum_bind (map_sum (\<lambda>_. lookup_failed ''failed to look up journal entry'') id (JournalEntry_GetByID d (jf_EntryID j))) (\<lambda>entry.
        as_error (guard_check (pe_guard env) u (journalResource (ag_str (pe_guard env)) entry) ''edit'')))"

definition journal_file_delete ::
  "('r, 'img) photo_env \<Rightarrow> auth_User \<Rightarrow> string \<Rightarrow> photo_world \<Rightarrow> (apiError + unit) \<times> photo_world" where
  "journal_file_delete env u rawID w =
     (case sum_bind (parseUUID (uuid_Parse (pe_tc env)) rawID ''file_id'') (\<lambda>i.
           sum_bind (map_sum attachment_lookup_error id (Attachment_GetByFileID (pw_db w) i)) (\<lambda>j.
           sum_bind (check_attached_entry env u j (pw_db w)) (\<lambda>_. Inr i))) of
        Inl e \<Rightarrow> (Inl e, w)
      | Inr i \<Rightarrow>
          (case RunInTx (pe_tx env) id (detach_tx i) (pw_db w) of
             (Inl err, d) \<Rightarrow> (Inl (detach_error err), w\<lparr>pw_db := d\<rparr>)
           | (Inr _, d) \<Rightarrow>
               (Inr (), \<lparr>pw_db = d, pw_objects = delete_all (pe_faults env) [original_key (pe_str env) i] (pw_objects w)\<rparr>)))"

section \<open>Download\<close>

definition extensionForJournalContentType :: "string \<Rightarrow> string" where
  "extensionForJournalContentType ct =
     (if ct = ''image/jpeg'' then ''.jpg'' else if ct = ''image/png'' then ''.png'' else if ct = ''image/webp'' then ''.webp''
      else if ct = ''application/pdf'' then ''.pdf'' else if ct = ''text/plain'' then ''.txt'' else if ct = ''text/csv'' then ''.csv''
      else if ct = ''text/markdown'' then ''.md'' else if ct = ''application/json'' then ''.json''
      else if ct = ''application/xml'' then ''.xml'' else [])"

definition buildFileContentDisposition :: "(uuid \<Rightarrow> string) \<Rightarrow> uuid \<Rightarrow> string \<Rightarrow> string" where
  "buildFileContentDisposition str fileID contentType =
     disposition_header (if hasPrefix contentType ''image/'' then ''inline'' else ''attachment'')
       (str fileID @ extensionForJournalContentType contentType)"

definition no_such_file :: apiError where
  "no_such_file = newAPIError 404 ''file_not_found'' ''no such file'' []"

text \<open>Which file the endpoint serves to the caller, or the answer it gives instead.\<close>

definition served_file :: "('r, 'img) photo_env \<Rightarrow> auth_User \<Rightarrow> string \<Rightarrow> database \<Rightarrow> apiError + File" where
  "served_file env u rawID d =
     (case uuid_Parse (pe_tc env) rawID of
        None \<Rightarrow> Inl (newAPIError 400 ''invalid_id'' ''file_id must be a UUID'' [(''field'', ''file_id'')])
      | Some i \<Rightarrow>
          sum_bind (map_sum mapFileError id (FilePostgres_GetByID d i)) (\<lambda>f.
          sum_bind (map_sum (\<lambda>err. if err = Domain ErrJournalAttachmentNotFound then no_such_file else internal_error) id
            (Attachment_GetByFileID d i)) (\<lambda>att.
          if \<not> guard_active (pe_guard env) then Inr f
          else sum_bind (map_sum (\<lambda>_. internal_error) id (JournalEntry_GetByID d (jf_EntryID att))) (\<lambda>entry.
            case checkViewHTTP (pe_guard env) u (journalResource (ag_str (pe_guard env)) entry) ''file_not_found'' ''no such file'' of
              (True, _) \<Rightarrow> Inr f
            | (False, e) \<Rightarrow> Inl (the e)))))"

definition JournalFile_downloadOriginal ::
  "('r, 'img) photo_env \<Rightarrow> auth_User \<Rightarrow> string \<Rightarrow> string \<Rightarrow> photo_world \<Rightarrow> download_reply" where
  "JournalFile_downloadOriginal env u rawID ifNoneMatch w =
     (case served_file env u rawID (pw_db w) of
        Inl e \<Rightarrow> DownloadError e
      | Inr f \<Rightarrow>
          let etag = [quote_char] @ fi_SHA256 f @ [quote_char] in
          if ifNoneMatch \<noteq> [] \<and> ifNoneMatch = etag then NotModified etag
          else (case Download (pe_faults env) (fi_S3Key f) (pw_objects w) of
              Inl err \<Rightarrow> DownloadError (if err = ErrNotFound then newAPIError 404 ''object_not_found'' ''object missing from storage'' []
                    else newAPIError 500 ''storage_read_failed'' ''failed to read object from storage'' [])
            | Inr (body, _) \<Rightarrow>
                Served \<lparr>fr_ContentType = fi_ContentType f, fr_ETag = etag,
                  fr_Disposition = buildFileContentDisposition (pe_str env) (fi_ID f) (fi_ContentType f), fr_Body = body\<rparr>))"

section \<open>Rows and objects\<close>

lemma Attachment_Create_ok:
  assumes "Attachment_Create j d = Inr d'"
  shows "d' = d\<lparr>db_journal_files := db_journal_files d @ [j]\<rparr>" "fk_ok d \<Longrightarrow> fk_ok d'" "keys_ok d \<Longrightarrow> keys_ok d'"
proof -
  show d': "d' = d\<lparr>db_journal_files := db_journal_files d @ [j]\<rparr>"
    using assms by (auto simp: Attachment_Create_def split: if_splits)
  have "jf_EntryID j \<in> je_ID ` set (db_journal d)" "jf_FileID j \<in> fi_ID ` set (db_files d)"
    using assms by (auto simp: Attachment_Create_def split: if_splits)
  then show "fk_ok d \<Longrightarrow> fk_ok d'" by (simp add: d' fk_ok_def refs_more)
  show "keys_ok d \<Longrightarrow> keys_ok d'" by (simp add: d' keys_ok_def)
qed

lemma Attachment_Delete_ok:
  assumes "Attachment_Delete i d = Inr d'"
  shows "d' = d\<lparr>db_journal_files := filter (\<lambda>j. jf_FileID j \<noteq> i) (db_journal_files d)\<rparr>" "fk_ok d \<Longrightarrow> fk_ok d'" "keys_ok d \<Longrightarrow> keys_ok d'"
proof -
  show d': "d' = d\<lparr>db_journal_files := filter (\<lambda>j. jf_FileID j \<noteq> i) (db_journal_files d)\<rparr>"
    using assms by (auto simp: Attachment_Delete_def split: if_splits)
  show "fk_ok d \<Longrightarrow> fk_ok d'" by (simp add: d' fk_ok_def refs_keep)
  show "keys_ok d \<Longrightarrow> keys_ok d'" by (simp add: d' keys_ok_def)
qed

lemma attach_tx_ok:
  assumes "attach_tx env u pa d = Inr (j, d')"
  shows "db_files d' = db_files d @ [attachment_file env u pa]" "db_photos d' = db_photos d" "db_journal d' = db_journal d"
    "db_journal_files d' = db_journal_files d @ [j]" "jf_EntryID j = pa_EntryID pa" "jf_FileID j = pe_fileID env"
    "pe_fileID env \<notin> fi_ID ` set (db_files d)" "fk_ok d \<Longrightarrow> fk_ok d'" "keys_ok d \<Longrightarrow> keys_ok d'"
proof -
  let ?f = "attachment_file env u pa"
  obtain d1 where d1: "FilePostgres_Create u ?f d = Inr d1" and d2: "Attachment_Create j d1 = Inr d'"
    and j: "j = new_attachment env pa (Attachment_MaxPosition d1 (pa_EntryID pa) + 1)"
    using assms by (auto simp: attach_tx_def sum_bind_Inr Let_def)
  note f = File_Create_ok [OF d1] and a = Attachment_Create_ok [OF d2]
  have self: "?f\<lparr>fi_UploadedBy := u_ID u\<rparr> = ?f" by (simp add: attachment_file_def)
  show "db_files d' = db_files d @ [?f]" "db_photos d' = db_photos d" "db_journal d' = db_journal d"
    "db_journal_files d' = db_journal_files d @ [j]" by (simp_all add: f(1) a(1) self)
  show "jf_EntryID j = pa_EntryID pa" "jf_FileID j = pe_fileID env" by (simp_all add: j new_attachment_def)
  show "pe_fileID env \<notin> fi_ID ` set (db_files d)" using f(2) by (simp add: attachment_file_def)
  show "fk_ok d \<Longrightarrow> fk_ok d'" "keys_ok d \<Longrightarrow> keys_ok d'"
    using File_Create_keeps [OF d1] a(2,3) by blast+
qed

lemma upload_if_free:
  assumes "uniform_text (pe_str env)" and "photo_world_ok env w"
    and "UploadIfNotExists fl (original_key (pe_str env) i) body ct (pw_objects w) = (r, st)"
  shows "stored_ok (pe_str env) (pe_sha256 env) (pw_db w) st"
proof (cases "original_key (pe_str env) i \<in> dom (pw_objects w)")
  case True
  then have "st = pw_objects w" using assms(3) by (auto simp: UploadIfNotExists_def Upload_def split: fault.splits if_splits)
  then show ?thesis using assms(2) by (simp add: photo_world_ok_def)
next
  case False
  note ok = assms(2) [unfolded photo_world_ok_def]
  have "same_elsewhere (pe_str env) i (pw_objects w) st"
    using same_elsewhere_calls(2) [OF original_in_keys, of "pe_str env" i "pw_objects w" fl body ct] assms(3) by simp
  then show ?thesis
    using uniform_text.stored_ok_elsewhere [OF assms(1) ok] uniform_text.free_key_no_row [OF assms(1) ok False] by blast
qed

lemma journal_file_upload_keeps:
  assumes ut: "uniform_text (pe_str env)" and ok: "photo_world_ok env w" and up: "journal_file_upload env u inp w = (r, w')"
  shows "photo_world_ok env w'"
proof (cases "prepare_attachment env u inp (pw_db w)")
  case (Inl e)
  then show ?thesis using ok up by (simp add: journal_file_upload_def)
next
  case (Inr pa)
  let ?s = "pe_str env" and ?i = "pe_fileID env"
  let ?key = "original_key ?s ?i"
  obtain x st where put: "UploadIfNotExists (pe_faults env) ?key (pa_Data pa) (pa_ContentType pa) (pw_objects w) = (x, st)" by fastforce
  have old: "stored_ok ?s (pe_sha256 env) (pw_db w) st" by (rule upload_if_free [OF ut ok put])
  show ?thesis
  proof (cases x)
    case (Inl e)
    then show ?thesis using old up put Inr by (auto simp: journal_file_upload_def photo_world_ok_def)
  next
    case (Inr y)
    have key: "?key \<notin> dom (pw_objects w)" "st = (pw_objects w)(?key \<mapsto> (pa_Data pa, pa_ContentType pa))"
      using UploadIfNotExists_ok put Inr by auto
    have free: "?i \<notin> fi_ID ` set (db_files (pw_db w))"
      using uniform_text.free_key_no_row [OF ut ok [unfolded photo_world_ok_def]] key(1) by blast
    obtain q d where tx: "RunInTx (pe_tx env) id (attach_tx env u pa) (pw_db w) = (q, d)" by fastforce
    show ?thesis
    proof (cases q)
      case (Inl err)
      have "d = pw_db w" by (rule RunInTx_error [OF tx [unfolded Inl]])
      then have w': "w' = \<lparr>pw_db = pw_db w, pw_objects = delete_all (pe_faults env) [?key] st\<rparr>"
        using up put \<open>x = Inr y\<close> tx Inl \<open>prepare_attachment env u inp (pw_db w) = Inr pa\<close> by (simp add: journal_file_upload_def)
      have "same_elsewhere ?s ?i st (delete_all (pe_faults env) [?key] st)" by (rule same_elsewhere_calls(3)) simp
      then show ?thesis using uniform_text.stored_ok_elsewhere [OF ut old _ free] by (simp add: photo_world_ok_def w')
    next
      case (Inr j)
      then have "attach_tx env u pa (pw_db w) = Inr (j, d)" using tx RunInTx_ok by metis
      note t = attach_tx_ok [OF this]
      have w': "w' = \<lparr>pw_db = d, pw_objects = st\<rparr>"
        using up put \<open>x = Inr y\<close> tx Inr \<open>prepare_attachment env u inp (pw_db w) = Inr pa\<close> by (simp add: journal_file_upload_def)
      have "file_stored ?s (pe_sha256 env) st (attachment_file env u pa)"
        by (simp add: file_stored_def attachment_file_def key(2))
      then show ?thesis using old t(8,9) by (auto simp: photo_world_ok_def stored_ok_def t(1,2) w')
    qed
  qed
qed

lemma journal_file_delete_cases:
  assumes "journal_file_delete env u rawID w = (r, w')"
  obtains (same) "w' = w"
  | (removed) i j d1 d where "uuid_Parse (pe_tc env) rawID = Some i" "Attachment_GetByFileID (pw_db w) i = Inr j"
      "check_attached_entry env u j (pw_db w) = Inr ()" "Attachment_Delete i (pw_db w) = Inr d1" "FilePostgres_Delete i d1 = Inr d"
      "w' = \<lparr>pw_db = d, pw_objects = delete_all (pe_faults env) [original_key (pe_str env) i] (pw_objects w)\<rparr>"
proof -
  let ?X = "sum_bind (parseUUID (uuid_Parse (pe_tc env)) rawID ''file_id'') (\<lambda>i.
     sum_bind (map_sum attachment_lookup_error id (Attachment_GetByFileID (pw_db w) i)) (\<lambda>j.
     sum_bind (check_attached_entry env u j (pw_db w)) (\<lambda>_. Inr i)))"
  show thesis
  proof (cases ?X)
    case (Inl e)
    then show thesis using assms same by (simp add: journal_file_delete_def)
  next
    case (Inr i)
    obtain q d where tx: "RunInTx (pe_tx env) id (detach_tx i) (pw_db w) = (q, d)" by fastforce
    show thesis
    proof (cases q)
      case (Inl err)
      have "d = pw_db w" by (rule RunInTx_error [OF tx [unfolded Inl]])
      then show thesis using assms same tx Inl Inr by (simp add: journal_file_delete_def)
    next
      case (Inr x)
      then have "detach_tx i (pw_db w) = Inr (x, d)" using tx RunInTx_ok by metis
      then obtain d1 where "Attachment_Delete i (pw_db w) = Inr d1" "FilePostgres_Delete i d1 = Inr d"
        by (auto simp: detach_tx_def sum_bind_Inr)
      moreover have "w' = \<lparr>pw_db = d, pw_objects = delete_all (pe_faults env) [original_key (pe_str env) i] (pw_objects w)\<rparr>"
        using assms tx Inr \<open>?X = Inr i\<close> by (simp add: journal_file_delete_def)
      moreover obtain j where "uuid_Parse (pe_tc env) rawID = Some i" "Attachment_GetByFileID (pw_db w) i = Inr j"
        "check_attached_entry env u j (pw_db w) = Inr ()"
        using \<open>?X = Inr i\<close> by (auto simp: sum_bind_Inr map_sum_Inr parseUUID_def split: option.splits)
      ultimately show thesis using removed by blast
    qed
  qed
qed

lemma journal_file_delete_keeps:
  assumes ut: "uniform_text (pe_str env)" and ok: "photo_world_ok env w" and del: "journal_file_delete env u rawID w = (r, w')"
  shows "photo_world_ok env w'"
  using del
proof (cases rule: journal_file_delete_cases)
  case same
  then show ?thesis using ok by simp
next
  case (removed i j d1 d)
  let ?s = "pe_str env"
  note a = Attachment_Delete_ok [OF removed(4)] and b = File_Delete_ok [OF removed(5)]
  have oks: "keys_ok (pw_db w)" "fk_ok (pw_db w)" using ok by (simp_all add: photo_world_ok_def stored_ok_def)
  have "stored_ok ?s (pe_sha256 env) d (delete_all (pe_faults env) [original_key ?s i] (pw_objects w))"
  proof (rule uniform_text.stored_ok_removed [OF ut ok [unfolded photo_world_ok_def]])
    show "same_elsewhere ?s i (pw_objects w) (delete_all (pe_faults env) [original_key ?s i] (pw_objects w))"
      by (rule same_elsewhere_calls(3)) simp
    show "keys_ok d" "fk_ok d" using a(2,3) b(4,5) oks by blast+
    show "set (db_files d) \<subseteq> {f \<in> set (db_files (pw_db w)). fi_ID f \<noteq> i}" by (auto simp: b(1) a(1))
    show "ph_FileID ` set (db_photos d) \<subseteq> ph_FileID ` set (db_photos (pw_db w))" by (simp add: b(2) a(1))
  qed
  then show ?thesis by (simp add: photo_world_ok_def removed(6))
qed

section \<open>Who is served\<close>

text \<open>The file is attached to an entry of the caller.\<close>

definition attached_for :: "auth_User \<Rightarrow> uuid \<Rightarrow> database \<Rightarrow> bool" where
  "attached_for u i d \<longleftrightarrow>
     (case find (\<lambda>j. jf_FileID j = i) (db_journal_files d) of
        None \<Rightarrow> False
      | Some j \<Rightarrow> \<exists>e\<in>set (db_journal d). je_ID e = jf_EntryID j \<and> ownerScope u (je_AuthorID e))"

lemma journal_checkViewHTTP:
  assumes "guard_ok g enf shares"
  shows "checkViewHTTP g u (journalResource (ag_str g) e) code msg =
    (if ownerScope u (je_AuthorID e) then (True, None) else (False, Some (newAPIError 404 code msg [])))"
  by (simp add: checkViewHTTP_def journal_checkView [OF assms])

lemma find_key_unique:
  assumes "distinct (map f xs)" and "x \<in> set xs" and "f x = i"
  shows "find (\<lambda>y. f y = i) xs = Some x"
  using assms
proof (induction xs)
  case (Cons y ys)
  then show ?case by (cases "f y = i") (auto simp: image_iff)
qed simp

lemma entry_row_unique:
  assumes "keys_ok d" and "e \<in> set (db_journal d)" and "je_ID e = i"
  shows "JournalEntry_GetByID d i = Inr e"
  using find_key_unique [of je_ID "db_journal d" e i] assms by (simp add: JournalEntry_GetByID_def keys_ok_def)

lemma served_file_iff:
  assumes guard: "guard_ok (pe_guard env) enf shares" and ok: "stored_ok str sha d st" and id: "uuid_Parse (pe_tc env) rawID = Some i"
  shows "if attached_for u i d then \<exists>f\<in>set (db_files d). fi_ID f = i \<and> served_file env u rawID d = Inr f
    else served_file env u rawID d = Inl no_such_file"
proof (cases "find (\<lambda>j. jf_FileID j = i) (db_journal_files d)")
  case None
  then have att: "Attachment_GetByFileID d i = Inl (Domain ErrJournalAttachmentNotFound)" by (simp add: Attachment_GetByFileID_def)
  show ?thesis
    using None att id
    by (cases "find (\<lambda>f. fi_ID f = i) (db_files d)")
       (simp_all add: attached_for_def served_file_def FilePostgres_GetByID_def mapFileError_def no_such_file_def)
next
  case (Some j)
  have j: "j \<in> set (db_journal_files d)" "jf_FileID j = i" using Some by (auto simp: find_Some_iff)
  have fk: "jf_FileID j \<in> fi_ID ` set (db_files d)" "jf_EntryID j \<in> je_ID ` set (db_journal d)"
    using ok j(1) by (simp_all add: stored_ok_def fk_ok_def refs_def image_subset_iff)
  obtain f where f: "find (\<lambda>f. fi_ID f = i) (db_files d) = Some f"
    using fk(1) j(2) by (metis (mono_tags, lifting) find_None_iff image_iff option.exhaust)
  then have frow: "f \<in> set (db_files d)" "fi_ID f = i" by (auto simp: find_Some_iff)
  obtain e where e: "e \<in> set (db_journal d)" "je_ID e = jf_EntryID j" using fk(2) by auto
  have keys: "keys_ok d" using ok by (simp add: stored_ok_def)
  note get = entry_row_unique [OF keys e]
  have one: "e' = e" if "e' \<in> set (db_journal d)" "je_ID e' = jf_EntryID j" for e'
    using entry_row_unique [OF keys that] get by simp
  have who: "attached_for u i d \<longleftrightarrow> ownerScope u (je_AuthorID e)"
    unfolding attached_for_def Some option.case using one e by metis
  have active: "guard_active (pe_guard env)" using guard by (simp add: guard_ok_def guard_active_def)
  have "served_file env u rawID d = (if ownerScope u (je_AuthorID e) then Inr f else Inl no_such_file)"
    using id f Some get active
    by (simp add: served_file_def FilePostgres_GetByID_def Attachment_GetByFileID_def journal_checkViewHTTP [OF guard] no_such_file_def)
  then show ?thesis using frow who by metis
qed

definition attachment_reply :: "('r, 'img) photo_env \<Rightarrow> File \<Rightarrow> string \<Rightarrow> bytes \<Rightarrow> download_reply" where
  "attachment_reply env f ifNoneMatch body =
     (let etag = [quote_char] @ fi_SHA256 f @ [quote_char] in
      if ifNoneMatch = etag then NotModified etag
      else Served \<lparr>fr_ContentType = fi_ContentType f, fr_ETag = etag,
        fr_Disposition = buildFileContentDisposition (pe_str env) (fi_ID f) (fi_ContentType f), fr_Body = body\<rparr>)"

text \<open>
  C19. The file endpoint serves journal attachments and nothing else. With a live guard and rows and objects in step,
  a file attached to an entry of the caller (for an admin, to any entry) is answered with the stored bytes under the
  recorded type, hash and tag, or with 304 for that tag; every other identifier, a photo's original, another user's
  attachment and one that does not exist, gets one and the same 404.
\<close>

theorem attachment_download_spec:
  assumes "guard_ok (pe_guard env) enf shares" and "photo_world_ok env w" and "pe_faults env = no_faults"
    and "uuid_Parse (pe_tc env) rawID = Some i"
  shows "if attached_for u i (pw_db w)
    then \<exists>f body. f \<in> set (db_files (pw_db w)) \<and> fi_ID f = i \<and> pw_objects w (original_key (pe_str env) i) = Some (body, fi_ContentType f) \<and>
      fi_SHA256 f = pe_sha256 env body \<and> JournalFile_downloadOriginal env u rawID inm w = attachment_reply env f inm body
    else JournalFile_downloadOriginal env u rawID inm w = DownloadError no_such_file"
proof -
  note ok = assms(2) [unfolded photo_world_ok_def]
  note served = served_file_iff [OF assms(1) ok assms(4), of u]
  show ?thesis
  proof (cases "attached_for u i (pw_db w)")
    case True
    then obtain f where f: "f \<in> set (db_files (pw_db w))" "fi_ID f = i" "served_file env u rawID (pw_db w) = Inr f"
      using served by auto
    have "file_stored (pe_str env) (pe_sha256 env) (pw_objects w) f" using ok f(1) by (simp add: stored_ok_def)
    then obtain body where st: "fi_S3Key f = original_key (pe_str env) i" "pw_objects w (original_key (pe_str env) i) = Some (body, fi_ContentType f)"
      "fi_SHA256 f = pe_sha256 env body"
      by (auto simp: file_stored_def f(2))
    have "Download (pe_faults env) (fi_S3Key f) (pw_objects w) = Inr (body, fi_ContentType f)"
      by (simp add: st Download_def assms(3) no_faults_def)
    then have "JournalFile_downloadOriginal env u rawID inm w = attachment_reply env f inm body"
      by (simp add: JournalFile_downloadOriginal_def f(3) attachment_reply_def Let_def)
    then show ?thesis using True f st by auto
  next
    case False
    then show ?thesis using served by (simp add: JournalFile_downloadOriginal_def)
  qed
qed

theorem attachment_download_spec_witness:
  "JournalFile_downloadOriginal sample_photo_env (auth_User_zero\<lparr>u_ID := 7\<rparr>) (uuid_hex 3) [] sample_photo_world = DownloadError no_such_file"
proof -
  have id: "uuid_Parse (pe_tc sample_photo_env) (uuid_hex 3) = Some 3" using sample_parse [of 3] by simp
  have "\<not> attached_for (auth_User_zero\<lparr>u_ID := 7\<rparr>) 3 (pw_db sample_photo_world)"
    by (simp add: attached_for_def sample_photo_world_def empty_database_def)
  then show ?thesis
    using attachment_download_spec [of sample_photo_env, OF _ sample_world_ok _ id] live_guard_ok by fastforce
qed

end
