(* ===== verification/StorageHistory.thy ===== *)
theory StorageHistory
  imports JournalFiles AccountErase
begin

text \<open>
  The object store across components: the requests of the photo, attachment, journal, specimen and account endpoints
  one after another, each with its own clock, identifiers, database connection and store faults. Rows are written after
  their objects and removed before them, so that no row ever lacks its object (C1). The converse fails in one place the
  code does not mean: an erased account leaves the JPEG variants of its photos behind.
\<close>

section \<open>Account erasure on the store\<close>

definition store_delete :: "faults \<Rightarrow> objects \<Rightarrow> string \<Rightarrow> string option \<times> objects" where
  "store_delete fl st key =
     (case Delete_object fl key st of (Inl _, st') \<Rightarrow> (Some ''delete failed'', st') | (Inr _, st') \<Rightarrow> (None, st'))"

lemma purge_is_delete_all: "snd (purge (store_delete fl) keys st) = delete_all fl keys st"
proof (induction keys arbitrary: st)
  case (Cons k keys)
  have "snd (store_delete fl st k) = snd (Delete_object fl k st)"
    by (auto simp: store_delete_def split: prod.splits sum.splits)
  then show ?case using Cons by (simp add: delete_all_def split_beta Let_def)
qed (simp add: delete_all_def)

definition account_on_store :: "('r, 'img) photo_env \<Rightarrow> auth_User \<Rightarrow> string \<Rightarrow> photo_world \<Rightarrow> apiError option \<times> photo_world" where
  "account_on_store env u confirm w =
     (let (e, wd) = account_delete (pe_tx env) \<lparr>ad_Storage = Some (store_delete (pe_faults env)), ad_Sessions = None, ad_Identity = None\<rparr>
            u confirm \<lparr>aw_db = pw_db w, aw_objects = pw_objects w, aw_sessions = (), aw_idp = (), aw_log = []\<rparr>
      in (e, \<lparr>pw_db = aw_db wd, pw_objects = aw_objects wd\<rparr>))"

lemma account_on_store_cases:
  assumes "account_on_store env u confirm w = (r, w')"
  obtains (refused) e where "r = Some e" "w' = w"
  | (erased) out where "r = None" "Erase (pe_tx env) (u_ID u) (pw_db w) = (Inr out, pw_db w')" "ae_FreedObjectKeys out = collectFileKeys (pw_db w) (u_ID u)"
      "pw_objects w' = delete_all (pe_faults env) (collectFileKeys (pw_db w) (u_ID u)) (pw_objects w)"
proof (cases "u_Sub u = [] \<or> u_ID u = uuid_Nil \<or> confirm \<noteq> accountDeleteConfirmation")
  case True
  then have "\<exists>e. account_on_store env u confirm w = (Some e, w)"
    by (cases "u_Sub u = [] \<or> u_ID u = uuid_Nil") (simp_all add: account_on_store_def account_delete_def)
  then show thesis using assms refused by auto
next
  case False
  obtain x d where er: "Erase (pe_tx env) (u_ID u) (pw_db w) = (x, d)" by fastforce
  show thesis
  proof (cases x)
    case (Inl e)
    have "d = pw_db w" using er RunInTx_error unfolding Inl Erase_def by (metis prod.inject)
    then show thesis using assms refused er False Inl by (auto simp: account_on_store_def account_delete_def)
  next
    case (Inr out)
    note s = Erase_success [OF er [unfolded Inr]]
    have keys: "ae_FreedObjectKeys out = collectFileKeys (pw_db w) (u_ID u)"
      using s(1) by (auto simp: erase_cascade_iff [OF s(4)] split: if_splits)
    show thesis
      using assms erased er False Inr keys purge_is_delete_all [of "pe_faults env" "collectFileKeys (pw_db w) (u_ID u)" "pw_objects w"]
      by (auto simp: account_on_store_def account_delete_def split_beta Let_def)
  qed
qed

lemma erased_keys: "keys_ok d \<Longrightarrow> keys_ok (erased i d)"
proof -
  assume ok: "keys_ok d"
  have "map ms_ID (db_species (erased i d)) = map ms_ID (db_species d)" by (simp add: erased_def)
  moreover have "map sp_ID (db_specimens (erased i d)) = map sp_ID (filter (\<lambda>s. sp_AuthorID s \<noteq> i) (db_specimens d))"
    by (simp add: erased_def o_def)
  ultimately show ?thesis
    using ok by (simp add: keys_ok_def users_ok_def distinct_map_filter) (simp add: erased_def distinct_map_filter)
qed

text \<open>Deleting originals of files without rows harms no row.\<close>

context uniform_text
begin

lemma stored_ok_purged:
  assumes "stored_ok str sha d st" and "keys_ok d'" "fk_ok d'" and "set (db_files d') \<subseteq> set (db_files d)"
    and "set (db_photos d') \<subseteq> set (db_photos d)"
    and "\<And>k. k \<in> set keys \<Longrightarrow> \<exists>i. k = original_key str i \<and> i \<notin> fi_ID ` set (db_files d')"
  shows "stored_ok str sha d' (delete_all fl keys st)"
proof -
  let ?st = "delete_all fl keys st"
  have same: "?st k = st k" if "k \<in> set (photo_keys str j)" "j \<in> fi_ID ` set (db_files d')" for k j
  proof (rule delete_all_elsewhere)
    show "k \<notin> set keys" using assms(6) keys_disjoint that original_in_keys by metis
  qed
  have "file_stored str sha ?st f" if f: "f \<in> set (db_files d')" for f
  proof -
    have "?st (original_key str (fi_ID f)) = st (original_key str (fi_ID f))" by (rule same [OF original_in_keys]) (simp add: f)
    moreover have "file_stored str sha st f" using assms(1,4) f by (auto simp: stored_ok_def)
    ultimately show ?thesis by (auto simp: file_stored_def)
  qed
  moreover have "variants_stored str ?st (ph_FileID p)" if p: "p \<in> set (db_photos d')" for p
  proof -
    have "ph_FileID p \<in> fi_ID ` set (db_files d')" using p assms(3) by (auto simp: fk_ok_def refs_def)
    moreover have "variants_stored str st (ph_FileID p)" using assms(1,5) p by (auto simp: stored_ok_def)
    ultimately show ?thesis using same [OF display_in_keys] same [OF thumb_in_keys] by (simp add: variants_stored_def)
  qed
  ultimately show ?thesis using assms(2,3) by (simp add: stored_ok_def)
qed

end

lemma erased_own_keys:
  assumes "stored_ok str sha d st" and "k \<in> set (collectFileKeys d i)"
  shows "\<exists>j. k = original_key str j \<and> j \<notin> fi_ID ` set (db_files (erased i d)) \<and> j \<in> own_files d i"
proof -
  obtain f where f: "f \<in> set (db_files d)" "fi_UploadedBy f = i" "k = fi_S3Key f" using assms(2) by (auto simp: collectFileKeys_def)
  have dist: "distinct (map fi_ID (db_files d))" using assms(1) by (simp add: stored_ok_def keys_ok_def)
  have "fi_ID f \<notin> fi_ID ` set (db_files (erased i d))"
  proof
    assume "fi_ID f \<in> fi_ID ` set (db_files (erased i d))"
    then obtain g where g: "g \<in> set (db_files d)" "fi_UploadedBy g \<noteq> i" "fi_ID g = fi_ID f" by (auto simp: erased_simps)
    then have "g = f" using dist f(1) by (metis distinct_map inj_onD)
    then show False using g(2) f(2) by simp
  qed
  moreover have "k = original_key str (fi_ID f)" using assms(1) f(1,3) by (simp add: stored_ok_def file_stored_def)
  moreover have "fi_ID f \<in> own_files d i" using f(1,2) by (simp add: own_files_def)
  ultimately show ?thesis by blast
qed

lemma account_keeps:
  assumes "uniform_text (pe_str env)" and "photo_world_ok env w" and "account_on_store env u confirm w = (r, w')"
  shows "photo_world_ok env w'"
  using assms(3)
proof (cases rule: account_on_store_cases)
  case (erased out)
  note ok = assms(2) [unfolded photo_world_ok_def] and s = Erase_success [OF erased(2)]
  have "fk_ok (pw_db w')" by (rule erase_cascade_fk [OF s(1)]) (use ok in \<open>simp add: stored_ok_def\<close>)
  moreover have "keys_ok (pw_db w')" using erased_keys ok by (simp add: s(2) stored_ok_def)
  ultimately have "stored_ok (pe_str env) (pe_sha256 env) (pw_db w') (delete_all (pe_faults env) (collectFileKeys (pw_db w) (u_ID u)) (pw_objects w))"
    using uniform_text.stored_ok_purged [OF assms(1) ok, of "pw_db w'" "collectFileKeys (pw_db w) (u_ID u)"] erased_own_keys [OF ok]
    unfolding s(2) by (fastforce simp: erased_simps)
  then show ?thesis by (simp add: photo_world_ok_def erased(4))
qed (use assms in simp)

section \<open>Histories\<close>

datatype 'r storage_request =
    SPhotoUpload uploadPhotoInput
  | SPhotoPatch string patchPhotoBody
  | SPhotoDelete string
  | SFileUpload uploadJournalFileInput
  | SFileDelete string
  | SJournal "'r journal_env" journal_request
  | SSpecimen "'r specimen_env" specimen_request
  | SAccount string

definition serve_storage :: "('r, 'img) photo_env \<Rightarrow> auth_User \<Rightarrow> 'r storage_request \<Rightarrow> photo_world \<Rightarrow> photo_world" where
  "serve_storage env u req w =
     (case req of
        SPhotoUpload inp \<Rightarrow> snd (photo_upload env u inp w)
      | SPhotoPatch rawID b \<Rightarrow> snd (photo_patch env u rawID b w)
      | SPhotoDelete rawID \<Rightarrow> snd (photo_delete env u rawID w)
      | SFileUpload inp \<Rightarrow> snd (journal_file_upload env u inp w)
      | SFileDelete rawID \<Rightarrow> snd (journal_file_delete env u rawID w)
      | SJournal je jr \<Rightarrow> w\<lparr>pw_db := snd (serve_journal je u jr (pw_db w))\<rparr>
      | SSpecimen se sr \<Rightarrow> (case serve se u sr (pw_db w) of Inl _ \<Rightarrow> w | Inr d \<Rightarrow> w\<lparr>pw_db := d\<rparr>)
      | SAccount confirm \<Rightarrow> snd (account_on_store env u confirm w))"

definition run_history :: "(('r, 'img) photo_env \<times> auth_User \<times> 'r storage_request) list \<Rightarrow> photo_world \<Rightarrow> photo_world" where
  "run_history hist w = fold (\<lambda>(env, u, req). serve_storage env u req) hist w"

text \<open>One text form of identifiers and one hash throughout; a journal request meets a live guard.\<close>

definition same_service :: "(uuid \<Rightarrow> string) \<Rightarrow> (bytes \<Rightarrow> string) \<Rightarrow> ('r, 'img) photo_env \<Rightarrow> 'r storage_request \<Rightarrow> bool" where
  "same_service str sha env req \<longleftrightarrow> pe_str env = str \<and> pe_sha256 env = sha \<and>
     (case req of SJournal je _ \<Rightarrow> \<exists>enf shares. guard_ok (jn_guard je) enf shares | _ \<Rightarrow> True)"

lemma same_files_keep:
  assumes "uniform_text str" and "stored_ok str sha d st" and "fk_ok d'" "keys_ok d'" and "db_files d' = db_files d" and "set (db_photos d') \<subseteq> set (db_photos d)"
  shows "stored_ok str sha d' st"
  by (rule uniform_text.stored_ok_same_objects [OF assms(1,2)]) (use assms in auto)

lemma journal_files_photos:
  assumes "sound_step u d d'"
  shows "db_files d' = db_files d" "db_photos d' = db_photos d"
proof -
  have "db_files d' = db_files d \<and> db_photos d' = db_photos d" if "changes_entry ch d d'" for ch
    using that by (cases ch) simp_all
  then show "db_files d' = db_files d" "db_photos d' = db_photos d" using assms by (auto simp: sound_step_def)
qed

lemma serve_statement:
  assumes "serve se u sr d = Inr d'"
  obtains (c) s where "SpecimenPostgres_Create u s d = Inr d'" | (p) s where "SpecimenPostgres_Update s d = Inr d'"
    | (r) i where "SpecimenPostgres_Delete i d = Inr d'"
proof (cases sr)
  case (RCreate b)
  then obtain out where "specimen_create se u b d = Inr (out, d')"
    using assms by (cases "specimen_create se u b d") (auto simp: serve_def)
  then show thesis using c unfolding specimen_create_def Let_def sum_bind_Inr map_sum_Inr by auto
next
  case (RPatch rawID b)
  then obtain out where "specimen_patch se u rawID b d = Inr (out, d')"
    using assms by (cases "specimen_patch se u rawID b d") (auto simp: serve_def)
  then show thesis using p unfolding specimen_patch_def sum_bind_Inr map_sum_Inr by auto
next
  case (RDelete rawID)
  then have "specimen_delete se u rawID d = Inr d'" using assms by (simp add: serve_def)
  then show thesis using r unfolding specimen_delete_def sum_bind_Inr map_sum_Inr by auto
qed

lemma serve_specimen_keeps:
  assumes "serve se u sr d = Inr d'"
  shows "(fk_ok d \<longrightarrow> fk_ok d') \<and> (keys_ok d \<longrightarrow> keys_ok d') \<and> db_files d' = db_files d \<and> set (db_photos d') \<subseteq> set (db_photos d)"
  using assms
proof (cases rule: serve_statement)
  case (c s)
  then have "db_files d' = db_files d" "db_photos d' = db_photos d" by (auto simp: SpecimenPostgres_Create_def split: if_splits)
  then show ?thesis using Create_keeps [OF c] by simp
next
  case (p s)
  then have "db_files d' = db_files d" "db_photos d' = db_photos d" by (auto simp: SpecimenPostgres_Update_def split: if_splits)
  then show ?thesis using Update_keeps [OF p] by simp
next
  case (r i)
  then show ?thesis using Delete_keeps [OF r] by blast
qed

lemma serve_storage_keeps:
  assumes ut: "uniform_text str" and same: "same_service str sha env req" and ok: "stored_ok str sha (pw_db w) (pw_objects w)"
  shows "stored_ok str sha (pw_db (serve_storage env u req w)) (pw_objects (serve_storage env u req w))"
proof -
  have env: "pe_str env = str" "pe_sha256 env = sha" using same by (simp_all add: same_service_def)
  note ut' = ut [folded env(1)] and ok' = ok [folded env, folded photo_world_ok_def]
  note pair = prod.collapse [symmetric]
  note keeps = photo_upload_keeps [OF ut' ok' pair, unfolded photo_world_ok_def env] photo_patch_keeps [OF ut' ok' pair, unfolded photo_world_ok_def env]
    photo_delete_keeps [OF ut' ok' pair, unfolded photo_world_ok_def env] journal_file_upload_keeps [OF ut' ok' pair, unfolded photo_world_ok_def env]
    journal_file_delete_keeps [OF ut' ok' pair, unfolded photo_world_ok_def env] account_keeps [OF ut' ok' pair, unfolded photo_world_ok_def env]
  show ?thesis
  proof (cases req)
    case (SJournal je jr)
    obtain enf shares where g: "guard_ok (jn_guard je) enf shares" using same by (auto simp: same_service_def SJournal)
    let ?d = "snd (serve_journal je u jr (pw_db w))"
    have oks: "keys_ok (pw_db w)" "fk_ok (pw_db w)" using ok by (simp_all add: stored_ok_def)
    have step: "sound_step u (pw_db w) ?d" by (rule serve_journal_sound [OF g oks(1) pair])
    have "fk_ok ?d" "keys_ok ?d" using step oks unfolding sound_step_def by metis+
    then show ?thesis
      using same_files_keep [OF ut ok] journal_files_photos [OF step] by (simp add: SJournal serve_storage_def)
  next
    case (SSpecimen se sr)
    show ?thesis
    proof (cases "serve se u sr (pw_db w)")
      case (Inr d)
      have oks: "keys_ok (pw_db w)" "fk_ok (pw_db w)" using ok by (simp_all add: stored_ok_def)
      have "stored_ok str sha d (pw_objects w)"
        by (rule same_files_keep [OF ut ok]) (use serve_specimen_keeps [OF Inr] oks in blast)+
      then show ?thesis by (simp add: SSpecimen serve_storage_def Inr)
    qed (use ok in \<open>simp add: SSpecimen serve_storage_def\<close>)
  qed (simp_all add: serve_storage_def keeps)
qed

lemma run_history_keeps:
  assumes "uniform_text str" and "\<forall>(env, u, req)\<in>set hist. same_service str sha env req" and "stored_ok str sha (pw_db w) (pw_objects w)"
  shows "stored_ok str sha (pw_db (run_history hist w)) (pw_objects (run_history hist w))"
  using assms(2,3)
proof (induction hist arbitrary: w)
  case (Cons h hist)
  obtain env u req where h: "h = (env, u, req)" by (cases h)
  have "stored_ok str sha (pw_db (serve_storage env u req w)) (pw_objects (serve_storage env u req w))"
    by (rule serve_storage_keeps [OF assms(1)]) (use Cons.prems h in auto)
  then show ?case using Cons h by (simp add: run_history_def)
qed (simp add: run_history_def)

section \<open>Properties\<close>

text \<open>
  C1. No row lacks its object. Whatever the photo, attachment, journal, specimen and account endpoints are asked to do,
  by whom and in which order, and whatever the object store and the database connection do meanwhile (calls that are
  refused, calls that take effect and lose their answer, transactions that do not begin or commit, identifiers that
  collide), in the end every row of the files table has its original in the store under the key of its identifier, with
  the recorded hash, size and content type, every photo has both its variants, and all keys and references hold.
\<close>

theorem rows_have_objects:
  assumes "uniform_text str" and "\<forall>(env, u, req)\<in>set hist. same_service str sha env req"
    and "stored_ok str sha (pw_db w) (pw_objects w)"
  shows "stored_ok str sha (pw_db (run_history hist w)) (pw_objects (run_history hist w))"
  by (rule run_history_keeps [OF assms])

theorem rows_have_objects_witness:
  "stored_ok uuid_hex (pe_sha256 sample_photo_env)
     (pw_db (run_history [(sample_photo_env, sample_owner, SPhotoUpload sample_upload),
        (sample_photo_env\<lparr>pe_faults := (\<lambda>_. LosesReply)\<rparr>, sample_owner, SPhotoDelete (uuid_hex 31)),
        (sample_photo_env, sample_owner, SAccount ''DELETE'')] sample_photo_world))
     (pw_objects (run_history [(sample_photo_env, sample_owner, SPhotoUpload sample_upload),
        (sample_photo_env\<lparr>pe_faults := (\<lambda>_. LosesReply)\<rparr>, sample_owner, SPhotoDelete (uuid_hex 31)),
        (sample_photo_env, sample_owner, SAccount ''DELETE'')] sample_photo_world))"
proof -
  have str: "pe_str sample_photo_env = uuid_hex" by (simp add: plain_codec_def)
  show ?thesis
    by (rule rows_have_objects [OF hexu.uniform_text_axioms])
      (use sample_world_ok str in \<open>simp_all add: same_service_def photo_world_ok_def\<close>)
qed

text \<open>
  The erasure frees the originals only. With a store that works, an account that has been erased leaves the display and
  thumbnail images of all photos of its specimens in the store.
\<close>

lemma erasure_leaves_variants:
  assumes "uniform_text (pe_str env)" and "photo_world_ok env w" and "account_on_store env u confirm w = (None, w')"
    and "p \<in> set (db_photos (pw_db w))"
  shows "variants_stored (pe_str env) (pw_objects w') (ph_FileID p)"
  using assms(3)
proof (cases rule: account_on_store_cases)
  case (erased out)
  note ok = assms(2) [unfolded photo_world_ok_def]
  have "original_key (pe_str env) i @ sfx \<notin> set (collectFileKeys (pw_db w) (u_ID u))" if "sfx \<noteq> []" for i sfx
  proof
    assume "original_key (pe_str env) i @ sfx \<in> set (collectFileKeys (pw_db w) (u_ID u))"
    then obtain j where "original_key (pe_str env) i @ sfx = original_key (pe_str env) j" using erased_own_keys [OF ok] by blast
    then have "length (pe_str env i) + length sfx = length (pe_str env j)"
      unfolding original_key_def by (metis append_assoc length_append same_append_eq)
    then show False using uniform_text.same_length [OF assms(1), of i j] that by simp
  qed
  then have "pw_objects w' (original_key (pe_str env) i @ sfx) = pw_objects w (original_key (pe_str env) i @ sfx)" if "sfx \<noteq> []" for i sfx
    using that by (simp add: erased(4) delete_all_elsewhere)
  then show ?thesis using ok assms(4) by (simp add: variants_stored_def stored_ok_def)
qed simp

end
