(* ===== verification/Collectors.thy ===== *)
theory Collectors
  imports SpecimenService
begin

text \<open>
  Collectors and the ordered chain of collectors of a specimen: the repositories
  (\<open>src/internal/db/collector_postgres.go\<close>, \<open>src/internal/db/specimen_collector_postgres.go\<close>) and their endpoints
  (\<open>src/internal/api/collectors.go\<close>, \<open>src/internal/api/specimen_collectors.go\<close>). Postgres' \<open>ILIKE\<close> is an
  argument. The creation time of a link, which nothing reads, is left out.
\<close>

section \<open>The collector repository\<close>

text \<open>Names are unique over all users.\<close>

definition Collector_Create :: "auth_User \<Rightarrow> Collector \<Rightarrow> database \<Rightarrow> repo_error + database" where
  "Collector_Create u c d =
     (if co_ID c \<in> set (map co_ID (db_collectors d)) \<or> co_Name c \<in> set (map co_Name (db_collectors d))
      then Inl (Domain ErrCollectorConflict)
      else if u_ID u \<notin> set (map us_ID (db_users d)) then Inl fk_violation
      else Inr (d\<lparr>db_collectors := db_collectors d @ [c\<lparr>co_AuthorID := u_ID u\<rparr>]\<rparr>))"

definition Collector_GetByID :: "database \<Rightarrow> uuid \<Rightarrow> repo_error + Collector" where
  "Collector_GetByID d i =
     (case find (\<lambda>c. co_ID c = i) (db_collectors d) of None \<Rightarrow> Inl (Domain ErrCollectorNotFound) | Some c \<Rightarrow> Inr c)"

definition Collector_Update :: "Collector \<Rightarrow> database \<Rightarrow> repo_error + database" where
  "Collector_Update c d =
     (if co_ID c \<notin> set (map co_ID (db_collectors d)) then Inl (Domain ErrCollectorNotFound)
      else if co_Name c \<in> set (map co_Name (filter (\<lambda>r. co_ID r \<noteq> co_ID c) (db_collectors d)))
      then Inl (Domain ErrCollectorConflict)
      else Inr (d\<lparr>db_collectors := map (\<lambda>r. if co_ID r = co_ID c
             then r\<lparr>co_Name := co_Name c, co_Notes := co_Notes c, co_UpdatedAt := co_UpdatedAt c\<rparr> else r) (db_collectors d)\<rparr>))"

definition Collector_Delete :: "uuid \<Rightarrow> database \<Rightarrow> repo_error + database" where
  "Collector_Delete i d =
     (case delete_collectors (\<lambda>c. co_ID c = i) d of
        Inl e \<Rightarrow> Inl (if e = fk_violation then Domain ErrCollectorReferenced else e)
      | Inr (n, d') \<Rightarrow> if n = 0 then Inl (Domain ErrCollectorNotFound) else Inr d')"

definition escapeLike :: "string \<Rightarrow> string" where
  "escapeLike s = concat (map (\<lambda>c. if c \<in> set [CHR 0x5C, CHR ''%'', CHR ''_''] then [CHR 0x5C, c] else [c]) s)"

definition collector_key :: "Collector \<Rightarrow> time \<times> uuid" where
  "collector_key c = (co_CreatedAt c, co_ID c)"

definition name_filter :: "(string \<Rightarrow> string \<Rightarrow> bool) \<Rightarrow> string \<Rightarrow> Collector \<Rightarrow> bool" where
  "name_filter ilike query c \<longleftrightarrow>
     (trimSpace query \<noteq> [] \<longrightarrow> ilike (co_Name c) (''%'' @ escapeLike (trimSpace query) @ ''%''))"

definition Collector_List ::
  "'r text_codec \<Rightarrow> (string \<Rightarrow> string \<Rightarrow> bool) \<Rightarrow> auth_User \<Rightarrow> string \<Rightarrow> Page \<Rightarrow> database \<Rightarrow> list_error + Collector list \<times> string" where
  "Collector_List tc ilike u query page d =
     keyset_list collector_key (\<lambda>c. EncodeCursor tc (co_CreatedAt c) (co_ID c)) (DecodeCursor tc)
       (filter (\<lambda>c. name_filter ilike query c \<and> ownerScope u (co_AuthorID c)) (db_collectors d))
       (clampLimit (pg_Limit page)) (pg_Cursor page)"

section \<open>The chain repository\<close>

definition GetChain :: "database \<Rightarrow> uuid \<Rightarrow> SpecimenCollectorLink list" where
  "GetChain d specimenID =
     concat (map (\<lambda>r. map (\<lambda>c. \<lparr>scl_Collector = c, scl_Position = sc_Position r\<rparr>)
                         (filter (\<lambda>c. co_ID c = sc_CollectorID r) (db_collectors d)))
       (sort_key sc_Position (filter (\<lambda>r. sc_SpecimenID r = specimenID) (db_specimen_collectors d))))"

definition distinctCount :: "uuid list \<Rightarrow> nat" where
  "distinctCount ids = length (remdups ids)"

text \<open>The inserts, at positions \<open>n\<close>, \<open>n + 1\<close>, \<open>\<dots>\<close>\<close>

fun insert_links :: "uuid \<Rightarrow> nat \<Rightarrow> uuid list \<Rightarrow> database \<Rightarrow> repo_error + database" where
  "insert_links sid n [] d = Inr d"
| "insert_links sid n (cid # cids) d =
     (if \<exists>r\<in>set (db_specimen_collectors d). sc_SpecimenID r = sid \<and> sc_CollectorID r = cid
      then Inl (Domain ErrCollectorConflict)
      else if sid \<notin> set (map sp_ID (db_specimens d)) \<or> cid \<notin> set (map co_ID (db_collectors d))
      then Inl (Domain ErrCollectorNotFound)
      else insert_links sid (Suc n) cids
             (d\<lparr>db_specimen_collectors := db_specimen_collectors d @
                 [\<lparr>sc_SpecimenID = sid, sc_CollectorID = cid, sc_Position = int n\<rparr>]\<rparr>))"

definition replaceChainTx :: "uuid \<Rightarrow> uuid list \<Rightarrow> database \<Rightarrow> repo_error + unit \<times> database" where
  "replaceChainTx sid ids d =
     (if sid \<notin> set (map sp_ID (db_specimens d)) then Inl (Domain ErrSpecimenNotFound)
      else if ids \<noteq> [] \<and> length (filter (\<lambda>c. co_ID c \<in> set ids) (db_collectors d)) < distinctCount ids
      then Inl (Domain ErrCollectorNotFound)
      else map_sum id (Pair ())
        (insert_links sid 1 ids
          (d\<lparr>db_specimen_collectors := filter (\<lambda>r. sc_SpecimenID r \<noteq> sid) (db_specimen_collectors d)\<rparr>)))"

definition ReplaceChain :: "tx_env \<Rightarrow> uuid \<Rightarrow> uuid list \<Rightarrow> database \<Rightarrow> (repo_error + unit) \<times> database" where
  "ReplaceChain tx sid ids d = RunInTx tx id (replaceChainTx sid ids) d"

section \<open>Collector endpoints\<close>

record 'r collector_env =
  ce_guard :: authzGuard
  ce_tc :: "'r text_codec"
  ce_ilike :: "string \<Rightarrow> string \<Rightarrow> bool"
  ce_tx :: tx_env
  ce_newID :: uuid
  ce_now :: time

record CollectorView =
  cv_ID :: uuid
  cv_Name :: string
  cv_Notes :: "string option"
  cv_AuthorID :: uuid
  cv_CreatedAt :: time
  cv_UpdatedAt :: time

definition toCollectorView :: "Collector \<Rightarrow> CollectorView" where
  "toCollectorView c =
     \<lparr>cv_ID = co_ID c, cv_Name = co_Name c, cv_Notes = co_Notes c, cv_AuthorID = co_AuthorID c,
      cv_CreatedAt = co_CreatedAt c, cv_UpdatedAt = co_UpdatedAt c\<rparr>"

definition mapDomainError :: "repo_error \<Rightarrow> apiError" where
  "mapDomainError err =
     (if err = Domain ErrCollectorNotFound then newAPIError 404 ''collector_not_found'' ''no such collector'' []
      else if err = Domain ErrCollectorConflict then newAPIError 409 ''collector_conflict''
        ''a collector with that name already exists'' [(''field'', ''name''), (''constraint'', ''unique'')]
      else if err = Domain ErrCollectorReferenced then newAPIError 409 ''collector_referenced''
        ''collector is still linked to one or more specimens'' [(''constraint'', ''specimen_collectors_fk'')]
      else newAPIError 500 ''internal_error'' ''internal server error'' [])"

record collectorListBody =
  cl_Items :: "CollectorView list"
  cl_NextCursor :: "string option"

definition collector_list ::
  "'r collector_env \<Rightarrow> auth_User \<Rightarrow> int \<Rightarrow> string \<Rightarrow> string \<Rightarrow> database \<Rightarrow> apiError + collectorListBody" where
  "collector_list env u limit cursor q d =
     sum_bind (map_sum mapListError id (Collector_List (ce_tc env) (ce_ilike env) u q \<lparr>pg_Limit = limit, pg_Cursor = cursor\<rparr> d)) (\<lambda>(rows, next').
     Inr \<lparr>cl_Items = map toCollectorView rows, cl_NextCursor = (if next' = [] then None else Some next')\<rparr>)"

definition collector_get :: "'r collector_env \<Rightarrow> auth_User \<Rightarrow> string \<Rightarrow> database \<Rightarrow> apiError + CollectorView" where
  "collector_get env u rawID d =
     sum_bind (parseUUID (uuid_Parse (ce_tc env)) rawID ''id'') (\<lambda>i.
     sum_bind (map_sum mapDomainError id (Collector_GetByID d i)) (\<lambda>c.
     sum_bind (as_error (checkView (ce_guard env) u (collectorResource (ag_str (ce_guard env)) c)
       ''collector_not_found'' ''no such collector'')) (\<lambda>_.
     Inr (toCollectorView c))))"

definition new_collector :: "'r collector_env \<Rightarrow> auth_User \<Rightarrow> string \<Rightarrow> string option \<Rightarrow> Collector" where
  "new_collector env u name notes =
     \<lparr>co_ID = ce_newID env, co_Name = name, co_Notes = notes, co_AuthorID = u_ID u,
      co_CreatedAt = ce_now env, co_UpdatedAt = ce_now env\<rparr>"

definition collector_create ::
  "'r collector_env \<Rightarrow> auth_User \<Rightarrow> string \<Rightarrow> string option \<Rightarrow> database \<Rightarrow> apiError + (string \<times> CollectorView) \<times> database" where
  "collector_create env u rawName notes d =
     (let name = trimSpace rawName; c = new_collector env u name notes in
      sum_bind (ensure (name \<noteq> []) (newAPIError 400 ''invalid_name'' ''name is required'' [])) (\<lambda>_.
      sum_bind (as_error (guard_check (ce_guard env) u (ownedResource (ag_str (ce_guard env)) ''collectors'' (u_ID u)) ''create'')) (\<lambda>_.
      sum_bind (map_sum mapDomainError id (Collector_Create u c d)) (\<lambda>d'.
      Inr ((''/api/v1/collectors/'' @ ag_str (ce_guard env) (co_ID c), toCollectorView c), d')))))"

text \<open>The body of a patch: JSON null decodes like an absent member, to a nil pointer.\<close>

record patchCollectorBody =
  pc_Name :: "string option"
  pc_Notes :: "string option"

definition patch_collector :: "'r collector_env \<Rightarrow> patchCollectorBody \<Rightarrow> Collector \<Rightarrow> apiError + Collector" where
  "patch_collector env b cur =
     sum_bind (ensure (case pc_Name b of None \<Rightarrow> True | Some n \<Rightarrow> trimSpace n \<noteq> [])
       (newAPIError 400 ''invalid_name'' ''name must be non-empty when provided'' [])) (\<lambda>_.
     Inr (cur\<lparr>co_Name := keep (co_Name cur) (map_option trimSpace (pc_Name b)),
              co_Notes := keep_opt (co_Notes cur) (pc_Notes b), co_UpdatedAt := ce_now env\<rparr>))"

definition collector_patch ::
  "'r collector_env \<Rightarrow> auth_User \<Rightarrow> string \<Rightarrow> patchCollectorBody \<Rightarrow> database \<Rightarrow> apiError + CollectorView \<times> database" where
  "collector_patch env u rawID b d =
     sum_bind (parseUUID (uuid_Parse (ce_tc env)) rawID ''id'') (\<lambda>i.
     sum_bind (map_sum mapDomainError id (Collector_GetByID d i)) (\<lambda>cur.
     sum_bind (as_error (guard_check (ce_guard env) u (collectorResource (ag_str (ce_guard env)) cur) ''edit'')) (\<lambda>_.
     sum_bind (patch_collector env b cur) (\<lambda>cur'.
     sum_bind (map_sum mapDomainError id (Collector_Update cur' d)) (\<lambda>d'.
     Inr (toCollectorView cur', d'))))))"

definition collector_delete :: "'r collector_env \<Rightarrow> auth_User \<Rightarrow> string \<Rightarrow> database \<Rightarrow> apiError + database" where
  "collector_delete env u rawID d =
     sum_bind (parseUUID (uuid_Parse (ce_tc env)) rawID ''id'') (\<lambda>i.
     sum_bind (map_sum mapDomainError id (Collector_GetByID d i)) (\<lambda>cur.
     sum_bind (as_error (guard_check (ce_guard env) u (collectorResource (ag_str (ce_guard env)) cur) ''delete'')) (\<lambda>_.
     map_sum mapDomainError id (Collector_Delete i d))))"

section \<open>Chain endpoints\<close>

record SpecimenCollectorLinkView =
  slv_Collector :: CollectorView
  slv_Position :: int

definition toSpecimenCollectorLinkView :: "SpecimenCollectorLink \<Rightarrow> SpecimenCollectorLinkView" where
  "toSpecimenCollectorLinkView l = \<lparr>slv_Collector = toCollectorView (scl_Collector l), slv_Position = scl_Position l\<rparr>"

definition chain_get :: "'r collector_env \<Rightarrow> auth_User \<Rightarrow> string \<Rightarrow> database \<Rightarrow> apiError + SpecimenCollectorLinkView list" where
  "chain_get env u rawID d =
     sum_bind (parseUUID (uuid_Parse (ce_tc env)) rawID ''id'') (\<lambda>i.
     sum_bind (map_sum mapSpecimenError id (SpecimenPostgres_GetByID d i)) (\<lambda>sp.
     sum_bind (as_error (checkView (ce_guard env) u (specimenResource (ag_str (ce_guard env)) sp)
       ''specimen_not_found'' ''no such specimen'')) (\<lambda>_.
     Inr (map toSpecimenCollectorLinkView (GetChain d i)))))"

fun parse_collector_ids :: "'r collector_env \<Rightarrow> uuid list \<Rightarrow> nat \<Rightarrow> string list \<Rightarrow> apiError + uuid list" where
  "parse_collector_ids env seen n [] = Inr []"
| "parse_collector_ids env seen n (raw # raws) =
     (case uuid_Parse (ce_tc env) raw of
        None \<Rightarrow> Inl (newAPIError 400 ''invalid_collector_id'' ''collector_ids must be UUIDs''
          [(''field'', ''collector_ids''), (''index'', decimal n)])
      | Some cid \<Rightarrow>
          if cid \<in> set seen then Inl (newAPIError 400 ''duplicate_collector_id'' ''collector_ids must not contain duplicates''
            [(''field'', ''collector_ids''), (''index'', decimal n), (''id'', ag_str (ce_guard env) cid)])
          else sum_bind (parse_collector_ids env (cid # seen) (Suc n) raws) (\<lambda>ids. Inr (cid # ids)))"

definition missing_collector :: apiError where
  "missing_collector = newAPIError 404 ''collector_not_found'' ''one or more collector_ids do not exist'' [(''field'', ''collector_ids'')]"

fun authorize_collectors :: "'r collector_env \<Rightarrow> auth_User \<Rightarrow> database \<Rightarrow> uuid list \<Rightarrow> apiError + unit" where
  "authorize_collectors env u d [] = Inr ()"
| "authorize_collectors env u d (cid # cids) =
     sum_bind (map_sum (\<lambda>e. if e = Domain ErrCollectorNotFound then missing_collector
         else newAPIError 500 ''internal_error'' ''internal server error'' []) id (Collector_GetByID d cid)) (\<lambda>c.
     sum_bind (as_error (checkView (ce_guard env) u (collectorResource (ag_str (ce_guard env)) c)
       ''collector_not_found'' ''one or more collector_ids do not exist'')) (\<lambda>_.
     authorize_collectors env u d cids))"

definition mapSpecimenCollectorError :: "repo_error \<Rightarrow> apiError" where
  "mapSpecimenCollectorError err =
     (if err = Domain ErrSpecimenNotFound then newAPIError 404 ''specimen_not_found'' ''no such specimen'' []
      else if err = Domain ErrCollectorNotFound then missing_collector
      else if err = Domain ErrCollectorConflict then newAPIError 400 ''duplicate_collector_id''
        ''collector_ids must not contain duplicates'' [(''field'', ''collector_ids'')]
      else newAPIError 500 ''internal_error'' ''internal server error'' [])"

text \<open>What the put handler decides before it writes.\<close>

definition chain_request :: "'r collector_env \<Rightarrow> auth_User \<Rightarrow> string \<Rightarrow> string list \<Rightarrow> database \<Rightarrow> apiError + uuid \<times> uuid list" where
  "chain_request env u rawID raws d =
     sum_bind (parseUUID (uuid_Parse (ce_tc env)) rawID ''id'') (\<lambda>i.
     sum_bind (map_sum mapSpecimenError id (SpecimenPostgres_GetByID d i)) (\<lambda>sp.
     sum_bind (as_error (guard_check (ce_guard env) u (specimenResource (ag_str (ce_guard env)) sp) ''edit'')) (\<lambda>_.
     sum_bind (parse_collector_ids env [] 0 raws) (\<lambda>ids.
     sum_bind (authorize_collectors env u d ids) (\<lambda>_.
     Inr (i, ids))))))"

definition chain_put ::
  "'r collector_env \<Rightarrow> auth_User \<Rightarrow> string \<Rightarrow> string list \<Rightarrow> database \<Rightarrow> (apiError + SpecimenCollectorLinkView list) \<times> database" where
  "chain_put env u rawID raws d =
     (case chain_request env u rawID raws d of
        Inl e \<Rightarrow> (Inl e, d)
      | Inr (i, ids) \<Rightarrow>
          (case ReplaceChain (ce_tx env) i ids d of
             (Inl e, d') \<Rightarrow> (Inl (mapSpecimenCollectorError e), d')
           | (Inr _, d') \<Rightarrow> (Inr (map toSpecimenCollectorLinkView (GetChain d' i)), d')))"

section \<open>A chain as a list\<close>

definition chain_of :: "database \<Rightarrow> uuid \<Rightarrow> uuid list" where
  "chain_of d sid = map sc_CollectorID (sort_key sc_Position (filter (\<lambda>r. sc_SpecimenID r = sid) (db_specimen_collectors d)))"

definition link_rows :: "uuid \<Rightarrow> nat \<Rightarrow> uuid list \<Rightarrow> SpecimenCollectorRow list" where
  "link_rows sid n ids = map (\<lambda>(k, c). \<lparr>sc_SpecimenID = sid, sc_CollectorID = c, sc_Position = int k\<rparr>) (List.enumerate n ids)"

definition set_chain :: "uuid \<Rightarrow> uuid list \<Rightarrow> database \<Rightarrow> database" where
  "set_chain sid ids d = d\<lparr>db_specimen_collectors :=
     filter (\<lambda>r. sc_SpecimenID r \<noteq> sid) (db_specimen_collectors d) @ link_rows sid 1 ids\<rparr>"

definition chain_views :: "Collector list \<Rightarrow> SpecimenCollectorLinkView list" where
  "chain_views cs = map (\<lambda>(k, c). \<lparr>slv_Collector = toCollectorView c, slv_Position = int k\<rparr>) (List.enumerate 1 cs)"

lemma link_rows_simps [simp]:
  "link_rows sid n [] = []"
  "link_rows sid n (c # cs) = \<lparr>sc_SpecimenID = sid, sc_CollectorID = c, sc_Position = int n\<rparr> # link_rows sid (Suc n) cs"
  by (simp_all add: link_rows_def)

lemma set_link_rows: "r \<in> set (link_rows sid n ids) \<Longrightarrow> sc_SpecimenID r = sid \<and> sc_CollectorID r \<in> set ids \<and> int n \<le> sc_Position r"
  by (induction ids arbitrary: n) force+

lemma filter_link_rows: "filter (\<lambda>r. sc_SpecimenID r = j) (link_rows sid n ids) = (if j = sid then link_rows sid n ids else [])"
  by (auto simp: filter_empty_conv intro!: filter_True dest: set_link_rows)

lemma map_link_rows: "map sc_CollectorID (link_rows sid n ids) = ids"
  by (induction ids arbitrary: n) simp_all

lemma sorted_link_rows: "sorted (map sc_Position (link_rows sid n ids))"
proof (induction ids arbitrary: n)
  case (Cons c cs)
  have "\<forall>r\<in>set (link_rows sid (Suc n) cs). int n \<le> sc_Position r" using set_link_rows by fastforce
  then show ?case using Cons by simp
qed simp

lemma filter_set_chain:
  "filter (\<lambda>r. sc_SpecimenID r = j) (db_specimen_collectors (set_chain sid ids d)) =
     (if j = sid then link_rows sid 1 ids else filter (\<lambda>r. sc_SpecimenID r = j) (db_specimen_collectors d))"
  by (auto simp: set_chain_def filter_link_rows filter_empty_conv intro!: filter_cong)

lemma chain_of_set_chain: "chain_of (set_chain sid ids d) = (chain_of d)(sid := ids)"
  by (rule ext) (simp add: chain_of_def filter_set_chain map_link_rows sort_key_id_if_sorted [OF sorted_link_rows])

lemma insert_links_ok:
  assumes "distinct ids" and "set ids \<subseteq> co_ID ` set (db_collectors d)" and "sid \<in> sp_ID ` set (db_specimens d)"
    and "\<forall>r\<in>set (db_specimen_collectors d). sc_SpecimenID r = sid \<longrightarrow> sc_CollectorID r \<notin> set ids"
  shows "insert_links sid n ids d = Inr (d\<lparr>db_specimen_collectors := db_specimen_collectors d @ link_rows sid n ids\<rparr>)"
  using assms
proof (induction ids arbitrary: n d)
  case (Cons c cs)
  let ?d = "d\<lparr>db_specimen_collectors := db_specimen_collectors d @ [\<lparr>sc_SpecimenID = sid, sc_CollectorID = c, sc_Position = int n\<rparr>]\<rparr>"
  have "insert_links sid (Suc n) cs ?d = Inr (?d\<lparr>db_specimen_collectors := db_specimen_collectors ?d @ link_rows sid (Suc n) cs\<rparr>)"
    by (rule Cons.IH) (use Cons.prems in auto)
  then show ?case using Cons.prems by simp
qed simp

lemma replaceChainTx_ok:
  assumes "distinct ids" and "set ids \<subseteq> co_ID ` set (db_collectors d)" and "sid \<in> sp_ID ` set (db_specimens d)"
  shows "replaceChainTx sid ids d = Inr ((), set_chain sid ids d)"
proof -
  have "set ids \<subseteq> set (map co_ID (filter (\<lambda>c. co_ID c \<in> set ids) (db_collectors d)))" using assms(2) by auto
  then have "card (set ids) \<le> length (map co_ID (filter (\<lambda>c. co_ID c \<in> set ids) (db_collectors d)))"
    using card_mono [OF finite_set] card_length le_trans by blast
  then have "\<not> length (filter (\<lambda>c. co_ID c \<in> set ids) (db_collectors d)) < distinctCount ids"
    by (simp add: distinctCount_def length_remdups_card_conv)
  then show ?thesis using assms by (simp add: replaceChainTx_def insert_links_ok set_chain_def)
qed

lemma GetChain_set_chain:
  assumes "distinct (map co_ID (db_collectors d))" and "set cs \<subseteq> set (db_collectors d)"
  shows "map toSpecimenCollectorLinkView (GetChain (set_chain sid (map co_ID cs) d) sid) = chain_views cs"
proof -
  have one: "filter (\<lambda>c'. co_ID c' = co_ID c) (db_collectors d) = [c]" if "c \<in> set (db_collectors d)" for c
    using assms(1) that
  proof (induction "db_collectors d" arbitrary: d)
    case (Cons x xs)
    have "filter (\<lambda>c'. co_ID c' = co_ID c) (x # xs) = [c]"
    proof (cases "x = c")
      case True
      then have "filter (\<lambda>c'. co_ID c' = co_ID c) xs = []"
        using Cons.prems(1) Cons.hyps(2) [symmetric] by (auto simp: filter_empty_conv) (metis image_eqI)
      then show ?thesis using True by simp
    next
      case False
      then have "co_ID x \<noteq> co_ID c" "c \<in> set xs"
        using Cons.prems Cons.hyps(2) [symmetric] by (auto simp: image_iff)
      then show ?thesis using Cons.hyps(1) [of "d\<lparr>db_collectors := xs\<rparr>"] Cons.prems Cons.hyps(2) [symmetric] by simp
    qed
    then show ?case using Cons.hyps(2) by simp
  qed simp
  have "concat (map (\<lambda>r. map (\<lambda>c. \<lparr>scl_Collector = c, scl_Position = sc_Position r\<rparr>)
      (filter (\<lambda>c. co_ID c = sc_CollectorID r) (db_collectors d))) (link_rows sid n (map co_ID cs))) =
    map (\<lambda>(k, c). \<lparr>scl_Collector = c, scl_Position = int k\<rparr>) (List.enumerate n cs)" for n
    using assms(2) by (induction cs arbitrary: n) (simp_all add: one)
  note rows = this [of 1]
  have "db_collectors (set_chain sid (map co_ID cs) d) = db_collectors d" by (simp add: set_chain_def)
  then show ?thesis
    by (simp add: GetChain_def filter_set_chain sort_key_id_if_sorted [OF sorted_link_rows] rows [simplified] chain_views_def
        toSpecimenCollectorLinkView_def case_prod_beta)
qed

section \<open>What a request may put\<close>

lemma collector_checkView:
  assumes "guard_ok g enf shares"
  shows "checkView g u (collectorResource (ag_str g) c) code msg = (if ownerScope u (co_AuthorID c) then None else Some (newAPIError 404 code msg []))"
  by (rule owned_checkView [OF assms]) (simp_all add: collectorResource_def)

lemma collector_write:
  assumes "guard_ok g enf shares" and "act \<in> {''edit'', ''delete'', ''create''}"
  shows "guard_check g u (collectorResource (ag_str g) c) act = None \<longleftrightarrow> ownerScope u (co_AuthorID c)"
  by (rule owned_write_scope [OF assms]) (simp_all add: collectorResource_def owned_types_def)

lemma parse_collector_ids_iff:
  "parse_collector_ids env seen n raws = Inr ids \<longleftrightarrow>
     map (uuid_Parse (ce_tc env)) raws = map Some ids \<and> distinct ids \<and> set ids \<inter> set seen = {}"
proof (induction raws arbitrary: seen n ids)
  case (Cons raw raws)
  show ?case
  proof (cases "uuid_Parse (ce_tc env) raw")
    case None
    then show ?thesis by auto
  next
    case (Some c)
    show ?thesis
    proof (cases "c \<in> set seen")
      case True
      then show ?thesis using Some by (cases ids) auto
    next
      case False
      then show ?thesis using Some Cons.IH [of "c # seen" "Suc n"] by (cases ids) (auto simp: sum_bind_Inr)
    qed
  qed
qed auto

lemma authorize_collectors_iff:
  assumes "guard_ok (ce_guard env) enf shares"
  shows "authorize_collectors env u d ids = Inr () \<longleftrightarrow>
    (\<forall>i\<in>set ids. \<exists>c. find (\<lambda>c. co_ID c = i) (db_collectors d) = Some c \<and> ownerScope u (co_AuthorID c))"
proof (induction ids)
  case (Cons i ids)
  show ?case
  proof (cases "find (\<lambda>c. co_ID c = i) (db_collectors d)")
    case None
    then show ?thesis by (simp add: Collector_GetByID_def)
  next
    case (Some c)
    then show ?thesis using Cons
      by (simp add: Collector_GetByID_def collector_checkView [OF assms] as_error_def)
  qed
qed simp

text \<open>
  The chain \<open>cs\<close> may be put on the specimen \<open>i\<close>: the caller may edit the specimen, the texts are the identifiers of
  stored collectors, without repetition, and the caller may see each of them.
\<close>

definition chain_allowed :: "'r collector_env \<Rightarrow> auth_User \<Rightarrow> string \<Rightarrow> string list \<Rightarrow> database \<Rightarrow> uuid \<Rightarrow> Collector list \<Rightarrow> bool" where
  "chain_allowed env u rawID raws d i cs \<longleftrightarrow>
     uuid_Parse (ce_tc env) rawID = Some i \<and>
     (\<exists>s\<in>set (db_specimens d). sp_ID s = i \<and> ownerScope u (sp_AuthorID s)) \<and>
     map (uuid_Parse (ce_tc env)) raws = map (\<lambda>c. Some (co_ID c)) cs \<and> distinct (map co_ID cs) \<and>
     set cs \<subseteq> {c \<in> set (db_collectors d). ownerScope u (co_AuthorID c)}"

lemma find_key_row:
  "distinct (map f xs) \<Longrightarrow> find (\<lambda>x. f x = k) xs = Some x \<longleftrightarrow> x \<in> set xs \<and> f x = k"
  by (induction xs) force+

lemma specimen_edit:
  assumes "guard_ok g enf shares"
  shows "guard_check g u (specimenResource (ag_str g) s) ''edit'' = None \<longleftrightarrow> ownerScope u (sp_AuthorID s)"
  by (rule owned_write_scope [OF assms]) (simp_all add: specimenResource_def owned_types_def)

lemma collectors_of_ids:
  assumes "distinct (map co_ID rows)"
  shows "(\<forall>i\<in>set ids. \<exists>c. find (\<lambda>c. co_ID c = i) rows = Some c \<and> P c) \<longleftrightarrow>
    (\<exists>cs. ids = map co_ID cs \<and> set cs \<subseteq> {c \<in> set rows. P c})"
proof
  assume all: "\<forall>i\<in>set ids. \<exists>c. find (\<lambda>c. co_ID c = i) rows = Some c \<and> P c"
  let ?cs = "map (\<lambda>i. the (find (\<lambda>c. co_ID c = i) rows)) ids"
  have "co_ID (the (find (\<lambda>c. co_ID c = i) rows)) = i \<and> the (find (\<lambda>c. co_ID c = i) rows) \<in> {c \<in> set rows. P c}" if i: "i \<in> set ids" for i
  proof -
    obtain c where c: "find (\<lambda>c. co_ID c = i) rows = Some c" "P c" using all i by blast
    then have "c \<in> set rows \<and> co_ID c = i" using find_key_row [OF assms] by blast
    then show ?thesis using c by simp
  qed
  then have "ids = map co_ID ?cs \<and> set ?cs \<subseteq> {c \<in> set rows. P c}" by (auto simp: map_idI)
  then show "\<exists>cs. ids = map co_ID cs \<and> set cs \<subseteq> {c \<in> set rows. P c}" by blast
next
  assume "\<exists>cs. ids = map co_ID cs \<and> set cs \<subseteq> {c \<in> set rows. P c}"
  then obtain cs where cs: "ids = map co_ID cs" "set cs \<subseteq> {c \<in> set rows. P c}" by blast
  show "\<forall>i\<in>set ids. \<exists>c. find (\<lambda>c. co_ID c = i) rows = Some c \<and> P c"
  proof
    fix i assume "i \<in> set ids"
    then obtain c where "c \<in> set cs" "i = co_ID c" using cs(1) by auto
    then show "\<exists>c. find (\<lambda>c. co_ID c = i) rows = Some c \<and> P c" using cs(2) find_key_row [OF assms] by blast
  qed
qed

lemma chain_request_iff:
  assumes "guard_ok (ce_guard env) enf shares" and "keys_ok d"
  shows "chain_request env u rawID raws d = Inr (i, ids) \<longleftrightarrow> (\<exists>cs. ids = map co_ID cs \<and> chain_allowed env u rawID raws d i cs)"
proof -
  have keys: "distinct (map sp_ID (db_specimens d))" "distinct (map co_ID (db_collectors d))"
    using assms(2) by (simp_all add: keys_ok_def)
  have "chain_request env u rawID raws d = Inr (i, ids) \<longleftrightarrow>
      uuid_Parse (ce_tc env) rawID = Some i \<and>
      (\<exists>s. SpecimenPostgres_GetByID d i = Inr s \<and> ownerScope u (sp_AuthorID s)) \<and>
      (map (uuid_Parse (ce_tc env)) raws = map Some ids \<and> distinct ids) \<and>
      (\<forall>j\<in>set ids. \<exists>c. find (\<lambda>c. co_ID c = j) (db_collectors d) = Some c \<and> ownerScope u (co_AuthorID c))"
    unfolding chain_request_def
    by (auto simp: sum_bind_Inr map_sum_Inr specimen_edit [OF assms(1)] parse_collector_ids_iff authorize_collectors_iff [OF assms(1)]
        parseUUID_def split: option.splits)
  also have "\<dots> \<longleftrightarrow> (\<exists>cs. ids = map co_ID cs \<and> chain_allowed env u rawID raws d i cs)"
    unfolding collectors_of_ids [OF keys(2)] GetByID_iff [OF keys(1)] chain_allowed_def by (auto simp: comp_def)
  finally show ?thesis .
qed

lemma set_chain_keeps:
  assumes "chain_allowed env u rawID raws d i cs" and "fk_ok d"
  shows "fk_ok (set_chain i (map co_ID cs) d)"
proof -
  have "refs sc_SpecimenID (link_rows i 1 (map co_ID cs)) sp_ID (db_specimens d)"
    "refs sc_CollectorID (link_rows i 1 (map co_ID cs)) co_ID (db_collectors d)"
    using assms(1) set_link_rows unfolding refs_def chain_allowed_def by fastforce+
  then show ?thesis using assms(2) by (auto simp: fk_ok_def set_chain_def refs_def)
qed

lemma chain_put_allowed:
  assumes "guard_ok (ce_guard env) enf shares" and "keys_ok d" and "ce_tx env = tx_up" and "chain_allowed env u rawID raws d i cs"
  shows "chain_put env u rawID raws d = (Inr (chain_views cs), set_chain i (map co_ID cs) d)"
proof -
  have req: "chain_request env u rawID raws d = Inr (i, map co_ID cs)"
    using chain_request_iff [OF assms(1,2)] assms(4) by blast
  have "distinct (map co_ID cs)" "set (map co_ID cs) \<subseteq> co_ID ` set (db_collectors d)" "i \<in> sp_ID ` set (db_specimens d)"
    and cs: "set cs \<subseteq> set (db_collectors d)"
    using assms(4) by (auto simp: chain_allowed_def)
  then have "ReplaceChain (ce_tx env) i (map co_ID cs) d = (Inr (), set_chain i (map co_ID cs) d)"
    by (simp add: ReplaceChain_def RunInTx_ok assms(3) replaceChainTx_ok)
  moreover have "distinct (map co_ID (db_collectors d))" using assms(2) by (simp add: keys_ok_def)
  ultimately show ?thesis by (simp add: chain_put_def req GetChain_set_chain [OF _ cs])
qed

lemma chain_put_refused:
  assumes "guard_ok (ce_guard env) enf shares" and "keys_ok d"
    and "\<not> (ce_tx env = tx_up \<and> (\<exists>i cs. chain_allowed env u rawID raws d i cs))"
  shows "isl (fst (chain_put env u rawID raws d)) \<and> snd (chain_put env u rawID raws d) = d"
proof (cases "chain_request env u rawID raws d")
  case (Inr p)
  obtain i ids where p: "p = (i, ids)" by fastforce
  have "\<exists>cs. chain_allowed env u rawID raws d i cs" using chain_request_iff [OF assms(1,2), of u rawID raws i ids] Inr p by auto
  then have down: "ce_tx env \<noteq> tx_up" using assms(3) by blast
  obtain r d' where r: "ReplaceChain (ce_tx env) i ids d = (r, d')" by fastforce
  show ?thesis
  proof (cases r)
    case (Inl e)
    then have "RunInTx (ce_tx env) id (replaceChainTx i ids) d = (Inl e, d')" using r by (simp add: ReplaceChain_def)
    then have "d' = d" by (rule RunInTx_error)
    then show ?thesis using Inr p r Inl by (simp add: chain_put_def)
  next
    case (Inr x)
    then have "ce_tx env = tx_up" using r unfolding ReplaceChain_def by (simp add: RunInTx_ok)
    then show ?thesis using down by simp
  qed
qed (simp add: chain_put_def)

lemma chain_get_back:
  assumes "guard_ok (ce_guard env) enf shares" and "keys_ok d" and "chain_allowed env u rawID raws d i cs"
  shows "chain_get env u rawID (set_chain i (map co_ID cs) d) = Inr (chain_views cs)"
proof -
  obtain s where s: "s \<in> set (db_specimens d)" "sp_ID s = i" "ownerScope u (sp_AuthorID s)" and cs: "set cs \<subseteq> set (db_collectors d)"
    and parse: "uuid_Parse (ce_tc env) rawID = Some i"
    using assms(3) by (auto simp: chain_allowed_def)
  have keys: "distinct (map sp_ID (db_specimens d))" "distinct (map co_ID (db_collectors d))"
    using assms(2) by (simp_all add: keys_ok_def)
  have "SpecimenPostgres_GetByID d i = Inr s" using GetByID_iff [OF keys(1)] s by blast
  then have get: "SpecimenPostgres_GetByID (set_chain i (map co_ID cs) d) i = Inr s"
    by (simp add: SpecimenPostgres_GetByID_def set_chain_def)
  have "guard_check (ce_guard env) u (specimenResource (ag_str (ce_guard env)) s) ''view'' = None"
    by (rule owned_access_guard [OF assms(1)]) (use s(3) in \<open>auto simp: specimenResource_def owned_types_def ownerScope_def isAdmin_def isAnonymous_def\<close>)
  then show ?thesis
    by (simp add: chain_get_def parseUUID_def parse get checkView_def as_error_def GetChain_set_chain [OF keys(2) cs])
qed

section \<open>Collectors belong to their author\<close>

definition no_collector :: apiError where
  "no_collector = newAPIError 404 ''collector_not_found'' ''no such collector'' []"

text \<open>Fetching: for anybody but the author and the admins a collector does not exist.\<close>

lemma collector_get_spec:
  assumes "guard_ok (ce_guard env) enf shares" and "keys_ok d" and "uuid_Parse (ce_tc env) rawID = Some i"
  shows "collector_get env u rawID d = Inr v \<longleftrightarrow>
      (\<exists>c\<in>set (db_collectors d). co_ID c = i \<and> ownerScope u (co_AuthorID c) \<and> v = toCollectorView c)"
    and "isl (collector_get env u rawID d) \<Longrightarrow> collector_get env u rawID d = Inl no_collector"
proof -
  have keys: "distinct (map co_ID (db_collectors d))" using assms(2) by (simp add: keys_ok_def)
  note row = find_key_row [OF keys, of i]
  have none: "find (\<lambda>c. co_ID c = i) (db_collectors d) = None \<longleftrightarrow> (\<forall>c\<in>set (db_collectors d). co_ID c \<noteq> i)"
    by (auto simp: find_None_iff)
  show "collector_get env u rawID d = Inr v \<longleftrightarrow>
      (\<exists>c\<in>set (db_collectors d). co_ID c = i \<and> ownerScope u (co_AuthorID c) \<and> v = toCollectorView c)"
  proof (cases "find (\<lambda>c. co_ID c = i) (db_collectors d)")
    case None
    then show ?thesis using none by (simp add: collector_get_def parseUUID_def assms(3) Collector_GetByID_def)
  next
    case (Some c)
    have only: "c' = c" if "c' \<in> set (db_collectors d)" "co_ID c' = i" for c' using row [of c'] that Some by simp
    show ?thesis using Some row [of c] only
      by (auto simp: collector_get_def parseUUID_def assms(3) Collector_GetByID_def collector_checkView [OF assms(1)] as_error_def)
  qed
  show "isl (collector_get env u rawID d) \<Longrightarrow> collector_get env u rawID d = Inl no_collector"
    by (cases "find (\<lambda>c. co_ID c = i) (db_collectors d)")
      (auto simp: collector_get_def parseUUID_def assms(3) Collector_GetByID_def collector_checkView [OF assms(1)] as_error_def
        mapDomainError_def no_collector_def split: if_splits)
qed

text \<open>Writes: one row of the caller (for an admin, of anybody) is added, edited or removed.\<close>

datatype collector_request = CCreate string "string option" | CPatch string patchCollectorBody | CDelete string

definition serve_collector :: "'r collector_env \<Rightarrow> auth_User \<Rightarrow> collector_request \<Rightarrow> database \<Rightarrow> apiError + database" where
  "serve_collector env u req d =
     (case req of
        CCreate name notes \<Rightarrow> map_sum id snd (collector_create env u name notes d)
      | CPatch rawID b \<Rightarrow> map_sum id snd (collector_patch env u rawID b d)
      | CDelete rawID \<Rightarrow> collector_delete env u rawID d)"

definition collectors_ok :: "database \<Rightarrow> bool" where
  "collectors_ok d \<longleftrightarrow> distinct (map co_ID (db_collectors d)) \<and> distinct (map co_Name (db_collectors d)) \<and>
     refs co_AuthorID (db_collectors d) us_ID (db_users d) \<and>
     refs sc_CollectorID (db_specimen_collectors d) co_ID (db_collectors d)"

definition others_kept :: "auth_User \<Rightarrow> database \<Rightarrow> database \<Rightarrow> bool" where
  "others_kept u d d' \<longleftrightarrow>
     filter (\<lambda>c. \<not> ownerScope u (co_AuthorID c)) (db_collectors d') = filter (\<lambda>c. \<not> ownerScope u (co_AuthorID c)) (db_collectors d)
     \<and> d'\<lparr>db_collectors := db_collectors d\<rparr> = d"

lemma collector_create_sound:
  assumes "guard_ok (ce_guard env) enf shares" and "collectors_ok d" and "collector_create env u name notes d = Inr (r, d')"
  shows "collectors_ok d' \<and> others_kept u d d'"
proof -
  let ?c = "(new_collector env u (trimSpace name) notes)\<lparr>co_AuthorID := u_ID u\<rparr>"
  have new: "d' = d\<lparr>db_collectors := db_collectors d @ [?c]\<rparr>" "co_ID ?c \<notin> co_ID ` set (db_collectors d)"
    "co_Name ?c \<notin> co_Name ` set (db_collectors d)" "u_ID u \<in> us_ID ` set (db_users d)"
    and g: "guard_check (ce_guard env) u (ownedResource (ag_str (ce_guard env)) ''collectors'' (u_ID u)) ''create'' = None"
    using assms(3) unfolding collector_create_def Let_def sum_bind_Inr map_sum_Inr
    by (auto simp: Collector_Create_def split: if_splits)
  have "ownerScope u (u_ID u)"
    using owned_write_scope [OF assms(1), of "''create''" "ownedResource (ag_str (ce_guard env)) ''collectors'' (u_ID u)" "u_ID u" u] g
    by (simp add: ownedResource_def owned_types_def)
  then show ?thesis using assms(2) new unfolding new(1) by (auto simp: collectors_ok_def others_kept_def refs_def)
qed

lemma map_edit_key:
  "(\<And>r. r \<in> set xs \<Longrightarrow> f (h r) = f r) \<Longrightarrow> map f (map h xs) = map f xs"
  by simp

lemma distinct_edit:
  assumes "distinct (map f xs)" and "distinct (map k xs)" and "x \<notin> f ` set (filter (\<lambda>r. k r \<noteq> i) xs)" and "\<And>r. f (h r) = (if k r = i then x else f r)"
  shows "distinct (map f (map h xs))"
  using assms(1-3)
proof (induction xs)
  case (Cons a xs)
  have "f (h a) \<noteq> f (h r)" if r: "r \<in> set xs" for r
  proof -
    have "k a \<noteq> k r" "f a \<noteq> f r" using Cons.prems(1,2) r by (auto dest: imageI [of r _ k] imageI [of r _ f])
    moreover have "k r \<noteq> i \<Longrightarrow> x \<noteq> f r" "k a \<noteq> i \<Longrightarrow> x \<noteq> f a" using Cons.prems(3) r by auto
    ultimately show ?thesis using assms(4) by metis
  qed
  moreover have "distinct (map f (map h xs))" by (rule Cons.IH) (use Cons.prems in auto)
  ultimately show ?case by auto
qed simp

lemma collector_patch_sound:
  assumes "guard_ok (ce_guard env) enf shares" and "collectors_ok d" and "collector_patch env u rawID b d = Inr (v, d')"
  shows "collectors_ok d' \<and> others_kept u d d'"
proof -
  obtain i cur cur' where cur: "find (\<lambda>c. co_ID c = i) (db_collectors d) = Some cur"
    and own: "ownerScope u (co_AuthorID cur)" and cur': "patch_collector env b cur = Inr cur'" and upd: "Collector_Update cur' d = Inr d'"
    using assms(3) unfolding collector_patch_def sum_bind_Inr map_sum_Inr as_error_Inr
    by (auto simp: Collector_GetByID_def collector_write [OF assms(1)] split: option.splits)
  have keys: "distinct (map co_ID (db_collectors d))" using assms(2) by (simp add: collectors_ok_def)
  have row: "cur \<in> set (db_collectors d)" "co_ID cur' = co_ID cur"
    using find_key_row [OF keys] cur cur' by (auto simp: patch_collector_def sum_bind_Inr)
  define h :: "Collector \<Rightarrow> Collector" where "h = (\<lambda>r. if co_ID r = co_ID cur then r\<lparr>co_Name := co_Name cur', co_Notes := co_Notes cur', co_UpdatedAt := co_UpdatedAt cur'\<rparr> else r)"
  have d': "d' = d\<lparr>db_collectors := map h (db_collectors d)\<rparr>"
    and free: "co_Name cur' \<notin> co_Name ` set (filter (\<lambda>r. co_ID r \<noteq> co_ID cur) (db_collectors d))"
    using upd row(2) unfolding Collector_Update_def by (auto simp: h_def split: if_splits)
  have h: "co_ID (h r) = co_ID r" "co_AuthorID (h r) = co_AuthorID r" "co_Name (h r) = (if co_ID r = co_ID cur then co_Name cur' else co_Name r)" for r
    by (simp_all add: h_def)
  have "collectors_ok d'"
    using assms(2) distinct_edit [OF _ keys free, of h] h refs_map [of co_AuthorID "db_collectors d" us_ID "db_users d" h]
      refs_map_right [of sc_CollectorID "db_specimen_collectors d" co_ID "db_collectors d" h]
    unfolding d' collectors_ok_def by (simp add: comp_def)
  moreover have "h r = r" if "r \<in> set (db_collectors d)" "\<not> ownerScope u (co_AuthorID r)" for r
    using that own row find_key_row [OF keys, of "co_ID cur"] by (metis h_def option.inject)
  then have "others_kept u d d'"
    unfolding others_kept_def d' by (auto simp: filter_map comp_def h intro!: map_idI)
  ultimately show ?thesis by blast
qed

lemma collector_delete_sound:
  assumes "guard_ok (ce_guard env) enf shares" and "collectors_ok d" and "collector_delete env u rawID d = Inr d'"
  shows "collectors_ok d' \<and> others_kept u d d'"
proof -
  obtain i cur where cur: "find (\<lambda>c. co_ID c = i) (db_collectors d) = Some cur"
    and own: "ownerScope u (co_AuthorID cur)" and del: "Collector_Delete i d = Inr d'"
    using assms(3) unfolding collector_delete_def sum_bind_Inr map_sum_Inr as_error_Inr
    by (auto simp: Collector_GetByID_def collector_write [OF assms(1)] split: option.splits)
  have keys: "distinct (map co_ID (db_collectors d))" using assms(2) by (simp add: collectors_ok_def)
  have d': "d' = d\<lparr>db_collectors := filter (\<lambda>c. \<not> co_ID c = i) (db_collectors d)\<rparr>"
    and free: "\<forall>r\<in>set (db_specimen_collectors d). sc_CollectorID r \<notin> co_ID ` set (filter (\<lambda>c. co_ID c = i) (db_collectors d))"
    using del by (auto simp: Collector_Delete_def delete_collectors_def Let_def split: if_splits sum.splits)
  have "collectors_ok d'"
    using assms(2) refs_restrict [OF _ free] unfolding d' collectors_ok_def by (simp add: refs_keep distinct_map_filter del: set_filter)
  moreover have "co_ID r \<noteq> i" if "r \<in> set (db_collectors d)" "\<not> ownerScope u (co_AuthorID r)" for r
    using that own cur find_key_row [OF keys, of i] by (metis option.inject)
  then have "others_kept u d d'" unfolding others_kept_def d' by (auto intro!: filter_cong)
  ultimately show ?thesis by blast
qed

lemma collector_writes_sound:
  assumes "guard_ok (ce_guard env) enf shares" and "collectors_ok d" and "serve_collector env u req d = Inr d'"
  shows "collectors_ok d' \<and> others_kept u d d'"
proof (cases req)
  case (CCreate name nts)
  then obtain r where "collector_create env u name nts d = Inr (r, d')"
    using assms(3) by (cases "collector_create env u name nts d") (auto simp: serve_collector_def)
  then show ?thesis by (rule collector_create_sound [OF assms(1,2)])
next
  case (CPatch rawID b)
  then obtain v where "collector_patch env u rawID b d = Inr (v, d')"
    using assms(3) by (cases "collector_patch env u rawID b d") (auto simp: serve_collector_def)
  then show ?thesis by (rule collector_patch_sound [OF assms(1,2)])
next
  case (CDelete rawID)
  then show ?thesis using assms(3) collector_delete_sound [OF assms(1,2)] by (simp add: serve_collector_def)
qed

text \<open>
  Names are unique over all users although collectors are private: a caller is told that a name is taken by a collector
  that, for this caller, does not exist.
\<close>

lemma hidden_name_conflict:
  assumes "guard_ok (ce_guard env) enf shares" and "c \<in> set (db_collectors d)" and "trimSpace name = co_Name c" "co_Name c \<noteq> []"
    and "u_ID u \<noteq> uuid_Nil"
  shows "collector_create env u name notes d =
    Inl (newAPIError 409 ''collector_conflict'' ''a collector with that name already exists'' [(''field'', ''name''), (''constraint'', ''unique'')])"
proof -
  have "guard_check (ce_guard env) u (ownedResource (ag_str (ce_guard env)) ''collectors'' (u_ID u)) ''create'' = None"
    by (rule owned_access_guard [OF assms(1)]) (use assms(5) in \<open>auto simp: ownedResource_def owned_types_def\<close>)
  moreover have "Collector_Create u (new_collector env u (trimSpace name) notes) d = Inl (Domain ErrCollectorConflict)"
    using assms(2,3) by (auto simp: Collector_Create_def new_collector_def)
  ultimately show ?thesis using assms(3,4) by (simp add: collector_create_def as_error_def mapDomainError_def ensure_def)
qed

text \<open>A collector the caller may not see and one that does not exist get different answers.\<close>

lemma hidden_collector_told_apart:
  assumes "guard_ok (ce_guard env) enf shares" and "find (\<lambda>c. co_ID c = i) (db_collectors d) = Some c" and "\<not> ownerScope u (co_AuthorID c)"
    and "find (\<lambda>c. co_ID c = j) (db_collectors d) = None"
  shows "authorize_collectors env u d [i] \<noteq> authorize_collectors env u d [j]"
  using assms(2-4) by (simp add: Collector_GetByID_def collector_checkView [OF assms(1)] as_error_def missing_collector_def newAPIError_def)

section \<open>The name filter\<close>

text \<open>
  \<open>LIKE\<close> as documented: \<open>%\<close> matches any text, \<open>_\<close> any character, a backslash makes the next character literal;
  \<open>ILIKE\<close> compares after folding case.
\<close>

fun like_match :: "string \<Rightarrow> string \<Rightarrow> bool" where
  "like_match s [] = (s = [])"
| "like_match s (p # ps) =
     (if p = CHR ''%'' then list_ex (\<lambda>n. like_match (drop n s) ps) [0..<Suc (length s)]
      else if p = CHR ''_'' then s \<noteq> [] \<and> like_match (tl s) ps
      else if p = CHR 0x5C then (case ps of [] \<Rightarrow> False | q # qs \<Rightarrow> s \<noteq> [] \<and> hd s = q \<and> like_match (tl s) qs)
      else s \<noteq> [] \<and> hd s = p \<and> like_match (tl s) ps)"

definition folds_case :: "(string \<Rightarrow> string \<Rightarrow> bool) \<Rightarrow> (char \<Rightarrow> char) \<Rightarrow> bool" where
  "folds_case ilike lower \<longleftrightarrow> (\<forall>s p. ilike s p = like_match (map lower s) (map lower p)) \<and>
     (\<forall>c m. m \<in> {CHR 0x5C, CHR ''%'', CHR ''_''} \<longrightarrow> (lower c = m \<longleftrightarrow> c = m))"

lemma like_escaped: "like_match s (escapeLike q @ ps) \<longleftrightarrow> (\<exists>t. s = q @ t \<and> like_match t ps)"
proof (induction q arbitrary: s)
  case (Cons c q)
  have e: "escapeLike (c # q) = (if c \<in> {CHR 0x5C, CHR ''%'', CHR ''_''} then [CHR 0x5C, c] else [c]) @ escapeLike q"
    by (simp add: escapeLike_def)
  have "like_match s (escapeLike (c # q) @ ps) \<longleftrightarrow> s \<noteq> [] \<and> hd s = c \<and> like_match (tl s) (escapeLike q @ ps)"
    unfolding e by auto
  also have "\<dots> \<longleftrightarrow> (\<exists>t. s = (c # q) @ t \<and> like_match t ps)" unfolding Cons.IH by (cases s) auto
  finally show ?case .
qed (simp add: escapeLike_def)

lemma like_contains: "like_match s (''%'' @ escapeLike q @ ''%'') \<longleftrightarrow> (\<exists>a b. s = a @ q @ b)"
proof -
  have all: "like_match t ''%''" for t
    by (auto simp: list_ex_iff intro!: bexI [of _ "length t"])
  have "like_match s (''%'' @ escapeLike q @ ''%'') \<longleftrightarrow> (\<exists>n\<le>length s. \<exists>t. drop n s = q @ t)"
    using all by (simp add: list_ex_iff like_escaped less_Suc_eq_le Bex_def del: upt_Suc)
  also have "\<dots> \<longleftrightarrow> (\<exists>a b. s = a @ q @ b)"
    by (metis append_eq_conv_conj append_take_drop_id nat_le_linear take_all drop_all length_append le_add1)
  finally show ?thesis .
qed

lemma map_escapeLike:
  assumes "folds_case ilike lower"
  shows "map lower (escapeLike q) = escapeLike (map lower q)"
proof (induction q)
  case (Cons c q)
  have "lower m = m" if "m \<in> {CHR 0x5C, CHR ''%'', CHR ''_''}" for m using assms that unfolding folds_case_def by blast
  moreover have "lower c \<in> {CHR 0x5C, CHR ''%'', CHR ''_''} \<longleftrightarrow> c \<in> {CHR 0x5C, CHR ''%'', CHR ''_''}"
    using assms unfolding folds_case_def by blast
  ultimately show ?case using Cons by (simp add: escapeLike_def)
qed (simp add: escapeLike_def)

text \<open>The filter is a search for the trimmed text inside the name, up to case; no character of it is a wildcard.\<close>

lemma name_filter_contains:
  assumes "folds_case ilike lower"
  shows "name_filter ilike query c \<longleftrightarrow> (\<exists>a b. map lower (co_Name c) = a @ map lower (trimSpace query) @ b)"
proof -
  have p: "lower (CHR ''%'') = CHR ''%''" using assms unfolding folds_case_def by blast
  have "ilike (co_Name c) (''%'' @ escapeLike (trimSpace query) @ ''%'') \<longleftrightarrow>
      like_match (map lower (co_Name c)) (''%'' @ escapeLike (map lower (trimSpace query)) @ ''%'')"
    using assms by (simp add: folds_case_def p map_escapeLike [OF assms])
  also have "\<dots> \<longleftrightarrow> (\<exists>a b. map lower (co_Name c) = a @ map lower (trimSpace query) @ b)" by (rule like_contains)
  finally have "ilike (co_Name c) (''%'' @ escapeLike (trimSpace query) @ ''%'') \<longleftrightarrow>
      (\<exists>a b. map lower (co_Name c) = a @ map lower (trimSpace query) @ b)" .
  moreover have "\<exists>a b. map lower (co_Name c) = a @ [] @ b" by (rule exI [of _ "[]"]) simp
  ultimately show ?thesis unfolding name_filter_def by (cases "trimSpace query = []") simp_all
qed

section \<open>Properties\<close>

text \<open>
  C27: the collector chain of a specimen is an ordered list that PUT replaces as a whole. The request succeeds
  exactly when the transaction does, the caller may edit the specimen, and the texts name, without repetition,
  stored collectors the caller may see; then the specimen's chain is the list asked for, at positions 1, 2, ..., every
  other chain and every other table is as before, references stay consistent, and the answer, like the next GET, lists
  those collectors in that order. In every other case the answer is an error and nothing has changed.
\<close>

theorem chain_put_refines_list:
  assumes "guard_ok (ce_guard env) enf shares" and "keys_ok d" and "fk_ok d"
  shows "case chain_put env u rawID raws d of
      (Inl _, d') \<Rightarrow> d' = d \<and> \<not> (ce_tx env = tx_up \<and> (\<exists>i cs. chain_allowed env u rawID raws d i cs))
    | (Inr vs, d') \<Rightarrow> \<exists>i cs. chain_allowed env u rawID raws d i cs \<and> chain_of d' = (chain_of d)(i := map co_ID cs) \<and>
        d'\<lparr>db_specimen_collectors := db_specimen_collectors d\<rparr> = d \<and> fk_ok d' \<and>
        vs = chain_views cs \<and> chain_get env u rawID d' = Inr vs"
proof (cases "ce_tx env = tx_up \<and> (\<exists>i cs. chain_allowed env u rawID raws d i cs)")
  case True
  then obtain i cs where ok: "chain_allowed env u rawID raws d i cs" by blast
  have "d = (set_chain i (map co_ID cs) d)\<lparr>db_specimen_collectors := db_specimen_collectors d\<rparr>" by (simp add: set_chain_def)
  then show ?thesis
    using chain_put_allowed [OF assms(1,2) _ ok] True chain_of_set_chain [of i "map co_ID cs" d] set_chain_keeps [OF ok assms(3)]
      chain_get_back [OF assms(1,2) ok] ok by auto
next
  case False
  then show ?thesis using chain_put_refused [OF assms(1,2), of u rawID raws] by (auto split: sum.splits prod.splits)
qed

definition sample_collector_env :: "nat collector_env" where
  "sample_collector_env = \<lparr>ce_guard = live_guard, ce_tc = plain_codec, ce_ilike = (\<lambda>s p. False), ce_tx = tx_up, ce_newID = 60, ce_now = 9\<rparr>"

definition sample_collector :: Collector where
  "sample_collector = \<lparr>co_ID = 40, co_Name = ''A. Finder'', co_Notes = None, co_AuthorID = 7, co_CreatedAt = 1, co_UpdatedAt = 1\<rparr>"

definition sample_chain :: database where
  "sample_chain = empty_database\<lparr>db_users := [User_zero\<lparr>us_ID := 7\<rparr>], db_collectors := [sample_collector],
     db_specimens := [Specimen_zero\<lparr>sp_ID := 20, sp_AuthorID := 7, sp_MainImageID := None\<rparr>]\<rparr>"

theorem chain_put_refines_list_witness:
  "chain_of (snd (chain_put sample_collector_env (auth_User_zero\<lparr>u_ID := 7\<rparr>) (uuid_hex 20) [uuid_hex 40] sample_chain)) 20 = [40]"
proof -
  let ?u = "auth_User_zero\<lparr>u_ID := 7\<rparr>" and ?put = "chain_put sample_collector_env (auth_User_zero\<lparr>u_ID := 7\<rparr>) (uuid_hex 20) [uuid_hex 40] sample_chain"
  have parse: "uuid_Parse (ce_tc sample_collector_env) (uuid_hex i) = Some i" for i
    using plain.uuid_back [of i] by (simp add: plain_codec_def sample_collector_env_def)
  have guard: "guard_ok (ce_guard sample_collector_env) (model_eval DefaultGroupings None DefaultPolicies) None"
    using live_guard_ok by (simp add: sample_collector_env_def)
  have keys: "keys_ok sample_chain" "fk_ok sample_chain"
    by (simp_all add: sample_chain_def keys_ok_def empty_database_def users_ok_def fk_ok_def refs_def main_image_refs_def sample_collector_def)
  have ok: "chain_allowed sample_collector_env ?u (uuid_hex 20) [uuid_hex 40] sample_chain i cs \<longleftrightarrow> i = 20 \<and> cs = [sample_collector]" for i cs
    by (auto simp: chain_allowed_def parse sample_chain_def sample_collector_def ownerScope_def isAnonymous_def auth_User_zero_def)
  have "ce_tx sample_collector_env = tx_up" by (simp add: sample_collector_env_def)
  then have "chain_of (snd ?put) = (chain_of sample_chain)(20 := map co_ID [sample_collector])"
    using chain_put_refines_list [OF guard keys, of ?u "uuid_hex 20" "[uuid_hex 40]"]
    unfolding ok by (auto split: prod.splits sum.splits)
  then show ?thesis by (simp add: sample_collector_def)
qed

end
