(* ===== verification/PortArchive.thy ===== *)
theory PortArchive
  imports Photos
begin

text \<open>
  The archive of an import: the record formats (\<open>src/internal/portability/format.go\<close>), the reader with its size
  limits (\<open>src/internal/portability/archive.go\<close>) and the errors it reports (\<open>src/internal/portability/report.go\<close>).
  The ZIP reader, SHA-256, quoting and the texts of library errors are arguments. An identifier of the archive is a
  text; a raw JSON member is carried as the value it denotes.
\<close>

section \<open>Records\<close>

definition SchemaVersion :: int where "SchemaVersion = 1"
definition Application :: string where "Application = ''minerals''"

definition ManifestPath :: string where "ManifestPath = ''manifest.json''"
definition CollectorsPath :: string where "CollectorsPath = ''data/collectors.jsonl''"
definition FilesPath :: string where "FilesPath = ''data/files.jsonl''"
definition SpecimensPath :: string where "SpecimensPath = ''data/specimens.jsonl''"
definition PhotosPath :: string where "PhotosPath = ''data/photos.jsonl''"
definition JournalEntriesPath :: string where "JournalEntriesPath = ''data/journal_entries.jsonl''"
definition QRSheetsPath :: string where "QRSheetsPath = ''data/qrsheets.jsonl''"
definition FileBinaryPrefix :: string where "FileBinaryPrefix = ''files/''"

record Counts =
  ct_Collectors :: int
  ct_Files :: int
  ct_Specimens :: int
  ct_Photos :: int
  ct_JournalEntries :: int
  ct_QRSheets :: int

record Manifest =
  mf_SchemaVersion :: int
  mf_Application :: string
  mf_ExportedAt :: time
  mf_ExportedBy :: string
  mf_Counts :: Counts

record CollectorRecord =
  cr_ID :: string
  cr_Name :: string
  cr_Notes :: "string option"
  cr_CreatedAt :: time
  cr_UpdatedAt :: time

record FileRecord =
  af_ID :: string
  af_Path :: string
  af_ContentType :: string
  af_ByteSize :: int
  af_SHA256 :: string
  af_UploadedAt :: time

record SpecimenRecord =
  sr_ID :: string
  sr_Type :: string
  sr_CatalogNumber :: "string option"
  sr_Name :: string
  sr_Description :: string
  sr_Visibility :: string
  sr_AcquiredAt :: "time option"
  sr_AcquiredFrom :: "string option"
  sr_PriceCents :: "int option"
  sr_SourceNotes :: "string option"
  sr_LocalityText :: "string option"
  sr_Locality :: "json option"
  sr_MassG :: "float64 option"
  sr_Dimensions :: "json option"
  sr_TypeData :: "json option"
  sr_MainImageFileID :: "string option"
  sr_VisibilityPrice :: "string option"
  sr_VisibilityAcquiredFrom :: "string option"
  sr_VisibilityImages :: "string option"
  sr_Tagged :: bool
  sr_CreatedAt :: time
  sr_UpdatedAt :: time
  sr_CollectorIDs :: "string list"

record PhotoRecord =
  pr_ID :: string
  pr_SpecimenID :: string
  pr_FileID :: string
  pr_Kind :: string
  pr_TakenAt :: "time option"
  pr_Position :: int
  pr_Visibility :: "string option"
  pr_CreatedAt :: time

record JournalAttachment =
  ja_FileID :: string
  ja_Position :: int
  ja_CreatedAt :: time

record JournalEntryRecord =
  jr_ID :: string
  jr_SpecimenID :: string
  jr_BodyMD :: string
  jr_CreatedAt :: time
  jr_UpdatedAt :: time
  jr_Attachments :: "JournalAttachment list"

record QRSheetSpecimen =
  qm_SpecimenID :: string
  qm_Position :: int
  qm_AddedAt :: time

record QRSheetRecord =
  qc_ID :: string
  qc_Template :: string
  qc_CreatedAt :: time
  qc_UpdatedAt :: time
  qc_Specimens :: "QRSheetSpecimen list"

section \<open>Decoding with unknown fields refused\<close>

definition known_members :: "string list \<Rightarrow> (string \<times> json) list \<Rightarrow> bool" where
  "known_members names kvs \<longleftrightarrow> list_all (\<lambda>kv. list_ex (\<lambda>n. name_matches n (fst kv)) names) kvs"

text \<open>A struct as a value: \<open>null\<close> leaves it as it is.\<close>

definition dec_strict :: "string list \<Rightarrow> ('a \<Rightarrow> (string \<times> json) list \<Rightarrow> 'a option) \<Rightarrow> 'a \<Rightarrow> json \<Rightarrow> 'a option" where
  "dec_strict names dec x v =
     (case v of JNull \<Rightarrow> Some x | JObj kvs \<Rightarrow> if known_members names kvs then dec x kvs else None | _ \<Rightarrow> None)"

definition dec_raw :: "json option \<Rightarrow> json \<Rightarrow> json option option" where
  "dec_raw x v = Some (Some v)"

abbreviation dec_int :: "int \<Rightarrow> json \<Rightarrow> int option" where
  "dec_int \<equiv> dec_number ParseInt"

abbreviation dec_time :: "value_codec \<Rightarrow> time \<Rightarrow> json \<Rightarrow> time option" where
  "dec_time vc \<equiv> dec_text (\<lambda>s. map_option fst (vt_Parse vc s))"

definition Counts_zero :: Counts where
  "Counts_zero = \<lparr>ct_Collectors = 0, ct_Files = 0, ct_Specimens = 0, ct_Photos = 0, ct_JournalEntries = 0, ct_QRSheets = 0\<rparr>"

definition Counts_names :: "string list" where
  "Counts_names = [''collectors'', ''files'', ''specimens'', ''photos'', ''journal_entries'', ''qrsheets'']"

definition decode_Counts :: "Counts \<Rightarrow> (string \<times> json) list \<Rightarrow> Counts option" where
  "decode_Counts x kvs = do {
     collectors \<leftarrow> decode_field dec_int (ct_Collectors x) ''collectors'' kvs;
     files \<leftarrow> decode_field dec_int (ct_Files x) ''files'' kvs;
     specimens \<leftarrow> decode_field dec_int (ct_Specimens x) ''specimens'' kvs;
     photos \<leftarrow> decode_field dec_int (ct_Photos x) ''photos'' kvs;
     journal \<leftarrow> decode_field dec_int (ct_JournalEntries x) ''journal_entries'' kvs;
     sheets \<leftarrow> decode_field dec_int (ct_QRSheets x) ''qrsheets'' kvs;
     Some \<lparr>ct_Collectors = collectors, ct_Files = files, ct_Specimens = specimens, ct_Photos = photos,
       ct_JournalEntries = journal, ct_QRSheets = sheets\<rparr>
   }"

definition Manifest_zero :: Manifest where
  "Manifest_zero = \<lparr>mf_SchemaVersion = 0, mf_Application = [], mf_ExportedAt = time_zero, mf_ExportedBy = [], mf_Counts = Counts_zero\<rparr>"

definition Manifest_names :: "string list" where
  "Manifest_names = [''schema_version'', ''application'', ''exported_at'', ''exported_by'', ''counts'']"

definition decode_Manifest :: "value_codec \<Rightarrow> Manifest \<Rightarrow> (string \<times> json) list \<Rightarrow> Manifest option" where
  "decode_Manifest vc x kvs = do {
     version \<leftarrow> decode_field dec_int (mf_SchemaVersion x) ''schema_version'' kvs;
     app \<leftarrow> decode_field dec_string (mf_Application x) ''application'' kvs;
     exportedAt \<leftarrow> decode_field (dec_time vc) (mf_ExportedAt x) ''exported_at'' kvs;
     exportedBy \<leftarrow> decode_field dec_string (mf_ExportedBy x) ''exported_by'' kvs;
     counts \<leftarrow> decode_field (dec_strict Counts_names decode_Counts) (mf_Counts x) ''counts'' kvs;
     Some \<lparr>mf_SchemaVersion = version, mf_Application = app, mf_ExportedAt = exportedAt, mf_ExportedBy = exportedBy, mf_Counts = counts\<rparr>
   }"

definition CollectorRecord_zero :: CollectorRecord where
  "CollectorRecord_zero = \<lparr>cr_ID = [], cr_Name = [], cr_Notes = None, cr_CreatedAt = time_zero, cr_UpdatedAt = time_zero\<rparr>"

definition CollectorRecord_names :: "string list" where
  "CollectorRecord_names = [''id'', ''name'', ''notes'', ''created_at'', ''updated_at'']"

definition decode_CollectorRecord :: "value_codec \<Rightarrow> CollectorRecord \<Rightarrow> (string \<times> json) list \<Rightarrow> CollectorRecord option" where
  "decode_CollectorRecord vc x kvs = do {
     i \<leftarrow> decode_field dec_string (cr_ID x) ''id'' kvs;
     name \<leftarrow> decode_field dec_string (cr_Name x) ''name'' kvs;
     nts \<leftarrow> decode_field ptr_string (cr_Notes x) ''notes'' kvs;
     created \<leftarrow> decode_field (dec_time vc) (cr_CreatedAt x) ''created_at'' kvs;
     updated \<leftarrow> decode_field (dec_time vc) (cr_UpdatedAt x) ''updated_at'' kvs;
     Some \<lparr>cr_ID = i, cr_Name = name, cr_Notes = nts, cr_CreatedAt = created, cr_UpdatedAt = updated\<rparr>
   }"

definition FileRecord_zero :: FileRecord where
  "FileRecord_zero = \<lparr>af_ID = [], af_Path = [], af_ContentType = [], af_ByteSize = 0, af_SHA256 = [], af_UploadedAt = time_zero\<rparr>"

definition FileRecord_names :: "string list" where
  "FileRecord_names = [''id'', ''path'', ''content_type'', ''byte_size'', ''sha256'', ''uploaded_at'']"

definition decode_FileRecord :: "value_codec \<Rightarrow> FileRecord \<Rightarrow> (string \<times> json) list \<Rightarrow> FileRecord option" where
  "decode_FileRecord vc x kvs = do {
     i \<leftarrow> decode_field dec_string (af_ID x) ''id'' kvs;
     path \<leftarrow> decode_field dec_string (af_Path x) ''path'' kvs;
     ct \<leftarrow> decode_field dec_string (af_ContentType x) ''content_type'' kvs;
     size' \<leftarrow> decode_field dec_int (af_ByteSize x) ''byte_size'' kvs;
     sha \<leftarrow> decode_field dec_string (af_SHA256 x) ''sha256'' kvs;
     uploaded \<leftarrow> decode_field (dec_time vc) (af_UploadedAt x) ''uploaded_at'' kvs;
     Some \<lparr>af_ID = i, af_Path = path, af_ContentType = ct, af_ByteSize = size', af_SHA256 = sha, af_UploadedAt = uploaded\<rparr>
   }"

definition SpecimenRecord_zero :: SpecimenRecord where
  "SpecimenRecord_zero =
     \<lparr>sr_ID = [], sr_Type = [], sr_CatalogNumber = None, sr_Name = [], sr_Description = [], sr_Visibility = [], sr_AcquiredAt = None,
      sr_AcquiredFrom = None, sr_PriceCents = None, sr_SourceNotes = None, sr_LocalityText = None, sr_Locality = None, sr_MassG = None,
      sr_Dimensions = None, sr_TypeData = None, sr_MainImageFileID = None, sr_VisibilityPrice = None, sr_VisibilityAcquiredFrom = None,
      sr_VisibilityImages = None, sr_Tagged = False, sr_CreatedAt = time_zero, sr_UpdatedAt = time_zero, sr_CollectorIDs = []\<rparr>"

definition SpecimenRecord_names :: "string list" where
  "SpecimenRecord_names =
     [''id'', ''type'', ''catalog_number'', ''name'', ''description'', ''visibility'', ''acquired_at'', ''acquired_from'', ''price_cents'',
      ''source_notes'', ''locality_text'', ''locality'', ''mass_g'', ''dimensions'', ''type_data'', ''main_image_file_id'',
      ''visibility_price'', ''visibility_acquired_from'', ''visibility_images'', ''tagged'', ''created_at'', ''updated_at'', ''collector_ids'']"

definition decode_SpecimenRecord :: "value_codec \<Rightarrow> SpecimenRecord \<Rightarrow> (string \<times> json) list \<Rightarrow> SpecimenRecord option" where
  "decode_SpecimenRecord vc x kvs = do {
     i \<leftarrow> decode_field dec_string (sr_ID x) ''id'' kvs;
     t \<leftarrow> decode_field dec_string (sr_Type x) ''type'' kvs;
     catalog \<leftarrow> decode_field ptr_string (sr_CatalogNumber x) ''catalog_number'' kvs;
     name \<leftarrow> decode_field dec_string (sr_Name x) ''name'' kvs;
     description \<leftarrow> decode_field dec_string (sr_Description x) ''description'' kvs;
     visibility \<leftarrow> decode_field dec_string (sr_Visibility x) ''visibility'' kvs;
     acquiredAt \<leftarrow> decode_field (dec_pointer time_zero (dec_time vc)) (sr_AcquiredAt x) ''acquired_at'' kvs;
     acquiredFrom \<leftarrow> decode_field ptr_string (sr_AcquiredFrom x) ''acquired_from'' kvs;
     price \<leftarrow> decode_field (dec_pointer 0 dec_int) (sr_PriceCents x) ''price_cents'' kvs;
     source \<leftarrow> decode_field ptr_string (sr_SourceNotes x) ''source_notes'' kvs;
     localityText \<leftarrow> decode_field ptr_string (sr_LocalityText x) ''locality_text'' kvs;
     locality \<leftarrow> decode_field dec_raw (sr_Locality x) ''locality'' kvs;
     mass \<leftarrow> decode_field (ptr_float vc) (sr_MassG x) ''mass_g'' kvs;
     dimensions \<leftarrow> decode_field dec_raw (sr_Dimensions x) ''dimensions'' kvs;
     typeData \<leftarrow> decode_field dec_raw (sr_TypeData x) ''type_data'' kvs;
     mainImage \<leftarrow> decode_field ptr_string (sr_MainImageFileID x) ''main_image_file_id'' kvs;
     vp \<leftarrow> decode_field ptr_string (sr_VisibilityPrice x) ''visibility_price'' kvs;
     va \<leftarrow> decode_field ptr_string (sr_VisibilityAcquiredFrom x) ''visibility_acquired_from'' kvs;
     vi \<leftarrow> decode_field ptr_string (sr_VisibilityImages x) ''visibility_images'' kvs;
     tagged \<leftarrow> decode_field dec_bool (sr_Tagged x) ''tagged'' kvs;
     created \<leftarrow> decode_field (dec_time vc) (sr_CreatedAt x) ''created_at'' kvs;
     updated \<leftarrow> decode_field (dec_time vc) (sr_UpdatedAt x) ''updated_at'' kvs;
     collectors \<leftarrow> decode_field strings (sr_CollectorIDs x) ''collector_ids'' kvs;
     Some \<lparr>sr_ID = i, sr_Type = t, sr_CatalogNumber = catalog, sr_Name = name, sr_Description = description, sr_Visibility = visibility,
       sr_AcquiredAt = acquiredAt, sr_AcquiredFrom = acquiredFrom, sr_PriceCents = price, sr_SourceNotes = source,
       sr_LocalityText = localityText, sr_Locality = locality, sr_MassG = mass, sr_Dimensions = dimensions, sr_TypeData = typeData,
       sr_MainImageFileID = mainImage, sr_VisibilityPrice = vp, sr_VisibilityAcquiredFrom = va, sr_VisibilityImages = vi,
       sr_Tagged = tagged, sr_CreatedAt = created, sr_UpdatedAt = updated, sr_CollectorIDs = collectors\<rparr>
   }"

definition PhotoRecord_zero :: PhotoRecord where
  "PhotoRecord_zero = \<lparr>pr_ID = [], pr_SpecimenID = [], pr_FileID = [], pr_Kind = [], pr_TakenAt = None, pr_Position = 0,
     pr_Visibility = None, pr_CreatedAt = time_zero\<rparr>"

definition PhotoRecord_names :: "string list" where
  "PhotoRecord_names = [''id'', ''specimen_id'', ''file_id'', ''kind'', ''taken_at'', ''position'', ''visibility'', ''created_at'']"

definition decode_PhotoRecord :: "value_codec \<Rightarrow> PhotoRecord \<Rightarrow> (string \<times> json) list \<Rightarrow> PhotoRecord option" where
  "decode_PhotoRecord vc x kvs = do {
     i \<leftarrow> decode_field dec_string (pr_ID x) ''id'' kvs;
     sid \<leftarrow> decode_field dec_string (pr_SpecimenID x) ''specimen_id'' kvs;
     fid \<leftarrow> decode_field dec_string (pr_FileID x) ''file_id'' kvs;
     kind \<leftarrow> decode_field dec_string (pr_Kind x) ''kind'' kvs;
     taken \<leftarrow> decode_field (dec_pointer time_zero (dec_time vc)) (pr_TakenAt x) ''taken_at'' kvs;
     pos \<leftarrow> decode_field dec_int (pr_Position x) ''position'' kvs;
     visibility \<leftarrow> decode_field ptr_string (pr_Visibility x) ''visibility'' kvs;
     created \<leftarrow> decode_field (dec_time vc) (pr_CreatedAt x) ''created_at'' kvs;
     Some \<lparr>pr_ID = i, pr_SpecimenID = sid, pr_FileID = fid, pr_Kind = kind, pr_TakenAt = taken, pr_Position = pos,
       pr_Visibility = visibility, pr_CreatedAt = created\<rparr>
   }"

definition JournalAttachment_zero :: JournalAttachment where
  "JournalAttachment_zero = \<lparr>ja_FileID = [], ja_Position = 0, ja_CreatedAt = time_zero\<rparr>"

definition JournalAttachment_names :: "string list" where
  "JournalAttachment_names = [''file_id'', ''position'', ''created_at'']"

definition decode_JournalAttachment :: "value_codec \<Rightarrow> JournalAttachment \<Rightarrow> (string \<times> json) list \<Rightarrow> JournalAttachment option" where
  "decode_JournalAttachment vc x kvs = do {
     fid \<leftarrow> decode_field dec_string (ja_FileID x) ''file_id'' kvs;
     pos \<leftarrow> decode_field dec_int (ja_Position x) ''position'' kvs;
     created \<leftarrow> decode_field (dec_time vc) (ja_CreatedAt x) ''created_at'' kvs;
     Some \<lparr>ja_FileID = fid, ja_Position = pos, ja_CreatedAt = created\<rparr>
   }"

definition JournalEntryRecord_zero :: JournalEntryRecord where
  "JournalEntryRecord_zero = \<lparr>jr_ID = [], jr_SpecimenID = [], jr_BodyMD = [], jr_CreatedAt = time_zero, jr_UpdatedAt = time_zero, jr_Attachments = []\<rparr>"

definition JournalEntryRecord_names :: "string list" where
  "JournalEntryRecord_names = [''id'', ''specimen_id'', ''body_md'', ''created_at'', ''updated_at'', ''attachments'']"

definition decode_JournalEntryRecord :: "value_codec \<Rightarrow> JournalEntryRecord \<Rightarrow> (string \<times> json) list \<Rightarrow> JournalEntryRecord option" where
  "decode_JournalEntryRecord vc x kvs = do {
     i \<leftarrow> decode_field dec_string (jr_ID x) ''id'' kvs;
     sid \<leftarrow> decode_field dec_string (jr_SpecimenID x) ''specimen_id'' kvs;
     body \<leftarrow> decode_field dec_string (jr_BodyMD x) ''body_md'' kvs;
     created \<leftarrow> decode_field (dec_time vc) (jr_CreatedAt x) ''created_at'' kvs;
     updated \<leftarrow> decode_field (dec_time vc) (jr_UpdatedAt x) ''updated_at'' kvs;
     attachments \<leftarrow> decode_field (dec_slice JournalAttachment_zero (dec_strict JournalAttachment_names (decode_JournalAttachment vc)))
       (jr_Attachments x) ''attachments'' kvs;
     Some \<lparr>jr_ID = i, jr_SpecimenID = sid, jr_BodyMD = body, jr_CreatedAt = created, jr_UpdatedAt = updated, jr_Attachments = attachments\<rparr>
   }"

definition QRSheetSpecimen_zero :: QRSheetSpecimen where
  "QRSheetSpecimen_zero = \<lparr>qm_SpecimenID = [], qm_Position = 0, qm_AddedAt = time_zero\<rparr>"

definition QRSheetSpecimen_names :: "string list" where
  "QRSheetSpecimen_names = [''specimen_id'', ''position'', ''added_at'']"

definition decode_QRSheetSpecimen :: "value_codec \<Rightarrow> QRSheetSpecimen \<Rightarrow> (string \<times> json) list \<Rightarrow> QRSheetSpecimen option" where
  "decode_QRSheetSpecimen vc x kvs = do {
     sid \<leftarrow> decode_field dec_string (qm_SpecimenID x) ''specimen_id'' kvs;
     pos \<leftarrow> decode_field dec_int (qm_Position x) ''position'' kvs;
     added \<leftarrow> decode_field (dec_time vc) (qm_AddedAt x) ''added_at'' kvs;
     Some \<lparr>qm_SpecimenID = sid, qm_Position = pos, qm_AddedAt = added\<rparr>
   }"

definition QRSheetRecord_zero :: QRSheetRecord where
  "QRSheetRecord_zero = \<lparr>qc_ID = [], qc_Template = [], qc_CreatedAt = time_zero, qc_UpdatedAt = time_zero, qc_Specimens = []\<rparr>"

definition QRSheetRecord_names :: "string list" where
  "QRSheetRecord_names = [''id'', ''template'', ''created_at'', ''updated_at'', ''specimens'']"

definition decode_QRSheetRecord :: "value_codec \<Rightarrow> QRSheetRecord \<Rightarrow> (string \<times> json) list \<Rightarrow> QRSheetRecord option" where
  "decode_QRSheetRecord vc x kvs = do {
     i \<leftarrow> decode_field dec_string (qc_ID x) ''id'' kvs;
     template \<leftarrow> decode_field dec_string (qc_Template x) ''template'' kvs;
     created \<leftarrow> decode_field (dec_time vc) (qc_CreatedAt x) ''created_at'' kvs;
     updated \<leftarrow> decode_field (dec_time vc) (qc_UpdatedAt x) ''updated_at'' kvs;
     specimens \<leftarrow> decode_field (dec_slice QRSheetSpecimen_zero (dec_strict QRSheetSpecimen_names (decode_QRSheetSpecimen vc)))
       (qc_Specimens x) ''specimens'' kvs;
     Some \<lparr>qc_ID = i, qc_Template = template, qc_CreatedAt = created, qc_UpdatedAt = updated, qc_Specimens = specimens\<rparr>
   }"

section \<open>The reader\<close>

definition CodeMalformedArchive :: string where "CodeMalformedArchive = ''malformed_archive''"
definition CodeIncompatibleSchema :: string where "CodeIncompatibleSchema = ''incompatible_schema_version''"
definition CodeIntegrity :: string where "CodeIntegrity = ''integrity_check_failed''"
definition CodeReference :: string where "CodeReference = ''broken_reference''"
definition CodeInvalidRecord :: string where "CodeInvalidRecord = ''invalid_record''"

record ValidationError =
  ve_Code :: string
  ve_Message :: string
  ve_Details :: "string list"

definition malformed :: "string \<Rightarrow> ValidationError" where
  "malformed msg = \<lparr>ve_Code = CodeMalformedArchive, ve_Message = msg, ve_Details = []\<rparr>"

definition integrity :: "string \<Rightarrow> ValidationError" where
  "integrity msg = \<lparr>ve_Code = CodeIntegrity, ve_Message = msg, ve_Details = []\<rparr>"

definition maxEntryBytes :: nat where "maxEntryBytes = 256 * 2 ^ 20"
definition maxTotalUncompressedBytes :: nat where "maxTotalUncompressedBytes = 8 * 2 ^ 30"
definition maxJSONLineBytes :: nat where "maxJSONLineBytes = 4 * 2 ^ 20"

text \<open>
  An entry of the container: the error of opening it, if any, the bytes it inflates to, and the error, if any, that
  ends them instead of the end of file.
\<close>

record zip_entry =
  ze_Name :: string
  ze_OpenErr :: "string option"
  ze_Data :: bytes
  ze_ReadErr :: "string option"

record archive_env =
  av_zip :: "bytes \<Rightarrow> zip_entry list option"
  av_vc :: value_codec
  av_sha256 :: "bytes \<Rightarrow> string"
  av_json_error :: "string \<Rightarrow> string"

record Archive =
  ar_files :: "string \<rightharpoonup> zip_entry"
  ar_manifest :: Manifest
  ar_inflated :: nat

definition text_of :: "bytes \<Rightarrow> string" where
  "text_of bs = map (\<lambda>b. char_of (unat b)) bs"

text \<open>The bytes of a text.\<close>

definition bytes_of :: "string \<Rightarrow> bytes" where
  "bytes_of s = map (\<lambda>c. word_of_nat (of_char c)) s"

lemma text_of_bytes_of [simp]: "text_of (bytes_of s) = s"
proof -
  have "char_of (unat (word_of_nat (of_char c :: nat) :: 8 word)) = c" for c :: char
    using nat_of_char_less_256 [of c] by (simp add: unat_of_nat del: nat_of_char_less_256)
  then show ?thesis by (simp add: text_of_def bytes_of_def comp_def)
qed

lemma length_bytes_of [simp]: "length (bytes_of s) = length s"
  by (simp add: bytes_of_def)

definition HasEntry :: "Archive \<Rightarrow> string \<Rightarrow> bool" where
  "HasEntry a name \<longleftrightarrow> name \<in> dom (ar_files a)"

text \<open>Reading through a limit of \<open>n\<close> bytes: what lies beyond is not seen, and neither is an error there.\<close>

definition read_limited :: "nat \<Rightarrow> zip_entry \<Rightarrow> string option \<times> bytes" where
  "read_limited n f = (if n \<le> length (ze_Data f) then None else ze_ReadErr f, take n (ze_Data f))"

definition readEntryUncounted :: "value_codec \<Rightarrow> zip_entry \<Rightarrow> string + bytes" where
  "readEntryUncounted vc f =
     (case ze_OpenErr f of
        Some e \<Rightarrow> Inl e
      | None \<Rightarrow>
          (case read_limited (maxEntryBytes + 1) f of
             (Some e, _) \<Rightarrow> Inl e
           | (None, data) \<Rightarrow>
               if length data > maxEntryBytes
               then Inl (''entry '' @ vq_Quote vc (ze_Name f) @ '' exceeds the '' @ decimal maxEntryBytes @ ''-byte limit'')
               else Inr data))"

definition addInflated :: "nat \<Rightarrow> Archive \<Rightarrow> bool \<times> Archive" where
  "addInflated n a = (ar_inflated a + n > maxTotalUncompressedBytes, a\<lparr>ar_inflated := ar_inflated a + n\<rparr>)"

definition readWhole :: "value_codec \<Rightarrow> zip_entry \<Rightarrow> Archive \<Rightarrow> (string + bytes) \<times> Archive" where
  "readWhole vc f a =
     (case readEntryUncounted vc f of
        Inl e \<Rightarrow> (Inl e, a)
      | Inr data \<Rightarrow>
          (case addInflated (length data) a of
             (True, a') \<Rightarrow> (Inl (''archive exceeds the '' @ decimal maxTotalUncompressedBytes @ ''-byte total uncompressed limit''), a')
           | (False, a') \<Rightarrow> (Inr data, a')))"

text \<open>The first value of a text, as a streaming decoder takes it: what follows is not read.\<close>

definition json_first :: "string \<Rightarrow> json option" where
  "json_first s = map_option fst (parse_val (Suc (2 * length s)) s)"

definition decode_record :: "string list \<Rightarrow> ('a \<Rightarrow> (string \<times> json) list \<Rightarrow> 'a option) \<Rightarrow> 'a \<Rightarrow> string \<Rightarrow> 'a option" where
  "decode_record names dec zero s = (case json_first s of None \<Rightarrow> None | Some v \<Rightarrow> dec_strict names dec zero v)"

definition OpenArchive :: "archive_env \<Rightarrow> bytes \<Rightarrow> ValidationError + Archive" where
  "OpenArchive env raw =
     (case av_zip env raw of
        None \<Rightarrow> Inl (malformed ''the upload is not a valid ZIP archive'')
      | Some entries \<Rightarrow>
          let a = \<lparr>ar_files = map_of (rev (map (\<lambda>f. (ze_Name f, f)) entries)), ar_manifest = Manifest_zero, ar_inflated = 0\<rparr> in
          (case ar_files a ManifestPath of
             None \<Rightarrow> Inl (malformed ''archive is missing manifest.json'')
           | Some mf \<Rightarrow>
               (case readWhole (av_vc env) mf a of
                  (Inl e, _) \<Rightarrow> Inl (malformed (''could not read manifest.json: '' @ e))
                | (Inr data, a') \<Rightarrow>
                    (case decode_record Manifest_names (decode_Manifest (av_vc env)) Manifest_zero (text_of data) of
                       None \<Rightarrow> Inl (malformed (''manifest.json is not valid: '' @ av_json_error env (text_of data)))
                     | Some m \<Rightarrow> Inr (a'\<lparr>ar_manifest := m\<rparr>)))))"

definition OpenFileBinary :: "archive_env \<Rightarrow> string \<Rightarrow> string \<Rightarrow> int \<Rightarrow> Archive \<Rightarrow> (ValidationError + bytes) \<times> Archive" where
  "OpenFileBinary env path wantSHA256 wantSize a =
     (let q = vq_Quote (av_vc env) path in
      case ar_files a path of
        None \<Rightarrow> (Inl (integrity (''file binary '' @ q @ '' referenced by the manifest is missing from the archive'')), a)
      | Some f \<Rightarrow>
          (case readWhole (av_vc env) f a of
             (Inl e, a') \<Rightarrow> (Inl (integrity (''could not read file binary '' @ q @ '': '' @ e)), a')
           | (Inr data, a') \<Rightarrow>
               (if int (length data) \<noteq> wantSize then
                  Inl (integrity (''file binary '' @ q @ '' is '' @ decimal (length data) @ '' bytes, manifest declares '' @ FormatInt wantSize))
                else if av_sha256 env data \<noteq> wantSHA256 then
                  Inl (integrity (''file binary '' @ q @ '' hash '' @ av_sha256 env data @ '' does not match manifest '' @ wantSHA256))
                else Inr data, a')))"

definition RawFile :: "archive_env \<Rightarrow> string \<Rightarrow> Archive \<Rightarrow> string + bytes" where
  "RawFile env path a =
     (case ar_files a path of
        None \<Rightarrow> Inl (''file binary '' @ vq_Quote (av_vc env) path @ '' not found'')
      | Some f \<Rightarrow> readEntryUncounted (av_vc env) f)"

text \<open>The lines of a scanner: without the newline and a carriage return before it, no empty line after the last newline.\<close>

definition jsonl_lines :: "string \<Rightarrow> string list" where
  "jsonl_lines s = (let ps = split_on (CHR 0x0A) s in if last ps = [] then butlast ps else ps)"

definition drop_cr :: "string \<Rightarrow> string" where
  "drop_cr b = (if b \<noteq> [] \<and> last b = CHR 0x0D then butlast b else b)"

fun decode_lines ::
  "archive_env \<Rightarrow> string \<Rightarrow> (string \<Rightarrow> 'a option) \<Rightarrow> nat \<Rightarrow> nat \<Rightarrow> string list \<Rightarrow> ValidationError + nat \<times> 'a list" where
  "decode_lines env path dec read line [] = Inr (read, [])"
| "decode_lines env path dec read line (l # ls) =
     (let b = drop_cr l; read' = read + length b + 1; line' = line + 1 in
      if length l \<ge> maxJSONLineBytes
      then Inl (malformed (''could not read '' @ vq_Quote (av_vc env) path @ '': bufio.Scanner: token too long''))
      else if read' > maxEntryBytes then Inl (malformed (vq_Quote (av_vc env) path @ '' exceeds the per-entry size limit''))
      else if trimSpace b = [] then decode_lines env path dec read' line' ls
      else (case dec b of
          None \<Rightarrow> Inl (malformed (path @ '' line '' @ decimal line' @ '' is not a valid record: '' @ av_json_error env b))
        | Some rec \<Rightarrow> sum_bind (decode_lines env path dec read' line' ls) (\<lambda>(n, recs). Inr (n, rec # recs))))"

definition decodeJSONL :: "archive_env \<Rightarrow> (string \<Rightarrow> 'a option) \<Rightarrow> string \<Rightarrow> Archive \<Rightarrow> ValidationError + 'a list \<times> Archive" where
  "decodeJSONL env dec path a =
     (case ar_files a path of
        None \<Rightarrow> Inr ([], a)
      | Some f \<Rightarrow>
          sum_bind (case ze_OpenErr f of None \<Rightarrow> Inr () | Some e \<Rightarrow> Inl (malformed (''could not open '' @ vq_Quote (av_vc env) path @ '': '' @ e))) (\<lambda>_.
          case read_limited (maxEntryBytes + 1) f of
            (err, data) \<Rightarrow>
              sum_bind (decode_lines env path dec 0 0 (jsonl_lines (text_of data))) (\<lambda>(read, recs).
              sum_bind (case err of None \<Rightarrow> Inr () | Some e \<Rightarrow> Inl (malformed (''could not read '' @ vq_Quote (av_vc env) path @ '': '' @ e))) (\<lambda>_.
              case addInflated read a of
                (True, _) \<Rightarrow> Inl (malformed ''archive exceeds the total uncompressed limit'')
              | (False, a') \<Rightarrow> Inr (recs, a')))))"

section \<open>Bounds\<close>

text \<open>What has been inflated when reading goes on never exceeds the total, and no single read exceeds its limit.\<close>

lemma readEntryUncounted_bound: "readEntryUncounted vc f = Inr data \<Longrightarrow> length data \<le> maxEntryBytes"
  by (auto simp: readEntryUncounted_def read_limited_def split: option.splits if_splits)

lemma readWhole_bound:
  "readWhole vc f a = (Inr data, a') \<Longrightarrow>
     length data \<le> maxEntryBytes \<and> ar_inflated a' = ar_inflated a + length data \<and> ar_inflated a' \<le> maxTotalUncompressedBytes \<and>
     ar_files a' = ar_files a"
  using readEntryUncounted_bound [of vc f data]
  by (auto simp: readWhole_def addInflated_def split: sum.splits prod.splits bool.splits)

lemma decode_lines_read: "decode_lines env path dec r n ls = Inr (r', recs) \<Longrightarrow> r \<le> r' \<and> (r \<le> maxEntryBytes \<longrightarrow> r' \<le> maxEntryBytes)"
proof (induction ls arbitrary: r n recs)
  case (Cons l ls)
  show ?case
  proof (cases "trimSpace (drop_cr l) = []")
    case True
    then show ?thesis using Cons.prems Cons.IH [of "r + length (drop_cr l) + 1" "n + 1" recs] by (auto simp: Let_def split: if_splits)
  next
    case False
    then obtain rec recs' where "decode_lines env path dec (r + length (drop_cr l) + 1) (n + 1) ls = Inr (r', recs')"
      "r + length (drop_cr l) + 1 \<le> maxEntryBytes"
      using Cons.prems by (auto simp: Let_def sum_bind_Inr split: if_splits option.splits)
    then show ?thesis using Cons.IH by fastforce
  qed
qed simp

lemma decodeJSONL_bound:
  assumes "decodeJSONL env dec path a = Inr (recs, a')" and "ar_inflated a \<le> maxTotalUncompressedBytes"
  shows "ar_files a' = ar_files a \<and> ar_manifest a' = ar_manifest a \<and> ar_inflated a \<le> ar_inflated a' \<and> ar_inflated a' \<le> maxTotalUncompressedBytes"
  using assms by (auto simp: decodeJSONL_def addInflated_def sum_bind_Inr split: option.splits prod.splits bool.splits)

lemma OpenFileBinary_ok:
  assumes "OpenFileBinary env path sha n a = (Inr data, a')"
  shows "RawFile env path a = Inr data \<and> int (length data) = n \<and> av_sha256 env data = sha \<and> ar_files a' = ar_files a \<and>
    ar_inflated a' \<le> maxTotalUncompressedBytes"
proof -
  obtain f where f: "ar_files a path = Some f" "readWhole (av_vc env) f a = (Inr data, a')"
    and ok: "int (length data) = n" "av_sha256 env data = sha"
    using assms by (auto simp: OpenFileBinary_def Let_def split: option.splits sum.splits prod.splits if_splits)
  then have "readEntryUncounted (av_vc env) f = Inr data"
    by (auto simp: readWhole_def addInflated_def split: sum.splits prod.splits bool.splits)
  then show ?thesis using readWhole_bound [OF f(2)] f(1) ok by (simp add: RawFile_def)
qed

end
