(* ===== verification/ImportEngine.thy ===== *)
theory ImportEngine
  imports PortArchive Collectors QRSheets Journal
begin

text \<open>
  The import of an archive (\<open>src/internal/portability/import.go\<close>, \<open>src/internal/api/import.go\<close>): validation without a
  write, then one transaction that creates every record as a row of the caller under a new identifier, then the
  upload of the binaries. New identifiers come from a sequence; the order in which Go ranges over a map of three
  labels is an argument.
\<close>

section \<open>Problems\<close>

definition maxReportedDetails :: nat where "maxReportedDetails = 50"

record detailSet =
  ds_items :: "string list"
  ds_dropped :: nat

definition ds_new :: detailSet where "ds_new = \<lparr>ds_items = [], ds_dropped = 0\<rparr>"

definition ds_add :: "string \<Rightarrow> detailSet \<Rightarrow> detailSet" where
  "ds_add s ds =
     (if length (ds_items ds) < maxReportedDetails then ds\<lparr>ds_items := ds_items ds @ [s]\<rparr>
      else ds\<lparr>ds_dropped := Suc (ds_dropped ds)\<rparr>)"

definition ds_empty :: "detailSet \<Rightarrow> bool" where
  "ds_empty ds \<longleftrightarrow> ds_items ds = [] \<and> ds_dropped ds = 0"

definition ds_list :: "detailSet \<Rightarrow> string list" where
  "ds_list ds =
     (if ds_dropped ds = 0 then ds_items ds
      else ds_items ds @ [[CHR 0xE2, CHR 0x80, CHR 0xA6] @ '' and '' @ decimal (ds_dropped ds) @ '' more''])"

definition details :: "string list \<Rightarrow> detailSet" where
  "details msgs = fold ds_add msgs ds_new"

section \<open>The engine\<close>

record 'img import_env =
  ie_ar :: archive_env
  ie_uuid_Parse :: "string \<Rightarrow> uuid option"
  ie_str :: "uuid \<Rightarrow> string"
  ie_newID :: "nat \<Rightarrow> uuid"
  ie_tx :: tx_env
  ie_storage :: "faults option"
  ie_il :: "'img image_lib"
  ie_CatalogNumbers :: "(database \<Rightarrow> uuid \<Rightarrow> repo_error + string list) option"
  ie_labels :: "string list"

abbreviation ie_vc :: "'img import_env \<Rightarrow> value_codec" where
  "ie_vc env \<equiv> av_vc (ie_ar env)"

record Conflict =
  cf_Kind :: string
  cf_SpecimenID :: string
  cf_Detail :: string

record parsed =
  p_archive :: Archive
  p_collectors :: "CollectorRecord list"
  p_files :: "FileRecord list"
  p_specimens :: "SpecimenRecord list"
  p_photos :: "PhotoRecord list"
  p_journal :: "JournalEntryRecord list"
  p_qrsheets :: "QRSheetRecord list"
  p_resolvedCat :: "string \<Rightarrow> string option"
  p_skipQRSheet :: bool
  p_conflicts :: "Conflict list"
  p_warnings :: "string list"

definition validUUID :: "'img import_env \<Rightarrow> string \<Rightarrow> bool" where
  "validUUID env s \<longleftrightarrow> ie_uuid_Parse env s \<noteq> None \<and> s \<noteq> ie_str env uuid_Nil"

definition import_validVisibility :: "string \<Rightarrow> bool" where
  "import_validVisibility v \<longleftrightarrow> v = VisibilityPrivate \<or> v = VisibilityUnlisted \<or> v = VisibilityPublic"

definition import_validSpecimenType :: "string \<Rightarrow> bool" where
  "import_validSpecimenType t \<longleftrightarrow> t = ''mineral'' \<or> t = ''rock'' \<or> t = ''meteorite'' \<or> t = ''fossil''"

text \<open>A raw message as text: empty when the member is absent.\<close>

definition raw_text :: "json option \<Rightarrow> string" where
  "raw_text r = (case r of None \<Rightarrow> [] | Some v \<Rightarrow> json_print v)"

text \<open>The validation of a payload; unlike the create path it does not normalise the formula.\<close>

definition struct_name :: "string \<Rightarrow> string" where
  "struct_name t =
     (if t = ''mineral'' then ''MineralData'' else if t = ''rock'' then ''RockData''
      else if t = ''meteorite'' then ''MeteoriteData'' else ''FossilData'')"

definition validateTypeData :: "archive_env \<Rightarrow> string \<Rightarrow> string \<Rightarrow> string + string" where
  "validateTypeData av t raw =
     (let vc = av_vc av in
      if trimSpace raw = [] \<or> trimSpace raw = ''null'' then Inr ''{}''
      else if import_validSpecimenType t then
        (case unmarshal_struct (decode_type_data vc t) raw of
           None \<Rightarrow> Inl (''not a '' @ struct_name t @ '' shape: '' @ av_json_error av raw)
         | Some d \<Rightarrow> (case validate_type_data d of Some e \<Rightarrow> Inl (type_data_error_text vc e) | None \<Rightarrow> Inr (canonical vc d)))
      else Inl (''unknown specimen type '' @ vq_Quote vc t))"

definition import_decode_Locality :: "value_codec \<Rightarrow> (string \<times> json) list \<Rightarrow> Locality option" where
  "import_decode_Locality vc kvs = do {
     country \<leftarrow> decode_field dec_string [] ''country'' kvs;
     region \<leftarrow> decode_field dec_string [] ''region'' kvs;
     site \<leftarrow> decode_field dec_string [] ''site'' kvs;
     lat \<leftarrow> decode_field (dec_number (vf_Parse vc)) 0 ''lat'' kvs;
     lon \<leftarrow> decode_field (dec_number (vf_Parse vc)) 0 ''lon'' kvs;
     mindat \<leftarrow> decode_field dec_string [] ''mindat_id'' kvs;
     Some \<lparr>loc_Country = country, loc_Region = region, loc_Site = site, loc_Lat = lat, loc_Lon = lon, loc_MindatID = mindat\<rparr>
   }"

definition import_decode_Dimensions :: "value_codec \<Rightarrow> (string \<times> json) list \<Rightarrow> Dimensions option" where
  "import_decode_Dimensions vc kvs = do {
     l \<leftarrow> decode_field (dec_number (vf_Parse vc)) 0 ''length_mm'' kvs;
     w \<leftarrow> decode_field (dec_number (vf_Parse vc)) 0 ''width_mm'' kvs;
     h \<leftarrow> decode_field (dec_number (vf_Parse vc)) 0 ''height_mm'' kvs;
     Some \<lparr>dim_LengthMM = l, dim_WidthMM = w, dim_HeightMM = h\<rparr>
   }"

text \<open>A raw struct that does not decode is dropped.\<close>

definition decode_raw_struct :: "((string \<times> json) list \<Rightarrow> 'a option) \<Rightarrow> json option \<Rightarrow> 'a option" where
  "decode_raw_struct dec r = (case r of None \<Rightarrow> None | Some v \<Rightarrow> if v = JNull then None else (case v of JObj kvs \<Rightarrow> dec kvs | _ \<Rightarrow> None))"

definition decodeLocality :: "value_codec \<Rightarrow> json option \<Rightarrow> Locality option" where
  "decodeLocality vc = decode_raw_struct (import_decode_Locality vc)"

definition decodeDimensions :: "value_codec \<Rightarrow> json option \<Rightarrow> Dimensions option" where
  "decodeDimensions vc = decode_raw_struct (import_decode_Dimensions vc)"

section \<open>Structure\<close>

text \<open>
  The loop every kind of record shares: a record whose identifier is no UUID is reported and skipped, a repeated
  identifier is reported, and the other checks follow.
\<close>

fun id_problems :: "'img import_env \<Rightarrow> string \<Rightarrow> ('a \<Rightarrow> string) \<Rightarrow> ('a \<Rightarrow> string list) \<Rightarrow> string list \<Rightarrow> 'a list \<Rightarrow> string list" where
  "id_problems env kind key checks seen [] = []"
| "id_problems env kind key checks seen (x # xs) =
     (let q = vq_Quote (ie_vc env) (key x) in
      if \<not> validUUID env (key x) then (kind @ '' id '' @ q @ '' is not a UUID'') # id_problems env kind key checks seen xs
      else (if key x \<in> set seen then [''duplicate '' @ kind @ '' id '' @ q] else []) @ checks x @
        id_problems env kind key checks (key x # seen) xs)"

definition valid_ids :: "'img import_env \<Rightarrow> ('a \<Rightarrow> string) \<Rightarrow> 'a list \<Rightarrow> string list" where
  "valid_ids env key xs = filter (validUUID env) (map key xs)"

definition collector_problems :: "'img import_env \<Rightarrow> CollectorRecord \<Rightarrow> string list" where
  "collector_problems env c =
     (if trimSpace (cr_Name c) = [] then [''collector '' @ vq_Quote (ie_vc env) (cr_ID c) @ '' has an empty name''] else [])"

definition labelled :: "SpecimenRecord \<Rightarrow> string \<Rightarrow> string option" where
  "labelled s label =
     (if label = ''visibility_price'' then sr_VisibilityPrice s
      else if label = ''visibility_acquired_from'' then sr_VisibilityAcquiredFrom s
      else if label = ''visibility_images'' then sr_VisibilityImages s else None)"

definition specimen_problems :: "'img import_env \<Rightarrow> SpecimenRecord \<Rightarrow> string list" where
  "specimen_problems env s =
     (let q = vq_Quote (ie_vc env); who = ''specimen '' @ q (sr_ID s) in
      (if import_validSpecimenType (sr_Type s) then [] else [who @ '' has invalid type '' @ q (sr_Type s)]) @
      (if import_validVisibility (sr_Visibility s) then [] else [who @ '' has invalid visibility '' @ q (sr_Visibility s)]) @
      concat (map (\<lambda>label. case labelled s label of
          None \<Rightarrow> []
        | Some v \<Rightarrow> if import_validVisibility v then [] else [who @ '' has invalid '' @ label @ '' '' @ q v]) (ie_labels env)) @
      (if import_validSpecimenType (sr_Type s) then
         (case validateTypeData (ie_ar env) (sr_Type s) (raw_text (sr_TypeData s)) of
            Inl e \<Rightarrow> [who @ '' type_data invalid: '' @ e] | Inr _ \<Rightarrow> [])
       else []))"

definition photo_problems :: "'img import_env \<Rightarrow> PhotoRecord \<Rightarrow> string list" where
  "photo_problems env ph =
     (let q = vq_Quote (ie_vc env); who = ''photo '' @ q (pr_ID ph) in
      (if pr_Kind ph \<noteq> [] \<and> pr_Kind ph \<notin> set photoKinds then [who @ '' has invalid kind '' @ q (pr_Kind ph)] else []) @
      (case pr_Visibility ph of
         None \<Rightarrow> []
       | Some v \<Rightarrow> if import_validVisibility v then [] else [who @ '' has invalid visibility '' @ q v]))"

definition sheet_problems :: "'img import_env \<Rightarrow> QRSheetRecord \<Rightarrow> string list" where
  "sheet_problems env qc =
     (let q = vq_Quote (ie_vc env) in
      (if validUUID env (qc_ID qc) then [] else [''qr sheet id '' @ q (qc_ID qc) @ '' is not a UUID'']) @
      (if QRSheetTemplateCapacity (qc_Template qc) = None
       then [''qr sheet '' @ q (qc_ID qc) @ '' has unknown template '' @ q (qc_Template qc)] else []))"

definition invalid_records :: "'img import_env \<Rightarrow> parsed \<Rightarrow> string list" where
  "invalid_records env p =
     id_problems env ''collector'' cr_ID (collector_problems env) [] (p_collectors p) @
     id_problems env ''file'' af_ID (\<lambda>_. []) [] (p_files p) @
     id_problems env ''specimen'' sr_ID (specimen_problems env) [] (p_specimens p) @
     id_problems env ''photo'' pr_ID (photo_problems env) [] (p_photos p) @
     id_problems env ''journal entry'' jr_ID (\<lambda>_. []) [] (p_journal p) @
     (if length (p_qrsheets p) > 1
      then [''archive carries '' @ decimal (length (p_qrsheets p)) @ '' QR sheets; at most one is allowed''] else []) @
     concat (map (sheet_problems env) (p_qrsheets p))"

definition unknown_ref :: "'img import_env \<Rightarrow> string \<Rightarrow> string \<Rightarrow> string list \<Rightarrow> string \<Rightarrow> string list" where
  "unknown_ref env who kind known i =
     (if i \<in> set known then [] else [who @ '' references unknown '' @ kind @ '' '' @ vq_Quote (ie_vc env) i])"

text \<open>References are checked against the identifiers that are UUIDs, from records that have one themselves.\<close>

definition broken_references :: "'img import_env \<Rightarrow> parsed \<Rightarrow> string list" where
  "broken_references env p =
     (let q = vq_Quote (ie_vc env);
          collectors = valid_ids env cr_ID (p_collectors p);
          files = valid_ids env af_ID (p_files p);
          specimens = valid_ids env sr_ID (p_specimens p) in
      concat (map (\<lambda>s.
        (case sr_MainImageFileID s of
           None \<Rightarrow> []
         | Some f \<Rightarrow> if f \<in> set files then [] else [''specimen '' @ q (sr_ID s) @ '' main_image_file_id '' @ q f @ '' not in archive'']) @
        concat (map (unknown_ref env (''specimen '' @ q (sr_ID s)) ''collector'' collectors) (sr_CollectorIDs s)))
        (filter (\<lambda>s. validUUID env (sr_ID s)) (p_specimens p))) @
      concat (map (\<lambda>ph.
        unknown_ref env (''photo '' @ q (pr_ID ph)) ''specimen'' specimens (pr_SpecimenID ph) @
        unknown_ref env (''photo '' @ q (pr_ID ph)) ''file'' files (pr_FileID ph))
        (filter (\<lambda>ph. validUUID env (pr_ID ph)) (p_photos p))) @
      concat (map (\<lambda>e.
        unknown_ref env (''journal entry '' @ q (jr_ID e)) ''specimen'' specimens (jr_SpecimenID e) @
        concat (map (\<lambda>a. unknown_ref env (''journal entry '' @ q (jr_ID e)) ''file'' files (ja_FileID a)) (jr_Attachments e)))
        (filter (\<lambda>e. validUUID env (jr_ID e)) (p_journal p))) @
      concat (map (\<lambda>qc. concat (map (\<lambda>m. unknown_ref env (''qr sheet '' @ q (qc_ID qc)) ''specimen'' specimens (qm_SpecimenID m)) (qc_Specimens qc)))
        (p_qrsheets p)))"

definition checkStructure :: "'img import_env \<Rightarrow> parsed \<Rightarrow> ValidationError option" where
  "checkStructure env p =
     (let inv' = details (invalid_records env p); ref = details (broken_references env p) in
      if \<not> ds_empty inv' then
        Some \<lparr>ve_Code = CodeInvalidRecord, ve_Message = ''archive contains invalid records'', ve_Details = ds_list inv'\<rparr>
      else if \<not> ds_empty ref then
        Some \<lparr>ve_Code = CodeReference, ve_Message = ''archive contains broken cross-references'', ve_Details = ds_list ref\<rparr>
      else None)"

section \<open>Binaries\<close>

definition binary_path :: "FileRecord \<Rightarrow> string" where
  "binary_path f = (if af_Path f = [] then FileBinaryPrefix @ af_ID f else af_Path f)"

fun verify_files :: "archive_env \<Rightarrow> FileRecord list \<Rightarrow> Archive \<Rightarrow> string list \<times> Archive" where
  "verify_files av [] a = ([], a)"
| "verify_files av (f # fs) a =
     (case OpenFileBinary av (binary_path f) (af_SHA256 f) (af_ByteSize f) a of
        (Inl e, a') \<Rightarrow> (case verify_files av fs a' of (bad, a'') \<Rightarrow> (ve_Message e # bad, a''))
      | (Inr _, a') \<Rightarrow> verify_files av fs a')"

definition verifyBinaries :: "archive_env \<Rightarrow> parsed \<Rightarrow> ValidationError + parsed" where
  "verifyBinaries av p =
     (case verify_files av (p_files p) (p_archive p) of
        (bad, a) \<Rightarrow>
          if \<not> ds_empty (details bad) then
            Inl \<lparr>ve_Code = CodeIntegrity, ve_Message = ''archive file binaries failed verification'', ve_Details = ds_list (details bad)\<rparr>
          else Inr (p\<lparr>p_archive := a\<rparr>))"

section \<open>Catalogue numbers\<close>

definition catalog_candidate :: "string \<Rightarrow> nat \<Rightarrow> string" where
  "catalog_candidate orig i = orig @ '' (import '' @ decimal i @ '')''"

lemma decimal_inj: "decimal m = decimal n \<Longrightarrow> m = n"
  by (metis number_decimal option.inject)

lemma catalog_candidate_inj: "catalog_candidate orig i = catalog_candidate orig j \<Longrightarrow> i = j"
  unfolding catalog_candidate_def append_same_eq same_append_eq by (rule decimal_inj)

lemma finite_candidates: "finite {j. i \<le> j \<and> catalog_candidate orig j \<in> set taken}"
proof -
  have "inj_on (catalog_candidate orig) {j. catalog_candidate orig j \<in> set taken}"
    by (auto intro: inj_onI dest: catalog_candidate_inj)
  moreover have "catalog_candidate orig ` {j. catalog_candidate orig j \<in> set taken} \<subseteq> set taken" by auto
  ultimately have "finite {j. catalog_candidate orig j \<in> set taken}" by (metis finite_set inj_on_finite)
  then show ?thesis by (rule rev_finite_subset) auto
qed

text \<open>The loop over the candidates ends because finitely many numbers are taken.\<close>

function uniqueCatalog :: "string \<Rightarrow> string list \<Rightarrow> nat \<Rightarrow> string" where
  "uniqueCatalog orig taken i =
     (if catalog_candidate orig i \<in> set taken then uniqueCatalog orig taken (Suc i) else catalog_candidate orig i)"
  by pat_completeness auto
termination
proof (relation "measure (\<lambda>(orig, taken, i). card {j. i \<le> j \<and> catalog_candidate orig j \<in> set taken})")
  fix orig taken i
  assume "catalog_candidate orig i \<in> set taken"
  then have "i \<in> {j. i \<le> j \<and> catalog_candidate orig j \<in> set taken}" "i \<notin> {j. Suc i \<le> j \<and> catalog_candidate orig j \<in> set taken}" by simp_all
  moreover have "{j. Suc i \<le> j \<and> catalog_candidate orig j \<in> set taken} \<subseteq> {j. i \<le> j \<and> catalog_candidate orig j \<in> set taken}" by auto
  ultimately have "{j. Suc i \<le> j \<and> catalog_candidate orig j \<in> set taken} \<subset> {j. i \<le> j \<and> catalog_candidate orig j \<in> set taken}" by blast
  then show "((orig, taken, Suc i), orig, taken, i) \<in> measure (\<lambda>(orig, taken, i). card {j. i \<le> j \<and> catalog_candidate orig j \<in> set taken})"
    using psubset_card_mono [OF finite_candidates] by simp
qed simp

declare uniqueCatalog.simps [simp del]

text \<open>The number each specimen gets, and the conflicts, in the order of the records.\<close>

fun resolve_numbers :: "'img import_env \<Rightarrow> string list \<Rightarrow> SpecimenRecord list \<Rightarrow> (string option) list \<times> Conflict list" where
  "resolve_numbers env taken [] = ([], [])"
| "resolve_numbers env taken (s # ss) =
     (case sr_CatalogNumber s of
        None \<Rightarrow> (case resolve_numbers env taken ss of (ns, cs) \<Rightarrow> (None # ns, cs))
      | Some orig \<Rightarrow>
          if trimSpace orig = [] then (case resolve_numbers env taken ss of (ns, cs) \<Rightarrow> (Some orig # ns, cs))
          else if orig \<notin> set taken then (case resolve_numbers env (orig # taken) ss of (ns, cs) \<Rightarrow> (Some orig # ns, cs))
          else let resolved = uniqueCatalog orig taken 1 in
            (case resolve_numbers env (resolved # taken) ss of
               (ns, cs) \<Rightarrow> (Some resolved # ns,
                 \<lparr>cf_Kind = ''catalog_number'', cf_SpecimenID = sr_ID s,
                   cf_Detail = ''catalog number '' @ vq_Quote (ie_vc env) orig @ '' already in use; imported as '' @ vq_Quote (ie_vc env) resolved\<rparr> # cs)))"

definition sheet_skipped :: string where
  "sheet_skipped = ''a QR sheet already exists for your account; the archived QR sheet was skipped to avoid modifying existing data''"

definition with_numbers :: "(string option) list \<times> Conflict list \<Rightarrow> parsed \<Rightarrow> parsed" where
  "with_numbers r p = p\<lparr>p_resolvedCat := (\<lambda>i. case map_of (rev (zip (map sr_ID (p_specimens p)) (fst r))) i of None \<Rightarrow> None | Some n \<Rightarrow> n),
     p_conflicts := snd r\<rparr>"

definition probe_sheet :: "uuid \<Rightarrow> database \<Rightarrow> parsed \<Rightarrow> repo_error + parsed" where
  "probe_sheet userID d p =
     (if p_qrsheets p = [] then Inr p
      else case QRSheet_GetByUser d userID of
        Inr _ \<Rightarrow> Inr (p\<lparr>p_skipQRSheet := True, p_warnings := p_warnings p @ [sheet_skipped]\<rparr>)
      | Inl e \<Rightarrow> if e = Domain ErrQRSheetNotFound then Inr p else Inl e)"

definition resolveConflicts :: "'img import_env \<Rightarrow> uuid \<Rightarrow> database \<Rightarrow> parsed \<Rightarrow> repo_error + parsed" where
  "resolveConflicts env userID d p =
     sum_bind (case ie_CatalogNumbers env of None \<Rightarrow> Inr [] | Some lookup \<Rightarrow> lookup d userID) (\<lambda>taken.
     probe_sheet userID d (with_numbers (resolve_numbers env taken (p_specimens p)) p))"

section \<open>Validation\<close>

datatype import_error = Invalid ValidationError | Broken repo_error

abbreviation decode_as :: "'img import_env \<Rightarrow> string list \<Rightarrow> (value_codec \<Rightarrow> 'a \<Rightarrow> (string \<times> json) list \<Rightarrow> 'a option) \<Rightarrow> 'a \<Rightarrow> string \<Rightarrow>
  Archive \<Rightarrow> ValidationError + 'a list \<times> Archive" where
  "decode_as env names dec zero path \<equiv> decodeJSONL (ie_ar env) (decode_record names (dec (ie_vc env)) zero) path"

definition read_archive :: "'img import_env \<Rightarrow> bytes \<Rightarrow> ValidationError + parsed" where
  "read_archive env raw =
     sum_bind (OpenArchive (ie_ar env) raw) (\<lambda>a0.
     let mf = ar_manifest a0 in
     sum_bind (ensure (mf_Application mf = Application)
       (malformed (''archive application '' @ vq_Quote (ie_vc env) (mf_Application mf) @ '' is not '' @ vq_Quote (ie_vc env) Application))) (\<lambda>_.
     sum_bind (ensure (0 < mf_SchemaVersion mf \<and> mf_SchemaVersion mf \<le> SchemaVersion)
       \<lparr>ve_Code = CodeIncompatibleSchema, ve_Message = ''archive schema version '' @ FormatInt (mf_SchemaVersion mf) @
          '' is not supported by this server (max '' @ FormatInt SchemaVersion @ '')'', ve_Details = []\<rparr>) (\<lambda>_.
     sum_bind (decode_as env CollectorRecord_names decode_CollectorRecord CollectorRecord_zero CollectorsPath a0) (\<lambda>(cs, a1).
     sum_bind (decode_as env FileRecord_names decode_FileRecord FileRecord_zero FilesPath a1) (\<lambda>(fs, a2).
     sum_bind (decode_as env SpecimenRecord_names decode_SpecimenRecord SpecimenRecord_zero SpecimensPath a2) (\<lambda>(ss, a3).
     sum_bind (decode_as env PhotoRecord_names decode_PhotoRecord PhotoRecord_zero PhotosPath a3) (\<lambda>(phs, a4).
     sum_bind (decode_as env JournalEntryRecord_names decode_JournalEntryRecord JournalEntryRecord_zero JournalEntriesPath a4) (\<lambda>(js, a5).
     sum_bind (decode_as env QRSheetRecord_names decode_QRSheetRecord QRSheetRecord_zero QRSheetsPath a5) (\<lambda>(qcs, a6).
     Inr \<lparr>p_archive = a6, p_collectors = cs, p_files = fs, p_specimens = ss, p_photos = phs, p_journal = js, p_qrsheets = qcs,
       p_resolvedCat = (\<lambda>_. None), p_skipQRSheet = False, p_conflicts = [], p_warnings = []\<rparr>)))))))))"

definition validate :: "'img import_env \<Rightarrow> bytes \<Rightarrow> uuid \<Rightarrow> database \<Rightarrow> import_error + parsed" where
  "validate env raw userID d =
     sum_bind (map_sum Invalid id (read_archive env raw)) (\<lambda>p.
     sum_bind (case checkStructure env p of None \<Rightarrow> Inr () | Some e \<Rightarrow> Inl (Invalid e)) (\<lambda>_.
     sum_bind (map_sum Invalid id (verifyBinaries (ie_ar env) p)) (\<lambda>p'.
     map_sum Broken id (resolveConflicts env userID d p'))))"

section \<open>The commit\<close>

text \<open>The database inside the transaction, the number of identifiers drawn, and the three maps from archive identifiers.\<close>

record import_state =
  im_db :: database
  im_next :: nat
  im_collectors :: "string \<rightharpoonup> uuid"
  im_files :: "string \<rightharpoonup> uuid"
  im_specimens :: "string \<rightharpoonup> uuid"

text \<open>A lookup in a Go map: the zero value when the key is missing.\<close>

definition go_lookup :: "(string \<rightharpoonup> uuid) \<Rightarrow> string \<Rightarrow> uuid" where
  "go_lookup m k = (case m k of None \<Rightarrow> uuid_Nil | Some i \<Rightarrow> i)"

fun fold_sum :: "('a \<Rightarrow> 's \<Rightarrow> 'e + 's) \<Rightarrow> 'a list \<Rightarrow> 's \<Rightarrow> 'e + 's" where
  "fold_sum f [] s = Inr s"
| "fold_sum f (x # xs) s = sum_bind (f x s) (fold_sum f xs)"

definition collector_row :: "CollectorRecord \<Rightarrow> uuid \<Rightarrow> Collector" where
  "collector_row c i = \<lparr>co_ID = i, co_Name = cr_Name c, co_Notes = cr_Notes c, co_AuthorID = uuid_Nil,
     co_CreatedAt = cr_CreatedAt c, co_UpdatedAt = cr_UpdatedAt c\<rparr>"

definition import_collector :: "'img import_env \<Rightarrow> auth_User \<Rightarrow> CollectorRecord \<Rightarrow> import_state \<Rightarrow> repo_error + import_state" where
  "import_collector env u c st =
     (let i = ie_newID env (im_next st) in
      sum_bind (Collector_Create u (collector_row c i) (im_db st)) (\<lambda>d.
      Inr (st\<lparr>im_db := d, im_next := Suc (im_next st), im_collectors := (im_collectors st)(cr_ID c \<mapsto> i)\<rparr>)))"

definition file_row :: "'img import_env \<Rightarrow> FileRecord \<Rightarrow> uuid \<Rightarrow> File" where
  "file_row env f i = \<lparr>fi_ID = i, fi_S3Key = FileBinaryPrefix @ ie_str env i, fi_ContentType = af_ContentType f,
     fi_ByteSize = af_ByteSize f, fi_SHA256 = af_SHA256 f, fi_UploadedAt = af_UploadedAt f, fi_UploadedBy = uuid_Nil\<rparr>"

definition import_file :: "'img import_env \<Rightarrow> auth_User \<Rightarrow> FileRecord \<Rightarrow> import_state \<Rightarrow> repo_error + import_state" where
  "import_file env u f st =
     (let i = ie_newID env (im_next st) in
      sum_bind (FilePostgres_Create u (file_row env f i) (im_db st)) (\<lambda>d.
      Inr (st\<lparr>im_db := d, im_next := Suc (im_next st), im_files := (im_files st)(af_ID f \<mapsto> i)\<rparr>)))"

definition specimen_row :: "'img import_env \<Rightarrow> (string \<Rightarrow> string option) \<Rightarrow> (string \<rightharpoonup> uuid) \<Rightarrow> SpecimenRecord \<Rightarrow> string \<Rightarrow> uuid \<Rightarrow> Specimen" where
  "specimen_row env cat files s typeData i =
     \<lparr>sp_ID = i, sp_Type = sr_Type s, sp_CatalogNumber = cat (sr_ID s), sp_Name = sr_Name s, sp_Description = sr_Description s,
      sp_Visibility = sr_Visibility s, sp_AuthorID = uuid_Nil, sp_AcquiredAt = sr_AcquiredAt s, sp_AcquiredFrom = sr_AcquiredFrom s,
      sp_PriceCents = map_option word_of_int (sr_PriceCents s), sp_SourceNotes = sr_SourceNotes s, sp_LocalityText = sr_LocalityText s,
      sp_Locality = decodeLocality (ie_vc env) (sr_Locality s), sp_MassG = sr_MassG s,
      sp_Dimensions = decodeDimensions (ie_vc env) (sr_Dimensions s), sp_TypeData = typeData,
      sp_MainImageID = Option.bind (sr_MainImageFileID s) files, sp_VisibilityPrice = sr_VisibilityPrice s,
      sp_VisibilityAcquiredFrom = sr_VisibilityAcquiredFrom s, sp_VisibilityImages = sr_VisibilityImages s, sp_Tagged = sr_Tagged s,
      sp_CreatedAt = sr_CreatedAt s, sp_UpdatedAt = sr_UpdatedAt s\<rparr>"

definition import_specimen ::
  "'img import_env \<Rightarrow> auth_User \<Rightarrow> (string \<Rightarrow> string option) \<Rightarrow> SpecimenRecord \<Rightarrow> import_state \<Rightarrow> repo_error + import_state" where
  "import_specimen env u cat s st =
     (let i = ie_newID env (im_next st) in
      sum_bind (map_sum Driver id (validateTypeData (ie_ar env) (sr_Type s) (raw_text (sr_TypeData s)))) (\<lambda>typeData.
      sum_bind (SpecimenPostgres_Create u (specimen_row env cat (im_files st) s typeData i) (im_db st)) (\<lambda>d.
      Inr (st\<lparr>im_db := d, im_next := Suc (im_next st), im_specimens := (im_specimens st)(sr_ID s \<mapsto> i)\<rparr>))))"

definition photo_row :: "(string \<rightharpoonup> uuid) \<Rightarrow> (string \<rightharpoonup> uuid) \<Rightarrow> PhotoRecord \<Rightarrow> uuid \<Rightarrow> Photo" where
  "photo_row fileMap specimenMap ph i =
     \<lparr>ph_ID = i, ph_SpecimenID = go_lookup specimenMap (pr_SpecimenID ph), ph_FileID = go_lookup fileMap (pr_FileID ph),
      ph_Kind = (if pr_Kind ph = [] then ''visible'' else pr_Kind ph), ph_TakenAt = pr_TakenAt ph, ph_Position = pr_Position ph,
      ph_Visibility = pr_Visibility ph, ph_CreatedAt = pr_CreatedAt ph\<rparr>"

definition import_photo :: "'img import_env \<Rightarrow> PhotoRecord \<Rightarrow> import_state \<Rightarrow> repo_error + import_state" where
  "import_photo env ph st =
     sum_bind (PhotoPostgres_Create (photo_row (im_files st) (im_specimens st) ph (ie_newID env (im_next st))) (im_db st)) (\<lambda>d.
     Inr (st\<lparr>im_db := d, im_next := Suc (im_next st)\<rparr>))"

definition attachment_row :: "(string \<rightharpoonup> uuid) \<Rightarrow> uuid \<Rightarrow> JournalAttachment \<Rightarrow> JournalEntryFile" where
  "attachment_row fileMap entryID a =
     \<lparr>jf_EntryID = entryID, jf_FileID = go_lookup fileMap (ja_FileID a), jf_Position = ja_Position a, jf_CreatedAt = ja_CreatedAt a\<rparr>"

definition import_attachment :: "uuid \<Rightarrow> JournalAttachment \<Rightarrow> import_state \<Rightarrow> repo_error + import_state" where
  "import_attachment entryID a st =
     sum_bind (Attachment_Create (attachment_row (im_files st) entryID a) (im_db st)) (\<lambda>d.
     Inr (st\<lparr>im_db := d\<rparr>))"

definition entry_row :: "(string \<rightharpoonup> uuid) \<Rightarrow> JournalEntryRecord \<Rightarrow> uuid \<Rightarrow> JournalEntry" where
  "entry_row specimenMap e i = \<lparr>je_ID = i, je_SpecimenID = go_lookup specimenMap (jr_SpecimenID e), je_AuthorID = uuid_Nil,
     je_BodyMD = jr_BodyMD e, je_CreatedAt = jr_CreatedAt e, je_UpdatedAt = jr_UpdatedAt e\<rparr>"

definition import_entry :: "'img import_env \<Rightarrow> auth_User \<Rightarrow> JournalEntryRecord \<Rightarrow> import_state \<Rightarrow> repo_error + import_state" where
  "import_entry env u e st =
     (let i = ie_newID env (im_next st) in
      sum_bind (JournalEntry_Create u (entry_row (im_specimens st) e i) (im_db st)) (\<lambda>d.
      fold_sum (import_attachment i) (jr_Attachments e) (st\<lparr>im_db := d, im_next := Suc (im_next st)\<rparr>)))"

definition import_chain :: "SpecimenRecord \<Rightarrow> import_state \<Rightarrow> repo_error + import_state" where
  "import_chain s st =
     (if sr_CollectorIDs s = [] then Inr st
      else sum_bind (replaceChainTx (go_lookup (im_specimens st) (sr_ID s)) (map (go_lookup (im_collectors st)) (sr_CollectorIDs s)) (im_db st))
        (\<lambda>(_, d). Inr (st\<lparr>im_db := d\<rparr>)))"

definition import_member :: "'img import_env \<Rightarrow> auth_User \<Rightarrow> QRSheetSpecimen \<Rightarrow> import_state \<Rightarrow> repo_error + import_state" where
  "import_member env u m st =
     sum_bind (addSpecimenTx (ie_newID env (im_next st)) (u_ID u) (go_lookup (im_specimens st) (qm_SpecimenID m)) (qm_AddedAt m) (im_db st))
       (\<lambda>(aborted, d). if aborted then Inl (Driver ''in_failed_sql_transaction'')
          else Inr (st\<lparr>im_db := d, im_next := Suc (im_next st)\<rparr>))"

definition import_sheet :: "'img import_env \<Rightarrow> auth_User \<Rightarrow> parsed \<Rightarrow> import_state \<Rightarrow> repo_error + import_state" where
  "import_sheet env u p st =
     (case p_qrsheets p of
        [] \<Rightarrow> Inr st
      | qc # _ \<Rightarrow>
          if p_skipQRSheet p then Inr st
          else sum_bind (QRSheet_Create \<lparr>qs_ID = ie_newID env (im_next st), qs_UserID = u_ID u, qs_Template = qc_Template qc,
              qs_CreatedAt = qc_CreatedAt qc, qs_UpdatedAt = qc_UpdatedAt qc\<rparr> (im_db st)) (\<lambda>d.
            fold_sum (import_member env u) (sort_key qm_Position (qc_Specimens qc)) (st\<lparr>im_db := d, im_next := Suc (im_next st)\<rparr>)))"

definition import_body :: "'img import_env \<Rightarrow> auth_User \<Rightarrow> parsed \<Rightarrow> import_state \<Rightarrow> repo_error + import_state" where
  "import_body env u p st0 =
     sum_bind (fold_sum (import_collector env u) (p_collectors p) st0) (\<lambda>st1.
     sum_bind (fold_sum (import_file env u) (p_files p) st1) (\<lambda>st2.
     sum_bind (fold_sum (import_specimen env u (p_resolvedCat p)) (p_specimens p) st2) (\<lambda>st3.
     sum_bind (fold_sum (import_photo env) (p_photos p) st3) (\<lambda>st4.
     sum_bind (fold_sum (import_entry env u) (p_journal p) st4) (\<lambda>st5.
     sum_bind (fold_sum import_chain (p_specimens p) st5) (\<lambda>st6.
     import_sheet env u p st6))))))"

definition import_start :: "database \<Rightarrow> import_state" where
  "import_start d = \<lparr>im_db = d, im_next = 0, im_collectors = Map.empty, im_files = Map.empty, im_specimens = Map.empty\<rparr>"

definition import_commit :: "'img import_env \<Rightarrow> auth_User \<Rightarrow> parsed \<Rightarrow> database \<Rightarrow> (repo_error + import_state) \<times> database" where
  "import_commit env u p d =
     RunInTx (ie_tx env) id (\<lambda>d. map_sum id (\<lambda>st. (st, im_db st)) (import_body env u p (import_start d))) d"

section \<open>The binaries\<close>

definition photo_files :: "'img import_env \<Rightarrow> parsed \<Rightarrow> string list" where
  "photo_files env p = filter (\<lambda>i. i \<in> set (valid_ids env af_ID (p_files p)))
     (map pr_FileID (filter (\<lambda>ph. validUUID env (pr_ID ph)) (p_photos p)))"

text \<open>One file: the names of what could not be stored.\<close>

definition upload_variants :: "'img image_lib \<Rightarrow> faults \<Rightarrow> string \<Rightarrow> bytes \<Rightarrow> string \<Rightarrow> objects \<Rightarrow> string list \<times> objects" where
  "upload_variants il fl key data contentType st =
     (case imageproc_Generate il data contentType of
        Inl _ \<Rightarrow> ([key @ '' (variants)''], st)
      | Inr v \<Rightarrow>
          (let (r1, st1) = Upload fl (key @ ''.display.jpg'') (va_Display v) ''image/jpeg'' st;
               (r2, st2) = Upload fl (key @ ''.thumb.jpg'') (va_Thumbnail v) ''image/jpeg'' st1 in
           ((if isl r1 then [key @ ''.display.jpg''] else []) @ (if isl r2 then [key @ ''.thumb.jpg''] else []), st2)))"

definition upload_binary :: "'img import_env \<Rightarrow> faults \<Rightarrow> parsed \<Rightarrow> (string \<rightharpoonup> uuid) \<Rightarrow> FileRecord \<Rightarrow> objects \<Rightarrow> string list \<times> objects" where
  "upload_binary env fl p fileMap f st =
     (case fileMap (af_ID f) of
        None \<Rightarrow> ([], st)
      | Some newID \<Rightarrow>
          (case RawFile (ie_ar env) (binary_path f) (p_archive p) of
             Inl _ \<Rightarrow> ([binary_path f], st)
           | Inr data \<Rightarrow>
               (let key = FileBinaryPrefix @ ie_str env newID in
                case UploadIfNotExists fl key data (af_ContentType f) st of
                  (Inl _, st') \<Rightarrow> ([key], st')
                | (Inr _, st') \<Rightarrow>
                    if af_ID f \<in> set (photo_files env p) then upload_variants (ie_il env) fl key data (af_ContentType f) st' else ([], st'))))"

fun upload_files :: "'img import_env \<Rightarrow> faults \<Rightarrow> parsed \<Rightarrow> (string \<rightharpoonup> uuid) \<Rightarrow> FileRecord list \<Rightarrow> objects \<Rightarrow> string list \<times> objects" where
  "upload_files env fl p fileMap [] st = ([], st)"
| "upload_files env fl p fileMap (f # fs) st =
     (case upload_binary env fl p fileMap f st of
        (bad, st') \<Rightarrow> (case upload_files env fl p fileMap fs st' of (bad', st'') \<Rightarrow> (bad @ bad', st'')))"

definition uploadBinaries :: "'img import_env \<Rightarrow> parsed \<Rightarrow> (string \<rightharpoonup> uuid) \<Rightarrow> objects \<Rightarrow> string list \<times> objects" where
  "uploadBinaries env p fileMap st =
     (case ie_storage env of None \<Rightarrow> ([], st) | Some fl \<Rightarrow> upload_files env fl p fileMap (p_files p) st)"

section \<open>The run\<close>

record Report =
  rp_SchemaVersion :: int
  rp_DryRun :: bool
  rp_Committed :: bool
  rp_Counts :: Counts
  rp_Conflicts :: "Conflict list"
  rp_Warnings :: "string list"
  rp_ImageFailures :: "string list"

definition import_report :: "bool \<Rightarrow> parsed \<Rightarrow> Report" where
  "import_report dryRun p =
     \<lparr>rp_SchemaVersion = SchemaVersion, rp_DryRun = dryRun, rp_Committed = False,
      rp_Counts = \<lparr>ct_Collectors = int (length (p_collectors p)), ct_Files = int (length (p_files p)),
        ct_Specimens = int (length (p_specimens p)), ct_Photos = int (length (p_photos p)),
        ct_JournalEntries = int (length (p_journal p)), ct_QRSheets = (if p_qrsheets p \<noteq> [] \<and> \<not> p_skipQRSheet p then 1 else 0)\<rparr>,
      rp_Conflicts = p_conflicts p, rp_Warnings = p_warnings p, rp_ImageFailures = []\<rparr>"

definition import_Run ::
  "'img import_env \<Rightarrow> auth_User \<Rightarrow> bytes \<Rightarrow> bool \<Rightarrow> database \<Rightarrow> objects \<Rightarrow> (import_error + Report) \<times> database \<times> objects" where
  "import_Run env u raw dryRun d st =
     (case validate env raw (u_ID u) d of
        Inl e \<Rightarrow> (Inl e, d, st)
      | Inr p \<Rightarrow>
          if dryRun then (Inr (import_report dryRun p), d, st)
          else (case import_commit env u p d of
              (Inl e, d') \<Rightarrow> (Inl (Broken e), d', st)
            | (Inr ims, d') \<Rightarrow>
                (case uploadBinaries env p (im_files ims) st of
                   (failures, st') \<Rightarrow> (Inr ((import_report dryRun p)\<lparr>rp_Committed := True, rp_ImageFailures := failures\<rparr>), d', st'))))"

section \<open>The endpoint\<close>

datatype upload_read = ReadAll bytes | ReadTooLarge nat | ReadFailed

definition validationStatus :: "string \<Rightarrow> nat" where
  "validationStatus code = (if code = CodeMalformedArchive then 400 else 422)"

text \<open>The list of problems under its one key: a pair for each.\<close>

definition validationDetails :: "ValidationError \<Rightarrow> (string \<times> string) list" where
  "validationDetails ve = map (Pair ''problems'') (ve_Details ve)"

definition doImport ::
  "'img import_env \<Rightarrow> auth_User \<Rightarrow> upload_read \<Rightarrow> bool \<Rightarrow> database \<Rightarrow> objects \<Rightarrow> (apiError + Report) \<times> database \<times> objects" where
  "doImport env u body dryRun d st =
     (if u_Sub u = [] \<or> u_ID u = uuid_Nil then (Inl (newAPIError 401 ''unauthorized'' ''authentication required'' []), d, st)
      else (case body of
          ReadTooLarge limit \<Rightarrow> (Inl (newAPIError 413 ''payload_too_large'' ''the uploaded archive exceeds the configured size limit''
            [(''max_bytes'', decimal limit)]), d, st)
        | ReadFailed \<Rightarrow> (Inl (newAPIError 400 ''bad_request'' ''failed to read the uploaded archive'' []), d, st)
        | ReadAll raw \<Rightarrow>
            (case import_Run env u raw dryRun d st of
               (Inl (Invalid ve), w) \<Rightarrow> (Inl (newAPIError (validationStatus (ve_Code ve)) (ve_Code ve) (ve_Message ve) (validationDetails ve)), w)
             | (Inl (Broken _), w) \<Rightarrow> (Inl (newAPIError 500 ''internal_error'' ''import failed'' []), w)
             | (Inr report, w) \<Rightarrow> (Inr report, w))))"

end
