(* ===== verification/ArchiveReading.thy ===== *)
theory ArchiveReading
  imports ImportEngine
begin

text \<open>
  What the text of an archive says, member by member: the specification of the readers of
  \<open>src/internal/portability/format.go\<close> and of \<open>decodeJSONL\<close> in \<open>archive.go\<close>. An object is plain when its members are
  written as the format names them, in lower case and each once; the readers take plain objects to exactly the records
  these predicates describe.
\<close>

section \<open>Members\<close>

definition plain :: "(string \<times> json) list \<Rightarrow> bool" where
  "plain kvs \<longleftrightarrow> distinct (map fst kvs) \<and> list_all lower_name (map fst kvs)"

text \<open>A member that is missing or null stands for the zero value; any other has to denote the value.\<close>

definition member :: "(string \<times> json) list \<Rightarrow> string \<Rightarrow> 'a \<Rightarrow> (json \<Rightarrow> 'a \<Rightarrow> bool) \<Rightarrow> 'a \<Rightarrow> bool" where
  "member kvs n zero denotes x \<longleftrightarrow>
     (case map_of kvs n of None \<Rightarrow> x = zero | Some v \<Rightarrow> if v = JNull then x = zero else denotes v x)"

definition is_text :: "json \<Rightarrow> string \<Rightarrow> bool" where "is_text v s \<longleftrightarrow> v = JStr s"

definition is_flag :: "json \<Rightarrow> bool \<Rightarrow> bool" where "is_flag v b \<longleftrightarrow> v = JBool b"

definition is_int :: "json \<Rightarrow> int \<Rightarrow> bool" where "is_int v i \<longleftrightarrow> (\<exists>l. v = JNum l \<and> ParseInt l = Some i)"

definition is_float :: "value_codec \<Rightarrow> json \<Rightarrow> float64 \<Rightarrow> bool" where
  "is_float vc v x \<longleftrightarrow> (\<exists>l. v = JNum l \<and> vf_Parse vc l = Some x)"

definition is_time :: "value_codec \<Rightarrow> json \<Rightarrow> time \<Rightarrow> bool" where
  "is_time vc v t \<longleftrightarrow> (\<exists>s zone. v = JStr s \<and> vt_Parse vc s = Some (t, zone))"

definition is_some :: "(json \<Rightarrow> 'a \<Rightarrow> bool) \<Rightarrow> json \<Rightarrow> 'a option \<Rightarrow> bool" where
  "is_some denotes v x \<longleftrightarrow> (\<exists>a. x = Some a \<and> denotes v a)"

text \<open>The elements of an array; a null element is a zero value.\<close>

definition is_array :: "'a \<Rightarrow> (json \<Rightarrow> 'a \<Rightarrow> bool) \<Rightarrow> json \<Rightarrow> 'a list \<Rightarrow> bool" where
  "is_array zero denotes v xs \<longleftrightarrow> (\<exists>vs. v = JArr vs \<and> list_all2 (\<lambda>v x. if v = JNull then x = zero else denotes v x) vs xs)"

text \<open>An object with known members only; the record is pinned when it is plain.\<close>

definition is_object :: "string list \<Rightarrow> ((string \<times> json) list \<Rightarrow> 'a \<Rightarrow> bool) \<Rightarrow> json \<Rightarrow> 'a \<Rightarrow> bool" where
  "is_object names says v x \<longleftrightarrow> (\<exists>kvs. v = JObj kvs \<and> known_members names kvs \<and> (plain kvs \<longrightarrow> says kvs x))"

section \<open>The records\<close>

definition says_collector :: "value_codec \<Rightarrow> (string \<times> json) list \<Rightarrow> CollectorRecord \<Rightarrow> bool" where
  "says_collector vc kvs c \<longleftrightarrow>
     member kvs ''id'' [] is_text (cr_ID c) \<and> member kvs ''name'' [] is_text (cr_Name c) \<and>
     member kvs ''notes'' None (is_some is_text) (cr_Notes c) \<and>
     member kvs ''created_at'' time_zero (is_time vc) (cr_CreatedAt c) \<and> member kvs ''updated_at'' time_zero (is_time vc) (cr_UpdatedAt c)"

definition says_file :: "value_codec \<Rightarrow> (string \<times> json) list \<Rightarrow> FileRecord \<Rightarrow> bool" where
  "says_file vc kvs f \<longleftrightarrow>
     member kvs ''id'' [] is_text (af_ID f) \<and> member kvs ''path'' [] is_text (af_Path f) \<and>
     member kvs ''content_type'' [] is_text (af_ContentType f) \<and> member kvs ''byte_size'' 0 is_int (af_ByteSize f) \<and>
     member kvs ''sha256'' [] is_text (af_SHA256 f) \<and> member kvs ''uploaded_at'' time_zero (is_time vc) (af_UploadedAt f)"

text \<open>Raw members are kept as they are, null included.\<close>

definition says_specimen :: "value_codec \<Rightarrow> (string \<times> json) list \<Rightarrow> SpecimenRecord \<Rightarrow> bool" where
  "says_specimen vc kvs s \<longleftrightarrow>
     member kvs ''id'' [] is_text (sr_ID s) \<and> member kvs ''type'' [] is_text (sr_Type s) \<and>
     member kvs ''catalog_number'' None (is_some is_text) (sr_CatalogNumber s) \<and> member kvs ''name'' [] is_text (sr_Name s) \<and>
     member kvs ''description'' [] is_text (sr_Description s) \<and> member kvs ''visibility'' [] is_text (sr_Visibility s) \<and>
     member kvs ''acquired_at'' None (is_some (is_time vc)) (sr_AcquiredAt s) \<and>
     member kvs ''acquired_from'' None (is_some is_text) (sr_AcquiredFrom s) \<and>
     member kvs ''price_cents'' None (is_some is_int) (sr_PriceCents s) \<and>
     member kvs ''source_notes'' None (is_some is_text) (sr_SourceNotes s) \<and>
     member kvs ''locality_text'' None (is_some is_text) (sr_LocalityText s) \<and>
     sr_Locality s = map_of kvs ''locality'' \<and> member kvs ''mass_g'' None (is_some (is_float vc)) (sr_MassG s) \<and>
     sr_Dimensions s = map_of kvs ''dimensions'' \<and> sr_TypeData s = map_of kvs ''type_data'' \<and>
     member kvs ''main_image_file_id'' None (is_some is_text) (sr_MainImageFileID s) \<and>
     member kvs ''visibility_price'' None (is_some is_text) (sr_VisibilityPrice s) \<and>
     member kvs ''visibility_acquired_from'' None (is_some is_text) (sr_VisibilityAcquiredFrom s) \<and>
     member kvs ''visibility_images'' None (is_some is_text) (sr_VisibilityImages s) \<and>
     member kvs ''tagged'' False is_flag (sr_Tagged s) \<and>
     member kvs ''created_at'' time_zero (is_time vc) (sr_CreatedAt s) \<and> member kvs ''updated_at'' time_zero (is_time vc) (sr_UpdatedAt s) \<and>
     member kvs ''collector_ids'' [] (is_array [] is_text) (sr_CollectorIDs s)"

definition says_photo :: "value_codec \<Rightarrow> (string \<times> json) list \<Rightarrow> PhotoRecord \<Rightarrow> bool" where
  "says_photo vc kvs p \<longleftrightarrow>
     member kvs ''id'' [] is_text (pr_ID p) \<and> member kvs ''specimen_id'' [] is_text (pr_SpecimenID p) \<and>
     member kvs ''file_id'' [] is_text (pr_FileID p) \<and> member kvs ''kind'' [] is_text (pr_Kind p) \<and>
     member kvs ''taken_at'' None (is_some (is_time vc)) (pr_TakenAt p) \<and> member kvs ''position'' 0 is_int (pr_Position p) \<and>
     member kvs ''visibility'' None (is_some is_text) (pr_Visibility p) \<and>
     member kvs ''created_at'' time_zero (is_time vc) (pr_CreatedAt p)"

definition says_attachment :: "value_codec \<Rightarrow> (string \<times> json) list \<Rightarrow> JournalAttachment \<Rightarrow> bool" where
  "says_attachment vc kvs a \<longleftrightarrow>
     member kvs ''file_id'' [] is_text (ja_FileID a) \<and> member kvs ''position'' 0 is_int (ja_Position a) \<and>
     member kvs ''created_at'' time_zero (is_time vc) (ja_CreatedAt a)"

definition says_entry :: "value_codec \<Rightarrow> (string \<times> json) list \<Rightarrow> JournalEntryRecord \<Rightarrow> bool" where
  "says_entry vc kvs e \<longleftrightarrow>
     member kvs ''id'' [] is_text (jr_ID e) \<and> member kvs ''specimen_id'' [] is_text (jr_SpecimenID e) \<and>
     member kvs ''body_md'' [] is_text (jr_BodyMD e) \<and>
     member kvs ''created_at'' time_zero (is_time vc) (jr_CreatedAt e) \<and> member kvs ''updated_at'' time_zero (is_time vc) (jr_UpdatedAt e) \<and>
     member kvs ''attachments'' [] (is_array JournalAttachment_zero (is_object JournalAttachment_names (says_attachment vc))) (jr_Attachments e)"

definition says_member :: "value_codec \<Rightarrow> (string \<times> json) list \<Rightarrow> QRSheetSpecimen \<Rightarrow> bool" where
  "says_member vc kvs m \<longleftrightarrow>
     member kvs ''specimen_id'' [] is_text (qm_SpecimenID m) \<and> member kvs ''position'' 0 is_int (qm_Position m) \<and>
     member kvs ''added_at'' time_zero (is_time vc) (qm_AddedAt m)"

definition says_sheet :: "value_codec \<Rightarrow> (string \<times> json) list \<Rightarrow> QRSheetRecord \<Rightarrow> bool" where
  "says_sheet vc kvs q \<longleftrightarrow>
     member kvs ''id'' [] is_text (qc_ID q) \<and> member kvs ''template'' [] is_text (qc_Template q) \<and>
     member kvs ''created_at'' time_zero (is_time vc) (qc_CreatedAt q) \<and> member kvs ''updated_at'' time_zero (is_time vc) (qc_UpdatedAt q) \<and>
     member kvs ''specimens'' [] (is_array QRSheetSpecimen_zero (is_object QRSheetSpecimen_names (says_member vc))) (qc_Specimens q)"

section \<open>The readers take a plain object to what it says\<close>

lemma decode_field_plain:
  assumes "plain kvs" and "lower_name n"
  shows "decode_field dec x n kvs = (case map_of kvs n of None \<Rightarrow> Some x | Some v \<Rightarrow> dec x v)"
proof -
  have kvs: "distinct (map fst kvs)" "list_all lower_name (map fst kvs)" using assms(1) by (simp_all add: plain_def)
  have absent: "decode_field dec y n ls = Some y" if "list_all lower_name (map fst ls)" "n \<notin> fst ` set ls" for ls y
    using that
  proof (induction ls)
    case (Cons l ls)
    then show ?case by (cases l) (auto simp: decode_field_simps name_matches_lower [OF assms(2)])
  qed (simp add: decode_field_simps)
  from kvs show ?thesis
  proof (induction kvs)
    case (Cons l ls)
    obtain k v where l: "l = (k, v)" by (cases l)
    show ?case
    proof (cases "k = n")
      case True
      have rest: "decode_field dec y n ls = Some y" for y using Cons.prems True by (intro absent) (simp_all add: l)
      show ?thesis using True by (simp add: l decode_field_simps name_matches_def rest split: option.split)
    next
      case False
      then show ?thesis using Cons name_matches_lower [OF assms(2)] by (simp add: l decode_field_simps eq_commute)
    qed
  qed (simp add: decode_field_simps)
qed

text \<open>A reader of one value, against what the value denotes.\<close>

definition reads :: "('a \<Rightarrow> json \<Rightarrow> 'a option) \<Rightarrow> 'a \<Rightarrow> (json \<Rightarrow> 'a \<Rightarrow> bool) \<Rightarrow> bool" where
  "reads dec zero denotes \<longleftrightarrow> dec zero JNull = Some zero \<and> (\<forall>v x. v \<noteq> JNull \<longrightarrow> dec zero v = Some x \<longrightarrow> denotes v x)"

lemma decode_field_member:
  assumes "decode_field dec zero n kvs = Some x" and "plain kvs" and "reads dec zero denotes" and "lower_name n"
  shows "member kvs n zero denotes x"
  using assms(1,3) unfolding decode_field_plain [OF assms(2,4)] member_def reads_def
  by (cases "map_of kvs n") (auto simp del: map_of_eq_None_iff)

lemma reads_values:
  "reads dec_string [] is_text" "reads dec_bool False is_flag" "reads dec_int 0 is_int" "reads (dec_time vc) time_zero (is_time vc)"
  "reads (dec_number (vf_Parse vc)) 0 (is_float vc)"
  by (auto simp: reads_def dec_string_def dec_bool_def dec_number_def dec_text_def is_text_def is_flag_def is_int_def is_time_def is_float_def
      split: json.splits)

lemma reads_pointer:
  assumes "reads dec zero denotes"
  shows "reads (dec_pointer zero dec) None (is_some denotes)"
  using assms by (auto simp: reads_def dec_pointer_def is_some_def)

lemma reads_slice:
  assumes "reads dec zero denotes"
  shows "reads (dec_slice zero dec) [] (is_array zero denotes)"
proof -
  have elems: "list_all2 (\<lambda>v x. if v = JNull then x = zero else denotes v x) vs xs" if "dec_elems zero dec [] vs = Some xs" for vs xs
    using that
  proof (induction vs arbitrary: xs)
    case (Cons v vs)
    then obtain y ys where y: "dec zero v = Some y" "dec_elems zero dec [] vs = Some ys" "xs = y # ys"
      by (auto split: option.splits)
    then show ?case using Cons.IH [OF y(2)] assms by (auto simp: reads_def)
  qed simp
  show ?thesis by (auto simp: reads_def dec_slice_def is_array_def intro: elems split: json.splits split del: if_split)
qed

lemma reads_strict:
  assumes "\<And>kvs x. dec zero kvs = Some x \<Longrightarrow> plain kvs \<Longrightarrow> says kvs x"
  shows "reads (dec_strict names dec) zero (is_object names says)"
  using assms by (auto simp: reads_def dec_strict_def is_object_def split: json.splits if_splits)

lemma decode_field_raw:
  assumes "decode_field dec_raw None n kvs = Some x" and "plain kvs" and "lower_name n"
  shows "x = map_of kvs n"
  using assms(1) unfolding decode_field_plain [OF assms(2,3)] by (simp add: dec_raw_def split: option.splits)

lemma lower_members:
  "lower_name ''id''" "lower_name ''name''" "lower_name ''notes''" "lower_name ''created_at''" "lower_name ''updated_at''"
  "lower_name ''path''" "lower_name ''content_type''" "lower_name ''byte_size''" "lower_name ''sha256''" "lower_name ''uploaded_at''"
  "lower_name ''type''" "lower_name ''catalog_number''" "lower_name ''description''" "lower_name ''visibility''"
  "lower_name ''acquired_at''" "lower_name ''acquired_from''" "lower_name ''price_cents''" "lower_name ''source_notes''"
  "lower_name ''locality_text''" "lower_name ''locality''" "lower_name ''mass_g''" "lower_name ''dimensions''" "lower_name ''type_data''"
  "lower_name ''main_image_file_id''" "lower_name ''visibility_price''" "lower_name ''visibility_acquired_from''"
  "lower_name ''visibility_images''" "lower_name ''tagged''" "lower_name ''collector_ids''" "lower_name ''specimen_id''"
  "lower_name ''file_id''" "lower_name ''kind''" "lower_name ''taken_at''" "lower_name ''position''" "lower_name ''body_md''"
  "lower_name ''attachments''" "lower_name ''added_at''" "lower_name ''template''" "lower_name ''specimens''"
  "lower_name ''country''" "lower_name ''region''" "lower_name ''site''" "lower_name ''lat''" "lower_name ''lon''" "lower_name ''mindat_id''"
  "lower_name ''length_mm''" "lower_name ''width_mm''" "lower_name ''height_mm''"
  by code_simp+

lemmas read_members = decode_field_member [OF _ _ reads_values(1)] decode_field_member [OF _ _ reads_values(2)]
  decode_field_member [OF _ _ reads_values(3)] decode_field_member [OF _ _ reads_values(4)]
  decode_field_member [OF _ _ reads_pointer [OF reads_values(1)]] decode_field_member [OF _ _ reads_pointer [OF reads_values(3)]]
  decode_field_member [OF _ _ reads_pointer [OF reads_values(4)]] decode_field_member [OF _ _ reads_pointer [OF reads_values(5)]]
  decode_field_member [OF _ _ reads_slice [OF reads_values(1)]] decode_field_raw

lemma decode_CollectorRecord_says:
  assumes "decode_CollectorRecord vc CollectorRecord_zero kvs = Some c" and "plain kvs"
  shows "says_collector vc kvs c"
  using assms(1) unfolding decode_CollectorRecord_def CollectorRecord_zero_def
  by (auto simp: bind_eq_Some_conv says_collector_def intro!: read_members [OF _ assms(2)] lower_members)

lemma decode_FileRecord_says:
  assumes "decode_FileRecord vc FileRecord_zero kvs = Some f" and "plain kvs"
  shows "says_file vc kvs f"
  using assms(1) unfolding decode_FileRecord_def FileRecord_zero_def
  by (auto simp: bind_eq_Some_conv says_file_def intro!: read_members [OF _ assms(2)] lower_members)

lemma decode_PhotoRecord_says:
  assumes "decode_PhotoRecord vc PhotoRecord_zero kvs = Some p" and "plain kvs"
  shows "says_photo vc kvs p"
  using assms(1) unfolding decode_PhotoRecord_def PhotoRecord_zero_def
  by (auto simp: bind_eq_Some_conv says_photo_def intro!: read_members [OF _ assms(2)] lower_members)

lemma decode_JournalAttachment_says:
  assumes "decode_JournalAttachment vc JournalAttachment_zero kvs = Some a" and "plain kvs"
  shows "says_attachment vc kvs a"
  using assms(1) unfolding decode_JournalAttachment_def JournalAttachment_zero_def
  by (auto simp: bind_eq_Some_conv says_attachment_def intro!: read_members [OF _ assms(2)] lower_members)

lemma decode_QRSheetSpecimen_says:
  assumes "decode_QRSheetSpecimen vc QRSheetSpecimen_zero kvs = Some m" and "plain kvs"
  shows "says_member vc kvs m"
  using assms(1) unfolding decode_QRSheetSpecimen_def QRSheetSpecimen_zero_def
  by (auto simp: bind_eq_Some_conv says_member_def intro!: read_members [OF _ assms(2)] lower_members)

lemma decode_JournalEntryRecord_says:
  assumes "decode_JournalEntryRecord vc JournalEntryRecord_zero kvs = Some e" and "plain kvs"
  shows "says_entry vc kvs e"
  using assms(1) unfolding decode_JournalEntryRecord_def JournalEntryRecord_zero_def
  by (auto simp: bind_eq_Some_conv says_entry_def intro!: read_members [OF _ assms(2)] lower_members
      decode_field_member [OF _ assms(2) reads_slice [OF reads_strict [OF decode_JournalAttachment_says]]])

lemma decode_QRSheetRecord_says:
  assumes "decode_QRSheetRecord vc QRSheetRecord_zero kvs = Some q" and "plain kvs"
  shows "says_sheet vc kvs q"
  using assms(1) unfolding decode_QRSheetRecord_def QRSheetRecord_zero_def
  by (auto simp: bind_eq_Some_conv says_sheet_def intro!: read_members [OF _ assms(2)] lower_members
      decode_field_member [OF _ assms(2) reads_slice [OF reads_strict [OF decode_QRSheetSpecimen_says]]])

lemma decode_SpecimenRecord_says:
  assumes "decode_SpecimenRecord vc SpecimenRecord_zero kvs = Some s" and "plain kvs"
  shows "says_specimen vc kvs s"
  using assms(1) unfolding decode_SpecimenRecord_def SpecimenRecord_zero_def
  by (auto simp: bind_eq_Some_conv says_specimen_def intro!: read_members [OF _ assms(2)] lower_members)

section \<open>Localities and dimensions\<close>

definition says_locality :: "value_codec \<Rightarrow> (string \<times> json) list \<Rightarrow> Locality \<Rightarrow> bool" where
  "says_locality vc kvs l \<longleftrightarrow>
     member kvs ''country'' [] is_text (loc_Country l) \<and> member kvs ''region'' [] is_text (loc_Region l) \<and>
     member kvs ''site'' [] is_text (loc_Site l) \<and> member kvs ''lat'' 0 (is_float vc) (loc_Lat l) \<and>
     member kvs ''lon'' 0 (is_float vc) (loc_Lon l) \<and> member kvs ''mindat_id'' [] is_text (loc_MindatID l)"

definition says_dimensions :: "value_codec \<Rightarrow> (string \<times> json) list \<Rightarrow> Dimensions \<Rightarrow> bool" where
  "says_dimensions vc kvs m \<longleftrightarrow>
     member kvs ''length_mm'' 0 (is_float vc) (dim_LengthMM m) \<and> member kvs ''width_mm'' 0 (is_float vc) (dim_WidthMM m) \<and>
     member kvs ''height_mm'' 0 (is_float vc) (dim_HeightMM m)"

text \<open>A raw struct: what a plain object says, nothing when it says nothing or is no object.\<close>

definition struct_read :: "((string \<times> json) list \<Rightarrow> 'a \<Rightarrow> bool) \<Rightarrow> json option \<Rightarrow> 'a option \<Rightarrow> bool" where
  "struct_read says r x \<longleftrightarrow>
     ((\<nexists>kvs. r = Some (JObj kvs)) \<longrightarrow> x = None) \<and>
     (\<forall>kvs. r = Some (JObj kvs) \<and> plain kvs \<longrightarrow> (\<forall>a. x = Some a \<longleftrightarrow> says kvs a))"

lemma member_text_iff:
  assumes "plain kvs" and "lower_name n"
  shows "decode_field dec_string [] n kvs = Some x \<longleftrightarrow> member kvs n [] is_text x"
    and "decode_field (dec_number (vf_Parse vc)) 0 n kvs = Some y \<longleftrightarrow> member kvs n 0 (is_float vc) y"
  unfolding decode_field_plain [OF assms] member_def
  by (auto simp: dec_string_def dec_number_def is_text_def is_float_def split: option.splits json.splits)

lemma import_decode_Locality_iff:
  assumes "plain kvs"
  shows "import_decode_Locality vc kvs = Some l \<longleftrightarrow> says_locality vc kvs l"
  by (cases l) (auto simp: import_decode_Locality_def bind_eq_Some_conv says_locality_def member_text_iff [OF assms] lower_members)

lemma import_decode_Dimensions_iff:
  assumes "plain kvs"
  shows "import_decode_Dimensions vc kvs = Some m \<longleftrightarrow> says_dimensions vc kvs m"
  by (cases m) (auto simp: import_decode_Dimensions_def bind_eq_Some_conv says_dimensions_def member_text_iff [OF assms] lower_members)

lemma structs_read:
  "struct_read (says_locality vc) r (decodeLocality vc r)" "struct_read (says_dimensions vc) r (decodeDimensions vc r)"
  by (auto simp: struct_read_def decodeLocality_def decodeDimensions_def decode_raw_struct_def import_decode_Locality_iff
      import_decode_Dimensions_iff split: option.splits json.splits)

section \<open>The lines of an entry\<close>

text \<open>The lines of a text: what ends in a newline, and a last piece that is not empty.\<close>

fun text_lines :: "string \<Rightarrow> string \<Rightarrow> string list" where
  "text_lines acc [] = (if acc = [] then [] else [rev acc])"
| "text_lines acc (c # cs) = (if c = CHR 0x0A then rev acc # text_lines [] cs else text_lines (c # acc) cs)"

lemma text_lines_split:
  "text_lines acc s = (case split_on (CHR 0x0A) s of p # ps \<Rightarrow> (let qs = (rev acc @ p) # ps in if last qs = [] then butlast qs else qs))"
proof (induction acc s rule: text_lines.induct)
  case (2 acc c cs)
  obtain p ps where p: "split_on (CHR 0x0A) cs = p # ps" by (cases "split_on (CHR 0x0A) cs") simp_all
  show ?case
  proof (cases "c = CHR 0x0A")
    case True
    then show ?thesis using 2(1) p by (simp add: Let_def)
  next
    case False
    then show ?thesis using 2(2) p by (simp add: Let_def)
  qed
qed simp

lemma jsonl_lines_text: "jsonl_lines s = text_lines [] s"
  unfolding text_lines_split jsonl_lines_def by (cases "split_on (CHR 0x0A) s") (simp_all add: Let_def)

text \<open>
  The last entry of a name counts, and of it the first 256 MiB and one byte; a carriage return before a newline and
  blank lines do not count.
\<close>

definition entry_text :: "zip_entry list \<Rightarrow> string \<Rightarrow> string" where
  "entry_text entries path =
     (case rev (filter (\<lambda>e. ze_Name e = path) entries) of
        [] \<Rightarrow> [] | e # _ \<Rightarrow> text_of (take (256 * 1024 * 1024 + 1) (ze_Data e)))"

definition record_lines :: "string \<Rightarrow> string list" where
  "record_lines s = filter (\<lambda>l. trimSpace l \<noteq> [])
     (map (\<lambda>l. if l \<noteq> [] \<and> last l = CHR 0x0D then butlast l else l) (text_lines [] s))"

text \<open>One line and its record: the first value of the line, null standing for the zero record.\<close>

definition says_line :: "'a \<Rightarrow> string list \<Rightarrow> ((string \<times> json) list \<Rightarrow> 'a \<Rightarrow> bool) \<Rightarrow> string \<Rightarrow> 'a \<Rightarrow> bool" where
  "says_line zero names says l r \<longleftrightarrow> (\<exists>v. json_first l = Some v \<and> (if v = JNull then r = zero else is_object names says v r))"

lemma decode_record_says:
  assumes "decode_record names dec zero l = Some r" and "\<And>kvs x. dec zero kvs = Some x \<Longrightarrow> plain kvs \<Longrightarrow> says kvs x"
  shows "says_line zero names says l r"
proof -
  obtain v where v: "json_first l = Some v" "dec_strict names dec zero v = Some r"
    using assms(1) by (auto simp: decode_record_def split: option.splits)
  have "reads (dec_strict names dec) zero (is_object names says)" by (rule reads_strict [OF assms(2)])
  then show ?thesis using v by (cases "v = JNull") (auto simp: says_line_def reads_def)
qed

lemma decode_lines_records:
  "decode_lines env path dec r n ls = Inr (r', recs) \<Longrightarrow>
     list_all2 (\<lambda>l x. dec l = Some x) (filter (\<lambda>l. trimSpace l \<noteq> []) (map drop_cr ls)) recs"
proof (induction ls arbitrary: r n recs)
  case (Cons l ls)
  show ?case
  proof (cases "trimSpace (drop_cr l) = []")
    case True
    then show ?thesis using Cons.prems Cons.IH [of "r + length (drop_cr l) + 1" "n + 1" recs] by (auto simp: Let_def split: if_splits)
  next
    case False
    then obtain x xs where "dec (drop_cr l) = Some x" "recs = x # xs"
      "decode_lines env path dec (r + length (drop_cr l) + 1) (n + 1) ls = Inr (r', xs)"
      using Cons.prems by (auto simp: Let_def sum_bind_Inr split: if_splits option.splits)
    then show ?thesis using Cons.IH False by simp
  qed
qed simp

lemma entry_files:
  assumes "ar_files a = map_of (rev (map (\<lambda>f. (ze_Name f, f)) entries))"
  shows "ar_files a path = (case rev (filter (\<lambda>e. ze_Name e = path) entries) of [] \<Rightarrow> None | e # _ \<Rightarrow> Some e)"
proof -
  have "map_of (map (\<lambda>f. (ze_Name f, f)) es) path = (case filter (\<lambda>e. ze_Name e = path) es of [] \<Rightarrow> None | e # _ \<Rightarrow> Some e)" for es
    by (induction es) auto
  then show ?thesis unfolding assms rev_map rev_filter .
qed

lemma decodeJSONL_records:
  assumes "decodeJSONL env dec path a = Inr (recs, a')" and "ar_files a = map_of (rev (map (\<lambda>f. (ze_Name f, f)) entries))"
  shows "list_all2 (\<lambda>l x. dec l = Some x) (record_lines (entry_text entries path)) recs" and "ar_files a' = ar_files a"
proof -
  have size_eq: "Suc maxEntryBytes = 256 * 1024 * 1024 + 1" by (simp add: maxEntryBytes_def)
  have cr: "drop_cr = (\<lambda>l. if l \<noteq> [] \<and> last l = CHR 0x0D then butlast l else l)" by (rule ext) (simp add: drop_cr_def)
  note found = entry_files [OF assms(2), of path]
  show "ar_files a' = ar_files a"
    using assms(1) by (auto simp: decodeJSONL_def addInflated_def sum_bind_Inr split: option.splits prod.splits bool.splits)
  show "list_all2 (\<lambda>l x. dec l = Some x) (record_lines (entry_text entries path)) recs"
  proof (cases "rev (filter (\<lambda>e. ze_Name e = path) entries)")
    case Nil
    then show ?thesis using assms(1) found by (simp add: decodeJSONL_def entry_text_def record_lines_def)
  next
    case (Cons e es)
    then obtain r where "decode_lines env path dec 0 0 (jsonl_lines (text_of (take (Suc maxEntryBytes) (ze_Data e)))) = Inr (r, recs)"
      using assms(1) found
      by (auto simp: decodeJSONL_def read_limited_def sum_bind_Inr addInflated_def split: option.splits prod.splits bool.splits)
    from decode_lines_records [OF this] show ?thesis
      unfolding entry_text_def Cons record_lines_def jsonl_lines_text cr size_eq by simp
  qed
qed

section \<open>The whole archive\<close>

text \<open>The six lists are what the six entries say, line by line; an entry that is not there says nothing.\<close>

definition archive_says :: "value_codec \<Rightarrow> zip_entry list \<Rightarrow> parsed \<Rightarrow> bool" where
  "archive_says vc entries p \<longleftrightarrow>
     list_all2 (says_line CollectorRecord_zero CollectorRecord_names (says_collector vc))
       (record_lines (entry_text entries ''data/collectors.jsonl'')) (p_collectors p) \<and>
     list_all2 (says_line FileRecord_zero FileRecord_names (says_file vc))
       (record_lines (entry_text entries ''data/files.jsonl'')) (p_files p) \<and>
     list_all2 (says_line SpecimenRecord_zero SpecimenRecord_names (says_specimen vc))
       (record_lines (entry_text entries ''data/specimens.jsonl'')) (p_specimens p) \<and>
     list_all2 (says_line PhotoRecord_zero PhotoRecord_names (says_photo vc))
       (record_lines (entry_text entries ''data/photos.jsonl'')) (p_photos p) \<and>
     list_all2 (says_line JournalEntryRecord_zero JournalEntryRecord_names (says_entry vc))
       (record_lines (entry_text entries ''data/journal_entries.jsonl'')) (p_journal p) \<and>
     list_all2 (says_line QRSheetRecord_zero QRSheetRecord_names (says_sheet vc))
       (record_lines (entry_text entries ''data/qrsheets.jsonl'')) (p_qrsheets p)"

lemma OpenArchive_files:
  assumes "OpenArchive env raw = Inr a"
  obtains entries where "av_zip env raw = Some entries" "ar_files a = map_of (rev (map (\<lambda>f. (ze_Name f, f)) entries))"
  using assms by (auto simp: OpenArchive_def Let_def readWhole_def addInflated_def split: option.splits sum.splits prod.splits bool.splits)

lemma decode_as_says:
  assumes "decodeJSONL av (decode_record names dec zero) path a = Inr (recs, a')" and "ar_files a = map_of (rev (map (\<lambda>f. (ze_Name f, f)) entries))"
    and "\<And>kvs x. dec zero kvs = Some x \<Longrightarrow> plain kvs \<Longrightarrow> says kvs x"
  shows "list_all2 (says_line zero names says) (record_lines (entry_text entries path)) recs"
  by (rule list_all2_mono [OF decodeJSONL_records(1) [OF assms(1,2)]]) (rule decode_record_says [OF _ assms(3)])

lemma read_archive_says:
  assumes "read_archive env raw = Inr p"
  shows "(\<exists>entries. av_zip (ie_ar env) raw = Some entries \<and> archive_says (ie_vc env) entries p) \<and> \<not> p_skipQRSheet p"
proof -
  obtain a0 cs a1 fs a2 ss a3 phs a4 js a5 qcs a6 where o: "OpenArchive (ie_ar env) raw = Inr a0"
    and d: "decode_as env CollectorRecord_names decode_CollectorRecord CollectorRecord_zero CollectorsPath a0 = Inr (cs, a1)"
      "decode_as env FileRecord_names decode_FileRecord FileRecord_zero FilesPath a1 = Inr (fs, a2)"
      "decode_as env SpecimenRecord_names decode_SpecimenRecord SpecimenRecord_zero SpecimensPath a2 = Inr (ss, a3)"
      "decode_as env PhotoRecord_names decode_PhotoRecord PhotoRecord_zero PhotosPath a3 = Inr (phs, a4)"
      "decode_as env JournalEntryRecord_names decode_JournalEntryRecord JournalEntryRecord_zero JournalEntriesPath a4 = Inr (js, a5)"
      "decode_as env QRSheetRecord_names decode_QRSheetRecord QRSheetRecord_zero QRSheetsPath a5 = Inr (qcs, a6)"
    and p: "p = \<lparr>p_archive = a6, p_collectors = cs, p_files = fs, p_specimens = ss, p_photos = phs, p_journal = js, p_qrsheets = qcs,
       p_resolvedCat = (\<lambda>_. None), p_skipQRSheet = False, p_conflicts = [], p_warnings = []\<rparr>"
    using assms by (auto simp: read_archive_def Let_def sum_bind_Inr)
  obtain entries where e: "av_zip (ie_ar env) raw = Some entries" "ar_files a0 = map_of (rev (map (\<lambda>f. (ze_Name f, f)) entries))"
    by (rule OpenArchive_files [OF o])
  note f1 = decodeJSONL_records(2) [OF d(1) e(2), unfolded e(2)]
  note f2 = decodeJSONL_records(2) [OF d(2) f1, unfolded f1]
  note f3 = decodeJSONL_records(2) [OF d(3) f2, unfolded f2]
  note f4 = decodeJSONL_records(2) [OF d(4) f3, unfolded f3]
  note f5 = decodeJSONL_records(2) [OF d(5) f4, unfolded f4]
  have "archive_says (ie_vc env) entries p"
    unfolding archive_says_def p parsed.select_convs
      CollectorsPath_def [symmetric] FilesPath_def [symmetric] SpecimensPath_def [symmetric] PhotosPath_def [symmetric]
      JournalEntriesPath_def [symmetric] QRSheetsPath_def [symmetric]
    by (intro conjI decode_as_says [OF d(1) e(2)] decode_as_says [OF d(2) f1]
        decode_as_says [OF d(3) f2] decode_as_says [OF d(4) f3]
        decode_as_says [OF d(5) f4] decode_as_says [OF d(6) f5]
        decode_CollectorRecord_says decode_FileRecord_says decode_SpecimenRecord_says decode_PhotoRecord_says
        decode_JournalEntryRecord_says decode_QRSheetRecord_says)
  then show ?thesis using e(1) by (simp add: p)
qed

section \<open>Catalogue numbers and the label sheet\<close>

text \<open>A number that is free is kept; one that is used gets the first suffix that makes it free.\<close>

definition suffixed :: "string \<Rightarrow> nat \<Rightarrow> string" where
  "suffixed n i = n @ '' (import '' @ decimal i @ '')''"

definition number_resolved :: "string set \<Rightarrow> string option \<Rightarrow> string option \<Rightarrow> bool" where
  "number_resolved used orig new \<longleftrightarrow>
     (case orig of
        None \<Rightarrow> new = None
      | Some n \<Rightarrow>
          if trimSpace n = [] \<or> n \<notin> used then new = Some n
          else \<exists>i\<ge>1. new = Some (suffixed n i) \<and> suffixed n i \<notin> used \<and> (\<forall>j. 1 \<le> j \<and> j < i \<longrightarrow> suffixed n j \<in> used))"

text \<open>Used are the numbers of the caller's specimens and those given to the records before; blank numbers are not counted.\<close>

fun numbers_resolved :: "string set \<Rightarrow> (string option) list \<Rightarrow> (string option) list \<Rightarrow> bool" where
  "numbers_resolved used [] [] = True"
| "numbers_resolved used (orig # os) (new # ns) =
     (number_resolved used orig new \<and>
      numbers_resolved (if orig = None \<or> trimSpace (the orig) = [] then used else insert (the new) used) os ns)"
| "numbers_resolved used _ _ = False"

lemma uniqueCatalog_least:
  "\<exists>j\<ge>i. uniqueCatalog orig taken i = suffixed orig j \<and> suffixed orig j \<notin> set taken \<and> (\<forall>k. i \<le> k \<and> k < j \<longrightarrow> suffixed orig k \<in> set taken)"
proof (induction orig taken i rule: uniqueCatalog.induct)
  case (1 orig taken i)
  have c: "catalog_candidate orig k = suffixed orig k" for k by (simp add: catalog_candidate_def suffixed_def)
  show ?case
  proof (cases "suffixed orig i \<in> set taken")
    case True
    then obtain j where j: "Suc i \<le> j" "uniqueCatalog orig taken (Suc i) = suffixed orig j" "suffixed orig j \<notin> set taken"
      "\<forall>k. Suc i \<le> k \<and> k < j \<longrightarrow> suffixed orig k \<in> set taken"
      using 1 unfolding c by blast
    have "uniqueCatalog orig taken i = suffixed orig j" using True j(2) by (subst uniqueCatalog.simps) (simp add: c)
    moreover have "\<forall>k. i \<le> k \<and> k < j \<longrightarrow> suffixed orig k \<in> set taken" using True j(4) by (metis Suc_leI le_neq_implies_less)
    ultimately show ?thesis using j(1,3) by (intro exI [of _ j]) simp
  next
    case False
    then have "uniqueCatalog orig taken i = suffixed orig i" by (subst uniqueCatalog.simps) (simp add: c)
    moreover have "\<forall>k. i \<le> k \<and> k < i \<longrightarrow> suffixed orig k \<in> set taken" by auto
    ultimately show ?thesis using False by (intro exI [of _ i]) simp
  qed
qed

lemma resolve_numbers_resolved:
  "numbers_resolved (set taken) (map sr_CatalogNumber ss) (fst (resolve_numbers env taken ss))"
proof (induction ss arbitrary: taken)
  case (Cons s ss)
  show ?case
  proof (cases "sr_CatalogNumber s")
    case None
    then show ?thesis using Cons.IH [of taken] by (simp add: case_prod_beta number_resolved_def)
  next
    case (Some orig)
    consider (blank) "trimSpace orig = []" | (free) "trimSpace orig \<noteq> []" "orig \<notin> set taken" | (used) "trimSpace orig \<noteq> []" "orig \<in> set taken"
      by blast
    then show ?thesis
    proof cases
      case blank
      then show ?thesis using Some Cons.IH [of taken] by (simp add: case_prod_beta number_resolved_def)
    next
      case free
      then show ?thesis using Some Cons.IH [of "orig # taken"] by (simp add: case_prod_beta number_resolved_def)
    next
      case used
      have "number_resolved (set taken) (Some orig) (Some (uniqueCatalog orig taken 1))"
        using used uniqueCatalog_least [of 1 orig taken] by (simp add: number_resolved_def)
      then show ?thesis using Some used Cons.IH [of "uniqueCatalog orig taken 1 # taken"] by (simp add: case_prod_beta Let_def)
    qed
  qed
qed simp

lemma length_resolve_numbers: "length (fst (resolve_numbers env taken ss)) = length ss"
  by (induction ss arbitrary: taken) (auto simp: case_prod_beta Let_def split: option.split)

lemma with_numbers_given:
  assumes "distinct (map sr_ID (p_specimens p))" and "length (fst r) = length (p_specimens p)"
  shows "map (\<lambda>s. p_resolvedCat (with_numbers r p) (sr_ID s)) (p_specimens p) = fst r"
proof (rule nth_equalityI)
  let ?m = "map_of (rev (zip (map sr_ID (p_specimens p)) (fst r)))"
  fix k
  assume "k < length (map (\<lambda>s. p_resolvedCat (with_numbers r p) (sr_ID s)) (p_specimens p))"
  then have k: "k < length (p_specimens p)" by simp
  have keys: "map fst (zip (map sr_ID (p_specimens p)) (fst r)) = map sr_ID (p_specimens p)" using assms(2) by simp
  have "(sr_ID (p_specimens p ! k), fst r ! k) \<in> set (zip (map sr_ID (p_specimens p)) (fst r))"
    using k assms(2) by (auto simp: set_zip intro!: exI [of _ k])
  then have "?m (sr_ID (p_specimens p ! k)) = Some (fst r ! k)"
    using assms(1) keys by (intro map_of_is_SomeI) (simp_all add: rev_map [symmetric])
  then show "map (\<lambda>s. p_resolvedCat (with_numbers r p) (sr_ID s)) (p_specimens p) ! k = fst r ! k"
    using k by (simp add: with_numbers_def)
qed (simp add: assms(2))

definition import_resolved :: "'img import_env \<Rightarrow> uuid \<Rightarrow> database \<Rightarrow> parsed \<Rightarrow> bool" where
  "import_resolved env userID d p \<longleftrightarrow>
     (\<exists>taken. (case ie_CatalogNumbers env of None \<Rightarrow> taken = [] | Some lookup \<Rightarrow> lookup d userID = Inr taken) \<and>
        numbers_resolved (set taken) (map sr_CatalogNumber (p_specimens p)) (map (\<lambda>s. p_resolvedCat p (sr_ID s)) (p_specimens p))) \<and>
     (p_skipQRSheet p \<longleftrightarrow> p_qrsheets p \<noteq> [] \<and> userID \<in> qs_UserID ` set (db_qr_sheets d))"

lemma resolveConflicts_resolved:
  assumes "resolveConflicts env userID d p = Inr p'" and "distinct (map sr_ID (p_specimens p))" and "\<not> p_skipQRSheet p"
  shows "import_resolved env userID d p'"
proof -
  obtain taken where taken: "(case ie_CatalogNumbers env of None \<Rightarrow> Inr [] | Some lookup \<Rightarrow> lookup d userID) = Inr taken"
    and probe: "probe_sheet userID d (with_numbers (resolve_numbers env taken (p_specimens p)) p) = Inr p'"
    using assms(1) by (auto simp: resolveConflicts_def sum_bind_Inr)
  define q where "q = with_numbers (resolve_numbers env taken (p_specimens p)) p"
  have q: "p_specimens q = p_specimens p" "p_qrsheets q = p_qrsheets p" "\<not> p_skipQRSheet q"
    using assms(3) by (simp_all add: q_def with_numbers_def)
  have same: "p_specimens p' = p_specimens q" "p_qrsheets p' = p_qrsheets q" "p_resolvedCat p' = p_resolvedCat q"
    and skip: "p_skipQRSheet p' \<longleftrightarrow> p_qrsheets q \<noteq> [] \<and> find (\<lambda>s. qs_UserID s = userID) (db_qr_sheets d) \<noteq> None"
    using probe q(3) unfolding q_def [symmetric] by (auto simp: probe_sheet_def QRSheet_GetByUser_def split: option.splits if_splits)
  have "map (\<lambda>s. p_resolvedCat p' (sr_ID s)) (p_specimens p') = fst (resolve_numbers env taken (p_specimens p))"
    unfolding same q(1) unfolding q_def by (rule with_numbers_given [OF assms(2) length_resolve_numbers])
  then have "numbers_resolved (set taken) (map sr_CatalogNumber (p_specimens p')) (map (\<lambda>s. p_resolvedCat p' (sr_ID s)) (p_specimens p'))"
    using resolve_numbers_resolved [of taken "p_specimens p" env] by (simp add: same q)
  moreover have "find (\<lambda>s. qs_UserID s = userID) (db_qr_sheets d) \<noteq> None \<longleftrightarrow> userID \<in> qs_UserID ` set (db_qr_sheets d)"
    by (auto simp: find_None_iff)
  moreover have "case ie_CatalogNumbers env of None \<Rightarrow> taken = [] | Some lookup \<Rightarrow> lookup d userID = Inr taken"
    using taken by (simp split: option.splits)
  ultimately show ?thesis using skip by (auto simp: import_resolved_def same)
qed

end
