(* ===== verification/ImportCommit.thy ===== *)
theory ImportCommit
  imports ArchiveReading JournalFiles
begin

text \<open>
  What an import does to the database and the object store: validation writes nothing, and a commit appends to the
  tables exactly the rows of the archive, as rows of the caller under new identifiers, or leaves everything as it is.
\<close>

section \<open>Folds that append\<close>

lemma fold_sum_inv:
  assumes "fold_sum f xs s = Inr s'" and "P s" and "\<And>x s s'. x \<in> set xs \<Longrightarrow> f x s = Inr s' \<Longrightarrow> P s \<Longrightarrow> P s'"
  shows "P s'"
  using assms
proof (induction xs arbitrary: s)
  case (Cons x xs)
  then obtain s1 where s1: "f x s = Inr s1" "fold_sum f xs s1 = Inr s'" by (auto simp: sum_bind_Inr)
  show ?case by (rule Cons.IH [OF s1(2)]) (use Cons.prems s1(1) in auto)
qed simp

text \<open>
  Each step appends one row to a table \<open>T\<close> and enters its identifier under the record's key; \<open>G\<close> is what no step
  changes.
\<close>

lemma fold_keyed:
  assumes step: "\<And>x s s'. x \<in> set xs \<Longrightarrow> f x s = Inr s' \<Longrightarrow>
      \<exists>i. T s' = T s @ [row (G s) x i] \<and> M s' = (M s)(key x \<mapsto> i) \<and> G s' = G s"
    and "fold_sum f xs s = Inr s'" and "distinct (map key xs)"
  shows "T s' = T s @ map (\<lambda>x. row (G s) x (go_lookup (M s') (key x))) xs \<and> G s' = G s \<and>
    (\<forall>k. k \<notin> key ` set xs \<longrightarrow> M s' k = M s k) \<and> (\<forall>x\<in>set xs. M s' (key x) \<noteq> None)"
  using assms
proof (induction xs arbitrary: s)
  case (Cons x xs)
  obtain s1 where s1: "f x s = Inr s1" "fold_sum f xs s1 = Inr s'" using Cons.prems(2) by (auto simp: sum_bind_Inr)
  obtain i where i: "T s1 = T s @ [row (G s) x i]" "M s1 = (M s)(key x \<mapsto> i)" "G s1 = G s"
    using Cons.prems(1) [OF list.set_intros(1) s1(1)] by blast
  have ih: "T s' = T s1 @ map (\<lambda>x. row (G s1) x (go_lookup (M s') (key x))) xs \<and> G s' = G s1 \<and>
    (\<forall>k. k \<notin> key ` set xs \<longrightarrow> M s' k = M s1 k) \<and> (\<forall>x\<in>set xs. M s' (key x) \<noteq> None)"
    by (rule Cons.IH [OF _ s1(2)]) (use Cons.prems(1,3) in auto)
  have "key x \<notin> key ` set xs" using Cons.prems(3) by simp
  then have "M s' (key x) = Some i" using ih i(2) by simp
  then have "go_lookup (M s') (key x) = i" "M s' (key x) \<noteq> None" by (simp_all add: go_lookup_def)
  then show ?case using ih i by auto
qed simp

text \<open>The same without keys.\<close>

lemma fold_rows:
  assumes step: "\<And>x s s'. x \<in> set xs \<Longrightarrow> f x s = Inr s' \<Longrightarrow> \<exists>i. T s' = T s @ [row (G s) x i] \<and> U s' = U s @ more' (G s) x i \<and> G s' = G s"
    and "fold_sum f xs s = Inr s'"
  shows "\<exists>ids. length ids = length xs \<and> T s' = T s @ map2 (row (G s)) xs ids \<and> U s' = U s @ concat (map2 (more' (G s)) xs ids) \<and> G s' = G s"
  using assms
proof (induction xs arbitrary: s)
  case (Cons x xs)
  obtain s1 where s1: "f x s = Inr s1" "fold_sum f xs s1 = Inr s'" using Cons.prems(2) by (auto simp: sum_bind_Inr)
  obtain i where i: "T s1 = T s @ [row (G s) x i]" "U s1 = U s @ more' (G s) x i" "G s1 = G s"
    using Cons.prems(1) [OF list.set_intros(1) s1(1)] by blast
  have "\<exists>ids. length ids = length xs \<and> T s' = T s1 @ map2 (row (G s1)) xs ids \<and> U s' = U s1 @ concat (map2 (more' (G s1)) xs ids) \<and> G s' = G s1"
    by (rule Cons.IH [OF _ s1(2)]) (use Cons.prems(1) in auto)
  then obtain ids where "length ids = length xs" "T s' = T s1 @ map2 (row (G s1)) xs ids"
    "U s' = U s1 @ concat (map2 (more' (G s1)) xs ids)" "G s' = G s1" by blast
  then have "length (i # ids) = length (x # xs) \<and> T s' = T s @ map2 (row (G s)) (x # xs) (i # ids) \<and>
    U s' = U s @ concat (map2 (more' (G s)) (x # xs) (i # ids)) \<and> G s' = G s"
    using i by simp
  then show ?case by blast
qed simp

section \<open>Keys and references\<close>

definition consistent :: "database \<Rightarrow> bool" where
  "consistent d \<longleftrightarrow> keys_ok d \<and> fk_ok d"

lemma Collector_Create_ok:
  assumes "Collector_Create u c d = Inr d'"
  shows "d' = d\<lparr>db_collectors := db_collectors d @ [c\<lparr>co_AuthorID := u_ID u\<rparr>]\<rparr>" "consistent d \<Longrightarrow> consistent d'"
  using assms by (auto simp: Collector_Create_def consistent_def keys_ok_def fk_ok_def refs_append refs_append_right split: if_splits)

lemma File_Create_consistent: "FilePostgres_Create u f d = Inr d' \<Longrightarrow> consistent d \<Longrightarrow> consistent d'"
  using File_Create_keeps by (auto simp: consistent_def)

lemma Specimen_Create_ok:
  assumes "SpecimenPostgres_Create u s d = Inr d'"
  shows "d' = d\<lparr>db_specimens := db_specimens d @ [s\<lparr>sp_AuthorID := u_ID u, sp_TypeData := stored_type_data (sp_TypeData s)\<rparr>]\<rparr>"
    "\<not> catalog_clash s (db_specimens d)" "consistent d \<Longrightarrow> consistent d'"
  using assms Create_keeps [OF assms] by (auto simp: SpecimenPostgres_Create_def consistent_def split: if_splits)

lemma Photo_Create_consistent: "PhotoPostgres_Create p d = Inr d' \<Longrightarrow> consistent d \<Longrightarrow> consistent d'"
  using Photo_Create_keeps by (auto simp: consistent_def)

lemma Entry_Create_ok:
  assumes "JournalEntry_Create u e d = Inr d'"
  shows "d' = d\<lparr>db_journal := db_journal d @ [e\<lparr>je_AuthorID := u_ID u\<rparr>]\<rparr>" "consistent d \<Longrightarrow> consistent d'"
  using assms by (auto simp: JournalEntry_Create_def consistent_def keys_ok_def fk_ok_def refs_append refs_append_right split: if_splits)

lemma Attachment_Create_consistent: "Attachment_Create j d = Inr d' \<Longrightarrow> consistent d \<Longrightarrow> consistent d'"
  using Attachment_Create_ok by (auto simp: consistent_def)

lemma QRSheet_Create_ok:
  assumes "QRSheet_Create s d = Inr d'"
  shows "d' = d\<lparr>db_qr_sheets := db_qr_sheets d @ [s]\<rparr>" "qs_ID s \<notin> qs_ID ` set (db_qr_sheets d)"
    "qs_UserID s \<notin> qs_UserID ` set (db_qr_sheets d)" "consistent d \<Longrightarrow> consistent d'"
  using assms by (auto simp: QRSheet_Create_def consistent_def keys_ok_def fk_ok_def refs_append refs_append_right split: if_splits)

lemma addSpecimen_consistent:
  assumes "addSpecimenTx rowID uid i now d = Inr (False, d')" and "consistent d"
  shows "consistent d'"
proof -
  obtain s where s: "find (\<lambda>s. qs_UserID s = uid) (db_qr_sheets d) = Some s"
    using assms(1) by (auto simp: addSpecimenTx_def split: option.splits)
  then have "qs_ID s \<in> qs_ID ` set (db_qr_sheets d)" using find_user_Some by fastforce
  then show ?thesis
    using assms s by (auto simp: addSpecimenTx_def consistent_def keys_ok_def fk_ok_def refs_append split: if_splits)
qed

lemma insert_links_consistent: "insert_links sid n ids d = Inr d' \<Longrightarrow> consistent d \<Longrightarrow> consistent d'"
proof (induction ids arbitrary: n d)
  case (Cons i ids)
  let ?d = "d\<lparr>db_specimen_collectors := db_specimen_collectors d @ [\<lparr>sc_SpecimenID = sid, sc_CollectorID = i, sc_Position = int n\<rparr>]\<rparr>"
  have "consistent ?d"
    using Cons.prems by (auto simp: consistent_def keys_ok_def fk_ok_def refs_append split: if_splits)
  then show ?case using Cons.IH [of "Suc n" ?d] Cons.prems(1) by (auto split: if_splits)
qed simp

lemma replaceChain_consistent:
  assumes "replaceChainTx sid ids d = Inr (x, d')" and "consistent d"
  shows "consistent d'"
proof -
  let ?d = "d\<lparr>db_specimen_collectors := filter (\<lambda>r. sc_SpecimenID r \<noteq> sid) (db_specimen_collectors d)\<rparr>"
  have "insert_links sid 1 ids ?d = Inr d'"
    using assms(1) by (cases "insert_links sid 1 ids ?d") (auto simp: replaceChainTx_def split: if_splits)
  moreover have "consistent ?d" using assms(2) by (simp add: consistent_def keys_ok_def fk_ok_def refs_keep)
  ultimately show ?thesis by (rule insert_links_consistent)
qed

text \<open>The phases of a commit, each of which leaves keys and references in order.\<close>

lemma import_body_steps:
  assumes "import_body env u p st = Inr st'" and "consistent (im_db st)"
  obtains st1 st2 st3 st4 st5 st6 where
    "fold_sum (import_collector env u) (p_collectors p) st = Inr st1" "fold_sum (import_file env u) (p_files p) st1 = Inr st2"
    "fold_sum (import_specimen env u (p_resolvedCat p)) (p_specimens p) st2 = Inr st3" "fold_sum (import_photo env) (p_photos p) st3 = Inr st4"
    "fold_sum (import_entry env u) (p_journal p) st4 = Inr st5" "fold_sum import_chain (p_specimens p) st5 = Inr st6"
    "import_sheet env u p st6 = Inr st'" "consistent (im_db st3)" "consistent (im_db st6)" "consistent (im_db st')"
proof -
  let ?P = "\<lambda>st. consistent (im_db st)"
  obtain st1 st2 st3 st4 st5 st6 where
    s: "fold_sum (import_collector env u) (p_collectors p) st = Inr st1" "fold_sum (import_file env u) (p_files p) st1 = Inr st2"
      "fold_sum (import_specimen env u (p_resolvedCat p)) (p_specimens p) st2 = Inr st3" "fold_sum (import_photo env) (p_photos p) st3 = Inr st4"
      "fold_sum (import_entry env u) (p_journal p) st4 = Inr st5" "fold_sum import_chain (p_specimens p) st5 = Inr st6"
      "import_sheet env u p st6 = Inr st'"
    using assms(1) unfolding import_body_def by (auto simp: sum_bind_Inr)
  have att: "?P s'" if "import_attachment i a s = Inr s'" "?P s" for i a s s'
    using that Attachment_Create_consistent by (auto simp: import_attachment_def sum_bind_Inr)
  have mem: "?P s'" if "import_member env u m s = Inr s'" "?P s" for m s s'
    using that addSpecimen_consistent by (auto simp: import_member_def sum_bind_Inr split: if_splits)
  have "?P st1" by (rule fold_sum_inv [OF s(1), where P = ?P])
      (use assms(2) Collector_Create_ok(2) in \<open>auto simp: import_collector_def sum_bind_Inr Let_def\<close>)
  then have "?P st2" by (rule fold_sum_inv [OF s(2), where P = ?P])
      (use File_Create_consistent in \<open>auto simp: import_file_def sum_bind_Inr Let_def\<close>)
  then have "?P st3" by (rule fold_sum_inv [OF s(3), where P = ?P])
      (use Specimen_Create_ok(3) in \<open>auto simp: import_specimen_def sum_bind_Inr Let_def\<close>)
  then have "?P st4" by (rule fold_sum_inv [OF s(4), where P = ?P])
      (use Photo_Create_consistent in \<open>auto simp: import_photo_def sum_bind_Inr\<close>)
  then have "?P st5"
  proof (rule fold_sum_inv [OF s(5), where P = ?P])
    fix e s s'
    assume "import_entry env u e s = Inr s'" "?P s"
    then obtain d where d: "JournalEntry_Create u (entry_row (im_specimens s) e (ie_newID env (im_next s))) (im_db s) = Inr d"
      "fold_sum (import_attachment (ie_newID env (im_next s))) (jr_Attachments e) (s\<lparr>im_db := d, im_next := Suc (im_next s)\<rparr>) = Inr s'"
      by (auto simp: import_entry_def sum_bind_Inr Let_def)
    have "consistent d" using Entry_Create_ok(2) [OF d(1)] \<open>?P s\<close> by blast
    then show "?P s'" by (intro fold_sum_inv [OF d(2), where P = ?P]) (use att in auto)
  qed
  then have "?P st6" by (rule fold_sum_inv [OF s(6), where P = ?P])
      (use replaceChain_consistent in \<open>auto simp: import_chain_def sum_bind_Inr split: if_splits\<close>)
  then have "?P st'"
  proof (cases "p_qrsheets p = [] \<or> p_skipQRSheet p")
    case True
    then show ?thesis using s(7) \<open>?P st6\<close> by (auto simp: import_sheet_def split: list.splits)
  next
    case False
    then obtain qc qcs where q: "p_qrsheets p = qc # qcs" by (cases "p_qrsheets p") auto
    obtain sh d where d: "QRSheet_Create sh (im_db st6) = Inr d"
      "fold_sum (import_member env u) (sort_key qm_Position (qc_Specimens qc)) (st6\<lparr>im_db := d, im_next := Suc (im_next st6)\<rparr>) = Inr st'"
      using s(7) False by (auto simp: import_sheet_def q sum_bind_Inr)
    have "consistent d" using QRSheet_Create_ok(4) [OF d(1)] \<open>?P st6\<close> by blast
    then show ?thesis by (intro fold_sum_inv [OF d(2), where P = ?P]) (use mem in auto)
  qed
  then show thesis using that [OF s] \<open>?P st3\<close> \<open>?P st6\<close> by blast
qed


section \<open>The rows of an archive\<close>

text \<open>
  The rows a record stands for, as rows of the caller; the new identifiers of collectors, files and specimens are the
  functions \<open>cid\<close>, \<open>fid\<close> and \<open>sid\<close> of the archive's.
\<close>

definition imported_collector :: "auth_User \<Rightarrow> CollectorRecord \<Rightarrow> uuid \<Rightarrow> Collector" where
  "imported_collector u c i = \<lparr>co_ID = i, co_Name = cr_Name c, co_Notes = cr_Notes c, co_AuthorID = u_ID u,
     co_CreatedAt = cr_CreatedAt c, co_UpdatedAt = cr_UpdatedAt c\<rparr>"

definition imported_file :: "'img import_env \<Rightarrow> auth_User \<Rightarrow> FileRecord \<Rightarrow> uuid \<Rightarrow> File" where
  "imported_file env u f i = \<lparr>fi_ID = i, fi_S3Key = ''files/'' @ ie_str env i, fi_ContentType = af_ContentType f, fi_ByteSize = af_ByteSize f,
     fi_SHA256 = af_SHA256 f, fi_UploadedAt = af_UploadedAt f, fi_UploadedBy = u_ID u\<rparr>"

text \<open>The payload: an empty object when there is none, else the canonical text of a valid struct of the type.\<close>

definition imported_type_data :: "value_codec \<Rightarrow> SpecimenRecord \<Rightarrow> string \<Rightarrow> bool" where
  "imported_type_data vc s td \<longleftrightarrow>
     (let raw = (case sr_TypeData s of None \<Rightarrow> [] | Some v \<Rightarrow> json_print v) in
      if trimSpace raw = [] \<or> trimSpace raw = ''null'' then td = ''{}''
      else \<exists>x. unmarshal_struct (decode_type_data vc (sr_Type s)) raw = Some x \<and> validate_type_data x = None \<and> td = canonical vc x)"

definition imported_specimen ::
  "value_codec \<Rightarrow> auth_User \<Rightarrow> (string \<Rightarrow> string option) \<Rightarrow> (string \<Rightarrow> uuid) \<Rightarrow> (string \<Rightarrow> uuid) \<Rightarrow> SpecimenRecord \<Rightarrow> Specimen \<Rightarrow> bool" where
  "imported_specimen vc u given fid sid s row \<longleftrightarrow>
     (\<exists>loc dims td. struct_read (says_locality vc) (sr_Locality s) loc \<and> struct_read (says_dimensions vc) (sr_Dimensions s) dims \<and>
        imported_type_data vc s td \<and>
        row = \<lparr>sp_ID = sid (sr_ID s), sp_Type = sr_Type s, sp_CatalogNumber = given (sr_ID s), sp_Name = sr_Name s,
          sp_Description = sr_Description s, sp_Visibility = sr_Visibility s, sp_AuthorID = u_ID u, sp_AcquiredAt = sr_AcquiredAt s,
          sp_AcquiredFrom = sr_AcquiredFrom s, sp_PriceCents = map_option word_of_int (sr_PriceCents s),
          sp_SourceNotes = sr_SourceNotes s, sp_LocalityText = sr_LocalityText s, sp_Locality = loc, sp_MassG = sr_MassG s,
          sp_Dimensions = dims, sp_TypeData = td, sp_MainImageID = map_option fid (sr_MainImageFileID s),
          sp_VisibilityPrice = sr_VisibilityPrice s, sp_VisibilityAcquiredFrom = sr_VisibilityAcquiredFrom s,
          sp_VisibilityImages = sr_VisibilityImages s, sp_Tagged = sr_Tagged s, sp_CreatedAt = sr_CreatedAt s, sp_UpdatedAt = sr_UpdatedAt s\<rparr>)"

definition imported_photo :: "(string \<Rightarrow> uuid) \<Rightarrow> (string \<Rightarrow> uuid) \<Rightarrow> PhotoRecord \<Rightarrow> uuid \<Rightarrow> Photo" where
  "imported_photo fid sid ph i = \<lparr>ph_ID = i, ph_SpecimenID = sid (pr_SpecimenID ph), ph_FileID = fid (pr_FileID ph),
     ph_Kind = (if pr_Kind ph = [] then ''visible'' else pr_Kind ph), ph_TakenAt = pr_TakenAt ph, ph_Position = pr_Position ph,
     ph_Visibility = pr_Visibility ph, ph_CreatedAt = pr_CreatedAt ph\<rparr>"

definition imported_entry :: "auth_User \<Rightarrow> (string \<Rightarrow> uuid) \<Rightarrow> JournalEntryRecord \<Rightarrow> uuid \<Rightarrow> JournalEntry" where
  "imported_entry u sid e i = \<lparr>je_ID = i, je_SpecimenID = sid (jr_SpecimenID e), je_AuthorID = u_ID u, je_BodyMD = jr_BodyMD e,
     je_CreatedAt = jr_CreatedAt e, je_UpdatedAt = jr_UpdatedAt e\<rparr>"

definition imported_attachments :: "(string \<Rightarrow> uuid) \<Rightarrow> JournalEntryRecord \<Rightarrow> uuid \<Rightarrow> JournalEntryFile list" where
  "imported_attachments fid e i = map (\<lambda>a. \<lparr>jf_EntryID = i, jf_FileID = fid (ja_FileID a), jf_Position = ja_Position a,
     jf_CreatedAt = ja_CreatedAt a\<rparr>) (jr_Attachments e)"

definition imported_links :: "(string \<Rightarrow> uuid) \<Rightarrow> (string \<Rightarrow> uuid) \<Rightarrow> SpecimenRecord \<Rightarrow> SpecimenCollectorRow list" where
  "imported_links cid sid s = map (\<lambda>(k, c). \<lparr>sc_SpecimenID = sid (sr_ID s), sc_CollectorID = cid c, sc_Position = int k\<rparr>)
     (List.enumerate 1 (sr_CollectorIDs s))"

text \<open>The members of a label sheet: each specimen once, in the order of the archive's positions, numbered from 1.\<close>

fun first_of :: "('a \<Rightarrow> 'b) \<Rightarrow> 'b set \<Rightarrow> 'a list \<Rightarrow> 'a list" where
  "first_of f seen [] = []"
| "first_of f seen (x # xs) = (if f x \<in> seen then first_of f seen xs else x # first_of f (insert (f x) seen) xs)"

definition member_rows :: "uuid \<Rightarrow> (string \<Rightarrow> uuid) \<Rightarrow> nat \<Rightarrow> uuid list \<Rightarrow> QRSheetSpecimen list \<Rightarrow> QRSheetSpecimenRow list" where
  "member_rows sheetID sid n ids ms = map (\<lambda>(k, i, m). \<lparr>qr_ID = i, qr_SheetID = sheetID, qr_SpecimenID = sid (qm_SpecimenID m),
     qr_Position = int k, qr_AddedAt = qm_AddedAt m\<rparr>) (List.enumerate n (zip ids ms))"

lemma member_rows_simps [simp]:
  "member_rows sheetID sid n [] [] = []"
  "member_rows sheetID sid n (i # ids) (m # ms) = \<lparr>qr_ID = i, qr_SheetID = sheetID, qr_SpecimenID = sid (qm_SpecimenID m),
     qr_Position = int n, qr_AddedAt = qm_AddedAt m\<rparr> # member_rows sheetID sid (Suc n) ids ms"
  by (simp_all add: member_rows_def)

definition imported_sheet :: "auth_User \<Rightarrow> parsed \<Rightarrow> (string \<Rightarrow> uuid) \<Rightarrow> QRSheet list \<Rightarrow> QRSheetSpecimenRow list \<Rightarrow> bool" where
  "imported_sheet u p sid sheets members \<longleftrightarrow>
     (case p_qrsheets p of
        [] \<Rightarrow> sheets = [] \<and> members = []
      | qc # _ \<Rightarrow>
          if p_skipQRSheet p then sheets = [] \<and> members = []
          else \<exists>i ids. sheets = [\<lparr>qs_ID = i, qs_UserID = u_ID u, qs_Template = qc_Template qc, qs_CreatedAt = qc_CreatedAt qc,
                 qs_UpdatedAt = qc_UpdatedAt qc\<rparr>] \<and>
               (let ms = first_of (\<lambda>m. sid (qm_SpecimenID m)) {} (sort_key qm_Position (qc_Specimens qc)) in
                length ids = length ms \<and> members = member_rows i sid 1 ids ms))"

text \<open>The database with the archive's rows appended, each table in the order of its records.\<close>

definition recreated ::
  "'img import_env \<Rightarrow> auth_User \<Rightarrow> parsed \<Rightarrow> (string \<Rightarrow> uuid) \<Rightarrow> (string \<Rightarrow> uuid) \<Rightarrow> (string \<Rightarrow> uuid) \<Rightarrow> database \<Rightarrow> database \<Rightarrow> bool" where
  "recreated env u p cid fid sid d d' \<longleftrightarrow>
     (\<exists>specimens photoIDs entryIDs sheets members.
        list_all2 (imported_specimen (ie_vc env) u (p_resolvedCat p) fid sid) (p_specimens p) specimens \<and>
        length photoIDs = length (p_photos p) \<and> length entryIDs = length (p_journal p) \<and> imported_sheet u p sid sheets members \<and>
        d' = d\<lparr>db_collectors := db_collectors d @ map (\<lambda>c. imported_collector u c (cid (cr_ID c))) (p_collectors p),
               db_files := db_files d @ map (\<lambda>f. imported_file env u f (fid (af_ID f))) (p_files p),
               db_specimens := db_specimens d @ specimens,
               db_photos := db_photos d @ map2 (imported_photo fid sid) (p_photos p) photoIDs,
               db_journal := db_journal d @ map2 (imported_entry u sid) (p_journal p) entryIDs,
               db_journal_files := db_journal_files d @ concat (map2 (imported_attachments fid) (p_journal p) entryIDs),
               db_specimen_collectors := db_specimen_collectors d @ concat (map (imported_links cid sid) (p_specimens p)),
               db_qr_sheets := db_qr_sheets d @ sheets,
               db_qr_specimens := db_qr_specimens d @ members\<rparr>)"

text \<open>The rows the statements of the transaction write.\<close>

definition created_specimen :: "'img import_env \<Rightarrow> auth_User \<Rightarrow> (string \<Rightarrow> string option) \<Rightarrow> (string \<rightharpoonup> uuid) \<Rightarrow> SpecimenRecord \<Rightarrow> uuid \<Rightarrow> Specimen" where
  "created_specimen env u cat fileMap s i =
     (let td = projr (validateTypeData (ie_ar env) (sr_Type s) (raw_text (sr_TypeData s))) in
      (specimen_row env cat fileMap s td i)\<lparr>sp_AuthorID := u_ID u, sp_TypeData := stored_type_data td\<rparr>)"

lemma row_specs:
  "(collector_row c i)\<lparr>co_AuthorID := u_ID u\<rparr> = imported_collector u c i"
  "(file_row env f i)\<lparr>fi_UploadedBy := u_ID u\<rparr> = imported_file env u f i"
  "photo_row fileMap specimenMap ph i = imported_photo (go_lookup fileMap) (go_lookup specimenMap) ph i"
  "(entry_row specimenMap e i)\<lparr>je_AuthorID := u_ID u\<rparr> = imported_entry u (go_lookup specimenMap) e i"
  "map (attachment_row fileMap i) (jr_Attachments e) = imported_attachments (go_lookup fileMap) e i"
  by (simp_all add: collector_row_def imported_collector_def file_row_def imported_file_def FileBinaryPrefix_def photo_row_def
      imported_photo_def entry_row_def imported_entry_def attachment_row_def imported_attachments_def)

lemma link_rows_spec:
  "link_rows (go_lookup specimenMap (sr_ID s)) 1 (map (go_lookup collectorMap) (sr_CollectorIDs s)) =
     imported_links (go_lookup collectorMap) (go_lookup specimenMap) s"
proof -
  have "map (\<lambda>(k, c). \<lparr>sc_SpecimenID = x, sc_CollectorID = c, sc_Position = int k\<rparr>) (List.enumerate n (map f cs)) =
      map (\<lambda>(k, c). \<lparr>sc_SpecimenID = x, sc_CollectorID = f c, sc_Position = int k\<rparr>) (List.enumerate n cs)" for x f n cs
    by (induction cs arbitrary: n) simp_all
  then show ?thesis by (simp add: link_rows_def imported_links_def)
qed

definition appended ::
  "'img import_env \<Rightarrow> auth_User \<Rightarrow> parsed \<Rightarrow> (string \<rightharpoonup> uuid) \<Rightarrow> (string \<rightharpoonup> uuid) \<Rightarrow> (string \<rightharpoonup> uuid) \<Rightarrow> database \<Rightarrow> database \<Rightarrow> bool" where
  "appended env u p collectorMap fileMap specimenMap d d' \<longleftrightarrow>
     (\<exists>photoIDs entryIDs sheets members. length photoIDs = length (p_photos p) \<and> length entryIDs = length (p_journal p) \<and>
        imported_sheet u p (go_lookup specimenMap) sheets members \<and>
        d' = d\<lparr>db_collectors := db_collectors d @ map (\<lambda>c. imported_collector u c (go_lookup collectorMap (cr_ID c))) (p_collectors p),
               db_files := db_files d @ map (\<lambda>f. imported_file env u f (go_lookup fileMap (af_ID f))) (p_files p),
               db_specimens := db_specimens d @
                 map (\<lambda>s. created_specimen env u (p_resolvedCat p) fileMap s (go_lookup specimenMap (sr_ID s))) (p_specimens p),
               db_photos := db_photos d @ map2 (imported_photo (go_lookup fileMap) (go_lookup specimenMap)) (p_photos p) photoIDs,
               db_journal := db_journal d @ map2 (imported_entry u (go_lookup specimenMap)) (p_journal p) entryIDs,
               db_journal_files := db_journal_files d @ concat (map2 (imported_attachments (go_lookup fileMap)) (p_journal p) entryIDs),
               db_specimen_collectors := db_specimen_collectors d @
                 concat (map (imported_links (go_lookup collectorMap) (go_lookup specimenMap)) (p_specimens p)),
               db_qr_sheets := db_qr_sheets d @ sheets,
               db_qr_specimens := db_qr_specimens d @ members\<rparr>)"

section \<open>Each phase\<close>

lemma collectors_phase:
  assumes "fold_sum (import_collector env u) cs st = Inr st'" and "distinct (map cr_ID cs)"
  shows "im_db st' = (im_db st)\<lparr>db_collectors := db_collectors (im_db st) @ map (\<lambda>c. imported_collector u c (go_lookup (im_collectors st') (cr_ID c))) cs\<rparr>"
    "im_files st' = im_files st" "im_specimens st' = im_specimens st"
proof -
  let ?T = "\<lambda>s. db_collectors (im_db s)" and ?G = "\<lambda>s. ((im_db s)\<lparr>db_collectors := []\<rparr>, im_files s, im_specimens s)"
  have "?T st' = ?T st @ map (\<lambda>c. imported_collector u c (go_lookup (im_collectors st') (cr_ID c))) cs \<and> ?G st' = ?G st \<and>
    (\<forall>k. k \<notin> cr_ID ` set cs \<longrightarrow> im_collectors st' k = im_collectors st k) \<and> (\<forall>x\<in>set cs. im_collectors st' (cr_ID x) \<noteq> None)"
  proof (rule fold_keyed [where row = "\<lambda>g. imported_collector u" and T = ?T and G = ?G and M = im_collectors and key = cr_ID, OF _ assms])
    fix c s s'
    assume "import_collector env u c s = Inr s'"
    then show "\<exists>i. ?T s' = ?T s @ [imported_collector u c i] \<and> im_collectors s' = (im_collectors s)(cr_ID c \<mapsto> i) \<and> ?G s' = ?G s"
      using Collector_Create_ok(1) by (fastforce simp: import_collector_def Let_def sum_bind_Inr simp flip: row_specs)
  qed
  then show "im_db st' = (im_db st)\<lparr>db_collectors := db_collectors (im_db st) @ map (\<lambda>c. imported_collector u c (go_lookup (im_collectors st') (cr_ID c))) cs\<rparr>"
    "im_files st' = im_files st" "im_specimens st' = im_specimens st"
    by (cases "im_db st", cases "im_db st'", simp)+
qed

lemma files_phase:
  assumes "fold_sum (import_file env u) fs st = Inr st'" and "distinct (map af_ID fs)"
  shows "im_db st' = (im_db st)\<lparr>db_files := db_files (im_db st) @ map (\<lambda>f. imported_file env u f (go_lookup (im_files st') (af_ID f))) fs\<rparr>"
    "im_collectors st' = im_collectors st" "im_specimens st' = im_specimens st" "\<forall>f\<in>set fs. im_files st' (af_ID f) \<noteq> None"
proof -
  let ?T = "\<lambda>s. db_files (im_db s)" and ?G = "\<lambda>s. ((im_db s)\<lparr>db_files := []\<rparr>, im_collectors s, im_specimens s)"
  have "?T st' = ?T st @ map (\<lambda>f. imported_file env u f (go_lookup (im_files st') (af_ID f))) fs \<and> ?G st' = ?G st \<and>
    (\<forall>k. k \<notin> af_ID ` set fs \<longrightarrow> im_files st' k = im_files st k) \<and> (\<forall>x\<in>set fs. im_files st' (af_ID x) \<noteq> None)"
  proof (rule fold_keyed [where row = "\<lambda>g. imported_file env u" and T = ?T and G = ?G and M = im_files and key = af_ID, OF _ assms])
    fix f s s'
    assume "import_file env u f s = Inr s'"
    then show "\<exists>i. ?T s' = ?T s @ [imported_file env u f i] \<and> im_files s' = (im_files s)(af_ID f \<mapsto> i) \<and> ?G s' = ?G s"
      using File_Create_ok(1) by (fastforce simp: import_file_def Let_def sum_bind_Inr simp flip: row_specs)
  qed
  then show "im_db st' = (im_db st)\<lparr>db_files := db_files (im_db st) @ map (\<lambda>f. imported_file env u f (go_lookup (im_files st') (af_ID f))) fs\<rparr>"
    "im_collectors st' = im_collectors st" "im_specimens st' = im_specimens st" "\<forall>f\<in>set fs. im_files st' (af_ID f) \<noteq> None"
    by (cases "im_db st", cases "im_db st'", simp)+
qed

lemma specimens_phase:
  assumes "fold_sum (import_specimen env u cat) ss st = Inr st'" and "distinct (map sr_ID ss)"
  shows "im_db st' = (im_db st)\<lparr>db_specimens := db_specimens (im_db st) @
      map (\<lambda>s. created_specimen env u cat (im_files st) s (go_lookup (im_specimens st') (sr_ID s))) ss\<rparr>"
    "im_collectors st' = im_collectors st" "im_files st' = im_files st"
proof -
  let ?T = "\<lambda>s. db_specimens (im_db s)" and ?G = "\<lambda>s. ((im_db s)\<lparr>db_specimens := []\<rparr>, im_collectors s, im_files s)"
  let ?row = "\<lambda>g s i. created_specimen env u cat (snd (snd g)) s i"
  have "?T st' = ?T st @ map (\<lambda>s. ?row (?G st) s (go_lookup (im_specimens st') (sr_ID s))) ss \<and> ?G st' = ?G st \<and>
    (\<forall>k. k \<notin> sr_ID ` set ss \<longrightarrow> im_specimens st' k = im_specimens st k) \<and> (\<forall>x\<in>set ss. im_specimens st' (sr_ID x) \<noteq> None)"
  proof (rule fold_keyed [where row = ?row and T = ?T and G = ?G and M = im_specimens and key = sr_ID, OF _ assms])
    fix x s s'
    assume "import_specimen env u cat x s = Inr s'"
    then obtain td d where td: "validateTypeData (ie_ar env) (sr_Type x) (raw_text (sr_TypeData x)) = Inr td"
      and d: "SpecimenPostgres_Create u (specimen_row env cat (im_files s) x td (ie_newID env (im_next s))) (im_db s) = Inr d"
      and s': "s' = s\<lparr>im_db := d, im_next := Suc (im_next s), im_specimens := (im_specimens s)(sr_ID x \<mapsto> ie_newID env (im_next s))\<rparr>"
      by (auto simp: import_specimen_def Let_def sum_bind_Inr map_sum_Inr)
    show "\<exists>i. ?T s' = ?T s @ [?row (?G s) x i] \<and> im_specimens s' = (im_specimens s)(sr_ID x \<mapsto> i) \<and> ?G s' = ?G s"
      unfolding s' Specimen_Create_ok(1) [OF d]
      by (rule exI [of _ "ie_newID env (im_next s)"]) (simp add: created_specimen_def td specimen_row_def)
  qed
  then show "im_db st' = (im_db st)\<lparr>db_specimens := db_specimens (im_db st) @
      map (\<lambda>s. created_specimen env u cat (im_files st) s (go_lookup (im_specimens st') (sr_ID s))) ss\<rparr>"
    "im_collectors st' = im_collectors st" "im_files st' = im_files st"
    by (cases "im_db st", cases "im_db st'", simp)+
qed

lemma photos_phase:
  assumes "fold_sum (import_photo env) phs st = Inr st'"
  shows "\<exists>ids. length ids = length phs \<and>
      im_db st' = (im_db st)\<lparr>db_photos := db_photos (im_db st) @ map2 (imported_photo (go_lookup (im_files st)) (go_lookup (im_specimens st))) phs ids\<rparr> \<and>
      im_collectors st' = im_collectors st \<and> im_files st' = im_files st \<and> im_specimens st' = im_specimens st"
proof -
  let ?T = "\<lambda>s. db_photos (im_db s)" and ?G = "\<lambda>s. ((im_db s)\<lparr>db_photos := []\<rparr>, im_collectors s, im_files s, im_specimens s)"
  let ?row = "\<lambda>g. imported_photo (go_lookup (fst (snd (snd g)))) (go_lookup (snd (snd (snd g))))"
  have "\<exists>ids. length ids = length phs \<and> ?T st' = ?T st @ map2 (?row (?G st)) phs ids \<and>
    ([] :: unit list) = [] @ concat (map2 (\<lambda>_ _. []) phs ids) \<and> ?G st' = ?G st"
  proof (rule fold_rows [where row = ?row and T = ?T and G = ?G and U = "\<lambda>_. []" and more' = "\<lambda>_ _ _. []", OF _ assms])
    fix x s s'
    assume "import_photo env x s = Inr s'"
    then obtain d where d: "PhotoPostgres_Create (photo_row (im_files s) (im_specimens s) x (ie_newID env (im_next s))) (im_db s) = Inr d"
      and s': "s' = s\<lparr>im_db := d, im_next := Suc (im_next s)\<rparr>"
      by (auto simp: import_photo_def sum_bind_Inr)
    have k: "default_kind (photo_row fm sm x i) = photo_row fm sm x i" for fm sm i by (simp add: default_kind_def photo_row_def)
    note k' = k [unfolded row_specs]
    show "\<exists>i. ?T s' = ?T s @ [?row (?G s) x i] \<and> ([] :: unit list) = [] @ [] \<and> ?G s' = ?G s"
      unfolding s' Photo_Create_ok(1) [OF d] row_specs k' by (rule exI [of _ "ie_newID env (im_next s)"]) simp
  qed
  then obtain ids where "length ids = length phs" "?T st' = ?T st @ map2 (?row (?G st)) phs ids" "?G st' = ?G st" by blast
  then show ?thesis by (intro exI [of _ ids]) (cases "im_db st", cases "im_db st'", simp)
qed


lemma attachments_phase:
  assumes "fold_sum (import_attachment i) as st = Inr st'"
  shows "st' = st\<lparr>im_db := (im_db st)\<lparr>db_journal_files := db_journal_files (im_db st) @ map (attachment_row (im_files st) i) as\<rparr>\<rparr>"
  using assms
proof (induction as arbitrary: st)
  case (Cons a as)
  obtain d where d: "Attachment_Create (attachment_row (im_files st) i a) (im_db st) = Inr d"
    and rest: "fold_sum (import_attachment i) as (st\<lparr>im_db := d\<rparr>) = Inr st'"
    using Cons.prems by (auto simp: import_attachment_def [of i a st] sum_bind_Inr)
  show ?case using Cons.IH [OF rest] by (simp add: Attachment_Create_ok(1) [OF d])
qed simp

lemma entries_phase:
  assumes "fold_sum (import_entry env u) es st = Inr st'"
  shows "\<exists>ids. length ids = length es \<and>
      im_db st' = (im_db st)\<lparr>db_journal := db_journal (im_db st) @ map2 (imported_entry u (go_lookup (im_specimens st))) es ids,
        db_journal_files := db_journal_files (im_db st) @ concat (map2 (imported_attachments (go_lookup (im_files st))) es ids)\<rparr> \<and>
      im_collectors st' = im_collectors st \<and> im_files st' = im_files st \<and> im_specimens st' = im_specimens st"
proof -
  let ?T = "\<lambda>s. db_journal (im_db s)" and ?U = "\<lambda>s. db_journal_files (im_db s)"
  let ?G = "\<lambda>s. ((im_db s)\<lparr>db_journal := [], db_journal_files := []\<rparr>, im_collectors s, im_files s, im_specimens s)"
  let ?row = "\<lambda>g. imported_entry u (go_lookup (snd (snd (snd g))))" and ?more = "\<lambda>g. imported_attachments (go_lookup (fst (snd (snd g))))"
  have "\<exists>ids. length ids = length es \<and> ?T st' = ?T st @ map2 (?row (?G st)) es ids \<and>
    ?U st' = ?U st @ concat (map2 (?more (?G st)) es ids) \<and> ?G st' = ?G st"
  proof (rule fold_rows [where row = ?row and T = ?T and G = ?G and U = ?U and more' = ?more, OF _ assms])
    fix e s s'
    assume "import_entry env u e s = Inr s'"
    then obtain d where d: "JournalEntry_Create u (entry_row (im_specimens s) e (ie_newID env (im_next s))) (im_db s) = Inr d"
      and atts: "fold_sum (import_attachment (ie_newID env (im_next s))) (jr_Attachments e) (s\<lparr>im_db := d, im_next := Suc (im_next s)\<rparr>) = Inr s'"
      by (auto simp: import_entry_def Let_def sum_bind_Inr)
    show "\<exists>i. ?T s' = ?T s @ [?row (?G s) e i] \<and> ?U s' = ?U s @ ?more (?G s) e i \<and> ?G s' = ?G s"
      unfolding attachments_phase [OF atts] Entry_Create_ok(1) [OF d]
      by (rule exI [of _ "ie_newID env (im_next s)"]) (simp add: row_specs)
  qed
  then obtain ids where "length ids = length es" "?T st' = ?T st @ map2 (?row (?G st)) es ids"
    "?U st' = ?U st @ concat (map2 (?more (?G st)) es ids)" "?G st' = ?G st" by blast
  then show ?thesis by (intro exI [of _ ids]) (cases "im_db st", cases "im_db st'", simp)
qed

text \<open>Chains of specimens that have no links yet: replacing them appends.\<close>

lemma insert_links_Inr:
  "insert_links sid n ids d = Inr d' \<Longrightarrow> d' = d\<lparr>db_specimen_collectors := db_specimen_collectors d @ link_rows sid n ids\<rparr>"
proof (induction ids arbitrary: n d)
  case (Cons i ids)
  let ?d = "d\<lparr>db_specimen_collectors := db_specimen_collectors d @ [\<lparr>sc_SpecimenID = sid, sc_CollectorID = i, sc_Position = int n\<rparr>]\<rparr>"
  have "insert_links sid (Suc n) ids ?d = Inr d'" using Cons.prems by (auto split: if_splits)
  from Cons.IH [OF this] show ?case by simp
qed simp

lemma replaceChain_fresh:
  assumes "replaceChainTx sid ids d = Inr (x, d')" and "sid \<notin> sc_SpecimenID ` set (db_specimen_collectors d)"
  shows "d' = d\<lparr>db_specimen_collectors := db_specimen_collectors d @ link_rows sid 1 ids\<rparr>"
proof -
  have all: "filter (\<lambda>r. sc_SpecimenID r \<noteq> sid) (db_specimen_collectors d) = db_specimen_collectors d"
    using assms(2) by (auto intro: filter_True)
  have "insert_links sid 1 ids d = Inr d'"
    using assms(1) unfolding replaceChainTx_def all
    by (cases "insert_links sid 1 ids d") (auto split: if_splits)
  then show ?thesis by (rule insert_links_Inr)
qed

lemma chains_phase:
  assumes "fold_sum import_chain ss st = Inr st'"
    and "distinct (map (\<lambda>s. go_lookup (im_specimens st) (sr_ID s)) ss)"
    and "\<forall>s\<in>set ss. go_lookup (im_specimens st) (sr_ID s) \<notin> sc_SpecimenID ` set (db_specimen_collectors (im_db st))"
  shows "st' = st\<lparr>im_db := (im_db st)\<lparr>db_specimen_collectors := db_specimen_collectors (im_db st) @
    concat (map (imported_links (go_lookup (im_collectors st)) (go_lookup (im_specimens st))) ss)\<rparr>\<rparr>"
  using assms
proof (induction ss arbitrary: st)
  case (Cons s ss)
  obtain st1 where s1: "import_chain s st = Inr st1" "fold_sum import_chain ss st1 = Inr st'"
    using Cons.prems(1) by (auto simp: sum_bind_Inr)
  let ?l = "imported_links (go_lookup (im_collectors st)) (go_lookup (im_specimens st)) s"
  have st1: "st1 = st\<lparr>im_db := (im_db st)\<lparr>db_specimen_collectors := db_specimen_collectors (im_db st) @ ?l\<rparr>\<rparr>"
  proof (cases "sr_CollectorIDs s = []")
    case True
    then show ?thesis using s1(1) by (simp add: import_chain_def imported_links_def)
  next
    case False
    then obtain x d where d: "replaceChainTx (go_lookup (im_specimens st) (sr_ID s)) (map (go_lookup (im_collectors st)) (sr_CollectorIDs s)) (im_db st) = Inr (x, d)"
      and "st1 = st\<lparr>im_db := d\<rparr>"
      using s1(1) by (auto simp: import_chain_def sum_bind_Inr)
    then show ?thesis using replaceChain_fresh [OF d] Cons.prems(3) unfolding link_rows_spec by simp
  qed
  have fresh: "go_lookup (im_specimens st) (sr_ID x) \<notin> sc_SpecimenID ` set ?l" if "x \<in> set ss" for x
  proof
    assume "go_lookup (im_specimens st) (sr_ID x) \<in> sc_SpecimenID ` set ?l"
    then have "go_lookup (im_specimens st) (sr_ID x) = go_lookup (im_specimens st) (sr_ID s)"
      using set_link_rows unfolding link_rows_spec [symmetric] by fastforce
    moreover have "go_lookup (im_specimens st) (sr_ID x) \<in> (\<lambda>s. go_lookup (im_specimens st) (sr_ID s)) ` set ss" using that by blast
    ultimately show False using Cons.prems(2) by simp
  qed
  have "st' = st1\<lparr>im_db := (im_db st1)\<lparr>db_specimen_collectors := db_specimen_collectors (im_db st1) @
      concat (map (imported_links (go_lookup (im_collectors st1)) (go_lookup (im_specimens st1))) ss)\<rparr>\<rparr>"
    by (rule Cons.IH [OF s1(2)]) (use Cons.prems(2,3) fresh in \<open>auto simp: st1\<close>)
  then show ?case by (simp add: st1)
qed simp

text \<open>Positions on the new sheet count up from 1.\<close>

lemma next_position_count:
  assumes "filter (\<lambda>r. qr_SheetID r = i) (db_qr_specimens d) = rows" and "map qr_Position rows = map int [1..<Suc (length rows)]"
  shows "next_position d i = int (Suc (length rows))"
proof (cases rows)
  case (Cons r rs)
  have "set (map qr_Position rows) = int ` {1..<Suc (length rows)}" unfolding assms(2) by (simp only: set_map set_upt)
  moreover have "1 \<le> length rows" using Cons by simp
  then have "Max (int ` {1..<Suc (length rows)}) = int (length rows)" by (intro Max_eqI imageI) auto
  ultimately show ?thesis using assms(1) Cons by (simp add: next_position_def)
qed (use assms in \<open>simp add: next_position_def\<close>)

lemma members_phase:
  assumes "fold_sum (import_member env u) ms st = Inr st'"
    and "find (\<lambda>s. qs_UserID s = u_ID u) (db_qr_sheets (im_db st)) = Some sh"
    and "db_qr_specimens (im_db st) = base @ rows" and "\<forall>r\<in>set base. qr_SheetID r \<noteq> qs_ID sh" and "\<forall>r\<in>set rows. qr_SheetID r = qs_ID sh"
    and "map qr_Position rows = map int [1..<Suc (length rows)]" and "g = (\<lambda>m. go_lookup (im_specimens st) (qm_SpecimenID m))"
  shows "\<exists>ids. length ids = length (first_of g (qr_SpecimenID ` set rows) ms) \<and>
    im_db st' = (im_db st)\<lparr>db_qr_specimens := base @ rows @
      member_rows (qs_ID sh) (go_lookup (im_specimens st)) (Suc (length rows)) ids (first_of g (qr_SpecimenID ` set rows) ms)\<rparr>"
  using assms
proof (induction ms arbitrary: st rows)
  case Nil
  then show ?case by (cases "im_db st") simp
next
  case (Cons m ms)
  let ?i = "go_lookup (im_specimens st) (qm_SpecimenID m)"
  have g: "g m = ?i" using Cons.prems(7) by simp
  obtain d where d: "addSpecimenTx (ie_newID env (im_next st)) (u_ID u) ?i (qm_AddedAt m) (im_db st) = Inr (False, d)"
    and rest: "fold_sum (import_member env u) ms (st\<lparr>im_db := d, im_next := Suc (im_next st)\<rparr>) = Inr st'"
    using Cons.prems(1) by (auto simp: import_member_def [of env u m st] sum_bind_Inr split: if_splits)
  have on: "(\<exists>r\<in>set (db_qr_specimens (im_db st)). qr_SheetID r = qs_ID sh \<and> qr_SpecimenID r = ?i) \<longleftrightarrow> ?i \<in> qr_SpecimenID ` set rows"
    unfolding Cons.prems(3) set_append using Cons.prems(4,5) by (auto simp: image_iff eq_commute)
  show ?case
  proof (cases "?i \<in> qr_SpecimenID ` set rows")
    case True
    then have "d = im_db st" using d on by (simp add: addSpecimenTx_def Cons.prems(2))
    then show ?thesis using Cons.IH [OF rest, of rows] Cons.prems(2-7) True g by simp
  next
    case False
    then have no: "\<not> (\<exists>r\<in>set (db_qr_specimens (im_db st)). qr_SheetID r = qs_ID sh \<and> qr_SpecimenID r = ?i)" using on by blast
    have "filter (\<lambda>r. qr_SheetID r = qs_ID sh) (db_qr_specimens (im_db st)) = rows"
      unfolding Cons.prems(3) using Cons.prems(4,5) by (simp add: filter_empty_conv)
    note pos = next_position_count [OF this Cons.prems(6)]
    define row where "row = \<lparr>qr_ID = ie_newID env (im_next st), qr_SheetID = qs_ID sh, qr_SpecimenID = ?i,
        qr_Position = int (Suc (length rows)), qr_AddedAt = qm_AddedAt m\<rparr>"
    have d1: "d = (im_db st)\<lparr>db_qr_specimens := base @ (rows @ [row])\<rparr>"
      using d unfolding addSpecimenTx_def Cons.prems(2) option.case if_not_P [OF no] pos
      by (simp add: Cons.prems(3) row_def split: if_splits)
    have "map qr_Position (rows @ [row]) = map int [1..<Suc (length (rows @ [row]))]"
      using Cons.prems(6) by (simp add: row_def)
    then obtain ids where ids: "length ids = length (first_of g (qr_SpecimenID ` set (rows @ [row])) ms)"
      "im_db st' = d\<lparr>db_qr_specimens := base @ (rows @ [row]) @
        member_rows (qs_ID sh) (go_lookup (im_specimens st)) (Suc (length (rows @ [row]))) ids (first_of g (qr_SpecimenID ` set (rows @ [row])) ms)\<rparr>"
      using Cons.IH [OF rest, of "rows @ [row]"] Cons.prems(2,4,5,7) by (auto simp: d1 row_def)
    have seen: "qr_SpecimenID ` set (rows @ [row]) = insert (g m) (qr_SpecimenID ` set rows)" by (simp add: row_def g)
    show ?thesis
      using ids False unfolding seen
      by (intro exI [of _ "ie_newID env (im_next st) # ids"]) (simp add: g d1 row_def)
  qed
qed

lemma sheet_phase:
  assumes "import_sheet env u p st = Inr st'" and "fk_ok (im_db st)"
  shows "\<exists>sheets members. imported_sheet u p (go_lookup (im_specimens st)) sheets members \<and>
    im_db st' = (im_db st)\<lparr>db_qr_sheets := db_qr_sheets (im_db st) @ sheets, db_qr_specimens := db_qr_specimens (im_db st) @ members\<rparr>"
proof (cases "p_qrsheets p = [] \<or> p_skipQRSheet p")
  case True
  then have "st' = st" "imported_sheet u p (go_lookup (im_specimens st)) [] []"
    using assms(1) by (auto simp: import_sheet_def imported_sheet_def split: list.splits)
  then show ?thesis by (intro exI [of _ "[]"]) (cases "im_db st", simp)
next
  case False
  then obtain qc qcs where q: "p_qrsheets p = qc # qcs" by (cases "p_qrsheets p") auto
  define sh where "sh = \<lparr>qs_ID = ie_newID env (im_next st), qs_UserID = u_ID u, qs_Template = qc_Template qc,
    qs_CreatedAt = qc_CreatedAt qc, qs_UpdatedAt = qc_UpdatedAt qc\<rparr>"
  define g where "g = (\<lambda>m :: QRSheetSpecimen. go_lookup (im_specimens st) (qm_SpecimenID m))"
  define ms where "ms = first_of g {} (sort_key qm_Position (qc_Specimens qc))"
  obtain d where d: "QRSheet_Create sh (im_db st) = Inr d"
    and steps: "fold_sum (import_member env u) (sort_key qm_Position (qc_Specimens qc)) (st\<lparr>im_db := d, im_next := Suc (im_next st)\<rparr>) = Inr st'"
    using assms(1) False by (auto simp: import_sheet_def q sum_bind_Inr sh_def)
  note d' = QRSheet_Create_ok(1) [OF d] and new = QRSheet_Create_ok(2,3) [OF d]
  have "find (\<lambda>s. qs_UserID s = u_ID u) (db_qr_sheets (im_db st)) = None" using new(2) unfolding find_None_iff by (force simp: sh_def)
  then have f: "find (\<lambda>s. qs_UserID s = u_ID u) (db_qr_sheets d) = Some sh" by (simp add: d' find_append sh_def)
  have base: "\<forall>r\<in>set (db_qr_specimens (im_db st)). qr_SheetID r \<noteq> qs_ID sh"
  proof
    fix r
    assume "r \<in> set (db_qr_specimens (im_db st))"
    then have "qr_SheetID r \<in> qs_ID ` set (db_qr_sheets (im_db st))" using assms(2) by (simp add: fk_ok_def refs_def)
    then show "qr_SheetID r \<noteq> qs_ID sh" using new(1) by metis
  qed
  obtain ids where ids: "length ids = length ms"
    "im_db st' = d\<lparr>db_qr_specimens := db_qr_specimens (im_db st) @ member_rows (qs_ID sh) (go_lookup (im_specimens st)) 1 ids ms\<rparr>"
    using members_phase [OF steps, of sh "db_qr_specimens (im_db st)" "[]" g] f base by (auto simp: d' g_def ms_def)
  have "imported_sheet u p (go_lookup (im_specimens st)) [sh] (member_rows (qs_ID sh) (go_lookup (im_specimens st)) 1 ids ms)"
    using False ids(1) unfolding imported_sheet_def q list.case Let_def
    by (auto simp: sh_def ms_def g_def)
  then show ?thesis using ids(2) by (intro exI) (auto simp: d')
qed


section \<open>The commit as a whole\<close>

lemma sheet_maps:
  assumes "import_sheet env u p st = Inr st'"
  shows "im_collectors st' = im_collectors st \<and> im_files st' = im_files st \<and> im_specimens st' = im_specimens st"
proof (cases "p_qrsheets p = [] \<or> p_skipQRSheet p")
  case True
  then show ?thesis using assms by (auto simp: import_sheet_def split: list.splits)
next
  case False
  then obtain qc qcs where q: "p_qrsheets p = qc # qcs" by (cases "p_qrsheets p") auto
  obtain d where "fold_sum (import_member env u) (sort_key qm_Position (qc_Specimens qc)) (st\<lparr>im_db := d, im_next := Suc (im_next st)\<rparr>) = Inr st'"
    using assms False by (auto simp: import_sheet_def q sum_bind_Inr)
  then show ?thesis
    by (rule fold_sum_inv [where P = "\<lambda>s. im_collectors s = im_collectors st \<and> im_files s = im_files st \<and> im_specimens s = im_specimens st"])
      (auto simp: import_member_def sum_bind_Inr split: if_splits)
qed

lemma go_lookup_fresh:
  assumes "distinct (map k (xs @ map (\<lambda>x. row x (go_lookup m (key x))) ys))" and "\<And>x i. k (row x i) = i"
  shows "distinct (map (\<lambda>y. go_lookup m (key y)) ys)" "\<forall>y\<in>set ys. go_lookup m (key y) \<notin> k ` set xs"
  using assms(1) by (simp_all add: comp_def assms(2)) blast

lemma import_body_rows:
  assumes "import_body env u p (import_start d) = Inr st" and "consistent d"
    and "distinct (map cr_ID (p_collectors p))" "distinct (map af_ID (p_files p))" "distinct (map sr_ID (p_specimens p))"
  shows "appended env u p (im_collectors st) (im_files st) (im_specimens st) d (im_db st) \<and> consistent (im_db st) \<and>
    (\<forall>f\<in>set (p_files p). im_files st (af_ID f) \<noteq> None)"
proof -
  have start: "im_db (import_start d) = d" by (simp add: import_start_def)
  obtain st1 st2 st3 st4 st5 st6 where
    s: "fold_sum (import_collector env u) (p_collectors p) (import_start d) = Inr st1" "fold_sum (import_file env u) (p_files p) st1 = Inr st2"
      "fold_sum (import_specimen env u (p_resolvedCat p)) (p_specimens p) st2 = Inr st3" "fold_sum (import_photo env) (p_photos p) st3 = Inr st4"
      "fold_sum (import_entry env u) (p_journal p) st4 = Inr st5" "fold_sum import_chain (p_specimens p) st5 = Inr st6"
      "import_sheet env u p st6 = Inr st" and ok: "consistent (im_db st3)" "consistent (im_db st6)" "consistent (im_db st)"
    using import_body_steps [OF assms(1)] assms(2) start by metis
  note c = collectors_phase [OF s(1) assms(3), unfolded start] and f = files_phase [OF s(2) assms(4)] and sp = specimens_phase [OF s(3) assms(5)]
  obtain pids where ph: "length pids = length (p_photos p)"
    "im_db st4 = (im_db st3)\<lparr>db_photos := db_photos (im_db st3) @ map2 (imported_photo (go_lookup (im_files st3)) (go_lookup (im_specimens st3))) (p_photos p) pids\<rparr>"
    "im_collectors st4 = im_collectors st3" "im_files st4 = im_files st3" "im_specimens st4 = im_specimens st3"
    using photos_phase [OF s(4)] by blast
  obtain eids where je: "length eids = length (p_journal p)"
    "im_db st5 = (im_db st4)\<lparr>db_journal := db_journal (im_db st4) @ map2 (imported_entry u (go_lookup (im_specimens st4))) (p_journal p) eids,
        db_journal_files := db_journal_files (im_db st4) @ concat (map2 (imported_attachments (go_lookup (im_files st4))) (p_journal p) eids)\<rparr>"
    "im_collectors st5 = im_collectors st4" "im_files st5 = im_files st4" "im_specimens st5 = im_specimens st4"
    using entries_phase [OF s(5)] by blast
  have same: "db_specimen_collectors (im_db st5) = db_specimen_collectors d" "db_specimens (im_db st2) = db_specimens d"
    by (simp_all add: je(2) ph(2) sp(1) f(1) c(1))
  have "distinct (map sp_ID (db_specimens (im_db st3)))" using ok(1) by (simp add: consistent_def keys_ok_def)
  then have fresh: "distinct (map (\<lambda>s. go_lookup (im_specimens st3) (sr_ID s)) (p_specimens p))"
    "\<forall>s\<in>set (p_specimens p). go_lookup (im_specimens st3) (sr_ID s) \<notin> sp_ID ` set (db_specimens d)"
    using go_lookup_fresh [where k = sp_ID and xs = "db_specimens d" and key = sr_ID and m = "im_specimens st3" and ys = "p_specimens p"
        and row = "created_specimen env u (p_resolvedCat p) (im_files st2)"] same(2)
    by (simp_all add: sp(1) created_specimen_def specimen_row_def Let_def)
  have "sc_SpecimenID ` set (db_specimen_collectors d) \<subseteq> sp_ID ` set (db_specimens d)"
    using assms(2) by (auto simp: consistent_def fk_ok_def refs_def)
  then have "st6 = st5\<lparr>im_db := (im_db st5)\<lparr>db_specimen_collectors := db_specimen_collectors (im_db st5) @
    concat (map (imported_links (go_lookup (im_collectors st5)) (go_lookup (im_specimens st5))) (p_specimens p))\<rparr>\<rparr>"
    by (intro chains_phase [OF s(6)]) (use fresh same(1) in \<open>auto simp: je(5) ph(5)\<close>)
  note ch = this
  obtain sheets members where sh: "imported_sheet u p (go_lookup (im_specimens st6)) sheets members"
    "im_db st = (im_db st6)\<lparr>db_qr_sheets := db_qr_sheets (im_db st6) @ sheets, db_qr_specimens := db_qr_specimens (im_db st6) @ members\<rparr>"
    using sheet_phase [OF s(7)] ok(2) by (auto simp: consistent_def)
  have maps: "im_collectors st = im_collectors st1" "im_files st = im_files st2" "im_specimens st = im_specimens st3"
    using sheet_maps [OF s(7)] by (simp_all add: ch je(3-5) ph(3-5) sp(2,3) f(2,3) c(2,3))
  have "im_db st = d\<lparr>db_collectors := db_collectors d @ map (\<lambda>c. imported_collector u c (go_lookup (im_collectors st) (cr_ID c))) (p_collectors p),
      db_files := db_files d @ map (\<lambda>f. imported_file env u f (go_lookup (im_files st) (af_ID f))) (p_files p),
      db_specimens := db_specimens d @
        map (\<lambda>s. created_specimen env u (p_resolvedCat p) (im_files st) s (go_lookup (im_specimens st) (sr_ID s))) (p_specimens p),
      db_photos := db_photos d @ map2 (imported_photo (go_lookup (im_files st)) (go_lookup (im_specimens st))) (p_photos p) pids,
      db_journal := db_journal d @ map2 (imported_entry u (go_lookup (im_specimens st))) (p_journal p) eids,
      db_journal_files := db_journal_files d @ concat (map2 (imported_attachments (go_lookup (im_files st))) (p_journal p) eids),
      db_specimen_collectors := db_specimen_collectors d @ concat (map (imported_links (go_lookup (im_collectors st)) (go_lookup (im_specimens st))) (p_specimens p)),
      db_qr_sheets := db_qr_sheets d @ sheets, db_qr_specimens := db_qr_specimens d @ members\<rparr>"
    unfolding maps by (simp add: sh(2) ch je(2-5) ph(2-5) sp f(1-3) c)
  moreover have found: "\<forall>f\<in>set (p_files p). im_files st (af_ID f) \<noteq> None" using f(4) by (simp add: maps)
  moreover have "imported_sheet u p (go_lookup (im_specimens st)) sheets members" using sh(1) by (simp add: maps ch je(5) ph(5))
  ultimately show ?thesis using ph(1) je(1) ok(3) found unfolding appended_def by blast
qed


section \<open>What validation has checked\<close>

lemma details_empty: "ds_empty (details msgs) \<longleftrightarrow> msgs = []"
proof -
  have add: "\<not> ds_empty (ds_add m ds)" for m ds
    using maxReportedDetails_def by (cases "ds_items ds") (auto simp: ds_add_def ds_empty_def)
  have "ds_empty (fold ds_add msgs ds) \<longleftrightarrow> msgs = [] \<and> ds_empty ds" for ds
    by (induction msgs arbitrary: ds) (auto simp: add)
  then show ?thesis by (simp add: details_def ds_empty_def ds_new_def)
qed

lemma id_problems_Nil:
  "id_problems env kind key checks seen xs = [] \<longleftrightarrow>
     (\<forall>x\<in>set xs. validUUID env (key x) \<and> checks x = []) \<and> distinct (map key xs) \<and> key ` set xs \<inter> set seen = {}"
proof (induction xs arbitrary: seen)
  case (Cons x xs)
  then show ?case by (auto simp: Let_def)
qed simp

text \<open>Identifiers are distinct, every reference is to a record of the archive, and there is at most one sheet.\<close>

definition archive_linked :: "parsed \<Rightarrow> bool" where
  "archive_linked p \<longleftrightarrow>
     distinct (map cr_ID (p_collectors p)) \<and> distinct (map af_ID (p_files p)) \<and> distinct (map sr_ID (p_specimens p)) \<and>
     distinct (map pr_ID (p_photos p)) \<and> distinct (map jr_ID (p_journal p)) \<and> length (p_qrsheets p) \<le> 1 \<and>
     (\<forall>s\<in>set (p_specimens p). set_option (sr_MainImageFileID s) \<subseteq> af_ID ` set (p_files p) \<and>
        set (sr_CollectorIDs s) \<subseteq> cr_ID ` set (p_collectors p)) \<and>
     (\<forall>ph\<in>set (p_photos p). pr_SpecimenID ph \<in> sr_ID ` set (p_specimens p) \<and> pr_FileID ph \<in> af_ID ` set (p_files p)) \<and>
     (\<forall>e\<in>set (p_journal p). jr_SpecimenID e \<in> sr_ID ` set (p_specimens p) \<and> ja_FileID ` set (jr_Attachments e) \<subseteq> af_ID ` set (p_files p)) \<and>
     (\<forall>q\<in>set (p_qrsheets p). qm_SpecimenID ` set (qc_Specimens q) \<subseteq> sr_ID ` set (p_specimens p))"

lemma unknown_ref_Nil: "unknown_ref env who kind (valid_ids env key xs) i = [] \<Longrightarrow> i \<in> key ` set xs"
  by (auto simp: unknown_ref_def valid_ids_def split: if_splits)

lemma unknown_refs_Nil:
  "concat (map (unknown_ref env who kind (valid_ids env key xs)) is) = [] \<Longrightarrow> set is \<subseteq> key ` set xs"
  using unknown_ref_Nil by fastforce

lemma checked_records:
  assumes "checkStructure env p = None"
  shows "archive_linked p" "\<forall>s\<in>set (p_specimens p). specimen_problems env s = []"
proof -
  have none: "invalid_records env p = []" "broken_references env p = []"
    using assms by (auto simp: checkStructure_def Let_def details_empty split: if_splits)
  show "\<forall>s\<in>set (p_specimens p). specimen_problems env s = []" using none(1) by (simp add: invalid_records_def id_problems_Nil)
  have ids: "distinct (map cr_ID (p_collectors p))" "distinct (map af_ID (p_files p))" "distinct (map sr_ID (p_specimens p))"
    "distinct (map pr_ID (p_photos p))" "distinct (map jr_ID (p_journal p))" "length (p_qrsheets p) \<le> 1"
    using none(1) by (simp_all add: invalid_records_def id_problems_Nil split: if_splits)
  have all: "filter (\<lambda>s. validUUID env (sr_ID s)) (p_specimens p) = p_specimens p" "filter (\<lambda>ph. validUUID env (pr_ID ph)) (p_photos p) = p_photos p"
    "filter (\<lambda>e. validUUID env (jr_ID e)) (p_journal p) = p_journal p"
    using none(1) by (auto simp: invalid_records_def id_problems_Nil intro: filter_True)
  note refs = none(2) [unfolded broken_references_def Let_def all append_is_Nil_conv concat_eq_Nil_conv set_map ball_simps]
  have sp: "set_option (sr_MainImageFileID s) \<subseteq> af_ID ` set (p_files p)" "set (sr_CollectorIDs s) \<subseteq> cr_ID ` set (p_collectors p)"
    if s: "s \<in> set (p_specimens p)" for s
  proof -
    note r = bspec [OF conjunct1 [OF refs] s]
    show "set_option (sr_MainImageFileID s) \<subseteq> af_ID ` set (p_files p)"
      using conjunct1 [OF r] by (cases "sr_MainImageFileID s") (auto simp: valid_ids_def split: if_splits)
    show "set (sr_CollectorIDs s) \<subseteq> cr_ID ` set (p_collectors p)" using conjunct2 [OF r] by (blast intro: unknown_ref_Nil)
  qed
  have ph: "pr_SpecimenID ph \<in> sr_ID ` set (p_specimens p) \<and> pr_FileID ph \<in> af_ID ` set (p_files p)" if "ph \<in> set (p_photos p)" for ph
    using refs that by (blast intro: unknown_ref_Nil)
  have je: "jr_SpecimenID e \<in> sr_ID ` set (p_specimens p)" "ja_FileID ` set (jr_Attachments e) \<subseteq> af_ID ` set (p_files p)"
    if "e \<in> set (p_journal p)" for e
    using refs that by (blast intro: unknown_ref_Nil)+
  have qr: "qm_SpecimenID ` set (qc_Specimens q) \<subseteq> sr_ID ` set (p_specimens p)" if "q \<in> set (p_qrsheets p)" for q
    using refs that by (blast intro: unknown_ref_Nil)
  show "archive_linked p" unfolding archive_linked_def using ids sp ph je qr by simp
qed

definition binary_verified :: "archive_env \<Rightarrow> Archive \<Rightarrow> FileRecord \<Rightarrow> bool" where
  "binary_verified av a f \<longleftrightarrow> (\<exists>data. RawFile av (binary_path f) a = Inr data \<and> int (length data) = af_ByteSize f \<and> av_sha256 av data = af_SHA256 f)"

lemma RawFile_cong: "ar_files a = ar_files b \<Longrightarrow> RawFile av path a = RawFile av path b"
  by (simp add: RawFile_def)

lemma OpenFileBinary_files: "OpenFileBinary av path sha n a = (r, a') \<Longrightarrow> ar_files a' = ar_files a"
  by (auto simp: OpenFileBinary_def readWhole_def addInflated_def Let_def split: option.splits sum.splits prod.splits bool.splits)

lemma verify_files_ok:
  "verify_files av fs a = ([], a') \<Longrightarrow> ar_files a' = ar_files a \<and> (\<forall>f\<in>set fs. binary_verified av a' f)"
proof (induction fs arbitrary: a)
  case (Cons f fs)
  obtain data a1 where o: "OpenFileBinary av (binary_path f) (af_SHA256 f) (af_ByteSize f) a = (Inr data, a1)" and rest: "verify_files av fs a1 = ([], a')"
    using Cons.prems by (auto split: prod.splits sum.splits)
  note ih = Cons.IH [OF rest] and ok = OpenFileBinary_ok [OF o]
  have files: "ar_files a' = ar_files a" using ih OpenFileBinary_files [OF o] by simp
  have "RawFile av (binary_path f) a' = Inr data" using ok RawFile_cong [OF files] by simp
  then have "binary_verified av a' f" using ok by (auto simp: binary_verified_def)
  then show ?case using ih files by simp
qed simp

lemma resolveConflicts_same:
  assumes "resolveConflicts env uid d p = Inr p'"
  shows "p_archive p' = p_archive p" "p_collectors p' = p_collectors p" "p_files p' = p_files p" "p_specimens p' = p_specimens p"
    "p_photos p' = p_photos p" "p_journal p' = p_journal p" "p_qrsheets p' = p_qrsheets p"
  using assms by (auto simp: resolveConflicts_def sum_bind_Inr probe_sheet_def with_numbers_def split: if_splits sum.splits)

lemma validate_ok:
  assumes "validate env raw uid d = Inr p"
  shows "archive_linked p" "\<forall>s\<in>set (p_specimens p). specimen_problems env s = []"
    "\<forall>f\<in>set (p_files p). binary_verified (ie_ar env) (p_archive p) f"
    "\<exists>entries. av_zip (ie_ar env) raw = Some entries \<and> archive_says (ie_vc env) entries p" "import_resolved env uid d p"
proof -
  obtain p0 p1 where r0: "read_archive env raw = Inr p0" and p0: "checkStructure env p0 = None"
    and p1: "verifyBinaries (ie_ar env) p0 = Inr p1" and p: "resolveConflicts env uid d p1 = Inr p"
    using assms unfolding validate_def by (auto simp: sum_bind_Inr map_sum_Inr split: option.splits)
  obtain a where a: "verify_files (ie_ar env) (p_files p0) (p_archive p0) = ([], a)" "p1 = p0\<lparr>p_archive := a\<rparr>"
    using p1 by (auto simp: verifyBinaries_def details_empty split: prod.splits if_splits)
  note same = resolveConflicts_same [OF p]
  show "archive_linked p" "\<forall>s\<in>set (p_specimens p). specimen_problems env s = []"
    using checked_records [OF p0] by (simp_all add: same a(2) archive_linked_def)
  show "\<forall>f\<in>set (p_files p). binary_verified (ie_ar env) (p_archive p) f"
    using verify_files_ok [OF a(1)] by (simp add: same a(2))
  note says = read_archive_says [OF r0]
  then show "\<exists>entries. av_zip (ie_ar env) raw = Some entries \<and> archive_says (ie_vc env) entries p"
    by (simp add: archive_says_def same a(2))
  show "import_resolved env uid d p"
    by (rule resolveConflicts_resolved [OF p]) (use says checked_records [OF p0] in \<open>simp_all add: a(2) archive_linked_def\<close>)
qed

text \<open>What the transaction appends are the rows the records stand for.\<close>

lemma created_specimen_spec:
  assumes "specimen_problems env s = []" and "\<forall>f\<in>set_option (sr_MainImageFileID s). fileMap f \<noteq> None"
  shows "imported_specimen (ie_vc env) u cat (go_lookup fileMap) sid s (created_specimen env u cat fileMap s (sid (sr_ID s)))"
proof -
  define raw where "raw = raw_text (sr_TypeData s)"
  have raw: "raw = (case sr_TypeData s of None \<Rightarrow> [] | Some v \<Rightarrow> json_print v)" by (simp add: raw_def raw_text_def)
  obtain td where td: "validateTypeData (ie_ar env) (sr_Type s) raw = Inr td"
    using assms(1) by (auto simp: specimen_problems_def Let_def raw_def split: if_splits sum.splits)
  have data: "imported_type_data (ie_vc env) s td"
    using td unfolding imported_type_data_def raw [symmetric] Let_def validateTypeData_def
    by (auto split: if_splits option.splits)
  have "td \<noteq> []" using td by (auto simp: validateTypeData_def Let_def canonical_def json_print_JObj split: if_splits option.splits)
  then have stored: "stored_type_data td = td" by (simp add: stored_type_data_def)
  have image: "Option.bind (sr_MainImageFileID s) fileMap = map_option (go_lookup fileMap) (sr_MainImageFileID s)"
    using assms(2) by (cases "sr_MainImageFileID s") (auto simp: go_lookup_def)
  show ?thesis
    unfolding imported_specimen_def
    by (rule exI [of _ "decodeLocality (ie_vc env) (sr_Locality s)"], rule exI [of _ "decodeDimensions (ie_vc env) (sr_Dimensions s)"],
        rule exI [of _ td])
      (simp add: structs_read data created_specimen_def raw_def [symmetric] td stored specimen_row_def image Let_def)
qed

lemma appended_recreated:
  assumes "appended env u p cm fm sm d d'" and "archive_linked p" and "\<forall>s\<in>set (p_specimens p). specimen_problems env s = []"
    and "\<forall>f\<in>set (p_files p). fm (af_ID f) \<noteq> None"
  shows "recreated env u p (go_lookup cm) (go_lookup fm) (go_lookup sm) d d'"
proof -
  let ?rows = "map (\<lambda>s. created_specimen env u (p_resolvedCat p) fm s (go_lookup sm (sr_ID s))) (p_specimens p)"
  have "imported_specimen (ie_vc env) u (p_resolvedCat p) (go_lookup fm) (go_lookup sm) s
      (created_specimen env u (p_resolvedCat p) fm s (go_lookup sm (sr_ID s)))" if s: "s \<in> set (p_specimens p)" for s
  proof (rule created_specimen_spec)
    show "specimen_problems env s = []" using assms(3) s by simp
    have "set_option (sr_MainImageFileID s) \<subseteq> af_ID ` set (p_files p)" using assms(2) s by (simp add: archive_linked_def)
    then show "\<forall>f\<in>set_option (sr_MainImageFileID s). fm f \<noteq> None" using assms(4) by blast
  qed
  then have "list_all2 (imported_specimen (ie_vc env) u (p_resolvedCat p) (go_lookup fm) (go_lookup sm)) (p_specimens p) ?rows"
    by (simp add: list_all2_map2 list_all2_same)
  then show ?thesis using assms(1) unfolding appended_def recreated_def by blast
qed

lemma import_commit_cases:
  assumes "import_commit env u p d = (r, d')"
  shows "case r of Inl e \<Rightarrow> d' = d | Inr st \<Rightarrow> import_body env u p (import_start d) = Inr st \<and> d' = im_db st"
proof (cases r)
  case (Inl e)
  then have "RunInTx (ie_tx env) id (\<lambda>d. map_sum id (\<lambda>st. (st, im_db st)) (import_body env u p (import_start d))) d = (Inl e, d')"
    using assms by (simp add: import_commit_def)
  then have "d' = d" by (rule RunInTx_error)
  then show ?thesis using Inl by simp
next
  case (Inr st)
  then have "map_sum id (\<lambda>st. (st, im_db st)) (import_body env u p (import_start d)) = Inr (st, d')"
    using assms unfolding import_commit_def by (simp add: RunInTx_ok)
  then show ?thesis using Inr by (cases "import_body env u p (import_start d)") auto
qed

section \<open>The objects\<close>

lemma upload_variants_elsewhere:
  assumes "upload_variants il fl (original_key str i) data ct st = (bad, st')"
  shows "same_elsewhere str i st st'" "st' (original_key str i) = st (original_key str i)"
proof -
  let ?d = "original_key str i @ ''.display.jpg''" and ?t = "original_key str i @ ''.thumb.jpg''"
  have keys: "?d \<in> set (photo_keys str i)" "?t \<in> set (photo_keys str i)"
    by (simp_all add: photo_keys_def variantDisplaySuffix_def variantThumbSuffix_def)
  have "same_elsewhere str i st st' \<and> st' (original_key str i) = st (original_key str i)"
  proof (cases "imageproc_Generate il data ct")
    case (Inl e)
    then show ?thesis using assms by (simp add: upload_variants_def)
  next
    case (Inr v)
    define st1 where "st1 = snd (Upload fl ?d (va_Display v) ''image/jpeg'' st)"
    have st': "st' = snd (Upload fl ?t (va_Thumbnail v) ''image/jpeg'' st1)"
      using assms Inr unfolding upload_variants_def st1_def by (simp add: Let_def case_prod_beta)
    have "same_elsewhere str i st st1" "same_elsewhere str i st1 st'"
      unfolding st' st1_def by (rule same_elsewhere_calls(1) [OF keys(1)], rule same_elsewhere_calls(1) [OF keys(2)])
    moreover have "original_key str i \<noteq> ?d" "original_key str i \<noteq> ?t" by simp_all
    then have "st1 (original_key str i) = st (original_key str i)" "st' (original_key str i) = st1 (original_key str i)"
      unfolding st' st1_def by (simp_all add: Upload_elsewhere)
    ultimately show ?thesis using same_elsewhere_trans by simp
  qed
  then show "same_elsewhere str i st st'" "st' (original_key str i) = st (original_key str i)" by blast+
qed

text \<open>One file: its own keys only, and either its bytes are there or it is reported.\<close>

lemma upload_binary_spec:
  assumes "upload_binary env fl p fileMap f st = (bad, st')" and "fileMap (af_ID f) = Some i"
    and "RawFile (ie_ar env) (binary_path f) (p_archive p) = Inr data"
  shows "same_elsewhere (ie_str env) i st st'"
    "st' (original_key (ie_str env) i) = Some (data, af_ContentType f) \<or> original_key (ie_str env) i \<in> set bad"
proof -
  let ?key = "original_key (ie_str env) i"
  have key: "FileBinaryPrefix @ ie_str env i = ?key" by (simp add: FileBinaryPrefix_def original_key_def)
  obtain r st1 where u: "UploadIfNotExists fl ?key data (af_ContentType f) st = (r, st1)" by fastforce
  have here: "same_elsewhere (ie_str env) i st st1"
    using same_elsewhere_calls(2) [OF original_in_keys, of "ie_str env" i st fl data "af_ContentType f"] u by simp
  define vs where "vs = upload_variants (ie_il env) fl ?key data (af_ContentType f) st1"
  have run: "(bad, st') = (case r of Inl _ \<Rightarrow> ([?key], st1) | Inr _ \<Rightarrow> if af_ID f \<in> set (photo_files env p) then vs else ([], st1))"
    using assms u by (auto simp: upload_binary_def key Let_def vs_def split: sum.splits if_splits)
  consider (failed) e where "r = Inl e" "bad = [?key]" "st' = st1" | (plain) x where "r = Inr x" "st' = st1"
    | (photo) x where "r = Inr x" "vs = (bad, st')"
    using run by (cases r) (auto split: if_splits)
  then have "same_elsewhere (ie_str env) i st st' \<and> (st' ?key = Some (data, af_ContentType f) \<or> ?key \<in> set bad)"
  proof cases
    case failed
    then show ?thesis using here by simp
  next
    case plain
    then show ?thesis using here u by (simp add: UploadIfNotExists_ok)
  next
    case photo
    note v = upload_variants_elsewhere [OF photo(2) [unfolded vs_def]]
    have "st1 ?key = Some (data, af_ContentType f)" using u photo(1) by (simp add: UploadIfNotExists_ok)
    then show ?thesis using v same_elsewhere_trans [OF here v(1)] by simp
  qed
  then show "same_elsewhere (ie_str env) i st st'"
    "st' ?key = Some (data, af_ContentType f) \<or> ?key \<in> set bad" by blast+
qed

lemma upload_files_spec:
  assumes "uniform_text (ie_str env)" and "upload_files env fl p fileMap fs st = (bad, st')"
    and "\<forall>f\<in>set fs. fileMap (af_ID f) = Some (go_lookup fileMap (af_ID f))" and "distinct (map (\<lambda>f. go_lookup fileMap (af_ID f)) fs)"
    and "\<forall>f\<in>set fs. RawFile (ie_ar env) (binary_path f) (p_archive p) = Inr (data f)"
  shows "(\<forall>f\<in>set fs. st' (original_key (ie_str env) (go_lookup fileMap (af_ID f))) = Some (data f, af_ContentType f) \<or>
      original_key (ie_str env) (go_lookup fileMap (af_ID f)) \<in> set bad) \<and>
    (\<forall>k. (\<forall>f\<in>set fs. k \<notin> set (photo_keys (ie_str env) (go_lookup fileMap (af_ID f)))) \<longrightarrow> st' k = st k)"
  using assms(2-)
proof (induction fs arbitrary: st bad)
  case (Cons f fs)
  let ?i = "go_lookup fileMap (af_ID f)"
  obtain b1 st1 b2 where u: "upload_binary env fl p fileMap f st = (b1, st1)" "upload_files env fl p fileMap fs st1 = (b2, st')" "bad = b1 @ b2"
    using Cons.prems(1) by (auto split: prod.splits)
  have f: "same_elsewhere (ie_str env) ?i st st1"
    "st1 (original_key (ie_str env) ?i) = Some (data f, af_ContentType f) \<or> original_key (ie_str env) ?i \<in> set b1"
    using upload_binary_spec [OF u(1), of ?i "data f"] Cons.prems(2,4) by simp_all
  have ih: "(\<forall>f\<in>set fs. st' (original_key (ie_str env) (go_lookup fileMap (af_ID f))) = Some (data f, af_ContentType f) \<or>
      original_key (ie_str env) (go_lookup fileMap (af_ID f)) \<in> set b2) \<and>
    (\<forall>k. (\<forall>f\<in>set fs. k \<notin> set (photo_keys (ie_str env) (go_lookup fileMap (af_ID f)))) \<longrightarrow> st' k = st1 k)"
    by (rule Cons.IH [OF u(2)]) (use Cons.prems(2-4) in auto)
  have "original_key (ie_str env) ?i \<notin> set (photo_keys (ie_str env) (go_lookup fileMap (af_ID g)))" if "g \<in> set fs" for g
  proof -
    have "go_lookup fileMap (af_ID g) \<in> (\<lambda>f. go_lookup fileMap (af_ID f)) ` set fs" using that by blast
    then have "?i \<noteq> go_lookup fileMap (af_ID g)" using Cons.prems(3) by auto
    then show ?thesis using uniform_text.keys_disjoint [OF assms(1) original_in_keys] by blast
  qed
  then have keep: "st' (original_key (ie_str env) ?i) = st1 (original_key (ie_str env) ?i)" using ih by blast
  have "st' k = st k" if "\<forall>g\<in>set (f # fs). k \<notin> set (photo_keys (ie_str env) (go_lookup fileMap (af_ID g)))" for k
    using ih f(1) that by (simp add: same_elsewhere_def)
  then show ?case using ih f(2) keep u(3) by auto
qed simp

lemma import_Run_committed:
  assumes "consistent d" and "import_Run env u raw False d st = (Inr r, d', st')"
  obtains p and ims :: import_state where "validate env raw (u_ID u) d = Inr p" "d' = im_db ims"
    "appended env u p (im_collectors ims) (im_files ims) (im_specimens ims) d d'" "consistent d'"
    "\<forall>f\<in>set (p_files p). im_files ims (af_ID f) \<noteq> None"
    "uploadBinaries env p (im_files ims) st = (rp_ImageFailures r, st')"
    "r = (import_report False p)\<lparr>rp_Committed := True, rp_ImageFailures := rp_ImageFailures r\<rparr>"
proof -
  obtain p where p: "validate env raw (u_ID u) d = Inr p" using assms(2) by (auto simp: import_Run_def split: sum.splits)
  obtain c d1 where c: "import_commit env u p d = (c, d1)" by fastforce
  obtain ims where ims: "c = Inr ims" using assms(2) p c by (cases c) (auto simp: import_Run_def)
  have body: "import_body env u p (import_start d) = Inr ims" "d1 = im_db ims" using import_commit_cases [OF c] ims by simp_all
  have up: "uploadBinaries env p (im_files ims) st = (rp_ImageFailures r, st')" "d' = d1"
    "r = (import_report False p)\<lparr>rp_Committed := True, rp_ImageFailures := rp_ImageFailures r\<rparr>"
    using assms(2) p c ims by (auto simp: import_Run_def split: prod.splits)
  note rows = import_body_rows [OF body(1) assms(1) validate_ok(1) [OF p, unfolded archive_linked_def, THEN conjunct1]
      validate_ok(1) [OF p, unfolded archive_linked_def, THEN conjunct2, THEN conjunct1]
      validate_ok(1) [OF p, unfolded archive_linked_def, THEN conjunct2, THEN conjunct2, THEN conjunct1]]
  show thesis
    by (rule that [OF p, of ims]) (use rows body(2) up in simp_all)
qed

section \<open>Properties\<close>

text \<open>
  C31: an import is all or nothing and never touches what was there. An import that fails, whether on the archive, on the
  database or on the commit, and every dry run leave the database and the object store as they were. A committed
  import appends, to each table and in the order of the records, exactly the archive's rows. The records are what the
  six entries of the archive say, line by line and, for objects with plain members, member by member; they refer to
  nothing outside the archive. Each row has every column of its record, with the caller as author, uploader and owner,
  under new identifiers, one function each for collectors, files and specimens, which also rewrites the references;
  a catalogue number that is free is kept and any other gets the first free suffix; chains and the members of the one
  label sheet, which is skipped when the caller has one, are numbered from 1. No row of anybody is changed or
  removed, and keys and references stay consistent.
\<close>

theorem import_recreates:
  assumes "consistent d"
  shows "case import_Run env u raw dryRun d st of
      (Inl _, d', st') \<Rightarrow> d' = d \<and> st' = st
    | (Inr r, d', st') \<Rightarrow>
        if dryRun then d' = d \<and> st' = st \<and> \<not> rp_Committed r
        else rp_Committed r \<and> consistent d' \<and>
          (\<exists>entries p cid fid sid. validate env raw (u_ID u) d = Inr p \<and> av_zip (ie_ar env) raw = Some entries \<and>
             archive_says (ie_vc env) entries p \<and> archive_linked p \<and> import_resolved env (u_ID u) d p \<and>
             recreated env u p cid fid sid d d')"
proof (cases "import_Run env u raw dryRun d st")
  case (fields r d' st')
  show ?thesis
  proof (cases r)
    case (Inl e)
    then have "d' = d \<and> st' = st"
      using fields import_commit_cases by (fastforce simp: import_Run_def split: sum.splits if_splits prod.splits)
    then show ?thesis using fields Inl by simp
  next
    case (Inr rep)
    show ?thesis
    proof (cases dryRun)
      case True
      then show ?thesis using fields Inr by (auto simp: import_Run_def import_report_def split: sum.splits)
    next
      case False
      then have "import_Run env u raw False d st = (Inr rep, d', st')" using fields Inr by simp
      then obtain p and ims :: import_state where p: "validate env raw (u_ID u) d = Inr p"
          "appended env u p (im_collectors ims) (im_files ims) (im_specimens ims) d d'" "consistent d'"
          "\<forall>f\<in>set (p_files p). im_files ims (af_ID f) \<noteq> None"
        and rep: "rep = (import_report False p)\<lparr>rp_Committed := True, rp_ImageFailures := rp_ImageFailures rep\<rparr>"
        by (rule import_Run_committed [OF assms]) blast
      have "rp_Committed rep" by (subst rep) simp
      moreover have "recreated env u p (go_lookup (im_collectors ims)) (go_lookup (im_files ims)) (go_lookup (im_specimens ims)) d d'"
        by (rule appended_recreated [OF p(2) validate_ok(1,2) [OF p(1)] p(4)])
      moreover obtain entries where "av_zip (ie_ar env) raw = Some entries" "archive_says (ie_vc env) entries p"
        using validate_ok(4) [OF p(1)] by blast
      ultimately have "rp_Committed rep \<and> consistent d' \<and>
          (\<exists>entries p cid fid sid. validate env raw (u_ID u) d = Inr p \<and> av_zip (ie_ar env) raw = Some entries \<and>
             archive_says (ie_vc env) entries p \<and> archive_linked p \<and> import_resolved env (u_ID u) d p \<and>
             recreated env u p cid fid sid d d')"
        using p(1,3) validate_ok(1,5) [OF p(1)] by blast
      then show ?thesis using fields Inr False by simp
    qed
  qed
qed


text \<open>
  C37: the binaries of an import. What a committed import adds to the files table has the caller as uploader and, file by
  file, either its object is in the store under the row's key, with the length, content type and SHA-256 the row records,
  or the key is among the reported failures. Nothing outside the keys of the new files is written.
\<close>

theorem import_binaries_stored:
  assumes "uniform_text (ie_str env)" and "consistent d" and "ie_storage env = Some fl"
    and "import_Run env u raw False d st = (Inr r, d', st')"
  shows "\<exists>new. db_files d' = db_files d @ new \<and>
    (\<forall>f\<in>set new. fi_UploadedBy f = u_ID u \<and>
       (file_stored (ie_str env) (av_sha256 (ie_ar env)) st' f \<or> fi_S3Key f \<in> set (rp_ImageFailures r))) \<and>
    (\<forall>k. (\<forall>f\<in>set new. k \<notin> set (photo_keys (ie_str env) (fi_ID f))) \<longrightarrow> st' k = st k)"
proof -
  obtain p and ims :: import_state where p: "validate env raw (u_ID u) d = Inr p"
    and rows: "appended env u p (im_collectors ims) (im_files ims) (im_specimens ims) d d'" and ok: "consistent d'"
    and found: "\<forall>f\<in>set (p_files p). im_files ims (af_ID f) \<noteq> None"
    and up: "uploadBinaries env p (im_files ims) st = (rp_ImageFailures r, st')"
    by (rule import_Run_committed [OF assms(2,4)]) blast
  let ?i = "\<lambda>f. go_lookup (im_files ims) (af_ID f)"
  define new where "new = map (\<lambda>f. imported_file env u f (?i f)) (p_files p)"
  have files: "db_files d' = db_files d @ new" using rows by (auto simp: appended_def new_def)
  have "distinct (map fi_ID (db_files d'))" using ok by (simp add: consistent_def keys_ok_def)
  then have dist: "distinct (map ?i (p_files p))"
    by (simp add: files new_def comp_def imported_file_def)
  have id: "fi_ID (imported_file env u f i) = i" for f i by (simp add: imported_file_def)
  obtain data where data: "\<forall>f\<in>set (p_files p). RawFile (ie_ar env) (binary_path f) (p_archive p) = Inr (data f) \<and>
      int (length (data f)) = af_ByteSize f \<and> av_sha256 (ie_ar env) (data f) = af_SHA256 f"
    using validate_ok(3) [OF p] unfolding binary_verified_def by metis
  have some: "\<forall>f\<in>set (p_files p). im_files ims (af_ID f) = Some (?i f)" using found by (auto simp: go_lookup_def)
  have "upload_files env fl p (im_files ims) (p_files p) st = (rp_ImageFailures r, st')"
    using up assms(3) by (simp add: uploadBinaries_def)
  from upload_files_spec [OF assms(1) this some dist] data
  have spec: "\<forall>f\<in>set (p_files p). st' (original_key (ie_str env) (?i f)) = Some (data f, af_ContentType f) \<or>
        original_key (ie_str env) (?i f) \<in> set (rp_ImageFailures r)"
    and elsewhere: "\<forall>k. (\<forall>f\<in>set (p_files p). k \<notin> set (photo_keys (ie_str env) (?i f))) \<longrightarrow> st' k = st k" by blast+
  have stored: "file_stored (ie_str env) (av_sha256 (ie_ar env)) st' (imported_file env u f (?i f)) \<or>
      fi_S3Key (imported_file env u f (?i f)) \<in> set (rp_ImageFailures r)" if f: "f \<in> set (p_files p)" for f
  proof -
    have "fi_S3Key (imported_file env u f (?i f)) = original_key (ie_str env) (?i f)"
      by (simp add: imported_file_def original_key_def)
    then show ?thesis using spec data f by (auto simp: file_stored_def imported_file_def)
  qed
  show ?thesis
    using files stored elsewhere by (intro exI [of _ new]) (auto simp: new_def id imported_file_def [of env u])
qed

end
