(* ===== verification/ImportExample.thy ===== *)
theory ImportExample
  imports ImportCommit
begin

text \<open>
  An archive of one specimen with one file, read, validated and imported by the definitions: the properties of the
  import hold of a run that commits.
\<close>

section \<open>Entries that read\<close>

definition plain_entry :: "string \<Rightarrow> string \<Rightarrow> zip_entry" where
  "plain_entry name s = \<lparr>ze_Name = name, ze_OpenErr = None, ze_Data = bytes_of s, ze_ReadErr = None\<rparr>"

lemma json_first_print: "json_ok v \<Longrightarrow> json_first (json_print v) = Some v"
  using parse_val_print [of v "Suc (2 * length (json_print v))" "[]"] by (simp add: json_first_def num_end_sep del: parse_val.simps)

lemma read_plain: "length s \<le> maxEntryBytes \<Longrightarrow> readEntryUncounted vc (plain_entry name s) = Inr (bytes_of s)"
  by (simp add: readEntryUncounted_def read_limited_def plain_entry_def)

definition one_line :: "string \<Rightarrow> bool" where
  "one_line l \<longleftrightarrow> jsonl_lines l = [l] \<and> drop_cr l = l \<and> trimSpace l \<noteq> [] \<and> length l < 1000"

lemma decodeJSONL_one:
  assumes "ar_files a path = Some (plain_entry name (json_print v))" and "json_ok v" and "one_line (json_print v)"
    and "dec_strict names dec zero v = Some rec" and "ar_inflated a < 1000000"
  shows "decodeJSONL env (decode_record names dec zero) path a =
    Inr ([rec], a\<lparr>ar_inflated := ar_inflated a + Suc (length (json_print v))\<rparr>)"
  using assms
  by (simp add: decodeJSONL_def plain_entry_def read_limited_def one_line_def decode_record_def json_first_print addInflated_def
      maxEntryBytes_def maxJSONLineBytes_def maxTotalUncompressedBytes_def Let_def)

lemma decodeJSONL_none: "ar_files a path = None \<Longrightarrow> decodeJSONL env dec path a = Inr ([], a)"
  by (simp add: decodeJSONL_def)

section \<open>The archive\<close>

definition sample_manifest :: json where
  "sample_manifest = JObj [(''schema_version'', JNum ''1''), (''application'', JStr ''minerals'')]"

definition sample_file :: json where
  "sample_file = JObj [(''id'', JStr ''1''), (''content_type'', JStr ''application/pdf''), (''byte_size'', JNum ''2''), (''sha256'', JStr ''00'')]"

definition sample_specimen :: json where
  "sample_specimen = JObj [(''id'', JStr ''2''), (''type'', JStr ''mineral''), (''name'', JStr ''Quartz''), (''visibility'', JStr ''private''), (''main_image_file_id'', JStr ''1'')]"

lemma sample_manifest_decodes:
  "dec_strict Manifest_names (decode_Manifest whole_codec) Manifest_zero sample_manifest = Some (Manifest_zero\<lparr>mf_SchemaVersion := 1, mf_Application := ''minerals''\<rparr>)"
  by code_simp

lemma sample_file_decodes:
  "dec_strict FileRecord_names (decode_FileRecord whole_codec) FileRecord_zero sample_file = Some (FileRecord_zero\<lparr>af_ID := ''1'', af_ContentType := ''application/pdf'', af_ByteSize := 2, af_SHA256 := ''00''\<rparr>)"
  by code_simp

lemma sample_specimen_decodes:
  "dec_strict SpecimenRecord_names (decode_SpecimenRecord whole_codec) SpecimenRecord_zero sample_specimen =
  Some (SpecimenRecord_zero\<lparr>sr_ID := ''2'', sr_Type := ''mineral'', sr_Name := ''Quartz'', sr_Visibility := ''private'', sr_MainImageFileID := Some ''1''\<rparr>)"
  by code_simp

lemma sample_lines: "one_line (json_print sample_file) \<and> one_line (json_print sample_specimen)" by code_simp

lemma sample_json_ok: "json_ok sample_file \<and> json_ok sample_specimen \<and> json_ok sample_manifest" by code_simp

lemma sample_lengths: "length (json_print sample_file) < 200 \<and> length (json_print sample_specimen) < 200 \<and> length (json_print sample_manifest) < 200" by code_simp

definition sample_archive :: archive_env where
  "sample_archive = \<lparr>av_zip = (\<lambda>_. Some [plain_entry ManifestPath (json_print sample_manifest), plain_entry FilesPath (json_print sample_file),
      plain_entry SpecimensPath (json_print sample_specimen), plain_entry ''files/1'' ''xy'']),
     av_vc = whole_codec, av_sha256 = (\<lambda>_. ''00''), av_json_error = (\<lambda>_. [])\<rparr>"

definition sample_import_env :: "unit import_env" where
  "sample_import_env = \<lparr>ie_ar = sample_archive, ie_uuid_Parse = (\<lambda>s. if s = ''1'' then Some 1 else if s = ''2'' then Some 2 else None),
     ie_str = uuid_hex, ie_newID = (\<lambda>n. word_of_nat (n + 51)), ie_tx = tx_up, ie_storage = Some no_faults, ie_il = unit_lib,
     ie_CatalogNumbers = None, ie_labels = []\<rparr>"

definition sample_import_db :: database where
  "sample_import_db = empty_database\<lparr>db_users := [User_zero\<lparr>us_ID := 7\<rparr>]\<rparr>"

definition read_file :: FileRecord where
  "read_file = FileRecord_zero\<lparr>af_ID := ''1'', af_ContentType := ''application/pdf'', af_ByteSize := 2, af_SHA256 := ''00''\<rparr>"

definition read_specimen :: SpecimenRecord where
  "read_specimen = SpecimenRecord_zero\<lparr>sr_ID := ''2'', sr_Type := ''mineral'', sr_Name := ''Quartz'', sr_Visibility := ''private'', sr_MainImageFileID := Some ''1''\<rparr>"

lemma sample_codec: "ie_vc sample_import_env = whole_codec" "ie_ar sample_import_env = sample_archive" "av_vc sample_archive = whole_codec"
  by (simp_all add: sample_import_env_def sample_archive_def)

lemma paths_distinct: "distinct [ManifestPath, CollectorsPath, FilesPath, SpecimensPath, PhotosPath, JournalEntriesPath, QRSheetsPath, ''files/1'']"
  by code_simp

definition sample_files :: "string \<rightharpoonup> zip_entry" where
  "sample_files = map_of [(''files/1'', plain_entry ''files/1'' ''xy''), (SpecimensPath, plain_entry SpecimensPath (json_print sample_specimen)),
    (FilesPath, plain_entry FilesPath (json_print sample_file)), (ManifestPath, plain_entry ManifestPath (json_print sample_manifest))]"

lemma name_plain [simp]: "ze_Name (plain_entry n s) = n" by (simp add: plain_entry_def)

lemma sample_open: "OpenArchive sample_archive raw = Inr \<lparr>ar_files = sample_files,
   ar_manifest = Manifest_zero\<lparr>mf_SchemaVersion := 1, mf_Application := ''minerals''\<rparr>, ar_inflated = length (json_print sample_manifest)\<rparr>"
proof -
  have z: "av_zip sample_archive raw = Some [plain_entry ManifestPath (json_print sample_manifest), plain_entry FilesPath (json_print sample_file),
      plain_entry SpecimensPath (json_print sample_specimen), plain_entry ''files/1'' ''xy'']"
    by (simp add: sample_archive_def)
  have f: "sample_files ManifestPath = Some (plain_entry ManifestPath (json_print sample_manifest))"
    using paths_distinct by (simp add: sample_files_def)
  have e: "map_of (rev (map (\<lambda>f. (ze_Name f, f)) [plain_entry ManifestPath (json_print sample_manifest), plain_entry FilesPath (json_print sample_file),
      plain_entry SpecimensPath (json_print sample_specimen), plain_entry ''files/1'' ''xy''])) = sample_files"
    unfolding sample_files_def by simp
  have r: "readEntryUncounted whole_codec (plain_entry ManifestPath (json_print sample_manifest)) = Inr (bytes_of (json_print sample_manifest))"
    by (rule read_plain) (use sample_lengths in \<open>simp add: maxEntryBytes_def\<close>)
  have m: "decode_record Manifest_names (decode_Manifest whole_codec) Manifest_zero (json_print sample_manifest) =
     Some (Manifest_zero\<lparr>mf_SchemaVersion := 1, mf_Application := ''minerals''\<rparr>)"
    using sample_json_ok by (simp add: decode_record_def json_first_print sample_manifest_decodes)
  have small: "\<not> length (json_print sample_manifest) > maxTotalUncompressedBytes"
    using sample_lengths by (simp add: maxTotalUncompressedBytes_def)
  show ?thesis
    unfolding OpenArchive_def z option.case e Let_def
    by (simp add: f sample_codec readWhole_def r addInflated_def small m)
qed

definition sample_parsed :: parsed where
  "sample_parsed = \<lparr>p_archive = \<lparr>ar_files = sample_files, ar_manifest = Manifest_zero\<lparr>mf_SchemaVersion := 1, mf_Application := ''minerals''\<rparr>,
     ar_inflated = length (json_print sample_manifest) + Suc (length (json_print sample_file)) + Suc (length (json_print sample_specimen))\<rparr>,
     p_collectors = [], p_files = [read_file],
     p_specimens = [read_specimen], p_photos = [], p_journal = [], p_qrsheets = [],
     p_resolvedCat = (\<lambda>_. None), p_skipQRSheet = False, p_conflicts = [], p_warnings = []\<rparr>"

lemma sample_read: "read_archive sample_import_env raw = Inr sample_parsed"
proof -
  have f: "sample_files CollectorsPath = None" "sample_files PhotosPath = None" "sample_files JournalEntriesPath = None" "sample_files QRSheetsPath = None"
    "sample_files FilesPath = Some (plain_entry FilesPath (json_print sample_file))"
    "sample_files SpecimensPath = Some (plain_entry SpecimensPath (json_print sample_specimen))"
    by (simp_all add: sample_files_def ManifestPath_def CollectorsPath_def FilesPath_def SpecimensPath_def PhotosPath_def JournalEntriesPath_def
        QRSheetsPath_def)
  have app: "Application = ''minerals''" by (simp add: Application_def)
  show ?thesis
    using sample_lines sample_json_ok sample_lengths
    by (simp add: read_archive_def sample_codec sample_open app SchemaVersion_def ensure_def Let_def decodeJSONL_none f
        decodeJSONL_one [OF _ _ _ sample_file_decodes] decodeJSONL_one [OF _ _ _ sample_specimen_decodes] sample_parsed_def read_file_def read_specimen_def)
qed

lemma no_nil_text: "''1'' \<noteq> uuid_hex 0 \<and> ''2'' \<noteq> uuid_hex 0" by code_simp

lemma sample_valid_id: "validUUID sample_import_env ''1''" "validUUID sample_import_env ''2''"
  using no_nil_text by (simp_all add: validUUID_def sample_import_env_def)

lemma read_file_fields: "af_ID read_file = ''1''" "af_Path read_file = []" "af_ContentType read_file = ''application/pdf''" "af_ByteSize read_file = 2" "af_SHA256 read_file = ''00''"
  by (simp_all add: read_file_def FileRecord_zero_def)

lemma read_specimen_fields: "sr_ID read_specimen = ''2''" "sr_Type read_specimen = ''mineral''" "sr_Visibility read_specimen = ''private''" "sr_TypeData read_specimen = None"
  "sr_MainImageFileID read_specimen = Some ''1''" "sr_CatalogNumber read_specimen = None" "sr_CollectorIDs read_specimen = []"
  by (simp_all add: read_specimen_def SpecimenRecord_zero_def)

lemma sample_type_data: "validateTypeData sample_archive ''mineral'' (raw_text None) = Inr ''{}''"
  by (simp add: validateTypeData_def raw_text_def Let_def trimSpace_def)

lemma sample_specimen_ok: "specimen_problems sample_import_env read_specimen = []"
proof -
  have "ie_labels sample_import_env = []" by (simp add: sample_import_env_def)
  then show ?thesis
  by (simp add: specimen_problems_def read_specimen_fields sample_type_data sample_codec import_validSpecimenType_def import_validVisibility_def Let_def)
qed

lemma sample_structure: "checkStructure sample_import_env sample_parsed = None"
proof -
  have e: "ds_empty (details [])" by (simp add: ds_empty_def details_def ds_new_def)
  have i: "invalid_records sample_import_env sample_parsed = []"
    by (simp add: invalid_records_def sample_parsed_def read_file_fields read_specimen_fields sample_valid_id sample_specimen_ok Let_def)
  have r: "broken_references sample_import_env sample_parsed = []"
    by (simp add: broken_references_def sample_parsed_def valid_ids_def read_file_fields read_specimen_fields sample_valid_id Let_def)
  show ?thesis by (simp add: checkStructure_def i r e Let_def)
qed

definition sample_checked :: parsed where
  "sample_checked = sample_parsed\<lparr>p_archive := p_archive sample_parsed\<lparr>ar_inflated := ar_inflated (p_archive sample_parsed) + 2\<rparr>\<rparr>"

lemma sample_binary: "binary_path read_file = ''files/1''"
  by (simp add: binary_path_def read_file_fields FileBinaryPrefix_def)

lemma sample_entry: "sample_files ''files/1'' = Some (plain_entry ''files/1'' ''xy'')"
  by (simp add: sample_files_def)

lemma sample_verify: "verifyBinaries sample_archive sample_parsed = Inr sample_checked"
proof -
  let ?a = "p_archive sample_parsed"
  have small: "\<not> ar_inflated ?a + 2 > maxTotalUncompressedBytes"
    using sample_lengths by (simp add: sample_parsed_def maxTotalUncompressedBytes_def)
  have r: "readEntryUncounted whole_codec (plain_entry ''files/1'' ''xy'') = Inr (bytes_of ''xy'')"
    by (rule read_plain) (simp add: maxEntryBytes_def)
  have f: "ar_files ?a = sample_files" by (simp add: sample_parsed_def)
  have "OpenFileBinary sample_archive ''files/1'' ''00'' 2 ?a = (Inr (bytes_of ''xy''), ?a\<lparr>ar_inflated := ar_inflated ?a + 2\<rparr>)"
    using small by (simp add: OpenFileBinary_def f sample_entry readWhole_def sample_codec r addInflated_def Let_def sample_archive_def)
  moreover have "p_files sample_parsed = [read_file]" by (simp add: sample_parsed_def)
  ultimately show ?thesis
    by (simp add: verifyBinaries_def read_file_fields sample_binary details_def ds_empty_def ds_new_def sample_checked_def)
qed

definition sample_import :: parsed where
  "sample_import = with_numbers ([None], []) sample_checked"

lemma sample_validate: "validate sample_import_env raw 7 sample_import_db = Inr sample_import"
proof -
  have "p_specimens sample_checked = [read_specimen]" "p_qrsheets sample_checked = []"
    by (simp_all add: sample_checked_def sample_parsed_def)
  moreover have "ie_CatalogNumbers sample_import_env = None" by (simp add: sample_import_env_def)
  ultimately have "resolveConflicts sample_import_env 7 sample_import_db sample_checked = Inr sample_import"
    by (simp add: resolveConflicts_def read_specimen_fields probe_sheet_def with_numbers_def sample_import_def)
  then show ?thesis
    by (simp add: validate_def sample_read sample_structure sample_codec sample_verify)
qed

abbreviation sample_importer :: auth_User where
  "sample_importer \<equiv> auth_User_zero\<lparr>u_ID := 7\<rparr>"

lemma sample_consistent: "consistent sample_import_db"
  by (simp add: consistent_def sample_import_db_def keys_ok_def empty_database_def users_ok_def fk_ok_def refs_def main_image_refs_def)

lemma sample_body: "\<exists>ims. import_body sample_import_env sample_importer sample_import (import_start sample_import_db) = Inr ims"
proof -
  have p: "p_collectors sample_import = []" "p_files sample_import = [read_file]" "p_specimens sample_import = [read_specimen]"
    "p_photos sample_import = []" "p_journal sample_import = []" "p_qrsheets sample_import = []" "p_resolvedCat sample_import ''2'' = None"
    by (simp_all add: sample_import_def with_numbers_def sample_checked_def sample_parsed_def read_specimen_fields)
  have id: "ie_newID sample_import_env n = word_of_nat (n + 51)" for n by (simp add: sample_import_env_def)
  show ?thesis
    by (simp add: import_body_def p import_file_def import_specimen_def import_chain_def import_sheet_def id read_file_fields read_specimen_fields sample_codec sample_type_data Let_def
        import_start_def FilePostgres_Create_def SpecimenPostgres_Create_def sample_import_db_def empty_database_def file_row_def specimen_row_def
        auth_User_zero_def catalog_clash_def main_image_ok_def enums_ok_def specimenTypes_def visibilities_def read_specimen_def SpecimenRecord_zero_def)
qed

lemma sample_run:
  "\<exists>r d' st'. import_Run sample_import_env sample_importer [] False sample_import_db Map.empty = (Inr r, d', st')"
proof -
  obtain ims where "import_body sample_import_env sample_importer sample_import (import_start sample_import_db) = Inr ims"
    using sample_body by blast
  moreover have "ie_tx sample_import_env = tx_up" by (simp add: sample_import_env_def)
  ultimately have "import_commit sample_import_env sample_importer sample_import sample_import_db = (Inr ims, im_db ims)"
    by (simp add: import_commit_def RunInTx_def tx_up_def)
  then show ?thesis
    by (simp add: import_Run_def sample_validate split: prod.splits)
qed

theorem import_recreates_witness:
  "\<exists>r d' st'. import_Run sample_import_env sample_importer [] False sample_import_db Map.empty = (Inr r, d', st') \<and> rp_Committed r \<and> consistent d' \<and>
     map (\<lambda>s. (sp_Name s, sp_Visibility s, sp_TypeData s, sp_MainImageID s)) (db_specimens d') =
       [(''Quartz'', ''private'', ''{}'', Some (fi_ID (hd (db_files d'))))]"
proof -
  obtain r d' st' where run: "import_Run sample_import_env sample_importer [] False sample_import_db Map.empty = (Inr r, d', st')"
    using sample_run by blast
  have "case import_Run sample_import_env sample_importer [] False sample_import_db Map.empty of
      (Inl _, d', st') \<Rightarrow> d' = sample_import_db \<and> st' = Map.empty
    | (Inr r, d', st') \<Rightarrow>
        if False then d' = sample_import_db \<and> st' = Map.empty \<and> \<not> rp_Committed r
        else rp_Committed r \<and> consistent d' \<and>
          (\<exists>entries p cid fid sid. validate sample_import_env [] (u_ID sample_importer) sample_import_db = Inr p \<and>
             av_zip (ie_ar sample_import_env) [] = Some entries \<and> archive_says (ie_vc sample_import_env) entries p \<and> archive_linked p \<and>
             import_resolved sample_import_env (u_ID sample_importer) sample_import_db p \<and>
             recreated sample_import_env sample_importer p cid fid sid sample_import_db d')"
    using import_recreates [OF sample_consistent, where env = sample_import_env and u = sample_importer and raw = "[]" and dryRun = False and st = Map.empty] .
  then have done': "rp_Committed r" "consistent d'" and "\<exists>p cid fid sid. validate sample_import_env [] 7 sample_import_db = Inr p \<and>
      recreated sample_import_env sample_importer p cid fid sid sample_import_db d'"
    unfolding run by auto
  then obtain cid fid sid where rec: "recreated sample_import_env sample_importer sample_import cid fid sid sample_import_db d'"
    unfolding sample_validate by auto
  have p: "p_files sample_import = [read_file]" "p_specimens sample_import = [read_specimen]"
    by (simp_all add: sample_import_def with_numbers_def sample_checked_def sample_parsed_def)
  have empty: "db_specimens sample_import_db = []" "db_files sample_import_db = []" by (simp_all add: sample_import_db_def empty_database_def)
  obtain specimens where rows: "list_all2 (imported_specimen (ie_vc sample_import_env) sample_importer (p_resolvedCat sample_import) fid sid) [read_specimen] specimens"
    "db_specimens d' = specimens" "db_files d' = [imported_file sample_import_env sample_importer read_file (fid ''1'')]"
    using rec unfolding recreated_def by (auto simp: p empty read_file_fields)
  obtain row where row: "specimens = [row]" "imported_specimen (ie_vc sample_import_env) sample_importer (p_resolvedCat sample_import) fid sid read_specimen row"
    using rows(1) by (auto simp: list_all2_Cons1)
  have blank: "imported_type_data vc read_specimen td \<longleftrightarrow> td = ''{}''" for vc td
    by (simp add: imported_type_data_def read_specimen_fields Let_def trimSpace_def)
  have name: "sr_Name read_specimen = ''Quartz''" by (simp add: read_specimen_def)
  have "sp_Name row = ''Quartz''" "sp_Visibility row = ''private''" "sp_TypeData row = ''{}''" "sp_MainImageID row = Some (fid ''1'')"
    using row(2) unfolding imported_specimen_def blank by (auto simp: read_specimen_fields name)
  then show ?thesis
    using run done' rows(2,3) row(1) by (intro exI [of _ r] exI [of _ d'] exI [of _ st']) (simp add: imported_file_def)
qed

theorem import_binaries_stored_witness:
  "\<exists>r d' st'. import_Run sample_import_env sample_importer [] False sample_import_db Map.empty = (Inr r, d', st') \<and>
     (\<forall>f\<in>set (db_files d'). fi_UploadedBy f = 7 \<and> (fi_S3Key f \<in> dom st' \<or> fi_S3Key f \<in> set (rp_ImageFailures r)))"
proof -
  obtain r d' st' where run: "import_Run sample_import_env sample_importer [] False sample_import_db Map.empty = (Inr r, d', st')"
    using sample_run by blast
  have "ie_str sample_import_env = uuid_hex" "ie_storage sample_import_env = Some no_faults" by (simp_all add: sample_import_env_def)
  then have "uniform_text (ie_str sample_import_env)" using hexu.uniform_text_axioms by simp
  from import_binaries_stored [OF this sample_consistent \<open>ie_storage sample_import_env = Some no_faults\<close> run]
  obtain new where new: "db_files d' = db_files sample_import_db @ new" "\<forall>f\<in>set new. fi_UploadedBy f = 7 \<and>
       (file_stored (ie_str sample_import_env) (av_sha256 (ie_ar sample_import_env)) st' f \<or> fi_S3Key f \<in> set (rp_ImageFailures r))"
    by auto
  have "db_files sample_import_db = []" by (simp add: sample_import_db_def empty_database_def)
  then have "\<forall>f\<in>set (db_files d'). fi_UploadedBy f = 7 \<and> (fi_S3Key f \<in> dom st' \<or> fi_S3Key f \<in> set (rp_ImageFailures r))"
    using new by (auto simp: file_stored_def)
  then show ?thesis using run by blast
qed

end
