(* ===== verification/ExportService.thy ===== *)
theory ExportService
  imports ImportExample PhotoService
begin

text \<open>
  The export of an account's data (\<open>src/internal/api/export.go\<close>): gathering the caller's rows page by page, the JSON
  of the records, and the entries of the archive. The container format, the text of dates and \<open>ILIKE\<close> are arguments.
  The queries of one export are taken to see one state of the database, and the connection to take all bytes. A raw
  message is carried as the value it denotes.
\<close>

section \<open>Records\<close>

definition exportSchemaVersion :: int where "exportSchemaVersion = 1"
definition exportListPageSize :: int where "exportListPageSize = 200"

record exportCounts =
  xn_Collectors :: int
  xn_Specimens :: int
  xn_JournalEntries :: int
  xn_QRSheets :: int
  xn_Images :: int
  xn_JournalFiles :: int

record exportImageRecord =
  xi_ImageID :: uuid
  xi_SpecimenID :: uuid
  xi_FileID :: uuid
  xi_Path :: string
  xi_Kind :: PhotoKind
  xi_Position :: int
  xi_Visibility :: "Visibility option"
  xi_TakenAt :: "time option"
  xi_ContentHash :: string
  xi_ContentType :: string
  xi_ByteSize :: int
  xi_CreatedAt :: time
  xi_key :: string

record exportManifest =
  xm_SchemaVersion :: int
  xm_Application :: string
  xm_ExportedAt :: time
  xm_ExportedBy :: string
  xm_Counts :: exportCounts
  xm_Images :: "exportImageRecord list"

record exportCollectorRecord =
  xc_ID :: uuid
  xc_Name :: string
  xc_Notes :: "string option"
  xc_CreatedAt :: time
  xc_UpdatedAt :: time

text \<open>The record of a specimen: its row and the ordered chain of its collectors.\<close>

record exportSpecimenRecord =
  xs_row :: Specimen
  xs_TypeData :: string
  xs_CollectorIDs :: "uuid list"

record exportAttachmentRecord =
  xa_FileID :: uuid
  xa_Position :: int
  xa_Path :: string
  xa_ContentHash :: string
  xa_ContentType :: string
  xa_ByteSize :: int
  xa_CreatedAt :: time
  xa_key :: string
  xa_entryID :: uuid

record exportJournalRecord =
  xj_ID :: uuid
  xj_SpecimenID :: uuid
  xj_BodyMD :: string
  xj_Attachments :: "exportAttachmentRecord list"
  xj_CreatedAt :: time
  xj_UpdatedAt :: time

record exportQRSheetMember =
  xq_SpecimenID :: uuid
  xq_Position :: int
  xq_AddedAt :: time

record exportQRSheetRecord =
  xh_ID :: uuid
  xh_Template :: QRSheetTemplate
  xh_Specimens :: "exportQRSheetMember list"
  xh_CreatedAt :: time
  xh_UpdatedAt :: time

record exportArchive =
  xr_manifest :: exportManifest
  xr_collectors :: "exportCollectorRecord list"
  xr_specimens :: "exportSpecimenRecord list"
  xr_journal :: "exportJournalRecord list"
  xr_qrsheets :: "exportQRSheetRecord list"
  xr_attachments :: "exportAttachmentRecord list"

record 'r export_env =
  xe_tc :: "'r text_codec"
  xe_vc :: value_codec
  xe_ilike :: "string \<Rightarrow> string \<Rightarrow> bool"
  xe_ts :: "'r text_search"
  xe_faults :: faults
  xe_now :: time
  xe_day :: "time \<Rightarrow> string"

section \<open>Following a list to its end\<close>

datatype export_error = ExportList list_error | ExportRepo repo_error

text \<open>
  The loop over the pages of a list: \<open>None\<close> when it never ends. What a page turns into is part of the function it
  runs on, so the loops that look up each row before they ask for the next page are instances.
\<close>

partial_function (option) drain :: "(string \<Rightarrow> 'e + 'a list \<times> string) \<Rightarrow> string \<Rightarrow> ('e + 'a list) option" where
  "drain f c =
     (case f c of
        Inl e \<Rightarrow> Some (Inl e)
      | Inr (xs, next') \<Rightarrow> if next' = [] then Some (Inr xs) else Option.bind (drain f next') (\<lambda>r. Some (map_sum id ((@) xs) r)))"

definition run_bind :: "('e + 'a) option \<Rightarrow> ('a \<Rightarrow> ('e + 'b) option) \<Rightarrow> ('e + 'b) option" where
  "run_bind r f = (case r of None \<Rightarrow> None | Some (Inl e) \<Rightarrow> Some (Inl e) | Some (Inr x) \<Rightarrow> f x)"

fun map_each :: "('a \<Rightarrow> 'e + 'b) \<Rightarrow> 'a list \<Rightarrow> 'e + 'b list" where
  "map_each f [] = Inr []"
| "map_each f (x # xs) = sum_bind (f x) (\<lambda>y. sum_bind (map_each f xs) (\<lambda>ys. Inr (y # ys)))"

definition page_of :: "(string \<Rightarrow> list_error + 'a list \<times> string) \<Rightarrow> ('a \<Rightarrow> export_error + 'b) \<Rightarrow> string \<Rightarrow> export_error + 'b list \<times> string" where
  "page_of list row c =
     sum_bind (map_sum ExportList id (list c)) (\<lambda>(xs, next'). sum_bind (map_each row xs) (\<lambda>ys. Inr (ys, next')))"

definition export_page :: "string \<Rightarrow> Page" where
  "export_page c = \<lparr>pg_Limit = exportListPageSize, pg_Cursor = c\<rparr>"

section \<open>Gathering\<close>

definition listAllCollectors :: "'r export_env \<Rightarrow> auth_User \<Rightarrow> database \<Rightarrow> (export_error + Collector list) option" where
  "listAllCollectors env u d = drain (page_of (\<lambda>c. Collector_List (xe_tc env) (xe_ilike env) u [] (export_page c) d) Inr) []"

definition owned_by :: "uuid \<Rightarrow> SpecimenFilter" where
  "owned_by ownerID = no_filter\<lparr>sf_OwnerID := Some ownerID\<rparr>"

definition listAllSpecimens ::
  "'r::{linorder,zero} export_env \<Rightarrow> auth_User \<Rightarrow> uuid \<Rightarrow> database \<Rightarrow> (export_error + Specimen list) option" where
  "listAllSpecimens env u ownerID d =
     drain (page_of (\<lambda>c. SpecimenPostgres_List (xe_tc env) (xe_ts env) u (owned_by ownerID) (export_page c) d) Inr) []"

definition collectorRecord :: "Collector \<Rightarrow> exportCollectorRecord" where
  "collectorRecord c = \<lparr>xc_ID = co_ID c, xc_Name = co_Name c, xc_Notes = co_Notes c, xc_CreatedAt = co_CreatedAt c, xc_UpdatedAt = co_UpdatedAt c\<rparr>"

definition specimenRecord :: "database \<Rightarrow> Specimen \<Rightarrow> exportSpecimenRecord" where
  "specimenRecord d sp =
     \<lparr>xs_row = sp, xs_TypeData = sp_TypeData sp, xs_CollectorIDs = map (\<lambda>l. co_ID (scl_Collector l)) (GetChain d (sp_ID sp))\<rparr>"

definition photoKindOrDefault :: "PhotoKind \<Rightarrow> PhotoKind" where
  "photoKindOrDefault k = (if k = [] then ''visible'' else k)"

definition imageRecord :: "'r export_env \<Rightarrow> uuid \<Rightarrow> Photo \<Rightarrow> File \<Rightarrow> exportImageRecord" where
  "imageRecord env specimenID p f =
     (let str = uuid_String (xe_tc env) in
      \<lparr>xi_ImageID = ph_ID p, xi_SpecimenID = specimenID, xi_FileID = ph_FileID p,
       xi_Path = ''images/'' @ str specimenID @ ''/'' @ str (ph_ID p) @ extensionForContentType (fi_ContentType f),
       xi_Kind = photoKindOrDefault (ph_Kind p), xi_Position = ph_Position p, xi_Visibility = ph_Visibility p, xi_TakenAt = ph_TakenAt p,
       xi_ContentHash = ''sha256:'' @ fi_SHA256 f, xi_ContentType = fi_ContentType f, xi_ByteSize = fi_ByteSize f,
       xi_CreatedAt = ph_CreatedAt p, xi_key = fi_S3Key f\<rparr>)"

definition collectPhotos ::
  "'r::zero export_env \<Rightarrow> auth_User \<Rightarrow> uuid \<Rightarrow> database \<Rightarrow> (export_error + exportImageRecord list) option" where
  "collectPhotos env u specimenID d =
     drain (page_of (\<lambda>c. ListBySpecimen (xe_tc env) u specimenID (export_page c) d)
       (\<lambda>p. map_sum ExportRepo (imageRecord env specimenID p) (FilePostgres_GetByID d (ph_FileID p)))) []"

definition attachmentRecord :: "'r export_env \<Rightarrow> JournalEntryFile \<Rightarrow> File \<Rightarrow> exportAttachmentRecord" where
  "attachmentRecord env l f =
     (let str = uuid_String (xe_tc env) in
      \<lparr>xa_FileID = jf_FileID l, xa_Position = jf_Position l,
       xa_Path = ''files/journal/'' @ str (jf_EntryID l) @ ''/'' @ str (jf_FileID l) @ extensionForJournalContentType (fi_ContentType f),
       xa_ContentHash = ''sha256:'' @ fi_SHA256 f, xa_ContentType = fi_ContentType f, xa_ByteSize = fi_ByteSize f,
       xa_CreatedAt = jf_CreatedAt l, xa_key = fi_S3Key f, xa_entryID = jf_EntryID l\<rparr>)"

definition journalRecord :: "'r export_env \<Rightarrow> database \<Rightarrow> JournalEntry \<Rightarrow> export_error + exportJournalRecord" where
  "journalRecord env d e =
     sum_bind (map_each (\<lambda>l. map_sum ExportRepo (attachmentRecord env l) (FilePostgres_GetByID d (jf_FileID l))) (ListByEntry d (je_ID e))) (\<lambda>atts.
     Inr \<lparr>xj_ID = je_ID e, xj_SpecimenID = je_SpecimenID e, xj_BodyMD = je_BodyMD e, xj_Attachments = atts,
       xj_CreatedAt = je_CreatedAt e, xj_UpdatedAt = je_UpdatedAt e\<rparr>)"

definition collectJournal ::
  "'r export_env \<Rightarrow> auth_User \<Rightarrow> uuid \<Rightarrow> database \<Rightarrow> (export_error + exportJournalRecord list) option" where
  "collectJournal env u specimenID d =
     drain (page_of (\<lambda>c. JournalEntry_ListBySpecimen (xe_tc env) u specimenID (export_page c) d) (journalRecord env d)) []"

definition qrSheetRecord :: "uuid \<Rightarrow> database \<Rightarrow> export_error + exportQRSheetRecord list" where
  "qrSheetRecord userID d =
     (case QRSheet_GetByUser d userID of
        Inl e \<Rightarrow> if e = Domain ErrQRSheetNotFound then Inr [] else Inl (ExportRepo e)
      | Inr sheet \<Rightarrow>
          Inr [\<lparr>xh_ID = qs_ID sheet, xh_Template = qs_Template sheet,
            xh_Specimens = map (\<lambda>m. \<lparr>xq_SpecimenID = qe_SpecimenID m, xq_Position = qe_Position m, xq_AddedAt = qe_AddedAt m\<rparr>)
              (ListSpecimens d (qs_ID sheet)),
            xh_CreatedAt = qs_CreatedAt sheet, xh_UpdatedAt = qs_UpdatedAt sheet\<rparr>])"

text \<open>The specimens in turn, each with its photos and its journal.\<close>

fun gather_specimens ::
  "'r::{linorder,zero} export_env \<Rightarrow> auth_User \<Rightarrow> database \<Rightarrow> Specimen list \<Rightarrow>
   (export_error + exportSpecimenRecord list \<times> exportImageRecord list \<times> exportJournalRecord list) option" where
  "gather_specimens env u d [] = Some (Inr ([], [], []))"
| "gather_specimens env u d (sp # sps) =
     run_bind (collectPhotos env u (sp_ID sp) d) (\<lambda>images.
     run_bind (collectJournal env u (sp_ID sp) d) (\<lambda>entries.
     run_bind (gather_specimens env u d sps) (\<lambda>(recs, images', entries').
     Some (Inr (specimenRecord d sp # recs, images @ images', entries @ entries')))))"

definition assemble ::
  "'r export_env \<Rightarrow> auth_User \<Rightarrow> exportCollectorRecord list \<Rightarrow>
   exportSpecimenRecord list \<times> exportImageRecord list \<times> exportJournalRecord list \<Rightarrow> exportQRSheetRecord list \<Rightarrow> exportArchive" where
  "assemble env u cols parts sheets =
     (case parts of (specs, images, journal) \<Rightarrow>
        let attachments = concat (map xj_Attachments journal) in
        \<lparr>xr_manifest = \<lparr>xm_SchemaVersion = exportSchemaVersion, xm_Application = ''minerals'', xm_ExportedAt = xe_now env,
           xm_ExportedBy = u_Sub u, xm_Counts = \<lparr>xn_Collectors = int (length cols), xn_Specimens = int (length specs),
             xn_JournalEntries = int (length journal), xn_QRSheets = int (length sheets), xn_Images = int (length images),
             xn_JournalFiles = int (length attachments)\<rparr>, xm_Images = images\<rparr>,
         xr_collectors = cols, xr_specimens = specs, xr_journal = journal, xr_qrsheets = sheets, xr_attachments = attachments\<rparr>)"

definition gather :: "'r::{linorder,zero} export_env \<Rightarrow> auth_User \<Rightarrow> database \<Rightarrow> (export_error + exportArchive) option" where
  "gather env u d =
     run_bind (listAllCollectors env u d) (\<lambda>cols.
     run_bind (listAllSpecimens env u (u_ID u) d) (\<lambda>specs.
     run_bind (gather_specimens env u d (filter (\<lambda>sp. sp_AuthorID sp = u_ID u) specs)) (\<lambda>parts.
     run_bind (Some (qrSheetRecord (u_ID u) d)) (\<lambda>sheets.
     Some (Inr (assemble env u (map collectorRecord (filter (\<lambda>c. co_AuthorID c = u_ID u) cols)) parts sheets))))))"

section \<open>JSON\<close>

text \<open>The indented form: two blanks a level, nothing inside an empty list or object.\<close>

definition line_break :: "nat \<Rightarrow> string" where
  "line_break depth = CHR 0x0A # replicate (2 * depth) (CHR '' '')"

fun json_indent :: "nat \<Rightarrow> json \<Rightarrow> string" where
  "json_indent d (JArr vs) =
     (if vs = [] then ''[]'' else ''['' @ commas (map (\<lambda>v. line_break (Suc d) @ json_indent (Suc d) v) vs) @ line_break d @ '']'')"
| "json_indent d (JObj kvs) =
     (if kvs = [] then ''{}''
      else ''{'' @ commas (map (\<lambda>(k, v). line_break (Suc d) @ print_str k @ '': '' @ json_indent (Suc d) v) kvs) @ line_break d @ ''}'')"
| "json_indent d v = json_print v"

text \<open>A time outside the years 0 to 9999 does not marshal.\<close>

definition time_json :: "'r text_codec \<Rightarrow> time \<Rightarrow> json option" where
  "time_json tc t = (if time_marshals t then Some (JStr (time_Format tc t)) else None)"

definition time_omitempty :: "'r text_codec \<Rightarrow> time option \<Rightarrow> json option option" where
  "time_omitempty tc t = (case t of None \<Rightarrow> Some None | Some t \<Rightarrow> map_option Some (time_json tc t))"

definition int_json :: "int \<Rightarrow> json" where
  "int_json i = JNum (FormatInt i)"

definition str_omitempty :: "string \<Rightarrow> json option" where
  "str_omitempty s = (if s = [] then None else Some (JStr s))"

definition float_omitempty :: "value_codec \<Rightarrow> float64 \<Rightarrow> json option" where
  "float_omitempty vc x = (if x = 0 then None else Some (JNum (vf_Format vc x)))"

text \<open>A slice that is nil is written as \<open>null\<close>.\<close>

definition nil_slice :: "json list \<Rightarrow> json" where
  "nil_slice vs = (if vs = [] then JNull else JArr vs)"

fun all_some :: "'a option list \<Rightarrow> 'a list option" where
  "all_some [] = Some []"
| "all_some (x # xs) = do { y \<leftarrow> x; ys \<leftarrow> all_some xs; Some (y # ys) }"

definition encode_counts :: "exportCounts \<Rightarrow> json" where
  "encode_counts n =
     JObj [(''collectors'', int_json (xn_Collectors n)), (''specimens'', int_json (xn_Specimens n)),
       (''journalEntries'', int_json (xn_JournalEntries n)), (''qrsheets'', int_json (xn_QRSheets n)),
       (''images'', int_json (xn_Images n)), (''journalFiles'', int_json (xn_JournalFiles n))]"

definition encode_image :: "'r export_env \<Rightarrow> exportImageRecord \<Rightarrow> json option" where
  "encode_image env x = do {
     taken \<leftarrow> time_omitempty (xe_tc env) (xi_TakenAt x);
     created \<leftarrow> time_json (xe_tc env) (xi_CreatedAt x);
     let str = uuid_String (xe_tc env);
     Some (JObj (present_fields
       [(''imageId'', Some (JStr (str (xi_ImageID x)))), (''specimenId'', Some (JStr (str (xi_SpecimenID x)))),
        (''fileId'', Some (JStr (str (xi_FileID x)))), (''path'', Some (JStr (xi_Path x))), (''kind'', Some (JStr (xi_Kind x))),
        (''position'', Some (int_json (xi_Position x))), (''visibility'', map_option JStr (xi_Visibility x)), (''takenAt'', taken),
        (''contentHash'', Some (JStr (xi_ContentHash x))), (''contentType'', Some (JStr (xi_ContentType x))),
        (''byteSize'', Some (int_json (xi_ByteSize x))), (''createdAt'', Some created)]))
   }"

definition encode_manifest :: "'r export_env \<Rightarrow> exportManifest \<Rightarrow> json option" where
  "encode_manifest env m = do {
     exportedAt \<leftarrow> time_json (xe_tc env) (xm_ExportedAt m);
     images \<leftarrow> all_some (map (encode_image env) (xm_Images m));
     Some (JObj [(''schemaVersion'', int_json (xm_SchemaVersion m)), (''application'', JStr (xm_Application m)), (''exportedAt'', exportedAt),
       (''exportedBy'', JStr (xm_ExportedBy m)), (''counts'', encode_counts (xm_Counts m)), (''images'', nil_slice images)])
   }"

definition encode_collector :: "'r export_env \<Rightarrow> exportCollectorRecord \<Rightarrow> json option" where
  "encode_collector env c = do {
     created \<leftarrow> time_json (xe_tc env) (xc_CreatedAt c);
     updated \<leftarrow> time_json (xe_tc env) (xc_UpdatedAt c);
     Some (JObj (present_fields
       [(''id'', Some (JStr (uuid_String (xe_tc env) (xc_ID c)))), (''name'', Some (JStr (xc_Name c))), (''notes'', map_option JStr (xc_Notes c)),
        (''createdAt'', Some created), (''updatedAt'', Some updated)]))
   }"

definition encode_locality :: "value_codec \<Rightarrow> Locality \<Rightarrow> json" where
  "encode_locality vc l =
     JObj (present_fields
       [(''country'', str_omitempty (loc_Country l)), (''region'', str_omitempty (loc_Region l)), (''site'', str_omitempty (loc_Site l)),
        (''lat'', float_omitempty vc (loc_Lat l)), (''lon'', float_omitempty vc (loc_Lon l)), (''mindat_id'', str_omitempty (loc_MindatID l))])"

definition encode_dimensions :: "value_codec \<Rightarrow> Dimensions \<Rightarrow> json" where
  "encode_dimensions vc x =
     JObj (present_fields
       [(''length_mm'', float_omitempty vc (dim_LengthMM x)), (''width_mm'', float_omitempty vc (dim_WidthMM x)),
        (''height_mm'', float_omitempty vc (dim_HeightMM x))])"

text \<open>A raw message that is not JSON fails to encode; an empty one is left out.\<close>

definition raw_omitempty :: "string \<Rightarrow> json option option" where
  "raw_omitempty raw = (if raw = [] then Some None else map_option Some (json_parse raw))"

definition encode_specimen :: "'r export_env \<Rightarrow> exportSpecimenRecord \<Rightarrow> json option" where
  "encode_specimen env x = do {
     let sp = xs_row x;
     let str = uuid_String (xe_tc env);
     acquired \<leftarrow> time_omitempty (xe_tc env) (sp_AcquiredAt sp);
     typeData \<leftarrow> raw_omitempty (xs_TypeData x);
     created \<leftarrow> time_json (xe_tc env) (sp_CreatedAt sp);
     updated \<leftarrow> time_json (xe_tc env) (sp_UpdatedAt sp);
     Some (JObj (present_fields
       [(''id'', Some (JStr (str (sp_ID sp)))), (''type'', Some (JStr (sp_Type sp))), (''catalogNumber'', map_option JStr (sp_CatalogNumber sp)),
        (''name'', Some (JStr (sp_Name sp))), (''description'', Some (JStr (sp_Description sp))), (''visibility'', Some (JStr (sp_Visibility sp))),
        (''acquiredAt'', acquired), (''acquiredFrom'', map_option JStr (sp_AcquiredFrom sp)),
        (''priceCents'', map_option (\<lambda>w. int_json (sint w)) (sp_PriceCents sp)), (''sourceNotes'', map_option JStr (sp_SourceNotes sp)),
        (''localityText'', map_option JStr (sp_LocalityText sp)), (''locality'', map_option (encode_locality (xe_vc env)) (sp_Locality sp)),
        (''massG'', map_option (\<lambda>x. JNum (vf_Format (xe_vc env) x)) (sp_MassG sp)),
        (''dimensions'', map_option (encode_dimensions (xe_vc env)) (sp_Dimensions sp)), (''typeData'', typeData),
        (''mainImageId'', map_option (\<lambda>i. JStr (str i)) (sp_MainImageID sp)), (''visibilityPrice'', map_option JStr (sp_VisibilityPrice sp)),
        (''visibilityAcquiredFrom'', map_option JStr (sp_VisibilityAcquiredFrom sp)),
        (''visibilityImages'', map_option JStr (sp_VisibilityImages sp)), (''tagged'', Some (JBool (sp_Tagged sp))),
        (''collectorIds'', Some (JArr (map (\<lambda>i. JStr (str i)) (xs_CollectorIDs x)))), (''createdAt'', Some created), (''updatedAt'', Some updated)]))
   }"

definition encode_attachment :: "'r export_env \<Rightarrow> exportAttachmentRecord \<Rightarrow> json option" where
  "encode_attachment env a = do {
     created \<leftarrow> time_json (xe_tc env) (xa_CreatedAt a);
     Some (JObj [(''fileId'', JStr (uuid_String (xe_tc env) (xa_FileID a))), (''position'', int_json (xa_Position a)), (''path'', JStr (xa_Path a)),
       (''contentHash'', JStr (xa_ContentHash a)), (''contentType'', JStr (xa_ContentType a)), (''byteSize'', int_json (xa_ByteSize a)),
       (''createdAt'', created)])
   }"

definition encode_entry :: "'r export_env \<Rightarrow> exportJournalRecord \<Rightarrow> json option" where
  "encode_entry env e = do {
     atts \<leftarrow> all_some (map (encode_attachment env) (xj_Attachments e));
     created \<leftarrow> time_json (xe_tc env) (xj_CreatedAt e);
     updated \<leftarrow> time_json (xe_tc env) (xj_UpdatedAt e);
     Some (JObj [(''id'', JStr (uuid_String (xe_tc env) (xj_ID e))), (''specimenId'', JStr (uuid_String (xe_tc env) (xj_SpecimenID e))),
       (''bodyMd'', JStr (xj_BodyMD e)), (''attachments'', JArr atts), (''createdAt'', created), (''updatedAt'', updated)])
   }"

definition encode_member :: "'r export_env \<Rightarrow> exportQRSheetMember \<Rightarrow> json option" where
  "encode_member env m = do {
     added \<leftarrow> time_json (xe_tc env) (xq_AddedAt m);
     Some (JObj [(''specimenId'', JStr (uuid_String (xe_tc env) (xq_SpecimenID m))), (''position'', int_json (xq_Position m)), (''addedAt'', added)])
   }"

definition encode_sheet :: "'r export_env \<Rightarrow> exportQRSheetRecord \<Rightarrow> json option" where
  "encode_sheet env q = do {
     members \<leftarrow> all_some (map (encode_member env) (xh_Specimens q));
     created \<leftarrow> time_json (xe_tc env) (xh_CreatedAt q);
     updated \<leftarrow> time_json (xe_tc env) (xh_UpdatedAt q);
     Some (JObj [(''id'', JStr (uuid_String (xe_tc env) (xh_ID q))), (''template'', JStr (xh_Template q)), (''specimens'', JArr members),
       (''createdAt'', created), (''updatedAt'', updated)])
   }"

section \<open>Writing the archive\<close>

text \<open>
  A step gives the entries it has written and whether the stream goes on: a value that does not marshal leaves its entry
  empty, or with the lines before it, and ends the stream, and so does an object that cannot be fetched.
\<close>

type_synonym zip_part = "string \<times> bytes"

definition then_write :: "zip_part list \<times> bool \<Rightarrow> (unit \<Rightarrow> zip_part list \<times> bool) \<Rightarrow> zip_part list \<times> bool" where
  "then_write r k = (case r of (parts, ok) \<Rightarrow> if ok then (case k () of (parts', ok') \<Rightarrow> (parts @ parts', ok')) else (parts, False))"

definition writeZipJSON :: "string \<Rightarrow> json option \<Rightarrow> zip_part list \<times> bool" where
  "writeZipJSON name v =
     (case v of None \<Rightarrow> ([(name, [])], False) | Some v \<Rightarrow> ([(name, bytes_of (json_indent 0 v @ [CHR 0x0A]))], True))"

fun jsonl_text :: "('a \<Rightarrow> json option) \<Rightarrow> 'a list \<Rightarrow> string \<times> bool" where
  "jsonl_text enc [] = ([], True)"
| "jsonl_text enc (x # xs) =
     (case enc x of
        None \<Rightarrow> ([], False)
      | Some v \<Rightarrow> (case jsonl_text enc xs of (t, ok) \<Rightarrow> (json_print v @ [CHR 0x0A] @ t, ok)))"

definition writeZipJSONL :: "string \<Rightarrow> ('a \<Rightarrow> json option) \<Rightarrow> 'a list \<Rightarrow> zip_part list \<times> bool" where
  "writeZipJSONL name enc items = (case jsonl_text enc items of (t, ok) \<Rightarrow> ([(name, bytes_of t)], ok))"

definition streamObject :: "faults \<Rightarrow> objects \<Rightarrow> string \<Rightarrow> string \<Rightarrow> zip_part list \<times> bool" where
  "streamObject fl st path key =
     (case Download fl key st of Inl _ \<Rightarrow> ([(path, [])], False) | Inr (body, _) \<Rightarrow> ([(path, body)], True))"

fun stream_objects :: "faults \<Rightarrow> objects \<Rightarrow> (string \<times> string) list \<Rightarrow> zip_part list \<times> bool" where
  "stream_objects fl st [] = ([], True)"
| "stream_objects fl st ((path, key) # xs) = then_write (streamObject fl st path key) (\<lambda>_. stream_objects fl st xs)"

definition stream_zip :: "'r export_env \<Rightarrow> exportArchive \<Rightarrow> objects \<Rightarrow> zip_part list \<times> bool" where
  "stream_zip env arch st =
     then_write (writeZipJSON ''manifest.json'' (encode_manifest env (xr_manifest arch))) (\<lambda>_.
     then_write (writeZipJSONL ''data/collectors.jsonl'' (encode_collector env) (xr_collectors arch)) (\<lambda>_.
     then_write (writeZipJSONL ''data/specimens.jsonl'' (encode_specimen env) (xr_specimens arch)) (\<lambda>_.
     then_write (writeZipJSONL ''data/journal_entries.jsonl'' (encode_entry env) (xr_journal arch)) (\<lambda>_.
     then_write (writeZipJSONL ''data/qrsheets.jsonl'' (encode_sheet env) (xr_qrsheets arch)) (\<lambda>_.
     then_write (stream_objects (xe_faults env) st (map (\<lambda>i. (xi_Path i, xi_key i)) (xm_Images (xr_manifest arch)))) (\<lambda>_.
     stream_objects (xe_faults env) st (map (\<lambda>a. (xa_Path a, xa_key a)) (xr_attachments arch))))))))"

text \<open>The reply: the headers, the entries of the body, and whether all of them were written.\<close>

record export_reply =
  xo_ContentType :: string
  xo_ContentDisposition :: string
  xo_CacheControl :: string
  xo_parts :: "zip_part list"
  xo_complete :: bool

definition exportData ::
  "'r::{linorder,zero} export_env \<Rightarrow> auth_User \<Rightarrow> database \<Rightarrow> objects \<Rightarrow> (apiError + export_reply) option" where
  "exportData env u d st =
     (if u_Sub u = [] \<or> u_ID u = uuid_Nil then Some (Inl (newAPIError 401 ''unauthorized'' ''authentication required'' []))
      else map_option (\<lambda>r. case r of
          Inl _ \<Rightarrow> Inl (newAPIError 500 ''internal_error'' ''failed to assemble export'' [])
        | Inr arch \<Rightarrow>
            let filename = ''minerals-export-'' @ xe_day env (xm_ExportedAt (xr_manifest arch)) @ ''.zip''; (parts, ok) = stream_zip env arch st in
            Inr \<lparr>xo_ContentType = ''application/zip'',
              xo_ContentDisposition = ''attachment; filename='' @ vq_Quote (xe_vc env) filename @ ''; filename*=UTF-8'' @ [CHR 0x27, CHR 0x27] @ filename,
              xo_CacheControl = ''no-store'', xo_parts = parts, xo_complete = ok\<rparr>) (gather env u d))"

section \<open>Loops that end\<close>

lemma map_each_Inr: "map_each row xs = Inr ys \<Longrightarrow> y \<in> set ys \<Longrightarrow> \<exists>x\<in>set xs. row x = Inr y"
  by (induction xs arbitrary: ys) (auto simp: sum_bind_Inr)

lemma map_each_total: "(\<And>x. x \<in> set xs \<Longrightarrow> row x = Inr (g x)) \<Longrightarrow> map_each row xs = Inr (map g xs)"
  by (induction xs) simp_all

lemma drain_elements:
  fixes f :: "string \<Rightarrow> 'e + 'a list \<times> string"
  assumes "drain f c = Some r"
  shows "(\<forall>c ys n. f c = Inr (ys, n) \<longrightarrow> (\<forall>y\<in>set ys. P y)) \<longrightarrow> (\<forall>ys. r = Inr ys \<longrightarrow> (\<forall>x\<in>set ys. P x))"
proof (rule drain.raw_induct [OF _ assms])
  fix rec :: "(string \<Rightarrow> 'e + 'a list \<times> string) \<Rightarrow> string \<Rightarrow> ('e + 'a list) option" and f c r
  assume ih: "\<And>f c r. rec f c = Some r \<Longrightarrow>
      (\<forall>c ys n. f c = Inr (ys, n) \<longrightarrow> (\<forall>y\<in>set ys. P y)) \<longrightarrow> (\<forall>ys. r = Inr ys \<longrightarrow> (\<forall>x\<in>set ys. P x))"
    and step: "(case f c of Inl e \<Rightarrow> Some (Inl e) | Inr (xs, next') \<Rightarrow>
        if next' = [] then Some (Inr xs) else Option.bind (rec f next') (\<lambda>r. Some (map_sum id ((@) xs) r))) = Some r"
  show "(\<forall>c ys n. f c = Inr (ys, n) \<longrightarrow> (\<forall>y\<in>set ys. P y)) \<longrightarrow> (\<forall>ys. r = Inr ys \<longrightarrow> (\<forall>x\<in>set ys. P x))"
  proof (intro impI allI)
    fix ys
    assume pages: "\<forall>c ys n. f c = Inr (ys, n) \<longrightarrow> (\<forall>y\<in>set ys. P y)" and r: "r = Inr ys"
    then obtain xs n where page: "f c = Inr (xs, n)" using step by (auto split: sum.splits)
    show "\<forall>x\<in>set ys. P x"
    proof (cases "n = []")
      case True
      then show ?thesis using step page r pages by auto
    next
      case False
      then obtain r' where r': "rec f n = Some r'" "r = map_sum id ((@) xs) r'"
        using step page by (auto simp: bind_eq_Some_conv)
      then obtain zs where "r' = Inr zs" "ys = xs @ zs" using r by (cases r') auto
      then show ?thesis using ih [OF r'(1)] pages page by auto
    qed
  qed
qed

text \<open>When a walk over the pages ends and every row can be recorded, so does the loop, with the rows of all pages.\<close>

lemma drain_walk:
  assumes "walk n f c = Some ps" and "\<And>x. x \<in> set (concat ps) \<Longrightarrow> row x = Inr (g x)"
  shows "drain (page_of f row) c = Some (Inr (map g (concat ps)))"
  using assms
proof (induction n arbitrary: c ps)
  case (Suc n)
  obtain xs c' where page: "f c = Inr (xs, c')" using Suc.prems(1) by (auto split: sum.splits)
  have first: "page_of f row c = Inr (map g xs, c')" if "\<And>x. x \<in> set xs \<Longrightarrow> row x = Inr (g x)"
    using that by (simp add: page_of_def page map_each_total)
  show ?case
  proof (cases "c' = []")
    case True
    then have "ps = [xs]" using Suc.prems(1) page by simp
    then show ?thesis using first Suc.prems(2) True by (simp add: drain.simps [of _ c])
  next
    case False
    then obtain qs where qs: "walk n f c' = Some qs" "ps = xs # qs" using Suc.prems(1) page by auto
    have "drain (page_of f row) c' = Some (Inr (map g (concat qs)))"
      by (rule Suc.IH [OF qs(1)]) (use Suc.prems(2) qs(2) in simp)
    then show ?thesis using first Suc.prems(2) qs(2) False by (simp add: drain.simps [of _ c])
  qed
qed simp

section \<open>What is gathered\<close>

text \<open>Every list the export follows has rows its cursors can name.\<close>

definition exportable :: "database \<Rightarrow> bool" where
  "exportable d \<longleftrightarrow> (\<forall>c\<in>set (db_collectors d). time_marshals (co_CreatedAt c) \<and> co_ID c \<noteq> uuid_Nil) \<and>
     (\<forall>s\<in>set (db_specimens d). row_marshals s) \<and> (\<forall>p\<in>set (db_photos d). photo_marshals p) \<and>
     (\<forall>e\<in>set (db_journal d). time_marshals (je_CreatedAt e) \<and> je_ID e \<noteq> uuid_Nil)"

definition file_of :: "database \<Rightarrow> uuid \<Rightarrow> File" where
  "file_of d i = projr (FilePostgres_GetByID d i)"

definition own_collectors :: "auth_User \<Rightarrow> database \<Rightarrow> Collector list" where
  "own_collectors u d = order_desc collector_key (filter (\<lambda>c. co_AuthorID c = u_ID u) (db_collectors d))"

definition own_specimens :: "auth_User \<Rightarrow> database \<Rightarrow> Specimen list" where
  "own_specimens u d = order_desc specimen_key (filter (\<lambda>s. sp_AuthorID s = u_ID u) (db_specimens d))"

definition own_images :: "'r export_env \<Rightarrow> database \<Rightarrow> uuid \<Rightarrow> exportImageRecord list" where
  "own_images env d sid = map (\<lambda>p. imageRecord env sid p (file_of d (ph_FileID p)))
     (sort_key photo_key (filter (\<lambda>p. ph_SpecimenID p = sid) (db_photos d)))"

definition entry_record :: "'r export_env \<Rightarrow> database \<Rightarrow> JournalEntry \<Rightarrow> exportJournalRecord" where
  "entry_record env d e =
     \<lparr>xj_ID = je_ID e, xj_SpecimenID = je_SpecimenID e, xj_BodyMD = je_BodyMD e,
      xj_Attachments = map (\<lambda>l. attachmentRecord env l (file_of d (jf_FileID l))) (ListByEntry d (je_ID e)),
      xj_CreatedAt = je_CreatedAt e, xj_UpdatedAt = je_UpdatedAt e\<rparr>"

definition own_entries :: "'r export_env \<Rightarrow> auth_User \<Rightarrow> database \<Rightarrow> uuid \<Rightarrow> exportJournalRecord list" where
  "own_entries env u d sid = map (entry_record env d)
     (order_desc journal_key (filter (\<lambda>e. je_SpecimenID e = sid \<and> ownerScope u (je_AuthorID e)) (db_journal d)))"

text \<open>No photo of the specimen is hidden from the caller.\<close>

definition photo_scope_open :: "auth_User \<Rightarrow> uuid \<Rightarrow> database \<Rightarrow> bool" where
  "photo_scope_open u sid d \<longleftrightarrow> (\<forall>p\<in>set (db_photos d). ph_SpecimenID p = sid \<longrightarrow> photo_scope d u p)"

lemma file_found: "i \<in> fi_ID ` set (db_files d) \<Longrightarrow> FilePostgres_GetByID d i = Inr (file_of d i)"
  by (auto simp: file_of_def FilePostgres_GetByID_def find_None_iff split: option.split)

lemma collectors_drained:
  assumes "text_forms (xe_tc env)" and "keys_ok d" and "exportable d"
  shows "listAllCollectors env u d = Some (Inr (order_desc collector_key (filter (\<lambda>c. ownerScope u (co_AuthorID c)) (db_collectors d))))"
proof -
  have list: "(\<lambda>c. Collector_List (xe_tc env) (xe_ilike env) u [] (export_page c) d) =
      keyset_list collector_key (\<lambda>c. EncodeCursor (xe_tc env) (co_CreatedAt c) (co_ID c)) (DecodeCursor (xe_tc env))
        (filter (\<lambda>c. ownerScope u (co_AuthorID c)) (db_collectors d)) (clampLimit exportListPageSize)"
    by (simp add: fun_eq_iff Collector_List_def export_page_def name_filter_def trimSpace_def)
  obtain ps where "walk (Suc (length (db_collectors d))) (\<lambda>c. Collector_List (xe_tc env) (xe_ilike env) u [] (export_page c) d) [] = Some ps"
    "concat ps = order_desc collector_key (filter (\<lambda>c. ownerScope u (co_AuthorID c)) (db_collectors d))"
    using created_walk [OF assms(1), of co_ID "db_collectors d" co_CreatedAt "\<lambda>c. ownerScope u (co_AuthorID c)" exportListPageSize] assms(2,3)
    unfolding list collector_key_def by (auto simp: keys_ok_def exportable_def simp del: walk.simps)
  from drain_walk [OF this(1), of Inr id] this(2) show ?thesis by (simp add: listAllCollectors_def)
qed

lemma specimens_drained:
  assumes "text_forms (xe_tc env)" and "keys_ok d" and "exportable d" and "u_ID u \<noteq> uuid_Nil"
  shows "listAllSpecimens env u (u_ID u) d = Some (Inr (own_specimens u d))"
proof -
  have "listed (xe_ts env) u (owned_by (u_ID u)) d = (\<lambda>s. sp_AuthorID s = u_ID u)"
    using assms(4) by (auto simp: fun_eq_iff listed_def owned_by_def no_filter_def applySharedFilters_def cond_def specimenListScope_def
        isAnonymous_def trimSpace_def)
  moreover have "filter_enums_ok (owned_by (u_ID u))" by (simp add: filter_enums_ok_def owned_by_def no_filter_def cond_def)
  ultimately obtain ps where
    "walk (Suc (length (db_specimens d))) (\<lambda>c. SpecimenPostgres_List (xe_tc env) (xe_ts env) u (owned_by (u_ID u)) (export_page c) d) [] = Some ps"
    "concat ps = own_specimens u d"
    using specimen_list_walk [OF assms(1), of "owned_by (u_ID u)" d "xe_ts env" u exportListPageSize] assms(2,3)
    by (auto simp: keys_ok_def exportable_def export_page_def list_order_def own_specimens_def owned_by_def no_filter_def trimSpace_def
        simp del: walk.simps)
  from drain_walk [OF this(1), of Inr id] this(2) show ?thesis by (simp add: listAllSpecimens_def)
qed

lemma photos_drained:
  assumes "text_forms (xe_tc env)" and "consistent d" and "exportable d" and "photo_scope_open u sid d"
  shows "collectPhotos env u sid d = Some (Inr (own_images env d sid))"
proof -
  have "distinct (map ph_ID (db_photos d))" "\<forall>p\<in>set (db_photos d). photo_marshals p" and refs: "refs ph_FileID (db_photos d) fi_ID (db_files d)"
    using assms(2,3) by (simp_all add: consistent_def keys_ok_def fk_ok_def exportable_def)
  from photo_pages [OF assms(1) this(1,2), of u sid exportListPageSize, folded export_page_def] obtain ps where
    ps: "walk (Suc (length (db_photos d))) (\<lambda>c. ListBySpecimen (xe_tc env) u sid (export_page c) d) [] = Some ps"
      "concat ps = sort_key photo_key (specimen_photos u sid d)" by blast
  have own: "specimen_photos u sid d = filter (\<lambda>p. ph_SpecimenID p = sid) (db_photos d)"
    using assms(4) by (auto simp: specimen_photos_def photo_scope_open_def intro: filter_cong)
  have row: "map_sum ExportRepo (imageRecord env sid p) (FilePostgres_GetByID d (ph_FileID p)) = Inr (imageRecord env sid p (file_of d (ph_FileID p)))"
    if "p \<in> set (concat ps)" for p
  proof -
    have "p \<in> set (db_photos d)" using that by (simp add: ps(2) own del: set_concat)
    then show ?thesis using refs file_found by (simp add: refs_def)
  qed
  show ?thesis
    using drain_walk [OF ps(1), of "\<lambda>p. map_sum ExportRepo (imageRecord env sid p) (FilePostgres_GetByID d (ph_FileID p))", OF row]
    by (simp add: collectPhotos_def own_images_def ps(2) own)
qed

lemma journal_drained:
  assumes "text_forms (xe_tc env)" and "consistent d" and "exportable d"
  shows "collectJournal env u sid d = Some (Inr (own_entries env u d sid))"
proof -
  let ?P = "\<lambda>e. je_SpecimenID e = sid \<and> ownerScope u (je_AuthorID e)"
  have refs: "refs jf_FileID (db_journal_files d) fi_ID (db_files d)" using assms(2) by (simp add: consistent_def fk_ok_def)
  have list: "(\<lambda>c. JournalEntry_ListBySpecimen (xe_tc env) u sid (export_page c) d) =
      keyset_list (\<lambda>e. (je_CreatedAt e, je_ID e)) (\<lambda>e. EncodeCursor (xe_tc env) (je_CreatedAt e) (je_ID e)) (DecodeCursor (xe_tc env))
        (filter ?P (db_journal d)) (clampLimit exportListPageSize)"
    by (simp add: fun_eq_iff JournalEntry_ListBySpecimen_def export_page_def journal_key_def [abs_def])
  obtain ps where ps: "walk (Suc (length (db_journal d))) (\<lambda>c. JournalEntry_ListBySpecimen (xe_tc env) u sid (export_page c) d) [] = Some ps"
      "concat ps = order_desc journal_key (filter ?P (db_journal d))"
    using created_walk [OF assms(1), of je_ID "db_journal d" je_CreatedAt ?P exportListPageSize] assms(2,3)
    unfolding list journal_key_def [abs_def] by (auto simp: consistent_def keys_ok_def exportable_def simp del: walk.simps)
  have "map_each (\<lambda>l. map_sum ExportRepo (attachmentRecord env l) (FilePostgres_GetByID d (jf_FileID l))) (ListByEntry d i) =
      Inr (map (\<lambda>l. attachmentRecord env l (file_of d (jf_FileID l))) (ListByEntry d i))" for i
  proof (rule map_each_total)
    fix l
    assume "l \<in> set (ListByEntry d i)"
    then have "jf_FileID l \<in> fi_ID ` set (db_files d)" using refs by (simp add: ListByEntry_def refs_def)
    then show "map_sum ExportRepo (attachmentRecord env l) (FilePostgres_GetByID d (jf_FileID l)) = Inr (attachmentRecord env l (file_of d (jf_FileID l)))"
      by (simp add: file_found)
  qed
  then have "journalRecord env d e = Inr (entry_record env d e)" for e by (simp add: journalRecord_def entry_record_def)
  from drain_walk [OF ps(1), of "journalRecord env d", OF this] show ?thesis
    by (simp add: collectJournal_def own_entries_def ps(2))
qed

lemma specimens_gathered:
  assumes "text_forms (xe_tc env)" and "consistent d" and "exportable d" and "\<forall>sp\<in>set sps. photo_scope_open u (sp_ID sp) d"
  shows "gather_specimens env u d sps = Some (Inr (map (specimenRecord d) sps,
    concat (map (\<lambda>sp. own_images env d (sp_ID sp)) sps), concat (map (\<lambda>sp. own_entries env u d (sp_ID sp)) sps)))"
  using assms(4)
  by (induction sps) (simp_all add: run_bind_def photos_drained [OF assms(1-3)] journal_drained [OF assms(1-3)])

definition own_sheets :: "uuid \<Rightarrow> database \<Rightarrow> exportQRSheetRecord list" where
  "own_sheets userID d = projr (qrSheetRecord userID d)"

definition own_archive :: "'r export_env \<Rightarrow> auth_User \<Rightarrow> database \<Rightarrow> exportArchive" where
  "own_archive env u d =
     (let sps = own_specimens u d in
      assemble env u (map collectorRecord (own_collectors u d))
        (map (specimenRecord d) sps, concat (map (\<lambda>sp. own_images env d (sp_ID sp)) sps), concat (map (\<lambda>sp. own_entries env u d (sp_ID sp)) sps))
        (own_sheets (u_ID u) d))"

lemma own_photos_open:
  assumes "sp \<in> set (own_specimens u d)" and "u_ID u \<noteq> uuid_Nil"
  shows "photo_scope_open u (sp_ID sp) d"
proof -
  have "sp \<in> set (db_specimens d)" "specimenAccessScope d u sp"
    using assms by (simp_all add: own_specimens_def specimenAccessScope_def isAnonymous_def)
  then show ?thesis unfolding photo_scope_open_def photo_scope_def by (intro ballI impI disjI1 bexI [of _ sp]) simp_all
qed

lemma gather_own:
  assumes "text_forms (xe_tc env)" and "consistent d" and "exportable d" and "u_ID u \<noteq> uuid_Nil"
  shows "gather env u d = Some (Inr (own_archive env u d))"
proof -
  have keys: "keys_ok d" using assms(2) by (simp add: consistent_def)
  have "filter (\<lambda>c. co_AuthorID c = u_ID u) (order_desc collector_key (filter (\<lambda>c. ownerScope u (co_AuthorID c)) (db_collectors d))) = own_collectors u d"
    unfolding own_collectors_def order_desc_filter [symmetric] filter_filter
    using assms(4) by (auto simp: ownerScope_def isAnonymous_def intro!: arg_cong [where f = "order_desc collector_key"] filter_cong)
  moreover have "filter (\<lambda>sp. sp_AuthorID sp = u_ID u) (own_specimens u d) = own_specimens u d"
    by (auto simp: own_specimens_def order_desc_filter [symmetric])
  moreover have "qrSheetRecord (u_ID u) d = Inr (own_sheets (u_ID u) d)"
    by (simp add: own_sheets_def qrSheetRecord_def QRSheet_GetByUser_def split: option.split)
  ultimately show ?thesis
    using specimens_gathered [OF assms(1-3), of "own_specimens u d" u] own_photos_open [OF _ assms(4)]
    by (simp add: gather_def collectors_drained [OF assms(1) keys assms(3)] specimens_drained [OF assms(1) keys assms(3,4)] run_bind_def
        own_archive_def Let_def)
qed

section \<open>The entries\<close>

lemma then_write_True: "then_write r k = (parts, True) \<longleftrightarrow> (\<exists>p1 p2. r = (p1, True) \<and> k () = (p2, True) \<and> parts = p1 @ p2)"
  by (auto simp: then_write_def split: prod.splits if_splits)

section \<open>The manifest read by the import\<close>

lemma commas_head: "\<exists>t. commas (x # xs) = x @ t"
  by (cases xs) auto

lemma json_indent_object: "\<exists>rest. json_indent d (JObj ((k, v) # kvs)) = CHR ''{'' # line_break (Suc d) @ print_str k @ rest"
proof -
  obtain t where "commas (map (\<lambda>(k, v). line_break (Suc d) @ print_str k @ '': '' @ json_indent (Suc d) v) ((k, v) # kvs)) =
      (line_break (Suc d) @ print_str k @ '': '' @ json_indent (Suc d) v) @ t"
    using commas_head by (metis (mono_tags, lifting) case_prod_conv list.simps(9))
  then show ?thesis by simp
qed

lemma skip_line_break: "skip_ws (line_break n @ print_str k @ rest) = print_str k @ rest"
  by (auto simp: skip_ws_def line_break_def print_str_def is_ws_def dropWhile_append)

text \<open>Whatever follows, an object whose text starts with a member is an object with that member first, or no JSON.\<close>

lemma parse_members_first:
  assumes "parse_members n (line_break m @ print_str k @ rest) = Some (kvs, t)"
  shows "\<exists>v kvs'. kvs = (k, v) # kvs'"
proof -
  obtain n' where n: "n = Suc n'" using assms by (cases n) auto
  have "parse_str (esc k @ quote_char # rest) = Some (k, rest)" by (rule parse_esc)
  then show ?thesis
    using assms unfolding n parse_members.simps skip_line_break
    by (auto simp: print_str_def split: option.splits list.splits if_splits prod.splits)
qed

lemma json_first_member:
  assumes "json_first (CHR ''{'' # line_break m @ print_str k @ rest) = Some j"
  shows "\<exists>v kvs. j = JObj ((k, v) # kvs)"
proof -
  let ?r = "line_break m @ print_str k @ rest"
  have skip: "skip_ws (CHR ''{'' # ?r) = CHR ''{'' # ?r" by (simp add: skip_ws_def is_ws_def)
  have "take 1 (skip_ws ?r) \<noteq> ''}''" unfolding skip_line_break by (simp add: print_str_def)
  then obtain kvs t where "parse_members (2 * length (CHR ''{'' # ?r)) ?r = Some (kvs, t)" "j = JObj kvs"
    using assms unfolding json_first_def parse_val.simps skip by (auto split: if_splits)
  then show ?thesis using parse_members_first by blast
qed

lemma manifest_text_refused:
  assumes "encode_manifest env m = Some v"
  shows "decode_record Manifest_names (decode_Manifest vc) Manifest_zero (json_indent 0 v @ r) = None"
proof -
  obtain w kvs where v: "v = JObj ((''schemaVersion'', w) # kvs)"
    using assms by (auto simp: encode_manifest_def bind_eq_Some_conv)
  obtain rest where "json_indent 0 v = CHR ''{'' # line_break (Suc 0) @ print_str ''schemaVersion'' @ rest"
    using json_indent_object v by blast
  then have shape: "json_indent 0 v @ r = CHR ''{'' # line_break (Suc 0) @ print_str ''schemaVersion'' @ (rest @ r)" by simp
  have unknown: "\<not> list_ex (\<lambda>n. name_matches n ''schemaVersion'') Manifest_names" by code_simp
  show ?thesis
  proof (cases "json_first (json_indent 0 v @ r)")
    case (Some j)
    then obtain w' kvs' where "j = JObj ((''schemaVersion'', w') # kvs')" using json_first_member unfolding shape by blast
    then show ?thesis using Some unknown by (simp add: decode_record_def dec_strict_def known_members_def)
  qed (simp add: decode_record_def)
qed

text \<open>The manifest is the only entry of its name: every other path starts with \<open>data/\<close>, \<open>images/\<close> or \<open>files/\<close>.\<close>

definition other_path :: "string \<Rightarrow> bool" where
  "other_path path \<longleftrightarrow> path \<noteq> [] \<and> hd path \<noteq> CHR ''m''"

lemma run_bind_Inr: "run_bind r f = Some (Inr y) \<longleftrightarrow> (\<exists>x. r = Some (Inr x) \<and> f x = Some (Inr y))"
  by (auto simp: run_bind_def split: option.splits sum.splits)

lemma drained_rows:
  assumes "drain (page_of list row) c = Some (Inr xs)" and "\<And>x y. row x = Inr y \<Longrightarrow> P y"
  shows "\<forall>x\<in>set xs. P x"
proof -
  have "\<forall>c ys n. page_of list row c = Inr (ys, n) \<longrightarrow> (\<forall>y\<in>set ys. P y)"
  proof (intro allI impI ballI)
    fix c ys n y
    assume "page_of list row c = Inr (ys, n)" and y: "y \<in> set ys"
    then obtain rows where "map_each row rows = Inr ys" by (auto simp: page_of_def sum_bind_Inr)
    from map_each_Inr [OF this y] show "P y" using assms(2) by auto
  qed
  then show ?thesis using drain_elements [OF assms(1), of P] by simp
qed

lemma image_paths:
  assumes "collectPhotos env u sid d = Some (Inr xs)"
  shows "\<forall>x\<in>set xs. other_path (xi_Path x)"
proof (rule drained_rows [OF assms [unfolded collectPhotos_def]])
  fix p x
  assume "map_sum ExportRepo (imageRecord env sid p) (FilePostgres_GetByID d (ph_FileID p)) = Inr x"
  then show "other_path (xi_Path x)"
    by (cases "FilePostgres_GetByID d (ph_FileID p)") (auto simp: other_path_def imageRecord_def Let_def)
qed

lemma attachment_paths:
  assumes "collectJournal env u sid d = Some (Inr xs)"
  shows "\<forall>e\<in>set xs. \<forall>a\<in>set (xj_Attachments e). other_path (xa_Path a)"
proof (rule drained_rows [OF assms [unfolded collectJournal_def]])
  fix e r
  assume "journalRecord env d e = Inr r"
  then have atts: "map_each (\<lambda>l. map_sum ExportRepo (attachmentRecord env l) (FilePostgres_GetByID d (jf_FileID l))) (ListByEntry d (je_ID e)) =
      Inr (xj_Attachments r)"
    by (auto simp: journalRecord_def sum_bind_Inr)
  show "\<forall>a\<in>set (xj_Attachments r). other_path (xa_Path a)"
  proof
    fix a
    assume "a \<in> set (xj_Attachments r)"
    from map_each_Inr [OF atts this] obtain l where
      "map_sum ExportRepo (attachmentRecord env l) (FilePostgres_GetByID d (jf_FileID l)) = Inr a" by blast
    then show "other_path (xa_Path a)"
      by (cases "FilePostgres_GetByID d (jf_FileID l)") (auto simp: other_path_def attachmentRecord_def Let_def)
  qed
qed

lemma specimen_paths:
  "gather_specimens env u d sps = Some (Inr (recs, images, entries)) \<Longrightarrow>
     (\<forall>x\<in>set images. other_path (xi_Path x)) \<and> (\<forall>e\<in>set entries. \<forall>a\<in>set (xj_Attachments e). other_path (xa_Path a))"
proof (induction sps arbitrary: recs images entries)
  case (Cons sp sps)
  obtain ims es recs' images' entries' where
    "collectPhotos env u (sp_ID sp) d = Some (Inr ims)" "collectJournal env u (sp_ID sp) d = Some (Inr es)"
    "gather_specimens env u d sps = Some (Inr (recs', images', entries'))" "images = ims @ images'" "entries = es @ entries'"
    using Cons.prems by (auto simp: run_bind_Inr)
  with image_paths attachment_paths Cons.IH [of recs' images' entries'] show ?case by (metis Un_iff set_append)
qed simp

lemma gathered_paths:
  assumes "gather env u d = Some (Inr arch)"
  shows "\<forall>x\<in>set (xm_Images (xr_manifest arch)). other_path (xi_Path x)" "\<forall>a\<in>set (xr_attachments arch). other_path (xa_Path a)"
proof -
  obtain sps recs images entries cols sheets where "gather_specimens env u d sps = Some (Inr (recs, images, entries))"
    "arch = assemble env u cols (recs, images, entries) sheets"
    using assms unfolding gather_def run_bind_Inr by auto
  with specimen_paths [of env u d sps recs images entries]
  show "\<forall>x\<in>set (xm_Images (xr_manifest arch)). other_path (xi_Path x)" "\<forall>a\<in>set (xr_attachments arch). other_path (xa_Path a)"
    by (auto simp: assemble_def Let_def)
qed

definition other_parts :: "zip_part list \<times> bool \<Rightarrow> bool" where
  "other_parts r \<longleftrightarrow> (\<forall>part\<in>set (fst r). other_path (fst part))"

lemma other_parts_then: "other_parts r \<Longrightarrow> other_parts (k ()) \<Longrightarrow> other_parts (then_write r k)"
  by (auto simp: other_parts_def then_write_def split: prod.splits)

lemma other_parts_lines: "other_path name \<Longrightarrow> other_parts (writeZipJSONL name enc xs)"
  by (auto simp: other_parts_def writeZipJSONL_def split: prod.splits)

lemma other_parts_objects: "\<forall>x\<in>set xs. other_path (fst x) \<Longrightarrow> other_parts (stream_objects fl st xs)"
proof (induction xs)
  case (Cons x xs)
  obtain p k where x: "x = (p, k)" by (cases x)
  have "other_parts (streamObject fl st p k)" using Cons.prems x by (auto simp: other_parts_def streamObject_def split: sum.splits)
  then show ?case using Cons x by (simp add: other_parts_then)
qed (simp add: other_parts_def)

lemma stream_zip_manifest:
  assumes "gather env u d = Some (Inr arch)" and "stream_zip env arch st = (parts, ok)"
  shows "\<exists>rest data. parts = (ManifestPath, data) # rest \<and> (\<forall>part\<in>set rest. fst part \<noteq> ManifestPath) \<and>
    (case encode_manifest env (xr_manifest arch) of None \<Rightarrow> data = [] | Some v \<Rightarrow> data = bytes_of (json_indent 0 v @ [CHR 0x0A]))"
proof -
  note paths = gathered_paths [OF assms(1)]
  define k where "k = (\<lambda>_ :: unit.
     then_write (writeZipJSONL ''data/collectors.jsonl'' (encode_collector env) (xr_collectors arch)) (\<lambda>_.
     then_write (writeZipJSONL ''data/specimens.jsonl'' (encode_specimen env) (xr_specimens arch)) (\<lambda>_.
     then_write (writeZipJSONL ''data/journal_entries.jsonl'' (encode_entry env) (xr_journal arch)) (\<lambda>_.
     then_write (writeZipJSONL ''data/qrsheets.jsonl'' (encode_sheet env) (xr_qrsheets arch)) (\<lambda>_.
     then_write (stream_objects (xe_faults env) st (map (\<lambda>i. (xi_Path i, xi_key i)) (xm_Images (xr_manifest arch)))) (\<lambda>_.
     stream_objects (xe_faults env) st (map (\<lambda>a. (xa_Path a, xa_key a)) (xr_attachments arch))))))))"
  have k: "other_parts (k ())"
    unfolding k_def
    by (intro other_parts_then other_parts_lines other_parts_objects) (use paths in \<open>auto simp: other_path_def\<close>)
  have name: "fst part \<noteq> ManifestPath" if "other_path (fst part)" for part :: zip_part
    using that by (auto simp: other_path_def ManifestPath_def)
  have run: "then_write (writeZipJSON ''manifest.json'' (encode_manifest env (xr_manifest arch))) k = (parts, ok)"
    using assms(2) by (simp add: stream_zip_def k_def)
  show ?thesis
  proof (cases "encode_manifest env (xr_manifest arch)")
    case None
    then show ?thesis using run by (auto simp: writeZipJSON_def then_write_def ManifestPath_def)
  next
    case (Some v)
    then have "parts = (ManifestPath, bytes_of (json_indent 0 v @ [CHR 0x0A])) # fst (k ())"
      using run by (simp add: writeZipJSON_def then_write_def ManifestPath_def split: prod.splits)
    moreover have "\<forall>part\<in>set (fst (k ())). fst part \<noteq> ManifestPath" using k name unfolding other_parts_def by blast
    ultimately show ?thesis using Some by simp
  qed
qed

text \<open>The entries as a reader of the container finds them.\<close>

definition zip_read :: "zip_part \<Rightarrow> zip_entry" where
  "zip_read part = \<lparr>ze_Name = fst part, ze_OpenErr = None, ze_Data = snd part, ze_ReadErr = None\<rparr>"

lemma OpenArchive_refuses:
  assumes "av_zip av raw = Some (map zip_read ((ManifestPath, data) # rest))" and "\<forall>part\<in>set rest. fst part \<noteq> ManifestPath"
    and "decode_record Manifest_names (decode_Manifest (av_vc av)) Manifest_zero (text_of data) = None"
  shows "\<exists>msg. OpenArchive av raw = Inl (malformed msg)"
proof -
  define files where "files = map_of (rev (map (\<lambda>f. (ze_Name f, f)) (map zip_read ((ManifestPath, data) # rest))))"
  have "ManifestPath \<notin> fst ` set (map (\<lambda>f. (ze_Name f, f)) (map zip_read rest))" using assms(2) by (auto simp: zip_read_def)
  then have "map_of (rev (map (\<lambda>f. (ze_Name f, f)) (map zip_read rest))) ManifestPath = None" by (simp add: map_of_eq_None_iff del: map_map)
  then have mf: "files ManifestPath = Some (zip_read (ManifestPath, data))"
    by (simp add: files_def map_add_def zip_read_def del: map_map)
  let ?bad = "\<lambda>bs. malformed (''manifest.json is not valid: '' @ av_json_error av (text_of bs))"
  define outcome where "outcome = (\<lambda>a. case readWhole (av_vc av) (zip_read (ManifestPath, data)) a of
        (Inl e, _) \<Rightarrow> Inl (malformed (''could not read manifest.json: '' @ e))
      | (Inr bs, a') \<Rightarrow> (case decode_record Manifest_names (decode_Manifest (av_vc av)) Manifest_zero (text_of bs) of
          None \<Rightarrow> Inl (?bad bs) | Some m \<Rightarrow> Inr (a'\<lparr>ar_manifest := m\<rparr>)))"
  have bad: "\<exists>msg. outcome a = Inl (malformed msg)" for a
  proof (cases "readWhole (av_vc av) (zip_read (ManifestPath, data)) a")
    case (Pair r a')
    show ?thesis
    proof (cases r)
      case (Inl e)
      then have "outcome a = Inl (malformed (''could not read manifest.json: '' @ e))" using Pair by (simp add: outcome_def)
      then show ?thesis by blast
    next
      case (Inr bs)
      then have "bs = data"
        using Pair by (auto simp: readWhole_def readEntryUncounted_def read_limited_def zip_read_def addInflated_def maxEntryBytes_def
            split: if_splits bool.splits)
      then have "outcome a = Inl (?bad data)" using Pair Inr assms(3) by (simp add: outcome_def)
      then show ?thesis by blast
    qed
  qed
  have "OpenArchive av raw = outcome \<lparr>ar_files = files, ar_manifest = Manifest_zero, ar_inflated = 0\<rparr>"
    using mf by (simp add: OpenArchive_def outcome_def assms(1) files_def [symmetric] Let_def del: list.map map_map)
  then show ?thesis using bad by simp
qed

lemma exportData_parts:
  assumes "exportData env u d st = Some (Inr reply)"
  shows "\<exists>arch. gather env u d = Some (Inr arch) \<and> stream_zip env arch st = (xo_parts reply, xo_complete reply)"
proof -
  obtain r where r: "gather env u d = Some r" using assms by (cases "gather env u d") (auto simp: exportData_def split: if_splits)
  obtain arch where arch: "r = Inr arch" using assms r by (cases r) (auto simp: exportData_def split: if_splits)
  obtain parts ok where z: "stream_zip env arch st = (parts, ok)" by fastforce
  have "xo_parts reply = parts \<and> xo_complete reply = ok"
    using assms unfolding exportData_def r arch option.map sum.case Let_def z by (auto split: if_splits)
  then show ?thesis using r arch z by blast
qed

section \<open>Properties\<close>

text \<open>
  C25: no export can be imported. Whatever account, data and state of the stores an export comes from, complete or cut
  short, an import of it by any account, dry or not, is answered with 400 \<open>malformed_archive\<close> and changes nothing: the first
  member of the export's manifest is \<open>schemaVersion\<close>, and the import's decoder, which refuses unknown members, knows
  \<open>schema_version\<close>.
\<close>

theorem export_not_importable:
  fixes env :: "'r::{linorder,zero} export_env"
  assumes "exportData env u d st = Some (Inr reply)" and "av_zip (ie_ar ienv) raw = Some (map zip_read (xo_parts reply))"
    and "u_Sub v \<noteq> []" and "u_ID v \<noteq> uuid_Nil"
  shows "\<exists>e. doImport ienv v (ReadAll raw) dryRun d' st' = (Inl e, d', st') \<and> err_Status e = 400 \<and> err_Code e = ''malformed_archive''"
proof -
  obtain arch where arch: "gather env u d = Some (Inr arch)" "stream_zip env arch st = (xo_parts reply, xo_complete reply)"
    using exportData_parts [OF assms(1)] by blast
  obtain rest data where parts: "xo_parts reply = (ManifestPath, data) # rest" "\<forall>part\<in>set rest. fst part \<noteq> ManifestPath"
    and data: "case encode_manifest env (xr_manifest arch) of None \<Rightarrow> data = [] | Some v \<Rightarrow> data = bytes_of (json_indent 0 v @ [CHR 0x0A])"
    using stream_zip_manifest [OF arch] by blast
  have "decode_record Manifest_names (decode_Manifest (av_vc (ie_ar ienv))) Manifest_zero (text_of data) = None"
  proof (cases "encode_manifest env (xr_manifest arch)")
    case None
    then show ?thesis using data by (simp add: decode_record_def json_first_def text_of_def skip_ws_def)
  next
    case (Some w)
    then show ?thesis using data manifest_text_refused [OF Some] by simp
  qed
  then obtain msg where "OpenArchive (ie_ar ienv) raw = Inl (malformed msg)"
    using OpenArchive_refuses [OF assms(2) [unfolded parts(1)] parts(2)] by blast
  then have "import_Run ienv v raw dryRun d' st' = (Inl (Invalid (malformed msg)), d', st')"
    by (simp add: import_Run_def validate_def read_archive_def)
  then show ?thesis
    using assms(3,4) by (simp add: doImport_def malformed_def validationStatus_def newAPIError_def CodeMalformedArchive_def)
qed

text \<open>A small collection, exported.\<close>

definition sample_export_env :: "nat export_env" where
  "sample_export_env = \<lparr>xe_tc = plain_codec, xe_vc = whole_codec, xe_ilike = (\<lambda>s p. False),
     xe_ts = \<lparr>ts_match = (\<lambda>_ _. False), ts_rank = (\<lambda>_ _. 0)\<rparr>, xe_faults = no_faults, xe_now = 9, xe_day = (\<lambda>_. ''20250101'')\<rparr>"

definition sample_exporter :: auth_User where
  "sample_exporter = auth_User_zero\<lparr>u_ID := 7, u_Sub := ''sub-7''\<rparr>"

definition sample_collection :: database where
  "sample_collection = empty_database\<lparr>db_users := [User_zero\<lparr>us_ID := 7\<rparr>], db_collectors := [sample_collector],
     db_specimens := [Specimen_zero\<lparr>sp_ID := 20, sp_AuthorID := 7\<rparr>]\<rparr>"

lemma sample_exportable: "text_forms (xe_tc sample_export_env)" "consistent sample_collection" "exportable sample_collection"
  using plain.text_forms_axioms
  by (simp_all add: sample_export_env_def sample_collection_def consistent_def keys_ok_def empty_database_def users_ok_def fk_ok_def refs_def
      main_image_refs_def sample_collector_def exportable_def time_marshals_def row_marshals_def Specimen_zero_def)

lemma sample_export: "\<exists>r. exportData sample_export_env sample_exporter sample_collection st = Some (Inr r)"
proof -
  have "u_ID sample_exporter \<noteq> uuid_Nil" "u_Sub sample_exporter \<noteq> []" by (simp_all add: sample_exporter_def)
  then show ?thesis using gather_own [OF sample_exportable] by (simp add: exportData_def Let_def split: prod.splits)
qed

theorem export_not_importable_witness:
  "\<exists>r e. exportData sample_export_env sample_exporter sample_collection Map.empty = Some (Inr r) \<and>
     doImport (sample_import_env\<lparr>ie_ar := sample_archive\<lparr>av_zip := (\<lambda>_. Some (map zip_read (xo_parts r)))\<rparr>\<rparr>) sample_exporter (ReadAll []) False
       sample_import_db Map.empty = (Inl e, sample_import_db, Map.empty) \<and> err_Code e = ''malformed_archive''"
proof -
  obtain r where r: "exportData sample_export_env sample_exporter sample_collection Map.empty = Some (Inr r)" using sample_export by blast
  let ?env = "sample_import_env\<lparr>ie_ar := sample_archive\<lparr>av_zip := (\<lambda>_. Some (map zip_read (xo_parts r)))\<rparr>\<rparr>"
  have "av_zip (ie_ar ?env) [] = Some (map zip_read (xo_parts r))" by simp
  moreover have "u_Sub sample_exporter \<noteq> []" "u_ID sample_exporter \<noteq> uuid_Nil" by (simp_all add: sample_exporter_def)
  ultimately show ?thesis using export_not_importable [OF r, of ?env "[]" sample_exporter False sample_import_db Map.empty] r by blast
qed

end
