(* ===== verification/ExportContents.thy ===== *)
theory ExportContents
  imports ExportService
begin

text \<open>
  What a complete export holds (\<open>src/internal/api/export.go\<close>), stated from the rows of the database: which entries there
  are, which rows each is about and in which order, and for every row the members of its JSON object.
\<close>

section \<open>JSON objects by their members\<close>

text \<open>
  A value is an object whose members are exactly those of the list that are not \<open>None\<close>, each once, with a value as
  described.
\<close>

type_synonym described = "(json \<Rightarrow> bool) option"

definition object_says :: "(string \<times> described) list \<Rightarrow> json \<Rightarrow> bool" where
  "object_says ms j \<longleftrightarrow>
     (\<exists>kvs. j = JObj kvs \<and> distinct (map fst kvs) \<and> (\<forall>n. rel_option (\<lambda>v P. P v) (map_of kvs n) (Option.bind (map_of ms n) id)))"

definition a_text :: "string \<Rightarrow> described" where "a_text s = Some (\<lambda>v. v = JStr s)"

definition a_flag :: "bool \<Rightarrow> described" where "a_flag b = Some (\<lambda>v. v = JBool b)"

definition an_int :: "int \<Rightarrow> described" where "an_int i = Some (\<lambda>v. v = JNum (FormatInt i))"

definition a_float :: "value_codec \<Rightarrow> float64 \<Rightarrow> described" where "a_float vc x = Some (\<lambda>v. v = JNum (vf_Format vc x))"

definition a_time :: "'r text_codec \<Rightarrow> time \<Rightarrow> described" where
  "a_time tc t = Some (\<lambda>v. time_marshals t \<and> v = JStr (time_Format tc t))"

definition an_array :: "('a \<Rightarrow> json \<Rightarrow> bool) \<Rightarrow> 'a list \<Rightarrow> described" where
  "an_array P xs = Some (\<lambda>v. \<exists>vs. v = JArr vs \<and> list_all2 P xs vs)"

definition maybe :: "('a \<Rightarrow> described) \<Rightarrow> 'a option \<Rightarrow> described" where
  "maybe f x = Option.bind x f"

definition unless :: "bool \<Rightarrow> described \<Rightarrow> described" where
  "unless b x = (if b then None else x)"

section \<open>The rows of the caller\<close>

text \<open>Collectors and specimens of which the caller is the author, newest first.\<close>

definition caller_collectors :: "auth_User \<Rightarrow> database \<Rightarrow> Collector list" where
  "caller_collectors u d = rev (sort_key (\<lambda>c. (co_CreatedAt c, co_ID c)) (filter (\<lambda>c. co_AuthorID c = u_ID u) (db_collectors d)))"

definition caller_specimens :: "auth_User \<Rightarrow> database \<Rightarrow> Specimen list" where
  "caller_specimens u d = rev (sort_key (\<lambda>s. (sp_CreatedAt s, sp_ID s)) (filter (\<lambda>s. sp_AuthorID s = u_ID u) (db_specimens d)))"

text \<open>The photos of these specimens, in the order of their positions.\<close>

definition own_photos :: "auth_User \<Rightarrow> database \<Rightarrow> Photo list" where
  "own_photos u d = concat (map (\<lambda>s. sort_key (\<lambda>p. (ph_Position p, ph_CreatedAt p, ph_ID p))
     (filter (\<lambda>p. ph_SpecimenID p = sp_ID s) (db_photos d))) (caller_specimens u d))"

text \<open>The journal entries on the caller's specimens that the caller may read, newest first on each.\<close>

definition own_journal :: "auth_User \<Rightarrow> database \<Rightarrow> JournalEntry list" where
  "own_journal u d = concat (map (\<lambda>s. rev (sort_key (\<lambda>e. (je_CreatedAt e, je_ID e))
     (filter (\<lambda>e. je_SpecimenID e = sp_ID s \<and> (je_AuthorID e = u_ID u \<or> ''admin'' \<in> set (u_Roles u))) (db_journal d)))) (caller_specimens u d))"

definition entry_links :: "database \<Rightarrow> JournalEntry \<Rightarrow> JournalEntryFile list" where
  "entry_links d e = sort_key (\<lambda>l. (jf_Position l, jf_CreatedAt l, jf_FileID l)) (filter (\<lambda>l. jf_EntryID l = je_ID e) (db_journal_files d))"

definition own_links :: "auth_User \<Rightarrow> database \<Rightarrow> JournalEntryFile list" where
  "own_links u d = concat (map (entry_links d) (own_journal u d))"

definition own_label_sheets :: "auth_User \<Rightarrow> database \<Rightarrow> QRSheet list" where
  "own_label_sheets u d = (case find (\<lambda>q. qs_UserID q = u_ID u) (db_qr_sheets d) of None \<Rightarrow> [] | Some q \<Rightarrow> [q])"

definition collector_chain :: "database \<Rightarrow> Specimen \<Rightarrow> uuid list" where
  "collector_chain d s = map sc_CollectorID (sort_key sc_Position (filter (\<lambda>r. sc_SpecimenID r = sp_ID s) (db_specimen_collectors d)))"

section \<open>What is written of a row\<close>

definition collector_says :: "'r export_env \<Rightarrow> Collector \<Rightarrow> json \<Rightarrow> bool" where
  "collector_says env c = object_says
     [(''id'', a_text (uuid_String (xe_tc env) (co_ID c))), (''name'', a_text (co_Name c)), (''notes'', maybe a_text (co_Notes c)),
      (''createdAt'', a_time (xe_tc env) (co_CreatedAt c)), (''updatedAt'', a_time (xe_tc env) (co_UpdatedAt c))]"

definition locality_says :: "value_codec \<Rightarrow> Locality \<Rightarrow> json \<Rightarrow> bool" where
  "locality_says vc l = object_says
     [(''country'', unless (loc_Country l = []) (a_text (loc_Country l))), (''region'', unless (loc_Region l = []) (a_text (loc_Region l))),
      (''site'', unless (loc_Site l = []) (a_text (loc_Site l))), (''lat'', unless (loc_Lat l = 0) (a_float vc (loc_Lat l))),
      (''lon'', unless (loc_Lon l = 0) (a_float vc (loc_Lon l))), (''mindat_id'', unless (loc_MindatID l = []) (a_text (loc_MindatID l)))]"

definition dimensions_say :: "value_codec \<Rightarrow> Dimensions \<Rightarrow> json \<Rightarrow> bool" where
  "dimensions_say vc x = object_says
     [(''length_mm'', unless (dim_LengthMM x = 0) (a_float vc (dim_LengthMM x))), (''width_mm'', unless (dim_WidthMM x = 0) (a_float vc (dim_WidthMM x))),
      (''height_mm'', unless (dim_HeightMM x = 0) (a_float vc (dim_HeightMM x)))]"

definition specimen_says :: "'r export_env \<Rightarrow> database \<Rightarrow> Specimen \<Rightarrow> json \<Rightarrow> bool" where
  "specimen_says env d s = (let tc = xe_tc env; vc = xe_vc env; an_id = (\<lambda>i. a_text (uuid_String tc i)) in object_says
     [(''id'', an_id (sp_ID s)), (''type'', a_text (sp_Type s)), (''catalogNumber'', maybe a_text (sp_CatalogNumber s)),
      (''name'', a_text (sp_Name s)), (''description'', a_text (sp_Description s)), (''visibility'', a_text (sp_Visibility s)),
      (''acquiredAt'', maybe (a_time tc) (sp_AcquiredAt s)), (''acquiredFrom'', maybe a_text (sp_AcquiredFrom s)),
      (''priceCents'', maybe (\<lambda>w. an_int (sint w)) (sp_PriceCents s)), (''sourceNotes'', maybe a_text (sp_SourceNotes s)),
      (''localityText'', maybe a_text (sp_LocalityText s)), (''locality'', maybe (\<lambda>l. Some (locality_says vc l)) (sp_Locality s)),
      (''massG'', maybe (a_float vc) (sp_MassG s)), (''dimensions'', maybe (\<lambda>x. Some (dimensions_say vc x)) (sp_Dimensions s)),
      (''typeData'', unless (sp_TypeData s = []) (Some (\<lambda>v. json_parse (sp_TypeData s) = Some v))),
      (''mainImageId'', maybe an_id (sp_MainImageID s)), (''visibilityPrice'', maybe a_text (sp_VisibilityPrice s)),
      (''visibilityAcquiredFrom'', maybe a_text (sp_VisibilityAcquiredFrom s)), (''visibilityImages'', maybe a_text (sp_VisibilityImages s)),
      (''tagged'', a_flag (sp_Tagged s)), (''collectorIds'', an_array (\<lambda>i v. v = JStr (uuid_String tc i)) (collector_chain d s)),
      (''createdAt'', a_time tc (sp_CreatedAt s)), (''updatedAt'', a_time tc (sp_UpdatedAt s))])"

text \<open>The path of a binary ends in the extension of its content type.\<close>

definition extension :: "(string \<times> string) list \<Rightarrow> string \<Rightarrow> string" where
  "extension table ct = (case map_of table ct of None \<Rightarrow> [] | Some e \<Rightarrow> e)"

definition image_types :: "(string \<times> string) list" where
  "image_types = [(''image/jpeg'', ''.jpg''), (''image/png'', ''.png''), (''image/webp'', ''.webp'')]"

definition attachment_types :: "(string \<times> string) list" where
  "attachment_types = image_types @ [(''application/pdf'', ''.pdf''), (''text/plain'', ''.txt''), (''text/csv'', ''.csv''),
     (''text/markdown'', ''.md''), (''application/json'', ''.json''), (''application/xml'', ''.xml'')]"

definition image_path :: "'r export_env \<Rightarrow> Photo \<Rightarrow> File \<Rightarrow> string" where
  "image_path env p f = ''images/'' @ uuid_String (xe_tc env) (ph_SpecimenID p) @ ''/'' @ uuid_String (xe_tc env) (ph_ID p) @
     extension image_types (fi_ContentType f)"

definition attachment_path :: "'r export_env \<Rightarrow> JournalEntryFile \<Rightarrow> File \<Rightarrow> string" where
  "attachment_path env l f = ''files/journal/'' @ uuid_String (xe_tc env) (jf_EntryID l) @ ''/'' @ uuid_String (xe_tc env) (jf_FileID l) @
     extension attachment_types (fi_ContentType f)"

definition image_says :: "'r export_env \<Rightarrow> database \<Rightarrow> Photo \<Rightarrow> json \<Rightarrow> bool" where
  "image_says env d p j \<longleftrightarrow> (let tc = xe_tc env; an_id = (\<lambda>i. a_text (uuid_String tc i)) in
     \<exists>f\<in>set (db_files d). fi_ID f = ph_FileID p \<and> object_says
       [(''imageId'', an_id (ph_ID p)), (''specimenId'', an_id (ph_SpecimenID p)), (''fileId'', an_id (ph_FileID p)),
        (''path'', a_text (image_path env p f)), (''kind'', a_text (if ph_Kind p = [] then ''visible'' else ph_Kind p)),
        (''position'', an_int (ph_Position p)), (''visibility'', maybe a_text (ph_Visibility p)), (''takenAt'', maybe (a_time tc) (ph_TakenAt p)),
        (''contentHash'', a_text (''sha256:'' @ fi_SHA256 f)), (''contentType'', a_text (fi_ContentType f)),
        (''byteSize'', an_int (fi_ByteSize f)), (''createdAt'', a_time tc (ph_CreatedAt p))] j)"

definition attachment_says :: "'r export_env \<Rightarrow> database \<Rightarrow> JournalEntryFile \<Rightarrow> json \<Rightarrow> bool" where
  "attachment_says env d l j \<longleftrightarrow>
     (\<exists>f\<in>set (db_files d). fi_ID f = jf_FileID l \<and> object_says
       [(''fileId'', a_text (uuid_String (xe_tc env) (jf_FileID l))), (''position'', an_int (jf_Position l)),
        (''path'', a_text (attachment_path env l f)), (''contentHash'', a_text (''sha256:'' @ fi_SHA256 f)),
        (''contentType'', a_text (fi_ContentType f)), (''byteSize'', an_int (fi_ByteSize f)), (''createdAt'', a_time (xe_tc env) (jf_CreatedAt l))] j)"

definition entry_says :: "'r export_env \<Rightarrow> database \<Rightarrow> JournalEntry \<Rightarrow> json \<Rightarrow> bool" where
  "entry_says env d e = object_says
     [(''id'', a_text (uuid_String (xe_tc env) (je_ID e))), (''specimenId'', a_text (uuid_String (xe_tc env) (je_SpecimenID e))),
      (''bodyMd'', a_text (je_BodyMD e)), (''attachments'', an_array (attachment_says env d) (entry_links d e)),
      (''createdAt'', a_time (xe_tc env) (je_CreatedAt e)), (''updatedAt'', a_time (xe_tc env) (je_UpdatedAt e))]"

definition member_says :: "'r export_env \<Rightarrow> QRSheetSpecimenRow \<Rightarrow> json \<Rightarrow> bool" where
  "member_says env r = object_says
     [(''specimenId'', a_text (uuid_String (xe_tc env) (qr_SpecimenID r))), (''position'', an_int (qr_Position r)),
      (''addedAt'', a_time (xe_tc env) (qr_AddedAt r))]"

definition sheet_says :: "'r export_env \<Rightarrow> database \<Rightarrow> QRSheet \<Rightarrow> json \<Rightarrow> bool" where
  "sheet_says env d q = object_says
     [(''id'', a_text (uuid_String (xe_tc env) (qs_ID q))), (''template'', a_text (qs_Template q)),
      (''specimens'', an_array (member_says env) (sort_key qr_Position (filter (\<lambda>r. qr_SheetID r = qs_ID q) (db_qr_specimens d)))),
      (''createdAt'', a_time (xe_tc env) (qs_CreatedAt q)), (''updatedAt'', a_time (xe_tc env) (qs_UpdatedAt q))]"

text \<open>The manifest: the counts of what is there, and every photo; without a photo the list is \<open>null\<close>.\<close>

definition manifest_says :: "'r export_env \<Rightarrow> auth_User \<Rightarrow> database \<Rightarrow> json \<Rightarrow> bool" where
  "manifest_says env u d = (let count = (\<lambda>n. an_int (int n)) in object_says
     [(''schemaVersion'', an_int 1), (''application'', a_text ''minerals''), (''exportedAt'', a_time (xe_tc env) (xe_now env)),
      (''exportedBy'', a_text (u_Sub u)),
      (''counts'', Some (object_says
        [(''collectors'', count (length (caller_collectors u d))), (''specimens'', count (length (caller_specimens u d))),
         (''journalEntries'', count (length (own_journal u d))), (''qrsheets'', count (length (own_label_sheets u d))),
         (''images'', count (length (own_photos u d))), (''journalFiles'', count (length (own_links u d)))])),
      (''images'', if own_photos u d = [] then Some (\<lambda>v. v = JNull) else an_array (image_says env d) (own_photos u d))])"

section \<open>The whole archive\<close>

definition lines_of :: "json list \<Rightarrow> bytes" where
  "lines_of js = bytes_of (concat (map (\<lambda>j. json_print j @ [CHR 0x0A]) js))"

text \<open>The entry of a file: its object under the path.\<close>

definition binary_part :: "objects \<Rightarrow> database \<Rightarrow> uuid \<Rightarrow> (File \<Rightarrow> string) \<Rightarrow> zip_part \<Rightarrow> bool" where
  "binary_part st d i path part \<longleftrightarrow>
     (\<exists>f body ct. f \<in> set (db_files d) \<and> fi_ID f = i \<and> st (fi_S3Key f) = Some (body, ct) \<and> part = (path f, body))"

definition archive_holds :: "'r export_env \<Rightarrow> auth_User \<Rightarrow> database \<Rightarrow> objects \<Rightarrow> zip_part list \<Rightarrow> bool" where
  "archive_holds env u d st parts \<longleftrightarrow>
     (\<exists>m cs ss es qs images attachments.
        parts = [(''manifest.json'', bytes_of (json_indent 0 m @ [CHR 0x0A])), (''data/collectors.jsonl'', lines_of cs),
          (''data/specimens.jsonl'', lines_of ss), (''data/journal_entries.jsonl'', lines_of es), (''data/qrsheets.jsonl'', lines_of qs)] @
          images @ attachments \<and>
        manifest_says env u d m \<and>
        list_all2 (collector_says env) (caller_collectors u d) cs \<and>
        list_all2 (specimen_says env d) (caller_specimens u d) ss \<and>
        list_all2 (entry_says env d) (own_journal u d) es \<and>
        list_all2 (sheet_says env d) (own_label_sheets u d) qs \<and>
        list_all2 (\<lambda>p. binary_part st d (ph_FileID p) (image_path env p)) (own_photos u d) images \<and>
        list_all2 (\<lambda>l. binary_part st d (jf_FileID l) (attachment_path env l)) (own_links u d) attachments)"

text \<open>Every value that has to be written can be: its times marshal, payloads are JSON, and the objects can be fetched.\<close>

definition fetchable :: "faults \<Rightarrow> objects \<Rightarrow> database \<Rightarrow> uuid \<Rightarrow> bool" where
  "fetchable fl st d i \<longleftrightarrow> (\<forall>f\<in>set (db_files d). fi_ID f = i \<longrightarrow> fl (GetObject (fi_S3Key f)) = Works \<and> st (fi_S3Key f) \<noteq> None)"

definition export_feasible :: "'r export_env \<Rightarrow> auth_User \<Rightarrow> database \<Rightarrow> objects \<Rightarrow> bool" where
  "export_feasible env u d st \<longleftrightarrow>
     time_marshals (xe_now env) \<and>
     (\<forall>c\<in>set (caller_collectors u d). time_marshals (co_CreatedAt c) \<and> time_marshals (co_UpdatedAt c)) \<and>
     (\<forall>s\<in>set (caller_specimens u d). (\<forall>t\<in>set_option (sp_AcquiredAt s). time_marshals t) \<and> time_marshals (sp_CreatedAt s) \<and>
        time_marshals (sp_UpdatedAt s) \<and> (sp_TypeData s = [] \<or> json_parse (sp_TypeData s) \<noteq> None)) \<and>
     (\<forall>p\<in>set (own_photos u d). (\<forall>t\<in>set_option (ph_TakenAt p). time_marshals t) \<and> time_marshals (ph_CreatedAt p) \<and>
        fetchable (xe_faults env) st d (ph_FileID p)) \<and>
     (\<forall>e\<in>set (own_journal u d). time_marshals (je_CreatedAt e) \<and> time_marshals (je_UpdatedAt e)) \<and>
     (\<forall>l\<in>set (own_links u d). time_marshals (jf_CreatedAt l) \<and> fetchable (xe_faults env) st d (jf_FileID l)) \<and>
     (\<forall>q\<in>set (own_label_sheets u d). time_marshals (qs_CreatedAt q) \<and> time_marshals (qs_UpdatedAt q) \<and>
        (\<forall>r\<in>set (db_qr_specimens d). qr_SheetID r = qs_ID q \<longrightarrow> time_marshals (qr_AddedAt r)))"

section \<open>The encoders write what is described\<close>

lemma map_of_present:
  assumes "distinct (map fst fs)"
  shows "map_of (present_fields fs) n = Option.bind (map_of fs n) id" and "distinct (map fst (present_fields fs))"
proof -
  have names: "fst ` set (present_fields fs) \<subseteq> fst ` set fs" for fs :: "(string \<times> json option) list"
    by (force simp: present_fields_def List.map_filter_def)
  show "map_of (present_fields fs) n = Option.bind (map_of fs n) id"
    using assms
  proof (induction fs)
    case (Cons f fs)
    obtain k v where f: "f = (k, v)" by (cases f)
    have absent: "map_of (present_fields fs) k = None" using names [of fs] Cons.prems by (auto simp: f map_of_eq_None_iff)
    show ?case using Cons absent by (cases v) (auto simp: f)
  qed simp
  show "distinct (map fst (present_fields fs))"
    using assms
  proof (induction fs)
    case (Cons f fs)
    obtain k v where f: "f = (k, v)" by (cases f)
    show ?case using Cons names [of fs] by (cases v) (auto simp: f)
  qed simp
qed

text \<open>Members in the order of the description.\<close>

definition written :: "(string \<times> json option) list \<Rightarrow> (string \<times> described) list \<Rightarrow> bool" where
  "written fs ms \<longleftrightarrow> list_all2 (\<lambda>f m. fst f = fst m \<and> rel_option (\<lambda>v P. P v) (snd f) (snd m)) fs ms"

lemma written_simps [simp]:
  "written [] []" "written ((n, v) # fs) ((m, P) # ms) \<longleftrightarrow> n = m \<and> rel_option (\<lambda>v P. P v) v P \<and> written fs ms"
  by (simp_all add: written_def)

lemma written_says:
  assumes "distinct (map fst fs)" and "written fs ms"
  shows "object_says ms (JObj (present_fields fs))"
proof -
  have "rel_option (\<lambda>v P. P v) (Option.bind (map_of fs n) id) (Option.bind (map_of ms n) id)" for n
    using assms(2) unfolding written_def by (induction fs ms rule: list_all2_induct) (auto split: prod.splits)
  then show ?thesis unfolding object_says_def using map_of_present [OF assms(1)] by auto
qed

lemma written_plain:
  assumes "distinct (map fst kvs)" and "written (map (\<lambda>kv. (fst kv, Some (snd kv))) kvs) ms"
  shows "object_says ms (JObj kvs)"
proof -
  have "kvs = present_fields (map (\<lambda>kv. (fst kv, Some (snd kv))) kvs)" by (induction kvs) auto
  moreover have "object_says ms (JObj (present_fields (map (\<lambda>kv. (fst kv, Some (snd kv))) kvs)))"
    by (rule written_says [OF _ assms(2)]) (use assms(1) in \<open>simp add: comp_def\<close>)
  ultimately show ?thesis by simp
qed

lemma described_simps [simp]:
  "rel_option (\<lambda>v P. P v) (Some v) (Some P) = P v"
  "rel_option (\<lambda>v P. P v) (Some v) (a_text s) \<longleftrightarrow> v = JStr s"
  "rel_option (\<lambda>v P. P v) (Some v) (a_flag b) \<longleftrightarrow> v = JBool b"
  "rel_option (\<lambda>v P. P v) (Some v) (an_int i) \<longleftrightarrow> v = JNum (FormatInt i)"
  "rel_option (\<lambda>v P. P v) (Some v) (a_float vc x) \<longleftrightarrow> v = JNum (vf_Format vc x)"
  "rel_option (\<lambda>v P. P v) (Some v) (a_time tc t) \<longleftrightarrow> time_json tc t = Some v"
  "rel_option (\<lambda>v P. P v) (Some v) (an_array R xs) \<longleftrightarrow> (\<exists>vs. v = JArr vs \<and> list_all2 R xs vs)"
  by (auto simp: a_text_def a_flag_def an_int_def a_float_def a_time_def an_array_def time_json_def)

lemma described_options [simp]:
  "rel_option (\<lambda>v P. P v) (map_option f x) (maybe g x) \<longleftrightarrow> (\<forall>a\<in>set_option x. rel_option (\<lambda>v P. P v) (Some (f a)) (g a))"
  "rel_option (\<lambda>v P. P v) (str_omitempty s) (unless (s = []) (a_text s))"
  "rel_option (\<lambda>v P. P v) (float_omitempty vc y) (unless (y = 0) (a_float vc y))"
  by (cases x; simp add: maybe_def)+ (simp_all add: str_omitempty_def float_omitempty_def unless_def)

lemma described_time: "time_omitempty tc t = Some v \<Longrightarrow> rel_option (\<lambda>v P. P v) v (maybe (a_time tc) t)"
  by (auto simp: time_omitempty_def maybe_def split: option.splits)

lemma described_raw: "raw_omitempty raw = Some v \<Longrightarrow> rel_option (\<lambda>v P. P v) v (unless (raw = []) (Some (\<lambda>v. json_parse raw = Some v)))"
  by (auto simp: raw_omitempty_def unless_def split: if_splits)

lemma all_some_iff: "all_some xs = Some ys \<longleftrightarrow> list_all2 (\<lambda>x y. x = Some y) xs ys"
proof (induction xs arbitrary: ys)
  case (Cons x xs)
  then show ?case by (cases ys) (auto simp: bind_eq_Some_conv)
qed (auto)

lemma encode_collector_says:
  assumes "encode_collector env (collectorRecord c) = Some j"
  shows "collector_says env c j"
  using assms unfolding encode_collector_def collectorRecord_def collector_says_def
  by (auto simp: bind_eq_Some_conv simp del: fields_simps intro!: written_says)

lemma encode_locality_says: "locality_says vc l (encode_locality vc l)"
  unfolding encode_locality_def locality_says_def by (rule written_says) simp_all

lemma encode_dimensions_says: "dimensions_say vc x (encode_dimensions vc x)"
  unfolding encode_dimensions_def dimensions_say_def by (rule written_says) simp_all

lemma the_key:
  assumes "distinct (map k xs)" and "i \<in> k ` set xs"
  shows "map k (filter (\<lambda>x. k x = i) xs) = [i]"
  using assms
proof (induction xs)
  case (Cons x xs)
  have "k x \<notin> k ` set xs" using Cons.prems(1) by simp
  then have "\<forall>y\<in>set xs. k y \<noteq> k x" by (metis imageI)
  then have "filter (\<lambda>x. k x = i) xs = []" if "k x = i" using that by (simp add: filter_empty_conv)
  then show ?case using Cons by auto
qed simp

lemma chain_ids:
  assumes "consistent d"
  shows "map (\<lambda>l. co_ID (scl_Collector l)) (GetChain d (sp_ID s)) = collector_chain d s"
proof -
  have keys: "distinct (map co_ID (db_collectors d))" and refs: "sc_CollectorID ` set (db_specimen_collectors d) \<subseteq> co_ID ` set (db_collectors d)"
    using assms by (auto simp: consistent_def keys_ok_def fk_ok_def refs_def)
  define rs where "rs = sort_key sc_Position (filter (\<lambda>r. sc_SpecimenID r = sp_ID s) (db_specimen_collectors d))"
  have "set rs \<subseteq> set (db_specimen_collectors d)" by (auto simp: rs_def)
  then have "map (\<lambda>l. co_ID (scl_Collector l)) (concat (map (\<lambda>r. map (\<lambda>c. \<lparr>scl_Collector = c, scl_Position = sc_Position r\<rparr>)
      (filter (\<lambda>c. co_ID c = sc_CollectorID r) (db_collectors d))) rs)) = map sc_CollectorID rs"
  proof (induction rs)
    case (Cons r rs)
    have "sc_CollectorID r \<in> co_ID ` set (db_collectors d)" using Cons.prems refs by auto
    from the_key [OF keys this] Cons show ?case by (simp add: comp_def)
  qed simp
  then show ?thesis by (simp add: GetChain_def collector_chain_def rs_def)
qed

lemma encode_specimen_says:
  assumes "encode_specimen env (specimenRecord d s) = Some j" and "consistent d"
  shows "specimen_says env d s j"
proof -
  obtain acquired typeData created updated where t: "time_omitempty (xe_tc env) (sp_AcquiredAt s) = Some acquired"
    "raw_omitempty (sp_TypeData s) = Some typeData" "time_json (xe_tc env) (sp_CreatedAt s) = Some created"
    "time_json (xe_tc env) (sp_UpdatedAt s) = Some updated"
    and j: "Some j = encode_specimen env (specimenRecord d s)"
    using assms(1) by (auto simp: encode_specimen_def specimenRecord_def bind_eq_Some_conv Let_def simp del: fields_simps)
  have ids: "list_all2 (\<lambda>i v. v = JStr (uuid_String (xe_tc env) i)) xs (map (\<lambda>i. JStr (uuid_String (xe_tc env) i)) xs)" for xs
    by (simp add: list_all2_map2 list_all2_same)
  show ?thesis
    using j unfolding encode_specimen_def specimenRecord_def specimen_says_def Let_def exportSpecimenRecord.select_convs t chain_ids [OF assms(2)]
    by (auto simp: described_time [OF t(1)] described_raw [OF t(2)] t(3,4) encode_locality_says encode_dimensions_says ids int_json_def
        simp del: fields_simps intro!: written_says)
qed

lemma extensions:
  "extensionForContentType ct = extension image_types ct" "extensionForJournalContentType ct = extension attachment_types ct"
  by (simp_all add: extensionForContentType_def extensionForJournalContentType_def extension_def image_types_def attachment_types_def)

lemma encode_image_says:
  assumes "encode_image env (imageRecord env (ph_SpecimenID p) p f) = Some j" and "f \<in> set (db_files d)" and "fi_ID f = ph_FileID p"
  shows "image_says env d p j"
  using assms(1) unfolding encode_image_def imageRecord_def image_says_def Let_def exportImageRecord.select_convs photoKindOrDefault_def extensions
    image_path_def
  by (intro bexI [OF _ assms(2)] conjI [OF assms(3)])
    (auto simp: bind_eq_Some_conv described_time int_json_def simp del: fields_simps intro!: written_says)

lemma encode_attachment_says:
  assumes "encode_attachment env (attachmentRecord env l f) = Some j" and "f \<in> set (db_files d)" and "fi_ID f = jf_FileID l"
  shows "attachment_says env d l j"
  using assms(1) unfolding encode_attachment_def attachmentRecord_def attachment_says_def Let_def exportAttachmentRecord.select_convs extensions
    attachment_path_def
  by (intro bexI [OF _ assms(2)] conjI [OF assms(3)])
    (auto simp: bind_eq_Some_conv int_json_def intro!: written_plain)

lemma file_of_found:
  assumes "i \<in> fi_ID ` set (db_files d)"
  shows "file_of d i \<in> set (db_files d)" "fi_ID (file_of d i) = i"
proof -
  obtain f where "find (\<lambda>f. fi_ID f = i) (db_files d) = Some f" using assms by (cases "find (\<lambda>f. fi_ID f = i) (db_files d)") (auto simp: find_None_iff)
  moreover from this have "f \<in> set (db_files d)" "fi_ID f = i" by (auto simp: find_Some_iff)
  ultimately show "file_of d i \<in> set (db_files d)" "fi_ID (file_of d i) = i"
    by (simp_all add: file_of_def FilePostgres_GetByID_def)
qed

text \<open>Lists of records: each is written by the encoder of its row.\<close>

lemma encoded_list:
  assumes "list_all2 (\<lambda>x j. enc x = Some j) (map rec xs) js" and "\<And>x j. x \<in> set xs \<Longrightarrow> enc (rec x) = Some j \<Longrightarrow> P x j"
  shows "list_all2 P xs js"
  using assms(1) unfolding list_all2_map1 by (rule list.rel_mono_strong) (rule assms(2))

lemma encode_entry_says:
  assumes "encode_entry env (entry_record env d e) = Some j" and "jf_FileID ` set (db_journal_files d) \<subseteq> fi_ID ` set (db_files d)"
  shows "entry_says env d e j"
proof -
  have links: "ListByEntry d (je_ID e) = entry_links d e" by (simp add: ListByEntry_def entry_links_def)
  obtain atts created updated where t: "all_some (map (encode_attachment env) (map (\<lambda>l. attachmentRecord env l (file_of d (jf_FileID l))) (entry_links d e))) = Some atts"
    "time_json (xe_tc env) (je_CreatedAt e) = Some created" "time_json (xe_tc env) (je_UpdatedAt e) = Some updated"
    and j: "j = JObj [(''id'', JStr (uuid_String (xe_tc env) (je_ID e))), (''specimenId'', JStr (uuid_String (xe_tc env) (je_SpecimenID e))),
       (''bodyMd'', JStr (je_BodyMD e)), (''attachments'', JArr atts), (''createdAt'', created), (''updatedAt'', updated)]"
    using assms(1) by (auto simp: encode_entry_def entry_record_def links bind_eq_Some_conv)
  have "list_all2 (\<lambda>x j. encode_attachment env x = Some j) (map (\<lambda>l. attachmentRecord env l (file_of d (jf_FileID l))) (entry_links d e)) atts"
    using t(1) unfolding all_some_iff list_all2_map1 .
  then have "list_all2 (attachment_says env d) (entry_links d e) atts"
  proof (rule encoded_list)
    fix l j
    assume l: "l \<in> set (entry_links d e)" and enc: "encode_attachment env (attachmentRecord env l (file_of d (jf_FileID l))) = Some j"
    have "l \<in> set (db_journal_files d)" using l by (simp add: entry_links_def)
    then have "jf_FileID l \<in> fi_ID ` set (db_files d)" using assms(2) by auto
    from encode_attachment_says [OF enc file_of_found [OF this]] show "attachment_says env d l j" .
  qed
  then show ?thesis unfolding entry_says_def j using t(2,3) by (intro written_plain) simp_all
qed

lemma members_listed:
  assumes "consistent d"
  shows "map (\<lambda>m. \<lparr>xq_SpecimenID = qe_SpecimenID m, xq_Position = qe_Position m, xq_AddedAt = qe_AddedAt m\<rparr>) (ListSpecimens d i) =
    map (\<lambda>r. \<lparr>xq_SpecimenID = qr_SpecimenID r, xq_Position = qr_Position r, xq_AddedAt = qr_AddedAt r\<rparr>) (sheet_rows d i)"
proof -
  have refs: "qr_SpecimenID ` set (db_qr_specimens d) \<subseteq> sp_ID ` set (db_specimens d)"
    using assms by (auto simp: consistent_def fk_ok_def refs_def)
  define rs where "rs = sheet_rows d i"
  have "\<exists>s. find (\<lambda>s. sp_ID s = qr_SpecimenID r) (db_specimens d) = Some s" if "r \<in> set rs" for r
  proof -
    have "r \<in> set (db_qr_specimens d)" using that by (simp add: rs_def sheet_rows_def)
    then have "qr_SpecimenID r \<in> sp_ID ` set (db_specimens d)" using refs by auto
    then show ?thesis by (cases "find (\<lambda>s. sp_ID s = qr_SpecimenID r) (db_specimens d)") (auto simp: find_None_iff)
  qed
  then show ?thesis
    unfolding ListSpecimens_def rs_def [symmetric]
  proof (induction rs)
    case (Cons r rs)
    obtain s where "find (\<lambda>s. sp_ID s = qr_SpecimenID r) (db_specimens d) = Some s" using Cons.prems [of r] by auto
    then show ?case using Cons by simp
  qed simp
qed

lemma encode_sheet_says:
  assumes "encode_sheet env \<lparr>xh_ID = qs_ID q, xh_Template = qs_Template q,
      xh_Specimens = map (\<lambda>m. \<lparr>xq_SpecimenID = qe_SpecimenID m, xq_Position = qe_Position m, xq_AddedAt = qe_AddedAt m\<rparr>) (ListSpecimens d (qs_ID q)),
      xh_CreatedAt = qs_CreatedAt q, xh_UpdatedAt = qs_UpdatedAt q\<rparr> = Some j" and "consistent d"
  shows "sheet_says env d q j"
proof -
  let ?rec = "\<lambda>r :: QRSheetSpecimenRow. \<lparr>xq_SpecimenID = qr_SpecimenID r, xq_Position = qr_Position r, xq_AddedAt = qr_AddedAt r\<rparr>"
  obtain members created updated where t: "all_some (map (encode_member env) (map ?rec (sheet_rows d (qs_ID q)))) = Some members"
    "time_json (xe_tc env) (qs_CreatedAt q) = Some created" "time_json (xe_tc env) (qs_UpdatedAt q) = Some updated"
    and j: "j = JObj [(''id'', JStr (uuid_String (xe_tc env) (qs_ID q))), (''template'', JStr (qs_Template q)), (''specimens'', JArr members),
       (''createdAt'', created), (''updatedAt'', updated)]"
    using assms(1) by (auto simp: encode_sheet_def members_listed [OF assms(2)] bind_eq_Some_conv)
  have "list_all2 (\<lambda>x j. encode_member env x = Some j) (map ?rec (sheet_rows d (qs_ID q))) members"
    using t(1) unfolding all_some_iff list_all2_map1 .
  then have "list_all2 (member_says env) (sheet_rows d (qs_ID q)) members"
  proof (rule encoded_list)
    fix r j
    assume "encode_member env (?rec r) = Some j"
    then show "member_says env r j"
      unfolding encode_member_def member_says_def by (auto simp: bind_eq_Some_conv int_json_def intro!: written_plain)
  qed
  then show ?thesis unfolding sheet_says_def j sheet_rows_def using t(2,3) by (intro written_plain) simp_all
qed

section \<open>The gathered archive is the caller's rows\<close>

lemma own_rows:
  "own_collectors u d = caller_collectors u d" "own_specimens u d = caller_specimens u d"
  by (simp_all add: own_collectors_def caller_collectors_def own_specimens_def caller_specimens_def order_desc_def collector_key_def [abs_def]
      specimen_key_def [abs_def])

abbreviation photo_record :: "'r export_env \<Rightarrow> database \<Rightarrow> Photo \<Rightarrow> exportImageRecord" where
  "photo_record env d p \<equiv> imageRecord env (ph_SpecimenID p) p (file_of d (ph_FileID p))"

lemma own_images_rows:
  "concat (map (\<lambda>s. own_images env d (sp_ID s)) (own_specimens u d)) = map (photo_record env d) (own_photos u d)"
proof -
  have "own_images env d i = map (photo_record env d) (sort_key (\<lambda>p. (ph_Position p, ph_CreatedAt p, ph_ID p)) (filter (\<lambda>p. ph_SpecimenID p = i) (db_photos d)))"
    for i
    unfolding own_images_def photo_key_def [abs_def] by (rule map_cong [OF refl]) simp
  then show ?thesis by (simp add: own_photos_def own_rows map_concat comp_def)
qed

lemma own_entries_rows:
  assumes "u_ID u \<noteq> uuid_Nil"
  shows "concat (map (\<lambda>s. own_entries env u d (sp_ID s)) (own_specimens u d)) = map (entry_record env d) (own_journal u d)"
proof -
  have "ownerScope u a \<longleftrightarrow> a = u_ID u \<or> ''admin'' \<in> set (u_Roles u)" for a
    using assms by (auto simp: ownerScope_def isAdmin_def isAnonymous_def)
  then show ?thesis
    by (simp add: own_journal_def own_entries_def own_rows map_concat comp_def order_desc_def journal_key_def [abs_def])
qed

lemma own_attachments_rows:
  "concat (map xj_Attachments (map (entry_record env d) es)) =
     map (\<lambda>l. attachmentRecord env l (file_of d (jf_FileID l))) (concat (map (entry_links d) es))"
  by (induction es) (simp_all add: entry_record_def ListByEntry_def entry_links_def)

definition label_sheet_record :: "database \<Rightarrow> QRSheet \<Rightarrow> exportQRSheetRecord" where
  "label_sheet_record d q = \<lparr>xh_ID = qs_ID q, xh_Template = qs_Template q,
     xh_Specimens = map (\<lambda>m. \<lparr>xq_SpecimenID = qe_SpecimenID m, xq_Position = qe_Position m, xq_AddedAt = qe_AddedAt m\<rparr>) (ListSpecimens d (qs_ID q)),
     xh_CreatedAt = qs_CreatedAt q, xh_UpdatedAt = qs_UpdatedAt q\<rparr>"

lemma own_sheets_rows: "own_sheets (u_ID u) d = map (label_sheet_record d) (own_label_sheets u d)"
  by (simp add: own_sheets_def qrSheetRecord_def QRSheet_GetByUser_def own_label_sheets_def label_sheet_record_def split: option.split)

section \<open>A stream that completes\<close>

lemma jsonl_text_outcome:
  "case all_some (map enc xs) of
     None \<Rightarrow> \<not> snd (jsonl_text enc xs) | Some js \<Rightarrow> jsonl_text enc xs = (concat (map (\<lambda>j. json_print j @ [CHR 0x0A]) js), True)"
proof (induction xs)
  case (Cons x xs)
  then show ?case by (cases "enc x"; cases "all_some (map enc xs)"; cases "jsonl_text enc xs") simp_all
qed simp

lemma writeZipJSONL_True:
  "writeZipJSONL name enc xs = (ps, True) \<longleftrightarrow> (\<exists>js. all_some (map enc xs) = Some js \<and> ps = [(name, lines_of js)])"
  using jsonl_text_outcome [of enc xs]
  by (cases "all_some (map enc xs)"; cases "jsonl_text enc xs") (auto simp: writeZipJSONL_def lines_of_def)

definition fetched :: "faults \<Rightarrow> objects \<Rightarrow> string \<times> string \<Rightarrow> zip_part \<Rightarrow> bool" where
  "fetched fl st x part \<longleftrightarrow> fl (GetObject (snd x)) = Works \<and> (\<exists>body ct. st (snd x) = Some (body, ct) \<and> part = (fst x, body))"

lemma stream_objects_True: "stream_objects fl st xs = (ps, True) \<longleftrightarrow> list_all2 (fetched fl st) xs ps"
proof (induction xs arbitrary: ps)
  case (Cons x xs)
  obtain path key where x: "x = (path, key)" by (cases x)
  have one: "streamObject fl st path key = (p1, True) \<longleftrightarrow> (\<exists>part. fetched fl st x part \<and> p1 = [part])" for p1
    by (auto simp: x streamObject_def Download_def fetched_def split: option.splits)
  show ?case
  proof
    assume "stream_objects fl st (x # xs) = (ps, True)"
    then show "list_all2 (fetched fl st) (x # xs) ps" unfolding x stream_objects.simps then_write_True one [unfolded x] Cons.IH by auto
  next
    assume "list_all2 (fetched fl st) (x # xs) ps"
    then obtain part qs where "ps = part # qs" "fetched fl st x part" "stream_objects fl st xs = (qs, True)"
      unfolding list_all2_Cons1 Cons.IH by blast
    then show "stream_objects fl st (x # xs) = (ps, True)"
      unfolding x stream_objects.simps then_write_True one [unfolded x] by - (rule exI [of _ "[part]"], rule exI [of _ qs], intro conjI exI [of _ part], simp_all)
  qed
qed auto

definition streamed :: "'r export_env \<Rightarrow> exportArchive \<Rightarrow> objects \<Rightarrow> json \<Rightarrow> json list \<Rightarrow> json list \<Rightarrow> json list \<Rightarrow> json list \<Rightarrow>
  zip_part list \<Rightarrow> zip_part list \<Rightarrow> bool" where
  "streamed env arch st m cs ss es qs images attachments \<longleftrightarrow>
     encode_manifest env (xr_manifest arch) = Some m \<and>
     all_some (map (encode_collector env) (xr_collectors arch)) = Some cs \<and>
     all_some (map (encode_specimen env) (xr_specimens arch)) = Some ss \<and>
     all_some (map (encode_entry env) (xr_journal arch)) = Some es \<and>
     all_some (map (encode_sheet env) (xr_qrsheets arch)) = Some qs \<and>
     list_all2 (fetched (xe_faults env) st) (map (\<lambda>i. (xi_Path i, xi_key i)) (xm_Images (xr_manifest arch))) images \<and>
     list_all2 (fetched (xe_faults env) st) (map (\<lambda>a. (xa_Path a, xa_key a)) (xr_attachments arch)) attachments"

lemma writeZipJSON_True: "writeZipJSON name v = (ps, True) \<longleftrightarrow> (\<exists>m. v = Some m \<and> ps = [(name, bytes_of (json_indent 0 m @ [CHR 0x0A]))])"
  by (auto simp: writeZipJSON_def split: option.splits)

lemma stream_zip_True:
  assumes "stream_zip env arch st = (parts, True)"
  obtains m cs ss es qs images attachments where "streamed env arch st m cs ss es qs images attachments"
    "parts = [(''manifest.json'', bytes_of (json_indent 0 m @ [CHR 0x0A])), (''data/collectors.jsonl'', lines_of cs),
       (''data/specimens.jsonl'', lines_of ss), (''data/journal_entries.jsonl'', lines_of es), (''data/qrsheets.jsonl'', lines_of qs)] @
       images @ attachments"
  using assms unfolding stream_zip_def then_write_True writeZipJSON_True writeZipJSONL_True stream_objects_True
  by (elim exE conjE) (simp add: streamed_def)

lemma stream_zip_complete:
  assumes "streamed env arch st m cs ss es qs images attachments"
  shows "snd (stream_zip env arch st)"
proof -
  have w: "writeZipJSON ''manifest.json'' (encode_manifest env (xr_manifest arch)) = ([(''manifest.json'', bytes_of (json_indent 0 m @ [CHR 0x0A]))], True)"
    "writeZipJSONL ''data/collectors.jsonl'' (encode_collector env) (xr_collectors arch) = ([(''data/collectors.jsonl'', lines_of cs)], True)"
    "writeZipJSONL ''data/specimens.jsonl'' (encode_specimen env) (xr_specimens arch) = ([(''data/specimens.jsonl'', lines_of ss)], True)"
    "writeZipJSONL ''data/journal_entries.jsonl'' (encode_entry env) (xr_journal arch) = ([(''data/journal_entries.jsonl'', lines_of es)], True)"
    "writeZipJSONL ''data/qrsheets.jsonl'' (encode_sheet env) (xr_qrsheets arch) = ([(''data/qrsheets.jsonl'', lines_of qs)], True)"
    using assms by (simp_all add: streamed_def writeZipJSON_True writeZipJSONL_True)
  have o: "stream_objects (xe_faults env) st (map (\<lambda>i. (xi_Path i, xi_key i)) (xm_Images (xr_manifest arch))) = (images, True)"
    "stream_objects (xe_faults env) st (map (\<lambda>a. (xa_Path a, xa_key a)) (xr_attachments arch)) = (attachments, True)"
    using assms by (simp_all add: streamed_def stream_objects_True)
  show ?thesis unfolding stream_zip_def w o by (simp add: then_write_def)
qed

lemma encoded_rows:
  assumes "all_some (map enc (map rec xs)) = Some js" and "\<And>x j. x \<in> set xs \<Longrightarrow> enc (rec x) = Some j \<Longrightarrow> P x j"
  shows "list_all2 P xs js"
  using assms(1) unfolding all_some_iff list_all2_map1
  by (rule list.rel_mono_strong) (rule assms(2))

lemma own_archive_parts:
  assumes "u_ID u \<noteq> uuid_Nil"
  shows "xr_collectors (own_archive env u d) = map collectorRecord (caller_collectors u d)"
    "xr_specimens (own_archive env u d) = map (specimenRecord d) (caller_specimens u d)"
    "xr_journal (own_archive env u d) = map (entry_record env d) (own_journal u d)"
    "xr_qrsheets (own_archive env u d) = map (label_sheet_record d) (own_label_sheets u d)"
    "xr_attachments (own_archive env u d) = map (\<lambda>l. attachmentRecord env l (file_of d (jf_FileID l))) (own_links u d)"
    "xr_manifest (own_archive env u d) = \<lparr>xm_SchemaVersion = exportSchemaVersion, xm_Application = ''minerals'', xm_ExportedAt = xe_now env,
       xm_ExportedBy = u_Sub u, xm_Counts = \<lparr>xn_Collectors = int (length (caller_collectors u d)),
         xn_Specimens = int (length (caller_specimens u d)), xn_JournalEntries = int (length (own_journal u d)),
         xn_QRSheets = int (length (own_label_sheets u d)), xn_Images = int (length (own_photos u d)),
         xn_JournalFiles = int (length (own_links u d))\<rparr>, xm_Images = map (photo_record env d) (own_photos u d)\<rparr>"
  unfolding own_archive_def assemble_def Let_def prod.case own_images_rows own_entries_rows [OF assms] own_attachments_rows
      own_sheets_rows exportArchive.select_convs length_map
  unfolding own_rows own_links_def by (rule refl)+

lemma photos_refer:
  assumes "consistent d" and "p \<in> set (own_photos u d)"
  shows "ph_FileID p \<in> fi_ID ` set (db_files d)"
proof -
  have "p \<in> set (db_photos d)" using assms(2) by (auto simp: own_photos_def)
  then show ?thesis using assms(1) by (auto simp: consistent_def fk_ok_def refs_def)
qed

lemma links_refer:
  assumes "consistent d" and "l \<in> set (own_links u d)"
  shows "jf_FileID l \<in> fi_ID ` set (db_files d)"
proof -
  have "l \<in> set (db_journal_files d)" using assms(2) by (auto simp: own_links_def entry_links_def)
  then show ?thesis using assms(1) by (auto simp: consistent_def fk_ok_def refs_def)
qed

lemma encode_manifest_says:
  assumes "encode_manifest env (xr_manifest (own_archive env u d)) = Some m" and "consistent d" and "u_ID u \<noteq> uuid_Nil"
  shows "manifest_says env u d m"
proof -
  obtain exportedAt images where t: "time_json (xe_tc env) (xe_now env) = Some exportedAt"
    "all_some (map (encode_image env) (map (photo_record env d) (own_photos u d))) = Some images"
    and m: "m = JObj [(''schemaVersion'', int_json 1), (''application'', JStr ''minerals''), (''exportedAt'', exportedAt),
       (''exportedBy'', JStr (u_Sub u)), (''counts'', encode_counts (xm_Counts (xr_manifest (own_archive env u d)))), (''images'', nil_slice images)]"
    using assms(1) by (auto simp: encode_manifest_def own_archive_parts [OF assms(3)] exportSchemaVersion_def bind_eq_Some_conv)
  have images: "list_all2 (image_says env d) (own_photos u d) images"
    using t(2)
  proof (rule encoded_rows)
    fix p j
    assume p: "p \<in> set (own_photos u d)" and enc: "encode_image env (photo_record env d p) = Some j"
    show "image_says env d p j" by (rule encode_image_says [OF enc file_of_found [OF photos_refer [OF assms(2) p]]])
  qed
  have empty: "images = [] \<longleftrightarrow> own_photos u d = []" using list_all2_lengthD [OF images] by auto
  have counts: "object_says
        [(''collectors'', an_int (int (length (caller_collectors u d)))), (''specimens'', an_int (int (length (caller_specimens u d)))),
         (''journalEntries'', an_int (int (length (own_journal u d)))), (''qrsheets'', an_int (int (length (own_label_sheets u d)))),
         (''images'', an_int (int (length (own_photos u d)))), (''journalFiles'', an_int (int (length (own_links u d))))]
      (encode_counts (xm_Counts (xr_manifest (own_archive env u d))))"
    unfolding encode_counts_def by (rule written_plain) (simp_all add: own_archive_parts [OF assms(3)] int_json_def)
  show ?thesis
    unfolding manifest_says_def m Let_def
    by (rule written_plain) (use t(1) counts images empty in \<open>simp_all add: int_json_def nil_slice_def\<close>)
qed

lemma fetched_parts:
  assumes "list_all2 (fetched fl st) (map (\<lambda>x. (path x, key x)) (map rec xs)) parts"
    and "\<And>x. x \<in> set xs \<Longrightarrow> \<exists>f\<in>set (db_files d). fi_ID f = file_id x \<and> path (rec x) = p x f \<and> key (rec x) = fi_S3Key f"
  shows "list_all2 (\<lambda>x. binary_part st d (file_id x) (p x)) xs parts"
  using assms(1) unfolding list_all2_map1
proof (rule list.rel_mono_strong)
  fix x part
  assume x: "x \<in> set xs" and got: "fetched fl st (path (rec x), key (rec x)) part"
  obtain f where f: "f \<in> set (db_files d)" "fi_ID f = file_id x" "path (rec x) = p x f" "key (rec x) = fi_S3Key f" using assms(2) [OF x] by blast
  obtain body ct where "st (fi_S3Key f) = Some (body, ct)" "part = (p x f, body)" using got by (auto simp: fetched_def f)
  then show "binary_part st d (file_id x) (p x) part" unfolding binary_part_def using f(1,2) by blast
qed

lemma stream_holds:
  assumes "stream_zip env (own_archive env u d) st = (parts, True)" and "consistent d" and "u_ID u \<noteq> uuid_Nil"
  shows "archive_holds env u d st parts"
proof -
  obtain m cs ss es qs images attachments where s: "streamed env (own_archive env u d) st m cs ss es qs images attachments"
    and parts: "parts = [(''manifest.json'', bytes_of (json_indent 0 m @ [CHR 0x0A])), (''data/collectors.jsonl'', lines_of cs),
       (''data/specimens.jsonl'', lines_of ss), (''data/journal_entries.jsonl'', lines_of es), (''data/qrsheets.jsonl'', lines_of qs)] @
       images @ attachments"
    by (rule stream_zip_True [OF assms(1)])
  note arch = own_archive_parts [OF assms(3), where env = env and d = d]
  have links: "jf_FileID ` set (db_journal_files d) \<subseteq> fi_ID ` set (db_files d)"
    using assms(2) by (auto simp: consistent_def fk_ok_def refs_def)
  have "manifest_says env u d m" by (rule encode_manifest_says [OF _ assms(2,3)]) (use s in \<open>simp add: streamed_def\<close>)
  moreover have "list_all2 (collector_says env) (caller_collectors u d) cs"
    by (rule encoded_rows [where rec = collectorRecord and enc = "encode_collector env"])
      (use s in \<open>simp_all add: streamed_def arch encode_collector_says\<close>)
  moreover have "list_all2 (specimen_says env d) (caller_specimens u d) ss"
    by (rule encoded_rows [where rec = "specimenRecord d" and enc = "encode_specimen env"])
      (use s encode_specimen_says [OF _ assms(2)] in \<open>simp_all add: streamed_def arch\<close>)
  moreover have "list_all2 (entry_says env d) (own_journal u d) es"
    by (rule encoded_rows [where rec = "entry_record env d" and enc = "encode_entry env"])
      (use s encode_entry_says [OF _ links] in \<open>simp_all add: streamed_def arch\<close>)
  moreover have "list_all2 (sheet_says env d) (own_label_sheets u d) qs"
    by (rule encoded_rows [where rec = "label_sheet_record d" and enc = "encode_sheet env"])
      (use s encode_sheet_says [OF _ assms(2)] in \<open>simp_all add: streamed_def arch label_sheet_record_def\<close>)
  moreover have "list_all2 (\<lambda>p. binary_part st d (ph_FileID p) (image_path env p)) (own_photos u d) images"
  proof (rule fetched_parts)
    show "list_all2 (fetched (xe_faults env) st) (map (\<lambda>i. (xi_Path i, xi_key i)) (map (photo_record env d) (own_photos u d))) images"
      using s by (simp add: streamed_def arch)
    fix p
    assume "p \<in> set (own_photos u d)"
    from file_of_found [OF photos_refer [OF assms(2) this]]
    show "\<exists>f\<in>set (db_files d). fi_ID f = ph_FileID p \<and> xi_Path (photo_record env d p) = image_path env p f \<and> xi_key (photo_record env d p) = fi_S3Key f"
      by (intro bexI [of _ "file_of d (ph_FileID p)"]) (simp_all add: imageRecord_def Let_def image_path_def extensions)
  qed
  moreover have "list_all2 (\<lambda>l. binary_part st d (jf_FileID l) (attachment_path env l)) (own_links u d) attachments"
  proof (rule fetched_parts)
    show "list_all2 (fetched (xe_faults env) st) (map (\<lambda>a. (xa_Path a, xa_key a))
        (map (\<lambda>l. attachmentRecord env l (file_of d (jf_FileID l))) (own_links u d))) attachments"
      using s by (simp add: streamed_def arch)
    fix l
    assume "l \<in> set (own_links u d)"
    from file_of_found [OF links_refer [OF assms(2) this]]
    show "\<exists>f\<in>set (db_files d). fi_ID f = jf_FileID l \<and> xa_Path (attachmentRecord env l (file_of d (jf_FileID l))) = attachment_path env l f \<and>
        xa_key (attachmentRecord env l (file_of d (jf_FileID l))) = fi_S3Key f"
      by (intro bexI [of _ "file_of d (jf_FileID l)"]) (simp_all add: attachmentRecord_def Let_def attachment_path_def extensions)
  qed
  ultimately show ?thesis unfolding archive_holds_def parts by blast
qed

section \<open>When the stream completes\<close>

lemma all_some_total: "all_some xs \<noteq> None \<longleftrightarrow> (\<forall>x\<in>set xs. x \<noteq> None)"
  by (induction xs) (auto simp: bind_eq_None_conv)

lemma time_json_some: "time_json tc t \<noteq> None \<longleftrightarrow> time_marshals t" "time_omitempty tc t' \<noteq> None \<longleftrightarrow> (\<forall>t\<in>set_option t'. time_marshals t)"
  by (auto simp: time_json_def time_omitempty_def split: option.splits)

lemma encoders_total:
  "encode_collector env (collectorRecord c) \<noteq> None \<longleftrightarrow> time_marshals (co_CreatedAt c) \<and> time_marshals (co_UpdatedAt c)"
  "encode_specimen env (specimenRecord d s) \<noteq> None \<longleftrightarrow> (\<forall>t\<in>set_option (sp_AcquiredAt s). time_marshals t) \<and>
     (sp_TypeData s = [] \<or> json_parse (sp_TypeData s) \<noteq> None) \<and> time_marshals (sp_CreatedAt s) \<and> time_marshals (sp_UpdatedAt s)"
  "encode_image env (imageRecord env i p f) \<noteq> None \<longleftrightarrow> (\<forall>t\<in>set_option (ph_TakenAt p). time_marshals t) \<and> time_marshals (ph_CreatedAt p)"
  "encode_attachment env (attachmentRecord env l f) \<noteq> None \<longleftrightarrow> time_marshals (jf_CreatedAt l)"
  by (auto simp: encode_collector_def collectorRecord_def encode_specimen_def specimenRecord_def encode_image_def imageRecord_def
      encode_attachment_def attachmentRecord_def bind_eq_None_conv time_json_def time_omitempty_def raw_omitempty_def Let_def
      simp del: fields_simps split: option.splits if_splits)

lemma lists_total:
  "encode_entry env (entry_record env d e) \<noteq> None \<longleftrightarrow> (\<forall>l\<in>set (entry_links d e). time_marshals (jf_CreatedAt l)) \<and>
     time_marshals (je_CreatedAt e) \<and> time_marshals (je_UpdatedAt e)"
  "consistent d \<Longrightarrow> encode_sheet env (label_sheet_record d q) \<noteq> None \<longleftrightarrow> (\<forall>r\<in>set (sheet_rows d (qs_ID q)). time_marshals (qr_AddedAt r)) \<and>
     time_marshals (qs_CreatedAt q) \<and> time_marshals (qs_UpdatedAt q)"
  "encode_manifest env m \<noteq> None \<longleftrightarrow> time_marshals (xm_ExportedAt m) \<and> (\<forall>x\<in>set (xm_Images m). encode_image env x \<noteq> None)"
proof -
  have links: "ListByEntry d (je_ID e) = entry_links d e" by (simp add: ListByEntry_def entry_links_def)
  have "all_some (map (encode_attachment env) (map (\<lambda>l. attachmentRecord env l (file_of d (jf_FileID l))) (entry_links d e))) \<noteq> None \<longleftrightarrow>
      (\<forall>l\<in>set (entry_links d e). time_marshals (jf_CreatedAt l))"
    unfolding all_some_total using encoders_total(4) by fastforce
  then show "encode_entry env (entry_record env d e) \<noteq> None \<longleftrightarrow> (\<forall>l\<in>set (entry_links d e). time_marshals (jf_CreatedAt l)) \<and>
     time_marshals (je_CreatedAt e) \<and> time_marshals (je_UpdatedAt e)"
    by (auto simp: encode_entry_def entry_record_def links bind_eq_None_conv time_json_def simp del: map_map split: if_splits)
  show "encode_sheet env (label_sheet_record d q) \<noteq> None \<longleftrightarrow> (\<forall>r\<in>set (sheet_rows d (qs_ID q)). time_marshals (qr_AddedAt r)) \<and>
     time_marshals (qs_CreatedAt q) \<and> time_marshals (qs_UpdatedAt q)" if d: "consistent d"
  proof -
    have "encode_member env \<lparr>xq_SpecimenID = qr_SpecimenID r, xq_Position = qr_Position r, xq_AddedAt = qr_AddedAt r\<rparr> \<noteq> None \<longleftrightarrow>
        time_marshals (qr_AddedAt r)" for r :: QRSheetSpecimenRow
      by (auto simp: encode_member_def bind_eq_None_conv time_json_def)
    then have "all_some (map (encode_member env) (map (\<lambda>r. \<lparr>xq_SpecimenID = qr_SpecimenID r, xq_Position = qr_Position r,
        xq_AddedAt = qr_AddedAt r\<rparr>) (sheet_rows d (qs_ID q)))) \<noteq> None \<longleftrightarrow> (\<forall>r\<in>set (sheet_rows d (qs_ID q)). time_marshals (qr_AddedAt r))"
      unfolding all_some_total by fastforce
    then show ?thesis
      by (auto simp: encode_sheet_def label_sheet_record_def members_listed [OF d] bind_eq_None_conv time_json_def simp del: map_map split: if_splits)
  qed
  have "all_some (map (encode_image env) (xm_Images m)) \<noteq> None \<longleftrightarrow> (\<forall>x\<in>set (xm_Images m). encode_image env x \<noteq> None)"
    unfolding all_some_total by simp
  then show "encode_manifest env m \<noteq> None \<longleftrightarrow> time_marshals (xm_ExportedAt m) \<and> (\<forall>x\<in>set (xm_Images m). encode_image env x \<noteq> None)"
    by (auto simp: encode_manifest_def bind_eq_None_conv time_json_def split: if_splits)
qed

lemma fetchable_file_of:
  assumes "distinct (map fi_ID (db_files d))" and "i \<in> fi_ID ` set (db_files d)"
  shows "fetchable fl st d i \<longleftrightarrow> fl (GetObject (fi_S3Key (file_of d i))) = Works \<and> st (fi_S3Key (file_of d i)) \<noteq> None"
proof -
  note f = file_of_found [OF assms(2)]
  have same: "g = file_of d i" if "g \<in> set (db_files d)" "fi_ID g = i" for g
  proof (rule inj_onD)
    show "inj_on fi_ID (set (db_files d))" using assms(1) by (simp add: distinct_map)
  qed (use that f in simp_all)
  show ?thesis
    unfolding fetchable_def
  proof
    assume "\<forall>g\<in>set (db_files d). fi_ID g = i \<longrightarrow> fl (GetObject (fi_S3Key g)) = Works \<and> st (fi_S3Key g) \<noteq> None"
    from bspec [OF this f(1)] f(2) show "fl (GetObject (fi_S3Key (file_of d i))) = Works \<and> st (fi_S3Key (file_of d i)) \<noteq> None" by simp
  next
    assume "fl (GetObject (fi_S3Key (file_of d i))) = Works \<and> st (fi_S3Key (file_of d i)) \<noteq> None"
    then show "\<forall>g\<in>set (db_files d). fi_ID g = i \<longrightarrow> fl (GetObject (fi_S3Key g)) = Works \<and> st (fi_S3Key g) \<noteq> None"
      using same by (intro ballI impI) simp
  qed
qed

lemma ex_list_all2: "(\<exists>ys. list_all2 R xs ys) \<longleftrightarrow> (\<forall>x\<in>set xs. \<exists>y. R x y)"
proof (induction xs)
  case (Cons x xs)
  have "(\<exists>ys. list_all2 R (x # xs) ys) \<longleftrightarrow> (\<exists>y. R x y) \<and> (\<exists>ys. list_all2 R xs ys)" unfolding list_all2_Cons1 by blast
  then show ?case using Cons by simp
qed simp

lemma fetched_total:
  "(\<exists>parts. list_all2 (fetched fl st) (map (\<lambda>x. (path x, key x)) (map rec xs)) parts) \<longleftrightarrow>
     (\<forall>x\<in>set xs. fl (GetObject (key (rec x))) = Works \<and> st (key (rec x)) \<noteq> None)"
  unfolding ex_list_all2 by (auto simp: fetched_def)

lemma own_links_entries: "(\<forall>l\<in>set (own_links u d). P l) \<longleftrightarrow> (\<forall>e\<in>set (own_journal u d). \<forall>l\<in>set (entry_links d e). P l)"
  by (auto simp: own_links_def)

lemma stream_feasible:
  assumes "consistent d" and "u_ID u \<noteq> uuid_Nil"
  shows "snd (stream_zip env (own_archive env u d) st) \<longleftrightarrow> export_feasible env u d st"
proof -
  let ?arch = "own_archive env u d"
  note arch = own_archive_parts [OF assms(2), where env = env and d = d]
  have keys: "distinct (map fi_ID (db_files d))" using assms(1) by (simp add: consistent_def keys_ok_def)
  have "snd (stream_zip env ?arch st) \<longleftrightarrow> (\<exists>m cs ss es qs images attachments. streamed env ?arch st m cs ss es qs images attachments)"
  proof
    assume "snd (stream_zip env ?arch st)"
    then have "stream_zip env ?arch st = (fst (stream_zip env ?arch st), True)" by (cases "stream_zip env ?arch st") simp
    then show "\<exists>m cs ss es qs images attachments. streamed env ?arch st m cs ss es qs images attachments"
      by (rule stream_zip_True) blast
  qed (blast intro: stream_zip_complete)
  also have "\<dots> \<longleftrightarrow> encode_manifest env (xr_manifest ?arch) \<noteq> None \<and>
      all_some (map (encode_collector env) (xr_collectors ?arch)) \<noteq> None \<and> all_some (map (encode_specimen env) (xr_specimens ?arch)) \<noteq> None \<and>
      all_some (map (encode_entry env) (xr_journal ?arch)) \<noteq> None \<and> all_some (map (encode_sheet env) (xr_qrsheets ?arch)) \<noteq> None \<and>
      (\<exists>images. list_all2 (fetched (xe_faults env) st) (map (\<lambda>i. (xi_Path i, xi_key i)) (xm_Images (xr_manifest ?arch))) images) \<and>
      (\<exists>attachments. list_all2 (fetched (xe_faults env) st) (map (\<lambda>a. (xa_Path a, xa_key a)) (xr_attachments ?arch)) attachments)"
    unfolding streamed_def by blast
  also have "\<dots> \<longleftrightarrow> export_feasible env u d st"
  proof -
    have ph: "xe_faults env (GetObject (xi_key (photo_record env d p))) = Works \<and> st (xi_key (photo_record env d p)) \<noteq> None \<longleftrightarrow>
        fetchable (xe_faults env) st d (ph_FileID p)" if "p \<in> set (own_photos u d)" for p
      using fetchable_file_of [OF keys photos_refer [OF assms(1) that]] by (simp add: imageRecord_def Let_def)
    have jf: "xe_faults env (GetObject (xa_key (attachmentRecord env l (file_of d (jf_FileID l))))) = Works \<and>
        st (xa_key (attachmentRecord env l (file_of d (jf_FileID l)))) \<noteq> None \<longleftrightarrow> fetchable (xe_faults env) st d (jf_FileID l)"
      if "l \<in> set (own_links u d)" for l
      using fetchable_file_of [OF keys links_refer [OF assms(1) that]] by (simp add: attachmentRecord_def Let_def)
    have cs: "all_some (map (encode_collector env) (xr_collectors ?arch)) \<noteq> None \<longleftrightarrow>
        (\<forall>c\<in>set (caller_collectors u d). time_marshals (co_CreatedAt c) \<and> time_marshals (co_UpdatedAt c))"
      unfolding arch all_some_total using encoders_total(1) by fastforce
    have ss: "all_some (map (encode_specimen env) (xr_specimens ?arch)) \<noteq> None \<longleftrightarrow>
        (\<forall>s\<in>set (caller_specimens u d). (\<forall>t\<in>set_option (sp_AcquiredAt s). time_marshals t) \<and>
          (sp_TypeData s = [] \<or> json_parse (sp_TypeData s) \<noteq> None) \<and> time_marshals (sp_CreatedAt s) \<and> time_marshals (sp_UpdatedAt s))"
      unfolding arch all_some_total set_map ball_simps encoders_total(2) ..
    have es: "all_some (map (encode_entry env) (xr_journal ?arch)) \<noteq> None \<longleftrightarrow>
        (\<forall>e\<in>set (own_journal u d). (\<forall>l\<in>set (entry_links d e). time_marshals (jf_CreatedAt l)) \<and> time_marshals (je_CreatedAt e) \<and> time_marshals (je_UpdatedAt e))"
      unfolding arch all_some_total set_map ball_simps lists_total(1) ..
    have qs: "all_some (map (encode_sheet env) (xr_qrsheets ?arch)) \<noteq> None \<longleftrightarrow>
        (\<forall>q\<in>set (own_label_sheets u d). (\<forall>r\<in>set (sheet_rows d (qs_ID q)). time_marshals (qr_AddedAt r)) \<and>
          time_marshals (qs_CreatedAt q) \<and> time_marshals (qs_UpdatedAt q))"
      unfolding arch all_some_total set_map ball_simps lists_total(2) [OF assms(1)] ..
    have m: "encode_manifest env (xr_manifest ?arch) \<noteq> None \<longleftrightarrow> time_marshals (xe_now env) \<and>
        (\<forall>p\<in>set (own_photos u d). (\<forall>t\<in>set_option (ph_TakenAt p). time_marshals t) \<and> time_marshals (ph_CreatedAt p))"
      unfolding lists_total(3) arch exportManifest.select_convs set_map ball_simps encoders_total(3) ..
    have im: "(\<exists>images. list_all2 (fetched (xe_faults env) st) (map (\<lambda>i. (xi_Path i, xi_key i)) (xm_Images (xr_manifest ?arch))) images) \<longleftrightarrow>
        (\<forall>p\<in>set (own_photos u d). fetchable (xe_faults env) st d (ph_FileID p))"
      unfolding arch exportManifest.select_convs fetched_total using ph by blast
    have at: "(\<exists>attachments. list_all2 (fetched (xe_faults env) st) (map (\<lambda>a. (xa_Path a, xa_key a)) (xr_attachments ?arch)) attachments) \<longleftrightarrow>
        (\<forall>l\<in>set (own_links u d). fetchable (xe_faults env) st d (jf_FileID l))"
      unfolding arch fetched_total using jf by blast
    have rows: "(\<forall>r\<in>set (sheet_rows d i). Q r) \<longleftrightarrow> (\<forall>r\<in>set (db_qr_specimens d). qr_SheetID r = i \<longrightarrow> Q r)" for i Q
      by (auto simp: sheet_rows_def)
    show ?thesis
      unfolding cs ss es qs m im at export_feasible_def rows own_links_entries ball_conj_distrib by (simp only: conj_ac)
  qed
  finally show ?thesis .
qed

section \<open>Properties\<close>

text \<open>
  C33: the export ends and carries the caller's data, all of it and nothing else. Whatever the number of rows, the loops
  over the pages end; an unauthenticated caller gets 401. The stream completes exactly when every time of the rows marshals,
  every payload is JSON and every object can be fetched. Then the entries are the manifest, the four files of records and
  one entry for every photo and attachment, in this order: each line is the JSON object of one row, member by member, of the
  collectors and specimens the caller is the author of, newest first, of the journal entries on these specimens that the
  caller may read, with their attachments, and of the label sheet of the account with its members by position; the
  manifest counts them and describes every photo; and under the path named there each photo and attachment has the
  bytes of its object.
\<close>

theorem export_complete:
  fixes env :: "'r::{linorder,zero} export_env"
  assumes "text_forms (xe_tc env)" and "consistent d" and "exportable d"
  shows "case exportData env u d st of
      None \<Rightarrow> False
    | Some (Inl e) \<Rightarrow> (u_Sub u = [] \<or> u_ID u = uuid_Nil) \<and> err_Status e = 401
    | Some (Inr r) \<Rightarrow> u_Sub u \<noteq> [] \<and> u_ID u \<noteq> uuid_Nil \<and> xo_ContentType r = ''application/zip'' \<and> xo_CacheControl r = ''no-store'' \<and>
        (xo_complete r \<longleftrightarrow> export_feasible env u d st) \<and> (xo_complete r \<longrightarrow> archive_holds env u d st (xo_parts r))"
proof (cases "u_Sub u = [] \<or> u_ID u = uuid_Nil")
  case True
  then show ?thesis by (simp add: exportData_def newAPIError_def)
next
  case False
  then have who: "u_Sub u \<noteq> []" "u_ID u \<noteq> uuid_Nil" by simp_all
  have g: "gather env u d = Some (Inr (own_archive env u d))" by (rule gather_own [OF assms who(2)])
  obtain parts ok where z: "stream_zip env (own_archive env u d) st = (parts, ok)" by (cases "stream_zip env (own_archive env u d) st")
  have "ok \<longleftrightarrow> export_feasible env u d st" using stream_feasible [OF assms(2) who(2), of env st] z by simp
  moreover have "ok \<longrightarrow> archive_holds env u d st parts" using stream_holds [OF _ assms(2) who(2), of env st parts] z by simp
  ultimately show ?thesis using who by (simp add: exportData_def g z Let_def)
qed

text \<open>A specimen with a photo and a label sheet with it, exported.\<close>

definition exported_file :: File where
  "exported_file = \<lparr>fi_ID = 30, fi_S3Key = ''k'', fi_ContentType = ''image/jpeg'', fi_ByteSize = 2, fi_SHA256 = ''00'', fi_UploadedAt = 1, fi_UploadedBy = 7\<rparr>"

definition exported_photo :: Photo where
  "exported_photo = \<lparr>ph_ID = 40, ph_SpecimenID = 20, ph_FileID = 30, ph_Kind = ''visible'', ph_TakenAt = None, ph_Position = 0,
     ph_Visibility = None, ph_CreatedAt = 2\<rparr>"

definition full_collection :: database where
  "full_collection = sample_collection\<lparr>db_files := [exported_file], db_photos := [exported_photo],
     db_qr_sheets := [\<lparr>qs_ID = 50, qs_UserID = 7, qs_Template = ''a4-24'', qs_CreatedAt = 3, qs_UpdatedAt = 3\<rparr>],
     db_qr_specimens := [\<lparr>qr_ID = 60, qr_SheetID = 50, qr_SpecimenID = 20, qr_Position = 1, qr_AddedAt = 4\<rparr>]\<rparr>"

lemma full_exportable: "consistent full_collection" "exportable full_collection"
  by (simp_all add: full_collection_def sample_collection_def consistent_def keys_ok_def empty_database_def users_ok_def fk_ok_def refs_def
      main_image_refs_def sample_collector_def exportable_def time_marshals_def row_marshals_def Specimen_zero_def exported_photo_def
      exported_file_def photo_marshals_def)

lemma full_rows:
  "caller_collectors sample_exporter full_collection = [sample_collector]"
  "caller_specimens sample_exporter full_collection = [Specimen_zero\<lparr>sp_ID := 20, sp_AuthorID := 7\<rparr>]"
  "own_photos sample_exporter full_collection = [exported_photo]" "own_journal sample_exporter full_collection = []"
  "own_label_sheets sample_exporter full_collection = [\<lparr>qs_ID = 50, qs_UserID = 7, qs_Template = ''a4-24'', qs_CreatedAt = 3, qs_UpdatedAt = 3\<rparr>]"
  "db_qr_specimens full_collection = [\<lparr>qr_ID = 60, qr_SheetID = 50, qr_SpecimenID = 20, qr_Position = 1, qr_AddedAt = 4\<rparr>]"
  by (simp_all add: caller_collectors_def caller_specimens_def own_photos_def own_journal_def own_label_sheets_def full_collection_def
      sample_collection_def empty_database_def sample_exporter_def exported_photo_def sample_collector_def)

lemma full_feasible: "export_feasible sample_export_env sample_exporter full_collection [''k'' \<mapsto> ([1, 2], ''image/jpeg'')]"
proof -
  have object: "fetchable (xe_faults sample_export_env) [''k'' \<mapsto> ([1, 2], ''image/jpeg'')] full_collection (ph_FileID exported_photo)"
    by (simp add: fetchable_def full_collection_def sample_export_env_def no_faults_def exported_file_def exported_photo_def)
  have links: "own_links sample_exporter full_collection = []" by (simp add: own_links_def full_rows)
  have times: "time_marshals (xe_now sample_export_env)" "time_marshals (co_CreatedAt sample_collector)" "time_marshals (co_UpdatedAt sample_collector)"
    "ph_TakenAt exported_photo = None" "time_marshals (ph_CreatedAt exported_photo)"
    by (simp_all add: time_marshals_def sample_export_env_def sample_collector_def exported_photo_def)
  have zero: "time_marshals 0" "time_marshals 3" "time_marshals 4" by (simp_all add: time_marshals_def)
  show ?thesis unfolding export_feasible_def full_rows links by (simp add: object times zero Specimen_zero_def)
qed

theorem export_complete_witness:
  "\<exists>r. exportData sample_export_env sample_exporter full_collection [''k'' \<mapsto> ([1, 2], ''image/jpeg'')] = Some (Inr r) \<and> xo_complete r \<and>
     (image_path sample_export_env exported_photo exported_file, [1, 2]) \<in> set (xo_parts r)"
proof -
  let ?st = "[''k'' \<mapsto> ([1, 2], ''image/jpeg'')] :: objects"
  have tc: "text_forms (xe_tc sample_export_env)" by (rule sample_exportable)
  note T = export_complete [OF tc full_exportable, of sample_exporter ?st]
  have who: "u_Sub sample_exporter \<noteq> []" "u_ID sample_exporter \<noteq> uuid_Nil" by (simp_all add: sample_exporter_def)
  obtain r where r: "exportData sample_export_env sample_exporter full_collection ?st = Some (Inr r)"
    using T who by (auto split: option.splits sum.splits)
  have done': "xo_complete r" "archive_holds sample_export_env sample_exporter full_collection ?st (xo_parts r)"
    using T full_feasible unfolding r by simp_all
  from done'(2) obtain m cs ss es qs images attachments where parts:
      "xo_parts r = [(''manifest.json'', bytes_of (json_indent 0 m @ [CHR 0x0A])), (''data/collectors.jsonl'', lines_of cs),
          (''data/specimens.jsonl'', lines_of ss), (''data/journal_entries.jsonl'', lines_of es), (''data/qrsheets.jsonl'', lines_of qs)] @
          images @ attachments" and
    images: "list_all2 (\<lambda>p. binary_part ?st full_collection (ph_FileID p) (image_path sample_export_env p)) [exported_photo] images"
    unfolding archive_holds_def full_rows by (elim exE conjE)
  from images obtain part where part: "part \<in> set images"
      "binary_part ?st full_collection (ph_FileID exported_photo) (image_path sample_export_env exported_photo) part"
    by (auto simp: list_all2_Cons1)
  have "set images \<subseteq> set (xo_parts r)" unfolding parts by auto
  with part(1) have entry: "part \<in> set (xo_parts r)" by (rule rev_subsetD)
  have "part = (image_path sample_export_env exported_photo exported_file, [1, 2])"
    using part(2) by (auto simp: binary_part_def full_collection_def exported_file_def)
  then show ?thesis using r done'(1) entry by blast
qed

end
