(* ===== verification/Moderation.thy ===== *)
theory Moderation
  imports SpecimenService PhotoService Journal
begin

text \<open>
  Abuse handling (\<open>src/internal/api/moderation.go\<close>): the public report of a specimen and the operator's
  takedown, photo removal and journal removal. The events they log are the product of a report and the audit
  trail of the actions, so a handler returns the event it logs beside its reply.
\<close>

section \<open>The service\<close>

definition reportReasons :: "string list" where
  "reportReasons = [''abuse'', ''illegal'', ''spam'', ''copyright'', ''privacy'', ''other'']"

text \<open>The guard, the text form of identifiers, the photo dependencies and the fresh identifier of an action.\<close>

record ('r, 'img) moderation_env =
  mo_guard :: authzGuard
  mo_tc :: "'r text_codec"
  mo_photos :: "('r, 'img) photo_env"
  mo_newID :: uuid

datatype moderation_event =
    ModReport uuid uuid uuid Visibility string string string
  | ModTakedown uuid uuid Visibility string string
  | ModRemovePhoto uuid uuid uuid uuid string string
  | ModRemoveJournal uuid uuid uuid uuid string string

record reportSpecimenBody =
  rs_Reason :: string
  rs_Details :: string

record reportAck =
  rk_ReportID :: string
  rk_Message :: string

record moderationActionAck =
  mk_ActionID :: string
  mk_Message :: string

abbreviation mo_str :: "('r, 'img) moderation_env \<Rightarrow> uuid \<Rightarrow> string" where
  "mo_str env \<equiv> uuid_String (mo_tc env)"

definition report_thanks :: string where
  "report_thanks = ''Thank you '' @ [CHR 0xE2, CHR 0x80, CHR 0x94] @ '' this report has been sent to the site operator for review.''"

definition reporter :: "(uuid \<Rightarrow> string) \<Rightarrow> auth_User \<Rightarrow> string" where
  "reporter str u = (if u_ID u \<noteq> uuid_Nil then str (u_ID u) else ''anonymous'')"

definition moderationActor :: "(uuid \<Rightarrow> string) \<Rightarrow> auth_User \<Rightarrow> string" where
  "moderationActor str u = (if u_ID u \<noteq> uuid_Nil then str (u_ID u) else ''unknown'')"

section \<open>The handlers\<close>

definition report ::
  "('r, 'img) moderation_env \<Rightarrow> auth_User \<Rightarrow> string \<Rightarrow> reportSpecimenBody \<Rightarrow> database \<Rightarrow> apiError + reportAck \<times> moderation_event" where
  "report env u rawID b d =
     sum_bind (parseUUID (uuid_Parse (mo_tc env)) rawID ''id'') (\<lambda>i.
     sum_bind (ensure (rs_Reason b \<in> set reportReasons)
       (newAPIError 400 ''invalid_reason'' ''reason must be one of abuse|illegal|spam|copyright|privacy|other'' [(''field'', ''reason'')])) (\<lambda>_.
     sum_bind (map_sum mapSpecimenError id (SpecimenPostgres_GetByID d i)) (\<lambda>sp.
     sum_bind (as_error (checkView (mo_guard env) u (specimenResource (ag_str (mo_guard env)) sp)
       ''specimen_not_found'' ''no such specimen'')) (\<lambda>_.
     Inr (\<lparr>rk_ReportID = mo_str env (mo_newID env), rk_Message = report_thanks\<rparr>,
          ModReport (mo_newID env) (sp_ID sp) (sp_AuthorID sp) (sp_Visibility sp) (rs_Reason b)
            (reporter (mo_str env) u) (rs_Details b))))))"

definition takedown ::
  "('r, 'img) moderation_env \<Rightarrow> auth_User \<Rightarrow> string \<Rightarrow> string \<Rightarrow> database \<Rightarrow> apiError + (SpecimenView \<times> moderation_event) \<times> database" where
  "takedown env u rawID reason d =
     sum_bind (parseUUID (uuid_Parse (mo_tc env)) rawID ''id'') (\<lambda>i.
     sum_bind (map_sum mapSpecimenError id (SpecimenPostgres_GetByID d i)) (\<lambda>cur.
     sum_bind (as_error (guard_check (mo_guard env) u (specimenResource (ag_str (mo_guard env)) cur) ''edit'')) (\<lambda>_.
     let new = (if sp_Visibility cur \<noteq> VisibilityPrivate then cur\<lparr>sp_Visibility := VisibilityPrivate\<rparr> else cur) in
     sum_bind (if sp_Visibility cur \<noteq> VisibilityPrivate then map_sum mapSpecimenError id (SpecimenPostgres_Update new d) else Inr d) (\<lambda>d'.
     Inr ((toSpecimenView new,
           ModTakedown (sp_ID new) (sp_AuthorID new) (sp_Visibility cur) (moderationActor (mo_str env) u) reason), d')))))"

definition removePhoto ::
  "('r, 'img) moderation_env \<Rightarrow> auth_User \<Rightarrow> string \<Rightarrow> string \<Rightarrow> photo_world \<Rightarrow>
   (apiError + moderationActionAck \<times> moderation_event) \<times> photo_world" where
  "removePhoto env u rawID reason w =
     (case sum_bind (parseUUID (uuid_Parse (mo_tc env)) rawID ''id'') (\<lambda>i.
           sum_bind (map_sum mapPhotoError id (PhotoPostgres_GetByID (pw_db w) i)) (\<lambda>p.
           sum_bind (map_sum (\<lambda>_. newAPIError 404 ''photo_not_found'' ''no such photo'' [(''field'', ''id'')]) id
             (SpecimenPostgres_GetByID (pw_db w) (ph_SpecimenID p))) (\<lambda>parent.
           sum_bind (as_error (guard_check (mo_guard env) u (photoResource (ag_str (mo_guard env)) (ph_ID p) parent) ''delete'')) (\<lambda>_.
           Inr (p, parent))))) of
        Inl e \<Rightarrow> (Inl e, w)
      | Inr (p, parent) \<Rightarrow>
          (case removePhotoBytes (mo_photos env) p w of
             (Inl e, w') \<Rightarrow> (Inl (mapPhotoError e), w')
           | (Inr _, w') \<Rightarrow>
               (Inr (\<lparr>mk_ActionID = mo_str env (mo_newID env), mk_Message = ''Photo removed.''\<rparr>,
                     ModRemovePhoto (mo_newID env) (ph_ID p) (ph_SpecimenID p) (sp_AuthorID parent)
                       (moderationActor (mo_str env) u) reason), w')))"

definition removeJournal ::
  "('r, 'img) moderation_env \<Rightarrow> auth_User \<Rightarrow> string \<Rightarrow> string \<Rightarrow> database \<Rightarrow>
   apiError + (moderationActionAck \<times> moderation_event) \<times> database" where
  "removeJournal env u rawID reason d =
     sum_bind (parseUUID (uuid_Parse (mo_tc env)) rawID ''id'') (\<lambda>i.
     sum_bind (map_sum mapJournalError id (JournalEntry_GetByID d i)) (\<lambda>entry.
     sum_bind (as_error (guard_check (mo_guard env) u (journalResource (ag_str (mo_guard env)) entry) ''delete'')) (\<lambda>_.
     sum_bind (map_sum mapJournalError id (JournalEntry_Delete i d)) (\<lambda>d'.
     Inr ((\<lparr>mk_ActionID = mo_str env (mo_newID env), mk_Message = ''Journal entry removed.''\<rparr>,
           ModRemoveJournal (mo_newID env) (je_ID entry) (je_SpecimenID entry) (je_AuthorID entry)
             (moderationActor (mo_str env) u) reason), d')))))"

section \<open>Reports\<close>

definition no_such_specimen :: apiError where
  "no_such_specimen = newAPIError 404 ''specimen_not_found'' ''no such specimen'' []"

text \<open>A report names a specimen the reporter may view; a hidden one is answered like a missing one.\<close>

lemma report_spec:
  assumes "guard_ok (mo_guard env) enf (Some (NewSharesLookup parse d))" and "\<forall>i. parse (ag_str (mo_guard env) i) = Some i"
    and "uuid_Parse (mo_tc env) rawID = Some i" and "rs_Reason b \<in> set reportReasons"
  shows "report env u rawID b d =
    (case SpecimenPostgres_GetByID d i of
       Inl _ \<Rightarrow> Inl no_such_specimen
     | Inr s \<Rightarrow>
         if specimenAccessScope d u s
         then Inr (\<lparr>rk_ReportID = mo_str env (mo_newID env), rk_Message = report_thanks\<rparr>,
           ModReport (mo_newID env) (sp_ID s) (sp_AuthorID s) (sp_Visibility s) (rs_Reason b) (reporter (mo_str env) u) (rs_Details b))
         else Inl no_such_specimen)"
proof (cases "SpecimenPostgres_GetByID d i")
  case (Inl e)
  then have "e = Domain ErrSpecimenNotFound" by (auto simp: SpecimenPostgres_GetByID_def split: option.splits)
  then show ?thesis using Inl assms(3,4) by (simp add: report_def parseUUID_def ensure_def mapSpecimenError_def no_such_specimen_def)
next
  case (Inr s)
  let ?res = "specimenResource (ag_str (mo_guard env)) s"
  have "checkView (mo_guard env) u ?res ''specimen_not_found'' ''no such specimen'' =
      (if specimenAccessScope d u s then None else Some no_such_specimen)"
    using access_scope_checkView [OF assms(1,2), of u s "''specimen_not_found''" "''no such specimen''"]
      guard_ok_checkView [OF assms(1), of u ?res "''specimen_not_found''" "''no such specimen''"]
    by (auto simp: no_such_specimen_def)
  then show ?thesis using Inr assms(3,4) by (simp add: report_def parseUUID_def ensure_def as_error_def)
qed

section \<open>Takedown\<close>

text \<open>The row after a takedown, and the tables: this one row, nothing else.\<close>

definition takedown_row :: "Specimen \<Rightarrow> Specimen" where
  "takedown_row s = (if sp_Visibility s = VisibilityPrivate then s
     else s\<lparr>sp_Visibility := VisibilityPrivate, sp_TypeData := stored_type_data (sp_TypeData s)\<rparr>)"

definition taken_down :: "uuid \<Rightarrow> database \<Rightarrow> database \<Rightarrow> bool" where
  "taken_down i d d' \<longleftrightarrow> specimens_ok d' \<and> d' = d\<lparr>db_specimens := db_specimens d'\<rparr> \<and>
     (\<forall>j. SpecimenPostgres_GetByID d' j =
        (if j = i then map_sum id takedown_row (SpecimenPostgres_GetByID d j) else SpecimenPostgres_GetByID d j))"

lemma update_private:
  assumes "specimens_ok d" and "SpecimenPostgres_GetByID d i = Inr s"
  shows "\<exists>d'. SpecimenPostgres_Update (s\<lparr>sp_Visibility := VisibilityPrivate\<rparr>) d = Inr d'"
proof -
  let ?s = "s\<lparr>sp_Visibility := VisibilityPrivate\<rparr>"
  have s: "s \<in> set (db_specimens d)" "sp_ID s = i" using GetByID_iff assms by (auto simp: specimens_ok_def)
  have "enums_ok s" using assms(1) s(1) by (simp add: specimens_ok_def list_all_iff)
  then have "enums_ok ?s" by (simp add: enums_ok_def visibilities_def)
  moreover have "\<exists>r\<in>set (db_specimens d). sp_ID r = sp_ID ?s \<and> sp_Type r = sp_Type ?s" using s(1) by auto
  moreover have "\<not> catalog_clash ?s (filter (\<lambda>r. sp_ID r \<noteq> sp_ID ?s) (db_specimens d))"
    using assms(1) s(1) by (auto simp: catalog_clash_def specimens_ok_def) metis
  moreover have "main_image_ok d ?s"
    using assms(1) s(1) by (auto simp: specimens_ok_def fk_ok_def main_image_refs_def main_image_ok_def split: option.splits)
  ultimately show ?thesis by (simp add: SpecimenPostgres_Update_def)
qed

lemma takedown_effect:
  assumes "specimens_ok d" and "SpecimenPostgres_GetByID d i = Inr s"
    and "(if sp_Visibility s \<noteq> VisibilityPrivate then map_sum mapSpecimenError id (SpecimenPostgres_Update (s\<lparr>sp_Visibility := VisibilityPrivate\<rparr>) d)
          else Inr d) = Inr d'"
  shows "taken_down i d d'"
proof (cases "sp_Visibility s = VisibilityPrivate")
  case True
  then have "d' = d" using assms(3) by simp
  then show ?thesis using True assms(1,2) by (simp add: taken_down_def takedown_row_def)
next
  case False
  let ?s = "s\<lparr>sp_Visibility := VisibilityPrivate\<rparr>"
  have run: "SpecimenPostgres_Update ?s d = Inr d'" using False assms(3) by (simp add: map_sum_Inr)
  have i: "sp_ID s = i" using GetByID_iff assms(1,2) by (auto simp: specimens_ok_def)
  have "SpecimenPostgres_GetByID d' j = (if j = i then Inr (updated_row ?s s) else SpecimenPostgres_GetByID d j)" for j
    using specimen_postgres.get_update [OF assms(1) run] assms(2) i by auto
  moreover have "updated_row ?s s = takedown_row s" using False by (simp add: updated_row_def takedown_row_def)
  moreover have "d' = d\<lparr>db_specimens := db_specimens d'\<rparr>"
    using run by (auto simp: SpecimenPostgres_Update_def split: if_splits)
  ultimately show ?thesis
    using specimen_postgres.update_ok [OF assms(1) run] assms(2) by (simp add: taken_down_def)
qed

text \<open>The whole handler: authors and administrators may, and it then cannot fail.\<close>

lemma takedown_spec:
  assumes "guard_ok (mo_guard env) enf shares" and "specimens_ok d" and "uuid_Parse (mo_tc env) rawID = Some i"
  shows "case SpecimenPostgres_GetByID d i of
      Inl _ \<Rightarrow> takedown env u rawID reason d = Inl (newAPIError 404 ''specimen_not_found'' ''no such specimen'' [])
    | Inr s \<Rightarrow>
        if ownerScope u (sp_AuthorID s)
        then \<exists>d'. taken_down i d d' \<and> takedown env u rawID reason d =
          Inr ((toSpecimenView (s\<lparr>sp_Visibility := VisibilityPrivate\<rparr>),
            ModTakedown i (sp_AuthorID s) (sp_Visibility s) (moderationActor (mo_str env) u) reason), d')
        else takedown env u rawID reason d = Inl (newAPIError 403 ''forbidden'' ''you do not have permission to perform this action'' [])"
proof (cases "SpecimenPostgres_GetByID d i")
  case (Inl e)
  then have "e = Domain ErrSpecimenNotFound" by (auto simp: SpecimenPostgres_GetByID_def split: option.splits)
  then show ?thesis using Inl assms(3) by (simp add: takedown_def parseUUID_def mapSpecimenError_def)
next
  case (Inr s)
  let ?g = "mo_guard env" let ?res = "specimenResource (ag_str ?g) s" let ?s = "s\<lparr>sp_Visibility := VisibilityPrivate\<rparr>"
  have check: "guard_check ?g u ?res ''edit'' = None \<longleftrightarrow> ownerScope u (sp_AuthorID s)"
    by (rule owned_write_scope [OF assms(1)]) (simp_all add: specimenResource_def owned_types_def)
  have i: "sp_ID s = i" using GetByID_iff Inr assms(2) by (auto simp: specimens_ok_def)
  show ?thesis
  proof (cases "ownerScope u (sp_AuthorID s)")
    case True
    obtain d0 where upd: "SpecimenPostgres_Update ?s d = Inr d0" using update_private [OF assms(2) Inr] by blast
    let ?new = "if sp_Visibility s \<noteq> VisibilityPrivate then ?s else s"
    define d' where "d' = (if sp_Visibility s \<noteq> VisibilityPrivate then d0 else d)"
    have run: "(if sp_Visibility s \<noteq> VisibilityPrivate then map_sum mapSpecimenError id (SpecimenPostgres_Update ?s d) else Inr d) = Inr d'"
      by (simp add: upd d'_def)
    have run': "(if sp_Visibility s \<noteq> VisibilityPrivate then map_sum mapSpecimenError id (SpecimenPostgres_Update ?new d) else Inr d) = Inr d'"
      by (simp add: upd d'_def)
    have new: "?new = ?s" by simp
    have "takedown env u rawID reason d =
        Inr ((toSpecimenView ?new, ModTakedown (sp_ID ?new) (sp_AuthorID ?new) (sp_Visibility s) (moderationActor (mo_str env) u) reason), d')"
      using True check Inr assms(3) run' by (simp add: takedown_def parseUUID_def as_error_def Let_def split del: if_split)
    then have "takedown env u rawID reason d =
        Inr ((toSpecimenView ?s, ModTakedown i (sp_AuthorID s) (sp_Visibility s) (moderationActor (mo_str env) u) reason), d')"
      unfolding new by (simp add: i)
    then show ?thesis using takedown_effect [OF assms(2) Inr run] True Inr by auto
  next
    case False
    then obtain ae where ae: "guard_check ?g u ?res ''edit'' = Some ae" using check by auto
    have "ae = newAPIError 403 ''forbidden'' ''you do not have permission to perform this action'' []"
      by (rule guard_ok_denies [OF assms(1) _ ae]) simp
    then show ?thesis using False Inr ae assms(3) by (simp add: takedown_def parseUUID_def as_error_def)
  qed
qed

text \<open>Callers to whom a private specimen is closed: not its author, no administrator, nobody it is shared with.\<close>

definition outsider :: "database \<Rightarrow> auth_User \<Rightarrow> Specimen \<Rightarrow> bool" where
  "outsider d v s \<longleftrightarrow> \<not> ownerScope v (sp_AuthorID s) \<and> u_ID v \<notin> sh_SharedWith ` set (db_shares d)"

lemma outsider_scope:
  assumes "outsider d v s" and "sp_Visibility s = VisibilityPrivate"
  shows "\<not> specimenAccessScope d v s"
  using assms by (auto simp: outsider_def ownerScope_def specimenAccessScope_def shared_with_def intro: rev_image_eqI)

lemma outsider_guard:
  assumes "guard_ok g enf (Some (NewSharesLookup parse d))" and "\<forall>i. parse (ag_str g i) = Some i"
    and "outsider d v s" and "sp_Visibility s = VisibilityPrivate"
  shows "guard_check g v (photoResource (ag_str g) p s) ''view'' \<noteq> None"
proof
  let ?a = "authzUser (ag_str g) v" let ?res = "photoResource (ag_str g) p s" let ?sh = "Some (NewSharesLookup parse d)"
  assume "guard_check g v ?res ''view'' = None"
  then obtain role where role: "role \<in> set (au_Roles ?a)" "granted ?sh role (au_ID ?a) ?res ''view''"
    using guard_ok_check [OF assms(1), of "''view''" v ?res] assms(4) by (auto simp: photoResource_def)
  have ut: "uuid_text (ag_str g)" using assms(1) by (simp add: guard_ok_def)
  have no_admin: "role \<noteq> ''admin''" using role(1) assms(3) by (auto simp: outsider_def ownerScope_def isAdmin_def)
  then have id: "au_ID ?a \<noteq> []" using role(2) assms(4) by (auto simp: granted_def photoResource_def)
  have nil: "u_ID v \<noteq> uuid_Nil" using id by (auto simp: authzUser_def)
  have not_mine: "\<not> (au_ID ?a \<noteq> [] \<and> ag_str g (sp_AuthorID s) = au_ID ?a)"
    using authzUser_owns [OF ut, of v "sp_AuthorID s"] assms(3) by (simp add: outsider_def ownerScope_def isAnonymous_def)
  have "NewSharesLookup parse d ''photos'' (ag_str g p) (ag_str g (u_ID v)) = Inr (\<exists>sh\<in>set (db_shares d).
      sh_ResourceType sh = ''photos'' \<and> sh_ResourceID sh = p \<and> sh_SharedWith sh = u_ID v)"
    using assms(2) by (simp add: NewSharesLookup_def)
  moreover have "\<not> (\<exists>sh\<in>set (db_shares d). sh_ResourceType sh = ''photos'' \<and> sh_ResourceID sh = p \<and> sh_SharedWith sh = u_ID v)"
    using assms(3) by (auto simp: outsider_def intro: rev_image_eqI)
  moreover have "au_ID ?a = ag_str g (u_ID v)" using nil by (simp add: authzUser_def)
  ultimately show False using role(2) no_admin not_mine id assms(4) by (simp add: granted_def photoResource_def)
qed

lemma taken_down_shares: "taken_down i d d' \<Longrightarrow> db_shares d' = db_shares d"
  unfolding taken_down_def by (metis database.select_convs database.surjective database.update_convs(2))

lemma specimen_get_hidden:
  assumes "guard_ok (se_guard senv) enf (Some (NewSharesLookup parse d))" and "\<forall>i. parse (ag_str (se_guard senv) i) = Some i"
    and "uuid_Parse (se_tc senv) rawID = Some i" and "SpecimenPostgres_GetByID d i = Inr s" and "\<not> specimenAccessScope d u s"
  shows "specimen_get senv u rawID d = Inl no_such_specimen"
proof -
  let ?res = "specimenResource (ag_str (se_guard senv)) s"
  have "checkView (se_guard senv) u ?res ''specimen_not_found'' ''no such specimen'' = Some no_such_specimen"
    using access_scope_checkView [OF assms(1,2), of u s "''specimen_not_found''" "''no such specimen''"] assms(5)
      guard_ok_checkView [OF assms(1), of u ?res "''specimen_not_found''" "''no such specimen''"]
    by (auto simp: no_such_specimen_def)
  then show ?thesis using assms(3,4) by (simp add: specimen_get_def parseUUID_def as_error_def)
qed

text \<open>
  C5. A takedown closes a specimen. It succeeds exactly for the author of an existing specimen and for
  administrators, changes this one row, to private, and afterwards the specimen, and every photo of it in any
  size, are answered to everybody who is not its author, an administrator or named in a share exactly like
  something that does not exist; nor can they report it.
\<close>

theorem takedown_hides:
  assumes guard: "guard_ok (mo_guard env) enf (Some (NewSharesLookup parse (pw_db w)))" and parse: "\<forall>i. parse (ag_str (mo_guard env) i) = Some i"
    and ok: "specimens_ok (pw_db w)" and id: "uuid_Parse (mo_tc env) rawID = Some i"
    and envs: "se_guard senv = mo_guard env" "se_tc senv = mo_tc env" "pe_guard penv = mo_guard env"
  shows "case takedown env u rawID reason (pw_db w) of
      Inl _ \<Rightarrow> \<nexists>s. SpecimenPostgres_GetByID (pw_db w) i = Inr s \<and> ownerScope u (sp_AuthorID s)
    | Inr (_, d') \<Rightarrow> \<exists>s. SpecimenPostgres_GetByID (pw_db w) i = Inr s \<and> ownerScope u (sp_AuthorID s) \<and> taken_down i (pw_db w) d' \<and>
        (\<forall>v. outsider (pw_db w) v s \<longrightarrow>
          specimen_get senv v rawID d' = Inl no_such_specimen \<and>
          (\<forall>b. rs_Reason b \<in> set reportReasons \<longrightarrow> report env v rawID b d' = Inl no_such_specimen) \<and>
          (\<forall>raw p photo inm sfx. uuid_Parse (pe_tc penv) raw = Some p \<and> PhotoPostgres_GetByID d' p = Inr photo \<and> ph_SpecimenID photo = i \<longrightarrow>
            serveDownload penv v raw inm sfx (w\<lparr>pw_db := d'\<rparr>) = DownloadError no_such_photo))"
proof (cases "SpecimenPostgres_GetByID (pw_db w) i")
  case (Inl e)
  then show ?thesis using takedown_spec [OF guard ok id, of u reason] by simp
next
  case (Inr s)
  let ?d = "pw_db w" and ?g = "mo_guard env"
  show ?thesis
  proof (cases "ownerScope u (sp_AuthorID s)")
    case False
    then show ?thesis using takedown_spec [OF guard ok id, of u reason] Inr by simp
  next
    case True
    obtain out d' where run: "takedown env u rawID reason ?d = Inr (out, d')" and down: "taken_down i ?d d'"
      using takedown_spec [OF guard ok id, of u reason] Inr True by auto
    have guard': "guard_ok ?g enf (Some (NewSharesLookup parse d'))"
    proof -
      have "NewSharesLookup parse d' = NewSharesLookup parse ?d"
        by (intro ext) (simp add: NewSharesLookup_def taken_down_shares [OF down] split: option.split)
      then show ?thesis using guard by simp
    qed
    have row: "SpecimenPostgres_GetByID d' i = Inr (takedown_row s)" using down Inr by (simp add: taken_down_def)
    have priv: "sp_Visibility (takedown_row s) = VisibilityPrivate" by (simp add: takedown_row_def)
    have closed: "specimen_get senv v rawID d' = Inl no_such_specimen \<and>
          (\<forall>b. rs_Reason b \<in> set reportReasons \<longrightarrow> report env v rawID b d' = Inl no_such_specimen) \<and>
          (\<forall>raw p photo inm sfx. uuid_Parse (pe_tc penv) raw = Some p \<and> PhotoPostgres_GetByID d' p = Inr photo \<and> ph_SpecimenID photo = i \<longrightarrow>
            serveDownload penv v raw inm sfx (w\<lparr>pw_db := d'\<rparr>) = DownloadError no_such_photo)"
      if "outsider ?d v s" for v
    proof (intro conjI allI impI)
      have out: "outsider d' v (takedown_row s)"
        using that taken_down_shares [OF down] by (simp add: outsider_def takedown_row_def)
      have scope: "\<not> specimenAccessScope d' v (takedown_row s)" by (rule outsider_scope [OF out priv])
      show "specimen_get senv v rawID d' = Inl no_such_specimen"
        by (rule specimen_get_hidden [OF _ _ _ row scope]) (use guard' parse id envs in simp_all)
      show "report env v rawID b d' = Inl no_such_specimen" if "rs_Reason b \<in> set reportReasons" for b
        using report_spec [OF guard' parse id that, of v] row scope by simp
      fix raw p photo inm sfx
      assume photo: "uuid_Parse (pe_tc penv) raw = Some p \<and> PhotoPostgres_GetByID d' p = Inr photo \<and> ph_SpecimenID photo = i"
      show "serveDownload penv v raw inm sfx (w\<lparr>pw_db := d'\<rparr>) = DownloadError no_such_photo"
      proof (rule serveDownload_hidden)
        show "guard_active (pe_guard penv)" using guard envs by (simp add: guard_ok_def guard_active_def)
        show "uuid_Parse (pe_tc penv) raw = Some p" using photo by simp
        show "\<forall>res ae. guard_check (pe_guard penv) v res ''view'' = Some ae \<longrightarrow> err_Status ae = 403"
        proof (intro allI impI)
          fix res ae
          assume "guard_check (pe_guard penv) v res ''view'' = Some ae"
          then have "ae = newAPIError 403 ''forbidden'' ''you do not have permission to perform this action'' []"
            using guard_ok_denies [OF guard', of "''view''" v res ae] envs by simp
          then show "err_Status ae = 403" by (simp add: newAPIError_def)
        qed
        show "\<nexists>q. PhotoPostgres_GetByID (pw_db (w\<lparr>pw_db := d'\<rparr>)) p = Inr q \<and> may_see_photo penv v (pw_db (w\<lparr>pw_db := d'\<rparr>)) q"
          using photo row outsider_guard [OF guard' parse out priv] envs by (auto simp: may_see_photo_def)
      qed
    qed
    show ?thesis using run down Inr True closed by simp
  qed
qed

definition sample_moderation_env :: "(nat, unit) moderation_env" where
  "sample_moderation_env = \<lparr>mo_guard = \<lparr>ag_enforcer = Some (model_eval DefaultGroupings (Some (NewSharesLookup (uuid_Parse plain_codec) empty_database)) DefaultPolicies),
     ag_str = uuid_hex\<rparr>, mo_tc = plain_codec, mo_photos = sample_photo_env, mo_newID = 60\<rparr>"

definition reported :: database where
  "reported = empty_database\<lparr>db_users := [User_zero\<lparr>us_ID := 7\<rparr>],
     db_specimens := [Specimen_zero\<lparr>sp_ID := 20, sp_AuthorID := 7, sp_Type := ''mineral'', sp_Visibility := VisibilityPublic\<rparr>]\<rparr>"

theorem takedown_hides_witness:
  "\<exists>out d'. takedown sample_moderation_env (auth_User_zero\<lparr>u_ID := 8, u_Roles := [''admin'']\<rparr>) (uuid_hex 20) [] reported = Inr (out, d') \<and>
    specimen_get (sample_env\<lparr>se_guard := mo_guard sample_moderation_env\<rparr>) auth_User_zero (uuid_hex 20) d' = Inl no_such_specimen"
proof -
  let ?env = sample_moderation_env let ?w = "\<lparr>pw_db = reported, pw_objects = Map.empty\<rparr>"
  let ?admin = "auth_User_zero\<lparr>u_ID := 8, u_Roles := [''admin'']\<rparr>" let ?sh = "Some (NewSharesLookup (uuid_Parse plain_codec) reported)"
  have sh: "NewSharesLookup (uuid_Parse plain_codec) empty_database = NewSharesLookup (uuid_Parse plain_codec) reported"
    by (intro ext) (simp add: NewSharesLookup_def reported_def empty_database_def split: option.split)
  have "casbin_enforcer (model_eval DefaultGroupings ?sh DefaultPolicies) DefaultPolicies DefaultGroupings ?sh"
    by (rule model.casbin_enforcer_axioms)
  then have g: "guard_ok (mo_guard ?env) (model_eval DefaultGroupings ?sh DefaultPolicies) (Some (NewSharesLookup (uuid_Parse plain_codec) (pw_db ?w)))"
    using hex.uuid_text_axioms NewSharesLookup_total by (simp add: guard_ok_def sample_moderation_env_def sh)
  have parse: "uuid_Parse plain_codec (uuid_hex i) = Some i" for i using plain.uuid_back [of i] by (simp add: plain_codec_def)
  have p: "\<forall>i. uuid_Parse plain_codec (ag_str (mo_guard ?env) i) = Some i" "uuid_Parse (mo_tc ?env) (uuid_hex 20) = Some 20"
    by (simp_all add: parse sample_moderation_env_def)
  have ok: "specimens_ok (pw_db ?w)"
    by (simp add: specimens_ok_def reported_def empty_database_def enums_ok_def specimenTypes_def visibilities_def
        Specimen_zero_def fk_ok_def refs_def main_image_refs_def)
  have row: "SpecimenPostgres_GetByID (pw_db ?w) 20 = Inr (Specimen_zero\<lparr>sp_ID := 20, sp_AuthorID := 7, sp_Type := ''mineral'', sp_Visibility := VisibilityPublic\<rparr>)"
    by (simp add: SpecimenPostgres_GetByID_def reported_def)
  have out: "outsider (pw_db ?w) auth_User_zero (Specimen_zero\<lparr>sp_ID := 20, sp_AuthorID := 7, sp_Type := ''mineral'', sp_Visibility := VisibilityPublic\<rparr>)"
    by (simp add: outsider_def ownerScope_def isAdmin_def isAnonymous_def auth_User_zero_def reported_def empty_database_def)
  have adm: "ownerScope ?admin 7" by (simp add: ownerScope_def isAdmin_def)
  note t = takedown_hides [OF g p(1) ok p(2), where u = ?admin and reason = "[]" and penv = "sample_photo_env\<lparr>pe_guard := mo_guard ?env\<rparr>"
      and senv = "sample_env\<lparr>se_guard := mo_guard ?env\<rparr>"]
  show ?thesis
  proof (cases "takedown ?env ?admin (uuid_hex 20) [] (pw_db ?w)")
    case (Inl e)
    then show ?thesis using t row adm by (simp add: sample_env_def sample_moderation_env_def)
  next
    case (Inr r)
    then obtain o1 d' where r: "takedown ?env ?admin (uuid_hex 20) [] (pw_db ?w) = Inr (o1, d')" by (cases r) auto
    then show ?thesis using t row out by (simp add: sample_env_def sample_moderation_env_def) 
  qed
qed

section \<open>Removals\<close>

text \<open>The operator's removals are the ordinary ones with an event: they change what these change, and fail when these fail.\<close>

lemma removePhoto_is_delete:
  assumes "guard_active (mo_guard env)" and "pe_guard (mo_photos env) = mo_guard env" and "pe_tc (mo_photos env) = mo_tc env"
  shows "snd (removePhoto env u rawID reason w) = snd (photo_delete (mo_photos env) u rawID w) \<and>
    isl (fst (removePhoto env u rawID reason w)) = isl (fst (photo_delete (mo_photos env) u rawID w))"
proof (cases "parseUUID (uuid_Parse (mo_tc env)) rawID ''id''")
  case (Inr i)
  note i = Inr
  show ?thesis
  proof (cases "PhotoPostgres_GetByID (pw_db w) i")
    case (Inr p)
    note p = Inr
    show ?thesis
    proof (cases "SpecimenPostgres_GetByID (pw_db w) (ph_SpecimenID p)")
      case (Inr sp)
      then show ?thesis using assms i p
        by (cases "guard_check (mo_guard env) u (photoResource (ag_str (mo_guard env)) (ph_ID p) sp) ''delete''";
            cases "removePhotoBytes (mo_photos env) p w"; cases "fst (removePhotoBytes (mo_photos env) p w)")
          (simp_all add: removePhoto_def photo_delete_def enforcePhoto_def as_error_def)
    qed (use assms i p in \<open>simp add: removePhoto_def photo_delete_def enforcePhoto_def as_error_def\<close>)
  qed (use assms i in \<open>simp add: removePhoto_def photo_delete_def\<close>)
qed (use assms in \<open>simp add: removePhoto_def photo_delete_def\<close>)

lemma removePhoto_keeps:
  assumes "uniform_text (pe_str (mo_photos env))" and "photo_world_ok (mo_photos env) w"
    and "guard_active (mo_guard env)" "pe_guard (mo_photos env) = mo_guard env" "pe_tc (mo_photos env) = mo_tc env"
  shows "photo_world_ok (mo_photos env) (snd (removePhoto env u rawID reason w))"
proof -
  obtain r w' where run: "photo_delete (mo_photos env) u rawID w = (r, w')" by (cases "photo_delete (mo_photos env) u rawID w")
  have "photo_world_ok (mo_photos env) w'" by (rule photo_delete_keeps [OF assms(1,2) run])
  then show ?thesis using removePhoto_is_delete [OF assms(3-5), of u rawID reason w] run by simp
qed

lemma removeJournal_is_delete:
  assumes "jn_guard jenv = mo_guard env" and "jn_tc jenv = mo_tc env"
  shows "map_sum id snd (removeJournal env u rawID reason d) = journal_delete jenv u rawID d"
proof (cases "parseUUID (uuid_Parse (mo_tc env)) rawID ''id''")
  case (Inr i)
  note i = Inr
  show ?thesis
  proof (cases "JournalEntry_GetByID d i")
    case (Inr e)
    then show ?thesis using assms i
      by (cases "guard_check (mo_guard env) u (journalResource (ag_str (mo_guard env)) e) ''delete''"; cases "JournalEntry_Delete i d")
        (simp_all add: removeJournal_def journal_delete_def as_error_def)
  qed (use assms i in \<open>simp add: removeJournal_def journal_delete_def\<close>)
qed (use assms in \<open>simp add: removeJournal_def journal_delete_def\<close>)

end
