(* ===== verification/AdminConsole.thy ===== *)
theory AdminConsole
  imports Journal AdminSuspend BFFHandlers
begin

text \<open>
  The operator's console: its manifest and the two lists over all accounts (\<open>src/internal/api/admin.go\<close>,
  \<open>src/internal/db/admin_postgres.go\<close>), and the registration toggle (\<open>src/internal/api/registration.go\<close>,
  \<open>src/internal/db/settings_postgres.go\<close>) with its effect on the gate of \<open>/auth/register\<close>.
\<close>

section \<open>The lists over all accounts\<close>

text \<open>What the console shows of an account: nothing that identifies the person beyond the chosen name.\<close>

record AdminUser =
  nu_ID :: uuid
  nu_DisplayName :: "string option"
  nu_Status :: UserStatus
  nu_SpecimenCount :: nat
  nu_PhotoCount :: nat
  nu_JournalCount :: nat
  nu_CreatedAt :: time

definition count_where :: "('a \<Rightarrow> bool) \<Rightarrow> 'a list \<Rightarrow> nat" where
  "count_where P xs = length (filter P xs)"

definition admin_user :: "database \<Rightarrow> User \<Rightarrow> AdminUser" where
  "admin_user d u =
     \<lparr>nu_ID = us_ID u, nu_DisplayName = us_DisplayName u, nu_Status = us_Status u,
      nu_SpecimenCount = count_where (\<lambda>s. sp_AuthorID s = us_ID u) (db_specimens d),
      nu_PhotoCount = count_where (\<lambda>(p, s). ph_SpecimenID p = sp_ID s \<and> sp_AuthorID s = us_ID u) (List.product (db_photos d) (db_specimens d)),
      nu_JournalCount = count_where (\<lambda>j. je_AuthorID j = us_ID u) (db_journal d),
      nu_CreatedAt = us_CreatedAt u\<rparr>"

definition ListUsers :: "'r text_codec \<Rightarrow> Page \<Rightarrow> database \<Rightarrow> list_error + AdminUser list \<times> string" where
  "ListUsers tc page d =
     keyset_list (\<lambda>a. (nu_CreatedAt a, nu_ID a)) (\<lambda>a. EncodeCursor tc (nu_CreatedAt a) (nu_ID a)) (DecodeCursor tc)
       (map (admin_user d) (db_users d)) (clampLimit (pg_Limit page)) (pg_Cursor page)"

datatype AdminContentKind = AdminContentSpecimen | AdminContentPhoto | AdminContentJournal

record AdminContent =
  ct_Kind :: AdminContentKind
  ct_ID :: uuid
  ct_SpecimenID :: uuid
  ct_Title :: string
  ct_Preview :: string
  ct_Visibility :: Visibility
  ct_OwnerID :: uuid
  ct_OwnerDisplayName :: "string option"
  ct_CreatedAt :: time

text \<open>\<open>left(s, n)\<close>: the first characters of a UTF-8 text, a character being a byte that is no continuation byte and those after it.\<close>

fun left_chars :: "nat \<Rightarrow> string \<Rightarrow> string" where
  "left_chars n [] = []"
| "left_chars n (c # cs) =
     (if 128 \<le> (of_char c :: nat) \<and> (of_char c :: nat) < 192 then c # left_chars n cs
      else case n of 0 \<Rightarrow> [] | Suc m \<Rightarrow> c # left_chars m cs)"

definition published :: "Specimen \<Rightarrow> bool" where
  "published s \<longleftrightarrow> sp_Visibility s \<in> {VisibilityPublic, VisibilityUnlisted}"

text \<open>The joins: the specimen of a row and the account of its author, both by primary key.\<close>

definition anchor :: "database \<Rightarrow> uuid \<Rightarrow> (Specimen \<times> User) option" where
  "anchor d sid =
     (case find (\<lambda>s. sp_ID s = sid) (db_specimens d) of
        None \<Rightarrow> None
      | Some s \<Rightarrow> map_option (Pair s) (find (\<lambda>u. us_ID u = sp_AuthorID s) (db_users d)))"

definition specimen_item :: "database \<Rightarrow> Specimen \<Rightarrow> AdminContent option" where
  "specimen_item d s =
     (case anchor d (sp_ID s) of
        Some (_, u) \<Rightarrow>
          if published s
          then Some \<lparr>ct_Kind = AdminContentSpecimen, ct_ID = sp_ID s, ct_SpecimenID = sp_ID s, ct_Title = sp_Name s, ct_Preview = [],
            ct_Visibility = sp_Visibility s, ct_OwnerID = sp_AuthorID s, ct_OwnerDisplayName = us_DisplayName u, ct_CreatedAt = sp_CreatedAt s\<rparr>
          else None
      | None \<Rightarrow> None)"

definition photo_item :: "database \<Rightarrow> Photo \<Rightarrow> AdminContent option" where
  "photo_item d p =
     (case anchor d (ph_SpecimenID p) of
        Some (s, u) \<Rightarrow>
          if published s \<and> ph_Visibility p \<noteq> Some VisibilityPrivate
          then Some \<lparr>ct_Kind = AdminContentPhoto, ct_ID = ph_ID p, ct_SpecimenID = ph_SpecimenID p, ct_Title = sp_Name s, ct_Preview = [],
            ct_Visibility = (case ph_Visibility p of Some v \<Rightarrow> v | None \<Rightarrow> sp_Visibility s), ct_OwnerID = sp_AuthorID s,
            ct_OwnerDisplayName = us_DisplayName u, ct_CreatedAt = ph_CreatedAt p\<rparr>
          else None
      | None \<Rightarrow> None)"

definition journal_item :: "database \<Rightarrow> JournalEntry \<Rightarrow> AdminContent option" where
  "journal_item d j =
     (case anchor d (je_SpecimenID j) of
        Some (s, u) \<Rightarrow>
          if published s
          then Some \<lparr>ct_Kind = AdminContentJournal, ct_ID = je_ID j, ct_SpecimenID = je_SpecimenID j, ct_Title = sp_Name s,
            ct_Preview = left_chars 200 (je_BodyMD j), ct_Visibility = sp_Visibility s, ct_OwnerID = sp_AuthorID s,
            ct_OwnerDisplayName = us_DisplayName u, ct_CreatedAt = je_CreatedAt j\<rparr>
          else None
      | None \<Rightarrow> None)"

definition published_feed :: "database \<Rightarrow> AdminContent list" where
  "published_feed d = List.map_filter (specimen_item d) (db_specimens d) @ List.map_filter (photo_item d) (db_photos d) @
     List.map_filter (journal_item d) (db_journal d)"

definition ListPublishedContent :: "'r text_codec \<Rightarrow> Page \<Rightarrow> database \<Rightarrow> list_error + AdminContent list \<times> string" where
  "ListPublishedContent tc page d =
     keyset_list (\<lambda>c. (ct_CreatedAt c, ct_ID c)) (\<lambda>c. EncodeCursor tc (ct_CreatedAt c) (ct_ID c)) (DecodeCursor tc)
       (published_feed d) (clampLimit (pg_Limit page)) (pg_Cursor page)"

section \<open>The endpoints\<close>

text \<open>Which surfaces are wired, and the codec of cursors.\<close>

record 'r admin_env =
  ad_guard :: authzGuard
  ad_tc :: "'r text_codec"
  ad_incidentRegisterWired :: bool
  ad_admin :: bool
  ad_registrationToggleWired :: bool
  ad_moderationWired :: bool

record adminConsoleSection =
  as_Key :: string
  as_Title :: string
  as_Status :: string

text \<open>The section descriptions are constant prose and left out.\<close>

definition adminConsoleSections :: "adminConsoleSection list" where
  "adminConsoleSections =
     [\<lparr>as_Key = ''users'', as_Title = ''Users (non-personal)'', as_Status = ''planned''\<rparr>,
      \<lparr>as_Key = ''published-content'', as_Title = ''Published content review'', as_Status = ''planned''\<rparr>,
      \<lparr>as_Key = ''moderation'', as_Title = ''Moderation'', as_Status = ''planned''\<rparr>,
      \<lparr>as_Key = ''incident-register'', as_Title = ''Confidentiality-incident register'', as_Status = ''planned''\<rparr>,
      \<lparr>as_Key = ''site-management'', as_Title = ''Site management'', as_Status = ''planned''\<rparr>]"

definition sections :: "'r admin_env \<Rightarrow> adminConsoleSection list" where
  "sections env = map (\<lambda>s.
     if as_Key s = ''incident-register'' \<and> ad_incidentRegisterWired env
       \<or> (as_Key s = ''users'' \<or> as_Key s = ''published-content'') \<and> ad_admin env
       \<or> as_Key s = ''site-management'' \<and> ad_registrationToggleWired env
       \<or> as_Key s = ''moderation'' \<and> ad_moderationWired env
     then s\<lparr>as_Status := ''available''\<rparr> else s) adminConsoleSections"

definition overview :: "'r admin_env \<Rightarrow> auth_User \<Rightarrow> apiError + adminConsoleSection list" where
  "overview env u = sum_bind (as_error (guard_check (ad_guard env) u adminConsoleResource ''view'')) (\<lambda>_. Inr (sections env))"

text \<open>The breadcrumb of a view: surface, actor, roles and the number of rows shown.\<close>

record view_event =
  ve_surface :: string
  ve_actor :: string
  ve_roles :: "string list"
  ve_count :: nat

definition auditView :: "'r admin_env \<Rightarrow> auth_User \<Rightarrow> string \<Rightarrow> nat \<Rightarrow> view_event" where
  "auditView env u surface n =
     \<lparr>ve_surface = surface, ve_actor = (if u_ID u \<noteq> uuid_Nil then ag_str (ad_guard env) (u_ID u) else ''unknown''),
      ve_roles = u_Roles u, ve_count = n\<rparr>"

definition listUsers ::
  "'r admin_env \<Rightarrow> auth_User \<Rightarrow> Page \<Rightarrow> database \<Rightarrow> apiError + (AdminUser list \<times> string option) \<times> view_event" where
  "listUsers env u page d =
     sum_bind (as_error (guard_check (ad_guard env) u adminConsoleResource ''view'')) (\<lambda>_.
     sum_bind (map_sum mapListError id (ListUsers (ad_tc env) page d)) (\<lambda>(rows, cursor).
     Inr ((rows, if cursor = [] then None else Some cursor), auditView env u ''users'' (length rows))))"

definition listPublishedContent ::
  "'r admin_env \<Rightarrow> auth_User \<Rightarrow> Page \<Rightarrow> database \<Rightarrow> apiError + (AdminContent list \<times> string option) \<times> view_event" where
  "listPublishedContent env u page d =
     sum_bind (as_error (guard_check (ad_guard env) u adminConsoleResource ''view'')) (\<lambda>_.
     sum_bind (map_sum mapListError id (ListPublishedContent (ad_tc env) page d)) (\<lambda>(rows, cursor).
     Inr ((rows, if cursor = [] then None else Some cursor), auditView env u ''published-content'' (length rows))))"

section \<open>The registration toggle\<close>

record app_setting =
  st_Value :: string
  st_UpdatedAt :: time
  st_UpdatedBy :: "uuid option"

type_synonym app_settings = "string \<rightharpoonup> app_setting"

definition settingRegistrationEnabled :: string where
  "settingRegistrationEnabled = ''registration_enabled''"

text \<open>Reading and writing the row; \<open>down\<close> is the error of a statement that fails.\<close>

definition RegistrationEnabled :: "repo_error option \<Rightarrow> app_settings \<Rightarrow> repo_error + (bool \<times> bool)" where
  "RegistrationEnabled down t =
     (case down of
        Some e \<Rightarrow> Inl e
      | None \<Rightarrow> (case t settingRegistrationEnabled of None \<Rightarrow> Inr (False, False) | Some r \<Rightarrow> Inr (st_Value r = ''true'', True)))"

definition SetRegistrationEnabled :: "repo_error option \<Rightarrow> time \<Rightarrow> bool \<Rightarrow> uuid \<Rightarrow> app_settings \<Rightarrow> repo_error + app_settings" where
  "SetRegistrationEnabled down now enabled actor t =
     (case down of
        Some e \<Rightarrow> Inl e
      | None \<Rightarrow> Inr (t(settingRegistrationEnabled \<mapsto>
          \<lparr>st_Value = (if enabled then ''true'' else ''false''), st_UpdatedAt = now,
           st_UpdatedBy = (if actor \<noteq> uuid_Nil then Some actor else None)\<rparr>)))"

text \<open>The realm's own flag changes by its syncer, which reports an error or none and may have acted either way.\<close>

record 'k registration_env =
  rg_guard :: authzGuard
  rg_realmSync :: "('k \<Rightarrow> bool \<Rightarrow> string option \<times> 'k) option"
  rg_defaultEnabled :: bool
  rg_readError :: "repo_error option"
  rg_writeError :: "repo_error option"
  rg_now :: time

datatype registration_event = RealmSyncFailed bool | PersistFailed bool | RegistrationChanged bool bool string

record 'k registration_world =
  rw_settings :: app_settings
  rw_realm :: 'k
  rw_log :: "registration_event list"

record registrationStateBody =
  gs_Enabled :: bool
  gs_Source :: string

record setRegistrationResultBody =
  gr_Enabled :: bool
  gr_RealmSynced :: bool

definition get_registration :: "'k registration_env \<Rightarrow> auth_User \<Rightarrow> app_settings \<Rightarrow> apiError + registrationStateBody" where
  "get_registration env u t =
     sum_bind (as_error (guard_check (rg_guard env) u adminConsoleResource ''view'')) (\<lambda>_.
     sum_bind (map_sum (\<lambda>_. newAPIError 500 ''internal_error'' ''failed to read registration setting'' []) id
       (RegistrationEnabled (rg_readError env) t)) (\<lambda>(enabled, found).
     Inr (if found then \<lparr>gs_Enabled = enabled, gs_Source = ''stored''\<rparr> else \<lparr>gs_Enabled = rg_defaultEnabled env, gs_Source = ''default''\<rparr>)))"

definition persist_registration ::
  "'k registration_env \<Rightarrow> auth_User \<Rightarrow> bool \<Rightarrow> bool \<Rightarrow> 'k registration_world \<Rightarrow> (apiError + setRegistrationResultBody) \<times> 'k registration_world" where
  "persist_registration env u enabled realmSynced w =
     (case SetRegistrationEnabled (rg_writeError env) (rg_now env) enabled (u_ID u) (rw_settings w) of
        Inl _ \<Rightarrow> (Inl (newAPIError 500 ''internal_error'' ''failed to persist registration setting'' []),
                  w\<lparr>rw_log := rw_log w @ [PersistFailed enabled]\<rparr>)
      | Inr t \<Rightarrow> (Inr \<lparr>gr_Enabled = enabled, gr_RealmSynced = realmSynced\<rparr>,
                  w\<lparr>rw_settings := t, rw_log := rw_log w @ [RegistrationChanged enabled realmSynced
                    (if u_ID u \<noteq> uuid_Nil then ag_str (rg_guard env) (u_ID u) else ''unknown'')]\<rparr>))"

definition set_registration ::
  "'k registration_env \<Rightarrow> auth_User \<Rightarrow> bool \<Rightarrow> 'k registration_world \<Rightarrow> (apiError + setRegistrationResultBody) \<times> 'k registration_world" where
  "set_registration env u enabled w =
     (case guard_check (rg_guard env) u adminConsoleResource ''edit'' of
        Some e \<Rightarrow> (Inl e, w)
      | None \<Rightarrow>
          (case rg_realmSync env of
             None \<Rightarrow> persist_registration env u enabled False w
           | Some sync \<Rightarrow>
               (case sync (rw_realm w) enabled of
                  (Some _, k) \<Rightarrow>
                    (Inl (newAPIError 502 ''realm_sync_failed'' ''failed to sync the identity provider; the toggle was not changed'' []),
                     w\<lparr>rw_realm := k, rw_log := rw_log w @ [RealmSyncFailed enabled]\<rparr>)
                | (None, k) \<Rightarrow> persist_registration env u enabled True (w\<lparr>rw_realm := k\<rparr>))))"

section \<open>Who may open the console\<close>

definition console_viewer :: "auth_User \<Rightarrow> bool" where
  "console_viewer u \<longleftrightarrow> set (u_Roles u) \<inter> {''admin'', ''devops-viewer'', ''devops-admin''} \<noteq> {}"

definition console_editor :: "auth_User \<Rightarrow> bool" where
  "console_editor u \<longleftrightarrow> set (u_Roles u) \<inter> {''admin'', ''devops-admin''} \<noteq> {}"

lemma console_roles:
  "set (au_Roles (authzUser str u)) - {''user'', ''anonymous''} = set (u_Roles u) - {''user'', ''anonymous''}"
  using authzUser_roles [of str u] authzUser_keeps_roles [of u str] by blast

lemma roles_meet:
  assumes "''user'' \<notin> R" and "''anonymous'' \<notin> R"
  shows "(\<exists>r\<in>set (au_Roles (authzUser str u)). r \<in> R) \<longleftrightarrow> set (u_Roles u) \<inter> R \<noteq> {}"
proof -
  have gen: "(\<exists>r\<in>X. r \<in> R) \<longleftrightarrow> Y \<inter> R \<noteq> {}" if "X - {a, b} = Y - {a, b}" "a \<notin> R" "b \<notin> R" for X Y :: "string set" and a b
    using that by blast
  show ?thesis by (rule gen [OF console_roles assms])
qed

lemma console_check:
  assumes "guard_ok g enf shares"
  shows "guard_check g u adminConsoleResource ''view'' = None \<longleftrightarrow> console_viewer u"
    and "guard_check g u adminConsoleResource ''edit'' = None \<longleftrightarrow> console_editor u"
proof -
  let ?a = "authzUser (ag_str g) u"
  have view: "granted shares r (au_ID ?a) adminConsoleResource ''view'' \<longleftrightarrow> r \<in> {''admin'', ''devops-viewer'', ''devops-admin''}" for r
    by (simp add: granted_def adminConsoleResource_def)
  have edit: "granted shares r (au_ID ?a) adminConsoleResource ''edit'' \<longleftrightarrow> r \<in> {''admin'', ''devops-admin''}" for r
    by (simp add: granted_def adminConsoleResource_def)
  have hidden: "r_Visibility adminConsoleResource = []" by (simp add: adminConsoleResource_def)
  show "guard_check g u adminConsoleResource ''view'' = None \<longleftrightarrow> console_viewer u"
    using guard_ok_check [OF assms, of "''view''" u adminConsoleResource] roles_meet [of "{''admin'', ''devops-viewer'', ''devops-admin''}" "ag_str g" u]
    unfolding view hidden console_viewer_def by simp
  show "guard_check g u adminConsoleResource ''edit'' = None \<longleftrightarrow> console_editor u"
    using guard_ok_check [OF assms, of "''edit''" u adminConsoleResource] roles_meet [of "{''admin'', ''devops-admin''}" "ag_str g" u]
    unfolding edit hidden console_editor_def by simp
qed

section \<open>The feed\<close>

definition published_id :: "database \<Rightarrow> uuid \<Rightarrow> bool" where
  "published_id d i \<longleftrightarrow> (\<exists>s\<in>set (db_specimens d). sp_ID s = i \<and> published s)"

lemma find_by_id:
  assumes "distinct (map f xs)" and "x \<in> set xs" and "f x = i"
  shows "find (\<lambda>y. f y = i) xs = Some x"
  using assms by (induction xs) (auto simp: rev_image_eqI)

text \<open>With primary keys and references in order no join loses or doubles a row.\<close>

lemma anchor_row:
  assumes "keys_ok d" and "fk_ok d" and "s \<in> set (db_specimens d)"
  shows "\<exists>u. anchor d (sp_ID s) = Some (s, u) \<and> us_ID u = sp_AuthorID s"
proof -
  have keys: "distinct (map sp_ID (db_specimens d))" "distinct (map us_ID (db_users d))" using assms(1) by (simp_all add: keys_ok_def users_ok_def)
  have "refs sp_AuthorID (db_specimens d) us_ID (db_users d)" using assms(2) by (simp add: fk_ok_def)
  then obtain u where u: "u \<in> set (db_users d)" "us_ID u = sp_AuthorID s" using assms(3) unfolding refs_def by force
  have "find (\<lambda>x. sp_ID x = sp_ID s) (db_specimens d) = Some s" by (rule find_by_id [OF keys(1) assms(3) refl])
  moreover have "find (\<lambda>x. us_ID x = sp_AuthorID s) (db_users d) = Some u" by (rule find_by_id [OF keys(2) u])
  ultimately show ?thesis using u(2) by (simp add: anchor_def)
qed

lemma anchor_published:
  assumes "keys_ok d" and "fk_ok d" and "sid \<in> sp_ID ` set (db_specimens d)"
  shows "\<exists>s u. anchor d sid = Some (s, u) \<and> sp_ID s = sid \<and> (published s \<longleftrightarrow> published_id d sid)"
proof -
  obtain s where s: "s \<in> set (db_specimens d)" "sp_ID s = sid" using assms(3) by blast
  obtain u where "anchor d sid = Some (s, u)" using anchor_row [OF assms(1,2) s(1)] s(2) by auto
  moreover have "published s \<longleftrightarrow> published_id d sid"
  proof -
    have "inj_on sp_ID (set (db_specimens d))" using assms(1) by (simp add: keys_ok_def distinct_map)
    then show ?thesis using s unfolding published_id_def by (metis inj_onD)
  qed
  ultimately show ?thesis using s(2) by blast
qed

lemma map_filter_names:
  assumes "\<And>x. x \<in> set xs \<Longrightarrow> (P x \<longrightarrow> (\<exists>y. f x = Some y \<and> g y = h x)) \<and> (\<not> P x \<longrightarrow> f x = None)"
  shows "map g (List.map_filter f xs) = map h (filter P xs)"
  using assms
proof (induction xs)
  case (Cons x xs)
  have "map g (List.map_filter f xs) = map h (filter P xs)" by (rule Cons.IH) (simp add: Cons.prems)
  moreover have "(P x \<longrightarrow> (\<exists>y. f x = Some y \<and> g y = h x)) \<and> (\<not> P x \<longrightarrow> f x = None)" by (rule Cons.prems) simp
  ultimately show ?case by (cases "P x") (auto simp: List.map_filter_simps)
qed (simp add: List.map_filter_simps)

text \<open>What the feed lists: every published specimen, and of each its photos that are not private and its journal entries.\<close>

definition feed_name :: "AdminContent \<Rightarrow> AdminContentKind \<times> uuid \<times> uuid" where
  "feed_name c = (ct_Kind c, ct_ID c, ct_SpecimenID c)"

lemma feed_rows:
  assumes "keys_ok d" and "fk_ok d"
  shows "map feed_name (published_feed d) =
    map (\<lambda>s. (AdminContentSpecimen, sp_ID s, sp_ID s)) (filter published (db_specimens d)) @
    map (\<lambda>p. (AdminContentPhoto, ph_ID p, ph_SpecimenID p)) (filter (\<lambda>p. published_id d (ph_SpecimenID p) \<and> ph_Visibility p \<noteq> Some VisibilityPrivate) (db_photos d)) @
    map (\<lambda>j. (AdminContentJournal, je_ID j, je_SpecimenID j)) (filter (\<lambda>j. published_id d (je_SpecimenID j)) (db_journal d))"
proof -
  have fk: "refs ph_SpecimenID (db_photos d) sp_ID (db_specimens d)" "refs je_SpecimenID (db_journal d) sp_ID (db_specimens d)"
    using assms(2) by (simp_all add: fk_ok_def)
  have spec: "map feed_name (List.map_filter (specimen_item d) (db_specimens d)) =
      map (\<lambda>s. (AdminContentSpecimen, sp_ID s, sp_ID s)) (filter published (db_specimens d))"
    by (rule map_filter_names) (use anchor_row [OF assms] in \<open>fastforce simp: specimen_item_def feed_name_def\<close>)
  moreover have "map feed_name (List.map_filter (photo_item d) (db_photos d)) =
      map (\<lambda>p. (AdminContentPhoto, ph_ID p, ph_SpecimenID p)) (filter (\<lambda>p. published_id d (ph_SpecimenID p) \<and> ph_Visibility p \<noteq> Some VisibilityPrivate) (db_photos d))"
  proof (rule map_filter_names)
    fix p
    assume "p \<in> set (db_photos d)"
    then have "ph_SpecimenID p \<in> sp_ID ` set (db_specimens d)" using fk(1) by (auto simp: refs_def)
    from anchor_published [OF assms this] obtain s u where "anchor d (ph_SpecimenID p) = Some (s, u)" "published s \<longleftrightarrow> published_id d (ph_SpecimenID p)" by blast
    then show "(published_id d (ph_SpecimenID p) \<and> ph_Visibility p \<noteq> Some VisibilityPrivate \<longrightarrow>
          (\<exists>y. photo_item d p = Some y \<and> feed_name y = (AdminContentPhoto, ph_ID p, ph_SpecimenID p))) \<and>
        (\<not> (published_id d (ph_SpecimenID p) \<and> ph_Visibility p \<noteq> Some VisibilityPrivate) \<longrightarrow> photo_item d p = None)"
      by (simp add: photo_item_def feed_name_def)
  qed
  moreover have "map feed_name (List.map_filter (journal_item d) (db_journal d)) =
      map (\<lambda>j. (AdminContentJournal, je_ID j, je_SpecimenID j)) (filter (\<lambda>j. published_id d (je_SpecimenID j)) (db_journal d))"
  proof (rule map_filter_names)
    fix j
    assume "j \<in> set (db_journal d)"
    then have "je_SpecimenID j \<in> sp_ID ` set (db_specimens d)" using fk(2) by (auto simp: refs_def)
    from anchor_published [OF assms this] obtain s u where "anchor d (je_SpecimenID j) = Some (s, u)" "published s \<longleftrightarrow> published_id d (je_SpecimenID j)" by blast
    then show "(published_id d (je_SpecimenID j) \<longrightarrow> (\<exists>y. journal_item d j = Some y \<and> feed_name y = (AdminContentJournal, je_ID j, je_SpecimenID j))) \<and>
        (\<not> published_id d (je_SpecimenID j) \<longrightarrow> journal_item d j = None)"
      by (simp add: journal_item_def feed_name_def)
  qed
  ultimately show ?thesis by (simp add: published_feed_def)
qed

text \<open>A client of the endpoint that follows its cursors.\<close>

definition next_page :: "apiError + ('a list \<times> string option) \<times> view_event \<Rightarrow> apiError + 'a list \<times> string" where
  "next_page r = map_sum id (\<lambda>((rows, cursor), _). (rows, case cursor of None \<Rightarrow> [] | Some c \<Rightarrow> c)) r"

lemma next_page_list:
  assumes "guard_check (ad_guard env) u adminConsoleResource ''view'' = None"
  shows "next_page (listPublishedContent env u page d) = map_sum mapListError id (ListPublishedContent (ad_tc env) page d)"
    and "next_page (listUsers env u page d) = map_sum mapListError id (ListUsers (ad_tc env) page d)"
  by (cases "ListPublishedContent (ad_tc env) page d"; auto simp: listPublishedContent_def next_page_def assms as_error_def)
     (cases "ListUsers (ad_tc env) page d"; auto simp: listUsers_def next_page_def assms as_error_def)

lemma walk_map_sum: "walk n (\<lambda>c. map_sum f id (g c)) c = walk n g c"
  by (induction n arbitrary: c) (auto split: sum.split)

lemma console_feed:
  assumes "guard_ok (ad_guard env) enf shares" and "text_forms (ad_tc env)" and "distinct (map ct_ID (published_feed d))"
    and "\<forall>c\<in>set (published_feed d). time_marshals (ct_CreatedAt c) \<and> ct_ID c \<noteq> uuid_Nil"
  shows "if console_viewer u
    then \<exists>ps. walk (Suc (length (published_feed d))) (\<lambda>c. next_page (listPublishedContent env u \<lparr>pg_Limit = l, pg_Cursor = c\<rparr> d)) [] = Some ps \<and>
      concat ps = order_desc (\<lambda>c. (ct_CreatedAt c, ct_ID c)) (published_feed d)
    else \<forall>page. listPublishedContent env u page d = Inl (newAPIError 403 ''forbidden'' ''you do not have permission to perform this action'' [])"
proof (cases "console_viewer u")
  case True
  then have ok: "guard_check (ad_guard env) u adminConsoleResource ''view'' = None" using console_check(1) [OF assms(1)] by simp
  show ?thesis
    using created_walk [OF assms(2,3,4), of "\<lambda>_. True" l] True
    by (simp add: next_page_list(1) [OF ok] walk_map_sum ListPublishedContent_def)
next
  case False
  then obtain ae where ae: "guard_check (ad_guard env) u adminConsoleResource ''view'' = Some ae" using console_check(1) [OF assms(1), of u] by auto
  have "ae = newAPIError 403 ''forbidden'' ''you do not have permission to perform this action'' []"
    by (rule guard_ok_denies [OF assms(1) _ ae]) simp
  then show ?thesis using False ae by (simp add: listPublishedContent_def as_error_def)
qed

section \<open>The toggle and the gate\<close>

text \<open>What the gate of the registration page answers.\<close>

definition gate_open :: "'k registration_env \<Rightarrow> app_settings \<Rightarrow> bool" where
  "gate_open env t = registrationGate (RegistrationEnabled (rg_readError env) t) (rg_defaultEnabled env)"

lemma set_registration_outcome:
  assumes "guard_ok (rg_guard env) enf shares" and "set_registration env u enabled w = (r, w')" and "rg_readError env = None"
  shows "case r of
      Inr b \<Rightarrow> console_editor u \<and> gr_Enabled b = enabled \<and> gate_open env (rw_settings w') = enabled \<and>
        (case rg_realmSync env of
           None \<Rightarrow> \<not> gr_RealmSynced b \<and> rw_realm w' = rw_realm w
         | Some sync \<Rightarrow> gr_RealmSynced b \<and> sync (rw_realm w) enabled = (None, rw_realm w'))
    | Inl e \<Rightarrow> rw_settings w' = rw_settings w \<and> (\<not> console_editor u \<longrightarrow> w' = w) \<and>
        (console_editor u \<longrightarrow> err_Status e = 502 \<or> err_Status e = 500 \<and> rg_writeError env \<noteq> None)"
proof (cases "guard_check (rg_guard env) u adminConsoleResource ''edit''")
  case (Some ae)
  then show ?thesis using assms(2) console_check(2) [OF assms(1), of u] by (auto simp: set_registration_def)
next
  case None
  then have ed: "console_editor u" using console_check(2) [OF assms(1), of u] by simp
  have gate: "gate_open env (t(settingRegistrationEnabled \<mapsto> \<lparr>st_Value = (if enabled then ''true'' else ''false''), st_UpdatedAt = x, st_UpdatedBy = y\<rparr>)) = enabled" for t x y
    using assms(3) by (simp add: gate_open_def RegistrationEnabled_def registrationGate_def)
  show ?thesis
  proof (cases "rg_realmSync env")
    case None
    then show ?thesis
      using assms(2) \<open>guard_check (rg_guard env) u adminConsoleResource ''edit'' = None\<close> ed gate
      by (cases "rg_writeError env") (auto simp: set_registration_def persist_registration_def SetRegistrationEnabled_def newAPIError_def)
  next
    case (Some sync)
    obtain e k where sync: "sync (rw_realm w) enabled = (e, k)" by (cases "sync (rw_realm w) enabled")
    then show ?thesis
      using Some assms(2) None ed gate
      by (cases e; cases "rg_writeError env") (auto simp: set_registration_def persist_registration_def SetRegistrationEnabled_def newAPIError_def)
  qed
qed

text \<open>The stored value is written after the realm: when that write fails, the realm has changed and the application has not.\<close>

lemma persist_failure_leaves_realm:
  assumes "guard_check (rg_guard env) u adminConsoleResource ''edit'' = None" and "rg_realmSync env = Some (\<lambda>_ b. (None, b))" and "rg_writeError env = Some e"
  shows "\<exists>w'. set_registration env u enabled w = (Inl (newAPIError 500 ''internal_error'' ''failed to persist registration setting'' []), w') \<and>
    rw_realm w' = enabled \<and> rw_settings w' = rw_settings w"
  using assms by (simp add: set_registration_def persist_registration_def SetRegistrationEnabled_def)

text \<open>
  The feed resolves a photo by its own override or its specimen only: a photo that its specimen keeps private
  by \<open>visibility_images\<close> is listed as public. Journal entries, which only their author and administrators may
  read, are listed with the beginning of their text.
\<close>

lemma feed_lists_hidden_photo:
  "\<exists>d c p s. c \<in> set (published_feed d) \<and> p \<in> set (db_photos d) \<and> s \<in> set (db_specimens d) \<and> ph_SpecimenID p = sp_ID s \<and>
     ct_ID c = ph_ID p \<and> ct_Visibility c = VisibilityPublic \<and> res_Visibility (ResolveImage s User_zero p) = VisibilityPrivate"
proof -
  let ?s = "Specimen_zero\<lparr>sp_ID := 1, sp_AuthorID := 7, sp_Visibility := VisibilityPublic, sp_VisibilityImages := Some VisibilityPrivate\<rparr>"
  let ?p = "\<lparr>ph_ID = 2, ph_SpecimenID = 1, ph_FileID = 3, ph_Kind = [], ph_TakenAt = None, ph_Position = 0, ph_Visibility = None, ph_CreatedAt = 0\<rparr>"
  let ?d = "empty_database\<lparr>db_users := [User_zero\<lparr>us_ID := 7\<rparr>], db_specimens := [?s], db_photos := [?p]\<rparr>"
  have item: "photo_item ?d ?p = Some \<lparr>ct_Kind = AdminContentPhoto, ct_ID = 2, ct_SpecimenID = 1, ct_Title = sp_Name ?s, ct_Preview = [],
      ct_Visibility = VisibilityPublic, ct_OwnerID = 7, ct_OwnerDisplayName = us_DisplayName User_zero, ct_CreatedAt = 0\<rparr>" (is "_ = Some ?c")
    by (simp add: photo_item_def anchor_def published_def)
  have "?c \<in> set (published_feed ?d)" using item by (simp add: published_feed_def List.map_filter_simps)
  moreover have "res_Visibility (ResolveImage ?s User_zero ?p) = VisibilityPrivate" by (simp add: ResolveImage_def)
  ultimately show ?thesis by (intro exI [of _ ?d] exI [of _ ?c] exI [of _ ?p] exI [of _ ?s]) simp
qed

end
