(* ===== verification/Profile.thy ===== *)
theory Profile
  imports AuthFlow TypeData SpecimenService "HOL-Library.Multiset"
begin

text \<open>
  The caller's own profile (\<open>src/internal/api/profile.go\<close>): first-login setup, reading, and the partial update
  of the display name, the per-field defaults and the default visibility of new specimens. The raw JSON of the
  two patches keeps absent, null and a value apart. An error the handlers do not map is answered by huma's
  500 envelope.
\<close>

section \<open>Views\<close>

definition MaxDisplayNameLen :: nat where "MaxDisplayNameLen = 80"

definition fieldDefaultsKeys :: "string list" where
  "fieldDefaultsKeys = [''acquired_at'', ''acquired_from'', ''catalog_number'', ''images'', ''price'']"

definition validVisibilityValues :: "string list" where
  "validVisibilityValues = [''private'', ''public'', ''unlisted'']"

record fieldDefaultsView =
  fv_Price :: "Visibility option"
  fv_AcquiredFrom :: "Visibility option"
  fv_AcquiredAt :: "Visibility option"
  fv_CatalogNumber :: "Visibility option"
  fv_Images :: "Visibility option"

definition toFieldDefaultsView :: "FieldDefaults option \<Rightarrow> fieldDefaultsView option" where
  "toFieldDefaultsView fd = map_option (\<lambda>f. \<lparr>fv_Price = fd_Price f, fv_AcquiredFrom = fd_AcquiredFrom f,
     fv_AcquiredAt = fd_AcquiredAt f, fv_CatalogNumber = fd_CatalogNumber f, fv_Images = fd_Images f\<rparr>) fd"

record profileBody =
  pf_ID :: string
  pf_Email :: string
  pf_DisplayName :: string
  pf_Pending :: bool
  pf_Roles :: "string list"
  pf_FieldDefaults :: "fieldDefaultsView option"
  pf_DefaultSpecimenVisibility :: "Visibility option"

text \<open>The text form of identifiers, Go quoting, the iteration order of a Go map, and the clock.\<close>

record profile_env =
  pr_str :: "uuid \<Rightarrow> string"
  pr_vc :: value_codec
  pr_order :: "(string \<times> json) list \<Rightarrow> (string \<times> json) list"
  pr_now :: time

definition toProfileBody :: "(uuid \<Rightarrow> string) \<Rightarrow> User \<Rightarrow> profileBody" where
  "toProfileBody str u =
     \<lparr>pf_ID = str (us_ID u), pf_Email = us_Email u, pf_DisplayName = (case us_DisplayName u of None \<Rightarrow> [] | Some n \<Rightarrow> n),
      pf_Pending = (us_Status u = UserStatusPending), pf_Roles = [], pf_FieldDefaults = toFieldDefaultsView (us_FieldDefaults u),
      pf_DefaultSpecimenVisibility = us_DefaultSpecimenVisibility u\<rparr>"

section \<open>Errors\<close>

definition not_authenticated :: apiError where
  "not_authenticated = newAPIError 401 ''unauthorized'' ''authentication required'' []"

definition unexpected_error :: apiError where
  "unexpected_error = newAPIError 500 ''internal_error'' ''unexpected error occurred'' []"

definition user_error :: "repo_error \<Rightarrow> apiError" where
  "user_error err =
     (if err = Domain ErrUserNotFound then newAPIError 404 ''user_not_found'' ''user record disappeared'' [] else unexpected_error)"

definition display_name :: "string \<Rightarrow> apiError + string" where
  "display_name raw =
     (let name = trimSpace raw in
      if name = [] then Inl (newAPIError 400 ''invalid_display_name'' ''display_name is required'' [(''field'', ''display_name'')])
      else if length name > MaxDisplayNameLen then
        Inl (newAPIError 400 ''invalid_display_name'' ''display_name exceeds the maximum length'' [(''field'', ''display_name''), (''max'', ''80'')])
      else Inr name)"

section \<open>Merging the defaults\<close>

definition setFieldDefaultsKey :: "string \<Rightarrow> Visibility option \<Rightarrow> FieldDefaults \<Rightarrow> FieldDefaults" where
  "setFieldDefaultsKey key v fd =
     (if key = ''price'' then fd\<lparr>fd_Price := v\<rparr>
      else if key = ''acquired_from'' then fd\<lparr>fd_AcquiredFrom := v\<rparr>
      else if key = ''acquired_at'' then fd\<lparr>fd_AcquiredAt := v\<rparr>
      else if key = ''catalog_number'' then fd\<lparr>fd_CatalogNumber := v\<rparr>
      else if key = ''images'' then fd\<lparr>fd_Images := v\<rparr>
      else fd)"

fun joined :: "string list \<Rightarrow> string" where
  "joined [] = []"
| "joined [s] = s"
| "joined (s # t # ss) = s @ '', '' @ joined (t # ss)"

text \<open>One entry of the patch: a key of the closed set, with null or a visibility.\<close>

definition merge_entry :: "value_codec \<Rightarrow> string \<times> json \<Rightarrow> FieldDefaults \<Rightarrow> apiError + FieldDefaults" where
  "merge_entry vc kv fd =
     (let key = fst kv in
      if key \<notin> set fieldDefaultsKeys then
        Inl (newAPIError 400 ''invalid_field_defaults''
          (''field_defaults: unknown key '' @ vq_Quote vc key @ ''; allowed keys are '' @ joined fieldDefaultsKeys)
          [(''field'', ''field_defaults''), (''key'', key), (''allowed'', joined fieldDefaultsKeys)])
      else case snd kv of
        JNull \<Rightarrow> Inr (setFieldDefaultsKey key None fd)
      | JStr v \<Rightarrow>
          if validVisibility v then Inr (setFieldDefaultsKey key (Some v) fd)
          else Inl (newAPIError 400 ''invalid_field_defaults''
            (''field_defaults.'' @ key @ '': '' @ vq_Quote vc v @ '' is not a valid Visibility; allowed values are '' @ joined validVisibilityValues)
            [(''field'', ''field_defaults''), (''key'', key), (''allowed'', joined validVisibilityValues)])
      | _ \<Rightarrow> Inl (newAPIError 400 ''invalid_field_defaults'' (''field_defaults.'' @ key @ '': value must be a Visibility string'')
            [(''field'', ''field_defaults''), (''key'', key)]))"

fun merge_entries :: "value_codec \<Rightarrow> (string \<times> json) list \<Rightarrow> FieldDefaults \<Rightarrow> apiError + FieldDefaults" where
  "merge_entries vc [] fd = Inr fd"
| "merge_entries vc (kv # kvs) fd = sum_bind (merge_entry vc kv fd) (merge_entries vc kvs)"

definition FieldDefaults_zero :: FieldDefaults where
  "FieldDefaults_zero = \<lparr>fd_Price = None, fd_AcquiredFrom = None, fd_AcquiredAt = None, fd_CatalogNumber = None, fd_Images = None\<rparr>"

definition mergeFieldDefaults :: "profile_env \<Rightarrow> FieldDefaults option \<Rightarrow> string \<Rightarrow> apiError + FieldDefaults option" where
  "mergeFieldDefaults env current patchBytes =
     (case unmarshal_map patchBytes of
        None \<Rightarrow> Inl (newAPIError 400 ''invalid_field_defaults'' ''field_defaults must be a JSON object'' [(''field'', ''field_defaults'')])
      | Some patch \<Rightarrow>
          map_sum id (\<lambda>merged. if merged = FieldDefaults_zero then None else Some merged)
            (merge_entries (pr_vc env) (pr_order env patch) (case current of None \<Rightarrow> FieldDefaults_zero | Some fd \<Rightarrow> fd)))"

section \<open>The handlers\<close>

definition complete ::
  "'s UserRepo \<Rightarrow> profile_env \<Rightarrow> auth_User \<Rightarrow> string \<Rightarrow> 's \<Rightarrow> (apiError + profileBody) \<times> 's" where
  "complete R env u rawName s =
     (case sum_bind (ensure (u_Sub u \<noteq> []) not_authenticated) (\<lambda>_.
           sum_bind (display_name rawName) (\<lambda>name.
           sum_bind (map_sum user_error id (ur_GetBySub R s (u_Sub u))) (\<lambda>full.
           sum_bind (map_sum user_error id (ur_MarkActive R s (us_ID full) name (pr_now env))) (\<lambda>s'.
           Inr (\<lparr>pf_ID = pr_str env (us_ID full), pf_Email = us_Email full, pf_DisplayName = name, pf_Pending = False,
                 pf_Roles = u_Roles u, pf_FieldDefaults = None, pf_DefaultSpecimenVisibility = None\<rparr>, s'))))) of
        Inl e \<Rightarrow> (Inl e, s)
      | Inr (body, s') \<Rightarrow> (Inr body, s'))"

definition get_profile :: "'s UserRepo \<Rightarrow> profile_env \<Rightarrow> auth_User \<Rightarrow> 's \<Rightarrow> apiError + profileBody" where
  "get_profile R env u s =
     sum_bind (ensure (u_Sub u \<noteq> []) not_authenticated) (\<lambda>_.
     sum_bind (map_sum user_error id (ur_GetBySub R s (u_Sub u))) (\<lambda>full.
     Inr ((toProfileBody (pr_str env) full)\<lparr>pf_Roles := u_Roles u\<rparr>)))"

text \<open>The body of a patch: an absent key is \<open>None\<close> or the empty text.\<close>

record profilePatchBody =
  pp_DisplayName :: "string option"
  pp_FieldDefaults :: string
  pp_DefaultSpecimenVisibility :: string

text \<open>The three parts of a patch, each validated and written before the next is looked at.\<close>

definition patch_name :: "'s UserRepo \<Rightarrow> profile_env \<Rightarrow> profilePatchBody \<Rightarrow> User \<times> 's \<Rightarrow> apiError + User \<times> 's" where
  "patch_name R env b = (\<lambda>(full, s).
     (case pp_DisplayName b of
        None \<Rightarrow> Inr (full, s)
      | Some raw \<Rightarrow>
          sum_bind (display_name raw) (\<lambda>name.
          sum_bind (map_sum user_error id (ur_UpdateDisplayName R s (us_ID full) name (pr_now env))) (\<lambda>s'.
          Inr (full\<lparr>us_DisplayName := Some name, us_UpdatedAt := pr_now env\<rparr>, s')))))"

definition patch_defaults :: "'s UserRepo \<Rightarrow> profile_env \<Rightarrow> profilePatchBody \<Rightarrow> User \<times> 's \<Rightarrow> apiError + User \<times> 's" where
  "patch_defaults R env b = (\<lambda>(full, s).
     (let patchBytes = bytesTrimSpace (pp_FieldDefaults b) in
      if patchBytes = [] then Inr (full, s)
      else if patchBytes = ''null'' then
        Inl (newAPIError 400 ''invalid_field_defaults''
          (''field_defaults: null is not allowed at the top level '' @ [CHR 0xE2, CHR 0x80, CHR 0x94] @ '' omit the key to leave unchanged'')
          [(''field'', ''field_defaults'')])
      else
        sum_bind (mergeFieldDefaults env (us_FieldDefaults full) patchBytes) (\<lambda>merged.
        sum_bind (map_sum user_error id (ur_UpdateFieldDefaults R s (us_ID full) merged (pr_now env))) (\<lambda>s'.
        Inr (full\<lparr>us_FieldDefaults := merged, us_UpdatedAt := pr_now env\<rparr>, s')))))"

definition new_default_visibility :: "profile_env \<Rightarrow> string \<Rightarrow> apiError + Visibility option" where
  "new_default_visibility env visBytes =
     (if visBytes = ''null'' then Inr None
      else case json_parse visBytes of
        Some (JStr v) \<Rightarrow>
          if validVisibility v then Inr (Some v)
          else Inl (newAPIError 400 ''invalid_default_specimen_visibility''
            (''default_specimen_visibility: '' @ vq_Quote (pr_vc env) v @ '' is not a valid Visibility; allowed values are '' @ joined validVisibilityValues)
            [(''field'', ''default_specimen_visibility''), (''allowed'', joined validVisibilityValues)])
      | _ \<Rightarrow> Inl (newAPIError 400 ''invalid_default_specimen_visibility''
            ''default_specimen_visibility must be a Visibility string or null'' [(''field'', ''default_specimen_visibility'')]))"

definition patch_visibility :: "'s UserRepo \<Rightarrow> profile_env \<Rightarrow> profilePatchBody \<Rightarrow> User \<times> 's \<Rightarrow> apiError + User \<times> 's" where
  "patch_visibility R env b = (\<lambda>(full, s).
     (let visBytes = bytesTrimSpace (pp_DefaultSpecimenVisibility b) in
      if visBytes = [] then Inr (full, s)
      else
        sum_bind (new_default_visibility env visBytes) (\<lambda>newVis.
        sum_bind (map_sum user_error id (ur_UpdateDefaultSpecimenVisibility R s (us_ID full) newVis (pr_now env))) (\<lambda>s'.
        Inr (full\<lparr>us_DefaultSpecimenVisibility := newVis, us_UpdatedAt := pr_now env\<rparr>, s')))))"

definition profile_patch ::
  "'s UserRepo \<Rightarrow> profile_env \<Rightarrow> auth_User \<Rightarrow> profilePatchBody \<Rightarrow> 's \<Rightarrow> (apiError + profileBody) \<times> 's" where
  "profile_patch R env u b s =
     (case sum_bind (ensure (u_Sub u \<noteq> []) not_authenticated) (\<lambda>_. map_sum user_error id (ur_GetBySub R s (u_Sub u))) of
        Inl e \<Rightarrow> (Inl e, s)
      | Inr full \<Rightarrow>
     (case patch_name R env b (full, s) of
        Inl e \<Rightarrow> (Inl e, s)
      | Inr (full1, s1) \<Rightarrow>
     (case patch_defaults R env b (full1, s1) of
        Inl e \<Rightarrow> (Inl e, s1)
      | Inr (full2, s2) \<Rightarrow>
     (case patch_visibility R env b (full2, s2) of
        Inl e \<Rightarrow> (Inl e, s2)
      | Inr (full3, s3) \<Rightarrow> (Inr ((toProfileBody (pr_str env) full3)\<lparr>pf_Roles := u_Roles u\<rparr>), s3)))))"

section \<open>The merge\<close>

definition fd_field :: "Field \<Rightarrow> FieldDefaults \<Rightarrow> Visibility option" where
  "fd_field f fd = (case f of FieldPrice \<Rightarrow> fd_Price fd | FieldAcquiredFrom \<Rightarrow> fd_AcquiredFrom fd | FieldAcquiredAt \<Rightarrow> fd_AcquiredAt fd
     | FieldCatalogNumber \<Rightarrow> fd_CatalogNumber fd | FieldImages \<Rightarrow> fd_Images fd)"

lemma ownerDefault_field: "ownerDefault f u = Option.bind (us_FieldDefaults u) (fd_field f)"
  by (cases f; cases "us_FieldDefaults u") (simp_all add: ownerDefault_def fd_field_def)

lemma setFieldDefaultsKey_field:
  "fd_field f (setFieldDefaultsKey (Field_String g) v fd) = (if f = g then v else fd_field f fd)"
  by (cases f; cases g) (simp_all add: fd_field_def setFieldDefaultsKey_def Field_String_def)

lemma Field_String_inject [simp]: "Field_String f = Field_String g \<longleftrightarrow> f = g"
  by (cases f; cases g) (simp_all add: Field_String_def)

lemma keys_are_fields: "k \<in> set fieldDefaultsKeys \<longleftrightarrow> (\<exists>g. k = Field_String g)"
proof
  assume "k \<in> set fieldDefaultsKeys"
  then have "k = Field_String FieldAcquiredAt \<or> k = Field_String FieldAcquiredFrom \<or> k = Field_String FieldCatalogNumber \<or>
      k = Field_String FieldImages \<or> k = Field_String FieldPrice"
    by (simp add: fieldDefaultsKeys_def Field_String_def)
  then show "\<exists>g. k = Field_String g" by blast
next
  assume "\<exists>g. k = Field_String g"
  then obtain g where "k = Field_String g" ..
  then show "k \<in> set fieldDefaultsKeys" by (cases g) (simp_all add: fieldDefaultsKeys_def Field_String_def)
qed

text \<open>What an entry may be, and what the entries of a patch make of one field.\<close>

definition entry_ok :: "string \<times> json \<Rightarrow> bool" where
  "entry_ok kv \<longleftrightarrow> fst kv \<in> set fieldDefaultsKeys \<and> (snd kv = JNull \<or> (\<exists>v. snd kv = JStr v \<and> validVisibility v))"

definition patched_value :: "(string \<times> json) list \<Rightarrow> Field \<Rightarrow> Visibility option \<Rightarrow> Visibility option" where
  "patched_value kvs f old =
     (case map_of kvs (Field_String f) of None \<Rightarrow> old | Some (JStr v) \<Rightarrow> Some v | Some _ \<Rightarrow> None)"

definition entry_value :: "json \<Rightarrow> Visibility option" where
  "entry_value j = (case j of JStr v \<Rightarrow> Some v | _ \<Rightarrow> None)"

lemma merge_entry_Inr:
  "merge_entry vc kv fd = Inr fd' \<longleftrightarrow> entry_ok kv \<and> fd' = setFieldDefaultsKey (fst kv) (entry_value (snd kv)) fd"
  by (cases "snd kv") (auto simp: merge_entry_def entry_ok_def entry_value_def Let_def)

lemma merge_entry_Inl: "merge_entry vc kv fd = Inl e \<Longrightarrow> err_Status e = 400"
  by (cases "snd kv") (auto simp: merge_entry_def newAPIError_def Let_def split: if_splits)

lemma merge_entries_Inl: "merge_entries vc kvs fd = Inl e \<Longrightarrow> err_Status e = 400"
proof (induction kvs arbitrary: fd)
  case (Cons kv kvs)
  then show ?case by (cases "merge_entry vc kv fd") (auto dest: merge_entry_Inl)
qed simp

lemma merge_entries_ok: "isl (merge_entries vc kvs fd) \<longleftrightarrow> \<not> list_all entry_ok kvs"
proof (induction kvs arbitrary: fd)
  case (Cons kv kvs)
  show ?case
  proof (cases "merge_entry vc kv fd")
    case (Inl e)
    then have "\<not> entry_ok kv" using merge_entry_Inr [of vc kv fd "setFieldDefaultsKey (fst kv) (entry_value (snd kv)) fd"] by auto
    then show ?thesis using Inl by simp
  next
    case (Inr fd')
    then have "entry_ok kv" using merge_entry_Inr [of vc kv fd fd'] by simp
    then show ?thesis using Inr Cons.IH by simp
  qed
qed simp

lemma merge_entries_field:
  assumes "merge_entries vc kvs fd = Inr fd'" and "distinct (map fst kvs)"
  shows "fd_field f fd' = patched_value kvs f (fd_field f fd)"
  using assms
proof (induction kvs arbitrary: fd)
  case Nil
  then show ?case by (simp add: patched_value_def)
next
  case (Cons kv kvs)
  obtain k v where kv: "kv = (k, v)" by (cases kv)
  obtain fd1 where fd1: "merge_entry vc kv fd = Inr fd1" and rest: "merge_entries vc kvs fd1 = Inr fd'"
    using Cons.prems(1) by (auto simp: sum_bind_Inr)
  have ok: "entry_ok kv" "fd1 = setFieldDefaultsKey k (entry_value v) fd" using fd1 kv merge_entry_Inr [of vc kv fd fd1] by simp_all
  then obtain g where g: "k = Field_String g" using kv keys_are_fields [of k] by (auto simp: entry_ok_def)
  have ih: "fd_field f fd' = patched_value kvs f (fd_field f fd1)" using Cons.IH [OF rest] Cons.prems(2) by simp
  show ?case
  proof (cases "f = g")
    case True
    then have "map_of kvs (Field_String f) = None" using Cons.prems(2) kv g by (simp add: map_of_eq_None_iff)
    then have "fd_field f fd' = entry_value v" using ih ok(2) True by (simp add: patched_value_def setFieldDefaultsKey_field g)
    moreover have "patched_value (kv # kvs) f (fd_field f fd) = entry_value v"
      using True kv g by (cases v) (simp_all add: patched_value_def entry_value_def)
    ultimately show ?thesis by simp
  next
    case False
    then have "fd_field f fd1 = fd_field f fd" "Field_String f \<noteq> k" using ok(2) g by (simp_all add: setFieldDefaultsKey_field)
    then show ?thesis using ih kv by (simp add: patched_value_def)
  qed
qed

text \<open>The order in which the map is visited does not matter.\<close>

lemma mergeFieldDefaults_field:
  assumes "mergeFieldDefaults env cur bs = Inr merged" and "\<forall>m. mset (pr_order env m) = mset m"
  shows "\<exists>kvs. unmarshal_map bs = Some kvs \<and> list_all entry_ok kvs \<and>
    (\<forall>f. Option.bind merged (fd_field f) = patched_value kvs f (Option.bind cur (fd_field f))) \<and> merged \<noteq> Some FieldDefaults_zero"
proof -
  obtain kvs fd where kvs: "unmarshal_map bs = Some kvs"
    and fd: "merge_entries (pr_vc env) (pr_order env kvs) (case cur of None \<Rightarrow> FieldDefaults_zero | Some x \<Rightarrow> x) = Inr fd"
    and merged: "merged = (if fd = FieldDefaults_zero then None else Some fd)"
    using assms(1) by (auto simp: mergeFieldDefaults_def map_sum_def split: option.splits sum.splits)
  let ?ks = "pr_order env kvs"
  have perm: "mset ?ks = mset kvs" using assms(2) by simp
  have dist: "distinct (map fst kvs)" using unmarshal_map_ok(1) [OF kvs] .
  then have dist': "distinct (map fst ?ks)" using perm by (metis mset_map mset_eq_imp_distinct_iff)
  have "map_of ?ks = map_of kvs"
    using dist dist' perm by (metis map_of_inject_set mset_eq_setD)
  then have val: "patched_value ?ks f old = patched_value kvs f old" for f old by (simp add: patched_value_def)
  have zero: "fd_field f FieldDefaults_zero = None" for f by (cases f) (simp_all add: fd_field_def FieldDefaults_zero_def)
  have cur: "fd_field f (case cur of None \<Rightarrow> FieldDefaults_zero | Some x \<Rightarrow> x) = Option.bind cur (fd_field f)" for f
    by (cases cur) (simp_all add: zero)
  have "Option.bind merged (fd_field f) = fd_field f fd" for f by (simp add: merged zero)
  then have "Option.bind merged (fd_field f) = patched_value kvs f (Option.bind cur (fd_field f))" for f
    using merge_entries_field [OF fd dist', of f] by (simp add: val cur)
  moreover have "list_all entry_ok kvs"
    using merge_entries_ok [of "pr_vc env" ?ks "case cur of None \<Rightarrow> FieldDefaults_zero | Some x \<Rightarrow> x"] fd mset_eq_setD [OF perm]
    by (simp add: list_all_iff)
  ultimately show ?thesis using kvs by (auto simp: merged)
qed

section \<open>The row\<close>

definition put_user :: "users \<Rightarrow> uuid \<Rightarrow> User \<Rightarrow> users" where
  "put_user t i row = map (\<lambda>r. if us_ID r = i then row else r) t"

lemma put_user_self:
  assumes "users_ok t" and "r \<in> set t"
  shows "put_user t (us_ID r) r = t"
proof -
  have "inj_on us_ID (set t)" using assms(1) by (simp add: users_ok_def distinct_map)
  then have "(if us_ID x = us_ID r then r else x) = x" if "x \<in> set t" for x using that assms(2) by (auto dest: inj_onD)
  then show ?thesis unfolding put_user_def by (intro map_idI) simp
qed

lemma update_put:
  assumes "i \<in> us_ID ` set t" and "us_ID row = i"
  shows "update_user (put_user t i row) i f = Inr (put_user t i (f row))"
  using assms by (auto simp: update_user_def put_user_def)

text \<open>What identifies an account and says whether it may be used.\<close>

definition same_account :: "User \<Rightarrow> User \<Rightarrow> bool" where
  "same_account a b \<longleftrightarrow> us_ID a = us_ID b \<and> us_KeycloakSub a = us_KeycloakSub b \<and> us_Email a = us_Email b \<and>
     us_Status a = us_Status b \<and> us_CreatedAt a = us_CreatedAt b"

definition given_defaults :: "profilePatchBody \<Rightarrow> bool" where
  "given_defaults b \<longleftrightarrow> bytesTrimSpace (pp_FieldDefaults b) \<noteq> []"

definition given_visibility :: "profilePatchBody \<Rightarrow> bool" where
  "given_visibility b \<longleftrightarrow> bytesTrimSpace (pp_DefaultSpecimenVisibility b) \<noteq> []"

text \<open>Each part, once accepted, of the row alone.\<close>

definition named :: "profilePatchBody \<Rightarrow> User \<Rightarrow> User \<Rightarrow> bool" where
  "named b r r' \<longleftrightarrow> same_account r r' \<and> us_FieldDefaults r' = us_FieldDefaults r \<and> us_DefaultSpecimenVisibility r' = us_DefaultSpecimenVisibility r \<and>
     (case pp_DisplayName b of None \<Rightarrow> r' = r
      | Some raw \<Rightarrow> us_DisplayName r' = Some (trimSpace raw) \<and> trimSpace raw \<noteq> [] \<and> length (trimSpace raw) \<le> MaxDisplayNameLen)"

definition defaulted :: "profilePatchBody \<Rightarrow> User \<Rightarrow> User \<Rightarrow> bool" where
  "defaulted b r r' \<longleftrightarrow> same_account r r' \<and> us_DisplayName r' = us_DisplayName r \<and> us_DefaultSpecimenVisibility r' = us_DefaultSpecimenVisibility r \<and>
     (if given_defaults b
      then us_FieldDefaults r' \<noteq> Some FieldDefaults_zero \<and>
        (\<exists>kvs. unmarshal_map (bytesTrimSpace (pp_FieldDefaults b)) = Some kvs \<and> list_all entry_ok kvs \<and>
           (\<forall>f. ownerDefault f r' = patched_value kvs f (ownerDefault f r)))
      else r' = r)"

definition visible_by_default :: "profilePatchBody \<Rightarrow> User \<Rightarrow> User \<Rightarrow> bool" where
  "visible_by_default b r r' \<longleftrightarrow> same_account r r' \<and> us_DisplayName r' = us_DisplayName r \<and> us_FieldDefaults r' = us_FieldDefaults r \<and>
     (if given_visibility b
      then (let v = bytesTrimSpace (pp_DefaultSpecimenVisibility b) in
        case us_DefaultSpecimenVisibility r' of None \<Rightarrow> v = ''null'' | Some x \<Rightarrow> json_parse v = Some (JStr x) \<and> validVisibility x)
      else r' = r)"

lemma display_name_Inr: "display_name raw = Inr n \<longleftrightarrow> n = trimSpace raw \<and> n \<noteq> [] \<and> length n \<le> MaxDisplayNameLen"
  by (auto simp: display_name_def Let_def)

lemma display_name_Inl: "display_name raw = Inl e \<Longrightarrow> err_Status e = 400"
  by (auto simp: display_name_def Let_def newAPIError_def split: if_splits)

lemma patch_name_row:
  assumes "i \<in> us_ID ` set t" and "us_ID r = i"
  shows "(\<exists>r'. patch_name UserPostgres env b (r, put_user t i r) = Inr (r', put_user t i r') \<and> named b r r') \<or>
    (\<exists>e. patch_name UserPostgres env b (r, put_user t i r) = Inl e \<and> err_Status e = 400)"
proof (cases "pp_DisplayName b")
  case None
  then show ?thesis by (auto simp: patch_name_def named_def same_account_def)
next
  case (Some raw)
  show ?thesis
  proof (cases "display_name raw")
    case (Inl e)
    then show ?thesis using Some display_name_Inl by (simp add: patch_name_def)
  next
    case (Inr n)
    then have n: "n = trimSpace raw" "n \<noteq> []" "length n \<le> MaxDisplayNameLen" using display_name_Inr by auto
    let ?r = "r\<lparr>us_DisplayName := Some n, us_UpdatedAt := pr_now env\<rparr>"
    have "patch_name UserPostgres env b (r, put_user t i r) = Inr (?r, put_user t i ?r)"
      by (simp add: patch_name_def Some Inr UserPostgres_def UpdateDisplayName_def update_put [OF assms] assms(2))
    moreover have "named b r ?r" using n by (simp add: named_def same_account_def Some)
    ultimately show ?thesis by blast
  qed
qed

lemma mergeFieldDefaults_Inl: "mergeFieldDefaults env cur bs = Inl e \<Longrightarrow> err_Status e = 400"
  by (auto simp: mergeFieldDefaults_def newAPIError_def map_sum_def split: option.splits sum.splits dest: merge_entries_Inl)

lemma patch_defaults_row:
  assumes "i \<in> us_ID ` set t" and "us_ID r = i" and "\<forall>m. mset (pr_order env m) = mset m"
  shows "(\<exists>r'. patch_defaults UserPostgres env b (r, put_user t i r) = Inr (r', put_user t i r') \<and> defaulted b r r') \<or>
    (\<exists>e. patch_defaults UserPostgres env b (r, put_user t i r) = Inl e \<and> err_Status e = 400)"
proof -
  let ?bs = "bytesTrimSpace (pp_FieldDefaults b)"
  consider "?bs = []" | "?bs = ''null''" | "?bs \<noteq> []" "?bs \<noteq> ''null''" by blast
  then show ?thesis
  proof cases
    case 1
    then show ?thesis by (auto simp: patch_defaults_def defaulted_def given_defaults_def same_account_def)
  next
    case 2
    then show ?thesis by (simp add: patch_defaults_def newAPIError_def)
  next
    case 3
    show ?thesis
    proof (cases "mergeFieldDefaults env (us_FieldDefaults r) ?bs")
      case (Inl e)
      then show ?thesis using 3 mergeFieldDefaults_Inl [OF Inl] by (simp add: patch_defaults_def)
    next
      case (Inr merged)
      let ?r = "r\<lparr>us_FieldDefaults := merged, us_UpdatedAt := pr_now env\<rparr>"
      have "defaulted b r ?r"
        using mergeFieldDefaults_field [OF Inr assms(3)] 3
        by (auto simp: defaulted_def given_defaults_def same_account_def ownerDefault_field)
      moreover have "patch_defaults UserPostgres env b (r, put_user t i r) = Inr (?r, put_user t i ?r)"
        using 3 Inr by (simp add: patch_defaults_def UserPostgres_def UpdateFieldDefaults_def update_put [OF assms(1,2)] assms(2))
      ultimately show ?thesis by blast
    qed
  qed
qed

lemma new_default_visibility_cases:
  "(\<exists>e. new_default_visibility env v = Inl e \<and> err_Status e = 400) \<or>
   (\<exists>x. new_default_visibility env v = Inr x \<and> (case x of None \<Rightarrow> v = ''null'' | Some y \<Rightarrow> json_parse v = Some (JStr y) \<and> validVisibility y))"
proof (cases "v = ''null''")
  case False
  then show ?thesis by (cases "json_parse v"; cases "the (json_parse v)") (auto simp: new_default_visibility_def newAPIError_def)
qed (simp add: new_default_visibility_def)

lemma patch_visibility_row:
  assumes "i \<in> us_ID ` set t" and "us_ID r = i"
  shows "(\<exists>r'. patch_visibility UserPostgres env b (r, put_user t i r) = Inr (r', put_user t i r') \<and> visible_by_default b r r') \<or>
    (\<exists>e. patch_visibility UserPostgres env b (r, put_user t i r) = Inl e \<and> err_Status e = 400)"
proof (cases "given_visibility b")
  case False
  then show ?thesis by (auto simp: patch_visibility_def visible_by_default_def given_visibility_def same_account_def)
next
  case True
  let ?v = "bytesTrimSpace (pp_DefaultSpecimenVisibility b)"
  from new_default_visibility_cases [of env ?v] show ?thesis
  proof (elim disjE exE conjE)
    fix e
    assume "new_default_visibility env ?v = Inl e" "err_Status e = 400"
    then show ?thesis using True by (simp add: patch_visibility_def given_visibility_def)
  next
    fix x
    assume x: "new_default_visibility env ?v = Inr x" "case x of None \<Rightarrow> ?v = ''null'' | Some y \<Rightarrow> json_parse ?v = Some (JStr y) \<and> validVisibility y"
    let ?r = "r\<lparr>us_DefaultSpecimenVisibility := x, us_UpdatedAt := pr_now env\<rparr>"
    have "visible_by_default b r ?r" using x(2) True by (simp add: visible_by_default_def same_account_def)
    moreover have "patch_visibility UserPostgres env b (r, put_user t i r) = Inr (?r, put_user t i ?r)"
      using True x(1) by (simp add: patch_visibility_def given_visibility_def UserPostgres_def UpdateDefaultSpecimenVisibility_def update_put [OF assms] assms(2))
    ultimately show ?thesis by blast
  qed
qed

text \<open>
  C26. A patch of the caller's profile. It touches the caller's row only, and there the display name, the
  defaults and the time of update; never the account's identity, subject or status. An accepted patch stores
  the trimmed name within its bounds, gives each field default the value the patch names for it, whatever the
  order the map was visited in, clears the entries it names with null, and keeps the others. A refused patch
  is a 400 that has stored the parts before the one it refuses, and nothing of that part or of the later ones.
\<close>

theorem profile_patch_outcome:
  assumes "users_ok t" and "GetBySub t (u_Sub u) = Inr r" and "u_Sub u \<noteq> []" and "\<forall>m. mset (pr_order env m) = mset m"
  shows "case profile_patch UserPostgres env u b t of
      (Inr body, t') \<Rightarrow> \<exists>r1 r2 r3. named b r r1 \<and> defaulted b r1 r2 \<and> visible_by_default b r2 r3 \<and>
        body = (toProfileBody (pr_str env) r3)\<lparr>pf_Roles := u_Roles u\<rparr> \<and> t' = put_user t (us_ID r) r3
    | (Inl e, t') \<Rightarrow> err_Status e = 400 \<and>
        (pp_DisplayName b \<noteq> None \<and> t' = t \<or>
         (\<exists>r1. named b r r1 \<and>
            (given_defaults b \<and> t' = put_user t (us_ID r) r1 \<or>
             (\<exists>r2. defaulted b r1 r2 \<and> given_visibility b \<and> t' = put_user t (us_ID r) r2))))"
proof -
  let ?i = "us_ID r" and ?R = UserPostgres
  have r: "r \<in> set t" using user_postgres.GetBySub_Inr [of t "u_Sub u" r] assms(2) by (simp add: UserPostgres_def)
  then have i: "?i \<in> us_ID ` set t" by blast
  have self: "put_user t ?i r = t" by (rule put_user_self [OF assms(1) r])
  have get: "ur_GetBySub ?R t (u_Sub u) = Inr r" using assms(2) by (simp add: UserPostgres_def)
  note steps = profile_patch_def get assms(3) ensure_def
  from patch_name_row [OF i refl, of env b] show ?thesis unfolding self
  proof (elim disjE exE conjE)
    fix e
    assume e: "patch_name ?R env b (r, t) = Inl e" "err_Status e = 400"
    then have "pp_DisplayName b \<noteq> None" by (cases "pp_DisplayName b") (auto simp: patch_name_def)
    then show ?thesis using e by (simp add: steps)
  next
    fix r1
    assume n: "patch_name ?R env b (r, t) = Inr (r1, put_user t ?i r1)" and r1: "named b r r1"
    have i1: "us_ID r1 = ?i" using r1 by (simp add: named_def same_account_def)
    from patch_defaults_row [OF i i1 assms(4), of b] show ?thesis
    proof (elim disjE exE conjE)
      fix e
      assume e: "patch_defaults ?R env b (r1, put_user t ?i r1) = Inl e" "err_Status e = 400"
      then have "given_defaults b" by (auto simp: patch_defaults_def given_defaults_def)
      then show ?thesis using e n r1 by (auto simp: steps)
    next
      fix r2
      assume d: "patch_defaults ?R env b (r1, put_user t ?i r1) = Inr (r2, put_user t ?i r2)" and r2: "defaulted b r1 r2"
      have i2: "us_ID r2 = ?i" using r2 i1 by (simp add: defaulted_def same_account_def)
      from patch_visibility_row [OF i i2, of env b] show ?thesis
      proof (elim disjE exE conjE)
        fix e
        assume e: "patch_visibility ?R env b (r2, put_user t ?i r2) = Inl e" "err_Status e = 400"
        then have "given_visibility b" by (auto simp: patch_visibility_def given_visibility_def)
        then show ?thesis using e n d r1 r2 by (auto simp: steps)
      next
        fix r3
        assume v: "patch_visibility ?R env b (r2, put_user t ?i r2) = Inr (r3, put_user t ?i r3)" and r3: "visible_by_default b r2 r3"
        show ?thesis using n d v r1 r2 r3 by (auto simp: steps)
      qed
    qed
  qed
qed

definition sample_profile_env :: profile_env where
  "sample_profile_env = \<lparr>pr_str = uuid_hex, pr_vc = whole_codec, pr_order = rev, pr_now = 9\<rparr>"

definition sample_profile :: User where
  "sample_profile = User_zero\<lparr>us_ID := 7, us_KeycloakSub := ''alice'', us_Status := UserStatusActive\<rparr>"

text \<open>A name that fits beside a field default that does not: the request fails and the name is stored.\<close>

definition half_patch :: profilePatchBody where
  "half_patch = \<lparr>pp_DisplayName = Some ''Alice'', pp_FieldDefaults = ''[]'', pp_DefaultSpecimenVisibility = []\<rparr>"

lemma half_patch_run:
  "snd (profile_patch UserPostgres sample_profile_env (auth_User_zero\<lparr>u_Sub := ''alice''\<rparr>) half_patch [sample_profile]) =
    [sample_profile\<lparr>us_DisplayName := Some ''Alice'', us_UpdatedAt := 9\<rparr>]"
  "isl (fst (profile_patch UserPostgres sample_profile_env (auth_User_zero\<lparr>u_Sub := ''alice''\<rparr>) half_patch [sample_profile]))"
  by code_simp+

definition full_patch :: profilePatchBody where
  "full_patch = \<lparr>pp_DisplayName = None,
     pp_FieldDefaults = ''{'' @ [quote_char] @ ''price'' @ [quote_char] @ '':null,'' @ [quote_char] @ ''images'' @ [quote_char] @ '':'' @
       [quote_char] @ ''public'' @ [quote_char] @ ''}'', pp_DefaultSpecimenVisibility = ''null''\<rparr>"

theorem profile_patch_outcome_witness:
  "\<exists>body r3. profile_patch UserPostgres sample_profile_env (auth_User_zero\<lparr>u_Sub := ''alice''\<rparr>) full_patch [sample_profile] = (Inr body, [r3]) \<and>
    ownerDefault FieldImages r3 = Some VisibilityPublic \<and> us_Status r3 = UserStatusActive"
proof -
  let ?t = "[sample_profile]" let ?u = "auth_User_zero\<lparr>u_Sub := ''alice''\<rparr>"
  have ok: "users_ok ?t" "GetBySub ?t (u_Sub ?u) = Inr sample_profile" "u_Sub ?u \<noteq> []" "\<forall>m. mset (pr_order sample_profile_env m) = mset m"
    by (simp_all add: users_ok_def GetBySub_def sample_profile_def sample_profile_env_def)
  have "\<not> isl (fst (profile_patch UserPostgres sample_profile_env ?u full_patch ?t))" by code_simp
  then obtain body t' where run: "profile_patch UserPostgres sample_profile_env ?u full_patch ?t = (Inr body, t')"
    by (metis prod.collapse sum.collapse(2))
  then obtain r1 r2 r3 where r: "named full_patch sample_profile r1" "defaulted full_patch r1 r2" "visible_by_default full_patch r2 r3"
    and t': "t' = put_user ?t (us_ID sample_profile) r3"
    using profile_patch_outcome [OF ok, of full_patch] by auto
  have parsed: "unmarshal_map (bytesTrimSpace (pp_FieldDefaults full_patch)) = Some [(''price'', JNull), (''images'', JStr ''public'')]"
    by code_simp
  have given: "given_defaults full_patch" by code_simp
  have "ownerDefault FieldImages r2 = Some VisibilityPublic"
    using r(2) given parsed by (simp add: defaulted_def patched_value_def Field_String_def)
  then have "ownerDefault FieldImages r3 = Some VisibilityPublic" using r(3) by (simp add: visible_by_default_def ownerDefault_field)
  moreover have "us_Status r3 = UserStatusActive"
    using r by (simp add: named_def defaulted_def visible_by_default_def same_account_def sample_profile_def)
  ultimately show ?thesis using run t' by (simp add: put_user_def)
qed

section \<open>Setup\<close>

text \<open>
  A completed setup names the account and activates it, and the account then passes the profile gate. The
  activation looks at no status: a suspension that commits between the middleware and this statement is undone.
\<close>

lemma complete_activates:
  assumes "users_ok t" and "GetBySub t (u_Sub u) = Inr r" and "u_Sub u \<noteq> []" and "display_name raw = Inr name"
  shows "\<exists>body. complete UserPostgres env u raw t =
      (Inr body, put_user t (us_ID r) (r\<lparr>us_DisplayName := Some name, us_Status := UserStatusActive, us_UpdatedAt := pr_now env\<rparr>)) \<and>
    \<not> pf_Pending body \<and> pf_DisplayName body = name"
proof -
  have r: "r \<in> set t" using user_postgres.GetBySub_Inr [of t "u_Sub u" r] assms(2) by (simp add: UserPostgres_def)
  then have i: "us_ID r \<in> us_ID ` set t" by blast
  have "MarkActive t (us_ID r) name (pr_now env) =
      Inr (put_user t (us_ID r) (r\<lparr>us_DisplayName := Some name, us_Status := UserStatusActive, us_UpdatedAt := pr_now env\<rparr>))"
    using update_put [OF i refl, of "\<lambda>r. r\<lparr>us_DisplayName := Some name, us_Status := UserStatusActive, us_UpdatedAt := pr_now env\<rparr>"]
    unfolding put_user_self [OF assms(1) r] MarkActive_def .
  then show ?thesis using assms(2-4) by (simp add: complete_def UserPostgres_def ensure_def)
qed

lemma complete_refused:
  assumes "complete R env u raw s = (Inl e, s')"
  shows "s' = s"
proof -
  have refused: "s1 = s" if "(case x of Inl e \<Rightarrow> (Inl e, s) | Inr (body, s2) \<Rightarrow> (Inr body, s2)) = (Inl e1, s1)" for x :: "'b + 'c \<times> 'a" and e1 s1
    using that by (cases x) auto
  show ?thesis by (rule refused [OF assms [unfolded complete_def]])
qed

lemma suspended_setup:
  "\<exists>body. complete UserPostgres sample_profile_env (auth_User_zero\<lparr>u_Sub := ''alice''\<rparr>) ''Alice'' [sample_profile\<lparr>us_Status := UserStatusSuspended\<rparr>] =
    (Inr body, [sample_profile\<lparr>us_DisplayName := Some ''Alice'', us_UpdatedAt := 9\<rparr>])"
proof -
  let ?r = "sample_profile\<lparr>us_Status := UserStatusSuspended\<rparr>" let ?u = "auth_User_zero\<lparr>u_Sub := ''alice''\<rparr>"
  have "users_ok [?r]" "GetBySub [?r] (u_Sub ?u) = Inr ?r" "u_Sub ?u \<noteq> []"
    by (simp_all add: users_ok_def GetBySub_def sample_profile_def)
  moreover have "display_name ''Alice'' = Inr ''Alice''" by code_simp
  moreover have "put_user [?r] (us_ID ?r) (?r\<lparr>us_DisplayName := Some ''Alice'', us_Status := UserStatusActive, us_UpdatedAt := pr_now sample_profile_env\<rparr>) =
      [sample_profile\<lparr>us_DisplayName := Some ''Alice'', us_UpdatedAt := 9\<rparr>]"
    by (simp add: put_user_def sample_profile_def sample_profile_env_def)
  ultimately show ?thesis using complete_activates [of "[?r]" ?u ?r "''Alice''" "''Alice''" sample_profile_env] by auto
qed

end
