(* ===== verification/MineralSpecies.thy ===== *)
theory MineralSpecies
  imports Collectors
begin

text \<open>
  The catalogue of mineral species: the Mindat client (\<open>src/internal/mindat/mindat.go\<close>), the repository
  (\<open>src/internal/db/mineral_species_postgres.go\<close>) and the three endpoints
  (\<open>src/internal/api/mineral_species.go\<close>). The answer of the remote service, \<open>ILIKE\<close>, Unicode case folding and the
  collation of the database are arguments, and so is what other requests do while the remote lookup runs. The
  text of a \<open>jsonb\<close> column is kept as it was written.
\<close>

section \<open>The Mindat client\<close>

datatype mindat_error = MindatNoAPIKey | MindatNotFound | MindatRateLimited | MindatOther string

record MindatOptions =
  mo_APIKey :: string
  mo_BaseURL :: string

record MindatClient =
  mc_apiKey :: string
  mc_baseURL :: string

definition DefaultBaseURL :: string where
  "DefaultBaseURL = ''https://api.mindat.org/v1/''"

definition NewClient :: "MindatOptions \<Rightarrow> mindat_error + MindatClient" where
  "NewClient opts =
     (let key = trimSpace (mo_APIKey opts);
          base = trimSpace (mo_BaseURL opts);
          base = (if base = [] then DefaultBaseURL else base);
          base = (if last base \<noteq> CHR ''/'' then base @ ''/'' else base) in
      if key = [] then Inl MindatNoAPIKey else Inr \<lparr>mc_apiKey = key, mc_baseURL = base\<rparr>)"

record geomaterial =
  gm_ID :: int
  gm_Name :: string
  gm_IMAFormula :: string
  gm_MindatFormula :: string
  gm_HardnessMin :: float64
  gm_HardnessMax :: float64
  gm_CrystalSystem :: string
  gm_Colour :: string
  gm_Lustretype :: string
  gm_Magnetism :: string

record MineralRecord =
  mr_Name :: string
  mr_MindatID :: string
  mr_Data :: MineralData
  mr_Attribution :: string

text \<open>What a request to the service comes to: a transport error, or a status with a body that decodes or not.\<close>

datatype mindat_answer = Transport string | Answer nat string "geomaterial list option"

text \<open>The service, the decimal form of integers, case-insensitive equality, and the entity order of formulas.\<close>

record mindat_lib =
  ml_fetch :: "string \<Rightarrow> mindat_answer"
  ml_itoa :: "int \<Rightarrow> string"
  ml_equalFold :: "string \<Rightarrow> string \<Rightarrow> bool"
  ml_entities :: "(string \<times> string) list"

definition firstNonEmpty :: "string list \<Rightarrow> string" where
  "firstNonEmpty xs = (case find (\<lambda>v. trimSpace v \<noteq> []) xs of None \<Rightarrow> [] | Some v \<Rightarrow> v)"

definition some_text :: "string \<Rightarrow> string option" where
  "some_text raw = (let s = trimSpace raw in if s = [] then None else Some s)"

definition midpoint :: "float64 \<Rightarrow> float64 \<Rightarrow> float64 option" where
  "midpoint lo hi =
     (if lo > 0 \<or> hi > 0 then Some (if lo > 0 \<and> hi > 0 then (lo + hi) / 2 else if lo > 0 then lo else hi) else None)"

definition MineralData_zero :: MineralData where
  "MineralData_zero = \<lparr>md_ChemicalFormula = None, md_MineralSpecies = [], md_CrystalSystem = None, md_MohsHardness = None,
     md_Color = None, md_Luster = None, md_FluorescenceSW = [], md_FluorescenceMW = [], md_FluorescenceLW = [],
     md_Radioactive = None, md_Magnetic = None, md_ReactsToAcid = None, md_MindatID = None\<rparr>"

definition mindat_attribution :: string where
  "mindat_attribution = ''data via Mindat (CC-BY-NC-SA 4.0)''"

definition toMineralRecord :: "mindat_lib \<Rightarrow> geomaterial \<Rightarrow> MineralRecord" where
  "toMineralRecord lib g =
     (let i = ml_itoa lib (gm_ID g); m = trimSpace (gm_Magnetism g) in
      \<lparr>mr_Name = gm_Name g, mr_MindatID = i,
       mr_Data = MineralData_zero\<lparr>
         md_ChemicalFormula := map_option (NormalizeChemicalFormula (ml_entities lib)) (some_text (firstNonEmpty [gm_IMAFormula g, gm_MindatFormula g])),
         md_CrystalSystem := some_text (gm_CrystalSystem g), md_MohsHardness := midpoint (gm_HardnessMin g) (gm_HardnessMax g),
         md_Color := some_text (gm_Colour g), md_Luster := some_text (gm_Lustretype g),
         md_Magnetic := (if m \<noteq> [] \<and> \<not> ml_equalFold lib m ''diamagnetic'' then Some True else None),
         md_MindatID := Some i\<rparr>,
       mr_Attribution = mindat_attribution\<rparr>)"

definition LookupByName :: "mindat_lib \<Rightarrow> string \<Rightarrow> mindat_error + MineralRecord" where
  "LookupByName lib raw =
     (let name = trimSpace raw in
      if name = [] then Inl MindatNotFound
      else case ml_fetch lib name of
        Transport e \<Rightarrow> Inl (MindatOther e)
      | Answer status preview body \<Rightarrow>
          if status = 404 then Inl MindatNotFound
          else if status = 429 then Inl MindatRateLimited
          else if status \<noteq> 200 then Inl (MindatOther preview)
          else (case body of
              None \<Rightarrow> Inl (MindatOther ''mindat: decode response'')
            | Some results \<Rightarrow>
                (case find (\<lambda>g. ml_equalFold lib (gm_Name g) name) results of
                   None \<Rightarrow> Inl MindatNotFound
                 | Some g \<Rightarrow> Inr (toMineralRecord lib g))))"

section \<open>The repository\<close>

text \<open>Names and Mindat identifiers are unique over all rows; null identifiers do not clash.\<close>

definition Species_Create :: "auth_User \<Rightarrow> MineralSpecies \<Rightarrow> database \<Rightarrow> repo_error + database" where
  "Species_Create u s d =
     (if ms_ID s \<in> set (map ms_ID (db_species d)) \<or> ms_Name s \<in> set (map ms_Name (db_species d))
        \<or> ms_MindatID s \<noteq> None \<and> ms_MindatID s \<in> set (map ms_MindatID (db_species d))
      then Inl (Domain ErrMineralSpeciesConflict)
      else if u_ID u \<notin> set (map us_ID (db_users d)) then Inl fk_violation
      else Inr (d\<lparr>db_species := db_species d @ [s\<lparr>ms_AuthorID := u_ID u, ms_Data := (if ms_Data s = [] then ''{}'' else ms_Data s)\<rparr>]\<rparr>))"

definition Species_GetByID :: "database \<Rightarrow> uuid \<Rightarrow> repo_error + MineralSpecies" where
  "Species_GetByID d i =
     (case find (\<lambda>s. ms_ID s = i) (db_species d) of None \<Rightarrow> Inl (Domain ErrMineralSpeciesNotFound) | Some s \<Rightarrow> Inr s)"

definition FindByMindatID :: "database \<Rightarrow> string \<Rightarrow> repo_error + MineralSpecies" where
  "FindByMindatID d i =
     (case find (\<lambda>s. ms_MindatID s = Some i) (db_species d) of None \<Rightarrow> Inl (Domain ErrMineralSpeciesNotFound) | Some s \<Rightarrow> Inr s)"

text \<open>The position of \<open>lower(name)\<close> in the database's collation orders the result.\<close>

definition FindByName :: "(string \<Rightarrow> string \<Rightarrow> bool) \<Rightarrow> (string \<Rightarrow> nat) \<Rightarrow> string \<Rightarrow> database \<Rightarrow> MineralSpecies list" where
  "FindByName ilike collate q d =
     take (nat MaxListLimit) (sort_key (\<lambda>s. (collate (ms_Name s), ms_ID s))
       (filter (\<lambda>s. trimSpace q \<noteq> [] \<longrightarrow> ilike (ms_Name s) (''%'' @ escapeLike (trimSpace q) @ ''%'')) (db_species d)))"

section \<open>The endpoints\<close>

record species_env =
  sx_parse :: "string \<Rightarrow> uuid option"
  sx_str :: "uuid \<Rightarrow> string"
  sx_vc :: value_codec
  sx_entities :: "(string \<times> string) list"
  sx_partial :: "string \<Rightarrow> MineralData"
  sx_ilike :: "string \<Rightarrow> string \<Rightarrow> bool"
  sx_collate :: "string \<Rightarrow> nat"
  sx_mindat :: "mindat_lib option"
  sx_meanwhile :: "database \<Rightarrow> database"
  sx_newID :: uuid
  sx_now :: time

record MineralSpeciesView =
  mv_ID :: uuid
  mv_Name :: string
  mv_Source :: string
  mv_MindatID :: "string option"
  mv_Data :: MineralData
  mv_Attribution :: "string option"
  mv_AuthorID :: uuid
  mv_CreatedAt :: time
  mv_UpdatedAt :: time

text \<open>Data that does not decode is shown as far as the decoder came, \<open>sx_partial\<close>.\<close>

definition toMineralSpeciesView :: "species_env \<Rightarrow> MineralSpecies \<Rightarrow> MineralSpeciesView" where
  "toMineralSpeciesView env s =
     \<lparr>mv_ID = ms_ID s, mv_Name = ms_Name s, mv_Source = ms_Source s, mv_MindatID = ms_MindatID s,
      mv_Data = (if ms_Data s = [] then MineralData_zero
        else case unmarshal_struct (decode_MineralData (sx_vc env)) (ms_Data s) of None \<Rightarrow> sx_partial env (ms_Data s) | Some m \<Rightarrow> m),
      mv_Attribution = ms_Attribution s, mv_AuthorID = ms_AuthorID s, mv_CreatedAt = ms_CreatedAt s, mv_UpdatedAt = ms_UpdatedAt s\<rparr>"

definition mapMineralSpeciesError :: "repo_error \<Rightarrow> apiError" where
  "mapMineralSpeciesError err =
     (if err = Domain ErrMineralSpeciesNotFound then newAPIError 404 ''mineral_species_not_found'' ''no such mineral species'' []
      else if err = Domain ErrMineralSpeciesConflict then
        newAPIError 409 ''mineral_species_conflict'' ''a mineral species with that name already exists'' [(''field'', ''name''), (''constraint'', ''unique'')]
      else newAPIError 500 ''internal_error'' ''internal server error'' [])"

definition mindat_row :: "species_env \<Rightarrow> auth_User \<Rightarrow> MineralRecord \<Rightarrow> MineralSpecies" where
  "mindat_row env u rec =
     \<lparr>ms_ID = sx_newID env, ms_Name = mr_Name rec, ms_Source = ''mindat'', ms_MindatID = Some (mr_MindatID rec),
      ms_Data = canonical (sx_vc env) (TDMineral (mr_Data rec)), ms_Attribution = Some (mr_Attribution rec),
      ms_AuthorID = u_ID u, ms_CreatedAt = sx_now env, ms_UpdatedAt = sx_now env\<rparr>"

text \<open>Every failure is no result.\<close>

definition fetchAndStoreFromMindat ::
  "species_env \<Rightarrow> mindat_lib \<Rightarrow> auth_User \<Rightarrow> string \<Rightarrow> database \<Rightarrow> MineralSpecies option \<times> database" where
  "fetchAndStoreFromMindat env lib u q d0 =
     (let d = sx_meanwhile env d0 in
      case LookupByName lib q of
        Inl _ \<Rightarrow> (None, d)
      | Inr rec \<Rightarrow>
          (case FindByMindatID d (mr_MindatID rec) of
             Inr existing \<Rightarrow> (Some existing, d)
           | Inl _ \<Rightarrow>
               (case Species_Create u (mindat_row env u rec) d of
                  Inr d' \<Rightarrow> (Some (mindat_row env u rec), d')
                | Inl err \<Rightarrow>
                    if err = Domain ErrMineralSpeciesConflict
                    then (case FindByMindatID d (mr_MindatID rec) of Inr existing \<Rightarrow> (Some existing, d) | Inl _ \<Rightarrow> (None, d))
                    else (None, d))))"

definition species_list :: "species_env \<Rightarrow> auth_User \<Rightarrow> string \<Rightarrow> database \<Rightarrow> MineralSpeciesView list \<times> database" where
  "species_list env u rawQ d =
     (let q = trimSpace rawQ; rows = FindByName (sx_ilike env) (sx_collate env) q d in
      if rows = [] \<and> q \<noteq> [] then
        (case sx_mindat env of
           None \<Rightarrow> ([], d)
         | Some lib \<Rightarrow>
             (case fetchAndStoreFromMindat env lib u q d of
                (None, d') \<Rightarrow> ([], d')
              | (Some row, d') \<Rightarrow> ([toMineralSpeciesView env row], d')))
      else (map (toMineralSpeciesView env) rows, d))"

definition species_get :: "species_env \<Rightarrow> string \<Rightarrow> database \<Rightarrow> apiError + MineralSpeciesView" where
  "species_get env rawID d =
     sum_bind (parseUUID (sx_parse env) rawID ''id'') (\<lambda>i.
     sum_bind (map_sum mapMineralSpeciesError id (Species_GetByID d i)) (\<lambda>row.
     Inr (toMineralSpeciesView env row)))"

definition user_row :: "species_env \<Rightarrow> auth_User \<Rightarrow> string \<Rightarrow> MineralData \<Rightarrow> MineralSpecies" where
  "user_row env u name m =
     \<lparr>ms_ID = sx_newID env, ms_Name = name, ms_Source = ''user'', ms_MindatID = None,
      ms_Data = canonical (sx_vc env) (TDMineral m), ms_Attribution = None,
      ms_AuthorID = u_ID u, ms_CreatedAt = sx_now env, ms_UpdatedAt = sx_now env\<rparr>"

definition normalized_data :: "species_env \<Rightarrow> MineralData \<Rightarrow> MineralData" where
  "normalized_data env m = m\<lparr>md_ChemicalFormula := map_option (NormalizeChemicalFormula (sx_entities env)) (md_ChemicalFormula m)\<rparr>"

definition species_create ::
  "species_env \<Rightarrow> auth_User \<Rightarrow> string \<Rightarrow> MineralData \<Rightarrow> database \<Rightarrow> apiError + (string \<times> MineralSpeciesView) \<times> database" where
  "species_create env u rawName m0 d =
     (let name = trimSpace rawName; m = normalized_data env m0; row = user_row env u name m in
      sum_bind (ensure (name \<noteq> []) (newAPIError 400 ''invalid_name'' ''name is required'' [])) (\<lambda>_.
      sum_bind (case MineralData_Validate m of
          Some e \<Rightarrow> Inl (newAPIError 400 ''invalid_data'' (type_data_error_text (sx_vc env) e) [])
        | None \<Rightarrow> Inr ()) (\<lambda>_.
      sum_bind (map_sum mapMineralSpeciesError id (Species_Create u row d)) (\<lambda>d'.
      Inr ((''/api/v1/mineral-species/'' @ sx_str env (ms_ID row), toMineralSpeciesView env row), d')))))"

section \<open>What the catalogue keeps\<close>

text \<open>
  Names and Mindat identifiers name at most one row; a row from Mindat, and no other, has a Mindat identifier,
  and it carries the attribution the licence asks for; the data of every row is canonical.
\<close>

definition species_row_ok :: "value_codec \<Rightarrow> MineralSpecies \<Rightarrow> bool" where
  "species_row_ok vc s \<longleftrightarrow>
     (ms_Source s = ''mindat'' \<and> ms_MindatID s \<noteq> None \<and> ms_Attribution s = Some mindat_attribution
      \<or> ms_Source s = ''user'' \<and> ms_MindatID s = None \<and> ms_Attribution s = None) \<and>
     (\<exists>m. ms_Data s = canonical vc (TDMineral m))"

definition species_ok :: "value_codec \<Rightarrow> database \<Rightarrow> bool" where
  "species_ok vc d \<longleftrightarrow> distinct (map ms_ID (db_species d)) \<and> distinct (map ms_Name (db_species d)) \<and>
     distinct (filter (\<lambda>x. x \<noteq> None) (map ms_MindatID (db_species d))) \<and>
     refs ms_AuthorID (db_species d) us_ID (db_users d) \<and> list_all (species_row_ok vc) (db_species d)"

lemma canonical_not_empty [simp]: "canonical vc t \<noteq> []"
  by (rule trim_canonical(2))

lemma Species_Create_ok:
  assumes "species_ok vc d" and "Species_Create u s d = Inr d'" and "species_row_ok vc s"
  shows "species_ok vc d' \<and> db_species d' = db_species d @ [s\<lparr>ms_AuthorID := u_ID u\<rparr>] \<and> d' = d\<lparr>db_species := db_species d'\<rparr>"
proof -
  obtain m where "ms_Data s = canonical vc (TDMineral m)" using assms(3) by (auto simp: species_row_ok_def)
  then have data: "ms_Data s \<noteq> []" by simp
  have d': "d' = d\<lparr>db_species := db_species d @ [s\<lparr>ms_AuthorID := u_ID u\<rparr>]\<rparr>"
    and new: "ms_ID s \<notin> set (map ms_ID (db_species d))" "ms_Name s \<notin> set (map ms_Name (db_species d))"
      "ms_MindatID s = None \<or> ms_MindatID s \<notin> set (map ms_MindatID (db_species d))" "u_ID u \<in> set (map us_ID (db_users d))"
    using assms(2) data by (auto simp: Species_Create_def split: if_splits)
  have "species_row_ok vc (s\<lparr>ms_AuthorID := u_ID u\<rparr>)" using assms(3) by (simp add: species_row_ok_def)
  moreover have "distinct (filter (\<lambda>x. x \<noteq> None) (map ms_MindatID (db_species d) @ [ms_MindatID s]))"
    using assms(1) new(3) by (cases "ms_MindatID s") (auto simp: species_ok_def)
  ultimately have "species_ok vc d'"
    using assms(1) new(1,2,4) by (simp add: species_ok_def d' refs_append)
  then show ?thesis by (simp add: d')
qed

lemma mindat_row_ok: "LookupByName lib q = Inr rec \<Longrightarrow> species_row_ok (sx_vc env) (mindat_row env u rec)"
  by (auto simp: LookupByName_def Let_def species_row_ok_def mindat_row_def toMineralRecord_def split: mindat_answer.splits if_splits option.splits)

lemma user_row_ok: "species_row_ok (sx_vc env) (user_row env u name m)"
  by (auto simp: species_row_ok_def user_row_def)

lemma FindByMindatID_row: "FindByMindatID d i = Inr s \<Longrightarrow> s \<in> set (db_species d) \<and> ms_MindatID s = Some i"
  by (auto simp: FindByMindatID_def find_Some_iff split: option.splits)

text \<open>What a fallback to Mindat does: no row, a row that was there, or one new row under the caller.\<close>

lemma fetch_cases:
  assumes "species_ok (sx_vc env) (sx_meanwhile env d)" and "fetchAndStoreFromMindat env lib u q d = (r, d')"
  obtains (nothing) "r = None" "d' = sx_meanwhile env d"
    | (known) rec s where "LookupByName lib q = Inr rec" "r = Some s" "d' = sx_meanwhile env d" "FindByMindatID d' (mr_MindatID rec) = Inr s"
    | (stored) rec where "LookupByName lib q = Inr rec" "r = Some (mindat_row env u rec)" "species_ok (sx_vc env) d'"
        "db_species d' = db_species (sx_meanwhile env d) @ [mindat_row env u rec]"
proof (cases "LookupByName lib q")
  case (Inl e)
  then show ?thesis using assms(2) by - (rule nothing, simp_all add: fetchAndStoreFromMindat_def)
next
  case (Inr rec)
  let ?d = "sx_meanwhile env d" let ?row = "mindat_row env u rec"
  show ?thesis
  proof (cases "FindByMindatID ?d (mr_MindatID rec)")
    case (Inr s)
    then show ?thesis using assms(2) \<open>LookupByName lib q = Inr rec\<close> by - (rule known [of rec s], simp_all add: fetchAndStoreFromMindat_def)
  next
    case (Inl e)
    show ?thesis
    proof (cases "Species_Create u ?row ?d")
      case (Inl e2)
      then have "fetchAndStoreFromMindat env lib u q d = (None, ?d)"
        using \<open>LookupByName lib q = Inr rec\<close> \<open>FindByMindatID ?d (mr_MindatID rec) = Inl e\<close> by (simp add: fetchAndStoreFromMindat_def Let_def)
      then show ?thesis using assms(2) by - (rule nothing, simp_all)
    next
      case (Inr d1)
      have "?row\<lparr>ms_AuthorID := u_ID u\<rparr> = ?row" by (simp add: mindat_row_def)
      then show ?thesis
        using assms(2) \<open>LookupByName lib q = Inr rec\<close> \<open>FindByMindatID ?d (mr_MindatID rec) = Inl e\<close> Inr
          Species_Create_ok [OF assms(1) Inr mindat_row_ok [OF \<open>LookupByName lib q = Inr rec\<close>]]
        by - (rule stored [of rec], simp_all add: fetchAndStoreFromMindat_def)
    qed
  qed
qed

lemma species_list_keeps:
  assumes "species_ok (sx_vc env) d" and "species_ok (sx_vc env) (sx_meanwhile env d)"
  shows "species_ok (sx_vc env) (snd (species_list env u q d))"
proof -
  have "species_ok (sx_vc env) (snd (fetchAndStoreFromMindat env lib u q d))" for lib q
    by (cases "fetchAndStoreFromMindat env lib u q d", rule fetch_cases [OF assms(2)]) (use assms(2) in simp_all)
  then have fetched: "species_ok (sx_vc env) d'" if "fetchAndStoreFromMindat env lib u q d = (r, d')" for lib q r d'
    using that by (metis snd_conv)
  show ?thesis
    using assms(1) by (auto simp: species_list_def Let_def dest: fetched split: option.splits prod.splits)
qed

lemma species_create_keeps:
  assumes "species_ok (sx_vc env) d" and "species_create env u name m d = Inr (out, d')"
  shows "species_ok (sx_vc env) d'"
proof -
  have "Species_Create u (user_row env u (trimSpace name) (normalized_data env m)) d = Inr d'"
    using assms(2) unfolding species_create_def Let_def sum_bind_Inr map_sum_Inr by auto
  then show ?thesis using Species_Create_ok [OF assms(1) _ user_row_ok] by blast
qed

text \<open>
  A search that stored a hit finds it again: the next search for the same text shows the same row, whether the
  database or Mindat answers it.
\<close>

lemma find_snoc: "find P (xs @ [y]) = (case find P xs of None \<Rightarrow> if P y then Some y else None | Some z \<Rightarrow> Some z)"
  by (induction xs) auto

lemma sort_key_empty: "sort_key f xs = [] \<Longrightarrow> xs = []"
  by (metis length_0_conv length_sort)

lemma search_again:
  assumes "species_ok (sx_vc env) d" and "sx_meanwhile env = id" and "sx_mindat env = Some lib"
    and "species_list env u q d = ([v], d')" and "d' \<noteq> d"
  shows "species_list env u' q d' = ([v], d')"
proof -
  let ?q = "trimSpace q"
  let ?hit = "\<lambda>s. trimSpace ?q \<noteq> [] \<longrightarrow> sx_ilike env (ms_Name s) (''%'' @ escapeLike (trimSpace ?q) @ ''%'')"
  have ok: "species_ok (sx_vc env) (sx_meanwhile env d)" using assms(1,2) by simp
  have none: "FindByName (sx_ilike env) (sx_collate env) ?q d = []" and q: "?q \<noteq> []"
    using assms(4,5) by (auto simp: species_list_def Let_def split: if_splits)
  obtain r where f: "fetchAndStoreFromMindat env lib u ?q d = (r, d')" and r: "r \<noteq> None" "v = toMineralSpeciesView env (the r)"
    using assms(3,4) none q by (auto simp: species_list_def Let_def split: option.splits prod.splits)
  from ok f obtain rec where rec: "LookupByName lib ?q = Inr rec" "r = Some (mindat_row env u rec)" "species_ok (sx_vc env) d'"
      "db_species d' = db_species d @ [mindat_row env u rec]"
    by (rule fetch_cases) (use r assms(2,5) in simp_all)
  have "sort_key (\<lambda>s. (sx_collate env (ms_Name s), ms_ID s)) (filter ?hit (db_species d)) = []"
    using none by (simp only: FindByName_def MaxListLimit_def) simp
  then have "filter ?hit (db_species d) = []" by (rule sort_key_empty)
  then have local: "FindByName (sx_ilike env) (sx_collate env) ?q d' = (if ?hit (mindat_row env u rec) then [mindat_row env u rec] else [])"
    by (simp add: FindByName_def rec(4) MaxListLimit_def)
  have "FindByMindatID d' (mr_MindatID rec) = Inr (mindat_row env u rec)"
  proof -
    have new: "\<forall>s\<in>set (db_species d). ms_MindatID s \<noteq> Some (mr_MindatID rec)"
    proof
      fix s
      assume s: "s \<in> set (db_species d)"
      have "distinct (filter (\<lambda>x. x \<noteq> None) (map ms_MindatID (db_species d)) @ [Some (mr_MindatID rec)])"
        using rec(3) unfolding species_ok_def by (simp add: rec(4) mindat_row_def)
      then show "ms_MindatID s \<noteq> Some (mr_MindatID rec)" using s by (auto simp: image_iff)
    qed
    then have "find (\<lambda>s. ms_MindatID s = Some (mr_MindatID rec)) (db_species d) = None" by (simp add: find_None_iff)
    then have "find (\<lambda>s. ms_MindatID s = Some (mr_MindatID rec)) (db_species d @ [mindat_row env u rec]) = Some (mindat_row env u rec)"
      by (simp add: find_snoc mindat_row_def)
    then show ?thesis by (simp add: FindByMindatID_def rec(4))
  qed
  then have "fetchAndStoreFromMindat env lib u' ?q d' = (Some (mindat_row env u rec), d')"
    using rec(1) assms(2) by (simp add: fetchAndStoreFromMindat_def)
  then show ?thesis using local q assms(3) r rec(2) by (simp add: species_list_def Let_def)
qed

text \<open>
  A hit whose name another request has just taken gives no result: the retry after the conflict looks for the
  Mindat identifier, not for the name.
\<close>

lemma name_conflict_no_result:
  assumes "LookupByName lib q = Inr rec" and "mr_Name rec \<in> ms_Name ` set (db_species (sx_meanwhile env d))"
    and "\<forall>s\<in>set (db_species (sx_meanwhile env d)). ms_MindatID s \<noteq> Some (mr_MindatID rec)"
  shows "fetchAndStoreFromMindat env lib u q d = (None, sx_meanwhile env d)"
proof -
  have "FindByMindatID (sx_meanwhile env d) (mr_MindatID rec) = Inl (Domain ErrMineralSpeciesNotFound)"
    using assms(3) by (auto simp: FindByMindatID_def find_Some_iff split: option.splits)
  moreover have "Species_Create u (mindat_row env u rec) (sx_meanwhile env d) = Inl (Domain ErrMineralSpeciesConflict)"
    using assms(2) by (simp add: Species_Create_def mindat_row_def)
  ultimately show ?thesis using assms(1) by (simp add: fetchAndStoreFromMindat_def)
qed

end
