(* ===== verification/IncidentRegister.thy ===== *)
theory IncidentRegister
  imports AdminConsole
begin

text \<open>
  The confidentiality-incident register: its hash chain (\<open>src/internal/incidentregister/incidentregister.go\<close>),
  the append-only store on a database of its own (\<open>src/internal/incidentregister/store.go\<close>) and the endpoints
  (\<open>src/internal/api/incident_register.go\<close>). SHA-256 in hexadecimal, the RFC 3339 text of times and the text of
  identifiers are arguments. Filings hold an advisory lock for their whole transaction, so each is one step.
\<close>

section \<open>Calendar years\<close>

text \<open>
  Days are counted from 1 January of year 1 and years from 0, as \<open>time\<close> does it: cycles of 400, 100, 4
  and 1 years. \<open>AddDate\<close> keeps month and day; 29 February becomes 1 March in a common year.
\<close>

definition day_ns :: int where "day_ns = 86400000000000"

definition epoch_days :: int where "epoch_days = 719162"

definition year_days :: "int \<Rightarrow> int" where
  "year_days y = 365 * y + y div 4 - y div 100 + y div 400"

definition leap :: "int \<Rightarrow> bool" where
  "leap y \<longleftrightarrow> (y + 1) mod 4 = 0 \<and> ((y + 1) mod 100 \<noteq> 0 \<or> (y + 1) mod 400 = 0)"

definition civil :: "int \<Rightarrow> int \<times> int" where
  "civil z =
     (let r400 = z mod 146097; n100 = min 3 (r400 div 36524);
          r100 = r400 - 36524 * n100; n4 = r100 div 1461;
          r4 = r100 mod 1461; n1 = min 3 (r4 div 365) in
      (400 * (z div 146097) + 100 * n100 + 4 * n4 + n1, r4 - 365 * n1))"

definition add_years :: "int \<Rightarrow> int \<Rightarrow> int" where
  "add_years k z =
     (let (y, yday) = civil z in
      year_days (y + k) +
        (if leap y \<and> \<not> leap (y + k) \<and> 60 \<le> yday then yday - 1
         else if \<not> leap y \<and> leap (y + k) \<and> 59 \<le> yday then yday + 1
         else yday))"

definition retentionYears :: int where "retentionYears = 5"

definition retainUntil :: "time \<Rightarrow> time" where
  "retainUntil t = (add_years retentionYears (t div day_ns + epoch_days) - epoch_days) * day_ns + t mod day_ns"

section \<open>Entries and their chain\<close>

record NewIncident =
  ni_PersonalInfoInvolved :: string
  ni_Circumstances :: string
  ni_IncidentOccurredAt :: string
  ni_BecameAwareDate :: time
  ni_PeopleAffected :: string
  ni_RiskAssessment :: string
  ni_CAINotified :: bool
  ni_CAINotifiedDetail :: string
  ni_IndividualsNotified :: bool
  ni_IndividualsNotifiedDetail :: string
  ni_MeasuresTaken :: string
  ni_RecordedBy :: string

record Incident =
  ic_ID :: uuid
  ic_Seq :: nat
  ic_PersonalInfoInvolved :: string
  ic_Circumstances :: string
  ic_IncidentOccurredAt :: string
  ic_BecameAwareDate :: time
  ic_PeopleAffected :: string
  ic_RiskAssessment :: string
  ic_CAINotified :: bool
  ic_CAINotifiedDetail :: string
  ic_IndividualsNotified :: bool
  ic_IndividualsNotifiedDetail :: string
  ic_MeasuresTaken :: string
  ic_RecordedBy :: string
  ic_RecordedAt :: time
  ic_RetainUntil :: time
  ic_PrevHash :: string
  ic_EntryHash :: string

record register_env =
  ir_guard :: authzGuard
  ir_parse :: "string \<Rightarrow> uuid option"
  ir_str :: "uuid \<Rightarrow> string"
  ir_time :: "time \<Rightarrow> string"
  ir_sha256 :: "string \<Rightarrow> string"

definition genesisHash :: string where "genesisHash = ''GENESIS''"

definition FormatBool :: "bool \<Rightarrow> string" where
  "FormatBool b = (if b then ''true'' else ''false'')"

text \<open>One written field: length, colon, value, unit separator.\<close>

definition frame_text :: "string \<Rightarrow> string" where
  "frame_text s = decimal (length s) @ CHR '':'' # s @ [CHR 0x1F]"

definition canonical_fields :: "register_env \<Rightarrow> Incident \<Rightarrow> string list" where
  "canonical_fields env e =
     [decimal (ic_Seq e), ir_str env (ic_ID e), ic_PersonalInfoInvolved e, ic_Circumstances e, ic_IncidentOccurredAt e,
      ir_time env (ic_BecameAwareDate e), ic_PeopleAffected e, ic_RiskAssessment e, FormatBool (ic_CAINotified e),
      ic_CAINotifiedDetail e, FormatBool (ic_IndividualsNotified e), ic_IndividualsNotifiedDetail e, ic_MeasuresTaken e,
      ic_RecordedBy e, ir_time env (ic_RecordedAt e), ir_time env (ic_RetainUntil e)]"

definition canonicalBytes :: "register_env \<Rightarrow> Incident \<Rightarrow> string" where
  "canonicalBytes env e = concat (map frame_text (canonical_fields env e))"

definition computeHash :: "register_env \<Rightarrow> string \<Rightarrow> Incident \<Rightarrow> string" where
  "computeHash env prevHash e = ir_sha256 env (prevHash @ canonicalBytes env e)"

record VerifyResult =
  vr_OK :: bool
  vr_Count :: nat
  vr_BrokenAtSeq :: nat
  vr_Detail :: string

fun verify_from :: "register_env \<Rightarrow> string \<Rightarrow> nat \<Rightarrow> nat \<Rightarrow> Incident list \<Rightarrow> VerifyResult" where
  "verify_from env prev i count [] = \<lparr>vr_OK = True, vr_Count = count, vr_BrokenAtSeq = 0, vr_Detail = []\<rparr>"
| "verify_from env prev i count (e # es) =
     (if ic_Seq e \<noteq> i + 1 then \<lparr>vr_OK = False, vr_Count = count, vr_BrokenAtSeq = ic_Seq e,
        vr_Detail = ''non-contiguous seq: got '' @ decimal (ic_Seq e) @ '', expected '' @ decimal (i + 1)\<rparr>
      else if ic_PrevHash e \<noteq> prev then \<lparr>vr_OK = False, vr_Count = count, vr_BrokenAtSeq = ic_Seq e,
        vr_Detail = ''prev_hash does not link to the preceding entry''\<rparr>
      else if computeHash env prev e \<noteq> ic_EntryHash e then \<lparr>vr_OK = False, vr_Count = count, vr_BrokenAtSeq = ic_Seq e,
        vr_Detail = ''entry_hash mismatch: record has been altered''\<rparr>
      else verify_from env (ic_EntryHash e) (i + 1) count es)"

definition verifyChain :: "register_env \<Rightarrow> Incident list \<Rightarrow> VerifyResult" where
  "verifyChain env entries = verify_from env genesisHash 0 (length entries) entries"

section \<open>The store\<close>

type_synonym register = "Incident list"

datatype register_error = IncidentNotFound | RegisterDriver string

definition register_rows :: "register \<Rightarrow> Incident list" where
  "register_rows t = sort_key ic_Seq t"

definition Register_List :: "string option \<Rightarrow> register \<Rightarrow> register_error + Incident list" where
  "Register_List down t = (case down of Some err \<Rightarrow> Inl (RegisterDriver err) | None \<Rightarrow> Inr (register_rows t))"

text \<open>The entry a filing writes after the chain's last row; the clock is cut to microseconds.\<close>

definition chain_tail :: "register \<Rightarrow> nat \<times> string" where
  "chain_tail t = (case rev (register_rows t) of [] \<Rightarrow> (0, genesisHash) | e # _ \<Rightarrow> (ic_Seq e, ic_EntryHash e))"

definition new_incident :: "register_env \<Rightarrow> uuid \<Rightarrow> time \<Rightarrow> NewIncident \<Rightarrow> nat \<times> string \<Rightarrow> Incident" where
  "new_incident env newID now inp last_row =
     (let aware = ni_BecameAwareDate inp div day_ns * day_ns;
          e = \<lparr>ic_ID = newID, ic_Seq = fst last_row + 1, ic_PersonalInfoInvolved = ni_PersonalInfoInvolved inp,
               ic_Circumstances = ni_Circumstances inp, ic_IncidentOccurredAt = ni_IncidentOccurredAt inp, ic_BecameAwareDate = aware,
               ic_PeopleAffected = ni_PeopleAffected inp, ic_RiskAssessment = ni_RiskAssessment inp, ic_CAINotified = ni_CAINotified inp,
               ic_CAINotifiedDetail = ni_CAINotifiedDetail inp, ic_IndividualsNotified = ni_IndividualsNotified inp,
               ic_IndividualsNotifiedDetail = ni_IndividualsNotifiedDetail inp, ic_MeasuresTaken = ni_MeasuresTaken inp,
               ic_RecordedBy = ni_RecordedBy inp, ic_RecordedAt = now div 1000 * 1000, ic_RetainUntil = retainUntil aware,
               ic_PrevHash = snd last_row, ic_EntryHash = []\<rparr> in
      e\<lparr>ic_EntryHash := computeHash env (snd last_row) e\<rparr>)"

text \<open>One transaction; \<open>down\<close> is the error of a statement or of the commit.\<close>

definition Register_Create ::
  "register_env \<Rightarrow> uuid \<Rightarrow> time \<Rightarrow> string option \<Rightarrow> NewIncident \<Rightarrow> register \<Rightarrow> register_error + Incident \<times> register" where
  "Register_Create env newID now down inp t =
     (let e = new_incident env newID now inp (chain_tail t) in
      case down of
        Some err \<Rightarrow> Inl (RegisterDriver err)
      | None \<Rightarrow>
          if ic_Seq e \<in> ic_Seq ` set t \<or> ic_ID e \<in> ic_ID ` set t \<or> ic_EntryHash e \<in> ic_EntryHash ` set t
          then Inl (RegisterDriver ''unique_violation'')
          else Inr (e, t @ [e]))"

definition Register_GetByID :: "string option \<Rightarrow> uuid \<Rightarrow> register \<Rightarrow> register_error + Incident" where
  "Register_GetByID down i t =
     (case down of
        Some err \<Rightarrow> Inl (RegisterDriver err)
      | None \<Rightarrow> (case find (\<lambda>e. ic_ID e = i) t of None \<Rightarrow> Inl IncidentNotFound | Some e \<Rightarrow> Inr e))"

definition Register_Verify :: "register_env \<Rightarrow> string option \<Rightarrow> register \<Rightarrow> register_error + VerifyResult" where
  "Register_Verify env down t = map_sum id (verifyChain env) (Register_List down t)"

definition Register_Export :: "register_env \<Rightarrow> string option \<Rightarrow> register \<Rightarrow> register_error + Incident list \<times> VerifyResult" where
  "Register_Export env down t = map_sum id (\<lambda>entries. (entries, verifyChain env entries)) (Register_List down t)"

section \<open>The endpoints\<close>

definition file_incident ::
  "register_env \<Rightarrow> uuid \<Rightarrow> time \<Rightarrow> string option \<Rightarrow> auth_User \<Rightarrow> NewIncident \<Rightarrow> register \<Rightarrow> (apiError + Incident) \<times> register" where
  "file_incident env newID now down u body t =
     (case guard_check (ir_guard env) u adminConsoleResource ''edit'' of
        Some e \<Rightarrow> (Inl e, t)
      | None \<Rightarrow>
          (case Register_Create env newID now down
              (body\<lparr>ni_RecordedBy := (if u_ID u \<noteq> uuid_Nil then ir_str env (u_ID u) else ''unknown'')\<rparr>) t of
             Inl _ \<Rightarrow> (Inl (newAPIError 500 ''internal_error'' ''failed to record incident'' []), t)
           | Inr (e, t') \<Rightarrow> (Inr e, t')))"

definition list_incidents :: "register_env \<Rightarrow> string option \<Rightarrow> auth_User \<Rightarrow> register \<Rightarrow> apiError + Incident list \<times> nat" where
  "list_incidents env down u t =
     sum_bind (as_error (guard_check (ir_guard env) u adminConsoleResource ''view'')) (\<lambda>_.
     map_sum (\<lambda>_. newAPIError 500 ''internal_error'' ''failed to list register'' []) (\<lambda>entries. (entries, length entries))
       (Register_List down t))"

definition get_incident :: "register_env \<Rightarrow> string option \<Rightarrow> auth_User \<Rightarrow> string \<Rightarrow> register \<Rightarrow> apiError + Incident" where
  "get_incident env down u rawID t =
     sum_bind (as_error (guard_check (ir_guard env) u adminConsoleResource ''view'')) (\<lambda>_.
     sum_bind (parseUUID (ir_parse env) rawID ''id'') (\<lambda>i.
     map_sum (\<lambda>err. if err = IncidentNotFound then newAPIError 404 ''incident_not_found'' ''no such register entry'' []
        else newAPIError 500 ''internal_error'' ''failed to read register entry'' []) id (Register_GetByID down i t)))"

definition export_register ::
  "register_env \<Rightarrow> string option \<Rightarrow> auth_User \<Rightarrow> register \<Rightarrow> apiError + Incident list \<times> VerifyResult" where
  "export_register env down u t =
     sum_bind (as_error (guard_check (ir_guard env) u adminConsoleResource ''view'')) (\<lambda>_.
     map_sum (\<lambda>_. newAPIError 500 ''internal_error'' ''failed to export register'' []) id (Register_Export env down t))"

section \<open>Retention\<close>

text \<open>
  The Gregorian calendar on its own: a date is a year, a month and a day, and \<open>midnight\<close> is its first instant, in
  nanoseconds since 1 January 1970.
\<close>

definition gregorian_leap :: "int \<Rightarrow> bool" where
  "gregorian_leap Y \<longleftrightarrow> Y mod 4 = 0 \<and> (Y mod 100 \<noteq> 0 \<or> Y mod 400 = 0)"

definition month_lengths :: "int \<Rightarrow> int list" where
  "month_lengths Y = [31, if gregorian_leap Y then 29 else 28, 31, 30, 31, 30, 31, 31, 30, 31, 30, 31]"

definition valid_date :: "int \<Rightarrow> nat \<Rightarrow> int \<Rightarrow> bool" where
  "valid_date Y m d \<longleftrightarrow> 1 \<le> m \<and> m \<le> 12 \<and> 1 \<le> d \<and> d \<le> month_lengths Y ! (m - 1)"

definition days_before_year :: "int \<Rightarrow> int" where
  "days_before_year Y = 365 * (Y - 1) + (Y - 1) div 4 - (Y - 1) div 100 + (Y - 1) div 400"

definition midnight :: "int \<Rightarrow> nat \<Rightarrow> int \<Rightarrow> time" where
  "midnight Y m d =
     (days_before_year Y - days_before_year 1970 + sum_list (take (m - 1) (month_lengths Y)) + d - 1) * (24 * 60 * 60 * 1000000000)"

definition five_years_later :: "int \<Rightarrow> nat \<Rightarrow> int \<Rightarrow> time" where
  "five_years_later Y m d = (if valid_date (Y + 5) m d then midnight (Y + 5) m d else midnight (Y + 5) 3 1)"

lemma calendar_examples:
  "midnight 1970 1 1 = 0" "midnight 2000 3 1 = 951868800 * 1000000000"
  "five_years_later 2020 2 29 = midnight 2025 3 1" "five_years_later 2023 2 28 = midnight 2028 2 28"
  by (simp_all add: midnight_def five_years_later_def valid_date_def days_before_year_def month_lengths_def gregorian_leap_def)

lemma div_next:
  fixes k n :: int
  assumes "0 < n"
  shows "(k + 1) div n = k div n + (if (k + 1) mod n = 0 then 1 else 0)"
proof -
  define q r where "q = (k + 1) div n" and "r = (k + 1) mod n"
  have k: "k + 1 = n * q + r" "0 \<le> r" "r < n" using assms by (simp_all add: q_def r_def)
  show ?thesis
  proof (cases "r = 0")
    case True
    then have "k div n = q - 1" using k assms by (intro int_div_pos_eq [where r = "n - 1"]) (simp_all add: algebra_simps)
    then show ?thesis using True by (simp add: q_def r_def)
  next
    case False
    then have "k div n = q" using k by (intro int_div_pos_eq [where r = "r - 1"]) simp_all
    then show ?thesis using False by (simp add: q_def r_def)
  qed
qed

text \<open>The years are as long as their months.\<close>

lemma days_of_year: "days_before_year (Y + 1) = days_before_year Y + sum_list (month_lengths Y)"
proof -
  define A B C where "A = (Y - 1) div 4" and "B = (Y - 1) div 100" and "C = (Y - 1) div 400"
  have step: "Y div 4 = A + (if Y mod 4 = 0 then 1 else 0)" "Y div 100 = B + (if Y mod 100 = 0 then 1 else 0)"
    "Y div 400 = C + (if Y mod 400 = 0 then 1 else 0)"
    using div_next [of 4 "Y - 1"] div_next [of 100 "Y - 1"] div_next [of 400 "Y - 1"] unfolding A_def B_def C_def diff_add_cancel by (simp_all only:)
  have "4 dvd Y" if "100 dvd Y" using dvd_trans [of 4 100 Y] that by simp
  moreover have "100 dvd Y" if "400 dvd Y" using dvd_trans [of 100 400 Y] that by simp
  ultimately have nested: "Y mod 100 = 0 \<Longrightarrow> Y mod 4 = 0" "Y mod 400 = 0 \<Longrightarrow> Y mod 100 = 0"
    by (simp_all add: dvd_eq_mod_eq_0)
  define P Q R where "P \<longleftrightarrow> Y mod 4 = 0" and "Q \<longleftrightarrow> Y mod 100 = 0" and "R \<longleftrightarrow> Y mod 400 = 0"
  show ?thesis
    using step nested unfolding days_before_year_def month_lengths_def gregorian_leap_def add_diff_cancel_right'
      A_def [symmetric] B_def [symmetric] C_def [symmetric] P_def [symmetric] Q_def [symmetric] R_def [symmetric]
    by (cases P; cases Q; cases R) simp_all
qed

text \<open>The cycles of 400, 100, 4 and 1 years a day falls into.\<close>

lemma cut_four:
  fixes x n :: int
  assumes "0 \<le> x" and "x \<le> 4 * n" and "0 < n" and "q = min 3 (x div n)"
  shows "0 \<le> q \<and> q \<le> 3 \<and> 0 \<le> x - n * q \<and> x - n * q \<le> n \<and> (x - n * q = n \<longrightarrow> q = 3)"
proof -
  have x: "x = n * (x div n) + x mod n" "0 \<le> x mod n" "x mod n < n" using assms(3) by simp_all
  have d: "0 \<le> x div n" using assms(1,3) by (simp add: pos_imp_zdiv_nonneg_iff)
  show ?thesis
  proof (cases "x div n \<le> 3")
    case True
    then have "x - n * q = x mod n" by (simp add: assms(4) minus_mult_div_eq_mod)
    then show ?thesis using x d assms(4) by simp
  next
    case False
    then have "n * 4 \<le> n * (x div n)" using assms(3) by (intro mult_left_mono) simp_all
    then have "n * 4 \<le> x" using x by linarith
    moreover have "q = 3" using False assms(4) by simp
    ultimately show ?thesis using assms(2,3) by simp
  qed
qed

lemma civil_cycles:
  assumes "civil z = (y, yday)"
  obtains a b c e where "y = 400 * a + 100 * b + 4 * c + e" "z = 146097 * a + 36524 * b + 1461 * c + 365 * e + yday"
    "0 \<le> b" "b \<le> 3" "0 \<le> c" "c \<le> 24" "0 \<le> e" "e \<le> 3" "0 \<le> yday" "yday \<le> 365"
    "yday = 365 \<Longrightarrow> e = 3" "yday = 365 \<Longrightarrow> c = 24 \<Longrightarrow> b = 3"
proof -
  define a where "a = z div 146097"
  define r where "r = z mod 146097"
  define b where "b = min 3 (r div 36524)"
  define s where "s = r - 36524 * b"
  define c where "c = s div 1461"
  define q where "q = s mod 1461"
  define e where "e = min 3 (q div 365)"
  have y: "y = 400 * a + 100 * b + 4 * c + e" "yday = q - 365 * e"
    using assms by (simp_all add: civil_def Let_def a_def r_def b_def s_def c_def q_def e_def)
  have z: "z = 146097 * a + r" "0 \<le> r" "r < 146097" by (simp_all add: a_def r_def)
  have b: "0 \<le> b" "b \<le> 3" "0 \<le> s" "s \<le> 36524" "s = 36524 \<Longrightarrow> b = 3"
    using cut_four [of r 36524 b] z(2,3) by (simp_all add: b_def s_def)
  have s: "s = 1461 * c + q" "0 \<le> q" "q < 1461" by (simp_all add: c_def q_def)
  have c: "0 \<le> c" "c \<le> 24" using b(3,4) s by linarith+
  have e: "0 \<le> e" "e \<le> 3" "0 \<le> yday" "yday \<le> 365" "yday = 365 \<Longrightarrow> e = 3"
    using cut_four [of q 365 e] s(2,3) y(2) by (simp_all add: e_def)
  have "b = 3" if "yday = 365" "c = 24" using that e(5) y(2) s(1) b(5) by simp
  moreover have "z = 146097 * a + 36524 * b + 1461 * c + 365 * e + yday" using z(1) s(1) s_def y(2) by simp
  ultimately show thesis using that y(1) b(1,2) c e by blast
qed

lemma civil_year:
  assumes "civil z = (y, yday)"
  shows "year_days y + yday = z" and "0 \<le> yday" and "yday < 365 + (if leap y then 1 else 0)"
proof -
  from assms show "year_days y + yday = z"
  proof (rule civil_cycles)
    fix a b c e
    assume y: "y = 400 * a + 100 * b + 4 * c + e" and z: "z = 146097 * a + 36524 * b + 1461 * c + 365 * e + yday"
      and b: "0 \<le> b" "b \<le> 3" and c: "0 \<le> c" "c \<le> 24" and e: "0 \<le> e" "e \<le> 3"
    have div4: "y div 4 = 100 * a + 25 * b + c" using e unfolding y by (intro int_div_pos_eq [where r = e]) simp_all
    have div100: "y div 100 = 4 * a + b" using e c unfolding y by (intro int_div_pos_eq [where r = "4 * c + e"]) simp_all
    have div400: "y div 400 = a" using e c b unfolding y by (intro int_div_pos_eq [where r = "100 * b + 4 * c + e"]) simp_all
    show ?thesis unfolding year_days_def div4 div100 div400 using y z by simp
  qed
  from assms show "0 \<le> yday" by (rule civil_cycles)
  from assms show "yday < 365 + (if leap y then 1 else 0)"
  proof (rule civil_cycles)
    fix a b c e
    assume y: "y = 400 * a + 100 * b + 4 * c + e" and c: "0 \<le> c" "c \<le> 24" and yd: "yday \<le> 365"
      and last: "yday = 365 \<Longrightarrow> e = 3" "yday = 365 \<Longrightarrow> c = 24 \<Longrightarrow> b = 3"
    show ?thesis
    proof (cases "yday = 365")
      case True
      have y1: "y + 1 = 4 * (c + 1) + 100 * (4 * a + b)" using y last(1) [OF True] by simp
      have "leap y"
      proof (cases "c = 24")
        case True': True
        then have "y + 1 = 400 * (a + 1)" using y1 last(2) [OF True] by simp
        then show ?thesis by (simp add: leap_def)
      next
        case False
        then have "(y + 1) mod 100 = 4 * (c + 1)" using y1 c by (intro int_mod_pos_eq [where q = "4 * a + b"]) simp_all
        moreover have "y + 1 = 4 * (c + 1 + 25 * (4 * a + b))" using y1 by simp
        then have "(y + 1) mod 4 = 0" by simp
        ultimately show ?thesis using c by (simp add: leap_def)
      qed
      then show ?thesis using True by simp
    qed (use yd in simp)
  qed
qed

text \<open>A day of the year lies in one of the months.\<close>

lemma split_sum:
  assumes "0 \<le> x" and "x < sum_list ls"
  shows "\<exists>i<length ls. \<exists>d. 1 \<le> d \<and> d \<le> ls ! i \<and> x = sum_list (take i ls) + d - (1 :: int)"
  using assms
proof (induction ls arbitrary: x)
  case (Cons l ls)
  show ?case
  proof (cases "x < l")
    case True
    then have "0 < length (l # ls) \<and> 1 \<le> x + 1 \<and> x + 1 \<le> (l # ls) ! 0 \<and> x = sum_list (take 0 (l # ls)) + (x + 1) - 1"
      using Cons.prems by simp
    then show ?thesis by blast
  next
    case False
    then obtain i d where "i < length ls" "1 \<le> d" "d \<le> ls ! i" "x - l = sum_list (take i ls) + d - 1"
      using Cons.IH [of "x - l"] Cons.prems by auto
    then have "Suc i < length (l # ls) \<and> 1 \<le> d \<and> d \<le> (l # ls) ! Suc i \<and> x = sum_list (take (Suc i) (l # ls)) + d - 1" by simp
    then show ?thesis by blast
  qed
qed simp

text \<open>The offset of a month depends on the year only from March on.\<close>

definition common_offset :: "nat \<Rightarrow> int" where
  "common_offset m = [0, 31, 59, 90, 120, 151, 181, 212, 243, 273, 304, 334] ! (m - 1)"

lemma month_offset:
  assumes "1 \<le> m" and "m \<le> 12"
  shows "sum_list (take (m - 1) (month_lengths Y)) = common_offset m + (if gregorian_leap Y \<and> 3 \<le> m then 1 else 0)"
    and "month_lengths Y ! (m - 1) = (if m = 2 then if gregorian_leap Y then 29 else 28 else month_lengths 1 ! (m - 1))"
    and "3 \<le> m \<Longrightarrow> 59 \<le> common_offset m" and "m \<le> 2 \<Longrightarrow> common_offset m = (if m = 1 then 0 else 31)"
proof -
  have m: "m = 1 \<or> m = 2 \<or> m = 3 \<or> m = 4 \<or> m = 5 \<or> m = 6 \<or> m = 7 \<or> m = 8 \<or> m = 9 \<or> m = 10 \<or> m = 11 \<or> m = 12"
    using assms by presburger
  then show "sum_list (take (m - 1) (month_lengths Y)) = common_offset m + (if gregorian_leap Y \<and> 3 \<le> m then 1 else 0)"
    by (elim disjE) (simp_all add: month_lengths_def common_offset_def)
  from m show "month_lengths Y ! (m - 1) = (if m = 2 then if gregorian_leap Y then 29 else 28 else month_lengths 1 ! (m - 1))"
    by (elim disjE) (simp_all add: month_lengths_def)
  from m show "common_offset m \<ge> 59" if "3 \<le> m" using that by (elim disjE) (simp_all add: common_offset_def)
  from m show "common_offset m = (if m = 1 then 0 else 31)" if "m \<le> 2" using that by (elim disjE) (simp_all add: common_offset_def)
qed

lemma month_length_1: "month_lengths 1 ! 0 = 31"
  by (simp add: month_lengths_def)

lemma leap_gregorian: "leap y \<longleftrightarrow> gregorian_leap (y + 1)"
  by (simp add: leap_def gregorian_leap_def)

lemma year_days_before: "year_days y = days_before_year (y + 1)"
  by (simp add: year_days_def days_before_year_def)

text \<open>Five years after a date, in days.\<close>

lemma add_years_calendar:
  assumes "civil z = (y, yday)" and "valid_date (y + 1) m d"
    and "yday = sum_list (take (m - 1) (month_lengths (y + 1))) + d - 1"
  shows "(add_years 5 z - epoch_days) * day_ns = five_years_later (y + 1) m d"
proof -
  let ?L = "gregorian_leap (y + 1)" and ?L' = "gregorian_leap (y + 6)"
  have m: "1 \<le> m" "m \<le> 12" and d: "1 \<le> d" "d \<le> month_lengths (y + 1) ! (m - 1)" using assms(2) by (simp_all add: valid_date_def)
  have yday: "yday = common_offset m + (if ?L \<and> 3 \<le> m then 1 else 0) + d - 1" using assms(3) unfolding month_offset(1) [OF m] .
  note late = month_offset(3) [OF m] and early = month_offset(4) [OF m]
  have day: "midnight (y + 6) i j = (year_days (y + 5) + (sum_list (take (i - 1) (month_lengths (y + 6))) + j - 1) - epoch_days) * day_ns" for i j
    unfolding midnight_def year_days_before by (simp add: days_before_year_def epoch_days_def day_ns_def)
  have later: "five_years_later (y + 1) m d = (if valid_date (y + 6) m d then midnight (y + 6) m d else midnight (y + 6) 3 1)"
    by (simp add: five_years_later_def add.commute)
  have leaps: "leap y = ?L" "leap (y + 5) = ?L'" by (simp_all add: leap_gregorian add.commute)
  define w where "w = (if ?L \<and> \<not> ?L' \<and> 60 \<le> yday then yday - 1 else if \<not> ?L \<and> ?L' \<and> 59 \<le> yday then yday + 1 else yday)"
  have moved: "add_years 5 z = year_days (y + 5) + w"
    unfolding add_years_def assms(1) by (simp add: w_def leaps)
  show ?thesis
  proof (cases "valid_date (y + 6) m d")
    case True
    have "w = sum_list (take (m - 1) (month_lengths (y + 6))) + d - 1"
    proof (cases "3 \<le> m")
      case True
      then show ?thesis unfolding w_def month_offset(1) [OF m] yday using late d(1) by auto
    next
      case False
      then have "m \<le> 2" by simp
      moreover have "d \<le> (if m = 1 then 31 else if ?L \<and> ?L' then 29 else 28)"
        using \<open>valid_date (y + 6) m d\<close> d(2) \<open>m \<le> 2\<close> m(1) unfolding valid_date_def month_offset(2) [OF m, of "y + 1"] month_offset(2) [OF m, of "y + 6"]
        by (cases "m = 1") (auto simp: month_length_1)
      ultimately show ?thesis unfolding w_def month_offset(1) [OF m] yday using early d(1) False by (auto split: if_splits)
    qed
    then show ?thesis using True unfolding moved later by (simp add: day)
  next
    case False
    then have leaves: "m = 2" "d = 29" "?L" "\<not> ?L'"
      using m d unfolding valid_date_def month_offset(2) [OF m, of "y + 1"] month_offset(2) [OF m, of "y + 6"] by (auto split: if_splits)
    then have "w = sum_list (take (3 - 1) (month_lengths (y + 6))) + 1 - 1"
      using early unfolding w_def yday by (simp add: month_offset(1) [of 3] month_lengths_def)
    then show ?thesis using False unfolding moved later by (simp add: day)
  qed
qed

lemma retainUntil_calendar:
  assumes "t mod day_ns = 0"
  shows "\<exists>Y m d. valid_date Y m d \<and> t = midnight Y m d \<and> retainUntil t = five_years_later Y m d"
proof -
  define n where "n = t div day_ns"
  have t: "t = n * day_ns" using assms by (simp add: n_def) (metis add.right_neutral div_mult_mod_eq)
  obtain y yday where c: "civil (n + epoch_days) = (y, yday)" by (cases "civil (n + epoch_days)")
  note y = civil_year [OF c]
  have "sum_list (month_lengths (y + 1)) = 365 + (if leap y then 1 else 0)" by (simp add: month_lengths_def leap_gregorian)
  then have "yday < sum_list (month_lengths (y + 1))" using y(3) by simp
  from split_sum [OF y(2) this] obtain i d where i: "i < length (month_lengths (y + 1))" "1 \<le> d" "d \<le> month_lengths (y + 1) ! i"
    "yday = sum_list (take i (month_lengths (y + 1))) + d - 1" by blast
  have len: "length (month_lengths (y + 1)) = 12" by (simp add: month_lengths_def)
  have v: "valid_date (y + 1) (Suc i) d" using i(1-3) by (simp add: valid_date_def len)
  have off: "yday = sum_list (take (Suc i - 1) (month_lengths (y + 1))) + d - 1" using i(4) by simp
  have "n = year_days y + yday - epoch_days" using y(1) by simp
  then have "t = midnight (y + 1) (Suc i) d"
    unfolding t midnight_def off year_days_before by (simp add: days_before_year_def epoch_days_def day_ns_def)
  moreover have "retainUntil t = five_years_later (y + 1) (Suc i) d"
    using add_years_calendar [OF c v off] assms by (simp add: retainUntil_def retentionYears_def n_def)
  ultimately show ?thesis using v by blast
qed

section \<open>The framing is injective\<close>

lemma decimal_eq_iff: "decimal a = decimal b \<longleftrightarrow> a = b"
proof
  assume "decimal a = decimal b"
  then have "number 10 0 (decimal a) = number 10 0 (decimal b)" by (rule arg_cong)
  then have "Some a = Some b" unfolding number_decimal .
  then show "a = b" by (rule option.inject [THEN iffD1])
qed (rule arg_cong)

lemma decimal_prefix: "takeWhile is_digit (decimal n @ CHR '':'' # r) = decimal n"
proof -
  have "\<forall>c\<in>set (decimal n). is_digit c" using decimal_digits [of n] by (simp only: list_all_iff)
  then have "takeWhile is_digit (decimal n @ CHR '':'' # r) = decimal n @ takeWhile is_digit (CHR '':'' # r)"
    by (intro takeWhile_append2) (rule bspec)
  also have "takeWhile is_digit (CHR '':'' # r) = []" by (simp add: is_digit_def)
  finally show ?thesis by simp
qed

lemma frame_text_inj:
  assumes "frame_text a @ x = frame_text b @ y"
  shows "a = b \<and> x = y"
proof -
  define u where "u = a @ CHR 0x1F # x"
  define v where "v = b @ CHR 0x1F # y"
  have eq: "decimal (length a) @ CHR '':'' # u = decimal (length b) @ CHR '':'' # v"
    using assms by (simp add: frame_text_def u_def v_def)
  then have "takeWhile is_digit (decimal (length a) @ CHR '':'' # u) = takeWhile is_digit (decimal (length b) @ CHR '':'' # v)"
    by (rule arg_cong)
  then have "decimal (length a) = decimal (length b)" unfolding decimal_prefix .
  then have len: "length a = length b" by (rule decimal_eq_iff [THEN iffD1])
  then have "u = v" using eq by simp
  then show ?thesis using len by (simp add: u_def v_def)
qed

lemma frames_inj:
  assumes "length xs = length ys" and "concat (map frame_text xs) = concat (map frame_text ys)"
  shows "xs = ys"
  using assms
proof (induction xs ys rule: list_induct2)
  case (Cons x xs y ys)
  have "frame_text x @ concat (map frame_text xs) = frame_text y @ concat (map frame_text ys)" using Cons.prems by simp
  from frame_text_inj [OF this] Cons.IH show ?case by simp
qed simp

lemma FormatBool_inj: "FormatBool a = FormatBool b \<longleftrightarrow> a = b"
  by (simp add: FormatBool_def)

text \<open>Entries with the same canonical bytes and hashes are the same entry, when their times have different texts.\<close>

definition entry_times :: "Incident \<Rightarrow> time set" where
  "entry_times e = {ic_BecameAwareDate e, ic_RecordedAt e, ic_RetainUntil e}"

lemma canonicalBytes_inj:
  assumes "canonicalBytes env e = canonicalBytes env f" and "inj (ir_str env)" and "inj_on (ir_time env) (entry_times e \<union> entry_times f)"
    and "ic_PrevHash e = ic_PrevHash f" and "ic_EntryHash e = ic_EntryHash f"
  shows "e = f"
proof -
  have "length (canonical_fields env e) = length (canonical_fields env f)" by (simp add: canonical_fields_def)
  then have "canonical_fields env e = canonical_fields env f" using assms(1) unfolding canonicalBytes_def by (rule frames_inj)
  then have same: "ir_time env (ic_BecameAwareDate e) = ir_time env (ic_BecameAwareDate f)"
    "ir_time env (ic_RecordedAt e) = ir_time env (ic_RecordedAt f)" "ir_time env (ic_RetainUntil e) = ir_time env (ic_RetainUntil f)"
    and rest: "e = f\<lparr>ic_BecameAwareDate := ic_BecameAwareDate e, ic_RecordedAt := ic_RecordedAt e, ic_RetainUntil := ic_RetainUntil e\<rparr>"
    using assms(4,5) by (simp_all add: canonical_fields_def decimal_eq_iff FormatBool_inj inj_eq [OF assms(2)])
  have "ic_BecameAwareDate e = ic_BecameAwareDate f" by (rule inj_onD [OF assms(3) same(1)]; simp add: entry_times_def)
  moreover have "ic_RecordedAt e = ic_RecordedAt f" by (rule inj_onD [OF assms(3) same(2)]; simp add: entry_times_def)
  moreover have "ic_RetainUntil e = ic_RetainUntil f" by (rule inj_onD [OF assms(3) same(3)]; simp add: entry_times_def)
  ultimately show ?thesis using rest by simp
qed


section \<open>Chains that verify\<close>

lemma verify_ok_nth:
  assumes "vr_OK (verify_from env p i c es)" and "k < length es"
  shows "ic_Seq (es ! k) = i + k + 1 \<and> ic_PrevHash (es ! k) = (if k = 0 then p else ic_EntryHash (es ! (k - 1))) \<and>
    ic_EntryHash (es ! k) = computeHash env (ic_PrevHash (es ! k)) (es ! k)"
  using assms
proof (induction es arbitrary: p i k)
  case (Cons e es)
  have e: "ic_Seq e = i + 1" "ic_PrevHash e = p" "computeHash env p e = ic_EntryHash e"
    and rest: "vr_OK (verify_from env (ic_EntryHash e) (i + 1) c es)"
    using Cons.prems(1) by (simp_all split: if_splits)
  show ?case
  proof (cases k)
    case 0
    then show ?thesis using e by simp
  next
    case (Suc m)
    then have "m < length es" using Cons.prems(2) by simp
    from Cons.IH [OF rest this] Suc show ?thesis by (cases m) simp_all
  qed
qed simp

lemma verify_append:
  "vr_OK (verify_from env p i c (es @ [e])) \<longleftrightarrow>
     vr_OK (verify_from env p i c es) \<and> ic_Seq e = i + length es + 1 \<and>
     ic_PrevHash e = (if es = [] then p else ic_EntryHash (last es)) \<and> computeHash env (ic_PrevHash e) e = ic_EntryHash e"
  by (induction es arbitrary: p i) auto

lemma verify_take: "vr_OK (verify_from env p i c es) \<Longrightarrow> vr_OK (verify_from env p i d (take n es))"
  by (induction es arbitrary: p i n) (auto simp: take_Cons split: nat.split if_splits)

lemma verify_result: "vr_OK (verify_from env p i c es) \<Longrightarrow>
    verify_from env p i c es = \<lparr>vr_OK = True, vr_Count = c, vr_BrokenAtSeq = 0, vr_Detail = []\<rparr>"
  by (induction es arbitrary: p i) (auto split: if_splits)

lemma verify_sorted:
  assumes "vr_OK (verifyChain env es)"
  shows "register_rows es = es"
proof -
  have "map ic_Seq es = map Suc [0..<length es]"
  proof (rule nth_equalityI; simp)
    fix k
    assume "k < length es"
    from verify_ok_nth [OF assms [unfolded verifyChain_def] this] show "ic_Seq (es ! k) = Suc k" by simp
  qed
  then have "sorted (map ic_Seq es)" by (simp add: sorted_iff_nth_mono)
  then show ?thesis unfolding register_rows_def by (rule sort_key_id_if_sorted)
qed

text \<open>The bytes whose hash each entry carries.\<close>

definition hash_inputs :: "register_env \<Rightarrow> Incident list \<Rightarrow> string set" where
  "hash_inputs env es = (\<lambda>e. ic_PrevHash e @ canonicalBytes env e) ` set es"

definition chain_times :: "Incident list \<Rightarrow> time set" where
  "chain_times es = (\<Union>e\<in>set es. entry_times e)"

lemma entry_agree:
  assumes "vr_OK (verifyChain env es)" and "vr_OK (verifyChain env fs)"
    and "inj_on (ir_sha256 env) (hash_inputs env es \<union> hash_inputs env fs)" and "\<forall>s. length (ir_sha256 env s) = 64"
    and "inj (ir_str env)" and "inj_on (ir_time env) (chain_times es \<union> chain_times fs)"
    and "k < length es" and "k < length fs" and "ic_EntryHash (es ! k) = ic_EntryHash (fs ! k)"
  shows "es ! k = fs ! k"
proof -
  let ?e = "es ! k" and ?f = "fs ! k"
  note es = verify_ok_nth [OF assms(1) [unfolded verifyChain_def]] and fs = verify_ok_nth [OF assms(2) [unfolded verifyChain_def]]
  have lens: "length (ic_PrevHash ?e) = length (ic_PrevHash ?f)"
  proof (cases k)
    case 0
    then show ?thesis using es [OF assms(7)] fs [OF assms(8)] by simp
  next
    case (Suc m)
    then have m: "m < length es" "m < length fs" using assms(7,8) by simp_all
    have "ic_PrevHash ?e = ic_EntryHash (es ! m)" "ic_PrevHash ?f = ic_EntryHash (fs ! m)"
      using es [OF assms(7)] fs [OF assms(8)] Suc by simp_all
    moreover have "length (ic_EntryHash (es ! m)) = 64" "length (ic_EntryHash (fs ! m)) = 64"
      using es [OF m(1)] fs [OF m(2)] assms(4) by (simp_all add: computeHash_def)
    ultimately show ?thesis by simp
  qed
  have "ir_sha256 env (ic_PrevHash ?e @ canonicalBytes env ?e) = ir_sha256 env (ic_PrevHash ?f @ canonicalBytes env ?f)"
    using es [OF assms(7)] fs [OF assms(8)] assms(9) by (simp add: computeHash_def)
  moreover have "ic_PrevHash ?e @ canonicalBytes env ?e \<in> hash_inputs env es \<union> hash_inputs env fs"
    unfolding hash_inputs_def by (rule UnI1) (rule imageI, rule nth_mem, rule assms(7))
  moreover have "ic_PrevHash ?f @ canonicalBytes env ?f \<in> hash_inputs env es \<union> hash_inputs env fs"
    unfolding hash_inputs_def by (rule UnI2) (rule imageI, rule nth_mem, rule assms(8))
  ultimately have "ic_PrevHash ?e @ canonicalBytes env ?e = ic_PrevHash ?f @ canonicalBytes env ?f"
    by (rule inj_onD [OF assms(3)])
  then have "ic_PrevHash ?e = ic_PrevHash ?f" "canonicalBytes env ?e = canonicalBytes env ?f" using lens by simp_all
  moreover have "inj_on (ir_time env) (entry_times ?e \<union> entry_times ?f)"
    using assms(7,8) by (intro inj_on_subset [OF assms(6)] Un_mono) (auto simp: chain_times_def intro: nth_mem)
  ultimately show ?thesis using canonicalBytes_inj [OF _ assms(5) _ _ assms(9)] by simp
qed

lemma chains_agree:
  assumes "vr_OK (verifyChain env es)" and "vr_OK (verifyChain env fs)"
    and "inj_on (ir_sha256 env) (hash_inputs env es \<union> hash_inputs env fs)" and "\<forall>s. length (ir_sha256 env s) = 64"
    and "inj (ir_str env)" and "inj_on (ir_time env) (chain_times es \<union> chain_times fs)"
    and "k < length es" and "k < length fs" and "ic_EntryHash (es ! k) = ic_EntryHash (fs ! k)"
  shows "take (Suc k) es = take (Suc k) fs"
  using assms(7-9)
proof (induction k)
  case 0
  from entry_agree [OF assms(1-6) this] show ?case using 0(1,2) by (simp add: take_Suc_conv_app_nth)
next
  case (Suc k)
  have same: "es ! Suc k = fs ! Suc k" by (rule entry_agree [OF assms(1-6) Suc.prems])
  have "ic_EntryHash (es ! k) = ic_EntryHash (fs ! k)"
    using verify_ok_nth [OF assms(1) [unfolded verifyChain_def] Suc.prems(1)]
      verify_ok_nth [OF assms(2) [unfolded verifyChain_def] Suc.prems(2)] same by simp
  then have "take (Suc k) es = take (Suc k) fs" using Suc.IH Suc.prems(1,2) by simp
  then show ?case using same Suc.prems(1,2) by (simp add: take_Suc_conv_app_nth [of "Suc k"])
qed

text \<open>
  Taking the newest entries away leaves a chain that verifies: only somebody who kept a later hash or the count
  can tell.
\<close>

lemma truncated_register_verifies:
  assumes "vr_OK (verifyChain env t)"
  shows "Register_Verify env None (take n t) =
    Inr \<lparr>vr_OK = True, vr_Count = length (take n t), vr_BrokenAtSeq = 0, vr_Detail = []\<rparr>"
proof -
  have ok: "vr_OK (verifyChain env (take n t))" using assms unfolding verifyChain_def by (rule verify_take)
  have "verifyChain env (take n t) = \<lparr>vr_OK = True, vr_Count = length (take n t), vr_BrokenAtSeq = 0, vr_Detail = []\<rparr>"
    using ok unfolding verifyChain_def by (rule verify_result)
  then show ?thesis by (simp add: Register_Verify_def Register_List_def verify_sorted [OF ok])
qed

section \<open>Filings\<close>

type_synonym filing = "uuid \<times> time \<times> string option \<times> auth_User \<times> NewIncident"

fun filed :: "register_env \<Rightarrow> filing list \<Rightarrow> register \<Rightarrow> register" where
  "filed env [] t = t"
| "filed env ((i, now, down, u, body) # fs) t = filed env fs (snd (file_incident env i now down u body t))"

lemma chain_tail_verified:
  assumes "vr_OK (verifyChain env t)"
  shows "chain_tail t = (length t, if t = [] then genesisHash else ic_EntryHash (last t))"
proof (cases t rule: rev_cases)
  case Nil
  then show ?thesis by (simp add: chain_tail_def register_rows_def)
next
  case (snoc es e)
  have "ic_Seq e = length t" using assms by (simp add: snoc verifyChain_def verify_append)
  then show ?thesis unfolding chain_tail_def verify_sorted [OF assms] by (simp add: snoc)
qed

lemma new_incident_fields:
  "ic_Seq (new_incident env i now inp l) = fst l + 1" "ic_PrevHash (new_incident env i now inp l) = snd l"
  "computeHash env (snd l) (new_incident env i now inp l) = ic_EntryHash (new_incident env i now inp l)"
  "ic_RetainUntil (new_incident env i now inp l) = retainUntil (ic_BecameAwareDate (new_incident env i now inp l))"
  "ic_BecameAwareDate (new_incident env i now inp l) mod day_ns = 0"
  by (simp_all add: new_incident_def Let_def computeHash_def canonicalBytes_def canonical_fields_def)

lemma file_incident_step:
  assumes "vr_OK (verifyChain env t)"
  obtains (unchanged) "snd (file_incident env i now down u body t) = t"
  | (appended) e where "snd (file_incident env i now down u body t) = t @ [e]" "vr_OK (verifyChain env (t @ [e]))"
      "ic_RetainUntil e = retainUntil (ic_BecameAwareDate e)" "ic_BecameAwareDate e mod day_ns = 0"
proof -
  define inp where "inp = body\<lparr>ni_RecordedBy := (if u_ID u \<noteq> uuid_Nil then ir_str env (u_ID u) else ''unknown'')\<rparr>"
  define e where "e = new_incident env i now inp (chain_tail t)"
  have choice: "snd (file_incident env i now down u body t) = t \<or> snd (file_incident env i now down u body t) = t @ [e]"
    unfolding file_incident_def Register_Create_def inp_def [symmetric] e_def [symmetric] Let_def
    by (simp split: option.split)
  have chain: "vr_OK (verifyChain env (t @ [e]))"
    using verify_take [OF assms [unfolded verifyChain_def], of "length (t @ [e])" "length t"]
      new_incident_fields [where env = env and i = i and now = now and inp = inp and l = "chain_tail t"]
    unfolding verifyChain_def verify_append e_def by (simp add: chain_tail_verified [OF assms])
  have kept: "ic_RetainUntil e = retainUntil (ic_BecameAwareDate e)" unfolding e_def by (rule new_incident_fields(4))
  have day: "ic_BecameAwareDate e mod day_ns = 0" unfolding e_def by (rule new_incident_fields(5))
  from choice show thesis using unchanged appended [OF _ chain kept day] by (rule disjE)
qed


lemma filed_append: "filed env (fs @ gs) t = filed env gs (filed env fs t)"
  by (induction env fs t rule: filed.induct) simp_all

text \<open>What every history of filings keeps.\<close>

definition register_ok :: "register_env \<Rightarrow> register \<Rightarrow> bool" where
  "register_ok env t \<longleftrightarrow> vr_OK (verifyChain env t) \<and> 
     (\<forall>e\<in>set t. ic_RetainUntil e = retainUntil (ic_BecameAwareDate e) \<and> ic_BecameAwareDate e mod day_ns = 0)"

lemma filed_keeps:
  assumes "register_ok env t"
  shows "register_ok env (filed env fs t) \<and> (\<exists>us. filed env fs t = t @ us)"
  using assms
proof (induction env fs t rule: filed.induct)
  case (2 env i now down u body fs t)
  have t: "vr_OK (verifyChain env t)" using 2(2) by (simp add: register_ok_def)
  from t show ?case
  proof (cases rule: file_incident_step [where i = i and now = now and down = down and u = u and body = body])
    case unchanged
    then show ?thesis using 2 by simp
  next
    case (appended e)
    then have "register_ok env (t @ [e])" using 2(2) by (simp add: register_ok_def)
    then have "register_ok env (filed env fs (t @ [e])) \<and> (\<exists>us. filed env fs (t @ [e]) = (t @ [e]) @ us)"
      using 2(1) appended(1) by simp
    then show ?thesis using appended(1) by auto
  qed
qed simp

lemma empty_register_ok: "register_ok env []"
  by (simp add: register_ok_def verifyChain_def)

text \<open>
  An accepted filing appends exactly the entry it answers: with the caller as its author and the body's fields, for
  administrators and \<open>devops-admin\<close> only. Whatever fails leaves the register as it is.
\<close>

lemma file_incident_outcome:
  assumes "guard_ok (ir_guard env) enf shares" and "file_incident env i now down u body t = (r, t')"
  shows "case r of
      Inr e \<Rightarrow> t' = t @ [e] \<and> console_editor u \<and> ic_ID e = i \<and> ic_Circumstances e = ni_Circumstances body \<and>
        ic_RecordedBy e = (if u_ID u \<noteq> uuid_Nil then ir_str env (u_ID u) else ''unknown'')
    | Inl e \<Rightarrow> t' = t \<and> (err_Status e = 403 \<longleftrightarrow> \<not> console_editor u)"
proof (cases "guard_check (ir_guard env) u adminConsoleResource ''edit''")
  case (Some ae)
  have "ae = newAPIError 403 ''forbidden'' ''you do not have permission to perform this action'' []"
    by (rule guard_ok_denies [OF assms(1) _ Some]) simp
  moreover have "r = Inl ae" "t' = t" using assms(2) Some by (simp_all add: file_incident_def)
  moreover have "\<not> console_editor u" using console_check(2) [OF assms(1), of u] Some by simp
  ultimately show ?thesis by (simp add: newAPIError_def)
next
  case None
  then have ed: "console_editor u" using console_check(2) [OF assms(1), of u] by simp
  show ?thesis
    using assms(2) ed None unfolding file_incident_def Register_Create_def Let_def
    by (auto simp: new_incident_def Let_def newAPIError_def split: option.splits if_splits)
qed

section \<open>A sample register\<close>

text \<open>A shifting of the text stands for the hash: it is not a good one, but it separates these two entries.\<close>

definition shift_hash :: "string \<Rightarrow> string" where
  "shift_hash s = take 64 (drop 1 s @ replicate 64 CHR ''0'')"

definition sample_register_env :: register_env where
  "sample_register_env =
     \<lparr>ir_guard = no_enforcer, ir_parse = (\<lambda>_. None), ir_str = uuid_hex, ir_time = (\<lambda>t. decimal (nat t)), ir_sha256 = shift_hash\<rparr>"

definition sample_incident :: NewIncident where
  "sample_incident =
     \<lparr>ni_PersonalInfoInvolved = ''email'', ni_Circumstances = ''misdirected'', ni_IncidentOccurredAt = ''spring'', ni_BecameAwareDate = 0,
      ni_PeopleAffected = ''1'', ni_RiskAssessment = ''No'', ni_CAINotified = False, ni_CAINotifiedDetail = [],
      ni_IndividualsNotified = True, ni_IndividualsNotifiedDetail = ''letter'', ni_MeasuresTaken = ''training'', ni_RecordedBy = []\<rparr>"

definition sample_entry :: "uuid \<Rightarrow> nat \<times> string \<Rightarrow> Incident" where
  "sample_entry i l = new_incident sample_register_env i 0 (sample_incident\<lparr>ni_RecordedBy := uuid_hex 3\<rparr>) l"

definition sample_first :: Incident where "sample_first = sample_entry 1 (0, genesisHash)"

definition sample_second :: Incident where "sample_second = sample_entry 2 (1, ic_EntryHash sample_first)"

lemma sample_entry_fields:
  "ic_ID (sample_entry i l) = i" "ic_Seq (sample_entry i l) = fst l + 1" "ic_PrevHash (sample_entry i l) = snd l"
  "ic_EntryHash (sample_entry i l) = shift_hash (snd l @ canonicalBytes sample_register_env (sample_entry i l))"
  by (simp_all add: sample_entry_def new_incident_def Let_def sample_register_env_def computeHash_def canonicalBytes_def canonical_fields_def)

lemma sample_times:
  "ic_BecameAwareDate (sample_entry i l) = 0" "ic_RecordedAt (sample_entry i l) = 0" "ic_RetainUntil (sample_entry i l) = retainUntil 0"
  by (simp_all add: sample_entry_def new_incident_def Let_def sample_incident_def)

lemma retained_1975: "retainUntil 0 = 1825 * day_ns + day_ns"
  by (simp add: retainUntil_def retentionYears_def day_ns_def epoch_days_def add_years_def civil_def year_days_def leap_def Let_def)

lemma sample_hashes:
  "take 2 (ic_EntryHash sample_first) = ''EN''" "take 1 (ic_EntryHash sample_second) = ''N''"
proof -
  show first: "take 2 (ic_EntryHash sample_first) = ''EN''"
    unfolding sample_first_def sample_entry_fields by (simp add: shift_hash_def genesisHash_def)
  then obtain r where r: "ic_EntryHash sample_first = ''EN'' @ r" by (metis append_take_drop_id)
  show "take 1 (ic_EntryHash sample_second) = ''N''"
    unfolding sample_second_def sample_entry_fields by (simp add: shift_hash_def r)
qed

lemma sample_filing:
  "file_incident sample_register_env i 0 None operator sample_incident t =
     (let e = sample_entry i (chain_tail t) in
      if ic_Seq e \<in> ic_Seq ` set t \<or> ic_ID e \<in> ic_ID ` set t \<or> ic_EntryHash e \<in> ic_EntryHash ` set t
      then (Inl (newAPIError 500 ''internal_error'' ''failed to record incident'' []), t) else (Inr e, t @ [e]))"
proof -
  have guard: "guard_check (ir_guard sample_register_env) operator adminConsoleResource ''edit'' = None"
    by (simp add: guard_check_def sample_register_env_def no_enforcer_def)
  have who: "(if u_ID operator \<noteq> uuid_Nil then ir_str sample_register_env (u_ID operator) else ''unknown'') = uuid_hex 3"
    by (simp add: operator_def auth_User_zero_def sample_register_env_def)
  show ?thesis
    unfolding file_incident_def guard who Register_Create_def sample_entry_def Let_def by (simp split: if_split)
qed

definition sample_filings :: "filing list" where
  "sample_filings = [(1, 0, None, operator, sample_incident)]"

definition later_filings :: "filing list" where
  "later_filings = [(2, 0, None, operator, sample_incident)]"

lemma sample_filed: "filed sample_register_env sample_filings [] = [sample_first]"
  by (simp add: sample_filings_def sample_filing chain_tail_def register_rows_def sample_first_def Let_def)

lemma sample_refiled: "filed sample_register_env (sample_filings @ later_filings) [] = [sample_first, sample_second]"
proof -
  have tail: "chain_tail [sample_first] = (1, ic_EntryHash sample_first)"
    by (simp add: chain_tail_def register_rows_def sample_first_def sample_entry_fields)
  have "ic_EntryHash sample_second \<noteq> ic_EntryHash sample_first"
  proof
    assume "ic_EntryHash sample_second = ic_EntryHash sample_first"
    then have "take 1 (take 2 (ic_EntryHash sample_first)) = ''N''" using sample_hashes(2) by simp
    then show False unfolding sample_hashes(1) by simp
  qed
  moreover have "ic_Seq sample_second \<noteq> ic_Seq sample_first" "ic_ID sample_second \<noteq> ic_ID sample_first"
    by (simp_all add: sample_second_def sample_first_def sample_entry_fields)
  ultimately have "snd (file_incident sample_register_env 2 0 None operator sample_incident [sample_first]) = [sample_first, sample_second]"
    unfolding sample_filing tail sample_second_def [symmetric] Let_def by simp
  then show ?thesis unfolding filed_append sample_filed by (simp add: later_filings_def)
qed

section \<open>Properties\<close>

lemma exported_chain:
  assumes "export_register env down u d = Inr (es, v)" and "vr_OK v"
  shows "vr_OK (verifyChain env es)"
proof -
  have "v = verifyChain env es"
    using assms(1) by (auto simp: export_register_def as_error_def Register_Export_def Register_List_def split: option.splits)
  then show ?thesis using assms(2) by simp
qed

text \<open>
  C28. The register is append-only and tamper-evident. From an empty register, whatever filings are made by
  whomever, with whatever failures, the chain verifies, later filings only extend it, and every entry carries as its
  retention date the same day of the same month five calendar years after the date of awareness, or 1 March where that
  date is a 29 February and the fifth year has none. And when an export of a register, however its rows came
  about, carries a positive integrity proof, and its entry at some position has the hash that was
  filed there, then that entry and everything before it are as filed: this part supposes SHA-256 free of collisions
  on the bytes of the two chains, and the texts of identifiers and of the times in them to tell these apart.
\<close>

theorem register_tamper_evident:
  shows "Register_Verify env None (filed env fs []) =
      Inr \<lparr>vr_OK = True, vr_Count = length (filed env fs []), vr_BrokenAtSeq = 0, vr_Detail = []\<rparr>
    \<and> take (length (filed env fs [])) (filed env (fs @ gs) []) = filed env fs []
    \<and> (\<forall>e\<in>set (filed env fs []). \<exists>Y m d. valid_date Y m d \<and> ic_BecameAwareDate e = midnight Y m d \<and>
          ic_RetainUntil e = (if valid_date (Y + 5) m d then midnight (Y + 5) m d else midnight (Y + 5) 3 1))
    \<and> (\<forall>down u d es v k.
          export_register env down u d = Inr (es, v) \<longrightarrow> vr_OK v \<longrightarrow>
          k < length (filed env fs []) \<longrightarrow> k < length es \<longrightarrow> ic_EntryHash (es ! k) = ic_EntryHash (filed env fs [] ! k) \<longrightarrow>
          inj_on (ir_sha256 env) (hash_inputs env (filed env fs []) \<union> hash_inputs env es) \<longrightarrow>
          (\<forall>s. length (ir_sha256 env s) = 64) \<longrightarrow> inj (ir_str env) \<longrightarrow>
          inj_on (ir_time env) (chain_times (filed env fs []) \<union> chain_times es) \<longrightarrow>
          take (Suc k) es = take (Suc k) (filed env fs []))"
proof -
  let ?t = "filed env fs []"
  have ok: "register_ok env ?t" using filed_keeps [OF empty_register_ok] by blast
  then have t: "vr_OK (verifyChain env ?t)" by (simp add: register_ok_def)
  obtain us where us: "filed env (fs @ gs) [] = ?t @ us" using filed_keeps [OF ok, of gs] by (auto simp: filed_append)
  have ret: "\<exists>Y m d. valid_date Y m d \<and> ic_BecameAwareDate e = midnight Y m d \<and>
      ic_RetainUntil e = (if valid_date (Y + 5) m d then midnight (Y + 5) m d else midnight (Y + 5) 3 1)" if "e \<in> set ?t" for e
    using ok that retainUntil_calendar [of "ic_BecameAwareDate e"] unfolding five_years_later_def by (simp add: register_ok_def)
  have tamper: "take (Suc k) es = take (Suc k) ?t"
    if "export_register env down u d = Inr (es, v)" "vr_OK v" "k < length ?t" "k < length es" "ic_EntryHash (es ! k) = ic_EntryHash (?t ! k)"
      "inj_on (ir_sha256 env) (hash_inputs env ?t \<union> hash_inputs env es)" "\<forall>s. length (ir_sha256 env s) = 64" "inj (ir_str env)"
      "inj_on (ir_time env) (chain_times ?t \<union> chain_times es)" for down u d es v k
    using chains_agree [OF t exported_chain [OF that(1,2)] that(6-9,3,4) that(5) [symmetric]] by (rule sym)
  show ?thesis
  proof (intro conjI)
    show "Register_Verify env None ?t = Inr \<lparr>vr_OK = True, vr_Count = length ?t, vr_BrokenAtSeq = 0, vr_Detail = []\<rparr>"
      using truncated_register_verifies [OF t, of "length ?t"] by simp
    show "take (length ?t) (filed env (fs @ gs) []) = ?t" by (simp add: us)
  qed (use ret in blast, intro allI impI, rule tamper)
qed

theorem register_tamper_evident_witness:
  "take 1 [sample_first, sample_second] = filed sample_register_env sample_filings []
   \<and> filed sample_register_env sample_filings [] = [sample_first]
   \<and> (\<exists>Y m d. valid_date Y m d \<and> ic_BecameAwareDate sample_first = midnight Y m d \<and>
        ic_RetainUntil sample_first = (if valid_date (Y + 5) m d then midnight (Y + 5) m d else midnight (Y + 5) 3 1))"
proof -
  let ?es = "[sample_first, sample_second]"
  have ok: "vr_OK (verifyChain sample_register_env ?es)"
    using filed_keeps [OF empty_register_ok, of sample_register_env "sample_filings @ later_filings"]
    unfolding sample_refiled register_ok_def by simp
  have export: "export_register sample_register_env None operator ?es = Inr (?es, verifyChain sample_register_env ?es)"
    unfolding export_register_def Register_Export_def Register_List_def verify_sorted [OF ok]
    by (simp add: guard_check_def as_error_def sample_register_env_def no_enforcer_def verify_sorted [OF ok])
  have inputs: "hash_inputs sample_register_env (filed sample_register_env sample_filings []) \<union> hash_inputs sample_register_env ?es =
      {ic_PrevHash sample_first @ canonicalBytes sample_register_env sample_first, ic_PrevHash sample_second @ canonicalBytes sample_register_env sample_second}"
    unfolding sample_filed hash_inputs_def by auto
  have hashes: "shift_hash (ic_PrevHash sample_first @ canonicalBytes sample_register_env sample_first) = ic_EntryHash sample_first"
    "shift_hash (ic_PrevHash sample_second @ canonicalBytes sample_register_env sample_second) = ic_EntryHash sample_second"
    unfolding sample_first_def sample_second_def sample_entry_fields by simp_all
  have "take 1 (ic_EntryHash sample_first) = take 1 (take 2 (ic_EntryHash sample_first))" by simp
  then have "take 1 (ic_EntryHash sample_first) = ''E''" unfolding sample_hashes(1) by simp
  then have differ: "ic_EntryHash sample_first \<noteq> ic_EntryHash sample_second" using sample_hashes(2) by auto
  have collision: "inj_on (ir_sha256 sample_register_env)
      (hash_inputs sample_register_env (filed sample_register_env sample_filings []) \<union> hash_inputs sample_register_env ?es)"
    unfolding inputs using hashes differ by (auto simp: inj_on_def sample_register_env_def)
  have len: "\<forall>s. length (ir_sha256 sample_register_env s) = 64" by (simp add: sample_register_env_def shift_hash_def min_def)
  have ids: "inj (ir_str sample_register_env)" by (simp add: sample_register_env_def inj_def)
  have at: "chain_times (filed sample_register_env sample_filings []) \<union> chain_times ?es = {0, retainUntil 0}"
    unfolding sample_filed by (auto simp: chain_times_def entry_times_def sample_first_def sample_second_def sample_times)
  have "ir_time sample_register_env 0 \<noteq> ir_time sample_register_env (retainUntil 0)"
    unfolding retained_1975 by (simp add: day_ns_def sample_register_env_def decimal_eq_iff)
  then have times: "inj_on (ir_time sample_register_env) (chain_times (filed sample_register_env sample_filings []) \<union> chain_times ?es)"
    unfolding at by (simp add: inj_on_def)
  have k: "0 < length (filed sample_register_env sample_filings [])" "0 < length ?es"
    "ic_EntryHash (?es ! 0) = ic_EntryHash (filed sample_register_env sample_filings [] ! 0)" by (simp_all add: sample_filed)
  note T = register_tamper_evident [of sample_register_env sample_filings later_filings]
  have "take (Suc 0) ?es = take (Suc 0) (filed sample_register_env sample_filings [])"
    by (rule T [THEN conjunct2, THEN conjunct2, THEN conjunct2, THEN spec, THEN spec, THEN spec, THEN spec, THEN spec, THEN spec,
        THEN mp, OF export, THEN mp, OF ok, THEN mp, OF k(1), THEN mp, OF k(2), THEN mp, OF k(3), THEN mp, OF collision,
        THEN mp, OF len, THEN mp, OF ids, THEN mp, OF times])
  then have "take 1 ?es = filed sample_register_env sample_filings []" by (simp add: sample_filed)
  moreover have "sample_first \<in> set (filed sample_register_env sample_filings [])" by (simp add: sample_filed)
  then have "\<exists>Y m d. valid_date Y m d \<and> ic_BecameAwareDate sample_first = midnight Y m d \<and>
        ic_RetainUntil sample_first = (if valid_date (Y + 5) m d then midnight (Y + 5) m d else midnight (Y + 5) 3 1)"
    by (rule bspec [OF T [THEN conjunct2, THEN conjunct2, THEN conjunct1]])
  ultimately show ?thesis using sample_filed by blast
qed

end
