(* ===== verification/Spec2Isabelle.thy ===== *)
theory Spec2Isabelle
  imports Prelude Minerals_Domain FieldVisibility Authz ApiGuard Redact ExifChunks ExifJpeg ExifBlob
    RateLimit RateLimitTiers UserRepo AuthFlow AdminSuspend Database AccountErase Json Cursor Paging SpecimenRepo Formula TypeData
    SpecimenService LabelPDF QRSheets StateCookie Sessions BFFHandlers SessionRefresh ObjectStore Photos StoredFiles PhotoService
    Journal JournalFiles StorageHistory Collectors PortArchive ImportEngine ArchiveReading ImportCommit ImportExample ExportService ExportContents
    Moderation AdminConsole Profile MineralSpecies IncidentRegister
begin

text \<open>
  A model of the \<^emph>\<open>minerals\<close> server, a web service in which collectors keep a catalogue of mineral,
  rock, meteorite and fossil specimens with photos, journals and printable labels. The server is
  written in Go (\<open>src/internal\<close>, \<open>src/cmd\<close>): HTTP handlers over the huma framework, a Postgres
  repository per table, an authorization policy evaluated by casbin, OpenID Connect logins with browser
  sessions, and an object store for images.

  \<^bold>\<open>How the parts interact.\<close> A request passes the rate limiter (\<open>RateLimit\<close>, \<open>RateLimitTiers\<close>) and an
  authentication chain (bearer tokens: \<open>AuthFlow\<close>; browser sessions: \<open>StateCookie\<close>, \<open>BFFHandlers\<close>,
  \<open>Sessions\<close>, \<open>SessionRefresh\<close>), which puts an identity into its context. A handler (\<open>SpecimenService\<close>,
  \<open>PhotoService\<close>, \<open>Journal\<close>, \<open>JournalFiles\<close>, \<open>Collectors\<close>, \<open>QRSheets\<close>, \<open>AdminSuspend\<close>, \<open>AccountErase\<close>,
  \<open>ImportEngine\<close>, \<open>ExportService\<close>, \<open>Moderation\<close>, \<open>AdminConsole\<close>, \<open>Profile\<close>, \<open>MineralSpecies\<close>,
  \<open>IncidentRegister\<close>) parses its input (\<open>Json\<close>, \<open>Cursor\<close>, \<open>TypeData\<close>), asks the guard
  (\<open>ApiGuard\<close>) which asks the policy (\<open>Authz\<close>), works on the repositories (\<open>UserRepo\<close>, \<open>Database\<close>,
  \<open>SpecimenRepo\<close>, \<open>Photos\<close> and the repositories inside the endpoint theories) and on the object store
  (\<open>ObjectStore\<close>, \<open>StoredFiles\<close>), and shows the result through the redactor (\<open>Redact\<close>), which resolves the
  visibility of each field (\<open>FieldVisibility\<close>). Uploaded images lose their metadata in the filters
  \<open>ExifChunks\<close>, \<open>ExifJpeg\<close> and \<open>ExifBlob\<close>.

  \<^bold>\<open>Conventions.\<close> A struct is a record with the fields of the source, an error is the left side of a sum
  with the status, code and message of the response, a handler returns its reply and the new database
  (and store), and a table is a list of rows with its constraints as an invariant. Statements that may
  fail take their failure from the environment record of the request, so that every error branch of a
  handler is reached by some environment. Code outside the repository (casbin, the token verifier, the
  identity provider, the object store, image codecs, the ZIP, PDF and QR packages, hashes, the text forms
  of identifiers, times and floats, full-text search) is an argument of the definitions.

  \<^bold>\<open>Interfaces.\<close> What the code relies on of such an argument, and what a repository promises its callers,
  is a locale: \<open>uuid_text\<close> and \<open>uniform_text\<close> (identifiers in keys and paths), \<open>text_forms\<close> (identifiers,
  times and floats in cursors), \<open>value_forms\<close> (the values inside payloads), \<open>casbin_enforcer\<close>,
  \<open>goexif_builder\<close>, \<open>keyset\<close> (a list query and the cursor of its rows; a sublocale of \<open>text_forms\<close> for each
  ordering), \<open>user_repo\<close> and \<open>user_repo_up\<close>, \<open>specimen_repo\<close>. Each is interpreted on the definitions of the
  model, the text forms on a concrete codec.

  \<^bold>\<open>The theories.\<close>

  \<^item> \<open>Prelude\<close>: base types, slices, byte order, strings, steps that can fail.
  \<^item> \<open>Minerals_Domain\<close>: \<open>internal/domain\<close>, the rows, enumerations, sentinel errors and payload structs.
  \<^item> \<open>FieldVisibility\<close>: \<open>internal/visibility\<close>, the resolution chain; it returns the first layer set.
  \<^item> \<open>Authz\<close>: \<open>internal/authz\<close>, the casbin model text, policies and groupings. C2: the decisions in
    closed form. Role inheritance is followed to depth 10, casbin's own limit; the default grouping has
    depth 1.
  \<^item> \<open>ApiGuard\<close>: \<open>internal/api/authz.go\<close> and the error envelope; lemmas on who may read and
    write, on which the properties of the handlers rest.
  \<^item> \<open>Redact\<close>: \<open>internal/api/redact.go\<close>. C6: what a caller sees and does not see of a specimen.
    The permission of a value is that of the policy table of \<open>Authz\<close>, not of the handler.
  \<^item> \<open>ExifChunks\<close>, \<open>ExifJpeg\<close>, \<open>ExifBlob\<close>: \<open>internal/storage/exif\<close>. C10, C12, C13: the filters refine the
    removal of segments on the parsed file; C16: the EXIF blob keeps allowed tags only.
  \<^item> \<open>RateLimit\<close>, \<open>RateLimitTiers\<close>: \<open>internal/ratelimit\<close>, \<open>internal/api/ratelimit.go\<close>. C17: the budget of
    every stretch of calls, with clock readings out of order by up to a skew (the clock is read before the
    mutex is taken) and with the idle time in place of a longer window, because idle buckets are swept
    then; C18: the exact balance; lemmas on the wait a refusal announces, the keys and the tiers.
  \<^item> \<open>UserRepo\<close>, \<open>AuthFlow\<close>: \<open>internal/db/user_postgres.go\<close>, \<open>internal/auth/auth.go\<close>,
    \<open>internal/api/huma_auth.go\<close>. C23: concurrent first logins; C24: the protected chain.
  \<^item> \<open>StateCookie\<close>, \<open>Sessions\<close>, \<open>SessionRefresh\<close>, \<open>BFFHandlers\<close>: \<open>internal/auth/bff\<close>. C7: the signed login
    state; C8: the session table, the middleware and its CSRF check; C21: the refresh of one session as a
    step relation over interleaved requests; C14, C15: logout and the whole login.
  \<^item> \<open>AdminSuspend\<close>: the suspension half of \<open>internal/api/admin.go\<close>; lemmas on the outcome of
    a suspension, its reversal and the lock-out of a suspended account.
  \<^item> \<open>Database\<close>, \<open>AccountErase\<close>: tables, foreign keys, transactions; \<open>internal/db/account_erase_postgres.go\<close>
    and \<open>internal/api/account.go\<close>. C29, C30: the erasure cascade.
  \<^item> \<open>Json\<close>: the JSON grammar, printer and struct decoding of \<open>encoding/json\<close>. The parser's fuel is twice
    the length of the text plus one; the lemma \<open>parse_val_fuel\<close> shows more changes nothing.
  \<^item> \<open>Cursor\<close>, \<open>Paging\<close>, \<open>SpecimenRepo\<close>: \<open>internal/db/cursor.go\<close>, \<open>shares.go\<close>, \<open>specimen_postgres.go\<close>. C32:
    cursors round-trip; C34: the query scopes equal the guard; C35: histories keep the constraints.
    Following the cursors of a list takes fuel of one more than its rows, which is shown to suffice.
  \<^item> \<open>Formula\<close>, \<open>TypeData\<close>: \<open>internal/mindat/format.go\<close>, the payloads of \<open>internal/api/specimens.go\<close>. C36.
  \<^item> \<open>SpecimenService\<close>: the handlers of \<open>internal/api/specimens.go\<close>. C38, C39.
  \<^item> \<open>LabelPDF\<close>, \<open>QRSheets\<close>: \<open>internal/pdf\<close>, \<open>internal/db/qr_sheet_postgres.go\<close>, \<open>internal/api/qr_sheets.go\<close>.
    C40: the endpoints refine an ordered list per account; C20: the printed page.
  \<^item> \<open>ObjectStore\<close>, \<open>Photos\<close>, \<open>StoredFiles\<close>, \<open>PhotoService\<close>: \<open>internal/storage\<close>, the photo and file
    repositories and \<open>internal/api/photos.go\<close>. C3, C11: uploads; C4: downloads; C22: the photo list.
  \<^item> \<open>Journal\<close>, \<open>JournalFiles\<close>: the journal repositories, \<open>internal/api/journal.go\<close> and \<open>journal_files.go\<close>.
    C9: entries; C19: the file endpoint.
  \<^item> \<open>StorageHistory\<close>: the upload and removal handlers of the components above in any order, with failing
    transactions and store calls. C1: no row ever lacks its object. An import is not a step of this
    history: it commits its rows before it stores their objects, and C37 states what holds instead.
  \<^item> \<open>Collectors\<close>: the collector repositories and endpoints. C27: the chain refines an ordered list.
  \<^item> \<open>PortArchive\<close>, \<open>ImportEngine\<close>, \<open>ArchiveReading\<close>, \<open>ImportCommit\<close>, \<open>ImportExample\<close>:
    \<open>internal/portability\<close> and \<open>internal/api/import.go\<close>: the archive reader, validation, the commit and a
    run on a sample archive. \<open>ArchiveReading\<close> states what the text of an archive says, from the JSON values
    of its entries and member by member; C31: a commit appends one row for each record of that text, given
    column by column; C37: the objects of the new rows are stored or reported.
  \<^item> \<open>ExportService\<close>, \<open>ExportContents\<close>: \<open>internal/api/export.go\<close>. The page loop is a
    \<open>partial_function (option)\<close>, proved to return. \<open>ExportContents\<close> describes a complete archive from the
    rows of the database: its entries, the rows each is about, and the members of each JSON object; C33: an
    export ends, completes exactly when everything can be written and fetched, and then holds that. C25:
    the import refuses what the export writes.
  \<^item> \<open>Moderation\<close>: \<open>internal/api/moderation.go\<close>. C5: a takedown hides a specimen and its photos from
    outsiders; lemmas that the two removals do what the owners' own deletions do.
  \<^item> \<open>AdminConsole\<close>: the overview and lists of \<open>internal/api/admin.go\<close>, \<open>internal/db/admin_postgres.go\<close>, and
    the registration toggle, \<open>internal/api/registration.go\<close> with \<open>internal/db/settings_postgres.go\<close>.
    Lemmas: who may look, following the feed to its end, and what the toggle leaves in both stores.
  \<^item> \<open>Profile\<close>: \<open>internal/api/profile.go\<close>. C26: patches of the profile. Go visits the patch in any order,
    so the order is an argument of which only the multiset of entries is used.
  \<^item> \<open>MineralSpecies\<close>: \<open>internal/mindat/mindat.go\<close>, \<open>internal/api/mineral_species.go\<close> and its repository.
    Lemmas: the table's constraints under search and creation, and which searches find what was fetched.
  \<^item> \<open>IncidentRegister\<close>: \<open>internal/incidentregister\<close>, \<open>internal/api/incident_register.go\<close>. C28: the chain is
    append-only and tamper-evident, the latter supposing a hash without collisions. The retention date is
    computed the way \<open>time.AddDate\<close> does and proved to be the same day five calendar years later (1 March
    for a 29 February without counterpart), with the calendar stated on its own.

  \<^bold>\<open>Simplifications.\<close> White space and letter case are those of ASCII where Go trims and folds Unicode. A
  \<open>float64\<close> is an exact rational, in the limiter and in payloads, without rounding. Positions in a cursor are
  unbounded integers, where the driver refuses one outside 32 bits with an error. A transaction commits or
  leaves no trace, a commit of unknown outcome is not modelled, and inside the erasure no single statement
  fails on the driver. A raw JSON member is carried as its value and printed again. The download handlers
  take the identity of the caller as an argument; on their routes no resolver runs, so that for a bearer
  token it is the subject of the token, which the manifest lists as a finding.

  \<^bold>\<open>Not modelled.\<close> HTTP itself (routing, multipart parsing, OpenAPI generation by huma), SQL as a language
  (each statement is modelled by its effect on the rows), the process around the handlers (configuration,
  start-up, migrations, command line tools, metrics), the clients of the identity provider (Keycloak's
  administration, the OpenID provider's discovery and keys) and the rendering of markdown and web pages. The
  manifest lists these parts with the reason for each.
\<close>

end
